(* ===== verification/Prelude.thy ===== *)
theory Prelude
  imports Complex_Main
begin

text \<open>
  Shared vocabulary of the development: Rust's \<open>Result\<close> as a sum with the error on the left,
  \<open>std::cmp::Ordering\<close>, the stable \<open>slice::sort_by\<close>, checked machine arithmetic on bounded
  integers, decimal formatting for error messages, and the ASCII character classes that the
  validators use. Strings are lists of bytes (\<open>string = char list\<close>, \<open>char\<close> has 256 values), so
  \<open>length\<close> is Rust's \<open>str::len\<close>.
\<close>

named_theorems result_simps \<open>unfolding rules for results and orderings\<close>
named_theorems storage_rt \<open>round trips between enums and their stored strings\<close>

section \<open>Results\<close>

definition and_then :: "'e + 'a \<Rightarrow> ('a \<Rightarrow> 'e + 'b) \<Rightarrow> 'e + 'b" where
  "and_then m k = (case m of Inl e \<Rightarrow> Inl e | Inr x \<Rightarrow> k x)"

definition ok_or :: "'e \<Rightarrow> 'a option \<Rightarrow> 'e + 'a" where
  "ok_or e m = (case m of None \<Rightarrow> Inl e | Some x \<Rightarrow> Inr x)"

definition guard_err :: "bool \<Rightarrow> 'e \<Rightarrow> 'e + unit" where
  "guard_err b e = (if b then Inl e else Inr ())"

definition is_ok :: "'e + 'a \<Rightarrow> bool" where
  "is_ok m = (case m of Inl _ \<Rightarrow> False | Inr _ \<Rightarrow> True)"

lemma and_then_simps [simp, result_simps]:
  "and_then (Inl e) k = Inl e"
  "and_then (Inr x) k = k x"
  by (simp_all add: and_then_def)

lemma and_then_eq_Inr [result_simps]:
  "and_then m k = Inr y \<longleftrightarrow> (\<exists>x. m = Inr x \<and> k x = Inr y)"
  by (cases m) auto

lemma and_then_eq_Inl [result_simps]:
  "and_then m k = Inl e \<longleftrightarrow> m = Inl e \<or> (\<exists>x. m = Inr x \<and> k x = Inl e)"
  by (cases m) auto

lemma ok_or_eq_Inr [result_simps]: "ok_or e m = Inr x \<longleftrightarrow> m = Some x"
  by (cases m) (auto simp: ok_or_def)

lemma ok_or_eq_Inl [result_simps]: "ok_or e m = Inl e' \<longleftrightarrow> m = None \<and> e' = e"
  by (cases m) (auto simp: ok_or_def)

lemma ok_or_simps [simp]: "ok_or e None = Inl e" "ok_or e (Some x) = Inr x"
  by (simp_all add: ok_or_def)

lemma guard_err_simps [simp]: "guard_err True e = Inl e" "guard_err False e = Inr ()"
  by (simp_all add: guard_err_def)

lemma guard_err_eq_Inr [result_simps]: "guard_err b e = Inr u \<longleftrightarrow> \<not> b"
  by (simp add: guard_err_def)

lemma guard_err_eq_Inl [result_simps]: "guard_err b e = Inl e' \<longleftrightarrow> b \<and> e' = e"
  by (auto simp: guard_err_def)

lemma is_ok_simps [simp]: "is_ok (Inl e) = False" "is_ok (Inr x) = True"
  by (simp_all add: is_ok_def)

lemma is_ok_iff: "is_ok m \<longleftrightarrow> (\<exists>x. m = Inr x)"
  by (cases m) auto

text \<open>A \<open>for\<close> loop whose body may return an error early.\<close>

fun try_each :: "('a \<Rightarrow> 'e + unit) \<Rightarrow> 'a list \<Rightarrow> 'e + unit" where
  "try_each f [] = Inr ()"
| "try_each f (x # xs) = and_then (f x) (\<lambda>_. try_each f xs)"

lemma try_each_eq_Inr [result_simps]: "try_each f xs = Inr u \<longleftrightarrow> (\<forall>x \<in> set xs. f x = Inr ())"
  by (induction xs) (auto simp: and_then_eq_Inr)

text \<open>A fold whose body may return an error early.\<close>

fun try_fold :: "('s \<Rightarrow> 'a \<Rightarrow> 'e + 's) \<Rightarrow> 's \<Rightarrow> 'a list \<Rightarrow> 'e + 's" where
  "try_fold f s [] = Inr s"
| "try_fold f s (x # xs) = and_then (f s x) (\<lambda>s'. try_fold f s' xs)"

lemma try_fold_append:
  "try_fold f s (xs @ ys) = and_then (try_fold f s xs) (\<lambda>s'. try_fold f s' ys)"
proof (induction xs arbitrary: s)
  case (Cons x xs)
  then show ?case by (cases "f s x") simp_all
qed simp

lemma try_fold_invariant:
  assumes "try_fold f s xs = Inr t" and "P s"
    and "\<And>s x s'. P s \<Longrightarrow> x \<in> set xs \<Longrightarrow> f s x = Inr s' \<Longrightarrow> P s'"
  shows "P t"
  using assms
proof (induction xs arbitrary: s)
  case (Cons x xs)
  from Cons.prems(1) obtain s' where s': "f s x = Inr s'" and t: "try_fold f s' xs = Inr t"
    by (auto simp: and_then_eq_Inr)
  from s' Cons.prems(2,3) have "P s'" by (meson list.set_intros(1))
  with t Cons.prems(3) show ?case by (auto intro: Cons.IH)
qed simp

section \<open>Orderings\<close>

datatype ordering = Less | Equal | Greater

fun reverse_ordering :: "ordering \<Rightarrow> ordering" where
  "reverse_ordering Less = Greater"
| "reverse_ordering Equal = Equal"
| "reverse_ordering Greater = Less"

definition then_with :: "ordering \<Rightarrow> ordering \<Rightarrow> ordering" where
  "then_with a b = (case a of Equal \<Rightarrow> b | _ \<Rightarrow> a)"

lemma then_with_simps [simp]:
  "then_with Less b = Less" "then_with Equal b = b" "then_with Greater b = Greater"
  by (simp_all add: then_with_def)

lemma then_with_Less: "then_with a b = Less \<longleftrightarrow> a = Less \<or> (a = Equal \<and> b = Less)"
  by (cases a) auto

lemma then_with_Equal: "then_with a b = Equal \<longleftrightarrow> a = Equal \<and> b = Equal"
  by (cases a) auto

lemma then_with_Greater: "then_with a b = Greater \<longleftrightarrow> a = Greater \<or> (a = Equal \<and> b = Greater)"
  by (cases a) auto

lemma then_with_assoc: "then_with (then_with a b) c = then_with a (then_with b c)"
  by (cases a) auto

lemma reverse_then_with:
  "reverse_ordering (then_with a b) = then_with (reverse_ordering a) (reverse_ordering b)"
  by (cases a) auto

definition cmp_lin :: "'a::linorder \<Rightarrow> 'a \<Rightarrow> ordering" where
  "cmp_lin x y = (if x < y then Less else if x = y then Equal else Greater)"

text \<open>
  A comparator in the sense of \<open>sort_by\<close>: its weak order is total and transitive, and swapping
  the arguments reverses it. The laws are stated relative to a set of valid values, because
  several comparators of the code are lawful on validated (finite) values only.
\<close>

locale lawful_cmp =
  fixes valid :: "'a \<Rightarrow> bool" and cmp :: "'a \<Rightarrow> 'a \<Rightarrow> ordering"
  assumes cmp_flip: "valid x \<Longrightarrow> valid y \<Longrightarrow> cmp y x = reverse_ordering (cmp x y)"
    and cmp_trans: "valid x \<Longrightarrow> valid y \<Longrightarrow> valid z \<Longrightarrow>
      cmp x y \<noteq> Greater \<Longrightarrow> cmp y z \<noteq> Greater \<Longrightarrow> cmp x z \<noteq> Greater"
begin

lemma cmp_refl: "valid x \<Longrightarrow> cmp x x = Equal"
  using cmp_flip [of x x] by (cases "cmp x x") auto

lemma cmp_total: "valid x \<Longrightarrow> valid y \<Longrightarrow> cmp x y \<noteq> Greater \<or> cmp y x \<noteq> Greater"
  using cmp_flip [of x y] by (cases "cmp x y") auto

lemma cmp_Less_trans:
  assumes "valid x" "valid y" "valid z" "cmp x y = Less" "cmp y z \<noteq> Greater"
  shows "cmp x z = Less"
proof (rule ccontr)
  assume "cmp x z \<noteq> Less"
  with assms(1,3) have "cmp z x \<noteq> Greater"
    using cmp_flip [of x z] by (cases "cmp x z") auto
  with assms have "cmp y x \<noteq> Greater" using cmp_trans [of y z x] by auto
  with assms(1,2,4) show False using cmp_flip [of x y] by auto
qed

end

section \<open>Stable sorting with a comparator\<close>

fun insert_by :: "('a \<Rightarrow> 'a \<Rightarrow> ordering) \<Rightarrow> 'a \<Rightarrow> 'a list \<Rightarrow> 'a list" where
  "insert_by cmp x [] = [x]"
| "insert_by cmp x (y # ys) =
     (if cmp x y = Greater then y # insert_by cmp x ys else x # y # ys)"

fun sort_by :: "('a \<Rightarrow> 'a \<Rightarrow> ordering) \<Rightarrow> 'a list \<Rightarrow> 'a list" where
  "sort_by cmp [] = []"
| "sort_by cmp (x # xs) = insert_by cmp x (sort_by cmp xs)"

lemma set_insert_by [simp]: "set (insert_by cmp x ys) = insert x (set ys)"
  by (induction ys) auto

lemma set_sort_by [simp]: "set (sort_by cmp xs) = set xs"
  by (induction xs) auto

lemma length_insert_by [simp]: "length (insert_by cmp x ys) = Suc (length ys)"
  by (induction ys) auto

lemma length_sort_by [simp]: "length (sort_by cmp xs) = length xs"
  by (induction xs) auto

lemma sort_by_Nil_iff [simp]: "sort_by cmp xs = [] \<longleftrightarrow> xs = []"
  by (metis length_0_conv length_sort_by)

definition first_by :: "('a \<Rightarrow> 'a \<Rightarrow> ordering) \<Rightarrow> 'a list \<Rightarrow> 'a option" where
  "first_by cmp xs = (case sort_by cmp xs of [] \<Rightarrow> None | x # _ \<Rightarrow> Some x)"

lemma first_by_None [simp]: "first_by cmp xs = None \<longleftrightarrow> xs = []"
  using sort_by_Nil_iff [of cmp xs] by (cases "sort_by cmp xs") (simp_all add: first_by_def)

lemma first_by_in: "first_by cmp xs = Some x \<Longrightarrow> x \<in> set xs"
  by (metis first_by_def list.set_intros(1) list.simps(4) list.simps(5) neq_Nil_conv
      option.distinct(1) option.inject set_sort_by)

context lawful_cmp
begin

lemma insert_by_sorted:
  assumes "valid x" "\<forall>y \<in> set ys. valid y" "sorted_wrt (\<lambda>a b. cmp a b \<noteq> Greater) ys"
  shows "sorted_wrt (\<lambda>a b. cmp a b \<noteq> Greater) (insert_by cmp x ys)"
  using assms
proof (induction ys)
  case (Cons y ys)
  then show ?case
    using cmp_flip [of x y] cmp_trans [of x y]
    by (cases "cmp x y") auto
qed simp

lemma sort_by_sorted:
  "\<forall>x \<in> set xs. valid x \<Longrightarrow> sorted_wrt (\<lambda>a b. cmp a b \<noteq> Greater) (sort_by cmp xs)"
  by (induction xs) (auto intro: insert_by_sorted)

lemma first_by_least:
  assumes "\<forall>x \<in> set xs. valid x" "first_by cmp xs = Some m" "x \<in> set xs"
  shows "cmp m x \<noteq> Greater"
proof -
  obtain ms where ms: "sort_by cmp xs = m # ms"
    using assms(2) by (auto simp: first_by_def split: list.splits)
  have "x \<in> set (m # ms)" using assms(3) ms [symmetric] by simp
  then show ?thesis
    using sort_by_sorted [OF assms(1)] ms cmp_refl [of m] first_by_in [OF assms(2)] assms(1) by auto
qed

end

interpretation lin_cmp: lawful_cmp "\<lambda>_. True" "cmp_lin :: 'a::linorder \<Rightarrow> 'a \<Rightarrow> ordering"
  by unfold_locales (auto simp: cmp_lin_def split: if_splits)

text \<open>Comparators compose: constant, reversed, by key, and lexicographically.\<close>

lemma lawful_cmp_Equal: "lawful_cmp V (\<lambda>_ _. Equal)"
  by unfold_locales auto

lemma lawful_cmp_swap: "lawful_cmp V c \<Longrightarrow> lawful_cmp V (\<lambda>x y. c y x)"
  unfolding lawful_cmp_def by blast

lemma lawful_cmp_key:
  "lawful_cmp V c \<Longrightarrow> (\<And>x. W x \<Longrightarrow> V (k x)) \<Longrightarrow> lawful_cmp W (\<lambda>x y. c (k x) (k y))"
  unfolding lawful_cmp_def by blast

lemma lawful_cmp_cong:
  assumes c: "lawful_cmp valid c" and eq: "\<And>x y. valid x \<Longrightarrow> valid y \<Longrightarrow> d x y = c x y"
  shows "lawful_cmp valid d"
proof
  show "d y x = reverse_ordering (d x y)" if "valid x" "valid y" for x y
    using lawful_cmp.cmp_flip [OF c that] eq that by metis
  show "d x z \<noteq> Greater" if "valid x" "valid y" "valid z" "d x y \<noteq> Greater" "d y z \<noteq> Greater" for x y z
    using lawful_cmp.cmp_trans [OF c that(1-3)] eq that by metis
qed

lemma lawful_cmp_then_with:
  assumes c: "lawful_cmp V c" and d: "lawful_cmp V d"
  shows "lawful_cmp V (\<lambda>x y. then_with (c x y) (d x y))"
proof
  fix x y
  assume V: "V x" "V y"
  show "then_with (c y x) (d y x) = reverse_ordering (then_with (c x y) (d x y))"
    by (simp add: reverse_then_with lawful_cmp.cmp_flip [OF c V] lawful_cmp.cmp_flip [OF d V])
next
  fix x y z
  assume V: "V x" "V y" "V z"
    and xy: "then_with (c x y) (d x y) \<noteq> Greater" and yz: "then_with (c y z) (d y z) \<noteq> Greater"
  show "then_with (c x z) (d x z) \<noteq> Greater"
  proof (cases "c x y = Less \<or> c y z = Less")
    case True
    have "c x z = Less"
    proof (cases "c x y = Less")
      case True
      with yz show ?thesis
        using lawful_cmp.cmp_Less_trans [OF c V] by (auto simp: then_with_Greater)
    next
      case False
      with xy True have eq: "c x y = Equal" and le: "c y z = Less"
        by (cases "c x y"; simp)+
      show ?thesis
      proof (rule ccontr)
        assume "c x z \<noteq> Less"
        then have "c z x \<noteq> Greater" using lawful_cmp.cmp_flip [OF c V(1,3)] by (cases "c x z") auto
        with eq have "c z y \<noteq> Greater" using lawful_cmp.cmp_trans [OF c V(3,1,2)] by simp
        with le show False using lawful_cmp.cmp_flip [OF c V(2,3)] by simp
      qed
    qed
    then show ?thesis by simp
  next
    case False
    with xy yz have eq: "c x y = Equal" "c y z = Equal" by (cases "c x y"; cases "c y z"; simp)+
    have "c x z = Equal"
    proof -
      have "c x z \<noteq> Greater" using lawful_cmp.cmp_trans [OF c V] eq by simp
      moreover have "c z x \<noteq> Greater"
        using lawful_cmp.cmp_trans [OF c V(3,2,1)] eq
          lawful_cmp.cmp_flip [OF c V(1,2)] lawful_cmp.cmp_flip [OF c V(2,3)] by simp
      ultimately show ?thesis using lawful_cmp.cmp_flip [OF c V(1,3)] by (cases "c x z") auto
    qed
    moreover have "d x z \<noteq> Greater" using lawful_cmp.cmp_trans [OF d V] xy yz eq by simp
    ultimately show ?thesis by simp
  qed
qed

section \<open>Checked arithmetic\<close>

definition u64_max :: nat where "u64_max = 2 ^ 64 - 1"
definition i64_min :: int where "i64_min = - (2 ^ 63)"
definition i64_max :: int where "i64_max = 2 ^ 63 - 1"

definition checked_add_u64 :: "nat \<Rightarrow> nat \<Rightarrow> nat option" where
  "checked_add_u64 a b = (if a + b \<le> u64_max then Some (a + b) else None)"

definition saturating_add_u64 :: "nat \<Rightarrow> nat \<Rightarrow> nat" where
  "saturating_add_u64 a b = min (a + b) u64_max"

definition checked_sub_i64 :: "int \<Rightarrow> int \<Rightarrow> int option" where
  "checked_sub_i64 a b = (if i64_min \<le> a - b \<and> a - b \<le> i64_max then Some (a - b) else None)"

section \<open>Formatting\<close>

definition digit_char :: "nat \<Rightarrow> char" where
  "digit_char d = char_of (48 + d)"

fun show_nat :: "nat \<Rightarrow> string" where
  "show_nat n = (if n < 10 then [digit_char n] else show_nat (n div 10) @ [digit_char (n mod 10)])"

declare show_nat.simps [simp del]

definition show_int :: "int \<Rightarrow> string" where
  "show_int i = (if i < 0 then CHR ''-'' # show_nat (nat (- i)) else show_nat (nat i))"

section \<open>ASCII classes\<close>

definition byte_of :: "char \<Rightarrow> nat" where
  "byte_of c = of_char c"

definition in_range :: "char \<Rightarrow> nat \<Rightarrow> nat \<Rightarrow> bool" where
  "in_range c lo hi = (lo \<le> byte_of c \<and> byte_of c \<le> hi)"

definition is_ascii_digit :: "char \<Rightarrow> bool" where "is_ascii_digit c = in_range c 48 57"
definition is_ascii_lowercase :: "char \<Rightarrow> bool" where "is_ascii_lowercase c = in_range c 97 122"
definition is_ascii_uppercase :: "char \<Rightarrow> bool" where "is_ascii_uppercase c = in_range c 65 90"
definition is_ascii_alphanumeric :: "char \<Rightarrow> bool" where
  "is_ascii_alphanumeric c = (is_ascii_digit c \<or> is_ascii_lowercase c \<or> is_ascii_uppercase c)"
definition is_ascii_whitespace :: "char \<Rightarrow> bool" where
  "is_ascii_whitespace c = (byte_of c \<in> {9, 10, 12, 13, 32})"
definition is_ascii_control :: "char \<Rightarrow> bool" where
  "is_ascii_control c = (byte_of c \<le> 31 \<or> byte_of c = 127)"

lemmas ascii_class_defs = is_ascii_digit_def is_ascii_lowercase_def is_ascii_uppercase_def
  is_ascii_alphanumeric_def is_ascii_whitespace_def is_ascii_control_def in_range_def byte_of_def

section \<open>Lists and options\<close>

lemma in_map_filter: "y \<in> set (List.map_filter f xs) \<longleftrightarrow> (\<exists>x \<in> set xs. f x = Some y)"
  by (force simp: List.map_filter_def)

lemma find_Some_iff_in: "find P xs = Some x \<Longrightarrow> x \<in> set xs \<and> P x"
  by (auto simp: find_Some_iff)

lemma find_None_iff_all: "find P xs = None \<longleftrightarrow> (\<forall>x \<in> set xs. \<not> P x)"
  by (auto simp: find_None_iff)

lemma length_filter_map_cong:
  "(\<And>x. x \<in> set xs \<Longrightarrow> P (f x) = Q x) \<Longrightarrow> length (filter P (map f xs)) = length (filter Q xs)"
  by (induction xs) auto

section \<open>Trimming\<close>

text \<open>
  \<open>str::trim\<close> removes Unicode white space from both ends. The table holds the UTF-8 encodings of
  the 25 code points with the \<open>White_Space\<close> property. No encoding is a proper prefix of another, so
  removing one that matches at an end of a valid UTF-8 string removes one code point.
\<close>

definition whitespace_encodings :: "string list" where
  "whitespace_encodings = map (map char_of)
     ([[9], [10], [11], [12], [13], [32], [194, 133], [194, 160], [225, 154, 128],
       [226, 128, 128], [226, 128, 129], [226, 128, 130], [226, 128, 131], [226, 128, 132],
       [226, 128, 133], [226, 128, 134], [226, 128, 135], [226, 128, 136], [226, 128, 137],
       [226, 128, 138], [226, 128, 168], [226, 128, 169], [226, 128, 175], [226, 129, 159],
       [227, 128, 128]] :: nat list list)"

fun starts_with :: "string \<Rightarrow> string \<Rightarrow> bool" where
  "starts_with s [] = True"
| "starts_with [] (c # cs) = False"
| "starts_with (x # s) (c # cs) = (x = c \<and> starts_with s cs)"

lemma starts_with_iff: "starts_with s p \<longleftrightarrow> (\<exists>r. s = p @ r)"
  by (induction s p rule: starts_with.induct) auto

definition trim_step :: "string list \<Rightarrow> string \<Rightarrow> string option" where
  "trim_step encs s =
     (case find (\<lambda>w. w \<noteq> [] \<and> starts_with s w) encs of
        None \<Rightarrow> None | Some w \<Rightarrow> Some (drop (length w) s))"

lemma trim_step_shorter: "trim_step encs s = Some s' \<Longrightarrow> length s' < length s"
  by (auto simp: trim_step_def starts_with_iff split: option.splits dest!: find_Some_iff_in)

function trim_by :: "string list \<Rightarrow> string \<Rightarrow> string" where
  "trim_by encs s = (case trim_step encs s of None \<Rightarrow> s | Some s' \<Rightarrow> trim_by encs s')"
  by pat_completeness auto
termination
  by (relation "measure (\<lambda>(encs, s). length s)") (auto dest: trim_step_shorter)

declare trim_by.simps [simp del]

definition trim_start :: "string \<Rightarrow> string" where
  "trim_start s = trim_by whitespace_encodings s"

definition trim_end :: "string \<Rightarrow> string" where
  "trim_end s = rev (trim_by (map rev whitespace_encodings) (rev s))"

definition trim :: "string \<Rightarrow> string" where
  "trim s = trim_end (trim_start s)"

lemma trim_by_stable: "trim_step encs (trim_by encs s) = None"
proof (induction encs s rule: trim_by.induct)
  case (1 encs s)
  then show ?case by (cases "trim_step encs s") (simp_all add: trim_by.simps [of encs s])
qed

end
