(* ===== verification/Sql_Tables.thy ===== *)
theory Sql_Tables
  imports Prelude
begin

text \<open>
  The SQL fragment the persistence crate uses, over tables that are lists of rows. The order of
  the list is the unspecified physical order of the rows: every theorem holds for all orders, so
  it holds however the database breaks a tie. \<open>keyed_table\<close> is the contract of a table with a
  primary key; every table of the model is an interpretation of it.
\<close>

section \<open>Statements\<close>

definition sql_select :: "('r \<Rightarrow> bool) \<Rightarrow> 'r list \<Rightarrow> 'r list" where
  "sql_select P tbl = filter P tbl"

definition sql_exists :: "('r \<Rightarrow> bool) \<Rightarrow> 'r list \<Rightarrow> bool" where
  "sql_exists P tbl = list_ex P tbl"

definition sql_count :: "('r \<Rightarrow> bool) \<Rightarrow> 'r list \<Rightarrow> int" where
  "sql_count P tbl = int (length (filter P tbl))"

definition sql_first :: "('r \<Rightarrow> bool) \<Rightarrow> 'r list \<Rightarrow> 'r option" where
  "sql_first P tbl = find P tbl"

definition sql_update :: "('r \<Rightarrow> bool) \<Rightarrow> ('r \<Rightarrow> 'r) \<Rightarrow> 'r list \<Rightarrow> 'r list" where
  "sql_update P f tbl = map (\<lambda>r. if P r then f r else r) tbl"

definition sql_delete :: "('r \<Rightarrow> bool) \<Rightarrow> 'r list \<Rightarrow> 'r list" where
  "sql_delete P tbl = filter (\<lambda>r. \<not> P r) tbl"

definition sql_insert :: "'r \<Rightarrow> 'r list \<Rightarrow> 'r list" where
  "sql_insert r tbl = tbl @ [r]"

text \<open>\<open>INSERT ... ON CONFLICT (key) DO UPDATE\<close> with a full row.\<close>

definition sql_upsert :: "('r \<Rightarrow> 'k) \<Rightarrow> 'r \<Rightarrow> 'r list \<Rightarrow> 'r list" where
  "sql_upsert key r tbl =
     (if sql_exists (\<lambda>q. key q = key r) tbl
      then sql_update (\<lambda>q. key q = key r) (\<lambda>_. r) tbl
      else sql_insert r tbl)"

lemma set_sql_select [simp]: "set (sql_select P tbl) = {r \<in> set tbl. P r}"
  by (auto simp: sql_select_def)

lemma sql_exists_iff [simp]: "sql_exists P tbl \<longleftrightarrow> (\<exists>r \<in> set tbl. P r)"
  by (simp add: sql_exists_def list_ex_iff)

lemma set_sql_delete [simp]: "set (sql_delete P tbl) = {r \<in> set tbl. \<not> P r}"
  by (auto simp: sql_delete_def)

lemma set_sql_insert [simp]: "set (sql_insert r tbl) = insert r (set tbl)"
  by (simp add: sql_insert_def)

lemma set_sql_update: "set (sql_update P f tbl) = (\<lambda>r. if P r then f r else r) ` set tbl"
  by (simp add: sql_update_def)

lemma in_sql_update:
  "r \<in> set (sql_update P f tbl) \<longleftrightarrow>
     (\<exists>q \<in> set tbl. P q \<and> r = f q) \<or> (r \<in> set tbl \<and> \<not> P r)"
  by (auto simp: set_sql_update)

lemma sql_update_none: "\<not> sql_exists P tbl \<Longrightarrow> sql_update P f tbl = tbl"
  by (auto simp: sql_update_def intro: map_idI)

lemma sql_count_update:
  "(\<And>r. r \<in> set tbl \<Longrightarrow> Q (if P r then f r else r) = R r) \<Longrightarrow>
     sql_count Q (sql_update P f tbl) = sql_count R tbl"
  unfolding sql_count_def sql_update_def by (simp only: length_filter_map_cong)

lemma sql_count_insert [simp]:
  "sql_count P (sql_insert r tbl) = sql_count P tbl + (if P r then 1 else 0)"
  by (simp add: sql_count_def sql_insert_def)

lemma sql_count_nonneg [simp]: "0 \<le> sql_count P tbl"
  by (simp add: sql_count_def)

lemma sql_first_Some: "sql_first P tbl = Some r \<Longrightarrow> r \<in> set tbl \<and> P r"
  by (auto simp: sql_first_def dest: find_Some_iff_in)

lemma sql_first_None [simp]: "sql_first P tbl = None \<longleftrightarrow> (\<forall>r \<in> set tbl. \<not> P r)"
  by (simp add: sql_first_def find_None_iff_all)

section \<open>Tables with a primary key\<close>

definition pk_ok :: "('r \<Rightarrow> 'k) \<Rightarrow> 'r list \<Rightarrow> bool" where
  "pk_ok key tbl = distinct (map key tbl)"

lemma pk_ok_inj: "pk_ok key tbl \<Longrightarrow> r \<in> set tbl \<Longrightarrow> q \<in> set tbl \<Longrightarrow> key r = key q \<Longrightarrow> r = q"
  by (auto simp: pk_ok_def distinct_map dest: inj_onD)

lemma pk_ok_insert: "pk_ok key tbl \<Longrightarrow> (\<forall>q \<in> set tbl. key q \<noteq> key r) \<Longrightarrow> pk_ok key (sql_insert r tbl)"
  by (auto simp: pk_ok_def sql_insert_def)

lemma pk_ok_delete: "pk_ok key tbl \<Longrightarrow> pk_ok key (sql_delete P tbl)"
  by (auto simp: pk_ok_def sql_delete_def distinct_map intro: inj_on_subset)

lemma pk_ok_update:
  assumes "pk_ok key tbl" "\<And>r. r \<in> set tbl \<Longrightarrow> P r \<Longrightarrow> key (f r) = key r"
  shows "pk_ok key (sql_update P f tbl)"
proof -
  have "map key (sql_update P f tbl) = map key tbl"
    using assms(2) by (auto simp: sql_update_def)
  then show ?thesis using assms(1) by (simp add: pk_ok_def)
qed

lemma pk_ok_upsert: "pk_ok key tbl \<Longrightarrow> pk_ok key (sql_upsert key r tbl)"
  by (auto simp: sql_upsert_def intro: pk_ok_update pk_ok_insert)

lemma in_sql_upsert:
  "q \<in> set (sql_upsert key r tbl) \<longleftrightarrow> q = r \<or> (q \<in> set tbl \<and> key q \<noteq> key r)"
  by (auto simp: sql_upsert_def in_sql_update)

text \<open>
  The contract of a table with a primary key: what a lookup by key returns after an insert, an
  update, a delete or an upsert.
\<close>

locale keyed_table =
  fixes key :: "'r \<Rightarrow> 'k" and lookup :: "'k \<Rightarrow> 'r list \<Rightarrow> 'r option"
  assumes lookup_def: "lookup k tbl = sql_first (\<lambda>r. key r = k) tbl"
begin

lemma lookup_Some_in: "lookup k tbl = Some r \<Longrightarrow> r \<in> set tbl \<and> key r = k"
  unfolding lookup_def by (drule sql_first_Some) simp

lemma lookup_None_iff: "lookup k tbl = None \<longleftrightarrow> (\<forall>r \<in> set tbl. key r \<noteq> k)"
  by (simp add: lookup_def)

lemma lookup_in: "pk_ok key tbl \<Longrightarrow> r \<in> set tbl \<Longrightarrow> lookup (key r) tbl = Some r"
  by (metis lookup_None_iff lookup_Some_in option.exhaust pk_ok_inj)

lemma lookup_iff: "pk_ok key tbl \<Longrightarrow> lookup k tbl = Some r \<longleftrightarrow> r \<in> set tbl \<and> key r = k"
  using lookup_Some_in lookup_in by blast

lemma lookup_insert:
  "lookup k (sql_insert r tbl) =
     (case lookup k tbl of Some q \<Rightarrow> Some q | None \<Rightarrow> if key r = k then Some r else None)"
  by (induction tbl) (auto simp: lookup_def sql_first_def sql_insert_def)

lemma lookup_update:
  assumes "\<And>r. P r \<Longrightarrow> key (f r) = key r"
  shows "lookup k (sql_update P f tbl) = map_option (\<lambda>r. if P r then f r else r) (lookup k tbl)"
  using assms by (induction tbl) (auto simp: lookup_def sql_first_def sql_update_def)

lemma lookup_delete:
  assumes "pk_ok key tbl"
  shows "lookup k (sql_delete P tbl) =
    (case lookup k tbl of None \<Rightarrow> None | Some r \<Rightarrow> if P r then None else Some r)"
  using assms
proof (induction tbl)
  case (Cons r tbl)
  have "pk_ok key tbl" and new: "\<forall>q \<in> set tbl. key q \<noteq> key r"
    using Cons.prems by (simp_all add: pk_ok_def) (metis image_eqI)
  with Cons.IH have IH: "lookup k (sql_delete P tbl) =
    (case lookup k tbl of None \<Rightarrow> None | Some r \<Rightarrow> if P r then None else Some r)" by simp
  show ?case
  proof (cases "key r = k")
    case True
    then have "lookup k tbl = None" using new by (auto simp: lookup_None_iff)
    with IH True show ?thesis by (auto simp: lookup_def sql_first_def sql_delete_def)
  next
    case False
    with IH show ?thesis by (auto simp: lookup_def sql_first_def sql_delete_def)
  qed
qed (simp add: lookup_def sql_first_def sql_delete_def)

lemma lookup_upsert:
  "lookup k (sql_upsert key r tbl) = (if key r = k then Some r else lookup k tbl)"
proof (cases "sql_exists (\<lambda>q. key q = key r) tbl")
  case True
  have "find (\<lambda>q. key q = k) (sql_update (\<lambda>q. key q = key r) (\<lambda>_. r) tbl) =
      map_option (\<lambda>q. if key q = key r then r else q) (find (\<lambda>q. key q = k) tbl)"
    by (induction tbl) (auto simp: sql_update_def)
  with True show ?thesis
    unfolding sql_upsert_def lookup_def sql_first_def
    by (cases "find (\<lambda>q. key q = k) tbl")
      (auto dest!: find_Some_iff_in find_None_iff_all [THEN iffD1])
next
  case False
  then show ?thesis
    using lookup_None_iff [of k tbl] lookup_insert [of k r tbl]
    by (auto simp: sql_upsert_def split: option.splits dest: lookup_Some_in)
qed

end

text \<open>A \<open>SELECT ... ORDER BY ... LIMIT 1\<close>.\<close>

definition sql_top :: "('r \<Rightarrow> bool) \<Rightarrow> ('r \<Rightarrow> 'r \<Rightarrow> ordering) \<Rightarrow> 'r list \<Rightarrow> 'r option" where
  "sql_top P cmp tbl = first_by cmp (sql_select P tbl)"

lemma sql_top_Some: "sql_top P cmp tbl = Some r \<Longrightarrow> r \<in> set tbl \<and> P r"
  unfolding sql_top_def by (drule first_by_in) simp

lemma sql_top_None [simp]: "sql_top P cmp tbl = None \<longleftrightarrow> (\<forall>r \<in> set tbl. \<not> P r)"
  by (auto simp: sql_top_def sql_select_def filter_empty_conv)

end
