(* ===== verification/Service_Error.thy ===== *)
theory Service_Error
  imports Prelude
begin

text \<open>
  The transport-neutral error type of \<open>crates/error/src/lib.rs\<close>: the public code, message and
  details of every variant, and the mapping of a unique-constraint failure to a conflict. The
  payloads that come from other crates (\<open>sqlx::Error\<close>, \<open>std::io::Error\<close>, \<open>ZipError\<close>) are kept as
  their rendered text; of \<open>sqlx::Error\<close> the code also asks whether it is a unique violation and
  which constraint it names.
\<close>

datatype service_error_code =
  CodeBadRequest | CodeValidationFailed | CodeUnauthorized | CodeForbidden | CodeNotFound
| CodeConflict | CodeTooManyRequests | CodePayloadTooLarge | CodeInternalError

record error_detail =
  ed_field :: "string option"
  ed_message :: string

datatype sqlx_error =
  SqlxDatabase (sqlx_unique: bool) (sqlx_constraint: "string option") (sqlx_text: string)
| SqlxOther string

datatype service_error =
  Database sqlx_error
| NotFound
| Conflict
| ConflictDetails string "error_detail list"
| BadRequest string
| TooManyRequests string
| Unauthorized
| UnauthorizedMessage string
| Forbidden string
| Internal string
| ValidationErr string
| Io string
| Zip string
| Docker string
| Runner string
| RunnerCapacity string
| Base64
| ValidationDetails string "error_detail list"
| PayloadTooLarge string

type_synonym 'a result = "service_error + 'a"

fun service_error_code_as_str :: "service_error_code \<Rightarrow> string" where
  "service_error_code_as_str CodeBadRequest = ''bad_request''"
| "service_error_code_as_str CodeValidationFailed = ''validation_failed''"
| "service_error_code_as_str CodeUnauthorized = ''unauthorized''"
| "service_error_code_as_str CodeForbidden = ''forbidden''"
| "service_error_code_as_str CodeNotFound = ''not_found''"
| "service_error_code_as_str CodeConflict = ''conflict''"
| "service_error_code_as_str CodeTooManyRequests = ''too_many_requests''"
| "service_error_code_as_str CodePayloadTooLarge = ''payload_too_large''"
| "service_error_code_as_str CodeInternalError = ''internal_error''"

fun error_code :: "service_error \<Rightarrow> service_error_code" where
  "error_code (BadRequest _) = CodeBadRequest"
| "error_code Base64 = CodeBadRequest"
| "error_code (Zip _) = CodeBadRequest"
| "error_code (ValidationErr _) = CodeValidationFailed"
| "error_code (ValidationDetails _ _) = CodeValidationFailed"
| "error_code Unauthorized = CodeUnauthorized"
| "error_code (UnauthorizedMessage _) = CodeUnauthorized"
| "error_code (Forbidden _) = CodeForbidden"
| "error_code NotFound = CodeNotFound"
| "error_code Conflict = CodeConflict"
| "error_code (ConflictDetails _ _) = CodeConflict"
| "error_code (TooManyRequests _) = CodeTooManyRequests"
| "error_code (PayloadTooLarge _) = CodePayloadTooLarge"
| "error_code (Database _) = CodeInternalError"
| "error_code (Internal _) = CodeInternalError"
| "error_code (Io _) = CodeInternalError"
| "error_code (Docker _) = CodeInternalError"
| "error_code (Runner _) = CodeInternalError"
| "error_code (RunnerCapacity _) = CodeInternalError"

fun public_message :: "service_error \<Rightarrow> string" where
  "public_message (BadRequest m) = m"
| "public_message (TooManyRequests m) = m"
| "public_message (Forbidden m) = m"
| "public_message (ValidationErr m) = m"
| "public_message (PayloadTooLarge m) = m"
| "public_message (ValidationDetails m _) = m"
| "public_message Unauthorized = ''unauthorized''"
| "public_message (UnauthorizedMessage m) = m"
| "public_message NotFound = ''not found''"
| "public_message Conflict = ''conflict''"
| "public_message (ConflictDetails m _) = m"
| "public_message Base64 = ''invalid_base64''"
| "public_message (Zip _) = ''invalid_zip''"
| "public_message (Database _) = ''internal server error''"
| "public_message (Internal _) = ''internal server error''"
| "public_message (Io _) = ''internal server error''"
| "public_message (Docker _) = ''internal server error''"
| "public_message (Runner _) = ''internal server error''"
| "public_message (RunnerCapacity _) = ''internal server error''"

fun error_details :: "service_error \<Rightarrow> error_detail list" where
  "error_details (ValidationDetails _ ds) = ds"
| "error_details (ConflictDetails _ ds) = ds"
| "error_details _ = []"

definition is_internal :: "service_error \<Rightarrow> bool" where
  "is_internal e = (error_code e = CodeInternalError)"

fun unique_violation_as_conflict :: "service_error \<Rightarrow> service_error" where
  "unique_violation_as_conflict (Database (SqlxDatabase True c t)) = Conflict"
| "unique_violation_as_conflict e = e"

section \<open>Database workflow errors\<close>

text \<open>\<open>DbWorkflowError\<close> of \<open>crates/persistence/src/db/mod.rs\<close> and its conversion.\<close>

datatype db_workflow_error =
  AdmissionConflict string | DbNotFound string | QuotaExhausted string
| InvalidStoredData string | Sql sqlx_error

fun service_error_of_db :: "db_workflow_error \<Rightarrow> service_error" where
  "service_error_of_db (AdmissionConflict _) = Conflict"
| "service_error_of_db (DbNotFound _) = NotFound"
| "service_error_of_db (QuotaExhausted m) = TooManyRequests m"
| "service_error_of_db (InvalidStoredData m) = Internal m"
| "service_error_of_db (Sql e) = Database e"

lemma service_error_code_as_str_inj:
  "service_error_code_as_str a = service_error_code_as_str b \<longleftrightarrow> a = b"
  by (cases a; cases b) simp_all

text \<open>
  What an API client sees of an internal failure does not depend on its text: any two errors
  whose public code is \<open>internal_error\<close> have the same public message and no details, whatever
  database, Docker, runner or I/O text they carry.
\<close>

lemma internal_errors_are_redacted:
  assumes "is_internal e" and "is_internal e'"
  shows "public_message e = public_message e' \<and> error_details e = []"
  using assms by (cases e; cases e'; simp add: is_internal_def)

end
