(* ===== verification/Challenge_Spec.thy ===== *)
theory Challenge_Spec
  imports Service_Error
begin

text \<open>
  The challenge contract of \<open>crates/domain/src/models/challenge/\<close>: metric schema and ranking
  (\<open>metrics.rs\<close>), targets (\<open>targets.rs\<close>), datasets (\<open>datasets.rs\<close>), execution topologies
  (\<open>execution.rs\<close>), the bundle contract and its public projection (\<open>bundle.rs\<close>), and the lifecycle
  values (\<open>lifecycle.rs\<close>). Validated names (\<open>ChallengeName\<close>, \<open>TargetName\<close>, \<open>MetricName\<close>, ...) are
  strings; bundle-relative paths are lists of components.
\<close>

type_synonym challenge_name = string
type_synonym target_name = string
type_synonym metric_name = string
type_synonym run_name = string
type_synonym bundle_path = "string list"

section \<open>Metrics\<close>

datatype metric_direction = Maximize | Minimize
datatype metric_visibility = PublicMetric | OfficialMetric

record metric_definition =
  md_name :: metric_name
  md_label :: string
  md_unit :: "string option"
  md_direction :: metric_direction
  md_visibility :: metric_visibility
  md_description :: "string option"

record ranking_spec =
  primary_metric_name :: metric_name
  tie_breaker_metric_names :: "metric_name list"

record metric_schema =
  metrics :: "metric_definition list"
  ranking :: ranking_spec

definition metric :: "metric_schema \<Rightarrow> metric_name \<Rightarrow> metric_definition option" where
  "metric schema name = find (\<lambda>m. md_name m = name) (metrics schema)"

definition primary_metric :: "metric_schema \<Rightarrow> metric_definition option" where
  "primary_metric schema = metric schema (primary_metric_name (ranking schema))"

definition default_metric_schema :: metric_schema where
  "default_metric_schema =
     \<lparr>metrics = [\<lparr>md_name = ''score'', md_label = ''Score'', md_unit = None,
        md_direction = Maximize, md_visibility = PublicMetric,
        md_description = Some ''Challenge-defined compatibility score.''\<rparr>],
      ranking = \<lparr>primary_metric_name = ''score'', tie_breaker_metric_names = []\<rparr>\<rparr>"

lemma metric_name_eq: "metric schema name = Some m \<Longrightarrow> md_name m = name \<and> m \<in> set (metrics schema)"
  unfolding metric_def by (drule find_Some_iff_in) auto

section \<open>Targets\<close>

datatype docker_platform = LinuxArm64 | LinuxAmd64

fun docker_platform_as_str :: "docker_platform \<Rightarrow> string" where
  "docker_platform_as_str LinuxArm64 = ''linux/arm64''"
| "docker_platform_as_str LinuxAmd64 = ''linux/amd64''"

datatype target_accelerator = AccNone | AccGpu

fun accelerator_as_str :: "target_accelerator \<Rightarrow> string" where
  "accelerator_as_str AccNone = ''none''"
| "accelerator_as_str AccGpu = ''gpu''"

definition accelerator_from_storage_value :: "string \<Rightarrow> target_accelerator option" where
  "accelerator_from_storage_value v =
     (if v = ''none'' then Some AccNone else if v = ''gpu'' then Some AccGpu else None)"

text \<open>The JSON form is \<open>null\<close> (here \<open>None\<close>) or the string \<open>gpu\<close>.\<close>

fun serialize_accelerator :: "target_accelerator \<Rightarrow> string option" where
  "serialize_accelerator AccNone = None"
| "serialize_accelerator AccGpu = Some ''gpu''"

definition deserialize_accelerator :: "string option \<Rightarrow> string + target_accelerator" where
  "deserialize_accelerator v = (case v of
      None \<Rightarrow> Inr AccNone
    | Some s \<Rightarrow>
        if s = ''gpu'' then Inr AccGpu
        else if s = ''cpu'' then
          Inl ''accelerator must be explicit null when no accelerator is required, not \"cpu\"''
        else Inl (''unknown variant '' @ s))"

datatype network_access = NetDisabled | NetLoopback | NetEnabled
datatype docker_network = DockerNetNone | DockerNetBridge

fun docker_network_mode :: "network_access \<Rightarrow> docker_network" where
  "docker_network_mode NetDisabled = DockerNetNone"
| "docker_network_mode NetLoopback = DockerNetNone"
| "docker_network_mode NetEnabled = DockerNetBridge"

fun network_rank :: "network_access \<Rightarrow> nat" where
  "network_rank NetDisabled = 0"
| "network_rank NetLoopback = 1"
| "network_rank NetEnabled = 2"

definition clamp_to :: "network_access \<Rightarrow> network_access \<Rightarrow> network_access" where
  "clamp_to self maximum = (if network_rank self \<le> network_rank maximum then self else maximum)"

record stage_resource_profile =
  timeout_sec :: nat
  memory_limit_mb :: nat
  cpu_limit_millis :: nat
  disk_limit_mb :: nat
  network_access :: network_access

record solution_stage_profiles =
  sp_setup :: stage_resource_profile
  sp_build :: stage_resource_profile
  sp_run :: "stage_resource_profile option"

record evaluator_stage_profiles =
  ep_setup :: stage_resource_profile
  ep_run :: stage_resource_profile

record hardware_profile_spec =
  hw_kind :: string
  gpu_model :: "string option"
  gpu_count :: "nat option"
  gpu_memory_gb :: "nat option"
  cuda_variant :: "string option"
  cuda_version :: "string option"
  driver_minimum :: "string option"

text \<open>
  Image references of \<open>models/images.rs\<close>. \<open>oci_reference\<close> is what the code reads of the OCI distribution
  reference that an external parser returns.
\<close>

record local_image_reference =
  li_original :: string
  li_repository :: string
  li_tag :: string

record oci_reference =
  oci_registry :: string
  oci_repository :: string
  oci_tag :: "string option"
  oci_digest :: "string option"

record registry_image_reference =
  rg_original :: string
  rg_parsed :: oci_reference
  rg_digest :: "string option"
  rg_tag :: string

datatype challenge_image_reference = LocalImage local_image_reference | RegistryImage registry_image_reference

record resource_profile_spec =
  rp_name :: string
  resource_description :: "string option"
  solution_image :: challenge_image_reference
  evaluator_image :: challenge_image_reference
  rp_solution :: solution_stage_profiles
  rp_evaluator :: evaluator_stage_profiles
  hardware_metadata :: "hardware_profile_spec option"

record challenge_target_spec =
  tg_name :: target_name
  docker_platform :: docker_platform
  accelerator :: target_accelerator
  validation_enabled :: bool
  resource_profile :: resource_profile_spec

section \<open>Datasets\<close>

datatype score_visibility = FullVisibility | ScoreOnlyVisibility
datatype private_benchmark_policy = PrivateScoreOnly

record datasets_spec =
  ds_public_dir :: bundle_path
  ds_private_benchmark_dir :: "bundle_path option"
  ds_public_policy :: score_visibility
  ds_private_benchmark_policy :: private_benchmark_policy
  ds_private_benchmark_enabled :: bool

record public_datasets_spec =
  pd_public_dir :: bundle_path
  pd_public_policy :: score_visibility
  pd_private_benchmark_policy :: private_benchmark_policy
  pd_private_benchmark_enabled :: bool

section \<open>Execution\<close>

record evaluator_spec =
  ev_command :: "string list"
  ev_result_file :: bundle_path

record challenge_setup_spec =
  cs_command :: "string list"
  result_runs_file :: bundle_path
  cs_reproducibility_notes :: "string option"

record piped_stdio_setup_spec =
  pss_command :: "string list"
  result_session_file :: bundle_path
  pss_reproducibility_notes :: "string option"

record coexecuted_benchmark_setup_spec =
  cbs_command :: "string list"
  cbs_reproducibility_notes :: "string option"

record separated_evaluator_execution =
  separated_evaluator :: evaluator_spec
  se_validation_runs :: "bundle_path option"
  se_validation_setup :: "challenge_setup_spec option"
  se_official_runs :: "bundle_path option"
  se_official_evaluation_setup :: "challenge_setup_spec option"

record piped_stdio_execution =
  interactive_evaluator :: evaluator_spec
  acknowledge_stdio_protocol_framing :: bool
  ps_validation_session :: "bundle_path option"
  ps_validation_setup :: "piped_stdio_setup_spec option"
  ps_official_session :: "bundle_path option"
  ps_official_evaluation_setup :: "piped_stdio_setup_spec option"

record coexecuted_benchmark_execution =
  coexecuted_evaluator :: evaluator_spec
  acknowledge_danger :: bool
  cb_validation_setup :: "coexecuted_benchmark_setup_spec option"
  cb_official_evaluation_setup :: "coexecuted_benchmark_setup_spec option"

datatype challenge_execution_mode = ModeSeparatedEvaluator | ModePipedStdio | ModeCoexecutedBenchmark

fun runtime_name :: "challenge_execution_mode \<Rightarrow> string" where
  "runtime_name ModeSeparatedEvaluator = ''separated-evaluator''"
| "runtime_name ModePipedStdio = ''interactive-evaluator''"
| "runtime_name ModeCoexecutedBenchmark = ''coexecuted-evaluator''"

datatype challenge_execution_spec =
  SeparatedEvaluator "separated_evaluator_execution"
| PipedStdio "piped_stdio_execution"
| CoexecutedBenchmark "coexecuted_benchmark_execution"

fun execution_mode :: "challenge_execution_spec \<Rightarrow> challenge_execution_mode" where
  "execution_mode (SeparatedEvaluator _) = ModeSeparatedEvaluator"
| "execution_mode (PipedStdio _) = ModePipedStdio"
| "execution_mode (CoexecutedBenchmark _) = ModeCoexecutedBenchmark"

fun trusted_evaluator :: "challenge_execution_spec \<Rightarrow> evaluator_spec" where
  "trusted_evaluator (SeparatedEvaluator s) = separated_evaluator s"
| "trusted_evaluator (PipedStdio s) = interactive_evaluator s"
| "trusted_evaluator (CoexecutedBenchmark s) = coexecuted_evaluator s"

fun validation_runs :: "challenge_execution_spec \<Rightarrow> bundle_path option" where
  "validation_runs (SeparatedEvaluator s) = se_validation_runs s"
| "validation_runs (PipedStdio _) = None"
| "validation_runs (CoexecutedBenchmark _) = None"

fun official_runs :: "challenge_execution_spec \<Rightarrow> bundle_path option" where
  "official_runs (SeparatedEvaluator s) = se_official_runs s"
| "official_runs (PipedStdio _) = None"
| "official_runs (CoexecutedBenchmark _) = None"

fun has_official_evaluation_setup :: "challenge_execution_spec \<Rightarrow> bool" where
  "has_official_evaluation_setup (SeparatedEvaluator s) = (se_official_evaluation_setup s \<noteq> None)"
| "has_official_evaluation_setup (PipedStdio s) = (ps_official_evaluation_setup s \<noteq> None)"
| "has_official_evaluation_setup (CoexecutedBenchmark s) = (cb_official_evaluation_setup s \<noteq> None)"

record public_separated_evaluator_execution =
  pse_separated_evaluator :: evaluator_spec
  pse_validation_runs :: "bundle_path option"
  pse_validation_setup :: "challenge_setup_spec option"

record public_piped_stdio_execution =
  pps_interactive_evaluator :: evaluator_spec
  pps_acknowledge_stdio_protocol_framing :: bool
  pps_validation_session :: "bundle_path option"
  pps_validation_setup :: "piped_stdio_setup_spec option"

record public_coexecuted_benchmark_execution =
  pcb_coexecuted_evaluator :: evaluator_spec
  pcb_acknowledge_danger :: bool
  pcb_validation_setup :: "coexecuted_benchmark_setup_spec option"

datatype public_execution_spec =
  PublicSeparatedEvaluator "public_separated_evaluator_execution"
| PublicPipedStdio "public_piped_stdio_execution"
| PublicCoexecutedBenchmark "public_coexecuted_benchmark_execution"

fun public_execution :: "challenge_execution_spec \<Rightarrow> public_execution_spec" where
  "public_execution (SeparatedEvaluator s) = PublicSeparatedEvaluator
     \<lparr>pse_separated_evaluator = separated_evaluator s,
      pse_validation_runs = se_validation_runs s,
      pse_validation_setup = se_validation_setup s\<rparr>"
| "public_execution (PipedStdio s) = PublicPipedStdio
     \<lparr>pps_interactive_evaluator = interactive_evaluator s,
      pps_acknowledge_stdio_protocol_framing = acknowledge_stdio_protocol_framing s,
      pps_validation_session = ps_validation_session s,
      pps_validation_setup = ps_validation_setup s\<rparr>"
| "public_execution (CoexecutedBenchmark s) = PublicCoexecutedBenchmark
     \<lparr>pcb_coexecuted_evaluator = coexecuted_evaluator s,
      pcb_acknowledge_danger = acknowledge_danger s,
      pcb_validation_setup = cb_validation_setup s\<rparr>"

fun public_trusted_evaluator :: "public_execution_spec \<Rightarrow> evaluator_spec" where
  "public_trusted_evaluator (PublicSeparatedEvaluator s) = pse_separated_evaluator s"
| "public_trusted_evaluator (PublicPipedStdio s) = pps_interactive_evaluator s"
| "public_trusted_evaluator (PublicCoexecutedBenchmark s) = pcb_coexecuted_evaluator s"

section \<open>Lifecycle and visibility values\<close>

datatype challenge_lifecycle_status = ChPendingReview | ChActive | ChArchived

fun challenge_status_as_str :: "challenge_lifecycle_status \<Rightarrow> string" where
  "challenge_status_as_str ChPendingReview = ''pending_review''"
| "challenge_status_as_str ChActive = ''active''"
| "challenge_status_as_str ChArchived = ''archived''"

definition challenge_status_from_storage_value :: "string \<Rightarrow> challenge_lifecycle_status option" where
  "challenge_status_from_storage_value v =
     (if v = ''pending_review'' then Some ChPendingReview
      else if v = ''active'' then Some ChActive
      else if v = ''archived'' then Some ChArchived else None)"

datatype challenge_eligibility_type = EligOpen | EligPrivateShortlist
datatype challenge_visibility = VisPublicLive | VisPublicAfterClose | VisHidden
datatype challenge_result_detail_visibility =
  SubmitterLivePublicLive | SubmitterLivePublicAfterClose | SubmitterOnly
datatype solution_publication_policy = PubPrivate | PubPublic | PubPublicAfterClose

record challenge_visibility_spec =
  leaderboard_vis :: challenge_visibility
  score_distribution_vis :: challenge_visibility
  result_detail_vis :: challenge_result_detail_visibility

record localized_text =
  lt_en :: string
  lt_zh :: string

record solution_spec =
  protocol :: string
  manifest_file :: bundle_path

section \<open>The bundle contract\<close>

record challenge_bundle_spec =
  schema_version :: int
  cb_challenge_name :: challenge_name
  challenge_title :: string
  summary :: localized_text
  challenge_keywords :: "string list"
  solution :: solution_spec
  targets :: "challenge_target_spec list"
  starts_at :: string
  closes_at :: "string option"
  eligibility_type :: challenge_eligibility_type
  validation_submission_limit :: "int option"
  official_submission_limit :: "int option"
  visibility :: challenge_visibility_spec
  solution_publication :: solution_publication_policy
  execution :: "challenge_execution_spec"
  datasets :: datasets_spec
  metric_schema :: metric_schema

record public_challenge_bundle_spec =
  p_schema_version :: int
  p_challenge_name :: challenge_name
  p_challenge_title :: string
  p_summary :: localized_text
  p_keywords :: "string list"
  p_solution :: solution_spec
  p_targets :: "challenge_target_spec list"
  p_starts_at :: string
  p_closes_at :: "string option"
  p_eligibility_type :: challenge_eligibility_type
  p_validation_submission_limit :: "int option"
  p_official_submission_limit :: "int option"
  p_visibility :: challenge_visibility_spec
  p_solution_publication :: solution_publication_policy
  p_execution :: "public_execution_spec"
  p_datasets :: public_datasets_spec
  p_metric_schema :: metric_schema

definition target :: "challenge_bundle_spec \<Rightarrow> target_name \<Rightarrow> challenge_target_spec option" where
  "target spec t = find (\<lambda>c. tg_name c = t) (targets spec)"

definition sole_target :: "challenge_bundle_spec \<Rightarrow> target_name option" where
  "sole_target spec = (case targets spec of [t] \<Rightarrow> Some (tg_name t) | _ \<Rightarrow> None)"

definition public_of_bundle_spec ::
  "challenge_bundle_spec \<Rightarrow> public_challenge_bundle_spec" where
  "public_of_bundle_spec spec =
     \<lparr>p_schema_version = schema_version spec,
      p_challenge_name = cb_challenge_name spec,
      p_challenge_title = challenge_title spec,
      p_summary = summary spec,
      p_keywords = challenge_keywords spec,
      p_solution = solution spec,
      p_targets = targets spec,
      p_starts_at = starts_at spec,
      p_closes_at = closes_at spec,
      p_eligibility_type = eligibility_type spec,
      p_validation_submission_limit = validation_submission_limit spec,
      p_official_submission_limit = official_submission_limit spec,
      p_visibility = visibility spec,
      p_solution_publication = solution_publication spec,
      p_execution = public_execution (execution spec),
      p_datasets =
        \<lparr>pd_public_dir = ds_public_dir (datasets spec),
         pd_public_policy = ds_public_policy (datasets spec),
         pd_private_benchmark_policy = ds_private_benchmark_policy (datasets spec),
         pd_private_benchmark_enabled = ds_private_benchmark_enabled (datasets spec)\<rparr>,
      p_metric_schema = metric_schema spec\<rparr>"

text \<open>\<open>Path::starts_with\<close> compares whole components.\<close>

fun path_starts_with :: "bundle_path \<Rightarrow> bundle_path \<Rightarrow> bool" where
  "path_starts_with p [] = True"
| "path_starts_with [] (b # bs) = False"
| "path_starts_with (a # as) (b # bs) = (a = b \<and> path_starts_with as bs)"

definition official_evaluation_may_expose_private_material ::
  "challenge_bundle_spec \<Rightarrow> bool" where
  "official_evaluation_may_expose_private_material spec =
     (if ds_private_benchmark_enabled (datasets spec)
         \<or> has_official_evaluation_setup (execution spec) then True
      else (case execution spec of
          SeparatedEvaluator s \<Rightarrow>
            (case se_official_runs s of None \<Rightarrow> True
             | Some p \<Rightarrow> \<not> path_starts_with p (ds_public_dir (datasets spec)))
        | PipedStdio s \<Rightarrow>
            (case ps_official_session s of None \<Rightarrow> True
             | Some p \<Rightarrow> \<not> path_starts_with p (ds_public_dir (datasets spec)))
        | CoexecutedBenchmark _ \<Rightarrow> False))"

section \<open>Laws\<close>

lemma target_name_eq: "target spec t = Some ts \<Longrightarrow> tg_name ts = t \<and> ts \<in> set (targets spec)"
  unfolding target_def by (drule find_Some_iff_in) auto

lemma accelerator_storage_rt [storage_rt]:
  "accelerator_from_storage_value (accelerator_as_str a) = Some a"
  by (cases a) (simp_all add: accelerator_from_storage_value_def)

lemma accelerator_json_rt [storage_rt]: "deserialize_accelerator (serialize_accelerator a) = Inr a"
  by (cases a) (simp_all add: deserialize_accelerator_def)

lemma challenge_status_rt [storage_rt]:
  "challenge_status_from_storage_value (challenge_status_as_str s) = Some s"
  by (cases s) (simp_all add: challenge_status_from_storage_value_def)

text \<open>Erasing every private locator of a contract: what the public projection may not reveal.\<close>

fun erase_private_execution :: "challenge_execution_spec \<Rightarrow> challenge_execution_spec" where
  "erase_private_execution (SeparatedEvaluator s) =
     SeparatedEvaluator (s\<lparr>se_official_runs := None, se_official_evaluation_setup := None\<rparr>)"
| "erase_private_execution (PipedStdio s) =
     PipedStdio (s\<lparr>ps_official_session := None, ps_official_evaluation_setup := None\<rparr>)"
| "erase_private_execution (CoexecutedBenchmark s) =
     CoexecutedBenchmark (s\<lparr>cb_official_evaluation_setup := None\<rparr>)"

definition erase_private :: "challenge_bundle_spec \<Rightarrow> challenge_bundle_spec" where
  "erase_private spec = spec\<lparr>
     execution := erase_private_execution (execution spec),
     datasets := (datasets spec)\<lparr>ds_private_benchmark_dir := None\<rparr>\<rparr>"

lemma public_execution_erase: "public_execution (erase_private_execution e) = public_execution e"
  by (cases e) simp_all

lemma path_starts_with_prefix: "path_starts_with p q \<longleftrightarrow> (\<exists>r. p = q @ r)"
  by (induction p q rule: path_starts_with.induct) auto

text \<open>
  The public projection of a challenge contract is independent of the private locators: two
  contracts that agree once the private benchmark directory, the official run or session locators
  and the official setup are erased have the same public projection.
\<close>

lemma public_projection_hides_private_locators:
  assumes "erase_private a = erase_private b"
  shows "public_of_bundle_spec a = public_of_bundle_spec b"
proof -
  have "public_of_bundle_spec s = public_of_bundle_spec (erase_private s)" for s
    by (simp add: public_of_bundle_spec_def erase_private_def public_execution_erase)
  then show ?thesis using assms by metis
qed

text \<open>A small contract with a private benchmark, used by witnesses.\<close>

definition example_stage :: stage_resource_profile where
  "example_stage = \<lparr>timeout_sec = 60, memory_limit_mb = 512, cpu_limit_millis = 1000,
     disk_limit_mb = 256, network_access = NetDisabled\<rparr>"

definition example_image :: challenge_image_reference where
  "example_image = LocalImage \<lparr>li_original = ''agentics-linux-arm64-cpu:ubuntu26.04-local'',
     li_repository = ''agentics-linux-arm64-cpu'', li_tag = ''ubuntu26.04-local''\<rparr>"

definition example_target :: challenge_target_spec where
  "example_target = \<lparr>tg_name = ''linux-arm64-cpu'', docker_platform = LinuxArm64,
     accelerator = AccNone, validation_enabled = True,
     resource_profile = \<lparr>rp_name = ''cpu'', resource_description = None,
       solution_image = example_image, evaluator_image = example_image,
       rp_solution = \<lparr>sp_setup = example_stage, sp_build = example_stage,
         sp_run = Some example_stage\<rparr>,
       rp_evaluator = \<lparr>ep_setup = example_stage, ep_run = example_stage\<rparr>,
       hardware_metadata = None\<rparr>\<rparr>"

definition example_spec :: challenge_bundle_spec where
  "example_spec = \<lparr>schema_version = 1, cb_challenge_name = ''sample-sum'',
     challenge_title = ''Sample Sum'', summary = \<lparr>lt_en = [], lt_zh = []\<rparr>,
     challenge_keywords = [''sum''],
     solution = \<lparr>protocol = ''zip_project'', manifest_file = [''agentics.solution.json'']\<rparr>,
     targets = [example_target], starts_at = ''2026-01-01T00:00:00Z'', closes_at = None,
     eligibility_type = EligOpen, validation_submission_limit = None,
     official_submission_limit = None,
     visibility = \<lparr>leaderboard_vis = VisPublicLive, score_distribution_vis = VisPublicLive,
       result_detail_vis = SubmitterOnly\<rparr>,
     solution_publication = PubPrivate,
     execution = SeparatedEvaluator
       \<lparr>separated_evaluator = \<lparr>ev_command = [''python3''], ev_result_file = [''result.json'']\<rparr>,
        se_validation_runs = Some [''public'', ''runs.json''], se_validation_setup = None,
        se_official_runs = Some [''private-benchmark'', ''runs.json''],
        se_official_evaluation_setup = None\<rparr>,
     datasets = \<lparr>ds_public_dir = [''public''],
       ds_private_benchmark_dir = Some [''private-benchmark''],
       ds_public_policy = FullVisibility, ds_private_benchmark_policy = PrivateScoreOnly,
       ds_private_benchmark_enabled = True\<rparr>,
     metric_schema = default_metric_schema\<rparr>"

lemma clamp_to_rank: "network_rank (clamp_to a m) = min (network_rank a) (network_rank m)"
  by (simp add: clamp_to_def min_def)

end
