(* ===== verification/Evaluation_Model.thy ===== *)
theory Evaluation_Model
  imports Challenge_Spec
begin

text \<open>
  The evaluation contract of \<open>crates/domain/src/models/evaluation.rs\<close>: scoring modes and lifecycle
  statuses with their stored strings, the evaluator's result and its validation, and the ranking
  comparator over metric payloads. An \<open>f64\<close> is a rational, an infinity or NaN; the code only tests
  finiteness and compares, and both zeros compare equal, so they are one value here.
\<close>

section \<open>Floating-point values\<close>

datatype f64 = Fin rat | PosInf | NegInf | NaN

fun is_finite :: "f64 \<Rightarrow> bool" where
  "is_finite (Fin _) = True"
| "is_finite _ = False"

fun f64_partial_cmp :: "f64 \<Rightarrow> f64 \<Rightarrow> ordering option" where
  "f64_partial_cmp NaN _ = None"
| "f64_partial_cmp _ NaN = None"
| "f64_partial_cmp (Fin a) (Fin b) = Some (cmp_lin a b)"
| "f64_partial_cmp NegInf NegInf = Some Equal"
| "f64_partial_cmp PosInf PosInf = Some Equal"
| "f64_partial_cmp NegInf _ = Some Less"
| "f64_partial_cmp _ PosInf = Some Less"
| "f64_partial_cmp PosInf _ = Some Greater"
| "f64_partial_cmp _ NegInf = Some Greater"

section \<open>Modes and statuses\<close>

datatype scoring_mode = Validation | Official

fun scoring_mode_as_str :: "scoring_mode \<Rightarrow> string" where
  "scoring_mode_as_str Validation = ''validation''"
| "scoring_mode_as_str Official = ''official''"

definition scoring_mode_from_storage_value :: "string \<Rightarrow> scoring_mode option" where
  "scoring_mode_from_storage_value v =
     (if v = ''validation'' then Some Validation
      else if v = ''official'' then Some Official else None)"

datatype evaluator_case_status = CasePassed | CaseFailed | CaseError
datatype evaluator_run_status = RunPassed | RunFailed | RunError

datatype evaluation_status = EvalQueued | EvalRunning | EvalCompleted | EvalFailed

fun evaluation_status_as_str :: "evaluation_status \<Rightarrow> string" where
  "evaluation_status_as_str EvalQueued = ''queued''"
| "evaluation_status_as_str EvalRunning = ''running''"
| "evaluation_status_as_str EvalCompleted = ''completed''"
| "evaluation_status_as_str EvalFailed = ''failed''"

definition evaluation_status_from_storage_value :: "string \<Rightarrow> evaluation_status option" where
  "evaluation_status_from_storage_value v =
     (if v = ''queued'' then Some EvalQueued
      else if v = ''running'' then Some EvalRunning
      else if v = ''completed'' then Some EvalCompleted
      else if v = ''failed'' then Some EvalFailed else None)"

datatype evaluation_job_status = JobStaged | JobQueued | JobRunning | JobCompleted | JobFailed

fun job_status_as_str :: "evaluation_job_status \<Rightarrow> string" where
  "job_status_as_str JobStaged = ''staged''"
| "job_status_as_str JobQueued = ''queued''"
| "job_status_as_str JobRunning = ''running''"
| "job_status_as_str JobCompleted = ''completed''"
| "job_status_as_str JobFailed = ''failed''"

definition job_status_from_storage_value :: "string \<Rightarrow> evaluation_job_status option" where
  "job_status_from_storage_value v =
     (if v = ''staged'' then Some JobStaged
      else if v = ''queued'' then Some JobQueued
      else if v = ''running'' then Some JobRunning
      else if v = ''completed'' then Some JobCompleted
      else if v = ''failed'' then Some JobFailed else None)"

datatype solution_submission_status = SubPending | SubQueued | SubRunning | SubCompleted | SubFailed

fun submission_status_as_str :: "solution_submission_status \<Rightarrow> string" where
  "submission_status_as_str SubPending = ''pending''"
| "submission_status_as_str SubQueued = ''queued''"
| "submission_status_as_str SubRunning = ''running''"
| "submission_status_as_str SubCompleted = ''completed''"
| "submission_status_as_str SubFailed = ''failed''"

definition submission_status_from_storage_value :: "string \<Rightarrow> solution_submission_status option" where
  "submission_status_from_storage_value v =
     (if v = ''pending'' then Some SubPending
      else if v = ''queued'' then Some SubQueued
      else if v = ''running'' then Some SubRunning
      else if v = ''completed'' then Some SubCompleted
      else if v = ''failed'' then Some SubFailed else None)"

section \<open>Results\<close>

record score_summary =
  ss_score :: f64
  ss_passed :: int
  ss_total :: int

record public_case_result =
  case_name :: string
  case_status :: evaluator_case_status
  case_score :: f64
  case_message :: "string option"

record metric_value =
  mv_name :: metric_name
  mv_value :: f64

record run_metric_result =
  rm_run_name :: run_name
  rm_metrics :: "metric_value list"

record evaluator_run_result =
  er_status :: evaluator_run_status
  er_mode :: "scoring_mode option"
  aggregate_metrics :: "metric_value list"
  run_metrics :: "run_metric_result list"
  public_results :: "public_case_result list"
  validation_summary :: "score_summary option"
  official_summary :: "score_summary option"
  er_logs :: "string list"

record solution_artifact_metadata =
  artifact_zip_bytes :: nat
  artifact_uncompressed_bytes :: nat
  artifact_file_count :: nat
  artifact_sha256 :: string

record evaluation_job_payload =
  pl_artifact_key :: string
  pl_bundle_key :: string
  pl_public_bundle_key :: string
  pl_challenge_name :: challenge_name
  pl_target :: target_name

section \<open>Validation\<close>

definition validate_finite_number :: "f64 \<Rightarrow> string \<Rightarrow> string + unit" where
  "validate_finite_number v field = guard_err (\<not> is_finite v) (field @ '' must be finite'')"

definition validate_score_summary :: "score_summary \<Rightarrow> string \<Rightarrow> string + unit" where
  "validate_score_summary s label =
     and_then (validate_finite_number (ss_score s) (label @ ''.score'')) (\<lambda>_.
     and_then (guard_err (ss_passed s < 0) (label @ ''.passed must be >= 0'')) (\<lambda>_.
     and_then (guard_err (ss_total s < 0) (label @ ''.total must be >= 0'')) (\<lambda>_.
     guard_err (ss_passed s > ss_total s) (label @ ''.passed cannot be greater than total''))))"

definition validate_public_case :: "public_case_result \<Rightarrow> string + unit" where
  "validate_public_case c =
     and_then (guard_err (trim (case_name c) = []) ''public_results.case_name must not be empty'') (\<lambda>_.
     validate_finite_number (case_score c) ''public_results.score'')"

definition validate_metric_value :: "metric_value \<Rightarrow> string \<Rightarrow> string + unit" where
  "validate_metric_value m field = validate_finite_number (mv_value m) (field @ ''.value'')"

definition find_by_name :: "metric_value list \<Rightarrow> metric_name \<Rightarrow> metric_value option" where
  "find_by_name ms name = find (\<lambda>m. mv_name m = name) ms"

text \<open>The loop over the metrics of one run, with the \<open>HashSet\<close> of names seen so far.\<close>

fun validate_run_loop ::
  "run_name \<Rightarrow> metric_name set \<Rightarrow> metric_value list \<Rightarrow> string + unit" where
  "validate_run_loop rn seen [] = Inr ()"
| "validate_run_loop rn seen (m # ms) =
     and_then (validate_metric_value m ''run_metrics.metrics'') (\<lambda>_.
     and_then (guard_err (mv_name m \<in> seen)
       (''run_metrics.metrics contains duplicate metric_name `'' @ mv_name m @ ''` for run `''
         @ rn @ ''`'')) (\<lambda>_.
     validate_run_loop rn (insert (mv_name m) seen) ms))"

definition validate_run :: "run_metric_result \<Rightarrow> string + unit" where
  "validate_run r = validate_run_loop (rm_run_name r) {} (rm_metrics r)"

fun log_bytes_loop :: "nat \<Rightarrow> nat \<Rightarrow> string list \<Rightarrow> string + unit" where
  "log_bytes_loop limit acc [] = Inr ()"
| "log_bytes_loop limit acc (l # ls) =
     and_then (ok_or ''result.logs byte length overflow'' (checked_add_u64 acc (length l))) (\<lambda>acc'.
     and_then (guard_err (acc' > limit)
       (''result.logs exceeds byte limit: '' @ show_nat acc' @ '' > '' @ show_nat limit @ '' bytes''))
     (\<lambda>_. log_bytes_loop limit acc' ls))"

definition validate_size_limits ::
  "evaluator_run_result \<Rightarrow> nat \<Rightarrow> nat \<Rightarrow> string + unit" where
  "validate_size_limits r max_public_results max_result_log_bytes =
     (let n = length (public_results r) in
      and_then (guard_err (n > max_public_results)
        (''public_results contains too many entries: '' @ show_nat n @ '' > ''
          @ show_nat max_public_results)) (\<lambda>_.
      log_bytes_loop max_result_log_bytes 0 (er_logs r)))"

fun validate_metric_values_loop ::
  "string \<Rightarrow> metric_name set \<Rightarrow> metric_value list \<Rightarrow> string + unit" where
  "validate_metric_values_loop field seen [] = Inr ()"
| "validate_metric_values_loop field seen (m # ms) =
     and_then (validate_metric_value m field) (\<lambda>_.
     and_then (guard_err (mv_name m \<in> seen)
       (field @ '' contains duplicate metric_name `'' @ mv_name m @ ''`'')) (\<lambda>_.
     validate_metric_values_loop field (insert (mv_name m) seen) ms))"

definition validate_metric_values :: "metric_value list \<Rightarrow> string \<Rightarrow> string + unit" where
  "validate_metric_values ms field = validate_metric_values_loop field {} ms"

fun validate_runs_loop :: "run_name set \<Rightarrow> run_metric_result list \<Rightarrow> string + unit" where
  "validate_runs_loop seen [] = Inr ()"
| "validate_runs_loop seen (r # rs) =
     and_then (validate_run r) (\<lambda>_.
     and_then (guard_err (rm_run_name r \<in> seen)
       (''run_metrics contains duplicate run_name `'' @ rm_run_name r @ ''`'')) (\<lambda>_.
     validate_runs_loop (insert (rm_run_name r) seen) rs))"

definition validate_summary_opt :: "score_summary option \<Rightarrow> string \<Rightarrow> string + unit" where
  "validate_summary_opt s label = (case s of None \<Rightarrow> Inr () | Some s \<Rightarrow> validate_score_summary s label)"

definition validate_for_mode :: "evaluator_run_result \<Rightarrow> scoring_mode \<Rightarrow> string + unit" where
  "validate_for_mode r mode =
     and_then (guard_err (case er_mode r of None \<Rightarrow> False | Some m \<Rightarrow> m \<noteq> mode)
       ''result mode does not match evaluation job type'') (\<lambda>_.
     and_then (validate_metric_values (aggregate_metrics r) ''aggregate_metrics'') (\<lambda>_.
     and_then (validate_runs_loop {} (run_metrics r)) (\<lambda>_.
     and_then (try_each validate_public_case (public_results r)) (\<lambda>_.
     and_then (validate_summary_opt (validation_summary r) ''validation_summary'') (\<lambda>_.
     and_then (validate_summary_opt (official_summary r) ''official_summary'') (\<lambda>_.
     and_then (guard_err (validation_summary r = None \<and> official_summary r = None)
       ''validation_summary and official_summary cannot both be absent'') (\<lambda>_.
     and_then (guard_err (mode = Validation \<and> validation_summary r = None)
       ''validation evaluation requires validation_summary'') (\<lambda>_.
     guard_err (mode = Official \<and> official_summary r = None)
       ''official evaluation requires official_summary''))))))))"

definition validate_metric_visibility ::
  "scoring_mode \<Rightarrow> metric_visibility \<Rightarrow> metric_name \<Rightarrow> string + unit" where
  "validate_metric_visibility mode vis name =
     guard_err (mode = Validation \<and> vis = OfficialMetric)
       (''validation results cannot include official-only metric `'' @ name @ ''`'')"

text \<open>
  Collecting the definitions into a \<open>HashMap\<close> keeps the last definition of a name, hence the
  search from the back.
\<close>

definition declared_metric :: "metric_schema \<Rightarrow> metric_name \<Rightarrow> metric_definition option" where
  "declared_metric schema name = find (\<lambda>m. md_name m = name) (rev (metrics schema))"

definition validate_declared ::
  "metric_schema \<Rightarrow> scoring_mode \<Rightarrow> string \<Rightarrow> metric_value \<Rightarrow> string + unit" where
  "validate_declared schema mode field m =
     and_then (ok_or (field @ '' references unknown metric `'' @ mv_name m @ ''`'')
       (declared_metric schema (mv_name m))) (\<lambda>d.
     validate_metric_visibility mode (md_visibility d) (mv_name m))"

definition validate_for_metric_schema ::
  "evaluator_run_result \<Rightarrow> metric_schema \<Rightarrow> scoring_mode \<Rightarrow> string + unit" where
  "validate_for_metric_schema r schema mode =
     and_then (guard_err (metrics schema = []) ''metric schema must declare at least one metric'') (\<lambda>_.
     and_then (try_each (validate_declared schema mode ''aggregate_metrics'') (aggregate_metrics r)) (\<lambda>_.
     and_then (try_each (\<lambda>run. try_each (validate_declared schema mode ''run_metrics'') (rm_metrics run))
       (run_metrics r)) (\<lambda>_.
     guard_err (mode = Official \<and>
         \<not> list_ex (\<lambda>m. mv_name m = primary_metric_name (ranking schema)) (aggregate_metrics r))
       (''aggregate_metrics missing primary metric `'' @ primary_metric_name (ranking schema) @ ''`''))))"

definition complete_metric_result ::
  "evaluator_run_result \<Rightarrow> metric_schema \<Rightarrow> scoring_mode \<Rightarrow> string + unit" where
  "complete_metric_result r schema mode = validate_for_metric_schema r schema mode"

section \<open>Ranking\<close>

definition metric_value_by_name :: "metric_value list \<Rightarrow> metric_name \<Rightarrow> f64 option" where
  "metric_value_by_name ms name = map_option mv_value (find (\<lambda>m. mv_name m = name) ms)"

definition unwrap_or_equal :: "ordering option \<Rightarrow> ordering" where
  "unwrap_or_equal o' = (case o' of None \<Rightarrow> Equal | Some c \<Rightarrow> c)"

definition compare_f64_desc :: "f64 \<Rightarrow> f64 \<Rightarrow> ordering" where
  "compare_f64_desc a b = unwrap_or_equal (f64_partial_cmp b a)"

definition compare_f64_asc :: "f64 \<Rightarrow> f64 \<Rightarrow> ordering" where
  "compare_f64_asc a b = unwrap_or_equal (f64_partial_cmp a b)"

fun compare_metric_by_direction ::
  "metric_direction \<Rightarrow> f64 option \<Rightarrow> f64 option \<Rightarrow> ordering" where
  "compare_metric_by_direction Maximize (Some a) (Some b) = compare_f64_desc a b"
| "compare_metric_by_direction Minimize (Some a) (Some b) = compare_f64_asc a b"
| "compare_metric_by_direction d (Some _) None = Less"
| "compare_metric_by_direction d None (Some _) = Greater"
| "compare_metric_by_direction d None None = Equal"

fun compare_tie_breakers ::
  "metric_schema \<Rightarrow> metric_name list \<Rightarrow> metric_value list \<Rightarrow> metric_value list \<Rightarrow> ordering" where
  "compare_tie_breakers schema [] a b = Equal"
| "compare_tie_breakers schema (name # names) a b =
     (case metric schema name of
        None \<Rightarrow> compare_tie_breakers schema names a b
      | Some d \<Rightarrow>
          (let c = compare_metric_by_direction (md_direction d)
                     (metric_value_by_name a name) (metric_value_by_name b name)
           in if c \<noteq> Equal then c else compare_tie_breakers schema names a b))"

definition compare_metric_payloads_by_ranking ::
  "metric_schema \<Rightarrow> metric_value list \<Rightarrow> metric_value list \<Rightarrow> ordering" where
  "compare_metric_payloads_by_ranking schema a b =
     (case primary_metric schema of
        None \<Rightarrow> Equal
      | Some p \<Rightarrow>
          (let name = primary_metric_name (ranking schema);
               c = compare_metric_by_direction (md_direction p)
                     (metric_value_by_name a name) (metric_value_by_name b name)
           in if c \<noteq> Equal then c
              else compare_tie_breakers schema (tie_breaker_metric_names (ranking schema)) a b))"

section \<open>Laws of the stored strings\<close>

lemma scoring_mode_rt [storage_rt]:
  "scoring_mode_from_storage_value (scoring_mode_as_str m) = Some m"
  by (cases m) (simp_all add: scoring_mode_from_storage_value_def)

lemma evaluation_status_rt [storage_rt]:
  "evaluation_status_from_storage_value (evaluation_status_as_str s) = Some s"
  by (cases s) (simp_all add: evaluation_status_from_storage_value_def)

lemma job_status_rt [storage_rt]:
  "job_status_from_storage_value (job_status_as_str s) = Some s"
  by (cases s) (simp_all add: job_status_from_storage_value_def)

lemma submission_status_rt [storage_rt]:
  "submission_status_from_storage_value (submission_status_as_str s) = Some s"
  by (cases s) (simp_all add: submission_status_from_storage_value_def)

section \<open>Laws of validation\<close>

definition finite_payload :: "metric_value list \<Rightarrow> bool" where
  "finite_payload ms = list_all (\<lambda>m. is_finite (mv_value m)) ms"

lemma validate_finite_number_ok [result_simps]:
  "validate_finite_number v f = Inr u \<longleftrightarrow> is_finite v"
  by (simp add: validate_finite_number_def guard_err_eq_Inr)

lemma validate_metric_values_loop_ok:
  "validate_metric_values_loop field seen ms = Inr u \<longleftrightarrow>
     finite_payload ms \<and> distinct (map mv_name ms) \<and> mv_name ` set ms \<inter> seen = {}"
  by (induction ms arbitrary: seen)
    (auto simp: result_simps finite_payload_def validate_metric_value_def)

lemma validate_run_loop_ok:
  "validate_run_loop rn seen ms = Inr u \<longleftrightarrow>
     finite_payload ms \<and> distinct (map mv_name ms) \<and> mv_name ` set ms \<inter> seen = {}"
  by (induction ms arbitrary: seen)
    (auto simp: result_simps finite_payload_def validate_metric_value_def)

definition run_wf :: "run_metric_result \<Rightarrow> bool" where
  "run_wf r = (finite_payload (rm_metrics r) \<and> distinct (map mv_name (rm_metrics r)))"

lemma validate_runs_loop_ok:
  "validate_runs_loop seen rs = Inr u \<longleftrightarrow>
     (\<forall>r \<in> set rs. run_wf r) \<and> distinct (map rm_run_name rs) \<and> rm_run_name ` set rs \<inter> seen = {}"
  by (induction rs arbitrary: seen)
    (auto simp: result_simps validate_run_def validate_run_loop_ok run_wf_def)

definition summary_wf :: "score_summary \<Rightarrow> bool" where
  "summary_wf s = (is_finite (ss_score s) \<and> 0 \<le> ss_passed s \<and> ss_passed s \<le> ss_total s)"

lemma validate_score_summary_ok [result_simps]:
  "validate_score_summary s label = Inr u \<longleftrightarrow> summary_wf s"
  by (auto simp: validate_score_summary_def result_simps summary_wf_def)

lemma validate_summary_opt_ok [result_simps]:
  "validate_summary_opt s label = Inr u \<longleftrightarrow> (case s of None \<Rightarrow> True | Some x \<Rightarrow> summary_wf x)"
  by (simp add: validate_summary_opt_def result_simps split: option.splits)

lemma validate_public_case_ok [result_simps]:
  "validate_public_case c = Inr u \<longleftrightarrow> trim (case_name c) \<noteq> [] \<and> is_finite (case_score c)"
  by (simp add: validate_public_case_def result_simps)

definition mode_summary :: "evaluator_run_result \<Rightarrow> scoring_mode \<Rightarrow> score_summary option" where
  "mode_summary r mode = (case mode of Validation \<Rightarrow> validation_summary r | Official \<Rightarrow> official_summary r)"

text \<open>What the loop over the log lines checks: the running total never leaves \<open>u64\<close> or the limit.\<close>

lemma log_bytes_loop_ok:
  "limit \<le> u64_max \<Longrightarrow> acc \<le> limit \<Longrightarrow>
     log_bytes_loop limit acc ls = Inr u \<longleftrightarrow> acc + sum_list (map length ls) \<le> limit"
proof (induction ls arbitrary: acc)
  case (Cons l ls)
  show ?case
  proof (cases "acc + length l \<le> limit")
    case True
    with Cons show ?thesis by (simp add: checked_add_u64_def add.assoc)
  next
    case False
    then show ?thesis by (auto simp: checked_add_u64_def result_simps)
  qed
qed simp

lemma validate_declared_ok:
  "validate_declared schema mode field m = Inr u \<longleftrightarrow>
     (\<exists>d. declared_metric schema (mv_name m) = Some d \<and>
        (mode = Validation \<longrightarrow> md_visibility d = PublicMetric))"
  by (cases mode; cases "declared_metric schema (mv_name m)")
    (auto simp: validate_declared_def validate_metric_visibility_def result_simps
      intro: metric_visibility.exhaust)

section \<open>Laws of the ranking comparator\<close>

definition finite_opt :: "f64 option \<Rightarrow> bool" where
  "finite_opt v = (case v of None \<Rightarrow> True | Some x \<Rightarrow> is_finite x)"

lemma is_finite_iff: "is_finite v \<longleftrightarrow> (\<exists>q. v = Fin q)"
  by (cases v) auto

lemma metric_value_by_name_finite: "finite_payload ms \<Longrightarrow> finite_opt (metric_value_by_name ms name)"
  by (auto simp: metric_value_by_name_def finite_opt_def finite_payload_def list_all_iff
      split: option.splits dest!: find_Some_iff_in)

lemma compare_f64_asc_Fin [simp]: "compare_f64_asc (Fin a) (Fin b) = cmp_lin a b"
  by (simp add: compare_f64_asc_def unwrap_or_equal_def)

lemma compare_f64_desc_Fin [simp]: "compare_f64_desc (Fin a) (Fin b) = cmp_lin b a"
  by (simp add: compare_f64_desc_def unwrap_or_equal_def)

lemma finite_opt_cases:
  assumes "finite_opt v"
  obtains "v = None" | q where "v = Some (Fin q)"
  using assms by (cases v) (auto simp: finite_opt_def is_finite_iff)

lemma lawful_compare_by_direction: "lawful_cmp finite_opt (compare_metric_by_direction d)"
proof
  fix x y
  assume "finite_opt x" "finite_opt y"
  then show "compare_metric_by_direction d y x = reverse_ordering (compare_metric_by_direction d x y)"
    by (cases d; auto elim!: finite_opt_cases simp: cmp_lin_def)
next
  fix x y z
  assume "finite_opt x" "finite_opt y" "finite_opt z"
    "compare_metric_by_direction d x y \<noteq> Greater" "compare_metric_by_direction d y z \<noteq> Greater"
  then show "compare_metric_by_direction d x z \<noteq> Greater"
    by (cases d; auto elim!: finite_opt_cases simp: cmp_lin_def split: if_splits)
qed

lemma then_with_decided: "c \<noteq> Equal \<Longrightarrow> then_with c d = c"
  by (cases c) auto

lemma lawful_compare_by_name:
  "lawful_cmp finite_payload (\<lambda>a b. compare_metric_by_direction d
      (metric_value_by_name a name) (metric_value_by_name b name))"
  by (rule lawful_cmp_key [OF lawful_compare_by_direction metric_value_by_name_finite])

lemma lawful_compare_tie_breakers: "lawful_cmp finite_payload (compare_tie_breakers schema names)"
proof (induction names)
  case Nil
  have "compare_tie_breakers schema [] = (\<lambda>_ _. Equal)" by (intro ext) simp
  then show ?case by (simp only: lawful_cmp_Equal)
next
  case (Cons name names)
  show ?case
  proof (cases "metric schema name")
    case None
    then have "compare_tie_breakers schema (name # names) = compare_tie_breakers schema names"
      by (intro ext) simp
    with Cons.IH show ?thesis by (simp only:)
  next
    case (Some d)
    have "compare_tie_breakers schema (name # names) =
        (\<lambda>a b. then_with (compare_metric_by_direction (md_direction d)
           (metric_value_by_name a name) (metric_value_by_name b name))
           (compare_tie_breakers schema names a b))"
      by (intro ext) (simp add: Some Let_def then_with_decided)
    then show ?thesis
      by (simp only: lawful_cmp_then_with [OF lawful_compare_by_name Cons.IH])
  qed
qed

lemma lawful_compare_metric_payloads:
  "lawful_cmp finite_payload (compare_metric_payloads_by_ranking schema)"
proof (cases "primary_metric schema")
  case None
  then have "compare_metric_payloads_by_ranking schema = (\<lambda>_ _. Equal)"
    by (intro ext) (simp add: compare_metric_payloads_by_ranking_def)
  then show ?thesis by (simp only: lawful_cmp_Equal)
next
  case (Some p)
  then have "compare_metric_payloads_by_ranking schema =
      (\<lambda>a b. then_with (compare_metric_by_direction (md_direction p)
         (metric_value_by_name a (primary_metric_name (ranking schema)))
         (metric_value_by_name b (primary_metric_name (ranking schema))))
         (compare_tie_breakers schema (tie_breaker_metric_names (ranking schema)) a b))"
    by (intro ext)
      (simp add: compare_metric_payloads_by_ranking_def Let_def then_with_decided)
  then show ?thesis
    by (simp only: lawful_cmp_then_with [OF lawful_compare_by_name lawful_compare_tie_breakers])
qed

interpretation ranking_cmp: lawful_cmp finite_payload "compare_metric_payloads_by_ranking schema"
  for schema
  by (rule lawful_compare_metric_payloads)

end
