(* ===== verification/Db_Schema.thy ===== *)
theory Db_Schema
  imports Sql_Tables Evaluation_Model "HOL-Library.Char_ord" "HOL-Library.List_Lexorder"
begin

text \<open>
  The part of the database schema (\<open>backend/migrations/\<close>) that the evaluation pipeline reads and
  writes: one record type per table and a record of the tables. A \<open>CHECK (... IN ...)\<close> column has
  the enum's type; identifiers are UUIDs in their canonical text form, timestamps are microseconds,
  and a JSONB column holds the value that \<open>serde\<close> decodes from it. \<open>payload_json\<close>, whose decoding
  the code checks, is \<open>None\<close> when it does not decode; \<open>spec_json\<close> may also be NULL. \<open>INTEGER\<close> and
  \<open>BIGINT\<close> columns are \<open>int\<close>.

  A statement inside a transaction maps the tables to an error or to a value and new tables;
  \<open>transact\<close> commits the new tables or, on an error, rolls back to the old ones. Statements of one
  transaction see the same \<open>NOW()\<close>, which is an argument. Connection failures of the driver are not
  modelled.
\<close>

type_synonym uuid = string
type_synonym timestamp = int
type_synonym storage_key = string

definition minutes :: "int \<Rightarrow> int" where "minutes n = n * 60000000"
definition seconds :: "int \<Rightarrow> int" where "seconds n = n * 1000000"

section \<open>Rows\<close>

datatype spec_column = SpecNull | SpecInvalid | SpecValid challenge_bundle_spec

record challenge_row =
  ch_name :: challenge_name
  ch_title :: string
  ch_bundle_key :: storage_key
  ch_public_bundle_key :: storage_key
  ch_statement_key :: storage_key
  ch_spec_json :: spec_column
  ch_status :: challenge_lifecycle_status

fun decoded_spec :: "spec_column \<Rightarrow> challenge_bundle_spec option" where
  "decoded_spec (SpecValid spec) = Some spec"
| "decoded_spec SpecInvalid = None"
| "decoded_spec SpecNull = None"

abbreviation ch_spec :: "challenge_row \<Rightarrow> challenge_bundle_spec option" where
  "ch_spec c \<equiv> decoded_spec (ch_spec_json c)"

text \<open>Reading the column as a JSON value fails on NULL, decoding it fails on a malformed contract.\<close>

fun read_spec :: "string \<Rightarrow> spec_column \<Rightarrow> challenge_bundle_spec result" where
  "read_spec msg SpecNull = Inl (Database (SqlxOther ''unexpected null in column spec_json''))"
| "read_spec msg SpecInvalid = Inl (Internal msg)"
| "read_spec msg (SpecValid spec) = Inr spec"

lemma read_spec_ok [result_simps]: "read_spec msg c = Inr spec \<longleftrightarrow> decoded_spec c = Some spec"
  by (cases c) auto

record submission_row =
  sub_id :: uuid
  sub_challenge :: challenge_name
  sub_target :: target_name
  sub_agent :: uuid
  sub_artifact_key :: storage_key
  sub_zip_bytes :: "int option"
  sub_uncompressed_bytes :: "int option"
  sub_file_count :: "int option"
  sub_sha256 :: "string option"
  sub_status :: solution_submission_status
  sub_note :: string
  sub_explanation :: string
  sub_parent :: "uuid option"
  sub_credit_text :: string
  sub_visible :: bool
  sub_created_at :: timestamp
  sub_updated_at :: timestamp

record job_row =
  job_id :: uuid
  job_submission :: uuid
  job_challenge :: challenge_name
  job_target :: target_name
  job_accelerator :: target_accelerator
  job_eval_type :: scoring_mode
  job_status :: evaluation_job_status
  job_priority :: int
  job_payload :: "evaluation_job_payload option"
  job_attempt_count :: int
  job_max_attempts :: int
  job_scheduled_at :: timestamp
  job_claimed_at :: "timestamp option"
  job_finished_at :: "timestamp option"
  job_last_error :: "string option"
  job_worker_id :: "string option"
  job_created_at :: timestamp

record evaluation_row =
  ev_id :: uuid
  ev_submission :: uuid
  ev_job :: uuid
  ev_target :: target_name
  ev_eval_type :: scoring_mode
  ev_status :: evaluation_status
  ev_aggregate_metrics :: "metric_value list"
  ev_run_metrics :: "run_metric_result list"
  ev_public_results :: "public_case_result list option"
  ev_validation_summary :: "score_summary option"
  ev_official_summary :: "score_summary option"
  ev_runner_log_key :: "storage_key option"
  ev_started_at :: "timestamp option"
  ev_finished_at :: "timestamp option"
  ev_created_at :: timestamp

record leaderboard_row =
  lb_challenge :: challenge_name
  lb_target :: target_name
  lb_agent :: uuid
  lb_best :: uuid
  lb_public_results :: "public_case_result list"
  lb_aggregate_metrics :: "metric_value list"
  lb_official_metrics :: "metric_value list"
  lb_updated_at :: timestamp

record agent_row =
  ag_id :: uuid
  ag_display_name :: string

record heartbeat_payload =
  hb_status :: string
  hb_accelerators :: "string list"
  hb_job_id :: "uuid option"
  hb_solution_submission_id :: "uuid option"
  hb_last_completed_job_id :: "uuid option"
  hb_last_failed_job_id :: "uuid option"

record heartbeat_row =
  hb_service_name :: string
  hb_last_seen_at :: timestamp
  hb_payload :: heartbeat_payload

record db =
  challenges :: "challenge_row list"
  submissions :: "submission_row list"
  jobs :: "job_row list"
  evaluations :: "evaluation_row list"
  leaderboard :: "leaderboard_row list"
  shortlist :: "(challenge_name \<times> uuid) list"
  agents :: "agent_row list"
  heartbeats :: "heartbeat_row list"
  quota_locks :: "string list"

section \<open>Transactions\<close>

type_synonym 'a tx = "db \<Rightarrow> service_error + 'a \<times> db"

definition transact :: "('s \<Rightarrow> service_error + 'a \<times> 's) \<Rightarrow> 's \<Rightarrow> 'a result \<times> 's" where
  "transact t db = (case t db of Inl e \<Rightarrow> (Inl e, db) | Inr (a, db') \<Rightarrow> (Inr a, db'))"

lemma transact_ok: "transact t db = (Inr a, db') \<longleftrightarrow> t db = Inr (a, db')"
  by (auto simp: transact_def split: sum.splits)

lemma transact_err: "transact t db = (Inl e, db') \<longleftrightarrow> t db = Inl e \<and> db' = db"
  by (auto simp: transact_def split: sum.splits)

lemma transact_cases:
  obtains (ok) a db' where "t db = Inr (a, db')" "transact t db = (Inr a, db')"
  | (err) e where "t db = Inl e" "transact t db = (Inl e, db)"
  by (cases "t db") (auto simp: transact_def)

text \<open>\<open>INSERT ... ON CONFLICT DO NOTHING\<close> and \<open>SELECT ... FOR UPDATE\<close> of one lock row.\<close>

definition lock_scope :: "string \<Rightarrow> db \<Rightarrow> db" where
  "lock_scope scope db =
     (if scope \<in> set (quota_locks db) then db else db\<lparr>quota_locks := quota_locks db @ [scope]\<rparr>)"

lemma lock_scope_frame [simp]:
  "challenges (lock_scope s db) = challenges db"
  "submissions (lock_scope s db) = submissions db"
  "jobs (lock_scope s db) = jobs db"
  "evaluations (lock_scope s db) = evaluations db"
  "leaderboard (lock_scope s db) = leaderboard db"
  "shortlist (lock_scope s db) = shortlist db"
  "agents (lock_scope s db) = agents db"
  "heartbeats (lock_scope s db) = heartbeats db"
  by (simp_all add: lock_scope_def)

section \<open>Lookups by key\<close>

definition challenge_by_name :: "challenge_name \<Rightarrow> challenge_row list \<Rightarrow> challenge_row option" where
  "challenge_by_name n tbl = sql_first (\<lambda>c. ch_name c = n) tbl"

definition sub_by_id :: "uuid \<Rightarrow> submission_row list \<Rightarrow> submission_row option" where
  "sub_by_id i tbl = sql_first (\<lambda>s. sub_id s = i) tbl"

definition job_by_id :: "uuid \<Rightarrow> job_row list \<Rightarrow> job_row option" where
  "job_by_id i tbl = sql_first (\<lambda>j. job_id j = i) tbl"

definition eval_by_job :: "uuid \<Rightarrow> evaluation_row list \<Rightarrow> evaluation_row option" where
  "eval_by_job i tbl = sql_first (\<lambda>e. ev_job e = i) tbl"

definition lb_scope :: "leaderboard_row \<Rightarrow> challenge_name \<times> target_name \<times> uuid" where
  "lb_scope l = (lb_challenge l, lb_target l, lb_agent l)"

definition lb_by_scope ::
  "challenge_name \<times> target_name \<times> uuid \<Rightarrow> leaderboard_row list \<Rightarrow> leaderboard_row option" where
  "lb_by_scope k tbl = sql_first (\<lambda>l. lb_scope l = k) tbl"

interpretation challenge_tbl: keyed_table ch_name challenge_by_name
  by unfold_locales (simp add: challenge_by_name_def)

interpretation sub_tbl: keyed_table sub_id sub_by_id
  by unfold_locales (simp add: sub_by_id_def)

interpretation job_tbl: keyed_table job_id job_by_id
  by unfold_locales (simp add: job_by_id_def)

interpretation eval_tbl: keyed_table ev_job eval_by_job
  by unfold_locales (simp add: eval_by_job_def)

interpretation lb_tbl: keyed_table lb_scope lb_by_scope
  by unfold_locales (simp add: lb_by_scope_def)

section \<open>Constraints the schema enforces\<close>

definition job_active :: "job_row \<Rightarrow> bool" where
  "job_active j = (job_status j \<in> {JobStaged, JobQueued, JobRunning})"

lemma job_active_simps [simp]:
  "job_status j = JobStaged \<Longrightarrow> job_active j" "job_status j = JobQueued \<Longrightarrow> job_active j"
  "job_status j = JobRunning \<Longrightarrow> job_active j" "job_status j = JobCompleted \<Longrightarrow> \<not> job_active j"
  "job_status j = JobFailed \<Longrightarrow> \<not> job_active j"
  by (simp_all add: job_active_def)

text \<open>The partial unique index \<open>idx_evaluation_jobs_one_active_per_submission\<close>.\<close>

definition one_active :: "job_row list \<Rightarrow> bool" where
  "one_active js = distinct (map job_submission (filter job_active js))"

text \<open>A submission refers to a challenge that has a contract.\<close>

definition sub_fk :: "db \<Rightarrow> submission_row \<Rightarrow> bool" where
  "sub_fk db s \<longleftrightarrow> (\<exists>c \<in> set (challenges db). ch_name c = sub_challenge s \<and> ch_spec_json c \<noteq> SpecNull)"

lemma one_active_unique:
  assumes "one_active js" "pk_ok job_id js" "i \<in> set js" "j \<in> set js" "job_active i" "job_active j"
    "job_submission i = job_submission j"
  shows "i = j"
  using assms unfolding one_active_def
  by (auto simp: distinct_map dest: inj_onD [where x = i and y = j])

section \<open>Submission updates\<close>

definition set_submission_status ::
  "timestamp \<Rightarrow> uuid \<Rightarrow> solution_submission_status \<Rightarrow> bool \<Rightarrow> db \<Rightarrow> db" where
  "set_submission_status now sid st vis db = db\<lparr>submissions :=
     sql_update (\<lambda>s. sub_id s = sid)
       (\<lambda>s. s\<lparr>sub_status := st, sub_visible := vis, sub_updated_at := now\<rparr>) (submissions db)\<rparr>"

lemma set_submission_status_frame [simp]:
  "challenges (set_submission_status now i st v db) = challenges db"
  "jobs (set_submission_status now i st v db) = jobs db"
  "evaluations (set_submission_status now i st v db) = evaluations db"
  "leaderboard (set_submission_status now i st v db) = leaderboard db"
  "shortlist (set_submission_status now i st v db) = shortlist db"
  "agents (set_submission_status now i st v db) = agents db"
  by (simp_all add: set_submission_status_def)

text \<open>Deleting a submission cascades to its jobs, evaluations and leaderboard rows, and clears the
  parent reference of its children.\<close>

definition delete_solution_submission :: "uuid \<Rightarrow> db \<Rightarrow> db" where
  "delete_solution_submission sid db =
     (let dead_jobs = sql_select (\<lambda>j. job_submission j = sid) (jobs db) in
      db\<lparr>submissions := sql_update (\<lambda>s. sub_parent s = Some sid) (\<lambda>s. s\<lparr>sub_parent := None\<rparr>)
           (sql_delete (\<lambda>s. sub_id s = sid) (submissions db)),
         jobs := sql_delete (\<lambda>j. job_submission j = sid) (jobs db),
         evaluations := sql_delete (\<lambda>e. ev_submission e = sid
           \<or> ev_job e \<in> job_id ` set dead_jobs) (evaluations db),
         leaderboard := sql_delete (\<lambda>l. lb_best l = sid) (leaderboard db)\<rparr>)"

end
