(* ===== verification/Leaderboard.thy ===== *)
theory Leaderboard
  imports Db_Schema
begin

text \<open>
  Leaderboard persistence, \<open>crates/persistence/src/db/leaderboard.rs\<close>: repairing the row of one
  agent after a submission is hidden, upserting it after an official result, and listing the
  ranked rows. The \<open>ORDER BY\<close> that the query builder assembles is the comparator
  \<open>sql_ranking_cmp\<close>.
\<close>

record repair_scope =
  rs_challenge :: challenge_name
  rs_target :: target_name
  rs_agent :: uuid

definition scope_key :: "repair_scope \<Rightarrow> challenge_name \<times> target_name \<times> uuid" where
  "scope_key sc = (rs_challenge sc, rs_target sc, rs_agent sc)"

record replacement_candidate =
  rc_id :: uuid
  rc_created_at :: timestamp
  rc_public_results :: "public_case_result list"
  rc_aggregate_metrics :: "metric_value list"
  rc_official_metrics :: "metric_value list"

section \<open>Comparators\<close>

definition compare_rank_payloads ::
  "challenge_bundle_spec \<Rightarrow> metric_value list \<Rightarrow> metric_value list \<Rightarrow> ordering" where
  "compare_rank_payloads spec a b = compare_metric_payloads_by_ranking (metric_schema spec) a b"

definition compare_replacement_candidates ::
  "challenge_bundle_spec \<Rightarrow> replacement_candidate \<Rightarrow> replacement_candidate \<Rightarrow> ordering" where
  "compare_replacement_candidates spec a b =
     then_with (then_with (compare_rank_payloads spec (rc_aggregate_metrics a) (rc_aggregate_metrics b))
       (cmp_lin (rc_created_at a) (rc_created_at b)))
       (cmp_lin (rc_id a) (rc_id b))"

definition candidate_replaces_leaderboard_entry ::
  "challenge_bundle_spec \<Rightarrow> metric_value list option \<Rightarrow> metric_value list \<Rightarrow> bool" where
  "candidate_replaces_leaderboard_entry spec current candidate =
     (case current of None \<Rightarrow> True
      | Some c \<Rightarrow> compare_rank_payloads spec candidate c = Less)"

section \<open>Repair\<close>

definition lock_leaderboard_scope :: "repair_scope \<Rightarrow> db \<Rightarrow> db" where
  "lock_leaderboard_scope sc db =
     lock_scope (''leaderboard:'' @ rs_challenge sc @ '':'' @ rs_target sc @ '':'' @ rs_agent sc) db"

definition find_leaderboard_repair_scope :: "uuid \<Rightarrow> db \<Rightarrow> repair_scope option" where
  "find_leaderboard_repair_scope sid db =
     map_option (\<lambda>s. \<lparr>rs_challenge = sub_challenge s, rs_target = sub_target s, rs_agent = sub_agent s\<rparr>)
       (sub_by_id sid (submissions db))"

definition leaderboard_entry_points_to_submission :: "repair_scope \<Rightarrow> uuid \<Rightarrow> db \<Rightarrow> bool" where
  "leaderboard_entry_points_to_submission sc sid db =
     (case lb_by_scope (scope_key sc) (leaderboard db) of
        None \<Rightarrow> False | Some l \<Rightarrow> lb_best l = sid)"

definition load_repair_challenge_spec :: "challenge_name \<Rightarrow> db \<Rightarrow> challenge_bundle_spec option result" where
  "load_repair_challenge_spec n db =
     (case challenge_by_name n (challenges db) of
        None \<Rightarrow> Inr None
      | Some c \<Rightarrow> and_then (read_spec ''stored challenge spec is invalid'' (ch_spec_json c)) (\<lambda>spec. Inr (Some spec)))"

text \<open>The lateral join: the newest completed official evaluation of a submission on its target.\<close>

definition latest_official_evaluation :: "submission_row \<Rightarrow> evaluation_row list \<Rightarrow> evaluation_row option" where
  "latest_official_evaluation s evs =
     sql_top (\<lambda>e. ev_submission e = sub_id s \<and> ev_eval_type e = Official
         \<and> ev_status e = EvalCompleted \<and> ev_target e = sub_target s)
       (\<lambda>a b. cmp_lin (ev_created_at b) (ev_created_at a)) evs"

definition replacement_candidate_of :: "submission_row \<Rightarrow> evaluation_row \<Rightarrow> replacement_candidate" where
  "replacement_candidate_of s e =
     \<lparr>rc_id = sub_id s, rc_created_at = sub_created_at s,
      rc_public_results = (case ev_public_results e of None \<Rightarrow> [] | Some rs \<Rightarrow> rs),
      rc_aggregate_metrics = ev_aggregate_metrics e,
      rc_official_metrics = ev_aggregate_metrics e\<rparr>"

definition replacement_eligible :: "repair_scope \<Rightarrow> uuid \<Rightarrow> submission_row \<Rightarrow> bool" where
  "replacement_eligible sc sid s =
     (sub_challenge s = rs_challenge sc \<and> sub_agent s = rs_agent sc \<and> sub_id s \<noteq> sid
      \<and> sub_target s = rs_target sc \<and> sub_visible s \<and> sub_status s = SubCompleted)"

definition replacement_candidate_rows :: "repair_scope \<Rightarrow> uuid \<Rightarrow> db \<Rightarrow> replacement_candidate list" where
  "replacement_candidate_rows sc sid db =
     List.map_filter (\<lambda>s. map_option (replacement_candidate_of s)
         (latest_official_evaluation s (evaluations db)))
       (sql_select (replacement_eligible sc sid) (submissions db))"

definition best_replacement_candidate ::
  "repair_scope \<Rightarrow> uuid \<Rightarrow> challenge_bundle_spec \<Rightarrow> db \<Rightarrow> replacement_candidate option" where
  "best_replacement_candidate sc sid spec db =
     first_by (compare_replacement_candidates spec) (replacement_candidate_rows sc sid db)"

definition upsert_replacement_leaderboard_entry ::
  "timestamp \<Rightarrow> repair_scope \<Rightarrow> replacement_candidate \<Rightarrow> db \<Rightarrow> db" where
  "upsert_replacement_leaderboard_entry now sc best db = db\<lparr>leaderboard :=
     sql_upsert lb_scope
       \<lparr>lb_challenge = rs_challenge sc, lb_target = rs_target sc, lb_agent = rs_agent sc,
        lb_best = rc_id best, lb_public_results = rc_public_results best,
        lb_aggregate_metrics = rc_aggregate_metrics best,
        lb_official_metrics = rc_official_metrics best, lb_updated_at = now\<rparr> (leaderboard db)\<rparr>"

definition delete_leaderboard_entry :: "repair_scope \<Rightarrow> db \<Rightarrow> db" where
  "delete_leaderboard_entry sc db =
     db\<lparr>leaderboard := sql_delete (\<lambda>l. lb_scope l = scope_key sc) (leaderboard db)\<rparr>"

definition repair_leaderboard_entry_for_solution_submission_tx ::
  "timestamp \<Rightarrow> uuid \<Rightarrow> unit tx" where
  "repair_leaderboard_entry_for_solution_submission_tx now sid db =
     (case find_leaderboard_repair_scope sid db of
        None \<Rightarrow> Inr ((), db)
      | Some sc \<Rightarrow>
          (let db1 = lock_leaderboard_scope sc db in
           if \<not> leaderboard_entry_points_to_submission sc sid db1 then Inr ((), db1)
           else and_then (load_repair_challenge_spec (rs_challenge sc) db1) (\<lambda>spec_opt.
             case spec_opt of
               None \<Rightarrow> Inr ((), db1)
             | Some spec \<Rightarrow>
                 (case best_replacement_candidate sc sid spec db1 of
                    Some best \<Rightarrow> Inr ((), upsert_replacement_leaderboard_entry now sc best db1)
                  | None \<Rightarrow> Inr ((), delete_leaderboard_entry sc db1)))))"

section \<open>Upsert after an official result\<close>

definition upsert_leaderboard_entry_for_solution_submission_tx ::
  "timestamp \<Rightarrow> uuid \<Rightarrow> target_name \<Rightarrow> public_case_result list \<Rightarrow> metric_value list \<Rightarrow> bool tx" where
  "upsert_leaderboard_entry_for_solution_submission_tx now sid t pub agg db =
     (case sub_by_id sid (submissions db) of
        None \<Rightarrow> Inr (False, db)
      | Some s \<Rightarrow>
        (case challenge_by_name (sub_challenge s) (challenges db) of
           None \<Rightarrow> Inr (False, db)
         | Some c \<Rightarrow>
           and_then (read_spec ''stored challenge spec is invalid'' (ch_spec_json c)) (\<lambda>spec.
           (let sc = \<lparr>rs_challenge = sub_challenge s, rs_target = t, rs_agent = sub_agent s\<rparr>;
                db1 = lock_leaderboard_scope sc db;
                current = map_option lb_aggregate_metrics (lb_by_scope (scope_key sc) (leaderboard db1))
            in if \<not> candidate_replaces_leaderboard_entry spec current agg then Inr (False, db1)
               else Inr (True, db1\<lparr>leaderboard := sql_upsert lb_scope
                 \<lparr>lb_challenge = sub_challenge s, lb_target = t, lb_agent = sub_agent s,
                  lb_best = sid, lb_public_results = pub, lb_aggregate_metrics = agg,
                  lb_official_metrics = agg, lb_updated_at = now\<rparr> (leaderboard db1)\<rparr>)))))"

definition update_official_metrics_for_solution_submission_tx ::
  "timestamp \<Rightarrow> uuid \<Rightarrow> target_name \<Rightarrow> metric_value list \<Rightarrow> unit tx" where
  "update_official_metrics_for_solution_submission_tx now sid t ms db =
     (case sub_by_id sid (submissions db) of
        None \<Rightarrow> Inr ((), db)
      | Some s \<Rightarrow> Inr ((), db\<lparr>leaderboard :=
          sql_update (\<lambda>l. lb_scope l = (sub_challenge s, t, sub_agent s))
            (\<lambda>l. l\<lparr>lb_official_metrics := ms, lb_updated_at := now\<rparr>) (leaderboard db)\<rparr>))"

section \<open>Listing\<close>

definition ranking_order_metrics :: "metric_schema \<Rightarrow> (metric_name \<times> metric_direction) list" where
  "ranking_order_metrics schema =
     List.map_filter (\<lambda>n. map_option (\<lambda>d. (md_name d, md_direction d)) (metric schema n))
       (primary_metric_name (ranking schema) # tie_breaker_metric_names (ranking schema))"

text \<open>\<open>DOUBLE PRECISION\<close> comparison in PostgreSQL: NaN equals itself and is above everything.\<close>

fun pg_float_cmp :: "f64 \<Rightarrow> f64 \<Rightarrow> ordering" where
  "pg_float_cmp NaN NaN = Equal"
| "pg_float_cmp NaN _ = Greater"
| "pg_float_cmp _ NaN = Less"
| "pg_float_cmp a b = unwrap_or_equal (f64_partial_cmp a b)"

text \<open>One \<open>ORDER BY\<close> term: \<open>ASC NULLS LAST\<close> for minimized, \<open>DESC NULLS LAST\<close> for maximized.\<close>

fun sql_metric_order :: "metric_direction \<Rightarrow> f64 option \<Rightarrow> f64 option \<Rightarrow> ordering" where
  "sql_metric_order Minimize (Some a) (Some b) = pg_float_cmp a b"
| "sql_metric_order Maximize (Some a) (Some b) = pg_float_cmp b a"
| "sql_metric_order d (Some _) None = Less"
| "sql_metric_order d None (Some _) = Greater"
| "sql_metric_order d None None = Equal"

fun sql_ranking_cmp ::
  "(metric_name \<times> metric_direction) list \<Rightarrow> metric_value list \<Rightarrow> metric_value list \<Rightarrow> ordering" where
  "sql_ranking_cmp [] a b = Equal"
| "sql_ranking_cmp ((n, d) # ms) a b =
     then_with (sql_metric_order d (metric_value_by_name a n) (metric_value_by_name b n))
       (sql_ranking_cmp ms a b)"

record leaderboard_record =
  lr_target :: target_name
  lr_agent_id :: uuid
  lr_agent_display_name :: string
  lr_best :: uuid
  lr_aggregate_metrics :: "metric_value list"
  lr_official_metrics :: "metric_value list"
  lr_updated_at :: timestamp

definition leaderboard_record_of :: "leaderboard_row \<Rightarrow> agent_row \<Rightarrow> leaderboard_record" where
  "leaderboard_record_of l a =
     \<lparr>lr_target = lb_target l, lr_agent_id = lb_agent l, lr_agent_display_name = ag_display_name a,
      lr_best = lb_best l, lr_aggregate_metrics = lb_aggregate_metrics l,
      lr_official_metrics = lb_official_metrics l, lr_updated_at = lb_updated_at l\<rparr>"

text \<open>\<open>collate\<close> is the database's text collation, used for the display name tie-break.\<close>

definition leaderboard_order ::
  "(string \<Rightarrow> string \<Rightarrow> ordering) \<Rightarrow> challenge_bundle_spec \<Rightarrow> leaderboard_record \<Rightarrow> leaderboard_record \<Rightarrow> ordering" where
  "leaderboard_order collate spec a b =
     then_with (sql_ranking_cmp (ranking_order_metrics (metric_schema spec))
         (lr_aggregate_metrics a) (lr_aggregate_metrics b))
     (then_with (cmp_lin (lr_updated_at a) (lr_updated_at b))
     (then_with (collate (lr_agent_display_name a) (lr_agent_display_name b))
       (cmp_lin (lr_best a) (lr_best b))))"

definition leaderboard_join_on ::
  "challenge_name \<Rightarrow> target_name \<Rightarrow> leaderboard_row \<Rightarrow> submission_row \<Rightarrow> agent_row \<Rightarrow> challenge_row \<Rightarrow> bool" where
  "leaderboard_join_on n t l s a c =
     (sub_id s = lb_best l \<and> ag_id a = lb_agent l \<and> ch_name c = lb_challenge l
      \<and> ch_name c = n \<and> lb_target l = t \<and> sub_visible s \<and> sub_status s = SubCompleted)"

definition leaderboard_join :: "challenge_name \<Rightarrow> target_name \<Rightarrow> db \<Rightarrow> leaderboard_record list" where
  "leaderboard_join n t db =
     map (\<lambda>(l, s, a, c). leaderboard_record_of l a)
       (sql_select (\<lambda>(l, s, a, c). leaderboard_join_on n t l s a c)
         (List.product (leaderboard db) (List.product (submissions db)
           (List.product (agents db) (challenges db)))))"

definition list_leaderboard_rows ::
  "(string \<Rightarrow> string \<Rightarrow> ordering) \<Rightarrow> challenge_name \<Rightarrow> target_name \<Rightarrow> int \<Rightarrow> challenge_bundle_spec
     \<Rightarrow> db \<Rightarrow> leaderboard_record list" where
  "list_leaderboard_rows collate n t limit spec db =
     take (nat (max limit 1)) (sort_by (leaderboard_order collate spec) (leaderboard_join n t db))"

section \<open>Replacement candidates\<close>

definition candidate_finite :: "replacement_candidate \<Rightarrow> bool" where
  "candidate_finite c = finite_payload (rc_aggregate_metrics c)"

lemma lawful_compare_rank_payloads: "lawful_cmp finite_payload (compare_rank_payloads spec)"
  unfolding compare_rank_payloads_def by (rule lawful_compare_metric_payloads)

lemma lawful_compare_candidates: "lawful_cmp candidate_finite (compare_replacement_candidates spec)"
  unfolding compare_replacement_candidates_def
  by (intro lawful_cmp_then_with lawful_cmp_key [OF lawful_compare_rank_payloads]
      lawful_cmp_key [OF lin_cmp.lawful_cmp_axioms]) (simp_all add: candidate_finite_def)

interpretation candidate_cmp: lawful_cmp candidate_finite "compare_replacement_candidates spec"
  for spec
  by (rule lawful_compare_candidates)

lemma in_replacement_candidate_rows:
  "c \<in> set (replacement_candidate_rows sc sid db) \<longleftrightarrow>
     (\<exists>s \<in> set (submissions db). replacement_eligible sc sid s \<and>
        (\<exists>e. latest_official_evaluation s (evaluations db) = Some e \<and> c = replacement_candidate_of s e))"
  by (auto simp: replacement_candidate_rows_def in_map_filter)

lemma best_replacement_candidate_in:
  assumes "best_replacement_candidate sc sid spec db = Some c"
  obtains s e where "s \<in> set (submissions db)" "replacement_eligible sc sid s"
    "latest_official_evaluation s (evaluations db) = Some e" "c = replacement_candidate_of s e"
  using first_by_in [OF assms [unfolded best_replacement_candidate_def]]
  by (auto simp: in_replacement_candidate_rows)

lemma compare_rank_payloads_not_Less:
  assumes "finite_payload a" "finite_payload b" "compare_rank_payloads spec a b \<noteq> Greater"
  shows "compare_rank_payloads spec b a \<noteq> Less"
  using lawful_cmp.cmp_flip [OF lawful_compare_rank_payloads [of spec] assms(1,2)] assms(3)
  by (cases "compare_rank_payloads spec a b") simp_all

text \<open>
  After a submission is hidden, the replacement chosen for the agent's leaderboard row is a
  best one: it is one of the candidate rows, and no other visible completed submission of the same
  agent, challenge and target ranks before it by the challenge's ranking schema.
\<close>

lemma best_replacement_is_best:
  assumes "\<forall>c \<in> set (replacement_candidate_rows sc sid db). finite_payload (rc_aggregate_metrics c)"
    and "best_replacement_candidate sc sid spec db = Some best"
    and "c \<in> set (replacement_candidate_rows sc sid db)"
  shows "best \<in> set (replacement_candidate_rows sc sid db)
    \<and> compare_rank_payloads spec (rc_aggregate_metrics c) (rc_aggregate_metrics best) \<noteq> Less"
proof -
  have fin: "\<forall>c \<in> set (replacement_candidate_rows sc sid db). candidate_finite c"
    using assms(1) by (simp add: candidate_finite_def)
  have first: "first_by (compare_replacement_candidates spec) (replacement_candidate_rows sc sid db) = Some best"
    using assms(2) by (simp add: best_replacement_candidate_def)
  have best: "best \<in> set (replacement_candidate_rows sc sid db)"
    by (rule first_by_in [OF first])
  have "compare_replacement_candidates spec best c \<noteq> Greater"
    by (rule candidate_cmp.first_by_least [OF fin first assms(3)])
  then have "compare_rank_payloads spec (rc_aggregate_metrics best) (rc_aggregate_metrics c) \<noteq> Greater"
    by (auto simp: compare_replacement_candidates_def then_with_Greater)
  moreover have "finite_payload (rc_aggregate_metrics best)" "finite_payload (rc_aggregate_metrics c)"
    using assms(1,3) best by auto
  ultimately show ?thesis
    using best compare_rank_payloads_not_Less by blast
qed

section \<open>The two rankings agree\<close>

lemma sql_metric_order_finite:
  "finite_opt a \<Longrightarrow> finite_opt b \<Longrightarrow> sql_metric_order d a b = compare_metric_by_direction d a b"
  by (cases d; auto elim!: finite_opt_cases simp: unwrap_or_equal_def)

lemma sql_ranking_tie_breakers:
  assumes "finite_payload a" "finite_payload b"
  shows "sql_ranking_cmp (List.map_filter
      (\<lambda>n. map_option (\<lambda>d. (md_name d, md_direction d)) (metric schema n)) names) a b =
    compare_tie_breakers schema names a b"
proof (induction names)
  case (Cons n names)
  show ?case
  proof (cases "metric schema n")
    case (Some d)
    then have "md_name d = n" by (simp add: metric_name_eq)
    with Some Cons assms show ?thesis
      by (simp add: List.map_filter_simps Let_def sql_metric_order_finite metric_value_by_name_finite
          then_with_decided)
  qed (use Cons in \<open>simp add: List.map_filter_simps\<close>)
qed (simp add: List.map_filter_simps)

lemma sql_ranking_cmp_eq:
  assumes "primary_metric schema \<noteq> None" and "finite_payload a" and "finite_payload b"
  shows "sql_ranking_cmp (ranking_order_metrics schema) a b =
    compare_metric_payloads_by_ranking schema a b"
proof -
  obtain p where p: "primary_metric schema = Some p" using assms(1) by blast
  then have m: "metric schema (primary_metric_name (ranking schema)) = Some p"
    by (simp add: primary_metric_def)
  then have "md_name p = primary_metric_name (ranking schema)" by (simp add: metric_name_eq)
  with m p assms(2,3) show ?thesis
    by (simp add: ranking_order_metrics_def List.map_filter_simps sql_ranking_tie_breakers
        compare_metric_payloads_by_ranking_def Let_def sql_metric_order_finite
        metric_value_by_name_finite then_with_decided)
qed

text \<open>The listing is sorted by the ranking.\<close>

lemma in_leaderboard_join:
  "r \<in> set (leaderboard_join n t db) \<longleftrightarrow>
     (\<exists>l \<in> set (leaderboard db). \<exists>s \<in> set (submissions db). \<exists>a \<in> set (agents db). \<exists>c \<in> set (challenges db).
        r = leaderboard_record_of l a \<and> leaderboard_join_on n t l s a c)"
  unfolding leaderboard_join_def by force

definition record_finite :: "leaderboard_record \<Rightarrow> bool" where
  "record_finite r = finite_payload (lr_aggregate_metrics r)"

lemma lawful_sql_ranking:
  assumes "primary_metric schema \<noteq> None"
  shows "lawful_cmp finite_payload (sql_ranking_cmp (ranking_order_metrics schema))"
  by (rule lawful_cmp_cong [OF lawful_compare_metric_payloads sql_ranking_cmp_eq [OF assms]])

lemma lawful_leaderboard_order:
  assumes "primary_metric (metric_schema spec) \<noteq> None" "lawful_cmp (\<lambda>_. True) collate"
  shows "lawful_cmp record_finite (leaderboard_order collate spec)"
  unfolding leaderboard_order_def
  by (intro lawful_cmp_then_with lawful_cmp_key [OF lawful_sql_ranking [OF assms(1)]]
      lawful_cmp_key [OF lin_cmp.lawful_cmp_axioms] lawful_cmp_key [OF assms(2)])
    (simp_all add: record_finite_def)

end
