(* ===== verification/Names.thy ===== *)
theory Names
  imports Prelude
begin

text \<open>
  Validated identifiers: the name validators of \<open>crates/domain/src/models/names.rs\<close>, the storage
  keys of \<open>crates/domain/src/storage.rs\<close> and the plain digests of \<open>models/hashes.rs\<close>. A string is
  its UTF-8 bytes. Each validator is proved equivalent to the JSON Schema pattern that the same
  type publishes, so that clients and the server accept the same values.
\<close>

section \<open>Names\<close>

fun contains_str :: "string \<Rightarrow> string \<Rightarrow> bool" where
  "contains_str [] p = (p = [])"
| "contains_str (c # s) p = (starts_with (c # s) p \<or> contains_str s p)"

definition lower_digit :: "char \<Rightarrow> bool" where
  "lower_digit c = (is_ascii_lowercase c \<or> is_ascii_digit c)"

definition hyphenated_name :: "nat \<Rightarrow> nat \<Rightarrow> string \<Rightarrow> bool" where
  "hyphenated_name lo hi v =
     (lo \<le> length v \<and> length v \<le> hi \<and> v \<noteq> []
      \<and> is_ascii_alphanumeric (hd v) \<and> is_ascii_alphanumeric (last v)
      \<and> \<not> contains_str v ''--''
      \<and> list_all (\<lambda>c. is_ascii_lowercase c \<or> is_ascii_digit c \<or> c = CHR ''-'') v)"

definition is_valid_challenge_name :: "string \<Rightarrow> bool" where
  "is_valid_challenge_name v = hyphenated_name 3 63 v"

definition validate_moltbook_submolt_name :: "string \<Rightarrow> bool" where
  "validate_moltbook_submolt_name v = hyphenated_name 2 30 v"

definition name_token_char :: "char \<Rightarrow> bool" where
  "name_token_char c = (is_ascii_alphanumeric c \<or> c \<in> {CHR ''_'', CHR ''-'', CHR ''.''})"

definition has_name_token_syntax :: "string \<Rightarrow> bool" where
  "has_name_token_syntax v = (v \<noteq> [] \<and> list_all name_token_char v)"

definition validate_run_name :: "string \<Rightarrow> bool" where
  "validate_run_name v = (has_name_token_syntax v \<and> v \<notin> {''.'', ''..''})"

text \<open>\<open>char::is_control\<close> holds of the C0 range, of DEL and of the C1 range, which UTF-8 encodes as
  the byte 194 and a byte from 128 to 159.\<close>

fun has_control_char :: "string \<Rightarrow> bool" where
  "has_control_char [] = False"
| "has_control_char [c] = is_ascii_control c"
| "has_control_char (c # d # cs) =
     (is_ascii_control c \<or> (byte_of c = 194 \<and> in_range d 128 159) \<or> has_control_char (d # cs))"

definition validate_challenge_keyword :: "string \<Rightarrow> bool" where
  "validate_challenge_keyword v = (v \<noteq> [] \<and> length v \<le> 30 \<and> \<not> has_control_char v)"

text \<open>
  The published pattern \<open>^[a-z0-9](?:[a-z0-9]|-(?!-)){lo,hi}[a-z0-9]$\<close> as a matcher. The negative
  look-ahead of a hyphen inspects the next character.
\<close>

fun hyphenated_tail :: "string \<Rightarrow> bool" where
  "hyphenated_tail [] = False"
| "hyphenated_tail [c] = lower_digit c"
| "hyphenated_tail (c # d # cs) =
     ((lower_digit c \<or> (c = CHR ''-'' \<and> d \<noteq> CHR ''-'')) \<and> hyphenated_tail (d # cs))"

definition hyphenated_pattern :: "nat \<Rightarrow> nat \<Rightarrow> string \<Rightarrow> bool" where
  "hyphenated_pattern lo hi v =
     (case v of [] \<Rightarrow> False
      | c # cs \<Rightarrow> lower_digit c \<and> hyphenated_tail cs \<and> lo + 1 \<le> length cs \<and> length cs \<le> hi + 1)"

lemma hyphen_not_alnum [simp]:
  "\<not> lower_digit (CHR ''-'')" "\<not> is_ascii_alphanumeric (CHR ''-'')"
  by (simp_all add: lower_digit_def ascii_class_defs)

lemma lower_digit_alnum: "lower_digit c \<Longrightarrow> is_ascii_alphanumeric c"
  by (auto simp: lower_digit_def is_ascii_alphanumeric_def)

lemma hyphenated_tail_iff:
  "v \<noteq> [] \<Longrightarrow> hyphenated_tail v \<longleftrightarrow>
     lower_digit (last v) \<and> \<not> contains_str v ''--'' \<and> list_all (\<lambda>c. lower_digit c \<or> c = CHR ''-'') v"
  by (induction v rule: hyphenated_tail.induct) auto

lemma hyphenated_name_pattern:
  "hyphenated_name (lo + 2) (hi + 2) v \<longleftrightarrow> hyphenated_pattern lo hi v"
proof (cases v)
  case (Cons c cs)
  have lead: "\<not> contains_str (c # cs) ''--'' \<longleftrightarrow> \<not> contains_str cs ''--''" if "lower_digit c"
    using that by (cases cs) auto
  have alnum: "is_ascii_alphanumeric d \<longleftrightarrow> lower_digit d" if "lower_digit d \<or> d = CHR ''-''" for d
    using that lower_digit_alnum by auto
  show ?thesis
  proof (cases cs)
    case Nil
    then show ?thesis using Cons by (simp add: hyphenated_name_def hyphenated_pattern_def)
  next
    case (Cons d ds)
    have last_in: "list_all (\<lambda>c. lower_digit c \<or> c = CHR ''-'') cs \<Longrightarrow>
        lower_digit (last cs) \<or> last cs = CHR ''-''"
      using Cons by (simp add: list_all_iff)
    have len: "lo + 2 \<le> length (c # cs) \<longleftrightarrow> lo + 1 \<le> length cs"
      "length (c # cs) \<le> hi + 2 \<longleftrightarrow> length cs \<le> hi + 1" by simp_all
    have "cs \<noteq> []" using Cons by simp
    then show ?thesis
      unfolding \<open>v = c # cs\<close> hyphenated_name_def hyphenated_pattern_def len
      using lead alnum last_in
      by (auto simp: hyphenated_tail_iff simp flip: lower_digit_def disj_assoc)
  qed
qed (simp add: hyphenated_name_def hyphenated_pattern_def)

section \<open>Storage keys\<close>

text \<open>\<open>str::split\<close> on a separator, and \<open>Path::components\<close> on Unix, which drops empty and inner
  \<open>.\<close> parts and keeps a leading one.\<close>

fun split_on :: "char \<Rightarrow> string \<Rightarrow> string list" where
  "split_on sep [] = [[]]"
| "split_on sep (c # cs) =
     (if c = sep then [] # split_on sep cs
      else (case split_on sep cs of [] \<Rightarrow> [[c]] | p # ps \<Rightarrow> (c # p) # ps))"

fun join_with :: "char \<Rightarrow> string list \<Rightarrow> string" where
  "join_with sep [] = []"
| "join_with sep [p] = p"
| "join_with sep (p # q # ps) = p @ sep # join_with sep (q # ps)"

datatype path_component = RootDir | CurDir | ParentDir | NormalPart string

definition part_component :: "string \<Rightarrow> path_component option" where
  "part_component p =
     (if p = [] \<or> p = ''.'' then None else if p = ''..'' then Some ParentDir else Some (NormalPart p))"

definition path_components :: "string \<Rightarrow> path_component list" where
  "path_components v =
     (let parts = split_on (CHR ''/'') v in
      (if starts_with v ''/'' then [RootDir] else if hd parts = ''.'' then [CurDir] else [])
      @ List.map_filter part_component parts)"

datatype storage_key_error = InvalidKey

fun normal_parts :: "path_component list \<Rightarrow> storage_key_error + string list" where
  "normal_parts [] = Inr []"
| "normal_parts (NormalPart p # cs) =
     (if p = [] \<or> \<not> list_all name_token_char p then Inl InvalidKey
      else and_then (normal_parts cs) (\<lambda>ps. Inr (p # ps)))"
| "normal_parts (_ # cs) = Inl InvalidKey"

definition validate_storage_key :: "string \<Rightarrow> storage_key_error + string" where
  "validate_storage_key v =
     (if v = [] \<or> trim v \<noteq> v \<or> starts_with v ''/'' \<or> last v = CHR ''/''
         \<or> CHR 0x5C \<in> set v \<or> list_ex (\<lambda>c. is_ascii_whitespace c \<or> is_ascii_control c) v
      then Inl InvalidKey
      else if hd v = CHR ''/'' then Inl InvalidKey
      else and_then (normal_parts (path_components v)) (\<lambda>parts.
        if parts = [] \<or> join_with (CHR ''/'') parts \<noteq> v then Inl InvalidKey else Inr v))"

text \<open>
  The published pattern: name-token parts separated by single slashes, none of which is \<open>.\<close> or
  \<open>..\<close> (the look-ahead).
\<close>

definition storage_key_pattern :: "string \<Rightarrow> bool" where
  "storage_key_pattern v =
     list_all (\<lambda>p. p \<noteq> [] \<and> list_all name_token_char p \<and> p \<noteq> ''.'' \<and> p \<noteq> ''..'')
       (split_on (CHR ''/'') v)"

lemma split_on_nonempty [simp]: "split_on sep v \<noteq> []"
  by (induction v) (auto split: list.splits)

lemma join_split [simp]: "join_with sep (split_on sep v) = v"
proof (induction v)
  case (Cons c v)
  obtain p ps where s: "split_on sep v = p # ps"
    using split_on_nonempty by (cases "split_on sep v") auto
  then show ?case using Cons by (cases ps) auto
qed simp

lemma split_on_append:
  assumes "sep \<notin> set p"
  shows "split_on sep (p @ sep # v) = p # split_on sep v" and "split_on sep p = [p]"
  using assms by (induction p) auto

lemma split_join: "ps \<noteq> [] \<Longrightarrow> \<forall>p \<in> set ps. sep \<notin> set p \<Longrightarrow> split_on sep (join_with sep ps) = ps"
  by (induction sep ps rule: join_with.induct) (simp_all add: split_on_append)

lemma name_token_char_safe:
  "name_token_char c \<Longrightarrow> c \<noteq> CHR ''/'' \<and> c \<noteq> CHR 0x5C \<and> \<not> is_ascii_whitespace c \<and> \<not> is_ascii_control c
     \<and> 33 \<le> byte_of c \<and> byte_of c < 128"
  by (auto simp: name_token_char_def ascii_class_defs)

lemma normal_parts_ok:
  "normal_parts cs = Inr ps \<longleftrightarrow>
     cs = map NormalPart ps \<and> (\<forall>p \<in> set ps. p \<noteq> [] \<and> list_all name_token_char p)"
proof (induction cs arbitrary: ps rule: normal_parts.induct)
  case (2 p cs)
  then show ?case by (cases ps) (auto simp: and_then_def split: sum.splits)
qed auto

lemma set_split_on: "set v \<subseteq> insert sep (\<Union>p \<in> set (split_on sep v). set p)"
proof (induction v)
  case (Cons c v)
  then show ?case by (cases "split_on sep v") auto
qed simp

lemma whitespace_bytes:
  "list_all (\<lambda>w. byte_of (hd w) < 33 \<or> 128 \<le> byte_of (hd w))
     (whitespace_encodings @ map rev whitespace_encodings)"
  by code_simp

lemma trim_step_printable:
  assumes "\<forall>c \<in> set s. 33 \<le> byte_of c \<and> byte_of c < 128"
  shows "trim_step whitespace_encodings s = None" "trim_step (map rev whitespace_encodings) s = None"
proof -
  have "trim_step encs s = None" if "set encs \<subseteq> set (whitespace_encodings @ map rev whitespace_encodings)" for encs
  proof -
    have "\<not> (w \<noteq> [] \<and> starts_with s w)" if "w \<in> set encs" for w
    proof
      assume "w \<noteq> [] \<and> starts_with s w"
      then have "hd w \<in> set s" by (cases w) (auto simp: starts_with_iff)
      with assms have "33 \<le> byte_of (hd w)" "byte_of (hd w) < 128" by auto
      moreover have "byte_of (hd w) < 33 \<or> 128 \<le> byte_of (hd w)"
        using whitespace_bytes \<open>w \<in> set encs\<close> \<open>set encs \<subseteq> _\<close> unfolding list_all_iff by blast
      ultimately show False by simp
    qed
    then have "find (\<lambda>w. w \<noteq> [] \<and> starts_with s w) encs = None"
      unfolding find_None_iff_all by blast
    then show ?thesis by (simp add: trim_step_def)
  qed
  then show "trim_step whitespace_encodings s = None"
    "trim_step (map rev whitespace_encodings) s = None" by auto
qed

lemma trim_printable:
  assumes "\<forall>c \<in> set s. 33 \<le> byte_of c \<and> byte_of c < 128"
  shows "trim s = s"
  using trim_step_printable [of s] trim_step_printable [of "rev s"] assms
  by (simp add: trim_def trim_start_def trim_end_def trim_by.simps)

lemma storage_key_pattern_parts:
  assumes "storage_key_pattern v"
  shows "path_components v = map NormalPart (split_on (CHR ''/'') v)"
proof -
  let ?ps = "split_on (CHR ''/'') v"
  have parts: "part_component p = Some (NormalPart p)" if "p \<in> set ?ps" for p
    using assms that by (auto simp: storage_key_pattern_def list_all_iff part_component_def)
  then have "List.map_filter part_component ?ps = map NormalPart ?ps"
    by (induction ?ps) (auto simp: List.map_filter_def)
  moreover have "hd ?ps \<noteq> []" "hd ?ps \<noteq> ''.''"
    using assms by (auto simp: storage_key_pattern_def list_all_iff)
  moreover have "\<not> starts_with v ''/''"
    using \<open>hd ?ps \<noteq> []\<close> by (cases v) auto
  ultimately show ?thesis by (simp add: path_components_def Let_def)
qed

lemma storage_key_pattern_bytes:
  assumes "storage_key_pattern v" "c \<in> set v"
  shows "c = CHR ''/'' \<or> name_token_char c"
  using set_split_on [of v "CHR ''/''"] assms
  by (fastforce simp: storage_key_pattern_def list_all_iff)

lemma split_on_snoc: "split_on sep (v @ [sep]) = split_on sep v @ [[]]"
proof (induction v)
  case (Cons c v)
  then show ?case by (cases "split_on sep v") auto
qed simp

lemma last_split_on: "v \<noteq> [] \<Longrightarrow> last v = sep \<Longrightarrow> last (split_on sep v) = []"
  by (metis append_butlast_last_id last_snoc split_on_snoc)

lemma storage_key_pattern_ends:
  assumes "storage_key_pattern v"
  shows "v \<noteq> []" "\<not> starts_with v ''/''" "last v \<noteq> CHR ''/''" "hd v \<noteq> CHR ''/''"
proof -
  have ends: "hd (split_on (CHR ''/'') v) \<noteq> []" "last (split_on (CHR ''/'') v) \<noteq> []"
    using assms by (auto simp: storage_key_pattern_def list_all_iff)
  then show "v \<noteq> []" by auto
  with ends show "\<not> starts_with v ''/''" "last v \<noteq> CHR ''/''" "hd v \<noteq> CHR ''/''"
    using last_split_on [of v "CHR ''/''"] by (cases v; auto)+
qed

lemma storage_key_pattern_safe:
  assumes "storage_key_pattern v"
  shows "trim v = v" "CHR 0x5C \<notin> set v"
    "\<not> list_ex (\<lambda>c. is_ascii_whitespace c \<or> is_ascii_control c) v"
proof -
  have slash: "\<not> is_ascii_whitespace (CHR ''/'')" "\<not> is_ascii_control (CHR ''/'')"
    "33 \<le> byte_of (CHR ''/'')" "byte_of (CHR ''/'') < 128" by (simp_all add: ascii_class_defs)
  have safe: "c \<noteq> CHR 0x5C \<and> \<not> is_ascii_whitespace c \<and> \<not> is_ascii_control c \<and> 33 \<le> byte_of c \<and> byte_of c < 128"
    if "c \<in> set v" for c
    using storage_key_pattern_bytes [OF assms that] slash name_token_char_safe [of c] by auto
  then show "trim v = v" "CHR 0x5C \<notin> set v"
    "\<not> list_ex (\<lambda>c. is_ascii_whitespace c \<or> is_ascii_control c) v"
    by (auto intro!: trim_printable simp: list_ex_iff)
qed

lemma normal_parts_pattern:
  assumes "normal_parts (path_components v) = Inr ps" "ps \<noteq> []" "join_with (CHR ''/'') ps = v"
  shows "storage_key_pattern v"
proof -
  have parts: "\<forall>p \<in> set ps. p \<noteq> [] \<and> list_all name_token_char p"
    and comps: "path_components v = map NormalPart ps"
    using assms(1) by (simp_all add: normal_parts_ok)
  have "p \<noteq> ''.'' \<and> p \<noteq> ''..''" if "p \<in> set ps" for p
  proof -
    have "NormalPart p \<in> set (path_components v)" using comps that by simp
    then show ?thesis
      by (auto simp: path_components_def Let_def in_map_filter part_component_def split: if_splits)
  qed
  moreover have "split_on (CHR ''/'') v = ps"
  proof -
    have "CHR ''/'' \<notin> set p" if "p \<in> set ps" for p
      using parts that name_token_char_safe by (auto simp: list_all_iff)
    then show ?thesis using split_join [OF assms(2)] assms(3) by metis
  qed
  ultimately show ?thesis using parts by (simp add: storage_key_pattern_def list_all_iff)
qed

lemma validate_storage_key_eq:
  "validate_storage_key v = (if storage_key_pattern v then Inr v else Inl InvalidKey)"
proof (cases "storage_key_pattern v")
  case True
  have "normal_parts (path_components v) = Inr (split_on (CHR ''/'') v)"
    using True by (auto simp: storage_key_pattern_parts normal_parts_ok storage_key_pattern_def list_all_iff)
  with True storage_key_pattern_ends storage_key_pattern_safe show ?thesis
    by (simp add: validate_storage_key_def and_then_def)
next
  case False
  then show ?thesis
    using normal_parts_pattern [of v]
    by (cases "normal_parts (path_components v)")
      (auto simp: validate_storage_key_def and_then_def intro: storage_key_error.exhaust)
qed

text \<open>
  The server accepts exactly the storage keys that the published JSON Schema pattern describes:
  non-empty name-token parts joined by single slashes, none of which is \<open>.\<close> or \<open>..\<close>; an accepted
  key is returned unchanged. So no accepted key is absolute, climbs out of its namespace or has two
  spellings.
\<close>

lemma storage_key_validator_matches_schema:
  "validate_storage_key v = (if storage_key_pattern v then Inr v else Inl InvalidKey)"
  by (rule validate_storage_key_eq)

text \<open>
  The challenge-name validator accepts exactly the names that the published pattern
  \<open>^[a-z0-9](?:[a-z0-9]|-(?!-)){1,61}[a-z0-9]$\<close> describes, and the Submolt-name validator those of
  the same pattern with the repetition bounds 0 and 28.
\<close>

lemma name_validators_match_schema:
  "is_valid_challenge_name v = hyphenated_pattern 1 61 v
   \<and> validate_moltbook_submolt_name v = hyphenated_pattern 0 28 v"
  using hyphenated_name_pattern [of 1 61 v] hyphenated_name_pattern [of 0 28 v]
  by (simp add: is_valid_challenge_name_def validate_moltbook_submolt_name_def numeral_eq_Suc)

section \<open>Digests\<close>

text \<open>\<open>hex_decodes\<close> stands for the success of \<open>hex::decode_to_slice\<close> on the text.\<close>

definition sha256_try_new :: "(string \<Rightarrow> bool) \<Rightarrow> string \<Rightarrow> string option" where
  "sha256_try_new hex_decodes v =
     (if trim v \<noteq> v \<or> length v \<noteq> 64 then None else if hex_decodes v then Some v else None)"

end
