(* ===== verification/Evaluation_Policy.thy ===== *)
theory Evaluation_Policy
  imports Db_Schema Names
begin

text \<open>
  Admission policy of a challenge, \<open>crates/persistence/src/db/evaluation_policy.rs\<close>: the time
  window, the shortlist, the target and evaluation mode, and the distinct public bundle. What the
  code takes from outside the repository is a field of \<open>env\<close>: the transaction's \<open>NOW()\<close>, the
  process clock, the RFC 3339 parser of \<open>chrono\<close> and the hex decoder. The text that \<open>serde\<close> or
  \<open>sqlx\<close> append to the message of an \<open>Internal\<close> error is left out.
\<close>

record env =
  env_now :: timestamp
  env_utc_now :: timestamp
  env_parse_rfc3339 :: "string \<Rightarrow> string + timestamp"
  env_hex_decodes :: "string \<Rightarrow> bool"

section \<open>Time window\<close>

definition parse_required_challenge_time :: "env \<Rightarrow> string \<Rightarrow> string \<Rightarrow> timestamp result" where
  "parse_required_challenge_time env value field =
     (case env_parse_rfc3339 env value of
        Inl e \<Rightarrow> Inl (Internal (field @ '' is not valid RFC3339: '' @ e))
      | Inr t \<Rightarrow> Inr t)"

definition parse_challenge_time :: "env \<Rightarrow> string option \<Rightarrow> string \<Rightarrow> timestamp option result" where
  "parse_challenge_time env value field =
     (case value of None \<Rightarrow> Inr None
      | Some v \<Rightarrow> (case env_parse_rfc3339 env v of
          Inl e \<Rightarrow> Inl (Internal (''invalid challenge '' @ field @ '': '' @ e))
        | Inr t \<Rightarrow> Inr (Some t)))"

definition ensure_challenge_accepts_submissions :: "env \<Rightarrow> challenge_bundle_spec \<Rightarrow> unit result" where
  "ensure_challenge_accepts_submissions env spec =
     and_then (parse_required_challenge_time env (starts_at spec) ''starts_at'') (\<lambda>s.
     and_then (guard_err (env_utc_now env < s) (Forbidden ''challenge has not started yet'')) (\<lambda>_.
     and_then (parse_challenge_time env (closes_at spec) ''closes_at'') (\<lambda>c.
     guard_err (case c of None \<Rightarrow> False | Some c \<Rightarrow> env_utc_now env \<ge> c)
       (Forbidden ''challenge has closed''))))"

section \<open>Eligibility\<close>

definition challenge_has_shortlist :: "challenge_name \<Rightarrow> db \<Rightarrow> bool" where
  "challenge_has_shortlist n db = sql_exists (\<lambda>r. fst r = n) (shortlist db)"

definition agent_is_shortlisted :: "challenge_name \<Rightarrow> uuid \<Rightarrow> db \<Rightarrow> bool" where
  "agent_is_shortlisted n a db = sql_exists (\<lambda>r. r = (n, a)) (shortlist db)"

definition ensure_challenge_eligibility_tx ::
  "challenge_name \<Rightarrow> challenge_bundle_spec \<Rightarrow> uuid \<Rightarrow> db \<Rightarrow> unit result" where
  "ensure_challenge_eligibility_tx n spec a db =
     (case eligibility_type spec of
        EligOpen \<Rightarrow> Inr ()
      | EligPrivateShortlist \<Rightarrow>
          and_then (guard_err (\<not> challenge_has_shortlist n db)
            (Forbidden ''challenge requires a shortlist, but no shortlist has been uploaded yet'')) (\<lambda>_.
          guard_err (\<not> agent_is_shortlisted n a db)
            (Forbidden ''agent is not eligible for this challenge'')))"

section \<open>Target and mode\<close>

fun execution_declares_official_runs :: "challenge_execution_spec \<Rightarrow> bool" where
  "execution_declares_official_runs (SeparatedEvaluator s) =
     (se_official_runs s \<noteq> None \<or> se_official_evaluation_setup s \<noteq> None)"
| "execution_declares_official_runs (PipedStdio s) =
     (ps_official_session s \<noteq> None \<or> ps_official_evaluation_setup s \<noteq> None)"
| "execution_declares_official_runs (CoexecutedBenchmark s) = True"

definition ensure_target_supports_eval_type ::
  "challenge_bundle_spec \<Rightarrow> target_name \<Rightarrow> scoring_mode \<Rightarrow> unit result" where
  "ensure_target_supports_eval_type spec t mode =
     and_then (ok_or (BadRequest (''challenge does not support target `'' @ t @ ''`'')) (target spec t)) (\<lambda>ts.
     and_then (guard_err (mode = Validation \<and> \<not> validation_enabled ts)
       (BadRequest ''validation pass is disabled for this challenge and target'')) (\<lambda>_.
     guard_err (mode = Official \<and> \<not> execution_declares_official_runs (execution spec))
       (BadRequest ''challenge does not support official evaluation'')))"

definition ensure_challenge_supports_eval_type_tx ::
  "env \<Rightarrow> challenge_name \<Rightarrow> challenge_bundle_spec \<Rightarrow> target_name \<Rightarrow> scoring_mode \<Rightarrow> uuid \<Rightarrow> db \<Rightarrow> unit result" where
  "ensure_challenge_supports_eval_type_tx env n spec t mode a db =
     and_then (ensure_challenge_accepts_submissions env spec) (\<lambda>_.
     and_then (ensure_challenge_eligibility_tx n spec a db) (\<lambda>_.
     ensure_target_supports_eval_type spec t mode))"

definition ensure_validation_uses_public_bundle ::
  "scoring_mode \<Rightarrow> challenge_bundle_spec \<Rightarrow> storage_key \<Rightarrow> storage_key \<Rightarrow> unit result" where
  "ensure_validation_uses_public_bundle mode spec bundle_key public_bundle_key =
     guard_err (mode = Validation \<and> ds_private_benchmark_enabled (datasets spec) \<and> bundle_key = public_bundle_key)
       (BadRequest ''validation is unavailable because this private-benchmark challenge does not have a distinct public bundle key'')"

section \<open>Locked challenge row\<close>

definition storage_key_from_row :: "storage_key \<Rightarrow> string \<Rightarrow> storage_key result" where
  "storage_key_from_row value column =
     (case validate_storage_key value of
        Inl _ \<Rightarrow> Inl (Internal (''stored invalid '' @ column))
      | Inr k \<Rightarrow> Inr k)"

text \<open>Building the record of a challenge row parses its three storage keys.\<close>

definition challenge_record_of :: "challenge_row \<Rightarrow> challenge_row result" where
  "challenge_record_of c =
     and_then (storage_key_from_row (ch_bundle_key c) ''bundle_key'') (\<lambda>_.
     and_then (storage_key_from_row (ch_public_bundle_key c) ''public_bundle_key'') (\<lambda>_.
     and_then (storage_key_from_row (ch_statement_key c) ''statement_key'') (\<lambda>_.
     Inr c)))"

definition lock_active_challenge_for_admission_tx :: "challenge_name \<Rightarrow> db \<Rightarrow> challenge_row result" where
  "lock_active_challenge_for_admission_tx n db =
     and_then (ok_or (BadRequest ''challenge not found'')
       (sql_first (\<lambda>c. ch_name c = n \<and> ch_status c = ChActive \<and> ch_spec_json c \<noteq> SpecNull) (challenges db)))
     challenge_record_of"

definition get_published_challenge :: "challenge_name \<Rightarrow> db \<Rightarrow> challenge_row option result" where
  "get_published_challenge n db =
     (case sql_first (\<lambda>c. ch_status c = ChActive \<and> ch_spec_json c \<noteq> SpecNull \<and> ch_name c = n) (challenges db) of
        None \<Rightarrow> Inr None
      | Some c \<Rightarrow> and_then (challenge_record_of c) (\<lambda>c. Inr (Some c)))"

record published_challenge_admission =
  pca_challenge_name :: challenge_name
  pca_validation_submission_limit :: "int option"
  pca_official_submission_limit :: "int option"

definition ensure_published_challenge_supports_eval_type ::
  "env \<Rightarrow> challenge_name \<Rightarrow> target_name \<Rightarrow> scoring_mode \<Rightarrow> uuid \<Rightarrow> db \<Rightarrow> published_challenge_admission result" where
  "ensure_published_challenge_supports_eval_type env n t mode a db =
     and_then (get_published_challenge n db) (\<lambda>co.
     and_then (ok_or (BadRequest ''challenge not found'') co) (\<lambda>c.
     and_then (ok_or (Internal ''invalid spec_json'') (ch_spec c)) (\<lambda>spec.
     and_then (ensure_challenge_supports_eval_type_tx env (ch_name c) spec t mode a db) (\<lambda>_.
     and_then (ensure_validation_uses_public_bundle mode spec (ch_bundle_key c) (ch_public_bundle_key c)) (\<lambda>_.
     Inr \<lparr>pca_challenge_name = ch_name c,
          pca_validation_submission_limit = validation_submission_limit spec,
          pca_official_submission_limit = official_submission_limit spec\<rparr>)))))"

section \<open>What admission requires\<close>

text \<open>The reference predicates: an open window, an eligible agent, a supported target and mode.\<close>

definition window_open :: "env \<Rightarrow> challenge_bundle_spec \<Rightarrow> bool" where
  "window_open env spec \<longleftrightarrow>
     (\<exists>s. env_parse_rfc3339 env (starts_at spec) = Inr s \<and> s \<le> env_utc_now env)
     \<and> (\<forall>c. closes_at spec = Some c \<longrightarrow> (\<exists>t. env_parse_rfc3339 env c = Inr t \<and> env_utc_now env < t))"

definition agent_eligible :: "challenge_name \<Rightarrow> challenge_bundle_spec \<Rightarrow> uuid \<Rightarrow> db \<Rightarrow> bool" where
  "agent_eligible n spec a db \<longleftrightarrow> eligibility_type spec = EligPrivateShortlist \<longrightarrow> (n, a) \<in> set (shortlist db)"

definition mode_supported :: "challenge_bundle_spec \<Rightarrow> target_name \<Rightarrow> scoring_mode \<Rightarrow> bool" where
  "mode_supported spec t mode \<longleftrightarrow>
     (\<exists>ts. target spec t = Some ts \<and> (mode = Validation \<longrightarrow> validation_enabled ts)
       \<and> (mode = Official \<longrightarrow> execution_declares_official_runs (execution spec)))"

lemma accepts_submissions_ok:
  "ensure_challenge_accepts_submissions env spec = Inr () \<longleftrightarrow> window_open env spec"
  by (cases "env_parse_rfc3339 env (starts_at spec)"; cases "closes_at spec")
    (auto simp: ensure_challenge_accepts_submissions_def parse_required_challenge_time_def
      parse_challenge_time_def window_open_def guard_err_def and_then_def not_less split: sum.splits)

lemma eligibility_ok:
  "ensure_challenge_eligibility_tx n spec a db = Inr () \<longleftrightarrow> agent_eligible n spec a db"
  by (cases "eligibility_type spec")
    (auto simp: ensure_challenge_eligibility_tx_def agent_eligible_def challenge_has_shortlist_def
      agent_is_shortlisted_def guard_err_def and_then_def intro: bexI [where x = "(n, a)"])

lemma target_supports_ok:
  "ensure_target_supports_eval_type spec t mode = Inr () \<longleftrightarrow> mode_supported spec t mode"
  by (cases "target spec t")
    (auto simp: ensure_target_supports_eval_type_def mode_supported_def guard_err_def and_then_def ok_or_def)

lemma supports_eval_type_ok:
  "ensure_challenge_supports_eval_type_tx env n spec t mode a db = Inr () \<longleftrightarrow>
     window_open env spec \<and> agent_eligible n spec a db \<and> mode_supported spec t mode"
  unfolding accepts_submissions_ok [symmetric] eligibility_ok [symmetric] target_supports_ok [symmetric]
    ensure_challenge_supports_eval_type_tx_def
  by (auto simp: and_then_def split: sum.splits)

lemma uses_public_bundle_ok:
  "ensure_validation_uses_public_bundle mode spec b p = Inr () \<longleftrightarrow>
     \<not> (mode = Validation \<and> ds_private_benchmark_enabled (datasets spec) \<and> b = p)"
  by (auto simp: ensure_validation_uses_public_bundle_def guard_err_def)

lemma challenge_record_of_ok: "challenge_record_of c = Inr c' \<Longrightarrow> c' = c"
  by (simp add: challenge_record_of_def result_simps)

lemma lock_active_challenge_ok:
  assumes "lock_active_challenge_for_admission_tx n db = Inr c"
  shows "c \<in> set (challenges db) \<and> ch_name c = n \<and> ch_status c = ChActive"
  using assms sql_first_Some [of "\<lambda>c. ch_name c = n \<and> ch_status c = ChActive \<and> ch_spec_json c \<noteq> SpecNull" "challenges db"]
  unfolding lock_active_challenge_for_admission_tx_def and_then_eq_Inr ok_or_eq_Inr
  using challenge_record_of_ok by blast

text \<open>
  The preflight check admits a request exactly when the challenge is published, its stored keys
  and contract are well formed, the time window is open, the agent is eligible, the target supports
  the mode, and a validation run of a private benchmark has a public bundle of its own; it then
  returns the challenge's own limits.
\<close>

lemma published_challenge_admission_iff:
  "(ensure_published_challenge_supports_eval_type env n t mode a db = Inr adm) \<longleftrightarrow>
     (\<exists>c spec. get_published_challenge n db = Inr (Some c) \<and> ch_spec c = Some spec
        \<and> window_open env spec \<and> agent_eligible (ch_name c) spec a db \<and> mode_supported spec t mode
        \<and> \<not> (mode = Validation \<and> ds_private_benchmark_enabled (datasets spec) \<and> ch_bundle_key c = ch_public_bundle_key c)
        \<and> adm = \<lparr>pca_challenge_name = ch_name c,
             pca_validation_submission_limit = validation_submission_limit spec,
             pca_official_submission_limit = official_submission_limit spec\<rparr>)"
proof -
  have "(ensure_published_challenge_supports_eval_type env n t mode a db = Inr adm) \<longleftrightarrow>
     (\<exists>c spec. get_published_challenge n db = Inr (Some c) \<and> ch_spec c = Some spec
        \<and> ensure_challenge_supports_eval_type_tx env (ch_name c) spec t mode a db = Inr ()
        \<and> ensure_validation_uses_public_bundle mode spec (ch_bundle_key c) (ch_public_bundle_key c) = Inr ()
        \<and> adm = \<lparr>pca_challenge_name = ch_name c,
             pca_validation_submission_limit = validation_submission_limit spec,
             pca_official_submission_limit = official_submission_limit spec\<rparr>)"
    unfolding ensure_published_challenge_supports_eval_type_def and_then_def ok_or_def
    by (auto split: sum.splits option.splits)
  then show ?thesis unfolding supports_eval_type_ok uses_public_bundle_ok by (simp only: conj_assoc)
qed

end
