(* ===== verification/Evaluation_Jobs.thy ===== *)
theory Evaluation_Jobs
  imports Leaderboard Evaluation_Policy
begin

text \<open>
  The job queue, \<open>crates/persistence/src/db/evaluation_jobs.rs\<close>: claiming, leases, capacity
  requeues, promotion of staged jobs and queueing of re-runs. An operation that commits and then
  fails while building its return value (undecodable artifact metadata) returns the error together
  with the committed tables.
\<close>

section \<open>Records\<close>

datatype worker_accelerators = WorkerNone | WorkerGpu

fun supports :: "worker_accelerators \<Rightarrow> target_accelerator \<Rightarrow> bool" where
  "supports _ AccNone = True"
| "supports WorkerGpu AccGpu = True"
| "supports WorkerNone AccGpu = False"

fun heartbeat_values :: "worker_accelerators \<Rightarrow> string list" where
  "heartbeat_values WorkerNone = [''none'']"
| "heartbeat_values WorkerGpu = [''none'', ''gpu'']"

record evaluation_job_record =
  ejr_id :: uuid
  ejr_submission :: uuid
  ejr_challenge :: challenge_name
  ejr_target :: target_name
  ejr_accelerator :: target_accelerator
  ejr_eval_type :: scoring_mode
  ejr_status :: evaluation_job_status
  ejr_attempt_count :: int
  ejr_payload :: evaluation_job_payload
  ejr_artifact_metadata :: "solution_artifact_metadata option"

record runner_job_claim_record =
  rjc_status :: evaluation_job_status
  rjc_worker_id :: "string option"
  rjc_attempt_count :: int
  rjc_claim_is_fresh :: bool

section \<open>Stored artifact metadata\<close>

definition optional_u64_from_row :: "int option \<Rightarrow> string \<Rightarrow> nat option result" where
  "optional_u64_from_row value column =
     (case value of None \<Rightarrow> Inr None
      | Some v \<Rightarrow> if v < 0 then Inl (Internal (''stored negative value in `'' @ column @ ''`''))
                 else Inr (Some (nat v)))"

definition artifact_metadata_from_row ::
  "env \<Rightarrow> submission_row \<Rightarrow> solution_artifact_metadata option result" where
  "artifact_metadata_from_row env s =
     and_then (optional_u64_from_row (sub_zip_bytes s) ''artifact_zip_bytes'') (\<lambda>z.
     and_then (optional_u64_from_row (sub_uncompressed_bytes s) ''artifact_uncompressed_bytes'') (\<lambda>u.
     and_then (optional_u64_from_row (sub_file_count s) ''artifact_file_count'') (\<lambda>f.
     (case (z, u, f, sub_sha256 s) of
        (None, None, None, None) \<Rightarrow> Inr None
      | (Some z, Some u, Some f, Some d) \<Rightarrow>
          and_then (ok_or (Internal ''stored invalid artifact_sha256'')
            (sha256_try_new (env_hex_decodes env) d)) (\<lambda>d.
          Inr (Some \<lparr>artifact_zip_bytes = z, artifact_uncompressed_bytes = u,
                     artifact_file_count = f, artifact_sha256 = d\<rparr>))
      | _ \<Rightarrow> Inl (Internal ''stored partial solution artifact metadata'')))))"

section \<open>Claiming\<close>

definition claimable :: "timestamp \<Rightarrow> bool \<Rightarrow> job_row \<Rightarrow> bool" where
  "claimable now gpu j =
     (job_status j = JobQueued \<and> job_scheduled_at j \<le> now \<and> job_attempt_count j < job_max_attempts j
      \<and> (job_accelerator j = AccNone \<or> (gpu \<and> job_accelerator j = AccGpu)))"

definition claim_order :: "job_row \<Rightarrow> job_row \<Rightarrow> ordering" where
  "claim_order a b = then_with (cmp_lin (job_priority b) (job_priority a))
     (cmp_lin (job_scheduled_at a) (job_scheduled_at b))"

text \<open>\<open>FOR UPDATE SKIP LOCKED\<close>: \<open>locked\<close> holds of the jobs whose rows another transaction has locked.\<close>

definition next_job :: "timestamp \<Rightarrow> bool \<Rightarrow> (uuid \<Rightarrow> bool) \<Rightarrow> db \<Rightarrow> job_row option" where
  "next_job now gpu locked db =
     sql_top (\<lambda>j. claimable now gpu j \<and> \<not> locked (job_id j)) claim_order (jobs db)"

definition claim_job_row :: "timestamp \<Rightarrow> string \<Rightarrow> job_row \<Rightarrow> job_row" where
  "claim_job_row now worker j =
     j\<lparr>job_status := JobRunning, job_claimed_at := Some now, job_worker_id := Some worker,
       job_attempt_count := job_attempt_count j + 1\<rparr>"

definition mark_submission_running :: "timestamp \<Rightarrow> uuid \<Rightarrow> db \<Rightarrow> db" where
  "mark_submission_running now sid db = db\<lparr>submissions :=
     sql_update (\<lambda>s. sub_id s = sid \<and> \<not> sub_visible s)
       (\<lambda>s. s\<lparr>sub_status := SubRunning, sub_updated_at := now\<rparr>) (submissions db)\<rparr>"

definition claim_tx ::
  "env \<Rightarrow> string \<Rightarrow> worker_accelerators \<Rightarrow> (uuid \<Rightarrow> bool) \<Rightarrow> (job_row \<times> submission_row \<times> evaluation_job_payload) option tx" where
  "claim_tx env worker acc locked db =
     (case next_job (env_now env) (supports acc AccGpu) locked db of
        None \<Rightarrow> Inr (None, db)
      | Some j \<Rightarrow>
        (case sub_by_id (job_submission j) (submissions db) of
           None \<Rightarrow> Inr (None, db)
         | Some s \<Rightarrow>
           (let db1 = db\<lparr>jobs := sql_update (\<lambda>r. job_id r = job_id j)
                           (claim_job_row (env_now env) worker) (jobs db)\<rparr>;
                db2 = mark_submission_running (env_now env) (job_submission j) db1
            in and_then (ok_or (Internal ''invalid payload_json'') (job_payload j)) (\<lambda>p.
               Inr (Some (claim_job_row (env_now env) worker j, s, p), db2)))))"

definition claim_next_evaluation_job ::
  "env \<Rightarrow> string \<Rightarrow> worker_accelerators \<Rightarrow> (uuid \<Rightarrow> bool) \<Rightarrow> db \<Rightarrow> evaluation_job_record option result \<times> db" where
  "claim_next_evaluation_job env worker acc locked db =
     (case transact (claim_tx env worker acc locked) db of
        (Inl e, db') \<Rightarrow> (Inl e, db')
      | (Inr None, db') \<Rightarrow> (Inr None, db')
      | (Inr (Some (j, s, p)), db') \<Rightarrow>
          (and_then (artifact_metadata_from_row env s) (\<lambda>m.
             Inr (Some \<lparr>ejr_id = job_id j, ejr_submission = job_submission j,
               ejr_challenge = pl_challenge_name p, ejr_target = job_target j,
               ejr_accelerator = job_accelerator j, ejr_eval_type = job_eval_type j,
               ejr_status = job_status j, ejr_attempt_count = job_attempt_count j,
               ejr_payload = p, ejr_artifact_metadata = m\<rparr>)), db'))"

section \<open>Leases\<close>

definition get_runner_job_claim :: "timestamp \<Rightarrow> uuid \<Rightarrow> int \<Rightarrow> db \<Rightarrow> runner_job_claim_record option" where
  "get_runner_job_claim now jid stale_minutes db =
     map_option (\<lambda>j.
         \<lparr>rjc_status = job_status j, rjc_worker_id = job_worker_id j,
          rjc_attempt_count = job_attempt_count j,
          rjc_claim_is_fresh = (case job_claimed_at j of None \<Rightarrow> False
            | Some c \<Rightarrow> now - minutes (max stale_minutes 1) \<le> c)\<rparr>)
       (job_by_id jid (jobs db))"

text \<open>The guard that fences a worker: the claim is still its own, at the same attempt.\<close>

definition owns_claim :: "uuid \<Rightarrow> string \<Rightarrow> int \<Rightarrow> job_row \<Rightarrow> bool" where
  "owns_claim jid worker attempt j =
     (job_id j = jid \<and> job_worker_id j = Some worker \<and> job_attempt_count j = attempt
      \<and> job_status j = JobRunning)"

definition refresh_evaluation_job_claim ::
  "timestamp \<Rightarrow> uuid \<Rightarrow> string \<Rightarrow> int \<Rightarrow> db \<Rightarrow> bool \<times> db" where
  "refresh_evaluation_job_claim now jid worker attempt db =
     (sql_count (owns_claim jid worker attempt) (jobs db) > 0,
      db\<lparr>jobs := sql_update (owns_claim jid worker attempt) (\<lambda>j. j\<lparr>job_claimed_at := Some now\<rparr>) (jobs db)\<rparr>)"

section \<open>Capacity requeue\<close>

definition requeue_job_row :: "timestamp \<Rightarrow> string \<Rightarrow> job_row \<Rightarrow> job_row" where
  "requeue_job_row now last_error j =
     j\<lparr>job_status := JobQueued, job_worker_id := None, job_claimed_at := None,
       job_scheduled_at := now + seconds 5, job_attempt_count := max (job_attempt_count j - 1) 0,
       job_last_error := Some last_error\<rparr>"

definition requeue_claimed_job_for_capacity ::
  "timestamp \<Rightarrow> uuid \<Rightarrow> string \<Rightarrow> int \<Rightarrow> string \<Rightarrow> db \<Rightarrow> uuid option \<times> db" where
  "requeue_claimed_job_for_capacity now jid worker attempt last_error db =
     (map_option job_submission (sql_first (owns_claim jid worker attempt) (jobs db)),
      db\<lparr>jobs := sql_update (owns_claim jid worker attempt) (requeue_job_row now last_error) (jobs db)\<rparr>)"

definition delete_running_evaluation_for_job :: "uuid \<Rightarrow> db \<Rightarrow> db" where
  "delete_running_evaluation_for_job jid db =
     db\<lparr>evaluations := sql_delete (\<lambda>e. ev_job e = jid \<and> ev_status e = EvalRunning) (evaluations db)\<rparr>"

definition repair_submission_after_capacity_requeue :: "timestamp \<Rightarrow> uuid \<Rightarrow> unit tx" where
  "repair_submission_after_capacity_requeue now sid db =
     (case sub_by_id sid (submissions db) of
        None \<Rightarrow> Inl (Database (SqlxOther ''RowNotFound''))
      | Some s \<Rightarrow> Inr ((), if \<not> sub_visible s then set_submission_status now sid SubQueued False db else db))"

definition requeue_running_evaluation_job_for_capacity ::
  "timestamp \<Rightarrow> uuid \<Rightarrow> string \<Rightarrow> int \<Rightarrow> string \<Rightarrow> bool tx" where
  "requeue_running_evaluation_job_for_capacity now jid worker attempt last_error db =
     (case requeue_claimed_job_for_capacity now jid worker attempt last_error db of
        (None, db1) \<Rightarrow> Inr (False, db1)
      | (Some sid, db1) \<Rightarrow>
          and_then (repair_submission_after_capacity_requeue now sid
            (delete_running_evaluation_for_job jid db1)) (\<lambda>(_, db2). Inr (True, db2)))"

section \<open>Promotion of a staged job\<close>

definition mark_evaluation_job_ready :: "timestamp \<Rightarrow> uuid \<Rightarrow> unit tx" where
  "mark_evaluation_job_ready now jid db =
     (case sql_first (\<lambda>j. job_id j = jid \<and> job_status j = JobStaged) (jobs db) of
        None \<Rightarrow> Inl (Internal (''staged evaluation job `'' @ jid @ ''` is not staged''))
      | Some j \<Rightarrow> Inr ((), db\<lparr>
          jobs := sql_update (\<lambda>j. job_id j = jid \<and> job_status j = JobStaged)
            (\<lambda>j. j\<lparr>job_status := JobQueued, job_scheduled_at := now\<rparr>) (jobs db),
          submissions := sql_update (\<lambda>s. sub_id s = job_submission j \<and> sub_status s = SubPending)
            (\<lambda>s. s\<lparr>sub_status := SubQueued, sub_updated_at := now\<rparr>) (submissions db)\<rparr>))"

section \<open>Queueing a re-run\<close>

record queue_evaluation_job_input =
  qi_job_id :: uuid
  qi_submission :: uuid
  qi_eval_type :: scoring_mode
  qi_max_active_official_jobs :: "int option"

definition count_active_evaluation_jobs :: "scoring_mode \<Rightarrow> db \<Rightarrow> int" where
  "count_active_evaluation_jobs mode db =
     sql_count (\<lambda>j. job_eval_type j = mode \<and> job_active j) (jobs db)"

definition ensure_no_active_job_for_submission_tx :: "uuid \<Rightarrow> db \<Rightarrow> unit result" where
  "ensure_no_active_job_for_submission_tx sid db =
     guard_err (sql_exists (\<lambda>j. job_submission j = sid \<and> job_active j) (jobs db)) Conflict"

definition required_accelerator_for_target ::
  "challenge_bundle_spec \<Rightarrow> target_name \<Rightarrow> target_accelerator result" where
  "required_accelerator_for_target spec t =
     and_then (ok_or (Internal (''challenge `'' @ cb_challenge_name spec @ ''` does not declare target `'' @ t
         @ ''` after admission validation'')) (target spec t)) (\<lambda>ts. Inr (accelerator ts))"

fun map_active_job_conflict :: "sqlx_error \<Rightarrow> service_error" where
  "map_active_job_conflict (SqlxDatabase u c m) =
     (if c = Some ''idx_evaluation_jobs_one_active_per_submission''
         \<or> c = Some ''idx_evaluation_jobs_one_active_per_submission_mode''
      then service_error_of_db (AdmissionConflict ''one active evaluation job already exists for this submission'')
      else service_error_of_db (Sql (SqlxDatabase u c m)))"
| "map_active_job_conflict (SqlxOther m) = service_error_of_db (Sql (SqlxOther m))"

text \<open>Inserting a job checks the primary key and the partial unique index on active jobs.\<close>

definition insert_job :: "job_row \<Rightarrow> db \<Rightarrow> sqlx_error + db" where
  "insert_job j db =
     (if sql_exists (\<lambda>r. job_id r = job_id j) (jobs db)
      then Inl (SqlxDatabase True (Some ''evaluation_jobs_pkey'') ''duplicate key'')
      else if job_active j \<and> sql_exists (\<lambda>r. job_submission r = job_submission j \<and> job_active r) (jobs db)
      then Inl (SqlxDatabase True (Some ''idx_evaluation_jobs_one_active_per_submission'') ''duplicate key'')
      else Inr (db\<lparr>jobs := sql_insert j (jobs db)\<rparr>))"

text \<open>The columns an insert leaves to their defaults: no attempt yet, at most one, scheduled now.\<close>

definition new_job ::
  "timestamp \<Rightarrow> uuid \<Rightarrow> uuid \<Rightarrow> target_accelerator \<Rightarrow> scoring_mode \<Rightarrow> evaluation_job_status \<Rightarrow> evaluation_job_payload \<Rightarrow> job_row" where
  "new_job now jid sid acc mode st p =
     \<lparr>job_id = jid, job_submission = sid, job_challenge = pl_challenge_name p, job_target = pl_target p,
      job_accelerator = acc, job_eval_type = mode, job_status = st,
      job_priority = (if mode = Official then 10 else 0), job_payload = Some p,
      job_attempt_count = 0, job_max_attempts = 1, job_scheduled_at = now, job_claimed_at = None,
      job_finished_at = None, job_last_error = None, job_worker_id = None, job_created_at = now\<rparr>"

definition job_storage_key_from_row :: "storage_key \<Rightarrow> string \<Rightarrow> storage_key result" where
  "job_storage_key_from_row value column =
     (case validate_storage_key value of
        Inl _ \<Rightarrow> Inl (Internal (''stored invalid storage key in `'' @ column @ ''`''))
      | Inr k \<Rightarrow> Inr k)"

text \<open>The select that locks the submission and its active challenge.\<close>

definition select_for_queue :: "uuid \<Rightarrow> db \<Rightarrow> (submission_row \<times> challenge_row) result" where
  "select_for_queue sid db =
     ok_or NotFound (case sub_by_id sid (submissions db) of None \<Rightarrow> None
       | Some s \<Rightarrow> map_option (\<lambda>c. (s, c))
           (sql_first (\<lambda>c. ch_name c = sub_challenge s \<and> ch_status c = ChActive \<and> ch_spec_json c \<noteq> SpecNull) (challenges db)))"

definition admit_official_capacity :: "scoring_mode \<Rightarrow> int option \<Rightarrow> unit tx" where
  "admit_official_capacity mode max_active db =
     (case (mode, max_active) of
        (Official, Some m) \<Rightarrow>
          (let db1 = lock_scope ''global:official-active'' db;
               active = count_active_evaluation_jobs Official db1
           in and_then (guard_err (active \<ge> m) (TooManyRequests
                (''official evaluation queue is full: '' @ show_int active @ '' of '' @ show_int m
                  @ '' official jobs are staged, queued, or running''))) (\<lambda>_. Inr ((), db1)))
      | _ \<Rightarrow> Inr ((), db))"

text \<open>An official re-run keeps a visible submission visible; every other re-run hides it.\<close>

definition hide_for_rerun :: "timestamp \<Rightarrow> scoring_mode \<Rightarrow> submission_row \<Rightarrow> unit tx" where
  "hide_for_rerun now mode s db =
     (if mode = Official \<and> sub_visible s
      then Inr ((), db\<lparr>submissions := sql_update (\<lambda>r. sub_id r = sub_id s)
             (\<lambda>r. r\<lparr>sub_updated_at := now\<rparr>) (submissions db)\<rparr>)
      else repair_leaderboard_entry_for_solution_submission_tx now (sub_id s)
             (set_submission_status now (sub_id s) SubQueued False db))"

definition queue_tx ::
  "env \<Rightarrow> queue_evaluation_job_input \<Rightarrow> (submission_row \<times> target_accelerator \<times> evaluation_job_payload) tx" where
  "queue_tx env inp db =
     and_then (select_for_queue (qi_submission inp) db) (\<lambda>(s, c).
     and_then (ok_or (Internal ''invalid spec_json'') (ch_spec c)) (\<lambda>spec.
     and_then (ensure_challenge_supports_eval_type_tx env (sub_challenge s) spec (sub_target s)
       (qi_eval_type inp) (sub_agent s) db) (\<lambda>_.
     and_then (job_storage_key_from_row (ch_bundle_key c) ''bundle_key'') (\<lambda>bundle_key.
     and_then (job_storage_key_from_row (ch_public_bundle_key c) ''public_bundle_key'') (\<lambda>public_bundle_key.
     and_then (ensure_validation_uses_public_bundle (qi_eval_type inp) spec bundle_key public_bundle_key) (\<lambda>_.
     and_then (ensure_no_active_job_for_submission_tx (qi_submission inp) db) (\<lambda>_.
     and_then (job_storage_key_from_row (sub_artifact_key s) ''artifact_key'') (\<lambda>artifact_key.
     and_then (required_accelerator_for_target spec (sub_target s)) (\<lambda>acc.
     and_then (admit_official_capacity (qi_eval_type inp) (qi_max_active_official_jobs inp) db) (\<lambda>(_, db1).
     (let p = \<lparr>pl_artifact_key = artifact_key, pl_bundle_key = bundle_key,
               pl_public_bundle_key = public_bundle_key, pl_challenge_name = sub_challenge s,
               pl_target = sub_target s\<rparr>
      in case insert_job (new_job (env_now env) (qi_job_id inp) (qi_submission inp) acc
                (qi_eval_type inp) JobQueued p) db1 of
           Inl err \<Rightarrow> Inl (map_active_job_conflict err)
         | Inr db2 \<Rightarrow> and_then (hide_for_rerun (env_now env) (qi_eval_type inp) s db2) (\<lambda>(_, db3).
             Inr ((s, acc, p), db3)))))))))))))"

definition queue_evaluation_job ::
  "env \<Rightarrow> queue_evaluation_job_input \<Rightarrow> db \<Rightarrow> evaluation_job_record result \<times> db" where
  "queue_evaluation_job env inp db =
     (case transact (queue_tx env inp) db of
        (Inl e, db') \<Rightarrow> (Inl e, db')
      | (Inr (s, acc, p), db') \<Rightarrow>
          (and_then (artifact_metadata_from_row env s) (\<lambda>m.
             Inr \<lparr>ejr_id = qi_job_id inp, ejr_submission = sub_id s, ejr_challenge = sub_challenge s,
               ejr_target = sub_target s, ejr_accelerator = acc, ejr_eval_type = qi_eval_type inp,
               ejr_status = JobQueued, ejr_attempt_count = 0, ejr_payload = p,
               ejr_artifact_metadata = m\<rparr>), db'))"

end
