(* ===== verification/Evaluations.thy ===== *)
theory Evaluations
  imports Evaluation_Jobs
begin

text \<open>
  Starting and finishing an evaluation, \<open>crates/persistence/src/db/evaluations.rs\<close>. Both are fenced
  by the claim: the job row must still be running for the same worker at the same attempt.
\<close>

section \<open>Start\<close>

record mark_evaluation_started_input =
  si_evaluation_id :: uuid
  si_submission :: uuid
  si_job_id :: uuid
  si_worker_id :: string
  si_claim_attempt_count :: int
  si_target :: target_name
  si_eval_type :: scoring_mode

definition started_job_matches :: "mark_evaluation_started_input \<Rightarrow> job_row \<Rightarrow> bool" where
  "started_job_matches inp j =
     (job_id j = si_job_id inp \<and> job_submission j = si_submission inp
      \<and> job_worker_id j = Some (si_worker_id inp) \<and> job_attempt_count j = si_claim_attempt_count inp
      \<and> job_status j = JobRunning \<and> job_target j = si_target inp \<and> job_eval_type j = si_eval_type inp)"

definition new_evaluation :: "timestamp \<Rightarrow> uuid \<Rightarrow> job_row \<Rightarrow> evaluation_row" where
  "new_evaluation now eid j =
     \<lparr>ev_id = eid, ev_submission = job_submission j, ev_job = job_id j, ev_target = job_target j,
      ev_eval_type = job_eval_type j, ev_status = EvalRunning, ev_aggregate_metrics = [],
      ev_run_metrics = [], ev_public_results = None, ev_validation_summary = None,
      ev_official_summary = None, ev_runner_log_key = None, ev_started_at = Some now,
      ev_finished_at = None, ev_created_at = now\<rparr>"

text \<open>\<open>INSERT ... SELECT ... ON CONFLICT (job_id) DO NOTHING\<close>; a clash on the primary key is an error.\<close>

definition mark_evaluation_started :: "timestamp \<Rightarrow> mark_evaluation_started_input \<Rightarrow> bool tx" where
  "mark_evaluation_started now inp db =
     (case sql_first (started_job_matches inp) (jobs db) of
        None \<Rightarrow> Inr (False, db)
      | Some j \<Rightarrow>
          if sql_exists (\<lambda>e. ev_job e = job_id j) (evaluations db) then Inr (False, db)
          else if sql_exists (\<lambda>e. ev_id e = si_evaluation_id inp) (evaluations db)
          then Inl (Database (SqlxDatabase True (Some ''evaluations_pkey'') ''duplicate key''))
          else Inr (True, db\<lparr>evaluations :=
                 sql_insert (new_evaluation now (si_evaluation_id inp) j) (evaluations db)\<rparr>))"

section \<open>Finish\<close>

record persisted_evaluation_result =
  pr_submission :: uuid
  pr_job_id :: uuid
  pr_worker_id :: string
  pr_claim_attempt_count :: int
  pr_target :: target_name
  pr_eval_type :: scoring_mode
  pr_status :: evaluation_status
  pr_aggregate_metrics :: "metric_value list"
  pr_run_metrics :: "run_metric_result list"
  pr_public_results :: "public_case_result list"
  pr_validation_summary :: "score_summary option"
  pr_official_summary :: "score_summary option"
  pr_runner_log_storage_key :: "storage_key option"
  pr_last_error :: "string option"

definition finished_job_row :: "timestamp \<Rightarrow> persisted_evaluation_result \<Rightarrow> job_row \<Rightarrow> job_row" where
  "finished_job_row now r j =
     j\<lparr>job_status := (if pr_status r = EvalCompleted then JobCompleted else JobFailed),
       job_finished_at := Some now, job_last_error := pr_last_error r\<rparr>"

definition finished_evaluation_row ::
  "timestamp \<Rightarrow> persisted_evaluation_result \<Rightarrow> evaluation_row \<Rightarrow> evaluation_row" where
  "finished_evaluation_row now r e =
     e\<lparr>ev_status := (if pr_status r = EvalCompleted then EvalCompleted else EvalFailed),
       ev_aggregate_metrics := pr_aggregate_metrics r, ev_run_metrics := pr_run_metrics r,
       ev_public_results := Some (pr_public_results r),
       ev_validation_summary := pr_validation_summary r, ev_official_summary := pr_official_summary r,
       ev_runner_log_key := pr_runner_log_storage_key r, ev_finished_at := Some now\<rparr>"

definition has_completed_official_evaluation_tx :: "persisted_evaluation_result \<Rightarrow> db \<Rightarrow> bool" where
  "has_completed_official_evaluation_tx r db =
     sql_exists (\<lambda>e. ev_submission e = pr_submission r \<and> ev_target e = pr_target r
       \<and> ev_eval_type e = Official \<and> ev_status e = EvalCompleted \<and> ev_job e \<noteq> pr_job_id r)
       (evaluations db)"

definition apply_validation_result ::
  "timestamp \<Rightarrow> persisted_evaluation_result \<Rightarrow> bool \<Rightarrow> bool tx" where
  "apply_validation_result now r previous db =
     (if previous then Inr (True, db)
      else Inr (True, set_submission_status now (pr_submission r)
             (if pr_status r = EvalCompleted then SubCompleted else SubFailed) False db))"

definition apply_official_result ::
  "timestamp \<Rightarrow> persisted_evaluation_result \<Rightarrow> bool \<Rightarrow> bool tx" where
  "apply_official_result now r previous db =
     (let visible = (pr_status r = EvalCompleted \<or> previous);
          db1 = set_submission_status now (pr_submission r)
                  (if visible then SubCompleted else SubFailed) visible db
      in if pr_status r = EvalCompleted
         then and_then (upsert_leaderboard_entry_for_solution_submission_tx now (pr_submission r)
                (pr_target r) (pr_public_results r) (pr_aggregate_metrics r) db1) (\<lambda>(became_best, db2).
              if became_best
              then and_then (update_official_metrics_for_solution_submission_tx now (pr_submission r)
                     (pr_target r) (pr_aggregate_metrics r) db2) (\<lambda>(_, db3). Inr (True, db3))
              else Inr (True, db2))
         else Inr (True, db1))"

definition mark_evaluation_finished :: "timestamp \<Rightarrow> persisted_evaluation_result \<Rightarrow> bool tx" where
  "mark_evaluation_finished now r db =
     (let mine = owns_claim (pr_job_id r) (pr_worker_id r) (pr_claim_attempt_count r);
          running = (\<lambda>e. ev_job e = pr_job_id r \<and> ev_status e = EvalRunning);
          db1 = db\<lparr>jobs := sql_update mine (finished_job_row now r) (jobs db)\<rparr>
      in if sql_count mine (jobs db) = 0 then Inr (False, db1)
         else
           (let db2 = db1\<lparr>evaluations := sql_update running (finished_evaluation_row now r) (evaluations db1)\<rparr>
            in if sql_count running (evaluations db1) \<noteq> 1 then Inl Conflict
               else
                 (let previous = has_completed_official_evaluation_tx r db2
                  in case pr_eval_type r of
                       Validation \<Rightarrow> apply_validation_result now r previous db2
                     | Official \<Rightarrow> apply_official_result now r previous db2)))"

end
