(* ===== verification/Maintenance.thy ===== *)
theory Maintenance
  imports Evaluations
begin

text \<open>
  Heartbeats and the reaper, \<open>crates/persistence/src/db/maintenance.rs\<close>. The reaper is one
  transaction of three passes: staged jobs that were never promoted fail, expired running jobs with
  attempts left go back to the queue, the other expired running jobs fail. Each pass loops over the
  rows that its \<open>UPDATE ... RETURNING\<close> returned.
\<close>

section \<open>Heartbeats\<close>

definition upsert_service_heartbeat :: "timestamp \<Rightarrow> string \<Rightarrow> heartbeat_payload \<Rightarrow> db \<Rightarrow> db" where
  "upsert_service_heartbeat now name p db = db\<lparr>heartbeats :=
     sql_upsert hb_service_name \<lparr>hb_service_name = name, hb_last_seen_at = now, hb_payload = p\<rparr>
       (heartbeats db)\<rparr>"

definition list_service_heartbeats :: "db \<Rightarrow> heartbeat_row list" where
  "list_service_heartbeats db =
     sort_by (\<lambda>a b. cmp_lin (hb_last_seen_at b) (hb_last_seen_at a)) (heartbeats db)"

section \<open>Reaping\<close>

record stale_job_reap_result =
  requeued :: nat
  failed :: nat

definition preserve_visible_official_result_tx ::
  "timestamp \<Rightarrow> uuid \<Rightarrow> uuid \<Rightarrow> scoring_mode \<Rightarrow> db \<Rightarrow> bool \<times> db" where
  "preserve_visible_official_result_tx now sid stale_job mode db =
     (if mode \<noteq> Official then (False, db)
      else if \<not> sql_exists (\<lambda>e. ev_submission e = sid \<and> ev_eval_type e = Official
           \<and> ev_status e = EvalCompleted \<and> ev_job e \<noteq> stale_job) (evaluations db)
      then (False, db)
      else (True, set_submission_status now sid SubCompleted True db))"

definition hide_reaped_solution_submission_tx ::
  "timestamp \<Rightarrow> uuid \<Rightarrow> solution_submission_status \<Rightarrow> db \<Rightarrow> bool \<times> db" where
  "hide_reaped_solution_submission_tx now sid next_status db =
     (case sub_by_id sid (submissions db) of None \<Rightarrow> False | Some s \<Rightarrow> sub_visible s,
      set_submission_status now sid next_status False db)"

definition settle_reaped_submission ::
  "timestamp \<Rightarrow> solution_submission_status \<Rightarrow> job_row \<Rightarrow> db \<Rightarrow> service_error + db" where
  "settle_reaped_submission now next_status j db =
     (case preserve_visible_official_result_tx now (job_submission j) (job_id j) (job_eval_type j) db of
        (True, db1) \<Rightarrow> Inr db1
      | (False, db1) \<Rightarrow>
          (case hide_reaped_solution_submission_tx now (job_submission j) next_status db1 of
             (was_visible, db2) \<Rightarrow>
               if was_visible
               then map_sum id snd (repair_leaderboard_entry_for_solution_submission_tx now (job_submission j) db2)
               else Inr db2))"

definition stale_staged :: "timestamp \<Rightarrow> int \<Rightarrow> job_row \<Rightarrow> bool" where
  "stale_staged now timeout j = (job_status j = JobStaged \<and> job_scheduled_at j < now - minutes timeout)"

definition lease_expired :: "timestamp \<Rightarrow> int \<Rightarrow> job_row \<Rightarrow> bool" where
  "lease_expired now timeout j = (job_status j = JobRunning
     \<and> (case job_claimed_at j of None \<Rightarrow> False | Some c \<Rightarrow> c < now - minutes timeout))"

definition fail_job_row :: "timestamp \<Rightarrow> string \<Rightarrow> job_row \<Rightarrow> job_row" where
  "fail_job_row now msg j =
     j\<lparr>job_status := JobFailed, job_finished_at := Some now, job_last_error := Some msg,
       job_worker_id := None, job_claimed_at := None\<rparr>"

definition release_job_row :: "job_row \<Rightarrow> job_row" where
  "release_job_row j = j\<lparr>job_status := JobQueued, job_worker_id := None, job_claimed_at := None\<rparr>"

definition reap_staged :: "timestamp \<Rightarrow> int \<Rightarrow> db \<Rightarrow> service_error + nat \<times> db" where
  "reap_staged now timeout db =
     (let rows = sql_select (stale_staged now timeout) (jobs db);
          db1 = db\<lparr>jobs := sql_update (stale_staged now timeout)
                  (fail_job_row now ''staged job was not promoted before timeout'') (jobs db)\<rparr>
      in and_then (try_fold (\<lambda>db j. Inr (set_submission_status now (job_submission j) SubFailed False db)) db1 rows)
           (\<lambda>db2. Inr (length rows, db2)))"

definition reap_requeue :: "timestamp \<Rightarrow> int \<Rightarrow> db \<Rightarrow> service_error + nat \<times> db" where
  "reap_requeue now timeout db =
     (let retry = (\<lambda>j. lease_expired now timeout j \<and> job_attempt_count j < job_max_attempts j);
          rows = sql_select retry (jobs db);
          db1 = db\<lparr>jobs := sql_update retry release_job_row (jobs db)\<rparr>
      in and_then (try_fold (\<lambda>db j. settle_reaped_submission now SubQueued j
             (delete_running_evaluation_for_job (job_id j) db)) db1 rows)
           (\<lambda>db2. Inr (length rows, db2)))"

definition fail_running_evaluation :: "timestamp \<Rightarrow> uuid \<Rightarrow> db \<Rightarrow> db" where
  "fail_running_evaluation now jid db = db\<lparr>evaluations :=
     sql_update (\<lambda>e. ev_job e = jid \<and> ev_status e = EvalRunning)
       (\<lambda>e. e\<lparr>ev_status := EvalFailed, ev_finished_at := Some now\<rparr>) (evaluations db)\<rparr>"

definition reap_fail :: "timestamp \<Rightarrow> int \<Rightarrow> db \<Rightarrow> service_error + nat \<times> db" where
  "reap_fail now timeout db =
     (let exhausted = (\<lambda>j. lease_expired now timeout j \<and> job_attempt_count j \<ge> job_max_attempts j);
          rows = sql_select exhausted (jobs db);
          db1 = db\<lparr>jobs := sql_update exhausted
                  (fail_job_row now ''worker lease expired after max attempts'') (jobs db)\<rparr>
      in and_then (try_fold (\<lambda>db j. settle_reaped_submission now SubFailed j
             (fail_running_evaluation now (job_id j) db)) db1 rows)
           (\<lambda>db2. Inr (length rows, db2)))"

text \<open>The list lengths are bounded by \<open>usize\<close>, so neither the sum nor \<open>u64::try_from\<close> overflows.\<close>

definition reap_stuck_jobs :: "timestamp \<Rightarrow> int \<Rightarrow> stale_job_reap_result tx" where
  "reap_stuck_jobs now timeout db =
     and_then (reap_staged now timeout db) (\<lambda>(staged, db1).
     and_then (reap_requeue now timeout db1) (\<lambda>(req, db2).
     and_then (reap_fail now timeout db2) (\<lambda>(fl, db3).
     Inr (\<lparr>requeued = req, failed = fl + staged\<rparr>, db3))))"

end
