(* ===== verification/Solution_Submissions.thy ===== *)
theory Solution_Submissions
  imports Maintenance
begin

text \<open>
  Creating a submission with its first job, \<open>crates/persistence/src/db/solution_submissions.rs\<close> and
  \<open>solution_submissions/admission.rs\<close>, the quota counters of \<open>validation_quotas.rs\<close>, and the quota
  policy of \<open>crates/services/src/solution_submissions/admission.rs\<close>.
\<close>

section \<open>Inputs\<close>

record quota_admission =
  qa_window_seconds :: int
  qa_per_agent_challenge_limit :: int
  qa_challenge_lifetime_limit :: "int option"
  qa_max_active_official_jobs :: "int option"

record create_solution_submission_input =
  ci_submission :: uuid
  ci_job_id :: uuid
  ci_agent :: uuid
  ci_challenge :: challenge_name
  ci_target :: target_name
  ci_artifact_key :: storage_key
  ci_artifact_metadata :: solution_artifact_metadata
  ci_note :: string
  ci_eval_type :: scoring_mode
  ci_explanation :: string
  ci_parent :: "uuid option"
  ci_credit_text :: string
  ci_quota :: quota_admission

record quota_config =
  validation_runs_per_agent_challenge_day :: int
  official_runs_per_agent_challenge_day :: int
  max_active_official_jobs :: int

section \<open>Quota counters\<close>

text \<open>The lateral join: the first job of a submission decides which quota it used.\<close>

definition first_job :: "submission_row \<Rightarrow> job_row list \<Rightarrow> job_row option" where
  "first_job s js = sql_top (\<lambda>j. job_submission j = sub_id s)
     (\<lambda>a b. then_with (cmp_lin (job_created_at a) (job_created_at b)) (cmp_lin (job_id a) (job_id b))) js"

definition counts_for :: "db \<Rightarrow> uuid \<Rightarrow> challenge_name \<Rightarrow> target_name \<Rightarrow> scoring_mode \<Rightarrow> submission_row \<Rightarrow> bool" where
  "counts_for db a n t mode s =
     (sub_agent s = a \<and> sub_challenge s = n \<and> sub_target s = t
      \<and> (case first_job s (jobs db) of None \<Rightarrow> False | Some j \<Rightarrow> job_eval_type j = mode))"

definition count_recent_runs_for_agent_challenge ::
  "timestamp \<Rightarrow> uuid \<Rightarrow> challenge_name \<Rightarrow> target_name \<Rightarrow> scoring_mode \<Rightarrow> int \<Rightarrow> db \<Rightarrow> int" where
  "count_recent_runs_for_agent_challenge now a n t mode window db =
     sql_count (\<lambda>s. counts_for db a n t mode s \<and> now - seconds window \<le> sub_created_at s) (submissions db)"

definition count_lifetime_runs_for_agent_challenge ::
  "uuid \<Rightarrow> challenge_name \<Rightarrow> target_name \<Rightarrow> scoring_mode \<Rightarrow> db \<Rightarrow> int" where
  "count_lifetime_runs_for_agent_challenge a n t mode db =
     sql_count (counts_for db a n t mode) (submissions db)"

definition count_recent_validation_runs_for_agent_challenge ::
  "timestamp \<Rightarrow> uuid \<Rightarrow> challenge_name \<Rightarrow> target_name \<Rightarrow> int \<Rightarrow> db \<Rightarrow> int" where
  "count_recent_validation_runs_for_agent_challenge now a n t window db =
     count_recent_runs_for_agent_challenge now a n t Validation window db"

section \<open>Quota admission\<close>

definition quota_scopes :: "create_solution_submission_input \<Rightarrow> string list" where
  "quota_scopes inp =
     (let prefix = ''agent:'' @ ci_agent inp @ '':challenge:'' @ ci_challenge inp @ '':target:''
            @ ci_target inp @ '':mode:'' @ scoring_mode_as_str (ci_eval_type inp)
      in sort ([prefix @ '':daily'']
           @ (if ci_eval_type inp = Official then [''global:official-active''] else [])
           @ (if qa_challenge_lifetime_limit (ci_quota inp) \<noteq> None then [prefix @ '':lifetime''] else [])))"

definition quota_exceeded :: "scoring_mode \<Rightarrow> challenge_name \<Rightarrow> int \<Rightarrow> int \<Rightarrow> service_error" where
  "quota_exceeded mode n used limit = TooManyRequests
     (scoring_mode_as_str mode @ '' quota exceeded for challenge `'' @ n @ ''`: '' @ show_int used
       @ '' of '' @ show_int limit @ '' runs used in the last 24 hours'')"

definition lifetime_exceeded :: "scoring_mode \<Rightarrow> challenge_name \<Rightarrow> int \<Rightarrow> int \<Rightarrow> service_error" where
  "lifetime_exceeded mode n used limit = TooManyRequests
     (scoring_mode_as_str mode @ '' challenge limit exceeded for challenge `'' @ n @ ''`: '' @ show_int used
       @ '' of '' @ show_int limit @ '' lifetime runs used'')"

definition official_queue_full :: "int \<Rightarrow> int \<Rightarrow> string \<Rightarrow> service_error" where
  "official_queue_full active m states = TooManyRequests
     (''official evaluation queue is full: '' @ show_int active @ '' of '' @ show_int m
       @ '' official jobs are '' @ states)"

definition under_limit :: "int option \<Rightarrow> int \<Rightarrow> (int \<Rightarrow> service_error) \<Rightarrow> unit result" where
  "under_limit limit used err =
     (case limit of None \<Rightarrow> Inr () | Some m \<Rightarrow> guard_err (used \<ge> m) (err m))"

definition enforce_quota_admission :: "timestamp \<Rightarrow> create_solution_submission_input \<Rightarrow> unit tx" where
  "enforce_quota_admission now inp db =
     (let q = ci_quota inp;
          db1 = fold lock_scope (quota_scopes inp) db;
          used = count_recent_runs_for_agent_challenge now (ci_agent inp) (ci_challenge inp)
                   (ci_target inp) (ci_eval_type inp) (qa_window_seconds q) db1;
          lifetime = count_lifetime_runs_for_agent_challenge (ci_agent inp) (ci_challenge inp)
                   (ci_target inp) (ci_eval_type inp) db1;
          active = count_active_evaluation_jobs Official db1
      in and_then (guard_err (used \<ge> qa_per_agent_challenge_limit q)
           (quota_exceeded (ci_eval_type inp) (ci_challenge inp) used (qa_per_agent_challenge_limit q))) (\<lambda>_.
         and_then (under_limit (qa_challenge_lifetime_limit q) lifetime
           (lifetime_exceeded (ci_eval_type inp) (ci_challenge inp) lifetime)) (\<lambda>_.
         and_then (under_limit (qa_max_active_official_jobs q) active
           (\<lambda>m. official_queue_full active m ''staged, queued, or running'')) (\<lambda>_.
         Inr ((), db1)))))"

section \<open>Parent scope\<close>

definition ensure_parent_solution_submission_matches_scope_tx ::
  "uuid option \<Rightarrow> uuid \<Rightarrow> challenge_name \<Rightarrow> target_name \<Rightarrow> db \<Rightarrow> unit result" where
  "ensure_parent_solution_submission_matches_scope_tx parent a n t db =
     (case parent of None \<Rightarrow> Inr ()
      | Some pid \<Rightarrow>
        (case sub_by_id pid (submissions db) of
           None \<Rightarrow> Inl (BadRequest ''parent_solution_submission_id does not reference an existing solution submission'')
         | Some p \<Rightarrow>
             and_then (guard_err (sub_agent p \<noteq> a \<or> sub_challenge p \<noteq> n \<or> sub_target p \<noteq> t)
               (BadRequest ''parent_solution_submission_id must belong to the same agent, challenge_name, and target'')) (\<lambda>_.
             guard_err (sub_status p \<noteq> SubCompleted \<or> \<not> sub_visible p)
               (BadRequest ''parent_solution_submission_id must reference a completed visible solution submission''))))"

section \<open>Creation\<close>

definition u64_to_i64 :: "nat \<Rightarrow> string \<Rightarrow> int result" where
  "u64_to_i64 v field =
     (if int v \<le> i64_max then Inr (int v) else Inl (ValidationErr (field @ '' exceeds supported range'')))"

definition new_submission ::
  "timestamp \<Rightarrow> create_solution_submission_input \<Rightarrow> challenge_row \<Rightarrow> int \<Rightarrow> int \<Rightarrow> int \<Rightarrow> submission_row" where
  "new_submission now inp c z u f =
     \<lparr>sub_id = ci_submission inp, sub_challenge = ch_name c, sub_target = ci_target inp,
      sub_agent = ci_agent inp, sub_artifact_key = ci_artifact_key inp,
      sub_zip_bytes = Some z, sub_uncompressed_bytes = Some u, sub_file_count = Some f,
      sub_sha256 = Some (artifact_sha256 (ci_artifact_metadata inp)), sub_status = SubPending,
      sub_note = ci_note inp, sub_explanation = ci_explanation inp, sub_parent = ci_parent inp,
      sub_credit_text = ci_credit_text inp, sub_visible = False, sub_created_at = now,
      sub_updated_at = now\<rparr>"

text \<open>Inserting a submission checks the primary key and the reference to the agent.\<close>

definition insert_submission :: "submission_row \<Rightarrow> db \<Rightarrow> service_error + db" where
  "insert_submission s db =
     (if sql_exists (\<lambda>r. sub_id r = sub_id s) (submissions db)
      then Inl (Database (SqlxDatabase True (Some ''solution_submissions_pkey'') ''duplicate key''))
      else if \<not> sql_exists (\<lambda>a. ag_id a = sub_agent s) (agents db)
      then Inl (Database (SqlxDatabase False (Some ''solution_submissions_agent_id_fkey'') ''missing agent''))
      else Inr (db\<lparr>submissions := sql_insert s (submissions db)\<rparr>))"

definition create_solution_submission_with_job ::
  "env \<Rightarrow> create_solution_submission_input \<Rightarrow> submission_row tx" where
  "create_solution_submission_with_job env inp db =
     and_then (lock_active_challenge_for_admission_tx (ci_challenge inp) db) (\<lambda>c.
     and_then (ok_or (Internal ''invalid spec_json'') (ch_spec c)) (\<lambda>spec.
     and_then (ensure_challenge_supports_eval_type_tx env (ch_name c) spec (ci_target inp)
       (ci_eval_type inp) (ci_agent inp) db) (\<lambda>_.
     and_then (ensure_validation_uses_public_bundle (ci_eval_type inp) spec (ch_bundle_key c)
       (ch_public_bundle_key c)) (\<lambda>_.
     and_then (enforce_quota_admission (env_now env) inp db) (\<lambda>(_, db1).
     and_then (ensure_parent_solution_submission_matches_scope_tx (ci_parent inp) (ci_agent inp)
       (ch_name c) (ci_target inp) db1) (\<lambda>_.
     and_then (u64_to_i64 (artifact_zip_bytes (ci_artifact_metadata inp)) ''artifact_zip_bytes'') (\<lambda>z.
     and_then (u64_to_i64 (artifact_uncompressed_bytes (ci_artifact_metadata inp)) ''artifact_uncompressed_bytes'') (\<lambda>u.
     and_then (u64_to_i64 (artifact_file_count (ci_artifact_metadata inp)) ''artifact_file_count'') (\<lambda>f.
     (let s = new_submission (env_now env) inp c z u f;
          p = \<lparr>pl_artifact_key = ci_artifact_key inp, pl_bundle_key = ch_bundle_key c,
               pl_public_bundle_key = ch_public_bundle_key c, pl_challenge_name = ch_name c,
               pl_target = ci_target inp\<rparr>
      in and_then (insert_submission s db1) (\<lambda>db2.
         and_then (required_accelerator_for_target spec (ci_target inp)) (\<lambda>acc.
         (case insert_job (new_job (env_now env) (ci_job_id inp) (ci_submission inp) acc
                 (ci_eval_type inp) JobStaged p) db2 of
            Inl err \<Rightarrow> Inl (Database err)
          | Inr db3 \<Rightarrow> Inr (s, db3))))))))))))))"

section \<open>Service-level quota policy\<close>

definition submission_quota_window_seconds :: int where
  "submission_quota_window_seconds = 24 * 60 * 60"

fun per_day_limit :: "quota_config \<Rightarrow> scoring_mode \<Rightarrow> int" where
  "per_day_limit cfg Validation = validation_runs_per_agent_challenge_day cfg"
| "per_day_limit cfg Official = official_runs_per_agent_challenge_day cfg"

fun challenge_lifetime_limit :: "published_challenge_admission \<Rightarrow> scoring_mode \<Rightarrow> int option" where
  "challenge_lifetime_limit adm Validation = pca_validation_submission_limit adm"
| "challenge_lifetime_limit adm Official = pca_official_submission_limit adm"

definition quota_admission_of :: "quota_config \<Rightarrow> scoring_mode \<Rightarrow> int option \<Rightarrow> quota_admission" where
  "quota_admission_of cfg mode lifetime =
     \<lparr>qa_window_seconds = submission_quota_window_seconds,
      qa_per_agent_challenge_limit = per_day_limit cfg mode,
      qa_challenge_lifetime_limit = lifetime,
      qa_max_active_official_jobs = (if mode = Official then Some (max_active_official_jobs cfg) else None)\<rparr>"

definition ensure_submission_quota_available ::
  "timestamp \<Rightarrow> quota_config \<Rightarrow> uuid \<Rightarrow> challenge_name \<Rightarrow> target_name \<Rightarrow> scoring_mode \<Rightarrow> int option \<Rightarrow> db \<Rightarrow> unit result" where
  "ensure_submission_quota_available now cfg a n t mode lifetime_limit db =
     (let limit = per_day_limit cfg mode;
          used = count_recent_runs_for_agent_challenge now a n t mode submission_quota_window_seconds db;
          lifetime = count_lifetime_runs_for_agent_challenge a n t mode db;
          active = count_active_evaluation_jobs Official db;
          max_active = max_active_official_jobs cfg
      in and_then (guard_err (used \<ge> limit) (quota_exceeded mode n used limit)) (\<lambda>_.
         and_then (under_limit lifetime_limit lifetime (lifetime_exceeded mode n lifetime)) (\<lambda>_.
         guard_err (mode = Official \<and> active \<ge> max_active)
           (official_queue_full active max_active ''queued or running''))))"

end
