(* ===== verification/Lifecycle_Invariants.thy ===== *)
theory Lifecycle_Invariants
  imports Solution_Submissions
begin

text \<open>
  The invariants of the evaluation pipeline and their preservation by each database operation. The
  state of one submission is judged on its own row, the set of its jobs and the set of its
  evaluations (\<open>sub_ok\<close>); an operation on one job changes only the view of that job's submission.
  The leaderboard is judged on the public part of the submissions and on the completed official
  evaluations (\<open>board_ok\<close>).
\<close>

section \<open>Invariants\<close>

definition jobs_of :: "uuid \<Rightarrow> db \<Rightarrow> job_row set" where
  "jobs_of i db = {j \<in> set (jobs db). job_submission j = i}"

definition evals_of :: "uuid \<Rightarrow> db \<Rightarrow> evaluation_row set" where
  "evals_of i db = {e \<in> set (evaluations db). ev_submission e = i}"

definition official_done :: "evaluation_row \<Rightarrow> bool" where
  "official_done e = (ev_eval_type e = Official \<and> ev_status e = EvalCompleted)"

definition job_ok :: "job_row \<Rightarrow> bool" where
  "job_ok j \<longleftrightarrow> 0 \<le> job_attempt_count j \<and> job_attempt_count j \<le> job_max_attempts j
     \<and> job_payload j \<noteq> None
     \<and> (job_status j = JobRunning \<longrightarrow> 1 \<le> job_attempt_count j \<and> job_worker_id j \<noteq> None \<and> job_claimed_at j \<noteq> None)
     \<and> (job_status j \<in> {JobStaged, JobQueued} \<longrightarrow> job_attempt_count j < job_max_attempts j)"

fun eval_matches :: "evaluation_status \<Rightarrow> evaluation_job_status \<Rightarrow> bool" where
  "eval_matches EvalRunning st = (st = JobRunning)"
| "eval_matches EvalCompleted st = (st = JobCompleted)"
| "eval_matches EvalFailed st = (st = JobFailed)"
| "eval_matches EvalQueued st = False"

text \<open>The status that a submission without a public result shows for the state of its job.\<close>

fun mirror_status :: "evaluation_job_status \<Rightarrow> solution_submission_status" where
  "mirror_status JobStaged = SubPending"
| "mirror_status JobQueued = SubQueued"
| "mirror_status JobRunning = SubRunning"
| "mirror_status JobCompleted = SubCompleted"
| "mirror_status JobFailed = SubFailed"

definition jobs_ok :: "submission_row \<Rightarrow> job_row set \<Rightarrow> bool" where
  "jobs_ok s J \<longleftrightarrow>
     (\<forall>j \<in> J. job_ok j \<and> job_challenge j = sub_challenge s \<and> job_target j = sub_target s)
     \<and> (\<forall>i \<in> J. \<forall>j \<in> J. job_active i \<and> job_active j \<longrightarrow> i = j)
     \<and> (\<forall>j \<in> J. job_status j = JobStaged \<longrightarrow> J = {j})"

definition evals_ok :: "submission_row \<Rightarrow> job_row set \<Rightarrow> evaluation_row set \<Rightarrow> bool" where
  "evals_ok s J E \<longleftrightarrow>
     (\<forall>e \<in> E. \<exists>j \<in> J. job_id j = ev_job e \<and> ev_eval_type e = job_eval_type j
        \<and> ev_target e = sub_target s \<and> eval_matches (ev_status e) (job_status j))
     \<and> (\<forall>j \<in> J. job_status j = JobCompleted \<longrightarrow> (\<exists>e \<in> E. ev_job e = job_id j))
     \<and> (\<forall>e \<in> E. ev_status e = EvalCompleted \<longrightarrow> finite_payload (ev_aggregate_metrics e))"

definition status_ok :: "submission_row \<Rightarrow> job_row set \<Rightarrow> evaluation_row set \<Rightarrow> bool" where
  "status_ok s J E \<longleftrightarrow>
     (sub_visible s \<longleftrightarrow> (\<exists>e \<in> E. official_done e))
     \<and> (sub_visible s \<longrightarrow> sub_status s = SubCompleted \<and> (\<forall>j \<in> J. job_active j \<longrightarrow> job_eval_type j = Official))
     \<and> (\<not> sub_visible s \<longrightarrow>
          (\<forall>j \<in> J. job_active j \<longrightarrow> sub_status s = mirror_status (job_status j))
          \<and> ((\<forall>j \<in> J. \<not> job_active j) \<longrightarrow> sub_status s \<in> {SubCompleted, SubFailed}))"

definition sub_ok :: "submission_row \<Rightarrow> job_row set \<Rightarrow> evaluation_row set \<Rightarrow> bool" where
  "sub_ok s J E \<longleftrightarrow> jobs_ok s J \<and> evals_ok s J E \<and> status_ok s J E"

section \<open>One submission\<close>

lemma job_active_iff: "job_active j \<longleftrightarrow> job_status j = JobStaged \<or> job_status j = JobQueued \<or> job_status j = JobRunning"
  by (simp add: job_active_def)

lemma eval_matches_active:
  "eval_matches st (job_status j) \<Longrightarrow> job_active j \<Longrightarrow> st = EvalRunning \<and> job_status j = JobRunning"
  by (cases st; auto simp: job_active_iff)

text \<open>The evaluations of an active job are running, so its completed ones belong to other jobs.\<close>

lemma eval_of_active:
  assumes "evals_ok s J E" "inj_on job_id J" "j \<in> J" "job_active j" "e \<in> E" "ev_job e = job_id j"
  shows "ev_status e = EvalRunning \<and> job_status j = JobRunning"
proof -
  obtain i where "i \<in> J" "job_id i = ev_job e" and m: "eval_matches (ev_status e) (job_status i)"
    using assms(1,5) unfolding evals_ok_def by blast
  then have "i = j" using assms(2,3,6) by (auto dest: inj_onD)
  then show ?thesis using m assms(4) eval_matches_active by blast
qed

text \<open>
  The central step: one active job moves to a new row, its evaluation changes with it, and the
  submission's row is adjusted accordingly.
\<close>

definition job_move ::
  "submission_row \<Rightarrow> job_row set \<Rightarrow> evaluation_row set \<Rightarrow> job_row \<Rightarrow> submission_row \<Rightarrow> job_row \<Rightarrow> evaluation_row set \<Rightarrow> bool" where
  "job_move s J E j0 s' j1 E' \<longleftrightarrow>
     j0 \<in> J \<and> job_active j0 \<and> inj_on job_id J
     \<and> job_ok j1 \<and> job_status j1 \<noteq> JobStaged \<and> job_id j1 = job_id j0 \<and> job_eval_type j1 = job_eval_type j0
     \<and> job_challenge j1 = job_challenge j0 \<and> job_target j1 = job_target j0
     \<and> sub_challenge s' = sub_challenge s \<and> sub_target s' = sub_target s
     \<and> (sub_visible s' \<longleftrightarrow> sub_visible s \<or> (job_status j1 = JobCompleted \<and> job_eval_type j0 = Official))
     \<and> (sub_visible s' \<longrightarrow> sub_status s' = SubCompleted)
     \<and> (\<not> sub_visible s' \<longrightarrow> sub_status s' = mirror_status (job_status j1))
     \<and> (\<forall>e. ev_job e \<noteq> job_id j0 \<longrightarrow> (e \<in> E' \<longleftrightarrow> e \<in> E))
     \<and> (\<forall>e \<in> E'. ev_job e = job_id j0 \<longrightarrow> ev_eval_type e = job_eval_type j0 \<and> ev_target e = sub_target s
          \<and> eval_matches (ev_status e) (job_status j1)
          \<and> (ev_status e = EvalCompleted \<longrightarrow> finite_payload (ev_aggregate_metrics e)))
     \<and> (job_status j1 = JobCompleted \<longrightarrow> (\<exists>e \<in> E'. ev_job e = job_id j0))"

lemma only_active:
  assumes "jobs_ok s J" "job_move s J E j0 s' j1 E'" "i \<in> J" "job_active i"
  shows "i = j0"
proof -
  have "j0 \<in> J" "job_active j0" using assms(2) by (simp_all add: job_move_def)
  then show ?thesis using assms(1,3,4) unfolding jobs_ok_def by blast
qed

lemma jobs_okD:
  "jobs_ok s J \<Longrightarrow> j \<in> J \<Longrightarrow> job_ok j \<and> job_challenge j = sub_challenge s \<and> job_target j = sub_target s"
  unfolding jobs_ok_def by blast

lemma jobs_ok_move:
  assumes ok: "jobs_ok s J" and mv: "job_move s J E j0 s' j1 E'"
  shows "jobs_ok s' (insert j1 (J - {j0}))"
  unfolding jobs_ok_def
proof (intro conjI ballI impI)
  let ?J = "insert j1 (J - {j0})"
  note only = only_active [OF ok mv]
  have j1: "job_ok j1" "job_status j1 \<noteq> JobStaged" "job_challenge j1 = job_challenge j0"
      "job_target j1 = job_target j0" "j0 \<in> J"
    and s': "sub_challenge s' = sub_challenge s" "sub_target s' = sub_target s"
    using mv by (simp_all add: job_move_def)
  fix i assume i: "i \<in> ?J"
  then have "job_ok i \<and> job_challenge i = sub_challenge s \<and> job_target i = sub_target s"
    using jobs_okD [OF ok, of i] jobs_okD [OF ok j1(5)] j1 by (cases "i = j1") simp_all
  then show "job_ok i" "job_challenge i = sub_challenge s'" "job_target i = sub_target s'"
    using s' by simp_all
  show "i = j" if "j \<in> ?J" "job_active i \<and> job_active j" for j
    using that i only by blast
  show "?J = {i}" if "job_status i = JobStaged"
  proof -
    have "i \<in> J - {j0}" using i that j1(2) by (cases "i = j1") simp_all
    moreover have "job_active i" using that by simp
    ultimately show ?thesis using only by blast
  qed
qed

lemma eval_job_move:
  assumes ok: "evals_ok s J E" and mv: "job_move s J E j0 s' j1 E'" and e: "e \<in> E'"
  shows "\<exists>j \<in> insert j1 (J - {j0}). job_id j = ev_job e \<and> ev_eval_type e = job_eval_type j
     \<and> ev_target e = sub_target s' \<and> eval_matches (ev_status e) (job_status j)"
proof (cases "ev_job e = job_id j0")
  case True
  then show ?thesis using mv e by (auto simp: job_move_def)
next
  case False
  then have "e \<in> E" using mv e by (simp add: job_move_def)
  then obtain j where "j \<in> J" "job_id j = ev_job e" "ev_eval_type e = job_eval_type j"
      "ev_target e = sub_target s" "eval_matches (ev_status e) (job_status j)"
    using ok unfolding evals_ok_def by blast
  then show ?thesis using False mv by (auto simp: job_move_def)
qed

lemma evals_ok_move:
  assumes ok: "evals_ok s J E" and mv: "job_move s J E j0 s' j1 E'"
  shows "evals_ok s' (insert j1 (J - {j0})) E'"
  unfolding evals_ok_def
proof (intro conjI ballI impI)
  fix j assume j: "j \<in> insert j1 (J - {j0})" "job_status j = JobCompleted"
  show "\<exists>e \<in> E'. ev_job e = job_id j"
  proof (cases "j = j1")
    case True
    then show ?thesis using j(2) mv by (simp add: job_move_def)
  next
    case False
    then have "j \<in> J" "j \<noteq> j0" using j(1) by auto
    then obtain e where "e \<in> E" "ev_job e = job_id j" using ok j(2) unfolding evals_ok_def by blast
    moreover have "job_id j \<noteq> job_id j0"
      using mv \<open>j \<in> J\<close> \<open>j \<noteq> j0\<close> by (auto simp: job_move_def dest: inj_onD)
    ultimately show ?thesis using mv by (auto simp: job_move_def)
  qed
next
  fix e assume "e \<in> E'" "ev_status e = EvalCompleted"
  then show "finite_payload (ev_aggregate_metrics e)"
    using mv ok unfolding evals_ok_def job_move_def by metis
qed (rule eval_job_move [OF ok mv])

lemma official_done_move:
  assumes ok: "evals_ok s J E" and mv: "job_move s J E j0 s' j1 E'"
  shows "(\<exists>e \<in> E'. official_done e) \<longleftrightarrow>
    (\<exists>e \<in> E. official_done e) \<or> (job_status j1 = JobCompleted \<and> job_eval_type j0 = Official)"
proof -
  have inj: "inj_on job_id J" and j0: "j0 \<in> J" "job_active j0" using mv by (simp_all add: job_move_def)
  have before: "(\<exists>e \<in> E. official_done e) \<longleftrightarrow> (\<exists>e \<in> E. official_done e \<and> ev_job e \<noteq> job_id j0)"
    using eval_of_active [OF ok inj j0] by (auto simp: official_done_def)
  have "(\<exists>e \<in> E'. official_done e \<and> ev_job e = job_id j0) \<longleftrightarrow>
      job_status j1 = JobCompleted \<and> job_eval_type j0 = Official"
  proof
    assume "\<exists>e \<in> E'. official_done e \<and> ev_job e = job_id j0"
    then obtain e where "e \<in> E'" "ev_job e = job_id j0" "official_done e" by blast
    moreover from this have "eval_matches (ev_status e) (job_status j1)" "ev_eval_type e = job_eval_type j0"
      using mv by (simp_all add: job_move_def)
    ultimately show "job_status j1 = JobCompleted \<and> job_eval_type j0 = Official"
      by (simp add: official_done_def)
  next
    assume c: "job_status j1 = JobCompleted \<and> job_eval_type j0 = Official"
    then obtain e where e: "e \<in> E'" "ev_job e = job_id j0" using mv by (auto simp: job_move_def)
    then have "eval_matches (ev_status e) JobCompleted" "ev_eval_type e = Official"
      using mv c by (auto simp: job_move_def)
    then have "official_done e" by (cases "ev_status e") (auto simp: official_done_def)
    then show "\<exists>e \<in> E'. official_done e \<and> ev_job e = job_id j0" using e by blast
  qed
  moreover have "e \<in> E' \<longleftrightarrow> e \<in> E" if "ev_job e \<noteq> job_id j0" for e
    using mv that by (simp add: job_move_def)
  ultimately show ?thesis using before by metis
qed

lemma status_ok_move:
  assumes jobs: "jobs_ok s J" and evals: "evals_ok s J E" and status: "status_ok s J E"
    and mv: "job_move s J E j0 s' j1 E'"
  shows "status_ok s' (insert j1 (J - {j0})) E'"
  unfolding status_ok_def
proof (intro conjI impI ballI)
  let ?J = "insert j1 (J - {j0})"
  show "sub_visible s' \<longleftrightarrow> (\<exists>e \<in> E'. official_done e)"
    unfolding official_done_move [OF evals mv] using status mv by (simp add: status_ok_def job_move_def)
  show "sub_status s' = SubCompleted" if "sub_visible s'"
    using mv that by (simp add: job_move_def)
  have new: "j = j1" if "j \<in> ?J" "job_active j" for j
    using that only_active [OF jobs mv] by auto
  show "job_eval_type j = Official" if "sub_visible s'" "j \<in> ?J" "job_active j" for j
    using status mv that new [of j] by (auto simp: status_ok_def job_move_def)
  show "sub_status s' = mirror_status (job_status j)" if "\<not> sub_visible s'" "j \<in> ?J" "job_active j" for j
    using mv that new [of j] by (simp add: job_move_def)
  show "sub_status s' \<in> {SubCompleted, SubFailed}" if "\<not> sub_visible s'" "\<forall>j \<in> ?J. \<not> job_active j"
    using mv that by (cases "job_status j1") (auto simp: job_move_def)
qed

lemma sub_ok_move:
  "sub_ok s J E \<Longrightarrow> job_move s J E j0 s' j1 E' \<Longrightarrow> sub_ok s' (insert j1 (J - {j0})) E'"
  using jobs_ok_move [of s J E j0 s' j1 E'] evals_ok_move [of s J E j0 s' j1 E']
    status_ok_move [of s J E j0 s' j1 E'] by (simp add: sub_ok_def)

section \<open>The tables\<close>

definition tables_ok :: "db \<Rightarrow> bool" where
  "tables_ok db \<longleftrightarrow> pk_ok ch_name (challenges db) \<and> pk_ok sub_id (submissions db) \<and> pk_ok job_id (jobs db)
     \<and> pk_ok ev_id (evaluations db) \<and> pk_ok ev_job (evaluations db) \<and> pk_ok lb_scope (leaderboard db)
     \<and> (\<forall>j \<in> set (jobs db). \<exists>s \<in> set (submissions db). sub_id s = job_submission j)
     \<and> (\<forall>e \<in> set (evaluations db). \<exists>s \<in> set (submissions db). sub_id s = ev_submission e)
     \<and> (\<forall>s \<in> set (submissions db). sub_fk db s)"

definition subs_ok :: "db \<Rightarrow> bool" where
  "subs_ok db \<longleftrightarrow> (\<forall>s \<in> set (submissions db). sub_ok s (jobs_of (sub_id s) db) (evals_of (sub_id s) db))"

text \<open>What the leaderboard depends on: scopes and visibility of submissions, completed official
  evaluations.\<close>

definition sub_core :: "submission_row \<Rightarrow> uuid \<times> challenge_name \<times> target_name \<times> uuid \<times> bool" where
  "sub_core s = (sub_id s, sub_challenge s, sub_target s, sub_agent s, sub_visible s)"

definition done_evals :: "db \<Rightarrow> evaluation_row set" where
  "done_evals db = {e \<in> set (evaluations db). official_done e}"

text \<open>A row shows a completed official result of a visible submission of its scope.\<close>

definition row_ok :: "(uuid \<times> challenge_name \<times> target_name \<times> uuid \<times> bool) set \<Rightarrow> evaluation_row set \<Rightarrow> leaderboard_row \<Rightarrow> bool" where
  "row_ok V D l \<longleftrightarrow> (lb_best l, lb_challenge l, lb_target l, lb_agent l, True) \<in> V
     \<and> (\<exists>e \<in> D. ev_submission e = lb_best l \<and> ev_aggregate_metrics e = lb_aggregate_metrics l)
     \<and> lb_official_metrics l = lb_aggregate_metrics l"

text \<open>No completed official result of the row's scope ranks before the row.\<close>

definition row_covers :: "challenge_row set \<Rightarrow> leaderboard_row \<Rightarrow> evaluation_row \<Rightarrow> bool" where
  "row_covers C l e \<longleftrightarrow> (\<forall>c \<in> C. \<forall>spec. ch_name c = lb_challenge l \<and> ch_spec c = Some spec \<longrightarrow>
     compare_rank_payloads spec (ev_aggregate_metrics e) (lb_aggregate_metrics l) \<noteq> Less)"

definition board_ok ::
  "challenge_row set \<Rightarrow> (uuid \<times> challenge_name \<times> target_name \<times> uuid \<times> bool) set \<Rightarrow> evaluation_row set \<Rightarrow> leaderboard_row set \<Rightarrow> bool" where
  "board_ok C V D L \<longleftrightarrow> (\<forall>l \<in> L. row_ok V D l)
     \<and> (\<forall>e \<in> D. \<forall>n t a v. (ev_submission e, n, t, a, v) \<in> V \<longrightarrow>
          (\<exists>l \<in> L. lb_scope l = (n, t, a) \<and> row_covers C l e))"

definition pipeline_ok :: "db \<Rightarrow> bool" where
  "pipeline_ok db \<longleftrightarrow> tables_ok db \<and> subs_ok db
     \<and> board_ok (set (challenges db)) (sub_core ` set (submissions db)) (done_evals db) (set (leaderboard db))"

section \<open>A job move in the tables\<close>

lemma set_update_single:
  assumes "r0 \<in> set tbl" "P r0" "\<And>r. r \<in> set tbl \<Longrightarrow> P r \<Longrightarrow> r = r0"
  shows "set (sql_update P f tbl) = insert (f r0) (set tbl - {r0})"
proof -
  have "(\<lambda>r. if P r then f r else r) ` set tbl = (\<lambda>r. if r = r0 then f r0 else r) ` set tbl"
    using assms(2,3) by (intro image_cong) (metis)+
  also have "\<dots> = insert (f r0) (set tbl - {r0})" using assms(1) by (auto simp: image_iff)
  finally show ?thesis by (simp add: set_sql_update)
qed

lemma jobs_of_insert:
  "set (jobs db') = insert j1 (set (jobs db) - {j0}) \<Longrightarrow> job_submission j1 = job_submission j0 \<Longrightarrow>
     jobs_of i db' = (if i = job_submission j0 then insert j1 (jobs_of i db - {j0}) else jobs_of i db)"
  unfolding jobs_of_def by (cases "i = job_submission j0") auto

lemma inj_on_jobs_of: "tables_ok db \<Longrightarrow> inj_on job_id (jobs_of i db)"
  by (auto simp: tables_ok_def pk_ok_def distinct_map jobs_of_def intro: inj_on_subset)

text \<open>\<open>db'\<close> is \<open>db\<close> with the job \<open>j0\<close>, its submission \<open>s0\<close> and the evaluations of that submission
  changed; the other tables of the pipeline are the same.\<close>

definition tables_move :: "db \<Rightarrow> submission_row \<Rightarrow> job_row \<Rightarrow> submission_row \<Rightarrow> job_row \<Rightarrow> db \<Rightarrow> bool" where
  "tables_move db s0 j0 s1 j1 db' \<longleftrightarrow>
     j0 \<in> set (jobs db) \<and> s0 \<in> set (submissions db) \<and> sub_id s0 = job_submission j0
     \<and> challenges db' = challenges db
     \<and> set (jobs db') = insert j1 (set (jobs db) - {j0}) \<and> pk_ok job_id (jobs db')
     \<and> job_submission j1 = job_submission j0
     \<and> set (submissions db') = insert s1 (set (submissions db) - {s0}) \<and> pk_ok sub_id (submissions db')
     \<and> sub_id s1 = sub_id s0 \<and> sub_challenge s1 = sub_challenge s0
     \<and> pk_ok ev_id (evaluations db') \<and> pk_ok ev_job (evaluations db')
     \<and> (\<forall>e. ev_submission e \<noteq> sub_id s0 \<longrightarrow> (e \<in> set (evaluations db') \<longleftrightarrow> e \<in> set (evaluations db)))
     \<and> pk_ok lb_scope (leaderboard db')"

lemma ex_sub_replace:
  assumes "set subs' = insert s1 (set subs - {s0})" "sub_id s1 = sub_id s0" "\<exists>s \<in> set subs. sub_id s = i"
  shows "\<exists>s \<in> set subs'. sub_id s = i"
proof -
  obtain s where s: "s \<in> set subs" "sub_id s = i" using assms(3) by blast
  show ?thesis using s assms(1,2) by (cases "s = s0") auto
qed

lemma tables_ok_move:
  assumes ok: "tables_ok db" and mv: "tables_move db s0 j0 s1 j1 db'"
  shows "tables_ok db'"
proof -
  have subs: "set (submissions db') = insert s1 (set (submissions db) - {s0})" "sub_id s1 = sub_id s0"
      "s0 \<in> set (submissions db)" "sub_challenge s1 = sub_challenge s0"
    and jobs: "set (jobs db') = insert j1 (set (jobs db) - {j0})" "job_submission j1 = job_submission j0"
      "j0 \<in> set (jobs db)"
    and evals: "\<forall>e. ev_submission e \<noteq> sub_id s0 \<longrightarrow> (e \<in> set (evaluations db') \<longleftrightarrow> e \<in> set (evaluations db))"
    and ch: "challenges db' = challenges db"
    using mv by (simp_all add: tables_move_def)
  have "\<exists>s \<in> set (submissions db'). sub_id s = job_submission j" if "j \<in> set (jobs db')" for j
  proof -
    have "\<exists>i \<in> set (jobs db). job_submission i = job_submission j" using that jobs by auto
    then show ?thesis using ex_sub_replace [OF subs(1,2)] ok unfolding tables_ok_def by metis
  qed
  moreover have "\<exists>s \<in> set (submissions db'). sub_id s = ev_submission e" if "e \<in> set (evaluations db')" for e
  proof (cases "ev_submission e = sub_id s0")
    case True
    then show ?thesis using subs(1,2) by auto
  next
    case False
    then show ?thesis using ex_sub_replace [OF subs(1,2)] evals ok that unfolding tables_ok_def by metis
  qed
  moreover have "sub_fk db' s" if "s \<in> set (submissions db')" for s
    using that subs ok ch by (auto simp: sub_fk_def tables_ok_def)
  ultimately show ?thesis using ok mv unfolding tables_ok_def tables_move_def by simp
qed

lemma subs_ok_move:
  assumes ok: "tables_ok db" "subs_ok db" and mv: "tables_move db s0 j0 s1 j1 db'"
    and move: "job_move s0 (jobs_of (sub_id s0) db) (evals_of (sub_id s0) db) j0 s1 j1 (evals_of (sub_id s0) db')"
  shows "subs_ok db'"
  unfolding subs_ok_def
proof
  fix s assume s: "s \<in> set (submissions db')"
  have subs: "set (submissions db') = insert s1 (set (submissions db) - {s0})" "sub_id s1 = sub_id s0"
      "s0 \<in> set (submissions db)" "sub_id s0 = job_submission j0"
    and jobs: "set (jobs db') = insert j1 (set (jobs db) - {j0})" "job_submission j1 = job_submission j0"
    and evals: "\<forall>e. ev_submission e \<noteq> sub_id s0 \<longrightarrow> (e \<in> set (evaluations db') \<longleftrightarrow> e \<in> set (evaluations db))"
    using mv by (simp_all add: tables_move_def)
  note jof = jobs_of_insert [OF jobs]
  show "sub_ok s (jobs_of (sub_id s) db') (evals_of (sub_id s) db')"
  proof (cases "s = s1")
    case True
    have "sub_ok s0 (jobs_of (sub_id s0) db) (evals_of (sub_id s0) db)"
      using ok(2) subs(3) by (simp add: subs_ok_def)
    from sub_ok_move [OF this move] show ?thesis using True subs jof [of "sub_id s0"] by simp
  next
    case False
    then have old: "s \<in> set (submissions db)" "s \<noteq> s0" using s subs(1) by auto
    then have "sub_id s \<noteq> sub_id s0"
      using ok(1) subs(3) by (auto simp: tables_ok_def dest: pk_ok_inj)
    moreover from this have "evals_of (sub_id s) db' = evals_of (sub_id s) db"
      using evals by (auto simp: evals_of_def)
    ultimately show ?thesis using ok(2) old(1) jof [of "sub_id s"] subs(4) by (simp add: subs_ok_def)
  qed
qed

lemma done_evals_move:
  assumes ok: "tables_ok db" "subs_ok db" and mv: "tables_move db s0 j0 s1 j1 db'"
    and move: "job_move s0 (jobs_of (sub_id s0) db) (evals_of (sub_id s0) db) j0 s1 j1 (evals_of (sub_id s0) db')"
    and open_job: "\<not> (job_status j1 = JobCompleted \<and> job_eval_type j0 = Official)"
  shows "done_evals db' = done_evals db"
proof (intro set_eqI)
  fix e
  have s0: "s0 \<in> set (submissions db)" "sub_id s0 = job_submission j0"
    and evals: "ev_submission e \<noteq> sub_id s0 \<longrightarrow> (e \<in> set (evaluations db') \<longleftrightarrow> e \<in> set (evaluations db))"
    using mv by (simp_all add: tables_move_def)
  have eok: "evals_ok s0 (jobs_of (sub_id s0) db) (evals_of (sub_id s0) db)"
    using ok(2) s0(1) by (simp add: subs_ok_def sub_ok_def)
  have j0: "j0 \<in> jobs_of (sub_id s0) db" "job_active j0" using move by (simp_all add: job_move_def)
  show "e \<in> done_evals db' \<longleftrightarrow> e \<in> done_evals db"
  proof (cases "ev_submission e = sub_id s0")
    case True
    have other: "ev_job e \<noteq> job_id j0 \<Longrightarrow> e \<in> evals_of (sub_id s0) db' \<longleftrightarrow> e \<in> evals_of (sub_id s0) db"
      using move by (simp add: job_move_def)
    have new: "\<not> official_done e" if "ev_job e = job_id j0" "e \<in> evals_of (sub_id s0) db'"
      using move open_job that by (auto simp: job_move_def official_done_def)
    have old: "\<not> official_done e" if "ev_job e = job_id j0" "e \<in> evals_of (sub_id s0) db"
      using eval_of_active [OF eok inj_on_jobs_of [OF ok(1)] j0 that(2,1)] by (simp add: official_done_def)
    show ?thesis using True other new old by (auto simp: done_evals_def evals_of_def)
  next
    case False
    then show ?thesis using evals by (simp add: done_evals_def)
  qed
qed

lemma image_replace:
  "set subs' = insert s1 (set subs - {s0}) \<Longrightarrow> s0 \<in> set subs \<Longrightarrow> f s1 = f s0 \<Longrightarrow> f ` set subs' = f ` set subs"
  by (auto simp: image_iff)

text \<open>A move that publishes nothing keeps the invariant.\<close>

lemma pipeline_ok_move:
  assumes ok: "pipeline_ok db" and mv: "tables_move db s0 j0 s1 j1 db'"
    and move: "job_move s0 (jobs_of (sub_id s0) db) (evals_of (sub_id s0) db) j0 s1 j1 (evals_of (sub_id s0) db')"
    and open_job: "\<not> (job_status j1 = JobCompleted \<and> job_eval_type j0 = Official)"
    and core: "sub_core s1 = sub_core s0" and lb: "leaderboard db' = leaderboard db"
  shows "pipeline_ok db'"
proof -
  have t: "tables_ok db" "subs_ok db" using ok by (simp_all add: pipeline_ok_def)
  have "set (submissions db') = insert s1 (set (submissions db) - {s0})" "s0 \<in> set (submissions db)"
    using mv by (simp_all add: tables_move_def)
  then have "sub_core ` set (submissions db') = sub_core ` set (submissions db)"
    using core by (rule image_replace)
  moreover have "challenges db' = challenges db" using mv by (simp add: tables_move_def)
  ultimately show ?thesis
    using ok tables_ok_move [OF t(1) mv] subs_ok_move [OF t mv move] done_evals_move [OF t mv move open_job] lb
    by (simp add: pipeline_ok_def)
qed

lemma set_update_keyed:
  assumes "pk_ok key tbl" "r0 \<in> set tbl" "key r0 = k"
  shows "set (sql_update (\<lambda>r. key r = k \<and> Q r) f tbl) = insert (if Q r0 then f r0 else r0) (set tbl - {r0})"
proof (cases "Q r0")
  case True
  show ?thesis unfolding if_P [OF True]
    by (rule set_update_single) (use assms True in \<open>auto dest: pk_ok_inj\<close>)
next
  case False
  have "\<not> sql_exists (\<lambda>r. key r = k \<and> Q r) tbl"
    using assms False by (auto dest: pk_ok_inj)
  then show ?thesis using assms(2) False by (simp add: sql_update_none insert_absorb)
qed

lemma tables_moveI:
  assumes ok: "tables_ok db"
    and j0: "j0 \<in> set (jobs db)" "Q j0" and s0: "s0 \<in> set (submissions db)" "sub_id s0 = job_submission j0"
    and jobs: "jobs db' = sql_update (\<lambda>j. job_id j = job_id j0 \<and> Q j) f (jobs db)"
      "\<And>j. job_id (f j) = job_id j" "\<And>j. job_submission (f j) = job_submission j"
    and subs: "submissions db' = sql_update (\<lambda>s. sub_id s = job_submission j0 \<and> R s) g (submissions db)"
      "\<And>s. sub_id (g s) = sub_id s" "\<And>s. sub_challenge (g s) = sub_challenge s"
    and evals: "pk_ok ev_id (evaluations db')" "pk_ok ev_job (evaluations db')"
      "\<And>e. ev_submission e \<noteq> job_submission j0 \<Longrightarrow> e \<in> set (evaluations db') \<longleftrightarrow> e \<in> set (evaluations db)"
    and same: "challenges db' = challenges db" "pk_ok lb_scope (leaderboard db')"
  shows "tables_move db s0 j0 (if R s0 then g s0 else s0) (f j0) db'"
proof -
  have pks: "pk_ok job_id (jobs db)" "pk_ok sub_id (submissions db)" using ok by (simp_all add: tables_ok_def)
  have "set (jobs db') = insert (f j0) (set (jobs db) - {j0})" "pk_ok job_id (jobs db')"
    using set_update_keyed [OF pks(1) j0(1) refl, of Q f] j0(2) pk_ok_update [OF pks(1)] jobs by simp_all
  moreover have "set (submissions db') = insert (if R s0 then g s0 else s0) (set (submissions db) - {s0})"
    "pk_ok sub_id (submissions db')"
    using set_update_keyed [OF pks(2) s0, of R g] pk_ok_update [OF pks(2)] subs by simp_all
  ultimately show ?thesis
    using j0 s0 jobs(2,3) subs(2,3) evals same unfolding tables_move_def by simp
qed

section \<open>Rows that operations write\<close>

text \<open>No operation changes what identifies a job or ties it to its submission.\<close>

definition same_job :: "(job_row \<Rightarrow> job_row) \<Rightarrow> bool" where
  "same_job f \<longleftrightarrow> (\<forall>j. job_id (f j) = job_id j \<and> job_submission (f j) = job_submission j
     \<and> job_challenge (f j) = job_challenge j \<and> job_target (f j) = job_target j
     \<and> job_eval_type (f j) = job_eval_type j \<and> job_payload (f j) = job_payload j
     \<and> job_max_attempts (f j) = job_max_attempts j \<and> job_created_at (f j) = job_created_at j)"

lemma same_jobD:
  assumes "same_job f"
  shows "job_id (f j) = job_id j" "job_submission (f j) = job_submission j"
    "job_challenge (f j) = job_challenge j" "job_target (f j) = job_target j"
    "job_eval_type (f j) = job_eval_type j" "job_payload (f j) = job_payload j"
    "job_max_attempts (f j) = job_max_attempts j" "job_created_at (f j) = job_created_at j"
  using assms by (simp_all add: same_job_def)

lemma same_job_rows:
  "same_job (claim_job_row now w)" "same_job (requeue_job_row now m)" "same_job release_job_row"
  "same_job (fail_job_row now m)" "same_job (finished_job_row now r)"
  "same_job (\<lambda>j. j\<lparr>job_claimed_at := c\<rparr>)" "same_job (\<lambda>j. j\<lparr>job_status := st, job_scheduled_at := t\<rparr>)"
  by (simp_all add: same_job_def claim_job_row_def requeue_job_row_def release_job_row_def
      fail_job_row_def finished_job_row_def)

lemmas same_job_simps [simp] = same_job_rows [THEN same_jobD(1)] same_job_rows [THEN same_jobD(2)]
  same_job_rows [THEN same_jobD(3)] same_job_rows [THEN same_jobD(4)] same_job_rows [THEN same_jobD(5)]
  same_job_rows [THEN same_jobD(6)] same_job_rows [THEN same_jobD(7)] same_job_rows [THEN same_jobD(8)]

lemma new_status [simp]:
  "job_status (claim_job_row now w j) = JobRunning" "job_status (requeue_job_row now m j) = JobQueued"
  "job_status (release_job_row j) = JobQueued" "job_status (fail_job_row now m j) = JobFailed"
  "job_status (finished_job_row now r j) = (if pr_status r = EvalCompleted then JobCompleted else JobFailed)"
  by (simp_all add: claim_job_row_def requeue_job_row_def release_job_row_def fail_job_row_def
      finished_job_row_def)

lemma job_ok_rows:
  assumes "job_ok j"
  shows "job_attempt_count j < job_max_attempts j \<Longrightarrow> job_ok (claim_job_row now w j)"
    "job_status j = JobRunning \<Longrightarrow> job_ok (requeue_job_row now m j)"
    "job_attempt_count j < job_max_attempts j \<Longrightarrow> job_ok (release_job_row j)"
    "job_ok (fail_job_row now m j)" "job_ok (finished_job_row now r j)"
    "job_ok (j\<lparr>job_claimed_at := Some c\<rparr>)"
    "job_status j = JobStaged \<Longrightarrow> job_ok (j\<lparr>job_status := JobQueued, job_scheduled_at := t\<rparr>)"
  using assms
  by (simp_all add: job_ok_def claim_job_row_def requeue_job_row_def release_job_row_def fail_job_row_def
      finished_job_row_def)

section \<open>Claims, leases and promotion\<close>

lemma move_context:
  assumes "pipeline_ok db" "j0 \<in> set (jobs db)" "s0 \<in> set (submissions db)" "sub_id s0 = job_submission j0"
  shows "j0 \<in> jobs_of (sub_id s0) db" "inj_on job_id (jobs_of (sub_id s0) db)"
    "sub_ok s0 (jobs_of (sub_id s0) db) (evals_of (sub_id s0) db)" "tables_ok db"
proof -
  show t: "tables_ok db" using assms(1) by (simp add: pipeline_ok_def)
  show "j0 \<in> jobs_of (sub_id s0) db" using assms(2,4) by (simp add: jobs_of_def)
  show "inj_on job_id (jobs_of (sub_id s0) db)" by (rule inj_on_jobs_of [OF t])
  show "sub_ok s0 (jobs_of (sub_id s0) db) (evals_of (sub_id s0) db)"
    using assms(1,3) unfolding pipeline_ok_def subs_ok_def by blast
qed

lemma sub_okD:
  "sub_ok s J E \<Longrightarrow> jobs_ok s J" "sub_ok s J E \<Longrightarrow> evals_ok s J E" "sub_ok s J E \<Longrightarrow> status_ok s J E"
  by (simp_all add: sub_ok_def)

lemma job_ok_in:
  assumes "pipeline_ok db" "j \<in> set (jobs db)"
  shows "job_ok j"
proof -
  obtain s where s: "s \<in> set (submissions db)" "sub_id s = job_submission j"
    using assms unfolding pipeline_ok_def tables_ok_def by blast
  note c = move_context [OF assms s]
  show ?thesis using jobs_okD [OF sub_okD(1) [OF c(3)] c(1)] by simp
qed

text \<open>A job that is staged or queued has no evaluation.\<close>

lemma waiting_job_no_eval:
  assumes ok: "pipeline_ok db" and j: "j \<in> set (jobs db)" "job_active j" "job_status j \<noteq> JobRunning"
    and e: "e \<in> set (evaluations db)" "ev_submission e = job_submission j"
  shows "ev_job e \<noteq> job_id j"
proof
  assume eq: "ev_job e = job_id j"
  obtain s where s: "s \<in> set (submissions db)" "sub_id s = job_submission j"
    using ok j(1) unfolding pipeline_ok_def tables_ok_def by blast
  note c = move_context [OF ok j(1) s]
  have "e \<in> evals_of (sub_id s) db" using e s(2) by (simp add: evals_of_def)
  then show False
    using eval_of_active [OF sub_okD(2) [OF c(3)] c(2,1) j(2) _ eq] j(3) by simp
qed

text \<open>Moving a waiting or running job without touching evaluations.\<close>

lemma pipeline_ok_claim:
  assumes ok: "pipeline_ok db" and c: "claim_tx env w acc locked db = Inr (res, db')"
  shows "pipeline_ok db'"
proof (cases "next_job (env_now env) (supports acc AccGpu) locked db")
  case None
  then show ?thesis using ok c by (simp add: claim_tx_def)
next
  case (Some j)
  have j: "j \<in> set (jobs db)" and q: "job_status j = JobQueued" "job_attempt_count j < job_max_attempts j"
    using sql_top_Some [OF Some [unfolded next_job_def]] by (simp_all add: claimable_def)
  show ?thesis
  proof (cases "sub_by_id (job_submission j) (submissions db)")
    case None
    then show ?thesis using ok c Some by (simp add: claim_tx_def)
  next
    case sub: (Some s)
    then have s: "s \<in> set (submissions db)" "sub_id s = job_submission j"
      using sub_tbl.lookup_Some_in by blast+
    note ctx = move_context [OF ok j s]
    let ?j = "claim_job_row (env_now env) w j"
    let ?g = "\<lambda>s. s\<lparr>sub_status := SubRunning, sub_updated_at := env_now env\<rparr>"
    let ?s = "if \<not> sub_visible s then ?g s else s"
    have db': "db' = mark_submission_running (env_now env) (job_submission j)
        (db\<lparr>jobs := sql_update (\<lambda>r. job_id r = job_id j) (claim_job_row (env_now env) w) (jobs db)\<rparr>)"
      using c Some sub by (simp add: claim_tx_def result_simps) blast
    have tabs: "evaluations db' = evaluations db" "challenges db' = challenges db" "leaderboard db' = leaderboard db"
      by (simp_all add: db' mark_submission_running_def)
    have mv: "tables_move db s j ?s ?j db'"
      by (rule tables_moveI [where Q = "\<lambda>_. True" and R = "\<lambda>s. \<not> sub_visible s" and g = ?g])
        (use ctx(4) j s in \<open>simp_all add: db' mark_submission_running_def tables_ok_def\<close>)
    have no_eval: "ev_job e \<noteq> job_id j" if "e \<in> evals_of (sub_id s) db" for e
      using waiting_job_no_eval [OF ok j] q that s(2) by (simp add: evals_of_def)
    have "job_ok ?j" by (rule job_ok_rows(1) [OF job_ok_in [OF ok j] q(2)])
    moreover have "sub_visible s \<longrightarrow> sub_status s = SubCompleted"
      using ctx(3) by (simp add: sub_ok_def status_ok_def)
    ultimately have "job_move s (jobs_of (sub_id s) db) (evals_of (sub_id s) db) j ?s ?j (evals_of (sub_id s) db')"
      using ctx(1,2) q no_eval tabs(1) by (simp add: job_move_def evals_of_def)
    then show ?thesis
      by (rule pipeline_ok_move [OF ok mv]) (simp_all add: sub_core_def tabs)
  qed
qed

text \<open>An evaluation belongs to the submission of its job, with the job's mode and target.\<close>

lemma eval_of_job:
  assumes ok: "pipeline_ok db" and j: "j \<in> set (jobs db)" and e: "e \<in> set (evaluations db)" "ev_job e = job_id j"
  shows "ev_submission e = job_submission j" "ev_eval_type e = job_eval_type j" "ev_target e = job_target j"
    "eval_matches (ev_status e) (job_status j)"
proof -
  have t: "tables_ok db" "subs_ok db" using ok by (simp_all add: pipeline_ok_def)
  obtain s where s: "s \<in> set (submissions db)" "sub_id s = ev_submission e"
    using t(1) e(1) unfolding tables_ok_def by blast
  then have sok: "sub_ok s (jobs_of (sub_id s) db) (evals_of (sub_id s) db)"
    using t(2) unfolding subs_ok_def by blast
  have "e \<in> evals_of (sub_id s) db" using e s by (simp add: evals_of_def)
  then obtain i where i: "i \<in> jobs_of (sub_id s) db" "job_id i = ev_job e" "ev_eval_type e = job_eval_type i"
      "ev_target e = sub_target s" "eval_matches (ev_status e) (job_status i)"
    using sub_okD(2) [OF sok] unfolding evals_ok_def by blast
  have "i = j"
    using t(1) i(1,2) j e(2) by (auto simp: tables_ok_def jobs_of_def dest: pk_ok_inj)
  then show "ev_submission e = job_submission j" "ev_eval_type e = job_eval_type j" "ev_target e = job_target j"
    "eval_matches (ev_status e) (job_status j)"
    using i s jobs_okD [OF sub_okD(1) [OF sok] i(1)] by (simp_all add: jobs_of_def)
qed

end
