(* ===== verification/Lifecycle_Steps.thy ===== *)
theory Lifecycle_Steps
  imports Lifecycle_Invariants
begin

text \<open>
  Every database operation of the pipeline keeps \<open>pipeline_ok\<close>: leases, capacity requeues,
  promotion, start and finish of evaluations, the reaper, creation, clean-up and official re-runs.
\<close>

section \<open>One job at a time\<close>

lemma step_moves:
  assumes ok: "pipeline_ok db"
    and j: "j \<in> set (jobs db)" "job_active j" "Q j" and s: "s \<in> set (submissions db)" "sub_id s = job_submission j"
    and f: "same_job f" "job_ok (f j)" "job_status (f j) \<noteq> JobStaged"
    and jobs: "jobs db' = sql_update (\<lambda>r. job_id r = job_id j \<and> Q r) f (jobs db)"
    and subs: "submissions db' = sql_update (\<lambda>r. sub_id r = job_submission j \<and> R r) g (submissions db)"
      "\<And>r. sub_id (g r) = sub_id r" "\<And>r. sub_challenge (g r) = sub_challenge r" "\<And>r. sub_target (g r) = sub_target r"
    and row: "row = (if R s then g s else s)"
      "sub_visible row \<longleftrightarrow> sub_visible s \<or> (job_status (f j) = JobCompleted \<and> job_eval_type j = Official)"
      "sub_visible row \<longrightarrow> sub_status row = SubCompleted"
      "\<not> sub_visible row \<longrightarrow> sub_status row = mirror_status (job_status (f j))"
    and evals: "pk_ok ev_id (evaluations db')" "pk_ok ev_job (evaluations db')"
      "\<And>e. ev_job e \<noteq> job_id j \<Longrightarrow> e \<in> set (evaluations db') \<longleftrightarrow> e \<in> set (evaluations db)"
    and own: "\<And>e. e \<in> set (evaluations db') \<Longrightarrow> ev_job e = job_id j \<Longrightarrow> ev_submission e = job_submission j
        \<and> ev_eval_type e = job_eval_type j \<and> ev_target e = job_target j \<and> eval_matches (ev_status e) (job_status (f j))
        \<and> (ev_status e = EvalCompleted \<longrightarrow> finite_payload (ev_aggregate_metrics e))"
    and fin: "job_status (f j) = JobCompleted \<Longrightarrow> \<exists>e \<in> set (evaluations db'). ev_job e = job_id j"
    and same: "challenges db' = challenges db" "pk_ok lb_scope (leaderboard db')"
  shows "tables_move db s j row (f j) db'"
    "job_move s (jobs_of (sub_id s) db) (evals_of (sub_id s) db) j row (f j) (evals_of (sub_id s) db')"
proof -
  note ctx = move_context [OF ok j(1) s]
  have target: "job_target j = sub_target s" "job_challenge j = sub_challenge s"
    using jobs_okD [OF sub_okD(1) [OF ctx(3)] ctx(1)] by simp_all
  have other: "e \<in> set (evaluations db') \<longleftrightarrow> e \<in> set (evaluations db)" if "ev_submission e \<noteq> job_submission j" for e
  proof (cases "ev_job e = job_id j")
    case True
    then have "e \<notin> set (evaluations db')" using own that by metis
    moreover have "e \<notin> set (evaluations db)" using eval_of_job(1) [OF ok j(1) _ True] that by metis
    ultimately show ?thesis by simp
  qed (rule evals(3))
  show "tables_move db s j row (f j) db'"
    unfolding row(1)
    by (rule tables_moveI [OF ctx(4) j(1,3) s jobs _ _ subs(1-3) evals(1,2) other same])
      (simp_all add: same_jobD [OF f(1)])
  have own': "ev_eval_type e = job_eval_type j \<and> ev_target e = sub_target s \<and> eval_matches (ev_status e) (job_status (f j))
      \<and> (ev_status e = EvalCompleted \<longrightarrow> finite_payload (ev_aggregate_metrics e))"
    if "e \<in> evals_of (sub_id s) db'" "ev_job e = job_id j" for e
    using own that target by (simp add: evals_of_def)
  have fin': "job_status (f j) = JobCompleted \<longrightarrow> (\<exists>e \<in> evals_of (sub_id s) db'. ev_job e = job_id j)"
  proof
    assume "job_status (f j) = JobCompleted"
    then obtain e where e: "e \<in> set (evaluations db')" "ev_job e = job_id j" using fin by blast
    then have "e \<in> evals_of (sub_id s) db'" using own s(2) by (simp add: evals_of_def)
    with e show "\<exists>e \<in> evals_of (sub_id s) db'. ev_job e = job_id j" by blast
  qed
  have row_fields: "sub_challenge row = sub_challenge s" "sub_target row = sub_target s"
    using subs(3,4) row(1) by simp_all
  have others': "e \<in> evals_of (sub_id s) db' \<longleftrightarrow> e \<in> evals_of (sub_id s) db" if "ev_job e \<noteq> job_id j" for e
    using evals(3) that by (simp add: evals_of_def)
  show "job_move s (jobs_of (sub_id s) db) (evals_of (sub_id s) db) j row (f j) (evals_of (sub_id s) db')"
    unfolding job_move_def
    by (intro conjI allI ballI impI)
      (use ctx(1,2) j(2) f(2,3) row(2-4) row_fields others' own' fin' in \<open>simp_all add: same_jobD [OF f(1)]\<close>)
qed

text \<open>A step that publishes nothing: the submission keeps its visibility.\<close>

lemma pipeline_ok_step:
  assumes ok: "pipeline_ok db"
    and j: "j \<in> set (jobs db)" "job_active j" "Q j" and s: "s \<in> set (submissions db)" "sub_id s = job_submission j"
    and f: "same_job f" "job_ok (f j)" "job_status (f j) \<noteq> JobStaged"
      "job_status (f j) = JobCompleted \<longrightarrow> job_eval_type j = Validation"
    and jobs: "jobs db' = sql_update (\<lambda>r. job_id r = job_id j \<and> Q r) f (jobs db)"
    and subs: "submissions db' = sql_update (\<lambda>r. sub_id r = job_submission j \<and> R r) g (submissions db)"
      "\<And>r. sub_id (g r) = sub_id r \<and> sub_challenge (g r) = sub_challenge r \<and> sub_target (g r) = sub_target r \<and> sub_agent (g r) = sub_agent r"
      "R s \<longrightarrow> sub_visible (g s) = sub_visible s"
      "sub_visible s \<longrightarrow> sub_status (if R s then g s else s) = SubCompleted"
      "\<not> sub_visible s \<longrightarrow> sub_status (if R s then g s else s) = mirror_status (job_status (f j))"
    and evals: "pk_ok ev_id (evaluations db')" "pk_ok ev_job (evaluations db')"
      "\<And>e. ev_job e \<noteq> job_id j \<Longrightarrow> e \<in> set (evaluations db') \<longleftrightarrow> e \<in> set (evaluations db)"
    and own: "\<And>e. e \<in> set (evaluations db') \<Longrightarrow> ev_job e = job_id j \<Longrightarrow> ev_submission e = job_submission j
        \<and> ev_eval_type e = job_eval_type j \<and> ev_target e = job_target j \<and> eval_matches (ev_status e) (job_status (f j))
        \<and> (ev_status e = EvalCompleted \<longrightarrow> finite_payload (ev_aggregate_metrics e))"
    and fin: "job_status (f j) = JobCompleted \<Longrightarrow> \<exists>e \<in> set (evaluations db'). ev_job e = job_id j"
    and same: "challenges db' = challenges db" "leaderboard db' = leaderboard db"
  shows "pipeline_ok db'"
proof -
  have lb: "pk_ok lb_scope (leaderboard db')" using ok same(2) by (simp add: pipeline_ok_def tables_ok_def)
  have vis: "sub_visible (if R s then g s else s) \<longleftrightarrow> sub_visible s" using subs(3) by simp
  have quiet: "\<not> (job_status (f j) = JobCompleted \<and> job_eval_type j = Official)" using f(4) by auto
  have v: "sub_visible (if R s then g s else s) \<longleftrightarrow> sub_visible s \<or> (job_status (f j) = JobCompleted \<and> job_eval_type j = Official)"
    "sub_visible (if R s then g s else s) \<longrightarrow> sub_status (if R s then g s else s) = SubCompleted"
    "\<not> sub_visible (if R s then g s else s) \<longrightarrow> sub_status (if R s then g s else s) = mirror_status (job_status (f j))"
    using vis quiet subs(4,5) by blast+
  have g: "\<And>r. sub_id (g r) = sub_id r" "\<And>r. sub_challenge (g r) = sub_challenge r" "\<And>r. sub_target (g r) = sub_target r"
    using subs(2) by simp_all
  note moves = step_moves [OF ok j s f(1-3) jobs subs(1) g refl v evals own fin same(1) lb]
  show ?thesis
    by (rule pipeline_ok_move [OF ok moves]) (use quiet vis subs(2) same in \<open>simp_all add: sub_core_def same_jobD [OF f(1)]\<close>)
qed

lemma active_eval:
  assumes "pipeline_ok db" "j \<in> set (jobs db)" "job_active j" "e \<in> set (evaluations db)" "ev_job e = job_id j"
  shows "ev_status e = EvalRunning \<and> ev_submission e = job_submission j \<and> ev_eval_type e = job_eval_type j
    \<and> ev_target e = job_target j"
  using eval_of_job [OF assms(1,2,4,5)] eval_matches_active [of _ j] assms(3) by simp

lemma sql_update_trivial [simp]:
  "sql_update (\<lambda>r. False) f tbl = tbl" "sql_update P (\<lambda>r. r) tbl = tbl"
  by (simp_all add: sql_update_def)

lemma sub_status_of:
  assumes "pipeline_ok db" "j \<in> set (jobs db)" "job_active j" "s \<in> set (submissions db)" "sub_id s = job_submission j"
  shows "sub_visible s \<Longrightarrow> sub_status s = SubCompleted \<and> job_eval_type j = Official"
    "\<not> sub_visible s \<Longrightarrow> sub_status s = mirror_status (job_status j)"
proof -
  note c = move_context [OF assms(1,2,4,5)]
  note st = sub_okD(3) [OF c(3)]
  show "sub_visible s \<Longrightarrow> sub_status s = SubCompleted \<and> job_eval_type j = Official"
    "\<not> sub_visible s \<Longrightarrow> sub_status s = mirror_status (job_status j)"
    using st c(1) assms(3) unfolding status_ok_def by simp_all
qed

lemma sub_of_job:
  assumes "pipeline_ok db" "j \<in> set (jobs db)"
  obtains s where "s \<in> set (submissions db)" "sub_id s = job_submission j"
  using assms unfolding pipeline_ok_def tables_ok_def by blast

lemma pipeline_pks:
  assumes "pipeline_ok db"
  shows "pk_ok ev_id (evaluations db)" "pk_ok ev_job (evaluations db)" "pk_ok lb_scope (leaderboard db)"
    "pk_ok sub_id (submissions db)" "pk_ok job_id (jobs db)"
  using assms by (simp_all add: pipeline_ok_def tables_ok_def)

lemma delete_running_frame [simp]:
  "submissions (delete_running_evaluation_for_job i db) = submissions db"
  "jobs (delete_running_evaluation_for_job i db) = jobs db"
  "challenges (delete_running_evaluation_for_job i db) = challenges db"
  "leaderboard (delete_running_evaluation_for_job i db) = leaderboard db"
  by (simp_all add: delete_running_evaluation_for_job_def)

section \<open>Leases\<close>

lemma owns_claim_D:
  "owns_claim jid w a j \<Longrightarrow> job_id j = jid \<and> job_status j = JobRunning \<and> job_active j"
  by (simp add: owns_claim_def)

lemma owns_claim_eq:
  "owns_claim jid w a = (\<lambda>j. job_id j = jid \<and> job_worker_id j = Some w \<and> job_attempt_count j = a \<and> job_status j = JobRunning)"
  by (rule ext) (simp add: owns_claim_def)

lemma pipeline_ok_refresh:
  assumes ok: "pipeline_ok db"
  shows "pipeline_ok (snd (refresh_evaluation_job_claim now jid w a db))"
proof (cases "sql_exists (owns_claim jid w a) (jobs db)")
  case False
  then show ?thesis using ok by (simp add: refresh_evaluation_job_claim_def sql_update_none)
next
  case True
  then obtain j where j: "j \<in> set (jobs db)" "owns_claim jid w a j" by auto
  note d = owns_claim_D [OF j(2)]
  obtain s where s: "s \<in> set (submissions db)" "sub_id s = job_submission j" by (rule sub_of_job [OF ok j(1)])
  show ?thesis
  proof (rule pipeline_ok_step [where j = j and s = s and Q = "owns_claim jid w a" and f = "\<lambda>j. j\<lparr>job_claimed_at := Some now\<rparr>"
          and R = "\<lambda>_. False" and g = "\<lambda>r. r", OF ok j(1) _ j(2) s same_job_rows(6) job_ok_rows(6) [OF job_ok_in [OF ok j(1)]]])
    show "sub_visible s \<longrightarrow> sub_status (if False then s else s) = SubCompleted"
      "\<not> sub_visible s \<longrightarrow> sub_status (if False then s else s) = mirror_status (job_status (j\<lparr>job_claimed_at := Some now\<rparr>))"
      using sub_status_of [OF ok j(1) _ s] d by simp_all
    fix e assume "e \<in> set (evaluations (snd (refresh_evaluation_job_claim now jid w a db)))" "ev_job e = job_id j"
    then show "ev_submission e = job_submission j \<and> ev_eval_type e = job_eval_type j \<and> ev_target e = job_target j
        \<and> eval_matches (ev_status e) (job_status (j\<lparr>job_claimed_at := Some now\<rparr>))
        \<and> (ev_status e = EvalCompleted \<longrightarrow> finite_payload (ev_aggregate_metrics e))"
      using active_eval [OF ok j(1), of e] d by (simp add: refresh_evaluation_job_claim_def)
  qed (simp_all add: d refresh_evaluation_job_claim_def pipeline_pks [OF ok] owns_claim_eq)
qed

lemma eval_matches_waiting: "eval_matches st JobStaged = False" "eval_matches st JobQueued = False"
  by (cases st; simp)+

text \<open>What a kept evaluation of the moved job satisfies; \<open>kept_eval\<close> discharges the premise of
  \<open>pipeline_ok_step\<close> on evaluations.\<close>

lemma kept_eval:
  assumes "pipeline_ok db" "j \<in> set (jobs db)" "job_active j" "e \<in> set (evaluations db)" "ev_job e = job_id j"
  shows "ev_submission e = job_submission j \<and> ev_eval_type e = job_eval_type j \<and> ev_target e = job_target j
    \<and> eval_matches (ev_status e) JobRunning \<and> ev_status e = EvalRunning"
    and "job_status j \<noteq> JobRunning \<Longrightarrow> False"
  using active_eval [OF assms] eval_of_job(4) [OF assms(1,2,4,5)] by simp_all

lemma pipeline_ok_ready:
  assumes ok: "pipeline_ok db" and r: "mark_evaluation_job_ready now jid db = Inr (u, db')"
  shows "pipeline_ok db'"
proof -
  let ?Q = "\<lambda>j. job_id j = jid \<and> job_status j = JobStaged"
  let ?f = "\<lambda>j. j\<lparr>job_status := JobQueued, job_scheduled_at := now\<rparr>"
  let ?g = "\<lambda>s. s\<lparr>sub_status := SubQueued, sub_updated_at := now\<rparr>"
  obtain j where first: "sql_first ?Q (jobs db) = Some j"
    using r by (cases "sql_first ?Q (jobs db)") (simp_all add: mark_evaluation_job_ready_def)
  then have j: "j \<in> set (jobs db)" "job_id j = jid" "job_status j = JobStaged" "job_active j"
    using sql_first_Some [OF first] by simp_all
  have db': "db' = db\<lparr>jobs := sql_update ?Q ?f (jobs db),
      submissions := sql_update (\<lambda>s. sub_id s = job_submission j \<and> sub_status s = SubPending) ?g (submissions db)\<rparr>"
    using r first by (simp add: mark_evaluation_job_ready_def)
  obtain s where s: "s \<in> set (submissions db)" "sub_id s = job_submission j" by (rule sub_of_job [OF ok j(1)])
  note st = sub_status_of [OF ok j(1,4) s]
  show ?thesis
  proof (rule pipeline_ok_step [where j = j and s = s and Q = "\<lambda>j. job_status j = JobStaged" and f = ?f
        and R = "\<lambda>s. sub_status s = SubPending" and g = ?g,
        OF ok j(1,4,3) s same_job_rows(7) job_ok_rows(7) [OF job_ok_in [OF ok j(1)] j(3)]])
    show "sub_visible s \<longrightarrow> sub_status (if sub_status s = SubPending then ?g s else s) = SubCompleted"
      "\<not> sub_visible s \<longrightarrow> sub_status (if sub_status s = SubPending then ?g s else s) = mirror_status (job_status (?f j))"
      using st j(3) by simp_all
    fix e assume "e \<in> set (evaluations db')" "ev_job e = job_id j"
    then have False using kept_eval(2) [OF ok j(1,4), of e] j(3) by (simp add: db')
    then show "ev_submission e = job_submission j \<and> ev_eval_type e = job_eval_type j \<and> ev_target e = job_target j
        \<and> eval_matches (ev_status e) (job_status (?f j)) \<and> (ev_status e = EvalCompleted \<longrightarrow> finite_payload (ev_aggregate_metrics e))" ..
  qed (use j in \<open>simp_all add: db' pipeline_pks [OF ok]\<close>)
qed

lemma pipeline_ok_requeue_capacity:
  assumes ok: "pipeline_ok db" and r: "requeue_running_evaluation_job_for_capacity now jid w a msg db = Inr (b, db')"
  shows "pipeline_ok db'"
proof (cases "sql_first (owns_claim jid w a) (jobs db)")
  case None
  then have "\<not> sql_exists (owns_claim jid w a) (jobs db)" by simp
  then show ?thesis
    using ok r None by (simp add: requeue_running_evaluation_job_for_capacity_def
        requeue_claimed_job_for_capacity_def sql_update_none)
next
  case (Some j)
  then have j: "j \<in> set (jobs db)" "owns_claim jid w a j" using sql_first_Some [OF Some] by simp_all
  note d = owns_claim_D [OF j(2)]
  obtain s where s: "s \<in> set (submissions db)" "sub_id s = job_submission j" by (rule sub_of_job [OF ok j(1)])
  have lookup: "sub_by_id (job_submission j) (submissions db) = Some s"
    using s sub_tbl.lookup_in [OF pipeline_pks(4) [OF ok] s(1)] by simp
  let ?f = "requeue_job_row now msg"
  let ?g = "\<lambda>s. s\<lparr>sub_status := SubQueued, sub_visible := False, sub_updated_at := now\<rparr>"
  let ?db = "delete_running_evaluation_for_job jid (db\<lparr>jobs := sql_update (owns_claim jid w a) ?f (jobs db)\<rparr>)"
  have eq: "(if \<not> sub_visible s then set_submission_status now (job_submission j) SubQueued False ?db else ?db) = db'"
    using r Some lookup
    by (simp add: requeue_running_evaluation_job_for_capacity_def requeue_claimed_job_for_capacity_def
        repair_submission_after_capacity_requeue_def)
  have db': "jobs db' = sql_update (owns_claim jid w a) ?f (jobs db)"
    "submissions db' = sql_update (\<lambda>r. sub_id r = job_submission j \<and> \<not> sub_visible s) ?g (submissions db)"
    "evaluations db' = sql_delete (\<lambda>e. ev_job e = jid \<and> ev_status e = EvalRunning) (evaluations db)"
    "challenges db' = challenges db" "leaderboard db' = leaderboard db"
    by (simp_all add: eq [symmetric] delete_running_evaluation_for_job_def set_submission_status_def)
  show ?thesis
  proof (rule pipeline_ok_step [where j = j and s = s and Q = "owns_claim jid w a" and f = ?f
        and R = "\<lambda>_. \<not> sub_visible s" and g = ?g, OF ok j(1) _ j(2) s same_job_rows(2) job_ok_rows(2) [OF job_ok_in [OF ok j(1)]]])
    show "sub_visible s \<longrightarrow> sub_status (if \<not> sub_visible s then ?g s else s) = SubCompleted"
      "\<not> sub_visible s \<longrightarrow> sub_status (if \<not> sub_visible s then ?g s else s) = mirror_status (job_status (?f j))"
      using sub_status_of(1) [OF ok j(1) _ s] d by simp_all
    fix e assume "e \<in> set (evaluations db')" "ev_job e = job_id j"
    then show "ev_submission e = job_submission j \<and> ev_eval_type e = job_eval_type j \<and> ev_target e = job_target j
        \<and> eval_matches (ev_status e) (job_status (?f j)) \<and> (ev_status e = EvalCompleted \<longrightarrow> finite_payload (ev_aggregate_metrics e))"
      using kept_eval(1) [OF ok j(1), of e] d by (simp add: db')
  qed (simp_all add: d db' pipeline_pks [OF ok] pk_ok_delete owns_claim_eq)
qed

section \<open>Start and finish\<close>

lemma same_job_id: "same_job (\<lambda>j. j)"
  by (simp add: same_job_def)

lemma new_evaluation_fields [simp]:
  "ev_submission (new_evaluation now i j) = job_submission j" "ev_job (new_evaluation now i j) = job_id j"
  "ev_target (new_evaluation now i j) = job_target j" "ev_eval_type (new_evaluation now i j) = job_eval_type j"
  "ev_status (new_evaluation now i j) = EvalRunning" "ev_id (new_evaluation now i j) = i"
  by (simp_all add: new_evaluation_def)

lemma pipeline_ok_started:
  assumes ok: "pipeline_ok db" and r: "mark_evaluation_started now inp db = Inr (b, db')"
  shows "pipeline_ok db'"
proof (cases "db' = db")
  case False
  then obtain j where first: "sql_first (started_job_matches inp) (jobs db) = Some j"
    using r by (cases "sql_first (started_job_matches inp) (jobs db)") (simp_all add: mark_evaluation_started_def)
  have j: "j \<in> set (jobs db)" "job_status j = JobRunning" "job_active j"
    using sql_first_Some [OF first] by (simp_all add: started_job_matches_def)
  have fresh: "\<forall>e \<in> set (evaluations db). ev_job e \<noteq> job_id j"
    "\<forall>e \<in> set (evaluations db). ev_id e \<noteq> si_evaluation_id inp"
    and db': "db' = db\<lparr>evaluations := sql_insert (new_evaluation now (si_evaluation_id inp) j) (evaluations db)\<rparr>"
    using r first False by (auto simp: mark_evaluation_started_def split: if_splits)
  obtain s where s: "s \<in> set (submissions db)" "sub_id s = job_submission j" by (rule sub_of_job [OF ok j(1)])
  show ?thesis
  proof (rule pipeline_ok_step [where j = j and s = s and Q = "\<lambda>_. True" and f = "\<lambda>j. j" and R = "\<lambda>_. False"
        and g = "\<lambda>r. r", OF ok j(1,3) _ s same_job_id job_ok_in [OF ok j(1)]])
    show "sub_visible s \<longrightarrow> sub_status (if False then s else s) = SubCompleted"
      "\<not> sub_visible s \<longrightarrow> sub_status (if False then s else s) = mirror_status (job_status j)"
      using sub_status_of [OF ok j(1,3) s] by simp_all
    show "pk_ok ev_id (evaluations db')" "pk_ok ev_job (evaluations db')"
      using fresh pipeline_pks [OF ok] by (simp_all add: db' pk_ok_insert)
    fix e assume "e \<in> set (evaluations db')" "ev_job e = job_id j"
    then have "e = new_evaluation now (si_evaluation_id inp) j" using fresh by (simp add: db') metis
    then show "ev_submission e = job_submission j \<and> ev_eval_type e = job_eval_type j \<and> ev_target e = job_target j
        \<and> eval_matches (ev_status e) (job_status j) \<and> (ev_status e = EvalCompleted \<longrightarrow> finite_payload (ev_aggregate_metrics e))"
      using j(2) by simp
  next
    fix e :: evaluation_row assume "ev_job e \<noteq> job_id j"
    then show "e \<in> set (evaluations db') \<longleftrightarrow> e \<in> set (evaluations db)" by (auto simp: db')
  qed (simp_all add: j(2) db')
qed (use ok in simp)

text \<open>A worker's result is for the job it claimed, and a completed one has finite metrics.\<close>

definition result_matches :: "persisted_evaluation_result \<Rightarrow> db \<Rightarrow> bool" where
  "result_matches r db \<longleftrightarrow>
     (\<forall>j \<in> set (jobs db). job_id j = pr_job_id r \<longrightarrow>
        job_submission j = pr_submission r \<and> job_target j = pr_target r \<and> job_eval_type j = pr_eval_type r)
     \<and> (pr_status r = EvalCompleted \<longrightarrow> finite_payload (pr_aggregate_metrics r))"

lemma finished_evaluation_fields [simp]:
  "ev_submission (finished_evaluation_row now r e) = ev_submission e" "ev_job (finished_evaluation_row now r e) = ev_job e"
  "ev_target (finished_evaluation_row now r e) = ev_target e" "ev_eval_type (finished_evaluation_row now r e) = ev_eval_type e"
  "ev_id (finished_evaluation_row now r e) = ev_id e"
  "ev_status (finished_evaluation_row now r e) = (if pr_status r = EvalCompleted then EvalCompleted else EvalFailed)"
  "ev_aggregate_metrics (finished_evaluation_row now r e) = pr_aggregate_metrics r"
  by (simp_all add: finished_evaluation_row_def)

text \<open>The tables after the job and its evaluation are finished, before the submission is.\<close>

definition finished_tables :: "timestamp \<Rightarrow> persisted_evaluation_result \<Rightarrow> db \<Rightarrow> db" where
  "finished_tables now r db =
     db\<lparr>jobs := sql_update (owns_claim (pr_job_id r) (pr_worker_id r) (pr_claim_attempt_count r))
           (finished_job_row now r) (jobs db),
        evaluations := sql_update (\<lambda>e. ev_job e = pr_job_id r \<and> ev_status e = EvalRunning)
           (finished_evaluation_row now r) (evaluations db)\<rparr>"

lemma mark_evaluation_finished_cases:
  assumes "mark_evaluation_finished now r db = Inr (b, db')"
  obtains (fenced) "db' = db" "b = False"
  | (finished) j e where "j \<in> set (jobs db)" "owns_claim (pr_job_id r) (pr_worker_id r) (pr_claim_attempt_count r) j"
      "e \<in> set (evaluations db)" "ev_job e = job_id j" "ev_status e = EvalRunning"
      "(case pr_eval_type r of
          Validation \<Rightarrow> apply_validation_result now r (has_completed_official_evaluation_tx r (finished_tables now r db)) (finished_tables now r db)
        | Official \<Rightarrow> apply_official_result now r (has_completed_official_evaluation_tx r (finished_tables now r db)) (finished_tables now r db))
        = Inr (b, db')"
proof -
  let ?mine = "owns_claim (pr_job_id r) (pr_worker_id r) (pr_claim_attempt_count r)"
  let ?run = "\<lambda>e. ev_job e = pr_job_id r \<and> ev_status e = EvalRunning"
  show thesis
  proof (cases "sql_count ?mine (jobs db) = 0")
    case True
    then have "\<not> sql_exists ?mine (jobs db)" by (auto simp: sql_count_def filter_empty_conv)
    then show thesis using assms True fenced by (simp add: mark_evaluation_finished_def sql_update_none)
  next
    case False
    then obtain j where j: "j \<in> set (jobs db)" "?mine j" by (auto simp: sql_count_def filter_empty_conv)
    have one: "sql_count ?run (evaluations db) = 1"
      using assms False by (simp add: mark_evaluation_finished_def Let_def split: if_splits)
    then have "filter ?run (evaluations db) \<noteq> []" by (auto simp: sql_count_def)
    then obtain e where e: "e \<in> set (evaluations db)" "?run e" by (auto simp: filter_empty_conv)
    show thesis
      by (rule finished [OF j e(1)])
        (use assms False one e(2) owns_claim_D [OF j(2)] in \<open>simp_all add: mark_evaluation_finished_def finished_tables_def Let_def split: scoring_mode.splits\<close>)
  qed
qed

lemma finished_tables_evals:
  assumes ok: "pipeline_ok db" and m: "result_matches r db"
    and j: "j \<in> set (jobs db)" "owns_claim (pr_job_id r) (pr_worker_id r) (pr_claim_attempt_count r) j"
  shows "pk_ok ev_id (evaluations (finished_tables now r db))" "pk_ok ev_job (evaluations (finished_tables now r db))"
    "ev_job e \<noteq> job_id j \<Longrightarrow> e \<in> set (evaluations (finished_tables now r db)) \<longleftrightarrow> e \<in> set (evaluations db)"
    "e \<in> set (evaluations (finished_tables now r db)) \<Longrightarrow> ev_job e = job_id j \<Longrightarrow>
      ev_submission e = job_submission j \<and> ev_eval_type e = job_eval_type j \<and> ev_target e = job_target j
      \<and> ev_status e = (if pr_status r = EvalCompleted then EvalCompleted else EvalFailed)
      \<and> ev_aggregate_metrics e = pr_aggregate_metrics r"
proof -
  note d = owns_claim_D [OF j(2)]
  show "pk_ok ev_id (evaluations (finished_tables now r db))" "pk_ok ev_job (evaluations (finished_tables now r db))"
    using pipeline_pks [OF ok] by (simp_all add: finished_tables_def pk_ok_update)
  show "ev_job e \<noteq> job_id j \<Longrightarrow> e \<in> set (evaluations (finished_tables now r db)) \<longleftrightarrow> e \<in> set (evaluations db)"
    using d by (auto simp: finished_tables_def in_sql_update)
  assume e: "e \<in> set (evaluations (finished_tables now r db))" "ev_job e = job_id j"
  show "ev_submission e = job_submission j \<and> ev_eval_type e = job_eval_type j \<and> ev_target e = job_target j
      \<and> ev_status e = (if pr_status r = EvalCompleted then EvalCompleted else EvalFailed)
      \<and> ev_aggregate_metrics e = pr_aggregate_metrics r"
  proof (cases "\<exists>q \<in> set (evaluations db). ev_job q = pr_job_id r \<and> e = finished_evaluation_row now r q")
    case True
    then obtain q where q: "q \<in> set (evaluations db)" "ev_job q = pr_job_id r" "e = finished_evaluation_row now r q" by blast
    then show ?thesis using kept_eval(1) [OF ok j(1) _ q(1)] d by simp
  next
    case False
    then have "e \<in> set (evaluations db)" "ev_status e \<noteq> EvalRunning"
      using e d by (auto simp: finished_tables_def in_sql_update)
    then show ?thesis using kept_eval(1) [OF ok j(1) _ _ e(2)] d by simp
  qed
qed

lemma has_previous_iff:
  assumes ok: "pipeline_ok db" and m: "result_matches r db"
    and j: "j \<in> set (jobs db)" "owns_claim (pr_job_id r) (pr_worker_id r) (pr_claim_attempt_count r) j"
    and s: "s \<in> set (submissions db)" "sub_id s = job_submission j"
  shows "has_completed_official_evaluation_tx r (finished_tables now r db) \<longleftrightarrow> sub_visible s"
proof -
  note d = owns_claim_D [OF j(2)] and ctx = move_context [OF ok j(1) s]
  note other = finished_tables_evals(3) [OF ok m j, of _ now]
  have r: "pr_submission r = job_submission j" "pr_target r = job_target j"
    using m j(1) d by (simp_all add: result_matches_def)
  have target: "job_target j = sub_target s"
    using jobs_okD [OF sub_okD(1) [OF ctx(3)] ctx(1)] by simp
  have tgt: "ev_target e = sub_target s" if "e \<in> evals_of (sub_id s) db" for e
    using sub_okD(2) [OF ctx(3)] that unfolding evals_ok_def by blast
  have not_own: "ev_job e \<noteq> job_id j" if "e \<in> evals_of (sub_id s) db" "official_done e" for e
    using eval_of_active [OF sub_okD(2) [OF ctx(3)] ctx(2,1) _ that(1)] d that(2) by (auto simp: official_done_def)
  have "has_completed_official_evaluation_tx r (finished_tables now r db) \<longleftrightarrow>
      (\<exists>e \<in> evals_of (sub_id s) db. official_done e)"
  proof
    assume "has_completed_official_evaluation_tx r (finished_tables now r db)"
    then obtain e where "e \<in> set (evaluations (finished_tables now r db))" "ev_submission e = pr_submission r"
        "official_done e" "ev_job e \<noteq> pr_job_id r"
      by (auto simp: has_completed_official_evaluation_tx_def official_done_def)
    then have "e \<in> evals_of (sub_id s) db" "official_done e"
      using other [of e] d r s(2) by (simp_all add: evals_of_def)
    then show "\<exists>e \<in> evals_of (sub_id s) db. official_done e" by blast
  next
    assume "\<exists>e \<in> evals_of (sub_id s) db. official_done e"
    then obtain e where e: "e \<in> evals_of (sub_id s) db" "official_done e" by blast
    then have "e \<in> set (evaluations (finished_tables now r db))"
      using other [of e] not_own by (simp add: evals_of_def)
    then show "has_completed_official_evaluation_tx r (finished_tables now r db)"
      using e not_own [OF e] tgt [OF e(1)] d r s(2) target
      by (auto simp: has_completed_official_evaluation_tx_def official_done_def evals_of_def)
  qed
  then show ?thesis using sub_okD(3) [OF ctx(3)] unfolding status_ok_def by blast
qed

section \<open>The leaderboard after an official result\<close>

text \<open>The row of a scope is replaced when the candidate ranks strictly before it, and kept otherwise.\<close>

definition board_upsert ::
  "challenge_bundle_spec \<Rightarrow> leaderboard_row \<Rightarrow> leaderboard_row set \<Rightarrow> leaderboard_row set \<Rightarrow> bool" where
  "board_upsert spec new L L' \<longleftrightarrow>
     (L' = L \<and> (\<exists>l \<in> L. lb_scope l = lb_scope new
        \<and> compare_rank_payloads spec (lb_aggregate_metrics new) (lb_aggregate_metrics l) \<noteq> Less))
     \<or> (L' = insert new {l \<in> L. lb_scope l \<noteq> lb_scope new} \<and> (\<forall>l \<in> L. lb_scope l = lb_scope new \<longrightarrow>
          compare_rank_payloads spec (lb_aggregate_metrics new) (lb_aggregate_metrics l) = Less))"

lemma row_ok_mono:
  "row_ok V D l \<Longrightarrow> D \<subseteq> D' \<Longrightarrow> (\<And>i n t a. (i, n, t, a, True) \<in> V \<Longrightarrow> (i, n, t, a, True) \<in> V') \<Longrightarrow> row_ok V' D' l"
  unfolding row_ok_def by blast

lemma compare_not_Less_trans:
  assumes "finite_payload x" "finite_payload y" "finite_payload z"
    and "compare_rank_payloads spec y z = Less" "compare_rank_payloads spec x z \<noteq> Less"
  shows "compare_rank_payloads spec x y \<noteq> Less"
  using lawful_cmp.cmp_Less_trans [OF lawful_compare_rank_payloads, of x y z spec] assms by auto

lemma row_covers_upsert:
  assumes up: "L' = insert new {l \<in> L. lb_scope l \<noteq> lb_scope new}"
      "\<forall>l \<in> L. lb_scope l = lb_scope new \<longrightarrow> compare_rank_payloads spec (lb_aggregate_metrics new) (lb_aggregate_metrics l) = Less"
    and fin: "finite_payload (lb_aggregate_metrics new)" "finite_payload (lb_aggregate_metrics l)" "finite_payload (ev_aggregate_metrics e)"
    and spec: "\<And>c sp. c \<in> C \<Longrightarrow> ch_name c = lb_challenge new \<Longrightarrow> ch_spec c = Some sp \<Longrightarrow> sp = spec"
    and l: "l \<in> L" "row_covers C l e"
  shows "\<exists>l' \<in> L'. lb_scope l' = lb_scope l \<and> row_covers C l' e"
proof (cases "lb_scope l = lb_scope new")
  case False
  then show ?thesis using l up(1) by blast
next
  case True
  then have ch: "lb_challenge l = lb_challenge new" by (simp add: lb_scope_def)
  have less: "compare_rank_payloads spec (lb_aggregate_metrics new) (lb_aggregate_metrics l) = Less"
    using up(2) l(1) True by simp
  have "compare_rank_payloads sp (ev_aggregate_metrics e) (lb_aggregate_metrics new) \<noteq> Less"
    if c: "c \<in> C" "ch_name c = lb_challenge new" "ch_spec c = Some sp" for c sp
  proof -
    have sp: "sp = spec" by (rule spec [OF c])
    have "compare_rank_payloads spec (ev_aggregate_metrics e) (lb_aggregate_metrics l) \<noteq> Less"
      using l(2) c ch unfolding row_covers_def sp by simp
    from compare_not_Less_trans [OF fin(3,1,2) less this] show ?thesis unfolding sp .
  qed
  then have "row_covers C new e" unfolding row_covers_def by blast
  then show ?thesis using True up(1) by simp
qed

lemma board_ok_upsert:
  assumes ok: "board_ok C V D L"
    and fin: "\<forall>e \<in> D. finite_payload (ev_aggregate_metrics e)" "finite_payload (lb_aggregate_metrics new)"
    and spec: "\<And>c sp. c \<in> C \<Longrightarrow> ch_name c = lb_challenge new \<Longrightarrow> ch_spec c = Some sp \<Longrightarrow> sp = spec"
    and new: "lb_official_metrics new = lb_aggregate_metrics new" "ev_submission e1 = lb_best new"
      "ev_aggregate_metrics e1 = lb_aggregate_metrics new"
    and V': "(lb_best new, lb_challenge new, lb_target new, lb_agent new, True) \<in> V'"
      "\<And>i n t a. (i, n, t, a, True) \<in> V \<Longrightarrow> (i, n, t, a, True) \<in> V'"
      "\<And>i n t a v. (i, n, t, a, v) \<in> V' \<Longrightarrow> \<exists>v0. (i, n, t, a, v0) \<in> V"
      "\<And>n t a v. (lb_best new, n, t, a, v) \<in> V' \<Longrightarrow> (n, t, a) = lb_scope new"
    and up: "board_upsert spec new L L'"
  shows "board_ok C V' (insert e1 D) L'"
  unfolding board_ok_def
proof (intro conjI ballI allI impI)
  have rows: "row_ok V D l" if "l \<in> L" for l using ok that by (simp add: board_ok_def)
  have finL: "finite_payload (lb_aggregate_metrics l)" if l: "l \<in> L" for l
  proof -
    obtain e where "e \<in> D" "ev_aggregate_metrics e = lb_aggregate_metrics l"
      using rows [OF l] unfolding row_ok_def by blast
    then show ?thesis using fin(1) by force
  qed
  have new_ok: "row_ok V' (insert e1 D) new" using new V'(1) by (simp add: row_ok_def)
  have old_ok: "row_ok V' (insert e1 D) l" if "l \<in> L" for l
    by (rule row_ok_mono [OF rows [OF that] _ V'(2)]) blast
  have "L' \<subseteq> insert new L" using up unfolding board_upsert_def by blast
  then show "row_ok V' (insert e1 D) l" if "l \<in> L'" for l
    using that new_ok old_ok by blast
  fix e n t a v
  assume e: "e \<in> insert e1 D" and v: "(ev_submission e, n, t, a, v) \<in> V'"
  show "\<exists>l \<in> L'. lb_scope l = (n, t, a) \<and> row_covers C l e"
  proof (cases "e \<in> D")
    case True
    obtain v0 where "(ev_submission e, n, t, a, v0) \<in> V" using V'(3) [OF v] by blast
    then obtain l where l: "l \<in> L" "lb_scope l = (n, t, a)" "row_covers C l e"
      using ok True unfolding board_ok_def by blast
    have fe: "finite_payload (ev_aggregate_metrics e)" using fin(1) True by blast
    from up consider "L' = L" | "L' = insert new {l \<in> L. lb_scope l \<noteq> lb_scope new}"
        "\<forall>l \<in> L. lb_scope l = lb_scope new \<longrightarrow> compare_rank_payloads spec (lb_aggregate_metrics new) (lb_aggregate_metrics l) = Less"
      unfolding board_upsert_def by blast
    then have "\<exists>l' \<in> L'. lb_scope l' = lb_scope l \<and> row_covers C l' e"
    proof cases
      case 1
      then show ?thesis using l by blast
    next
      case 2
      show ?thesis by (rule row_covers_upsert [OF 2 fin(2) finL [OF l(1)] fe spec l(1,3)])
    qed
    then show ?thesis using l(2) by simp
  next
    case False
    then have e1: "e = e1" using e by simp
    have "(lb_best new, n, t, a, v) \<in> V'" using v e1 new(2) by simp
    from V'(4) [OF this] have scope: "(n, t, a) = lb_scope new" .
    have covers: "row_covers C l e1" if "lb_scope l = lb_scope new"
      "compare_rank_payloads spec (lb_aggregate_metrics new) (lb_aggregate_metrics l) \<noteq> Less" for l
      unfolding row_covers_def
    proof (intro ballI allI impI)
      fix c sp assume "c \<in> C" "ch_name c = lb_challenge l \<and> ch_spec c = Some sp"
      then have "sp = spec" using spec that(1) by (simp add: lb_scope_def)
      then show "compare_rank_payloads sp (ev_aggregate_metrics e1) (lb_aggregate_metrics l) \<noteq> Less"
        using that(2) new(3) by simp
    qed
    have "compare_rank_payloads spec (lb_aggregate_metrics new) (lb_aggregate_metrics new) \<noteq> Less"
      using lawful_cmp.cmp_refl [OF lawful_compare_rank_payloads fin(2)] by simp
    then have "\<exists>l \<in> L'. lb_scope l = lb_scope new \<and> row_covers C l e1"
      using up covers unfolding board_upsert_def by blast
    then show ?thesis using scope e1 by simp
  qed
qed

end
