(* ===== verification/Lifecycle_Results.thy ===== *)
theory Lifecycle_Results
  imports Lifecycle_Steps
begin

text \<open>
  Finishing an evaluation keeps the pipeline invariant. An official result that completes publishes
  the submission and updates the leaderboard row of its scope.
\<close>

section \<open>Upsert\<close>

definition official_row :: "timestamp \<Rightarrow> persisted_evaluation_result \<Rightarrow> submission_row \<Rightarrow> leaderboard_row" where
  "official_row now r s =
     \<lparr>lb_challenge = sub_challenge s, lb_target = pr_target r, lb_agent = sub_agent s,
      lb_best = pr_submission r, lb_public_results = pr_public_results r,
      lb_aggregate_metrics = pr_aggregate_metrics r, lb_official_metrics = pr_aggregate_metrics r,
      lb_updated_at = now\<rparr>"

lemma lb_scope_official_row: "lb_scope (official_row now r s) = (sub_challenge s, pr_target r, sub_agent s)"
  by (simp add: official_row_def lb_scope_def)

lemma official_row_fields [simp]:
  "lb_best (official_row now r s) = pr_submission r" "lb_challenge (official_row now r s) = sub_challenge s"
  "lb_target (official_row now r s) = pr_target r" "lb_agent (official_row now r s) = sub_agent s"
  "lb_aggregate_metrics (official_row now r s) = pr_aggregate_metrics r"
  "lb_official_metrics (official_row now r s) = pr_aggregate_metrics r"
  by (simp_all add: official_row_def)

lemma board_upsert_replace:
  assumes "\<And>l. l \<in> set lb \<Longrightarrow> lb_scope l = lb_scope new \<Longrightarrow>
      compare_rank_payloads spec (lb_aggregate_metrics new) (lb_aggregate_metrics l) = Less"
  shows "board_upsert spec new (set lb) (set (sql_upsert lb_scope new lb))"
proof -
  have "set (sql_upsert lb_scope new lb) = insert new {l \<in> set lb. lb_scope l \<noteq> lb_scope new}"
    by (auto simp: in_sql_upsert)
  then show ?thesis using assms unfolding board_upsert_def by blast
qed

lemma upsert_leaderboard_ok:
  assumes up: "upsert_leaderboard_entry_for_solution_submission_tx now (pr_submission r) (pr_target r)
      (pr_public_results r) (pr_aggregate_metrics r) db = Inr (best, db')"
    and s: "sub_by_id (pr_submission r) (submissions db) = Some s"
    and c: "challenge_by_name (sub_challenge s) (challenges db) = Some c"
    and pk: "pk_ok lb_scope (leaderboard db)"
  obtains spec where "ch_spec c = Some spec"
    "board_upsert spec (official_row now r s) (set (leaderboard db)) (set (leaderboard db'))"
    "\<not> best \<longrightarrow> leaderboard db' = leaderboard db"
    "best \<longrightarrow> leaderboard db' = sql_upsert lb_scope (official_row now r s) (leaderboard db)"
    "submissions db' = submissions db" "jobs db' = jobs db" "evaluations db' = evaluations db"
    "challenges db' = challenges db"
proof -
  obtain spec where spec: "ch_spec c = Some spec"
    using up s c by (auto simp: upsert_leaderboard_entry_for_solution_submission_tx_def result_simps)
  let ?key = "(sub_challenge s, pr_target r, sub_agent s)"
  let ?sc = "\<lparr>rs_challenge = sub_challenge s, rs_target = pr_target r, rs_agent = sub_agent s\<rparr>"
  let ?new = "official_row now r s"
  let ?keep = "\<not> candidate_replaces_leaderboard_entry spec (map_option lb_aggregate_metrics (lb_by_scope ?key (leaderboard db))) (pr_aggregate_metrics r)"
  have eq: "Inr (best, db') = (if ?keep then Inr (False, lock_leaderboard_scope ?sc db)
      else Inr (True, (lock_leaderboard_scope ?sc db)\<lparr>leaderboard := sql_upsert lb_scope ?new (leaderboard db)\<rparr>))"
    using up s c spec iffD2 [OF read_spec_ok spec, of "''stored challenge spec is invalid''"]
    by (simp add: upsert_leaderboard_entry_for_solution_submission_tx_def Let_def scope_key_def
        lock_leaderboard_scope_def official_row_def split: if_splits)
  show thesis
  proof (cases ?keep)
    case True
    then obtain l where l: "lb_by_scope ?key (leaderboard db) = Some l"
        "compare_rank_payloads spec (pr_aggregate_metrics r) (lb_aggregate_metrics l) \<noteq> Less"
      by (auto simp: candidate_replaces_leaderboard_entry_def split: option.splits)
    then have in_l: "l \<in> set (leaderboard db)" "lb_scope l = ?key" using lb_tbl.lookup_Some_in by blast+
    have "board_upsert spec ?new (set (leaderboard db)) (set (leaderboard db))"
      unfolding board_upsert_def using in_l l(2) by (intro disjI1 conjI refl bexI [where x = l]) (simp_all add: lb_scope_official_row)
    then show thesis using that spec eq True by (simp add: lock_leaderboard_scope_def)
  next
    case False
    have "compare_rank_payloads spec (lb_aggregate_metrics ?new) (lb_aggregate_metrics l) = Less"
      if "l \<in> set (leaderboard db)" "lb_scope l = lb_scope ?new" for l
    proof -
      have "lb_by_scope ?key (leaderboard db) = Some l"
        using lb_tbl.lookup_in [OF pk that(1)] that(2) by (simp add: lb_scope_official_row)
      then show ?thesis using False by (simp add: candidate_replaces_leaderboard_entry_def)
    qed
    from board_upsert_replace [OF this] show thesis
      using that spec eq False by (simp add: lock_leaderboard_scope_def)
  qed
qed

text \<open>Writing the official metrics of the row that was just upserted changes nothing.\<close>

lemma update_after_upsert:
  assumes "f new = new"
  shows "sql_update (\<lambda>l. lb_scope l = lb_scope new) f (sql_upsert lb_scope new lb) = sql_upsert lb_scope new lb"
proof -
  have "l = new" if "l \<in> set (sql_upsert lb_scope new lb)" "lb_scope l = lb_scope new" for l
    using that by (simp add: in_sql_upsert)
  then show ?thesis using assms unfolding sql_update_def by (intro map_idI) metis
qed

lemma apply_official_completed:
  assumes r: "apply_official_result now r prev db = Inr (b, db')" "pr_status r = EvalCompleted"
    and s: "sub_by_id (pr_submission r) (submissions db) = Some s"
    and c: "challenge_by_name (sub_challenge s) (challenges db) = Some c"
    and pk: "pk_ok lb_scope (leaderboard db)"
  obtains spec where "ch_spec c = Some spec"
    "board_upsert spec (official_row now r s) (set (leaderboard db)) (set (leaderboard db'))"
    "pk_ok lb_scope (leaderboard db')"
    "submissions db' = submissions (set_submission_status now (pr_submission r) SubCompleted True db)"
    "jobs db' = jobs db" "evaluations db' = evaluations db" "challenges db' = challenges db"
proof -
  let ?db1 = "set_submission_status now (pr_submission r) SubCompleted True db"
  let ?s = "s\<lparr>sub_status := SubCompleted, sub_visible := True, sub_updated_at := now\<rparr>"
  have s1: "sub_by_id (pr_submission r) (submissions ?db1) = Some ?s"
    using s sub_tbl.lookup_Some_in [OF s] by (simp add: set_submission_status_def sub_tbl.lookup_update)
  obtain best db2 where up: "upsert_leaderboard_entry_for_solution_submission_tx now (pr_submission r) (pr_target r)
      (pr_public_results r) (pr_aggregate_metrics r) ?db1 = Inr (best, db2)"
    and rest: "(if best then and_then (update_official_metrics_for_solution_submission_tx now (pr_submission r)
         (pr_target r) (pr_aggregate_metrics r) db2) (\<lambda>(_, db3). Inr (True, db3)) else Inr (True, db2)) = Inr (b, db')"
    using r by (auto simp: apply_official_result_def Let_def result_simps split: prod.splits)
  have row: "official_row now r ?s = official_row now r s" by (simp add: official_row_def)
  obtain spec where spec: "ch_spec c = Some spec"
    and board: "board_upsert spec (official_row now r s) (set (leaderboard db)) (set (leaderboard db2))"
    and kept: "\<not> best \<longrightarrow> leaderboard db2 = leaderboard db"
    and replaced: "best \<longrightarrow> leaderboard db2 = sql_upsert lb_scope (official_row now r s) (leaderboard db)"
    and frame: "submissions db2 = submissions ?db1" "jobs db2 = jobs ?db1" "evaluations db2 = evaluations ?db1"
      "challenges db2 = challenges ?db1"
    using upsert_leaderboard_ok [OF up s1, of c] c pk row by auto
  have db': "leaderboard db' = leaderboard db2 \<and> submissions db' = submissions db2 \<and> jobs db' = jobs db2
      \<and> evaluations db' = evaluations db2 \<and> challenges db' = challenges db2"
  proof (cases best)
    case True
    let ?f = "\<lambda>l. l\<lparr>lb_official_metrics := pr_aggregate_metrics r, lb_updated_at := now\<rparr>"
    have "?f (official_row now r s) = official_row now r s" by (simp add: official_row_def)
    then have "sql_update (\<lambda>l. lb_scope l = lb_scope (official_row now r s)) ?f (leaderboard db2) = leaderboard db2"
      using update_after_upsert [of ?f "official_row now r s" "leaderboard db"] replaced True by simp
    then show ?thesis
      using rest True s1 frame(1)
      by (auto simp: update_official_metrics_for_solution_submission_tx_def lb_scope_official_row)
  qed (use rest in simp)
  have "pk_ok lb_scope (leaderboard db2)"
    using kept replaced pk_ok_upsert [OF pk] pk by (cases best) simp_all
  then show thesis using that spec board db' frame by simp
qed

section \<open>Finishing\<close>

lemma finished_tables_fields [simp]:
  "jobs (finished_tables now r db) = sql_update (owns_claim (pr_job_id r) (pr_worker_id r) (pr_claim_attempt_count r))
     (finished_job_row now r) (jobs db)"
  "submissions (finished_tables now r db) = submissions db" "challenges (finished_tables now r db) = challenges db"
  "leaderboard (finished_tables now r db) = leaderboard db"
  by (simp_all add: finished_tables_def)

lemma finished_eval_in:
  assumes "e \<in> set (evaluations db)" "ev_job e = pr_job_id r" "ev_status e = EvalRunning"
  shows "finished_evaluation_row now r e \<in> set (evaluations (finished_tables now r db))"
  using assms by (auto simp: finished_tables_def in_sql_update)

text \<open>A finish that publishes nothing: a validation result, or an official one that failed.\<close>

lemma pipeline_ok_finish_quiet:
  assumes ok: "pipeline_ok db" and m: "result_matches r db"
    and j: "j \<in> set (jobs db)" "owns_claim (pr_job_id r) (pr_worker_id r) (pr_claim_attempt_count r) j"
    and s: "s \<in> set (submissions db)" "sub_id s = job_submission j"
    and e: "e \<in> set (evaluations db)" "ev_job e = job_id j" "ev_status e = EvalRunning"
    and quiet: "pr_status r = EvalCompleted \<longrightarrow> job_eval_type j = Validation"
    and st: "st = (if sub_visible s then SubCompleted else mirror_status (job_status (finished_job_row now r j)))"
    and db': "db' = set_submission_status now (pr_submission r) st (sub_visible s) (finished_tables now r db)"
  shows "pipeline_ok db'"
proof -
  note d = owns_claim_D [OF j(2)] and ev = finished_tables_evals [OF ok m j]
  have sid: "pr_submission r = job_submission j" using m j(1) d by (simp add: result_matches_def)
  let ?g = "\<lambda>r. r\<lparr>sub_status := st, sub_visible := sub_visible s, sub_updated_at := now\<rparr>"
  have tabs: "jobs db' = sql_update (\<lambda>q. job_id q = job_id j \<and> owns_claim (pr_job_id r) (pr_worker_id r) (pr_claim_attempt_count r) q)
        (finished_job_row now r) (jobs db)"
    "submissions db' = sql_update (\<lambda>q. sub_id q = job_submission j \<and> True) ?g (submissions db)"
    "evaluations db' = evaluations (finished_tables now r db)"
    "challenges db' = challenges db" "leaderboard db' = leaderboard db"
    using d sid by (simp_all add: db' owns_claim_eq) (simp_all add: set_submission_status_def)
  have status: "sub_visible s \<longrightarrow> sub_status (if True then ?g s else s) = SubCompleted"
    "\<not> sub_visible s \<longrightarrow> sub_status (if True then ?g s else s) = mirror_status (job_status (finished_job_row now r j))"
    using st by simp_all
  have own: "ev_submission e = job_submission j \<and> ev_eval_type e = job_eval_type j \<and> ev_target e = job_target j
      \<and> eval_matches (ev_status e) (job_status (finished_job_row now r j))
      \<and> (ev_status e = EvalCompleted \<longrightarrow> finite_payload (ev_aggregate_metrics e))"
    if "e \<in> set (evaluations db')" "ev_job e = job_id j" for e
    using ev(4) [of e now] that m by (auto simp: tabs result_matches_def)
  have fin: "\<exists>e \<in> set (evaluations db'). ev_job e = job_id j"
    using finished_eval_in [OF e(1) _ e(3), of r now] e(2) d tabs(3) by (intro bexI [where x = "finished_evaluation_row now r e"]) simp_all
  show ?thesis
    by (rule pipeline_ok_step [where R = "\<lambda>_. True" and g = ?g, OF ok j(1) _ j(2) s same_job_rows(5)
          job_ok_rows(5) [OF job_ok_in [OF ok j(1)]] _ _ tabs(1,2) _ _ status _ _ _ own fin tabs(4,5)])
      (use d quiet ev(1-3) in \<open>simp_all add: tabs(3)\<close>)
qed

lemma done_evals_finite:
  assumes ok: "pipeline_ok db" and e: "e \<in> done_evals db"
  shows "finite_payload (ev_aggregate_metrics e)"
proof -
  have in_e: "e \<in> set (evaluations db)" and st: "ev_status e = EvalCompleted"
    using e by (simp_all add: done_evals_def official_done_def)
  obtain s where s: "s \<in> set (submissions db)" "sub_id s = ev_submission e"
    using ok in_e unfolding pipeline_ok_def tables_ok_def by blast
  then have "evals_ok s (jobs_of (sub_id s) db) (evals_of (sub_id s) db)"
    using ok unfolding pipeline_ok_def subs_ok_def by (blast dest: sub_okD(2))
  moreover have "e \<in> evals_of (sub_id s) db" using in_e s(2) by (simp add: evals_of_def)
  ultimately show ?thesis using st unfolding evals_ok_def by blast
qed

lemma done_evals_finished:
  assumes ok: "pipeline_ok db" and m: "result_matches r db"
    and j: "j \<in> set (jobs db)" "owns_claim (pr_job_id r) (pr_worker_id r) (pr_claim_attempt_count r) j" "job_eval_type j = Official"
    and e: "e \<in> set (evaluations db)" "ev_job e = job_id j" "ev_status e = EvalRunning"
    and r: "pr_status r = EvalCompleted"
  shows "done_evals (finished_tables now r db) = insert (finished_evaluation_row now r e) (done_evals db)"
proof (intro set_eqI)
  fix q
  note d = owns_claim_D [OF j(2)] and ev = finished_tables_evals [OF ok m j(1,2)]
  let ?e = "finished_evaluation_row now r e"
  have in_e: "?e \<in> set (evaluations (finished_tables now r db))"
    using finished_eval_in [OF e(1) _ e(3)] e(2) d by simp
  have done_e: "official_done ?e"
    using kept_eval(1) [OF ok j(1) _ e(1,2)] d j(3) r by (simp add: official_done_def)
  show "q \<in> done_evals (finished_tables now r db) \<longleftrightarrow> q \<in> insert ?e (done_evals db)"
  proof (cases "ev_job q = job_id j")
    case True
    have "q = ?e" if "q \<in> set (evaluations (finished_tables now r db))"
      using pk_ok_inj [OF ev(2) that in_e] True e(2) by simp
    moreover have "\<not> official_done q" if "q \<in> set (evaluations db)"
      using kept_eval(1) [OF ok j(1) _ that True] d by (simp add: official_done_def)
    ultimately show ?thesis using in_e done_e by (auto simp: done_evals_def)
  next
    case False
    then have "q \<noteq> ?e" using e(2) by auto
    then show ?thesis using ev(3) [OF False] by (simp add: done_evals_def)
  qed
qed

lemma sub_core_replace:
  assumes subs: "set subs' = insert s1 (set subs - {s0})" "s0 \<in> set subs" "pk_ok sub_id subs"
    and core: "sub_core s1 = (sub_id s0, sub_challenge s0, sub_target s0, sub_agent s0, True)"
  shows "(sub_id s0, sub_challenge s0, sub_target s0, sub_agent s0, True) \<in> sub_core ` set subs'"
    "(i, n, t, a, True) \<in> sub_core ` set subs \<Longrightarrow> (i, n, t, a, True) \<in> sub_core ` set subs'"
    "(i, n, t, a, v) \<in> sub_core ` set subs' \<Longrightarrow> \<exists>v0. (i, n, t, a, v0) \<in> sub_core ` set subs"
    "(sub_id s0, n, t, a, v) \<in> sub_core ` set subs' \<Longrightarrow> (n, t, a) = (sub_challenge s0, sub_target s0, sub_agent s0)"
proof -
  have old: "(sub_id s0, sub_challenge s0, sub_target s0, sub_agent s0, sub_visible s0) \<in> sub_core ` set subs"
    using subs(2) by (intro image_eqI [where x = s0]) (simp_all add: sub_core_def)
  show new: "(sub_id s0, sub_challenge s0, sub_target s0, sub_agent s0, True) \<in> sub_core ` set subs'"
    using subs(1) core by (intro image_eqI [where x = s1]) simp_all
  show "(i, n, t, a, True) \<in> sub_core ` set subs'" if "(i, n, t, a, True) \<in> sub_core ` set subs"
  proof -
    from that obtain s where eq: "(i, n, t, a, True) = sub_core s" and in_s: "s \<in> set subs" by (rule imageE)
    note s = in_s eq [symmetric]
    show ?thesis
    proof (cases "s = s0")
      case True
      then show ?thesis using new s(2) by (simp add: sub_core_def)
    next
      case False
      then show ?thesis using s subs(1) by (intro image_eqI [where x = s]) simp_all
    qed
  qed
  show "\<exists>v0. (i, n, t, a, v0) \<in> sub_core ` set subs" if "(i, n, t, a, v) \<in> sub_core ` set subs'"
  proof -
    from that obtain s where eq: "(i, n, t, a, v) = sub_core s" and in_s: "s \<in> set subs'" by (rule imageE)
    note s = in_s eq [symmetric]
    show ?thesis
    proof (cases "s \<in> set subs")
      case True
      then show ?thesis using s(2) by (intro exI image_eqI [where x = s]) simp_all
    next
      case False
      then have "s = s1" using s(1) subs(1) by blast
      then show ?thesis using s(2) core old by auto
    qed
  qed
  show "(n, t, a) = (sub_challenge s0, sub_target s0, sub_agent s0)" if "(sub_id s0, n, t, a, v) \<in> sub_core ` set subs'"
  proof -
    from that obtain s where eq: "(sub_id s0, n, t, a, v) = sub_core s" and in_s: "s \<in> set subs'" by (rule imageE)
    note s = in_s eq [symmetric]
    have "s = s1"
    proof (rule ccontr)
      assume "s \<noteq> s1"
      then have "s \<in> set subs" "s \<noteq> s0" using s(1) subs(1) by auto
      then show False using pk_ok_inj [OF subs(3) _ subs(2)] s(2) by (simp add: sub_core_def)
    qed
    then show ?thesis using s(2) core by simp
  qed
qed

text \<open>A completed official result publishes the submission and updates the row of its scope.\<close>

lemma pipeline_ok_finish_official:
  assumes ok: "pipeline_ok db" and m: "result_matches r db"
    and j: "j \<in> set (jobs db)" "owns_claim (pr_job_id r) (pr_worker_id r) (pr_claim_attempt_count r) j" "job_eval_type j = Official"
    and s: "s \<in> set (submissions db)" "sub_id s = job_submission j"
    and e: "e \<in> set (evaluations db)" "ev_job e = job_id j" "ev_status e = EvalRunning"
    and r: "pr_status r = EvalCompleted" "apply_official_result now r prev (finished_tables now r db) = Inr (b, db')"
  shows "pipeline_ok db'"
proof -
  note d = owns_claim_D [OF j(2)] and ev = finished_tables_evals [OF ok m j(1,2)] and pks = pipeline_pks [OF ok]
  have rj: "pr_submission r = job_submission j" "pr_target r = job_target j"
    using m j(1) d by (simp_all add: result_matches_def)
  have target: "job_target j = sub_target s"
    using jobs_okD [OF sub_okD(1) [OF move_context(3) [OF ok j(1) s]] move_context(1) [OF ok j(1) s]] by simp
  have lookup: "sub_by_id (pr_submission r) (submissions (finished_tables now r db)) = Some s"
    using sub_tbl.lookup_in [OF pks(4) s(1)] s(2) rj(1) by simp
  have pkc: "pk_ok ch_name (challenges db)" using ok by (simp add: pipeline_ok_def tables_ok_def)
  obtain c where c: "c \<in> set (challenges db)" "ch_name c = sub_challenge s"
    using ok s(1) unfolding pipeline_ok_def tables_ok_def sub_fk_def by blast
  then have chal: "challenge_by_name (sub_challenge s) (challenges (finished_tables now r db)) = Some c"
    using challenge_tbl.lookup_in [OF pkc c(1)] by simp
  obtain spec where spec: "ch_spec c = Some spec"
    and board: "board_upsert spec (official_row now r s) (set (leaderboard db)) (set (leaderboard db'))"
    and pklb: "pk_ok lb_scope (leaderboard db')"
    and tabs: "submissions db' = submissions (set_submission_status now (pr_submission r) SubCompleted True (finished_tables now r db))"
      "jobs db' = jobs (finished_tables now r db)" "evaluations db' = evaluations (finished_tables now r db)"
      "challenges db' = challenges (finished_tables now r db)"
    using apply_official_completed [OF r(2,1) lookup chal] pks(3) by auto
  let ?g = "\<lambda>q. q\<lparr>sub_status := SubCompleted, sub_visible := True, sub_updated_at := now\<rparr>"
  have jobs: "jobs db' = sql_update (\<lambda>q. job_id q = job_id j \<and> owns_claim (pr_job_id r) (pr_worker_id r) (pr_claim_attempt_count r) q)
        (finished_job_row now r) (jobs db)"
    and subs: "submissions db' = sql_update (\<lambda>q. sub_id q = job_submission j \<and> True) ?g (submissions db)"
    using d rj(1) tabs(1,2) by (simp_all add: owns_claim_eq set_submission_status_def)
  have own: "ev_submission q = job_submission j \<and> ev_eval_type q = job_eval_type j \<and> ev_target q = job_target j
      \<and> eval_matches (ev_status q) (job_status (finished_job_row now r j))
      \<and> (ev_status q = EvalCompleted \<longrightarrow> finite_payload (ev_aggregate_metrics q))"
    if "q \<in> set (evaluations db')" "ev_job q = job_id j" for q
    using ev(4) [of q now] that m r(1) by (simp add: tabs(3) result_matches_def)
  have fin: "\<exists>q \<in> set (evaluations db'). ev_job q = job_id j"
    using finished_eval_in [OF e(1) _ e(3), of r now] e(2) d tabs(3)
    by (intro bexI [where x = "finished_evaluation_row now r e"]) simp_all
  have evals: "pk_ok ev_id (evaluations db')" "pk_ok ev_job (evaluations db')"
    "\<And>q. ev_job q \<noteq> job_id j \<Longrightarrow> q \<in> set (evaluations db') \<longleftrightarrow> q \<in> set (evaluations db)"
    using ev(1-3) by (simp_all add: tabs(3))
  have moves: "tables_move db s j (?g s) (finished_job_row now r j) db'"
    "job_move s (jobs_of (sub_id s) db) (evals_of (sub_id s) db) j (?g s) (finished_job_row now r j) (evals_of (sub_id s) db')"
    by (rule step_moves [where R = "\<lambda>_. True" and g = ?g, OF ok j(1) _ j(2) s same_job_rows(5)
          job_ok_rows(5) [OF job_ok_in [OF ok j(1)]] _ jobs subs _ _ _ _ _ _ _ evals own fin _ pklb];
        use d r(1) j(3) tabs(4) in \<open>simp\<close>)+
  have t: "tables_ok db" "subs_ok db" using ok by (simp_all add: pipeline_ok_def)
  have set_subs: "set (submissions db') = insert (?g s) (set (submissions db) - {s})"
    using moves(1) by (simp add: tables_move_def)
  note core = sub_core_replace [OF set_subs s(1) pks(4)]
  have gs: "sub_core (?g s) = (sub_id s, sub_challenge s, sub_target s, sub_agent s, True)" by (simp add: sub_core_def)
  have "board_ok (set (challenges db)) (sub_core ` set (submissions db')) (insert (finished_evaluation_row now r e) (done_evals db))
      (set (leaderboard db'))"
  proof (rule board_ok_upsert [where new = "official_row now r s" and L = "set (leaderboard db)" and V = "sub_core ` set (submissions db)", OF _ _ _ _ _ _ _ _ _ _ _ board])
    show "ch_spec ca = Some sp \<Longrightarrow> sp = spec" if "ca \<in> set (challenges db)" "ch_name ca = lb_challenge (official_row now r s)" for ca sp
      using pk_ok_inj [OF pkc that(1) c(1)] that(2) c(2) spec by simp
    show "(n, t, a) = lb_scope (official_row now r s)" if "(lb_best (official_row now r s), n, t, a, v) \<in> sub_core ` set (submissions db')" for n t a v
      using core(4) [OF gs, of n t a v] that rj s(2) target by (simp add: lb_scope_official_row)
  qed (use ok done_evals_finite [OF ok] m r(1) core(1-3) [OF gs] rj s(2) target kept_eval(1) [OF ok j(1) _ e(1,2)] d in
      \<open>simp_all add: pipeline_ok_def result_matches_def\<close>)
  moreover have "done_evals db' = insert (finished_evaluation_row now r e) (done_evals db)"
    using done_evals_finished [OF ok m j e r(1), of now] tabs(3) by (simp add: done_evals_def)
  ultimately show ?thesis
    using tables_ok_move [OF t(1) moves(1)] subs_ok_move [OF t moves] tabs(4) by (simp add: pipeline_ok_def)
qed

lemma pipeline_ok_finished:
  assumes ok: "pipeline_ok db" and m: "result_matches r db"
    and r: "mark_evaluation_finished now r db = Inr (b, db')"
  shows "pipeline_ok db'"
  using r
proof (cases rule: mark_evaluation_finished_cases)
  case fenced
  then show ?thesis using ok by simp
next
  case (finished j e)
  note j = finished(1,2) and e = finished(3,4,5)
  note d = owns_claim_D [OF j(2)]
  obtain s where s: "s \<in> set (submissions db)" "sub_id s = job_submission j" by (rule sub_of_job [OF ok j(1)])
  note prev = has_previous_iff [OF ok m j s, of now] and quiet = pipeline_ok_finish_quiet [where now = now, OF ok m j s e]
  have mode: "job_eval_type j = pr_eval_type r" using m j(1) d by (simp add: result_matches_def)
  show ?thesis
  proof (cases "pr_eval_type r")
    case Validation
    have hidden: "\<not> sub_visible s" using sub_status_of(1) [OF ok j(1) _ s] d mode Validation by auto
    show ?thesis
      by (rule quiet [OF _ refl])
        (use finished(6) hidden prev mode Validation in \<open>auto simp: apply_validation_result_def\<close>)
  next
    case Official
    show ?thesis
    proof (cases "pr_status r = EvalCompleted")
      case True
      show ?thesis
        by (rule pipeline_ok_finish_official [OF ok m j _ s e True]) (use finished(6) mode Official in simp_all)
    next
      case False
      show ?thesis
        by (rule quiet [OF _ refl])
          (use finished(6) prev False Official in \<open>auto simp: apply_official_result_def\<close>)
    qed
  qed
qed

end
