(* ===== verification/Lifecycle_Reaper.thy ===== *)
theory Lifecycle_Reaper
  imports Lifecycle_Results
begin

text \<open>
  The reaper keeps the pipeline invariant and never fails. It rewrites all stale job rows first and
  then settles their submissions one by one; the loop invariant is that the tables are in order once
  only the rows that were already settled are rewritten.
\<close>

section \<open>Settling one submission\<close>

lemma settle_reaped_eq:
  assumes ok: "pipeline_ok G" and j: "j \<in> set (jobs G)" "job_status j = JobRunning"
    and s: "s \<in> set (submissions G)" "sub_id s = job_submission j"
    and db: "submissions db = submissions G"
      "\<And>e. ev_job e \<noteq> job_id j \<Longrightarrow> e \<in> set (evaluations db) \<longleftrightarrow> e \<in> set (evaluations G)"
  shows "settle_reaped_submission now st j db =
    Inr (set_submission_status now (job_submission j) (if sub_visible s then SubCompleted else st) (sub_visible s) db)"
proof -
  have act: "job_active j" using j(2) by simp
  note ctx = move_context [OF ok j(1) s]
  have lookup: "sub_by_id (job_submission j) (submissions db) = Some s"
    using sub_tbl.lookup_in [OF pipeline_pks(4) [OF ok] s(1)] s(2) db(1) by simp
  have other: "ev_job e \<noteq> job_id j" if "e \<in> set (evaluations G)" "official_done e" for e
    using kept_eval(1) [OF ok j(1) act that(1)] that(2) by (auto simp: official_done_def)
  have "(\<exists>e \<in> set (evaluations db). ev_submission e = job_submission j \<and> ev_eval_type e = Official
      \<and> ev_status e = EvalCompleted \<and> ev_job e \<noteq> job_id j) \<longleftrightarrow> (\<exists>e \<in> evals_of (sub_id s) G. official_done e)"
    unfolding evals_of_def using db(2) other s(2) by (auto simp: official_done_def)
  moreover have "sub_visible s \<longleftrightarrow> (\<exists>e \<in> evals_of (sub_id s) G. official_done e)"
    using sub_okD(3) [OF ctx(3)] unfolding status_ok_def by blast
  ultimately have prior: "sql_exists (\<lambda>e. ev_submission e = job_submission j \<and> ev_eval_type e = Official
      \<and> ev_status e = EvalCompleted \<and> ev_job e \<noteq> job_id j) (evaluations db) \<longleftrightarrow> sub_visible s"
    by simp
  show ?thesis
  proof (cases "sub_visible s")
    case True
    then have "job_eval_type j = Official" using sub_status_of(1) [OF ok j(1) act s] by simp
    then show ?thesis using prior True
      by (simp add: settle_reaped_submission_def preserve_visible_official_result_tx_def)
  next
    case False
    then have "preserve_visible_official_result_tx now (job_submission j) (job_id j) (job_eval_type j) db = (False, db)"
      using prior by (simp add: preserve_visible_official_result_tx_def)
    then show ?thesis using False lookup
      by (simp add: settle_reaped_submission_def hide_reaped_solution_submission_tx_def)
  qed
qed

section \<open>The loop\<close>

definition with_jobs :: "job_row list \<Rightarrow> db \<Rightarrow> db" where
  "with_jobs js db = db\<lparr>jobs := js\<rparr>"

lemma with_jobs_fields [simp]:
  "jobs (with_jobs js db) = js" "submissions (with_jobs js db) = submissions db"
  "evaluations (with_jobs js db) = evaluations db" "challenges (with_jobs js db) = challenges db"
  "leaderboard (with_jobs js db) = leaderboard db"
  by (simp_all add: with_jobs_def)

lemma with_jobs_same: "jobs db = js \<Longrightarrow> with_jobs js db = db"
  by (auto simp: with_jobs_def)

text \<open>Rewriting one more row.\<close>

lemma update_one_more:
  assumes "pk_ok job_id js" "j \<in> set js" "P j" "j \<notin> set rest" "same_job f"
  shows "sql_update (\<lambda>r. P r \<and> r \<notin> set rest) f js =
    sql_update (\<lambda>r. job_id r = job_id j \<and> r = j) f (sql_update (\<lambda>r. P r \<and> r \<notin> set (j # rest)) f js)"
proof -
  have "(if P r \<and> r \<notin> set rest then f r else r) =
      (\<lambda>r. if job_id r = job_id j \<and> r = j then f r else r) (if P r \<and> r \<notin> set (j # rest) then f r else r)"
    if "r \<in> set js" for r
  proof (cases "r = j")
    case False
    then have "job_id r \<noteq> job_id j" using pk_ok_inj [OF assms(1) that assms(2)] by blast
    then show ?thesis using False same_jobD(1) [OF assms(5), of r] by auto
  qed (use assms in simp)
  then show ?thesis unfolding sql_update_def map_map by (intro map_cong) (simp_all add: o_def)
qed

text \<open>
  The contract of a pass: which rows are stale, what becomes of the job row and of the evaluations
  of the job, and the body of the loop, which settles the submission.
\<close>

locale reap_pass =
  fixes now :: timestamp and stale :: "job_row \<Rightarrow> bool" and new_row :: "job_row \<Rightarrow> job_row"
    and new_evals :: "uuid \<Rightarrow> evaluation_row list \<Rightarrow> evaluation_row list"
    and st :: solution_submission_status and body :: "db \<Rightarrow> job_row \<Rightarrow> service_error + db"
  assumes same: "same_job new_row"
    and row: "stale j \<Longrightarrow> job_ok j \<Longrightarrow> job_active j \<and> job_ok (new_row j)
        \<and> job_status (new_row j) \<in> {JobQueued, JobFailed} \<and> mirror_status (job_status (new_row j)) = st"
    and pk_evals: "pk_ok ev_id evs \<Longrightarrow> pk_ok ev_id (new_evals i evs)" "pk_ok ev_job evs \<Longrightarrow> pk_ok ev_job (new_evals i evs)"
    and other_evals: "ev_job e \<noteq> i \<Longrightarrow> e \<in> set (new_evals i evs) \<longleftrightarrow> e \<in> set evs"
    and own_evals: "pipeline_ok G \<Longrightarrow> j \<in> set (jobs G) \<Longrightarrow> stale j \<Longrightarrow> e \<in> set (new_evals (job_id j) (evaluations G)) \<Longrightarrow>
        ev_job e = job_id j \<Longrightarrow> ev_submission e = job_submission j \<and> ev_eval_type e = job_eval_type j
        \<and> ev_target e = job_target j \<and> eval_matches (ev_status e) (job_status (new_row j)) \<and> ev_status e \<noteq> EvalCompleted"
    and settles: "pipeline_ok G \<Longrightarrow> j \<in> set (jobs G) \<Longrightarrow> stale j \<Longrightarrow> s \<in> set (submissions G) \<Longrightarrow> sub_id s = job_submission j \<Longrightarrow>
        submissions db = submissions G \<Longrightarrow> evaluations db = evaluations G \<Longrightarrow>
        body db j = Inr (set_submission_status now (job_submission j) (if sub_visible s then SubCompleted else st)
          (sub_visible s) (db\<lparr>evaluations := new_evals (job_id j) (evaluations db)\<rparr>))"
begin

lemma settled_ok:
  assumes ok: "pipeline_ok (with_jobs js db)" and j: "j \<in> set js" "stale j"
  shows "\<exists>db'. body db j = Inr db' \<and> jobs db' = jobs db
    \<and> pipeline_ok (with_jobs (sql_update (\<lambda>r. job_id r = job_id j \<and> r = j) new_row js) db')"
proof -
  let ?G = "with_jobs js db"
  have jG: "j \<in> set (jobs ?G)" using j(1) by simp
  obtain s where s: "s \<in> set (submissions ?G)" "sub_id s = job_submission j" by (rule sub_of_job [OF ok jG])
  note r = row [OF j(2) job_ok_in [OF ok jG]]
  let ?st = "if sub_visible s then SubCompleted else st"
  let ?db = "set_submission_status now (job_submission j) ?st (sub_visible s)
    (db\<lparr>evaluations := new_evals (job_id j) (evaluations db)\<rparr>)"
  let ?g = "\<lambda>q. q\<lparr>sub_status := ?st, sub_visible := sub_visible s, sub_updated_at := now\<rparr>"
  have body: "body db j = Inr ?db" by (rule settles [OF ok jG j(2) s]) simp_all
  have "pipeline_ok (with_jobs (sql_update (\<lambda>r. job_id r = job_id j \<and> r = j) new_row js) ?db)"
  proof (rule pipeline_ok_step [where j = j and s = s and Q = "\<lambda>r. r = j" and f = new_row and R = "\<lambda>_. True" and g = ?g, OF ok jG _ refl s same])
    fix e
    assume "e \<in> set (evaluations (with_jobs (sql_update (\<lambda>r. job_id r = job_id j \<and> r = j) new_row js) ?db))" "ev_job e = job_id j"
    then show "ev_submission e = job_submission j \<and> ev_eval_type e = job_eval_type j \<and> ev_target e = job_target j
        \<and> eval_matches (ev_status e) (job_status (new_row j)) \<and> (ev_status e = EvalCompleted \<longrightarrow> finite_payload (ev_aggregate_metrics e))"
      using own_evals [OF ok jG j(2), of e] by (simp add: set_submission_status_def)
  qed (use r pk_evals other_evals pipeline_pks [OF ok] in \<open>auto simp: set_submission_status_def\<close>)
  then show ?thesis using body by simp
qed

lemma loop_ok:
  assumes "pk_ok job_id js" "distinct rest" "\<forall>j \<in> set rest. j \<in> set js \<and> stale j"
    and "pipeline_ok (with_jobs (sql_update (\<lambda>r. stale r \<and> r \<notin> set rest) new_row js) db)"
  shows "\<exists>db'. try_fold body db rest = Inr db' \<and> jobs db' = jobs db
    \<and> pipeline_ok (with_jobs (sql_update stale new_row js) db')"
  using assms
proof (induction rest arbitrary: db)
  case Nil
  then show ?case by simp
next
  case (Cons j rest)
  let ?js = "sql_update (\<lambda>r. stale r \<and> r \<notin> set (j # rest)) new_row js"
  have j: "j \<in> set js" "stale j" "j \<notin> set rest" using Cons.prems(2,3) by auto
  have "j \<in> set ?js" using j(1) by (simp add: in_sql_update)
  from settled_ok [OF Cons.prems(4) this j(2)] obtain db1 where db1: "body db j = Inr db1" "jobs db1 = jobs db"
      "pipeline_ok (with_jobs (sql_update (\<lambda>r. job_id r = job_id j \<and> r = j) new_row ?js) db1)" by blast
  then have "pipeline_ok (with_jobs (sql_update (\<lambda>r. stale r \<and> r \<notin> set rest) new_row js) db1)"
    unfolding update_one_more [where P = stale, OF Cons.prems(1) j(1,2,3) same] by simp
  from Cons.IH [OF Cons.prems(1) _ _ this] Cons.prems(2,3) db1 show ?case by auto
qed

lemma pass_keeps_pipeline:
  assumes ok: "pipeline_ok db"
  shows "\<exists>db'. try_fold body (db\<lparr>jobs := sql_update stale new_row (jobs db)\<rparr>) (sql_select stale (jobs db)) = Inr db'
    \<and> pipeline_ok db' \<and> jobs db' = sql_update stale new_row (jobs db)"
proof -
  let ?db = "db\<lparr>jobs := sql_update stale new_row (jobs db)\<rparr>" and ?rows = "sql_select stale (jobs db)"
  have pk: "pk_ok job_id (jobs db)" by (rule pipeline_pks(5) [OF ok])
  then have dist: "distinct ?rows" by (simp add: sql_select_def pk_ok_def distinct_map)
  have "sql_update (\<lambda>r. stale r \<and> r \<notin> set ?rows) new_row (jobs db) = jobs db"
    unfolding sql_update_def by (intro map_idI) simp
  then have "pipeline_ok (with_jobs (sql_update (\<lambda>r. stale r \<and> r \<notin> set ?rows) new_row (jobs db)) ?db)"
    using ok by (simp add: with_jobs_def)
  from loop_ok [OF pk dist _ this] obtain db' where "try_fold body ?db ?rows = Inr db'" "jobs db' = jobs ?db"
      "pipeline_ok (with_jobs (sql_update stale new_row (jobs db)) db')" by auto
  then show ?thesis using with_jobs_same [of db' "sql_update stale new_row (jobs db)"] by simp
qed

end

section \<open>The three passes\<close>

lemma staged_hidden:
  assumes ok: "pipeline_ok db" and j: "j \<in> set (jobs db)" "job_status j = JobStaged"
    and s: "s \<in> set (submissions db)" "sub_id s = job_submission j"
  shows "\<not> sub_visible s"
proof
  note ctx = move_context [OF ok j(1) s]
  assume "sub_visible s"
  then obtain e where e: "e \<in> evals_of (sub_id s) db"
    using sub_okD(3) [OF ctx(3)] unfolding status_ok_def by blast
  then obtain i where i: "i \<in> jobs_of (sub_id s) db" "eval_matches (ev_status e) (job_status i)"
    using sub_okD(2) [OF ctx(3)] unfolding evals_ok_def by blast
  have "jobs_of (sub_id s) db = {j}"
    using sub_okD(1) [OF ctx(3)] ctx(1) j(2) unfolding jobs_ok_def by blast
  then show False using i j(2) by (simp add: eval_matches_waiting)
qed

definition staged_body :: "timestamp \<Rightarrow> db \<Rightarrow> job_row \<Rightarrow> service_error + db" where
  "staged_body now = (\<lambda>db j. Inr (set_submission_status now (job_submission j) SubFailed False db))"

definition retry_body :: "timestamp \<Rightarrow> db \<Rightarrow> job_row \<Rightarrow> service_error + db" where
  "retry_body now = (\<lambda>db j. settle_reaped_submission now SubQueued j (delete_running_evaluation_for_job (job_id j) db))"

definition exhausted_body :: "timestamp \<Rightarrow> db \<Rightarrow> job_row \<Rightarrow> service_error + db" where
  "exhausted_body now = (\<lambda>db j. settle_reaped_submission now SubFailed j (fail_running_evaluation now (job_id j) db))"

definition retry_stale :: "timestamp \<Rightarrow> int \<Rightarrow> job_row \<Rightarrow> bool" where
  "retry_stale now timeout = (\<lambda>j. lease_expired now timeout j \<and> job_attempt_count j < job_max_attempts j)"

definition exhausted_stale :: "timestamp \<Rightarrow> int \<Rightarrow> job_row \<Rightarrow> bool" where
  "exhausted_stale now timeout = (\<lambda>j. lease_expired now timeout j \<and> job_attempt_count j \<ge> job_max_attempts j)"

definition failed_eval :: "timestamp \<Rightarrow> evaluation_row \<Rightarrow> evaluation_row" where
  "failed_eval now e = e\<lparr>ev_status := EvalFailed, ev_finished_at := Some now\<rparr>"

lemma failed_eval_fields [simp]:
  "ev_submission (failed_eval now e) = ev_submission e" "ev_job (failed_eval now e) = ev_job e"
  "ev_target (failed_eval now e) = ev_target e" "ev_eval_type (failed_eval now e) = ev_eval_type e"
  "ev_id (failed_eval now e) = ev_id e" "ev_status (failed_eval now e) = EvalFailed"
  by (simp_all add: failed_eval_def)

lemma lease_expired_running: "lease_expired now timeout j \<Longrightarrow> job_status j = JobRunning"
  by (simp add: lease_expired_def)

interpretation staged_pass: reap_pass now "stale_staged now timeout"
  "fail_job_row now ''staged job was not promoted before timeout''" "\<lambda>i evs. evs" SubFailed "staged_body now"
  for now timeout
proof
  fix G :: db and j e
  assume "pipeline_ok G" "j \<in> set (jobs G)" "stale_staged now timeout j" "e \<in> set (evaluations G)" "ev_job e = job_id j"
  then have False using kept_eval(2) [of G j e] by (simp add: stale_staged_def)
  then show "ev_submission e = job_submission j \<and> ev_eval_type e = job_eval_type j \<and> ev_target e = job_target j
      \<and> eval_matches (ev_status e) (job_status (fail_job_row now ''staged job was not promoted before timeout'' j))
      \<and> ev_status e \<noteq> EvalCompleted" ..
next
  fix G db :: db and j s
  assume "pipeline_ok G" "j \<in> set (jobs G)" "stale_staged now timeout j" "s \<in> set (submissions G)" "sub_id s = job_submission j"
  then have "\<not> sub_visible s" using staged_hidden [of G j s] by (simp add: stale_staged_def)
  then show "staged_body now db j = Inr (set_submission_status now (job_submission j)
      (if sub_visible s then SubCompleted else SubFailed) (sub_visible s) (db\<lparr>evaluations := evaluations db\<rparr>))"
    by (simp add: staged_body_def)
qed (auto simp: stale_staged_def same_job_rows job_ok_rows)

interpretation retry_pass: reap_pass now "retry_stale now timeout" release_job_row
  "\<lambda>i evs. sql_delete (\<lambda>e. ev_job e = i \<and> ev_status e = EvalRunning) evs" SubQueued "retry_body now"
  for now timeout
proof
  fix G :: db and j e
  assume g: "pipeline_ok G" "j \<in> set (jobs G)" "retry_stale now timeout j" "ev_job e = job_id j"
    and e: "e \<in> set (sql_delete (\<lambda>e. ev_job e = job_id j \<and> ev_status e = EvalRunning) (evaluations G))"
  then have False
    using kept_eval(1) [of G j e] lease_expired_running [of now timeout j] by (simp add: retry_stale_def)
  then show "ev_submission e = job_submission j \<and> ev_eval_type e = job_eval_type j \<and> ev_target e = job_target j
      \<and> eval_matches (ev_status e) (job_status (release_job_row j)) \<and> ev_status e \<noteq> EvalCompleted" ..
next
  fix G db :: db and j s
  assume g: "pipeline_ok G" "j \<in> set (jobs G)" "retry_stale now timeout j" "s \<in> set (submissions G)"
    "sub_id s = job_submission j" "submissions db = submissions G" "evaluations db = evaluations G"
  have "job_status j = JobRunning" using g(3) lease_expired_running [of now timeout j] by (simp add: retry_stale_def)
  from settle_reaped_eq [OF g(1,2) this g(4,5), where db = "delete_running_evaluation_for_job (job_id j) db"] g(6,7)
  show "retry_body now db j = Inr (set_submission_status now (job_submission j)
      (if sub_visible s then SubCompleted else SubQueued) (sub_visible s)
      (db\<lparr>evaluations := sql_delete (\<lambda>e. ev_job e = job_id j \<and> ev_status e = EvalRunning) (evaluations db)\<rparr>))"
    by (simp add: retry_body_def delete_running_evaluation_for_job_def)
qed (auto simp: retry_stale_def same_job_rows job_ok_rows pk_ok_delete dest: lease_expired_running)

interpretation exhausted_pass: reap_pass now "exhausted_stale now timeout"
  "fail_job_row now ''worker lease expired after max attempts''"
  "\<lambda>i evs. sql_update (\<lambda>e. ev_job e = i \<and> ev_status e = EvalRunning) (failed_eval now) evs" SubFailed "exhausted_body now"
  for now timeout
proof
  fix G :: db and j e
  assume g: "pipeline_ok G" "j \<in> set (jobs G)" "exhausted_stale now timeout j" "ev_job e = job_id j"
    and e: "e \<in> set (sql_update (\<lambda>e. ev_job e = job_id j \<and> ev_status e = EvalRunning) (failed_eval now) (evaluations G))"
  have act: "job_active j" using g(3) lease_expired_running [of now timeout j] by (simp add: exhausted_stale_def)
  obtain q where q: "q \<in> set (evaluations G)" "ev_job q = job_id j" "e = failed_eval now q"
    using e g(4) kept_eval(1) [OF g(1,2) act, of e] unfolding in_sql_update by blast
  then show "ev_submission e = job_submission j \<and> ev_eval_type e = job_eval_type j \<and> ev_target e = job_target j
      \<and> eval_matches (ev_status e) (job_status (fail_job_row now ''worker lease expired after max attempts'' j))
      \<and> ev_status e \<noteq> EvalCompleted"
    using kept_eval(1) [OF g(1,2) act q(1,2)] by simp
next
  fix G db :: db and j s
  assume g: "pipeline_ok G" "j \<in> set (jobs G)" "exhausted_stale now timeout j" "s \<in> set (submissions G)"
    "sub_id s = job_submission j" "submissions db = submissions G" "evaluations db = evaluations G"
  have run: "job_status j = JobRunning" using g(3) lease_expired_running [of now timeout j] by (simp add: exhausted_stale_def)
  have eq: "fail_running_evaluation now (job_id j) db = db\<lparr>evaluations :=
      sql_update (\<lambda>e. ev_job e = job_id j \<and> ev_status e = EvalRunning) (failed_eval now) (evaluations db)\<rparr>"
    by (simp add: fail_running_evaluation_def failed_eval_def [abs_def])
  have other: "e \<in> set (evaluations (fail_running_evaluation now (job_id j) db)) \<longleftrightarrow> e \<in> set (evaluations G)"
    if "ev_job e \<noteq> job_id j" for e
    using g(7) that by (auto simp: eq in_sql_update)
  have "submissions (fail_running_evaluation now (job_id j) db) = submissions G" using g(6) by (simp add: eq)
  from settle_reaped_eq [OF g(1,2) run g(4,5) this other]
  show "exhausted_body now db j = Inr (set_submission_status now (job_submission j)
      (if sub_visible s then SubCompleted else SubFailed) (sub_visible s)
      (db\<lparr>evaluations := sql_update (\<lambda>e. ev_job e = job_id j \<and> ev_status e = EvalRunning) (failed_eval now) (evaluations db)\<rparr>))"
    by (simp add: exhausted_body_def eq)
qed (auto simp: exhausted_stale_def same_job_rows job_ok_rows pk_ok_update in_sql_update dest: lease_expired_running)

definition reaped_jobs :: "timestamp \<Rightarrow> int \<Rightarrow> job_row list \<Rightarrow> job_row list" where
  "reaped_jobs now timeout js =
     sql_update (exhausted_stale now timeout) (fail_job_row now ''worker lease expired after max attempts'')
       (sql_update (retry_stale now timeout) release_job_row
         (sql_update (stale_staged now timeout) (fail_job_row now ''staged job was not promoted before timeout'') js))"

lemma pipeline_ok_reap:
  assumes ok: "pipeline_ok db"
  shows "\<exists>res db'. reap_stuck_jobs now timeout db = Inr (res, db') \<and> pipeline_ok db'
    \<and> jobs db' = reaped_jobs now timeout (jobs db)"
proof -
  obtain db1 where 1: "reap_staged now timeout db = Inr (length (sql_select (stale_staged now timeout) (jobs db)), db1)" "pipeline_ok db1"
    "jobs db1 = sql_update (stale_staged now timeout) (fail_job_row now ''staged job was not promoted before timeout'') (jobs db)"
    using staged_pass.pass_keeps_pipeline [OF ok, of now timeout]
    by (auto simp: reap_staged_def staged_body_def Let_def)
  obtain db2 where 2: "reap_requeue now timeout db1 = Inr (length (sql_select (retry_stale now timeout) (jobs db1)), db2)" "pipeline_ok db2"
    "jobs db2 = sql_update (retry_stale now timeout) release_job_row (jobs db1)"
    using retry_pass.pass_keeps_pipeline [OF 1(2), of now timeout]
    by (auto simp: reap_requeue_def retry_body_def retry_stale_def Let_def)
  obtain db3 where 3: "reap_fail now timeout db2 = Inr (length (sql_select (exhausted_stale now timeout) (jobs db2)), db3)" "pipeline_ok db3"
    "jobs db3 = sql_update (exhausted_stale now timeout) (fail_job_row now ''worker lease expired after max attempts'') (jobs db2)"
    using exhausted_pass.pass_keeps_pipeline [OF 2(2), of now timeout]
    by (auto simp: reap_fail_def exhausted_body_def exhausted_stale_def Let_def)
  show ?thesis using 1 2 3 by (simp add: reap_stuck_jobs_def reaped_jobs_def)
qed

end
