(* ===== verification/Lifecycle_Admission.thy ===== *)
theory Lifecycle_Admission
  imports Lifecycle_Reaper
begin

text \<open>
  Admission keeps the pipeline invariant: creating a submission with its staged job, removing a
  submission that was never published, and queueing an official re-run.
\<close>

section \<open>Creation\<close>

lemma fold_lock_frame [simp]:
  "challenges (fold lock_scope ls db) = challenges db" "submissions (fold lock_scope ls db) = submissions db"
  "jobs (fold lock_scope ls db) = jobs db" "evaluations (fold lock_scope ls db) = evaluations db"
  "leaderboard (fold lock_scope ls db) = leaderboard db" "agents (fold lock_scope ls db) = agents db"
  "shortlist (fold lock_scope ls db) = shortlist db"
  by (induction ls arbitrary: db) simp_all

lemma counters_ignore_locks [simp]:
  "count_recent_runs_for_agent_challenge now a n t mode w (fold lock_scope ls db) = count_recent_runs_for_agent_challenge now a n t mode w db"
  "count_lifetime_runs_for_agent_challenge a n t mode (fold lock_scope ls db) = count_lifetime_runs_for_agent_challenge a n t mode db"
  "count_active_evaluation_jobs mode (fold lock_scope ls db) = count_active_evaluation_jobs mode db"
proof -
  have "counts_for (fold lock_scope ls db) a n t mode = counts_for db a n t mode"
    by (rule ext) (simp add: counts_for_def)
  then show "count_recent_runs_for_agent_challenge now a n t mode w (fold lock_scope ls db) = count_recent_runs_for_agent_challenge now a n t mode w db"
    "count_lifetime_runs_for_agent_challenge a n t mode (fold lock_scope ls db) = count_lifetime_runs_for_agent_challenge a n t mode db"
    by (simp_all add: count_recent_runs_for_agent_challenge_def count_lifetime_runs_for_agent_challenge_def)
qed (simp add: count_active_evaluation_jobs_def)

lemma under_limit_ok [result_simps]: "under_limit l used err = Inr x \<longleftrightarrow> (\<forall>m. l = Some m \<longrightarrow> used < m)"
  by (auto simp: under_limit_def result_simps split: option.splits)

lemma enforce_quota_admission_ok:
  "enforce_quota_admission now inp db = Inr (u, db1) \<longleftrightarrow>
     db1 = fold lock_scope (quota_scopes inp) db
     \<and> count_recent_runs_for_agent_challenge now (ci_agent inp) (ci_challenge inp) (ci_target inp) (ci_eval_type inp)
         (qa_window_seconds (ci_quota inp)) db < qa_per_agent_challenge_limit (ci_quota inp)
     \<and> (\<forall>m. qa_challenge_lifetime_limit (ci_quota inp) = Some m \<longrightarrow>
         count_lifetime_runs_for_agent_challenge (ci_agent inp) (ci_challenge inp) (ci_target inp) (ci_eval_type inp) db < m)
     \<and> (\<forall>m. qa_max_active_official_jobs (ci_quota inp) = Some m \<longrightarrow> count_active_evaluation_jobs Official db < m)"
  unfolding enforce_quota_admission_def Let_def result_simps by (auto simp: result_simps)

lemma insert_job_ok:
  "insert_job j db = Inr db' \<longleftrightarrow> (\<forall>i \<in> set (jobs db). job_id i \<noteq> job_id j)
     \<and> (job_active j \<longrightarrow> (\<forall>i \<in> set (jobs db). job_submission i = job_submission j \<longrightarrow> \<not> job_active i))
     \<and> db' = db\<lparr>jobs := sql_insert j (jobs db)\<rparr>"
  by (auto simp: insert_job_def)

lemma insert_submission_ok:
  "insert_submission s db = Inr db' \<longleftrightarrow> (\<forall>r \<in> set (submissions db). sub_id r \<noteq> sub_id s)
     \<and> (\<exists>a \<in> set (agents db). ag_id a = sub_agent s) \<and> db' = db\<lparr>submissions := sql_insert s (submissions db)\<rparr>"
  by (auto simp: insert_submission_def)

lemma new_job_fields [simp]:
  "job_id (new_job now i sid acc mode st p) = i" "job_submission (new_job now i sid acc mode st p) = sid"
  "job_challenge (new_job now i sid acc mode st p) = pl_challenge_name p" "job_target (new_job now i sid acc mode st p) = pl_target p"
  "job_eval_type (new_job now i sid acc mode st p) = mode" "job_status (new_job now i sid acc mode st p) = st"
  "job_created_at (new_job now i sid acc mode st p) = now"
  by (simp_all add: new_job_def)

lemma new_submission_fields [simp]:
  "sub_id (new_submission now inp c z u f) = ci_submission inp" "sub_challenge (new_submission now inp c z u f) = ch_name c"
  "sub_target (new_submission now inp c z u f) = ci_target inp" "sub_agent (new_submission now inp c z u f) = ci_agent inp"
  "sub_visible (new_submission now inp c z u f) = False" "sub_status (new_submission now inp c z u f) = SubPending"
  "sub_created_at (new_submission now inp c z u f) = now"
  by (simp_all add: new_submission_def)

lemma job_ok_new: "st \<in> {JobStaged, JobQueued} \<Longrightarrow> job_ok (new_job now i sid acc mode st p)"
  by (auto simp: job_ok_def new_job_def)

text \<open>What a successful creation did.\<close>

lemma create_ok:
  assumes "create_solution_submission_with_job env inp db = Inr (s, db')"
  obtains c spec acc p z u f where
    "c \<in> set (challenges db)" "ch_name c = ci_challenge inp" "ch_status c = ChActive" "ch_spec c = Some spec"
    "ensure_challenge_supports_eval_type_tx env (ch_name c) spec (ci_target inp) (ci_eval_type inp) (ci_agent inp) db = Inr ()"
    "enforce_quota_admission (env_now env) inp db = Inr ((), fold lock_scope (quota_scopes inp) db)"
    "ensure_parent_solution_submission_matches_scope_tx (ci_parent inp) (ci_agent inp) (ch_name c) (ci_target inp) (fold lock_scope (quota_scopes inp) db) = Inr ()"
    "s = new_submission (env_now env) inp c z u f"
    "\<forall>r \<in> set (submissions db). sub_id r \<noteq> ci_submission inp" "\<forall>j \<in> set (jobs db). job_id j \<noteq> ci_job_id inp"
    "pl_challenge_name p = ch_name c" "pl_target p = ci_target inp"
    "db' = (fold lock_scope (quota_scopes inp) db)\<lparr>submissions := sql_insert s (submissions db),
       jobs := sql_insert (new_job (env_now env) (ci_job_id inp) (ci_submission inp) acc (ci_eval_type inp) JobStaged p) (jobs db)\<rparr>"
proof -
  obtain c where c: "lock_active_challenge_for_admission_tx (ci_challenge inp) db = Inr c"
    using assms unfolding create_solution_submission_with_job_def and_then_eq_Inr by blast
  obtain spec where spec: "ch_spec c = Some spec"
    using assms c by (auto simp: create_solution_submission_with_job_def result_simps)
  have pol: "ensure_challenge_supports_eval_type_tx env (ch_name c) spec (ci_target inp) (ci_eval_type inp) (ci_agent inp) db = Inr ()"
    using assms c spec by (auto simp: create_solution_submission_with_job_def result_simps)
  have quota: "enforce_quota_admission (env_now env) inp db = Inr ((), fold lock_scope (quota_scopes inp) db)"
    using assms c spec by (auto simp: create_solution_submission_with_job_def result_simps enforce_quota_admission_ok)
  let ?db1 = "fold lock_scope (quota_scopes inp) db"
  have parent: "ensure_parent_solution_submission_matches_scope_tx (ci_parent inp) (ci_agent inp) (ch_name c) (ci_target inp) ?db1 = Inr ()"
    using assms c spec quota by (auto simp: create_solution_submission_with_job_def result_simps)
  let ?p = "\<lparr>pl_artifact_key = ci_artifact_key inp, pl_bundle_key = ch_bundle_key c,
      pl_public_bundle_key = ch_public_bundle_key c, pl_challenge_name = ch_name c, pl_target = ci_target inp\<rparr>"
  obtain z u f acc db2 where rest: "insert_submission (new_submission (env_now env) inp c z u f) ?db1 = Inr db2"
      "(case insert_job (new_job (env_now env) (ci_job_id inp) (ci_submission inp) acc (ci_eval_type inp) JobStaged ?p) db2 of
         Inl err \<Rightarrow> Inl (Database err) | Inr db3 \<Rightarrow> Inr (new_submission (env_now env) inp c z u f, db3)) = Inr (s, db')"
    using assms c spec quota
    by (auto simp: create_solution_submission_with_job_def result_simps Let_def)
  have ins: "insert_job (new_job (env_now env) (ci_job_id inp) (ci_submission inp) acc (ci_eval_type inp) JobStaged ?p) db2 = Inr db'"
    "s = new_submission (env_now env) inp c z u f"
    using rest(2) by (auto split: sum.splits)
  show thesis
    by (rule that [of c spec z u f ?p acc])
      (use lock_active_challenge_ok [OF c] spec pol quota parent ins rest(1) in \<open>simp_all add: insert_job_ok insert_submission_ok\<close>)
qed

lemma fresh_sub_empty:
  assumes "tables_ok db" "\<forall>r \<in> set (submissions db). sub_id r \<noteq> i"
  shows "jobs_of i db = {}" "evals_of i db = {}"
  using assms unfolding tables_ok_def jobs_of_def evals_of_def by blast+

lemma sub_ok_new:
  assumes "sub_status s = SubPending" "\<not> sub_visible s" "job_challenge j = sub_challenge s" "job_target j = sub_target s"
    "job_ok j" "job_status j = JobStaged"
  shows "sub_ok s {j} {}"
  using assms by (simp add: sub_ok_def jobs_ok_def evals_ok_def status_ok_def)

lemma board_ok_hidden:
  assumes "board_ok C V D L" "\<forall>e \<in> D. ev_submission e \<noteq> i"
  shows "board_ok C (insert (i, n, t, a, False) V) D L"
  unfolding board_ok_def
proof (intro conjI ballI allI impI)
  show "row_ok (insert (i, n, t, a, False) V) D l" if "l \<in> L" for l
    by (rule row_ok_mono [of V D]) (use assms(1) that in \<open>simp_all add: board_ok_def\<close>)
  show "\<exists>l \<in> L. lb_scope l = (n', t', a') \<and> row_covers C l e"
    if "e \<in> D" "(ev_submission e, n', t', a', v) \<in> insert (i, n, t, a, False) V" for e n' t' a' v
    using assms that unfolding board_ok_def by blast
qed

lemma pipeline_ok_create:
  assumes ok: "pipeline_ok db" and cr: "create_solution_submission_with_job env inp db = Inr (s, db')"
  shows "pipeline_ok db'"
  using cr
proof (rule create_ok)
  fix c spec acc p z u f
  assume c: "c \<in> set (challenges db)" and sp: "ch_spec c = Some spec" and s: "s = new_submission (env_now env) inp c z u f"
    and fresh: "\<forall>r \<in> set (submissions db). sub_id r \<noteq> ci_submission inp" "\<forall>j \<in> set (jobs db). job_id j \<noteq> ci_job_id inp"
    and p: "pl_challenge_name p = ch_name c" "pl_target p = ci_target inp"
    and db': "db' = (fold lock_scope (quota_scopes inp) db)\<lparr>submissions := sql_insert s (submissions db),
       jobs := sql_insert (new_job (env_now env) (ci_job_id inp) (ci_submission inp) acc (ci_eval_type inp) JobStaged p) (jobs db)\<rparr>"
  let ?j = "new_job (env_now env) (ci_job_id inp) (ci_submission inp) acc (ci_eval_type inp) JobStaged p"
  have t: "tables_ok db" "subs_ok db" using ok by (simp_all add: pipeline_ok_def)
  have sid: "sub_id s = ci_submission inp" by (simp add: s)
  have tabs: "submissions db' = sql_insert s (submissions db)" "jobs db' = sql_insert ?j (jobs db)"
    "evaluations db' = evaluations db" "challenges db' = challenges db" "leaderboard db' = leaderboard db"
    by (simp_all add: db')
  have jof: "jobs_of i db' = (if i = ci_submission inp then insert ?j (jobs_of i db) else jobs_of i db)" for i
    by (auto simp: jobs_of_def tabs)
  have eof: "evals_of i db' = evals_of i db" for i by (simp add: evals_of_def tabs)
  have "ch_spec_json c \<noteq> SpecNull" using sp by (cases "ch_spec_json c") simp_all
  then have "sub_fk db' s" using c by (auto simp: sub_fk_def tabs s)
  then have "tables_ok db'"
    using t(1) fresh sid by (auto simp: tables_ok_def tabs sub_fk_def pk_ok_insert)
  moreover have "subs_ok db'"
    unfolding subs_ok_def tabs(1)
  proof
    fix q assume q: "q \<in> set (sql_insert s (submissions db))"
    show "sub_ok q (jobs_of (sub_id q) db') (evals_of (sub_id q) db')"
    proof (cases "q = s")
      case True
      have "sub_ok s {?j} {}" by (rule sub_ok_new) (simp_all add: s p job_ok_new)
      then show ?thesis using fresh_sub_empty [OF t(1) fresh(1)] True sid by (simp add: jof eof)
    next
      case False
      then have "q \<in> set (submissions db)" using q by simp
      then show ?thesis using t(2) fresh(1) by (simp add: subs_ok_def jof eof)
    qed
  qed
  moreover have "board_ok (set (challenges db')) (sub_core ` set (submissions db')) (done_evals db') (set (leaderboard db'))"
  proof -
    have "\<forall>e \<in> done_evals db. ev_submission e \<noteq> ci_submission inp"
      using fresh_sub_empty(2) [OF t(1) fresh(1)] by (auto simp: done_evals_def evals_of_def)
    from board_ok_hidden [OF _ this, of "set (challenges db)" _ "set (leaderboard db)"] ok show ?thesis
      by (simp add: pipeline_ok_def tabs done_evals_def sub_core_def s)
  qed
  ultimately show ?thesis by (simp add: pipeline_ok_def)
qed

section \<open>Queueing an official re-run\<close>

lemma select_for_queue_ok:
  assumes "select_for_queue sid db = Inr (s, c)"
  shows "s \<in> set (submissions db) \<and> sub_id s = sid \<and> c \<in> set (challenges db) \<and> ch_name c = sub_challenge s
    \<and> ch_status c = ChActive"
proof -
  obtain q where q: "sub_by_id sid (submissions db) = Some q"
    using assms by (cases "sub_by_id sid (submissions db)") (simp_all add: select_for_queue_def)
  then have "q = s" and f: "sql_first (\<lambda>c. ch_name c = sub_challenge q \<and> ch_status c = ChActive \<and> ch_spec_json c \<noteq> SpecNull) (challenges db) = Some c"
    using assms by (auto simp: select_for_queue_def result_simps)
  then show ?thesis using sql_first_Some [OF f] sub_tbl.lookup_Some_in [OF q] by simp
qed

lemma admit_official_capacity_ok:
  assumes "admit_official_capacity mode m db = Inr (u, db1)"
  shows "db1 = (if mode = Official \<and> m \<noteq> None then lock_scope ''global:official-active'' db else db)
    \<and> (mode = Official \<longrightarrow> (\<forall>k. m = Some k \<longrightarrow> count_active_evaluation_jobs Official db < k))"
  using assms
  by (cases mode; cases m) (auto simp: admit_official_capacity_def Let_def result_simps count_active_evaluation_jobs_def)

text \<open>What a successful queueing did before the submission row is adjusted.\<close>

lemma queue_ok:
  assumes "queue_tx env inp db = Inr ((s, acc, p), db')"
  obtains c db1 where "s \<in> set (submissions db)" "sub_id s = qi_submission inp" "c \<in> set (challenges db)"
    "\<forall>j \<in> set (jobs db). job_submission j = qi_submission inp \<longrightarrow> \<not> job_active j"
    "\<forall>j \<in> set (jobs db). job_id j \<noteq> qi_job_id inp"
    "pl_challenge_name p = sub_challenge s" "pl_target p = sub_target s"
    "db1 = (if qi_eval_type inp = Official \<and> qi_max_active_official_jobs inp \<noteq> None then lock_scope ''global:official-active'' db else db)"
    "qi_eval_type inp = Official \<longrightarrow> (\<forall>k. qi_max_active_official_jobs inp = Some k \<longrightarrow> count_active_evaluation_jobs Official db < k)"
    "hide_for_rerun (env_now env) (qi_eval_type inp) s (db1\<lparr>jobs := sql_insert (new_job (env_now env) (qi_job_id inp)
       (qi_submission inp) acc (qi_eval_type inp) JobQueued p) (jobs db)\<rparr>) = Inr ((), db')"
proof -
  obtain s' c where sel: "select_for_queue (qi_submission inp) db = Inr (s', c)"
    using assms unfolding queue_tx_def and_then_eq_Inr by auto
  obtain acc' ak bk pbk db1 where pre: "ensure_no_active_job_for_submission_tx (qi_submission inp) db = Inr ()"
      "admit_official_capacity (qi_eval_type inp) (qi_max_active_official_jobs inp) db = Inr ((), db1)"
      "(case insert_job (new_job (env_now env) (qi_job_id inp) (qi_submission inp) acc' (qi_eval_type inp) JobQueued
            \<lparr>pl_artifact_key = ak, pl_bundle_key = bk, pl_public_bundle_key = pbk,
             pl_challenge_name = sub_challenge s', pl_target = sub_target s'\<rparr>) db1 of
          Inl err \<Rightarrow> Inl (map_active_job_conflict err)
        | Inr db2 \<Rightarrow> and_then (hide_for_rerun (env_now env) (qi_eval_type inp) s' db2) (\<lambda>(_, db3). Inr ((s', acc',
            \<lparr>pl_artifact_key = ak, pl_bundle_key = bk, pl_public_bundle_key = pbk,
             pl_challenge_name = sub_challenge s', pl_target = sub_target s'\<rparr>), db3)))
        = Inr ((s, acc, p), db')"
    using assms sel by (auto simp: queue_tx_def result_simps Let_def)
  let ?p = "\<lparr>pl_artifact_key = ak, pl_bundle_key = bk, pl_public_bundle_key = pbk,
      pl_challenge_name = sub_challenge s', pl_target = sub_target s'\<rparr>"
  from pre(3) obtain db2 where post: "insert_job (new_job (env_now env) (qi_job_id inp) (qi_submission inp) acc' (qi_eval_type inp) JobQueued ?p) db1 = Inr db2"
      "and_then (hide_for_rerun (env_now env) (qi_eval_type inp) s' db2) (\<lambda>(_, db3). Inr ((s', acc', ?p), db3)) = Inr ((s, acc, p), db')"
    by (auto split: sum.splits)
  have steps: "s = s'" "ensure_no_active_job_for_submission_tx (qi_submission inp) db = Inr ()"
      "pl_challenge_name p = sub_challenge s" "pl_target p = sub_target s"
      "admit_official_capacity (qi_eval_type inp) (qi_max_active_official_jobs inp) db = Inr ((), db1)"
      "insert_job (new_job (env_now env) (qi_job_id inp) (qi_submission inp) acc (qi_eval_type inp) JobQueued p) db1 = Inr db2"
      "hide_for_rerun (env_now env) (qi_eval_type inp) s db2 = Inr ((), db')"
    using pre post by (auto simp: result_simps)
  note cap = admit_official_capacity_ok [OF steps(5)]
  then have frame: "jobs db1 = jobs db" by simp
  show thesis
    by (rule that [of c db1])
      (use select_for_queue_ok [OF sel] steps cap frame in
        \<open>simp_all add: ensure_no_active_job_for_submission_tx_def result_simps insert_job_ok\<close>)
qed

lemma repair_noop:
  assumes "\<forall>l \<in> set (leaderboard db). lb_best l \<noteq> sid"
  shows "\<exists>ls. repair_leaderboard_entry_for_solution_submission_tx now sid db = Inr ((), fold lock_scope ls db)"
proof (cases "find_leaderboard_repair_scope sid db")
  case None
  then show ?thesis by (intro exI [where x = "[]"]) (simp add: repair_leaderboard_entry_for_solution_submission_tx_def)
next
  case (Some sc)
  have "\<not> leaderboard_entry_points_to_submission sc sid (lock_leaderboard_scope sc db)"
    using assms lb_tbl.lookup_Some_in [of "scope_key sc" "leaderboard db"]
    by (auto simp: leaderboard_entry_points_to_submission_def lock_leaderboard_scope_def split: option.splits)
  then show ?thesis
    using Some by (intro exI [where x = "[''leaderboard:'' @ rs_challenge sc @ '':'' @ rs_target sc @ '':'' @ rs_agent sc]"])
      (simp add: repair_leaderboard_entry_for_solution_submission_tx_def lock_leaderboard_scope_def)
qed

lemma row_submission:
  assumes ok: "pipeline_ok db" and l: "l \<in> set (leaderboard db)"
  obtains q where "q \<in> set (submissions db)" "sub_core q = (lb_best l, lb_challenge l, lb_target l, lb_agent l, True)"
proof -
  have "row_ok (sub_core ` set (submissions db)) (done_evals db) l"
    using ok l by (simp add: pipeline_ok_def board_ok_def)
  then have "(lb_best l, lb_challenge l, lb_target l, lb_agent l, True) \<in> sub_core ` set (submissions db)"
    by (simp add: row_ok_def)
  then show thesis by (rule imageE) (use that in simp)
qed

lemma hidden_not_on_board:
  assumes ok: "pipeline_ok db" and s: "s \<in> set (submissions db)" "\<not> sub_visible s" and l: "l \<in> set (leaderboard db)"
  shows "lb_best l \<noteq> sub_id s"
proof
  assume eq: "lb_best l = sub_id s"
  obtain q where in_q: "q \<in> set (submissions db)" and q: "sub_core q = (lb_best l, lb_challenge l, lb_target l, lb_agent l, True)"
    by (rule row_submission [OF ok l])
  have "q = s" using pk_ok_inj [OF pipeline_pks(4) [OF ok] in_q s(1)] q eq by (simp add: sub_core_def)
  then show False using q s(2) by (simp add: sub_core_def)
qed

lemma sub_ok_enqueue:
  assumes ok: "sub_ok s J E" and idle: "\<forall>j \<in> J. \<not> job_active j"
    and j: "job_ok j" "job_status j = JobQueued" "job_challenge j = sub_challenge s" "job_target j = sub_target s"
      "job_eval_type j = Official"
    and s': "sub_challenge s' = sub_challenge s" "sub_target s' = sub_target s" "sub_visible s' = sub_visible s"
      "sub_status s' = (if sub_visible s then sub_status s else SubQueued)"
  shows "sub_ok s' (insert j J) E"
proof -
  have parts: "jobs_ok s J" "evals_ok s J E" "status_ok s J E" using ok by (simp_all add: sub_ok_def)
  have staged: "job_status i \<noteq> JobStaged" if "i \<in> J" for i using idle that by auto
  have "jobs_ok s' (insert j J)"
    unfolding jobs_ok_def
  proof (intro conjI ballI impI)
    fix i assume i: "i \<in> insert j J"
    then show "job_ok i" "job_challenge i = sub_challenge s'" "job_target i = sub_target s'"
      using jobs_okD [OF parts(1), of i] j s' by (cases "i = j"; simp)+
    show "i = k" if "k \<in> insert j J" "job_active i \<and> job_active k" for k
      using that i idle by blast
    show "insert j J = {i}" if "job_status i = JobStaged"
      using that i staged [of i] j(2) by (cases "i = j") simp_all
  qed
  moreover have "evals_ok s' (insert j J) E"
    using parts(2) j(2) s'(2) unfolding evals_ok_def by auto
  moreover have "status_ok s' (insert j J) E"
    unfolding status_ok_def
  proof (intro conjI impI ballI)
    show "sub_visible s' \<longleftrightarrow> (\<exists>e \<in> E. official_done e)"
      using parts(3) s'(3) unfolding status_ok_def by simp
    show "sub_status s' = SubCompleted" if "sub_visible s'"
      using parts(3) s'(3,4) that unfolding status_ok_def by simp
    show "job_eval_type i = Official" if "i \<in> insert j J" "job_active i" for i
      using that idle j(5) by blast
    show "sub_status s' = mirror_status (job_status i)" if "\<not> sub_visible s'" "i \<in> insert j J" "job_active i" for i
    proof -
      have "i = j" using that idle by blast
      then show ?thesis using that(1) j(2) s'(3,4) by simp
    qed
    show "sub_status s' \<in> {SubCompleted, SubFailed}" if "\<forall>i \<in> insert j J. \<not> job_active i"
      using that j(2) by simp
  qed
  ultimately show ?thesis by (simp add: sub_ok_def)
qed

lemma hide_for_rerun_ok:
  assumes ok: "pipeline_ok G" and s: "s \<in> set (submissions G)"
    and db: "submissions db = submissions G" "leaderboard db = leaderboard G"
    and h: "hide_for_rerun now Official s db = Inr (u, db')"
  shows "\<exists>g. submissions db' = sql_update (\<lambda>r. sub_id r = sub_id s \<and> True) g (submissions G)
      \<and> (\<forall>r. sub_id (g r) = sub_id r \<and> sub_challenge (g r) = sub_challenge r \<and> sub_target (g r) = sub_target r \<and> sub_agent (g r) = sub_agent r)
      \<and> sub_visible (g s) = sub_visible s \<and> sub_status (g s) = (if sub_visible s then sub_status s else SubQueued)
      \<and> jobs db' = jobs db \<and> evaluations db' = evaluations db \<and> challenges db' = challenges db \<and> leaderboard db' = leaderboard G"
proof (cases "sub_visible s")
  case True
  then show ?thesis using h db
    by (intro exI [where x = "\<lambda>r. r\<lparr>sub_updated_at := now\<rparr>"]) (auto simp: hide_for_rerun_def)
next
  case False
  let ?db = "set_submission_status now (sub_id s) SubQueued False db"
  have "\<forall>l \<in> set (leaderboard ?db). lb_best l \<noteq> sub_id s"
    using hidden_not_on_board [OF ok s False] db(2) by simp
  from repair_noop [OF this, of now] obtain ls where "db' = fold lock_scope ls ?db"
    using h False by (auto simp: hide_for_rerun_def)
  then show ?thesis using False db
    by (intro exI [where x = "\<lambda>r. r\<lparr>sub_status := SubQueued, sub_visible := False, sub_updated_at := now\<rparr>"])
      (simp add: set_submission_status_def)
qed

lemma pipeline_ok_queue:
  assumes ok: "pipeline_ok db" and q: "queue_tx env inp db = Inr ((s, acc, p), db')" and mode: "qi_eval_type inp = Official"
  shows "pipeline_ok db'"
  using q
proof (rule queue_ok)
  fix c db1
  assume s: "s \<in> set (submissions db)" "sub_id s = qi_submission inp"
    and idle: "\<forall>j \<in> set (jobs db). job_submission j = qi_submission inp \<longrightarrow> \<not> job_active j"
    and fresh: "\<forall>j \<in> set (jobs db). job_id j \<noteq> qi_job_id inp"
    and p: "pl_challenge_name p = sub_challenge s" "pl_target p = sub_target s"
    and db1: "db1 = (if qi_eval_type inp = Official \<and> qi_max_active_official_jobs inp \<noteq> None then lock_scope ''global:official-active'' db else db)"
    and h: "hide_for_rerun (env_now env) (qi_eval_type inp) s (db1\<lparr>jobs := sql_insert (new_job (env_now env) (qi_job_id inp)
       (qi_submission inp) acc (qi_eval_type inp) JobQueued p) (jobs db)\<rparr>) = Inr ((), db')"
  let ?j = "new_job (env_now env) (qi_job_id inp) (qi_submission inp) acc Official JobQueued p"
  have t: "tables_ok db" "subs_ok db" and pks: "pk_ok sub_id (submissions db)" "pk_ok job_id (jobs db)"
    using ok by (simp_all add: pipeline_ok_def tables_ok_def)
  have frame: "submissions db1 = submissions db" "leaderboard db1 = leaderboard db" "evaluations db1 = evaluations db"
    "challenges db1 = challenges db" by (simp_all add: db1)
  obtain g where subs: "submissions db' = sql_update (\<lambda>r. sub_id r = sub_id s \<and> True) g (submissions db)"
    and g: "\<forall>r. sub_id (g r) = sub_id r \<and> sub_challenge (g r) = sub_challenge r \<and> sub_target (g r) = sub_target r \<and> sub_agent (g r) = sub_agent r"
      "sub_visible (g s) = sub_visible s" "sub_status (g s) = (if sub_visible s then sub_status s else SubQueued)"
    and tabs: "jobs db' = sql_insert ?j (jobs db)" "evaluations db' = evaluations db" "challenges db' = challenges db"
      "leaderboard db' = leaderboard db"
    using hide_for_rerun_ok [OF ok s(1) _ _ h [unfolded mode]] frame by auto
  have set_subs: "set (submissions db') = insert (g s) (set (submissions db) - {s})"
    unfolding subs using set_update_keyed [OF pks(1) s(1) refl, of "\<lambda>_. True" g] by simp
  have jof: "jobs_of i db' = (if i = sub_id s then insert ?j (jobs_of i db) else jobs_of i db)" for i
    using s(2) by (auto simp: jobs_of_def tabs)
  have eof: "evals_of i db' = evals_of i db" for i by (simp add: evals_of_def tabs)
  have ex: "\<exists>r \<in> set (submissions db'). sub_id r = i" if "\<exists>r \<in> set (submissions db). sub_id r = i" for i
    by (rule ex_sub_replace [OF set_subs _ that]) (use g in simp)
  have "pk_ok sub_id (submissions db')" unfolding subs by (rule pk_ok_update [OF pks(1)]) (use g in simp)
  moreover have "sub_fk db' r" if "r \<in> set (submissions db')" for r
    using that t(1) g(1) s(1) unfolding set_subs by (auto simp: tables_ok_def sub_fk_def tabs)
  ultimately have "tables_ok db'"
    using t(1) ex s fresh by (auto simp: tables_ok_def tabs pk_ok_insert)
  moreover have "subs_ok db'"
    unfolding subs_ok_def
  proof
    fix r assume r: "r \<in> set (submissions db')"
    show "sub_ok r (jobs_of (sub_id r) db') (evals_of (sub_id r) db')"
    proof (cases "r = g s")
      case True
      have "sub_ok s (jobs_of (sub_id s) db) (evals_of (sub_id s) db)" using t(2) s(1) by (simp add: subs_ok_def)
      then have "sub_ok (g s) (insert ?j (jobs_of (sub_id s) db)) (evals_of (sub_id s) db)"
        by (rule sub_ok_enqueue) (use idle s(2) p g in \<open>simp_all add: jobs_of_def job_ok_new\<close>)
      then show ?thesis using True g(1) by (simp add: jof eof)
    next
      case False
      then have "r \<in> set (submissions db)" "r \<noteq> s" using r set_subs by auto
      moreover from this have "sub_id r \<noteq> sub_id s" using pk_ok_inj [OF pks(1) _ s(1)] by blast
      ultimately show ?thesis using t(2) by (simp add: subs_ok_def jof eof)
    qed
  qed
  moreover have "sub_core ` set (submissions db') = sub_core ` set (submissions db)"
    by (rule image_replace [OF set_subs s(1)]) (use g in \<open>simp add: sub_core_def\<close>)
  ultimately show ?thesis using ok by (simp add: pipeline_ok_def tabs done_evals_def)
qed

section \<open>Removing a submission that was never published\<close>

lemma sub_ok_cong:
  assumes "sub_challenge s' = sub_challenge s" "sub_target s' = sub_target s" "sub_visible s' = sub_visible s" "sub_status s' = sub_status s"
  shows "sub_ok s' J E = sub_ok s J E"
  using assms by (simp add: sub_ok_def jobs_ok_def evals_ok_def status_ok_def)

lemma delete_tables:
  assumes ok: "pipeline_ok db" and hidden: "\<And>s. s \<in> set (submissions db) \<Longrightarrow> sub_id s = sid \<Longrightarrow> \<not> sub_visible s"
  shows "jobs (delete_solution_submission sid db) = sql_delete (\<lambda>j. job_submission j = sid) (jobs db)"
    "challenges (delete_solution_submission sid db) = challenges db"
    "evaluations (delete_solution_submission sid db) = sql_delete (\<lambda>e. ev_submission e = sid) (evaluations db)"
    "leaderboard (delete_solution_submission sid db) = leaderboard db"
proof -
  have "ev_submission e = sid"
    if e: "e \<in> set (evaluations db)" "ev_job e \<in> job_id ` set (sql_select (\<lambda>j. job_submission j = sid) (jobs db))" for e
  proof -
    from e(2) obtain j where j: "ev_job e = job_id j" "j \<in> set (sql_select (\<lambda>j. job_submission j = sid) (jobs db))" by (rule imageE)
    then show ?thesis using eval_of_job(1) [OF ok _ e(1), of j] by simp
  qed
  then show "evaluations (delete_solution_submission sid db) = sql_delete (\<lambda>e. ev_submission e = sid) (evaluations db)"
    unfolding delete_solution_submission_def Let_def sql_delete_def by (simp cong: filter_cong) (rule filter_cong, simp_all, blast)
  have "lb_best l \<noteq> sid" if l: "l \<in> set (leaderboard db)" for l
  proof -
    obtain q where "q \<in> set (submissions db)" "sub_core q = (lb_best l, lb_challenge l, lb_target l, lb_agent l, True)"
      by (rule row_submission [OF ok l])
    then show ?thesis using hidden [of q] by (auto simp: sub_core_def)
  qed
  then show "leaderboard (delete_solution_submission sid db) = leaderboard db"
    by (simp add: delete_solution_submission_def Let_def sql_delete_def filter_id_conv)
qed (simp_all add: delete_solution_submission_def Let_def)

lemma board_ok_shrink:
  assumes "board_ok C V D L" "V' \<subseteq> V" "\<And>l. l \<in> L \<Longrightarrow> row_ok V' D l"
  shows "board_ok C V' D L"
  unfolding board_ok_def
proof (intro conjI ballI allI impI)
  fix e n t a v assume "e \<in> D" "(ev_submission e, n, t, a, v) \<in> V'"
  then have "e \<in> D" "(ev_submission e, n, t, a, v) \<in> V" using assms(2) by auto
  then show "\<exists>l \<in> L. lb_scope l = (n, t, a) \<and> row_covers C l e" using assms(1) unfolding board_ok_def by blast
qed (rule assms(3))

lemma pipeline_ok_delete:
  assumes ok: "pipeline_ok db" and hidden: "\<And>s. s \<in> set (submissions db) \<Longrightarrow> sub_id s = sid \<Longrightarrow> \<not> sub_visible s"
  shows "pipeline_ok (delete_solution_submission sid db)"
proof -
  let ?db = "delete_solution_submission sid db"
  define clear where "clear = (\<lambda>s :: submission_row. if sub_parent s = Some sid then s\<lparr>sub_parent := None\<rparr> else s)"
  have t: "tables_ok db" "subs_ok db" using ok by (simp_all add: pipeline_ok_def)
  note tabs = delete_tables [OF ok hidden]
  have subs: "submissions ?db = map clear (sql_delete (\<lambda>s. sub_id s = sid) (submissions db))"
    by (simp add: delete_solution_submission_def Let_def sql_update_def clear_def)
  have clear: "sub_id (clear s) = sub_id s" "sub_core (clear s) = sub_core s" "sub_challenge (clear s) = sub_challenge s"
    "sub_ok (clear s) J E = sub_ok s J E" for s J E
    using sub_ok_cong [of "s\<lparr>sub_parent := None\<rparr>" s J E] by (simp_all add: clear_def sub_core_def)
  have views: "jobs_of i ?db = jobs_of i db" "evals_of i ?db = evals_of i db" if "i \<noteq> sid" for i
    using that by (auto simp: jobs_of_def evals_of_def tabs)
  have kept: "\<exists>r \<in> set (submissions ?db). sub_id r = i" if ex: "\<exists>r \<in> set (submissions db). sub_id r = i" "i \<noteq> sid" for i
  proof -
    obtain r where "r \<in> set (submissions db)" "sub_id r = i" using ex(1) by blast
    then show ?thesis using ex(2) by (intro bexI [where x = "clear r"]) (simp_all add: subs clear)
  qed
  have "map sub_id (submissions ?db) = map sub_id (sql_delete (\<lambda>s. sub_id s = sid) (submissions db))"
    by (simp add: subs clear)
  then have "pk_ok sub_id (submissions ?db)"
    using pk_ok_delete [OF pipeline_pks(4) [OF ok]] by (metis pk_ok_def)
  moreover have "sub_fk ?db r" if "r \<in> set (submissions ?db)" for r
  proof -
    obtain q where "q \<in> set (submissions db)" "r = clear q" using \<open>r \<in> _\<close> by (auto simp: subs)
    then show ?thesis using t(1) by (simp add: tables_ok_def sub_fk_def tabs clear)
  qed
  ultimately have "tables_ok ?db"
    using t(1) kept by (auto simp: tables_ok_def tabs pk_ok_delete)
  moreover have "subs_ok ?db"
    unfolding subs_ok_def
  proof
    fix r assume "r \<in> set (submissions ?db)"
    then obtain q where "q \<in> set (submissions db)" "sub_id q \<noteq> sid" "r = clear q" by (auto simp: subs)
    then show "sub_ok r (jobs_of (sub_id r) ?db) (evals_of (sub_id r) ?db)"
      using t(2) by (simp add: subs_ok_def views clear)
  qed
  moreover have "board_ok (set (challenges ?db)) (sub_core ` set (submissions ?db)) (done_evals ?db) (set (leaderboard ?db))"
  proof -
    have "official_done e \<Longrightarrow> ev_submission e \<noteq> sid" if in_e: "e \<in> set (evaluations db)" for e
    proof
      assume e: "official_done e" "ev_submission e = sid"
      obtain s where s: "s \<in> set (submissions db)" "sub_id s = ev_submission e"
        using t(1) in_e unfolding tables_ok_def by blast
      have "e \<in> evals_of (sub_id s) db" using in_e s(2) by (simp add: evals_of_def)
      moreover have "sub_visible s \<longleftrightarrow> (\<exists>e \<in> evals_of (sub_id s) db. official_done e)"
        using t(2) s(1) by (simp add: subs_ok_def sub_ok_def status_ok_def)
      ultimately have "sub_visible s" using e(1) by blast
      then show False using hidden [OF s(1)] s(2) e(2) by simp
    qed
    then have D: "done_evals ?db = done_evals db" by (auto simp: done_evals_def tabs)
    have board: "board_ok (set (challenges db)) (sub_core ` set (submissions db)) (done_evals db) (set (leaderboard db))"
      using ok by (simp add: pipeline_ok_def)
    have sub: "sub_core ` set (submissions ?db) \<subseteq> sub_core ` set (submissions db)" by (auto simp: subs clear)
    have "row_ok (sub_core ` set (submissions ?db)) (done_evals db) l" if l: "l \<in> set (leaderboard db)" for l
    proof -
      obtain q where q: "q \<in> set (submissions db)" "sub_core q = (lb_best l, lb_challenge l, lb_target l, lb_agent l, True)"
        by (rule row_submission [OF ok l])
      then have "sub_id q \<noteq> sid" using hidden [of q] by (auto simp: sub_core_def)
      then have "sub_core q \<in> sub_core ` set (submissions ?db)"
        using q(1) by (intro image_eqI [where x = "clear q"]) (simp_all add: subs clear)
      then show ?thesis using board l q(2) by (simp add: board_ok_def row_ok_def)
    qed
    then show ?thesis using board_ok_shrink [OF board sub] by (simp add: tabs D)
  qed
  ultimately show ?thesis by (simp add: pipeline_ok_def)
qed

end
