(* ===== verification/Challenge_Publishing.thy ===== *)
theory Challenge_Publishing
  imports Lifecycle_Admission
begin

text \<open>
  Publishing and archiving a challenge, \<open>crates/persistence/src/db/challenges/publishing.rs\<close>. The
  columns that repeat parts of the contract (times, eligibility, limits, visibility) are not read by
  the modelled queries and have no field in the row; the two times are parsed before the insert.
\<close>

record publish_challenge_input =
  pi_challenge_name :: challenge_name
  pi_title :: string
  pi_bundle_key :: storage_key
  pi_public_bundle_key :: storage_key
  pi_statement_key :: storage_key
  pi_spec :: challenge_bundle_spec

definition parse_required_time :: "env \<Rightarrow> string \<Rightarrow> timestamp result" where
  "parse_required_time env value =
     (case env_parse_rfc3339 env value of
        Inl e \<Rightarrow> Inl (ValidationErr (''invalid challenge timestamp: '' @ e)) | Inr t \<Rightarrow> Inr t)"

definition parse_optional_time :: "env \<Rightarrow> string option \<Rightarrow> timestamp option result" where
  "parse_optional_time env value =
     (case value of None \<Rightarrow> Inr None | Some v \<Rightarrow> and_then (parse_required_time env v) (\<lambda>t. Inr (Some t)))"

definition published_columns :: "publish_challenge_input \<Rightarrow> challenge_row \<Rightarrow> challenge_row" where
  "published_columns inp c =
     c\<lparr>ch_title := pi_title inp, ch_bundle_key := pi_bundle_key inp,
       ch_public_bundle_key := pi_public_bundle_key inp, ch_statement_key := pi_statement_key inp,
       ch_spec_json := SpecValid (pi_spec inp)\<rparr>"

definition published_row :: "publish_challenge_input \<Rightarrow> challenge_row" where
  "published_row inp =
     \<lparr>ch_name = pi_challenge_name inp, ch_title = pi_title inp, ch_bundle_key = pi_bundle_key inp,
      ch_public_bundle_key = pi_public_bundle_key inp, ch_statement_key = pi_statement_key inp,
      ch_spec_json = SpecValid (pi_spec inp), ch_status = ChActive\<rparr>"

text \<open>\<open>INSERT ... ON CONFLICT DO UPDATE ... WHERE spec_json IS NULL AND status = 'active' RETURNING\<close>.\<close>

definition publish_challenge_tx :: "env \<Rightarrow> publish_challenge_input \<Rightarrow> challenge_row tx" where
  "publish_challenge_tx env inp db =
     and_then (parse_required_time env (starts_at (pi_spec inp))) (\<lambda>_.
     and_then (parse_optional_time env (closes_at (pi_spec inp))) (\<lambda>_.
     (case challenge_by_name (pi_challenge_name inp) (challenges db) of
        None \<Rightarrow> Inr (published_row inp, db\<lparr>challenges := sql_insert (published_row inp) (challenges db)\<rparr>)
      | Some c \<Rightarrow>
          if ch_spec_json c = SpecNull \<and> ch_status c = ChActive
          then Inr (published_columns inp c, db\<lparr>challenges :=
                 sql_update (\<lambda>r. ch_name r = pi_challenge_name inp) (published_columns inp) (challenges db)\<rparr>)
          else Inl Conflict)))"

definition publish_challenge :: "env \<Rightarrow> publish_challenge_input \<Rightarrow> db \<Rightarrow> challenge_row result \<times> db" where
  "publish_challenge env inp db = transact (publish_challenge_tx env inp) db"

datatype seed_challenge_sync_outcome = SeedCreated | SeedRefreshed | SeedSkippedArchived

definition sync_seeded_challenge ::
  "env \<Rightarrow> publish_challenge_input \<Rightarrow> db \<Rightarrow> seed_challenge_sync_outcome result \<times> db" where
  "sync_seeded_challenge env inp db =
     (case publish_challenge env inp db of
        (Inr _, db1) \<Rightarrow> (Inr SeedCreated, db1)
      | (Inl Conflict, db1) \<Rightarrow>
          (case and_then (parse_required_time env (starts_at (pi_spec inp))) (\<lambda>_.
                parse_optional_time env (closes_at (pi_spec inp))) of
             Inl e \<Rightarrow> (Inl e, db1)
           | Inr _ \<Rightarrow>
               if sql_count (\<lambda>r. ch_name r = pi_challenge_name inp \<and> ch_status r = ChActive) (challenges db1) = 1
               then (Inr SeedRefreshed, db1\<lparr>challenges :=
                      sql_update (\<lambda>r. ch_name r = pi_challenge_name inp \<and> ch_status r = ChActive)
                        (published_columns inp) (challenges db1)\<rparr>)
               else (case map_option ch_status (challenge_by_name (pi_challenge_name inp) (challenges db1)) of
                       Some ChArchived \<Rightarrow> (Inr SeedSkippedArchived, db1)
                     | Some _ \<Rightarrow> (Inl Conflict, db1)
                     | None \<Rightarrow> (Inl NotFound, db1)))
      | (Inl e, db1) \<Rightarrow> (Inl e, db1))"

definition archive_challenge :: "challenge_name \<Rightarrow> db \<Rightarrow> unit result \<times> db" where
  "archive_challenge n db =
     (let db1 = db\<lparr>challenges := sql_update (\<lambda>r. ch_name r = n) (\<lambda>r. r\<lparr>ch_status := ChArchived\<rparr>) (challenges db)\<rparr>
      in if sql_count (\<lambda>r. ch_name r = n) (challenges db) = 0 then (Inl NotFound, db1) else (Inr (), db1))"

section \<open>A published contract is immutable\<close>

lemma published_columns_fields [simp]:
  "ch_name (published_columns inp c) = ch_name c" "ch_status (published_columns inp c) = ch_status c"
  "ch_spec_json (published_columns inp c) = SpecValid (pi_spec inp)"
  by (simp_all add: published_columns_def)

lemma published_row_fields [simp]:
  "ch_name (published_row inp) = pi_challenge_name inp" "ch_spec_json (published_row inp) = SpecValid (pi_spec inp)"
  "ch_status (published_row inp) = ChActive"
  by (simp_all add: published_row_def)

lemma publish_ok:
  assumes "publish_challenge_tx env inp db = Inr (r, db')"
  obtains (fresh) "\<forall>c \<in> set (challenges db). ch_name c \<noteq> pi_challenge_name inp"
      "db' = db\<lparr>challenges := sql_insert (published_row inp) (challenges db)\<rparr>"
  | (shell) c where "c \<in> set (challenges db)" "ch_name c = pi_challenge_name inp" "ch_spec_json c = SpecNull" "ch_status c = ChActive"
      "db' = db\<lparr>challenges := sql_update (\<lambda>r. ch_name r = pi_challenge_name inp) (published_columns inp) (challenges db)\<rparr>"
proof (cases "challenge_by_name (pi_challenge_name inp) (challenges db)")
  case None
  have "\<forall>c \<in> set (challenges db). ch_name c \<noteq> pi_challenge_name inp"
    using None unfolding challenge_tbl.lookup_None_iff .
  then show ?thesis
    by (rule fresh) (use assms in \<open>auto simp: None publish_challenge_tx_def and_then_eq_Inr\<close>)
next
  case (Some c)
  then have "c \<in> set (challenges db)" "ch_name c = pi_challenge_name inp" using challenge_tbl.lookup_Some_in by blast+
  then show ?thesis
    by (rule shell) (use assms in \<open>simp_all add: Some publish_challenge_tx_def and_then_eq_Inr split: if_splits\<close>)
qed

text \<open>
  A published contract is immutable: publishing under a name that already has a contract is a
  conflict, and a successful publication leaves every challenge that had a contract as it was and
  installs exactly the given contract under the given name.
\<close>

lemma publish_never_replaces_a_contract:
  assumes "publish_challenge env inp db = (Inr r, db')" and "pk_ok ch_name (challenges db)"
  shows "(\<forall>c \<in> set (challenges db). ch_spec_json c \<noteq> SpecNull \<longrightarrow> ch_name c \<noteq> pi_challenge_name inp \<and> c \<in> set (challenges db'))
     \<and> (\<exists>c \<in> set (challenges db'). ch_name c = pi_challenge_name inp \<and> ch_status c = ChActive
          \<and> ch_spec_json c = SpecValid (pi_spec inp))
     \<and> submissions db' = submissions db \<and> jobs db' = jobs db \<and> leaderboard db' = leaderboard db"
proof -
  have "publish_challenge_tx env inp db = Inr (r, db')" using assms(1) by (simp add: publish_challenge_def transact_ok)
  then show ?thesis
  proof (cases rule: publish_ok)
    case fresh
    then show ?thesis by auto
  next
    case (shell c)
    have only: "q = c" if "q \<in> set (challenges db)" "ch_name q = pi_challenge_name inp" for q
      using pk_ok_inj [OF assms(2) that(1) shell(1)] that(2) shell(2) by simp
    have "\<forall>q \<in> set (challenges db). ch_spec_json q \<noteq> SpecNull \<longrightarrow> ch_name q \<noteq> pi_challenge_name inp \<and> q \<in> set (challenges db')"
      using only shell(3,5) by (auto simp: in_sql_update)
    moreover have "published_columns inp c \<in> set (challenges db')" using shell by (auto simp: in_sql_update)
    ultimately show ?thesis using shell by (intro conjI bexI [where x = "published_columns inp c"]) simp_all
  qed
qed

section \<open>The pipeline keeps its invariant\<close>

text \<open>
  Changing the table of challenges keeps the pipeline's invariant when no challenge disappears and
  every contract is an old one or belongs to a challenge without submissions.
\<close>

lemma pipeline_ok_challenges:
  assumes ok: "pipeline_ok db" and pk: "pk_ok ch_name (challenges db')"
    and kept: "\<And>c. c \<in> set (challenges db) \<Longrightarrow> ch_spec_json c \<noteq> SpecNull \<Longrightarrow>
      \<exists>c' \<in> set (challenges db'). ch_name c' = ch_name c \<and> ch_spec_json c' \<noteq> SpecNull"
    and specs: "\<And>c spec. c \<in> set (challenges db') \<Longrightarrow> ch_spec c = Some spec \<Longrightarrow>
      (\<exists>q \<in> set (challenges db). ch_name q = ch_name c \<and> ch_spec q = Some spec)
      \<or> (\<forall>s \<in> set (submissions db). sub_challenge s \<noteq> ch_name c)"
    and tabs: "submissions db' = submissions db" "jobs db' = jobs db" "evaluations db' = evaluations db" "leaderboard db' = leaderboard db"
  shows "pipeline_ok db'"
proof -
  have t: "tables_ok db" "subs_ok db" using ok by (simp_all add: pipeline_ok_def)
  have "sub_fk db' s" if s: "s \<in> set (submissions db)" for s
  proof -
    have "sub_fk db s" using t(1) s by (simp add: tables_ok_def)
    then obtain c where "c \<in> set (challenges db)" "ch_name c = sub_challenge s" "ch_spec_json c \<noteq> SpecNull"
      by (auto simp: sub_fk_def)
    then show ?thesis using kept [of c] by (auto simp: sub_fk_def)
  qed
  then have "tables_ok db'" using t(1) pk by (simp add: tables_ok_def tabs)
  moreover have "subs_ok db'" using t(2) by (simp add: subs_ok_def tabs jobs_of_def evals_of_def)
  moreover have D: "done_evals db' = done_evals db" by (simp add: done_evals_def tabs)
  have "row_covers (set (challenges db')) l e" if l: "l \<in> set (leaderboard db)" "row_covers (set (challenges db)) l e" for l e
    unfolding row_covers_def
  proof (intro ballI allI impI)
    fix c spec assume c: "c \<in> set (challenges db')" "ch_name c = lb_challenge l \<and> ch_spec c = Some spec"
    obtain q where "q \<in> set (submissions db)" "sub_core q = (lb_best l, lb_challenge l, lb_target l, lb_agent l, True)"
      by (rule row_submission [OF ok l(1)])
    then have "\<not> (\<forall>s \<in> set (submissions db). sub_challenge s \<noteq> ch_name c)" using c(2) by (auto simp: sub_core_def)
    then obtain q' where "q' \<in> set (challenges db)" "ch_name q' = ch_name c" "ch_spec q' = Some spec"
      using specs [OF c(1)] c(2) by blast
    then show "compare_rank_payloads spec (ev_aggregate_metrics e) (lb_aggregate_metrics l) \<noteq> Less"
      using l(2) c(2) by (auto simp: row_covers_def)
  qed
  then have "board_ok (set (challenges db')) (sub_core ` set (submissions db)) (done_evals db) (set (leaderboard db))"
    using ok unfolding pipeline_ok_def board_ok_def by blast
  ultimately show ?thesis by (simp add: pipeline_ok_def tabs D)
qed

lemma pipeline_ok_publish:
  assumes ok: "pipeline_ok db" and p: "publish_challenge_tx env inp db = Inr (r, db')"
  shows "pipeline_ok db'"
proof -
  have pk: "pk_ok ch_name (challenges db)" and fk: "\<forall>s \<in> set (submissions db). sub_fk db s"
    using ok by (simp_all add: pipeline_ok_def tables_ok_def)
  show ?thesis using p
  proof (cases rule: publish_ok)
    case fresh
    have "\<forall>s \<in> set (submissions db). sub_challenge s \<noteq> pi_challenge_name inp"
      using fk fresh(1) by (auto simp: sub_fk_def)
    then show ?thesis
      by (intro pipeline_ok_challenges [OF ok]) (use fresh in \<open>auto simp: pk_ok_insert [OF pk]\<close>)
  next
    case (shell c)
    have none: "sub_challenge s \<noteq> pi_challenge_name inp" if s: "s \<in> set (submissions db)" for s
    proof
      assume eq: "sub_challenge s = pi_challenge_name inp"
      obtain q where q: "q \<in> set (challenges db)" "ch_name q = sub_challenge s" "ch_spec_json q \<noteq> SpecNull"
        using fk s by (auto simp: sub_fk_def)
      then have "q = c" using pk_ok_inj [OF pk q(1) shell(1)] shell(2) eq by simp
      then show False using q(3) shell(3) by simp
    qed
    show ?thesis
    proof (rule pipeline_ok_challenges [OF ok])
      show "pk_ok ch_name (challenges db')" using pk_ok_update [OF pk] shell(5) by simp
      show "\<exists>k' \<in> set (challenges db'). ch_name k' = ch_name k \<and> ch_spec_json k' \<noteq> SpecNull"
        if "k \<in> set (challenges db)" "ch_spec_json k \<noteq> SpecNull" for k
        using that shell(5)
        by (intro bexI [where x = "if ch_name k = pi_challenge_name inp then published_columns inp k else k"])
          (auto simp: in_sql_update)
      show "(\<exists>q \<in> set (challenges db). ch_name q = ch_name k \<and> ch_spec q = Some spec)
          \<or> (\<forall>s \<in> set (submissions db). sub_challenge s \<noteq> ch_name k)"
        if "k \<in> set (challenges db')" "ch_spec k = Some spec" for k spec
        using that shell(5) none by (auto simp: in_sql_update)
    qed (use shell in simp_all)
  qed
qed

lemma pipeline_ok_archive:
  assumes ok: "pipeline_ok db"
  shows "pipeline_ok (snd (archive_challenge n db))"
proof -
  have pk: "pk_ok ch_name (challenges db)" using ok by (simp add: pipeline_ok_def tables_ok_def)
  let ?db = "db\<lparr>challenges := sql_update (\<lambda>r. ch_name r = n) (\<lambda>r. r\<lparr>ch_status := ChArchived\<rparr>) (challenges db)\<rparr>"
  have "pipeline_ok ?db"
  proof (rule pipeline_ok_challenges [OF ok])
    show "pk_ok ch_name (challenges ?db)" using pk_ok_update [OF pk] by simp
    show "\<exists>k' \<in> set (challenges ?db). ch_name k' = ch_name k \<and> ch_spec_json k' \<noteq> SpecNull"
      if "k \<in> set (challenges db)" "ch_spec_json k \<noteq> SpecNull" for k
      using that by (intro bexI [where x = "if ch_name k = n then k\<lparr>ch_status := ChArchived\<rparr> else k"]) (auto simp: in_sql_update)
    show "(\<exists>q \<in> set (challenges db). ch_name q = ch_name k \<and> ch_spec q = Some spec)
        \<or> (\<forall>s \<in> set (submissions db). sub_challenge s \<noteq> ch_name k)"
      if "k \<in> set (challenges ?db)" "ch_spec k = Some spec" for k spec
      using that by (auto simp: in_sql_update)
  qed simp_all
  then show ?thesis by (simp add: archive_challenge_def Let_def)
qed

end
