(* ===== verification/Runner_Policy.thy ===== *)
theory Runner_Policy
  imports Names Evaluation_Model
begin

text \<open>
  The decisions of the runner crate (\<open>crates/runner/src\<close>) that do not touch Docker or the file
  system: the log policy and the bounded log (\<open>logs.rs\<close>), the classification of failures
  (\<open>errors.rs\<close>), effective limits (\<open>limits.rs\<close>), the slot class of bounded storage (\<open>storage.rs\<close>),
  container names and label identities (\<open>context.rs\<close>, \<open>docker.rs\<close>), the validation of the evaluator's
  result and the combination of the outcomes of one execution (\<open>lib.rs\<close>, \<open>execution.rs\<close>). The JSON
  text of a failure report comes from \<open>serde_json\<close> and is an argument.
\<close>

section \<open>Log policy\<close>

datatype official_log_redaction_mode = RedactContractBased | RedactAlways

datatype evaluation_log_policy = FullDiagnostics | RedactedOfficialPrivateBenchmark

fun before_contract :: "scoring_mode \<Rightarrow> official_log_redaction_mode \<Rightarrow> evaluation_log_policy" where
  "before_contract Validation _ = FullDiagnostics"
| "before_contract Official _ = RedactedOfficialPrivateBenchmark"

fun for_challenge_contract ::
  "scoring_mode \<Rightarrow> official_log_redaction_mode \<Rightarrow> challenge_bundle_spec \<Rightarrow> evaluation_log_policy" where
  "for_challenge_contract Validation _ _ = FullDiagnostics"
| "for_challenge_contract Official RedactAlways _ = RedactedOfficialPrivateBenchmark"
| "for_challenge_contract Official RedactContractBased spec =
     (if official_evaluation_may_expose_private_material spec
      then RedactedOfficialPrivateBenchmark else FullDiagnostics)"

definition official_log_redaction_notice :: string where
  "official_log_redaction_notice = ''[agentics] logs redacted for official private benchmark execution''"

fun visible_log_content :: "evaluation_log_policy \<Rightarrow> string \<Rightarrow> string" where
  "visible_log_content FullDiagnostics content = content"
| "visible_log_content RedactedOfficialPrivateBenchmark content = official_log_redaction_notice"

definition include_log_excerpts :: "evaluation_log_policy \<Rightarrow> bool" where
  "include_log_excerpts policy = (policy = FullDiagnostics)"

text \<open>\<open>chars().take(n)\<close> on UTF-8 bytes: a byte that is not a continuation byte starts a character.\<close>

definition utf8_continuation :: "char \<Rightarrow> bool" where
  "utf8_continuation c = in_range c 128 191"

fun utf8_take :: "nat \<Rightarrow> string \<Rightarrow> string" where
  "utf8_take n [] = []"
| "utf8_take n (c # cs) =
     (if utf8_continuation c then c # utf8_take n cs
      else (case n of 0 \<Rightarrow> [] | Suc m \<Rightarrow> c # utf8_take m cs))"

definition append_log_excerpt :: "string \<Rightarrow> string \<Rightarrow> bool \<Rightarrow> string" where
  "append_log_excerpt message logs include_logs =
     (if \<not> include_logs then message
      else (let trimmed = trim logs in
            if trimmed = [] then message else message @ ''; logs: '' @ utf8_take 500 trimmed))"

section \<open>The bounded log\<close>

definition evaluation_log_bytes_per_run :: nat where
  "evaluation_log_bytes_per_run = 1024 * 1024"

record evaluation_logs =
  log_bytes :: string
  log_limit :: nat
  log_truncated :: bool

text \<open>\<open>usize\<close> is 64 bits wide on every supported platform, so a \<open>u64\<close> limit converts unchanged.\<close>

definition logs_new :: "nat \<Rightarrow> evaluation_logs" where
  "logs_new limit = \<lparr>log_bytes = [], log_limit = limit, log_truncated = False\<rparr>"

definition truncation_notice :: "nat \<Rightarrow> string" where
  "truncation_notice limit = CHR 0x0A # ''[agentics] evaluation logs truncated at '' @ show_nat limit @ '' bytes'' @ [CHR 0x0A]"

definition mark_truncated :: "evaluation_logs \<Rightarrow> evaluation_logs" where
  "mark_truncated l =
     (if log_truncated l then l
      else (let l1 = l\<lparr>log_truncated := True\<rparr>;
                notice = truncation_notice (log_limit l)
            in if log_limit l = 0 then l1\<lparr>log_bytes := []\<rparr>
               else if length notice \<ge> log_limit l then l1\<lparr>log_bytes := take (log_limit l) (log_bytes l)\<rparr>
               else l1\<lparr>log_bytes := take (log_limit l - length notice) (log_bytes l) @ notice\<rparr>))"

definition set_limit :: "nat \<Rightarrow> evaluation_logs \<Rightarrow> evaluation_logs" where
  "set_limit limit l =
     (let l1 = l\<lparr>log_limit := limit\<rparr>
      in if length (log_bytes l1) > limit then mark_truncated (l1\<lparr>log_bytes := take limit (log_bytes l1)\<rparr>)
         else l1)"

definition append_bytes :: "string \<Rightarrow> evaluation_logs \<Rightarrow> evaluation_logs" where
  "append_bytes bs l =
     (if log_truncated l \<or> bs = [] then l
      else (let remaining = log_limit l - length (log_bytes l)
            in if length bs \<le> remaining then l\<lparr>log_bytes := log_bytes l @ bs\<rparr>
               else mark_truncated (l\<lparr>log_bytes := log_bytes l @ take remaining bs\<rparr>)))"

definition append_named_logs :: "string \<Rightarrow> string \<Rightarrow> evaluation_logs \<Rightarrow> evaluation_logs" where
  "append_named_logs name content l =
     (let l1 = append_bytes (CHR 0x0A # ''===== '') l;
          l2 = append_bytes name l1;
          l3 = append_bytes ('' ====='' @ [CHR 0x0A]) l2;
          l4 = append_bytes content l3
      in if content \<noteq> [] \<and> last content = CHR 0x0A then l4 else append_bytes [CHR 0x0A] l4)"

datatype zip_project_phase_name = PhaseSetup | PhaseBuild | PhaseRun

fun phase_name :: "zip_project_phase_name \<Rightarrow> string" where
  "phase_name PhaseSetup = ''setup''"
| "phase_name PhaseBuild = ''build''"
| "phase_name PhaseRun = ''run''"

definition append_phase_logs :: "zip_project_phase_name \<Rightarrow> string \<Rightarrow> evaluation_logs \<Rightarrow> evaluation_logs" where
  "append_phase_logs phase content l = append_named_logs (''phase:'' @ phase_name phase) content l"

definition append_run_logs :: "string \<Rightarrow> string \<Rightarrow> evaluation_logs \<Rightarrow> evaluation_logs" where
  "append_run_logs run content l = append_named_logs (''run:'' @ run) content l"

section \<open>Failures\<close>

datatype runner_error =
  DockerApiFailure string | ParticipantRunFailure string | CapacityUnavailable string
| RunnerTimeout string | CleanupFailure string

fun service_error_of_runner :: "runner_error \<Rightarrow> service_error" where
  "service_error_of_runner (DockerApiFailure m) = Docker m"
| "service_error_of_runner (ParticipantRunFailure m) = Runner m"
| "service_error_of_runner (RunnerTimeout m) = Runner m"
| "service_error_of_runner (CleanupFailure m) = Runner m"
| "service_error_of_runner (CapacityUnavailable m) = RunnerCapacity m"

record container_outcome =
  co_exit_code :: int
  co_logs :: string
  co_timed_out :: bool
  co_wall_time_ms :: nat

datatype phase_failure_reason =
  FailNonZeroExit | FailTimedOut | FailResourceLimit | FailMissingCommand | FailRunnerError

record phase_failure_report =
  fr_phase :: zip_project_phase_name
  fr_reason :: phase_failure_reason
  fr_message :: string
  fr_exit_code :: "int option"

definition phase_error_message :: "(phase_failure_report \<Rightarrow> string option) \<Rightarrow> phase_failure_report \<Rightarrow> string" where
  "phase_error_message to_json report =
     ''zip_project phase failed: '' @
       (case to_json report of None \<Rightarrow> ''unserializable phase failure'' | Some s \<Rightarrow> s)"

definition phase_error :: "(phase_failure_report \<Rightarrow> string option) \<Rightarrow> phase_failure_report \<Rightarrow> service_error" where
  "phase_error to_json report =
     (let message = phase_error_message to_json report
      in case fr_reason report of
           FailTimedOut \<Rightarrow> service_error_of_runner (RunnerTimeout message)
         | _ \<Rightarrow> service_error_of_runner (ParticipantRunFailure message))"

definition i32_min :: int where "i32_min = - (2 ^ 31)"
definition i32_max :: int where "i32_max = 2 ^ 31 - 1"

definition i32_try_from :: "int \<Rightarrow> int option" where
  "i32_try_from v = (if i32_min \<le> v \<and> v \<le> i32_max then Some v else None)"

definition ensure_container_succeeded ::
  "(phase_failure_report \<Rightarrow> string option) \<Rightarrow> zip_project_phase_name \<Rightarrow> container_outcome \<Rightarrow> bool \<Rightarrow> unit result" where
  "ensure_container_succeeded to_json phase outcome include_log_excerpt =
     (if co_timed_out outcome
      then Inl (service_error_of_runner (RunnerTimeout (phase_error_message to_json
             \<lparr>fr_phase = phase, fr_reason = FailTimedOut,
              fr_message = append_log_excerpt ''phase timed out'' (co_logs outcome) include_log_excerpt,
              fr_exit_code = None\<rparr>)))
      else if co_exit_code outcome \<noteq> 0
      then and_then (ok_or (Internal (''container exit code '' @ show_int (co_exit_code outcome)
               @ '' is outside the supported i32 range'')) (i32_try_from (co_exit_code outcome))) (\<lambda>exit_code.
             Inl (service_error_of_runner (ParticipantRunFailure (phase_error_message to_json
               \<lparr>fr_phase = phase, fr_reason = FailNonZeroExit,
                fr_message = append_log_excerpt (''phase exited with status '' @ show_int (co_exit_code outcome))
                  (co_logs outcome) include_log_excerpt,
                fr_exit_code = Some exit_code\<rparr>))))
      else Inr ())"

definition ensure_setup_succeeded :: "container_outcome \<Rightarrow> bool \<Rightarrow> unit result" where
  "ensure_setup_succeeded outcome include_log_excerpt =
     (if co_timed_out outcome
      then Inl (service_error_of_runner (RunnerTimeout
             (append_log_excerpt ''setup phase timed out'' (co_logs outcome) include_log_excerpt)))
      else if co_exit_code outcome \<noteq> 0
      then Inl (service_error_of_runner (ParticipantRunFailure (append_log_excerpt
             (''setup phase exited with status '' @ show_int (co_exit_code outcome)) (co_logs outcome) include_log_excerpt)))
      else Inr ())"

section \<open>Limits and storage classes\<close>

definition effective_accelerator_count ::
  "resource_profile_spec \<Rightarrow> target_accelerator \<Rightarrow> nat option result" where
  "effective_accelerator_count profile acc =
     (case acc of
        AccNone \<Rightarrow> Inr None
      | AccGpu \<Rightarrow>
          and_then (ok_or (Runner ''accelerator `gpu` requires resource_profile.hardware_metadata'')
            (hardware_metadata profile)) (\<lambda>hardware.
          and_then (ok_or (Runner ''accelerator `gpu` requires resource_profile.hardware_metadata.gpu_count'')
            (gpu_count hardware)) (\<lambda>n.
          and_then (guard_err (n = 0)
            (Runner ''resource_profile.hardware_metadata.gpu_count must be greater than zero'')) (\<lambda>_.
          Inr (Some n)))))"

definition effective_phase_limits ::
  "resource_profile_spec \<Rightarrow> zip_project_phase_name \<Rightarrow> stage_resource_profile result" where
  "effective_phase_limits profile phase =
     (case phase of
        PhaseSetup \<Rightarrow> Inr (sp_setup (rp_solution profile))
      | PhaseBuild \<Rightarrow> Inr (sp_build (rp_solution profile))
      | PhaseRun \<Rightarrow> ok_or (Runner ''resource_profile.solution.run is required for solution run'')
          (sp_run (rp_solution profile)))"

definition choose_slot_class :: "nat list \<Rightarrow> nat \<Rightarrow> nat result" where
  "choose_slot_class classes limit_mb =
     ok_or (Runner (''no bounded writable slot class can satisfy '' @ show_nat limit_mb
         @ '' MiB; configure AGENTICS_RUNNER_WRITABLE_SLOT_CLASSES_MB and rerun DGX storage preparation''))
       (find (\<lambda>class_mb. limit_mb \<le> class_mb) classes)"

section \<open>Containers\<close>

definition container_name_char :: "char \<Rightarrow> bool" where
  "container_name_char c = (is_ascii_alphanumeric c \<or> c \<in> set ''-_.'')"

text \<open>The map works per character: the continuation bytes of a replaced character disappear with it.\<close>

definition sanitize_name_component :: "string \<Rightarrow> string" where
  "sanitize_name_component value =
     map (\<lambda>c. if container_name_char c then c else CHR ''-'') (filter (\<lambda>c. \<not> utf8_continuation c) value)"

text \<open>A \<open>RunnerAttempt\<close>: the worker id and the job id are made safe for Docker names; \<open>nonce\<close> is random.\<close>

record runner_attempt =
  ra_worker_id :: string
  ra_attempt_count :: int
  ra_transient_name :: string

definition runner_attempt_new :: "string \<Rightarrow> string \<Rightarrow> string \<Rightarrow> int \<Rightarrow> runner_attempt" where
  "runner_attempt_new nonce jid worker attempt =
     \<lparr>ra_worker_id = sanitize_name_component worker, ra_attempt_count = attempt,
      ra_transient_name = sanitize_name_component jid @ ''-attempt-'' @ show_int attempt @ ''-'' @ nonce\<rparr>"

datatype runner_container_scope = HostedWorker | LocalValidation

fun scope_as_label :: "runner_container_scope \<Rightarrow> string" where
  "scope_as_label HostedWorker = ''hosted-worker''"
| "scope_as_label LocalValidation = ''local-validation''"

text \<open>
  \<open>container_labels\<close>: \<open>mount\<close> holds the labels of a bounded writable slot, whose keys are
  \<open>agentics.slot_path\<close>, \<open>agentics.slot_phase\<close> and \<open>agentics.slot_class_mb\<close>.
\<close>

record slot_labels =
  sl_slot_path :: string
  sl_phase_label :: string
  sl_class_mb :: nat

definition container_labels ::
  "string \<Rightarrow> string \<Rightarrow> runner_attempt \<Rightarrow> runner_container_scope \<Rightarrow> string \<Rightarrow> slot_labels option \<Rightarrow> string \<rightharpoonup> string" where
  "container_labels namespace jid attempt scope phase mount =
     [''agentics.job_id'' \<mapsto> jid, ''agentics.worker_id'' \<mapsto> ra_worker_id attempt,
      ''agentics.attempt_count'' \<mapsto> show_int (ra_attempt_count attempt),
      ''agentics.runner_namespace'' \<mapsto> namespace, ''agentics.runner_scope'' \<mapsto> scope_as_label scope,
      ''agentics.phase'' \<mapsto> phase]
     ++ (case mount of None \<Rightarrow> Map.empty
         | Some m \<Rightarrow> [''agentics.slot_path'' \<mapsto> sl_slot_path m, ''agentics.slot_phase'' \<mapsto> sl_phase_label m,
             ''agentics.slot_class_mb'' \<mapsto> show_nat (sl_class_mb m)])"

text \<open>The id of a worker process, \<open>backend/worker/src/cycle.rs\<close>: a host label and a fresh UUID.\<close>

definition trim_matches :: "char \<Rightarrow> string \<Rightarrow> string" where
  "trim_matches c s = rev (dropWhile (\<lambda>x. x = c) (rev (dropWhile (\<lambda>x. x = c) s)))"

definition sanitize_worker_label :: "string \<Rightarrow> string" where
  "sanitize_worker_label value = trim_matches (CHR ''-'') (take 64 (sanitize_name_component value))"

definition host_label :: "string option \<Rightarrow> string option \<Rightarrow> string option" where
  "host_label hostname computername =
     (case (case hostname of None \<Rightarrow> computername | Some h \<Rightarrow> Some h) of
        None \<Rightarrow> None
      | Some v \<Rightarrow> (let l = sanitize_worker_label v in if l = [] then None else Some l))"

definition worker_instance_id :: "string option \<Rightarrow> string \<Rightarrow> string" where
  "worker_instance_id host uuid =
     (case host of Some h \<Rightarrow> ''agentics-worker-'' @ h @ ''-'' @ uuid | None \<Rightarrow> ''agentics-worker-'' @ uuid)"

definition container_name :: "string \<Rightarrow> string \<Rightarrow> string" where
  "container_name transient_name suffix =
     ''agentics-'' @ transient_name @ ''-'' @ sanitize_name_component suffix"

datatype runner_container_runtime_state = ContainerRunning | ContainerStopped

record runner_container_identity =
  ci_job :: string
  ci_worker :: string
  ci_attempt :: int

record runner_container_snapshot =
  sn_container_id :: string
  sn_state :: runner_container_runtime_state
  sn_created_secs :: "int option"
  sn_identity :: "runner_container_identity option"

record runner_container_cleanup_summary =
  removed_stopped :: nat
  removed_running :: nat

definition total_removed :: "runner_container_cleanup_summary \<Rightarrow> nat" where
  "total_removed s = saturating_add_u64 (removed_stopped s) (removed_running s)"

definition is_stale_runner_container :: "int option \<Rightarrow> int \<Rightarrow> bool" where
  "is_stale_runner_container created_secs now_secs =
     (case Option.bind created_secs (checked_sub_i64 now_secs) of
        None \<Rightarrow> False | Some age_secs \<Rightarrow> age_secs \<ge> 600)"

text \<open>\<open>str::parse::<i32>\<close>: an optional sign, at least one digit, nothing else, in range.\<close>

definition digits_value :: "string \<Rightarrow> int option" where
  "digits_value ds =
     (if ds \<noteq> [] \<and> list_all is_ascii_digit ds
      then Some (foldl (\<lambda>acc c. 10 * acc + (int (byte_of c) - 48)) 0 ds) else None)"

definition parse_i32 :: "string \<Rightarrow> int option" where
  "parse_i32 s = Option.bind (case s of
       [] \<Rightarrow> None
     | c # cs \<Rightarrow> if c = CHR ''-'' then map_option uminus (digits_value cs)
                else if c = CHR ''+'' then digits_value cs else digits_value s) i32_try_from"

text \<open>The label map of a container, and the UUID parser of \<open>EvaluationJobId::try_new\<close>.\<close>

definition parse_labels ::
  "(string \<Rightarrow> string option) \<Rightarrow> (string \<Rightarrow> string option) \<Rightarrow> runner_container_identity option" where
  "parse_labels parse_job_id labels =
     (if labels ''agentics.runner_scope'' \<noteq> Some ''hosted-worker'' then None
      else Option.bind (Option.bind (labels ''agentics.job_id'') parse_job_id) (\<lambda>jid.
           Option.bind (labels ''agentics.worker_id'') (\<lambda>w.
           if trim w = [] then None
           else Option.bind (Option.bind (labels ''agentics.attempt_count'') parse_i32) (\<lambda>n.
                if n \<le> 0 then None
                else Some \<lparr>ci_job = jid, ci_worker = w, ci_attempt = n\<rparr>))))"

section \<open>The result of one execution\<close>

record evaluation_limit_config =
  max_runs :: nat
  max_result_json_bytes :: nat
  max_public_results :: nat
  max_result_log_bytes :: nat

definition as_runner_error :: "string + 'a \<Rightarrow> 'a result" where
  "as_runner_error r = (case r of Inl e \<Rightarrow> Inl (Runner (''invalid result.json: '' @ e)) | Inr x \<Rightarrow> Inr x)"

definition validate_evaluator_result ::
  "evaluator_run_result \<Rightarrow> scoring_mode \<Rightarrow> metric_schema \<Rightarrow> evaluation_limit_config \<Rightarrow> evaluator_run_result result" where
  "validate_evaluator_result r mode schema limits =
     and_then (as_runner_error (validate_size_limits r (max_public_results limits) (max_result_log_bytes limits))) (\<lambda>_.
     and_then (as_runner_error (validate_for_mode r mode)) (\<lambda>_.
     and_then (as_runner_error (complete_metric_result r schema mode)) (\<lambda>_.
     Inr (r\<lparr>er_mode := Some mode\<rparr>))))"

definition sanitize_runner_error :: "evaluation_log_policy \<Rightarrow> service_error \<Rightarrow> service_error" where
  "sanitize_runner_error policy e =
     (case policy of
        FullDiagnostics \<Rightarrow> e
      | RedactedOfficialPrivateBenchmark \<Rightarrow> Runner
          ''official evaluation failed; runner details are redacted for private benchmark execution'')"

record execution_result =
  ex_result :: evaluator_run_result
  ex_runner_log_storage_key :: string

text \<open>
  The final match of \<open>execute_evaluation_job\<close> over the execution, the write of the runner log and the
  removal of the workspace. \<open>show_err\<close> is the \<open>Display\<close> rendering of a service error, \<open>show_log_err\<close> that of a
  storage error, \<open>to_runner\<close> is \<open>storage_error_to_runner_error\<close>.
\<close>

fun combine_execution_outcome ::
  "(service_error \<Rightarrow> string) \<Rightarrow> ('l \<Rightarrow> string) \<Rightarrow> ('l \<Rightarrow> service_error) \<Rightarrow> evaluation_log_policy
     \<Rightarrow> execution_result result \<Rightarrow> 'l + unit \<Rightarrow> unit result \<Rightarrow> execution_result result" where
  "combine_execution_outcome show_err show_log_err to_runner policy (Inr r) (Inr _) (Inr _) = Inr r"
| "combine_execution_outcome show_err show_log_err to_runner policy (Inr r) (Inl log_err) (Inr _) = Inl (to_runner log_err)"
| "combine_execution_outcome show_err show_log_err to_runner policy (Inr r) (Inr _) (Inl cleanup_err) = Inl cleanup_err"
| "combine_execution_outcome show_err show_log_err to_runner policy (Inr r) (Inl log_err) (Inl cleanup_err) =
     Inl (Runner (show_log_err log_err @ ''; additionally failed to clean runner workspace: '' @ show_err cleanup_err))"
| "combine_execution_outcome show_err show_log_err to_runner policy (Inl run_err) _ (Inr _) =
     Inl (sanitize_runner_error policy run_err)"
| "combine_execution_outcome show_err show_log_err to_runner policy (Inl run_err) _ (Inl cleanup_err) =
     Inl (Runner (show_err (sanitize_runner_error policy run_err)
       @ ''; additionally failed to clean runner workspace: '' @ show_err cleanup_err))"

definition evaluation_runner_log_storage_key :: "string \<Rightarrow> int \<Rightarrow> string result" where
  "evaluation_runner_log_storage_key jid attempt =
     (case validate_storage_key (''eval-artifacts/'' @ jid @ ''/attempt-'' @ show_int attempt @ ''/runner.log'') of
        Inl InvalidKey \<Rightarrow> Inl (BadRequest
          ''storage key must be a non-empty relative path with safe ASCII components and no `.` or `..` components'')
      | Inr k \<Rightarrow> Inr k)"

section \<open>Laws of the bounded log\<close>

definition logs_wf :: "evaluation_logs \<Rightarrow> bool" where
  "logs_wf l = (length (log_bytes l) \<le> log_limit l)"

lemma mark_truncated_wf: "length (log_bytes l) \<le> log_limit l \<Longrightarrow> logs_wf (mark_truncated l)"
  by (auto simp: mark_truncated_def logs_wf_def Let_def)

lemma mark_truncated_limit [simp]: "log_limit (mark_truncated l) = log_limit l"
  by (simp add: mark_truncated_def Let_def)

lemma mark_truncated_flag [simp]: "log_truncated (mark_truncated l)"
  by (simp add: mark_truncated_def Let_def)

lemma set_limit_wf: "logs_wf (set_limit n l)"
  by (auto simp: set_limit_def Let_def logs_wf_def intro: mark_truncated_wf [unfolded logs_wf_def, THEN order_trans])

lemma set_limit_limit [simp]: "log_limit (set_limit n l) = n"
  by (simp add: set_limit_def Let_def)

lemma append_bytes_wf: "logs_wf l \<Longrightarrow> logs_wf (append_bytes bs l)"
  unfolding append_bytes_def Let_def
  by (auto simp: logs_wf_def intro!: mark_truncated_wf [unfolded logs_wf_def, THEN order_trans])

lemma append_bytes_limit [simp]: "log_limit (append_bytes bs l) = log_limit l"
  by (simp add: append_bytes_def Let_def)

lemma append_bytes_kept: "\<not> log_truncated (append_bytes bs l) \<Longrightarrow> \<not> log_truncated l \<and> log_bytes (append_bytes bs l) = log_bytes l @ bs"
  by (auto simp: append_bytes_def Let_def split: if_splits)

lemma append_named_logs_wf: "logs_wf l \<Longrightarrow> logs_wf (append_named_logs n c l)"
  by (simp add: append_named_logs_def Let_def append_bytes_wf)

lemma append_named_logs_limit [simp]: "log_limit (append_named_logs n c l) = log_limit l"
  by (simp add: append_named_logs_def Let_def)

text \<open>The section that one named block adds to an untruncated log.\<close>

definition log_section :: "string \<times> string \<Rightarrow> string" where
  "log_section nc = (case nc of (n, c) \<Rightarrow> (CHR 0x0A # ''===== '') @ n @ ('' ====='' @ [CHR 0x0A]) @ c
     @ (if c \<noteq> [] \<and> last c = CHR 0x0A then [] else [CHR 0x0A]))"

lemma append_named_logs_kept:
  assumes "\<not> log_truncated (append_named_logs n c l)"
  shows "\<not> log_truncated l \<and> log_bytes (append_named_logs n c l) = log_bytes l @ log_section (n, c)"
  using assms unfolding append_named_logs_def Let_def log_section_def
  by (auto split: if_splits dest!: append_bytes_kept)

definition append_all_logs :: "(string \<times> string) list \<Rightarrow> evaluation_logs \<Rightarrow> evaluation_logs" where
  "append_all_logs ws l = fold (\<lambda>(n, c). append_named_logs n c) ws l"

lemma append_all_logs_wf: "logs_wf l \<Longrightarrow> logs_wf (append_all_logs ws l) \<and> log_limit (append_all_logs ws l) = log_limit l"
  unfolding append_all_logs_def by (induction ws arbitrary: l) (auto simp: append_named_logs_wf)

lemma append_all_logs_kept:
  "\<not> log_truncated (append_all_logs ws l) \<Longrightarrow>
     \<not> log_truncated l \<and> log_bytes (append_all_logs ws l) = log_bytes l @ concat (map log_section ws)"
proof (induction ws arbitrary: l)
  case (Cons w ws)
  obtain n c where w: "w = (n, c)" by (cases w)
  have "append_all_logs (w # ws) l = append_all_logs ws (append_named_logs n c l)" by (simp add: append_all_logs_def w)
  with Cons show ?case using append_named_logs_kept [of n c l] by (simp add: w)
qed (simp add: append_all_logs_def)

text \<open>
  The persisted runner log never exceeds its cap: whatever named sections are appended before
  and after the cap is adjusted to the concrete run count, the bytes stay within the final cap; and
  unless the log is marked truncated it is exactly the appended sections, in order.
\<close>

lemma runner_log_bounded:
  "length (log_bytes (append_all_logs later (set_limit limit (append_all_logs earlier (logs_new initial))))) \<le> limit
   \<and> (log_truncated (append_all_logs later (set_limit limit (append_all_logs earlier (logs_new initial))))
      \<or> log_bytes (append_all_logs later (set_limit limit (append_all_logs earlier (logs_new initial))))
        = concat (map log_section (earlier @ later)))"
proof -
  let ?l = "set_limit limit (append_all_logs earlier (logs_new initial))"
  have "length (log_bytes (append_all_logs later ?l)) \<le> limit"
    using append_all_logs_wf [OF set_limit_wf, of later limit "append_all_logs earlier (logs_new initial)"] by (simp add: logs_wf_def)
  moreover have "log_bytes (append_all_logs later ?l) = concat (map log_section (earlier @ later))"
    if kept: "\<not> log_truncated (append_all_logs later ?l)"
  proof -
    have "\<not> log_truncated ?l" and l: "log_bytes (append_all_logs later ?l) = log_bytes ?l @ concat (map log_section later)"
      using append_all_logs_kept [OF kept] by simp_all
    then have "\<not> log_truncated (append_all_logs earlier (logs_new initial))"
        "log_bytes ?l = log_bytes (append_all_logs earlier (logs_new initial))"
      by (auto simp: set_limit_def Let_def split: if_splits)
    then show ?thesis using l append_all_logs_kept [of earlier "logs_new initial"] by (simp add: logs_new_def)
  qed
  ultimately show ?thesis by blast
qed

section \<open>What a private run reveals\<close>

text \<open>
  When the deployment always redacts, or the contract may expose private material, the policy of an official run
  is redaction; then the visible log, the text of phase errors and the final error of a failed execution do not
  depend on the containers' output.
\<close>

lemma redacting_policy:
  assumes "redaction = RedactAlways \<or> official_evaluation_may_expose_private_material spec"
  shows "for_challenge_contract Official redaction spec = RedactedOfficialPrivateBenchmark"
  using assms by (cases redaction) simp_all

lemma redacted_excerpt: "append_log_excerpt m logs (include_log_excerpts RedactedOfficialPrivateBenchmark) = m"
  by (simp add: append_log_excerpt_def include_log_excerpts_def)

lemma redacted_failure:
  "combine_execution_outcome show_err show_log to_runner RedactedOfficialPrivateBenchmark (Inl e) w cleanup
     = combine_execution_outcome show_err show_log to_runner RedactedOfficialPrivateBenchmark (Inl e') w' cleanup"
  by (cases cleanup) (simp_all add: sanitize_runner_error_def)

section \<open>Container identities\<close>

lemma digit_char_byte: "d < 10 \<Longrightarrow> byte_of (digit_char d) = 48 + d"
  by (simp add: byte_of_def digit_char_def)

lemma digit_char_is_digit: "d < 10 \<Longrightarrow> is_ascii_digit (digit_char d)"
  by (simp add: is_ascii_digit_def in_range_def digit_char_byte)

lemma digits_value_snoc:
  assumes "digits_value ds = Some v" "d < 10"
  shows "digits_value (ds @ [digit_char d]) = Some (10 * v + int d)"
  using assms by (auto simp: digits_value_def digit_char_is_digit digit_char_byte split: if_splits)

lemma digits_value_show: "digits_value (show_nat n) = Some (int n)"
proof (induction n rule: show_nat.induct)
  case (1 n)
  show ?case
  proof (cases "n < 10")
    case True
    then show ?thesis
      by (simp add: show_nat.simps [of n] digits_value_def digit_char_is_digit digit_char_byte)
  next
    case False
    then have "digits_value (show_nat n) = Some (10 * int (n div 10) + int (n mod 10))"
      using digits_value_snoc [OF 1 [OF False], of "n mod 10"] by (simp add: show_nat.simps [of n])
    moreover have "10 * int (n div 10) + int (n mod 10) = int n" by presburger
    ultimately show ?thesis by simp
  qed
qed

lemma show_nat_digits: "list_all is_ascii_digit (show_nat n) \<and> show_nat n \<noteq> []"
  using digits_value_show [of n] by (simp add: digits_value_def split: if_splits)

lemma digit_not_sign: "is_ascii_digit c \<Longrightarrow> c \<noteq> CHR ''-'' \<and> c \<noteq> CHR ''+''"
  by (auto simp: is_ascii_digit_def in_range_def byte_of_def)

lemma parse_i32_show: "i32_min \<le> v \<Longrightarrow> v \<le> i32_max \<Longrightarrow> parse_i32 (show_int v) = Some v"
proof -
  assume r: "i32_min \<le> v" "v \<le> i32_max"
  show ?thesis
  proof (cases "v < 0")
    case True
    then show ?thesis using r by (simp add: parse_i32_def show_int_def digits_value_show i32_try_from_def)
  next
    case False
    obtain c cs where "show_nat (nat v) = c # cs" "is_ascii_digit c"
      using show_nat_digits [of "nat v"] by (cases "show_nat (nat v)") auto
    then show ?thesis
      using False r digit_not_sign [of c] digits_value_show [of "nat v"]
      by (simp add: parse_i32_def show_int_def i32_try_from_def)
  qed
qed

lemma trim_by_keeps: "c \<in> set s \<Longrightarrow> \<forall>w \<in> set encs. c \<notin> set w \<Longrightarrow> c \<in> set (trim_by encs s)"
proof (induction encs s rule: trim_by.induct)
  case (1 encs s)
  show ?case
  proof (cases "trim_step encs s")
    case None
    then show ?thesis using 1 by (simp add: trim_by.simps [of encs s])
  next
    case (Some s')
    then obtain w where "w \<in> set encs" "s = w @ s'"
      by (auto simp: trim_step_def starts_with_iff split: option.splits dest!: find_Some_iff_in)
    then have "c \<in> set s'" using 1(2,3) by auto
    then show ?thesis using 1(1) [OF Some] 1(3) Some by (simp add: trim_by.simps [of encs s])
  qed
qed

lemma trim_keeps: "c \<in> set s \<Longrightarrow> \<forall>w \<in> set whitespace_encodings. c \<notin> set w \<Longrightarrow> c \<in> set (trim s)"
  using trim_by_keeps [of c "rev (trim_start s)" "map rev whitespace_encodings"]
    trim_by_keeps [of c s whitespace_encodings]
  by (simp add: trim_def trim_end_def trim_start_def)

lemma container_name_char_ascii: "container_name_char c \<Longrightarrow> \<not> utf8_continuation c"
  by (auto simp: container_name_char_def utf8_continuation_def ascii_class_defs)

lemma sanitize_fixed: "list_all container_name_char s \<Longrightarrow> sanitize_name_component s = s"
  by (induction s) (auto simp: sanitize_name_component_def container_name_char_ascii)

lemma sanitize_chars: "list_all container_name_char (sanitize_name_component s)"
  by (auto simp: sanitize_name_component_def list_all_iff container_name_char_def)

lemma trim_matches_subset: "set (trim_matches c s) \<subseteq> set s"
  unfolding trim_matches_def by (auto dest!: set_dropWhileD)

lemma host_label_chars: "host_label h c = Some l \<Longrightarrow> list_all container_name_char l"
  using sanitize_chars trim_matches_subset [of "CHR ''-''"]
  by (auto simp: host_label_def sanitize_worker_label_def Let_def list_all_iff split: option.splits if_splits
      dest!: in_set_takeD subsetD)

lemma worker_instance_id_chars:
  assumes "list_all container_name_char u"
  shows "list_all container_name_char (worker_instance_id (host_label h c) u)"
proof (cases "host_label h c")
  case None
  then show ?thesis using assms
    by (simp add: worker_instance_id_def container_name_char_def ascii_class_defs)
next
  case (Some l)
  then show ?thesis using assms host_label_chars [OF Some]
    by (simp add: worker_instance_id_def container_name_char_def ascii_class_defs)
qed

text \<open>
  A container that a worker starts for a claim carries that claim's identity: the labels parse
  back to the job id, the worker's own instance id (its host label and UUID are already safe for
  Docker names) and the attempt count, whatever the phase and the writable mount.
\<close>

lemma container_labels_roundtrip:
  assumes "parse_job_id jid = Some jid" and "list_all container_name_char u" and "1 \<le> attempt" and "attempt \<le> i32_max"
  shows "parse_labels parse_job_id (container_labels ns jid
      (runner_attempt_new nonce jid (worker_instance_id (host_label h c) u) attempt) HostedWorker phase mount)
    = Some \<lparr>ci_job = jid, ci_worker = worker_instance_id (host_label h c) u, ci_attempt = attempt\<rparr>"
proof -
  let ?w = "worker_instance_id (host_label h c) u"
  let ?L = "container_labels ns jid (runner_attempt_new nonce jid ?w attempt) HostedWorker phase mount"
  have w: "sanitize_name_component ?w = ?w" by (rule sanitize_fixed [OF worker_instance_id_chars [OF assms(2)]])
  have "?L ''agentics.runner_scope'' = Some ''hosted-worker'' \<and> ?L ''agentics.job_id'' = Some jid
      \<and> ?L ''agentics.worker_id'' = Some ?w \<and> ?L ''agentics.attempt_count'' = Some (show_int attempt)"
    using w by (cases mount) (simp_all add: container_labels_def runner_attempt_new_def map_add_def)
  moreover have "CHR ''a'' \<in> set (trim ?w)"
  proof (rule trim_keeps)
    show "CHR ''a'' \<in> set ?w" by (simp add: worker_instance_id_def split: option.splits)
    show "\<forall>e \<in> set whitespace_encodings. CHR ''a'' \<notin> set e" by (simp add: whitespace_encodings_def) code_simp
  qed
  moreover from this have "trim ?w \<noteq> []" by auto
  moreover have "parse_i32 (show_int attempt) = Some attempt"
    by (rule parse_i32_show) (use assms in \<open>simp_all add: i32_min_def\<close>)
  ultimately show ?thesis using assms by (simp add: parse_labels_def)
qed

section \<open>Limits\<close>

text \<open>
  Bounded storage picks the smallest configured slot class that can hold the phase: with the
  classes in increasing order the result is a class, is large enough, and no smaller class is; and
  the choice fails only when no class is large enough.
\<close>

lemma choose_slot_class_least:
  assumes "sorted classes"
  shows "(choose_slot_class classes mb = Inr k \<longleftrightarrow> k \<in> set classes \<and> mb \<le> k \<and> (\<forall>k' \<in> set classes. mb \<le> k' \<longrightarrow> k \<le> k'))
    \<and> (is_ok (choose_slot_class classes mb) \<longleftrightarrow> (\<exists>k \<in> set classes. mb \<le> k))"
proof -
  have "find (\<lambda>x. mb \<le> x) classes = Some k \<longleftrightarrow> k \<in> set classes \<and> mb \<le> k \<and> (\<forall>k' \<in> set classes. mb \<le> k' \<longrightarrow> k \<le> k')"
    using assms by (induction classes) (auto intro: order_antisym)
  moreover have "is_ok (choose_slot_class classes mb) \<longleftrightarrow> find (\<lambda>x. mb \<le> x) classes \<noteq> None"
    by (cases "find (\<lambda>x. mb \<le> x) classes") (simp_all add: choose_slot_class_def)
  ultimately show ?thesis by (auto simp: choose_slot_class_def ok_or_eq_Inr find_None_iff_all)
qed

end
