(* ===== verification/Worker_Cycle.thy ===== *)
theory Worker_Cycle
  imports Maintenance Runner_Policy
begin

text \<open>
  One polling cycle of a worker, \<open>crates/services/src/evaluation_lifecycle.rs\<close>: reap, reconcile
  containers, claim, start, execute, and persist the outcome or give the job back. Docker and the
  execution of a job are arguments. Each database call of a cycle runs at its own time: \<open>clk i\<close> is
  the \<open>NOW()\<close> of the call number \<open>i\<close>.
\<close>

record worker_config =
  wc_accelerators :: worker_accelerators
  wc_stale_job_minutes :: int

datatype evaluation_worker_cycle_outcome =
  Idle
| MaintenanceOnly nat nat nat
| CompletedCycle uuid uuid
| RequeuedForCapacity uuid
| FailedCycle uuid uuid

section \<open>Heartbeats\<close>

definition write_idle_heartbeat ::
  "timestamp \<Rightarrow> worker_config \<Rightarrow> string \<Rightarrow> uuid option \<Rightarrow> uuid option \<Rightarrow> db \<Rightarrow> db" where
  "write_idle_heartbeat now cfg worker last_completed last_failed db =
     upsert_service_heartbeat now worker
       \<lparr>hb_status = ''idle'', hb_accelerators = heartbeat_values (wc_accelerators cfg), hb_job_id = None,
        hb_solution_submission_id = None, hb_last_completed_job_id = last_completed,
        hb_last_failed_job_id = last_failed\<rparr> db"

definition write_running_heartbeat ::
  "timestamp \<Rightarrow> worker_config \<Rightarrow> string \<Rightarrow> evaluation_job_record \<Rightarrow> db \<Rightarrow> db" where
  "write_running_heartbeat now cfg worker job db =
     upsert_service_heartbeat now worker
       \<lparr>hb_status = ''running'', hb_accelerators = heartbeat_values (wc_accelerators cfg),
        hb_job_id = Some (ejr_id job), hb_solution_submission_id = Some (ejr_submission job),
        hb_last_completed_job_id = None, hb_last_failed_job_id = None\<rparr> db"

section \<open>Ending a job\<close>

definition started_input :: "uuid \<Rightarrow> string \<Rightarrow> evaluation_job_record \<Rightarrow> mark_evaluation_started_input" where
  "started_input eid worker job =
     \<lparr>si_evaluation_id = eid, si_submission = ejr_submission job, si_job_id = ejr_id job,
      si_worker_id = worker, si_claim_attempt_count = ejr_attempt_count job,
      si_target = ejr_target job, si_eval_type = ejr_eval_type job\<rparr>"

definition completed_result :: "string \<Rightarrow> evaluation_job_record \<Rightarrow> execution_result \<Rightarrow> persisted_evaluation_result" where
  "completed_result worker job res =
     \<lparr>pr_submission = ejr_submission job, pr_job_id = ejr_id job, pr_worker_id = worker,
      pr_claim_attempt_count = ejr_attempt_count job, pr_target = ejr_target job,
      pr_eval_type = ejr_eval_type job, pr_status = EvalCompleted,
      pr_aggregate_metrics = aggregate_metrics (ex_result res), pr_run_metrics = run_metrics (ex_result res),
      pr_public_results = public_results (ex_result res),
      pr_validation_summary = validation_summary (ex_result res),
      pr_official_summary = official_summary (ex_result res),
      pr_runner_log_storage_key = Some (ex_runner_log_storage_key res), pr_last_error = None\<rparr>"

definition failed_result :: "string \<Rightarrow> evaluation_job_record \<Rightarrow> string \<Rightarrow> persisted_evaluation_result" where
  "failed_result worker job msg =
     \<lparr>pr_submission = ejr_submission job, pr_job_id = ejr_id job, pr_worker_id = worker,
      pr_claim_attempt_count = ejr_attempt_count job, pr_target = ejr_target job,
      pr_eval_type = ejr_eval_type job, pr_status = EvalFailed,
      pr_aggregate_metrics = [], pr_run_metrics = [], pr_public_results = [],
      pr_validation_summary = None, pr_official_summary = None,
      pr_runner_log_storage_key = (case evaluation_runner_log_storage_key (ejr_id job) (ejr_attempt_count job) of
        Inl _ \<Rightarrow> None | Inr k \<Rightarrow> Some k),
      pr_last_error = Some msg\<rparr>"

definition finish_completed_job ::
  "(nat \<Rightarrow> timestamp) \<Rightarrow> worker_config \<Rightarrow> string \<Rightarrow> evaluation_job_record \<Rightarrow> execution_result \<Rightarrow> db
     \<Rightarrow> evaluation_worker_cycle_outcome result \<times> db" where
  "finish_completed_job clk cfg worker job res db =
     (case transact (mark_evaluation_finished (clk 4) (completed_result worker job res)) db of
        (Inl e, db1) \<Rightarrow> (Inl e, db1)
      | (Inr persisted, db1) \<Rightarrow>
          if \<not> persisted then (Inr Idle, write_idle_heartbeat (clk 5) cfg worker None None db1)
          else (Inr (CompletedCycle (ejr_id job) (ejr_submission job)),
                write_idle_heartbeat (clk 5) cfg worker (Some (ejr_id job)) None db1))"

definition finish_failed_job ::
  "(nat \<Rightarrow> timestamp) \<Rightarrow> worker_config \<Rightarrow> string \<Rightarrow> evaluation_job_record \<Rightarrow> string \<Rightarrow> db
     \<Rightarrow> evaluation_worker_cycle_outcome result \<times> db" where
  "finish_failed_job clk cfg worker job msg db =
     (case transact (mark_evaluation_finished (clk 4) (failed_result worker job msg)) db of
        (Inl e, db1) \<Rightarrow> (Inl e, db1)
      | (Inr persisted, db1) \<Rightarrow>
          if \<not> persisted then (Inr Idle, write_idle_heartbeat (clk 5) cfg worker None None db1)
          else (Inr (FailedCycle (ejr_id job) (ejr_submission job)),
                write_idle_heartbeat (clk 5) cfg worker None (Some (ejr_id job)) db1))"

definition requeue_capacity_limited_job ::
  "(nat \<Rightarrow> timestamp) \<Rightarrow> worker_config \<Rightarrow> string \<Rightarrow> evaluation_job_record \<Rightarrow> string \<Rightarrow> db
     \<Rightarrow> evaluation_worker_cycle_outcome result \<times> db" where
  "requeue_capacity_limited_job clk cfg worker job msg db =
     (case transact (requeue_running_evaluation_job_for_capacity (clk 4) (ejr_id job) worker (ejr_attempt_count job) msg) db of
        (Inl e, db1) \<Rightarrow> (Inl e, db1)
      | (Inr given_back, db1) \<Rightarrow>
          (let db2 = write_idle_heartbeat (clk 5) cfg worker None None db1
           in if \<not> given_back then (Inr Idle, db2) else (Inr (RequeuedForCapacity (ejr_id job)), db2)))"

text \<open>The match on the outcome of the execution; \<open>show_err\<close> renders an error.\<close>

fun settle_execution ::
  "(service_error \<Rightarrow> string) \<Rightarrow> (nat \<Rightarrow> timestamp) \<Rightarrow> worker_config \<Rightarrow> string \<Rightarrow> evaluation_job_record
     \<Rightarrow> execution_result result \<Rightarrow> db \<Rightarrow> evaluation_worker_cycle_outcome result \<times> db" where
  "settle_execution show_err clk cfg worker job (Inr res) db = finish_completed_job clk cfg worker job res db"
| "settle_execution show_err clk cfg worker job (Inl (RunnerCapacity msg)) db =
     requeue_capacity_limited_job clk cfg worker job msg db"
| "settle_execution show_err clk cfg worker job (Inl e) db = finish_failed_job clk cfg worker job (show_err e) db"

section \<open>Container reconciliation\<close>

definition runner_container_claim_is_stale ::
  "runner_container_identity \<Rightarrow> runner_job_claim_record option \<Rightarrow> bool" where
  "runner_container_claim_is_stale identity claim =
     (case claim of None \<Rightarrow> True
      | Some c \<Rightarrow> \<not> (rjc_status c = JobRunning \<and> rjc_worker_id c = Some (ci_worker identity)
          \<and> rjc_attempt_count c = ci_attempt identity \<and> rjc_claim_is_fresh c))"

text \<open>
  One iteration of the loop. \<open>docker_remove\<close> stands for the Docker call that removes or kills a
  container and may fail.
\<close>

definition reconcile_container ::
  "(string \<Rightarrow> unit result) \<Rightarrow> timestamp \<Rightarrow> int \<Rightarrow> int \<Rightarrow> db
     \<Rightarrow> runner_container_cleanup_summary \<Rightarrow> runner_container_snapshot \<Rightarrow> runner_container_cleanup_summary result" where
  "reconcile_container docker_remove now now_secs stale_minutes db acc c =
     (case sn_state c of
        ContainerStopped \<Rightarrow>
          if is_stale_runner_container (sn_created_secs c) now_secs
          then and_then (docker_remove (sn_container_id c)) (\<lambda>_.
               and_then (ok_or (Internal ''removed stopped container count overflow'')
                 (checked_add_u64 (removed_stopped acc) 1)) (\<lambda>n.
               Inr (acc\<lparr>removed_stopped := n\<rparr>)))
          else Inr acc
      | ContainerRunning \<Rightarrow>
          (let should_remove = (case sn_identity c of
                 Some identity \<Rightarrow> runner_container_claim_is_stale identity
                   (get_runner_job_claim now (ci_job identity) stale_minutes db)
               | None \<Rightarrow> True)
           in if should_remove
              then and_then (docker_remove (sn_container_id c)) (\<lambda>_.
                   and_then (ok_or (Internal ''removed running container count overflow'')
                     (checked_add_u64 (removed_running acc) 1)) (\<lambda>n.
                   Inr (acc\<lparr>removed_running := n\<rparr>)))
              else Inr acc))"

definition reconcile_worker_containers ::
  "runner_container_snapshot list result \<Rightarrow> (string \<Rightarrow> unit result) \<Rightarrow> timestamp \<Rightarrow> int \<Rightarrow> int \<Rightarrow> db
     \<Rightarrow> runner_container_cleanup_summary result" where
  "reconcile_worker_containers listed docker_remove now now_secs stale_minutes db =
     and_then listed (\<lambda>containers.
     try_fold (reconcile_container docker_remove now now_secs stale_minutes db)
       \<lparr>removed_stopped = 0, removed_running = 0\<rparr> containers)"

section \<open>The cycle\<close>

record docker_view =
  dv_containers :: "runner_container_snapshot list result"
  dv_remove :: "string \<Rightarrow> unit result"
  dv_now_secs :: int

record maintenance_summary =
  ms_reaped_requeued :: nat
  ms_reaped_failed :: nat
  ms_removed_containers :: nat

definition has_work :: "maintenance_summary \<Rightarrow> bool" where
  "has_work m = (ms_reaped_requeued m > 0 \<or> ms_reaped_failed m > 0 \<or> ms_removed_containers m > 0)"

definition reap_and_reconcile ::
  "(nat \<Rightarrow> timestamp) \<Rightarrow> worker_config \<Rightarrow> docker_view \<Rightarrow> db \<Rightarrow> maintenance_summary result \<times> db" where
  "reap_and_reconcile clk cfg docker db =
     (case transact (reap_stuck_jobs (clk 0) (max (wc_stale_job_minutes cfg) 1)) db of
        (Inl e, db1) \<Rightarrow> (Inl e, db1)
      | (Inr reaped, db1) \<Rightarrow>
          (and_then (reconcile_worker_containers (dv_containers docker) (dv_remove docker) (clk 6) (dv_now_secs docker)
             (max (wc_stale_job_minutes cfg) 1) db1) (\<lambda>cleanup.
             Inr \<lparr>ms_reaped_requeued = requeued reaped, ms_reaped_failed = failed reaped,
                  ms_removed_containers = total_removed cleanup\<rparr>), db1))"

text \<open>
  The lease of a claim is refreshed every few seconds while the job executes. The refreshes of one
  cycle happen at the times of \<open>ticks\<close>; the task stops at the first refresh that finds the lease lost.
\<close>

fun refresh_claim_until_stopped :: "timestamp list \<Rightarrow> uuid \<Rightarrow> string \<Rightarrow> int \<Rightarrow> db \<Rightarrow> db" where
  "refresh_claim_until_stopped [] jid worker attempt db = db"
| "refresh_claim_until_stopped (t # ts) jid worker attempt db =
     (case refresh_evaluation_job_claim t jid worker attempt db of
        (True, db1) \<Rightarrow> refresh_claim_until_stopped ts jid worker attempt db1
      | (False, db1) \<Rightarrow> db1)"

definition lease_refresh_interval :: "worker_config \<Rightarrow> nat" where
  "lease_refresh_interval cfg =
     (let stale_minutes = nat (max (wc_stale_job_minutes cfg) 1);
          stale_window_ms = 1000 * min (stale_minutes * 60) u64_max
      in max (5 * 1000) (min (60 * 1000) (stale_window_ms div 3)))"

definition execute_claimed_job ::
  "(service_error \<Rightarrow> string) \<Rightarrow> (nat \<Rightarrow> timestamp) \<Rightarrow> timestamp list \<Rightarrow> worker_config
     \<Rightarrow> (evaluation_job_record \<Rightarrow> solution_artifact_metadata \<Rightarrow> execution_result result) \<Rightarrow> string \<Rightarrow> evaluation_job_record \<Rightarrow> db
     \<Rightarrow> evaluation_worker_cycle_outcome result \<times> db" where
  "execute_claimed_job show_err clk ticks cfg execute worker job db =
     (case ejr_artifact_metadata job of
        None \<Rightarrow> finish_failed_job clk cfg worker job ''solution submission is missing trusted artifact metadata'' db
      | Some metadata \<Rightarrow>
          settle_execution show_err clk cfg worker job (execute job metadata)
            (refresh_claim_until_stopped ticks (ejr_id job) worker (ejr_attempt_count job) db))"

definition run_claimed_job ::
  "(service_error \<Rightarrow> string) \<Rightarrow> (nat \<Rightarrow> timestamp) \<Rightarrow> timestamp list \<Rightarrow> worker_config
     \<Rightarrow> (evaluation_job_record \<Rightarrow> solution_artifact_metadata \<Rightarrow> execution_result result) \<Rightarrow> uuid \<Rightarrow> string \<Rightarrow> evaluation_job_record \<Rightarrow> db
     \<Rightarrow> evaluation_worker_cycle_outcome result \<times> db" where
  "run_claimed_job show_err clk ticks cfg execute eid worker job db =
     (let db1 = write_running_heartbeat (clk 2) cfg worker job db
      in case transact (mark_evaluation_started (clk 3) (started_input eid worker job)) db1 of
           (Inl e, db2) \<Rightarrow> (Inl e, db2)
         | (Inr inserted, db2) \<Rightarrow>
             if \<not> inserted then (Inr Idle, write_idle_heartbeat (clk 5) cfg worker None None db2)
             else execute_claimed_job show_err clk ticks cfg execute worker job db2)"

definition run_one_cycle ::
  "(service_error \<Rightarrow> string) \<Rightarrow> env \<Rightarrow> (nat \<Rightarrow> timestamp) \<Rightarrow> timestamp list \<Rightarrow> worker_config \<Rightarrow> docker_view \<Rightarrow> (uuid \<Rightarrow> bool)
     \<Rightarrow> (evaluation_job_record \<Rightarrow> solution_artifact_metadata \<Rightarrow> execution_result result) \<Rightarrow> uuid \<Rightarrow> string \<Rightarrow> db
     \<Rightarrow> evaluation_worker_cycle_outcome result \<times> db" where
  "run_one_cycle show_err env clk ticks cfg docker locked execute eid worker db =
     (case reap_and_reconcile clk cfg docker db of
        (Inl e, db1) \<Rightarrow> (Inl e, db1)
      | (Inr maintenance, db1) \<Rightarrow>
        (case claim_next_evaluation_job (env\<lparr>env_now := clk 1\<rparr>) worker (wc_accelerators cfg) locked db1 of
           (Inl e, db2) \<Rightarrow> (Inl e, db2)
         | (Inr None, db2) \<Rightarrow>
             (Inr (if has_work maintenance
                   then MaintenanceOnly (ms_reaped_requeued maintenance) (ms_reaped_failed maintenance)
                          (ms_removed_containers maintenance)
                   else Idle),
              write_idle_heartbeat (clk 5) cfg worker None None db2)
         | (Inr (Some job), db2) \<Rightarrow> run_claimed_job show_err clk ticks cfg execute eid worker job db2))"

end
