(* ===== verification/Lifecycle_System.thy ===== *)
theory Lifecycle_System
  imports Challenge_Publishing Worker_Cycle
begin

text \<open>
  The running system: the database, the creation requests that the API server has not finished and
  the jobs that workers are executing. One step is one database call of one process, so the steps of
  different requests and workers interleave arbitrarily. The steps are the calls of
  \<open>services/solution_submissions.rs\<close>, \<open>services/evaluation_lifecycle.rs\<close> and
  \<open>db/challenges/publishing.rs\<close>.

  Two facts about the surroundings are guards. A worker process has an id of its own and runs one
  cycle at a time, so it claims only when it executes nothing. An administrator queues a re-run of a
  submission only after its creation request has returned the submission's id.
\<close>

record system =
  sys_db :: db
  sys_creating :: "(uuid \<times> uuid) list"
  sys_claims :: "(string \<times> evaluation_job_record) list"

definition claim_added :: "string \<Rightarrow> evaluation_job_record option result \<Rightarrow> (string \<times> evaluation_job_record) list" where
  "claim_added w r = (case r of Inr (Some job) \<Rightarrow> [(w, job)] | _ \<Rightarrow> [])"

inductive step :: "system \<Rightarrow> system \<Rightarrow> bool" where
  publish: "publish_challenge env inp (sys_db s) = (r, db') \<Longrightarrow> step s (s\<lparr>sys_db := db'\<rparr>)"
| archive: "archive_challenge n (sys_db s) = (r, db') \<Longrightarrow> step s (s\<lparr>sys_db := db'\<rparr>)"
| create: "transact (create_solution_submission_with_job env inp) (sys_db s) = (Inr row, db') \<Longrightarrow>
     step s (s\<lparr>sys_db := db', sys_creating := (ci_submission inp, ci_job_id inp) # sys_creating s\<rparr>)"
| ready: "(sid, jid) \<in> set (sys_creating s) \<Longrightarrow> transact (mark_evaluation_job_ready now jid) (sys_db s) = (Inr u, db') \<Longrightarrow>
     step s (s\<lparr>sys_db := db', sys_creating := removeAll (sid, jid) (sys_creating s)\<rparr>)"
| cleanup: "(sid, jid) \<in> set (sys_creating s) \<Longrightarrow>
     step s (s\<lparr>sys_db := delete_solution_submission sid (sys_db s), sys_creating := removeAll (sid, jid) (sys_creating s)\<rparr>)"
| reap: "transact (reap_stuck_jobs now timeout) (sys_db s) = (r, db') \<Longrightarrow> step s (s\<lparr>sys_db := db'\<rparr>)"
| claim: "w \<notin> fst ` set (sys_claims s) \<Longrightarrow> claim_next_evaluation_job env w acc locked (sys_db s) = (r, db') \<Longrightarrow>
     step s (s\<lparr>sys_db := db', sys_claims := claim_added w r @ sys_claims s\<rparr>)"
| heartbeat: "step s (s\<lparr>sys_db := upsert_service_heartbeat now w payload (sys_db s)\<rparr>)"
| start: "(w, job) \<in> set (sys_claims s) \<Longrightarrow>
     transact (mark_evaluation_started now (started_input eid w job)) (sys_db s) = (r, db') \<Longrightarrow> step s (s\<lparr>sys_db := db'\<rparr>)"
| refresh: "(w, job) \<in> set (sys_claims s) \<Longrightarrow>
     refresh_evaluation_job_claim now (ejr_id job) w (ejr_attempt_count job) (sys_db s) = (r, db') \<Longrightarrow> step s (s\<lparr>sys_db := db'\<rparr>)"
| complete: "(w, job) \<in> set (sys_claims s) \<Longrightarrow>
     validate_evaluator_result raw (ejr_eval_type job) schema limits = Inr (ex_result res) \<Longrightarrow>
     transact (mark_evaluation_finished now (completed_result w job res)) (sys_db s) = (r, db') \<Longrightarrow>
     step s (s\<lparr>sys_db := db', sys_claims := removeAll (w, job) (sys_claims s)\<rparr>)"
| fail: "(w, job) \<in> set (sys_claims s) \<Longrightarrow>
     transact (mark_evaluation_finished now (failed_result w job msg)) (sys_db s) = (r, db') \<Longrightarrow>
     step s (s\<lparr>sys_db := db', sys_claims := removeAll (w, job) (sys_claims s)\<rparr>)"
| requeue: "(w, job) \<in> set (sys_claims s) \<Longrightarrow>
     transact (requeue_running_evaluation_job_for_capacity now (ejr_id job) w (ejr_attempt_count job) msg) (sys_db s) = (r, db') \<Longrightarrow>
     step s (s\<lparr>sys_db := db', sys_claims := removeAll (w, job) (sys_claims s)\<rparr>)"
| give_up: "(w, job) \<in> set (sys_claims s) \<Longrightarrow> step s (s\<lparr>sys_claims := removeAll (w, job) (sys_claims s)\<rparr>)"
| rerun: "qi_eval_type inp = Official \<Longrightarrow> qi_submission inp \<notin> fst ` set (sys_creating s) \<Longrightarrow>
     queue_evaluation_job env inp (sys_db s) = (r, db') \<Longrightarrow> step s (s\<lparr>sys_db := db'\<rparr>)"

text \<open>The system starts without submissions.\<close>

definition initial :: "system \<Rightarrow> bool" where
  "initial s \<longleftrightarrow> pk_ok ch_name (challenges (sys_db s)) \<and> submissions (sys_db s) = [] \<and> jobs (sys_db s) = []
     \<and> evaluations (sys_db s) = [] \<and> leaderboard (sys_db s) = [] \<and> sys_creating s = [] \<and> sys_claims s = []"

inductive reachable :: "system \<Rightarrow> bool" where
  reachable_initial: "initial s \<Longrightarrow> reachable s"
| reachable_step: "reachable s \<Longrightarrow> step s s' \<Longrightarrow> reachable s'"

section \<open>How operations change jobs\<close>

text \<open>The columns of a job that never change.\<close>

definition job_core :: "job_row \<Rightarrow> uuid \<times> uuid \<times> target_name \<times> scoring_mode" where
  "job_core j = (job_id j, job_submission j, job_target j, job_eval_type j)"

text \<open>A job that no worker may have touched: not promoted yet, or settled.\<close>

definition job_parked :: "job_row \<Rightarrow> bool" where
  "job_parked j = (job_status j \<in> {JobStaged, JobFailed})"

definition jobs_evolve :: "job_row list \<Rightarrow> job_row list \<Rightarrow> bool" where
  "jobs_evolve js js' \<longleftrightarrow> (\<forall>j \<in> set js. \<exists>j' \<in> set js'. job_core j' = job_core j)
     \<and> (\<forall>j' \<in> set js'. \<exists>j \<in> set js. job_core j' = job_core j \<and> (job_parked j \<longrightarrow> job_parked j'))"

lemma jobs_evolve_refl [simp]: "jobs_evolve js js"
  by (auto simp: jobs_evolve_def)

lemma jobs_evolve_trans: "jobs_evolve a b \<Longrightarrow> jobs_evolve b c \<Longrightarrow> jobs_evolve a c"
  unfolding jobs_evolve_def by metis

lemma jobs_evolve_update:
  assumes f: "same_job f" and parked: "\<And>j. j \<in> set js \<Longrightarrow> P j \<Longrightarrow> job_parked j \<Longrightarrow> job_parked (f j)"
  shows "jobs_evolve js (sql_update P f js)"
proof -
  have core: "job_core (f j) = job_core j" for j using f by (simp add: job_core_def same_jobD)
  have "\<exists>j' \<in> set (sql_update P f js). job_core j' = job_core j" if "j \<in> set js" for j
    using that core by (intro bexI [where x = "if P j then f j else j"]) (simp_all add: set_sql_update)
  moreover have "\<exists>j \<in> set js. job_core j' = job_core j \<and> (job_parked j \<longrightarrow> job_parked j')" if j': "j' \<in> set (sql_update P f js)" for j'
  proof -
    obtain j where "j \<in> set js" "j' = (if P j then f j else j)" using j' unfolding set_sql_update by (rule imageE)
    then show ?thesis using core parked by (intro bexI [where x = j]) simp_all
  qed
  ultimately show ?thesis by (simp add: jobs_evolve_def)
qed

section \<open>Requests and claims in flight\<close>

definition claim_core :: "evaluation_job_record \<Rightarrow> uuid \<times> uuid \<times> target_name \<times> scoring_mode" where
  "claim_core r = (ejr_id r, ejr_submission r, ejr_target r, ejr_eval_type r)"

text \<open>
  Every claim in flight is a claim of a job of the table. The job of a creation request in flight is
  still in the table, no job of its submission was ever claimed, and the requests create different
  submissions.
\<close>

definition claims_ok :: "job_row list \<Rightarrow> (uuid \<times> uuid) list \<Rightarrow> (string \<times> evaluation_job_record) list \<Rightarrow> bool" where
  "claims_ok js cr cl \<longleftrightarrow> distinct (map fst cl)
     \<and> (\<forall>c \<in> set cl. claim_core (snd c) \<in> job_core ` set js \<and> ejr_submission (snd c) \<notin> fst ` set cr)"

definition creating_ok :: "job_row list \<Rightarrow> (uuid \<times> uuid) list \<Rightarrow> bool" where
  "creating_ok js cr \<longleftrightarrow> distinct (map fst cr)
     \<and> (\<forall>c \<in> set cr. \<exists>j \<in> set js. job_id j = snd c \<and> job_submission j = fst c)
     \<and> (\<forall>j \<in> set js. job_submission j \<in> fst ` set cr \<longrightarrow> job_parked j)"

definition system_ok :: "system \<Rightarrow> bool" where
  "system_ok s \<longleftrightarrow> pipeline_ok (sys_db s) \<and> creating_ok (jobs (sys_db s)) (sys_creating s)
     \<and> claims_ok (jobs (sys_db s)) (sys_creating s) (sys_claims s)"

lemma job_core_eq: "job_core i = job_core j \<longleftrightarrow> job_id i = job_id j \<and> job_submission i = job_submission j
    \<and> job_target i = job_target j \<and> job_eval_type i = job_eval_type j"
  by (simp add: job_core_def)

lemma evolve_cores: "jobs_evolve js js' \<Longrightarrow> job_core ` set js' = job_core ` set js"
  unfolding jobs_evolve_def by (auto simp: image_iff) metis+

lemma creating_evolve:
  assumes "creating_ok js cr" "jobs_evolve js js'"
  shows "creating_ok js' cr"
  unfolding creating_ok_def
proof (intro conjI ballI impI)
  show "distinct (map fst cr)" using assms(1) by (simp add: creating_ok_def)
  show "\<exists>j \<in> set js'. job_id j = snd c \<and> job_submission j = fst c" if c: "c \<in> set cr" for c
  proof -
    obtain j where "j \<in> set js" "job_id j = snd c" "job_submission j = fst c" using assms(1) c by (auto simp: creating_ok_def)
    moreover from this obtain j' where "j' \<in> set js'" "job_core j' = job_core j" using assms(2) by (auto simp: jobs_evolve_def)
    ultimately show ?thesis by (auto simp: job_core_eq)
  qed
  show "job_parked j'" if j': "j' \<in> set js'" "job_submission j' \<in> fst ` set cr" for j'
  proof -
    obtain j where "j \<in> set js" "job_core j' = job_core j" "job_parked j \<longrightarrow> job_parked j'"
      using assms(2) j'(1) by (auto simp: jobs_evolve_def)
    then show ?thesis using assms(1) j'(2) by (simp add: creating_ok_def job_core_eq)
  qed
qed

lemma claims_evolve: "claims_ok js cr cl \<Longrightarrow> jobs_evolve js js' \<Longrightarrow> claims_ok js' cr cl"
  by (simp add: claims_ok_def evolve_cores)

lemma claims_drop: "claims_ok js cr cl \<Longrightarrow> claims_ok js cr (removeAll x cl)"
  by (auto simp: claims_ok_def distinct_map removeAll_filter_not_eq intro: inj_on_subset)

lemma creating_drop: "creating_ok js cr \<Longrightarrow> creating_ok js (removeAll x cr)"
  by (auto simp: creating_ok_def distinct_map removeAll_filter_not_eq intro: inj_on_subset)

lemma claims_creating_drop: "claims_ok js cr cl \<Longrightarrow> claims_ok js (removeAll x cr) cl"
  by (auto simp: claims_ok_def image_iff)

lemma system_ok_evolve:
  assumes ok: "system_ok s" and p: "pipeline_ok db'" and e: "jobs_evolve (jobs (sys_db s)) (jobs db')"
  shows "system_ok (s\<lparr>sys_db := db'\<rparr>)" "system_ok (s\<lparr>sys_db := db', sys_claims := removeAll c (sys_claims s)\<rparr>)"
proof -
  have "creating_ok (jobs db') (sys_creating s)" "claims_ok (jobs db') (sys_creating s) (sys_claims s)"
    using ok creating_evolve [OF _ e] claims_evolve [OF _ e] by (simp_all add: system_ok_def)
  then show "system_ok (s\<lparr>sys_db := db'\<rparr>)" "system_ok (s\<lparr>sys_db := db', sys_claims := removeAll c (sys_claims s)\<rparr>)"
    using p claims_drop by (simp_all add: system_ok_def)
qed

text \<open>A new job of a submission that is not being created.\<close>

lemma system_ok_insert:
  assumes ok: "system_ok s" "pipeline_ok db'" and js: "jobs db' = sql_insert j (jobs (sys_db s))"
    and new: "job_submission j \<notin> fst ` set (sys_creating s)"
  shows "system_ok (s\<lparr>sys_db := db'\<rparr>)"
  using assms unfolding system_ok_def creating_ok_def claims_ok_def by auto

section \<open>Every step keeps the invariant\<close>

lemma system_okD: "system_ok s \<Longrightarrow> pipeline_ok (sys_db s)"
  by (simp add: system_ok_def)

lemma system_ok_publish:
  assumes "system_ok s" "publish_challenge env inp (sys_db s) = (r, db')"
  shows "system_ok (s\<lparr>sys_db := db'\<rparr>)"
proof (cases r)
  case (Inl e)
  then show ?thesis using assms by (simp add: publish_challenge_def transact_err)
next
  case (Inr x)
  then have p: "publish_challenge_tx env inp (sys_db s) = Inr (x, db')" using assms(2) by (simp add: publish_challenge_def transact_ok)
  then have "jobs db' = jobs (sys_db s)" by (cases rule: publish_ok) simp_all
  then show ?thesis
    using system_ok_evolve(1) [OF assms(1) pipeline_ok_publish [OF system_okD [OF assms(1)] p]] by simp
qed

lemma system_ok_archive:
  assumes "system_ok s" "archive_challenge n (sys_db s) = (r, db')"
  shows "system_ok (s\<lparr>sys_db := db'\<rparr>)"
proof -
  have "db' = snd (archive_challenge n (sys_db s))" using assms(2) by simp
  moreover have "jobs (snd (archive_challenge n (sys_db s))) = jobs (sys_db s)" by (simp add: archive_challenge_def Let_def)
  ultimately show ?thesis
    using system_ok_evolve(1) [OF assms(1) pipeline_ok_archive [OF system_okD [OF assms(1)]], of n] by simp
qed

lemma system_ok_create:
  assumes ok: "system_ok s" and t: "transact (create_solution_submission_with_job env inp) (sys_db s) = (Inr row, db')"
  shows "system_ok (s\<lparr>sys_db := db', sys_creating := (ci_submission inp, ci_job_id inp) # sys_creating s\<rparr>)"
proof -
  have cr: "create_solution_submission_with_job env inp (sys_db s) = Inr (row, db')" using t by (simp add: transact_ok)
  have p: "pipeline_ok db'" by (rule pipeline_ok_create [OF system_okD [OF ok] cr])
  from cr show ?thesis
  proof (rule create_ok)
    fix c spec acc pl z u f
    assume fresh: "\<forall>r \<in> set (submissions (sys_db s)). sub_id r \<noteq> ci_submission inp"
      and db': "db' = (fold lock_scope (quota_scopes inp) (sys_db s))\<lparr>submissions := sql_insert row (submissions (sys_db s)),
         jobs := sql_insert (new_job (env_now env) (ci_job_id inp) (ci_submission inp) acc (ci_eval_type inp) JobStaged pl) (jobs (sys_db s))\<rparr>"
    let ?j = "new_job (env_now env) (ci_job_id inp) (ci_submission inp) acc (ci_eval_type inp) JobStaged pl"
    have js: "set (jobs db') = insert ?j (set (jobs (sys_db s)))" by (simp add: db')
    have old: "job_submission j \<noteq> ci_submission inp" if "j \<in> set (jobs (sys_db s))" for j
      using system_okD [OF ok] fresh that by (auto simp: pipeline_ok_def tables_ok_def)
    then have "ci_submission inp \<notin> fst ` set (sys_creating s)"
      using ok by (force simp: system_ok_def creating_ok_def)
    moreover have "ejr_submission (snd cl) \<noteq> ci_submission inp" if "cl \<in> set (sys_claims s)" for cl
      using ok that old by (auto simp: system_ok_def claims_ok_def claim_core_def job_core_def)
    moreover have "job_parked ?j" by (simp add: job_parked_def)
    ultimately show ?thesis using ok p js old
      by (auto simp: system_ok_def creating_ok_def claims_ok_def)
  qed
qed

lemma creating_job:
  assumes ok: "system_ok s" and c: "(sid, jid) \<in> set (sys_creating s)"
    and j: "j \<in> set (jobs (sys_db s))" "job_id j = jid"
  shows "job_submission j = sid"
proof -
  obtain i where "i \<in> set (jobs (sys_db s))" "job_id i = jid" "job_submission i = sid"
    using ok c unfolding system_ok_def creating_ok_def by fastforce
  then show ?thesis using pk_ok_inj [OF pipeline_pks(5) [OF system_okD [OF ok]] _ j(1)] j(2) by metis
qed

lemma creating_hidden:
  assumes ok: "system_ok s" and sid: "sid \<in> fst ` set (sys_creating s)"
    and q: "q \<in> set (submissions (sys_db s))" "sub_id q = sid"
  shows "\<not> sub_visible q"
proof
  assume "sub_visible q"
  moreover have "sub_ok q (jobs_of (sub_id q) (sys_db s)) (evals_of (sub_id q) (sys_db s))"
    using system_okD [OF ok] q(1) by (simp add: pipeline_ok_def subs_ok_def)
  ultimately obtain e j where "official_done e" "j \<in> jobs_of sid (sys_db s)" "eval_matches (ev_status e) (job_status j)"
    using q(2) unfolding sub_ok_def status_ok_def evals_ok_def by blast
  then have "j \<in> set (jobs (sys_db s))" "job_submission j = sid" "job_status j = JobCompleted"
    by (simp_all add: jobs_of_def official_done_def)
  then show False using ok sid by (auto simp: system_ok_def creating_ok_def job_parked_def)
qed

lemma distinct_fst_other:
  "distinct (map fst cr) \<Longrightarrow> (a, b) \<in> set cr \<Longrightarrow> a \<notin> fst ` set (removeAll (a, b) cr)"
  by (induction cr) (auto simp: rev_image_eqI)

lemma claims_add:
  "claims_ok js cr cl \<Longrightarrow> w \<notin> fst ` set cl \<Longrightarrow> claim_core job \<in> job_core ` set js \<Longrightarrow> ejr_submission job \<notin> fst ` set cr \<Longrightarrow>
     claims_ok js cr ((w, job) # cl)"
  by (simp add: claims_ok_def)

lemma system_ok_ready:
  assumes ok: "system_ok s" and c: "(sid, jid) \<in> set (sys_creating s)"
    and t: "transact (mark_evaluation_job_ready now jid) (sys_db s) = (Inr u, db')"
  shows "system_ok (s\<lparr>sys_db := db', sys_creating := removeAll (sid, jid) (sys_creating s)\<rparr>)"
proof -
  let ?cr = "removeAll (sid, jid) (sys_creating s)" and ?P = "\<lambda>j. job_id j = jid \<and> job_status j = JobStaged"
  have r: "mark_evaluation_job_ready now jid (sys_db s) = Inr (u, db')" using t by (simp add: transact_ok)
  then have js: "jobs db' = sql_update ?P (\<lambda>j. j\<lparr>job_status := JobQueued, job_scheduled_at := now\<rparr>) (jobs (sys_db s))"
    by (auto simp: mark_evaluation_job_ready_def split: option.splits)
  have d: "distinct (map fst (sys_creating s))" using ok by (simp add: system_ok_def creating_ok_def)
  have cr: "creating_ok (jobs (sys_db s)) ?cr" and cl: "claims_ok (jobs (sys_db s)) ?cr (sys_claims s)"
    using ok creating_drop claims_creating_drop by (simp_all add: system_ok_def)
  have core: "job_core ` set (jobs db') = job_core ` set (jobs (sys_db s))"
    unfolding js set_sql_update image_image by (rule image_cong) (simp_all add: job_core_def)
  have "\<exists>j \<in> set (jobs db'). job_id j = snd x \<and> job_submission j = fst x" if x: "x \<in> set ?cr" for x
  proof -
    obtain j where "j \<in> set (jobs (sys_db s))" "job_id j = snd x" "job_submission j = fst x"
      using cr x by (auto simp: creating_ok_def)
    then show ?thesis unfolding js set_sql_update
      by (intro bexI [OF _ imageI [where x = j]]) simp_all
  qed
  moreover have "job_parked j'" if j': "j' \<in> set (jobs db')" "job_submission j' \<in> fst ` set ?cr" for j'
  proof -
    obtain j where j: "j \<in> set (jobs (sys_db s))" "j' = (if ?P j then j\<lparr>job_status := JobQueued, job_scheduled_at := now\<rparr> else j)"
      using j'(1) unfolding js set_sql_update by (rule imageE)
    have "job_submission j = job_submission j'" using j(2) by simp
    moreover have "\<not> ?P j"
    proof
      assume "?P j"
      then have "job_submission j = sid" using creating_job [OF ok c j(1)] by simp
      then show False using distinct_fst_other [OF d c] j'(2) \<open>job_submission j = job_submission j'\<close> by simp
    qed
    ultimately show ?thesis using cr j j'(2) by (auto simp: creating_ok_def)
  qed
  ultimately have "creating_ok (jobs db') ?cr" using cr by (simp add: creating_ok_def)
  moreover have "claims_ok (jobs db') ?cr (sys_claims s)" using cl core by (simp add: claims_ok_def)
  ultimately show ?thesis using pipeline_ok_ready [OF system_okD [OF ok] r] by (simp add: system_ok_def)
qed

lemma system_ok_cleanup:
  assumes ok: "system_ok s" and c: "(sid, jid) \<in> set (sys_creating s)"
  shows "system_ok (s\<lparr>sys_db := delete_solution_submission sid (sys_db s), sys_creating := removeAll (sid, jid) (sys_creating s)\<rparr>)"
proof -
  let ?cr = "removeAll (sid, jid) (sys_creating s)" and ?db = "delete_solution_submission sid (sys_db s)"
  have sid: "sid \<in> fst ` set (sys_creating s)" using c by force
  note hidden = creating_hidden [OF ok sid]
  have js: "set (jobs ?db) = {j \<in> set (jobs (sys_db s)). job_submission j \<noteq> sid}"
    using delete_tables(1) [OF system_okD [OF ok] hidden] by simp
  have d: "distinct (map fst (sys_creating s))" using ok by (simp add: system_ok_def creating_ok_def)
  have cr: "creating_ok (jobs (sys_db s)) ?cr" using ok creating_drop by (simp add: system_ok_def)
  have "\<exists>j \<in> set (jobs ?db). job_id j = snd x \<and> job_submission j = fst x" if x: "x \<in> set ?cr" for x
  proof -
    obtain j where "j \<in> set (jobs (sys_db s))" "job_id j = snd x" "job_submission j = fst x"
      using cr x by (auto simp: creating_ok_def)
    moreover have "fst x \<noteq> sid" using distinct_fst_other [OF d c] x by (metis imageI)
    ultimately show ?thesis using js by auto
  qed
  then have "creating_ok (jobs ?db) ?cr" using cr js by (auto simp: creating_ok_def)
  moreover have "claims_ok (jobs ?db) ?cr (sys_claims s)"
  proof -
    have "claim_core (snd x) \<in> job_core ` set (jobs ?db)" if x: "x \<in> set (sys_claims s)" for x
    proof -
      have "claim_core (snd x) \<in> job_core ` set (jobs (sys_db s))" "ejr_submission (snd x) \<noteq> sid"
        using ok x sid by (auto simp: system_ok_def claims_ok_def)
      then obtain j where "j \<in> set (jobs (sys_db s))" "claim_core (snd x) = job_core j" "job_submission j \<noteq> sid"
        by (auto simp: claim_core_def job_core_def)
      then show ?thesis using js by auto
    qed
    then show ?thesis using ok by (auto simp: system_ok_def claims_ok_def)
  qed
  ultimately show ?thesis using pipeline_ok_delete [OF system_okD [OF ok] hidden] by (simp add: system_ok_def)
qed

lemma not_parked: "job_status j = JobRunning \<Longrightarrow> \<not> job_parked j" "job_status j = JobQueued \<Longrightarrow> \<not> job_parked j"
  by (simp_all add: job_parked_def)

lemma system_ok_reap:
  assumes ok: "system_ok s" and t: "transact (reap_stuck_jobs now timeout) (sys_db s) = (r, db')"
  shows "system_ok (s\<lparr>sys_db := db'\<rparr>)"
proof -
  obtain res db1 where "reap_stuck_jobs now timeout (sys_db s) = Inr (res, db1)" and p: "pipeline_ok db1"
      and js: "jobs db1 = reaped_jobs now timeout (jobs (sys_db s))"
    using pipeline_ok_reap [OF system_okD [OF ok]] by blast
  then have "db' = db1" using t by (simp add: transact_def)
  moreover have "jobs_evolve (jobs (sys_db s)) (reaped_jobs now timeout (jobs (sys_db s)))"
    unfolding reaped_jobs_def
  proof (intro jobs_evolve_trans [OF _ jobs_evolve_update] jobs_evolve_refl same_job_rows)
    show "job_parked (fail_job_row now m j)" for m j by (simp add: job_parked_def fail_job_row_def)
    show "job_parked (release_job_row j)" if "retry_stale now timeout j" "job_parked j" for j
      using that lease_expired_running not_parked(1) by (auto simp: retry_stale_def)
    show "job_parked (fail_job_row now m j)" for m j by (simp add: job_parked_def fail_job_row_def)
  qed
  ultimately show ?thesis using system_ok_evolve(1) [OF ok p] js by simp
qed

lemma system_ok_claim:
  assumes ok: "system_ok s" and idle: "w \<notin> fst ` set (sys_claims s)"
    and c: "claim_next_evaluation_job env w acc locked (sys_db s) = (r, db')"
  shows "system_ok (s\<lparr>sys_db := db', sys_claims := claim_added w r @ sys_claims s\<rparr>)"
proof (cases "claim_tx env w acc locked (sys_db s)")
  case (Inl e)
  then show ?thesis using c ok by (auto simp: claim_next_evaluation_job_def transact_def claim_added_def)
next
  case (Inr x)
  obtain m db1 where x: "x = (m, db1)" by (cases x)
  have db': "db' = db1" using c Inr x by (auto simp: claim_next_evaluation_job_def transact_def split: option.splits)
  have p: "pipeline_ok db'" using pipeline_ok_claim [OF system_okD [OF ok]] Inr x db' by blast
  show ?thesis
  proof (cases m)
    case None
    then have "db' = sys_db s" "r = Inr None"
      using c Inr x by (auto simp: claim_next_evaluation_job_def transact_def claim_tx_def and_then_eq_Inr split: option.splits)
    then show ?thesis using ok by (simp add: claim_added_def)
  next
    case (Some y)
    obtain j where nj: "next_job (env_now env) (supports acc AccGpu) locked (sys_db s) = Some j"
        and js: "jobs db' = sql_update (\<lambda>r. job_id r = job_id j) (claim_job_row (env_now env) w) (jobs (sys_db s))"
        and y: "\<exists>q pl. y = (claim_job_row (env_now env) w j, q, pl)"
      using Inr x db' Some by (auto simp: claim_tx_def Let_def mark_submission_running_def and_then_eq_Inr split: option.splits)
    have j: "j \<in> set (jobs (sys_db s))" "job_status j = JobQueued"
      using sql_top_Some [OF nj [unfolded next_job_def]] by (simp_all add: claimable_def)
    have e: "jobs_evolve (jobs (sys_db s)) (jobs db')" unfolding js
    proof (rule jobs_evolve_update [OF same_job_rows(1)])
      fix i assume "i \<in> set (jobs (sys_db s))" "job_id i = job_id j" "job_parked i"
      then have "i = j" using pk_ok_inj [OF pipeline_pks(5) [OF system_okD [OF ok]] _ j(1)] by blast
      then show "job_parked (claim_job_row (env_now env) w i)" using j(2) not_parked(2) \<open>job_parked i\<close> by simp
    qed
    have sid: "job_submission j \<notin> fst ` set (sys_creating s)"
      using ok j not_parked(2) [OF j(2)] by (auto simp: system_ok_def creating_ok_def)
    have "claim_added w r = [] \<or> (\<exists>job. claim_added w r = [(w, job)] \<and> claim_core job = job_core j)"
      using c Inr x Some y
      by (auto simp: claim_next_evaluation_job_def transact_def claim_added_def and_then_def claim_core_def job_core_def claim_job_row_def
          split: sum.splits)
    moreover have "job_core j \<in> job_core ` set (jobs db')" using evolve_cores [OF e] j(1) by simp
    moreover have "system_ok (s\<lparr>sys_db := db'\<rparr>)" by (rule system_ok_evolve(1) [OF ok p e])
    moreover have "ejr_submission job \<notin> fst ` set (sys_creating s)" if "claim_core job = job_core j" for job
      using that sid by (simp add: claim_core_def job_core_def)
    ultimately show ?thesis using claims_add [OF _ idle] by (auto simp: system_ok_def)
  qed
qed

lemma owned_not_parked: "owns_claim jid w a j \<Longrightarrow> \<not> job_parked j"
  using owns_claim_D not_parked(1) by blast

lemma upsert_leaderboard_frame:
  assumes "upsert_leaderboard_entry_for_solution_submission_tx now sid t pub agg db = Inr (b, db')"
  shows "jobs db' = jobs db"
  using assms unfolding upsert_leaderboard_entry_for_solution_submission_tx_def lock_leaderboard_scope_def
  by (auto simp: Let_def and_then_eq_Inr split: option.splits if_splits)

lemma update_official_frame:
  "update_official_metrics_for_solution_submission_tx now sid t ms db = Inr (u, db') \<Longrightarrow> jobs db' = jobs db"
  by (auto simp: update_official_metrics_for_solution_submission_tx_def split: option.splits)

lemma apply_frames:
  "apply_validation_result now r prev db = Inr (b, db') \<Longrightarrow> jobs db' = jobs db"
  "apply_official_result now r prev db = Inr (b, db') \<Longrightarrow> jobs db' = jobs db"
proof -
  show "apply_validation_result now r prev db = Inr (b, db') \<Longrightarrow> jobs db' = jobs db"
    by (auto simp: apply_validation_result_def split: if_splits)
  show "apply_official_result now r prev db = Inr (b, db') \<Longrightarrow> jobs db' = jobs db"
    unfolding apply_official_result_def Let_def
    by (auto simp: and_then_eq_Inr split: if_splits dest!: upsert_leaderboard_frame update_official_frame)
qed

lemma finished_jobs:
  assumes "mark_evaluation_finished now r db = Inr (b, db')"
  shows "jobs_evolve (jobs db) (jobs db')"
  using assms
proof (cases rule: mark_evaluation_finished_cases)
  case (finished j e)
  have "jobs db' = jobs (finished_tables now r db)"
    using finished(6) apply_frames by (cases "pr_eval_type r") auto
  also have "\<dots> = sql_update (owns_claim (pr_job_id r) (pr_worker_id r) (pr_claim_attempt_count r)) (finished_job_row now r) (jobs db)"
    by (simp add: finished_tables_def)
  finally show ?thesis using owned_not_parked by (auto intro: jobs_evolve_update same_job_rows)
qed simp

lemma claim_row:
  assumes ok: "system_ok s" and c: "(w, job) \<in> set (sys_claims s)" and j: "j \<in> set (jobs (sys_db s))" "job_id j = ejr_id job"
  shows "job_submission j = ejr_submission job \<and> job_target j = ejr_target job \<and> job_eval_type j = ejr_eval_type job"
proof -
  have "claim_core job \<in> job_core ` set (jobs (sys_db s))" using ok c by (auto simp: system_ok_def claims_ok_def)
  then obtain i where "i \<in> set (jobs (sys_db s))" "claim_core job = job_core i" by (rule imageE)
  moreover from this have "i = j"
    using pk_ok_inj [OF pipeline_pks(5) [OF system_okD [OF ok]] _ j(1)] j(2) by (simp add: claim_core_def job_core_def)
  ultimately show ?thesis by (simp add: claim_core_def job_core_def)
qed

lemma system_ok_finish:
  assumes ok: "system_ok s" and c: "(w, job) \<in> set (sys_claims s)"
    and r: "pr_job_id r = ejr_id job" "pr_submission r = ejr_submission job" "pr_target r = ejr_target job" "pr_eval_type r = ejr_eval_type job"
      "pr_status r = EvalCompleted \<longrightarrow> finite_payload (pr_aggregate_metrics r)"
    and t: "transact (mark_evaluation_finished now r) (sys_db s) = (res, db')"
  shows "system_ok (s\<lparr>sys_db := db', sys_claims := removeAll (w, job) (sys_claims s)\<rparr>)"
proof (cases res)
  case (Inl e)
  then have "db' = sys_db s" using t by (simp add: transact_err)
  then show ?thesis using system_ok_evolve(2) [OF ok system_okD [OF ok] jobs_evolve_refl] by simp
next
  case (Inr b)
  then have f: "mark_evaluation_finished now r (sys_db s) = Inr (b, db')" using t by (simp add: transact_ok)
  have "result_matches r (sys_db s)" using claim_row [OF ok c] r by (auto simp: result_matches_def)
  then show ?thesis
    using system_ok_evolve(2) [OF ok pipeline_ok_finished [OF system_okD [OF ok] _ f] finished_jobs [OF f]] by blast
qed

lemma validated_finite:
  "validate_evaluator_result raw mode schema limits = Inr r \<Longrightarrow> finite_payload (aggregate_metrics r)"
  by (auto simp: validate_evaluator_result_def as_runner_error_def and_then_eq_Inr validate_for_mode_def validate_metric_values_def
      validate_metric_values_loop_ok split: sum.splits)

lemma system_ok_requeue:
  assumes ok: "system_ok s"
    and t: "transact (requeue_running_evaluation_job_for_capacity now jid w a msg) (sys_db s) = (r, db')"
  shows "system_ok (s\<lparr>sys_db := db', sys_claims := removeAll c (sys_claims s)\<rparr>)"
proof (cases r)
  case (Inl e)
  then have "db' = sys_db s" using t by (simp add: transact_err)
  then show ?thesis using system_ok_evolve(2) [OF ok system_okD [OF ok] jobs_evolve_refl] by simp
next
  case (Inr b)
  then have f: "requeue_running_evaluation_job_for_capacity now jid w a msg (sys_db s) = Inr (b, db')" using t by (simp add: transact_ok)
  then have "jobs db' = sql_update (owns_claim jid w a) (requeue_job_row now msg) (jobs (sys_db s))"
    unfolding requeue_running_evaluation_job_for_capacity_def requeue_claimed_job_for_capacity_def
      repair_submission_after_capacity_requeue_def
    by (auto simp: and_then_eq_Inr split: option.splits if_splits)
  moreover have "jobs_evolve (jobs (sys_db s)) \<dots>"
    using owned_not_parked by (auto intro: jobs_evolve_update same_job_rows)
  ultimately show ?thesis
    using system_ok_evolve(2) [OF ok pipeline_ok_requeue_capacity [OF system_okD [OF ok] f]] by simp
qed

lemma pipeline_ok_heartbeat: "pipeline_ok db \<Longrightarrow> pipeline_ok (upsert_service_heartbeat now w p db)"
  by (simp add: upsert_service_heartbeat_def pipeline_ok_def tables_ok_def subs_ok_def sub_fk_def jobs_of_def evals_of_def done_evals_def)

lemma system_ok_start:
  assumes ok: "system_ok s" and t: "transact (mark_evaluation_started now inp) (sys_db s) = (r, db')"
  shows "system_ok (s\<lparr>sys_db := db'\<rparr>)"
proof (cases r)
  case (Inl e)
  then show ?thesis using t ok by (simp add: transact_err)
next
  case (Inr b)
  then have f: "mark_evaluation_started now inp (sys_db s) = Inr (b, db')" using t by (simp add: transact_ok)
  then have "jobs db' = jobs (sys_db s)" by (auto simp: mark_evaluation_started_def split: option.splits if_splits)
  then show ?thesis using system_ok_evolve(1) [OF ok pipeline_ok_started [OF system_okD [OF ok] f]] by simp
qed

lemma system_ok_refresh:
  assumes ok: "system_ok s" and t: "refresh_evaluation_job_claim now jid w a (sys_db s) = (r, db')"
  shows "system_ok (s\<lparr>sys_db := db'\<rparr>)"
proof -
  have db': "db' = snd (refresh_evaluation_job_claim now jid w a (sys_db s))" using t by simp
  then have "jobs db' = sql_update (owns_claim jid w a) (\<lambda>j. j\<lparr>job_claimed_at := Some now\<rparr>) (jobs (sys_db s))"
    by (simp add: refresh_evaluation_job_claim_def)
  moreover have "jobs_evolve (jobs (sys_db s)) \<dots>" using owned_not_parked by (auto intro: jobs_evolve_update same_job_rows)
  ultimately show ?thesis
    using system_ok_evolve(1) [OF ok pipeline_ok_refresh [OF system_okD [OF ok]]] db' by simp
qed

lemma system_ok_rerun:
  assumes ok: "system_ok s" and mode: "qi_eval_type inp = Official" and sid: "qi_submission inp \<notin> fst ` set (sys_creating s)"
    and q: "queue_evaluation_job env inp (sys_db s) = (r, db')"
  shows "system_ok (s\<lparr>sys_db := db'\<rparr>)"
proof (cases "queue_tx env inp (sys_db s)")
  case (Inl e)
  then show ?thesis using q ok by (auto simp: queue_evaluation_job_def transact_def)
next
  case (Inr x)
  obtain row acc p db1 where x: "x = ((row, acc, p), db1)" by (metis prod.exhaust)
  have "db' = db1" using q Inr x by (auto simp: queue_evaluation_job_def transact_def)
  then have tx: "queue_tx env inp (sys_db s) = Inr ((row, acc, p), db')" using Inr x by simp
  from tx show ?thesis
  proof (rule queue_ok)
    fix c db1
    assume row: "row \<in> set (submissions (sys_db s))" "sub_id row = qi_submission inp"
      and db1: "db1 = (if qi_eval_type inp = Official \<and> qi_max_active_official_jobs inp \<noteq> None
         then lock_scope ''global:official-active'' (sys_db s) else (sys_db s))"
      and h: "hide_for_rerun (env_now env) (qi_eval_type inp) row (db1\<lparr>jobs := sql_insert (new_job (env_now env) (qi_job_id inp)
         (qi_submission inp) acc (qi_eval_type inp) JobQueued p) (jobs (sys_db s))\<rparr>) = Inr ((), db')"
    let ?j = "new_job (env_now env) (qi_job_id inp) (qi_submission inp) acc (qi_eval_type inp) JobQueued p"
    have "submissions db1 = submissions (sys_db s)" "leaderboard db1 = leaderboard (sys_db s)" by (simp_all add: db1)
    then have "jobs db' = sql_insert ?j (jobs (sys_db s))"
      using hide_for_rerun_ok [OF system_okD [OF ok] row(1) _ _ h [unfolded mode]] mode by auto
    then show ?thesis
      by (rule system_ok_insert [OF ok pipeline_ok_queue [OF system_okD [OF ok] tx mode]]) (use sid in simp)
  qed
qed

lemma system_ok_step: "step s s' \<Longrightarrow> system_ok s \<Longrightarrow> system_ok s'"
proof (induction rule: step.induct)
  case (heartbeat s now w payload)
  then show ?case
    using system_ok_evolve(1) [OF heartbeat pipeline_ok_heartbeat [OF system_okD [OF heartbeat]]]
    by (simp add: upsert_service_heartbeat_def)
next
  case (complete w job s raw schema limits res now r db')
  show ?case
    by (rule system_ok_finish [OF complete(4,1) _ _ _ _ _ complete(3)])
      (use validated_finite [OF complete(2)] in \<open>simp_all add: completed_result_def\<close>)
next
  case (fail w job s now msg r db')
  show ?case by (rule system_ok_finish [OF fail(3,1) _ _ _ _ _ fail(2)]) (simp_all add: failed_result_def)
next
  case (give_up w job s)
  then show ?case by (simp add: system_ok_def claims_drop)
qed (simp_all add: system_ok_publish system_ok_archive system_ok_create system_ok_ready system_ok_cleanup system_ok_reap
    system_ok_claim system_ok_start system_ok_refresh system_ok_requeue system_ok_rerun)

lemma initial_ok: "initial s \<Longrightarrow> system_ok s"
  by (simp add: initial_def system_ok_def pipeline_ok_def tables_ok_def subs_ok_def board_ok_def done_evals_def
      creating_ok_def claims_ok_def pk_ok_def)

lemma reachable_ok: "reachable s \<Longrightarrow> system_ok s"
  by (induction rule: reachable.induct) (auto intro: initial_ok system_ok_step)

end
