(* ===== verification/Lifecycle_Example.thy ===== *)
theory Lifecycle_Example
  imports Lifecycle_System
begin

text \<open>
  A small run of the system, used by witnesses: a challenge is published, an agent submits an
  official solution, its job is promoted, a worker claims it, starts the evaluation and completes it.
  Each state is written out, and each operation is evaluated on it.
\<close>

section \<open>Inputs\<close>

definition ex_env :: env where
  "ex_env = \<lparr>env_now = 100, env_utc_now = 100, env_parse_rfc3339 = (\<lambda>_. Inr 0), env_hex_decodes = (\<lambda>_. True)\<rparr>"

definition ex_publish :: publish_challenge_input where
  "ex_publish = \<lparr>pi_challenge_name = ''sum'', pi_title = ''Sum'', pi_bundle_key = ''full'',
     pi_public_bundle_key = ''public'', pi_statement_key = ''statement'', pi_spec = example_spec\<rparr>"

definition ex_digest :: string where
  "ex_digest = replicate 64 (CHR ''a'')"

definition ex_create :: create_solution_submission_input where
  "ex_create = \<lparr>ci_submission = ''s1'', ci_job_id = ''j1'', ci_agent = ''a1'', ci_challenge = ''sum'',
     ci_target = ''linux-arm64-cpu'', ci_artifact_key = ''zip'',
     ci_artifact_metadata = \<lparr>artifact_zip_bytes = 10, artifact_uncompressed_bytes = 20, artifact_file_count = 1,
       artifact_sha256 = ex_digest\<rparr>,
     ci_note = [], ci_eval_type = Official, ci_explanation = [], ci_parent = None, ci_credit_text = [],
     ci_quota = \<lparr>qa_window_seconds = 86400, qa_per_agent_challenge_limit = 5, qa_challenge_lifetime_limit = Some 9,
       qa_max_active_official_jobs = Some 3\<rparr>\<rparr>"

definition ex_raw_result :: evaluator_run_result where
  "ex_raw_result = \<lparr>er_status = RunPassed, er_mode = None, aggregate_metrics = [\<lparr>mv_name = ''score'', mv_value = Fin 7\<rparr>],
     run_metrics = [], public_results = [], validation_summary = None,
     official_summary = Some \<lparr>ss_score = Fin 7, ss_passed = 1, ss_total = 1\<rparr>, er_logs = []\<rparr>"

definition ex_limits :: evaluation_limit_config where
  "ex_limits = \<lparr>max_runs = 10, max_result_json_bytes = 1000, max_public_results = 10, max_result_log_bytes = 1000\<rparr>"

definition ex_execution :: execution_result where
  "ex_execution = \<lparr>ex_result = ex_raw_result\<lparr>er_mode := Some Official\<rparr>, ex_runner_log_storage_key = ''log''\<rparr>"

section \<open>States\<close>

definition ex_db ::
  "string list \<Rightarrow> challenge_row list \<Rightarrow> submission_row list \<Rightarrow> job_row list \<Rightarrow> evaluation_row list \<Rightarrow> leaderboard_row list \<Rightarrow> db" where
  "ex_db locks cs ss js es ls = \<lparr>challenges = cs, submissions = ss, jobs = js, evaluations = es, leaderboard = ls, shortlist = [],
     agents = [\<lparr>ag_id = ''a1'', ag_display_name = ''Ada''\<rparr>], heartbeats = [], quota_locks = locks\<rparr>"

definition ex_submission :: "solution_submission_status \<Rightarrow> bool \<Rightarrow> timestamp \<Rightarrow> submission_row" where
  "ex_submission st vis now = (new_submission 100 ex_create (published_row ex_publish) 10 20 1)
     \<lparr>sub_status := st, sub_visible := vis, sub_updated_at := now\<rparr>"

definition ex_payload :: evaluation_job_payload where
  "ex_payload = \<lparr>pl_artifact_key = ''zip'', pl_bundle_key = ''full'', pl_public_bundle_key = ''public'',
     pl_challenge_name = ''sum'', pl_target = ''linux-arm64-cpu''\<rparr>"

definition ex_job_row :: "evaluation_job_status \<Rightarrow> job_row" where
  "ex_job_row st = new_job 100 ''j1'' ''s1'' AccNone Official st ex_payload"

definition ex_running_row :: job_row where
  "ex_running_row = claim_job_row 100 ''w1'' (ex_job_row JobQueued)"

definition ex_job :: evaluation_job_record where
  "ex_job = \<lparr>ejr_id = ''j1'', ejr_submission = ''s1'', ejr_challenge = ''sum'', ejr_target = ''linux-arm64-cpu'',
     ejr_accelerator = AccNone, ejr_eval_type = Official, ejr_status = JobRunning, ejr_attempt_count = 1,
     ejr_payload = ex_payload, ejr_artifact_metadata = Some (ci_artifact_metadata ex_create)\<rparr>"

definition ex_evaluation :: evaluation_row where
  "ex_evaluation = finished_evaluation_row 120 (completed_result ''w1'' ex_job ex_execution) (new_evaluation 110 ''e1'' ex_running_row)"

definition ex_board_row :: leaderboard_row where
  "ex_board_row = \<lparr>lb_challenge = ''sum'', lb_target = ''linux-arm64-cpu'', lb_agent = ''a1'', lb_best = ''s1'',
     lb_public_results = [], lb_aggregate_metrics = [\<lparr>mv_name = ''score'', mv_value = Fin 7\<rparr>],
     lb_official_metrics = [\<lparr>mv_name = ''score'', mv_value = Fin 7\<rparr>], lb_updated_at = 120\<rparr>"

definition ex_locks :: "string list \<Rightarrow> string list \<Rightarrow> string list" where
  "ex_locks scopes locks = fold (\<lambda>s l. if s \<in> set l then l else l @ [s]) scopes locks"

definition ex_db0 :: db where "ex_db0 = ex_db [] [] [] [] [] []"
definition ex_db1 :: db where "ex_db1 = ex_db [] [published_row ex_publish] [] [] [] []"
definition ex_db2 :: db where
  "ex_db2 = ex_db (ex_locks (quota_scopes ex_create) []) [published_row ex_publish] [ex_submission SubPending False 100]
     [ex_job_row JobStaged] [] []"
definition ex_db3 :: db where
  "ex_db3 = ex_db (quota_locks ex_db2) [published_row ex_publish] [ex_submission SubQueued False 100] [ex_job_row JobQueued] [] []"
definition ex_db4 :: db where
  "ex_db4 = ex_db (quota_locks ex_db2) [published_row ex_publish] [ex_submission SubRunning False 100] [ex_running_row] [] []"
definition ex_db5 :: db where
  "ex_db5 = ex_db (quota_locks ex_db2) [published_row ex_publish] [ex_submission SubRunning False 100] [ex_running_row]
     [new_evaluation 110 ''e1'' ex_running_row] []"
definition ex_db6 :: db where
  "ex_db6 = ex_db (ex_locks [''leaderboard:sum:linux-arm64-cpu:a1''] (quota_locks ex_db2)) [published_row ex_publish]
     [ex_submission SubCompleted True 120]
     [finished_job_row 120 (completed_result ''w1'' ex_job ex_execution) ex_running_row] [ex_evaluation] [ex_board_row]"

lemmas ex_states = ex_db_def ex_db0_def ex_db1_def ex_db2_def ex_db3_def ex_db4_def ex_db5_def ex_db6_def
lemmas ex_rows = ex_submission_def new_submission_def ex_job_row_def new_job_def ex_running_row_def claim_job_row_def
  published_row_def ex_publish_def ex_payload_def ex_job_def
lemmas sql_defs = sql_select_def sql_exists_def sql_count_def sql_first_def sql_update_def sql_delete_def sql_insert_def sql_upsert_def

section \<open>Steps\<close>

lemma ex_locks_fold: "fold lock_scope scopes (ex_db locks cs ss js es ls) = ex_db (ex_locks scopes locks) cs ss js es ls"
  by (induction scopes arbitrary: locks) (simp_all add: ex_locks_def lock_scope_def ex_db_def)

lemma ex_lock_scope: "lock_scope scope (ex_db locks cs ss js es ls) = ex_db (ex_locks [scope] locks) cs ss js es ls"
  by (simp add: ex_locks_def lock_scope_def ex_db_def)

lemma ex_keys: "validate_storage_key ''full'' = Inr ''full''" "validate_storage_key ''public'' = Inr ''public''"
    "validate_storage_key ''statement'' = Inr ''statement''"
  by (simp_all add: validate_storage_key_eq storage_key_pattern_def name_token_char_def ascii_class_defs)

lemma ex_publish_step: "publish_challenge ex_env ex_publish ex_db0 = (Inr (published_row ex_publish), ex_db1)"
  by (simp add: publish_challenge_def transact_def publish_challenge_tx_def parse_required_time_def parse_optional_time_def
      ex_env_def challenge_by_name_def sql_defs ex_states, simp add: ex_publish_def example_spec_def)

lemma ex_admitted:
  "lock_active_challenge_for_admission_tx ''sum'' ex_db1 = Inr (published_row ex_publish)"
  "ensure_challenge_supports_eval_type_tx ex_env ''sum'' example_spec ''linux-arm64-cpu'' Official ''a1'' ex_db1 = Inr ()"
  "target example_spec ''linux-arm64-cpu'' = Some example_target"
proof -
  show t: "target example_spec ''linux-arm64-cpu'' = Some example_target"
    by (simp add: target_def example_spec_def example_target_def)
  show "lock_active_challenge_for_admission_tx ''sum'' ex_db1 = Inr (published_row ex_publish)"
    by (simp add: lock_active_challenge_for_admission_tx_def ex_states sql_defs challenge_record_of_def storage_key_from_row_def
        published_row_def ex_publish_def ex_keys)
  show "ensure_challenge_supports_eval_type_tx ex_env ''sum'' example_spec ''linux-arm64-cpu'' Official ''a1'' ex_db1 = Inr ()"
    unfolding supports_eval_type_ok window_open_def agent_eligible_def mode_supported_def t
    by (simp add: ex_env_def example_spec_def)
qed

lemma ex_quota: "enforce_quota_admission 100 ex_create ex_db1 =
    Inr ((), ex_db (ex_locks (quota_scopes ex_create) []) [published_row ex_publish] [] [] [] [])"
  unfolding enforce_quota_admission_def ex_db1_def ex_locks_fold
  by (simp add: count_recent_runs_for_agent_challenge_def count_lifetime_runs_for_agent_challenge_def
      count_active_evaluation_jobs_def under_limit_def sql_count_def ex_db_def, simp add: ex_create_def)

lemma ex_create_step: "create_solution_submission_with_job ex_env ex_create ex_db1 = Inr (ex_submission SubPending False 100, ex_db2)"
proof -
  have fields: "ci_challenge ex_create = ''sum''" "ci_target ex_create = ''linux-arm64-cpu''" "ci_eval_type ex_create = Official"
      "ci_agent ex_create = ''a1''" "ci_parent ex_create = None" "ci_submission ex_create = ''s1''" "ci_job_id ex_create = ''j1''"
      "ci_artifact_key ex_create = ''zip''" "artifact_zip_bytes (ci_artifact_metadata ex_create) = 10"
      "artifact_uncompressed_bytes (ci_artifact_metadata ex_create) = 20" "artifact_file_count (ci_artifact_metadata ex_create) = 1"
      "env_now ex_env = 100" "ch_spec (published_row ex_publish) = Some example_spec" "ch_name (published_row ex_publish) = ''sum''"
      "ch_bundle_key (published_row ex_publish) = ''full''" "ch_public_bundle_key (published_row ex_publish) = ''public''"
      "accelerator example_target = AccNone"
    by (simp_all add: ex_create_def ex_env_def ex_publish_def published_row_def example_target_def)
  have sub: "sub_id (new_submission n ex_create c z u f) = ''s1''" "sub_agent (new_submission n ex_create c z u f) = ''a1''" for n c z u f
    by (simp_all add: new_submission_def fields)
  have row: "ex_submission SubPending False 100 = new_submission 100 ex_create (published_row ex_publish) 10 20 1"
    by (simp add: ex_submission_def new_submission_def)
  have job: "ex_job_row JobStaged = new_job 100 ''j1'' ''s1'' AccNone Official JobStaged \<lparr>pl_artifact_key = ''zip'',
      pl_bundle_key = ''full'', pl_public_bundle_key = ''public'', pl_challenge_name = ''sum'', pl_target = ''linux-arm64-cpu''\<rparr>"
    by (simp add: ex_job_row_def ex_payload_def)
  show ?thesis
    unfolding create_solution_submission_with_job_def fields ex_admitted and_then_simps ok_or_simps ex_quota
    by (simp add: ensure_validation_uses_public_bundle_def fields ensure_parent_solution_submission_matches_scope_tx_def
        u64_to_i64_def i64_max_def insert_submission_def insert_job_def required_accelerator_for_target_def ex_admitted Let_def
        sub row job ex_db2_def ex_db_def sql_insert_def)
qed

lemma ex_ready_step: "mark_evaluation_job_ready 100 ''j1'' ex_db2 = Inr ((), ex_db3)"
  by (simp add: mark_evaluation_job_ready_def ex_states sql_defs ex_rows ex_create_def)

lemma ex_digest_ok: "sha256_try_new (\<lambda>_. True) ex_digest = Some ex_digest"
proof -
  have "trim ex_digest = ex_digest" by (rule trim_printable) (simp add: ex_digest_def byte_of_def)
  then show ?thesis by (simp add: sha256_try_new_def) (simp add: ex_digest_def)
qed

lemma ex_claim_step: "claim_next_evaluation_job ex_env ''w1'' WorkerNone (\<lambda>_. False) ex_db3 = (Inr (Some ex_job), ex_db4)"
proof -
  have "claim_tx ex_env ''w1'' WorkerNone (\<lambda>_. False) ex_db3 = Inr (Some (ex_running_row, ex_submission SubQueued False 100, ex_payload), ex_db4)"
    by (simp add: claim_tx_def next_job_def sql_top_def first_by_def claimable_def sub_by_id_def mark_submission_running_def
        ex_states sql_defs ex_rows ex_create_def ex_env_def)
  moreover have "artifact_metadata_from_row ex_env (ex_submission SubQueued False 100) = Inr (Some (ci_artifact_metadata ex_create))"
    by (simp add: artifact_metadata_from_row_def optional_u64_from_row_def ex_submission_def new_submission_def ex_env_def
        ex_digest_ok ex_create_def)
  ultimately show ?thesis
    by (simp add: claim_next_evaluation_job_def transact_def) (simp add: ex_rows)
qed

lemma ex_start_step: "mark_evaluation_started 110 (started_input ''e1'' ''w1'' ex_job) ex_db4 = Inr (True, ex_db5)"
  by (simp add: mark_evaluation_started_def started_job_matches_def started_input_def ex_states sql_defs ex_rows)

lemma ex_validated: "validate_evaluator_result ex_raw_result Official default_metric_schema ex_limits = Inr (ex_result ex_execution)"
  by (simp add: validate_evaluator_result_def as_runner_error_def validate_size_limits_def validate_for_mode_def
      validate_metric_values_def validate_metric_value_def validate_finite_number_def validate_summary_opt_def
      validate_score_summary_def complete_metric_result_def validate_for_metric_schema_def validate_declared_def
      declared_metric_def validate_metric_visibility_def default_metric_schema_def ex_raw_result_def ex_limits_def ex_execution_def)

lemma ex_finish_step: "mark_evaluation_finished 120 (completed_result ''w1'' ex_job ex_execution) ex_db5 = Inr (True, ex_db6)"
proof -
  let ?r = "completed_result ''w1'' ex_job ex_execution"
  let ?locks = "quota_locks ex_db2"
  let ?tables = "\<lambda>s. ex_db ?locks [published_row ex_publish] [s] [finished_job_row 120 ?r ex_running_row] [ex_evaluation] []"
  have r: "pr_submission ?r = ''s1''" "pr_job_id ?r = ''j1''" "pr_worker_id ?r = ''w1''" "pr_claim_attempt_count ?r = 1"
      "pr_target ?r = ''linux-arm64-cpu''" "pr_eval_type ?r = Official" "pr_status ?r = EvalCompleted"
      "pr_aggregate_metrics ?r = [\<lparr>mv_name = ''score'', mv_value = Fin 7\<rparr>]" "pr_public_results ?r = []"
    by (simp_all add: completed_result_def ex_job_def ex_execution_def ex_raw_result_def)
  have owns: "owns_claim ''j1'' ''w1'' 1 ex_running_row" by (simp add: owns_claim_def ex_rows)
  have status: "set_submission_status 120 ''s1'' SubCompleted True (?tables (ex_submission SubRunning False 100))
      = ?tables (ex_submission SubCompleted True 120)"
    by (simp add: set_submission_status_def ex_db_def sql_defs ex_submission_def new_submission_def ex_create_def)
  have fields: "sub_id (ex_submission SubCompleted True 120) = ''s1''" "sub_challenge (ex_submission SubCompleted True 120) = ''sum''"
      "sub_agent (ex_submission SubCompleted True 120) = ''a1''" "pi_challenge_name ex_publish = ''sum''"
    by (simp_all add: ex_submission_def new_submission_def ex_create_def ex_publish_def)
  have upsert: "upsert_leaderboard_entry_for_solution_submission_tx 120 ''s1'' ''linux-arm64-cpu'' [] [\<lparr>mv_name = ''score'', mv_value = Fin 7\<rparr>]
      (?tables (ex_submission SubCompleted True 120)) = Inr (True, ex_db6)"
    unfolding upsert_leaderboard_entry_for_solution_submission_tx_def ex_db6_def Let_def lock_leaderboard_scope_def ex_lock_scope
    by (simp add: ex_db_def sub_by_id_def challenge_by_name_def lb_by_scope_def sql_defs fields candidate_replaces_leaderboard_entry_def
        ex_board_row_def)
  have update: "update_official_metrics_for_solution_submission_tx 120 ''s1'' ''linux-arm64-cpu'' [\<lparr>mv_name = ''score'', mv_value = Fin 7\<rparr>] ex_db6
      = Inr ((), ex_db6)"
    by (simp add: update_official_metrics_for_solution_submission_tx_def ex_db6_def ex_db_def sub_by_id_def sql_defs fields lb_scope_def
        ex_board_row_def)
  have "ev_job (new_evaluation 110 ''e1'' ex_running_row) = ''j1''" "ev_status (new_evaluation 110 ''e1'' ex_running_row) = EvalRunning"
      "ev_job ex_evaluation = ''j1''"
    by (simp_all add: ex_evaluation_def finished_evaluation_row_def new_evaluation_def ex_rows)
  then show ?thesis
    unfolding mark_evaluation_finished_def r Let_def
    by (simp add: ex_db5_def ex_db_def sql_defs owns has_completed_official_evaluation_tx_def ex_evaluation_def [symmetric]
        apply_official_result_def r status [unfolded ex_db_def] upsert [unfolded ex_db_def] update)
qed

section \<open>The run\<close>

definition ex_system :: "db \<Rightarrow> (uuid \<times> uuid) list \<Rightarrow> (string \<times> evaluation_job_record) list \<Rightarrow> system" where
  "ex_system db cr cl = \<lparr>sys_db = db, sys_creating = cr, sys_claims = cl\<rparr>"

lemma ex_reachable_published: "reachable (ex_system ex_db1 [] [])"
proof -
  have "reachable (ex_system ex_db0 [] [])"
    by (rule reachable_initial) (simp add: initial_def ex_system_def ex_db0_def ex_db_def pk_ok_def)
  moreover have "step (ex_system ex_db0 [] []) (ex_system ex_db1 [] [])"
    using step.publish [of ex_env ex_publish "ex_system ex_db0 [] []"] ex_publish_step by (simp add: ex_system_def)
  ultimately show ?thesis by (meson reachable_step)
qed

lemma ex_reachable_ready: "reachable (ex_system ex_db3 [] [])"
proof -
  have "step (ex_system ex_db1 [] []) (ex_system ex_db2 [(''s1'', ''j1'')] [])"
    using step.create [of ex_env ex_create "ex_system ex_db1 [] []"] ex_create_step
    by (simp add: ex_system_def transact_ok) (simp add: ex_create_def)
  moreover have "step (ex_system ex_db2 [(''s1'', ''j1'')] []) (ex_system ex_db3 [] [])"
    using step.ready [of "''s1''" "''j1''" "ex_system ex_db2 [(''s1'', ''j1'')] []" 100] ex_ready_step
    by (simp add: ex_system_def transact_ok)
  ultimately show ?thesis using ex_reachable_published by (meson reachable_step)
qed

lemma ex_reachable_running: "reachable (ex_system ex_db5 [] [(''w1'', ex_job)])"
proof -
  have "step (ex_system ex_db3 [] []) (ex_system ex_db4 [] [(''w1'', ex_job)])"
    using step.claim [of "''w1''" "ex_system ex_db3 [] []" ex_env WorkerNone "\<lambda>_. False"] ex_claim_step
    by (simp add: ex_system_def claim_added_def)
  moreover have "step (ex_system ex_db4 [] [(''w1'', ex_job)]) (ex_system ex_db5 [] [(''w1'', ex_job)])"
    using step.start [of "''w1''" ex_job "ex_system ex_db4 [] [(''w1'', ex_job)]" 110 "''e1''"] ex_start_step
    by (simp add: ex_system_def transact_def)
  ultimately show ?thesis using ex_reachable_ready by (meson reachable_step)
qed

lemma ex_reachable: "reachable (ex_system ex_db6 [] [])"
proof -
  have "step (ex_system ex_db5 [] [(''w1'', ex_job)]) (ex_system ex_db6 [] [])"
    using step.complete [of "''w1''" ex_job "ex_system ex_db5 [] [(''w1'', ex_job)]" ex_raw_result default_metric_schema ex_limits
        ex_execution 120] ex_validated ex_finish_step
    by (simp add: ex_system_def transact_def) (simp add: ex_job_def)
  then show ?thesis using ex_reachable_running by (rule reachable_step [rotated])
qed

end
