(* ===== verification/Lifecycle_Guarantees.thy ===== *)
theory Lifecycle_Guarantees
  imports Lifecycle_Example
begin

text \<open>
  What holds in every reachable state of the running system, whatever requests, workers, reapers and
  administrators interleave: the leaderboard, the visibility and the status of submissions, the
  active jobs, the leases, the reaper and the claims.
\<close>

section \<open>Reading the invariant\<close>

lemma reachable_pipeline: "reachable s \<Longrightarrow> pipeline_ok (sys_db s)"
  by (rule system_okD [OF reachable_ok])

lemma reachable_sub:
  "reachable s \<Longrightarrow> q \<in> set (submissions (sys_db s)) \<Longrightarrow>
     sub_ok q (jobs_of (sub_id q) (sys_db s)) (evals_of (sub_id q) (sys_db s))"
  using reachable_pipeline unfolding pipeline_ok_def subs_ok_def by blast

text \<open>The scope of a submission on the leaderboard.\<close>

definition sub_scope :: "submission_row \<Rightarrow> challenge_name \<times> target_name \<times> uuid" where
  "sub_scope q = (sub_challenge q, sub_target q, sub_agent q)"

text \<open>\<open>e\<close> is a completed official evaluation of the submission \<open>q\<close>.\<close>

definition official_result :: "db \<Rightarrow> submission_row \<Rightarrow> evaluation_row \<Rightarrow> bool" where
  "official_result db q e \<longleftrightarrow> q \<in> set (submissions db) \<and> e \<in> set (evaluations db) \<and> ev_submission e = sub_id q
     \<and> ev_eval_type e = Official \<and> ev_status e = EvalCompleted"

text \<open>The result \<open>e\<close> does not rank before the row \<open>l\<close> by the contract of the row's challenge.\<close>

definition not_before :: "db \<Rightarrow> evaluation_row \<Rightarrow> leaderboard_row \<Rightarrow> bool" where
  "not_before db e l \<longleftrightarrow> (\<forall>c \<in> set (challenges db). \<forall>spec. ch_name c = lb_challenge l \<longrightarrow> ch_spec c = Some spec \<longrightarrow>
     compare_rank_payloads spec (ev_aggregate_metrics e) (lb_aggregate_metrics l) \<noteq> Less)"

lemma row_covers_not_before: "row_covers (set (challenges db)) l e \<Longrightarrow> not_before db e l"
  unfolding row_covers_def not_before_def by blast

lemma result_covered:
  assumes "pipeline_ok db" "official_result db q e"
  shows "\<exists>l \<in> set (leaderboard db). lb_scope l = sub_scope q \<and> not_before db e l"
proof -
  have "e \<in> done_evals db" "(ev_submission e, sub_challenge q, sub_target q, sub_agent q, sub_visible q) \<in> sub_core ` set (submissions db)"
    using assms(2) by (auto simp: official_result_def done_evals_def official_done_def sub_core_def)
  then obtain l where "l \<in> set (leaderboard db)" "lb_scope l = (sub_challenge q, sub_target q, sub_agent q)"
      "row_covers (set (challenges db)) l e"
    using assms(1) unfolding pipeline_ok_def board_ok_def by blast
  then show ?thesis using row_covers_not_before by (auto simp: sub_scope_def)
qed

lemma row_shows_result:
  assumes "pipeline_ok db" "l \<in> set (leaderboard db)"
  shows "\<exists>q e. official_result db q e \<and> sub_id q = lb_best l \<and> sub_scope q = lb_scope l \<and> sub_visible q
     \<and> ev_aggregate_metrics e = lb_aggregate_metrics l \<and> lb_official_metrics l = lb_aggregate_metrics l"
proof -
  have r: "row_ok (sub_core ` set (submissions db)) (done_evals db) l" using assms unfolding pipeline_ok_def board_ok_def by blast
  then have "(lb_best l, lb_challenge l, lb_target l, lb_agent l, True) \<in> sub_core ` set (submissions db)" by (simp add: row_ok_def)
  then obtain q where "q \<in> set (submissions db)" "sub_id q = lb_best l" "sub_scope q = lb_scope l" "sub_visible q"
    by (auto simp: sub_core_def sub_scope_def lb_scope_def)
  moreover obtain e where "e \<in> done_evals db" "ev_submission e = lb_best l" "ev_aggregate_metrics e = lb_aggregate_metrics l"
    using r unfolding row_ok_def by blast
  ultimately have "official_result db q e \<and> sub_id q = lb_best l \<and> sub_scope q = lb_scope l \<and> sub_visible q
     \<and> ev_aggregate_metrics e = lb_aggregate_metrics l \<and> lb_official_metrics l = lb_aggregate_metrics l"
    using r by (simp add: official_result_def done_evals_def official_done_def row_ok_def)
  then show ?thesis by blast
qed

section \<open>The leaderboard\<close>

text \<open>
  C1. Every leaderboard row is the best of its agent: in every reachable state a row points to a
  visible submission of its own challenge, target and agent, shows the metrics of a completed
  official evaluation of that submission, and no completed official evaluation of any submission of
  the same scope ranks before it by the challenge's ranking contract.
\<close>

theorem leaderboard_row_is_best:
  assumes "reachable s" and "l \<in> set (leaderboard (sys_db s))"
  shows "(\<exists>q e. official_result (sys_db s) q e \<and> sub_id q = lb_best l \<and> sub_scope q = lb_scope l \<and> sub_visible q
       \<and> ev_aggregate_metrics e = lb_aggregate_metrics l \<and> lb_official_metrics l = lb_aggregate_metrics l)
    \<and> (\<forall>q e. official_result (sys_db s) q e \<and> sub_scope q = lb_scope l \<longrightarrow> not_before (sys_db s) e l)"
proof (intro conjI allI impI)
  note ok = reachable_pipeline [OF assms(1)]
  show "\<exists>q e. official_result (sys_db s) q e \<and> sub_id q = lb_best l \<and> sub_scope q = lb_scope l \<and> sub_visible q
       \<and> ev_aggregate_metrics e = lb_aggregate_metrics l \<and> lb_official_metrics l = lb_aggregate_metrics l"
    by (rule row_shows_result [OF ok assms(2)])
  fix q e assume q: "official_result (sys_db s) q e \<and> sub_scope q = lb_scope l"
  then obtain l' where "l' \<in> set (leaderboard (sys_db s))" "lb_scope l' = lb_scope l" "not_before (sys_db s) e l'"
    using result_covered [OF ok] by metis
  then show "not_before (sys_db s) e l" using pk_ok_inj [OF pipeline_pks(3) [OF ok] _ assms(2)] by blast
qed

theorem leaderboard_row_is_best_witness:
  "reachable (ex_system ex_db6 [] []) \<and> ex_board_row \<in> set (leaderboard ex_db6)
   \<and> (\<exists>q e. official_result ex_db6 q e \<and> sub_id q = ''s1'' \<and> sub_visible q)"
proof -
  have l: "ex_board_row \<in> set (leaderboard (sys_db (ex_system ex_db6 [] [])))"
    by (simp add: ex_system_def ex_db6_def ex_db_def)
  have "sys_db (ex_system ex_db6 [] []) = ex_db6" "lb_best ex_board_row = ''s1''" by (simp_all add: ex_system_def ex_board_row_def)
  then show ?thesis using ex_reachable l leaderboard_row_is_best [OF ex_reachable l] by auto
qed

text \<open>
  C2. No completed official result is lost: in every reachable state each completed official
  evaluation of a submission has a leaderboard row of its challenge, target and agent, there is only
  one such row, and the result does not rank before it.
\<close>

theorem official_result_is_ranked:
  assumes "reachable s" and "official_result (sys_db s) q e"
  shows "\<exists>!l. l \<in> set (leaderboard (sys_db s)) \<and> lb_scope l = sub_scope q \<and> not_before (sys_db s) e l"
proof -
  note ok = reachable_pipeline [OF assms(1)]
  obtain l where "l \<in> set (leaderboard (sys_db s))" "lb_scope l = sub_scope q" "not_before (sys_db s) e l"
    using result_covered [OF ok assms(2)] by blast
  moreover have "l' = l" if "l' \<in> set (leaderboard (sys_db s)) \<and> lb_scope l' = sub_scope q" for l'
    using pk_ok_inj [OF pipeline_pks(3) [OF ok]] that calculation(1,2) by metis
  ultimately show ?thesis by blast
qed

lemma ex_official_result: "official_result ex_db6 (ex_submission SubCompleted True 120) ex_evaluation"
  by (simp add: official_result_def ex_db6_def ex_db_def ex_evaluation_def finished_evaluation_row_def new_evaluation_def ex_rows
      completed_result_def ex_create_def)

theorem official_result_is_ranked_witness:
  "\<exists>!l. l \<in> set (leaderboard ex_db6) \<and> lb_scope l = sub_scope (ex_submission SubCompleted True 120)
     \<and> not_before ex_db6 ex_evaluation l"
  using official_result_is_ranked [OF ex_reachable, of "ex_submission SubCompleted True 120" ex_evaluation] ex_official_result
  by (simp add: ex_system_def)

section \<open>Submissions\<close>

text \<open>
  C3. A submission is public exactly when it has a completed official evaluation, and a public
  submission has the status \<open>completed\<close>.
\<close>

theorem visible_iff_official_result:
  assumes "reachable s" and "q \<in> set (submissions (sys_db s))"
  shows "(sub_visible q \<longleftrightarrow> (\<exists>e. official_result (sys_db s) q e)) \<and> (sub_visible q \<longrightarrow> sub_status q = SubCompleted)"
  using sub_okD(3) [OF reachable_sub [OF assms]] assms(2)
  by (auto simp: status_ok_def official_result_def official_done_def evals_of_def)

theorem visible_iff_official_result_witness:
  "ex_submission SubCompleted True 120 \<in> set (submissions ex_db6)
   \<and> (\<exists>e. official_result ex_db6 (ex_submission SubCompleted True 120) e)"
proof -
  let ?q = "ex_submission SubCompleted True 120"
  have q: "?q \<in> set (submissions (sys_db (ex_system ex_db6 [] [])))" by (simp add: ex_system_def ex_db6_def ex_db_def)
  have "sub_visible ?q" by (simp add: ex_submission_def)
  then show ?thesis using q visible_iff_official_result [OF ex_reachable q] by (simp add: ex_system_def)
qed

text \<open>
  C4. The status of a submission without a public result mirrors its active job (\<open>pending\<close> for a
  staged, \<open>queued\<close> for a queued, \<open>running\<close> for a running one), and without an active job it is
  final, \<open>completed\<close> or \<open>failed\<close>. A public submission is only ever re-run officially.
\<close>

theorem status_mirrors_active_job:
  assumes "reachable s" and "q \<in> set (submissions (sys_db s))"
  shows "(\<forall>j \<in> set (jobs (sys_db s)). job_submission j = sub_id q \<and> job_active j \<longrightarrow>
        (if sub_visible q then sub_status q = SubCompleted \<and> job_eval_type j = Official
         else sub_status q = mirror_status (job_status j)))
    \<and> ((\<forall>j \<in> set (jobs (sys_db s)). job_submission j = sub_id q \<longrightarrow> \<not> job_active j) \<longrightarrow>
        sub_status q \<in> {SubCompleted, SubFailed})"
  using sub_okD(3) [OF reachable_sub [OF assms]] by (auto simp: status_ok_def jobs_of_def)

theorem status_mirrors_active_job_witness:
  "ex_submission SubRunning False 100 \<in> set (submissions ex_db5) \<and> ex_running_row \<in> set (jobs ex_db5)
   \<and> sub_status (ex_submission SubRunning False 100) = mirror_status (job_status ex_running_row)"
proof -
  let ?s = "ex_system ex_db5 [] [(''w1'', ex_job)]" and ?q = "ex_submission SubRunning False 100"
  have q: "?q \<in> set (submissions (sys_db ?s))" and j: "ex_running_row \<in> set (jobs (sys_db ?s))"
    by (simp_all add: ex_system_def ex_db5_def ex_db_def)
  have "job_submission ex_running_row = sub_id ?q" "job_active ex_running_row" "\<not> sub_visible ?q"
    by (simp_all add: ex_rows ex_create_def)
  then show ?thesis
    using q j status_mirrors_active_job [OF ex_reachable_running q] by (simp add: ex_system_def)
qed

section \<open>Jobs\<close>

text \<open>
  C5. At most one job of a submission is active, so the partial unique index is never the one that
  refuses; no job exceeds its attempts, a waiting job has an attempt left, a running job has a worker
  and a lease, and every stored payload decodes.
\<close>

theorem jobs_well_formed:
  assumes "reachable s"
  shows "one_active (jobs (sys_db s)) \<and> (\<forall>j \<in> set (jobs (sys_db s)). job_payload j \<noteq> None
     \<and> 0 \<le> job_attempt_count j \<and> job_attempt_count j \<le> job_max_attempts j
     \<and> (job_status j \<in> {JobStaged, JobQueued} \<longrightarrow> job_attempt_count j < job_max_attempts j)
     \<and> (job_status j = JobRunning \<longrightarrow> 1 \<le> job_attempt_count j \<and> job_worker_id j \<noteq> None \<and> job_claimed_at j \<noteq> None))"
proof (rule conjI)
  note ok = reachable_pipeline [OF assms]
  have "i = j" if ij: "i \<in> set (jobs (sys_db s))" "j \<in> set (jobs (sys_db s))" "job_active i" "job_active j"
    "job_submission i = job_submission j" for i j
  proof -
    obtain q where q: "q \<in> set (submissions (sys_db s))" "sub_id q = job_submission i" by (rule sub_of_job [OF ok ij(1)])
    have "i \<in> jobs_of (sub_id q) (sys_db s)" "j \<in> jobs_of (sub_id q) (sys_db s)" using ij q by (simp_all add: jobs_of_def)
    then show ?thesis using sub_okD(1) [OF reachable_sub [OF assms q(1)]] ij(3,4) unfolding jobs_ok_def by blast
  qed
  then have "inj_on job_submission {j \<in> set (jobs (sys_db s)). job_active j}" by (auto intro: inj_onI)
  moreover have "distinct (jobs (sys_db s))" using pipeline_pks(5) [OF ok] by (simp add: pk_ok_def distinct_map)
  ultimately show "one_active (jobs (sys_db s))" by (simp add: one_active_def distinct_map)
  show "\<forall>j \<in> set (jobs (sys_db s)). job_payload j \<noteq> None
     \<and> 0 \<le> job_attempt_count j \<and> job_attempt_count j \<le> job_max_attempts j
     \<and> (job_status j \<in> {JobStaged, JobQueued} \<longrightarrow> job_attempt_count j < job_max_attempts j)
     \<and> (job_status j = JobRunning \<longrightarrow> 1 \<le> job_attempt_count j \<and> job_worker_id j \<noteq> None \<and> job_claimed_at j \<noteq> None)"
    using job_ok_in [OF ok] unfolding job_ok_def by blast
qed

theorem jobs_well_formed_witness:
  "one_active (jobs ex_db5) \<and> job_payload ex_running_row \<noteq> None"
  using jobs_well_formed [OF ex_reachable_running] by (simp add: ex_system_def) (simp add: ex_db5_def ex_db_def)

text \<open>
  C6. Evaluations and jobs agree: every evaluation belongs to a job of the same submission, target and
  mode, runs, completed or failed exactly as that job did, is the only evaluation of the job, and a
  completed job has one.
\<close>

theorem evaluations_match_jobs:
  assumes "reachable s"
  shows "(\<forall>e \<in> set (evaluations (sys_db s)). \<exists>j \<in> set (jobs (sys_db s)). job_id j = ev_job e
       \<and> job_submission j = ev_submission e \<and> job_target j = ev_target e \<and> job_eval_type j = ev_eval_type e
       \<and> eval_matches (ev_status e) (job_status j))
    \<and> (\<forall>j \<in> set (jobs (sys_db s)). job_status j = JobCompleted \<longrightarrow>
       (\<exists>!e. e \<in> set (evaluations (sys_db s)) \<and> ev_job e = job_id j))"
proof (intro conjI ballI impI)
  note ok = reachable_pipeline [OF assms]
  fix e assume e: "e \<in> set (evaluations (sys_db s))"
  then obtain q where q: "q \<in> set (submissions (sys_db s))" "sub_id q = ev_submission e"
    using ok unfolding pipeline_ok_def tables_ok_def by blast
  have "e \<in> evals_of (sub_id q) (sys_db s)" using e q by (simp add: evals_of_def)
  then obtain j where "j \<in> set (jobs (sys_db s))" "job_id j = ev_job e"
    using sub_okD(2) [OF reachable_sub [OF assms q(1)]] unfolding evals_ok_def jobs_of_def by blast
  then show "\<exists>j \<in> set (jobs (sys_db s)). job_id j = ev_job e \<and> job_submission j = ev_submission e \<and> job_target j = ev_target e
      \<and> job_eval_type j = ev_eval_type e \<and> eval_matches (ev_status e) (job_status j)"
    using eval_of_job [OF ok _ e] by metis
next
  note ok = reachable_pipeline [OF assms]
  fix j assume j: "j \<in> set (jobs (sys_db s))" "job_status j = JobCompleted"
  obtain q where q: "q \<in> set (submissions (sys_db s))" "sub_id q = job_submission j" by (rule sub_of_job [OF ok j(1)])
  have "j \<in> jobs_of (sub_id q) (sys_db s)" using j q by (simp add: jobs_of_def)
  then obtain e where "e \<in> set (evaluations (sys_db s))" "ev_job e = job_id j"
    using sub_okD(2) [OF reachable_sub [OF assms q(1)]] j(2) unfolding evals_ok_def evals_of_def by blast
  moreover have "e' = e" if "e' \<in> set (evaluations (sys_db s)) \<and> ev_job e' = job_id j" for e'
    using pk_ok_inj [OF pipeline_pks(2) [OF ok]] that calculation by metis
  ultimately show "\<exists>!e. e \<in> set (evaluations (sys_db s)) \<and> ev_job e = job_id j" by blast
qed

theorem evaluations_match_jobs_witness:
  "\<exists>j \<in> set (jobs ex_db6). job_id j = ev_job ex_evaluation \<and> eval_matches (ev_status ex_evaluation) (job_status j)"
proof -
  have "ex_evaluation \<in> set (evaluations ex_db6)" by (simp add: ex_db6_def ex_db_def)
  then show ?thesis using evaluations_match_jobs [OF ex_reachable] by (auto simp: ex_system_def)
qed

end
