(* ===== verification/Settled_Jobs.thy ===== *)
theory Settled_Jobs
  imports Lifecycle_System
begin

text \<open>
  Settled jobs of the running system of \<open>Lifecycle_System\<close>: once a job is completed or failed and its creation
  request is over, no step of any process changes its row or the evaluation that was recorded for it, whatever
  claims, refreshes, finishes, requeues, reaper passes and re-runs follow. The first section holds the tables that
  each operation leaves alone.
\<close>

section \<open>Frames\<close>

lemma repair_frame:
  assumes "repair_leaderboard_entry_for_solution_submission_tx now sid db = Inr (u, db')"
  shows "jobs db' = jobs db \<and> submissions db' = submissions db \<and> evaluations db' = evaluations db"
proof (cases "find_leaderboard_repair_scope sid db")
  case None
  then show ?thesis using assms by (simp add: repair_leaderboard_entry_for_solution_submission_tx_def)
next
  case (Some sc)
  note run = assms [unfolded repair_leaderboard_entry_for_solution_submission_tx_def Some option.case Let_def]
  show ?thesis
  proof (cases "leaderboard_entry_points_to_submission sc sid (lock_leaderboard_scope sc db)")
    case False
    then show ?thesis using run by (auto simp: lock_leaderboard_scope_def)
  next
    case True
    with run obtain spec_opt where load: "load_repair_challenge_spec (rs_challenge sc) (lock_leaderboard_scope sc db) = Inr spec_opt"
      by (auto simp: and_then_eq_Inr)
    show ?thesis
    proof (cases spec_opt)
      case None
      then show ?thesis using run True load by (auto simp: lock_leaderboard_scope_def)
    next
      case (Some spec)
      then show ?thesis using run True load
        by (cases "best_replacement_candidate sc sid spec (lock_leaderboard_scope sc db)")
          (auto simp: lock_leaderboard_scope_def upsert_replacement_leaderboard_entry_def delete_leaderboard_entry_def)
    qed
  qed
qed

lemma map_snd_Inr: "map_sum id snd x = Inr y \<longleftrightarrow> (\<exists>u. x = Inr (u, y))"
  by (cases x) auto

lemma settle_reaped_frame:
  assumes "settle_reaped_submission now st j db = Inr db'"
  shows "evaluations db' = evaluations db"
  using assms
  by (auto simp: settle_reaped_submission_def preserve_visible_official_result_tx_def hide_reaped_solution_submission_tx_def
      map_snd_Inr split: if_splits option.splits dest!: repair_frame)

lemma upsert_evaluations:
  assumes "upsert_leaderboard_entry_for_solution_submission_tx now sid t pub agg db = Inr (b, db')"
  shows "evaluations db' = evaluations db"
proof (cases "sub_by_id sid (submissions db)")
  case None
  then show ?thesis using assms by (simp add: upsert_leaderboard_entry_for_solution_submission_tx_def)
next
  case s: (Some s)
  show ?thesis
  proof (cases "challenge_by_name (sub_challenge s) (challenges db)")
    case None
    then show ?thesis using assms s by (simp add: upsert_leaderboard_entry_for_solution_submission_tx_def)
  next
    case (Some c)
    then show ?thesis using assms s
      by (auto simp: upsert_leaderboard_entry_for_solution_submission_tx_def lock_leaderboard_scope_def Let_def and_then_eq_Inr
          simp del: lock_scope_def split: if_splits)
  qed
qed

lemma apply_validation_evaluations:
  "apply_validation_result now r prev db = Inr (b, db') \<Longrightarrow> evaluations db' = evaluations db"
  by (auto simp: apply_validation_result_def split: if_splits)

lemma update_official_evaluations:
  "update_official_metrics_for_solution_submission_tx now sid t ms db = Inr (u, db') \<Longrightarrow> evaluations db' = evaluations db"
  by (auto simp: update_official_metrics_for_solution_submission_tx_def split: option.splits)

lemma apply_official_evaluations:
  assumes "apply_official_result now r prev db = Inr (b, db')"
  shows "evaluations db' = evaluations db"
proof (cases "pr_status r = EvalCompleted")
  case True
  with assms obtain best db2 where up: "upsert_leaderboard_entry_for_solution_submission_tx now (pr_submission r) (pr_target r) (pr_public_results r)
        (pr_aggregate_metrics r) (set_submission_status now (pr_submission r) SubCompleted True db) = Inr (best, db2)"
    and rest: "(if best then and_then (update_official_metrics_for_solution_submission_tx now (pr_submission r) (pr_target r)
        (pr_aggregate_metrics r) db2) (\<lambda>(_, db3). Inr (True, db3)) else Inr (True, db2)) = Inr (b, db')"
    unfolding apply_official_result_def Let_def and_then_eq_Inr by (simp only: if_True simp_thms) (auto simp: and_then_eq_Inr)
  have "evaluations db' = evaluations db2"
    using rest update_official_evaluations by (cases best) (auto simp: and_then_eq_Inr)
  then show ?thesis using upsert_evaluations [OF up] by simp
next
  case False
  then show ?thesis using assms by (auto simp: apply_official_result_def)
qed

lemmas apply_evaluations = apply_validation_evaluations apply_official_evaluations

lemma finish_tables:
  assumes "mark_evaluation_finished now r db = Inr (True, db')"
  shows "\<exists>j e. j \<in> set (jobs db) \<and> owns_claim (pr_job_id r) (pr_worker_id r) (pr_claim_attempt_count r) j
    \<and> e \<in> set (evaluations db) \<and> ev_job e = job_id j \<and> ev_status e = EvalRunning
    \<and> jobs db' = jobs (finished_tables now r db) \<and> evaluations db' = evaluations (finished_tables now r db)"
  using assms
proof (cases rule: mark_evaluation_finished_cases)
  case (finished j e)
  have "jobs db' = jobs (finished_tables now r db) \<and> evaluations db' = evaluations (finished_tables now r db)"
    using finished(6) apply_frames apply_evaluations by (cases "pr_eval_type r") auto
  with finished show ?thesis by blast
qed simp

section \<open>A settled job and its evaluation\<close>

definition job_settled :: "job_row \<Rightarrow> bool" where
  "job_settled j \<longleftrightarrow> job_status j = JobCompleted \<or> job_status j = JobFailed"

text \<open>The job and the evaluation that are kept: both settled, of the same job.\<close>

definition settled_pair :: "job_row \<Rightarrow> evaluation_row \<Rightarrow> db \<Rightarrow> bool" where
  "settled_pair j e db \<longleftrightarrow> j \<in> set (jobs db) \<and> job_settled j \<and> e \<in> set (evaluations db)
     \<and> ev_job e = job_id j \<and> ev_submission e = job_submission j \<and> ev_status e \<noteq> EvalRunning"

lemma settled_update:
  assumes "settled_pair j e db" and "\<not> P j" and "jobs db' = sql_update P f (jobs db)" and "e \<in> set (evaluations db')"
  shows "settled_pair j e db'"
  using assms by (simp add: settled_pair_def in_sql_update)

lemma settled_same:
  "settled_pair j e db \<Longrightarrow> jobs db' = jobs db \<Longrightarrow> evaluations db' = evaluations db \<Longrightarrow> settled_pair j e db'"
  by (simp add: settled_pair_def)

lemma settled_not_owned: "job_settled j \<Longrightarrow> \<not> owns_claim jid w a j"
  by (auto simp: job_settled_def owns_claim_def)

lemma running_update_keeps:
  "e \<in> set es \<Longrightarrow> ev_status e \<noteq> EvalRunning \<Longrightarrow> e \<in> set (sql_update (\<lambda>e. ev_job e = jid \<and> ev_status e = EvalRunning) f es)"
  by (simp add: in_sql_update)

lemma reap_fold_keeps:
  assumes "try_fold (\<lambda>db i. settle_reaped_submission now st i (g i db)) db rows = Inr db'"
    and "\<And>i x. e \<in> set (evaluations x) \<Longrightarrow> e \<in> set (evaluations (g i x))" and "e \<in> set (evaluations db)"
  shows "e \<in> set (evaluations db')"
  using assms(1,3)
proof (induction rows arbitrary: db)
  case (Cons i rows)
  then obtain x where "settle_reaped_submission now st i (g i db) = Inr x"
      "try_fold (\<lambda>db i. settle_reaped_submission now st i (g i db)) x rows = Inr db'"
    by (auto simp: and_then_eq_Inr split: sum.splits)
  then show ?case using Cons assms(2) settle_reaped_frame by metis
qed simp

lemma staged_fold_keeps:
  "try_fold (\<lambda>db i. Inr (set_submission_status now (job_submission i) SubFailed False db)) db rows = Inr db' \<Longrightarrow>
     evaluations db' = evaluations db"
  by (induction rows arbitrary: db) auto

lemma reap_keeps:
  assumes r: "reap_stuck_jobs now timeout db = Inr (res, db')" and e: "e \<in> set (evaluations db)" "ev_status e \<noteq> EvalRunning"
  shows "e \<in> set (evaluations db')"
proof -
  from r obtain a1 x1 a2 x2 a3 where 1: "reap_staged now timeout db = Inr (a1, x1)" and 2: "reap_requeue now timeout x1 = Inr (a2, x2)"
    and 3: "reap_fail now timeout x2 = Inr (a3, db')"
    by (auto simp: reap_stuck_jobs_def and_then_eq_Inr)
  have "e \<in> set (evaluations x1)" using 1 e staged_fold_keeps by (fastforce simp: reap_staged_def Let_def and_then_eq_Inr)
  moreover have "e \<in> set (evaluations (delete_running_evaluation_for_job jid x))" "e \<in> set (evaluations (fail_running_evaluation now jid x))"
    if "e \<in> set (evaluations x)" for jid x
    using that e(2) by (simp_all add: delete_running_evaluation_for_job_def fail_running_evaluation_def in_sql_update)
  ultimately have "e \<in> set (evaluations x2)"
    using 2 reap_fold_keeps [where e = e and g = "\<lambda>i. delete_running_evaluation_for_job (job_id i)"]
    by (fastforce simp: reap_requeue_def Let_def and_then_eq_Inr)
  then show ?thesis
    using 3 reap_fold_keeps [where e = e and g = "\<lambda>i. fail_running_evaluation now (job_id i)"]
      \<open>\<And>x jid. e \<in> set (evaluations x) \<Longrightarrow> e \<in> set (evaluations (fail_running_evaluation now jid x))\<close>
    by (fastforce simp: reap_fail_def Let_def and_then_eq_Inr)
qed

text \<open>One lemma per operation that writes jobs or evaluations.\<close>

lemma settled_reap:
  assumes ok: "pipeline_ok db" and p: "settled_pair j e db" and t: "transact (reap_stuck_jobs now timeout) db = (r, db')"
  shows "settled_pair j e db'"
proof -
  obtain res db1 where r: "reap_stuck_jobs now timeout db = Inr (res, db1)" and js: "jobs db1 = reaped_jobs now timeout (jobs db)"
    using pipeline_ok_reap [OF ok] by blast
  have "e \<in> set (evaluations db1)" using reap_keeps [OF r] p by (simp add: settled_pair_def)
  moreover have "j \<in> set (jobs db1)"
    using p unfolding js reaped_jobs_def in_sql_update settled_pair_def
    by (auto simp: job_settled_def stale_staged_def retry_stale_def exhausted_stale_def lease_expired_def)
  ultimately show ?thesis using p r t by (auto simp: settled_pair_def transact_def)
qed

lemma settled_claim:
  assumes p: "settled_pair j e db" and pk: "pk_ok job_id (jobs db)" and c: "claim_next_evaluation_job env w acc locked db = (r, db')"
  shows "settled_pair j e db'"
proof (cases "claim_tx env w acc locked db")
  case (Inl x)
  then show ?thesis using c p by (simp add: claim_next_evaluation_job_def transact_def)
next
  case (Inr x)
  obtain m db1 where x: "x = (m, db1)" by (cases x)
  have db': "db' = db1" using c Inr x by (auto simp: claim_next_evaluation_job_def transact_def split: option.splits)
  show ?thesis
  proof (cases m)
    case None
    then have "db' = db"
      using c Inr x by (auto simp: claim_next_evaluation_job_def transact_def claim_tx_def and_then_eq_Inr split: option.splits)
    then show ?thesis using p by simp
  next
    case (Some y)
    obtain i where nj: "next_job (env_now env) (supports acc AccGpu) locked db = Some i"
        and js: "jobs db' = sql_update (\<lambda>r. job_id r = job_id i) (claim_job_row (env_now env) w) (jobs db)" "evaluations db' = evaluations db"
      using Inr x db' Some by (auto simp: claim_tx_def Let_def mark_submission_running_def and_then_eq_Inr split: option.splits)
    have i: "i \<in> set (jobs db)" "job_status i = JobQueued"
      using sql_top_Some [OF nj [unfolded next_job_def]] by (simp_all add: claimable_def)
    have "j \<in> set (jobs db)" "j \<noteq> i" using i(2) p by (auto simp: settled_pair_def job_settled_def)
    then have "job_id j \<noteq> job_id i" using pk_ok_inj [OF pk _ i(1)] by blast
    then show ?thesis using settled_update [OF p _ js(1)] js(2) p by (simp add: settled_pair_def)
  qed
qed

lemma settled_finish:
  assumes p: "settled_pair j e db" and t: "transact (mark_evaluation_finished now r) db = (res, db')"
  shows "settled_pair j e db'"
proof (cases "res = Inr True")
  case True
  then have "mark_evaluation_finished now r db = Inr (True, db')" using t by (simp add: transact_ok)
  from finish_tables [OF this] have js: "jobs db' = sql_update (owns_claim (pr_job_id r) (pr_worker_id r) (pr_claim_attempt_count r)) (finished_job_row now r) (jobs db)"
    and ev: "evaluations db' = sql_update (\<lambda>e. ev_job e = pr_job_id r \<and> ev_status e = EvalRunning) (finished_evaluation_row now r) (evaluations db)"
    by (auto simp: finished_tables_def)
  show ?thesis
    by (rule settled_update [OF p _ js]) (use p settled_not_owned in \<open>auto simp: settled_pair_def ev in_sql_update\<close>)
next
  case False
  show ?thesis
  proof (cases "mark_evaluation_finished now r db")
    case (Inl x)
    then show ?thesis using t p by (simp add: transact_def)
  next
    case (Inr x)
    then obtain b where b: "mark_evaluation_finished now r db = Inr (b, db')" "\<not> b" using t False by (cases x) (auto simp: transact_def)
    from b(1) show ?thesis
    proof (cases rule: mark_evaluation_finished_cases)
      case fenced
      then show ?thesis using p by simp
    next
      case (finished i x)
      have "b" using finished(6)
        by (cases "pr_eval_type r") (auto simp: apply_validation_result_def apply_official_result_def Let_def and_then_eq_Inr split: if_splits)
      then show ?thesis using b(2) by simp
    qed
  qed
qed

lemma settled_requeue:
  assumes p: "settled_pair j e db"
    and t: "transact (requeue_running_evaluation_job_for_capacity now jid w a msg) db = (res, db')"
  shows "settled_pair j e db'"
proof (cases res)
  case (Inl x)
  then show ?thesis using t p by (simp add: transact_err)
next
  case (Inr b)
  then have f: "requeue_running_evaluation_job_for_capacity now jid w a msg db = Inr (b, db')" using t by (simp add: transact_ok)
  then have js: "jobs db' = sql_update (owns_claim jid w a) (requeue_job_row now msg) (jobs db)"
    unfolding requeue_running_evaluation_job_for_capacity_def requeue_claimed_job_for_capacity_def
      repair_submission_after_capacity_requeue_def
    by (auto simp: and_then_eq_Inr split: option.splits if_splits)
  have "set (evaluations db') \<supseteq> {x \<in> set (evaluations db). ev_status x \<noteq> EvalRunning}"
    using f unfolding requeue_running_evaluation_job_for_capacity_def requeue_claimed_job_for_capacity_def
      repair_submission_after_capacity_requeue_def delete_running_evaluation_for_job_def
    by (auto simp: and_then_eq_Inr split: option.splits if_splits)
  then show ?thesis using settled_update [OF p _ js] settled_not_owned p by (auto simp: settled_pair_def)
qed

lemma settled_start:
  assumes p: "settled_pair j e db" and t: "transact (mark_evaluation_started now inp) db = (r, db')"
  shows "settled_pair j e db'"
  using t p
  by (auto simp: transact_def mark_evaluation_started_def settled_pair_def split: sum.splits option.splits if_splits)

section \<open>Every step keeps it\<close>

definition settled_in :: "job_row \<Rightarrow> evaluation_row \<Rightarrow> system \<Rightarrow> bool" where
  "settled_in j e s \<longleftrightarrow> settled_pair j e (sys_db s) \<and> job_submission j \<notin> fst ` set (sys_creating s)"

lemma settled_inD:
  "settled_in j e s \<Longrightarrow> settled_pair j e (sys_db s) \<and> job_submission j \<notin> fst ` set (sys_creating s)"
  by (simp add: settled_in_def)

lemma settled_create:
  assumes ok: "system_ok s" and p: "settled_in j e s"
    and t: "transact (create_solution_submission_with_job env inp) (sys_db s) = (Inr row, db')"
  shows "settled_in j e (s\<lparr>sys_db := db', sys_creating := (ci_submission inp, ci_job_id inp) # sys_creating s\<rparr>)"
proof -
  have cr: "create_solution_submission_with_job env inp (sys_db s) = Inr (row, db')" using t by (simp add: transact_ok)
  from cr show ?thesis
  proof (rule create_ok)
    fix c spec acc pl z u f
    assume fresh: "\<forall>r \<in> set (submissions (sys_db s)). sub_id r \<noteq> ci_submission inp"
      and db': "db' = (fold lock_scope (quota_scopes inp) (sys_db s))\<lparr>submissions := sql_insert row (submissions (sys_db s)),
         jobs := sql_insert (new_job (env_now env) (ci_job_id inp) (ci_submission inp) acc (ci_eval_type inp) JobStaged pl) (jobs (sys_db s))\<rparr>"
    have "evaluations db' = evaluations (sys_db s)" by (simp add: db')
    moreover have "job_submission j \<noteq> ci_submission inp"
      using system_okD [OF ok] fresh p by (auto simp: pipeline_ok_def tables_ok_def settled_in_def settled_pair_def)
    ultimately show ?thesis using p by (auto simp: settled_in_def settled_pair_def db')
  qed
qed

lemma settled_rerun:
  assumes p: "settled_pair j e db" and q: "queue_evaluation_job env inp db = (r, db')"
  shows "settled_pair j e db'"
proof (cases "queue_tx env inp db")
  case (Inl x)
  then show ?thesis using q p by (auto simp: queue_evaluation_job_def transact_def)
next
  case (Inr x)
  obtain row acc pl db1 where x: "x = ((row, acc, pl), db1)" by (metis prod.exhaust)
  have "db' = db1" using q Inr x by (auto simp: queue_evaluation_job_def transact_def)
  then have tx: "queue_tx env inp db = Inr ((row, acc, pl), db')" using Inr x by simp
  from tx show ?thesis
  proof (rule queue_ok)
    fix c db2
    assume db2: "db2 = (if qi_eval_type inp = Official \<and> qi_max_active_official_jobs inp \<noteq> None
         then lock_scope ''global:official-active'' db else db)"
      and h: "hide_for_rerun (env_now env) (qi_eval_type inp) row (db2\<lparr>jobs := sql_insert (new_job (env_now env) (qi_job_id inp)
         (qi_submission inp) acc (qi_eval_type inp) JobQueued pl) (jobs db)\<rparr>) = Inr ((), db')"
    have "evaluations db2 = evaluations db" by (simp add: db2)
    moreover have "jobs y = jobs x \<and> evaluations y = evaluations x" if "hide_for_rerun now mode row x = Inr (u, y)" for now mode x u y
      using that by (auto simp: hide_for_rerun_def split: if_splits dest!: repair_frame)
    ultimately show ?thesis using h p by (fastforce simp: settled_pair_def)
  qed
qed

lemma settled_step: "step s s' \<Longrightarrow> system_ok s \<Longrightarrow> settled_in j e s \<Longrightarrow> settled_in j e s'"
proof (induction rule: step.induct)
  case (publish env inp s r db')
  have "jobs db' = jobs (sys_db s) \<and> evaluations db' = evaluations (sys_db s)"
  proof (cases r)
    case (Inl x)
    then show ?thesis using publish(1) by (simp add: publish_challenge_def transact_err)
  next
    case (Inr x)
    then have "publish_challenge_tx env inp (sys_db s) = Inr (x, db')" using publish(1) by (simp add: publish_challenge_def transact_ok)
    then show ?thesis by (cases rule: publish_ok) simp_all
  qed
  then show ?case using publish(3) settled_same [of j e "sys_db s" db'] by (simp add: settled_in_def)
next
  case (archive n s r db')
  then have "jobs db' = jobs (sys_db s)" "evaluations db' = evaluations (sys_db s)"
    by (auto simp: archive_challenge_def Let_def split: if_splits)
  then show ?case using archive(3) settled_same [of j e "sys_db s" db'] by (simp add: settled_in_def)
next
  case (create env inp s row db')
  then show ?case by (rule settled_create [rotated 2])
next
  case (ready sid jid s now u db')
  have r: "mark_evaluation_job_ready now jid (sys_db s) = Inr (u, db')" using ready(2) by (simp add: transact_ok)
  then have js: "jobs db' = sql_update (\<lambda>j. job_id j = jid \<and> job_status j = JobStaged) (\<lambda>j. j\<lparr>job_status := JobQueued, job_scheduled_at := now\<rparr>) (jobs (sys_db s))"
    and ev: "evaluations db' = evaluations (sys_db s)"
    by (auto simp: mark_evaluation_job_ready_def split: option.splits)
  have "settled_pair j e db'"
    by (rule settled_update [OF _ _ js]) (use ready(4) ev in \<open>auto simp: settled_in_def settled_pair_def job_settled_def\<close>)
  then show ?case using ready(4) by (auto simp: settled_in_def)
next
  case (cleanup sid jid s)
  have sid: "sid \<in> fst ` set (sys_creating s)" using cleanup(1) by force
  then have "job_submission j \<noteq> sid" using cleanup(3) by (auto simp: settled_in_def)
  then have "settled_pair j e (delete_solution_submission sid (sys_db s))"
    using cleanup(3) delete_tables(1,3) [OF system_okD [OF cleanup(2)] creating_hidden [OF cleanup(2) sid]]
    by (simp add: settled_in_def settled_pair_def)
  then show ?case using cleanup(3) by (auto simp: settled_in_def)
next
  case (claim w s env acc locked r db')
  have "settled_pair j e (sys_db s)" using claim(4) by (simp add: settled_in_def)
  from settled_claim [OF this pipeline_pks(5) [OF system_okD [OF claim(3)]] claim(2)]
  show ?case using claim(4) by (simp add: settled_in_def)
next
  case (heartbeat s now w payload)
  then show ?case by (simp add: settled_in_def settled_pair_def upsert_service_heartbeat_def)
next
  case (refresh w job s now r db')
  then have js: "jobs db' = sql_update (owns_claim (ejr_id job) w (ejr_attempt_count job)) (\<lambda>j. j\<lparr>job_claimed_at := Some now\<rparr>) (jobs (sys_db s))"
    and ev: "evaluations db' = evaluations (sys_db s)"
    by (auto simp: refresh_evaluation_job_claim_def)
  have "settled_pair j e db'"
    by (rule settled_update [OF _ _ js]) (use refresh(4) ev settled_not_owned in \<open>auto simp: settled_in_def settled_pair_def\<close>)
  then show ?case using refresh(4) by (simp add: settled_in_def)
next
  case (reap now timeout s r db')
  have "settled_pair j e (sys_db s)" using reap(3) by (simp add: settled_in_def)
  from settled_reap [OF system_okD [OF reap(2)] this reap(1)] show ?case using reap(3) by (simp add: settled_in_def)
next
  case (rerun inp s env r db')
  have "settled_pair j e (sys_db s)" using rerun(5) by (simp add: settled_in_def)
  from settled_rerun [OF this rerun(3)] show ?case using rerun(5) by (simp add: settled_in_def)
next
  case (start w job s now eid r db')
  from settled_inD [OF start(4)] show ?case using settled_start [OF _ start(2)] by (simp add: settled_in_def)
next
  case (complete w job s raw schema limits res now r db')
  from settled_inD [OF complete(5)] show ?case using settled_finish [OF _ complete(3)] by (simp add: settled_in_def)
next
  case (fail w job s now msg r db')
  from settled_inD [OF fail(4)] show ?case using settled_finish [OF _ fail(2)] by (simp add: settled_in_def)
next
  case (requeue w job s now msg r db')
  from settled_inD [OF requeue(4)] show ?case using settled_requeue [OF _ requeue(2)] by (simp add: settled_in_def)
next
  case (give_up w job s)
  then show ?case by (simp add: settled_in_def)
qed

lemma settled_forever:
  assumes "step\<^sup>*\<^sup>* s t" and "system_ok s" and "settled_in j e s"
  shows "system_ok t \<and> settled_in j e t"
  using assms by (induction rule: rtranclp_induct) (auto intro: system_ok_step settled_step)

section \<open>What a recorded result leaves behind\<close>

text \<open>The result that a claim records makes a settled pair, out of the one job that it owned.\<close>

lemma recorded_pair:
  assumes ok: "system_ok s" and cl: "(w, job) \<in> set (sys_claims s)"
    and ids: "pr_job_id r = ejr_id job" "pr_worker_id r = w" "pr_claim_attempt_count r = ejr_attempt_count job"
    and fin: "mark_evaluation_finished now r (sys_db s) = Inr (True, db')"
  shows "\<exists>i e. i \<in> set (jobs (sys_db s)) \<and> owns_claim (ejr_id job) w (ejr_attempt_count job) i \<and> ev_submission e = ejr_submission job
    \<and> settled_in (finished_job_row now r i) (finished_evaluation_row now r e) (s\<lparr>sys_db := db', sys_claims := cs\<rparr>)"
proof -
  obtain i e where i: "i \<in> set (jobs (sys_db s))" "owns_claim (ejr_id job) w (ejr_attempt_count job) i"
    and e: "e \<in> set (evaluations (sys_db s))" "ev_job e = job_id i" "ev_status e = EvalRunning"
    and db': "jobs db' = jobs (finished_tables now r (sys_db s))" "evaluations db' = evaluations (finished_tables now r (sys_db s))"
    using finish_tables [OF fin] ids by auto
  have jid: "job_id i = ejr_id job" using i(2) by (simp add: owns_claim_def)
  have sub: "job_submission i = ejr_submission job" using claim_row [OF ok cl i(1) jid] by simp
  have evsub: "ev_submission e = job_submission i" by (rule eval_of_job(1) [OF system_okD [OF ok] i(1) e(1,2)])
  have "finished_job_row now r i \<in> set (jobs db')" using i unfolding db' by (auto simp: finished_tables_def in_sql_update ids)
  moreover have "finished_evaluation_row now r e \<in> set (evaluations db')" using e jid unfolding db' by (auto simp: finished_tables_def in_sql_update ids)
  moreover have "\<forall>c \<in> set (sys_claims s). ejr_submission (snd c) \<notin> fst ` set (sys_creating s)"
    using ok by (simp add: system_ok_def claims_ok_def)
  from bspec [OF this cl] have "ejr_submission job \<notin> fst ` set (sys_creating s)" by simp
  ultimately have "settled_in (finished_job_row now r i) (finished_evaluation_row now r e) (s\<lparr>sys_db := db', sys_claims := cs\<rparr>)"
    using e(2) evsub sub by (simp add: settled_in_def settled_pair_def job_settled_def finished_job_row_def finished_evaluation_row_def)
  with i evsub sub show ?thesis by auto
qed

lemma settled_only:
  assumes ok: "pipeline_ok db" and p: "settled_pair j e db"
  shows "k \<in> set (jobs db) \<Longrightarrow> job_id k = job_id j \<Longrightarrow> k = j" and "{x \<in> set (evaluations db). ev_job x = job_id j} = {e}"
proof -
  show "k \<in> set (jobs db) \<Longrightarrow> job_id k = job_id j \<Longrightarrow> k = j"
    using pk_ok_inj [OF pipeline_pks(5) [OF ok]] p by (auto simp: settled_pair_def)
  have "e \<in> set (evaluations db)" "ev_job e = job_id j" using p by (simp_all add: settled_pair_def)
  then show "{x \<in> set (evaluations db). ev_job x = job_id j} = {e}"
    using pk_ok_inj [OF pipeline_pks(2) [OF ok]] by auto
qed

lemma settled_unowned:
  assumes ok: "pipeline_ok db" and p: "settled_pair j e db"
  shows "\<forall>k \<in> set (jobs db). \<not> owns_claim (job_id j) w a k"
proof
  fix k assume k: "k \<in> set (jobs db)"
  show "\<not> owns_claim (job_id j) w a k"
  proof
    assume own: "owns_claim (job_id j) w a k"
    then have "k = j" using settled_only(1) [OF ok p k] by (simp add: owns_claim_def)
    then show False using own p settled_not_owned by (simp add: settled_pair_def)
  qed
qed

lemma settled_unclaimable:
  assumes ok: "pipeline_ok db" and p: "settled_pair j e db" and c: "claim_tx env w acc locked db = Inr (Some (k, q, pl), db2)"
  shows "job_id k \<noteq> job_id j"
proof
  assume same: "job_id k = job_id j"
  from c obtain i where nj: "next_job (env_now env) (supports acc AccGpu) locked db = Some i" and i: "job_id k = job_id i"
    by (auto simp: claim_tx_def Let_def and_then_eq_Inr claim_job_row_def split: option.splits)
  have "i \<in> set (jobs db)" "job_status i = JobQueued"
    using sql_top_Some [OF nj [unfolded next_job_def]] by (simp_all add: claimable_def)
  then show False using settled_only(1) [OF ok p, of i] i same p by (auto simp: settled_pair_def job_settled_def)
qed

end
