(* ===== verification/Cycle_Refinement.thy ===== *)
theory Cycle_Refinement
  imports Lifecycle_Example
begin

text \<open>
  A polling cycle of one worker is a sequence of steps of the running system, so everything proved of
  reachable states holds between and after the database calls of a cycle. The execution of a job is
  the runner's; all that is used of it is that a completed execution carries a result that the runner
  validated for the job's mode.
\<close>

definition runner_validates :: "(evaluation_job_record \<Rightarrow> solution_artifact_metadata \<Rightarrow> execution_result result) \<Rightarrow> bool" where
  "runner_validates execute \<longleftrightarrow> (\<forall>job meta res. execute job meta = Inr res \<longrightarrow>
     (\<exists>raw schema limits. validate_evaluator_result raw (ejr_eval_type job) schema limits = Inr (ex_result res)))"

abbreviation steps :: "system \<Rightarrow> system \<Rightarrow> bool" where
  "steps \<equiv> step\<^sup>*\<^sup>*"

text \<open>A state in which a worker executes nothing or one job; the rest of the system stands still.\<close>

definition sys_of :: "(uuid \<times> uuid) list \<Rightarrow> (string \<times> evaluation_job_record) list \<Rightarrow> db \<Rightarrow> system" where
  "sys_of cr cl db = \<lparr>sys_db = db, sys_creating = cr, sys_claims = cl\<rparr>"

lemma sys_of_fields [simp]:
  "sys_db (sys_of cr cl db) = db" "sys_creating (sys_of cr cl db) = cr" "sys_claims (sys_of cr cl db) = cl"
  "(sys_of cr cl db)\<lparr>sys_db := db'\<rparr> = sys_of cr cl db'"
  "(sys_of cr cl db)\<lparr>sys_claims := cl'\<rparr> = sys_of cr cl' db"
  by (simp_all add: sys_of_def)

lemma reachable_steps: "steps s s' \<Longrightarrow> reachable s \<Longrightarrow> reachable s'"
  by (induction rule: rtranclp_induct) (auto intro: reachable_step)

section \<open>The calls of a cycle\<close>

lemma idle_heartbeat_step: "step (sys_of cr cl db) (sys_of cr cl (write_idle_heartbeat now cfg w a b db))"
  using step.heartbeat [of "sys_of cr cl db"] by (simp add: write_idle_heartbeat_def)

lemma running_heartbeat_step: "step (sys_of cr cl db) (sys_of cr cl (write_running_heartbeat now cfg w job db))"
  using step.heartbeat [of "sys_of cr cl db"] by (simp add: write_running_heartbeat_def)

lemma refresh_steps:
  "steps (sys_of cr ((w, job) # cl) db)
     (sys_of cr ((w, job) # cl) (refresh_claim_until_stopped ticks (ejr_id job) w (ejr_attempt_count job) db))"
proof (induction ticks arbitrary: db)
  case (Cons t ts)
  obtain b db1 where r: "refresh_evaluation_job_claim t (ejr_id job) w (ejr_attempt_count job) db = (b, db1)" by (rule prod.exhaust)
  then have "step (sys_of cr ((w, job) # cl) db) (sys_of cr ((w, job) # cl) db1)"
    using step.refresh [of w job "sys_of cr ((w, job) # cl) db" t b db1] by simp
  then show ?case using Cons.IH [of db1] r by (cases b) (auto intro: converse_rtranclp_into_rtranclp)
qed simp

text \<open>Ending a job, whatever the outcome, lets the worker go.\<close>

lemma claims_forget: "w \<notin> fst ` set cl \<Longrightarrow> removeAll (w, job) ((w, job) # cl) = cl"
  by (induction cl) auto

lemma settle_steps:
  assumes idle: "w \<notin> fst ` set cl"
    and valid: "\<And>res. outcome = Inr res \<Longrightarrow>
      \<exists>raw schema limits. validate_evaluator_result raw (ejr_eval_type job) schema limits = Inr (ex_result res)"
    and s: "settle_execution show_err clk cfg w job outcome db = (out, db')"
  shows "steps (sys_of cr ((w, job) # cl) db) (sys_of cr cl db')"
proof -
  let ?s = "sys_of cr ((w, job) # cl) db"
  have forget: "removeAll (w, job) (sys_claims ?s) = cl" using claims_forget [OF idle] by simp
  note step_to = r_into_rtranclp [of step ?s] rtranclp.rtrancl_into_rtrancl [OF r_into_rtranclp [of step ?s] idle_heartbeat_step]
  have failed: "steps ?s (sys_of cr cl db')" if f: "finish_failed_job clk cfg w job msg db = (out, db')" for msg
  proof -
    obtain r db1 where t: "transact (mark_evaluation_finished (clk 4) (failed_result w job msg)) db = (r, db1)" by (rule prod.exhaust)
    then have "step ?s (sys_of cr cl db1)" using step.fail [of w job ?s "clk 4" msg r db1] forget by (simp add: sys_of_def)
    then show ?thesis using f t step_to by (auto simp: finish_failed_job_def split: sum.splits if_splits)
  qed
  have given_back: "steps ?s (sys_of cr cl db')" if f: "requeue_capacity_limited_job clk cfg w job msg db = (out, db')" for msg
  proof -
    obtain r db1 where t: "transact (requeue_running_evaluation_job_for_capacity (clk 4) (ejr_id job) w (ejr_attempt_count job) msg) db = (r, db1)"
      by (rule prod.exhaust)
    then have "step ?s (sys_of cr cl db1)" using step.requeue [of w job ?s "clk 4" msg r db1] forget by (simp add: sys_of_def)
    then show ?thesis using f t step_to by (auto simp: requeue_capacity_limited_job_def Let_def split: sum.splits if_splits)
  qed
  show ?thesis
  proof (cases outcome)
    case (Inr res)
    obtain raw schema limits where v: "validate_evaluator_result raw (ejr_eval_type job) schema limits = Inr (ex_result res)"
      using valid [OF Inr] by blast
    obtain r db1 where t: "transact (mark_evaluation_finished (clk 4) (completed_result w job res)) db = (r, db1)" by (rule prod.exhaust)
    then have "step ?s (sys_of cr cl db1)"
      using step.complete [of w job ?s raw schema limits res "clk 4" r db1] v forget by (simp add: sys_of_def)
    then show ?thesis using s Inr t step_to by (auto simp: finish_completed_job_def split: sum.splits if_splits)
  next
    case (Inl e)
    then show ?thesis using s failed given_back by (cases e) auto
  qed
qed

lemma execute_steps:
  assumes "w \<notin> fst ` set cl" "runner_validates execute"
    and "execute_claimed_job show_err clk ticks cfg execute w job db = (out, db')"
  shows "steps (sys_of cr ((w, job) # cl) db) (sys_of cr cl db')"
proof (cases "ejr_artifact_metadata job")
  case None
  define e where "e = Internal ''x''"
  have "settle_execution (\<lambda>_. ''solution submission is missing trusted artifact metadata'') clk cfg w job (Inl e) db = (out, db')"
    using assms(3) None by (simp add: execute_claimed_job_def e_def)
  then show ?thesis by (rule settle_steps [OF assms(1), rotated]) simp
next
  case (Some m)
  let ?db1 = "refresh_claim_until_stopped ticks (ejr_id job) w (ejr_attempt_count job) db"
  have "settle_execution show_err clk cfg w job (execute job m) ?db1 = (out, db')"
    using assms(3) Some by (simp add: execute_claimed_job_def)
  then have "steps (sys_of cr ((w, job) # cl) ?db1) (sys_of cr cl db')"
    by (rule settle_steps [OF assms(1), rotated]) (use assms(2) in \<open>auto simp: runner_validates_def\<close>)
  then show ?thesis using refresh_steps by (rule rtranclp_trans [rotated])
qed

lemma claimed_steps:
  assumes "w \<notin> fst ` set cl" "runner_validates execute"
    and r: "run_claimed_job show_err clk ticks cfg execute eid w job db = (out, db')"
  shows "steps (sys_of cr ((w, job) # cl) db) (sys_of cr cl db')"
proof -
  let ?cl = "(w, job) # cl" and ?db1 = "write_running_heartbeat (clk 2) cfg w job db"
  obtain ins db2 where t: "transact (mark_evaluation_started (clk 3) (started_input eid w job)) ?db1 = (ins, db2)" by (rule prod.exhaust)
  have "step (sys_of cr ?cl ?db1) (sys_of cr ?cl db2)"
    using step.start [of w job "sys_of cr ?cl ?db1" "clk 3" eid ins db2] t by simp
  then have started: "steps (sys_of cr ?cl db) (sys_of cr ?cl db2)"
    using running_heartbeat_step by (meson converse_rtranclp_into_rtranclp r_into_rtranclp)
  have "step (sys_of cr ?cl db2) (sys_of cr cl db2)"
    using step.give_up [of w job "sys_of cr ?cl db2"] claims_forget [OF assms(1)] by simp
  then have gone: "steps (sys_of cr ?cl db) (sys_of cr cl db2)"
    by (rule rtranclp.rtrancl_into_rtrancl [OF started])
  show ?thesis
  proof (cases ins)
    case (Inl e)
    then show ?thesis using r t gone by (simp add: run_claimed_job_def)
  next
    case (Inr b)
    show ?thesis
    proof (cases b)
      case True
      then have "execute_claimed_job show_err clk ticks cfg execute w job db2 = (out, db')"
        using r t Inr by (simp add: run_claimed_job_def)
      then show ?thesis using execute_steps [OF assms(1,2)] started by (meson rtranclp_trans)
    next
      case False
      then have "db' = write_idle_heartbeat (clk 5) cfg w None None db2" using r t Inr by (simp add: run_claimed_job_def)
      then show ?thesis using gone idle_heartbeat_step by (metis rtranclp.rtrancl_into_rtrancl)
    qed
  qed
qed

section \<open>The cycle\<close>

text \<open>
  C11. A polling cycle is a refinement of the running system: whatever it reaps, claims, starts,
  refreshes, completes, fails, gives back or abandons, the tables after \<open>run_one_cycle\<close> are reached by
  steps of the system, and the worker is idle again. So a cycle keeps every property of reachable states.
\<close>

theorem cycle_refines_steps:
  assumes "w \<notin> fst ` set cl" and "runner_validates execute"
    and "run_one_cycle show_err env clk ticks cfg docker locked execute eid w db = (out, db')"
  shows "steps (sys_of cr cl db) (sys_of cr cl db')"
proof -
  obtain m db1 where m: "reap_and_reconcile clk cfg docker db = (m, db1)" by (rule prod.exhaust)
  obtain r where "transact (reap_stuck_jobs (clk 0) (max (wc_stale_job_minutes cfg) 1)) db = (r, db1)"
    using m by (auto simp: reap_and_reconcile_def split: prod.splits sum.splits)
  then have reaped: "steps (sys_of cr cl db) (sys_of cr cl db1)"
    using step.reap [of "clk 0" "max (wc_stale_job_minutes cfg) 1" "sys_of cr cl db" r db1] by (simp add: r_into_rtranclp)
  obtain c db2 where c: "claim_next_evaluation_job (env\<lparr>env_now := clk 1\<rparr>) w (wc_accelerators cfg) locked db1 = (c, db2)" by (rule prod.exhaust)
  have "step (sys_of cr cl db1) (sys_of cr (claim_added w c @ cl) db2)"
    using step.claim [of w "sys_of cr cl db1" _ _ _ c db2] c assms(1) by (simp add: sys_of_def)
  then have claimed: "steps (sys_of cr cl db) (sys_of cr (claim_added w c @ cl) db2)"
    by (rule rtranclp.rtrancl_into_rtrancl [OF reaped])
  show ?thesis
  proof (cases m)
    case (Inl e)
    then show ?thesis using assms(3) m reaped by (simp add: run_one_cycle_def)
  next
    case (Inr maintenance)
    show ?thesis
    proof (cases c)
      case (Inl e)
      then show ?thesis using assms(3) m Inr c claimed by (simp add: run_one_cycle_def claim_added_def)
    next
      case found: (Inr found)
      show ?thesis
      proof (cases found)
        case None
        then have "db' = write_idle_heartbeat (clk 5) cfg w None None db2"
          using assms(3) m Inr c found by (simp add: run_one_cycle_def)
        then show ?thesis using claimed found None idle_heartbeat_step
          by (simp add: claim_added_def) (metis rtranclp.rtrancl_into_rtrancl)
      next
        case (Some job)
        then have "run_claimed_job show_err clk ticks cfg execute eid w job db2 = (out, db')"
          using assms(3) m Inr c found by (simp add: run_one_cycle_def)
        then have "steps (sys_of cr ((w, job) # cl) db2) (sys_of cr cl db')" by (rule claimed_steps [OF assms(1,2)])
        then show ?thesis using claimed found Some by (simp add: claim_added_def)
      qed
    qed
  qed
qed

definition ex_worker :: worker_config where
  "ex_worker = \<lparr>wc_accelerators = WorkerNone, wc_stale_job_minutes = 10\<rparr>"

definition ex_docker :: docker_view where
  "ex_docker = \<lparr>dv_containers = Inr [], dv_remove = (\<lambda>_. Inr ()), dv_now_secs = 0\<rparr>"

definition ex_execute :: "evaluation_job_record \<Rightarrow> solution_artifact_metadata \<Rightarrow> execution_result result" where
  "ex_execute job meta = (if ejr_eval_type job = Official then Inr ex_execution else Inl (Runner ''no''))"

lemma ex_execute_validates: "runner_validates ex_execute"
  unfolding runner_validates_def ex_execute_def using ex_validated by auto

theorem cycle_refines_steps_witness:
  "steps (sys_of [] [] ex_db3)
     (sys_of [] [] (snd (run_one_cycle (\<lambda>_. []) ex_env (\<lambda>_. 100) [105] ex_worker ex_docker (\<lambda>_. False) ex_execute ''e1'' ''w1'' ex_db3)))"
  by (rule cycle_refines_steps [OF _ ex_execute_validates]) (simp, rule prod.collapse [symmetric])

end
