(* ===== verification/Admission_Guarantees.thy ===== *)
theory Admission_Guarantees
  imports Lifecycle_Guarantees Settled_Jobs
begin

text \<open>
  What a successful creation or re-run promises: quotas and the global capacity hold afterwards, the
  challenge was open for the agent, a parent is public and of the same scope, and the preflight check
  of the service layer decides like the transactional one.
\<close>

section \<open>Quota counters after a creation\<close>

lemma first_job_insert_other: "job_submission j \<noteq> sub_id q \<Longrightarrow> first_job q (sql_insert j js) = first_job q js"
  by (simp add: first_job_def sql_top_def sql_select_def sql_insert_def)

lemma first_job_insert_new:
  "job_submission j = sub_id q \<Longrightarrow> \<forall>i \<in> set js. job_submission i \<noteq> sub_id q \<Longrightarrow> first_job q (sql_insert j js) = Some j"
  by (simp add: first_job_def sql_top_def sql_select_def sql_insert_def first_by_def)

lemma sql_count_cong: "(\<And>r. r \<in> set tbl \<Longrightarrow> P r = Q r) \<Longrightarrow> sql_count P tbl = sql_count Q tbl"
  unfolding sql_count_def by (metis (mono_tags, lifting) filter_cong)

text \<open>What the counters see of the inserted rows.\<close>

lemma counts_after_insert:
  assumes fresh: "\<forall>q \<in> set (submissions db). sub_id q \<noteq> sub_id row" "\<forall>j \<in> set (jobs db). job_submission j \<noteq> sub_id row"
    and j: "job_submission j = sub_id row"
    and db': "submissions db' = sql_insert row (submissions db)" "jobs db' = sql_insert j (jobs db)"
  shows "sql_count (\<lambda>q. counts_for db' a n t mode q \<and> P q) (submissions db') =
    sql_count (\<lambda>q. counts_for db a n t mode q \<and> P q) (submissions db)
    + (if sub_agent row = a \<and> sub_challenge row = n \<and> sub_target row = t \<and> job_eval_type j = mode \<and> P row then 1 else 0)"
proof -
  have old: "counts_for db' a n t mode q = counts_for db a n t mode q" if "q \<in> set (submissions db)" for q
  proof -
    have "job_submission j \<noteq> sub_id q" using that fresh(1) j by metis
    then show ?thesis using db'(2) by (simp add: counts_for_def first_job_insert_other)
  qed
  have new: "counts_for db' a n t mode row \<longleftrightarrow> sub_agent row = a \<and> sub_challenge row = n \<and> sub_target row = t \<and> job_eval_type j = mode"
    using first_job_insert_new [OF j fresh(2)] db'(2) by (simp add: counts_for_def)
  have "sql_count (\<lambda>q. counts_for db' a n t mode q \<and> P q) (submissions db) = sql_count (\<lambda>q. counts_for db a n t mode q \<and> P q) (submissions db)"
    by (rule sql_count_cong) (simp add: old)
  then show ?thesis unfolding db'(1) by (simp add: new)
qed

text \<open>
  C12. Quotas hold after every successful creation, however creations interleave: the runs counted for
  the agent, challenge, target and mode grow by exactly this one and stay within the daily limit, within
  the challenge's lifetime limit when there is one, and the active official jobs stay within the global
  capacity when there is one.
\<close>

theorem creation_respects_quotas:
  assumes "reachable s" and "create_solution_submission_with_job env inp (sys_db s) = Inr (row, db')"
    and "0 \<le> qa_window_seconds (ci_quota inp)" and "qa_max_active_official_jobs (ci_quota inp) \<noteq> None \<longrightarrow> ci_eval_type inp = Official"
  shows "count_recent_runs_for_agent_challenge (env_now env) (ci_agent inp) (ci_challenge inp) (ci_target inp) (ci_eval_type inp)
        (qa_window_seconds (ci_quota inp)) db'
      = count_recent_runs_for_agent_challenge (env_now env) (ci_agent inp) (ci_challenge inp) (ci_target inp) (ci_eval_type inp)
        (qa_window_seconds (ci_quota inp)) (sys_db s) + 1
    \<and> count_recent_runs_for_agent_challenge (env_now env) (ci_agent inp) (ci_challenge inp) (ci_target inp) (ci_eval_type inp)
        (qa_window_seconds (ci_quota inp)) db' \<le> qa_per_agent_challenge_limit (ci_quota inp)
    \<and> (\<forall>m. qa_challenge_lifetime_limit (ci_quota inp) = Some m \<longrightarrow>
        count_lifetime_runs_for_agent_challenge (ci_agent inp) (ci_challenge inp) (ci_target inp) (ci_eval_type inp) db' \<le> m)
    \<and> (\<forall>m. qa_max_active_official_jobs (ci_quota inp) = Some m \<longrightarrow> count_active_evaluation_jobs Official db' \<le> m)"
  using assms(2)
proof (rule create_ok)
  fix c spec acc p z u f
  let ?j = "new_job (env_now env) (ci_job_id inp) (ci_submission inp) acc (ci_eval_type inp) JobStaged p"
  assume c: "ch_name c = ci_challenge inp"
    and quota: "enforce_quota_admission (env_now env) inp (sys_db s) = Inr ((), fold lock_scope (quota_scopes inp) (sys_db s))"
    and row: "row = new_submission (env_now env) inp c z u f"
    and fresh: "\<forall>r \<in> set (submissions (sys_db s)). sub_id r \<noteq> ci_submission inp"
    and db': "db' = (fold lock_scope (quota_scopes inp) (sys_db s))\<lparr>submissions := sql_insert row (submissions (sys_db s)),
       jobs := sql_insert ?j (jobs (sys_db s))\<rparr>"
  have jobs: "\<forall>j \<in> set (jobs (sys_db s)). job_submission j \<noteq> sub_id row"
    using reachable_pipeline [OF assms(1)] fresh row by (auto simp: pipeline_ok_def tables_ok_def)
  have counts: "sql_count (\<lambda>q. counts_for db' (ci_agent inp) (ci_challenge inp) (ci_target inp) (ci_eval_type inp) q \<and> P q) (submissions db')
      = sql_count (\<lambda>q. counts_for (sys_db s) (ci_agent inp) (ci_challenge inp) (ci_target inp) (ci_eval_type inp) q \<and> P q)
          (submissions (sys_db s)) + (if P row then 1 else 0)" for P
    by (subst counts_after_insert [of "sys_db s" row ?j db']) (use fresh jobs row db' c in simp_all)
  have recent: "env_now env - seconds (qa_window_seconds (ci_quota inp)) \<le> sub_created_at row"
    using assms(3) row by (simp add: seconds_def)
  note q = quota [unfolded enforce_quota_admission_ok]
  have "count_active_evaluation_jobs Official db' \<le> count_active_evaluation_jobs Official (sys_db s) + 1"
    by (simp add: count_active_evaluation_jobs_def db')
  then show ?thesis
    using q counts [of "\<lambda>q. env_now env - seconds (qa_window_seconds (ci_quota inp)) \<le> sub_created_at q"] counts [of "\<lambda>_. True"] recent
    by (auto simp: count_recent_runs_for_agent_challenge_def count_lifetime_runs_for_agent_challenge_def)
qed

theorem creation_respects_quotas_witness:
  "create_solution_submission_with_job ex_env ex_create ex_db1 = Inr (ex_submission SubPending False 100, ex_db2)
   \<and> count_recent_runs_for_agent_challenge 100 ''a1'' ''sum'' ''linux-arm64-cpu'' Official 86400 ex_db2 \<le> 5
   \<and> count_active_evaluation_jobs Official ex_db2 \<le> 3"
proof -
  have "create_solution_submission_with_job ex_env ex_create (sys_db (ex_system ex_db1 [] [])) = Inr (ex_submission SubPending False 100, ex_db2)"
    using ex_create_step by (simp add: ex_system_def)
  from creation_respects_quotas [OF ex_reachable_published this] ex_create_step show ?thesis
    by (simp add: ex_create_def ex_env_def)
qed

section \<open>Who may submit\<close>

text \<open>
  C13. A submission is created only where it may be: on an active challenge whose window is open, for
  an agent on the shortlist of a private one, with a declared target that supports the mode; a parent
  submission is public, completed and of the same agent, challenge and target; and what is created is
  hidden, pending and has exactly one job, staged.
\<close>

theorem creation_is_admitted:
  assumes "reachable s" and "create_solution_submission_with_job env inp (sys_db s) = Inr (row, db')"
  shows "(\<exists>c \<in> set (challenges (sys_db s)). \<exists>spec. ch_name c = ci_challenge inp \<and> ch_status c = ChActive \<and> ch_spec c = Some spec
        \<and> window_open env spec \<and> agent_eligible (ch_name c) spec (ci_agent inp) (sys_db s) \<and> mode_supported spec (ci_target inp) (ci_eval_type inp))
    \<and> (\<forall>pid. ci_parent inp = Some pid \<longrightarrow> (\<exists>q \<in> set (submissions (sys_db s)). sub_id q = pid \<and> sub_visible q \<and> sub_status q = SubCompleted
        \<and> sub_agent q = ci_agent inp \<and> sub_challenge q = ci_challenge inp \<and> sub_target q = ci_target inp))
    \<and> row \<in> set (submissions db') \<and> \<not> sub_visible row \<and> sub_status row = SubPending
    \<and> (\<exists>j. jobs_of (sub_id row) db' = {j} \<and> job_status j = JobStaged \<and> job_eval_type j = ci_eval_type inp)"
  using assms(2)
proof (rule create_ok)
  fix c spec acc p z u f
  let ?j = "new_job (env_now env) (ci_job_id inp) (ci_submission inp) acc (ci_eval_type inp) JobStaged p"
  assume c: "c \<in> set (challenges (sys_db s))" "ch_name c = ci_challenge inp" "ch_status c = ChActive" "ch_spec c = Some spec"
    and pol: "ensure_challenge_supports_eval_type_tx env (ch_name c) spec (ci_target inp) (ci_eval_type inp) (ci_agent inp) (sys_db s) = Inr ()"
    and parent: "ensure_parent_solution_submission_matches_scope_tx (ci_parent inp) (ci_agent inp) (ch_name c) (ci_target inp)
      (fold lock_scope (quota_scopes inp) (sys_db s)) = Inr ()"
    and row: "row = new_submission (env_now env) inp c z u f"
    and fresh: "\<forall>r \<in> set (submissions (sys_db s)). sub_id r \<noteq> ci_submission inp"
    and db': "db' = (fold lock_scope (quota_scopes inp) (sys_db s))\<lparr>submissions := sql_insert row (submissions (sys_db s)),
       jobs := sql_insert ?j (jobs (sys_db s))\<rparr>"
  have "\<forall>j \<in> set (jobs (sys_db s)). job_submission j \<noteq> sub_id row"
    using reachable_pipeline [OF assms(1)] fresh row by (auto simp: pipeline_ok_def tables_ok_def)
  then have jobs: "jobs_of (sub_id row) db' = {?j}" using row by (auto simp: jobs_of_def db')
  have par: "\<exists>q \<in> set (submissions (sys_db s)). sub_id q = pid \<and> sub_visible q \<and> sub_status q = SubCompleted
        \<and> sub_agent q = ci_agent inp \<and> sub_challenge q = ci_challenge inp \<and> sub_target q = ci_target inp" if "ci_parent inp = Some pid" for pid
  proof (cases "sub_by_id pid (submissions (sys_db s))")
    case None
    then show ?thesis using parent that by (simp add: ensure_parent_solution_submission_matches_scope_tx_def)
  next
    case (Some q)
    then show ?thesis using parent that c(2) sub_tbl.lookup_Some_in [OF Some]
      by (intro bexI [where x = q]) (simp_all add: ensure_parent_solution_submission_matches_scope_tx_def result_simps)
  qed
  show ?thesis
  proof (intro conjI)
    show "\<exists>c \<in> set (challenges (sys_db s)). \<exists>spec. ch_name c = ci_challenge inp \<and> ch_status c = ChActive \<and> ch_spec c = Some spec
        \<and> window_open env spec \<and> agent_eligible (ch_name c) spec (ci_agent inp) (sys_db s) \<and> mode_supported spec (ci_target inp) (ci_eval_type inp)"
      using c pol unfolding supports_eval_type_ok by blast
    show "\<exists>j. jobs_of (sub_id row) db' = {j} \<and> job_status j = JobStaged \<and> job_eval_type j = ci_eval_type inp"
      by (rule exI [where x = ?j]) (simp add: jobs)
  qed (use par row db' in simp_all)
qed

theorem creation_is_admitted_witness:
  "\<not> sub_visible (ex_submission SubPending False 100) \<and> (\<exists>j. jobs_of ''s1'' ex_db2 = {j} \<and> job_status j = JobStaged)"
proof -
  have c: "create_solution_submission_with_job ex_env ex_create (sys_db (ex_system ex_db1 [] [])) = Inr (ex_submission SubPending False 100, ex_db2)"
    using ex_create_step by (simp add: ex_system_def)
  have "sub_id (ex_submission SubPending False 100) = ''s1''" by (simp add: ex_submission_def ex_create_def)
  then show ?thesis using creation_is_admitted [OF ex_reachable_published c] by auto
qed

section \<open>Preflight\<close>

text \<open>
  The preflight quota check of the service layer and the check inside the creating transaction
  decide alike on the same tables: for the quota that the service passes to the transaction, one admits
  exactly when the other does.
\<close>

lemma preflight_agrees_with_transaction:
  assumes "ci_quota inp = quota_admission_of cfg (ci_eval_type inp) lifetime"
  shows "is_ok (ensure_submission_quota_available now cfg (ci_agent inp) (ci_challenge inp) (ci_target inp) (ci_eval_type inp) lifetime db)
    \<longleftrightarrow> is_ok (enforce_quota_admission now inp db)"
proof -
  have "is_ok (enforce_quota_admission now inp db) \<longleftrightarrow> (\<exists>u db1. enforce_quota_admission now inp db = Inr (u, db1))"
    by (auto simp: is_ok_iff)
  also have "\<dots> \<longleftrightarrow> is_ok (ensure_submission_quota_available now cfg (ci_agent inp) (ci_challenge inp) (ci_target inp) (ci_eval_type inp) lifetime db)"
    unfolding enforce_quota_admission_ok
    by (cases "ci_eval_type inp") (auto simp: is_ok_iff ensure_submission_quota_available_def Let_def result_simps assms quota_admission_of_def)
  finally show ?thesis ..
qed

section \<open>Re-runs\<close>

text \<open>
  What a re-run does to the tables, in both modes: an official one of a public submission only touches its
  time of change, every other one queues and hides the submission.
\<close>

lemma rerun_frame:
  assumes "hide_for_rerun now mode q db = Inr (u, db')"
  shows "jobs db' = jobs db \<and> (\<exists>g. submissions db' = sql_update (\<lambda>r. sub_id r = sub_id q) g (submissions db)
      \<and> (\<forall>r. sub_id (g r) = sub_id r \<and> sub_visible (g r) = (mode = Official \<and> sub_visible q \<and> sub_visible r)
           \<and> sub_status (g r) = (if mode = Official \<and> sub_visible q then sub_status r else SubQueued)))"
proof (cases "mode = Official \<and> sub_visible q")
  case True
  then show ?thesis using assms
    by (intro conjI exI [where x = "\<lambda>r. r\<lparr>sub_updated_at := now\<rparr>"]) (auto simp: hide_for_rerun_def)
next
  case False
  then have "repair_leaderboard_entry_for_solution_submission_tx now (sub_id q) (set_submission_status now (sub_id q) SubQueued False db) = Inr (u, db')"
    using assms by (auto simp: hide_for_rerun_def)
  from repair_frame [OF this] False show ?thesis
    by (intro conjI exI [where x = "\<lambda>r. r\<lparr>sub_status := SubQueued, sub_visible := False, sub_updated_at := now\<rparr>"])
      (auto simp: set_submission_status_def)
qed

text \<open>
  C14. A re-run, official or validation, is queued only when the submission has no active job; the new job is
  then the submission's only active one, and the active official jobs stay within the configured capacity. An
  official re-run leaves the visibility of every submission as it is; a validation re-run hides the submission
  that it runs again, public or not, and no other.
\<close>

theorem rerun_is_exclusive:
  assumes "reachable s" and "queue_tx env inp (sys_db s) = Inr ((q, acc, p), db')"
  shows "(\<forall>j \<in> set (jobs (sys_db s)). job_submission j = qi_submission inp \<longrightarrow> \<not> job_active j)
    \<and> (\<exists>!j. j \<in> set (jobs db') \<and> job_submission j = qi_submission inp \<and> job_active j)
    \<and> (\<forall>j \<in> set (jobs db'). j \<in> set (jobs (sys_db s)) \<or> (job_id j = qi_job_id inp \<and> job_eval_type j = qi_eval_type inp \<and> job_status j = JobQueued))
    \<and> (\<forall>m. qi_eval_type inp = Official \<and> qi_max_active_official_jobs inp = Some m \<longrightarrow> count_active_evaluation_jobs Official db' \<le> m)
    \<and> (\<forall>r \<in> set (submissions (sys_db s)). \<exists>r' \<in> set (submissions db'). sub_id r' = sub_id r
         \<and> sub_visible r' = (sub_visible r \<and> (qi_eval_type inp = Official \<or> sub_id r \<noteq> qi_submission inp)))"
  using assms(2)
proof (rule queue_ok)
  fix c db1
  let ?j = "new_job (env_now env) (qi_job_id inp) (qi_submission inp) acc (qi_eval_type inp) JobQueued p"
  assume row: "q \<in> set (submissions (sys_db s))" "sub_id q = qi_submission inp"
    and idle: "\<forall>j \<in> set (jobs (sys_db s)). job_submission j = qi_submission inp \<longrightarrow> \<not> job_active j"
    and db1: "db1 = (if qi_eval_type inp = Official \<and> qi_max_active_official_jobs inp \<noteq> None
       then lock_scope ''global:official-active'' (sys_db s) else (sys_db s))"
    and cap: "qi_eval_type inp = Official \<longrightarrow> (\<forall>k. qi_max_active_official_jobs inp = Some k \<longrightarrow> count_active_evaluation_jobs Official (sys_db s) < k)"
    and h: "hide_for_rerun (env_now env) (qi_eval_type inp) q (db1\<lparr>jobs := sql_insert ?j (jobs (sys_db s))\<rparr>) = Inr ((), db')"
  note pk = pk_ok_inj [OF pipeline_pks(4) [OF reachable_pipeline [OF assms(1)]] _ row(1)]
  have fr: "submissions db1 = submissions (sys_db s)" by (simp add: db1)
  from rerun_frame [OF h] fr obtain g where js: "jobs db' = sql_insert ?j (jobs (sys_db s))"
    and subs: "submissions db' = sql_update (\<lambda>r. sub_id r = sub_id q) g (submissions (sys_db s))"
    and g: "\<And>r. sub_id (g r) = sub_id r" "\<And>r. sub_visible (g r) = (qi_eval_type inp = Official \<and> sub_visible q \<and> sub_visible r)"
    by auto
  have "\<exists>r' \<in> set (submissions db'). sub_id r' = sub_id r
       \<and> sub_visible r' = (sub_visible r \<and> (qi_eval_type inp = Official \<or> sub_id r \<noteq> qi_submission inp))"
    if r: "r \<in> set (submissions (sys_db s))" for r
  proof (intro bexI conjI)
    show "(if sub_id r = sub_id q then g r else r) \<in> set (submissions db')" unfolding subs in_sql_update using r by auto
    show "sub_id (if sub_id r = sub_id q then g r else r) = sub_id r" by (simp add: g)
    show "sub_visible (if sub_id r = sub_id q then g r else r)
        = (sub_visible r \<and> (qi_eval_type inp = Official \<or> sub_id r \<noteq> qi_submission inp))"
      using pk [OF r] row(2) by (auto simp: g)
  qed
  moreover have "count_active_evaluation_jobs Official db' \<le> count_active_evaluation_jobs Official (sys_db s) + 1"
    by (simp add: count_active_evaluation_jobs_def js)
  then have "\<forall>m. qi_eval_type inp = Official \<and> qi_max_active_official_jobs inp = Some m \<longrightarrow> count_active_evaluation_jobs Official db' \<le> m"
    using cap by (auto dest: order_le_less_trans)
  moreover have "\<exists>!j. j \<in> set (jobs db') \<and> job_submission j = qi_submission inp \<and> job_active j"
    by (rule ex1I [where a = ?j]) (use idle js in auto)
  moreover have "\<forall>j \<in> set (jobs db'). j \<in> set (jobs (sys_db s)) \<or> (job_id j = qi_job_id inp \<and> job_eval_type j = qi_eval_type inp \<and> job_status j = JobQueued)"
    using js by (auto simp: new_job_def)
  ultimately show ?thesis using idle by blast
qed

definition ex_rerun :: queue_evaluation_job_input where
  "ex_rerun = \<lparr>qi_job_id = ''j2'', qi_submission = ''s1'', qi_eval_type = Official, qi_max_active_official_jobs = Some 3\<rparr>"

lemma ex_rerun_ok: "\<exists>q acc p db'. queue_tx ex_env ex_rerun ex_db6 = Inr ((q, acc, p), db')"
proof -
  let ?q = "ex_submission SubCompleted True 120"
  have q: "sub_challenge ?q = ''sum''" "sub_target ?q = ''linux-arm64-cpu''" "sub_agent ?q = ''a1''" "sub_artifact_key ?q = ''zip''"
      "sub_visible ?q" "sub_id ?q = ''s1''"
    by (simp_all add: ex_submission_def new_submission_def ex_create_def ex_publish_def)
  have sel: "select_for_queue ''s1'' ex_db6 = Inr (?q, published_row ex_publish)"
    by (simp add: select_for_queue_def sub_by_id_def sql_first_def ex_db6_def ex_db_def q) (simp add: ex_publish_def)
  have pol: "ensure_challenge_supports_eval_type_tx ex_env ''sum'' example_spec ''linux-arm64-cpu'' Official ''a1'' ex_db6 = Inr ()"
    unfolding supports_eval_type_ok window_open_def agent_eligible_def mode_supported_def ex_admitted(3)
    by (simp add: ex_env_def example_spec_def)
  have zip: "validate_storage_key ''zip'' = Inr ''zip''"
    by (simp add: validate_storage_key_eq storage_key_pattern_def name_token_char_def ascii_class_defs)
  have keys: "ch_bundle_key (published_row ex_publish) = ''full''" "ch_public_bundle_key (published_row ex_publish) = ''public''"
      "pi_spec ex_publish = example_spec"
    by (simp_all add: published_row_def ex_publish_def)
  have job: "job_status (finished_job_row n (completed_result ''w1'' ex_job ex_execution) r) = JobCompleted" "job_id ex_running_row = ''j1''" for n r
    by (simp_all add: finished_job_row_def completed_result_def ex_rows)
  have idle: "\<not> job_active (finished_job_row 120 (completed_result ''w1'' ex_job ex_execution) ex_running_row)"
    by (simp add: job_active_def job)
  have inputs: "qi_submission ex_rerun = ''s1''" "qi_job_id ex_rerun = ''j2''" "qi_eval_type ex_rerun = Official"
      "qi_max_active_official_jobs ex_rerun = Some 3" by (simp_all add: ex_rerun_def)
  show ?thesis
    unfolding queue_tx_def inputs sel
    by (simp add: q pol zip keys ex_keys job_storage_key_from_row_def ensure_validation_uses_public_bundle_def
        ensure_no_active_job_for_submission_tx_def required_accelerator_for_target_def ex_admitted admit_official_capacity_def
        count_active_evaluation_jobs_def sql_count_def insert_job_def hide_for_rerun_def Let_def)
      (simp add: ex_db6_def ex_db_def idle job hide_for_rerun_def q)
qed

theorem rerun_is_exclusive_witness:
  "\<exists>db'. (\<exists>q acc p. queue_tx ex_env ex_rerun ex_db6 = Inr ((q, acc, p), db')) \<and> count_active_evaluation_jobs Official db' \<le> 3"
proof -
  obtain q acc p db' where t: "queue_tx ex_env ex_rerun (sys_db (ex_system ex_db6 [] [])) = Inr ((q, acc, p), db')"
    using ex_rerun_ok by (auto simp: ex_system_def)
  have m: "qi_eval_type ex_rerun = Official \<and> qi_max_active_official_jobs ex_rerun = Some 3" by (simp add: ex_rerun_def)
  have "count_active_evaluation_jobs Official db' \<le> 3" using rerun_is_exclusive [OF ex_reachable t] m by blast
  then show ?thesis using t by (auto simp: ex_system_def)
qed

end
