(* ===== verification/Creation_Manifest.thy ===== *)
theory Creation_Manifest
  imports Service_Error Challenge_Spec Names
begin

text \<open>
  The public challenge manifest of \<open>crates/domain/src/models/challenge_creation\<close> and the checks of
  \<open>crates/contracts/src/challenge_creation.rs\<close> that read only the manifest and the bundle contract.
  The file system is an argument: \<open>meta\<close> answers \<open>tokio::fs::metadata\<close>, and reading and parsing a
  contract or a run manifest are functions of the path. \<open>lower\<close> is Unicode lower-casing.
\<close>

section \<open>The manifest\<close>

datatype creation_request_kind = NewChallenge | ArchiveChallenge

fun request_kind_as_str :: "creation_request_kind \<Rightarrow> string" where
  "request_kind_as_str NewChallenge = ''new_challenge''"
| "request_kind_as_str ArchiveChallenge = ''archive_challenge''"

definition request_kind_from_storage_value :: "string \<Rightarrow> creation_request_kind option" where
  "request_kind_from_storage_value v =
     (if v = ''new_challenge'' then Some NewChallenge
      else if v = ''archive_challenge'' then Some ArchiveChallenge else None)"

datatype private_asset_kind =
  PrivateBenchmarkData | PrivateEvaluatorPackage | PrivateSeeds | PrivateReferenceOutputs

fun asset_kind_as_str :: "private_asset_kind \<Rightarrow> string" where
  "asset_kind_as_str PrivateBenchmarkData = ''private_benchmark_data''"
| "asset_kind_as_str PrivateEvaluatorPackage = ''private_evaluator_package''"
| "asset_kind_as_str PrivateSeeds = ''private_seeds''"
| "asset_kind_as_str PrivateReferenceOutputs = ''private_reference_outputs''"

definition asset_kind_from_storage_value :: "string \<Rightarrow> private_asset_kind option" where
  "asset_kind_from_storage_value v =
     (if v = ''private_benchmark_data'' then Some PrivateBenchmarkData
      else if v = ''private_evaluator_package'' then Some PrivateEvaluatorPackage
      else if v = ''private_seeds'' then Some PrivateSeeds
      else if v = ''private_reference_outputs'' then Some PrivateReferenceOutputs else None)"

record private_asset_requirement =
  pr_asset_name :: string
  pr_kind :: private_asset_kind
  pr_required :: bool
  pr_required_paths :: "string list"
  pr_asset_note :: "string option"

record creation_ci_spec =
  validate_manifest :: bool
  validate_public_bundle_ci :: bool
  smoke_test_public_validation :: bool

record creation_manifest =
  cm_schema_version :: int
  cm_request :: creation_request_kind
  cm_challenge_name :: challenge_name
  cm_title :: string
  cm_summary :: localized_text
  cm_keywords :: "string list"
  cm_readme_path :: string
  cm_bundle_path :: "string option"
  cm_archive_reason :: "string option"
  cm_private_assets :: "private_asset_requirement list"
  cm_ci :: creation_ci_spec

definition default_ci_spec :: creation_ci_spec where
  "default_ci_spec = \<lparr>validate_manifest = True, validate_public_bundle_ci = True, smoke_test_public_validation = False\<rparr>"

section \<open>Relative paths\<close>

definition relative_path_error :: service_error where
  "relative_path_error = BadRequest ''repo-relative paths must be non-empty safe relative paths with ASCII components''"

definition validate_relative_path :: "string \<Rightarrow> string result" where
  "validate_relative_path v =
     (if v = [] \<or> trim v \<noteq> v \<or> starts_with v ''/'' \<or> last v = CHR ''/''
         \<or> CHR 0x5C \<in> set v \<or> list_ex (\<lambda>c. is_ascii_whitespace c \<or> is_ascii_control c) v
      then Inl relative_path_error
      else if hd v = CHR ''/'' then Inl relative_path_error
      else (case normal_parts (path_components v) of
              Inl _ \<Rightarrow> Inl relative_path_error
            | Inr parts \<Rightarrow> if parts = [] \<or> join_with (CHR ''/'') parts \<noteq> v then Inl relative_path_error else Inr v))"

section \<open>Manifest checks\<close>

definition require_non_empty :: "string \<Rightarrow> string \<Rightarrow> unit result" where
  "require_non_empty v field = guard_err (trim v = []) (ValidationErr (field @ '' must not be empty''))"

text \<open>A loop over a list that rejects the first element whose key was seen before.\<close>

fun reject_duplicates :: "('a \<Rightarrow> 'k) \<Rightarrow> ('a \<Rightarrow> service_error) \<Rightarrow> 'k set \<Rightarrow> 'a list \<Rightarrow> unit result" where
  "reject_duplicates key err seen [] = Inr ()"
| "reject_duplicates key err seen (x # xs) =
     (if key x \<in> seen then Inl (err x) else reject_duplicates key err (insert (key x) seen) xs)"

definition validate_manifest_keywords :: "(string \<Rightarrow> string) \<Rightarrow> creation_manifest \<Rightarrow> unit result" where
  "validate_manifest_keywords lower m =
     and_then (guard_err (\<not> (1 \<le> length (cm_keywords m) \<and> length (cm_keywords m) \<le> 6))
       (ValidationErr ''keywords must contain between 1 and 6 entries'')) (\<lambda>_.
     reject_duplicates lower (\<lambda>k. ValidationErr (''duplicate challenge keyword `'' @ k @ ''`'')) {} (cm_keywords m))"

fun validate_private_asset_requirements :: "string set \<Rightarrow> private_asset_requirement list \<Rightarrow> unit result" where
  "validate_private_asset_requirements ids [] = Inr ()"
| "validate_private_asset_requirements ids (a # as) =
     (if pr_asset_name a \<in> ids
      then Inl (ValidationErr (''private_assets contains duplicate asset_name `'' @ pr_asset_name a @ ''`''))
      else and_then (case pr_asset_note a of None \<Rightarrow> Inr () | Some n \<Rightarrow> require_non_empty n ''private_assets[].asset_note'') (\<lambda>_.
           and_then (reject_duplicates id (\<lambda>p. ValidationErr (''private_assets `'' @ pr_asset_name a
             @ ''` contains duplicate required_paths entry `'' @ p @ ''`'')) {} (pr_required_paths a)) (\<lambda>_.
           validate_private_asset_requirements (insert (pr_asset_name a) ids) as)))"

definition validate_challenge_creation_manifest :: "(string \<Rightarrow> string) \<Rightarrow> creation_manifest \<Rightarrow> unit result" where
  "validate_challenge_creation_manifest lower m =
     and_then (guard_err (cm_schema_version m \<noteq> 1) (ValidationErr ''schema_version must be 1'')) (\<lambda>_.
     and_then (require_non_empty (cm_title m) ''title'') (\<lambda>_.
     and_then (require_non_empty (lt_en (cm_summary m)) ''summary.en'') (\<lambda>_.
     and_then (require_non_empty (lt_zh (cm_summary m)) ''summary.zh'') (\<lambda>_.
     and_then (validate_manifest_keywords lower m) (\<lambda>_.
     and_then (validate_private_asset_requirements {} (cm_private_assets m)) (\<lambda>_.
     (case cm_request m of
        NewChallenge \<Rightarrow>
          and_then (ok_or (ValidationErr ''bundle_path is required for new_challenge'') (cm_bundle_path m)) (\<lambda>_.
          guard_err (cm_archive_reason m \<noteq> None) (ValidationErr ''archive must be omitted for new_challenge''))
      | ArchiveChallenge \<Rightarrow>
          and_then (guard_err (cm_bundle_path m \<noteq> None) (ValidationErr ''bundle_path must be omitted for archive_challenge'')) (\<lambda>_.
          and_then (ok_or (ValidationErr ''archive is required for archive_challenge'') (cm_archive_reason m)) (\<lambda>reason.
          require_non_empty reason ''archive.reason'')))))))))"

section \<open>The public bundle\<close>

datatype path_kind = KindFile | KindDir | KindOther

record repository_view =
  fs_meta :: "string \<Rightarrow> path_kind option"
  fs_try_exists :: "string \<Rightarrow> bool result"
  fs_read_spec :: "string \<Rightarrow> challenge_bundle_spec result"
  fs_check_runs :: "string \<Rightarrow> string \<Rightarrow> unit result"
  fs_check_session :: "string \<Rightarrow> string \<Rightarrow> unit result"

definition path_join :: "string \<Rightarrow> string \<Rightarrow> string" where
  "path_join a b = a @ ''/'' @ b"

definition assert_public_file_exists :: "repository_view \<Rightarrow> string \<Rightarrow> string \<Rightarrow> unit result" where
  "assert_public_file_exists fs path field =
     (case fs_meta fs path of
        None \<Rightarrow> Inl (ValidationErr (field @ '' does not exist: '' @ path))
      | Some k \<Rightarrow> guard_err (k \<noteq> KindFile) (ValidationErr (field @ '' is not a file: '' @ path)))"

definition assert_public_dir_exists :: "repository_view \<Rightarrow> string \<Rightarrow> string \<Rightarrow> unit result" where
  "assert_public_dir_exists fs path field =
     (case fs_meta fs path of
        None \<Rightarrow> Inl (ValidationErr (field @ '' does not exist: '' @ path))
      | Some k \<Rightarrow> guard_err (k \<noteq> KindDir) (ValidationErr (field @ '' is not a directory: '' @ path)))"

definition display_localized :: "localized_text \<Rightarrow> string" where
  "display_localized t = ''en='' @ lt_en t @ '', zh='' @ lt_zh t"

definition path_str :: "bundle_path \<Rightarrow> string" where
  "path_str p = join_with (CHR ''/'') p"

definition validate_public_bundle :: "repository_view \<Rightarrow> string \<Rightarrow> creation_manifest \<Rightarrow> string \<Rightarrow> unit result" where
  "validate_public_bundle fs proposal_root m bundle_path =
     (let dir = path_join proposal_root bundle_path
      in and_then (fs_read_spec fs dir) (\<lambda>spec.
         and_then (guard_err (cb_challenge_name spec \<noteq> cm_challenge_name m) (ValidationErr
           (''bundle challenge_name mismatch: expected '' @ cm_challenge_name m @ '', got '' @ cb_challenge_name spec))) (\<lambda>_.
         and_then (guard_err (challenge_title spec \<noteq> cm_title m) (ValidationErr
           (''bundle challenge_title mismatch: expected '' @ cm_title m @ '', got '' @ challenge_title spec))) (\<lambda>_.
         and_then (guard_err (summary spec \<noteq> cm_summary m) (ValidationErr
           (''bundle summary mismatch: expected '' @ display_localized (cm_summary m) @ '', got '' @ display_localized (summary spec)))) (\<lambda>_.
         and_then (guard_err (challenge_keywords spec \<noteq> cm_keywords m) (ValidationErr
           ''bundle keywords must match agentics.challenge.json keywords'')) (\<lambda>_.
         and_then (assert_public_file_exists fs (path_join dir ''statement.md'') ''statement.md'') (\<lambda>_.
         and_then (assert_public_dir_exists fs (path_join dir (path_str (ds_public_dir (datasets spec)))) ''datasets.public_dir'') (\<lambda>_.
         and_then (case ds_private_benchmark_dir (datasets spec) of
             None \<Rightarrow> Inr ()
           | Some p \<Rightarrow> and_then (fs_try_exists fs (path_join dir (path_str p))) (\<lambda>there. guard_err there (ValidationErr
               (''datasets.private_benchmark_dir `'' @ path_str p
                 @ ''` must be provided through private asset uploads, not committed to the public challenge repository'')))) (\<lambda>_.
         if list_ex validation_enabled (targets spec)
         then (case execution spec of
                 SeparatedEvaluator e \<Rightarrow>
                   (case se_validation_runs e of None \<Rightarrow> Inr ()
                    | Some p \<Rightarrow> and_then (assert_public_file_exists fs (path_join dir (path_str p)) ''execution.validation_runs'') (\<lambda>_.
                        fs_check_runs fs dir (path_str p)))
               | PipedStdio e \<Rightarrow>
                   (case ps_validation_session e of None \<Rightarrow> Inr ()
                    | Some p \<Rightarrow> and_then (assert_public_file_exists fs (path_join dir (path_str p)) ''execution.validation_session'') (\<lambda>_.
                        fs_check_session fs dir (path_str p)))
               | CoexecutedBenchmark _ \<Rightarrow> Inr ())
         else Inr ())))))))))"

lemma reject_duplicates_ok [result_simps]:
  "reject_duplicates key err seen xs = Inr u \<longleftrightarrow> distinct (map key xs) \<and> key ` set xs \<inter> seen = {}"
  by (induction xs arbitrary: seen) auto

lemma validate_private_asset_requirements_ok:
  "validate_private_asset_requirements ids as = Inr u \<longleftrightarrow>
     distinct (map pr_asset_name as) \<and> pr_asset_name ` set as \<inter> ids = {}
     \<and> (\<forall>a \<in> set as. distinct (pr_required_paths a) \<and> (\<forall>n. pr_asset_note a = Some n \<longrightarrow> trim n \<noteq> []))"
  by (induction as arbitrary: ids) (auto simp: result_simps require_non_empty_def split: option.splits)

text \<open>Bundle paths and storage keys obey the same rule.\<close>

lemma validate_relative_path_eq:
  "validate_relative_path v = (if storage_key_pattern v then Inr v else Inl relative_path_error)"
proof -
  have "validate_relative_path v = (case validate_storage_key v of Inl _ \<Rightarrow> Inl relative_path_error | Inr w \<Rightarrow> Inr w)"
    by (simp add: validate_relative_path_def validate_storage_key_def and_then_def split: sum.splits)
  then show ?thesis by (simp add: validate_storage_key_eq)
qed

end
