(* ===== verification/Review_Digest.thy ===== *)
theory Review_Digest
  imports Creation_Manifest
begin

text \<open>
  The walks of \<open>crates/contracts/src/challenge_creation.rs\<close> over a checked-out proposal: the search for
  private material, and the review digest that validation, approval and publication compare. A directory
  is the list of its entries in the order \<open>read_dir\<close> returns them. The hasher is the sequence of bytes
  fed to it, \<open>sha256\<close> and the JSON rendering of the manifest are arguments, as is the UTF-8 check of
  \<open>Path::to_str\<close>.
\<close>

section \<open>Directory trees\<close>

datatype fs_node = FsFile string | FsDir "(string \<times> fs_node) list" | FsSymlink | FsOther

type_synonym fs_entries = "(string \<times> fs_node) list"

fun node_count :: "fs_node \<Rightarrow> nat" where
  "node_count (FsDir es) = Suc (sum_list (map (\<lambda>e. node_count (snd e)) es))"
| "node_count _ = 1"

definition entries_count :: "fs_entries \<Rightarrow> nat" where
  "entries_count es = sum_list (map (\<lambda>e. node_count (snd e)) es)"

definition stack_count :: "(string \<times> fs_entries) list \<Rightarrow> nat" where
  "stack_count st = sum_list (map (\<lambda>d. Suc (entries_count (snd d))) st)"

definition rel_join :: "string \<Rightarrow> string \<Rightarrow> string" where
  "rel_join rel name = (if rel = [] then name else rel @ ''/'' @ name)"

lemma and_then_cong [fundef_cong]:
  "m = m' \<Longrightarrow> (\<And>x. m' = Inr x \<Longrightarrow> k x = k' x) \<Longrightarrow> and_then m k = and_then m' k'"
  by (cases m') auto

section \<open>Private material in the public repository\<close>

definition to_lower_char :: "char \<Rightarrow> char" where
  "to_lower_char c = (if is_ascii_uppercase c then char_of (byte_of c + 32) else c)"

definition ends_with :: "string \<Rightarrow> string \<Rightarrow> bool" where
  "ends_with s suffix = starts_with (rev s) (rev suffix)"

definition is_forbidden_public_repo_name :: "string \<Rightarrow> bool" where
  "is_forbidden_public_repo_name name =
     (let n = map to_lower_char name
      in n \<in> {''.env'', ''.env.local'', ''.env.production'', ''id_rsa'', ''id_ed25519'', ''secret'', ''secrets'', ''private'',
              ''private-benchmark'', ''private_benchmark'', ''heldout'', ''heldout-data'', ''reference-output'', ''reference-outputs''}
         \<or> ends_with n ''.pem'' \<or> ends_with n ''.key'' \<or> ends_with n ''.p12'')"

text \<open>
  One directory of the loop: the entries in order, the subdirectories pushed on the stack. Names are
  compared as bytes; the replacement of invalid UTF-8 before the comparison does not change ASCII bytes.
\<close>

fun reject_entries :: "string \<Rightarrow> fs_entries \<Rightarrow> (string \<times> fs_entries) list \<Rightarrow> (string \<times> fs_entries) list result" where
  "reject_entries dir [] st = Inr st"
| "reject_entries dir ((name, node) # es) st =
     (if name = ''.git'' then reject_entries dir es st
      else if is_forbidden_public_repo_name name
      then Inl (ValidationErr (''public challenge repo must not contain private benchmark or secret material: '' @ path_join dir name))
      else (case node of
              FsDir sub \<Rightarrow> reject_entries dir es ((path_join dir name, sub) # st)
            | FsSymlink \<Rightarrow> Inl (ValidationErr (''public challenge repo must not contain symlinks: '' @ path_join dir name))
            | _ \<Rightarrow> reject_entries dir es st))"

lemma reject_entries_count:
  "reject_entries dir es st = Inr st' \<Longrightarrow> stack_count st' \<le> stack_count st + entries_count es"
  by (induction dir es st rule: reject_entries.induct)
    (auto simp: stack_count_def entries_count_def split: if_splits fs_node.splits)

function reject_loop :: "(string \<times> fs_entries) list \<Rightarrow> unit result" where
  "reject_loop [] = Inr ()"
| "reject_loop ((dir, es) # st) = and_then (reject_entries dir es st) reject_loop"
  by pat_completeness auto
termination
  by (relation "measure stack_count") (auto dest!: reject_entries_count simp: stack_count_def)

definition reject_private_files :: "string \<Rightarrow> fs_entries \<Rightarrow> unit result" where
  "reject_private_files dir es = reject_loop [(dir, es)]"

definition validate_challenge_creation_repository_with_manifest ::
  "repository_view \<Rightarrow> string \<Rightarrow> fs_entries \<Rightarrow> creation_manifest \<Rightarrow> unit result" where
  "validate_challenge_creation_repository_with_manifest fs dir es m =
     and_then (fs_try_exists fs (path_join dir ''agentics.challenge.json'')) (\<lambda>there.
     and_then (guard_err (\<not> there) (ValidationErr ''agentics.challenge.json is required'')) (\<lambda>_.
     and_then (assert_public_file_exists fs (path_join dir (cm_readme_path m)) ''readme_path'') (\<lambda>_.
     and_then (reject_private_files dir es) (\<lambda>_.
     case cm_bundle_path m of None \<Rightarrow> Inr () | Some p \<Rightarrow> validate_public_bundle fs dir m p))))"

text \<open>The reference: no entry outside \<open>.git\<close> has a forbidden name or is a symbolic link.\<close>

fun clean_node :: "string \<Rightarrow> fs_node \<Rightarrow> bool" where
  "clean_node name (FsDir es) =
     (name = ''.git'' \<or> (\<not> is_forbidden_public_repo_name name \<and> list_all (\<lambda>e. clean_node (fst e) (snd e)) es))"
| "clean_node name FsSymlink = (name = ''.git'')"
| "clean_node name _ = (name = ''.git'' \<or> \<not> is_forbidden_public_repo_name name)"

definition clean_entries :: "fs_entries \<Rightarrow> bool" where
  "clean_entries es = list_all (\<lambda>e. clean_node (fst e) (snd e)) es"

lemma reject_entries_clean:
  "(\<exists>st'. reject_entries dir es st = Inr st' \<and> list_all (\<lambda>d. clean_entries (snd d)) st') \<longleftrightarrow>
     clean_entries es \<and> list_all (\<lambda>d. clean_entries (snd d)) st"
proof (induction dir es st rule: reject_entries.induct)
  case (2 dir name node es st)
  then show ?case by (cases node) (auto simp: clean_entries_def)
qed (simp add: clean_entries_def)

lemma reject_loop_clean: "reject_loop st = Inr () \<longleftrightarrow> list_all (\<lambda>d. clean_entries (snd d)) st"
proof (induction st rule: reject_loop.induct)
  case (2 dir es st)
  show ?case
  proof (cases "reject_entries dir es st")
    case (Inl e)
    then show ?thesis using reject_entries_clean [of dir es st] by auto
  next
    case (Inr st')
    with "2.IH" reject_entries_clean [of dir es st] show ?thesis by auto
  qed
qed simp

section \<open>The review digest\<close>

definition be64 :: "nat \<Rightarrow> string" where
  "be64 n = map (\<lambda>k. char_of (n div 256 ^ k mod 256)) [7, 6, 5, 4, 3, 2, 1, 0]"

definition hash_field :: "string \<Rightarrow> string \<Rightarrow> string \<Rightarrow> string" where
  "hash_field label bytes h = h @ be64 (length label) @ label @ be64 (length bytes) @ bytes"

text \<open>The buffer of 64 KiB.\<close>

function read_chunks :: "string \<Rightarrow> string \<Rightarrow> string" where
  "read_chunks rest h = (if rest = [] then h else read_chunks (drop 65536 rest) (h @ take 65536 rest))"
  by pat_completeness auto
termination
  by (relation "measure (\<lambda>(rest, h). length rest)") auto

declare read_chunks.simps [simp del]

definition hash_file :: "string \<Rightarrow> string \<Rightarrow> string" where
  "hash_file content h = read_chunks content (hash_field ''file_size'' (be64 (length content)) h)"

fun compare_bytes :: "string \<Rightarrow> string \<Rightarrow> ordering" where
  "compare_bytes [] [] = Equal"
| "compare_bytes [] (_ # _) = Less"
| "compare_bytes (_ # _) [] = Greater"
| "compare_bytes (c # cs) (d # ds) = then_with (cmp_lin (byte_of c) (byte_of d)) (compare_bytes cs ds)"

definition sort_entries :: "fs_entries \<Rightarrow> fs_entries" where
  "sort_entries es = sort_by (\<lambda>a b. compare_bytes (fst a) (fst b)) es"

fun hash_entries ::
  "(string \<Rightarrow> bool) \<Rightarrow> string \<Rightarrow> string \<Rightarrow> fs_entries \<Rightarrow> string \<times> (string \<times> fs_entries) list \<Rightarrow> (string \<times> (string \<times> fs_entries) list) result" where
  "hash_entries utf8 base rel [] s = Inr s"
| "hash_entries utf8 base rel ((name, node) # es) (h, st) =
     (let p = rel_join rel name
      in if \<not> utf8 p then Inl (ValidationErr (''public bundle path must be UTF-8 for review digest: '' @ path_join base p))
         else case node of
                FsSymlink \<Rightarrow> Inl (ValidationErr (''public bundle must not contain symlinks: '' @ path_join base p))
              | FsDir sub \<Rightarrow> hash_entries utf8 base rel es (hash_field ''dir'' p h, (p, sub) # st)
              | FsFile c \<Rightarrow> hash_entries utf8 base rel es (hash_file c (hash_field ''file'' p h), st)
              | FsOther \<Rightarrow> hash_entries utf8 base rel es (h, st))"

lemma sum_list_insert_by: "sum_list (map f (insert_by cmp x xs)) = f x + sum_list (map f xs)" for f :: "'a \<Rightarrow> nat"
  by (induction xs) auto

lemma sum_list_sort_by: "sum_list (map f (sort_by cmp xs)) = sum_list (map f xs)" for f :: "'a \<Rightarrow> nat"
  by (induction xs) (simp_all add: sum_list_insert_by)

lemma entries_count_sort [simp]: "entries_count (sort_entries es) = entries_count es"
  by (simp add: entries_count_def sort_entries_def sum_list_sort_by)

lemma hash_entries_count:
  "hash_entries utf8 base rel es (h, st) = Inr (h', st') \<Longrightarrow> stack_count st' \<le> stack_count st + entries_count es"
proof (induction es arbitrary: h st)
  case (Cons e es)
  then show ?case
    by (cases e) (fastforce simp: stack_count_def entries_count_def Let_def split: if_splits fs_node.splits)
qed simp

function hash_loop :: "(string \<Rightarrow> bool) \<Rightarrow> string \<Rightarrow> string \<Rightarrow> (string \<times> fs_entries) list \<Rightarrow> string result" where
  "hash_loop utf8 base h [] = Inr h"
| "hash_loop utf8 base h ((rel, es) # st) =
     and_then (hash_entries utf8 base rel (sort_entries es) (h, st)) (\<lambda>s. hash_loop utf8 base (fst s) (snd s))"
  by pat_completeness auto
termination
proof (relation "measure (\<lambda>(utf8, base, h, st). stack_count st)", goal_cases)
  case (2 utf8 base h rel es st s)
  then show ?case
    using hash_entries_count [of utf8 base rel "sort_entries es" h st "fst s" "snd s"]
    by (simp add: stack_count_def case_prod_beta)
qed simp

definition hash_public_tree :: "(string \<Rightarrow> bool) \<Rightarrow> string \<Rightarrow> fs_entries \<Rightarrow> string \<Rightarrow> string result" where
  "hash_public_tree utf8 base es h = hash_loop utf8 base h [([], es)]"

record reviewed_asset =
  ra_name :: string
  ra_kind :: private_asset_kind
  ra_required :: bool
  ra_size_bytes :: int
  ra_sha256 :: string

definition be64_of_i64 :: "int \<Rightarrow> string" where
  "be64_of_i64 n = be64 (nat (n mod 2 ^ 64))"

definition hash_asset :: "reviewed_asset \<Rightarrow> string \<Rightarrow> string" where
  "hash_asset a h =
     hash_field ''asset_sha256'' (ra_sha256 a)
      (hash_field ''asset_size'' (be64_of_i64 (ra_size_bytes a))
        (hash_field ''asset_required'' [char_of (if ra_required a then 1 else 0 :: nat)]
          (hash_field ''asset_kind'' (asset_kind_as_str (ra_kind a))
            (hash_field ''asset_name'' (ra_name a) h))))"

text \<open>\<open>tree\<close> is the bundle directory, when the manifest names one.\<close>

definition challenge_review_bundle_sha256_blocking ::
  "(string \<Rightarrow> 'd) \<Rightarrow> (creation_manifest \<Rightarrow> string result) \<Rightarrow> (string \<Rightarrow> bool) \<Rightarrow> string \<Rightarrow> (string \<Rightarrow> fs_entries result)
     \<Rightarrow> creation_manifest \<Rightarrow> reviewed_asset list \<Rightarrow> 'd result" where
  "challenge_review_bundle_sha256_blocking sha256 to_json utf8 proposal_root read_tree m assets =
     (let h0 = hash_field ''format'' ''agentics-review_record-review-v1'' []
      in and_then (to_json m) (\<lambda>json.
         (let h1 = hash_field ''manifest'' json h0
          in and_then (case cm_bundle_path m of
                 None \<Rightarrow> Inr h1
               | Some p \<Rightarrow> and_then (read_tree (path_join proposal_root p)) (\<lambda>es.
                   hash_public_tree utf8 (path_join proposal_root p) es h1)) (\<lambda>h2.
             Inr (sha256 (foldl (\<lambda>h a. hash_asset a h) h2
               (sort_by (\<lambda>a b. compare_bytes (ra_name a) (ra_name b)) assets)))))))"

definition challenge_review_runtime_bundle_sha256_blocking ::
  "(string \<Rightarrow> 'd) \<Rightarrow> (creation_manifest \<Rightarrow> string result) \<Rightarrow> (string \<Rightarrow> bool) \<Rightarrow> string \<Rightarrow> (string \<Rightarrow> fs_entries result)
     \<Rightarrow> creation_manifest \<Rightarrow> 'd result" where
  "challenge_review_runtime_bundle_sha256_blocking sha256 to_json utf8 runtime_root read_tree m =
     (let h0 = hash_field ''format'' ''agentics-review_record-runtime-review-v1'' []
      in and_then (to_json m) (\<lambda>json.
         and_then (read_tree runtime_root) (\<lambda>es.
         and_then (hash_public_tree utf8 runtime_root es (hash_field ''manifest'' json h0)) (\<lambda>h.
         Inr (sha256 h)))))"

section \<open>What the digest covers\<close>

datatype tree_item = DirItem string | FileItem string string

text \<open>The reference: every directory and file below a node, with its path and content.\<close>

fun node_items :: "string \<Rightarrow> fs_node \<Rightarrow> tree_item list" where
  "node_items p (FsDir es) = DirItem p # concat (map (\<lambda>e. node_items (rel_join p (fst e)) (snd e)) es)"
| "node_items p (FsFile c) = [FileItem p c]"
| "node_items p _ = []"

definition tree_items :: "string \<Rightarrow> fs_entries \<Rightarrow> tree_item list" where
  "tree_items rel es = concat (map (\<lambda>e. node_items (rel_join rel (fst e)) (snd e)) es)"

definition enc_field :: "string \<Rightarrow> string \<Rightarrow> string" where
  "enc_field label bytes = be64 (length label) @ label @ be64 (length bytes) @ bytes"

fun enc_item :: "tree_item \<Rightarrow> string" where
  "enc_item (DirItem p) = enc_field ''dir'' p"
| "enc_item (FileItem p c) = enc_field ''file'' p @ enc_field ''file_size'' (be64 (length c)) @ c"

definition asset_fields :: "reviewed_asset \<Rightarrow> (string \<times> string) list" where
  "asset_fields a = [(''asset_name'', ra_name a), (''asset_kind'', asset_kind_as_str (ra_kind a)),
     (''asset_required'', [char_of (if ra_required a then 1 else 0 :: nat)]),
     (''asset_size'', be64_of_i64 (ra_size_bytes a)), (''asset_sha256'', ra_sha256 a)]"

definition enc_fields :: "(string \<times> string) list \<Rightarrow> string" where
  "enc_fields fs = concat (map (\<lambda>f. enc_field (fst f) (snd f)) fs)"

lemma hash_field_append: "hash_field label bytes h = h @ enc_field label bytes"
  by (simp add: hash_field_def enc_field_def)

lemma read_chunks_append: "read_chunks rest h = h @ rest"
proof (induction rest h rule: read_chunks.induct)
  case (1 rest h)
  then show ?case by (subst read_chunks.simps) simp
qed

lemma hash_file_append: "hash_file c (hash_field ''file'' p h) = h @ enc_item (FileItem p c)"
  by (simp add: hash_file_def read_chunks_append hash_field_append)

lemma hash_asset_append: "hash_asset a h = h @ enc_fields (asset_fields a)"
  by (simp add: hash_asset_def hash_field_append enc_fields_def asset_fields_def)

lemma hash_entries_items:
  "hash_entries utf8 base rel es (h, st) = Inr (h', st') \<Longrightarrow>
     \<exists>items. h' = h @ concat (map enc_item items)
       \<and> set items \<union> (\<Union>d \<in> set st'. set (tree_items (fst d) (snd d)))
         = set (tree_items rel es) \<union> (\<Union>d \<in> set st. set (tree_items (fst d) (snd d)))"
proof (induction es arbitrary: h st)
  case Nil
  then show ?case by (intro exI [of _ "[]"]) (simp add: tree_items_def)
next
  case (Cons e es)
  obtain name node where e: "e = (name, node)" by force
  let ?p = "rel_join rel name"
  show ?case
  proof (cases node)
    case (FsFile c)
    with Cons.prems e obtain items where i: "h' = (h @ enc_item (FileItem ?p c)) @ concat (map enc_item items)"
      "set items \<union> (\<Union>d \<in> set st'. set (tree_items (fst d) (snd d)))
         = set (tree_items rel es) \<union> (\<Union>d \<in> set st. set (tree_items (fst d) (snd d)))"
      using Cons.IH [of "h @ enc_item (FileItem ?p c)" st]
      by (auto simp: Let_def hash_file_append simp del: enc_item.simps split: if_splits)
    show ?thesis
      by (rule exI [of _ "FileItem ?p c # items"]) (use i FsFile e in \<open>auto simp: tree_items_def\<close>)
  next
    case (FsDir sub)
    with Cons.prems e obtain items where i: "h' = (h @ enc_item (DirItem ?p)) @ concat (map enc_item items)"
      "set items \<union> (\<Union>d \<in> set st'. set (tree_items (fst d) (snd d)))
         = set (tree_items rel es) \<union> (\<Union>d \<in> set ((?p, sub) # st). set (tree_items (fst d) (snd d)))"
      using Cons.IH [of "h @ enc_item (DirItem ?p)" "(?p, sub) # st"]
      by (auto simp: Let_def hash_field_append split: if_splits)
    show ?thesis
      by (rule exI [of _ "DirItem ?p # items"]) (use i FsDir e in \<open>auto simp: tree_items_def\<close>)
  qed (use Cons e in \<open>auto simp: Let_def tree_items_def split: if_splits\<close>)
qed

lemma set_tree_items_sort: "set (tree_items rel (sort_entries es)) = set (tree_items rel es)"
  by (simp add: tree_items_def sort_entries_def)

lemma hash_loop_items:
  "hash_loop utf8 base h st = Inr h' \<Longrightarrow>
     \<exists>items. h' = h @ concat (map enc_item items) \<and> set items = (\<Union>d \<in> set st. set (tree_items (fst d) (snd d)))"
proof (induction utf8 base h st rule: hash_loop.induct)
  case (1 utf8 base h)
  then show ?case by (intro exI [of _ "[]"]) simp
next
  case (2 utf8 base h rel es st)
  from "2.prems" obtain h1 st1 where step: "hash_entries utf8 base rel (sort_entries es) (h, st) = Inr (h1, st1)"
    and loop: "hash_loop utf8 base h1 st1 = Inr h'"
    by (auto simp: and_then_eq_Inr)
  from hash_entries_items [OF step] obtain i1 where i1: "h1 = h @ concat (map enc_item i1)"
    "set i1 \<union> (\<Union>d \<in> set st1. set (tree_items (fst d) (snd d)))
       = set (tree_items rel es) \<union> (\<Union>d \<in> set st. set (tree_items (fst d) (snd d)))"
    unfolding set_tree_items_sort by blast
  from "2.IH" [OF step] loop obtain i2 where i2: "h' = h1 @ concat (map enc_item i2)"
    "set i2 = (\<Union>d \<in> set st1. set (tree_items (fst d) (snd d)))" by auto
  show ?case by (rule exI [of _ "i1 @ i2"]) (use i1 i2 in auto)
qed

lemma hash_public_tree_items:
  "hash_public_tree utf8 base es h = Inr h' \<Longrightarrow>
     \<exists>items. h' = h @ concat (map enc_item items) \<and> set items = set (tree_items [] es)"
  unfolding hash_public_tree_def by (drule hash_loop_items) simp

section \<open>The byte stream is a code\<close>

lemma length_be64 [simp]: "length (be64 n) = 8"
  by (simp add: be64_def)

lemma be64_inj:
  assumes "be64 m = be64 n" "m < 2 ^ 64" "n < 2 ^ 64"
  shows "m = n"
proof -
  have digit: "m div 256 ^ k mod 256 = n div 256 ^ k mod 256" if "k < 8" for k
  proof -
    have "k \<in> set [7, 6, 5, 4, 3, 2, 1, 0 :: nat]" using that by auto
    with assms(1) have "(char_of (m div 256 ^ k mod 256) :: char) = char_of (n div 256 ^ k mod 256)"
      unfolding be64_def map_eq_conv by blast
    then have "(of_char (char_of (m div 256 ^ k mod 256) :: char) :: nat) = of_char (char_of (n div 256 ^ k mod 256) :: char)"
      by simp
    then show ?thesis by (simp only: of_char_of) simp
  qed
  have step: "x div 256 ^ k = x div 256 ^ Suc k * 256 + x div 256 ^ k mod 256" for x k :: nat
    by (metis add.commute div_mult2_eq mod_mult_div_eq mult.commute power_Suc2)
  have top: "x div 256 ^ 8 = 0" if "x < 2 ^ 64" for x :: nat using that by simp
  have "m div 256 ^ (8 - j) = n div 256 ^ (8 - j)" if "j \<le> 8" for j
    using that
  proof (induction j)
    case 0
    then show ?case using top [OF assms(2)] top [OF assms(3)] by simp
  next
    case (Suc j)
    then have k: "Suc (8 - Suc j) = 8 - j" and lt: "8 - Suc j < 8" by simp_all
    from Suc have IH: "m div 256 ^ (8 - j) = n div 256 ^ (8 - j)" by simp
    show ?case
      using step [of m "8 - Suc j"] step [of n "8 - Suc j"] digit [OF lt] unfolding k IH by argo
  qed
  from this [of 8] show ?thesis by simp
qed

definition fits :: "string \<Rightarrow> bool" where
  "fits s \<longleftrightarrow> length s < 2 ^ 64"

lemma enc_field_inj:
  assumes "enc_field l b @ s = enc_field l' b' @ s'" "fits l" "fits l'" "fits b" "fits b'"
  shows "l = l' \<and> b = b' \<and> s = s'"
proof -
  from assms(1) have "be64 (length l) = be64 (length l')"
    and r1: "l @ be64 (length b) @ b @ s = l' @ be64 (length b') @ b' @ s'"
    by (auto simp: enc_field_def append_eq_append_conv)
  with assms(2,3) have "length l = length l'" unfolding fits_def by (blast intro: be64_inj)
  with r1 have l: "l = l'" and r2: "be64 (length b) @ b @ s = be64 (length b') @ b' @ s'" by simp_all
  from r2 have "be64 (length b) = be64 (length b')" and r3: "b @ s = b' @ s'"
    by (auto simp: append_eq_append_conv)
  with assms(4,5) have "length b = length b'" unfolding fits_def by (blast intro: be64_inj)
  with r3 l show ?thesis by simp
qed

fun item_fits :: "tree_item \<Rightarrow> bool" where
  "item_fits (DirItem p) = fits p"
| "item_fits (FileItem p c) = (fits p \<and> fits c)"

definition asset_fits :: "reviewed_asset \<Rightarrow> bool" where
  "asset_fits a = (fits (ra_name a) \<and> fits (ra_sha256 a) \<and> i64_min \<le> ra_size_bytes a \<and> ra_size_bytes a \<le> i64_max)"

lemma fits_small: "length s < 100 \<Longrightarrow> fits s"
  by (simp add: fits_def)

lemma fits_be64 [simp]: "fits (be64 n)"
  by (simp add: fits_def)

lemma enc_item_inj:
  assumes eq: "enc_item x @ s = enc_item y @ t" and fit: "item_fits x" "item_fits y"
  shows "x = y \<and> s = t"
proof (cases x; cases y)
  fix p c q d
  assume x: "x = FileItem p c" and y: "y = FileItem q d"
  with fit have f: "fits p" "fits c" "fits q" "fits d" by simp_all
  from eq x y have "enc_field ''file'' p @ (enc_field ''file_size'' (be64 (length c)) @ c @ s)
      = enc_field ''file'' q @ (enc_field ''file_size'' (be64 (length d)) @ d @ t)" by simp
  from enc_field_inj [OF this] f have p: "p = q"
    and r: "enc_field ''file_size'' (be64 (length c)) @ (c @ s) = enc_field ''file_size'' (be64 (length d)) @ (d @ t)"
    by (simp_all add: fits_small)
  from enc_field_inj [OF r] have "be64 (length c) = be64 (length d)" and r2: "c @ s = d @ t" by (simp_all add: fits_small)
  with f have "length c = length d" by (auto simp: fits_def intro: be64_inj)
  with r2 p x y show ?thesis by simp
next
  fix p q
  assume "x = DirItem p" "y = DirItem q"
  with eq fit enc_field_inj [of "''dir''" p s "''dir''" q t] show ?thesis by (simp add: fits_small)
next
  fix p q d
  assume "x = DirItem p" "y = FileItem q d"
  with eq fit enc_field_inj [of "''dir''" p s "''file''" q "enc_field ''file_size'' (be64 (length d)) @ d @ t"]
  show ?thesis by (simp add: fits_small)
next
  fix p c q
  assume "x = FileItem p c" "y = DirItem q"
  with eq fit enc_field_inj [of "''file''" p "enc_field ''file_size'' (be64 (length c)) @ c @ s" "''dir''" q t]
  show ?thesis by (simp add: fits_small)
qed

lemma asset_kind_inj: "asset_kind_as_str k = asset_kind_as_str l \<Longrightarrow> k = l"
  by (cases k; cases l) simp_all

lemma be64_of_i64_inj:
  assumes "be64_of_i64 a = be64_of_i64 b" "i64_min \<le> a" "a \<le> i64_max" "i64_min \<le> b" "b \<le> i64_max"
  shows "a = b"
proof -
  have "nat (a mod 2 ^ 64) < 2 ^ 64" "nat (b mod 2 ^ 64) < 2 ^ 64" by (simp_all add: nat_less_iff)
  with assms(1) have "nat (a mod 2 ^ 64) = nat (b mod 2 ^ 64)" unfolding be64_of_i64_def by (blast intro: be64_inj)
  then have "a mod 2 ^ 64 = b mod 2 ^ 64" by (simp add: eq_nat_nat_iff)
  then have "2 ^ 64 dvd a - b" by (simp add: mod_eq_dvd_iff)
  moreover have "\<bar>a - b\<bar> < 2 ^ 64" using assms(2-5) by (simp add: i64_min_def i64_max_def)
  ultimately show ?thesis using dvd_imp_le_int [of "a - b" "2 ^ 64"] by force
qed

lemma enc_fields_inj:
  assumes "enc_fields fs @ s = enc_fields gs @ t" "length fs = length gs"
    and "\<forall>f \<in> set fs \<union> set gs. fits (fst f) \<and> fits (snd f)"
  shows "fs = gs \<and> s = t"
  using assms
proof (induction fs arbitrary: gs)
  case Nil
  then show ?case by (simp add: enc_fields_def)
next
  case (Cons f fs)
  then obtain g gs' where gs: "gs = g # gs'" by (cases gs) auto
  with Cons.prems have "enc_field (fst f) (snd f) @ (enc_fields fs @ s) = enc_field (fst g) (snd g) @ (enc_fields gs' @ t)"
    by (simp add: enc_fields_def)
  from enc_field_inj [OF this] Cons.prems(3) gs have "fst f = fst g \<and> snd f = snd g" "enc_fields fs @ s = enc_fields gs' @ t"
    by simp_all
  with Cons.IH [of gs'] Cons.prems(2,3) gs show ?case by (simp add: prod_eq_iff)
qed

lemma asset_fields_fit:
  assumes "asset_fits a"
  shows "\<forall>f \<in> set (asset_fields a). fits (fst f) \<and> fits (snd f)"
proof -
  have "fits (asset_kind_as_str k)" for k by (cases k) (simp_all add: fits_small)
  with assms show ?thesis by (simp add: asset_fields_def asset_fits_def be64_of_i64_def fits_small)
qed

lemma asset_fields_inj: "asset_fits a \<Longrightarrow> asset_fits b \<Longrightarrow> asset_fields a = asset_fields b \<Longrightarrow> a = b"
  by (cases a; cases b)
    (auto simp: asset_fields_def asset_fits_def dest: asset_kind_inj intro: be64_of_i64_inj split: if_splits)

text \<open>
  A sequence of encoded values determines the values, when the encoding of one value is never a prefix
  of the encoding of another followed by something else.
\<close>

locale byte_code =
  fixes enc :: "'a \<Rightarrow> string" and ok :: "'a \<Rightarrow> bool"
  assumes enc_prefix: "ok x \<Longrightarrow> ok y \<Longrightarrow> enc x @ s = enc y @ t \<Longrightarrow> x = y \<and> s = t"
    and enc_nonempty: "ok x \<Longrightarrow> enc x \<noteq> []"
begin

lemma sequence_inj:
  assumes "concat (map enc xs) = concat (map enc ys)" "\<forall>x \<in> set xs. ok x" "\<forall>y \<in> set ys. ok y"
  shows "xs = ys"
  using assms
proof (induction xs arbitrary: ys)
  case Nil
  then show ?case by (cases ys) (auto simp: enc_nonempty)
next
  case (Cons x xs)
  then obtain y ys' where ys: "ys = y # ys'" by (cases ys) (auto simp: enc_nonempty)
  with Cons.prems have "enc x @ concat (map enc xs) = enc y @ concat (map enc ys')" "ok x" "ok y" by simp_all
  then have "x = y \<and> concat (map enc xs) = concat (map enc ys')" using enc_prefix by blast
  with Cons ys show ?case by simp
qed

end

text \<open>The parts of a digest: a header field, an item of the tree or a private asset.\<close>

datatype review_part = HeaderPart string string | TreePart tree_item | AssetPart reviewed_asset

fun enc_part :: "review_part \<Rightarrow> string" where
  "enc_part (HeaderPart l b) = enc_field l b"
| "enc_part (TreePart i) = enc_item i"
| "enc_part (AssetPart a) = enc_fields (asset_fields a)"

fun part_fits :: "review_part \<Rightarrow> bool" where
  "part_fits (HeaderPart l b) = (l \<in> {''format'', ''manifest''} \<and> fits b)"
| "part_fits (TreePart i) = item_fits i"
| "part_fits (AssetPart a) = asset_fits a"

definition part_head :: "review_part \<Rightarrow> string \<times> string" where
  "part_head p = (case p of
     HeaderPart l b \<Rightarrow> (l, b)
   | TreePart (DirItem d) \<Rightarrow> (''dir'', d)
   | TreePart (FileItem f c) \<Rightarrow> (''file'', f)
   | AssetPart a \<Rightarrow> (''asset_name'', ra_name a))"

lemma enc_part_head: "\<exists>r. enc_part p = enc_field (fst (part_head p)) (snd (part_head p)) @ r"
  by (cases p rule: enc_part.cases) (auto simp: part_head_def enc_fields_def asset_fields_def split: tree_item.splits)

lemma part_head_fits: "part_fits p \<Longrightarrow> fits (fst (part_head p)) \<and> fits (snd (part_head p))"
  by (cases p rule: enc_part.cases) (auto simp: part_head_def fits_small asset_fits_def split: tree_item.splits)

interpretation review_code: byte_code enc_part part_fits
proof
  fix x y s t
  assume fit: "part_fits x" "part_fits y" and eq: "enc_part x @ s = enc_part y @ t"
  obtain r where r: "enc_part x = enc_field (fst (part_head x)) (snd (part_head x)) @ r" using enc_part_head by blast
  obtain q where q: "enc_part y = enc_field (fst (part_head y)) (snd (part_head y)) @ q" using enc_part_head by blast
  from eq r q have "enc_field (fst (part_head x)) (snd (part_head x)) @ (r @ s)
      = enc_field (fst (part_head y)) (snd (part_head y)) @ (q @ t)" by simp
  from enc_field_inj [OF this] part_head_fits fit have head: "part_head x = part_head y" by (simp add: prod_eq_iff)
  show "x = y \<and> s = t"
  proof (cases x)
    case x: (HeaderPart l b)
    with head fit have "y = HeaderPart l b" by (cases y) (auto simp: part_head_def split: tree_item.splits)
    with x eq show ?thesis by simp
  next
    case x: (TreePart i)
    with head fit obtain j where "y = TreePart j" by (cases y) (auto simp: part_head_def split: tree_item.splits)
    with x eq fit enc_item_inj [of i s j t] show ?thesis by simp
  next
    case x: (AssetPart a)
    with head fit obtain b where y: "y = AssetPart b" by (cases y) (auto simp: part_head_def split: tree_item.splits)
    have "length (asset_fields a) = length (asset_fields b)" by (simp add: asset_fields_def)
    with enc_fields_inj [of "asset_fields a" s "asset_fields b" t] x y eq fit asset_fields_fit
    have "asset_fields a = asset_fields b \<and> s = t" by auto
    with x y fit asset_fields_inj show ?thesis by auto
  qed
next
  fix x
  assume "part_fits x"
  obtain r where "enc_part x = enc_field (fst (part_head x)) (snd (part_head x)) @ r" using enc_part_head by blast
  then show "enc_part x \<noteq> []" using length_be64 by (auto simp: enc_field_def be64_def)
qed

section \<open>Equal digests mean equal content\<close>

text \<open>The byte streams that the two digests hash.\<close>

definition runtime_parts :: "string \<Rightarrow> tree_item list \<Rightarrow> review_part list" where
  "runtime_parts json items =
     HeaderPart ''format'' ''agentics-review_record-runtime-review-v1'' # HeaderPart ''manifest'' json # map TreePart items"

definition review_parts :: "string \<Rightarrow> tree_item list \<Rightarrow> reviewed_asset list \<Rightarrow> review_part list" where
  "review_parts json items assets =
     HeaderPart ''format'' ''agentics-review_record-review-v1'' # HeaderPart ''manifest'' json
       # map TreePart items @ map AssetPart (sort_by (\<lambda>a b. compare_bytes (ra_name a) (ra_name b)) assets)"

definition enc_parts :: "review_part list \<Rightarrow> string" where
  "enc_parts ps = concat (map enc_part ps)"

lemma enc_tree_parts: "concat (map enc_part (map TreePart items)) = concat (map enc_item items)"
  by (simp add: comp_def)

lemma runtime_digest_parts:
  assumes "challenge_review_runtime_bundle_sha256_blocking sha256 to_json utf8 runtime_root read_tree m = Inr d"
  shows "\<exists>json es items. to_json m = Inr json \<and> read_tree runtime_root = Inr es \<and> set items = set (tree_items [] es)
    \<and> d = sha256 (enc_parts (runtime_parts json items))"
proof -
  from assms obtain json es h where *: "to_json m = Inr json" "read_tree runtime_root = Inr es"
    "hash_public_tree utf8 runtime_root es (hash_field ''manifest'' json (hash_field ''format'' ''agentics-review_record-runtime-review-v1'' [])) = Inr h"
    "d = sha256 h"
    by (auto simp: challenge_review_runtime_bundle_sha256_blocking_def Let_def result_simps)
  from hash_public_tree_items [OF *(3)] obtain items where "set items = set (tree_items [] es)"
    "h = hash_field ''manifest'' json (hash_field ''format'' ''agentics-review_record-runtime-review-v1'' []) @ concat (map enc_item items)"
    by blast
  with * show ?thesis
    by (intro exI [of _ json] exI [of _ es] exI [of _ items])
      (simp add: enc_parts_def runtime_parts_def hash_field_append comp_def)
qed

lemma runtime_parts_inj:
  assumes "enc_parts (runtime_parts j1 i1) = enc_parts (runtime_parts j2 i2)"
    and "fits j1" "fits j2" "\<forall>i \<in> set i1 \<union> set i2. item_fits i"
  shows "j1 = j2 \<and> i1 = i2"
proof -
  have fit: "\<forall>p \<in> set (runtime_parts j i). part_fits p" if "fits j" "\<forall>x \<in> set i. item_fits x" for j i
    using that by (auto simp: runtime_parts_def fits_small)
  have "runtime_parts j1 i1 = runtime_parts j2 i2"
    by (rule review_code.sequence_inj) (use assms fit in \<open>auto simp: enc_parts_def\<close>)
  moreover have "inj TreePart" by (simp add: inj_def)
  ultimately show ?thesis by (simp add: runtime_parts_def inj_map_eq_map)
qed

lemma review_digest_parts:
  assumes "challenge_review_bundle_sha256_blocking sha256 to_json utf8 proposal_root read_tree m assets = Inr d"
  shows "\<exists>json items. to_json m = Inr json
    \<and> (case cm_bundle_path m of None \<Rightarrow> items = []
       | Some p \<Rightarrow> \<exists>es. read_tree (path_join proposal_root p) = Inr es \<and> set items = set (tree_items [] es))
    \<and> d = sha256 (enc_parts (review_parts json items assets))"
proof -
  have assets_append: "foldl (\<lambda>h a. hash_asset a h) h as = h @ concat (map enc_part (map AssetPart as))" for h as
    by (induction as arbitrary: h) (simp_all add: hash_asset_append)
  from assms obtain json h where *: "to_json m = Inr json"
    "(case cm_bundle_path m of
        None \<Rightarrow> Inr (hash_field ''manifest'' json (hash_field ''format'' ''agentics-review_record-review-v1'' []))
      | Some p \<Rightarrow> and_then (read_tree (path_join proposal_root p)) (\<lambda>es. hash_public_tree utf8 (path_join proposal_root p) es
          (hash_field ''manifest'' json (hash_field ''format'' ''agentics-review_record-review-v1'' [])))) = Inr h"
    "d = sha256 (h @ concat (map enc_part (map AssetPart (sort_by (\<lambda>a b. compare_bytes (ra_name a) (ra_name b)) assets))))"
    by (auto simp: challenge_review_bundle_sha256_blocking_def Let_def result_simps assets_append)
  from *(2) obtain items where
    "case cm_bundle_path m of None \<Rightarrow> items = []
       | Some p \<Rightarrow> \<exists>es. read_tree (path_join proposal_root p) = Inr es \<and> set items = set (tree_items [] es)"
    "h = hash_field ''manifest'' json (hash_field ''format'' ''agentics-review_record-review-v1'' []) @ concat (map enc_item items)"
    by (cases "cm_bundle_path m") (auto simp: and_then_eq_Inr dest!: hash_public_tree_items)
  with * show ?thesis
    by (intro exI [of _ json] exI [of _ items]) (simp add: enc_parts_def review_parts_def hash_field_append comp_def)
qed

lemma review_parts_inj:
  assumes eq: "enc_parts (review_parts j1 i1 a1) = enc_parts (review_parts j2 i2 a2)"
    and "fits j1" "fits j2" "\<forall>i \<in> set i1 \<union> set i2. item_fits i" "\<forall>a \<in> set a1 \<union> set a2. asset_fits a"
  shows "j1 = j2 \<and> i1 = i2 \<and> set a1 = set a2"
proof -
  have fit: "\<forall>p \<in> set (review_parts j i a). part_fits p"
    if "fits j" "\<forall>x \<in> set i. item_fits x" "\<forall>x \<in> set a. asset_fits x" for j i a
    using that by (auto simp: review_parts_def fits_small)
  from fit assms(2-5) have "\<forall>p \<in> set (review_parts j1 i1 a1). part_fits p" "\<forall>p \<in> set (review_parts j2 i2 a2). part_fits p"
    by blast+
  with eq have parts: "review_parts j1 i1 a1 = review_parts j2 i2 a2"
    unfolding enc_parts_def by (intro review_code.sequence_inj)
  let ?cmp = "\<lambda>a b. compare_bytes (ra_name a) (ra_name b)"
  have tree: "List.map_filter (\<lambda>p. case p of TreePart i \<Rightarrow> Some i | _ \<Rightarrow> None) (review_parts j i a) = i" for j i a
    by (simp add: review_parts_def List.map_filter_def comp_def filter_empty_conv filter_True)
  have asset: "{x. AssetPart x \<in> set (review_parts j i a)} = set a" for j i a
    by (auto simp: review_parts_def)
  from parts have "j1 = j2" by (simp add: review_parts_def)
  with tree [of j1 i1 a1] tree [of j2 i2 a2] asset [of j1 i1 a1] asset [of j2 i2 a2] parts show ?thesis by simp
qed

section \<open>Guarantees\<close>

text \<open>
  C20. A reviewer approves content, not a name: two runtime bundles with the same review digest have the
  same manifest and the same directories and files with the same contents, in whatever order the file
  system lists them, unless the two byte streams that were hashed are a collision of SHA-256.
\<close>

theorem review_digest_identifies_content:
  assumes d1: "challenge_review_runtime_bundle_sha256_blocking sha256 to_json utf8 root1 read_tree m1 = Inr d"
    and d2: "challenge_review_runtime_bundle_sha256_blocking sha256 to_json utf8 root2 read_tree m2 = Inr d"
    and json: "to_json m1 = Inr j1" "to_json m2 = Inr j2"
    and trees: "read_tree root1 = Inr t1" "read_tree root2 = Inr t2"
    and sizes: "fits j1" "fits j2" "\<forall>i \<in> set (tree_items [] t1) \<union> set (tree_items [] t2). item_fits i"
  shows "(j1 = j2 \<and> set (tree_items [] t1) = set (tree_items [] t2))
    \<or> (\<exists>i1 i2. set i1 = set (tree_items [] t1) \<and> set i2 = set (tree_items [] t2)
        \<and> enc_parts (runtime_parts j1 i1) \<noteq> enc_parts (runtime_parts j2 i2)
        \<and> sha256 (enc_parts (runtime_parts j1 i1)) = sha256 (enc_parts (runtime_parts j2 i2)))"
proof -
  from runtime_digest_parts [OF d1] json trees obtain i1 where 1: "set i1 = set (tree_items [] t1)"
    "d = sha256 (enc_parts (runtime_parts j1 i1))" by auto
  from runtime_digest_parts [OF d2] json trees obtain i2 where 2: "set i2 = set (tree_items [] t2)"
    "d = sha256 (enc_parts (runtime_parts j2 i2))" by auto
  show ?thesis
  proof (cases "enc_parts (runtime_parts j1 i1) = enc_parts (runtime_parts j2 i2)")
    case True
    with runtime_parts_inj [OF True sizes(1,2)] sizes(3) 1 2 show ?thesis by simp
  next
    case False
    with 1 2 show ?thesis by metis
  qed
qed

text \<open>
  The check of a proposal's checkout accepts it exactly when no file or directory outside \<open>.git\<close>, at
  any depth, has a forbidden name or is a symbolic link.
\<close>

lemma public_repository_check_iff:
  "reject_private_files dir es = Inr () \<longleftrightarrow> clean_entries es"
  unfolding reject_private_files_def reject_loop_clean by simp

definition sample_manifest :: creation_manifest where
  "sample_manifest = \<lparr>cm_schema_version = 1, cm_request = NewChallenge, cm_challenge_name = ''sample-sum'', cm_title = ''Sample Sum'',
     cm_summary = \<lparr>lt_en = ''Add numbers'', lt_zh = ''Sum''\<rparr>, cm_keywords = [''arithmetic''], cm_readme_path = ''README.md'',
     cm_bundle_path = Some ''v1'', cm_archive_reason = None, cm_private_assets = [], cm_ci = default_ci_spec\<rparr>"

definition sample_tree :: "string \<Rightarrow> fs_entries result" where
  "sample_tree p = (if p = ''a'' then Inr [(''s'', FsFile ''x''), (''d'', FsDir [(''e'', FsFile [])])]
     else Inr [(''d'', FsDir [(''e'', FsFile [])]), (''s'', FsFile ''x'')])"

theorem review_digest_identifies_content_witness:
  "let digest = (\<lambda>r. challenge_review_runtime_bundle_sha256_blocking id (\<lambda>m. Inr (cm_title m)) (\<lambda>_. True) r sample_tree sample_manifest)
   in digest ''a'' = digest ''b'' \<and> is_ok (digest ''a'')
    \<and> set (tree_items [] (projr (sample_tree ''a''))) = set (tree_items [] (projr (sample_tree ''b'')))"
proof -
  let ?digest = "\<lambda>r. challenge_review_runtime_bundle_sha256_blocking id (\<lambda>m. Inr (cm_title m)) (\<lambda>_. True) r sample_tree sample_manifest"
  have sort: "sort_entries [(''s'', FsFile ''x''), (''d'', FsDir [(''e'', FsFile [])])] = [(''d'', FsDir [(''e'', FsFile [])]), (''s'', FsFile ''x'')]"
    "sort_entries [(''d'', FsDir [(''e'', FsFile [])]), (''s'', FsFile ''x'')] = [(''d'', FsDir [(''e'', FsFile [])]), (''s'', FsFile ''x'')]"
    "sort_entries [(''e'', FsFile [])] = [(''e'', FsFile [])]"
    by (simp_all add: sort_entries_def cmp_lin_def byte_of_def)
  have eq: "?digest ''a'' = ?digest ''b''"
    by (simp add: challenge_review_runtime_bundle_sha256_blocking_def sample_tree_def hash_public_tree_def sort Let_def)
  obtain d where d: "?digest ''b'' = Inr d"
    by (simp add: challenge_review_runtime_bundle_sha256_blocking_def sample_tree_def hash_public_tree_def sort Let_def)
  have trees: "sample_tree ''a'' = Inr (projr (sample_tree ''a''))" "sample_tree ''b'' = Inr (projr (sample_tree ''b''))"
    by (simp_all add: sample_tree_def)
  have fit: "fits ''Sample Sum''"
    "\<forall>i \<in> set (tree_items [] (projr (sample_tree ''a''))) \<union> set (tree_items [] (projr (sample_tree ''b''))). item_fits i"
    by (simp_all add: fits_small sample_tree_def tree_items_def rel_join_def)
  have json: "(\<lambda>m. Inr (cm_title m)) sample_manifest = (Inr ''Sample Sum'' :: string result)"
    by (simp add: sample_manifest_def)
  from review_digest_identifies_content [OF _ d json json trees fit(1,1,2)] eq d
  show ?thesis by (auto simp: Let_def)
qed

end
