(* ===== verification/Archive_Envelope.thy ===== *)
theory Archive_Envelope
  imports Review_Digest
begin

text \<open>
  ZIP archives of untrusted origin, \<open>crates/contracts/src/validation/archive.rs\<close>: the envelope check and
  the extraction of a checked archive below a directory. The ZIP reader is an argument: an archive is the
  list of what \<open>by_index\<close> returns, an error or the metadata of an entry with the bytes that reading it
  yields and the error that ends the reading, if one does. The file
  system is a map from absolute paths (lists of components) to files and directories without symbolic
  links; the directories that archives are extracted to are freshly assembled from trees in which symbolic
  links were refused.
\<close>

unbundle bit_operations_syntax

section \<open>Policy and paths\<close>

record archive_policy =
  pol_label :: string
  pol_max_archive_bytes :: nat
  pol_max_entries :: nat
  pol_max_expanded_bytes :: nat
  pol_reject_symlinks :: bool

definition archive_policy_new :: "string \<Rightarrow> nat \<Rightarrow> nat \<Rightarrow> nat \<Rightarrow> archive_policy" where
  "archive_policy_new label max_archive max_entries max_expanded =
     \<lparr>pol_label = label, pol_max_archive_bytes = max_archive, pol_max_entries = max_entries,
      pol_max_expanded_bytes = max_expanded, pol_reject_symlinks = True\<rparr>"

datatype challenge_validation_error =
  ArchiveTraversal string | InvalidManifest string | UnsafePath string | UnsupportedTarget string

fun service_error_of_validation :: "challenge_validation_error \<Rightarrow> service_error" where
  "service_error_of_validation (ArchiveTraversal m) = ValidationErr (''archive traversal rejected: '' @ m)"
| "service_error_of_validation (InvalidManifest m) = ValidationErr (''invalid manifest: '' @ m)"
| "service_error_of_validation (UnsafePath m) = ValidationErr (''unsafe path rejected: '' @ m)"
| "service_error_of_validation (UnsupportedTarget m) = ValidationErr (''unsupported target: '' @ m)"

definition is_separator :: "char \<Rightarrow> bool" where
  "is_separator c = (c = CHR ''/'' \<or> c = CHR 0x5C)"

fun split_separators :: "string \<Rightarrow> string list" where
  "split_separators [] = [[]]"
| "split_separators (c # cs) =
     (if is_separator c then [] # split_separators cs
      else (case split_separators cs of [] \<Rightarrow> [[c]] | p # ps \<Rightarrow> (c # p) # ps))"

definition trim_separators :: "string \<Rightarrow> string" where
  "trim_separators s = rev (dropWhile is_separator (rev (dropWhile is_separator s)))"

definition unsafe_part :: "string \<Rightarrow> bool" where
  "unsafe_part p = (p = [] \<or> p = ''.'' \<or> p = ''..'')"

text \<open>The normalised path as its components; the code joins them with slashes.\<close>

definition normalized_archive_path :: "string \<Rightarrow> string \<Rightarrow> string list result" where
  "normalized_archive_path raw label =
     (if raw = [] \<or> CHR 0x00 \<in> set raw \<or> is_separator (hd raw)
      then Inl (service_error_of_validation (ArchiveTraversal (label @ '' contains an unsafe ZIP entry path'')))
      else if trim_separators raw = []
      then Inl (service_error_of_validation (ArchiveTraversal (label @ '' contains an unsafe ZIP entry path'')))
      else (let parts = split_separators (trim_separators raw)
            in if list_ex unsafe_part parts
               then Inl (service_error_of_validation (UnsafePath (label @ '' contains unsafe path `'' @ raw @ ''`'')))
               else Inr parts))"

text \<open>Components of a local path; \<open>None\<close> is a component that is not UTF-8.\<close>

datatype local_component =
  NormalComponent "string option" | CurDirComponent | ParentDirComponent | RootDirComponent | PrefixComponent

fun relative_parts :: "string \<Rightarrow> string \<Rightarrow> local_component list \<Rightarrow> string list result" where
  "relative_parts display label [] = Inr []"
| "relative_parts display label (c # cs) =
     (case c of
        NormalComponent None \<Rightarrow> Inl (ValidationErr (label @ '' contains a path that is not valid UTF-8: '' @ display))
      | NormalComponent (Some v) \<Rightarrow> and_then (relative_parts display label cs) (\<lambda>ps. Inr (v # ps))
      | CurDirComponent \<Rightarrow> relative_parts display label cs
      | _ \<Rightarrow> Inl (service_error_of_validation (UnsafePath (label @ '' contains unsafe path `'' @ display @ ''`''))))"

definition from_relative_path :: "string \<Rightarrow> local_component list \<Rightarrow> string \<Rightarrow> string list result" where
  "from_relative_path display cs label =
     and_then (relative_parts display label cs) (\<lambda>ps. normalized_archive_path (join_with (CHR ''/'') ps) label)"

section \<open>Inspection\<close>

record zip_file =
  zf_name :: string
  zf_unix_mode :: "nat option"
  zf_is_dir :: bool
  zf_size :: nat
  zf_compressed_size :: nat
  zf_content :: string
  zf_read_error :: "service_error option"

type_synonym zip_archive = "zip_file result list"

record envelope_entry =
  en_index :: nat
  en_path :: "string list"
  en_is_dir :: bool
  en_size :: nat
  en_compressed_size :: nat

record archive_envelope =
  av_label :: string
  av_archive_size :: nat
  av_expanded_size :: nat
  av_entries :: "envelope_entry list"

definition is_symlink_mode :: "nat \<Rightarrow> bool" where
  "is_symlink_mode mode = (mode AND 61440 = 40960)"

definition path_text :: "string list \<Rightarrow> string" where
  "path_text parts = join_with (CHR ''/'') parts"

definition ensure_archive_size :: "nat \<Rightarrow> archive_policy \<Rightarrow> unit result" where
  "ensure_archive_size archive_size pol =
     guard_err (archive_size > pol_max_archive_bytes pol)
       (ValidationErr (pol_label pol @ '' must be at most '' @ show_nat (pol_max_archive_bytes pol) @ '' bytes''))"

text \<open>The loop over the entries: paths seen so far, total size so far, entries in reverse.\<close>

fun inspect_entries :: "archive_policy \<Rightarrow> nat \<Rightarrow> string list set \<Rightarrow> nat \<Rightarrow> zip_archive \<Rightarrow> (nat \<times> envelope_entry list) result" where
  "inspect_entries pol i seen used [] = Inr (used, [])"
| "inspect_entries pol i seen used (z # zs) =
     and_then z (\<lambda>f.
     and_then (guard_err (pol_reject_symlinks pol \<and> (case zf_unix_mode f of None \<Rightarrow> False | Some m \<Rightarrow> is_symlink_mode m))
       (ValidationErr (pol_label pol @ '' must not contain symlinks''))) (\<lambda>_.
     and_then (normalized_archive_path (zf_name f) (pol_label pol)) (\<lambda>path.
     and_then (guard_err (path \<in> seen) (ValidationErr (pol_label pol @ '' contains duplicate path `'' @ path_text path @ ''`''))) (\<lambda>_.
     and_then (ok_or (ValidationErr (pol_label pol @ '' is too large'')) (checked_add_u64 used (zf_size f))) (\<lambda>used'.
     and_then (guard_err (used' > pol_max_expanded_bytes pol)
       (ValidationErr (pol_label pol @ '' must expand to at most '' @ show_nat (pol_max_expanded_bytes pol) @ '' bytes''))) (\<lambda>_.
     and_then (inspect_entries pol (Suc i) (insert path seen) used' zs) (\<lambda>(t, es).
     Inr (t, \<lparr>en_index = i, en_path = path, en_is_dir = zf_is_dir f, en_size = zf_size f,
               en_compressed_size = zf_compressed_size f\<rparr> # es))))))))"

definition inspect_zip_archive :: "nat \<Rightarrow> zip_archive \<Rightarrow> archive_policy \<Rightarrow> archive_envelope result" where
  "inspect_zip_archive archive_size arch pol =
     and_then (guard_err (length arch > pol_max_entries pol)
       (ValidationErr (pol_label pol @ '' must contain at most '' @ show_nat (pol_max_entries pol) @ '' entries''))) (\<lambda>_.
     and_then (inspect_entries pol 0 {} 0 arch) (\<lambda>(used, es).
     Inr \<lparr>av_label = pol_label pol, av_archive_size = archive_size, av_expanded_size = used, av_entries = es\<rparr>))"

text \<open>\<open>zip_open\<close> is \<open>ZipArchive::new\<close>.\<close>

definition inspect_zip_bytes :: "(string \<Rightarrow> zip_archive result) \<Rightarrow> string \<Rightarrow> archive_policy \<Rightarrow> archive_envelope result" where
  "inspect_zip_bytes zip_open bytes pol =
     and_then (guard_err (length bytes > u64_max) (ValidationErr (pol_label pol @ '' is too large''))) (\<lambda>_.
     and_then (ensure_archive_size (length bytes) pol) (\<lambda>_.
     and_then (zip_open bytes) (\<lambda>arch.
     inspect_zip_archive (length bytes) arch pol)))"

text \<open>On disk: the length from the metadata and the archive that opening the file gives.\<close>

definition inspect_zip_file :: "nat result \<Rightarrow> zip_archive result \<Rightarrow> archive_policy \<Rightarrow> archive_envelope result" where
  "inspect_zip_file metadata_len opened pol =
     and_then metadata_len (\<lambda>archive_size.
     and_then (ensure_archive_size archive_size pol) (\<lambda>_.
     and_then opened (\<lambda>arch.
     inspect_zip_archive archive_size arch pol)))"

section \<open>Extraction\<close>

datatype fs_item = ItemFile string | ItemDir

type_synonym file_system = "string list \<rightharpoonup> fs_item"

text \<open>
  \<open>create_dir_all\<close>: the components from the root on, of which a prefix has been seen to exist; it stops at
  a component that is a file.
\<close>

fun create_dir_all :: "string list \<Rightarrow> string list \<Rightarrow> file_system \<Rightarrow> unit result \<times> file_system" where
  "create_dir_all seen [] fs = (Inr (), fs)"
| "create_dir_all seen (p # ps) fs =
     (case fs (seen @ [p]) of
        Some (ItemFile _) \<Rightarrow> (Inl (Io ''not a directory''), fs)
      | Some ItemDir \<Rightarrow> create_dir_all (seen @ [p]) ps fs
      | None \<Rightarrow> create_dir_all (seen @ [p]) ps (fs(seen @ [p] \<mapsto> ItemDir)))"

text \<open>
  One entry: \<open>create_new\<close> cannot meet an existing file after the \<open>exists\<close> check, since directories are all
  that is created in between.
\<close>

definition extract_entry :: "string \<Rightarrow> zip_archive \<Rightarrow> string list \<Rightarrow> envelope_entry \<Rightarrow> file_system \<Rightarrow> unit result \<times> file_system" where
  "extract_entry label arch dest e fs =
     (case arch ! en_index e of
        Inl err \<Rightarrow> (Inl err, fs)
      | Inr f \<Rightarrow>
          (let out = dest @ en_path e
           in if en_is_dir e then create_dir_all [] out fs
              else if fs out \<noteq> None
              then (Inl (ValidationErr (label @ '' cannot overwrite existing path `'' @ path_text (en_path e) @ ''`'')), fs)
              else (case create_dir_all [] (butlast out) fs of
                      (Inl err, fs1) \<Rightarrow> (Inl err, fs1)
                    | (Inr _, fs1) \<Rightarrow>
                        (let fs2 = fs1(out \<mapsto> ItemFile (zf_content f))
                         in case zf_read_error f of
                              Some err \<Rightarrow> (Inl err, fs2)
                            | None \<Rightarrow>
                                if length (zf_content f) \<noteq> en_size e
                                then (Inl (ValidationErr (label @ '' entry `'' @ path_text (en_path e) @ ''` extracted ''
                                  @ show_nat (length (zf_content f)) @ '' bytes, expected '' @ show_nat (en_size e) @ '' bytes'')), fs2)
                                else (Inr (), fs2)))))"

fun extract_entries :: "string \<Rightarrow> zip_archive \<Rightarrow> string list \<Rightarrow> envelope_entry list \<Rightarrow> file_system \<Rightarrow> unit result \<times> file_system" where
  "extract_entries label arch dest [] fs = (Inr (), fs)"
| "extract_entries label arch dest (e # es) fs =
     (case extract_entry label arch dest e fs of
        (Inl err, fs1) \<Rightarrow> (Inl err, fs1)
      | (Inr _, fs1) \<Rightarrow> extract_entries label arch dest es fs1)"

definition extract_validated_zip_archive :: "zip_archive \<Rightarrow> archive_envelope \<Rightarrow> string list \<Rightarrow> file_system \<Rightarrow> unit result \<times> file_system" where
  "extract_validated_zip_archive arch env dest fs = extract_entries (av_label env) arch dest (av_entries env) fs"

definition extract_zip_bytes_to_dir ::
  "(string \<Rightarrow> zip_archive result) \<Rightarrow> string \<Rightarrow> string list \<Rightarrow> archive_policy \<Rightarrow> file_system \<Rightarrow> unit result \<times> file_system" where
  "extract_zip_bytes_to_dir zip_open bytes dest pol fs =
     (case and_then (guard_err (length bytes > u64_max) (ValidationErr (pol_label pol @ '' is too large''))) (\<lambda>_.
           and_then (ensure_archive_size (length bytes) pol) (\<lambda>_.
           and_then (zip_open bytes) (\<lambda>arch.
           and_then (inspect_zip_archive (length bytes) arch pol) (\<lambda>env. Inr (arch, env))))) of
        Inl e \<Rightarrow> (Inl e, fs)
      | Inr (arch, env) \<Rightarrow> extract_validated_zip_archive arch env dest fs)"

definition extract_zip_file_to_dir ::
  "nat result \<Rightarrow> zip_archive result \<Rightarrow> string list \<Rightarrow> archive_policy \<Rightarrow> file_system \<Rightarrow> unit result \<times> file_system" where
  "extract_zip_file_to_dir metadata_len opened dest pol fs =
     (case and_then metadata_len (\<lambda>archive_size.
           and_then (ensure_archive_size archive_size pol) (\<lambda>_.
           and_then opened (\<lambda>arch.
           and_then (inspect_zip_archive archive_size arch pol) (\<lambda>env. Inr (arch, env))))) of
        Inl e \<Rightarrow> (Inl e, fs)
      | Inr (arch, env) \<Rightarrow> extract_validated_zip_archive arch env dest fs)"

section \<open>What inspection establishes\<close>

definition safe_path :: "string list \<Rightarrow> bool" where
  "safe_path parts = (parts \<noteq> [] \<and> (\<forall>p \<in> set parts. p \<noteq> [] \<and> p \<noteq> ''.'' \<and> p \<noteq> ''..'' \<and> list_all (\<lambda>c. \<not> is_separator c) p))"

lemma split_separators_nonempty: "split_separators s \<noteq> []"
  by (cases s) (auto split: list.splits)

lemma split_separators_clean: "p \<in> set (split_separators s) \<Longrightarrow> list_all (\<lambda>c. \<not> is_separator c) p"
  by (induction s arbitrary: p) (auto split: if_splits list.splits)

lemma normalized_path_safe: "normalized_archive_path raw label = Inr parts \<Longrightarrow> safe_path parts"
  using split_separators_clean split_separators_nonempty
  by (auto simp: normalized_archive_path_def safe_path_def Let_def list_ex_iff unsafe_part_def split: if_splits)

text \<open>An envelope entry describes the file of the archive that it was made from.\<close>

definition describes :: "archive_policy \<Rightarrow> envelope_entry \<Rightarrow> zip_file \<Rightarrow> bool" where
  "describes pol e f =
     (normalized_archive_path (zf_name f) (pol_label pol) = Inr (en_path e) \<and> en_size e = zf_size f \<and> en_is_dir e = zf_is_dir f
      \<and> (pol_reject_symlinks pol \<longrightarrow> (\<forall>m. zf_unix_mode f = Some m \<longrightarrow> \<not> is_symlink_mode m)))"

lemma describes_safe: "describes pol e f \<Longrightarrow> safe_path (en_path e)"
  by (auto simp: describes_def intro: normalized_path_safe)

lemma inspect_entries_ok:
  assumes "inspect_entries pol i seen used arch = Inr (t, es)"
  shows "length es = length arch \<and> t = used + sum_list (map en_size es) \<and> (es \<noteq> [] \<longrightarrow> t \<le> pol_max_expanded_bytes pol)
    \<and> distinct (map en_path es) \<and> en_path ` set es \<inter> seen = {}
    \<and> (\<forall>k < length arch. en_index (es ! k) = i + k \<and> (\<exists>f. arch ! k = Inr f \<and> describes pol (es ! k) f))"
  using assms
proof (induction arch arbitrary: i seen used t es)
  case (Cons z zs)
  from Cons.prems obtain f path used' t' es' where z: "z = Inr f"
    and sym: "\<not> (pol_reject_symlinks pol \<and> (case zf_unix_mode f of None \<Rightarrow> False | Some m \<Rightarrow> is_symlink_mode m))"
    and path: "normalized_archive_path (zf_name f) (pol_label pol) = Inr path" and new: "path \<notin> seen"
    and add: "checked_add_u64 used (zf_size f) = Some used'" and le: "used' \<le> pol_max_expanded_bytes pol"
    and rest: "inspect_entries pol (Suc i) (insert path seen) used' zs = Inr (t', es')"
    and t: "t = t'" and es: "es = \<lparr>en_index = i, en_path = path, en_is_dir = zf_is_dir f, en_size = zf_size f,
       en_compressed_size = zf_compressed_size f\<rparr> # es'"
    by (auto simp: result_simps not_less)
  have used': "used' = used + zf_size f" using add by (simp add: checked_add_u64_def split: if_splits)
  note IH = Cons.IH [OF rest]
  have sum: "t = used + sum_list (map en_size es)" using IH t es used' by simp
  have le': "t \<le> pol_max_expanded_bytes pol" using IH t le by (cases es') auto
  have head: "describes pol (es ! 0) f" using sym path by (auto simp: describes_def es split: option.splits)
  have idx: "en_index (es ! k) = i + k \<and> (\<exists>f. (z # zs) ! k = Inr f \<and> describes pol (es ! k) f)" if "k < length (z # zs)" for k
    using that IH z head by (cases k) (auto simp: es)
  show ?case using IH sum le' idx new by (auto simp: es)
qed simp

text \<open>What an accepted envelope says of its archive.\<close>

definition envelope_of :: "archive_policy \<Rightarrow> zip_archive \<Rightarrow> archive_envelope \<Rightarrow> bool" where
  "envelope_of pol arch env =
     (length (av_entries env) = length arch \<and> length arch \<le> pol_max_entries pol
      \<and> sum_list (map en_size (av_entries env)) \<le> pol_max_expanded_bytes pol
      \<and> distinct (map en_path (av_entries env))
      \<and> (\<forall>k < length arch. en_index (av_entries env ! k) = k \<and> (\<exists>f. arch ! k = Inr f \<and> describes pol (av_entries env ! k) f)))"

lemma inspect_ok:
  assumes "inspect_zip_archive n arch pol = Inr env"
  shows "envelope_of pol arch env"
proof -
  from assms obtain t es where es: "inspect_entries pol 0 {} 0 arch = Inr (t, es)"
    and env: "av_entries env = es" "av_expanded_size env = t" and le: "length arch \<le> pol_max_entries pol"
    by (auto simp: inspect_zip_archive_def result_simps not_less)
  note ok = inspect_entries_ok [OF es]
  have "sum_list (map en_size es) \<le> pol_max_expanded_bytes pol" using ok by (cases "es = []") simp_all
  then show ?thesis using ok env le by (simp add: envelope_of_def)
qed

section \<open>What extraction may touch\<close>

text \<open>Nothing that exists changes; what is new lies on the way to, or at, one of the paths.\<close>

definition only_adds :: "string list set \<Rightarrow> file_system \<Rightarrow> file_system \<Rightarrow> bool" where
  "only_adds paths fs fs' = (\<forall>p. fs' p \<noteq> fs p \<longrightarrow> fs p = None \<and> p \<noteq> [] \<and> (\<exists>r. p @ r \<in> paths))"

lemma only_adds_refl: "only_adds paths fs fs"
  by (simp add: only_adds_def)

lemma only_adds_trans: "only_adds A fs fs1 \<Longrightarrow> only_adds A fs1 fs2 \<Longrightarrow> only_adds A fs fs2"
  unfolding only_adds_def by metis

lemma only_adds_mono: "only_adds A fs fs' \<Longrightarrow> A \<subseteq> B \<Longrightarrow> only_adds B fs fs'"
  unfolding only_adds_def by blast

lemma only_adds_upd: "fs p = None \<Longrightarrow> p \<noteq> [] \<Longrightarrow> p @ r \<in> A \<Longrightarrow> only_adds A fs (fs(p \<mapsto> i))"
  unfolding only_adds_def by auto

lemma only_adds_keeps: "only_adds A fs fs' \<Longrightarrow> fs p = Some i \<Longrightarrow> fs' p = Some i"
  unfolding only_adds_def by (metis option.distinct(1))

lemma create_dir_all_adds:
  "create_dir_all seen ps fs = (res, fs') \<Longrightarrow> seen @ ps @ r \<in> A \<Longrightarrow> only_adds A fs fs'"
proof (induction ps arbitrary: seen fs)
  case (Cons p ps)
  have in_A: "(seen @ [p]) @ ps @ r \<in> A" using Cons.prems by simp
  show ?case
  proof (cases "fs (seen @ [p])")
    case None
    have "only_adds A fs (fs(seen @ [p] \<mapsto> ItemDir))" using only_adds_upd [of fs "seen @ [p]" "ps @ r" A] None in_A by simp
    moreover have "only_adds A (fs(seen @ [p] \<mapsto> ItemDir)) fs'" using Cons.IH [OF _ in_A] Cons.prems(1) None by simp
    ultimately show ?thesis by (rule only_adds_trans)
  next
    case (Some i)
    then show ?thesis using Cons.IH [OF _ in_A] Cons.prems(1) by (cases i) (auto simp: only_adds_refl)
  qed
qed (simp add: only_adds_refl)

lemma create_dir_all_result:
  "create_dir_all seen ps fs = (Inr u, fs') \<Longrightarrow> ps \<noteq> [] \<Longrightarrow> fs' (seen @ ps) = Some ItemDir"
proof (induction ps arbitrary: seen fs)
  case (Cons p ps)
  obtain fs1 where run: "create_dir_all (seen @ [p]) ps fs1 = (Inr u, fs')" and here: "fs1 (seen @ [p]) = Some ItemDir"
    and IH: "ps \<noteq> [] \<Longrightarrow> fs' ((seen @ [p]) @ ps) = Some ItemDir"
  proof (cases "fs (seen @ [p])")
    case None
    then have run: "create_dir_all (seen @ [p]) ps (fs(seen @ [p] \<mapsto> ItemDir)) = (Inr u, fs')" using Cons.prems by simp
    show thesis using that [OF run] Cons.IH [OF run] by simp
  next
    case (Some i)
    then show thesis using Cons.IH [of "seen @ [p]" fs] Cons.prems that [of fs] by (cases i) simp_all
  qed
  have "fs' (seen @ [p]) = Some ItemDir"
    using only_adds_keeps [OF create_dir_all_adds [OF run, of "[]" UNIV]] here by simp
  then show ?case using IH by (cases "ps = []") simp_all
qed simp

lemma create_dir_all_only_dirs:
  "create_dir_all seen ps fs = (res, fs') \<Longrightarrow> length p > length seen + length ps \<Longrightarrow> fs' p = fs p"
proof (induction ps arbitrary: seen fs)
  case (Cons q ps)
  show ?case
  proof (cases "fs (seen @ [q])")
    case None
    then have run: "create_dir_all (seen @ [q]) ps (fs(seen @ [q] \<mapsto> ItemDir)) = (res, fs')" using Cons.prems by simp
    show ?thesis using Cons.IH [OF run] Cons.prems(2) by auto
  next
    case (Some i)
    then show ?thesis using Cons by (cases i) simp_all
  qed
qed simp

text \<open>One entry: what it adds, and what it leaves when it succeeds.\<close>

lemma extract_entry_adds:
  assumes run: "extract_entry label arch dest e fs = (res, fs')" and path: "en_path e \<noteq> []" and mem: "dest @ en_path e \<in> A"
  shows "only_adds A fs fs'"
proof (cases "arch ! en_index e")
  case (Inr f)
  show ?thesis
  proof (cases "en_is_dir e")
    case True
    then show ?thesis using run Inr create_dir_all_adds [of "[]" "dest @ en_path e" fs res fs' "[]" A] mem by (simp add: extract_entry_def)
  next
    case False
    show ?thesis
    proof (cases "fs (dest @ en_path e) = None")
      case True
      obtain r fs1 where mk: "create_dir_all [] (butlast (dest @ en_path e)) fs = (r, fs1)" by force
      have out: "butlast (dest @ en_path e) @ [last (dest @ en_path e)] = dest @ en_path e"
        using path by (intro append_butlast_last_id) simp
      have a1: "only_adds A fs fs1" using create_dir_all_adds [OF mk, of "[last (dest @ en_path e)]" A] mem out by simp
      have "fs1 (dest @ en_path e) = None"
        using create_dir_all_only_dirs [OF mk, of "dest @ en_path e"] path True by (cases "dest @ en_path e" rule: rev_cases) auto
      then have a2: "only_adds A fs1 (fs1(dest @ en_path e \<mapsto> ItemFile (zf_content f)))"
        using only_adds_upd [of fs1 "dest @ en_path e" "[]" A] path mem by simp
      have "fs' = fs1 \<or> fs' = fs1(dest @ en_path e \<mapsto> ItemFile (zf_content f))"
        using run Inr False True mk by (auto simp: extract_entry_def Let_def split: sum.splits option.splits if_splits)
      then show ?thesis using a1 a2 by (auto intro: only_adds_trans)
    qed (use run Inr False in \<open>auto simp: extract_entry_def only_adds_refl\<close>)
  qed
qed (use run in \<open>auto simp: extract_entry_def only_adds_refl\<close>)

lemma extract_entry_ok:
  assumes "extract_entry label arch dest e fs = (Inr u, fs')" and "en_path e \<noteq> []"
  shows "\<exists>f. arch ! en_index e = Inr f \<and> (\<not> en_is_dir e \<longrightarrow> length (zf_content f) = en_size e)
    \<and> fs' (dest @ en_path e) = Some (if en_is_dir e then ItemDir else ItemFile (zf_content f))"
  using assms create_dir_all_result [of "[]" "dest @ en_path e" fs u fs']
  by (auto simp: extract_entry_def Let_def split: sum.splits option.splits if_splits prod.splits)

lemma extract_entries_adds:
  "extract_entries label arch dest es fs = (res, fs') \<Longrightarrow> \<forall>e \<in> set es. en_path e \<noteq> [] \<Longrightarrow> (\<lambda>e. dest @ en_path e) ` set es \<subseteq> A
   \<Longrightarrow> only_adds A fs fs'"
proof (induction es arbitrary: fs)
  case (Cons e es)
  obtain r fs1 where one: "extract_entry label arch dest e fs = (r, fs1)" by force
  have "only_adds A fs fs1" using extract_entry_adds [OF one] Cons.prems by simp
  then show ?case using Cons one by (cases r) (auto intro: only_adds_trans)
qed (simp add: only_adds_refl)

lemma extract_entries_ok:
  "extract_entries label arch dest es fs = (Inr u, fs') \<Longrightarrow> \<forall>e \<in> set es. en_path e \<noteq> [] \<Longrightarrow> e \<in> set es
   \<Longrightarrow> \<exists>f. arch ! en_index e = Inr f \<and> (\<not> en_is_dir e \<longrightarrow> length (zf_content f) = en_size e)
     \<and> fs' (dest @ en_path e) = Some (if en_is_dir e then ItemDir else ItemFile (zf_content f))"
proof (induction es arbitrary: fs)
  case (Cons d es)
  obtain v fs1 where one: "extract_entry label arch dest d fs = (Inr v, fs1)" and rest: "extract_entries label arch dest es fs1 = (Inr u, fs')"
    using Cons.prems(1) by (auto split: prod.splits sum.splits)
  show ?case
  proof (cases "e \<in> set es")
    case True
    then show ?thesis using Cons.IH [OF rest] Cons.prems by simp
  next
    case False
    then have "e = d" using Cons.prems by simp
    then show ?thesis
      using extract_entry_ok [OF one] only_adds_keeps [OF extract_entries_adds [OF rest, of UNIV]] Cons.prems by auto
  qed
qed simp

section \<open>Extraction is confined and bounded\<close>

definition is_directory :: "file_system \<Rightarrow> string list \<Rightarrow> bool" where
  "is_directory fs dest = (\<forall>k. 0 < k \<and> k \<le> length dest \<longrightarrow> fs (take k dest) = Some ItemDir)"

lemma envelope_entry_nth:
  assumes "envelope_of pol arch env" and "e \<in> set (av_entries env)"
  shows "safe_path (en_path e)"
  using assms describes_safe by (fastforce simp: envelope_of_def in_set_conv_nth)

lemma safe_path_nonempty: "safe_path p \<Longrightarrow> p \<noteq> []"
  by (simp add: safe_path_def)

lemma safe_path_prefix: "safe_path (p @ r) \<Longrightarrow> p \<noteq> [] \<Longrightarrow> safe_path p"
  by (simp add: safe_path_def)

lemma added_below:
  assumes dir: "is_directory fs dest" and new: "fs p = None" "p \<noteq> []" and pre: "p @ r = dest @ path" and safe: "safe_path path"
  shows "\<exists>q. safe_path q \<and> p = dest @ q"
proof (cases "length p \<le> length dest")
  case True
  then have "p = take (length p) dest" using arg_cong [OF pre, of "take (length p)"] by simp
  then have "fs p = Some ItemDir" using dir new(2) True unfolding is_directory_def by (metis length_greater_0_conv)
  then show ?thesis using new(1) by simp
next
  case False
  then obtain q where q: "p = dest @ q" "q \<noteq> []" "q @ r = path"
    using pre by (auto simp: append_eq_append_conv2)
  then show ?thesis using safe safe_path_prefix [of q r] by blast
qed

lemma extraction_cases:
  assumes "extract_zip_bytes_to_dir zip_open bytes dest pol fs = (res, fs')"
  obtains (refused) e where "res = Inl e" "fs' = fs"
  | (extracted) arch env where "zip_open bytes = Inr arch" "length bytes \<le> pol_max_archive_bytes pol" "envelope_of pol arch env"
      "extract_entries (av_label env) arch dest (av_entries env) fs = (res, fs')"
  using assms inspect_ok
  by (force simp: extract_zip_bytes_to_dir_def extract_validated_zip_archive_def ensure_archive_size_def result_simps
      split: sum.splits)

text \<open>Bytes that extraction writes for an entry.\<close>

fun written_bytes :: "zip_file result \<Rightarrow> nat" where
  "written_bytes (Inl _) = 0"
| "written_bytes (Inr f) = (if zf_is_dir f then 0 else length (zf_content f))"

lemma written_bytes_le:
  assumes "length es = length arch" and "\<And>k. k < length arch \<Longrightarrow> written_bytes (arch ! k) \<le> en_size (es ! k)"
  shows "sum_list (map written_bytes arch) \<le> sum_list (map en_size es)"
  using assms
proof (induction arch es rule: list_induct2')
  case (4 z zs e es)
  have "written_bytes z \<le> en_size e" using "4.prems"(2) [of 0] by simp
  moreover have "sum_list (map written_bytes zs) \<le> sum_list (map en_size es)"
    using "4.IH" "4.prems"(1) "4.prems"(2) [of "Suc k" for k] by simp
  ultimately show ?case by simp
qed simp_all

lemma extracted_entries:
  assumes env: "envelope_of pol arch env" and run: "extract_entries label arch dest (av_entries env) fs = (Inr u, fs')"
    and k: "k < length arch"
  shows "written_bytes (arch ! k) \<le> en_size (av_entries env ! k)"
    and "\<exists>f path. arch ! k = Inr f \<and> normalized_archive_path (zf_name f) (pol_label pol) = Inr path
      \<and> (pol_reject_symlinks pol \<longrightarrow> (\<forall>m. zf_unix_mode f = Some m \<longrightarrow> \<not> is_symlink_mode m))
      \<and> fs' (dest @ path) = Some (if zf_is_dir f then ItemDir else ItemFile (zf_content f))"
proof -
  let ?e = "av_entries env ! k"
  obtain f where f: "arch ! k = Inr f" "describes pol ?e f" "en_index ?e = k" using env k by (auto simp: envelope_of_def)
  have mem: "?e \<in> set (av_entries env)" using env k by (simp add: envelope_of_def)
  have "\<forall>e \<in> set (av_entries env). en_path e \<noteq> []" using envelope_entry_nth [OF env] safe_path_nonempty by blast
  from extract_entries_ok [OF run this mem] f
  have done_e: "\<not> zf_is_dir f \<longrightarrow> length (zf_content f) = zf_size f"
    "fs' (dest @ en_path ?e) = Some (if zf_is_dir f then ItemDir else ItemFile (zf_content f))" by (auto simp: describes_def)
  show "written_bytes (arch ! k) \<le> en_size ?e" using done_e f by (simp add: describes_def)
  show "\<exists>f path. arch ! k = Inr f \<and> normalized_archive_path (zf_name f) (pol_label pol) = Inr path
      \<and> (pol_reject_symlinks pol \<longrightarrow> (\<forall>m. zf_unix_mode f = Some m \<longrightarrow> \<not> is_symlink_mode m))
      \<and> fs' (dest @ path) = Some (if zf_is_dir f then ItemDir else ItemFile (zf_content f))"
    using done_e f by (auto simp: describes_def)
qed

text \<open>
  C34. Extraction of an untrusted archive below an existing directory, whether it succeeds or stops at an
  error, changes nothing that exists and creates nothing outside that directory: every new path is the
  directory followed by components none of which is empty, a dot, a double dot or contains a separator. When it
  succeeds, the archive has no more entries and no more bytes than the policy allows, none of its entries
  is a symbolic link, each is present with its content at its normalised path, and the bytes written do not
  exceed the limit on the expanded size.
\<close>

theorem extraction_is_confined:
  assumes run: "extract_zip_bytes_to_dir zip_open bytes dest pol fs = (res, fs')" and dir: "is_directory fs dest"
  shows "(\<forall>p. fs' p \<noteq> fs p \<longrightarrow> fs p = None \<and> (\<exists>q. safe_path q \<and> p = dest @ q))
    \<and> (res = Inr () \<longrightarrow> (\<exists>arch. zip_open bytes = Inr arch \<and> length bytes \<le> pol_max_archive_bytes pol
         \<and> length arch \<le> pol_max_entries pol \<and> sum_list (map written_bytes arch) \<le> pol_max_expanded_bytes pol
         \<and> (\<forall>k < length arch. \<exists>f path. arch ! k = Inr f \<and> normalized_archive_path (zf_name f) (pol_label pol) = Inr path
              \<and> (pol_reject_symlinks pol \<longrightarrow> (\<forall>m. zf_unix_mode f = Some m \<longrightarrow> \<not> is_symlink_mode m))
              \<and> fs' (dest @ path) = Some (if zf_is_dir f then ItemDir else ItemFile (zf_content f)))))"
  using run
proof (cases rule: extraction_cases)
  case (extracted arch env)
  let ?A = "(\<lambda>e. dest @ en_path e) ` set (av_entries env)"
  have safe: "\<forall>e \<in> set (av_entries env). safe_path (en_path e)" using envelope_entry_nth [OF extracted(3)] by blast
  then have adds: "only_adds ?A fs fs'" using extract_entries_adds [OF extracted(4)] safe_path_nonempty by blast
  have "fs p = None \<and> (\<exists>q. safe_path q \<and> p = dest @ q)" if "fs' p \<noteq> fs p" for p
  proof -
    from adds that obtain r where "fs p = None" "p \<noteq> []" and r: "p @ r \<in> ?A" unfolding only_adds_def by blast
    from r obtain e where "e \<in> set (av_entries env)" "p @ r = dest @ en_path e" by blast
    with \<open>fs p = None\<close> \<open>p \<noteq> []\<close> show ?thesis using added_below [OF dir] safe by blast
  qed
  moreover have "sum_list (map written_bytes arch) \<le> pol_max_expanded_bytes pol" if "res = Inr ()"
    using written_bytes_le [of "av_entries env" arch] extracted_entries(1) [OF extracted(3)] extracted(3,4) that
    by (fastforce simp: envelope_of_def)
  moreover have "\<exists>f path. arch ! k = Inr f \<and> normalized_archive_path (zf_name f) (pol_label pol) = Inr path
      \<and> (pol_reject_symlinks pol \<longrightarrow> (\<forall>m. zf_unix_mode f = Some m \<longrightarrow> \<not> is_symlink_mode m))
      \<and> fs' (dest @ path) = Some (if zf_is_dir f then ItemDir else ItemFile (zf_content f))"
    if "res = Inr ()" "k < length arch" for k
    by (rule extracted_entries(2) [OF extracted(3) extracted(4) [unfolded that(1)] that(2)])
  moreover have "length arch \<le> pol_max_entries pol" using extracted(3) by (simp add: envelope_of_def)
  ultimately show ?thesis using extracted(1,2) by simp
qed simp

text \<open>An archive of a directory and a file, extracted below an existing directory.\<close>

definition example_zip :: zip_archive where
  "example_zip =
     [Inr \<lparr>zf_name = ''d/'', zf_unix_mode = None, zf_is_dir = True, zf_size = 0, zf_compressed_size = 0,
           zf_content = [], zf_read_error = None\<rparr>,
      Inr \<lparr>zf_name = ''d/a'', zf_unix_mode = None, zf_is_dir = False, zf_size = 2, zf_compressed_size = 2,
           zf_content = ''ok'', zf_read_error = None\<rparr>]"

theorem extraction_is_confined_witness:
  "let run = extract_zip_bytes_to_dir (\<lambda>_. Inr example_zip) ''zip'' [''t''] (archive_policy_new ''archive'' 10 4 8) [[''t''] \<mapsto> ItemDir];
       fs' = snd run
   in fst run = Inr () \<and> fs' [''t'', ''d'', ''a''] = Some (ItemFile ''ok'')
     \<and> (\<forall>p. fs' p \<noteq> [[''t''] \<mapsto> ItemDir] p \<longrightarrow> (\<exists>q. safe_path q \<and> p = [''t''] @ q))"
proof -
  let ?fs = "[[''t''] \<mapsto> ItemDir]"
  let ?run = "extract_zip_bytes_to_dir (\<lambda>_. Inr example_zip) ''zip'' [''t''] (archive_policy_new ''archive'' 10 4 8) ?fs"
  have dir: "is_directory ?fs [''t'']" by (auto simp: is_directory_def le_Suc_eq)
  have run: "?run = (Inr (), ?fs([''t'', ''d''] \<mapsto> ItemDir, [''t'', ''d'', ''a''] \<mapsto> ItemFile ''ok''))"
    by (simp add: extract_zip_bytes_to_dir_def extract_validated_zip_archive_def ensure_archive_size_def inspect_zip_archive_def
        archive_policy_new_def example_zip_def normalized_archive_path_def trim_separators_def is_separator_def unsafe_part_def
        checked_add_u64_def u64_max_def extract_entry_def result_simps guard_err_def)
  show ?thesis using extraction_is_confined [OF run dir] by (simp add: run)
qed

text \<open>
  The limit on the expanded size is compared with the declared sizes. An entry that yields more than it
  declares is refused only after all of it has been written.
\<close>

lemma undeclared_bytes_are_written:
  "let bomb = [Inr \<lparr>zf_name = ''a'', zf_unix_mode = None, zf_is_dir = False, zf_size = 2, zf_compressed_size = 1,
           zf_content = ''0123456789'', zf_read_error = None\<rparr>];
       run = extract_zip_bytes_to_dir (\<lambda>_. Inr bomb) ''zip'' [''t''] (archive_policy_new ''archive'' 10 4 8) [[''t''] \<mapsto> ItemDir]
   in fst run \<noteq> Inr () \<and> snd run [''t'', ''a''] = Some (ItemFile ''0123456789'')"
  by (simp add: extract_zip_bytes_to_dir_def extract_validated_zip_archive_def ensure_archive_size_def inspect_zip_archive_def
      archive_policy_new_def normalized_archive_path_def trim_separators_def is_separator_def unsafe_part_def
      checked_add_u64_def u64_max_def extract_entry_def result_simps guard_err_def)

end
