(* ===== verification/Image_Reference.thy ===== *)
theory Image_Reference
  imports Names Challenge_Spec
begin

text \<open>
  Docker image references, \<open>crates/domain/src/models/images.rs\<close> and the OCI digests of
  \<open>models/hashes.rs\<close>. The parsers of the \<open>oci_spec\<close> crate are arguments: \<open>parse_oci\<close> is
  \<open>Reference::from_str\<close>, \<open>parse_digest\<close> is \<open>Digest::from_str\<close> followed by \<open>algorithm\<close>, with \<open>Some True\<close> for
  SHA-256. The validator of local references accepts exactly the published pattern.
\<close>

section \<open>Splitting\<close>

text \<open>\<open>str::split_once\<close> and \<open>str::rsplit_once\<close> on a character.\<close>

definition split_once :: "char \<Rightarrow> string \<Rightarrow> (string \<times> string) option" where
  "split_once c s = (if c \<in> set s then Some (takeWhile (\<lambda>d. d \<noteq> c) s, tl (dropWhile (\<lambda>d. d \<noteq> c) s)) else None)"

definition rsplit_once :: "char \<Rightarrow> string \<Rightarrow> (string \<times> string) option" where
  "rsplit_once c s = map_option (\<lambda>(a, b). (rev b, rev a)) (split_once c (rev s))"

lemma split_once_Some: "split_once c s = Some (a, b) \<longleftrightarrow> s = a @ c # b \<and> c \<notin> set a"
proof
  assume "split_once c s = Some (a, b)"
  then have c: "c \<in> set s" and a: "a = takeWhile (\<lambda>d. d \<noteq> c) s" and b: "b = tl (dropWhile (\<lambda>d. d \<noteq> c) s)"
    by (auto simp: split_once_def split: if_splits)
  obtain d where d: "dropWhile (\<lambda>d. d \<noteq> c) s = c # d"
    using c hd_dropWhile [of "\<lambda>d. d \<noteq> c" s] by (cases "dropWhile (\<lambda>d. d \<noteq> c) s") (auto simp: dropWhile_eq_Nil_conv)
  show "s = a @ c # b \<and> c \<notin> set a"
    using takeWhile_dropWhile_id [of "\<lambda>d. d \<noteq> c" s] d a b set_takeWhileD by fastforce
next
  assume s: "s = a @ c # b \<and> c \<notin> set a"
  then have "takeWhile (\<lambda>d. d \<noteq> c) s = a" "dropWhile (\<lambda>d. d \<noteq> c) s = c # b"
    by (auto simp: takeWhile_append dropWhile_append)
  then show "split_once c s = Some (a, b)" using s by (simp add: split_once_def)
qed

lemma rsplit_once_Some: "rsplit_once c s = Some (a, b) \<longleftrightarrow> s = a @ c # b \<and> c \<notin> set b"
proof -
  have "rsplit_once c s = Some (a, b) \<longleftrightarrow> split_once c (rev s) = Some (rev b, rev a)"
    by (auto simp: rsplit_once_def)
  also have "\<dots> \<longleftrightarrow> rev s = rev b @ c # rev a \<and> c \<notin> set b" by (simp add: split_once_Some)
  also have "\<dots> \<longleftrightarrow> s = a @ c # b \<and> c \<notin> set b"
    by (metis append.assoc append_Cons append_Nil rev.simps(2) rev_append rev_rev_ident)
  finally show ?thesis .
qed

lemma rsplit_once_None: "rsplit_once c s = None \<longleftrightarrow> c \<notin> set s"
  by (simp add: rsplit_once_def split_once_def)

section \<open>Local references\<close>

definition supported_local_repositories :: "string list" where
  "supported_local_repositories = [''agentics-linux-arm64-cpu'', ''agentics-linux-arm64-cuda'']"

definition local_image_reference_error :: string where
  "local_image_reference_error =
     ''local image reference must be a supported Agentics local repository with an explicit tag''"

definition local_image_try_new :: "string \<Rightarrow> string + local_image_reference" where
  "local_image_try_new v =
     (if trim v \<noteq> v \<or> v = [] \<or> CHR ''/'' \<in> set v \<or> CHR ''@'' \<in> set v then Inl local_image_reference_error
      else (case rsplit_once (CHR '':'') v of
              None \<Rightarrow> Inl local_image_reference_error
            | Some (repository, tag) \<Rightarrow>
                if repository \<notin> set supported_local_repositories \<or> tag = [] \<or> \<not> list_all name_token_char tag
                then Inl local_image_reference_error
                else Inr \<lparr>li_original = v, li_repository = repository, li_tag = tag\<rparr>))"

section \<open>Registry references\<close>

definition has_explicit_registry :: "string \<Rightarrow> bool" where
  "has_explicit_registry v =
     (case split_once (CHR ''/'') v of
        None \<Rightarrow> False
      | Some (registry, _) \<Rightarrow> registry = ''localhost'' \<or> CHR ''.'' \<in> set registry \<or> CHR '':'' \<in> set registry)"

text \<open>\<open>str::rfind\<close> of a character.\<close>

definition rfind :: "char \<Rightarrow> string \<Rightarrow> nat option" where
  "rfind c s = map_option (\<lambda>(a, _). length a) (rsplit_once c s)"

definition has_explicit_tag :: "string \<Rightarrow> bool" where
  "has_explicit_tag v =
     (let without_digest = (case split_once (CHR ''@'') v of None \<Rightarrow> v | Some (r, _) \<Rightarrow> r)
      in case rfind (CHR '':'') without_digest of
           None \<Rightarrow> False
         | Some t \<Rightarrow> (case rfind (CHR ''/'') without_digest of None \<Rightarrow> True | Some s \<Rightarrow> t > s))"

definition oci_sha256_digest_error :: string where
  "oci_sha256_digest_error =
     ''OCI image digest must be exactly sha256: followed by 64 lowercase hexadecimal characters''"

definition oci_sha256_try_new :: "(string \<Rightarrow> bool option) \<Rightarrow> string \<Rightarrow> string option" where
  "oci_sha256_try_new parse_digest v =
     (if trim v \<noteq> v then None else if parse_digest v = Some True then Some v else None)"

definition registry_image_reference_error :: string where
  "registry_image_reference_error =
     ''registry image reference must include an explicit registry, repository, and tag''"

definition registry_image_try_new ::
  "(string \<Rightarrow> string + oci_reference) \<Rightarrow> (string \<Rightarrow> bool option) \<Rightarrow> string \<Rightarrow> string + registry_image_reference" where
  "registry_image_try_new parse_oci parse_digest v =
     (if trim v \<noteq> v \<or> v = [] \<or> \<not> has_explicit_registry v \<or> \<not> has_explicit_tag v
      then Inl registry_image_reference_error
      else (case parse_oci v of
              Inl e \<Rightarrow> Inl (registry_image_reference_error @ '': '' @ e)
            | Inr parsed \<Rightarrow>
                and_then (case oci_digest parsed of
                            None \<Rightarrow> Inr None
                          | Some d \<Rightarrow> (case oci_sha256_try_new parse_digest d of
                                         None \<Rightarrow> Inl oci_sha256_digest_error
                                       | Some d' \<Rightarrow> Inr (Some d'))) (\<lambda>digest.
                (case oci_tag parsed of
                   None \<Rightarrow> Inl registry_image_reference_error
                 | Some tag \<Rightarrow> Inr \<lparr>rg_original = v, rg_parsed = parsed, rg_digest = digest, rg_tag = tag\<rparr>))))"

definition registry_policy_repository :: "registry_image_reference \<Rightarrow> string" where
  "registry_policy_repository r = oci_registry (rg_parsed r) @ ''/'' @ oci_repository (rg_parsed r)"

section \<open>Either kind\<close>

fun docker_reference :: "challenge_image_reference \<Rightarrow> string" where
  "docker_reference (LocalImage r) = li_original r"
| "docker_reference (RegistryImage r) = rg_original r"

fun policy_repository :: "challenge_image_reference \<Rightarrow> string" where
  "policy_repository (LocalImage r) = li_repository r"
| "policy_repository (RegistryImage r) = registry_policy_repository r"

fun image_tag :: "challenge_image_reference \<Rightarrow> string" where
  "image_tag (LocalImage r) = li_tag r"
| "image_tag (RegistryImage r) = rg_tag r"

fun image_digest :: "challenge_image_reference \<Rightarrow> string option" where
  "image_digest (LocalImage _) = None"
| "image_digest (RegistryImage r) = rg_digest r"

fun is_local :: "challenge_image_reference \<Rightarrow> bool" where
  "is_local (LocalImage _) = True"
| "is_local (RegistryImage _) = False"

section \<open>Local references match their published pattern\<close>

text \<open>\<open>^(agentics-linux-arm64-cpu|agentics-linux-arm64-cuda):[A-Za-z0-9_.-]+$\<close>\<close>

definition local_image_pattern :: "string \<Rightarrow> bool" where
  "local_image_pattern v =
     (\<exists>r t. r \<in> set supported_local_repositories \<and> t \<noteq> [] \<and> list_all name_token_char t \<and> v = r @ CHR '':'' # t)"

lemma supported_repository_chars:
  "r \<in> set supported_local_repositories \<Longrightarrow> list_all name_token_char r"
  by (auto simp: supported_local_repositories_def name_token_char_def is_ascii_alphanumeric_def is_ascii_lowercase_def
      is_ascii_digit_def in_range_def byte_of_def)

lemma name_token_char_plain:
  assumes "name_token_char c"
  shows "33 \<le> byte_of c" "byte_of c < 128" "c \<noteq> CHR ''/''" "c \<noteq> CHR ''@''" "c \<noteq> CHR '':''"
  using assms by (auto simp: name_token_char_def is_ascii_alphanumeric_def is_ascii_lowercase_def is_ascii_uppercase_def
      is_ascii_digit_def in_range_def byte_of_def)

lemma local_image_accepts_iff:
  "local_image_try_new v = Inr r \<longleftrightarrow>
     (li_original r = v \<and> li_repository r \<in> set supported_local_repositories \<and> li_tag r \<noteq> [] \<and> list_all name_token_char (li_tag r)
      \<and> v = li_repository r @ CHR '':'' # li_tag r)"
proof
  assume "local_image_try_new v = Inr r"
  then show "li_original r = v \<and> li_repository r \<in> set supported_local_repositories \<and> li_tag r \<noteq> [] \<and> list_all name_token_char (li_tag r)
      \<and> v = li_repository r @ CHR '':'' # li_tag r"
    by (auto simp: local_image_try_new_def rsplit_once_Some split: if_splits option.splits)
next
  assume ok: "li_original r = v \<and> li_repository r \<in> set supported_local_repositories \<and> li_tag r \<noteq> [] \<and> list_all name_token_char (li_tag r)
      \<and> v = li_repository r @ CHR '':'' # li_tag r"
  let ?rep = "li_repository r" and ?tag = "li_tag r"
  have chars: "name_token_char c \<or> c = CHR '':''" if "c \<in> set v" for c
    using that ok supported_repository_chars [of ?rep] by (auto simp: list_all_iff)
  have "trim v = v"
    by (rule trim_printable) (use chars name_token_char_plain in \<open>fastforce simp: byte_of_def\<close>)
  moreover have "CHR ''/'' \<notin> set v" "CHR ''@'' \<notin> set v" using chars name_token_char_plain by fastforce+
  moreover have "rsplit_once (CHR '':'') v = Some (?rep, ?tag)"
    unfolding rsplit_once_Some using ok name_token_char_plain(5) by (auto simp: list_all_iff)
  moreover have "v \<noteq> []" using ok by simp
  ultimately have "local_image_try_new v = Inr \<lparr>li_original = v, li_repository = ?rep, li_tag = ?tag\<rparr>"
    using ok by (simp add: local_image_try_new_def)
  also have "\<lparr>li_original = v, li_repository = ?rep, li_tag = ?tag\<rparr> = r" using ok by simp
  finally show "local_image_try_new v = Inr r" .
qed

lemma local_image_matches_pattern: "is_ok (local_image_try_new v) \<longleftrightarrow> local_image_pattern v"
proof
  assume "is_ok (local_image_try_new v)"
  then obtain r where "local_image_try_new v = Inr r" by (auto simp: is_ok_iff)
  then show "local_image_pattern v" unfolding local_image_accepts_iff local_image_pattern_def by blast
next
  assume "local_image_pattern v"
  then obtain r t where "r \<in> set supported_local_repositories" "t \<noteq> []" "list_all name_token_char t" "v = r @ CHR '':'' # t"
    unfolding local_image_pattern_def by blast
  then have "local_image_try_new v = Inr \<lparr>li_original = v, li_repository = r, li_tag = t\<rparr>" by (simp add: local_image_accepts_iff)
  then show "is_ok (local_image_try_new v)" by simp
qed

end
