(* ===== verification/Bundle_Validation.thy ===== *)
theory Bundle_Validation
  imports Archive_Envelope Image_Reference
begin

text \<open>
  Validation of a challenge contract before it can be published: \<open>validate_challenge_bundle_spec\<close> of
  \<open>crates/contracts/src/challenge_bundle.rs\<close> with the target policy of \<open>validation/targets.rs\<close> and the
  hardware and image checks of \<open>challenge_bundle/images.rs\<close>. Field rules that the domain types declare to
  \<open>garde\<close> are reports, lists of failed paths with messages. Arguments of the model, collected in a record:
  the texts of \<open>garde\<close>'s built-in rules, the RFC 3339 parser of \<open>chrono\<close> and Unicode lower-casing.
\<close>

section \<open>External arguments\<close>

record contract_env =
  ce_length_message :: string
  ce_range_message :: string
  ce_rfc3339 :: "string \<Rightarrow> string + int"
  ce_lowercase :: "string \<Rightarrow> string"

section \<open>Field rules\<close>

type_synonym garde_report = "(string \<times> string) list"

definition trimmed_non_empty :: "string \<Rightarrow> string \<Rightarrow> garde_report" where
  "trimmed_non_empty path v = (if trim v = [] then [(path, ''must not be empty'')] else [])"

definition optional_trimmed_non_empty :: "string \<Rightarrow> string option \<Rightarrow> garde_report" where
  "optional_trimmed_non_empty path v =
     (case v of None \<Rightarrow> [] | Some s \<Rightarrow> if trim s = [] then [(path, ''must not be empty when present'')] else [])"

definition no_nul :: "string \<Rightarrow> string \<Rightarrow> garde_report" where
  "no_nul path v = (if CHR 0x00 \<in> set v then [(path, ''must not contain NUL bytes'')] else [])"

definition range_min_one :: "contract_env \<Rightarrow> string \<Rightarrow> nat \<Rightarrow> garde_report" where
  "range_min_one ce path v = (if v < 1 then [(path, ce_range_message ce)] else [])"

definition optional_range_min_one :: "contract_env \<Rightarrow> string \<Rightarrow> nat option \<Rightarrow> garde_report" where
  "optional_range_min_one ce path v = (case v of None \<Rightarrow> [] | Some n \<Rightarrow> range_min_one ce path n)"

fun command_parts_report :: "nat \<Rightarrow> string list \<Rightarrow> garde_report" where
  "command_parts_report i [] = []"
| "command_parts_report i (part # parts) =
     trimmed_non_empty (''command['' @ show_nat i @ '']'') part @ no_nul (''command['' @ show_nat i @ '']'') part
       @ command_parts_report (Suc i) parts"

definition command_report :: "contract_env \<Rightarrow> string list \<Rightarrow> garde_report" where
  "command_report ce command =
     (if command = [] then [(''command'', ce_length_message ce)] else []) @ command_parts_report 0 command"

definition evaluator_report :: "contract_env \<Rightarrow> evaluator_spec \<Rightarrow> garde_report" where
  "evaluator_report ce e = command_report ce (ev_command e)"

definition setup_report :: "contract_env \<Rightarrow> string list \<Rightarrow> string option \<Rightarrow> garde_report" where
  "setup_report ce command notes = command_report ce command @ optional_trimmed_non_empty ''reproducibility_notes'' notes"

definition bundle_report :: "contract_env \<Rightarrow> challenge_bundle_spec \<Rightarrow> garde_report" where
  "bundle_report ce spec =
     (if length (challenge_keywords spec) < 1 \<or> length (challenge_keywords spec) > 6 then [(''keywords'', ce_length_message ce)] else [])"

definition resource_profile_report :: "resource_profile_spec \<Rightarrow> garde_report" where
  "resource_profile_report p = optional_trimmed_non_empty ''resource_description'' (resource_description p)"

definition stage_report :: "contract_env \<Rightarrow> stage_resource_profile \<Rightarrow> garde_report" where
  "stage_report ce s =
     range_min_one ce ''timeout_sec'' (timeout_sec s) @ range_min_one ce ''memory_limit_mb'' (memory_limit_mb s)
     @ range_min_one ce ''cpu_limit_millis'' (cpu_limit_millis s) @ range_min_one ce ''disk_limit_mb'' (disk_limit_mb s)"

definition hardware_report :: "contract_env \<Rightarrow> hardware_profile_spec \<Rightarrow> garde_report" where
  "hardware_report ce h =
     trimmed_non_empty ''kind'' (hw_kind h) @ optional_trimmed_non_empty ''gpu_model'' (gpu_model h)
     @ optional_range_min_one ce ''gpu_count'' (gpu_count h) @ optional_range_min_one ce ''gpu_memory_gb'' (gpu_memory_gb h)
     @ optional_trimmed_non_empty ''cuda_variant'' (cuda_variant h) @ optional_trimmed_non_empty ''cuda_version'' (cuda_version h)
     @ optional_trimmed_non_empty ''driver_minimum'' (driver_minimum h)"

fun join_str :: "string \<Rightarrow> string list \<Rightarrow> string" where
  "join_str sep [] = []"
| "join_str sep [p] = p"
| "join_str sep (p # q # ps) = p @ sep @ join_str sep (q # ps)"

definition format_garde_report :: "string \<Rightarrow> garde_report \<Rightarrow> string" where
  "format_garde_report field r =
     join_str ''; '' (map (\<lambda>(path, error). if path = [] then field @ '': '' @ error else field @ ''.'' @ path @ '': '' @ error) r)"

definition validate_garde :: "garde_report \<Rightarrow> string \<Rightarrow> unit result" where
  "validate_garde r field = guard_err (r \<noteq> []) (ValidationErr (format_garde_report field r))"

section \<open>Hosted targets\<close>

fun accelerator_json_name :: "target_accelerator \<Rightarrow> string" where
  "accelerator_json_name AccNone = ''null''"
| "accelerator_json_name AccGpu = ''\"gpu\"''"

definition require_target_shape ::
  "challenge_target_spec \<Rightarrow> string \<Rightarrow> docker_platform \<Rightarrow> target_accelerator \<Rightarrow> unit result" where
  "require_target_shape t field platform acc =
     and_then (guard_err (docker_platform t \<noteq> platform)
       (ValidationErr (field @ ''.docker_platform must be `'' @ docker_platform_as_str platform @ ''` for target `'' @ tg_name t @ ''`''))) (\<lambda>_.
     guard_err (accelerator t \<noteq> acc)
       (ValidationErr (field @ ''.accelerator must be '' @ accelerator_json_name acc @ '' for target `'' @ tg_name t @ ''`'')))"

definition validate_submission_target_policy :: "challenge_target_spec \<Rightarrow> string \<Rightarrow> unit result" where
  "validate_submission_target_policy t field =
     (if tg_name t = ''linux-arm64-cpu'' then require_target_shape t field LinuxArm64 AccNone
      else if tg_name t = ''linux-arm64-cuda'' then require_target_shape t field LinuxArm64 AccGpu
      else if tg_name t = ''macos-arm64-cpu''
      then Inl (ValidationErr (field @ ''.name `'' @ tg_name t
        @ ''` is a platform-development target and cannot be used for hosted challenge deployment or submissions''))
      else if tg_name t \<in> {''linux-amd64-cpu'', ''linux-amd64-cuda''}
      then Inl (ValidationErr (field @ ''.name `'' @ tg_name t @ ''` is reserved for post-MVP deployment support''))
      else Inl (ValidationErr (field @ ''.name `'' @ tg_name t
        @ ''` is not supported for MVP hosted challenge deployment; supported targets: linux-arm64-cpu, linux-arm64-cuda'')))"

definition validate_platform_dev_target_name :: "target_name \<Rightarrow> string \<Rightarrow> unit result" where
  "validate_platform_dev_target_name t field =
     (if t \<in> {''linux-arm64-cpu'', ''linux-arm64-cuda'', ''macos-arm64-cpu''} then Inr ()
      else if t \<in> {''linux-amd64-cpu'', ''linux-amd64-cuda''}
      then Inl (ValidationErr (field @ '' `'' @ t @ ''` is reserved for post-MVP platform development''))
      else Inl (ValidationErr (field @ '' `'' @ t
        @ ''` is not supported for MVP platform development; supported targets: linux-arm64-cpu, linux-arm64-cuda, macos-arm64-cpu'')))"

datatype target_selection_mode = SelectOfficial | SelectValidation

definition validate_selected_targets ::
  "challenge_name \<Rightarrow> challenge_target_spec list \<Rightarrow> target_selection_mode \<Rightarrow> unit result" where
  "validate_selected_targets name ts mode =
     (if mode \<noteq> SelectValidation then Inr ()
      else (let disabled = map tg_name (filter (\<lambda>t. \<not> validation_enabled t) ts)
            in guard_err (disabled \<noteq> [])
                 (ValidationErr (''validation pass is disabled for challenge `'' @ name @ ''` target(s): '' @ join_str '', '' disabled
                   @ ''; submit officially or ask the challenge owner to enable validation''))))"

definition select_targets_from_spec ::
  "challenge_name \<Rightarrow> challenge_target_spec list \<Rightarrow> target_name option \<Rightarrow> bool \<Rightarrow> target_selection_mode \<Rightarrow> target_name list result" where
  "select_targets_from_spec name ts requested all_targets mode =
     (if all_targets then and_then (validate_selected_targets name ts mode) (\<lambda>_. Inr (map tg_name ts))
      else (case requested of
              Some t \<Rightarrow>
                and_then (ok_or (service_error_of_validation (UnsupportedTarget
                   (''challenge `'' @ name @ ''` does not support target `'' @ t @ ''`''))) (find (\<lambda>c. tg_name c = t) ts)) (\<lambda>c.
                and_then (validate_selected_targets name [c] mode) (\<lambda>_. Inr [tg_name c]))
            | None \<Rightarrow>
                if ts = [] then Inl (ValidationErr (''challenge `'' @ name @ ''` does not declare any targets''))
                else Inl (ValidationErr (''target is required for challenge `'' @ name
                  @ ''`; pass --target <target> or --all-targets. Available targets: '' @ join_str '', '' (map tg_name ts)))))"

section \<open>Images and hardware\<close>

definition supported_cuda_variants :: "(string \<times> string) list" where
  "supported_cuda_variants = [(''cu126'', ''12.6''), (''cu130'', ''13.0''), (''cu132'', ''13.2'')]"

definition supported_cpu_image_repositories :: "string list" where
  "supported_cpu_image_repositories = [''agentics-linux-arm64-cpu'', ''ghcr.io/agentic-science/agentics-linux-arm64-cpu'']"

definition supported_cuda_image_repositories :: "string list" where
  "supported_cuda_image_repositories = [''agentics-linux-arm64-cuda'', ''ghcr.io/agentic-science/agentics-linux-arm64-cuda'']"

datatype supported_accelerator_image = NoAccelerator | Accelerator string

definition require_supported_image_repository :: "string \<Rightarrow> string list \<Rightarrow> string \<Rightarrow> string \<Rightarrow> unit result" where
  "require_supported_image_repository repository supported tname field =
     guard_err (repository \<notin> set supported)
       (ValidationErr (field @ '' must use a supported Agentics image repository for target `'' @ tname
         @ ''`; supported repositories: '' @ join_str '', '' supported))"

definition validate_supported_image_reference ::
  "challenge_image_reference \<Rightarrow> string \<Rightarrow> supported_accelerator_image \<Rightarrow> unit result" where
  "validate_supported_image_reference img field kind =
     (case kind of
        NoAccelerator \<Rightarrow>
          and_then (require_supported_image_repository (policy_repository img) supported_cpu_image_repositories ''linux-arm64-cpu'' field) (\<lambda>_.
          guard_err (\<not> starts_with (image_tag img) ''ubuntu26.04-'')
            (ValidationErr (field @ '' tag must start with `ubuntu26.04-` for target `linux-arm64-cpu`'')))
      | Accelerator variant \<Rightarrow>
          and_then (require_supported_image_repository (policy_repository img) supported_cuda_image_repositories ''linux-arm64-cuda'' field) (\<lambda>_.
          guard_err (\<not> starts_with (image_tag img) (variant @ ''-''))
            (ValidationErr (field @ '' tag must start with `'' @ variant @ ''-` to match resource_profile.hardware_metadata.cuda_variant''))))"

definition validate_supported_target_images ::
  "challenge_target_spec \<Rightarrow> supported_accelerator_image \<Rightarrow> string \<Rightarrow> unit result" where
  "validate_supported_target_images t kind field =
     and_then (validate_supported_image_reference (solution_image (resource_profile t)) (field @ ''.resource_profile.solution_image'') kind) (\<lambda>_.
     validate_supported_image_reference (evaluator_image (resource_profile t)) (field @ ''.resource_profile.evaluator_image'') kind)"

definition validate_stage_resource_profile :: "contract_env \<Rightarrow> stage_resource_profile \<Rightarrow> string \<Rightarrow> unit result" where
  "validate_stage_resource_profile ce s field = validate_garde (stage_report ce s) field"

definition validate_hardware_profile :: "contract_env \<Rightarrow> hardware_profile_spec \<Rightarrow> string \<Rightarrow> unit result" where
  "validate_hardware_profile ce h field = validate_garde (hardware_report ce h) field"

definition validate_resource_profile :: "contract_env \<Rightarrow> resource_profile_spec \<Rightarrow> string \<Rightarrow> unit result" where
  "validate_resource_profile ce p field =
     and_then (validate_garde (resource_profile_report p) field) (\<lambda>_.
     and_then (validate_stage_resource_profile ce (sp_setup (rp_solution p)) (field @ ''.solution.setup'')) (\<lambda>_.
     and_then (validate_stage_resource_profile ce (sp_build (rp_solution p)) (field @ ''.solution.build'')) (\<lambda>_.
     and_then (case sp_run (rp_solution p) of None \<Rightarrow> Inr () | Some r \<Rightarrow> validate_stage_resource_profile ce r (field @ ''.solution.run'')) (\<lambda>_.
     and_then (validate_stage_resource_profile ce (ep_setup (rp_evaluator p)) (field @ ''.evaluator.setup'')) (\<lambda>_.
     and_then (validate_stage_resource_profile ce (ep_run (rp_evaluator p)) (field @ ''.evaluator.run'')) (\<lambda>_.
     and_then (case resource_description p of None \<Rightarrow> Inr () | Some d \<Rightarrow> require_non_empty d (field @ ''.resource_description'')) (\<lambda>_.
     (case hardware_metadata p of None \<Rightarrow> Inr () | Some h \<Rightarrow> validate_hardware_profile ce h (field @ ''.hardware_metadata'')))))))))"

definition validate_positive_u32 :: "nat \<Rightarrow> string \<Rightarrow> unit result" where
  "validate_positive_u32 v field = guard_err (v = 0) (ValidationErr (field @ '' must be greater than 0''))"

definition require_required_optional_string :: "string option \<Rightarrow> string \<Rightarrow> string result" where
  "require_required_optional_string v field =
     (case v of Some s \<Rightarrow> and_then (require_non_empty s field) (\<lambda>_. Inr s)
      | None \<Rightarrow> Inl (ValidationErr (field @ '' is required'')))"

definition cuda_version_for_variant :: "string \<Rightarrow> string option" where
  "cuda_version_for_variant v = map_of supported_cuda_variants v"

definition validate_cuda_hardware :: "hardware_profile_spec option \<Rightarrow> string \<Rightarrow> string result" where
  "validate_cuda_hardware hw field =
     and_then (ok_or (ValidationErr (field @ ''.kind must be `cuda` for accelerator `gpu`'')) hw) (\<lambda>h.
     and_then (guard_err (hw_kind h \<noteq> ''cuda'') (ValidationErr (field @ ''.kind must be `cuda` for accelerator `gpu`''))) (\<lambda>_.
     and_then (require_required_optional_string (gpu_model h) (field @ ''.gpu_model'')) (\<lambda>_.
     and_then (ok_or (ValidationErr (field @ ''.gpu_count must be greater than zero'')) (gpu_count h)) (\<lambda>n.
     and_then (validate_positive_u32 n (field @ ''.gpu_count'')) (\<lambda>_.
     and_then (require_required_optional_string (cuda_variant h) (field @ ''.cuda_variant'')) (\<lambda>variant.
     and_then (require_required_optional_string (cuda_version h) (field @ ''.cuda_version'')) (\<lambda>version.
     and_then (ok_or (ValidationErr (field @ ''.cuda_variant `'' @ variant @ ''` is not supported for new CUDA targets; supported variants: ''
        @ join_str '', '' (map fst supported_cuda_variants))) (cuda_version_for_variant variant)) (\<lambda>expected.
     and_then (guard_err (version \<noteq> expected)
        (ValidationErr (field @ ''.cuda_version must be `'' @ expected @ ''` for cuda_variant `'' @ variant @ ''`''))) (\<lambda>_.
     Inr variant)))))))))"

definition validate_target :: "contract_env \<Rightarrow> challenge_target_spec \<Rightarrow> string \<Rightarrow> unit result" where
  "validate_target ce t field =
     and_then (validate_resource_profile ce (resource_profile t) (field @ ''.resource_profile'')) (\<lambda>_.
     (case accelerator t of
        AccNone \<Rightarrow> validate_supported_target_images t NoAccelerator field
      | AccGpu \<Rightarrow>
          and_then (validate_cuda_hardware (hardware_metadata (resource_profile t)) (field @ ''.resource_profile.hardware_metadata'')) (\<lambda>variant.
          validate_supported_target_images t (Accelerator variant) field)))"

definition require_image_digest_reference :: "challenge_image_reference \<Rightarrow> string \<Rightarrow> unit result" where
  "require_image_digest_reference img field =
     (if is_local img
      then Inl (ValidationErr (field @ '' must use a registry image with an immutable @sha256:<digest> reference''))
      else guard_err (image_digest img = None)
             (ValidationErr (field @ '' must include an immutable @sha256:<digest> reference'')))"

fun validate_digest_pinned_targets :: "nat \<Rightarrow> challenge_target_spec list \<Rightarrow> unit result" where
  "validate_digest_pinned_targets i [] = Inr ()"
| "validate_digest_pinned_targets i (t # ts) =
     (let field = ''targets['' @ show_nat i @ ''].resource_profile''
      in and_then (require_image_digest_reference (solution_image (resource_profile t)) (field @ ''.solution_image'')) (\<lambda>_.
         and_then (require_image_digest_reference (evaluator_image (resource_profile t)) (field @ ''.evaluator_image'')) (\<lambda>_.
         validate_digest_pinned_targets (Suc i) ts)))"

definition validate_digest_pinned_images :: "challenge_bundle_spec \<Rightarrow> unit result" where
  "validate_digest_pinned_images spec = validate_digest_pinned_targets 0 (targets spec)"

section \<open>Commands and scripts\<close>

definition is_safe_relative_path :: "string \<Rightarrow> bool" where
  "is_safe_relative_path v =
     (if starts_with v ''/'' then False else list_all (\<lambda>s. s \<noteq> [] \<and> s \<noteq> ''..'') (split_separators v))"

definition declared_evaluator_script :: "string list \<Rightarrow> string option" where
  "declared_evaluator_script command = find (\<lambda>part. is_safe_relative_path part \<and> starts_with (rev part) (rev ''.py'')) command"

fun execution_mode_name :: "challenge_execution_mode \<Rightarrow> string" where
  "execution_mode_name ModeSeparatedEvaluator = ''separated_evaluator''"
| "execution_mode_name ModePipedStdio = ''piped_stdio''"
| "execution_mode_name ModeCoexecutedBenchmark = ''coexecuted_benchmark''"

definition validate_declared_script_runtime :: "string list \<Rightarrow> string \<Rightarrow> challenge_execution_mode \<Rightarrow> unit result" where
  "validate_declared_script_runtime command field mode =
     (case declared_evaluator_script command of
        None \<Rightarrow> Inr ()
      | Some script \<Rightarrow>
          guard_err (\<not> starts_with script (runtime_name mode @ ''/''))
            (ValidationErr (field @ '' script path must live under `'' @ runtime_name mode @ ''` for '' @ execution_mode_name mode
              @ '' execution, got `'' @ script @ ''`'')))"

text \<open>\<open>field\<close> is the evaluator's field; the code appends and strips the suffix \<open>.command\<close>.\<close>

definition validate_evaluator_spec :: "contract_env \<Rightarrow> evaluator_spec \<Rightarrow> string \<Rightarrow> challenge_execution_mode \<Rightarrow> unit result" where
  "validate_evaluator_spec ce e field mode =
     and_then (validate_garde (evaluator_report ce e) field) (\<lambda>_.
     validate_declared_script_runtime (ev_command e) (field @ ''.command'') mode)"

definition validate_setup_command ::
  "contract_env \<Rightarrow> string list \<Rightarrow> string option \<Rightarrow> string \<Rightarrow> challenge_execution_mode \<Rightarrow> unit result" where
  "validate_setup_command ce command notes field mode =
     and_then (validate_garde (setup_report ce command notes) field) (\<lambda>_.
     validate_declared_script_runtime command (field @ ''.command'') mode)"

definition validate_setup_spec :: "contract_env \<Rightarrow> challenge_setup_spec \<Rightarrow> string \<Rightarrow> challenge_execution_mode \<Rightarrow> unit result" where
  "validate_setup_spec ce su field mode = validate_setup_command ce (cs_command su) (cs_reproducibility_notes su) field mode"

definition validate_piped_stdio_setup_spec ::
  "contract_env \<Rightarrow> piped_stdio_setup_spec \<Rightarrow> string \<Rightarrow> challenge_execution_mode \<Rightarrow> unit result" where
  "validate_piped_stdio_setup_spec ce su field mode = validate_setup_command ce (pss_command su) (pss_reproducibility_notes su) field mode"

definition validate_coexecuted_benchmark_setup_spec ::
  "contract_env \<Rightarrow> coexecuted_benchmark_setup_spec \<Rightarrow> string \<Rightarrow> challenge_execution_mode \<Rightarrow> unit result" where
  "validate_coexecuted_benchmark_setup_spec ce su field mode =
     validate_setup_command ce (cbs_command su) (cbs_reproducibility_notes su) field mode"

section \<open>The contract\<close>

definition validate_challenge_keywords :: "contract_env \<Rightarrow> challenge_bundle_spec \<Rightarrow> unit result" where
  "validate_challenge_keywords ce spec =
     and_then (guard_err (\<not> (1 \<le> length (challenge_keywords spec) \<and> length (challenge_keywords spec) \<le> 6))
       (ValidationErr ''keywords must contain between 1 and 6 entries'')) (\<lambda>_.
     reject_duplicates (ce_lowercase ce) (\<lambda>k. ValidationErr (''duplicate challenge keyword `'' @ k @ ''`'')) {} (challenge_keywords spec))"

fun validate_targets_from :: "contract_env \<Rightarrow> nat \<Rightarrow> target_name set \<Rightarrow> challenge_target_spec list \<Rightarrow> unit result" where
  "validate_targets_from ce i seen [] = Inr ()"
| "validate_targets_from ce i seen (t # ts) =
     (let field = ''targets['' @ show_nat i @ '']''
      in and_then (validate_submission_target_policy t field) (\<lambda>_.
         and_then (validate_target ce t field) (\<lambda>_.
         and_then (guard_err (tg_name t \<in> seen) (ValidationErr (''targets contains duplicate name `'' @ tg_name t @ ''`''))) (\<lambda>_.
         validate_targets_from ce (Suc i) (insert (tg_name t) seen) ts))))"

definition validate_targets :: "contract_env \<Rightarrow> challenge_bundle_spec \<Rightarrow> unit result" where
  "validate_targets ce spec =
     and_then (guard_err (targets spec = []) (ValidationErr ''targets must not be empty'')) (\<lambda>_.
     validate_targets_from ce 0 {} (targets spec))"

definition parse_required_rfc3339 :: "contract_env \<Rightarrow> string \<Rightarrow> string \<Rightarrow> int result" where
  "parse_required_rfc3339 ce v field =
     (case ce_rfc3339 ce v of Inl e \<Rightarrow> Inl (ValidationErr (field @ '' must be RFC3339: '' @ e)) | Inr t \<Rightarrow> Inr t)"

definition parse_optional_rfc3339 :: "contract_env \<Rightarrow> string option \<Rightarrow> string \<Rightarrow> int option result" where
  "parse_optional_rfc3339 ce v field =
     (case v of None \<Rightarrow> Inr None | Some s \<Rightarrow> and_then (parse_required_rfc3339 ce s field) (\<lambda>t. Inr (Some t)))"

definition validate_optional_positive_limit :: "int option \<Rightarrow> string \<Rightarrow> unit result" where
  "validate_optional_positive_limit v field =
     guard_err (case v of None \<Rightarrow> False | Some n \<Rightarrow> n \<le> 0) (ValidationErr (field @ '' must be positive''))"

definition any_validation_enabled :: "challenge_bundle_spec \<Rightarrow> bool" where
  "any_validation_enabled spec = list_ex validation_enabled (targets spec)"

definition validate_challenge_policy :: "contract_env \<Rightarrow> challenge_bundle_spec \<Rightarrow> unit result" where
  "validate_challenge_policy ce spec =
     and_then (parse_required_rfc3339 ce (starts_at spec) ''starts_at'') (\<lambda>starts.
     and_then (parse_optional_rfc3339 ce (closes_at spec) ''closes_at'') (\<lambda>closes.
     and_then (guard_err (case closes of None \<Rightarrow> False | Some c \<Rightarrow> c \<le> starts)
       (ValidationErr ''closes_at must be later than starts_at'')) (\<lambda>_.
     and_then (guard_err (solution_publication spec = PubPublicAfterClose \<and> closes = None)
       (ValidationErr ''closes_at is required when solution_publication is public_after_close'')) (\<lambda>_.
     and_then (validate_optional_positive_limit (validation_submission_limit spec) ''validation_submission_limit'') (\<lambda>_.
     and_then (validate_optional_positive_limit (official_submission_limit spec) ''official_submission_limit'') (\<lambda>_.
     guard_err (any_validation_enabled spec \<and> validation_submission_limit spec = None)
       (ValidationErr ''validation_submission_limit is required when any target has validation_enabled true'')))))))"

definition validate_separated_evaluator_execution ::
  "contract_env \<Rightarrow> challenge_bundle_spec \<Rightarrow> separated_evaluator_execution \<Rightarrow> unit result" where
  "validate_separated_evaluator_execution ce spec x =
     and_then (case se_validation_setup x of None \<Rightarrow> Inr ()
       | Some su \<Rightarrow> validate_setup_spec ce su ''execution.validation_setup'' ModeSeparatedEvaluator) (\<lambda>_.
     and_then (case se_official_evaluation_setup x of None \<Rightarrow> Inr ()
       | Some su \<Rightarrow> validate_setup_spec ce su ''execution.official_evaluation_setup'' ModeSeparatedEvaluator) (\<lambda>_.
     and_then (guard_err (se_validation_runs x \<noteq> None \<and> se_validation_setup x \<noteq> None)
       (ValidationErr ''execution must not declare both validation_runs and validation_setup'')) (\<lambda>_.
     and_then (guard_err (se_official_runs x \<noteq> None \<and> se_official_evaluation_setup x \<noteq> None)
       (ValidationErr ''execution must not declare both official_runs and official_evaluation_setup'')) (\<lambda>_.
     and_then (guard_err (any_validation_enabled spec \<and> se_validation_runs x = None \<and> se_validation_setup x = None)
       (ValidationErr ''execution.validation_runs or execution.validation_setup is required when any target has validation_enabled true'')) (\<lambda>_.
     guard_err (ds_private_benchmark_enabled (datasets spec) \<and> se_official_runs x = None \<and> se_official_evaluation_setup x = None)
       (ValidationErr ''execution.official_runs or execution.official_evaluation_setup is required when private_benchmark_enabled is true''))))))"

definition piped_stdio_acknowledgement_message :: string where
  "piped_stdio_acknowledgement_message =
     ''execution.acknowledge_stdio_protocol_framing must be true for piped_stdio: the challenge author must document the stdin/stdout message protocol, including session start and termination, multi-case framing if used, EOF behavior, malformed participant output handling, and trusted evaluator result.json ownership.''"

definition validate_piped_stdio_execution ::
  "contract_env \<Rightarrow> challenge_bundle_spec \<Rightarrow> piped_stdio_execution \<Rightarrow> unit result" where
  "validate_piped_stdio_execution ce spec x =
     and_then (guard_err (\<not> acknowledge_stdio_protocol_framing x) (ValidationErr piped_stdio_acknowledgement_message)) (\<lambda>_.
     and_then (case ps_validation_setup x of None \<Rightarrow> Inr ()
       | Some su \<Rightarrow> validate_piped_stdio_setup_spec ce su ''execution.validation_setup'' ModePipedStdio) (\<lambda>_.
     and_then (case ps_official_evaluation_setup x of None \<Rightarrow> Inr ()
       | Some su \<Rightarrow> validate_piped_stdio_setup_spec ce su ''execution.official_evaluation_setup'' ModePipedStdio) (\<lambda>_.
     and_then (guard_err (ps_validation_session x \<noteq> None \<and> ps_validation_setup x \<noteq> None)
       (ValidationErr ''execution must not declare both validation_session and validation_setup'')) (\<lambda>_.
     and_then (guard_err (ps_official_session x \<noteq> None \<and> ps_official_evaluation_setup x \<noteq> None)
       (ValidationErr ''execution must not declare both official_session and official_evaluation_setup'')) (\<lambda>_.
     and_then (guard_err (any_validation_enabled spec \<and> ps_validation_session x = None \<and> ps_validation_setup x = None)
       (ValidationErr ''execution.validation_session or execution.validation_setup is required when any target has validation_enabled true'')) (\<lambda>_.
     guard_err (ds_private_benchmark_enabled (datasets spec) \<and> ps_official_session x = None \<and> ps_official_evaluation_setup x = None)
       (ValidationErr ''execution.official_session or execution.official_evaluation_setup is required when private_benchmark_enabled is true'')))))))"

definition validate_coexecuted_benchmark_execution ::
  "contract_env \<Rightarrow> coexecuted_benchmark_execution \<Rightarrow> unit result" where
  "validate_coexecuted_benchmark_execution ce x =
     and_then (guard_err (\<not> acknowledge_danger x) (ValidationErr ''execution.acknowledge_danger must be true for coexecuted_benchmark'')) (\<lambda>_.
     and_then (case cb_validation_setup x of None \<Rightarrow> Inr ()
       | Some su \<Rightarrow> validate_coexecuted_benchmark_setup_spec ce su ''execution.validation_setup'' ModeCoexecutedBenchmark) (\<lambda>_.
     (case cb_official_evaluation_setup x of None \<Rightarrow> Inr ()
       | Some su \<Rightarrow> validate_coexecuted_benchmark_setup_spec ce su ''execution.official_evaluation_setup'' ModeCoexecutedBenchmark)))"

fun validate_run_stages_from :: "challenge_execution_mode \<Rightarrow> nat \<Rightarrow> challenge_target_spec list \<Rightarrow> unit result" where
  "validate_run_stages_from mode i [] = Inr ()"
| "validate_run_stages_from mode i (t # ts) =
     (let field = ''targets['' @ show_nat i @ ''].resource_profile.solution.run''; run = sp_run (rp_solution (resource_profile t))
      in and_then (if mode = ModeCoexecutedBenchmark
                   then guard_err (run \<noteq> None) (ValidationErr (field @ '' is forbidden for coexecuted_benchmark execution''))
                   else guard_err (run = None) (ValidationErr (field @ '' is required for '' @ execution_mode_name mode @ '' execution''))) (\<lambda>_.
         validate_run_stages_from mode (Suc i) ts))"

definition validate_solution_run_stage_policy :: "challenge_bundle_spec \<Rightarrow> unit result" where
  "validate_solution_run_stage_policy spec = validate_run_stages_from (execution_mode (execution spec)) 0 (targets spec)"

definition validate_execution :: "contract_env \<Rightarrow> challenge_bundle_spec \<Rightarrow> unit result" where
  "validate_execution ce spec =
     and_then (case execution spec of
         SeparatedEvaluator x \<Rightarrow> validate_separated_evaluator_execution ce spec x
       | PipedStdio x \<Rightarrow> validate_piped_stdio_execution ce spec x
       | CoexecutedBenchmark x \<Rightarrow> validate_coexecuted_benchmark_execution ce x) (\<lambda>_.
     validate_solution_run_stage_policy spec)"

fun execution_uses_static_official_locator :: "challenge_execution_spec \<Rightarrow> bool" where
  "execution_uses_static_official_locator (SeparatedEvaluator x) = (se_official_runs x \<noteq> None)"
| "execution_uses_static_official_locator (PipedStdio x) = (ps_official_session x \<noteq> None)"
| "execution_uses_static_official_locator (CoexecutedBenchmark _) = False"

fun validate_metrics_from :: "metric_name set \<Rightarrow> metric_definition list \<Rightarrow> unit result" where
  "validate_metrics_from names [] = Inr ()"
| "validate_metrics_from names (m # ms) =
     and_then (require_non_empty (md_label m) ''metric_schema.metrics[].label'') (\<lambda>_.
     and_then (case md_unit m of None \<Rightarrow> Inr () | Some u \<Rightarrow> require_non_empty u ''metric_schema.metrics[].unit'') (\<lambda>_.
     and_then (case md_description m of None \<Rightarrow> Inr () | Some d \<Rightarrow> require_non_empty d ''metric_schema.metrics[].metric_description'') (\<lambda>_.
     and_then (guard_err (md_name m \<in> names)
       (ValidationErr (''metric_schema.metrics contains duplicate name `'' @ md_name m @ ''`''))) (\<lambda>_.
     validate_metrics_from (insert (md_name m) names) ms))))"

fun validate_tie_breakers_from :: "metric_name set \<Rightarrow> metric_name \<Rightarrow> metric_name set \<Rightarrow> metric_name list \<Rightarrow> unit result" where
  "validate_tie_breakers_from names primary seen [] = Inr ()"
| "validate_tie_breakers_from names primary seen (n # ns) =
     and_then (guard_err (n = primary)
       (ValidationErr ''metric_schema.ranking.tie_breaker_metric_names must not repeat the primary metric'')) (\<lambda>_.
     and_then (guard_err (n \<notin> names)
       (ValidationErr (''metric_schema.ranking.tie_breaker_metric_names references unknown metric `'' @ n @ ''`''))) (\<lambda>_.
     and_then (guard_err (n \<in> seen)
       (ValidationErr (''metric_schema.ranking.tie_breaker_metric_names contains duplicate metric `'' @ n @ ''`''))) (\<lambda>_.
     validate_tie_breakers_from names primary (insert n seen) ns)))"

definition validate_metric_schema :: "metric_schema \<Rightarrow> unit result" where
  "validate_metric_schema schema =
     (let names = set (map md_name (metrics schema)); primary = primary_metric_name (ranking schema)
      in and_then (guard_err (metrics schema = []) (ValidationErr ''metric_schema.metrics must not be empty'')) (\<lambda>_.
         and_then (validate_metrics_from {} (metrics schema)) (\<lambda>_.
         and_then (guard_err (primary \<notin> names)
           (ValidationErr (''metric_schema.ranking.primary_metric_name references unknown metric `'' @ primary @ ''`''))) (\<lambda>_.
         validate_tie_breakers_from names primary {} (tie_breaker_metric_names (ranking schema))))))"

definition validate_challenge_bundle_spec :: "contract_env \<Rightarrow> challenge_bundle_spec \<Rightarrow> unit result" where
  "validate_challenge_bundle_spec ce spec =
     and_then (require_non_empty (challenge_title spec) ''challenge_title'') (\<lambda>_.
     and_then (require_non_empty (lt_en (summary spec)) ''summary.en'') (\<lambda>_.
     and_then (require_non_empty (lt_zh (summary spec)) ''summary.zh'') (\<lambda>_.
     and_then (validate_challenge_keywords ce spec) (\<lambda>_.
     and_then (validate_garde (bundle_report ce spec) ''spec'') (\<lambda>_.
     and_then (guard_err (schema_version spec \<noteq> 1) (ValidationErr ''schema_version must be 1'')) (\<lambda>_.
     and_then (guard_err (protocol (solution spec) \<noteq> ''zip_project'') (ValidationErr ''solution.protocol must be zip_project'')) (\<lambda>_.
     and_then (guard_err (manifest_file (solution spec) \<noteq> [''agentics.solution.json''])
       (ValidationErr ''solution.manifest_file must be agentics.solution.json'')) (\<lambda>_.
     and_then (case execution spec of
         SeparatedEvaluator x \<Rightarrow> validate_evaluator_spec ce (separated_evaluator x) ''execution.separated_evaluator'' ModeSeparatedEvaluator
       | PipedStdio x \<Rightarrow> validate_evaluator_spec ce (interactive_evaluator x) ''execution.interactive_evaluator'' ModePipedStdio
       | CoexecutedBenchmark x \<Rightarrow> validate_evaluator_spec ce (coexecuted_evaluator x) ''execution.coexecuted_evaluator'' ModeCoexecutedBenchmark) (\<lambda>_.
     and_then (validate_targets ce spec) (\<lambda>_.
     and_then (validate_challenge_policy ce spec) (\<lambda>_.
     and_then (validate_execution ce spec) (\<lambda>_.
     and_then (guard_err (ds_private_benchmark_policy (datasets spec) \<noteq> PrivateScoreOnly)
       (ValidationErr ''datasets.private_benchmark_policy must be score_only'')) (\<lambda>_.
     and_then (guard_err (ds_private_benchmark_enabled (datasets spec) \<and> ds_private_benchmark_dir (datasets spec) = None
         \<and> execution_uses_static_official_locator (execution spec))
       (ValidationErr ''datasets.private_benchmark_dir is required when private_benchmark_enabled uses a static official run or session manifest'')) (\<lambda>_.
     validate_metric_schema (metric_schema spec)))))))))))))))"

end
