(* ===== verification/Contract_Guarantees.thy ===== *)
theory Contract_Guarantees
  imports Bundle_Validation Leaderboard Evaluation_Policy
begin

text \<open>
  What the contract validator accepts. The checks of \<open>Bundle_Validation\<close> run in sequence and stop at the
  first failure; together they accept exactly the contracts described here in one formula, and an accepted
  contract has what the rest of the system takes for granted.
\<close>

section \<open>The description\<close>

definition visible :: "string \<Rightarrow> bool" where
  "visible v = (trim v \<noteq> [])"

definition opt_visible :: "string option \<Rightarrow> bool" where
  "opt_visible v = (\<forall>s. v = Some s \<longrightarrow> visible s)"

definition command_ok :: "challenge_execution_mode \<Rightarrow> string list \<Rightarrow> bool" where
  "command_ok mode command =
     (command \<noteq> [] \<and> (\<forall>part \<in> set command. visible part \<and> CHR 0x00 \<notin> set part)
      \<and> (\<forall>script. declared_evaluator_script command = Some script \<longrightarrow> starts_with script (runtime_name mode @ ''/'')))"

definition setup_ok :: "challenge_execution_mode \<Rightarrow> string list \<Rightarrow> string option \<Rightarrow> bool" where
  "setup_ok mode command notes = (command_ok mode command \<and> opt_visible notes)"

definition stage_ok :: "stage_resource_profile \<Rightarrow> bool" where
  "stage_ok s = (timeout_sec s \<ge> 1 \<and> memory_limit_mb s \<ge> 1 \<and> cpu_limit_millis s \<ge> 1 \<and> disk_limit_mb s \<ge> 1)"

definition hardware_ok :: "hardware_profile_spec \<Rightarrow> bool" where
  "hardware_ok h =
     (visible (hw_kind h) \<and> opt_visible (gpu_model h) \<and> gpu_count h \<noteq> Some 0 \<and> gpu_memory_gb h \<noteq> Some 0
      \<and> opt_visible (cuda_variant h) \<and> opt_visible (cuda_version h) \<and> opt_visible (driver_minimum h))"

definition profile_ok :: "resource_profile_spec \<Rightarrow> bool" where
  "profile_ok p =
     (opt_visible (resource_description p) \<and> stage_ok (sp_setup (rp_solution p)) \<and> stage_ok (sp_build (rp_solution p))
      \<and> (\<forall>r. sp_run (rp_solution p) = Some r \<longrightarrow> stage_ok r)
      \<and> stage_ok (ep_setup (rp_evaluator p)) \<and> stage_ok (ep_run (rp_evaluator p))
      \<and> (\<forall>h. hardware_metadata p = Some h \<longrightarrow> hardware_ok h))"

definition image_of_family :: "string list \<Rightarrow> string \<Rightarrow> challenge_image_reference \<Rightarrow> bool" where
  "image_of_family repositories tag_prefix img = (policy_repository img \<in> set repositories \<and> starts_with (image_tag img) tag_prefix)"

definition cuda_hardware :: "hardware_profile_spec \<Rightarrow> string \<Rightarrow> bool" where
  "cuda_hardware h variant =
     (hw_kind h = ''cuda'' \<and> (\<exists>m. gpu_model h = Some m \<and> visible m) \<and> (\<exists>n. gpu_count h = Some n \<and> n \<noteq> 0)
      \<and> cuda_variant h = Some variant \<and> visible variant
      \<and> (\<exists>v. cuda_version h = Some v \<and> visible v \<and> (variant, v) \<in> set supported_cuda_variants))"

definition hosted_target :: "challenge_target_spec \<Rightarrow> bool" where
  "hosted_target t =
     (docker_platform t = LinuxArm64 \<and> profile_ok (resource_profile t)
      \<and> (let imgs = {solution_image (resource_profile t), evaluator_image (resource_profile t)}
         in (tg_name t = ''linux-arm64-cpu'' \<and> accelerator t = AccNone
               \<and> (\<forall>i \<in> imgs. image_of_family supported_cpu_image_repositories ''ubuntu26.04-'' i))
          \<or> (tg_name t = ''linux-arm64-cuda'' \<and> accelerator t = AccGpu
               \<and> (\<exists>h variant. hardware_metadata (resource_profile t) = Some h \<and> cuda_hardware h variant
                    \<and> (\<forall>i \<in> imgs. image_of_family supported_cuda_image_repositories (variant @ ''-'') i)))))"

definition window_ok :: "contract_env \<Rightarrow> challenge_bundle_spec \<Rightarrow> bool" where
  "window_ok ce spec =
     (\<exists>s. ce_rfc3339 ce (starts_at spec) = Inr s
        \<and> (case closes_at spec of
             None \<Rightarrow> solution_publication spec \<noteq> PubPublicAfterClose
           | Some c \<Rightarrow> \<exists>e. ce_rfc3339 ce c = Inr e \<and> s < e))"

definition limits_ok :: "challenge_bundle_spec \<Rightarrow> bool" where
  "limits_ok spec =
     ((\<forall>n. validation_submission_limit spec = Some n \<longrightarrow> n > 0) \<and> (\<forall>n. official_submission_limit spec = Some n \<longrightarrow> n > 0)
      \<and> (any_validation_enabled spec \<longrightarrow> validation_submission_limit spec \<noteq> None))"

text \<open>A static locator or a setup command, never both, and one of them when it is needed.\<close>

definition one_source :: "bool \<Rightarrow> 'a option \<Rightarrow> 'b option \<Rightarrow> bool" where
  "one_source needed locator setup = ((locator = None \<or> setup = None) \<and> (needed \<longrightarrow> locator \<noteq> None \<or> setup \<noteq> None))"

fun topology_ok :: "bool \<Rightarrow> bool \<Rightarrow> challenge_execution_spec \<Rightarrow> bool" where
  "topology_ok validating official (SeparatedEvaluator x) =
     ((\<forall>su. se_validation_setup x = Some su \<or> se_official_evaluation_setup x = Some su
        \<longrightarrow> setup_ok ModeSeparatedEvaluator (cs_command su) (cs_reproducibility_notes su))
      \<and> one_source validating (se_validation_runs x) (se_validation_setup x)
      \<and> one_source official (se_official_runs x) (se_official_evaluation_setup x))"
| "topology_ok validating official (PipedStdio x) =
     (acknowledge_stdio_protocol_framing x
      \<and> (\<forall>su. ps_validation_setup x = Some su \<or> ps_official_evaluation_setup x = Some su
        \<longrightarrow> setup_ok ModePipedStdio (pss_command su) (pss_reproducibility_notes su))
      \<and> one_source validating (ps_validation_session x) (ps_validation_setup x)
      \<and> one_source official (ps_official_session x) (ps_official_evaluation_setup x))"
| "topology_ok validating official (CoexecutedBenchmark x) =
     (acknowledge_danger x
      \<and> (\<forall>su. cb_validation_setup x = Some su \<or> cb_official_evaluation_setup x = Some su
        \<longrightarrow> setup_ok ModeCoexecutedBenchmark (cbs_command su) (cbs_reproducibility_notes su)))"

definition metric_schema_ok :: "metric_schema \<Rightarrow> bool" where
  "metric_schema_ok schema =
     (let names = map md_name (metrics schema); primary = primary_metric_name (ranking schema);
          ties = tie_breaker_metric_names (ranking schema)
      in (\<forall>m \<in> set (metrics schema). visible (md_label m) \<and> opt_visible (md_unit m) \<and> opt_visible (md_description m))
         \<and> distinct names \<and> primary \<in> set names \<and> distinct ties \<and> set ties \<subseteq> set names - {primary})"

definition contract_ok :: "contract_env \<Rightarrow> challenge_bundle_spec \<Rightarrow> bool" where
  "contract_ok ce spec =
     (visible (challenge_title spec) \<and> visible (lt_en (summary spec)) \<and> visible (lt_zh (summary spec))
      \<and> length (challenge_keywords spec) \<in> {1..6} \<and> distinct (map (ce_lowercase ce) (challenge_keywords spec))
      \<and> schema_version spec = 1 \<and> protocol (solution spec) = ''zip_project''
      \<and> manifest_file (solution spec) = [''agentics.solution.json'']
      \<and> command_ok (execution_mode (execution spec)) (ev_command (trusted_evaluator (execution spec)))
      \<and> targets spec \<noteq> [] \<and> distinct (map tg_name (targets spec)) \<and> (\<forall>t \<in> set (targets spec). hosted_target t)
      \<and> window_ok ce spec \<and> limits_ok spec
      \<and> topology_ok (any_validation_enabled spec) (ds_private_benchmark_enabled (datasets spec)) (execution spec)
      \<and> (\<forall>t \<in> set (targets spec). sp_run (rp_solution (resource_profile t)) = None
           \<longleftrightarrow> execution_mode (execution spec) = ModeCoexecutedBenchmark)
      \<and> (ds_private_benchmark_enabled (datasets spec) \<and> execution_uses_static_official_locator (execution spec)
           \<longrightarrow> ds_private_benchmark_dir (datasets spec) \<noteq> None)
      \<and> metric_schema_ok (metric_schema spec))"

section \<open>Each check accepts what the description says\<close>

named_theorems accepts \<open>what a check accepts\<close>

lemma require_non_empty_accepts [accepts]: "require_non_empty v field = Inr u \<longleftrightarrow> visible v"
  by (simp add: require_non_empty_def visible_def guard_err_eq_Inr)

lemma optional_check_accepts [accepts]:
  "(case v of None \<Rightarrow> Inr () | Some x \<Rightarrow> f x) = Inr u \<longleftrightarrow> (\<forall>x. v = Some x \<longrightarrow> f x = Inr ())"
  by (cases v) auto

lemma validate_garde_accepts [accepts]: "validate_garde r field = Inr u \<longleftrightarrow> r = []"
  by (simp add: validate_garde_def guard_err_eq_Inr)

lemma trimmed_non_empty_Nil [accepts]: "trimmed_non_empty path v = [] \<longleftrightarrow> visible v"
  by (simp add: trimmed_non_empty_def visible_def)

lemma optional_trimmed_Nil [accepts]: "optional_trimmed_non_empty path v = [] \<longleftrightarrow> opt_visible v"
  by (auto simp: optional_trimmed_non_empty_def opt_visible_def visible_def split: option.splits)

lemma no_nul_Nil [accepts]: "no_nul path v = [] \<longleftrightarrow> CHR 0x00 \<notin> set v"
  by (simp add: no_nul_def)

lemma range_Nil [accepts]: "range_min_one ce path v = [] \<longleftrightarrow> v \<ge> 1"
  by (auto simp: range_min_one_def)

lemma optional_range_Nil [accepts]: "optional_range_min_one ce path v = [] \<longleftrightarrow> v \<noteq> Some 0"
  by (auto simp: optional_range_min_one_def range_min_one_def split: option.splits)

lemma command_parts_Nil [accepts]:
  "command_parts_report i parts = [] \<longleftrightarrow> (\<forall>part \<in> set parts. visible part \<and> CHR 0x00 \<notin> set part)"
  by (induction i parts rule: command_parts_report.induct) (auto simp: accepts)

lemma command_Nil [accepts]:
  "command_report ce command = [] \<longleftrightarrow> command \<noteq> [] \<and> (\<forall>part \<in> set command. visible part \<and> CHR 0x00 \<notin> set part)"
  by (auto simp: command_report_def accepts)

lemma script_runtime_accepts [accepts]:
  "validate_declared_script_runtime command field mode = Inr u \<longleftrightarrow>
     (\<forall>script. declared_evaluator_script command = Some script \<longrightarrow> starts_with script (runtime_name mode @ ''/''))"
  by (auto simp: validate_declared_script_runtime_def guard_err_eq_Inr split: option.splits)

lemma evaluator_accepts [accepts]: "validate_evaluator_spec ce e field mode = Inr u \<longleftrightarrow> command_ok mode (ev_command e)"
  by (auto simp: validate_evaluator_spec_def and_then_eq_Inr evaluator_report_def accepts command_ok_def)

lemma setup_accepts [accepts]: "validate_setup_command ce command notes field mode = Inr u \<longleftrightarrow> setup_ok mode command notes"
  by (auto simp: validate_setup_command_def and_then_eq_Inr setup_report_def accepts command_ok_def setup_ok_def)

lemma stage_accepts [accepts]: "validate_stage_resource_profile ce s field = Inr u \<longleftrightarrow> stage_ok s"
  by (auto simp: validate_stage_resource_profile_def stage_report_def accepts stage_ok_def)

lemma hardware_accepts [accepts]: "validate_hardware_profile ce h field = Inr u \<longleftrightarrow> hardware_ok h"
  by (auto simp: validate_hardware_profile_def hardware_report_def accepts hardware_ok_def)

lemma profile_accepts [accepts]: "validate_resource_profile ce p field = Inr u \<longleftrightarrow> profile_ok p"
  by (auto simp: validate_resource_profile_def and_then_eq_Inr resource_profile_report_def accepts profile_ok_def opt_visible_def)

lemma image_accepts [accepts]:
  "validate_supported_image_reference img field NoAccelerator = Inr u \<longleftrightarrow> image_of_family supported_cpu_image_repositories ''ubuntu26.04-'' img"
  "validate_supported_image_reference img field (Accelerator variant) = Inr u
     \<longleftrightarrow> image_of_family supported_cuda_image_repositories (variant @ ''-'') img"
  by (simp_all add: validate_supported_image_reference_def require_supported_image_repository_def image_of_family_def
      and_then_eq_Inr guard_err_eq_Inr)

lemma required_string_accepts [accepts]:
  "require_required_optional_string v field = Inr s \<longleftrightarrow> v = Some s \<and> visible s"
  by (auto simp: require_required_optional_string_def and_then_eq_Inr accepts split: option.splits)

lemma cuda_version_iff: "cuda_version_for_variant variant = Some v \<longleftrightarrow> (variant, v) \<in> set supported_cuda_variants"
  by (auto simp: cuda_version_for_variant_def supported_cuda_variants_def)

lemma cuda_accepts [accepts]:
  "validate_cuda_hardware hw field = Inr variant \<longleftrightarrow> (\<exists>h. hw = Some h \<and> cuda_hardware h variant)"
  by (cases hw) (auto simp: validate_cuda_hardware_def result_simps accepts cuda_hardware_def cuda_version_iff validate_positive_u32_def)

lemma target_accepts:
  "validate_submission_target_policy t field = Inr u \<and> validate_target ce t field' = Inr v \<longleftrightarrow> hosted_target t"
  by (cases "accelerator t")
    (auto simp: validate_submission_target_policy_def require_target_shape_def validate_target_def validate_supported_target_images_def
      result_simps accepts hosted_target_def Let_def)

lemma targets_accept [accepts]:
  "validate_targets_from ce i seen ts = Inr u \<longleftrightarrow>
     distinct (map tg_name ts) \<and> tg_name ` set ts \<inter> seen = {} \<and> (\<forall>t \<in> set ts. hosted_target t)"
proof (induction ts arbitrary: i seen)
  case (Cons t ts)
  let ?f = "''targets['' @ show_nat i @ '']''"
  have "validate_targets_from ce i seen (t # ts) = Inr u \<longleftrightarrow>
      (validate_submission_target_policy t ?f = Inr () \<and> validate_target ce t ?f = Inr ())
      \<and> tg_name t \<notin> seen \<and> validate_targets_from ce (Suc i) (insert (tg_name t) seen) ts = Inr u"
    by (auto simp: Let_def result_simps)
  also have "\<dots> \<longleftrightarrow> hosted_target t \<and> tg_name t \<notin> seen \<and> distinct (map tg_name ts)
      \<and> tg_name ` set ts \<inter> insert (tg_name t) seen = {} \<and> (\<forall>t \<in> set ts. hosted_target t)"
    by (simp only: target_accepts Cons.IH)
  also have "\<dots> \<longleftrightarrow> distinct (map tg_name (t # ts)) \<and> tg_name ` set (t # ts) \<inter> seen = {} \<and> (\<forall>t \<in> set (t # ts). hosted_target t)"
    by auto
  finally show ?case .
qed simp

lemma keywords_accept [accepts]:
  "validate_challenge_keywords ce spec = Inr u \<longleftrightarrow>
     length (challenge_keywords spec) \<in> {1..6} \<and> distinct (map (ce_lowercase ce) (challenge_keywords spec))"
  by (auto simp: validate_challenge_keywords_def result_simps reject_duplicates_ok)

lemma required_time_accepts [accepts]: "parse_required_rfc3339 ce v field = Inr t \<longleftrightarrow> ce_rfc3339 ce v = Inr t"
  by (auto simp: parse_required_rfc3339_def split: sum.splits)

lemma optional_time_accepts [accepts]:
  "parse_optional_rfc3339 ce v field = Inr t \<longleftrightarrow>
     (case v of None \<Rightarrow> t = None | Some s \<Rightarrow> \<exists>e. ce_rfc3339 ce s = Inr e \<and> t = Some e)"
  by (auto simp: parse_optional_rfc3339_def and_then_eq_Inr accepts split: option.splits)

lemma limit_accepts [accepts]: "validate_optional_positive_limit v field = Inr u \<longleftrightarrow> (\<forall>n. v = Some n \<longrightarrow> n > 0)"
  by (auto simp: validate_optional_positive_limit_def guard_err_eq_Inr split: option.splits)

lemma policy_accepts [accepts]: "validate_challenge_policy ce spec = Inr u \<longleftrightarrow> window_ok ce spec \<and> limits_ok spec"
  by (cases "closes_at spec")
    (auto simp: validate_challenge_policy_def and_then_eq_Inr guard_err_eq_Inr accepts window_ok_def limits_ok_def)

lemma run_stages_accept [accepts]:
  "validate_run_stages_from mode i ts = Inr u \<longleftrightarrow>
     (\<forall>t \<in> set ts. sp_run (rp_solution (resource_profile t)) = None \<longleftrightarrow> mode = ModeCoexecutedBenchmark)"
  by (induction mode i ts rule: validate_run_stages_from.induct) (auto simp: Let_def and_then_eq_Inr guard_err_eq_Inr split: if_splits)

lemma separated_accepts [accepts]:
  "validate_separated_evaluator_execution ce spec x = Inr u \<longleftrightarrow>
     topology_ok (any_validation_enabled spec) (ds_private_benchmark_enabled (datasets spec)) (SeparatedEvaluator x)"
  by (auto simp: validate_separated_evaluator_execution_def and_then_eq_Inr guard_err_eq_Inr accepts validate_setup_spec_def one_source_def)

lemma piped_accepts [accepts]:
  "validate_piped_stdio_execution ce spec x = Inr u \<longleftrightarrow>
     topology_ok (any_validation_enabled spec) (ds_private_benchmark_enabled (datasets spec)) (PipedStdio x)"
  by (auto simp: validate_piped_stdio_execution_def and_then_eq_Inr guard_err_eq_Inr accepts validate_piped_stdio_setup_spec_def one_source_def)

lemma coexecuted_accepts [accepts]:
  "validate_coexecuted_benchmark_execution ce x = Inr u \<longleftrightarrow> topology_ok validating official (CoexecutedBenchmark x)"
  by (auto simp: validate_coexecuted_benchmark_execution_def and_then_eq_Inr guard_err_eq_Inr accepts validate_coexecuted_benchmark_setup_spec_def)

lemma execution_accepts [accepts]:
  "validate_execution ce spec = Inr u \<longleftrightarrow>
     topology_ok (any_validation_enabled spec) (ds_private_benchmark_enabled (datasets spec)) (execution spec)
     \<and> (\<forall>t \<in> set (targets spec). sp_run (rp_solution (resource_profile t)) = None
          \<longleftrightarrow> execution_mode (execution spec) = ModeCoexecutedBenchmark)"
  by (cases "execution spec")
    (simp_all add: validate_execution_def and_then_eq_Inr validate_solution_run_stage_policy_def run_stages_accept
      separated_accepts piped_accepts coexecuted_accepts
        [of ce _ "()" "any_validation_enabled spec" "ds_private_benchmark_enabled (datasets spec)"])

lemma metrics_accept [accepts]:
  "validate_metrics_from seen ms = Inr u \<longleftrightarrow>
     (\<forall>m \<in> set ms. visible (md_label m) \<and> opt_visible (md_unit m) \<and> opt_visible (md_description m))
     \<and> distinct (map md_name ms) \<and> md_name ` set ms \<inter> seen = {}"
  by (induction ms arbitrary: seen) (auto simp: and_then_eq_Inr guard_err_eq_Inr accepts opt_visible_def)

lemma tie_breakers_accept [accepts]:
  "validate_tie_breakers_from names primary seen ns = Inr u \<longleftrightarrow>
     distinct ns \<and> set ns \<inter> seen = {} \<and> set ns \<subseteq> names - {primary}"
  by (induction ns arbitrary: seen) (auto simp: and_then_eq_Inr guard_err_eq_Inr)

lemma metric_schema_accepts [accepts]: "validate_metric_schema schema = Inr u \<longleftrightarrow> metric_schema_ok schema"
proof -
  have "primary_metric_name (ranking schema) \<in> set (map md_name (metrics schema)) \<Longrightarrow> metrics schema \<noteq> []" by auto
  then show ?thesis
    unfolding validate_metric_schema_def metric_schema_ok_def Let_def
    by (simp add: and_then_eq_Inr guard_err_eq_Inr metrics_accept tie_breakers_accept) blast
qed

lemma trusted_evaluator_accepts:
  "(case execution spec of
      SeparatedEvaluator x \<Rightarrow> validate_evaluator_spec ce (separated_evaluator x) f ModeSeparatedEvaluator
    | PipedStdio x \<Rightarrow> validate_evaluator_spec ce (interactive_evaluator x) g ModePipedStdio
    | CoexecutedBenchmark x \<Rightarrow> validate_evaluator_spec ce (coexecuted_evaluator x) h ModeCoexecutedBenchmark) = Inr u
   \<longleftrightarrow> command_ok (execution_mode (execution spec)) (ev_command (trusted_evaluator (execution spec)))"
  by (cases "execution spec") (simp_all add: evaluator_accepts)

lemma validate_challenge_bundle_spec_iff:
  "validate_challenge_bundle_spec ce spec = Inr () \<longleftrightarrow> contract_ok ce spec"
proof -
  have garde: "bundle_report ce spec = []" if "length (challenge_keywords spec) \<in> {1..6}"
    using that by (auto simp: bundle_report_def)
  have policy: "ds_private_benchmark_policy (datasets spec) = PrivateScoreOnly"
    by (cases "ds_private_benchmark_policy (datasets spec)")
  have tgts: "validate_targets ce spec = Inr v \<longleftrightarrow>
      targets spec \<noteq> [] \<and> distinct (map tg_name (targets spec)) \<and> (\<forall>t \<in> set (targets spec). hosted_target t)" for v
    by (simp add: validate_targets_def and_then_eq_Inr guard_err_eq_Inr targets_accept)
  show ?thesis
    unfolding validate_challenge_bundle_spec_def contract_ok_def
    by (simp add: and_then_eq_Inr guard_err_eq_Inr trusted_evaluator_accepts require_non_empty_accepts keywords_accept
        validate_garde_accepts tgts policy_accepts execution_accepts metric_schema_accepts policy)
      (use garde in auto)
qed

section \<open>The validator accepts exactly the described contracts\<close>

text \<open>
  C35. The contract validator, a sequence of some forty checks that stops at the first failure, accepts
  exactly the contracts of the description: visible texts, distinct keywords, a trusted command whose script
  lives in the directory of its execution mode, distinct hosted targets with positive limits and images of
  the target's family (for GPU targets of the declared CUDA variant), a window that closes after it starts,
  positive submission limits, exactly the inputs that validation and official runs need, a run stage exactly
  when the mode has one, and a metric schema with distinct declared metrics whose ranking uses each at most
  once.
\<close>

theorem contract_accepted_iff:
  "validate_challenge_bundle_spec ce spec = Inr () \<longleftrightarrow> contract_ok ce spec"
  by (rule validate_challenge_bundle_spec_iff)

text \<open>A contract that is accepted.\<close>

definition example_contract_env :: contract_env where
  "example_contract_env = \<lparr>ce_length_message = ''length'', ce_range_message = ''range'', ce_rfc3339 = (\<lambda>_. Inr 0), ce_lowercase = id\<rparr>"

definition accepted_contract :: challenge_bundle_spec where
  "accepted_contract = example_spec\<lparr>summary := \<lparr>lt_en = ''Add'', lt_zh = ''Jia''\<rparr>, validation_submission_limit := Some 5\<rparr>"

lemma visible_printable: "s \<noteq> [] \<Longrightarrow> \<forall>c \<in> set s. 33 \<le> byte_of c \<and> byte_of c < 128 \<Longrightarrow> visible s"
  by (simp add: visible_def trim_printable)

lemma example_target_hosted: "hosted_target example_target"
  by (simp add: hosted_target_def example_target_def profile_ok_def stage_ok_def example_stage_def opt_visible_def image_of_family_def
      example_image_def supported_cpu_image_repositories_def)

lemma accepted_contract_ok: "contract_ok example_contract_env accepted_contract"
proof -
  have title: "visible ''Sample Sum''"
  proof -
    have "trim_step whitespace_encodings ''Sample Sum'' = None"
      "trim_step (map rev whitespace_encodings) (rev ''Sample Sum'') = None" by code_simp+
    then have "trim ''Sample Sum'' = ''Sample Sum''"
      by (simp add: trim_def trim_start_def trim_end_def trim_by.simps)
    then show ?thesis by (simp add: visible_def)
  qed
  have words: "visible ''Add''" "visible ''Jia''" "visible ''python3''" "visible ''Score''"
    by (rule visible_printable; simp add: byte_of_def)+
  have descr: "visible ''Challenge-defined compatibility score.''"
  proof -
    have "trim_step whitespace_encodings ''Challenge-defined compatibility score.'' = None"
      "trim_step (map rev whitespace_encodings) (rev ''Challenge-defined compatibility score.'') = None" by code_simp+
    then have "trim ''Challenge-defined compatibility score.'' = ''Challenge-defined compatibility score.''"
      by (simp add: trim_def trim_start_def trim_end_def trim_by.simps)
    then show ?thesis by (simp add: visible_def)
  qed
  have script: "declared_evaluator_script [''python3''] = None"
    by (simp add: declared_evaluator_script_def is_safe_relative_path_def)
  have tgt: "sp_run (rp_solution (resource_profile example_target)) \<noteq> None" "validation_enabled example_target"
    "tg_name example_target = ''linux-arm64-cpu''" by (simp_all add: example_target_def)
  show ?thesis
    using title words descr script tgt example_target_hosted
    by (simp add: contract_ok_def accepted_contract_def example_spec_def example_contract_env_def command_ok_def window_ok_def
        limits_ok_def one_source_def metric_schema_ok_def default_metric_schema_def opt_visible_def)
qed

section \<open>What the rest of the system gets from an accepted contract\<close>

lemma accepted_ranking:
  assumes "metric_schema_ok schema"
  shows "primary_metric schema \<noteq> None" and "map fst (ranking_order_metrics schema) =
    primary_metric_name (ranking schema) # tie_breaker_metric_names (ranking schema)"
proof -
  have known: "\<exists>m. metric schema n = Some m \<and> md_name m = n" if "n \<in> set (map md_name (metrics schema))" for n
  proof -
    have "metric schema n \<noteq> None" using that by (auto simp: metric_def find_None_iff)
    then show ?thesis using metric_name_eq by blast
  qed
  have names: "set (primary_metric_name (ranking schema) # tie_breaker_metric_names (ranking schema)) \<subseteq> set (map md_name (metrics schema))"
    using assms by (auto simp: metric_schema_ok_def Let_def)
  show "primary_metric schema \<noteq> None" using known [of "primary_metric_name (ranking schema)"] names by (auto simp: primary_metric_def)
  have "map fst (List.map_filter (\<lambda>n. map_option (\<lambda>d. (md_name d, md_direction d)) (metric schema n)) ns) = ns"
    if "set ns \<subseteq> set (map md_name (metrics schema))" for ns
    using that
  proof (induction ns)
    case (Cons n ns)
    then show ?case using known [of n] by (auto simp: List.map_filter_simps)
  qed (simp add: List.map_filter_simps)
  from this [OF names] show "map fst (ranking_order_metrics schema) =
    primary_metric_name (ranking schema) # tie_breaker_metric_names (ranking schema)" unfolding ranking_order_metrics_def .
qed

lemma validated_metric_schema: "validate_challenge_bundle_spec ce spec = Inr () \<Longrightarrow> metric_schema_ok (metric_schema spec)"
  by (simp add: validate_challenge_bundle_spec_iff contract_ok_def)

lemma validated_primary_metric: "validate_challenge_bundle_spec ce spec = Inr () \<Longrightarrow> primary_metric (metric_schema spec) \<noteq> None"
  by (rule accepted_ranking(1) [OF validated_metric_schema])

text \<open>
  C36. The ranking of a published challenge means the same in the database and in the code: under a contract
  that passed validation, the \<open>ORDER BY\<close> assembled for the listing has one term for each ranking metric in the
  declared order, none dropped, and on finite results it is the comparator that the upsert and the repair
  use.
\<close>

theorem validated_contract_ranks_alike:
  assumes "validate_challenge_bundle_spec ce spec = Inr ()" and "finite_payload a" and "finite_payload b"
  shows "map fst (ranking_order_metrics (metric_schema spec))
      = primary_metric_name (ranking (metric_schema spec)) # tie_breaker_metric_names (ranking (metric_schema spec))
    \<and> sql_ranking_cmp (ranking_order_metrics (metric_schema spec)) a b = compare_metric_payloads_by_ranking (metric_schema spec) a b"
proof -
  note ok = validated_metric_schema [OF assms(1)]
  show ?thesis using accepted_ranking [OF ok] sql_ranking_cmp_eq [OF accepted_ranking(1) [OF ok] assms(2,3)] by simp
qed

lemma window_error_is_client_error:
  assumes "ensure_challenge_accepts_submissions env spec = Inl e" and "env_parse_rfc3339 env (starts_at spec) = Inr s"
    and "closes_at spec = None \<or> (\<exists>v t. closes_at spec = Some v \<and> env_parse_rfc3339 env v = Inr t)"
  shows "\<not> is_internal e"
  using assms
  by (auto simp: ensure_challenge_accepts_submissions_def parse_required_challenge_time_def parse_challenge_time_def
      guard_err_def is_internal_def split: if_splits)

lemma eligibility_error_is_client_error: "ensure_challenge_eligibility_tx n spec a db = Inl e \<Longrightarrow> \<not> is_internal e"
  by (cases "eligibility_type spec")
    (auto simp: ensure_challenge_eligibility_tx_def and_then_eq_Inl guard_err_eq_Inl is_internal_def)

lemma target_error_is_client_error: "ensure_target_supports_eval_type spec t mode = Inl e \<Longrightarrow> \<not> is_internal e"
  by (auto simp: ensure_target_supports_eval_type_def and_then_eq_Inl guard_err_eq_Inl ok_or_eq_Inl is_internal_def)

text \<open>
  Admission never trips over a contract that passed validation: with the same date parser its window
  check and its target check fail only with errors of the client, never with an internal one; the window
  admits at least one instant; a target with validation enabled supports validation and comes with a
  submission limit; and when the private benchmark is enabled every declared target supports official runs.
\<close>

lemma validated_contract_is_admissible:
  assumes ok: "validate_challenge_bundle_spec ce spec = Inr ()" and parse: "env_parse_rfc3339 env = ce_rfc3339 ce"
  shows "(\<forall>e. ensure_challenge_supports_eval_type_tx env n spec t mode a db = Inl e \<longrightarrow> \<not> is_internal e)
    \<and> (\<exists>now. window_open (env\<lparr>env_utc_now := now\<rparr>) spec)
    \<and> (\<forall>ts \<in> set (targets spec).
         (validation_enabled ts \<longrightarrow> mode_supported spec (tg_name ts) Validation \<and> validation_submission_limit spec \<noteq> None)
       \<and> (ds_private_benchmark_enabled (datasets spec) \<longrightarrow> mode_supported spec (tg_name ts) Official))"
proof (intro conjI allI impI ballI)
  have c: "contract_ok ce spec" using ok by (simp add: validate_challenge_bundle_spec_iff)
  then have w: "window_ok ce spec" and lim: "limits_ok spec" and dist: "distinct (map tg_name (targets spec))"
    and top: "topology_ok (any_validation_enabled spec) (ds_private_benchmark_enabled (datasets spec)) (execution spec)"
    by (simp_all add: contract_ok_def)
  from w obtain s where s: "ce_rfc3339 ce (starts_at spec) = Inr s"
    and closes: "closes_at spec = None \<or> (\<exists>v e. closes_at spec = Some v \<and> ce_rfc3339 ce v = Inr e \<and> s < e)"
    by (cases "closes_at spec") (auto simp: window_ok_def)
  show "\<not> is_internal e" if "ensure_challenge_supports_eval_type_tx env n spec t mode a db = Inl e" for e
  proof -
    have "\<not> is_internal e" if "ensure_challenge_accepts_submissions env spec = Inl e"
      by (rule window_error_is_client_error [OF that]) (use s closes parse in auto)
    then show ?thesis
      using that eligibility_error_is_client_error target_error_is_client_error
      by (auto simp: ensure_challenge_supports_eval_type_tx_def and_then_eq_Inl)
  qed
  show "\<exists>now. window_open (env\<lparr>env_utc_now := now\<rparr>) spec"
    using s closes parse by (intro exI [of _ s]) (auto simp: window_open_def split: option.splits)
  fix ts assume ts: "ts \<in> set (targets spec)"
  have found: "target spec (tg_name ts) = Some ts"
  proof -
    have "find (\<lambda>c. tg_name c = tg_name ts) cs = Some ts" if "distinct (map tg_name cs)" "ts \<in> set cs" for cs
      using that by (induction cs) auto
    then show ?thesis using ts dist by (simp add: target_def)
  qed
  show "mode_supported spec (tg_name ts) Validation" "validation_submission_limit spec \<noteq> None" if "validation_enabled ts"
    using that ts lim found by (auto simp: mode_supported_def limits_ok_def any_validation_enabled_def list_ex_iff)
  show "mode_supported spec (tg_name ts) Official" if "ds_private_benchmark_enabled (datasets spec)"
    using that top found by (cases "execution spec") (auto simp: mode_supported_def one_source_def)
qed

theorem validated_contract_ranks_alike_witness:
  "map fst (ranking_order_metrics (metric_schema accepted_contract)) = [''score'']
   \<and> sql_ranking_cmp (ranking_order_metrics (metric_schema accepted_contract)) [\<lparr>mv_name = ''score'', mv_value = Fin 9\<rparr>]
       [\<lparr>mv_name = ''score'', mv_value = Fin 7\<rparr>]
     = compare_metric_payloads_by_ranking (metric_schema accepted_contract) [\<lparr>mv_name = ''score'', mv_value = Fin 9\<rparr>]
       [\<lparr>mv_name = ''score'', mv_value = Fin 7\<rparr>]"
proof -
  have "validate_challenge_bundle_spec example_contract_env accepted_contract = Inr ()"
    using accepted_contract_ok by (simp add: validate_challenge_bundle_spec_iff)
  moreover have "finite_payload [\<lparr>mv_name = ''score'', mv_value = Fin 9\<rparr>]" "finite_payload [\<lparr>mv_name = ''score'', mv_value = Fin 7\<rparr>]"
    by (simp_all add: finite_payload_def)
  moreover have "primary_metric_name (ranking (metric_schema accepted_contract)) # tie_breaker_metric_names (ranking (metric_schema accepted_contract))
      = [''score'']"
    by (simp add: accepted_contract_def example_spec_def default_metric_schema_def)
  ultimately show ?thesis using validated_contract_ranks_alike by metis
qed

end
