(* ===== verification/Result_Guarantees.thy ===== *)
theory Result_Guarantees
  imports Lifecycle_Guarantees Contract_Guarantees
begin

text \<open>
  What holds of results: stored enum values, which evaluator results are accepted, that the ranking is
  an order, and that the public listing of a challenge with a validated contract is ranked.
\<close>

section \<open>Stored values\<close>

text \<open>
  The strings in which modes and statuses are stored determine them: decoding a column value gives
  a mode or status exactly when the value is the string that encodes it, so writing and reading back is
  the identity and nothing else decodes.
\<close>

lemma stored_values_roundtrip:
  "(scoring_mode_from_storage_value v = Some m \<longleftrightarrow> v = scoring_mode_as_str m)
   \<and> (evaluation_status_from_storage_value v = Some e \<longleftrightarrow> v = evaluation_status_as_str e)
   \<and> (job_status_from_storage_value v = Some j \<longleftrightarrow> v = job_status_as_str j)
   \<and> (submission_status_from_storage_value v = Some q \<longleftrightarrow> v = submission_status_as_str q)
   \<and> (challenge_status_from_storage_value v = Some c \<longleftrightarrow> v = challenge_status_as_str c)"
proof (intro conjI)
  show "scoring_mode_from_storage_value v = Some m \<longleftrightarrow> v = scoring_mode_as_str m"
    by (cases m) (auto simp: scoring_mode_from_storage_value_def)
  show "evaluation_status_from_storage_value v = Some e \<longleftrightarrow> v = evaluation_status_as_str e"
    by (cases e) (auto simp: evaluation_status_from_storage_value_def)
  show "job_status_from_storage_value v = Some j \<longleftrightarrow> v = job_status_as_str j"
    by (cases j) (auto simp: job_status_from_storage_value_def)
  show "submission_status_from_storage_value v = Some q \<longleftrightarrow> v = submission_status_as_str q"
    by (cases q) (auto simp: submission_status_from_storage_value_def)
  show "challenge_status_from_storage_value v = Some c \<longleftrightarrow> v = challenge_status_as_str c"
    by (cases c) (auto simp: challenge_status_from_storage_value_def)
qed

section \<open>Accepted results\<close>

text \<open>The reference predicate: a result that the runner may persist for a mode and a metric schema.\<close>

definition acceptable_result :: "evaluator_run_result \<Rightarrow> scoring_mode \<Rightarrow> metric_schema \<Rightarrow> bool" where
  "acceptable_result r mode schema \<longleftrightarrow>
     (er_mode r = None \<or> er_mode r = Some mode)
     \<and> finite_payload (aggregate_metrics r) \<and> distinct (map mv_name (aggregate_metrics r))
     \<and> (\<forall>run \<in> set (run_metrics r). run_wf run) \<and> distinct (map rm_run_name (run_metrics r))
     \<and> (\<forall>c \<in> set (public_results r). trim (case_name c) \<noteq> [] \<and> is_finite (case_score c))
     \<and> (\<forall>x. validation_summary r = Some x \<longrightarrow> summary_wf x) \<and> (\<forall>x. official_summary r = Some x \<longrightarrow> summary_wf x)
     \<and> mode_summary r mode \<noteq> None
     \<and> metrics schema \<noteq> []
     \<and> (\<forall>m \<in> set (aggregate_metrics r) \<union> (\<Union>run \<in> set (run_metrics r). set (rm_metrics run)).
          \<exists>d. declared_metric schema (mv_name m) = Some d \<and> (mode = Validation \<longrightarrow> md_visibility d = PublicMetric))
     \<and> (mode = Official \<longrightarrow> (\<exists>m \<in> set (aggregate_metrics r). mv_name m = primary_metric_name (ranking schema)))"

lemma as_runner_error_ok: "as_runner_error x = Inr y \<longleftrightarrow> x = Inr y"
  by (auto simp: as_runner_error_def split: sum.splits)

lemma validate_for_mode_ok:
  "validate_for_mode r mode = Inr u \<longleftrightarrow>
     (er_mode r = None \<or> er_mode r = Some mode)
     \<and> finite_payload (aggregate_metrics r) \<and> distinct (map mv_name (aggregate_metrics r))
     \<and> (\<forall>run \<in> set (run_metrics r). run_wf run) \<and> distinct (map rm_run_name (run_metrics r))
     \<and> (\<forall>c \<in> set (public_results r). trim (case_name c) \<noteq> [] \<and> is_finite (case_score c))
     \<and> (\<forall>x. validation_summary r = Some x \<longrightarrow> summary_wf x) \<and> (\<forall>x. official_summary r = Some x \<longrightarrow> summary_wf x)
     \<and> mode_summary r mode \<noteq> None"
  by (cases mode; cases "er_mode r"; cases "validation_summary r"; cases "official_summary r")
    (auto simp: validate_for_mode_def result_simps validate_metric_values_def validate_metric_values_loop_ok validate_runs_loop_ok
      mode_summary_def)

lemma validate_for_metric_schema_ok:
  "validate_for_metric_schema r schema mode = Inr u \<longleftrightarrow> metrics schema \<noteq> []
     \<and> (\<forall>m \<in> set (aggregate_metrics r) \<union> (\<Union>run \<in> set (run_metrics r). set (rm_metrics run)).
          \<exists>d. declared_metric schema (mv_name m) = Some d \<and> (mode = Validation \<longrightarrow> md_visibility d = PublicMetric))
     \<and> (mode = Official \<longrightarrow> (\<exists>m \<in> set (aggregate_metrics r). mv_name m = primary_metric_name (ranking schema)))"
  by (auto simp: validate_for_metric_schema_def result_simps validate_declared_ok list_ex_iff)

text \<open>
  C37. The runner persists exactly the acceptable results: within the size limits, a result is accepted
  if and only if its mode matches, all numbers are finite, no metric or run name repeats, the summary of
  the mode is present and consistent, every metric is declared (and public for a validation run) and an
  official result has the primary metric; an accepted result is stamped with the mode.
\<close>

theorem evaluator_result_accepted_iff:
  assumes "max_result_log_bytes limits \<le> u64_max"
  shows "validate_evaluator_result r mode schema limits = Inr r' \<longleftrightarrow>
    length (public_results r) \<le> max_public_results limits \<and> sum_list (map length (er_logs r)) \<le> max_result_log_bytes limits
    \<and> acceptable_result r mode schema \<and> r' = r\<lparr>er_mode := Some mode\<rparr>"
  unfolding validate_evaluator_result_def and_then_eq_Inr as_runner_error_ok validate_for_mode_ok complete_metric_result_def
    validate_for_metric_schema_ok acceptable_result_def
  by (auto simp: validate_size_limits_def Let_def result_simps log_bytes_loop_ok [OF assms])

theorem evaluator_result_accepted_iff_witness:
  "acceptable_result ex_raw_result Official default_metric_schema"
  using evaluator_result_accepted_iff [of ex_limits ex_raw_result Official default_metric_schema "ex_result ex_execution"] ex_validated
  by (simp add: ex_limits_def u64_max_def)

section \<open>The ranking\<close>

text \<open>
  C38. The ranking of results is an order: on results with finite metrics the comparator of a ranking
  schema calls a result equal to itself, turns around when its arguments are swapped, and is transitive,
  so sorting and choosing a best result are well defined.
\<close>

theorem ranking_is_an_order:
  assumes "finite_payload a" and "finite_payload b" and "finite_payload c"
  shows "compare_metric_payloads_by_ranking schema a a = Equal
    \<and> compare_metric_payloads_by_ranking schema b a = reverse_ordering (compare_metric_payloads_by_ranking schema a b)
    \<and> (compare_metric_payloads_by_ranking schema a b \<noteq> Greater \<and> compare_metric_payloads_by_ranking schema b c \<noteq> Greater \<longrightarrow>
       compare_metric_payloads_by_ranking schema a c \<noteq> Greater)"
  using ranking_cmp.cmp_refl [OF assms(1)] ranking_cmp.cmp_flip [OF assms(1,2)] ranking_cmp.cmp_trans [OF assms] by blast

theorem ranking_is_an_order_witness:
  "compare_metric_payloads_by_ranking default_metric_schema [\<lparr>mv_name = ''score'', mv_value = Fin 9\<rparr>] [\<lparr>mv_name = ''score'', mv_value = Fin 7\<rparr>] = Less
   \<and> compare_metric_payloads_by_ranking default_metric_schema [\<lparr>mv_name = ''score'', mv_value = Fin 7\<rparr>] [\<lparr>mv_name = ''score'', mv_value = Fin 9\<rparr>] = Greater"
proof -
  let ?a = "[\<lparr>mv_name = ''score'', mv_value = Fin 9\<rparr>]" and ?b = "[\<lparr>mv_name = ''score'', mv_value = Fin 7\<rparr>]"
  have f: "finite_payload ?a" "finite_payload ?b" by (simp_all add: finite_payload_def)
  have "compare_metric_payloads_by_ranking default_metric_schema ?a ?b = Less"
    by (simp add: compare_metric_payloads_by_ranking_def primary_metric_def metric_def default_metric_schema_def metric_value_by_name_def
        cmp_lin_def)
  then show ?thesis using ranking_is_an_order [OF f f(1), of default_metric_schema] by simp
qed

section \<open>The listing\<close>

text \<open>
  The public listing is ranked and sound: in every reachable state it has at most the requested
  number of entries, every entry comes from a leaderboard row of the challenge and target whose
  submission is public and completed, and no later entry ranks before an earlier one by the ranking of
  the contract, which passed validation. The database's text collation is any order.
\<close>

lemma listing_is_ranked:
  assumes "reachable s" and "validate_challenge_bundle_spec ce spec = Inr ()" and "lawful_cmp (\<lambda>_. True) collate"
  shows "length (list_leaderboard_rows collate n t limit spec (sys_db s)) \<le> nat (max limit 1)
    \<and> (\<forall>r \<in> set (list_leaderboard_rows collate n t limit spec (sys_db s)).
        \<exists>l \<in> set (leaderboard (sys_db s)). \<exists>q \<in> set (submissions (sys_db s)). lb_challenge l = n \<and> lb_target l = t \<and> lr_best r = lb_best l
          \<and> sub_id q = lb_best l \<and> sub_visible q \<and> sub_status q = SubCompleted \<and> lr_aggregate_metrics r = lb_aggregate_metrics l)
    \<and> sorted_wrt (\<lambda>a b. compare_rank_payloads spec (lr_aggregate_metrics b) (lr_aggregate_metrics a) \<noteq> Less)
        (list_leaderboard_rows collate n t limit spec (sys_db s))"
proof (intro conjI ballI)
  let ?rows = "sort_by (leaderboard_order collate spec) (leaderboard_join n t (sys_db s))"
  note ok = reachable_pipeline [OF assms(1)]
  show "length (list_leaderboard_rows collate n t limit spec (sys_db s)) \<le> nat (max limit 1)"
    by (simp add: list_leaderboard_rows_def)
  fix r assume "r \<in> set (list_leaderboard_rows collate n t limit spec (sys_db s))"
  then have "r \<in> set (leaderboard_join n t (sys_db s))" unfolding list_leaderboard_rows_def by (auto dest: in_set_takeD)
  then obtain l q a c where "l \<in> set (leaderboard (sys_db s))" "q \<in> set (submissions (sys_db s))"
      "r = leaderboard_record_of l a" "leaderboard_join_on n t l q a c"
    unfolding in_leaderboard_join by blast
  then show "\<exists>l \<in> set (leaderboard (sys_db s)). \<exists>q \<in> set (submissions (sys_db s)). lb_challenge l = n \<and> lb_target l = t \<and> lr_best r = lb_best l
          \<and> sub_id q = lb_best l \<and> sub_visible q \<and> sub_status q = SubCompleted \<and> lr_aggregate_metrics r = lb_aggregate_metrics l"
    by (intro bexI [of _ l] bexI [of _ q]) (auto simp: leaderboard_join_on_def leaderboard_record_of_def)
next
  let ?rows = "sort_by (leaderboard_order collate spec) (leaderboard_join n t (sys_db s))"
  note ok = reachable_pipeline [OF assms(1)]
  have primary: "primary_metric (metric_schema spec) \<noteq> None" by (rule validated_primary_metric [OF assms(2)])
  have fin: "record_finite r" if r: "r \<in> set (leaderboard_join n t (sys_db s))" for r
  proof -
    obtain l a where l: "l \<in> set (leaderboard (sys_db s))" "r = leaderboard_record_of l a" using r unfolding in_leaderboard_join by blast
    obtain q e where "official_result (sys_db s) q e" "ev_aggregate_metrics e = lb_aggregate_metrics l"
      using row_shows_result [OF ok l(1)] by blast
    then show ?thesis using done_evals_finite [OF ok, of e] l(2)
      by (simp add: official_result_def done_evals_def official_done_def record_finite_def leaderboard_record_of_def)
  qed
  then have "sorted_wrt (\<lambda>a b. leaderboard_order collate spec a b \<noteq> Greater) ?rows"
    using lawful_cmp.sort_by_sorted [OF lawful_leaderboard_order [OF primary assms(3)]] by blast
  then have "sorted_wrt (\<lambda>a b. compare_rank_payloads spec (lr_aggregate_metrics b) (lr_aggregate_metrics a) \<noteq> Less) ?rows"
  proof (rule sorted_wrt_mono_rel [rotated])
    fix a b assume ab: "a \<in> set ?rows" "b \<in> set ?rows" "leaderboard_order collate spec a b \<noteq> Greater"
    have f: "finite_payload (lr_aggregate_metrics a)" "finite_payload (lr_aggregate_metrics b)" using fin ab by (simp_all add: record_finite_def)
    have "sql_ranking_cmp (ranking_order_metrics (metric_schema spec)) (lr_aggregate_metrics a) (lr_aggregate_metrics b) \<noteq> Greater"
      using ab(3) by (simp add: leaderboard_order_def then_with_Greater)
    then have "compare_rank_payloads spec (lr_aggregate_metrics a) (lr_aggregate_metrics b) \<noteq> Greater"
      using sql_ranking_cmp_eq [OF primary f] by (simp add: compare_rank_payloads_def)
    then show "compare_rank_payloads spec (lr_aggregate_metrics b) (lr_aggregate_metrics a) \<noteq> Less"
      by (rule compare_rank_payloads_not_Less [OF f])
  qed
  then show "sorted_wrt (\<lambda>a b. compare_rank_payloads spec (lr_aggregate_metrics b) (lr_aggregate_metrics a) \<noteq> Less)
        (list_leaderboard_rows collate n t limit spec (sys_db s))"
    unfolding list_leaderboard_rows_def by (rule sorted_wrt_take)
qed

end
