(* ===== verification/Review_Records.thy ===== *)
theory Review_Records
  imports Challenge_Publishing Review_Digest
begin

text \<open>
  Challenge review records, \<open>crates/persistence/src/db/challenge_creation.rs\<close> with its submodules
  \<open>assets.rs\<close>, \<open>audit.rs\<close>, \<open>publishing.rs\<close> and \<open>validation.rs\<close>, and the publishing workflow of
  \<open>services/challenge_review_records/publishing.rs\<close>: a proposal is created, validated, approved and
  published or given up, while private assets are uploaded to it. Every operation is a function on the
  tables of \<open>review_db\<close>; decoding a returned row into an API record is not modelled.
\<close>

section \<open>Statuses\<close>

datatype review_status =
  RPendingReview | RValidated | RApproved | RPublishing | RRejected | RPublished | RAbandoned

fun review_status_as_str :: "review_status \<Rightarrow> string" where
  "review_status_as_str RPendingReview = ''pending_review''"
| "review_status_as_str RValidated = ''validated''"
| "review_status_as_str RApproved = ''approved''"
| "review_status_as_str RPublishing = ''publishing''"
| "review_status_as_str RRejected = ''rejected''"
| "review_status_as_str RPublished = ''published''"
| "review_status_as_str RAbandoned = ''abandoned''"

definition review_status_from_storage_value :: "string \<Rightarrow> review_status option" where
  "review_status_from_storage_value v =
     (if v = ''pending_review'' then Some RPendingReview
      else if v = ''validated'' then Some RValidated
      else if v = ''approved'' then Some RApproved
      else if v = ''publishing'' then Some RPublishing
      else if v = ''rejected'' then Some RRejected
      else if v = ''published'' then Some RPublished
      else if v = ''abandoned'' then Some RAbandoned else None)"

datatype review_validation_status = VRunning | VPassed | VFailed

datatype private_asset_status = APending | AActive | AFailed | APurging

section \<open>Tables\<close>

record review_record_row =
  rr_id :: uuid
  rr_challenge_name :: challenge_name
  rr_request_kind :: creation_request_kind
  rr_status :: review_status
  rr_creator :: uuid
  rr_github_user_id :: int
  rr_github_login :: string
  rr_repo_url :: string
  rr_repo_key :: string
  rr_pr_number :: int
  rr_pr_url :: string
  rr_commit_sha :: string
  rr_challenge_path :: string
  rr_manifest_sha256 :: string
  rr_manifest :: creation_manifest
  rr_validation_message :: "string option"
  rr_validation_repository_path :: "string option"
  rr_validation_bundle_sha256 :: "string option"
  rr_approved_bundle_sha256 :: "string option"
  rr_publish_claim :: "uuid option"
  rr_published_challenge :: "challenge_name option"
  rr_active_validation :: "uuid option"
  rr_created_at :: timestamp
  rr_updated_at :: timestamp

record validation_row =
  va_id :: uuid
  va_record :: uuid
  va_status :: review_validation_status
  va_message :: string
  va_repository_path :: string
  va_manifest_sha256 :: string
  va_bundle_sha256 :: "string option"
  va_created_at :: timestamp

record private_asset_row =
  pa_id :: uuid
  pa_record :: uuid
  pa_name :: string
  pa_kind :: private_asset_kind
  pa_required :: bool
  pa_size_bytes :: int
  pa_sha256 :: string
  pa_storage_key :: storage_key
  pa_temporary_storage_key :: "storage_key option"
  pa_status :: private_asset_status
  pa_uploader :: uuid
  pa_activated_at :: "timestamp option"
  pa_failed_at :: "timestamp option"
  pa_failure_message :: "string option"
  pa_created_at :: timestamp

datatype metadata_value = MetaText string | MetaNumber int | MetaNull

record audit_event =
  ae_id :: uuid
  ae_record :: uuid
  ae_actor_human :: "uuid option"
  ae_actor_token :: "uuid option"
  ae_actor_display :: "string option"
  ae_action :: string
  ae_message :: string
  ae_metadata :: "(string \<times> metadata_value) list"

record human_row =
  hu_id :: uuid
  hu_status :: string

record human_role_row =
  hr_human :: uuid
  hr_role :: string
  hr_revoked_at :: "timestamp option"

record review_db =
  rv_records :: "review_record_row list"
  rv_validations :: "validation_row list"
  rv_assets :: "private_asset_row list"
  rv_audit :: "audit_event list"
  rv_owners :: "(challenge_name \<times> uuid) list"
  rv_humans :: "human_row list"
  rv_roles :: "human_role_row list"
  rv_tokens :: "uuid list"
  rv_db :: db

type_synonym 'a rtx = "review_db \<Rightarrow> service_error + 'a \<times> review_db"

definition record_by_id :: "uuid \<Rightarrow> review_record_row list \<Rightarrow> review_record_row option" where
  "record_by_id i tbl = sql_first (\<lambda>r. rr_id r = i) tbl"

interpretation record_tbl: keyed_table rr_id record_by_id
  by unfold_locales (simp add: record_by_id_def)

definition update_records :: "(review_record_row \<Rightarrow> bool) \<Rightarrow> (review_record_row \<Rightarrow> review_record_row) \<Rightarrow> review_db \<Rightarrow> review_db" where
  "update_records P f db = db\<lparr>rv_records := sql_update P f (rv_records db)\<rparr>"

definition lock_quota_scope :: "string \<Rightarrow> review_db \<Rightarrow> review_db" where
  "lock_quota_scope scope db = db\<lparr>rv_db := lock_scope scope (rv_db db)\<rparr>"

text \<open>\<open>UPDATE ... WHERE\<close> whose caller turns zero affected rows into a conflict.\<close>

definition update_or_conflict ::
  "(review_record_row \<Rightarrow> bool) \<Rightarrow> (review_record_row \<Rightarrow> review_record_row) \<Rightarrow> unit rtx" where
  "update_or_conflict P f db =
     (if sql_count P (rv_records db) = 0 then Inl Conflict else Inr ((), update_records P f db))"

section \<open>Audit events\<close>

definition create_challenge_review_audit_event_tx :: "audit_event \<Rightarrow> unit rtx" where
  "create_challenge_review_audit_event_tx ev db =
     (if sql_exists (\<lambda>e. ae_id e = ae_id ev) (rv_audit db)
      then Inl (Database (SqlxDatabase True (Some ''challenge_review_audit_events_pkey'') ''duplicate key''))
      else if \<not> sql_exists (\<lambda>r. rr_id r = ae_record ev) (rv_records db)
      then Inl (Database (SqlxDatabase False (Some ''challenge_review_audit_events_review_record_id_fkey'') ''missing review record''))
      else if \<exists>h. ae_actor_human ev = Some h \<and> h \<notin> hu_id ` set (rv_humans db)
      then Inl (Database (SqlxDatabase False (Some ''challenge_review_audit_events_actor_human_id_fkey'') ''missing human''))
      else if \<exists>t. ae_actor_token ev = Some t \<and> t \<notin> set (rv_tokens db)
      then Inl (Database (SqlxDatabase False (Some ''challenge_review_audit_events_actor_admin_service_token_id_fkey'') ''missing token''))
      else Inr ((), db\<lparr>rv_audit := sql_insert ev (rv_audit db)\<rparr>))"

section \<open>Creation\<close>

record create_review_record_input =
  cr_review_record_id :: uuid
  cr_creator :: uuid
  cr_max_active_review_records :: int
  cr_github_user_id :: int
  cr_github_login :: string
  cr_repo_url :: string
  cr_repo_key :: string
  cr_pr_number :: int
  cr_pr_url :: string
  cr_commit_sha :: string
  cr_challenge_path :: string
  cr_manifest_sha256 :: string
  cr_manifest :: creation_manifest

definition count_active_challenge_review_records_for_human_tx :: "uuid \<Rightarrow> review_db \<Rightarrow> int" where
  "count_active_challenge_review_records_for_human_tx h db =
     sql_count (\<lambda>r. rr_creator r = h \<and> rr_status r \<in> {RPendingReview, RValidated, RApproved, RPublishing}) (rv_records db)"

definition new_review_record :: "timestamp \<Rightarrow> create_review_record_input \<Rightarrow> review_record_row" where
  "new_review_record now inp =
     \<lparr>rr_id = cr_review_record_id inp, rr_challenge_name = cm_challenge_name (cr_manifest inp),
      rr_request_kind = cm_request (cr_manifest inp), rr_status = RPendingReview, rr_creator = cr_creator inp,
      rr_github_user_id = cr_github_user_id inp, rr_github_login = cr_github_login inp, rr_repo_url = cr_repo_url inp,
      rr_repo_key = cr_repo_key inp, rr_pr_number = cr_pr_number inp, rr_pr_url = cr_pr_url inp,
      rr_commit_sha = cr_commit_sha inp, rr_challenge_path = cr_challenge_path inp,
      rr_manifest_sha256 = cr_manifest_sha256 inp, rr_manifest = cr_manifest inp,
      rr_validation_message = None, rr_validation_repository_path = None, rr_validation_bundle_sha256 = None,
      rr_approved_bundle_sha256 = None, rr_publish_claim = None, rr_published_challenge = None,
      rr_active_validation = None, rr_created_at = now, rr_updated_at = now\<rparr>"

text \<open>The primary key, the unique pull-request path and the reference to the creator.\<close>

definition insert_review_record :: "review_record_row \<Rightarrow> review_db \<Rightarrow> service_error + review_db" where
  "insert_review_record r db =
     (if sql_exists (\<lambda>q. rr_id q = rr_id r) (rv_records db)
      then Inl (Database (SqlxDatabase True (Some ''challenge_review_records_pkey'') ''duplicate key''))
      else if sql_exists (\<lambda>q. rr_repo_key q = rr_repo_key r \<and> rr_pr_number q = rr_pr_number r
          \<and> rr_challenge_path q = rr_challenge_path r) (rv_records db)
      then Inl (Database (SqlxDatabase True (Some ''challenge_review_records_repo_key_pr_number_challenge_path_key'') ''duplicate key''))
      else if \<not> sql_exists (\<lambda>h. hu_id h = rr_creator r) (rv_humans db)
      then Inl (Database (SqlxDatabase False (Some ''challenge_review_records_creator_human_id_fkey'') ''missing human''))
      else Inr (db\<lparr>rv_records := sql_insert r (rv_records db)\<rparr>))"

definition create_challenge_review_record ::
  "timestamp \<Rightarrow> create_review_record_input \<Rightarrow> audit_event \<Rightarrow> review_record_row rtx" where
  "create_challenge_review_record now inp ev db =
     and_then (guard_err (ae_record ev \<noteq> cr_review_record_id inp)
       (Internal ''review record creation audit event targets a different review record'')) (\<lambda>_.
     (let db1 = lock_quota_scope (''challenge-review-records:human:'' @ cr_creator inp) db;
          active = count_active_challenge_review_records_for_human_tx (cr_creator inp) db1;
          row = new_review_record now inp
      in and_then (guard_err (active \<ge> cr_max_active_review_records inp) (TooManyRequests
           (''challenge review record quota exceeded: '' @ show_int active @ '' of '' @ show_int (cr_max_active_review_records inp)
             @ '' active review records are already open''))) (\<lambda>_.
         and_then (insert_review_record row db1) (\<lambda>db2.
         and_then (create_challenge_review_audit_event_tx ev db2) (\<lambda>(_, db3).
         Inr (row, db3))))))"

section \<open>Validation\<close>

text \<open>An active validation whose record is no longer running or is older than the timeout.\<close>

definition stale_validation :: "timestamp \<Rightarrow> int \<Rightarrow> uuid \<Rightarrow> review_db \<Rightarrow> uuid option" where
  "stale_validation now timeout rid db =
     (case record_by_id rid (rv_records db) of
        None \<Rightarrow> None
      | Some r \<Rightarrow> map_option va_id (sql_first (\<lambda>v. rr_active_validation r = Some (va_id v)
          \<and> (va_status v \<noteq> VRunning \<or> va_created_at v < now - minutes (max timeout 1))) (rv_validations db)))"

definition clear_stale_active_validation_tx :: "timestamp \<Rightarrow> int \<Rightarrow> uuid \<Rightarrow> review_db \<Rightarrow> review_db" where
  "clear_stale_active_validation_tx now timeout rid db =
     (case stale_validation now timeout rid db of
        None \<Rightarrow> db
      | Some vid \<Rightarrow> update_records (\<lambda>r. rr_id r = rid \<and> rr_active_validation r = Some vid)
          (\<lambda>r. r\<lparr>rr_active_validation := None,
                 rr_validation_message := Some ''challenge review record validation lease expired'', rr_updated_at := now\<rparr>)
          (db\<lparr>rv_validations := sql_update (\<lambda>v. va_id v = vid \<and> va_status v = VRunning)
             (\<lambda>v. v\<lparr>va_status := VFailed, va_message := ''challenge review record validation lease expired''\<rparr>)
             (rv_validations db)\<rparr>))"

record begin_validation_input =
  bv_validation_record_id :: uuid
  bv_review_record_id :: uuid
  bv_repository_path :: string
  bv_manifest_sha256 :: string

definition count_recent_challenge_review_record_validations_tx :: "timestamp \<Rightarrow> uuid \<Rightarrow> int \<Rightarrow> review_db \<Rightarrow> int" where
  "count_recent_challenge_review_record_validations_tx now rid window db =
     sql_count (\<lambda>v. va_record v = rid \<and> now - seconds window \<le> va_created_at v) (rv_validations db)"

definition new_validation :: "timestamp \<Rightarrow> begin_validation_input \<Rightarrow> validation_row" where
  "new_validation now inp =
     \<lparr>va_id = bv_validation_record_id inp, va_record = bv_review_record_id inp, va_status = VRunning,
      va_message = ''challenge review record validation is running'', va_repository_path = bv_repository_path inp,
      va_manifest_sha256 = bv_manifest_sha256 inp, va_bundle_sha256 = None, va_created_at = now\<rparr>"

definition begin_challenge_review_record_validation ::
  "timestamp \<Rightarrow> begin_validation_input \<Rightarrow> int \<Rightarrow> int \<Rightarrow> int \<Rightarrow> validation_row rtx" where
  "begin_challenge_review_record_validation now inp window limit timeout db =
     (let rid = bv_review_record_id inp;
          db1 = lock_quota_scope (''challenge-review-record:'' @ rid @ '':validations'') db
      in case record_by_id rid (rv_records db1) of
           None \<Rightarrow> Inl NotFound
         | Some r \<Rightarrow>
             and_then (guard_err (rr_status r \<notin> {RPendingReview, RValidated}) Conflict) (\<lambda>_.
             (let db2 = (if rr_active_validation r \<noteq> None then clear_stale_active_validation_tx now timeout rid db1 else db1);
                  active = (case record_by_id rid (rv_records db2) of None \<Rightarrow> None | Some r \<Rightarrow> rr_active_validation r);
                  recent = count_recent_challenge_review_record_validations_tx now rid window db2
              in and_then (guard_err (active \<noteq> None) Conflict) (\<lambda>_.
                 and_then (guard_err (sql_exists (\<lambda>a. pa_record a = rid \<and> pa_status a = APending) (rv_assets db2)) Conflict) (\<lambda>_.
                 and_then (guard_err (recent \<ge> limit) (TooManyRequests
                   (''challenge review record validation quota exceeded for `'' @ rid @ ''`: '' @ show_int recent @ '' of ''
                     @ show_int limit @ '' validations used in the last 24 hours''))) (\<lambda>_.
                 if sql_exists (\<lambda>v. va_id v = bv_validation_record_id inp) (rv_validations db2)
                 then Inl (Database (SqlxDatabase True (Some ''challenge_review_validation_records_pkey'') ''duplicate key''))
                 else (let db3 = db2\<lparr>rv_validations := sql_insert (new_validation now inp) (rv_validations db2)\<rparr>
                       in and_then (update_or_conflict (\<lambda>r. rr_id r = rid \<and> rr_active_validation r = None)
                            (\<lambda>r. r\<lparr>rr_active_validation := Some (bv_validation_record_id inp), rr_updated_at := now\<rparr>) db3) (\<lambda>(_, db4).
                          Inr (new_validation now inp, db4)))))))))"

record finish_validation_input =
  fv_validation_record_id :: uuid
  fv_review_record_id :: uuid
  fv_status :: review_validation_status
  fv_message :: string
  fv_bundle_sha256 :: "string option"

definition finished_validation :: "finish_validation_input \<Rightarrow> validation_row \<Rightarrow> validation_row" where
  "finished_validation inp v =
     v\<lparr>va_status := fv_status inp, va_message := fv_message inp, va_bundle_sha256 := fv_bundle_sha256 inp\<rparr>"

text \<open>
  The outcome and whether the transaction commits: when the record no longer waits for this validation,
  the finished validation is committed and the caller still gets a conflict.
\<close>

definition finish_challenge_review_record_validation ::
  "timestamp \<Rightarrow> finish_validation_input \<Rightarrow> audit_event \<Rightarrow> review_db \<Rightarrow> validation_row result \<times> review_db" where
  "finish_challenge_review_record_validation now inp ev db =
     (let vid = fv_validation_record_id inp;
          mine = (\<lambda>v. va_id v = vid \<and> va_record v = fv_review_record_id inp \<and> va_status v = VRunning)
      in if fv_status inp = VRunning then (Inl (Internal ''running review record validation cannot finish as running''), db)
         else case sql_first mine (rv_validations db) of
                None \<Rightarrow> (Inl Conflict, db)
              | Some v \<Rightarrow>
                  (let row = finished_validation inp v;
                       db1 = db\<lparr>rv_validations := sql_update mine (finished_validation inp) (rv_validations db)\<rparr>;
                       waits = (\<lambda>r. rr_id r = fv_review_record_id inp \<and> rr_active_validation r = Some vid
                         \<and> rr_status r \<in> {RPendingReview, RValidated});
                       next_status = (if fv_status inp = VPassed then RValidated else RPendingReview)
                   in if sql_count waits (rv_records db1) = 0 then (Inl Conflict, db1)
                      else transact (\<lambda>_. and_then (create_challenge_review_audit_event_tx ev
                             (update_records waits (\<lambda>r. r\<lparr>rr_status := next_status, rr_validation_message := Some (fv_message inp),
                                rr_validation_repository_path := Some (va_repository_path row),
                                rr_validation_bundle_sha256 := fv_bundle_sha256 inp, rr_active_validation := None, rr_updated_at := now\<rparr>) db1))
                             (\<lambda>(_, db2). Inr (row, db2))) db))"

section \<open>Review decisions\<close>

definition approve_record :: "timestamp \<Rightarrow> string option \<Rightarrow> review_record_row \<Rightarrow> review_record_row" where
  "approve_record now msg r =
     r\<lparr>rr_status := RApproved, rr_validation_message := (case msg of None \<Rightarrow> rr_validation_message r | Some m \<Rightarrow> Some m),
       rr_approved_bundle_sha256 := rr_validation_bundle_sha256 r, rr_updated_at := now\<rparr>"

definition approve_validated_challenge_review_record :: "timestamp \<Rightarrow> uuid \<Rightarrow> string option \<Rightarrow> unit rtx" where
  "approve_validated_challenge_review_record now rid msg db =
     update_or_conflict (\<lambda>r. rr_id r = rid \<and> rr_status r = RValidated \<and> rr_validation_bundle_sha256 r \<noteq> None
       \<and> rr_active_validation r = None) (approve_record now msg) db"

definition approve_validated_challenge_review_record_with_audit ::
  "timestamp \<Rightarrow> uuid \<Rightarrow> string \<Rightarrow> string option \<Rightarrow> audit_event \<Rightarrow> unit rtx" where
  "approve_validated_challenge_review_record_with_audit now rid expected msg ev db =
     and_then (guard_err (ae_record ev \<noteq> rid)
       (Internal ''review record approval audit event targets a different review record'')) (\<lambda>_.
     and_then (update_or_conflict (\<lambda>r. rr_id r = rid \<and> rr_status r = RValidated \<and> rr_validation_bundle_sha256 r = Some expected
       \<and> rr_active_validation r = None) (approve_record now msg) db) (\<lambda>(_, db1).
     create_challenge_review_audit_event_tx (ev\<lparr>ae_record := rid, ae_action := ''review_record_approved'',
       ae_message := (case msg of None \<Rightarrow> [] | Some m \<Rightarrow> m),
       ae_metadata := [(''approved_bundle_sha256'', MetaText expected)]\<rparr>) db1))"

definition decide_record :: "timestamp \<Rightarrow> review_status \<Rightarrow> string option \<Rightarrow> review_record_row \<Rightarrow> review_record_row" where
  "decide_record now st msg r =
     r\<lparr>rr_status := st, rr_validation_message := (case msg of None \<Rightarrow> rr_validation_message r | Some m \<Rightarrow> Some m),
       rr_updated_at := now\<rparr>"

definition update_challenge_review_record_status :: "timestamp \<Rightarrow> uuid \<Rightarrow> review_status \<Rightarrow> string option \<Rightarrow> unit rtx" where
  "update_challenge_review_record_status now rid st msg db =
     update_or_conflict (\<lambda>r. rr_id r = rid \<and> rr_status r \<in> {RPendingReview, RValidated, RApproved} \<and> rr_active_validation r = None)
       (decide_record now st msg) db"

definition update_challenge_review_record_status_with_audit ::
  "timestamp \<Rightarrow> uuid \<Rightarrow> review_status \<Rightarrow> string option \<Rightarrow> audit_event \<Rightarrow> unit rtx" where
  "update_challenge_review_record_status_with_audit now rid st msg ev db =
     and_then (update_challenge_review_record_status now rid st msg db) (\<lambda>(_, db1). create_challenge_review_audit_event_tx ev db1)"

definition abandon_challenge_review_record :: "timestamp \<Rightarrow> uuid \<Rightarrow> string option \<Rightarrow> unit rtx" where
  "abandon_challenge_review_record now rid msg db =
     update_or_conflict (\<lambda>r. rr_id r = rid \<and> rr_status r \<in> {RPendingReview, RValidated, RApproved, RRejected}
       \<and> rr_active_validation r = None) (decide_record now RAbandoned msg) db"

definition abandon_challenge_review_record_with_audit :: "timestamp \<Rightarrow> uuid \<Rightarrow> string option \<Rightarrow> audit_event \<Rightarrow> unit rtx" where
  "abandon_challenge_review_record_with_audit now rid msg ev db =
     and_then (abandon_challenge_review_record now rid msg db) (\<lambda>(_, db1). create_challenge_review_audit_event_tx ev db1)"

definition days :: "int \<Rightarrow> int" where "days n = n * 86400000000"

definition abandon_stale_challenge_review_records :: "timestamp \<Rightarrow> int \<Rightarrow> review_db \<Rightarrow> int \<times> review_db" where
  "abandon_stale_challenge_review_records now ttl_days db =
     (let stale = (\<lambda>r. rr_status r \<in> {RPendingReview, RValidated, RApproved} \<and> rr_updated_at r < now - days ttl_days)
      in (sql_count stale (rv_records db),
          update_records stale (\<lambda>r. r\<lparr>rr_status := RAbandoned,
            rr_validation_message := Some (case rr_validation_message r of None \<Rightarrow> ''review record abandoned due to inactivity'' | Some m \<Rightarrow> m),
            rr_updated_at := now\<rparr>) db))"

section \<open>Private assets\<close>

record create_private_asset_input =
  ca_asset_row_id :: uuid
  ca_review_record_id :: uuid
  ca_asset_name :: string
  ca_kind :: private_asset_kind
  ca_required :: bool
  ca_size_bytes :: int
  ca_sha256 :: string
  ca_storage_key :: storage_key
  ca_temporary_storage_key :: storage_key
  ca_uploader :: uuid

text \<open>\<open>WITH failed AS (UPDATE ... RETURNING) UPDATE\<close>: the records of the failed assets are touched.\<close>

definition fail_assets :: "timestamp \<Rightarrow> (private_asset_row \<Rightarrow> bool) \<Rightarrow> string \<Rightarrow> review_db \<Rightarrow> review_db" where
  "fail_assets now P msg db =
     (let touched = pa_record ` set (sql_select P (rv_assets db))
      in update_records (\<lambda>r. rr_id r \<in> touched) (\<lambda>r. r\<lparr>rr_updated_at := now\<rparr>)
           (db\<lparr>rv_assets := sql_update P (\<lambda>a. a\<lparr>pa_status := AFailed, pa_failed_at := Some now, pa_failure_message := Some msg\<rparr>)
              (rv_assets db)\<rparr>))"

definition auto_fail_stale_pending_private_assets_tx :: "timestamp \<Rightarrow> uuid \<Rightarrow> int \<Rightarrow> review_db \<Rightarrow> review_db" where
  "auto_fail_stale_pending_private_assets_tx now rid timeout db =
     fail_assets now (\<lambda>a. pa_record a = rid \<and> pa_status a = APending \<and> pa_created_at a < now - minutes (max timeout 1))
       ''private asset pending lease expired'' db"

definition fail_challenge_private_asset :: "timestamp \<Rightarrow> uuid \<Rightarrow> string \<Rightarrow> review_db \<Rightarrow> review_db" where
  "fail_challenge_private_asset now aid msg db = fail_assets now (\<lambda>a. pa_id a = aid \<and> pa_status a = APending) msg db"

definition ensure_private_asset_upload_allowed_tx :: "timestamp \<Rightarrow> create_private_asset_input \<Rightarrow> int \<Rightarrow> unit rtx" where
  "ensure_private_asset_upload_allowed_tx now inp timeout db =
     (case record_by_id (ca_review_record_id inp) (rv_records db) of
        None \<Rightarrow> Inl NotFound
      | Some r \<Rightarrow>
          and_then (guard_err (rr_creator r \<noteq> ca_uploader inp) NotFound) (\<lambda>_.
          (let db1 = (if rr_active_validation r \<noteq> None then clear_stale_active_validation_tx now timeout (ca_review_record_id inp) db else db);
               active = (case record_by_id (ca_review_record_id inp) (rv_records db1) of None \<Rightarrow> None | Some q \<Rightarrow> rr_active_validation q)
           in and_then (guard_err (active \<noteq> None) Conflict) (\<lambda>_.
              and_then (guard_err (rr_status r \<notin> {RPendingReview, RValidated}) Conflict) (\<lambda>_.
              Inr ((), db1))))))"

definition asset_bytes :: "uuid \<Rightarrow> review_db \<Rightarrow> int" where
  "asset_bytes rid db = sum_list (map pa_size_bytes
     (sql_select (\<lambda>a. pa_record a = rid \<and> pa_status a \<in> {APending, AActive}) (rv_assets db)))"

definition new_private_asset :: "timestamp \<Rightarrow> create_private_asset_input \<Rightarrow> private_asset_row" where
  "new_private_asset now inp =
     \<lparr>pa_id = ca_asset_row_id inp, pa_record = ca_review_record_id inp, pa_name = ca_asset_name inp, pa_kind = ca_kind inp,
      pa_required = ca_required inp, pa_size_bytes = ca_size_bytes inp, pa_sha256 = ca_sha256 inp, pa_storage_key = ca_storage_key inp,
      pa_temporary_storage_key = Some (ca_temporary_storage_key inp), pa_status = APending, pa_uploader = ca_uploader inp,
      pa_activated_at = None, pa_failed_at = None, pa_failure_message = None, pa_created_at = now\<rparr>"

text \<open>The primary key, the partial unique index on live names and the size check.\<close>

definition insert_private_asset :: "private_asset_row \<Rightarrow> review_db \<Rightarrow> service_error + review_db" where
  "insert_private_asset a db =
     (if sql_exists (\<lambda>b. pa_id b = pa_id a) (rv_assets db)
      then Inl (Database (SqlxDatabase True (Some ''challenge_private_assets_pkey'') ''duplicate key''))
      else if sql_exists (\<lambda>b. pa_record b = pa_record a \<and> pa_name b = pa_name a \<and> pa_status b \<in> {APending, AActive}) (rv_assets db)
      then Inl (Database (SqlxDatabase True (Some ''idx_challenge_private_assets_active_pending_name'') ''duplicate key''))
      else if pa_size_bytes a < 0
      then Inl (Database (SqlxDatabase False (Some ''challenge_private_assets_size_bytes_check'') ''negative size''))
      else Inr (db\<lparr>rv_assets := sql_insert a (rv_assets db)\<rparr>))"

definition invalidate_record :: "timestamp \<Rightarrow> review_record_row \<Rightarrow> review_record_row" where
  "invalidate_record now r =
     (if rr_status r = RValidated
      then r\<lparr>rr_status := RPendingReview, rr_validation_message := None, rr_validation_repository_path := None,
             rr_validation_bundle_sha256 := None, rr_approved_bundle_sha256 := None, rr_updated_at := now\<rparr>
      else r\<lparr>rr_updated_at := now\<rparr>)"

definition reserve_challenge_private_asset ::
  "timestamp \<Rightarrow> create_private_asset_input \<Rightarrow> nat \<Rightarrow> int \<Rightarrow> int \<Rightarrow> private_asset_row rtx" where
  "reserve_challenge_private_asset now inp max_bytes validation_timeout pending_timeout db =
     (let rid = ca_review_record_id inp;
          db1 = auto_fail_stale_pending_private_assets_tx now rid pending_timeout
                  (lock_quota_scope (''challenge-review-record:'' @ rid @ '':private-assets'') db)
      in and_then (guard_err (int max_bytes > i64_max) (Internal ''private asset quota limit exceeds supported range'')) (\<lambda>_.
         and_then (ensure_private_asset_upload_allowed_tx now inp validation_timeout db1) (\<lambda>(_, db2).
         (let next_total = asset_bytes rid db2 + ca_size_bytes inp
          in and_then (guard_err (next_total > i64_max \<or> next_total < i64_min) (BadRequest ''private asset size overflow'')) (\<lambda>_.
             and_then (guard_err (next_total > int max_bytes) (TooManyRequests
               (''private asset quota exceeded for review record `'' @ rid @ ''`: '' @ show_int next_total @ '' of '' @ show_nat max_bytes
                 @ '' bytes would be used''))) (\<lambda>_.
             and_then (insert_private_asset (new_private_asset now inp) db2) (\<lambda>db3.
             Inr (new_private_asset now inp,
                  update_records (\<lambda>r. rr_id r = rid \<and> rr_status r \<in> {RPendingReview, RValidated}) (invalidate_record now) db3))))))))"

definition activate_challenge_private_asset_tx :: "timestamp \<Rightarrow> uuid \<Rightarrow> private_asset_row rtx" where
  "activate_challenge_private_asset_tx now aid db =
     (let pending = (\<lambda>a. pa_id a = aid \<and> pa_status a = APending);
          activate = (\<lambda>a. a\<lparr>pa_status := AActive, pa_temporary_storage_key := None, pa_activated_at := Some now,
            pa_failed_at := None, pa_failure_message := None\<rparr>)
      in case sql_first pending (rv_assets db) of
           None \<Rightarrow> Inl Conflict
         | Some a \<Rightarrow>
             (case record_by_id (pa_record a) (rv_records db) of
                None \<Rightarrow> Inl NotFound
              | Some r \<Rightarrow>
                  and_then (guard_err (rr_active_validation r \<noteq> None \<or> rr_status r \<notin> {RPendingReview, RValidated}) Conflict) (\<lambda>_.
                  Inr (activate a, update_records (\<lambda>q. rr_id q = pa_record a) (invalidate_record now)
                         (db\<lparr>rv_assets := sql_update pending activate (rv_assets db)\<rparr>)))))"

definition activate_challenge_private_asset_with_audit :: "timestamp \<Rightarrow> uuid \<Rightarrow> uuid \<Rightarrow> uuid \<Rightarrow> private_asset_row rtx" where
  "activate_challenge_private_asset_with_audit now aid event_id actor db =
     and_then (activate_challenge_private_asset_tx now aid db) (\<lambda>(a, db1).
     and_then (create_challenge_review_audit_event_tx
       \<lparr>ae_id = event_id, ae_record = pa_record a, ae_actor_human = Some actor, ae_actor_token = None, ae_actor_display = None,
        ae_action = ''private_asset_uploaded'', ae_message = ''private benchmark asset uploaded'',
        ae_metadata = [(''asset_name'', MetaText (pa_name a)), (''kind'', MetaText (asset_kind_as_str (pa_kind a))),
          (''size_bytes'', MetaNumber (pa_size_bytes a)), (''sha256'', MetaText (pa_sha256 a))]\<rparr> db1) (\<lambda>(_, db2).
     Inr (a, db2)))"

definition private_asset_storage_key_has_active_reference :: "storage_key \<Rightarrow> review_db \<Rightarrow> bool" where
  "private_asset_storage_key_has_active_reference key db =
     sql_exists (\<lambda>a. pa_storage_key a = key \<and> pa_status a = AActive) (rv_assets db)"

definition list_unpublished_private_assets_for_purge :: "timestamp \<Rightarrow> int \<Rightarrow> review_db \<Rightarrow> uuid list" where
  "list_unpublished_private_assets_for_purge now grace_days db =
     map pa_id (sort_by (\<lambda>a b. cmp_lin (pa_created_at a) (pa_created_at b))
       (sql_select (\<lambda>a. sql_exists (\<lambda>r. rr_id r = pa_record a \<and> rr_status r \<in> {RAbandoned, RRejected}
           \<and> rr_updated_at r < now - days grace_days) (rv_records db)) (rv_assets db)))"

definition mark_challenge_private_asset_purging :: "uuid \<Rightarrow> review_db \<Rightarrow> private_asset_row option \<times> review_db" where
  "mark_challenge_private_asset_purging aid db =
     (sql_first (\<lambda>a. pa_id a = aid) (rv_assets db),
      db\<lparr>rv_assets := sql_update (\<lambda>a. pa_id a = aid) (\<lambda>a. a\<lparr>pa_status := APurging\<rparr>) (rv_assets db)\<rparr>)"

definition delete_challenge_private_asset :: "timestamp \<Rightarrow> uuid \<Rightarrow> review_db \<Rightarrow> review_db" where
  "delete_challenge_private_asset now aid db =
     (let touched = pa_record ` set (sql_select (\<lambda>a. pa_id a = aid) (rv_assets db))
      in update_records (\<lambda>r. rr_id r \<in> touched) (\<lambda>r. r\<lparr>rr_updated_at := now\<rparr>)
           (db\<lparr>rv_assets := sql_delete (\<lambda>a. pa_id a = aid) (rv_assets db)\<rparr>))"

section \<open>Publishing\<close>

definition reset_stale_publishing_review_record_tx :: "timestamp \<Rightarrow> uuid \<Rightarrow> int \<Rightarrow> review_db \<Rightarrow> review_db" where
  "reset_stale_publishing_review_record_tx now rid timeout db =
     update_records (\<lambda>r. rr_id r = rid \<and> rr_status r = RPublishing \<and> rr_updated_at r < now - minutes (max timeout 1))
       (\<lambda>r. r\<lparr>rr_status := RApproved, rr_publish_claim := None,
              rr_validation_message := Some ''previous publish attempt expired'', rr_updated_at := now\<rparr>) db"

text \<open>\<open>claim\<close> is the generated claim id. The claim is \<open>None\<close> for a record that is already published.\<close>

definition claim_challenge_review_record_for_publish :: "timestamp \<Rightarrow> uuid \<Rightarrow> int \<Rightarrow> uuid \<Rightarrow> uuid option rtx" where
  "claim_challenge_review_record_for_publish now rid timeout claim db =
     (let db1 = reset_stale_publishing_review_record_tx now rid timeout
                  (lock_quota_scope (''challenge-review-record:'' @ rid @ '':publish'') db)
      in case record_by_id rid (rv_records db1) of
           None \<Rightarrow> Inl NotFound
         | Some r \<Rightarrow>
             (case rr_status r of
                RPublished \<Rightarrow> Inr (None, db1)
              | RApproved \<Rightarrow>
                  if sql_exists (\<lambda>q. rr_publish_claim q = Some claim) (rv_records db1)
                  then Inl (Database (SqlxDatabase True (Some ''idx_challenge_review_records_publish_claim_id'') ''duplicate key''))
                  else and_then (update_or_conflict (\<lambda>q. rr_id q = rid \<and> rr_status q = RApproved \<and> rr_active_validation q = None)
                         (\<lambda>q. q\<lparr>rr_status := RPublishing, rr_publish_claim := Some claim, rr_updated_at := now\<rparr>) db1) (\<lambda>(_, db2).
                       Inr (Some claim, db2))
              | _ \<Rightarrow> Inl Conflict))"

definition fail_challenge_review_record_publish :: "timestamp \<Rightarrow> uuid \<Rightarrow> uuid \<Rightarrow> string \<Rightarrow> unit rtx" where
  "fail_challenge_review_record_publish now rid claim msg db =
     update_or_conflict (\<lambda>r. rr_id r = rid \<and> rr_status r = RPublishing \<and> rr_publish_claim r = Some claim)
       (\<lambda>r. r\<lparr>rr_status := RApproved, rr_publish_claim := None, rr_validation_message := Some msg, rr_updated_at := now\<rparr>) db"

definition mark_challenge_review_record_published_tx :: "timestamp \<Rightarrow> uuid \<Rightarrow> uuid \<Rightarrow> challenge_name option \<Rightarrow> unit rtx" where
  "mark_challenge_review_record_published_tx now rid claim name db =
     update_or_conflict (\<lambda>r. rr_id r = rid \<and> rr_status r = RPublishing \<and> rr_publish_claim r = Some claim \<and> rr_active_validation r = None)
       (\<lambda>r. r\<lparr>rr_status := RPublished, rr_published_challenge := name, rr_publish_claim := None, rr_updated_at := now\<rparr>) db"

definition ensure_creator_eligible_for_publish_tx :: "uuid \<Rightarrow> review_db \<Rightarrow> unit result" where
  "ensure_creator_eligible_for_publish_tx h db =
     and_then (guard_err (map_option hu_status (sql_first (\<lambda>u. hu_id u = h) (rv_humans db)) \<noteq> Some ''active'') Conflict) (\<lambda>_.
     guard_err (\<not> sql_exists (\<lambda>r. hr_human r = h \<and> hr_role r \<in> {''creator'', ''admin''} \<and> hr_revoked_at r = None) (rv_roles db)) Conflict)"

definition add_challenge_owner_tx :: "challenge_name \<Rightarrow> uuid \<Rightarrow> review_db \<Rightarrow> review_db" where
  "add_challenge_owner_tx n h db =
     (if (n, h) \<in> set (rv_owners db) then db else db\<lparr>rv_owners := sql_insert (n, h) (rv_owners db)\<rparr>)"

record publish_new_input =
  pn_review_record_id :: uuid
  pn_publish_claim_id :: uuid
  pn_challenge :: publish_challenge_input
  pn_owner :: uuid
  pn_audit_event_id :: uuid
  pn_actor_human :: "uuid option"
  pn_actor_token :: "uuid option"
  pn_actor_display :: string
  pn_repository_path :: string
  pn_bundle_sha256 :: string

definition published_event ::
  "uuid \<Rightarrow> uuid \<Rightarrow> uuid option \<Rightarrow> uuid option \<Rightarrow> string \<Rightarrow> challenge_name \<Rightarrow> challenge_name \<Rightarrow> string \<Rightarrow> string \<Rightarrow> audit_event" where
  "published_event eid rid human token display requested published path digest =
     \<lparr>ae_id = eid, ae_record = rid, ae_actor_human = human, ae_actor_token = token, ae_actor_display = Some display,
      ae_action = ''review_record_published'', ae_message = ''challenge review record published'',
      ae_metadata = [(''challenge_name'', MetaText requested), (''published_challenge_name'', MetaText published),
        (''repository_path'', MetaText path), (''bundle_sha256'', MetaText digest)]\<rparr>"

definition publish_new_challenge_review_record :: "env \<Rightarrow> publish_new_input \<Rightarrow> unit rtx" where
  "publish_new_challenge_review_record env inp db =
     and_then (ensure_creator_eligible_for_publish_tx (pn_owner inp) db) (\<lambda>_.
     and_then (publish_challenge_tx env (pn_challenge inp) (rv_db db)) (\<lambda>(c, core).
     and_then (mark_challenge_review_record_published_tx (env_now env) (pn_review_record_id inp) (pn_publish_claim_id inp)
       (Some (ch_name c)) (add_challenge_owner_tx (ch_name c) (pn_owner inp) (db\<lparr>rv_db := core\<rparr>))) (\<lambda>(_, db1).
     create_challenge_review_audit_event_tx (published_event (pn_audit_event_id inp) (pn_review_record_id inp) (pn_actor_human inp)
       (pn_actor_token inp) (pn_actor_display inp) (pi_challenge_name (pn_challenge inp)) (ch_name c) (pn_repository_path inp)
       (pn_bundle_sha256 inp)) db1)))"

record publish_archive_input =
  px_review_record_id :: uuid
  px_publish_claim_id :: uuid
  px_challenge_name :: challenge_name
  px_owner :: uuid
  px_audit_event_id :: uuid
  px_actor_human :: "uuid option"
  px_actor_token :: "uuid option"
  px_actor_display :: string
  px_repository_path :: string
  px_bundle_sha256 :: string

definition resolve_active_challenge_name_by_name_tx :: "challenge_name \<Rightarrow> review_db \<Rightarrow> challenge_name result" where
  "resolve_active_challenge_name_by_name_tx n db =
     ok_or NotFound (map_option ch_name
       (sql_first (\<lambda>c. ch_name c = n \<and> ch_status c = ChActive \<and> ch_spec_json c \<noteq> SpecNull) (challenges (rv_db db))))"

definition ensure_human_owns_challenge_tx :: "challenge_name \<Rightarrow> uuid \<Rightarrow> review_db \<Rightarrow> unit result" where
  "ensure_human_owns_challenge_tx n h db =
     guard_err ((n, h) \<notin> set (rv_owners db))
       (Forbidden ''only a challenge owner can publish an archive review_record for this challenge'')"

definition archive_challenge_tx :: "challenge_name \<Rightarrow> unit rtx" where
  "archive_challenge_tx n db =
     (case archive_challenge n (rv_db db) of (Inl e, _) \<Rightarrow> Inl e | (Inr _, core) \<Rightarrow> Inr ((), db\<lparr>rv_db := core\<rparr>))"

definition publish_archive_challenge_review_record :: "env \<Rightarrow> publish_archive_input \<Rightarrow> unit rtx" where
  "publish_archive_challenge_review_record env inp db =
     and_then (resolve_active_challenge_name_by_name_tx (px_challenge_name inp) db) (\<lambda>n.
     and_then (ensure_human_owns_challenge_tx n (px_owner inp) db) (\<lambda>_.
     and_then (ensure_creator_eligible_for_publish_tx (px_owner inp) db) (\<lambda>_.
     and_then (archive_challenge_tx n db) (\<lambda>(_, db1).
     and_then (mark_challenge_review_record_published_tx (env_now env) (px_review_record_id inp) (px_publish_claim_id inp) (Some n) db1) (\<lambda>(_, db2).
     create_challenge_review_audit_event_tx (published_event (px_audit_event_id inp) (px_review_record_id inp) (px_actor_human inp)
       (px_actor_token inp) (px_actor_display inp) (px_challenge_name inp) n (px_repository_path inp) (px_bundle_sha256 inp)) db2)))))"

end
