(* ===== verification/Review_Automaton.thy ===== *)
theory Review_Automaton
  imports Review_Records
begin

text \<open>
  What a reviewer may rely on: an abstract automaton for one challenge review record, with the record's
  status, its running validation, the digests, the publishing claim and its private assets. The
  operations of \<open>Review_Records\<close> are simulated by it: whatever a transaction does to the tables, every
  record makes a (possibly empty) sequence of moves of the automaton.
\<close>

section \<open>The automaton\<close>

record review_view =
  vw_status :: review_status
  vw_active :: "uuid option"
  vw_validated :: "string option"
  vw_approved :: "string option"
  vw_claim :: "uuid option"
  vw_pending :: bool
  vw_assets :: "private_asset_row set"

definition initial_view :: "review_view \<Rightarrow> bool" where
  "initial_view v = (vw_status v = RPendingReview \<and> vw_active v = None \<and> vw_validated v = None
     \<and> vw_approved v = None \<and> vw_claim v = None)"

text \<open>A change of the private assets makes an earlier validation void.\<close>

definition reopened :: "review_view \<Rightarrow> review_view" where
  "reopened v = (if vw_status v = RValidated
     then v\<lparr>vw_status := RPendingReview, vw_validated := None, vw_approved := None\<rparr> else v)"

text \<open>\<open>D\<close> holds the digests with which a validation of the record has passed.\<close>

inductive review_move :: "string option set \<Rightarrow> review_view \<Rightarrow> review_view \<Rightarrow> bool" for D where
  begin_validation: "vw_status v \<in> {RPendingReview, RValidated} \<Longrightarrow> vw_active v = None \<Longrightarrow> \<not> vw_pending v \<Longrightarrow>
    review_move D v (v\<lparr>vw_active := Some x\<rparr>)"
| expire_validation: "review_move D v (v\<lparr>vw_active := None\<rparr>)"
| pass_validation: "vw_status v \<in> {RPendingReview, RValidated} \<Longrightarrow> vw_active v \<noteq> None \<Longrightarrow> d \<in> D \<Longrightarrow>
    review_move D v (v\<lparr>vw_status := RValidated, vw_validated := d, vw_active := None\<rparr>)"
| fail_validation: "vw_status v \<in> {RPendingReview, RValidated} \<Longrightarrow> vw_active v \<noteq> None \<Longrightarrow>
    review_move D v (v\<lparr>vw_status := RPendingReview, vw_validated := d, vw_active := None\<rparr>)"
| approve: "vw_status v = RValidated \<Longrightarrow> vw_active v = None \<Longrightarrow> vw_validated v \<noteq> None \<Longrightarrow>
    review_move D v (v\<lparr>vw_status := RApproved, vw_approved := vw_validated v\<rparr>)"
| reject: "vw_status v \<in> {RPendingReview, RValidated, RApproved} \<Longrightarrow> vw_active v = None \<Longrightarrow>
    review_move D v (v\<lparr>vw_status := RRejected\<rparr>)"
| abandon: "vw_status v \<in> {RPendingReview, RValidated, RApproved, RRejected} \<Longrightarrow>
    review_move D v (v\<lparr>vw_status := RAbandoned\<rparr>)"
| change_assets: "vw_status v \<in> {RPendingReview, RValidated} \<Longrightarrow> vw_active v = None \<Longrightarrow>
    review_move D v ((reopened v)\<lparr>vw_pending := p, vw_assets := A\<rparr>)"
| settle_pending: "review_move D v (v\<lparr>vw_pending := False\<rparr>)"
| purge_assets: "vw_status v \<in> {RRejected, RAbandoned} \<Longrightarrow> review_move D v (v\<lparr>vw_pending := p, vw_assets := A\<rparr>)"
| claim: "vw_status v = RApproved \<Longrightarrow> vw_active v = None \<Longrightarrow>
    review_move D v (v\<lparr>vw_status := RPublishing, vw_claim := Some x\<rparr>)"
| release: "vw_status v = RPublishing \<Longrightarrow> review_move D v (v\<lparr>vw_status := RApproved, vw_claim := None\<rparr>)"
| publish: "vw_status v = RPublishing \<Longrightarrow> vw_claim v \<noteq> None \<Longrightarrow> vw_active v = None \<Longrightarrow>
    review_move D v (v\<lparr>vw_status := RPublished, vw_claim := None\<rparr>)"

abbreviation review_path :: "string option set \<Rightarrow> review_view \<Rightarrow> review_view \<Rightarrow> bool" where
  "review_path D \<equiv> (review_move D)\<^sup>*\<^sup>*"

lemma review_move_mono: "review_move D v w \<Longrightarrow> D \<subseteq> E \<Longrightarrow> review_move E v w"
  by (induction rule: review_move.induct) (auto intro: review_move.intros)

lemma review_path_mono: "review_path D v w \<Longrightarrow> D \<subseteq> E \<Longrightarrow> review_path E v w"
  by (induction rule: rtranclp_induct) (auto intro: rtranclp.rtrancl_into_rtrancl review_move_mono)

text \<open>What holds of every record in every reachable state of the automaton.\<close>

definition view_ok :: "string option set \<Rightarrow> review_view \<Rightarrow> bool" where
  "view_ok D v \<longleftrightarrow>
     (vw_status v \<in> {RApproved, RPublishing, RPublished} \<longrightarrow> vw_validated v \<noteq> None \<and> vw_approved v = vw_validated v)
   \<and> (vw_status v \<in> {RValidated, RApproved, RPublishing, RPublished} \<longrightarrow> vw_validated v \<in> D \<and> \<not> vw_pending v)
   \<and> (vw_active v \<noteq> None \<longrightarrow> vw_status v \<in> {RPendingReview, RValidated, RAbandoned})
   \<and> (vw_active v \<noteq> None \<and> vw_status v \<noteq> RAbandoned \<longrightarrow> \<not> vw_pending v)
   \<and> (vw_claim v \<noteq> None \<longleftrightarrow> vw_status v = RPublishing)"

lemma initial_view_ok: "initial_view v \<Longrightarrow> view_ok D v"
  by (simp add: initial_view_def view_ok_def)

lemma view_ok_mono: "view_ok D v \<Longrightarrow> D \<subseteq> E \<Longrightarrow> view_ok E v"
  unfolding view_ok_def by blast

lemma review_move_ok: "review_move D v w \<Longrightarrow> view_ok D v \<Longrightarrow> view_ok D w"
  by (cases "vw_status v"; erule review_move.cases) (simp_all add: view_ok_def reopened_def)

lemma review_path_ok: "review_path D v w \<Longrightarrow> view_ok D v \<Longrightarrow> view_ok D w"
  by (induction rule: rtranclp_induct) (simp_all add: review_move_ok)

text \<open>The status edges, and what no path undoes.\<close>

definition closed_status :: "review_status set" where
  "closed_status = {RRejected, RAbandoned}"

lemma review_path_closed:
  "review_path D v w \<Longrightarrow> vw_status v \<in> closed_status \<Longrightarrow> vw_status w \<in> closed_status"
proof (induction rule: rtranclp_induct)
  case (step w x)
  from step.hyps(2) step.IH [OF step.prems] show ?case
    by (cases "vw_status w"; cases rule: review_move.cases) (simp_all add: closed_status_def reopened_def)
qed

lemma review_path_published:
  assumes "review_path D v w" and "vw_status v = RPublished" and "view_ok D v"
  shows "vw_status w = RPublished \<and> vw_assets w = vw_assets v \<and> vw_approved w = vw_approved v"
proof -
  have "vw_status w = RPublished \<and> vw_assets w = vw_assets v \<and> vw_approved w = vw_approved v \<and> view_ok D w"
    using assms
  proof (induction rule: rtranclp_induct)
    case (step w x)
    then have w: "vw_status w = RPublished \<and> vw_assets w = vw_assets v \<and> vw_approved w = vw_approved v"
      and ok: "view_ok D w" by blast+
    from step.hyps(2) ok have "view_ok D x" by (rule review_move_ok)
    with step.hyps(2) w ok show ?case by (cases rule: review_move.cases) (simp_all add: view_ok_def)
  qed simp
  then show ?thesis by blast
qed

text \<open>Once a record is approved, its assets and digests stay until the record is given up.\<close>

lemma review_path_frozen:
  assumes "review_path D v w" and "vw_status v \<in> {RApproved, RPublishing, RPublished}"
  shows "vw_status w \<in> closed_status \<or> (vw_status w \<in> {RApproved, RPublishing, RPublished}
    \<and> vw_assets w = vw_assets v \<and> vw_approved w = vw_approved v \<and> vw_validated w = vw_validated v)"
  using assms
proof (induction rule: rtranclp_induct)
  case (step w x)
  from step.hyps(2) step.IH [OF step.prems] show ?case
    by (cases "vw_status w"; cases rule: review_move.cases) (simp_all add: closed_status_def reopened_def)
qed simp

end
