(* ===== verification/Review_Refinement.thy ===== *)
theory Review_Refinement
  imports Review_Automaton
begin

text \<open>
  The simulation: \<open>view_at\<close> abstracts one review record of the tables to a state of the automaton, and
  every transaction of \<open>Review_Records\<close> moves every record along a path of the automaton.
\<close>

section \<open>Abstraction\<close>

definition review_view_of :: "private_asset_row list \<Rightarrow> review_record_row \<Rightarrow> review_view" where
  "review_view_of assets r =
     \<lparr>vw_status = rr_status r, vw_active = rr_active_validation r, vw_validated = rr_validation_bundle_sha256 r,
      vw_approved = rr_approved_bundle_sha256 r, vw_claim = rr_publish_claim r,
      vw_pending = sql_exists (\<lambda>a. pa_record a = rr_id r \<and> pa_status a = APending) assets,
      vw_assets = {a \<in> set assets. pa_record a = rr_id r \<and> pa_status a = AActive}\<rparr>"

definition view_at :: "uuid \<Rightarrow> review_db \<Rightarrow> review_view option" where
  "view_at i db = map_option (review_view_of (rv_assets db)) (record_by_id i (rv_records db))"

definition passed_digests :: "uuid \<Rightarrow> review_db \<Rightarrow> string option set" where
  "passed_digests i db = va_bundle_sha256 ` {v \<in> set (rv_validations db). va_record v = i \<and> va_status v = VPassed}"

fun tracks :: "string option set \<Rightarrow> review_view option \<Rightarrow> review_view option \<Rightarrow> bool" where
  "tracks D None None = True"
| "tracks D None (Some w) = (\<exists>v. initial_view v \<and> review_path D v w)"
| "tracks D (Some v) None = False"
| "tracks D (Some v) (Some w) = review_path D v w"

definition simulated :: "review_db \<Rightarrow> review_db \<Rightarrow> bool" where
  "simulated db db' = ((pk_ok rr_id (rv_records db) \<longrightarrow> pk_ok rr_id (rv_records db'))
     \<and> (\<forall>i. passed_digests i db \<subseteq> passed_digests i db'
          \<and> tracks (passed_digests i db') (view_at i db) (view_at i db')))"

lemma tracks_refl: "tracks D v v"
  by (cases v) simp_all

lemma tracks_trans:
  assumes "tracks D u v" and "tracks E v w" and "D \<subseteq> E"
  shows "tracks E u w"
  using assms
  by (cases u; cases v; cases w) (auto intro: rtranclp_trans dest!: review_path_mono [OF _ assms(3)])

lemma simulated_refl: "simulated db db"
  by (simp add: simulated_def tracks_refl)

lemma simulated_trans: "simulated a b \<Longrightarrow> simulated b c \<Longrightarrow> simulated a c"
  unfolding simulated_def by (meson order_trans tracks_trans)

text \<open>A statement that rewrites records in place and leaves passed validations alone.\<close>

lemma simulated_updateI:
  assumes rec: "rv_records db' = sql_update P f (rv_records db)"
    and id: "\<And>r. P r \<Longrightarrow> rr_id (f r) = rr_id r"
    and D: "\<And>i. passed_digests i db \<subseteq> passed_digests i db'"
    and path: "\<And>r. record_by_id (rr_id r) (rv_records db) = Some r \<Longrightarrow>
      review_path (passed_digests (rr_id r) db') (review_view_of (rv_assets db) r)
        (review_view_of (rv_assets db') (if P r then f r else r))"
  shows "simulated db db'"
  unfolding simulated_def
proof (intro allI conjI impI D)
  show "pk_ok rr_id (rv_records db')" if "pk_ok rr_id (rv_records db)"
    unfolding rec using that id by (rule pk_ok_update)
  fix i
  show "tracks (passed_digests i db') (view_at i db) (view_at i db')"
  proof (cases "record_by_id i (rv_records db)")
    case None
    then show ?thesis by (simp add: view_at_def rec record_tbl.lookup_update [OF id])
  next
    case (Some r)
    then have "rr_id r = i" using record_tbl.lookup_Some_in by blast
    with Some path [of r] show ?thesis by (simp add: view_at_def rec record_tbl.lookup_update [OF id])
  qed
qed

lemma simulated_update_records:
  assumes "\<And>r. P r \<Longrightarrow> rr_id (f r) = rr_id r"
    and "\<And>r. record_by_id (rr_id r) (rv_records db) = Some r \<Longrightarrow> P r \<Longrightarrow>
      review_path (passed_digests (rr_id r) db) (review_view_of (rv_assets db) r) (review_view_of (rv_assets db) (f r))"
  shows "simulated db (update_records P f db)"
proof (rule simulated_updateI [where P = P and f = f])
  have same: "passed_digests i (update_records P f db) = passed_digests i db" for i
    by (simp add: update_records_def passed_digests_def)
  show "passed_digests i db \<subseteq> passed_digests i (update_records P f db)" for i by (simp add: same)
  show "review_path (passed_digests (rr_id r) (update_records P f db)) (review_view_of (rv_assets db) r)
      (review_view_of (rv_assets (update_records P f db)) (if P r then f r else r))"
    if "record_by_id (rr_id r) (rv_records db) = Some r" for r
    unfolding same using assms(2) [OF that] by (simp add: update_records_def)
qed (simp_all add: update_records_def assms(1))

lemma simulated_same:
  assumes "rv_records db' = rv_records db" "rv_validations db' = rv_validations db" "rv_assets db' = rv_assets db"
  shows "simulated db db'"
  by (simp add: simulated_def view_at_def passed_digests_def assms tracks_refl)

lemma update_or_conflict_ok:
  "update_or_conflict P f db = Inr (u, db') \<longleftrightarrow> sql_count P (rv_records db) \<noteq> 0 \<and> db' = update_records P f db"
  by (auto simp: update_or_conflict_def)

lemma simulated_update_or_conflict:
  assumes "update_or_conflict P f db = Inr (u, db')" and "\<And>r. P r \<Longrightarrow> rr_id (f r) = rr_id r"
    and "\<And>r. P r \<Longrightarrow>
      review_path (passed_digests (rr_id r) db) (review_view_of (rv_assets db) r) (review_view_of (rv_assets db) (f r))"
  shows "simulated db db'"
  using assms by (auto simp: update_or_conflict_ok intro!: simulated_update_records)

lemma simulated_lock: "simulated db (lock_quota_scope scope db)"
  by (rule simulated_same) (simp_all add: lock_quota_scope_def)

lemma simulated_audit:
  "create_challenge_review_audit_event_tx ev db = Inr (u, db') \<Longrightarrow> simulated db db'"
  by (rule simulated_same)
    (auto simp: create_challenge_review_audit_event_tx_def split: if_splits)

section \<open>Creation and decisions\<close>

lemma new_initial: "\<exists>v. initial_view v \<and> review_path D v (review_view_of assets (new_review_record now inp))"
  by (rule exI [of _ "review_view_of assets (new_review_record now inp)"])
    (simp add: initial_view_def review_view_of_def new_review_record_def)

lemma simulated_create:
  assumes "create_challenge_review_record now inp ev db = Inr (r, db')"
  shows "simulated db db'"
proof -
  let ?row = "new_review_record now inp"
  obtain db1 db2 u where ins: "insert_review_record ?row (lock_quota_scope db1 db) = Inr db2"
    and au: "create_challenge_review_audit_event_tx ev db2 = Inr (u, db')"
    using assms by (auto simp: create_challenge_review_record_def Let_def result_simps)
  from ins have rec: "rv_records db2 = sql_insert ?row (rv_records db)"
    and val: "rv_validations db2 = rv_validations db" and ass: "rv_assets db2 = rv_assets db"
    by (auto simp: insert_review_record_def lock_quota_scope_def split: if_splits)
  from ins have new: "\<forall>q \<in> set (rv_records db). rr_id q \<noteq> rr_id ?row"
    by (auto simp: insert_review_record_def lock_quota_scope_def split: if_splits)
  have "simulated db db2"
    unfolding simulated_def
  proof (intro allI conjI impI)
    show "pk_ok rr_id (rv_records db2)" if "pk_ok rr_id (rv_records db)"
      unfolding rec using that new by (rule pk_ok_insert)
    fix i
    show "passed_digests i db \<subseteq> passed_digests i db2" by (simp add: passed_digests_def val)
    show "tracks (passed_digests i db2) (view_at i db) (view_at i db2)"
      by (cases "record_by_id i (rv_records db)")
        (auto simp: view_at_def rec record_tbl.lookup_insert ass new_initial)
  qed
  then show ?thesis using simulated_audit [OF au] by (rule simulated_trans)
qed

lemma path_step: "review_move D v w \<Longrightarrow> w' = w \<Longrightarrow> review_path D v w'"
  by auto

lemma path_same: "w = v \<Longrightarrow> review_path D v w"
  by simp

lemma simulated_approve:
  "approve_validated_challenge_review_record now rid msg db = Inr (u, db') \<Longrightarrow> simulated db db'"
  unfolding approve_validated_challenge_review_record_def
  by (erule simulated_update_or_conflict)
    (simp add: approve_record_def, rule path_step, rule review_move.approve,
      auto simp: approve_record_def review_view_of_def)

lemma simulated_approve_with_audit:
  "approve_validated_challenge_review_record_with_audit now rid expected msg ev db = Inr (u, db') \<Longrightarrow> simulated db db'"
  unfolding approve_validated_challenge_review_record_with_audit_def
  apply (clarsimp simp: result_simps)
  apply (rule simulated_trans)
   apply (erule simulated_update_or_conflict)
    apply (simp add: approve_record_def)
   apply (rule path_step, rule review_move.approve)
  apply (auto simp: approve_record_def review_view_of_def dest: simulated_audit)
  done

lemma simulated_reject:
  "update_challenge_review_record_status now rid RRejected msg db = Inr (u, db') \<Longrightarrow> simulated db db'"
  unfolding update_challenge_review_record_status_def
  by (erule simulated_update_or_conflict)
    (simp add: decide_record_def, rule path_step, rule review_move.reject,
      auto simp: decide_record_def review_view_of_def)

lemma simulated_abandon:
  "abandon_challenge_review_record now rid msg db = Inr (u, db') \<Longrightarrow> simulated db db'"
  unfolding abandon_challenge_review_record_def
  by (erule simulated_update_or_conflict)
    (simp add: decide_record_def, rule path_step, rule review_move.abandon,
      auto simp: decide_record_def review_view_of_def)

lemma simulated_abandon_stale:
  "abandon_stale_challenge_review_records now ttl db = (n, db') \<Longrightarrow> simulated db db'"
  by (auto simp: abandon_stale_challenge_review_records_def Let_def review_view_of_def
      intro!: simulated_update_records path_step [OF review_move.abandon])

section \<open>Validation\<close>

lemma passed_digests_update:
  assumes "rv_validations db' = sql_update P f (rv_validations db)" and "\<And>v. P v \<Longrightarrow> va_status v = VRunning"
  shows "passed_digests i db \<subseteq> passed_digests i db'"
proof
  fix d
  assume "d \<in> passed_digests i db"
  then obtain v where v: "v \<in> set (rv_validations db)" "va_record v = i" "va_status v = VPassed" "d = va_bundle_sha256 v"
    by (auto simp: passed_digests_def)
  with assms have "v \<in> set (rv_validations db')" by (auto simp: in_sql_update)
  with v show "d \<in> passed_digests i db'" by (auto simp: passed_digests_def)
qed

lemma simulated_clear_stale: "simulated db (clear_stale_active_validation_tx now timeout rid db)"
proof (cases "stale_validation now timeout rid db")
  case None
  then show ?thesis by (simp add: clear_stale_active_validation_tx_def simulated_refl)
next
  case (Some vid)
  show ?thesis
    by (rule simulated_updateI [where P = "\<lambda>r. rr_id r = rid \<and> rr_active_validation r = Some vid"
          and f = "\<lambda>r. r\<lparr>rr_active_validation := None,
            rr_validation_message := Some ''challenge review record validation lease expired'', rr_updated_at := now\<rparr>"])
      (auto simp: clear_stale_active_validation_tx_def Some update_records_def review_view_of_def
        intro!: path_step [OF review_move.expire_validation]
        intro: passed_digests_update [where P = "\<lambda>v. va_id v = vid \<and> va_status v = VRunning", THEN subsetD])
qed

lemma clear_stale_lookup:
  "record_by_id i (rv_records (clear_stale_active_validation_tx now timeout rid db)) = Some r' \<Longrightarrow>
     \<exists>r. record_by_id i (rv_records db) = Some r \<and> rr_status r' = rr_status r"
  by (auto simp: clear_stale_active_validation_tx_def update_records_def record_tbl.lookup_update
      split: option.splits if_splits)

lemma clear_stale_assets [simp]: "rv_assets (clear_stale_active_validation_tx now timeout rid db) = rv_assets db"
  by (simp add: clear_stale_active_validation_tx_def update_records_def split: option.splits)

lemma simulated_begin:
  assumes "begin_challenge_review_record_validation now inp window limit timeout db = Inr (v, db')"
  shows "simulated db db'"
proof -
  let ?rid = "bv_review_record_id inp"
  define db1 where "db1 = lock_quota_scope (''challenge-review-record:'' @ ?rid @ '':validations'') db"
  note run = assms [unfolded begin_challenge_review_record_validation_def Let_def, folded db1_def]
  obtain r where r: "record_by_id ?rid (rv_records db1) = Some r"
    using run by (cases "record_by_id ?rid (rv_records db1)") simp_all
  define db2 where "db2 = (if rr_active_validation r \<noteq> None then clear_stale_active_validation_tx now timeout ?rid db1 else db1)"
  define db3 where "db3 = db2\<lparr>rv_validations := sql_insert (new_validation now inp) (rv_validations db2)\<rparr>"
  note run = run [unfolded r option.case, folded db2_def, folded db3_def]
  from run have status: "rr_status r \<in> {RPendingReview, RValidated}"
    and idle: "case record_by_id ?rid (rv_records db2) of None \<Rightarrow> True | Some q \<Rightarrow> rr_active_validation q = None"
    and nopend: "\<not> sql_exists (\<lambda>a. pa_record a = ?rid \<and> pa_status a = APending) (rv_assets db2)"
    and upd: "update_or_conflict (\<lambda>r. rr_id r = ?rid \<and> rr_active_validation r = None)
      (\<lambda>r. r\<lparr>rr_active_validation := Some (bv_validation_record_id inp), rr_updated_at := now\<rparr>) db3 = Inr ((), db')"
    by (auto simp: result_simps split: option.splits if_splits)
  have 1: "simulated db db1" unfolding db1_def by (rule simulated_lock)
  have 2: "simulated db1 db2" unfolding db2_def by (simp add: simulated_clear_stale simulated_refl)
  have 3: "simulated db2 db3"
    unfolding simulated_def by (auto simp: db3_def passed_digests_def view_at_def tracks_refl)
  have at: "rr_status q \<in> {RPendingReview, RValidated}" if q: "record_by_id ?rid (rv_records db3) = Some q" for q
  proof (cases "rr_active_validation r = None")
    case True
    with q r status show ?thesis by (simp add: db3_def db2_def)
  next
    case False
    with q have "record_by_id ?rid (rv_records (clear_stale_active_validation_tx now timeout ?rid db1)) = Some q"
      by (simp add: db3_def db2_def)
    from clear_stale_lookup [OF this] r status show ?thesis by auto
  qed
  have 4: "simulated db3 db'"
    using upd unfolding update_or_conflict_ok
  proof (elim conjE, hypsubst, intro simulated_update_records)
    fix q
    assume q: "record_by_id (rr_id q) (rv_records db3) = Some q" and P: "rr_id q = ?rid \<and> rr_active_validation q = None"
    then have "record_by_id ?rid (rv_records db3) = Some q" by auto
    then have "rr_status q \<in> {RPendingReview, RValidated}" by (rule at)
    with P nopend show "review_path (passed_digests (rr_id q) db3) (review_view_of (rv_assets db3) q)
        (review_view_of (rv_assets db3) (q\<lparr>rr_active_validation := Some (bv_validation_record_id inp), rr_updated_at := now\<rparr>))"
      by (intro path_step [OF review_move.begin_validation]) (auto simp: review_view_of_def db3_def)
  qed simp
  from 1 2 3 4 show ?thesis by (blast intro: simulated_trans)
qed

lemma simulated_finish:
  assumes "finish_challenge_review_record_validation now inp ev db = (res, db')"
  shows "simulated db db'"
proof -
  define mine where "mine = (\<lambda>v :: validation_row. va_id v = fv_validation_record_id inp \<and> va_record v = fv_review_record_id inp \<and> va_status v = VRunning)"
  define waits where "waits = (\<lambda>r :: review_record_row. rr_id r = fv_review_record_id inp \<and> rr_active_validation r = Some (fv_validation_record_id inp)
    \<and> rr_status r \<in> {RPendingReview, RValidated})"
  define db1 where "db1 = db\<lparr>rv_validations := sql_update mine (finished_validation inp) (rv_validations db)\<rparr>"
  note run = assms [unfolded finish_challenge_review_record_validation_def Let_def, folded mine_def waits_def, folded db1_def]
  have D: "passed_digests i db \<subseteq> passed_digests i db1" for i
    by (rule passed_digests_update [where P = mine and f = "finished_validation inp"]) (simp_all add: db1_def mine_def)
  then have 1: "simulated db db1"
    by (simp add: simulated_def view_at_def db1_def tracks_refl)
  show ?thesis
  proof (cases "fv_status inp = VRunning \<or> sql_first mine (rv_validations db) = None")
    case True
    with run have "db' = db" by (auto simp del: sql_first_None split: if_splits)
    then show ?thesis by (simp add: simulated_refl)
  next
    case False
    then obtain v where v: "sql_first mine (rv_validations db) = Some v" and st: "fv_status inp \<noteq> VRunning"
      by (auto simp del: sql_first_None)
    define f where "f = (\<lambda>r :: review_record_row. r\<lparr>rr_status := if fv_status inp = VPassed then RValidated else RPendingReview,
      rr_validation_message := Some (fv_message inp), rr_validation_repository_path := Some (va_repository_path v),
      rr_validation_bundle_sha256 := fv_bundle_sha256 inp, rr_active_validation := None, rr_updated_at := now\<rparr>)"
    have passed: "fv_bundle_sha256 inp \<in> passed_digests (fv_review_record_id inp) db1" if "fv_status inp = VPassed"
    proof -
      have "v \<in> set (rv_validations db)" "mine v" using sql_first_Some [OF v] by auto
      then have "finished_validation inp v \<in> set (rv_validations db1)" and "va_record v = fv_review_record_id inp"
        by (auto simp: db1_def in_sql_update mine_def)
      then show ?thesis using that by (force simp: passed_digests_def finished_validation_def)
    qed
    have 2: "simulated db1 (update_records waits f db1)"
    proof (rule simulated_update_records)
      fix r
      assume "waits r"
      show "review_path (passed_digests (rr_id r) db1) (review_view_of (rv_assets db1) r) (review_view_of (rv_assets db1) (f r))"
      proof (cases "fv_status inp = VPassed")
        case True
        with \<open>waits r\<close> passed show ?thesis
          by (auto simp: waits_def f_def review_view_of_def intro!: path_step [OF review_move.pass_validation])
      next
        case False
        with \<open>waits r\<close> show ?thesis
          by (auto simp: waits_def f_def review_view_of_def intro!: path_step [OF review_move.fail_validation])
      qed
    qed (simp add: f_def)
    have "db' = db \<or> db' = db1 \<or> (\<exists>u. create_challenge_review_audit_event_tx ev (update_records waits f db1) = Inr (u, db'))"
      using run v st
      by (auto simp: finished_validation_def transact_def f_def and_then_def split: if_splits sum.splits)
    with 1 2 show ?thesis by (blast intro: simulated_trans simulated_refl simulated_audit)
  qed
qed

section \<open>Private assets\<close>

lemma touch_view [simp]: "review_view_of assets (r\<lparr>rr_updated_at := now\<rparr>) = review_view_of assets r"
  by (simp add: review_view_of_def)

text \<open>A statement on the assets that only touches the time stamps of records.\<close>

lemma simulated_touch:
  assumes "rv_records db' = sql_update P (\<lambda>r. r\<lparr>rr_updated_at := now\<rparr>) (rv_records db)"
    and "rv_validations db' = rv_validations db"
    and "\<And>D r. record_by_id (rr_id r) (rv_records db) = Some r \<Longrightarrow>
      review_path D (review_view_of (rv_assets db) r) (review_view_of (rv_assets db') r)"
  shows "simulated db db'"
  by (rule simulated_updateI [OF assms(1)]) (simp_all add: passed_digests_def assms(2,3))

lemma simulated_fail_assets:
  assumes "\<And>a. P a \<Longrightarrow> pa_status a = APending"
  shows "simulated db (fail_assets now P msg db)"
proof (rule simulated_touch [where now = now])
  let ?db' = "fail_assets now P msg db"
  show "rv_records ?db' = sql_update (\<lambda>r. rr_id r \<in> pa_record ` set (sql_select P (rv_assets db))) (\<lambda>r. r\<lparr>rr_updated_at := now\<rparr>) (rv_records db)"
    and "rv_validations ?db' = rv_validations db"
    by (simp_all add: fail_assets_def Let_def update_records_def)
  fix D and r :: review_record_row
  let ?v = "review_view_of (rv_assets db) r" and ?w = "review_view_of (rv_assets ?db') r"
  have a: "rv_assets ?db' = sql_update P (\<lambda>a. a\<lparr>pa_status := AFailed, pa_failed_at := Some now, pa_failure_message := Some msg\<rparr>) (rv_assets db)"
    by (simp add: fail_assets_def Let_def update_records_def)
  have eq: "?w = ?v\<lparr>vw_pending := vw_pending ?w\<rparr>" and le: "vw_pending ?w \<Longrightarrow> vw_pending ?v"
    using assms by (auto simp: review_view_of_def a in_sql_update)
  show "review_path D ?v ?w"
  proof (cases "vw_pending ?w = vw_pending ?v")
    case True
    with eq show ?thesis by (intro path_same) simp
  next
    case False
    with le have "\<not> vw_pending ?w" by blast
    with eq show ?thesis by (intro path_step [OF review_move.settle_pending]) simp
  qed
qed

lemma view_invalidate:
  "review_view_of assets (invalidate_record now r) = reopened (review_view_of assets r)"
  by (simp add: review_view_of_def invalidate_record_def reopened_def)

lemma invalidate_id [simp]: "rr_id (invalidate_record now r) = rr_id r"
  by (simp add: invalidate_record_def)

text \<open>The record whose assets change is open and idle; no other record has an asset that changes.\<close>

lemma simulated_change_assets:
  assumes rec: "record_by_id rid (rv_records db) = Some r"
    and open_idle: "rr_status r \<in> {RPendingReview, RValidated}" "rr_active_validation r = None"
    and P: "\<And>q. rr_id q = rid \<Longrightarrow> rr_status q \<in> {RPendingReview, RValidated} \<Longrightarrow> P q" "\<And>q. P q \<Longrightarrow> rr_id q = rid"
    and db': "rv_records db' = sql_update P (invalidate_record now) (rv_records db)" "rv_validations db' = rv_validations db"
    and other: "\<And>a. pa_record a \<noteq> rid \<Longrightarrow> a \<in> set (rv_assets db') \<longleftrightarrow> a \<in> set (rv_assets db)"
  shows "simulated db db'"
proof (rule simulated_updateI [OF db'(1)])
  fix q
  assume q: "record_by_id (rr_id q) (rv_records db) = Some q"
  show "review_path (passed_digests (rr_id q) db') (review_view_of (rv_assets db) q)
      (review_view_of (rv_assets db') (if P q then invalidate_record now q else q))"
  proof (cases "rr_id q = rid")
    case True
    with q rec have "q = r" by simp
    with open_idle P(1) [OF True] show ?thesis
      by (intro path_step [OF review_move.change_assets [where p = "vw_pending (review_view_of (rv_assets db') r)"
            and A = "vw_assets (review_view_of (rv_assets db') r)"]])
        (auto simp: review_view_of_def invalidate_record_def reopened_def)
  next
    case False
    then have "review_view_of (rv_assets db') q = review_view_of (rv_assets db) q"
      using other by (auto simp: review_view_of_def)
    with False P(2) show ?thesis by (auto intro: path_same)
  qed
qed (simp_all add: passed_digests_def db'(2))

lemma ensure_upload_allowed:
  assumes "ensure_private_asset_upload_allowed_tx now inp timeout db = Inr (u, db')"
  shows "simulated db db' \<and> rv_assets db' = rv_assets db \<and> (\<exists>r. record_by_id (ca_review_record_id inp) (rv_records db') = Some r
    \<and> rr_status r \<in> {RPendingReview, RValidated} \<and> rr_active_validation r = None)"
proof -
  let ?rid = "ca_review_record_id inp"
  obtain r where r: "record_by_id ?rid (rv_records db) = Some r"
    using assms by (cases "record_by_id ?rid (rv_records db)") (simp_all add: ensure_private_asset_upload_allowed_tx_def)
  define db1 where "db1 = (if rr_active_validation r \<noteq> None then clear_stale_active_validation_tx now timeout ?rid db else db)"
  note run = assms [unfolded ensure_private_asset_upload_allowed_tx_def Let_def r option.case, folded db1_def]
  have sim: "simulated db db1" and ass: "rv_assets db1 = rv_assets db"
    unfolding db1_def by (simp_all add: simulated_clear_stale simulated_refl)
  from run have status: "rr_status r \<in> {RPendingReview, RValidated}" and eq: "db' = db1"
    by (auto simp: result_simps)
  have "tracks (passed_digests ?rid db1) (view_at ?rid db) (view_at ?rid db1)" using sim by (simp add: simulated_def)
  then obtain q where q: "record_by_id ?rid (rv_records db1) = Some q"
    using r by (cases "record_by_id ?rid (rv_records db1)") (auto simp: view_at_def)
  have "rr_status q = rr_status r"
  proof (cases "rr_active_validation r = None")
    case False
    with q have "record_by_id ?rid (rv_records (clear_stale_active_validation_tx now timeout ?rid db)) = Some q"
      by (simp add: db1_def)
    from clear_stale_lookup [OF this] r show ?thesis by auto
  qed (use q r in \<open>simp add: db1_def\<close>)
  with run q status have "rr_status q \<in> {RPendingReview, RValidated} \<and> rr_active_validation q = None"
    by (auto simp: result_simps)
  with sim ass q eq show ?thesis by blast
qed

lemma simulated_reserve:
  assumes "reserve_challenge_private_asset now inp max_bytes vt pt db = Inr (a, db')"
  shows "simulated db db'"
proof -
  let ?rid = "ca_review_record_id inp"
  define db1 where "db1 = auto_fail_stale_pending_private_assets_tx now ?rid pt
    (lock_quota_scope (''challenge-review-record:'' @ ?rid @ '':private-assets'') db)"
  note run = assms [unfolded reserve_challenge_private_asset_def Let_def, folded db1_def]
  have 1: "simulated db db1"
    unfolding db1_def auto_fail_stale_pending_private_assets_tx_def
    by (rule simulated_trans [OF simulated_lock]) (rule simulated_fail_assets, blast)
  from run obtain db2 db3 where en: "ensure_private_asset_upload_allowed_tx now inp vt db1 = Inr ((), db2)"
    and ins: "insert_private_asset (new_private_asset now inp) db2 = Inr db3"
    and db': "db' = update_records (\<lambda>r. rr_id r = ?rid \<and> rr_status r \<in> {RPendingReview, RValidated}) (invalidate_record now) db3"
    by (auto simp: result_simps)
  from ensure_upload_allowed [OF en] obtain r where 2: "simulated db1 db2"
    and r: "record_by_id ?rid (rv_records db2) = Some r" "rr_status r \<in> {RPendingReview, RValidated}" "rr_active_validation r = None"
    by blast
  from ins have db3: "rv_records db3 = rv_records db2" "rv_validations db3 = rv_validations db2"
    "rv_assets db3 = sql_insert (new_private_asset now inp) (rv_assets db2)"
    by (auto simp: insert_private_asset_def split: if_splits)
  have "simulated db2 db'"
    by (rule simulated_change_assets [OF r, where P = "\<lambda>r. rr_id r = ?rid \<and> rr_status r \<in> {RPendingReview, RValidated}" and now = now])
      (auto simp: db' update_records_def db3 new_private_asset_def)
  with 1 2 show ?thesis by (blast intro: simulated_trans)
qed

lemma simulated_activate:
  assumes "activate_challenge_private_asset_tx now aid db = Inr (a, db')" and pk: "pk_ok pa_id (rv_assets db)"
  shows "simulated db db'"
proof -
  define pend where "pend = (\<lambda>a :: private_asset_row. pa_id a = aid \<and> pa_status a = APending)"
  define activate where "activate = (\<lambda>a :: private_asset_row. a\<lparr>pa_status := AActive, pa_temporary_storage_key := None,
    pa_activated_at := Some now, pa_failed_at := None, pa_failure_message := None\<rparr>)"
  note run = assms(1) [unfolded activate_challenge_private_asset_tx_def Let_def, folded pend_def activate_def]
  obtain b where b: "sql_first pend (rv_assets db) = Some b" using run by (auto split: option.splits)
  obtain r where r: "record_by_id (pa_record b) (rv_records db) = Some r" using run b by (auto split: option.splits)
  from run b r have st: "rr_status r \<in> {RPendingReview, RValidated}" "rr_active_validation r = None"
    and db': "db' = update_records (\<lambda>q. rr_id q = pa_record b) (invalidate_record now)
      (db\<lparr>rv_assets := sql_update pend activate (rv_assets db)\<rparr>)"
    by (auto simp: result_simps)
  have only: "c = b" if "c \<in> set (rv_assets db)" "pend c" for c
    using pk_ok_inj [OF pk that(1)] sql_first_Some [OF b] that(2) by (auto simp: pend_def)
  show ?thesis
  proof (rule simulated_change_assets [OF r st, where P = "\<lambda>q. rr_id q = pa_record b" and now = now])
    fix c :: private_asset_row
    assume "pa_record c \<noteq> pa_record b"
    then show "c \<in> set (rv_assets db') \<longleftrightarrow> c \<in> set (rv_assets db)"
      using only by (auto simp: db' update_records_def in_sql_update activate_def)
  qed (simp_all add: db' update_records_def)
qed

lemma simulated_activate_with_audit:
  "activate_challenge_private_asset_with_audit now aid eid actor db = Inr (a, db') \<Longrightarrow> pk_ok pa_id (rv_assets db) \<Longrightarrow> simulated db db'"
  by (auto simp: activate_challenge_private_asset_with_audit_def result_simps
      intro: simulated_trans [OF simulated_activate simulated_audit])

text \<open>Purging touches only assets of records that have been given up.\<close>

definition purgeable :: "uuid \<Rightarrow> review_db \<Rightarrow> bool" where
  "purgeable aid db = (\<forall>a \<in> set (rv_assets db). pa_id a = aid \<longrightarrow>
     (\<exists>r. record_by_id (pa_record a) (rv_records db) = Some r \<and> rr_status r \<in> closed_status))"

lemma simulated_purge:
  assumes aid: "purgeable aid db"
    and db': "rv_records db' = sql_update P (\<lambda>r. r\<lparr>rr_updated_at := now\<rparr>) (rv_records db)" "rv_validations db' = rv_validations db"
    and other: "\<And>a. pa_id a \<noteq> aid \<Longrightarrow> a \<in> set (rv_assets db') \<longleftrightarrow> a \<in> set (rv_assets db)"
    and owner: "\<And>a. a \<in> set (rv_assets db') \<Longrightarrow> \<exists>b \<in> set (rv_assets db). pa_id b = pa_id a \<and> pa_record b = pa_record a"
  shows "simulated db db'"
proof (rule simulated_touch [OF db'])
  fix D and r
  assume r: "record_by_id (rr_id r) (rv_records db) = Some r"
  let ?v = "review_view_of (rv_assets db) r" and ?w = "review_view_of (rv_assets db') r"
  show "review_path D ?v ?w"
  proof (cases "\<exists>a \<in> set (rv_assets db). pa_id a = aid \<and> pa_record a = rr_id r")
    case True
    with aid r have "rr_status r \<in> closed_status" by (auto simp: purgeable_def)
    then show ?thesis
      by (intro path_step [OF review_move.purge_assets [where p = "vw_pending ?w" and A = "vw_assets ?w"]])
        (auto simp: review_view_of_def closed_status_def)
  next
    case False
    have "a \<in> set (rv_assets db') \<longleftrightarrow> a \<in> set (rv_assets db)" if "pa_record a = rr_id r" for a
      using False that other [of a] owner [of a] by metis
    then have "?w = ?v" by (auto simp: review_view_of_def)
    then show ?thesis by (rule path_same)
  qed
qed

lemma simulated_mark_purging:
  "purgeable aid db \<Longrightarrow> mark_challenge_private_asset_purging aid db = (res, db') \<Longrightarrow> simulated db db'"
  by (rule simulated_purge [where P = "\<lambda>_. False" and aid = aid])
    (force simp: mark_challenge_private_asset_purging_def in_sql_update sql_update_none [symmetric])+

lemma simulated_delete_asset: "purgeable aid db \<Longrightarrow> simulated db (delete_challenge_private_asset now aid db)"
  by (rule simulated_purge [where P = "\<lambda>r. rr_id r \<in> pa_record ` set (sql_select (\<lambda>a. pa_id a = aid) (rv_assets db))"
        and aid = aid and now = now])
    (auto simp: delete_challenge_private_asset_def Let_def update_records_def)

section \<open>Publishing\<close>

lemma simulated_reset: "simulated db (reset_stale_publishing_review_record_tx now rid timeout db)"
  unfolding reset_stale_publishing_review_record_tx_def
  by (rule simulated_update_records) (auto simp: review_view_of_def intro!: path_step [OF review_move.release])

lemma simulated_claim:
  assumes "claim_challenge_review_record_for_publish now rid timeout claim db = Inr (c, db')"
  shows "simulated db db'"
proof -
  define db1 where "db1 = reset_stale_publishing_review_record_tx now rid timeout
    (lock_quota_scope (''challenge-review-record:'' @ rid @ '':publish'') db)"
  note run = assms [unfolded claim_challenge_review_record_for_publish_def Let_def, folded db1_def]
  have 1: "simulated db db1" unfolding db1_def by (rule simulated_trans [OF simulated_lock simulated_reset])
  have "simulated db1 db'"
  proof (cases "db' = db1")
    case False
    with run have "update_or_conflict (\<lambda>q. rr_id q = rid \<and> rr_status q = RApproved \<and> rr_active_validation q = None)
        (\<lambda>q. q\<lparr>rr_status := RPublishing, rr_publish_claim := Some claim, rr_updated_at := now\<rparr>) db1 = Inr ((), db')"
      by (auto simp: result_simps split: option.splits review_status.splits if_splits)
    then show ?thesis
      by (rule simulated_update_or_conflict) (auto simp: review_view_of_def intro!: path_step [OF review_move.claim])
  qed (simp add: simulated_refl)
  with 1 show ?thesis by (rule simulated_trans)
qed

lemma simulated_fail_publish:
  "fail_challenge_review_record_publish now rid claim msg db = Inr (u, db') \<Longrightarrow> simulated db db'"
  unfolding fail_challenge_review_record_publish_def
  by (erule simulated_update_or_conflict) (auto simp: review_view_of_def intro!: path_step [OF review_move.release])

lemma simulated_mark_published:
  "mark_challenge_review_record_published_tx now rid claim name db = Inr (u, db') \<Longrightarrow> simulated db db'"
  unfolding mark_challenge_review_record_published_tx_def
  by (erule simulated_update_or_conflict) (auto simp: review_view_of_def intro!: path_step [OF review_move.publish])

lemma simulated_publish_new:
  assumes "publish_new_challenge_review_record env inp db = Inr (u, db')"
  shows "simulated db db'"
proof -
  from assms obtain c :: challenge_row and core db1 v where
    mark: "mark_challenge_review_record_published_tx (env_now env) (pn_review_record_id inp) (pn_publish_claim_id inp)
      (Some (ch_name c)) (add_challenge_owner_tx (ch_name c) (pn_owner inp) (db\<lparr>rv_db := core\<rparr>)) = Inr (v, db1)"
    and au: "\<exists>ev. create_challenge_review_audit_event_tx ev db1 = Inr (u, db')"
    unfolding publish_new_challenge_review_record_def by (clarsimp simp: result_simps) blast
  have "simulated db (add_challenge_owner_tx (ch_name c) (pn_owner inp) (db\<lparr>rv_db := core\<rparr>))"
    by (rule simulated_same) (simp_all add: add_challenge_owner_tx_def)
  with simulated_mark_published [OF mark] au show ?thesis by (blast intro: simulated_trans simulated_audit)
qed

lemma simulated_publish_archive:
  assumes "publish_archive_challenge_review_record env inp db = Inr (u, db')"
  shows "simulated db db'"
proof -
  from assms obtain n db1 db2 v where ar: "archive_challenge_tx n db = Inr (v, db1)"
    and mark: "mark_challenge_review_record_published_tx (env_now env) (px_review_record_id inp) (px_publish_claim_id inp) (Some n) db1 = Inr ((), db2)"
    and au: "\<exists>ev. create_challenge_review_audit_event_tx ev db2 = Inr (u, db')"
    unfolding publish_archive_challenge_review_record_def by (clarsimp simp: result_simps) blast
  have "simulated db db1"
    using ar by (intro simulated_same) (auto simp: archive_challenge_tx_def split: prod.splits sum.splits)
  with simulated_mark_published [OF mark] au show ?thesis by (blast intro: simulated_trans simulated_audit)
qed

end
