(* ===== verification/Review_Service.thy ===== *)
theory Review_Service
  imports Review_Refinement
begin

text \<open>
  The workflows of \<open>crates/services/src/challenge_review_records\<close> over the transactions of
  \<open>Review_Records\<close>. Git, the file system and object storage answer through the fields of \<open>review_io\<close>.
  Between two transactions of one workflow other requests run: \<open>other\<close> is what they do to the tables.
\<close>

section \<open>Inputs\<close>

record review_admin =
  ad_human :: "uuid option"
  ad_token :: "uuid option"
  ad_display :: string

record review_config =
  max_active_challenge_review_records_per_human :: nat
  challenge_private_asset_bytes_per_review_record :: nat
  challenge_review_record_validations_per_day :: nat
  challenge_review_record_validation_timeout_minutes :: int
  challenge_private_asset_pending_timeout_minutes :: int
  challenge_review_record_publish_timeout_minutes :: int
  challenge_review_record_ttl_days :: int
  unpublished_challenge_asset_grace_days :: int

text \<open>
  \<open>io_existing_dir\<close> canonicalises a checkout path, \<open>io_git\<close> runs Git in it, \<open>io_parse_commit\<close> parses an
  object id, \<open>io_creation_repository\<close> reads and validates the proposal, \<open>io_review_digest\<close> and
  \<open>io_runtime_digest\<close> validate and hash its content, \<open>io_assemble\<close> builds and validates the runtime bundle
  and returns its contract, \<open>io_store\<close> writes the three objects, and \<open>io_show_error\<close> renders an error.
  A failed write reports the text of the storage error and the service error it becomes. Best-effort
  deletions of storage objects have no effect on the tables and no result.
\<close>

record review_io =
  io_existing_dir :: "string \<Rightarrow> string result"
  io_git :: "string \<Rightarrow> string list \<Rightarrow> string result"
  io_parse_commit :: "string \<Rightarrow> string + string"
  io_creation_repository :: "string \<Rightarrow> creation_manifest result"
  io_manifest_sha256 :: "creation_manifest \<Rightarrow> string result"
  io_review_digest :: "string \<Rightarrow> creation_manifest \<Rightarrow> private_asset_row list \<Rightarrow> string result"
  io_runtime_digest :: "string \<Rightarrow> creation_manifest \<Rightarrow> private_asset_row list \<Rightarrow> string result"
  io_assemble :: "string \<Rightarrow> creation_manifest \<Rightarrow> private_asset_row list \<Rightarrow> challenge_bundle_spec result"
  io_store :: "storage_key \<Rightarrow> storage_key \<Rightarrow> storage_key \<Rightarrow> unit result"
  io_delete :: "storage_key \<Rightarrow> unit result"
  io_show_error :: "service_error \<Rightarrow> string"
  io_base64_decode :: "string \<Rightarrow> string option"
  io_check_zip :: "string \<Rightarrow> string \<Rightarrow> string list \<Rightarrow> nat \<Rightarrow> unit result"
  io_sha256 :: "string \<Rightarrow> string"
  io_exists :: "storage_key \<Rightarrow> bool result"
  io_put :: "storage_key \<Rightarrow> string \<Rightarrow> (string \<times> service_error) + unit"
  io_promote :: "storage_key \<Rightarrow> storage_key \<Rightarrow> (string \<times> service_error) + unit"

definition non_empty_message :: "string \<Rightarrow> string option" where
  "non_empty_message v = (if trim v = [] then None else Some (trim v))"

text \<open>\<open>list_private_assets_for_review_record\<close>: the assets a record carries when it is read.\<close>

definition active_assets :: "uuid \<Rightarrow> review_db \<Rightarrow> private_asset_row list" where
  "active_assets rid db = sort_by (\<lambda>a b. cmp_lin (pa_created_at a) (pa_created_at b))
     (sql_select (\<lambda>a. pa_record a = rid \<and> pa_status a = AActive) (rv_assets db))"

section \<open>Creation\<close>

record review_creator =
  rc_human_id :: uuid
  rc_github_user_id :: int
  rc_github_login :: string

definition validate_challenge_review_record_path :: "string \<Rightarrow> challenge_name \<Rightarrow> unit result" where
  "validate_challenge_review_record_path path name =
     (let expected = ''challenges/'' @ name
      in guard_err (path \<noteq> expected) (BadRequest (''challenge_path must be `'' @ expected @ ''`'')))"

text \<open>
  \<open>pull_request\<close> is the check that the three GitHub references of the request agree; the ids are the
  generated ones.
\<close>

definition create_challenge_review_record_service ::
  "review_config \<Rightarrow> (string \<Rightarrow> string) \<Rightarrow> review_io \<Rightarrow> unit result \<Rightarrow> timestamp \<Rightarrow> review_creator \<Rightarrow> int
     \<Rightarrow> create_review_record_input \<Rightarrow> uuid \<Rightarrow> review_db \<Rightarrow> review_record_row result \<times> review_db" where
  "create_challenge_review_record_service cfg lower io pull_request now creator pr_author body event_id db =
     (let checks =
        and_then (validate_challenge_creation_manifest lower (cr_manifest body)) (\<lambda>_.
        and_then (validate_challenge_review_record_path (cr_challenge_path body) (cm_challenge_name (cr_manifest body))) (\<lambda>_.
        and_then pull_request (\<lambda>_.
        and_then (guard_err (rc_github_user_id creator \<noteq> pr_author) (BadRequest
          (''PR author GitHub user id '' @ show_int pr_author @ '' does not match authenticated creator GitHub user id ''
            @ show_int (rc_github_user_id creator)))) (\<lambda>_.
        io_manifest_sha256 io (cr_manifest body)))))
      in case checks of
           Inl e \<Rightarrow> (Inl e, db)
         | Inr sha \<Rightarrow>
             (let inp = body\<lparr>cr_creator := rc_human_id creator, cr_manifest_sha256 := sha,
                    cr_max_active_review_records := int (max_active_challenge_review_records_per_human cfg),
                    cr_github_user_id := rc_github_user_id creator, cr_github_login := rc_github_login creator\<rparr>;
                  ev = \<lparr>ae_id = event_id, ae_record = cr_review_record_id body, ae_actor_human = Some (rc_human_id creator),
                    ae_actor_token = None, ae_actor_display = Some (rc_github_login creator), ae_action = ''draft_created'',
                    ae_message = ''challenge review record created from GitHub PR'',
                    ae_metadata = [(''repo_url'', MetaText (cr_repo_url body)), (''pr_number'', MetaNumber (cr_pr_number body)),
                      (''commit_sha'', MetaText (cr_commit_sha body))]\<rparr>
              in case transact (create_challenge_review_record now inp ev) db of
                   (Inl e, db1) \<Rightarrow> (Inl (unique_violation_as_conflict e), db1)
                 | (Inr r, db1) \<Rightarrow> (Inr r, db1)))"

section \<open>Validation\<close>

definition ensure_repository_checkout_matches_commit :: "review_io \<Rightarrow> string \<Rightarrow> string \<Rightarrow> unit result" where
  "ensure_repository_checkout_matches_commit io path expected =
     and_then (io_git io path [''rev-parse'', ''--verify'', ''HEAD'']) (\<lambda>out.
     and_then (case io_parse_commit io (trim out) of
         Inl e \<Rightarrow> Inl (ValidationErr (''repository HEAD is not a valid Git commit: '' @ e)) | Inr c \<Rightarrow> Inr c) (\<lambda>head.
     and_then (guard_err (head \<noteq> expected) (ValidationErr
       (''repository HEAD commit '' @ head @ '' does not match reviewed review_record commit '' @ expected))) (\<lambda>_.
     and_then (io_git io path [''status'', ''--porcelain=v1'']) (\<lambda>status.
     guard_err (trim status \<noteq> []) (ValidationErr
       ''repository checkout has uncommitted changes; validate and publish from a clean checkout at the reviewed commit'')))))"

definition validate_review_record_repository ::
  "review_io \<Rightarrow> review_record_row \<Rightarrow> private_asset_row list \<Rightarrow> string \<Rightarrow> (creation_manifest \<times> string) result" where
  "validate_review_record_repository io r assets path =
     (let proposal_root = path_join path (rr_challenge_path r)
      in and_then (ensure_repository_checkout_matches_commit io path (rr_commit_sha r)) (\<lambda>_.
         and_then (io_creation_repository io proposal_root) (\<lambda>m.
         and_then (io_manifest_sha256 io m) (\<lambda>sha.
         and_then (guard_err (sha \<noteq> rr_manifest_sha256 r) (ValidationErr
           (''manifest hash mismatch: review_record has '' @ rr_manifest_sha256 r @ '', repository has '' @ sha))) (\<lambda>_.
         and_then (guard_err (cm_challenge_name m \<noteq> rr_challenge_name r) (ValidationErr
           (''manifest challenge_name mismatch: review_record has '' @ rr_challenge_name r @ '', repository has '' @ cm_challenge_name m))) (\<lambda>_.
         and_then (case cm_request m of
             ArchiveChallenge \<Rightarrow> io_review_digest io proposal_root m assets
           | NewChallenge \<Rightarrow> io_runtime_digest io proposal_root m assets) (\<lambda>digest.
         Inr (m, digest))))))))"

definition validation_event :: "review_admin \<Rightarrow> uuid \<Rightarrow> uuid \<Rightarrow> string \<Rightarrow> string \<Rightarrow> (string \<times> metadata_value) list \<Rightarrow> audit_event" where
  "validation_event admin eid rid action msg meta =
     \<lparr>ae_id = eid, ae_record = rid, ae_actor_human = ad_human admin, ae_actor_token = ad_token admin,
      ae_actor_display = Some (ad_display admin), ae_action = action, ae_message = msg, ae_metadata = meta\<rparr>"

definition validate_challenge_review_record ::
  "review_config \<Rightarrow> review_io \<Rightarrow> (review_db \<Rightarrow> review_db) \<Rightarrow> timestamp \<Rightarrow> timestamp \<Rightarrow> review_admin \<Rightarrow> uuid \<Rightarrow> string
     \<Rightarrow> uuid \<Rightarrow> uuid \<Rightarrow> review_db \<Rightarrow> review_record_row result \<times> review_db" where
  "validate_challenge_review_record cfg io other now1 now2 admin rid requested_path vid eid db =
     (case record_by_id rid (rv_records db) of
        None \<Rightarrow> (Inl NotFound, db)
      | Some r \<Rightarrow>
          if rr_status r \<notin> {RPendingReview, RValidated} then (Inl Conflict, db)
          else case io_existing_dir io requested_path of
            Inl e \<Rightarrow> (Inl e, db)
          | Inr path \<Rightarrow>
              (case transact (begin_challenge_review_record_validation now1
                   \<lparr>bv_validation_record_id = vid, bv_review_record_id = rid, bv_repository_path = path,
                    bv_manifest_sha256 = rr_manifest_sha256 r\<rparr> 86400 (int (challenge_review_record_validations_per_day cfg))
                   (challenge_review_record_validation_timeout_minutes cfg)) (other db) of
                 (Inl e, db1) \<Rightarrow> (Inl e, db1)
               | (Inr _, db1) \<Rightarrow>
                   (case validate_review_record_repository io r (active_assets rid db) path of
                      Inr (_, digest) \<Rightarrow>
                        (case finish_challenge_review_record_validation now2
                             \<lparr>fv_validation_record_id = vid, fv_review_record_id = rid, fv_status = VPassed,
                              fv_message = ''challenge review record validation passed'', fv_bundle_sha256 = Some digest\<rparr>
                             (validation_event admin eid rid ''draft_validated'' ''challenge review record validation passed''
                               [(''repository_path'', MetaText path), (''bundle_sha256'', MetaText digest)]) (other db1) of
                           (Inl e, db2) \<Rightarrow> (Inl e, db2)
                         | (Inr _, db2) \<Rightarrow> (ok_or NotFound (record_by_id rid (rv_records db2)), db2))
                    | Inl error \<Rightarrow>
                        (case finish_challenge_review_record_validation now2
                             \<lparr>fv_validation_record_id = vid, fv_review_record_id = rid, fv_status = VFailed,
                              fv_message = io_show_error io error, fv_bundle_sha256 = None\<rparr>
                             (validation_event admin eid rid ''draft_validation_failed'' (io_show_error io error)
                               [(''repository_path'', MetaText path)]) (other db1) of
                           (Inl e, db2) \<Rightarrow> (Inl e, db2)
                         | (Inr _, db2) \<Rightarrow> (Inl error, db2)))))"

section \<open>Decisions\<close>

definition decision_event :: "review_admin \<Rightarrow> uuid \<Rightarrow> uuid \<Rightarrow> string \<Rightarrow> string \<Rightarrow> audit_event" where
  "decision_event admin eid rid action body_message = validation_event admin eid rid action (trim body_message) []"

definition approve_challenge_review_record ::
  "timestamp \<Rightarrow> review_admin \<Rightarrow> uuid \<Rightarrow> string option \<Rightarrow> string \<Rightarrow> uuid \<Rightarrow> review_db \<Rightarrow> review_record_row result \<times> review_db" where
  "approve_challenge_review_record now admin rid expected msg eid db =
     (case expected of
        None \<Rightarrow> (Inl (BadRequest ''expected_validation_bundle_sha256 is required when approving a review_record''), db)
      | Some digest \<Rightarrow>
          (case transact (approve_validated_challenge_review_record_with_audit now rid digest (non_empty_message msg)
               (decision_event admin eid rid ''review_record_approved'' msg)) db of
             (Inl e, db1) \<Rightarrow> (Inl e, db1)
           | (Inr _, db1) \<Rightarrow> (ok_or NotFound (record_by_id rid (rv_records db1)), db1)))"

definition reject_challenge_review_record ::
  "timestamp \<Rightarrow> review_admin \<Rightarrow> uuid \<Rightarrow> string \<Rightarrow> uuid \<Rightarrow> review_db \<Rightarrow> review_record_row result \<times> review_db" where
  "reject_challenge_review_record now admin rid msg eid db =
     (case record_by_id rid (rv_records db) of
        None \<Rightarrow> (Inl NotFound, db)
      | Some r \<Rightarrow>
          if rr_status r = RPublished then (Inl Conflict, db)
          else case transact (update_challenge_review_record_status_with_audit now rid RRejected (non_empty_message msg)
                 (decision_event admin eid rid ''review_record_rejected'' msg)) db of
             (Inl e, db1) \<Rightarrow> (Inl e, db1)
           | (Inr _, db1) \<Rightarrow> (ok_or NotFound (record_by_id rid (rv_records db1)), db1))"

definition abandon_challenge_review_record_service ::
  "timestamp \<Rightarrow> review_admin \<Rightarrow> uuid \<Rightarrow> string \<Rightarrow> uuid \<Rightarrow> review_db \<Rightarrow> review_record_row result \<times> review_db" where
  "abandon_challenge_review_record_service now admin rid msg eid db =
     (case transact (abandon_challenge_review_record_with_audit now rid (non_empty_message msg)
          (decision_event admin eid rid ''review_record_abandoned'' msg)) db of
        (Inl e, db1) \<Rightarrow> (Inl e, db1)
      | (Inr _, db1) \<Rightarrow> (ok_or NotFound (record_by_id rid (rv_records db1)), db1))"

section \<open>Publishing\<close>

definition storage_key_try_new :: "string \<Rightarrow> storage_key result" where
  "storage_key_try_new v =
     (case validate_storage_key v of
        Inl _ \<Rightarrow> Inl (BadRequest ''storage key must be a non-empty relative path with safe ASCII components and no `.` or `..` components'')
      | Inr k \<Rightarrow> Inr k)"

definition challenge_bundle_storage_key :: "string \<Rightarrow> challenge_name \<Rightarrow> uuid \<Rightarrow> uuid \<Rightarrow> storage_key result" where
  "challenge_bundle_storage_key prefix name rid claim =
     storage_key_try_new (prefix @ ''/'' @ name @ ''/'' @ rid @ ''-'' @ claim @ ''.tar'')"

definition challenge_statement_key :: "challenge_name \<Rightarrow> uuid \<Rightarrow> uuid \<Rightarrow> storage_key result" where
  "challenge_statement_key name rid claim =
     storage_key_try_new (''challenge-statements/'' @ name @ ''/'' @ rid @ ''-'' @ claim @ ''.md'')"

definition publish_new_input_of ::
  "review_admin \<Rightarrow> review_record_row \<Rightarrow> uuid \<Rightarrow> uuid \<Rightarrow> string \<Rightarrow> creation_manifest \<Rightarrow> string \<Rightarrow> challenge_bundle_spec
     \<Rightarrow> storage_key \<Rightarrow> storage_key \<Rightarrow> storage_key \<Rightarrow> publish_new_input" where
  "publish_new_input_of admin r claim eid path m digest spec bundle_key public_key statement_key =
     \<lparr>pn_review_record_id = rr_id r, pn_publish_claim_id = claim,
      pn_challenge = \<lparr>pi_challenge_name = cm_challenge_name m, pi_title = cm_title m, pi_bundle_key = bundle_key,
        pi_public_bundle_key = public_key, pi_statement_key = statement_key, pi_spec = spec\<rparr>,
      pn_owner = rr_creator r, pn_audit_event_id = eid, pn_actor_human = ad_human admin, pn_actor_token = ad_token admin,
      pn_actor_display = ad_display admin, pn_repository_path = path, pn_bundle_sha256 = digest\<rparr>"

definition prepare_and_publish_new_challenge_review_record ::
  "review_io \<Rightarrow> env \<Rightarrow> review_admin \<Rightarrow> review_record_row \<Rightarrow> private_asset_row list \<Rightarrow> uuid \<Rightarrow> uuid \<Rightarrow> string
     \<Rightarrow> creation_manifest \<Rightarrow> string \<Rightarrow> review_db \<Rightarrow> unit result \<times> review_db" where
  "prepare_and_publish_new_challenge_review_record io env admin r assets claim eid path m digest db =
     (let name = cm_challenge_name m;
          prepared =
            and_then (io_assemble io (path_join path (rr_challenge_path r)) m assets) (\<lambda>spec.
            and_then (challenge_bundle_storage_key ''challenge-bundles'' name (rr_id r) claim) (\<lambda>bundle_key.
            and_then (challenge_bundle_storage_key ''challenge-public-bundles'' name (rr_id r) claim) (\<lambda>public_key.
            and_then (challenge_statement_key name (rr_id r) claim) (\<lambda>statement_key.
            and_then (io_store io bundle_key public_key statement_key) (\<lambda>_.
            Inr (publish_new_input_of admin r claim eid path m digest spec bundle_key public_key statement_key))))))
      in case prepared of
           Inl e \<Rightarrow> (Inl e, db)
         | Inr inp \<Rightarrow> transact (publish_new_challenge_review_record env inp) db)"

definition publish_claimed_challenge_review_record ::
  "review_io \<Rightarrow> env \<Rightarrow> review_admin \<Rightarrow> review_record_row \<Rightarrow> private_asset_row list \<Rightarrow> uuid \<Rightarrow> uuid \<Rightarrow> string
     \<Rightarrow> review_db \<Rightarrow> unit result \<times> review_db" where
  "publish_claimed_challenge_review_record io env admin r assets claim eid path db =
     (case validate_review_record_repository io r assets path of
        Inl e \<Rightarrow> (Inl e, db)
      | Inr (m, digest) \<Rightarrow>
          (case rr_approved_bundle_sha256 r of
             None \<Rightarrow> (Inl Conflict, db)
           | Some approved \<Rightarrow>
               if approved \<noteq> digest
               then (Inl (ValidationErr ''challenge review record content changed after approval; validate and approve the review_record again before publishing''), db)
               else (case cm_request m of
                       ArchiveChallenge \<Rightarrow>
                         transact (publish_archive_challenge_review_record env
                           \<lparr>px_review_record_id = rr_id r, px_publish_claim_id = claim, px_challenge_name = cm_challenge_name m,
                            px_owner = rr_creator r, px_audit_event_id = eid, px_actor_human = ad_human admin,
                            px_actor_token = ad_token admin, px_actor_display = ad_display admin, px_repository_path = path,
                            px_bundle_sha256 = digest\<rparr>) db
                     | NewChallenge \<Rightarrow>
                         prepare_and_publish_new_challenge_review_record io env admin r assets claim eid path m digest db)))"

definition publish_challenge_review_record ::
  "review_config \<Rightarrow> review_io \<Rightarrow> (review_db \<Rightarrow> review_db) \<Rightarrow> timestamp \<Rightarrow> env \<Rightarrow> timestamp \<Rightarrow> review_admin \<Rightarrow> uuid \<Rightarrow> string
     \<Rightarrow> uuid \<Rightarrow> uuid \<Rightarrow> review_db \<Rightarrow> review_record_row result \<times> review_db" where
  "publish_challenge_review_record cfg io other now1 env now3 admin rid requested_path new_claim eid db =
     (case io_existing_dir io requested_path of
        Inl e \<Rightarrow> (Inl e, db)
      | Inr path \<Rightarrow>
          (case transact (claim_challenge_review_record_for_publish now1 rid
               (challenge_review_record_publish_timeout_minutes cfg) new_claim) db of
             (Inl e, db1) \<Rightarrow> (Inl e, db1)
           | (Inr claim, db1) \<Rightarrow>
               (case record_by_id rid (rv_records db1) of
                  None \<Rightarrow> (Inl NotFound, db1)
                | Some r \<Rightarrow>
                    if rr_status r = RPublished then (Inr r, db1)
                    else (case claim of
                            None \<Rightarrow> (Inl (Internal ''publishing review_record claim missing publish claim id''), db1)
                          | Some c \<Rightarrow>
                              (case publish_claimed_challenge_review_record io env admin r (active_assets rid db1) c eid path (other db1) of
                                 (Inl error, db2) \<Rightarrow>
                                   (case transact (fail_challenge_review_record_publish now3 rid c (io_show_error io error)) (other db2) of
                                      (Inl e, db3) \<Rightarrow> (Inl e, db3)
                                    | (Inr _, db3) \<Rightarrow> (Inl error, db3))
                               | (Inr _, db2) \<Rightarrow> (ok_or NotFound (record_by_id rid (rv_records db2)), db2))))))"

section \<open>Private asset upload\<close>

record upload_body =
  ub_asset_name :: string
  ub_kind :: private_asset_kind
  ub_asset_base64 :: string

definition cleanup_unreferenced_private_asset_object :: "review_io \<Rightarrow> storage_key \<Rightarrow> review_db \<Rightarrow> unit result" where
  "cleanup_unreferenced_private_asset_object io key db =
     and_then (io_exists io key) (\<lambda>there.
     guard_err (there \<and> private_asset_storage_key_has_active_reference key db) Conflict)"

text \<open>The checks before anything is stored: the requirement of the manifest, the bytes and the two keys.\<close>

definition upload_checks ::
  "review_config \<Rightarrow> review_io \<Rightarrow> review_record_row \<Rightarrow> upload_body \<Rightarrow> uuid \<Rightarrow> uuid \<Rightarrow> uuid \<Rightarrow> (create_private_asset_input \<times> string) result" where
  "upload_checks cfg io r body uploader aid tmp_id =
     (let max_bytes = challenge_private_asset_bytes_per_review_record cfg;
          name = ub_asset_name body
      in and_then (ok_or (BadRequest (''private asset `'' @ name @ ''` is not declared in the challenge manifest''))
           (find (\<lambda>q. pr_asset_name q = name) (cm_private_assets (rr_manifest r)))) (\<lambda>req.
         and_then (guard_err (pr_kind req \<noteq> ub_kind body) (BadRequest (''private asset `'' @ name @ ''` kind mismatch''))) (\<lambda>_.
         and_then (ok_or Base64 (io_base64_decode io (trim (ub_asset_base64 body)))) (\<lambda>bytes.
         and_then (guard_err (length bytes > max_bytes) (BadRequest (''private asset must be at most '' @ show_nat max_bytes @ '' bytes''))) (\<lambda>_.
         and_then (guard_err (int (length bytes) > i64_max) (BadRequest ''private asset size exceeds supported database range'')) (\<lambda>_.
         and_then (io_check_zip io bytes name (pr_required_paths req) max_bytes) (\<lambda>_.
         (let sha = io_sha256 io bytes
          in and_then (storage_key_try_new (''challenge-review-records/'' @ rr_id r @ ''/private-assets/'' @ name @ ''-'' @ sha @ ''.bin'')) (\<lambda>key.
             and_then (storage_key_try_new (''_tmp/challenge-private-assets/'' @ rr_id r @ ''-'' @ name @ ''-'' @ tmp_id @ ''.bin'')) (\<lambda>tmp_key.
             Inr (\<lparr>ca_asset_row_id = aid, ca_review_record_id = rr_id r, ca_asset_name = name, ca_kind = ub_kind body,
                   ca_required = pr_required req, ca_size_bytes = int (length bytes), ca_sha256 = sha, ca_storage_key = key,
                   ca_temporary_storage_key = tmp_key, ca_uploader = uploader\<rparr>, bytes)))))))))))"

text \<open>
  After the reservation: write, check the final key, promote and activate. Every failure marks the
  reserved row as failed.
\<close>

definition store_and_activate ::
  "review_io \<Rightarrow> (review_db \<Rightarrow> review_db) \<Rightarrow> timestamp \<Rightarrow> create_private_asset_input \<Rightarrow> string \<Rightarrow> uuid \<Rightarrow> review_db
     \<Rightarrow> private_asset_row result \<times> review_db" where
  "store_and_activate io other now inp bytes eid db =
     (let aid = ca_asset_row_id inp;
          fail = (\<lambda>msg e db. (Inl e, fail_challenge_private_asset now aid msg (other db)))
      in case io_put io (ca_temporary_storage_key inp) bytes of
           Inl (msg, e) \<Rightarrow> fail msg e db
         | Inr _ \<Rightarrow>
             (case cleanup_unreferenced_private_asset_object io (ca_storage_key inp) (other db) of
                Inl e \<Rightarrow> fail (io_show_error io e) e (other db)
              | Inr _ \<Rightarrow>
                  (case io_promote io (ca_temporary_storage_key inp) (ca_storage_key inp) of
                     Inl (msg, e) \<Rightarrow> fail msg e (other db)
                   | Inr _ \<Rightarrow>
                       (case transact (activate_challenge_private_asset_with_audit now aid eid (ca_uploader inp)) (other db) of
                          (Inl e, db1) \<Rightarrow> fail (io_show_error io e) e db1
                        | (Inr a, db1) \<Rightarrow> (Inr a, db1)))))"

definition upload_challenge_private_asset ::
  "review_config \<Rightarrow> review_io \<Rightarrow> (review_db \<Rightarrow> review_db) \<Rightarrow> timestamp \<Rightarrow> timestamp \<Rightarrow> uuid \<Rightarrow> uuid \<Rightarrow> upload_body
     \<Rightarrow> uuid \<Rightarrow> uuid \<Rightarrow> uuid \<Rightarrow> review_db \<Rightarrow> private_asset_row result \<times> review_db" where
  "upload_challenge_private_asset cfg io other now1 now2 uploader rid body aid tmp_id eid db =
     (case record_by_id rid (rv_records db) of
        None \<Rightarrow> (Inl NotFound, db)
      | Some r \<Rightarrow>
          if rr_creator r \<noteq> uploader then (Inl NotFound, db)
          else if rr_status r \<in> {RRejected, RApproved, RPublishing, RPublished, RAbandoned} then (Inl Conflict, db)
          else case upload_checks cfg io r body uploader aid tmp_id of
            Inl e \<Rightarrow> (Inl e, db)
          | Inr (inp, bytes) \<Rightarrow>
              (case transact (reserve_challenge_private_asset now1 inp (challenge_private_asset_bytes_per_review_record cfg)
                   (challenge_review_record_validation_timeout_minutes cfg)
                   (challenge_private_asset_pending_timeout_minutes cfg)) (other db) of
                 (Inl e, db1) \<Rightarrow> (Inl (unique_violation_as_conflict e), db1)
               | (Inr _, db1) \<Rightarrow> store_and_activate io other now2 inp bytes eid db1))"

section \<open>Cleanup\<close>

fun purge_assets :: "review_io \<Rightarrow> (review_db \<Rightarrow> review_db) \<Rightarrow> timestamp \<Rightarrow> uuid list \<Rightarrow> nat \<Rightarrow> review_db \<Rightarrow> nat result \<times> review_db" where
  "purge_assets io other now [] purged db = (Inr purged, db)"
| "purge_assets io other now (aid # aids) purged db =
     (case mark_challenge_private_asset_purging aid (other db) of
        (None, db1) \<Rightarrow> purge_assets io other now aids purged db1
      | (Some a, db1) \<Rightarrow>
          (case and_then (io_delete io (pa_storage_key a)) (\<lambda>_.
                case pa_temporary_storage_key a of None \<Rightarrow> Inr () | Some k \<Rightarrow> io_delete io k) of
             Inl e \<Rightarrow> (Inl e, db1)
           | Inr _ \<Rightarrow>
               (let db2 = delete_challenge_private_asset now aid (other db1)
                in if int purged + 1 > i64_max then (Inl (Internal ''private asset purge count overflow''), db2)
                   else purge_assets io other now aids (Suc purged) db2)))"

text \<open>The purge of expired temporary objects in storage that follows does not touch the tables.\<close>

definition cleanup_challenge_review_records ::
  "review_config \<Rightarrow> review_io \<Rightarrow> (review_db \<Rightarrow> review_db) \<Rightarrow> timestamp \<Rightarrow> nat result \<Rightarrow> review_db \<Rightarrow> (int \<times> nat \<times> nat) result \<times> review_db" where
  "cleanup_challenge_review_records cfg io other now tmp_purged db =
     (case abandon_stale_challenge_review_records now (challenge_review_record_ttl_days cfg) db of
        (abandoned, db1) \<Rightarrow>
          (let db2 = other db1
           in case purge_assets io other now
                (list_unpublished_private_assets_for_purge now (unpublished_challenge_asset_grace_days cfg) db2) 0 db2 of
                (Inl e, db3) \<Rightarrow> (Inl e, db3)
              | (Inr purged, db3) \<Rightarrow> (and_then tmp_purged (\<lambda>n. Inr (abandoned, purged, n)), db3)))"

end
