(* ===== verification/Review_System.thy ===== *)
theory Review_System
  imports Review_Service
begin

text \<open>
  The review system: every transaction of \<open>Review_Records\<close> as a step on the tables, in any interleaving,
  together with the purge candidates that a cleanup run has listed and not yet processed. Accounts, roles,
  owners and the evaluation tables may change arbitrarily between steps. Ids of new private assets are
  generated UUIDs, so they are not among the purge candidates.
\<close>

record review_system =
  rs_db :: review_db
  rs_purge :: "uuid list"

definition review_initial :: "review_system \<Rightarrow> bool" where
  "review_initial s = (rv_records (rs_db s) = [] \<and> rv_validations (rs_db s) = [] \<and> rv_assets (rs_db s) = [] \<and> rs_purge s = [])"

definition same_review_tables :: "review_db \<Rightarrow> review_db \<Rightarrow> bool" where
  "same_review_tables db db' = (rv_records db' = rv_records db \<and> rv_validations db' = rv_validations db \<and> rv_assets db' = rv_assets db)"

inductive review_tx :: "uuid list \<Rightarrow> review_db \<Rightarrow> review_db \<Rightarrow> bool" for purge where
  create: "create_challenge_review_record now inp ev db = Inr (r, db') \<Longrightarrow> review_tx purge db db'"
| begin_validation: "begin_challenge_review_record_validation now inp window limit timeout db = Inr (v, db') \<Longrightarrow> review_tx purge db db'"
| finish_validation: "finish_challenge_review_record_validation now inp ev db = (res, db') \<Longrightarrow> review_tx purge db db'"
| approve: "approve_validated_challenge_review_record now rid msg db = Inr (u, db') \<Longrightarrow> review_tx purge db db'"
| approve_with_audit: "approve_validated_challenge_review_record_with_audit now rid expected msg ev db = Inr (u, db') \<Longrightarrow> review_tx purge db db'"
| reject: "update_challenge_review_record_status_with_audit now rid RRejected msg ev db = Inr (u, db') \<Longrightarrow> review_tx purge db db'"
| abandon: "abandon_challenge_review_record_with_audit now rid msg ev db = Inr (u, db') \<Longrightarrow> review_tx purge db db'"
| abandon_stale: "abandon_stale_challenge_review_records now ttl db = (n, db') \<Longrightarrow> review_tx purge db db'"
| reserve_asset: "reserve_challenge_private_asset now inp max_bytes vt pt db = Inr (a, db') \<Longrightarrow> ca_asset_row_id inp \<notin> set purge \<Longrightarrow>
    review_tx purge db db'"
| activate_asset: "activate_challenge_private_asset_with_audit now aid eid actor db = Inr (a, db') \<Longrightarrow> review_tx purge db db'"
| fail_asset: "review_tx purge db (fail_challenge_private_asset now aid msg db)"
| mark_purging: "aid \<in> set purge \<Longrightarrow> mark_challenge_private_asset_purging aid db = (res, db') \<Longrightarrow> review_tx purge db db'"
| delete_asset: "aid \<in> set purge \<Longrightarrow> review_tx purge db (delete_challenge_private_asset now aid db)"
| claim: "claim_challenge_review_record_for_publish now rid timeout c db = Inr (claim, db') \<Longrightarrow> review_tx purge db db'"
| fail_publish: "fail_challenge_review_record_publish now rid c msg db = Inr (u, db') \<Longrightarrow> review_tx purge db db'"
| publish_new: "publish_new_challenge_review_record env pn db = Inr (u, db') \<Longrightarrow> review_tx purge db db'"
| publish_archive: "publish_archive_challenge_review_record env px db = Inr (u, db') \<Longrightarrow> review_tx purge db db'"
| environment: "same_review_tables db db' \<Longrightarrow> review_tx purge db db'"

inductive review_step :: "review_system \<Rightarrow> review_system \<Rightarrow> bool" where
  tx: "review_tx (rs_purge s) (rs_db s) db' \<Longrightarrow> review_step s (s\<lparr>rs_db := db'\<rparr>)"
| list_for_purge: "review_step s
    (s\<lparr>rs_purge := rs_purge s @ list_unpublished_private_assets_for_purge now grace_days (rs_db s)\<rparr>)"

definition review_reachable :: "review_system \<Rightarrow> bool" where
  "review_reachable s = (\<exists>s0. review_initial s0 \<and> review_step\<^sup>*\<^sup>* s0 s)"

lemma review_reachable_step: "review_reachable s \<Longrightarrow> review_step s s' \<Longrightarrow> review_reachable s'"
  unfolding review_reachable_def by (blast intro: rtranclp.rtrancl_into_rtrancl)

lemma review_reachable_tx: "review_reachable s \<Longrightarrow> review_tx (rs_purge s) (rs_db s) db' \<Longrightarrow> review_reachable (s\<lparr>rs_db := db'\<rparr>)"
  by (blast intro: review_reachable_step review_step.tx)

section \<open>What the transactions do to the assets\<close>

text \<open>The key stays unique, and an asset row comes from one with the same id and record or is new.\<close>

definition assets_from :: "uuid set \<Rightarrow> review_db \<Rightarrow> review_db \<Rightarrow> bool" where
  "assets_from new db db' =
     ((pk_ok pa_id (rv_assets db) \<longrightarrow> pk_ok pa_id (rv_assets db'))
      \<and> (\<forall>a \<in> set (rv_assets db'). pa_id a \<in> new \<or> (\<exists>b \<in> set (rv_assets db). pa_id b = pa_id a \<and> pa_record b = pa_record a)))"

lemma assets_from_same: "rv_assets db' = rv_assets db \<Longrightarrow> assets_from new db db'"
  by (auto simp: assets_from_def)

lemma assets_from_trans: "assets_from new a b \<Longrightarrow> assets_from new b c \<Longrightarrow> assets_from new a c"
  unfolding assets_from_def by (metis (no_types, lifting))

lemma assets_from_update:
  assumes "rv_assets db' = sql_update P f (rv_assets db)" "\<And>a. pa_id (f a) = pa_id a" "\<And>a. pa_record (f a) = pa_record a"
  shows "assets_from new db db'"
  unfolding assets_from_def assms(1) set_sql_update
proof (intro conjI impI ballI)
  show "pk_ok pa_id (sql_update P f (rv_assets db))" if "pk_ok pa_id (rv_assets db)"
    using that assms(2) by (rule pk_ok_update)
  fix a
  assume "a \<in> (\<lambda>r. if P r then f r else r) ` set (rv_assets db)"
  then obtain b where "b \<in> set (rv_assets db)" "a = (if P b then f b else b)" by blast
  then show "pa_id a \<in> new \<or> (\<exists>b \<in> set (rv_assets db). pa_id b = pa_id a \<and> pa_record b = pa_record a)"
    using assms(2,3) by (intro disjI2 bexI [of _ b]) simp_all
qed

lemma update_records_assets [simp]: "rv_assets (update_records P f db) = rv_assets db"
  by (simp add: update_records_def)

lemma lock_assets [simp]: "rv_assets (lock_quota_scope scope db) = rv_assets db"
  by (simp add: lock_quota_scope_def)

lemma reset_assets [simp]: "rv_assets (reset_stale_publishing_review_record_tx now rid timeout db) = rv_assets db"
  by (simp add: reset_stale_publishing_review_record_tx_def)

lemma audit_assets: "create_challenge_review_audit_event_tx ev db = Inr (u, db') \<Longrightarrow> rv_assets db' = rv_assets db"
  by (auto simp: create_challenge_review_audit_event_tx_def split: if_splits)

lemma mark_published_assets: "mark_challenge_review_record_published_tx now rid c n db = Inr (u, db') \<Longrightarrow> rv_assets db' = rv_assets db"
  by (auto simp: mark_challenge_review_record_published_tx_def update_or_conflict_ok)

lemma fail_assets_from: "assets_from new db (fail_assets now P msg db)"
  by (rule assets_from_update [where P = P and f = "\<lambda>a. a\<lparr>pa_status := AFailed, pa_failed_at := Some now, pa_failure_message := Some msg\<rparr>"])
    (simp_all add: fail_assets_def Let_def update_records_def)

lemma create_assets:
  "create_challenge_review_record now inp ev db = Inr (r, db') \<Longrightarrow> rv_assets db' = rv_assets db"
  by (auto simp: create_challenge_review_record_def Let_def result_simps insert_review_record_def
      simp del: append.simps dest!: audit_assets split: if_splits)

lemma begin_assets:
  assumes "begin_challenge_review_record_validation now inp window limit timeout db = Inr (v, db')"
  shows "rv_assets db' = rv_assets db"
  using assms unfolding begin_challenge_review_record_validation_def Let_def
  by (auto simp: result_simps update_or_conflict_ok split: option.splits if_splits)

lemma finish_assets:
  "finish_challenge_review_record_validation now inp ev db = (res, db') \<Longrightarrow> rv_assets db' = rv_assets db"
  by (auto simp: finish_challenge_review_record_validation_def Let_def transact_def and_then_def
      dest!: audit_assets split: if_splits option.splits sum.splits)

lemma claim_assets:
  "claim_challenge_review_record_for_publish now rid timeout c db = Inr (claim, db') \<Longrightarrow> rv_assets db' = rv_assets db"
  unfolding claim_challenge_review_record_for_publish_def Let_def
  by (auto simp: result_simps update_or_conflict_ok split: option.splits review_status.splits if_splits)

lemma publish_new_assets:
  "publish_new_challenge_review_record env inp db = Inr (u, db') \<Longrightarrow> rv_assets db' = rv_assets db"
  unfolding publish_new_challenge_review_record_def
  by (auto simp: result_simps add_challenge_owner_tx_def dest!: audit_assets mark_published_assets split: if_splits)

lemma archive_assets: "archive_challenge_tx n db = Inr (u, db') \<Longrightarrow> rv_assets db' = rv_assets db"
  by (auto simp: archive_challenge_tx_def split: prod.splits sum.splits)

lemma publish_archive_assets:
  "publish_archive_challenge_review_record env inp db = Inr (u, db') \<Longrightarrow> rv_assets db' = rv_assets db"
  unfolding publish_archive_challenge_review_record_def
  by (auto simp: result_simps dest!: audit_assets mark_published_assets archive_assets)

lemma activate_assets:
  assumes "activate_challenge_private_asset_with_audit now aid eid actor db = Inr (a, db')"
  shows "assets_from new db db'"
proof -
  from assms obtain db1 where act: "activate_challenge_private_asset_tx now aid db = Inr (a, db1)" and au: "rv_assets db' = rv_assets db1"
    by (auto simp: activate_challenge_private_asset_with_audit_def result_simps dest!: audit_assets)
  from act have "assets_from new db db1"
    by (intro assets_from_update [where P = "\<lambda>a. pa_id a = aid \<and> pa_status a = APending" and
          f = "\<lambda>a. a\<lparr>pa_status := AActive, pa_temporary_storage_key := None, pa_activated_at := Some now,
            pa_failed_at := None, pa_failure_message := None\<rparr>"])
      (auto simp: activate_challenge_private_asset_tx_def Let_def result_simps split: option.splits)
  with au show ?thesis by (auto intro: assets_from_trans assets_from_same)
qed

lemma reserve_assets:
  assumes "reserve_challenge_private_asset now inp max_bytes vt pt db = Inr (a, db')"
  shows "assets_from {ca_asset_row_id inp} db db'"
proof -
  define db1 where "db1 = auto_fail_stale_pending_private_assets_tx now (ca_review_record_id inp) pt
    (lock_quota_scope (''challenge-review-record:'' @ ca_review_record_id inp @ '':private-assets'') db)"
  have 1: "assets_from {ca_asset_row_id inp} db db1"
    unfolding db1_def auto_fail_stale_pending_private_assets_tx_def
    by (rule assets_from_trans [OF assets_from_same fail_assets_from]) simp
  note run = assms [unfolded reserve_challenge_private_asset_def Let_def, folded db1_def]
  then obtain db2 db3 where en: "ensure_private_asset_upload_allowed_tx now inp vt db1 = Inr ((), db2)"
    and ins: "insert_private_asset (new_private_asset now inp) db2 = Inr db3" and db': "rv_assets db' = rv_assets db3"
    by (auto simp: result_simps)
  have "rv_assets db2 = rv_assets db1" using ensure_upload_allowed [OF en] by blast
  moreover from ins have "\<forall>b \<in> set (rv_assets db2). pa_id b \<noteq> ca_asset_row_id inp"
    "rv_assets db3 = sql_insert (new_private_asset now inp) (rv_assets db2)"
    by (auto simp: insert_private_asset_def new_private_asset_def split: if_splits)
  ultimately have "assets_from {ca_asset_row_id inp} db1 db'"
    unfolding assets_from_def db' by (auto simp: new_private_asset_def intro: pk_ok_insert)
  with 1 show ?thesis by (rule assets_from_trans)
qed

section \<open>Invariant and simulation\<close>

definition purge_inv :: "review_system \<Rightarrow> bool" where
  "purge_inv s = (pk_ok pa_id (rv_assets (rs_db s)) \<and> pk_ok rr_id (rv_records (rs_db s)) \<and> (\<forall>aid \<in> set (rs_purge s). purgeable aid (rs_db s)))"

lemma closed_stays_closed:
  assumes "simulated db db'" "record_by_id i (rv_records db) = Some r" "rr_status r \<in> closed_status"
  shows "\<exists>r'. record_by_id i (rv_records db') = Some r' \<and> rr_status r' \<in> closed_status"
proof -
  from assms(1) have tr: "tracks (passed_digests i db') (view_at i db) (view_at i db')" by (simp add: simulated_def)
  with assms(2) obtain r' where r': "record_by_id i (rv_records db') = Some r'"
    by (cases "record_by_id i (rv_records db')") (auto simp: view_at_def)
  from tr assms(2) r' have "review_path (passed_digests i db') (review_view_of (rv_assets db) r) (review_view_of (rv_assets db') r')"
    by (simp add: view_at_def)
  from review_path_closed [OF this] assms(3) r' show ?thesis by (simp add: review_view_of_def)
qed

lemma purgeable_preserved:
  assumes "simulated db db'" "assets_from new db db'" "aid \<notin> new" "purgeable aid db"
  shows "purgeable aid db'"
  unfolding purgeable_def
proof (intro ballI impI)
  fix a
  assume a: "a \<in> set (rv_assets db')" "pa_id a = aid"
  with assms(2,3) obtain b where b: "b \<in> set (rv_assets db)" "pa_id b = aid" "pa_record b = pa_record a"
    unfolding assets_from_def by blast
  with assms(4) obtain r where "record_by_id (pa_record a) (rv_records db) = Some r" "rr_status r \<in> closed_status"
    unfolding purgeable_def by metis
  with closed_stays_closed [OF assms(1)] show "\<exists>r. record_by_id (pa_record a) (rv_records db') = Some r \<and> rr_status r \<in> closed_status"
    by blast
qed

lemma review_tx_effect:
  assumes "review_tx purge db db'" and pk: "pk_ok pa_id (rv_assets db)" and cand: "\<forall>aid \<in> set purge. purgeable aid db"
  shows "simulated db db' \<and> (\<exists>new. assets_from new db db' \<and> set purge \<inter> new = {})"
proof -
  have same: "\<exists>new. assets_from new db db' \<and> set purge \<inter> new = {}" if "rv_assets db' = rv_assets db"
    using assets_from_same [OF that, of "{}"] by blast
  have fresh: "\<exists>new. assets_from new db db' \<and> set purge \<inter> new = {}" if "assets_from {} db db'"
    using that by blast
  from assms(1) show ?thesis
  proof cases
    case (create now inp ev r)
    then show ?thesis using simulated_create create_assets same by blast
  next
    case (begin_validation now inp window limit timeout v)
    then show ?thesis using simulated_begin begin_assets same by blast
  next
    case (finish_validation now inp ev res)
    then show ?thesis using simulated_finish finish_assets same by blast
  next
    case (approve now rid msg u)
    then show ?thesis
      using simulated_approve same by (auto simp: approve_validated_challenge_review_record_def update_or_conflict_ok)
  next
    case (approve_with_audit now rid expected msg ev u)
    then have "rv_assets db' = rv_assets db"
      by (auto simp: approve_validated_challenge_review_record_with_audit_def result_simps update_or_conflict_ok dest!: audit_assets)
    with approve_with_audit show ?thesis using simulated_approve_with_audit same by blast
  next
    case (reject now rid msg ev u)
    then obtain v db1 where 1: "update_challenge_review_record_status now rid RRejected msg db = Inr (v, db1)"
      and 2: "create_challenge_review_audit_event_tx ev db1 = Inr (u, db')"
      by (auto simp: update_challenge_review_record_status_with_audit_def result_simps)
    then have "rv_assets db' = rv_assets db"
      using audit_assets [OF 2] by (auto simp: update_challenge_review_record_status_def update_or_conflict_ok)
    with simulated_trans [OF simulated_reject [OF 1] simulated_audit [OF 2]] same show ?thesis by blast
  next
    case (abandon now rid msg ev u)
    then obtain v db1 where 1: "abandon_challenge_review_record now rid msg db = Inr (v, db1)"
      and 2: "create_challenge_review_audit_event_tx ev db1 = Inr (u, db')"
      by (auto simp: abandon_challenge_review_record_with_audit_def result_simps)
    then have "rv_assets db' = rv_assets db"
      using audit_assets [OF 2] by (auto simp: abandon_challenge_review_record_def update_or_conflict_ok)
    with simulated_trans [OF simulated_abandon [OF 1] simulated_audit [OF 2]] same show ?thesis by blast
  next
    case (abandon_stale now ttl n)
    then have "rv_assets db' = rv_assets db" by (auto simp: abandon_stale_challenge_review_records_def Let_def)
    with abandon_stale show ?thesis using simulated_abandon_stale same by blast
  next
    case (reserve_asset now inp max_bytes vt pt a)
    then show ?thesis using simulated_reserve reserve_assets by blast
  next
    case (activate_asset now aid eid actor a)
    then show ?thesis using simulated_activate_with_audit [OF _ pk] activate_assets fresh by blast
  next
    case (fail_asset now aid msg)
    have "simulated db db'" unfolding fail_asset fail_challenge_private_asset_def by (rule simulated_fail_assets) blast
    moreover have "assets_from {} db db'" unfolding fail_asset fail_challenge_private_asset_def by (rule fail_assets_from)
    ultimately show ?thesis using fresh by blast
  next
    case (mark_purging aid res)
    have "assets_from {} db db'"
      using mark_purging(2)
      by (intro assets_from_update [where P = "\<lambda>a. pa_id a = aid" and f = "\<lambda>a. a\<lparr>pa_status := APurging\<rparr>"])
        (auto simp: mark_challenge_private_asset_purging_def)
    with mark_purging cand show ?thesis using simulated_mark_purging fresh by blast
  next
    case (delete_asset aid now)
    have "assets_from {} db db'"
      unfolding delete_asset assets_from_def delete_challenge_private_asset_def Let_def
      by (auto simp: update_records_def intro: pk_ok_delete)
    with delete_asset cand show ?thesis using simulated_delete_asset fresh by blast
  next
    case (claim now rid timeout c cl)
    then show ?thesis using simulated_claim claim_assets same by blast
  next
    case (fail_publish now rid c msg u)
    then show ?thesis
      using simulated_fail_publish same by (auto simp: fail_challenge_review_record_publish_def update_or_conflict_ok)
  next
    case (publish_new env pn u)
    then show ?thesis using simulated_publish_new publish_new_assets same by blast
  next
    case (publish_archive env px u)
    then show ?thesis using simulated_publish_archive publish_archive_assets same by blast
  next
    case environment
    then show ?thesis using simulated_same same by (auto simp: same_review_tables_def)
  qed
qed

lemma listed_purgeable:
  assumes pk: "pk_ok pa_id (rv_assets db)" and aid: "aid \<in> set (list_unpublished_private_assets_for_purge now g db)"
    and rk: "pk_ok rr_id (rv_records db)"
  shows "purgeable aid db"
proof -
  from aid obtain a r where a: "a \<in> set (rv_assets db)" "pa_id a = aid"
    and r: "r \<in> set (rv_records db)" "rr_id r = pa_record a" "rr_status r \<in> {RAbandoned, RRejected}"
    by (auto simp: list_unpublished_private_assets_for_purge_def)
  from r rk have "record_by_id (pa_record a) (rv_records db) = Some r" by (metis record_tbl.lookup_in)
  with r a pk_ok_inj [OF pk] show ?thesis by (auto simp: purgeable_def closed_status_def)
qed

lemma review_step_inv:
  assumes "review_step s s'" "purge_inv s"
  shows "purge_inv s' \<and> simulated (rs_db s) (rs_db s')"
  using assms
proof cases
  case (tx db')
  from assms(2) have inv: "pk_ok pa_id (rv_assets (rs_db s))" "pk_ok rr_id (rv_records (rs_db s))"
    "\<forall>aid \<in> set (rs_purge s). purgeable aid (rs_db s)" by (simp_all add: purge_inv_def)
  from review_tx_effect [OF tx(2) inv(1,3)] obtain new where sim: "simulated (rs_db s) db'"
    and af: "assets_from new (rs_db s) db'" and fresh: "set (rs_purge s) \<inter> new = {}" by blast
  have "purgeable aid db'" if "aid \<in> set (rs_purge s)" for aid
    using purgeable_preserved [OF sim af] that fresh inv(3) by blast
  with sim af inv tx(1) show ?thesis by (simp add: purge_inv_def simulated_def assets_from_def)
next
  case (list_for_purge now g)
  with assms(2) listed_purgeable show ?thesis by (auto simp: purge_inv_def simulated_refl)
qed

lemma review_steps_inv:
  assumes "review_step\<^sup>*\<^sup>* s s'" "purge_inv s"
  shows "purge_inv s' \<and> simulated (rs_db s) (rs_db s')"
  using assms
proof (induction rule: rtranclp_induct)
  case (step t u)
  then show ?case using review_step_inv by (blast intro: simulated_trans)
qed (simp add: simulated_refl)

lemma review_reachable_inv:
  assumes "review_reachable s"
  shows "purge_inv s" and "\<And>i v. view_at i (rs_db s) = Some v \<Longrightarrow> view_ok (passed_digests i (rs_db s)) v"
proof -
  from assms obtain s0 where s0: "review_initial s0" and steps: "review_step\<^sup>*\<^sup>* s0 s"
    by (auto simp: review_reachable_def)
  from s0 have "purge_inv s0" by (simp add: review_initial_def purge_inv_def pk_ok_def)
  from review_steps_inv [OF steps this] have sim: "simulated (rs_db s0) (rs_db s)" and "purge_inv s" by blast+
  then show "purge_inv s" by blast
  fix i v
  assume v: "view_at i (rs_db s) = Some v"
  from sim have "tracks (passed_digests i (rs_db s)) (view_at i (rs_db s0)) (view_at i (rs_db s))"
    by (simp add: simulated_def)
  moreover have "view_at i (rs_db s0) = None"
    using s0 by (simp add: review_initial_def view_at_def record_by_id_def)
  ultimately obtain v0 where "initial_view v0" "review_path (passed_digests i (rs_db s)) v0 v"
    using v by auto
  then show "view_ok (passed_digests i (rs_db s)) v" by (blast intro: review_path_ok initial_view_ok)
qed

end
