(* ===== verification/Review_Example.thy ===== *)
theory Review_Example
  imports Review_System
begin

text \<open>
  A concrete run of the review system: a creator opens a record, a validation begins and passes, and the
  record is approved. It shows that the hypotheses of the guarantees can hold.
\<close>

definition rx_input :: create_review_record_input where
  "rx_input = \<lparr>cr_review_record_id = ''r'', cr_creator = ''h'', cr_max_active_review_records = 1, cr_github_user_id = 7,
     cr_github_login = ''ada'', cr_repo_url = ''u'', cr_repo_key = ''k'', cr_pr_number = 1, cr_pr_url = ''p'', cr_commit_sha = ''c'',
     cr_challenge_path = ''challenges/sample-sum'', cr_manifest_sha256 = ''m'', cr_manifest = sample_manifest\<rparr>"

definition rx_event :: "uuid \<Rightarrow> audit_event" where
  "rx_event i = \<lparr>ae_id = i, ae_record = ''r'', ae_actor_human = None, ae_actor_token = None, ae_actor_display = None,
     ae_action = [], ae_message = [], ae_metadata = []\<rparr>"

definition rx_approval_event :: audit_event where
  "rx_approval_event = (rx_event ''e3'')\<lparr>ae_action := ''review_record_approved'', ae_metadata := [(''approved_bundle_sha256'', MetaText ''d'')]\<rparr>"

definition rx_begin :: begin_validation_input where
  "rx_begin = \<lparr>bv_validation_record_id = ''v'', bv_review_record_id = ''r'', bv_repository_path = ''w'', bv_manifest_sha256 = ''m''\<rparr>"

definition rx_finish :: finish_validation_input where
  "rx_finish = \<lparr>fv_validation_record_id = ''v'', fv_review_record_id = ''r'', fv_status = VPassed, fv_message = ''ok'', fv_bundle_sha256 = Some ''d''\<rparr>"

definition rx_core :: "string list \<Rightarrow> db" where
  "rx_core locks = \<lparr>challenges = [], submissions = [], jobs = [], evaluations = [], leaderboard = [], shortlist = [],
     agents = [], heartbeats = [], quota_locks = locks\<rparr>"

definition rx_db :: "review_record_row list \<Rightarrow> validation_row list \<Rightarrow> audit_event list \<Rightarrow> string list \<Rightarrow> review_db" where
  "rx_db rs vs evs locks = \<lparr>rv_records = rs, rv_validations = vs, rv_assets = [], rv_audit = evs, rv_owners = [],
     rv_humans = [\<lparr>hu_id = ''h'', hu_status = ''active''\<rparr>], rv_roles = [], rv_tokens = [], rv_db = rx_core locks\<rparr>"

definition rx_row1 :: review_record_row where
  "rx_row1 = (new_review_record 0 rx_input)\<lparr>rr_active_validation := Some ''v'', rr_updated_at := 10\<rparr>"

definition rx_row2 :: review_record_row where
  "rx_row2 = rx_row1\<lparr>rr_status := RValidated, rr_validation_message := Some ''ok'', rr_validation_repository_path := Some ''w'',
     rr_validation_bundle_sha256 := Some ''d'', rr_active_validation := None, rr_updated_at := 20\<rparr>"

definition rx_row3 :: review_record_row where "rx_row3 = approve_record 30 None rx_row2"

definition rx_locks :: "string list" where
  "rx_locks = [''challenge-review-records:human:h'', ''challenge-review-record:r:validations'']"

definition rx_db0 :: review_db where "rx_db0 = rx_db [] [] [] []"
definition rx_db1 :: review_db where
  "rx_db1 = rx_db [new_review_record 0 rx_input] [] [rx_event ''e1''] [''challenge-review-records:human:h'']"
definition rx_db2 :: review_db where "rx_db2 = rx_db [rx_row1] [new_validation 10 rx_begin] [rx_event ''e1''] rx_locks"
definition rx_db3 :: review_db where
  "rx_db3 = rx_db [rx_row2] [finished_validation rx_finish (new_validation 10 rx_begin)] [rx_event ''e1'', rx_event ''e2''] rx_locks"
definition rx_db4 :: review_db where
  "rx_db4 = rx_db [rx_row3] [finished_validation rx_finish (new_validation 10 rx_begin)]
     [rx_event ''e1'', rx_event ''e2'', rx_approval_event] rx_locks"

lemmas rx_rows = new_review_record_def rx_input_def rx_row1_def rx_row2_def rx_row3_def approve_record_def
lemmas rx_sql = sql_insert_def sql_update_def sql_first_def sql_count_def record_by_id_def update_or_conflict_def update_records_def
lemmas rx_states = rx_db_def rx_core_def rx_db0_def rx_db1_def rx_db2_def rx_db3_def rx_db4_def rx_locks_def

lemma rx_create: "create_challenge_review_record 0 rx_input (rx_event ''e1'') rx_db0 = Inr (new_review_record 0 rx_input, rx_db1)"
  by (simp add: create_challenge_review_record_def Let_def rx_event_def rx_rows rx_states lock_quota_scope_def lock_scope_def
      count_active_challenge_review_records_for_human_tx_def insert_review_record_def create_challenge_review_audit_event_tx_def rx_sql)

lemma rx_begun: "begin_challenge_review_record_validation 10 rx_begin 86400 1 15 rx_db1 = Inr (new_validation 10 rx_begin, rx_db2)"
  by (simp add: begin_challenge_review_record_validation_def Let_def rx_begin_def rx_rows rx_states lock_quota_scope_def lock_scope_def
      count_recent_challenge_review_record_validations_tx_def new_validation_def rx_sql)

lemma rx_finished:
  "finish_challenge_review_record_validation 20 rx_finish (rx_event ''e2'') rx_db2
     = (Inr (finished_validation rx_finish (new_validation 10 rx_begin)), rx_db3)"
  by (simp add: finish_challenge_review_record_validation_def Let_def rx_begin_def rx_finish_def rx_event_def rx_rows rx_states
      new_validation_def finished_validation_def create_challenge_review_audit_event_tx_def transact_def rx_sql)

lemma rx_approved:
  "approve_validated_challenge_review_record_with_audit 30 ''r'' ''d'' None (rx_event ''e3'') rx_db3 = Inr ((), rx_db4)"
  by (simp add: approve_validated_challenge_review_record_with_audit_def rx_event_def rx_approval_event_def rx_rows rx_states
      create_challenge_review_audit_event_tx_def rx_sql)

definition rx_system :: "review_db \<Rightarrow> review_system" where
  "rx_system db = \<lparr>rs_db = db, rs_purge = []\<rparr>"

lemma rx_step: "review_tx [] db db' \<Longrightarrow> review_reachable (rx_system db) \<Longrightarrow> review_reachable (rx_system db')"
  using review_reachable_tx [of "rx_system db" db'] by (simp add: rx_system_def)

lemma rx_reachable: "review_reachable (rx_system rx_db4)"
proof -
  have "review_reachable (rx_system rx_db0)"
    unfolding review_reachable_def
    by (rule exI [of _ "rx_system rx_db0"]) (simp add: review_initial_def rx_system_def rx_states)
  then have "review_reachable (rx_system rx_db1)" by (rule rx_step [OF review_tx.create [OF rx_create]])
  then have "review_reachable (rx_system rx_db2)" by (rule rx_step [OF review_tx.begin_validation [OF rx_begun]])
  then have "review_reachable (rx_system rx_db3)" by (rule rx_step [OF review_tx.finish_validation [OF rx_finished]])
  then show ?thesis by (rule rx_step [OF review_tx.approve_with_audit [OF rx_approved]])
qed

lemma rx_record: "record_by_id ''r'' (rv_records rx_db4) = Some rx_row3" "rr_status rx_row3 = RApproved"
  "rr_approved_bundle_sha256 rx_row3 = Some ''d'' "
  by (simp_all add: rx_states record_by_id_def sql_first_def rx_rows)

definition rx_row5 :: review_record_row where
  "rx_row5 = rx_row3\<lparr>rr_status := RPublishing, rr_publish_claim := Some ''q'', rr_updated_at := 40\<rparr>"

definition rx_db5 :: review_db where
  "rx_db5 = rx_db [rx_row5] [finished_validation rx_finish (new_validation 10 rx_begin)]
     [rx_event ''e1'', rx_event ''e2'', rx_approval_event] (rx_locks @ [''challenge-review-record:r:publish''])"

lemma rx_claimed: "claim_challenge_review_record_for_publish 40 ''r'' 15 ''q'' rx_db4 = Inr (Some ''q'', rx_db5)"
  by (simp add: claim_challenge_review_record_for_publish_def Let_def reset_stale_publishing_review_record_tx_def rx_rows rx_states
      rx_row5_def rx_db5_def lock_quota_scope_def lock_scope_def rx_sql)

lemma rx_claim_step: "review_step (rx_system rx_db4) (rx_system rx_db5)"
  using review_step.tx [of "rx_system rx_db4", OF review_tx.claim, of 40 "''r''" 15 "''q''" "Some ''q''" rx_db5] rx_claimed
  by (simp add: rx_system_def)

definition rx_asset :: create_private_asset_input where
  "rx_asset = \<lparr>ca_asset_row_id = ''a'', ca_review_record_id = ''r'', ca_asset_name = ''n'', ca_kind = PrivateSeeds, ca_required = True,
     ca_size_bytes = 5, ca_sha256 = ''x'', ca_storage_key = ''s'', ca_temporary_storage_key = ''t'', ca_uploader = ''h''\<rparr>"

lemma rx_reserved: "\<exists>db'. reserve_challenge_private_asset 5 rx_asset 10 15 15 rx_db1 = Inr (new_private_asset 5 rx_asset, db')"
  by (simp add: reserve_challenge_private_asset_def Let_def auto_fail_stale_pending_private_assets_tx_def fail_assets_def rx_asset_def
      ensure_private_asset_upload_allowed_tx_def asset_bytes_def insert_private_asset_def new_private_asset_def rx_rows rx_states
      lock_quota_scope_def lock_scope_def rx_sql sql_select_def i64_max_def i64_min_def)

definition rx_io :: review_io where
  "rx_io = \<lparr>io_existing_dir = Inr, io_git = (\<lambda>_ _. Inl (ValidationErr ''no repository'')), io_parse_commit = Inr,
     io_creation_repository = (\<lambda>_. Inr sample_manifest), io_manifest_sha256 = (\<lambda>_. Inr ''m''),
     io_review_digest = (\<lambda>_ _ _. Inr ''d''), io_runtime_digest = (\<lambda>_ _ _. Inr ''d''), io_assemble = (\<lambda>_ _ _. Inl NotFound),
     io_store = (\<lambda>_ _ _. Inr ()), io_delete = (\<lambda>_. Inr ()), io_show_error = (\<lambda>_. ''failed''), io_base64_decode = Some,
     io_check_zip = (\<lambda>_ _ _ _. Inr ()), io_sha256 = id, io_exists = (\<lambda>_. Inr False), io_put = (\<lambda>_ _. Inr ()),
     io_promote = (\<lambda>_ _. Inr ())\<rparr>"

definition rx_config :: review_config where
  "rx_config = \<lparr>max_active_challenge_review_records_per_human = 1, challenge_private_asset_bytes_per_review_record = 10,
     challenge_review_record_validations_per_day = 1, challenge_review_record_validation_timeout_minutes = 15,
     challenge_private_asset_pending_timeout_minutes = 15, challenge_review_record_publish_timeout_minutes = 15,
     challenge_review_record_ttl_days = 30, unpublished_challenge_asset_grace_days = 7\<rparr>"

definition rx_admin :: review_admin where
  "rx_admin = \<lparr>ad_human = Some ''h'', ad_token = None, ad_display = ''root''\<rparr>"

end
