(* ===== verification/Review_Guarantees.thy ===== *)
theory Review_Guarantees
  imports Review_Example
begin

text \<open>
  What the review of challenges guarantees: only validated content is approved and published, an approved
  record is frozen, every interleaving of the workflows follows the automaton, the quotas hold, and a failed
  publication leaves nothing behind.
\<close>

section \<open>Approved content\<close>

text \<open>
  C15. In every reachable state, a record that is approved, publishing or published carries as its approved
  digest the digest of a validation of this record that passed, no upload to it is pending, and it holds a
  publishing claim exactly while it is publishing.
\<close>

theorem approved_content_was_validated:
  assumes "review_reachable s" "record_by_id i (rv_records (rs_db s)) = Some r"
    and "rr_status r \<in> {RApproved, RPublishing, RPublished}"
  shows "\<exists>v d. v \<in> set (rv_validations (rs_db s)) \<and> va_record v = i \<and> va_status v = VPassed
      \<and> va_bundle_sha256 v = Some d \<and> rr_approved_bundle_sha256 r = Some d
      \<and> (\<forall>a \<in> set (rv_assets (rs_db s)). pa_record a = i \<longrightarrow> pa_status a \<noteq> APending)
      \<and> (rr_publish_claim r \<noteq> None \<longleftrightarrow> rr_status r = RPublishing)"
proof -
  let ?v = "review_view_of (rv_assets (rs_db s)) r"
  have id: "rr_id r = i" using assms(2) record_tbl.lookup_Some_in by blast
  have "view_ok (passed_digests i (rs_db s)) ?v"
    using review_reachable_inv(2) [OF assms(1), of i ?v] assms(2) by (simp add: view_at_def)
  with assms(3) have "rr_validation_bundle_sha256 r \<noteq> None" "rr_approved_bundle_sha256 r = rr_validation_bundle_sha256 r"
    "rr_validation_bundle_sha256 r \<in> passed_digests i (rs_db s)" "\<not> vw_pending ?v"
    "rr_publish_claim r \<noteq> None \<longleftrightarrow> rr_status r = RPublishing"
    by (auto simp: view_ok_def review_view_of_def)
  then show ?thesis by (fastforce simp: passed_digests_def review_view_of_def id)
qed

theorem approved_content_was_validated_witness:
  "\<exists>v d. v \<in> set (rv_validations rx_db4) \<and> va_record v = ''r'' \<and> va_status v = VPassed
      \<and> va_bundle_sha256 v = Some d \<and> rr_approved_bundle_sha256 rx_row3 = Some d"
proof -
  have "record_by_id ''r'' (rv_records (rs_db (rx_system rx_db4))) = Some rx_row3" "rr_status rx_row3 \<in> {RApproved, RPublishing, RPublished}"
    using rx_record by (simp_all add: rx_system_def)
  from approved_content_was_validated [OF rx_reachable this] show ?thesis by (auto simp: rx_system_def)
qed

text \<open>
  C16. Once a record is approved, no sequence of further steps changes its approved digest or the private
  assets it will be published with, unless the record is rejected or abandoned; a published record stays
  published.
\<close>

theorem approved_record_is_frozen:
  assumes reach: "review_reachable s" and steps: "review_step\<^sup>*\<^sup>* s s'"
    and r: "record_by_id i (rv_records (rs_db s)) = Some r" "rr_status r \<in> {RApproved, RPublishing, RPublished}"
  shows "\<exists>r'. record_by_id i (rv_records (rs_db s')) = Some r'
      \<and> (rr_status r = RPublished \<longrightarrow> rr_status r' = RPublished)
      \<and> (rr_status r' \<in> {RRejected, RAbandoned}
         \<or> (rr_status r' \<in> {RApproved, RPublishing, RPublished}
            \<and> rr_approved_bundle_sha256 r' = rr_approved_bundle_sha256 r
            \<and> set (active_assets i (rs_db s')) = set (active_assets i (rs_db s))))"
proof -
  let ?v = "review_view_of (rv_assets (rs_db s)) r" and ?D = "passed_digests i (rs_db s')"
  have sim: "simulated (rs_db s) (rs_db s')"
    using review_steps_inv [OF steps] review_reachable_inv(1) [OF reach] by blast
  have tr: "tracks ?D (view_at i (rs_db s)) (view_at i (rs_db s'))" and D: "passed_digests i (rs_db s) \<subseteq> ?D"
    using sim by (simp_all add: simulated_def)
  from tr r(1) obtain r' where r': "record_by_id i (rv_records (rs_db s')) = Some r'"
    by (cases "record_by_id i (rv_records (rs_db s'))") (auto simp: view_at_def)
  let ?w = "review_view_of (rv_assets (rs_db s')) r'"
  have path: "review_path ?D ?v ?w" using tr r(1) r' by (simp add: view_at_def)
  have ok: "view_ok ?D ?v"
    using review_reachable_inv(2) [OF reach, of i ?v] r(1) view_ok_mono [OF _ D] by (simp add: view_at_def)
  have ids: "rr_id r = i" "rr_id r' = i" using r(1) r' record_tbl.lookup_Some_in by blast+
  have assets: "set (active_assets i (rs_db t)) = vw_assets (review_view_of (rv_assets (rs_db t)) q)" if "rr_id q = i" for t q
    using that by (simp add: active_assets_def review_view_of_def)
  have "rr_status r = RPublished \<longrightarrow> rr_status r' = RPublished"
    using review_path_published [OF path _ ok] by (auto simp: review_view_of_def)
  moreover have "rr_status r' \<in> {RRejected, RAbandoned} \<or> (rr_status r' \<in> {RApproved, RPublishing, RPublished}
      \<and> rr_approved_bundle_sha256 r' = rr_approved_bundle_sha256 r \<and> vw_assets ?w = vw_assets ?v)"
    using review_path_frozen [OF path] r(2) by (auto simp: review_view_of_def closed_status_def)
  moreover have "set (active_assets i (rs_db s')) = set (active_assets i (rs_db s))" if "vw_assets ?w = vw_assets ?v"
    unfolding assets [OF ids(1), of s] assets [OF ids(2), of s'] by (rule that)
  ultimately show ?thesis using r' by blast
qed

theorem approved_record_is_frozen_witness:
  "\<exists>r'. record_by_id ''r'' (rv_records rx_db5) = Some r' \<and> (rr_status r' \<in> {RRejected, RAbandoned}
      \<or> rr_approved_bundle_sha256 r' = rr_approved_bundle_sha256 rx_row3)"
proof -
  have r: "record_by_id ''r'' (rv_records (rs_db (rx_system rx_db4))) = Some rx_row3" "rr_status rx_row3 \<in> {RApproved, RPublishing, RPublished}"
    using rx_record by (simp_all add: rx_system_def)
  have "review_step\<^sup>*\<^sup>* (rx_system rx_db4) (rx_system rx_db5)" using rx_claim_step by blast
  from approved_record_is_frozen [OF rx_reachable this r] show ?thesis by (auto simp: rx_system_def)
qed

text \<open>
  C17. The workflows refine the review automaton: along any interleaving of transactions, every record
  moves on a path of the automaton whose passed validations are those recorded in the tables, and every new
  record starts in the automaton's initial state.
\<close>

theorem review_refines_automaton:
  assumes "review_reachable s" and "review_step\<^sup>*\<^sup>* s s'"
  shows "tracks (passed_digests i (rs_db s')) (view_at i (rs_db s)) (view_at i (rs_db s'))
    \<and> passed_digests i (rs_db s) \<subseteq> passed_digests i (rs_db s')"
  using review_steps_inv [OF assms(2)] review_reachable_inv(1) [OF assms(1)] by (simp add: simulated_def)

theorem review_refines_automaton_witness:
  "tracks (passed_digests ''r'' rx_db5) (view_at ''r'' rx_db4) (view_at ''r'' rx_db5)"
proof -
  have "review_step\<^sup>*\<^sup>* (rx_system rx_db4) (rx_system rx_db5)" using rx_claim_step by blast
  from review_refines_automaton [OF rx_reachable this, of "''r''"] show ?thesis by (simp add: rx_system_def)
qed

section \<open>Quotas\<close>

text \<open>
  C19. The review quotas hold when a transaction commits: a creator has at most the allowed number of open
  records, a record at most the allowed number of validations in the window, and the pending and active
  private assets of a record at most the allowed number of bytes.
\<close>

theorem review_quotas_hold:
  "(create_challenge_review_record now inp ev db = Inr (r, db') \<longrightarrow>
      count_active_challenge_review_records_for_human_tx (cr_creator inp) db' \<le> cr_max_active_review_records inp)
   \<and> (begin_challenge_review_record_validation now bv window limit timeout db = Inr (v, db') \<longrightarrow>
      count_recent_challenge_review_record_validations_tx now (bv_review_record_id bv) window db' \<le> limit)
   \<and> (reserve_challenge_private_asset now ca max_bytes vt pt db = Inr (a, db') \<longrightarrow>
      asset_bytes (ca_review_record_id ca) db' \<le> int max_bytes)"
proof (intro conjI impI)
  assume "create_challenge_review_record now inp ev db = Inr (r, db')"
  then show "count_active_challenge_review_records_for_human_tx (cr_creator inp) db' \<le> cr_max_active_review_records inp"
    by (auto simp: create_challenge_review_record_def Let_def result_simps insert_review_record_def new_review_record_def
        create_challenge_review_audit_event_tx_def count_active_challenge_review_records_for_human_tx_def lock_quota_scope_def
        simp del: append.simps split: if_splits)
next
  assume run: "begin_challenge_review_record_validation now bv window limit timeout db = Inr (v, db')"
  then obtain db2 where "count_recent_challenge_review_record_validations_tx now (bv_review_record_id bv) window db2 < limit"
    "rv_validations db' = sql_insert (new_validation now bv) (rv_validations db2)"
    unfolding begin_challenge_review_record_validation_def Let_def
    by (auto simp: result_simps update_or_conflict_ok update_records_def not_le split: option.splits if_splits)
  then show "count_recent_challenge_review_record_validations_tx now (bv_review_record_id bv) window db' \<le> limit"
    by (auto simp: count_recent_challenge_review_record_validations_tx_def)
next
  assume "reserve_challenge_private_asset now ca max_bytes vt pt db = Inr (a, db')"
  then obtain db2 db3 where "asset_bytes (ca_review_record_id ca) db2 + ca_size_bytes ca \<le> int max_bytes"
    "insert_private_asset (new_private_asset now ca) db2 = Inr db3" "rv_assets db' = rv_assets db3"
    unfolding reserve_challenge_private_asset_def Let_def by (auto simp: result_simps not_less)
  then show "asset_bytes (ca_review_record_id ca) db' \<le> int max_bytes"
    by (auto simp: asset_bytes_def insert_private_asset_def sql_insert_def sql_select_def new_private_asset_def split: if_splits)
qed

theorem review_quotas_hold_witness:
  "count_active_challenge_review_records_for_human_tx (cr_creator rx_input) rx_db1 \<le> cr_max_active_review_records rx_input
   \<and> count_recent_challenge_review_record_validations_tx 10 (bv_review_record_id rx_begin) 86400 rx_db2 \<le> 1
   \<and> (\<exists>db'. reserve_challenge_private_asset 5 rx_asset 10 15 15 rx_db1 = Inr (new_private_asset 5 rx_asset, db')
        \<and> asset_bytes (ca_review_record_id rx_asset) db' \<le> 10)"
proof (intro conjI)
  show "count_active_challenge_review_records_for_human_tx (cr_creator rx_input) rx_db1 \<le> cr_max_active_review_records rx_input"
    using review_quotas_hold rx_create by blast
  show "count_recent_challenge_review_record_validations_tx 10 (bv_review_record_id rx_begin) 86400 rx_db2 \<le> 1"
    using review_quotas_hold rx_begun by blast
  obtain db' where res: "reserve_challenge_private_asset 5 rx_asset 10 15 15 rx_db1 = Inr (new_private_asset 5 rx_asset, db')"
    using rx_reserved by blast
  then have "asset_bytes (ca_review_record_id rx_asset) db' \<le> int 10" using review_quotas_hold by blast
  with res show "\<exists>db'. reserve_challenge_private_asset 5 rx_asset 10 15 15 rx_db1 = Inr (new_private_asset 5 rx_asset, db')
      \<and> asset_bytes (ca_review_record_id rx_asset) db' \<le> 10" by auto
qed

section \<open>Publication\<close>

definition claim_held :: "uuid \<Rightarrow> uuid \<Rightarrow> review_db \<Rightarrow> bool" where
  "claim_held rid c db = (\<exists>r \<in> set (rv_records db). rr_id r = rid \<and> rr_status r = RPublishing \<and> rr_publish_claim r = Some c)"

lemma fail_publish_releases:
  assumes "transact (fail_challenge_review_record_publish now rid c msg) db = (res, db')"
  shows "\<not> claim_held rid c db' \<and> rv_db db' = rv_db db \<and> rv_owners db' = rv_owners db"
proof -
  define P where "P = (\<lambda>r :: review_record_row. rr_id r = rid \<and> rr_status r = RPublishing \<and> rr_publish_claim r = Some c)"
  define f where "f = (\<lambda>r :: review_record_row. r\<lparr>rr_status := RApproved, rr_publish_claim := None,
    rr_validation_message := Some msg, rr_updated_at := now\<rparr>)"
  have held: "claim_held rid c x \<longleftrightarrow> (\<exists>r \<in> set (rv_records x). P r)" for x
    by (simp add: claim_held_def P_def)
  have clear: "\<not> P (f r)" for r by (simp add: P_def f_def)
  note run = assms [unfolded fail_challenge_review_record_publish_def transact_def update_or_conflict_def, folded P_def f_def]
  show ?thesis
  proof (cases "sql_count P (rv_records db) = 0")
    case True
    with run have "db' = db" by simp
    with True show ?thesis by (simp add: held sql_count_def filter_empty_conv)
  next
    case False
    with run have db': "db' = update_records P f db" by simp
    then show ?thesis unfolding held using clear by (auto simp: update_records_def set_sql_update split: if_splits)
  qed
qed

lemma mark_published_lookup:
  assumes "mark_challenge_review_record_published_tx now rid c n db = Inr (u, db')" "pk_ok rr_id (rv_records db)"
  shows "(\<exists>r. record_by_id rid (rv_records db') = Some r \<and> rr_status r = RPublished \<and> rr_published_challenge r = n)
    \<and> rv_db db' = rv_db db \<and> rv_owners db' = rv_owners db"
proof -
  from assms(1) obtain r where r: "r \<in> set (rv_records db)" "rr_id r = rid" "rr_status r = RPublishing"
      "rr_publish_claim r = Some c" "rr_active_validation r = None"
    and db': "rv_records db' = sql_update (\<lambda>r. rr_id r = rid \<and> rr_status r = RPublishing \<and> rr_publish_claim r = Some c \<and> rr_active_validation r = None)
      (\<lambda>r. r\<lparr>rr_status := RPublished, rr_published_challenge := n, rr_publish_claim := None, rr_updated_at := now\<rparr>) (rv_records db)"
      "rv_db db' = rv_db db" "rv_owners db' = rv_owners db"
    by (auto simp: mark_challenge_review_record_published_tx_def update_or_conflict_ok update_records_def sql_count_def filter_empty_conv)
  have "record_by_id rid (rv_records db) = Some r" using record_tbl.lookup_in [OF assms(2) r(1)] r(2) by simp
  then show ?thesis using r by (simp add: db' record_tbl.lookup_update)
qed

lemma audit_records: "create_challenge_review_audit_event_tx ev db = Inr (u, db') \<Longrightarrow>
    rv_records db' = rv_records db \<and> rv_db db' = rv_db db \<and> rv_owners db' = rv_owners db"
  by (auto simp: create_challenge_review_audit_event_tx_def split: if_splits)

lemma published_contract:
  assumes "publish_challenge_tx env inp db = Inr (c, db')"
  shows "ch_name c = pi_challenge_name inp \<and> (\<exists>c \<in> set (challenges db'). ch_name c = pi_challenge_name inp
    \<and> ch_status c = ChActive \<and> ch_spec_json c = SpecValid (pi_spec inp))"
  using assms
proof (cases rule: publish_ok)
  case fresh
  have "challenge_by_name (pi_challenge_name inp) (challenges db) = None" using fresh(1) by (simp add: challenge_tbl.lookup_None_iff)
  then have "c = published_row inp" using assms by (simp add: publish_challenge_tx_def result_simps)
  then show ?thesis using fresh by simp
next
  case (shell q)
  have "published_columns inp q \<in> set (challenges db')" using shell by (auto simp: in_sql_update)
  then have "\<exists>c \<in> set (challenges db'). ch_name c = pi_challenge_name inp \<and> ch_status c = ChActive \<and> ch_spec_json c = SpecValid (pi_spec inp)"
    using shell(2,4) by (intro bexI [where x = "published_columns inp q"]) simp_all
  moreover obtain x where "challenge_by_name (pi_challenge_name inp) (challenges db) = Some x" "ch_name x = pi_challenge_name inp"
    using shell(1,2) challenge_tbl.lookup_None_iff challenge_tbl.lookup_Some_in by (metis not_None_eq)
  then have "ch_name c = pi_challenge_name inp" using assms by (auto simp: publish_challenge_tx_def result_simps split: if_splits)
  ultimately show ?thesis by simp
qed

lemma publish_new_lookup:
  assumes "publish_new_challenge_review_record env inp db = Inr (u, db')" "pk_ok rr_id (rv_records db)"
  shows "(\<exists>r. record_by_id (pn_review_record_id inp) (rv_records db') = Some r \<and> rr_status r = RPublished
      \<and> rr_published_challenge r = Some (pi_challenge_name (pn_challenge inp)))
    \<and> (\<exists>c \<in> set (challenges (rv_db db')). ch_name c = pi_challenge_name (pn_challenge inp) \<and> ch_status c = ChActive
      \<and> ch_spec_json c = SpecValid (pi_spec (pn_challenge inp)))
    \<and> (pi_challenge_name (pn_challenge inp), pn_owner inp) \<in> set (rv_owners db')"
proof -
  from assms(1) obtain c :: challenge_row and core db1 v where pub: "publish_challenge_tx env (pn_challenge inp) (rv_db db) = Inr (c, core)"
    and mark: "mark_challenge_review_record_published_tx (env_now env) (pn_review_record_id inp) (pn_publish_claim_id inp)
      (Some (ch_name c)) (add_challenge_owner_tx (ch_name c) (pn_owner inp) (db\<lparr>rv_db := core\<rparr>)) = Inr (v, db1)"
    and au: "rv_records db' = rv_records db1 \<and> rv_db db' = rv_db db1 \<and> rv_owners db' = rv_owners db1"
    unfolding publish_new_challenge_review_record_def by (clarsimp simp: result_simps) (blast dest: audit_records)
  let ?db = "add_challenge_owner_tx (ch_name c) (pn_owner inp) (db\<lparr>rv_db := core\<rparr>)"
  have core: "ch_name c = pi_challenge_name (pn_challenge inp) \<and> (\<exists>c \<in> set (challenges core). ch_name c = pi_challenge_name (pn_challenge inp)
      \<and> ch_status c = ChActive \<and> ch_spec_json c = SpecValid (pi_spec (pn_challenge inp)))"
    using published_contract [OF pub] .
  have "pk_ok rr_id (rv_records ?db)" using assms(2) by (simp add: add_challenge_owner_tx_def)
  moreover have "rv_db ?db = core" "(ch_name c, pn_owner inp) \<in> set (rv_owners ?db)" by (simp_all add: add_challenge_owner_tx_def)
  ultimately show ?thesis using mark_published_lookup [OF mark] au core by simp
qed

lemma publish_archive_lookup:
  assumes "publish_archive_challenge_review_record env inp db = Inr (u, db')" "pk_ok rr_id (rv_records db)"
  shows "(\<exists>r. record_by_id (px_review_record_id inp) (rv_records db') = Some r \<and> rr_status r = RPublished
      \<and> rr_published_challenge r = Some (px_challenge_name inp))
    \<and> (\<exists>c \<in> set (challenges (rv_db db')). ch_name c = px_challenge_name inp \<and> ch_status c = ChArchived)
    \<and> (px_challenge_name inp, px_owner inp) \<in> set (rv_owners db')"
proof -
  from assms(1) obtain n db1 db2 v where name: "resolve_active_challenge_name_by_name_tx (px_challenge_name inp) db = Inr n"
    and own: "(n, px_owner inp) \<in> set (rv_owners db)" and ar: "archive_challenge_tx n db = Inr (v, db1)"
    and mark: "mark_challenge_review_record_published_tx (env_now env) (px_review_record_id inp) (px_publish_claim_id inp) (Some n) db1 = Inr ((), db2)"
    and au: "rv_records db' = rv_records db2 \<and> rv_db db' = rv_db db2 \<and> rv_owners db' = rv_owners db2"
    unfolding publish_archive_challenge_review_record_def ensure_human_owns_challenge_tx_def
    by (clarsimp simp: result_simps) (blast dest: audit_records)
  have same: "rv_records db1 = rv_records db" "rv_owners db1 = rv_owners db"
    using ar by (auto simp: archive_challenge_tx_def split: prod.splits sum.splits)
  from name obtain c where c: "c \<in> set (challenges (rv_db db))" "ch_name c = n" and n: "n = px_challenge_name inp"
    by (auto simp: resolve_active_challenge_name_by_name_tx_def result_simps dest!: sql_first_Some)
  have "challenges (rv_db db1) = sql_update (\<lambda>r. ch_name r = n) (\<lambda>r. r\<lparr>ch_status := ChArchived\<rparr>) (challenges (rv_db db))"
    using ar by (auto simp: archive_challenge_tx_def archive_challenge_def Let_def split: prod.splits sum.splits if_splits)
  then have "c\<lparr>ch_status := ChArchived\<rparr> \<in> set (challenges (rv_db db1))" using c by (auto simp: in_sql_update)
  then have "\<exists>c \<in> set (challenges (rv_db db1)). ch_name c = n \<and> ch_status c = ChArchived"
    using c(2) by (intro bexI [where x = "c\<lparr>ch_status := ChArchived\<rparr>"]) simp_all
  then show ?thesis using mark_published_lookup [OF mark] assms(2) same own au n by simp
qed

lemma publish_claimed_error:
  "publish_claimed_challenge_review_record io env admin r assets c eid path db = (Inl e, db') \<Longrightarrow> db' = db"
  by (auto simp: publish_claimed_challenge_review_record_def prepare_and_publish_new_challenge_review_record_def Let_def
      transact_err split: sum.splits option.splits if_splits creation_request_kind.splits)

text \<open>What a publication leaves behind: the new challenge with the assembled contract, or the archived one.\<close>

definition published_as :: "review_io \<Rightarrow> string \<Rightarrow> review_record_row \<Rightarrow> private_asset_row list \<Rightarrow> creation_manifest \<Rightarrow> review_db \<Rightarrow> bool" where
  "published_as io path r assets m db' =
     ((cm_challenge_name m, rr_creator r) \<in> set (rv_owners db')
      \<and> (\<exists>c \<in> set (challenges (rv_db db')). ch_name c = cm_challenge_name m
           \<and> (case cm_request m of
                NewChallenge \<Rightarrow> ch_status c = ChActive
                  \<and> (\<exists>spec. io_assemble io (path_join path (rr_challenge_path r)) m assets = Inr spec \<and> ch_spec_json c = SpecValid spec)
              | ArchiveChallenge \<Rightarrow> ch_status c = ChArchived)))"

lemma publish_claimed_ok:
  assumes "publish_claimed_challenge_review_record io env admin r assets c eid path db = (Inr u, db')" "pk_ok rr_id (rv_records db)"
  shows "\<exists>m d q. validate_review_record_repository io r assets path = Inr (m, d) \<and> rr_approved_bundle_sha256 r = Some d
    \<and> record_by_id (rr_id r) (rv_records db') = Some q \<and> rr_status q = RPublished
    \<and> rr_published_challenge q = Some (cm_challenge_name m) \<and> published_as io path r assets m db'"
proof -
  from assms(1) obtain m d where v: "validate_review_record_repository io r assets path = Inr (m, d)" "rr_approved_bundle_sha256 r = Some d"
    by (auto simp: publish_claimed_challenge_review_record_def split: sum.splits option.splits if_splits)
  have "\<exists>q. record_by_id (rr_id r) (rv_records db') = Some q \<and> rr_status q = RPublished
      \<and> rr_published_challenge q = Some (cm_challenge_name m) \<and> published_as io path r assets m db'"
  proof (cases "cm_request m")
    case NewChallenge
    with assms(1) v obtain spec k1 k2 k3 where spec: "io_assemble io (path_join path (rr_challenge_path r)) m assets = Inr spec"
      and pub: "publish_new_challenge_review_record env (publish_new_input_of admin r c eid path m d spec k1 k2 k3) db = Inr (u, db')"
      by (auto simp: publish_claimed_challenge_review_record_def prepare_and_publish_new_challenge_review_record_def Let_def
          transact_ok result_simps split: sum.splits)
    from publish_new_lookup [OF pub assms(2)] spec NewChallenge show ?thesis
      by (auto simp: publish_new_input_of_def published_as_def)
  next
    case ArchiveChallenge
    with assms(1) v obtain inp where pub: "publish_archive_challenge_review_record env inp db = Inr (u, db')"
      and inp: "px_review_record_id inp = rr_id r" "px_challenge_name inp = cm_challenge_name m" "px_owner inp = rr_creator r"
      by (auto simp: publish_claimed_challenge_review_record_def transact_ok)
    from publish_archive_lookup [OF pub assms(2)] inp ArchiveChallenge show ?thesis
      by (auto simp: published_as_def)
  qed
  with v show ?thesis by blast
qed

text \<open>Two rows of the same request and the same approval: what the check of a checkout reads of a row.\<close>

definition same_request :: "review_record_row \<Rightarrow> review_record_row \<Rightarrow> bool" where
  "same_request a b \<longleftrightarrow> rr_id a = rr_id b \<and> rr_creator a = rr_creator b \<and> rr_commit_sha a = rr_commit_sha b
     \<and> rr_challenge_path a = rr_challenge_path b \<and> rr_manifest_sha256 a = rr_manifest_sha256 b
     \<and> rr_challenge_name a = rr_challenge_name b \<and> rr_approved_bundle_sha256 a = rr_approved_bundle_sha256 b"

lemma same_request_check:
  assumes "same_request a b"
  shows "validate_review_record_repository io a assets path = validate_review_record_repository io b assets path"
    "published_as io path a assets m db = published_as io path b assets m db"
  using assms by (simp_all add: same_request_def validate_review_record_repository_def published_as_def split: creation_request_kind.splits)

lemma claim_facts:
  assumes "claim_challenge_review_record_for_publish now rid timeout c db = Inr (claim, db1)" "pk_ok rr_id (rv_records db)"
  shows "pk_ok rr_id (rv_records db1) \<and> challenges (rv_db db1) = challenges (rv_db db) \<and> rv_owners db1 = rv_owners db \<and> rv_assets db1 = rv_assets db
    \<and> (\<exists>r r0. record_by_id rid (rv_records db) = Some r0 \<and> same_request r r0 \<and> record_by_id rid (rv_records db1) = Some r \<and> rr_id r = rid
        \<and> (rr_status r = RPublished \<and> claim = None \<and> map_option rr_status (record_by_id rid (rv_records db)) = Some RPublished
           \<or> rr_status r = RPublishing \<and> claim = Some c \<and> rr_publish_claim r = Some c))"
proof -
  define dbr where "dbr = reset_stale_publishing_review_record_tx now rid timeout
    (lock_quota_scope (''challenge-review-record:'' @ rid @ '':publish'') db)"
  note run = assms(1) [unfolded claim_challenge_review_record_for_publish_def Let_def, folded dbr_def]
  have pk: "pk_ok rr_id (rv_records db1)" using simulated_claim [OF assms(1)] assms(2) by (simp add: simulated_def)
  have dbr: "challenges (rv_db dbr) = challenges (rv_db db)" "rv_owners dbr = rv_owners db" "rv_assets dbr = rv_assets db"
    by (simp_all add: dbr_def reset_stale_publishing_review_record_tx_def update_records_def lock_quota_scope_def lock_scope_def)
  obtain q where q: "record_by_id rid (rv_records dbr) = Some q" using run by (auto split: option.splits)
  then have qid: "rr_id q = rid" using record_tbl.lookup_Some_in by blast
  from q obtain r0 where r0: "record_by_id rid (rv_records db) = Some r0" "same_request q r0"
    by (auto simp: dbr_def reset_stale_publishing_review_record_tx_def update_records_def lock_quota_scope_def
        record_tbl.lookup_update same_request_def split: if_splits)
  consider (published) "rr_status q = RPublished" "claim = None" "db1 = dbr"
    | (approved) "rr_status q = RApproved" "claim = Some c" "rr_active_validation q = None"
        "db1 = update_records (\<lambda>q. rr_id q = rid \<and> rr_status q = RApproved \<and> rr_active_validation q = None)
          (\<lambda>q. q\<lparr>rr_status := RPublishing, rr_publish_claim := Some c, rr_updated_at := now\<rparr>) dbr"
  proof (cases "rr_status q = RPublished")
    case False
    with run q have ap: "rr_status q = RApproved" "claim = Some c" and up: "update_or_conflict
        (\<lambda>q. rr_id q = rid \<and> rr_status q = RApproved \<and> rr_active_validation q = None)
        (\<lambda>q. q\<lparr>rr_status := RPublishing, rr_publish_claim := Some c, rr_updated_at := now\<rparr>) dbr = Inr ((), db1)"
      by (auto simp: result_simps split: review_status.splits if_splits)
    from up obtain q' where q': "q' \<in> set (rv_records dbr)" "rr_id q' = rid" "rr_active_validation q' = None"
      by (auto simp: update_or_conflict_ok sql_count_def filter_empty_conv)
    have "pk_ok rr_id (rv_records dbr)"
      using simulated_trans [OF simulated_lock simulated_reset, of db] assms(2) unfolding dbr_def simulated_def by blast
    with q' q record_tbl.lookup_in have "q' = q" by fastforce
    with ap up q' that(2) show ?thesis by (auto simp: update_or_conflict_ok)
  qed (use run q that(1) in auto)
  then show ?thesis
  proof cases
    case published
    have "map_option rr_status (record_by_id rid (rv_records db)) = Some RPublished"
      using q published(1)
      by (auto simp: dbr_def reset_stale_publishing_review_record_tx_def update_records_def lock_quota_scope_def
          record_tbl.lookup_update split: if_splits)
    with published pk dbr q qid r0 show ?thesis by auto
  next
    case approved
    with pk dbr q qid r0 show ?thesis by (auto simp: update_records_def record_tbl.lookup_update same_request_def)
  qed
qed

text \<open>A creator and a checkout that passes: the approved record is published.\<close>

definition rx_creator_db :: review_db where
  "rx_creator_db = rx_db4\<lparr>rv_roles := [\<lparr>hr_human = ''h'', hr_role = ''creator'', hr_revoked_at = None\<rparr>]\<rparr>"

definition rx_checkout_io :: "challenge_bundle_spec \<Rightarrow> review_io" where
  "rx_checkout_io spec = rx_io\<lparr>io_git := (\<lambda>_ args. Inr (if args = [''rev-parse'', ''--verify'', ''HEAD''] then ''c'' else [])),
     io_assemble := (\<lambda>_ _ _. Inr spec)\<rparr>"

definition rx_env :: env where
  "rx_env = \<lparr>env_now = 50, env_utc_now = 50, env_parse_rfc3339 = (\<lambda>_. Inr 0), env_hex_decodes = (\<lambda>_. True)\<rparr>"

definition rx_publish :: "challenge_bundle_spec \<Rightarrow> review_record_row result \<times> review_db" where
  "rx_publish spec = publish_challenge_review_record rx_config (rx_checkout_io spec) id 40 rx_env 60 rx_admin ''r'' ''w'' ''q'' ''e4'' rx_creator_db"

lemma rx_published: "\<exists>r. fst (rx_publish spec) = Inr r"
proof -
  have claimed: "claim_challenge_review_record_for_publish 40 ''r'' 15 ''q'' rx_creator_db = Inr (Some ''q'', rx_db5\<lparr>rv_roles := rv_roles rx_creator_db\<rparr>)"
    by (simp add: claim_challenge_review_record_for_publish_def Let_def reset_stale_publishing_review_record_tx_def rx_rows rx_states
      rx_row5_def rx_db5_def rx_creator_db_def lock_quota_scope_def lock_scope_def rx_sql)
  have rec5: "record_by_id ''r'' (rv_records rx_db5) = Some rx_row5" "rr_status rx_row5 = RPublishing"
      "rr_approved_bundle_sha256 rx_row5 = Some ''d''" "rr_creator rx_row5 = ''h''" "rr_id rx_row5 = ''r''"
    by (simp_all add: rx_states rx_db5_def rx_row5_def record_by_id_def sql_first_def rx_rows)
  have trims: "trim ''c'' = ''c''" "trim [] = []" by (rule trim_printable, simp add: byte_of_def)+
  have checked: "validate_review_record_repository (rx_checkout_io spec) rx_row5 assets path = Inr (sample_manifest, ''d'')" for assets path
    by (simp add: validate_review_record_repository_def ensure_repository_checkout_matches_commit_def rx_checkout_io_def rx_io_def
        rx_row5_def rx_rows sample_manifest_def guard_err_def trims)
  have keys: "\<exists>a. challenge_bundle_storage_key ''challenge-bundles'' ''sample-sum'' ''r'' ''q'' = Inr a"
     "\<exists>a. challenge_bundle_storage_key ''challenge-public-bundles'' ''sample-sum'' ''r'' ''q'' = Inr a"
     "\<exists>a. challenge_statement_key ''sample-sum'' ''r'' ''q'' = Inr a"
    by (simp_all add: challenge_bundle_storage_key_def challenge_statement_key_def storage_key_try_new_def validate_storage_key_eq
        storage_key_pattern_def name_token_char_def is_ascii_alphanumeric_def is_ascii_digit_def is_ascii_lowercase_def is_ascii_uppercase_def in_range_def byte_of_def)
  then obtain k1 k2 k3 where keys: "challenge_bundle_storage_key ''challenge-bundles'' ''sample-sum'' ''r'' ''q'' = Inr k1"
     "challenge_bundle_storage_key ''challenge-public-bundles'' ''sample-sum'' ''r'' ''q'' = Inr k2"
     "challenge_statement_key ''sample-sum'' ''r'' ''q'' = Inr k3" by blast
  let ?db = "rx_db5\<lparr>rv_roles := rv_roles rx_creator_db\<rparr>"
  have io: "io_existing_dir (rx_checkout_io spec) p = Inr p" "io_assemble (rx_checkout_io spec) q m x = Inr spec" "io_store (rx_checkout_io spec) a b c = Inr ()"
      "cm_request sample_manifest = NewChallenge" "cm_challenge_name sample_manifest = ''sample-sum''" for p q m x a b c
    by (simp_all add: rx_checkout_io_def rx_io_def sample_manifest_def)
  have tx: "\<exists>x. publish_new_challenge_review_record rx_env (publish_new_input_of rx_admin rx_row5 ''q'' ''e4'' ''w'' sample_manifest ''d'' spec k1 k2 k3) ?db
      = Inr ((), x)"
    by (simp add: publish_new_challenge_review_record_def publish_new_input_of_def ensure_creator_eligible_for_publish_tx_def rec5 rx_creator_db_def
        rx_states rx_db5_def rx_row5_def rx_rows rx_sql guard_err_def publish_challenge_tx_def parse_required_time_def parse_optional_time_def rx_env_def
        mark_challenge_review_record_published_tx_def add_challenge_owner_tx_def create_challenge_review_audit_event_tx_def rx_admin_def rx_event_def
        rx_approval_event_def published_event_def published_row_def sample_manifest_def challenge_by_name_def split: option.split)
  have published: "\<exists>x. publish_claimed_challenge_review_record (rx_checkout_io spec) rx_env rx_admin rx_row5 assets ''q'' ''e4'' ''w'' ?db = (Inr (), x)" for assets
    using tx by (auto simp: publish_claimed_challenge_review_record_def checked rec5 io
        prepare_and_publish_new_challenge_review_record_def Let_def keys transact_ok)
  have pk: "pk_ok rr_id (rv_records ?db)" by (simp add: rx_states rx_db5_def pk_ok_def)
  obtain x where x: "publish_claimed_challenge_review_record (rx_checkout_io spec) rx_env rx_admin rx_row5 (active_assets ''r'' ?db) ''q'' ''e4'' ''w'' ?db = (Inr (), x)"
    using published by blast
  from publish_claimed_ok [OF this pk] rec5 obtain q where q: "record_by_id ''r'' (rv_records x) = Some q" by auto
  have row: "record_by_id ''r'' (rv_records ?db) = Some rx_row5" using rec5 by simp
  show ?thesis
    by (simp add: rx_publish_def publish_challenge_review_record_def claimed rx_config_def transact_def io x q row rec5 del: select_convs)
qed

text \<open>
  C18. A request to publish is all or nothing, whatever other requests do between its transactions. On
  success the record is published, and unless it was published before, the checkout that the request names
  passed the check of the record as the request found it (its commit, manifest and active assets), the digest of
  that checkout is the digest that was approved, and what is published is what was checked: a new challenge of the
  manifest's name with the contract assembled from that checkout, owned by the creator, or the archived challenge.
  On an error this request has changed neither challenges nor owners,
  and it holds no publishing claim any more, so that a reviewer can try again.
\<close>

theorem publishing_is_all_or_nothing:
  assumes run: "publish_challenge_review_record cfg io other now1 env now3 admin rid p c eid db = (res, db')"
    and pk: "pk_ok rr_id (rv_records db)" and other_pk: "\<And>x. pk_ok rr_id (rv_records x) \<Longrightarrow> pk_ok rr_id (rv_records (other x))"
    and fresh: "\<And>r. r \<in> set (rv_records db) \<Longrightarrow> rr_publish_claim r \<noteq> Some c"
  shows "case res of
      Inr r \<Rightarrow> record_by_id rid (rv_records db') = Some r \<and> rr_status r = RPublished
        \<and> (map_option rr_status (record_by_id rid (rv_records db)) \<noteq> Some RPublished \<longrightarrow>
            (\<exists>path r0 m d. io_existing_dir io p = Inr path \<and> record_by_id rid (rv_records db) = Some r0
              \<and> validate_review_record_repository io r0 (active_assets rid db) path = Inr (m, d)
              \<and> rr_approved_bundle_sha256 r0 = Some d \<and> rr_published_challenge r = Some (cm_challenge_name m)
              \<and> published_as io path r0 (active_assets rid db) m db'))
    | Inl e \<Rightarrow> \<not> claim_held rid c db'
        \<and> (db' = db \<or> (\<exists>db1. challenges (rv_db db1) = challenges (rv_db db) \<and> rv_owners db1 = rv_owners db
             \<and> rv_db db' = rv_db (other (other db1)) \<and> rv_owners db' = rv_owners (other (other db1))))"
proof (cases "io_existing_dir io p")
  case (Inl e)
  with run fresh show ?thesis by (auto simp: publish_challenge_review_record_def claim_held_def)
next
  case path: (Inr path)
  let ?timeout = "challenge_review_record_publish_timeout_minutes cfg"
  show ?thesis
  proof (cases "claim_challenge_review_record_for_publish now1 rid ?timeout c db")
    case (Inl e)
    with run path fresh show ?thesis by (auto simp: publish_challenge_review_record_def transact_def claim_held_def)
  next
    case (Inr cl)
    then obtain claim db1 where cl: "claim_challenge_review_record_for_publish now1 rid ?timeout c db = Inr (claim, db1)"
      by (cases cl) simp
    note facts = claim_facts [OF cl pk]
    from facts obtain r r0 where r0: "record_by_id rid (rv_records db) = Some r0" "same_request r r0" and r: "record_by_id rid (rv_records db1) = Some r" "rr_id r = rid"
      and st: "rr_status r = RPublished \<and> claim = None \<and> map_option rr_status (record_by_id rid (rv_records db)) = Some RPublished
        \<or> rr_status r = RPublishing \<and> claim = Some c \<and> rr_publish_claim r = Some c"
      by blast
    show ?thesis
    proof (cases "rr_status r = RPublished")
      case True
      with run path cl r st show ?thesis by (auto simp: publish_challenge_review_record_def transact_def)
    next
      case False
      with st have c: "claim = Some c" "rr_publish_claim r = Some c" by auto
      obtain res2 db2 where pub: "publish_claimed_challenge_review_record io env admin r (active_assets rid db1) c eid path (other db1) = (res2, db2)"
        by fastforce
      note run' = run [unfolded publish_challenge_review_record_def path sum.case transact_def cl prod.case r(1) option.case c(1)]
      have pk1: "pk_ok rr_id (rv_records (other db1))" using facts other_pk by blast
      show ?thesis
      proof (cases res2)
        case (Inr u)
        from publish_claimed_ok [OF pub [unfolded Inr] pk1] r(2) obtain m d q where v:
          "validate_review_record_repository io r (active_assets rid db1) path = Inr (m, d)" "rr_approved_bundle_sha256 r = Some d"
          and q: "record_by_id rid (rv_records db2) = Some q" "rr_status q = RPublished" "rr_published_challenge q = Some (cm_challenge_name m)"
          and as: "published_as io path r (active_assets rid db1) m db2" by auto
        have "active_assets rid db1 = active_assets rid db" using facts by (simp add: active_assets_def)
        then have "validate_review_record_repository io r0 (active_assets rid db) path = Inr (m, d)"
          "published_as io path r0 (active_assets rid db) m db2" "rr_approved_bundle_sha256 r0 = Some d"
          using v as same_request_check [OF r0(2)] r0(2) by (simp_all add: same_request_def)
        moreover from run' False pub Inr q have "res = Inr q" "db' = db2" by auto
        ultimately show ?thesis using q r0(1) path by auto
      next
        case (Inl error)
        with publish_claimed_error pub have db2: "db2 = other db1" by blast
        obtain res3 db3 where fl: "transact (fail_challenge_review_record_publish now3 rid c (io_show_error io error)) (other db2) = (res3, db3)"
          by fastforce
        note rel = fail_publish_releases [OF fl]
        from run' False pub Inl fl have "db' = db3" "\<exists>e. res = Inl e"
          by (auto simp: transact_def split: sum.splits)
        with rel db2 facts show ?thesis by auto
      qed
    qed
  qed
qed

theorem publishing_is_all_or_nothing_witness:
  "\<exists>r m d. fst (rx_publish example_spec) = Inr r \<and> rr_status r = RPublished \<and> rr_approved_bundle_sha256 rx_row3 = Some d
     \<and> validate_review_record_repository (rx_checkout_io example_spec) rx_row3 (active_assets ''r'' rx_creator_db) ''w'' = Inr (m, d)
     \<and> rr_published_challenge r = Some (cm_challenge_name m)
     \<and> published_as (rx_checkout_io example_spec) ''w'' rx_row3 (active_assets ''r'' rx_creator_db) m (snd (rx_publish example_spec))"
proof -
  let ?run = "rx_publish example_spec"
  obtain r where r: "fst ?run = Inr r" using rx_published by blast
  then have eq: "publish_challenge_review_record rx_config (rx_checkout_io example_spec) id 40 rx_env 60 rx_admin ''r'' ''w'' ''q'' ''e4'' rx_creator_db
      = (Inr r, snd ?run)" by (simp add: rx_publish_def prod_eq_iff)
  have row: "record_by_id ''r'' (rv_records rx_creator_db) = Some rx_row3" "rr_status rx_row3 = RApproved"
    using rx_record by (simp_all add: rx_creator_db_def)
  have path: "io_existing_dir (rx_checkout_io example_spec) ''w'' = Inr ''w''" by (simp add: rx_checkout_io_def rx_io_def)
  have "pk_ok rr_id (rv_records rx_creator_db)" "\<And>q. q \<in> set (rv_records rx_creator_db) \<Longrightarrow> rr_publish_claim q \<noteq> Some ''q''"
    by (simp_all add: rx_creator_db_def rx_states pk_ok_def rx_rows)
  then show ?thesis
    using publishing_is_all_or_nothing [OF eq] r row path by auto
qed

end
