(* ===== verification/Bundle_Files.thy ===== *)
theory Bundle_Files
  imports Contract_Guarantees
begin

text \<open>
  The files of a challenge bundle, \<open>crates/contracts/src/challenge_bundle.rs\<close>: run and session manifests and
  \<open>validate_challenge_bundle\<close>, which reads the contract and checks every file that it names. The file system
  and the JSON parsers are arguments. A JSON value is its text; a metadata object is the list of its keys.
\<close>

section \<open>Manifests\<close>

datatype run_interface = StdioInterface | FileSystemInterface

record run_input_file =
  rif_path :: string
  rif_source_path :: "bundle_path option"
  rif_content :: "string option"
  rif_content_json :: "string option"

record challenge_run_spec =
  run_spec_name :: run_name
  run_interface :: run_interface
  run_stdin_json :: "string option"
  run_stdin_text :: "string option"
  run_input_files :: "run_input_file list"
  run_output_files :: "string list"
  run_metadata :: "string list option"

type_synonym challenge_run_manifest = "challenge_run_spec list"

record session_manifest =
  session_name :: run_name
  session_input_files :: "run_input_file list"
  session_metadata :: "string list option"

definition max_challenge_runs_per_evaluation :: nat where
  "max_challenge_runs_per_evaluation = 100"

definition source_count :: "run_input_file \<Rightarrow> nat" where
  "source_count f = length (filter id [rif_source_path f \<noteq> None, rif_content f \<noteq> None, rif_content_json f \<noteq> None])"

definition validate_run_input_file :: "run_input_file \<Rightarrow> unit result" where
  "validate_run_input_file f =
     and_then (guard_err (source_count f > 1)
       (ValidationErr ''runs[].input_files[] must declare only one of source_path, content, or content_json'')) (\<lambda>_.
     guard_err (source_count f = 0)
       (ValidationErr ''runs[].input_files[] must declare source_path, content, or content_json''))"

fun validate_input_files :: "string \<Rightarrow> string set \<Rightarrow> run_input_file list \<Rightarrow> unit result" where
  "validate_input_files label seen [] = Inr ()"
| "validate_input_files label seen (f # fs) =
     and_then (validate_run_input_file f) (\<lambda>_.
     and_then (guard_err (rif_path f \<in> seen) (ValidationErr (label @ '' contains duplicate path `'' @ rif_path f @ ''`''))) (\<lambda>_.
     validate_input_files label (insert (rif_path f) seen) fs))"

definition reserved_run_fields :: "string list" where
  "reserved_run_fields = [''run_name'', ''interface'', ''stdin_json'', ''stdin_text'', ''input_files'', ''output_files'', ''metadata'']"

definition validate_challenge_run :: "challenge_run_spec \<Rightarrow> unit result" where
  "validate_challenge_run r =
     and_then (guard_err (run_spec_name r = ''agentics-runs.json'')
       (ValidationErr ''runs[].run_name `agentics-runs.json` is reserved for runner metadata'')) (\<lambda>_.
     and_then (guard_err (run_stdin_json r \<noteq> None \<and> run_stdin_text r \<noteq> None)
       (ValidationErr ''runs[].stdin_json and runs[].stdin_text cannot both be present'')) (\<lambda>_.
     and_then (validate_input_files ''runs[].input_files'' {} (run_input_files r)) (\<lambda>_.
     and_then (reject_duplicates id (\<lambda>p. ValidationErr (''runs[].output_files contains duplicate path `'' @ p @ ''`'')) {} (run_output_files r)) (\<lambda>_.
     (case run_metadata r of
        None \<Rightarrow> Inr ()
      | Some keys \<Rightarrow> try_each (\<lambda>k. guard_err (k \<in> set reserved_run_fields)
          (ValidationErr (''runs[].metadata must not use reserved run field `'' @ k @ ''`''))) keys)))))"

fun validate_runs :: "run_name set \<Rightarrow> challenge_run_spec list \<Rightarrow> unit result" where
  "validate_runs seen [] = Inr ()"
| "validate_runs seen (r # rs) =
     and_then (validate_challenge_run r) (\<lambda>_.
     and_then (guard_err (run_spec_name r \<in> seen)
       (ValidationErr (''run manifest contains duplicate run_name `'' @ run_spec_name r @ ''`''))) (\<lambda>_.
     validate_runs (insert (run_spec_name r) seen) rs))"

definition validate_challenge_run_manifest :: "challenge_run_manifest \<Rightarrow> unit result" where
  "validate_challenge_run_manifest runs =
     and_then (guard_err (runs = []) (ValidationErr ''run manifest must declare at least one run'')) (\<lambda>_.
     and_then (guard_err (length runs > max_challenge_runs_per_evaluation) (ValidationErr ''run manifest must declare at most 100 runs'')) (\<lambda>_.
     validate_runs {} runs))"

definition validate_piped_stdio_session_manifest :: "session_manifest \<Rightarrow> unit result" where
  "validate_piped_stdio_session_manifest m = validate_input_files ''session.input_files'' {} (session_input_files m)"

section \<open>Files\<close>

datatype link_kind = Symlink | NoSymlink path_kind

record bundle_view =
  bv_metadata :: "string \<Rightarrow> path_kind option"
  bv_symlink_metadata :: "string \<Rightarrow> link_kind option"
  bv_read_to_string :: "string \<Rightarrow> string result"
  bv_parse_spec :: "string \<Rightarrow> string + challenge_bundle_spec"
  bv_parse_runs :: "string \<Rightarrow> string + challenge_run_manifest"
  bv_parse_session :: "string \<Rightarrow> string + session_manifest"

definition read_json :: "bundle_view \<Rightarrow> (string \<Rightarrow> string + 'a) \<Rightarrow> string \<Rightarrow> string \<Rightarrow> 'a result" where
  "read_json bv parse path label =
     and_then (bv_read_to_string bv path) (\<lambda>raw.
     (case parse raw of
        Inl e \<Rightarrow> Inl (service_error_of_validation (InvalidManifest (label @ '': '' @ e)))
      | Inr x \<Rightarrow> Inr x))"

definition read_challenge_bundle_spec :: "contract_env \<Rightarrow> bundle_view \<Rightarrow> string \<Rightarrow> challenge_bundle_spec result" where
  "read_challenge_bundle_spec ce bv dir =
     and_then (read_json bv (bv_parse_spec bv) (path_join dir ''spec.json'') ''spec.json'') (\<lambda>spec.
     and_then (validate_challenge_bundle_spec ce spec) (\<lambda>_. Inr spec))"

definition read_challenge_run_manifest_file :: "bundle_view \<Rightarrow> string \<Rightarrow> string \<Rightarrow> challenge_run_manifest result" where
  "read_challenge_run_manifest_file bv path label =
     and_then (read_json bv (bv_parse_runs bv) path label) (\<lambda>m.
     and_then (validate_challenge_run_manifest m) (\<lambda>_. Inr m))"

definition read_challenge_run_manifest :: "bundle_view \<Rightarrow> string \<Rightarrow> bundle_path \<Rightarrow> challenge_run_manifest result" where
  "read_challenge_run_manifest bv dir p =
     read_challenge_run_manifest_file bv (path_join dir (path_str p)) (''run manifest '' @ path_str p)"

definition read_piped_stdio_session_manifest_file :: "bundle_view \<Rightarrow> string \<Rightarrow> string \<Rightarrow> session_manifest result" where
  "read_piped_stdio_session_manifest_file bv path label =
     and_then (read_json bv (bv_parse_session bv) path (''invalid '' @ label)) (\<lambda>m.
     and_then (validate_piped_stdio_session_manifest m) (\<lambda>_. Inr m))"

definition read_piped_stdio_session_manifest :: "bundle_view \<Rightarrow> string \<Rightarrow> bundle_path \<Rightarrow> session_manifest result" where
  "read_piped_stdio_session_manifest bv dir p =
     read_piped_stdio_session_manifest_file bv (path_join dir (path_str p)) (''session manifest '' @ path_str p)"

definition assert_path_type :: "bundle_view \<Rightarrow> string \<Rightarrow> path_kind \<Rightarrow> string \<Rightarrow> unit result" where
  "assert_path_type bv path kind label =
     and_then (ok_or (ValidationErr (label @ '' does not exist: '' @ path)) (bv_metadata bv path)) (\<lambda>k.
     and_then (guard_err (kind = KindFile \<and> k \<noteq> KindFile) (ValidationErr (label @ '' is not a file: '' @ path))) (\<lambda>_.
     guard_err (kind = KindDir \<and> k \<noteq> KindDir) (ValidationErr (label @ '' is not a directory: '' @ path))))"

definition validate_source_path :: "bundle_view \<Rightarrow> string \<Rightarrow> string \<Rightarrow> run_input_file \<Rightarrow> unit result" where
  "validate_source_path bv dir label f =
     (case rif_source_path f of
        None \<Rightarrow> Inr ()
      | Some p \<Rightarrow>
          (let full = path_join dir (path_str p)
           in and_then (ok_or (ValidationErr (label @ '' does not exist: '' @ full)) (bv_symlink_metadata bv full)) (\<lambda>k.
              and_then (guard_err (k = Symlink) (ValidationErr (label @ '' must not be a symlink: '' @ full))) (\<lambda>_.
              guard_err (k \<noteq> NoSymlink KindFile) (ValidationErr (label @ '' is not a file: '' @ full))))))"

definition validate_challenge_run_manifest_sources :: "bundle_view \<Rightarrow> string \<Rightarrow> challenge_run_manifest \<Rightarrow> unit result" where
  "validate_challenge_run_manifest_sources bv dir runs =
     try_each (\<lambda>r. try_each (validate_source_path bv dir ''runs[].input_files[].source_path'') (run_input_files r)) runs"

definition validate_piped_stdio_session_manifest_sources :: "bundle_view \<Rightarrow> string \<Rightarrow> session_manifest \<Rightarrow> unit result" where
  "validate_piped_stdio_session_manifest_sources bv dir m =
     try_each (validate_source_path bv dir ''session.input_files[].source_path'') (session_input_files m)"

definition validate_static_run_manifest :: "bundle_view \<Rightarrow> string \<Rightarrow> bundle_path \<Rightarrow> string \<Rightarrow> unit result" where
  "validate_static_run_manifest bv dir p label =
     and_then (assert_path_type bv (path_join dir (path_str p)) KindFile (label @ '' run manifest'')) (\<lambda>_.
     and_then (read_challenge_run_manifest bv dir p) (\<lambda>m.
     validate_challenge_run_manifest_sources bv dir m))"

definition validate_static_session_manifest :: "bundle_view \<Rightarrow> string \<Rightarrow> bundle_path \<Rightarrow> string \<Rightarrow> unit result" where
  "validate_static_session_manifest bv dir p label =
     and_then (assert_path_type bv (path_join dir (path_str p)) KindFile (label @ '' session manifest'')) (\<lambda>_.
     and_then (read_piped_stdio_session_manifest bv dir p) (\<lambda>m.
     validate_piped_stdio_session_manifest_sources bv dir m))"

definition validate_declared_execution_inputs :: "bundle_view \<Rightarrow> string \<Rightarrow> challenge_bundle_spec \<Rightarrow> unit result" where
  "validate_declared_execution_inputs bv dir spec =
     (let when_some = (\<lambda>b v check. if b then (case v of None \<Rightarrow> Inr () | Some p \<Rightarrow> check p) else Inr ())
      in case execution spec of
        SeparatedEvaluator x \<Rightarrow>
          and_then (when_some (any_validation_enabled spec) (se_validation_runs x) (\<lambda>p. validate_static_run_manifest bv dir p ''validation'')) (\<lambda>_.
          when_some (ds_private_benchmark_enabled (datasets spec)) (se_official_runs x) (\<lambda>p. validate_static_run_manifest bv dir p ''official''))
      | PipedStdio x \<Rightarrow>
          and_then (when_some (any_validation_enabled spec) (ps_validation_session x) (\<lambda>p. validate_static_session_manifest bv dir p ''validation'')) (\<lambda>_.
          when_some (ds_private_benchmark_enabled (datasets spec)) (ps_official_session x) (\<lambda>p. validate_static_session_manifest bv dir p ''official''))
      | CoexecutedBenchmark _ \<Rightarrow> Inr ())"

definition assert_declared_script :: "bundle_view \<Rightarrow> string \<Rightarrow> string list \<Rightarrow> string \<Rightarrow> unit result" where
  "assert_declared_script bv dir command label =
     (case declared_evaluator_script command of None \<Rightarrow> Inr () | Some script \<Rightarrow> assert_path_type bv (path_join dir script) KindFile label)"

fun setup_commands :: "challenge_execution_spec \<Rightarrow> string list option \<times> string list option" where
  "setup_commands (SeparatedEvaluator x) = (map_option cs_command (se_validation_setup x), map_option cs_command (se_official_evaluation_setup x))"
| "setup_commands (PipedStdio x) = (map_option pss_command (ps_validation_setup x), map_option pss_command (ps_official_evaluation_setup x))"
| "setup_commands (CoexecutedBenchmark x) = (map_option cbs_command (cb_validation_setup x), map_option cbs_command (cb_official_evaluation_setup x))"

definition assert_declared_execution_scripts :: "bundle_view \<Rightarrow> string \<Rightarrow> challenge_bundle_spec \<Rightarrow> unit result" where
  "assert_declared_execution_scripts bv dir spec =
     (let setup = (\<lambda>c label. case c of None \<Rightarrow> Inr () | Some command \<Rightarrow> assert_declared_script bv dir command label)
      in and_then (assert_declared_script bv dir (ev_command (trusted_evaluator (execution spec)))
           (runtime_name (execution_mode (execution spec)) @ '' script'')) (\<lambda>_.
         and_then (setup (fst (setup_commands (execution spec))) ''validation setup script'') (\<lambda>_.
         setup (snd (setup_commands (execution spec))) ''official evaluation setup script'')))"

definition validate_challenge_bundle :: "contract_env \<Rightarrow> bundle_view \<Rightarrow> string \<Rightarrow> unit result" where
  "validate_challenge_bundle ce bv dir =
     and_then (read_challenge_bundle_spec ce bv dir) (\<lambda>spec.
     and_then (assert_path_type bv (path_join dir ''spec.json'') KindFile ''spec.json'') (\<lambda>_.
     and_then (assert_path_type bv (path_join dir ''statement.md'') KindFile ''statement.md'') (\<lambda>_.
     and_then (assert_declared_execution_scripts bv dir spec) (\<lambda>_.
     and_then (assert_path_type bv (path_join dir (path_str (ds_public_dir (datasets spec)))) KindDir ''public data dir'') (\<lambda>_.
     and_then (validate_declared_execution_inputs bv dir spec) (\<lambda>_.
     (if ds_private_benchmark_enabled (datasets spec)
      then (case ds_private_benchmark_dir (datasets spec) of
              None \<Rightarrow> Inr ()
            | Some p \<Rightarrow> assert_path_type bv (path_join dir (path_str p)) KindDir ''private benchmark data dir'')
      else Inr ())))))))"

section \<open>What the file checks accept\<close>

definition one_of :: "bool \<Rightarrow> bool \<Rightarrow> bool \<Rightarrow> bool" where
  "one_of a b c = (a \<and> \<not> b \<and> \<not> c \<or> \<not> a \<and> b \<and> \<not> c \<or> \<not> a \<and> \<not> b \<and> c)"

definition inputs_ok :: "run_input_file list \<Rightarrow> bool" where
  "inputs_ok fs =
     (distinct (map rif_path fs)
      \<and> (\<forall>f \<in> set fs. one_of (rif_source_path f \<noteq> None) (rif_content f \<noteq> None) (rif_content_json f \<noteq> None)))"

definition run_ok :: "challenge_run_spec \<Rightarrow> bool" where
  "run_ok r =
     (run_spec_name r \<noteq> ''agentics-runs.json'' \<and> (run_stdin_json r = None \<or> run_stdin_text r = None)
      \<and> inputs_ok (run_input_files r) \<and> distinct (run_output_files r)
      \<and> (\<forall>keys. run_metadata r = Some keys \<longrightarrow> set keys \<inter> set reserved_run_fields = {}))"

definition manifest_ok :: "challenge_run_manifest \<Rightarrow> bool" where
  "manifest_ok runs = (length runs \<in> {1..100} \<and> distinct (map run_spec_name runs) \<and> (\<forall>r \<in> set runs. run_ok r))"

definition sources_ok :: "bundle_view \<Rightarrow> string \<Rightarrow> run_input_file list \<Rightarrow> bool" where
  "sources_ok bv dir fs =
     (\<forall>f \<in> set fs. \<forall>p. rif_source_path f = Some p \<longrightarrow> bv_symlink_metadata bv (path_join dir (path_str p)) = Some (NoSymlink KindFile))"

definition parses :: "bundle_view \<Rightarrow> (string \<Rightarrow> string + 'a) \<Rightarrow> string \<Rightarrow> 'a \<Rightarrow> bool" where
  "parses bv parse path x = (\<exists>raw. bv_read_to_string bv path = Inr raw \<and> parse raw = Inr x)"

definition file_at :: "bundle_view \<Rightarrow> string \<Rightarrow> bool" where
  "file_at bv path = (bv_metadata bv path = Some KindFile)"

definition static_runs_ok :: "bundle_view \<Rightarrow> string \<Rightarrow> bundle_path \<Rightarrow> bool" where
  "static_runs_ok bv dir p =
     (let path = path_join dir (path_str p)
      in file_at bv path \<and> (\<exists>m. parses bv (bv_parse_runs bv) path m \<and> manifest_ok m \<and> (\<forall>r \<in> set m. sources_ok bv dir (run_input_files r))))"

definition static_session_ok :: "bundle_view \<Rightarrow> string \<Rightarrow> bundle_path \<Rightarrow> bool" where
  "static_session_ok bv dir p =
     (let path = path_join dir (path_str p)
      in file_at bv path \<and> (\<exists>m. parses bv (bv_parse_session bv) path m \<and> inputs_ok (session_input_files m)
            \<and> sources_ok bv dir (session_input_files m)))"

fun static_inputs_ok :: "bundle_view \<Rightarrow> string \<Rightarrow> bool \<Rightarrow> bool \<Rightarrow> challenge_execution_spec \<Rightarrow> bool" where
  "static_inputs_ok bv dir validating official (SeparatedEvaluator x) =
     ((\<forall>p. validating \<and> se_validation_runs x = Some p \<longrightarrow> static_runs_ok bv dir p)
      \<and> (\<forall>p. official \<and> se_official_runs x = Some p \<longrightarrow> static_runs_ok bv dir p))"
| "static_inputs_ok bv dir validating official (PipedStdio x) =
     ((\<forall>p. validating \<and> ps_validation_session x = Some p \<longrightarrow> static_session_ok bv dir p)
      \<and> (\<forall>p. official \<and> ps_official_session x = Some p \<longrightarrow> static_session_ok bv dir p))"
| "static_inputs_ok bv dir validating official (CoexecutedBenchmark x) = True"

definition declared_commands :: "challenge_execution_spec \<Rightarrow> string list set" where
  "declared_commands x =
     insert (ev_command (trusted_evaluator x)) {c. fst (setup_commands x) = Some c \<or> snd (setup_commands x) = Some c}"

definition bundle_files_ok :: "bundle_view \<Rightarrow> string \<Rightarrow> challenge_bundle_spec \<Rightarrow> bool" where
  "bundle_files_ok bv dir spec =
     (file_at bv (path_join dir ''spec.json'') \<and> file_at bv (path_join dir ''statement.md'')
      \<and> (\<forall>c \<in> declared_commands (execution spec). \<forall>script. declared_evaluator_script c = Some script \<longrightarrow> file_at bv (path_join dir script))
      \<and> bv_metadata bv (path_join dir (path_str (ds_public_dir (datasets spec)))) = Some KindDir
      \<and> static_inputs_ok bv dir (any_validation_enabled spec) (ds_private_benchmark_enabled (datasets spec)) (execution spec)
      \<and> (\<forall>p. ds_private_benchmark_enabled (datasets spec) \<and> ds_private_benchmark_dir (datasets spec) = Some p
           \<longrightarrow> bv_metadata bv (path_join dir (path_str p)) = Some KindDir))"

lemma input_file_accepts: "validate_run_input_file f = Inr u \<longleftrightarrow>
    one_of (rif_source_path f \<noteq> None) (rif_content f \<noteq> None) (rif_content_json f \<noteq> None)"
  by (cases "rif_source_path f"; cases "rif_content f"; cases "rif_content_json f")
    (simp_all add: validate_run_input_file_def source_count_def and_then_eq_Inr guard_err_eq_Inr one_of_def)

lemma input_files_accept:
  "validate_input_files label seen fs = Inr u \<longleftrightarrow> inputs_ok fs \<and> rif_path ` set fs \<inter> seen = {}"
  by (induction fs arbitrary: seen) (auto simp: and_then_eq_Inr guard_err_eq_Inr input_file_accepts inputs_ok_def)

lemma run_accepts: "validate_challenge_run r = Inr u \<longleftrightarrow> run_ok r"
  by (cases "run_metadata r")
    (auto simp: validate_challenge_run_def and_then_eq_Inr guard_err_eq_Inr input_files_accept reject_duplicates_ok try_each_eq_Inr run_ok_def)

lemma runs_accept: "validate_runs seen rs = Inr u \<longleftrightarrow>
    distinct (map run_spec_name rs) \<and> run_spec_name ` set rs \<inter> seen = {} \<and> (\<forall>r \<in> set rs. run_ok r)"
  by (induction rs arbitrary: seen) (auto simp: and_then_eq_Inr guard_err_eq_Inr run_accepts)

lemma run_manifest_accepts: "validate_challenge_run_manifest runs = Inr u \<longleftrightarrow> manifest_ok runs"
  by (auto simp: validate_challenge_run_manifest_def and_then_eq_Inr guard_err_eq_Inr runs_accept manifest_ok_def
      max_challenge_runs_per_evaluation_def Suc_le_eq)

lemma path_type_accepts:
  "assert_path_type bv path KindFile label = Inr u \<longleftrightarrow> file_at bv path"
  "assert_path_type bv path KindDir label = Inr u \<longleftrightarrow> bv_metadata bv path = Some KindDir"
  by (auto simp: assert_path_type_def and_then_eq_Inr guard_err_eq_Inr ok_or_eq_Inr file_at_def)

lemma sources_accept: "try_each (validate_source_path bv dir label) fs = Inr u \<longleftrightarrow> sources_ok bv dir fs"
proof -
  have "validate_source_path bv dir label f = Inr () \<longleftrightarrow>
      (\<forall>p. rif_source_path f = Some p \<longrightarrow> bv_symlink_metadata bv (path_join dir (path_str p)) = Some (NoSymlink KindFile))" for f
    by (cases "rif_source_path f") (auto simp: validate_source_path_def Let_def and_then_eq_Inr guard_err_eq_Inr ok_or_eq_Inr)
  then show ?thesis by (simp add: try_each_eq_Inr sources_ok_def)
qed

lemma read_json_accepts: "read_json bv parse path label = Inr x \<longleftrightarrow> parses bv parse path x"
proof -
  have "(case parse raw of Inl e \<Rightarrow> Inl (service_error_of_validation (InvalidManifest (label @ '': '' @ e))) | Inr y \<Rightarrow> Inr y) = Inr x
      \<longleftrightarrow> parse raw = Inr x" for raw by (cases "parse raw") simp_all
  then show ?thesis by (simp add: read_json_def and_then_eq_Inr parses_def)
qed

lemma static_runs_accept: "validate_static_run_manifest bv dir p label = Inr u \<longleftrightarrow> static_runs_ok bv dir p"
  by (auto simp: validate_static_run_manifest_def read_challenge_run_manifest_def read_challenge_run_manifest_file_def and_then_eq_Inr
      path_type_accepts read_json_accepts run_manifest_accepts validate_challenge_run_manifest_sources_def sources_accept
      try_each_eq_Inr [where f = "\<lambda>r. try_each (validate_source_path bv dir ''runs[].input_files[].source_path'') (run_input_files r)"]
      static_runs_ok_def Let_def)

lemma static_session_accepts: "validate_static_session_manifest bv dir p label = Inr u \<longleftrightarrow> static_session_ok bv dir p"
  by (auto simp: validate_static_session_manifest_def read_piped_stdio_session_manifest_def read_piped_stdio_session_manifest_file_def
      and_then_eq_Inr path_type_accepts read_json_accepts validate_piped_stdio_session_manifest_def input_files_accept
      validate_piped_stdio_session_manifest_sources_def sources_accept static_session_ok_def Let_def)

lemma inputs_accept: "validate_declared_execution_inputs bv dir spec = Inr u \<longleftrightarrow>
    static_inputs_ok bv dir (any_validation_enabled spec) (ds_private_benchmark_enabled (datasets spec)) (execution spec)"
  by (cases "execution spec")
    (auto simp: validate_declared_execution_inputs_def Let_def and_then_eq_Inr static_runs_accept static_session_accepts split: option.splits)

lemma script_accepts: "assert_declared_script bv dir c label = Inr u \<longleftrightarrow>
    (\<forall>script. declared_evaluator_script c = Some script \<longrightarrow> file_at bv (path_join dir script))"
  by (auto simp: assert_declared_script_def path_type_accepts split: option.splits)

lemma scripts_accept: "assert_declared_execution_scripts bv dir spec = Inr u \<longleftrightarrow>
    (\<forall>c \<in> declared_commands (execution spec). \<forall>script. declared_evaluator_script c = Some script \<longrightarrow> file_at bv (path_join dir script))"
  by (auto simp: assert_declared_execution_scripts_def Let_def and_then_eq_Inr script_accepts declared_commands_def optional_check_accepts)

lemma private_dir_accepts:
  "(if enabled then (case dir_opt of None \<Rightarrow> Inr () | Some p \<Rightarrow> assert_path_type bv (f p) KindDir label) else Inr ()) = Inr u
   \<longleftrightarrow> (\<forall>p. enabled \<and> dir_opt = Some p \<longrightarrow> bv_metadata bv (f p) = Some KindDir)"
  by (auto simp: path_type_accepts split: option.splits)

text \<open>
  A bundle directory passes validation exactly when its contract parses and is acceptable and every file
  that the contract names is there: the contract and the statement, every declared script, the public data
  directory, the private one when it is enabled, and, for each enabled workflow with a static manifest, that
  manifest with one to a hundred well-formed runs under distinct names, each input given exactly once and
  every source a regular file that is not a symbolic link.
\<close>

lemma bundle_accepted_iff:
  "validate_challenge_bundle ce bv dir = Inr () \<longleftrightarrow>
     (\<exists>spec. parses bv (bv_parse_spec bv) (path_join dir ''spec.json'') spec \<and> contract_ok ce spec \<and> bundle_files_ok bv dir spec)"
proof -
  have "validate_challenge_bundle ce bv dir = Inr () \<longleftrightarrow>
      (\<exists>spec. read_challenge_bundle_spec ce bv dir = Inr spec \<and> bundle_files_ok bv dir spec)"
    unfolding validate_challenge_bundle_def bundle_files_ok_def and_then_eq_Inr path_type_accepts scripts_accept inputs_accept
      private_dir_accepts by simp
  then show ?thesis
    by (auto simp: read_challenge_bundle_spec_def and_then_eq_Inr read_json_accepts validate_challenge_bundle_spec_iff)
qed

end
