(* ===== verification/Bundle_Copy.thy ===== *)
theory Bundle_Copy
  imports Archive_Envelope
begin

text \<open>
  Copies of a challenge bundle and its digest, \<open>crates/contracts/src/challenge_bundle/filesystem.rs\<close>, and the
  public-only copy that \<open>crates/services/src/maintenance.rs\<close> makes of a seeded challenge. The source is a
  directory tree that does not overlap the target; relative paths are lists of components. A directory that
  waits on the stack is its relative path with its entries.
\<close>

section \<open>File system operations\<close>

definition is_prefix :: "string list \<Rightarrow> string list \<Rightarrow> bool" where
  "is_prefix q p = (take (length q) p = q)"

definition remove_dir_all :: "string list \<Rightarrow> file_system \<Rightarrow> unit result \<times> file_system" where
  "remove_dir_all d fs =
     (case fs d of
        Some ItemDir \<Rightarrow> (Inr (), \<lambda>p. if is_prefix d p then None else fs p)
      | _ \<Rightarrow> (Inl (Io ''not a directory''), fs))"

text \<open>\<open>fs::copy\<close> creates or replaces a file.\<close>

definition copy_file :: "string \<Rightarrow> string list \<Rightarrow> file_system \<Rightarrow> unit result \<times> file_system" where
  "copy_file content p fs =
     (if fs p = Some ItemDir then (Inl (Io ''is a directory''), fs) else (Inr (), fs(p \<mapsto> ItemFile content)))"

definition io_then :: "unit result \<times> file_system \<Rightarrow> (file_system \<Rightarrow> 'a result \<times> file_system) \<Rightarrow> 'a result \<times> file_system" where
  "io_then m k = (case m of (Inl e, fs) \<Rightarrow> (Inl e, fs) | (Inr _, fs) \<Rightarrow> k fs)"

section \<open>Copying\<close>

type_synonym copy_stack = "(string list \<times> fs_entries) list"

definition symlink_error :: "string \<Rightarrow> string list \<Rightarrow> service_error" where
  "symlink_error source p = ValidationErr (''challenge bundle must not contain symlinks: '' @ path_join source (path_text p))"

fun copy_entries ::
  "string \<Rightarrow> string list \<Rightarrow> string list \<Rightarrow> fs_entries \<Rightarrow> copy_stack \<Rightarrow> file_system \<Rightarrow> copy_stack result \<times> file_system" where
  "copy_entries source dest rel [] st fs = (Inr st, fs)"
| "copy_entries source dest rel ((name, node) # es) st fs =
     (let p = rel @ [name]
      in case node of
           FsSymlink \<Rightarrow> (Inl (symlink_error source p), fs)
         | FsDir sub \<Rightarrow> io_then (create_dir_all [] (dest @ p) fs) (copy_entries source dest rel es ((p, sub) # st))
         | FsFile c \<Rightarrow>
             io_then (io_then (create_dir_all [] (butlast (dest @ p)) fs) (copy_file c (dest @ p))) (copy_entries source dest rel es st)
         | FsOther \<Rightarrow> copy_entries source dest rel es st fs)"

definition copy_stack_count :: "copy_stack \<Rightarrow> nat" where
  "copy_stack_count st = sum_list (map (\<lambda>d. Suc (entries_count (snd d))) st)"

lemma io_then_Inr: "io_then m k = (Inr x, fs') \<longleftrightarrow> (\<exists>fs1. m = (Inr (), fs1) \<and> k fs1 = (Inr x, fs'))"
  by (cases m; cases "fst m") (auto simp: io_then_def)

lemma copy_entries_count:
  "copy_entries source dest rel es st fs = (Inr st', fs') \<Longrightarrow> copy_stack_count st' \<le> copy_stack_count st + entries_count es"
proof (induction es arbitrary: st fs)
  case (Cons e es)
  obtain name node where e: "e = (name, node)" by force
  show ?case
  proof (cases node)
    case (FsDir sub)
    then obtain fs1 where "copy_entries source dest rel es ((rel @ [name], sub) # st) fs1 = (Inr st', fs')"
      using Cons.prems e by (auto simp: Let_def io_then_Inr)
    from Cons.IH [OF this] show ?thesis by (simp add: copy_stack_count_def entries_count_def e FsDir)
  next
    case (FsFile c)
    then obtain fs1 where "copy_entries source dest rel es st fs1 = (Inr st', fs')"
      using Cons.prems e by (auto simp: Let_def io_then_Inr)
    from Cons.IH [OF this] show ?thesis by (simp add: entries_count_def e FsFile)
  qed (use Cons.IH [of st fs] Cons.prems e in \<open>auto simp: entries_count_def Let_def\<close>)
qed simp

function copy_loop :: "string \<Rightarrow> string list \<Rightarrow> copy_stack \<Rightarrow> file_system \<Rightarrow> unit result \<times> file_system" where
  "copy_loop source dest [] fs = (Inr (), fs)"
| "copy_loop source dest ((rel, es) # st) fs =
     (case copy_entries source dest rel es st fs of
        (Inl e, fs1) \<Rightarrow> (Inl e, fs1)
      | (Inr st1, fs1) \<Rightarrow> copy_loop source dest st1 fs1)"
  by pat_completeness auto
termination
proof (relation "measure (\<lambda>(source, dest, st, fs). copy_stack_count st)", goal_cases)
  case (2 source dest rel es st fs r fs1 st1)
  then have "copy_entries source dest rel es st fs = (Inr st1, fs1)" by simp
  from copy_entries_count [OF this] show ?case by (simp add: copy_stack_count_def)
qed simp

text \<open>What both copies do with an existing target: \<open>None\<close> means that nothing is to be copied.\<close>

definition prepare_target :: "string \<Rightarrow> string list \<Rightarrow> bool \<Rightarrow> file_system \<Rightarrow> bool result \<times> file_system" where
  "prepare_target message dest replace_existing fs =
     (if fs dest \<noteq> None then
        (if \<not> replace_existing then
           (if fs dest = Some ItemDir then (Inr False, fs) else (Inl (ValidationErr (message @ path_text dest)), fs))
         else io_then (remove_dir_all dest fs) (\<lambda>fs1. io_then (create_dir_all [] dest fs1) (\<lambda>fs2. (Inr True, fs2))))
      else io_then (create_dir_all [] dest fs) (\<lambda>fs1. (Inr True, fs1)))"

definition copy_challenge_bundle_dir_blocking ::
  "string \<Rightarrow> fs_entries \<Rightarrow> string list \<Rightarrow> bool \<Rightarrow> file_system \<Rightarrow> unit result \<times> file_system" where
  "copy_challenge_bundle_dir_blocking source es dest replace_existing fs =
     (case prepare_target ''managed bundle target exists and is not a directory: '' dest replace_existing fs of
        (Inl e, fs1) \<Rightarrow> (Inl e, fs1)
      | (Inr False, fs1) \<Rightarrow> (Inr (), fs1)
      | (Inr True, fs1) \<Rightarrow> copy_loop source dest [([], es)] fs1)"

section \<open>Copying without one tree\<close>

definition is_path_within_tree :: "string list \<Rightarrow> string list \<Rightarrow> bool" where
  "is_path_within_tree p tree = (p = tree \<or> path_starts_with p tree)"

fun copy_entries_excluding ::
  "string \<Rightarrow> string list \<Rightarrow> string list \<Rightarrow> string list \<Rightarrow> fs_entries \<Rightarrow> copy_stack \<Rightarrow> file_system \<Rightarrow> copy_stack result \<times> file_system" where
  "copy_entries_excluding source dest excl rel [] st fs = (Inr st, fs)"
| "copy_entries_excluding source dest excl rel ((name, node) # es) st fs =
     (let p = rel @ [name]
      in if is_path_within_tree p excl then copy_entries_excluding source dest excl rel es st fs
         else case node of
           FsSymlink \<Rightarrow> (Inl (symlink_error source p), fs)
         | FsDir sub \<Rightarrow> copy_entries_excluding source dest excl rel es ((p, sub) # st) fs
         | FsFile c \<Rightarrow>
             io_then (io_then (create_dir_all [] (butlast (dest @ p)) fs) (copy_file c (dest @ p)))
               (copy_entries_excluding source dest excl rel es st)
         | FsOther \<Rightarrow> copy_entries_excluding source dest excl rel es st fs)"

lemma copy_entries_excluding_count:
  "copy_entries_excluding source dest excl rel es st fs = (Inr st', fs')
   \<Longrightarrow> copy_stack_count st' \<le> copy_stack_count st + entries_count es"
proof (induction es arbitrary: st fs)
  case (Cons e es)
  obtain name node where e: "e = (name, node)" by force
  show ?case
  proof (cases "is_path_within_tree (rel @ [name]) excl")
    case True
    then show ?thesis using Cons.IH [of st fs] Cons.prems e by (simp add: entries_count_def Let_def)
  next
    case False
    show ?thesis
    proof (cases node)
      case (FsDir sub)
      then show ?thesis using Cons.IH [of "(rel @ [name], sub) # st" fs] Cons.prems e False
        by (simp add: copy_stack_count_def entries_count_def Let_def)
    next
      case (FsFile c)
      then obtain fs1 where "copy_entries_excluding source dest excl rel es st fs1 = (Inr st', fs')"
        using Cons.prems e False by (auto simp: Let_def io_then_Inr)
      from Cons.IH [OF this] show ?thesis by (simp add: entries_count_def e FsFile)
    qed (use Cons.IH [of st fs] Cons.prems e False in \<open>auto simp: entries_count_def Let_def\<close>)
  qed
qed simp

function copy_loop_excluding :: "string \<Rightarrow> string list \<Rightarrow> string list \<Rightarrow> copy_stack \<Rightarrow> file_system \<Rightarrow> unit result \<times> file_system" where
  "copy_loop_excluding source dest excl [] fs = (Inr (), fs)"
| "copy_loop_excluding source dest excl ((rel, es) # st) fs =
     (if is_path_within_tree rel excl then copy_loop_excluding source dest excl st fs
      else (case create_dir_all [] (dest @ rel) fs of
              (Inl e, fs1) \<Rightarrow> (Inl e, fs1)
            | (Inr _, fs1) \<Rightarrow>
                (case copy_entries_excluding source dest excl rel es st fs1 of
                   (Inl e, fs2) \<Rightarrow> (Inl e, fs2)
                 | (Inr st2, fs2) \<Rightarrow> copy_loop_excluding source dest excl st2 fs2)))"
  by pat_completeness auto
termination
proof (relation "measure (\<lambda>(source, dest, excl, st, fs). copy_stack_count st)", goal_cases)
  case (3 source dest excl rel es st fs r fs1 u r2 fs2 st2)
  then have "copy_entries_excluding source dest excl rel es st fs1 = (Inr st2, fs2)" by simp
  from copy_entries_excluding_count [OF this] show ?case by (simp add: copy_stack_count_def)
qed (simp_all add: copy_stack_count_def)

text \<open>\<open>excl_absolute\<close> is \<open>Path::is_absolute\<close> of the excluded path.\<close>

definition copy_challenge_bundle_dir_excluding_blocking ::
  "string \<Rightarrow> fs_entries \<Rightarrow> string list \<Rightarrow> string list \<Rightarrow> bool \<Rightarrow> bool \<Rightarrow> file_system \<Rightarrow> unit result \<times> file_system" where
  "copy_challenge_bundle_dir_excluding_blocking source es dest excl excl_absolute replace_existing fs =
     (if excl = [] \<or> excl_absolute
      then (Inl (ValidationErr ''excluded challenge bundle path must be relative and non-empty''), fs)
      else (case prepare_target ''managed public bundle target exists and is not a directory: '' dest replace_existing fs of
              (Inl e, fs1) \<Rightarrow> (Inl e, fs1)
            | (Inr False, fs1) \<Rightarrow> (Inr (), fs1)
            | (Inr True, fs1) \<Rightarrow> copy_loop_excluding source dest excl [([], es)] fs1))"

text \<open>The directory that is archived as the public bundle of a seeded challenge: \<open>None\<close> is the bundle itself.\<close>

definition seeded_public_bundle_dir ::
  "string list result \<Rightarrow> string \<Rightarrow> fs_entries \<Rightarrow> challenge_bundle_spec \<Rightarrow> string \<Rightarrow> file_system \<Rightarrow> string list option result \<times> file_system" where
  "seeded_public_bundle_dir work_root source es spec digest fs =
     (if \<not> ds_private_benchmark_enabled (datasets spec) then (Inr None, fs)
      else (case work_root of
              Inl e \<Rightarrow> (Inl e, fs)
            | Inr r \<Rightarrow>
                (let dest = r @ [''seeded-public-bundles'', cb_challenge_name spec, digest]
                 in io_then (case ds_private_benchmark_dir (datasets spec) of
                               Some p \<Rightarrow> copy_challenge_bundle_dir_excluding_blocking source es dest p False True fs
                             | None \<Rightarrow> copy_challenge_bundle_dir_blocking source es dest True fs)
                      (\<lambda>fs1. (Inr (Some dest), fs1)))))"

section \<open>The bundle digest\<close>

fun hash_bundle_entries ::
  "(string \<Rightarrow> bool) \<Rightarrow> string \<Rightarrow> string \<Rightarrow> fs_entries \<Rightarrow> string \<times> (string \<times> fs_entries) list \<Rightarrow> (string \<times> (string \<times> fs_entries) list) result" where
  "hash_bundle_entries utf8 base rel [] s = Inr s"
| "hash_bundle_entries utf8 base rel ((name, node) # es) (h, st) =
     (let p = rel_join rel name
      in if \<not> utf8 p then Inl (ValidationErr (''bundle path must be UTF-8 for digesting: '' @ path_join base p))
         else case node of
                FsSymlink \<Rightarrow> Inl (ValidationErr (''challenge bundle must not contain symlinks: '' @ path_join base p))
              | FsDir sub \<Rightarrow> hash_bundle_entries utf8 base rel es (hash_field ''dir'' p h, (p, sub) # st)
              | FsFile c \<Rightarrow> hash_bundle_entries utf8 base rel es (hash_file c (hash_field ''file'' p h), st)
              | FsOther \<Rightarrow> hash_bundle_entries utf8 base rel es (h, st))"

lemma hash_bundle_entries_eq:
  "hash_bundle_entries utf8 base rel es s = Inr s' \<longleftrightarrow> hash_entries utf8 base rel es s = Inr s'"
proof (induction es arbitrary: s)
  case (Cons e es)
  obtain name node h st where "e = (name, node)" "s = (h, st)" by (metis surj_pair)
  then show ?case using Cons.IH by (cases node) (simp_all add: Let_def)
qed simp

function hash_bundle_loop :: "(string \<Rightarrow> bool) \<Rightarrow> string \<Rightarrow> string \<Rightarrow> (string \<times> fs_entries) list \<Rightarrow> string result" where
  "hash_bundle_loop utf8 base h [] = Inr h"
| "hash_bundle_loop utf8 base h ((rel, es) # st) =
     and_then (hash_bundle_entries utf8 base rel (sort_entries es) (h, st)) (\<lambda>s. hash_bundle_loop utf8 base (fst s) (snd s))"
  by pat_completeness auto
termination
proof (relation "measure (\<lambda>(utf8, base, h, st). stack_count st)", goal_cases)
  case (2 utf8 base h rel es st s)
  then show ?case
    using hash_entries_count [of utf8 base rel "sort_entries es" h st "fst s" "snd s"]
    by (simp add: stack_count_def case_prod_beta hash_bundle_entries_eq)
qed simp

definition challenge_bundle_tree_sha256_blocking :: "(string \<Rightarrow> string) \<Rightarrow> (string \<Rightarrow> bool) \<Rightarrow> string \<Rightarrow> fs_entries \<Rightarrow> string result" where
  "challenge_bundle_tree_sha256_blocking sha256 utf8 base es =
     and_then (hash_bundle_loop utf8 base [] [([], es)]) (\<lambda>h. Inr (sha256 h))"

section \<open>What a copy contains\<close>

text \<open>The node at a relative path; the names in a directory are distinct.\<close>

fun tree_at :: "fs_entries \<Rightarrow> string list \<Rightarrow> fs_node option" where
  "tree_at es [] = Some (FsDir es)"
| "tree_at es (n # p) = (case map_of es n of Some (FsDir sub) \<Rightarrow> tree_at sub p | Some x \<Rightarrow> if p = [] then Some x else None | None \<Rightarrow> None)"

fun distinct_names :: "fs_node \<Rightarrow> bool" where
  "distinct_names (FsDir es) = (distinct (map fst es) \<and> list_all (\<lambda>e. distinct_names (snd e)) es)"
| "distinct_names _ = True"

fun item_of :: "fs_node \<Rightarrow> fs_item option" where
  "item_of (FsFile c) = Some (ItemFile c)"
| "item_of (FsDir _) = Some ItemDir"
| "item_of _ = None"

definition copied :: "fs_entries \<Rightarrow> (string list \<Rightarrow> bool) \<Rightarrow> string list \<Rightarrow> fs_item option" where
  "copied src excluded p = (if excluded p then None else case tree_at src p of None \<Rightarrow> None | Some x \<Rightarrow> item_of x)"

lemma tree_at_append: "tree_at es (p @ q) = (case tree_at es p of Some (FsDir sub) \<Rightarrow> tree_at sub q | Some x \<Rightarrow> if q = [] then Some x else None | None \<Rightarrow> None)"
proof (induction es p rule: tree_at.induct)
  case (2 es n p)
  show ?case
  proof (cases "map_of es n")
    case (Some x)
    then show ?thesis using 2 by (cases x) (auto split: option.splits fs_node.splits)
  qed simp
qed simp

lemma tree_at_distinct: "tree_at es p = Some x \<Longrightarrow> distinct_names (FsDir es) \<Longrightarrow> distinct_names x"
proof (induction es p rule: tree_at.induct)
  case (2 es n p)
  then obtain y where y: "map_of es n = Some y" by (auto split: option.splits)
  then have "distinct_names y" using "2.prems"(2) by (auto simp: list_all_iff dest: map_of_SomeD)
  then show ?case using 2 y by (cases y) (auto split: if_splits)
qed simp

lemma tree_at_entry:
  assumes "tree_at src rel = Some (FsDir es)" and "distinct_names (FsDir src)" and "(name, node) \<in> set es"
  shows "tree_at src (rel @ [name]) = Some node"
proof -
  have "distinct (map fst es)" using tree_at_distinct [OF assms(1,2)] by simp
  then have "map_of es name = Some node" using assms(3) by simp
  then show ?thesis using assms(1) by (cases node) (simp_all add: tree_at_append)
qed

text \<open>The directory that contains an entry is a directory of the tree.\<close>

lemma tree_at_prefix: "tree_at src (p @ q) = Some x \<Longrightarrow> q \<noteq> [] \<Longrightarrow> \<exists>sub. tree_at src p = Some (FsDir sub)"
  by (auto simp: tree_at_append split: option.splits fs_node.splits if_splits)

text \<open>A copy is sound while everything in the target agrees with the tree.\<close>

definition sound_copy :: "fs_entries \<Rightarrow> (string list \<Rightarrow> bool) \<Rightarrow> string list \<Rightarrow> file_system \<Rightarrow> bool" where
  "sound_copy src excluded dest fs = (\<forall>p i. p \<noteq> [] \<longrightarrow> fs (dest @ p) = Some i \<longrightarrow> copied src excluded p = Some i)"

text \<open>Growth: nothing vanishes, and outside the target and the way to it nothing changes.\<close>

definition grows :: "string list \<Rightarrow> file_system \<Rightarrow> file_system \<Rightarrow> bool" where
  "grows dest fs fs' =
     ((\<forall>p i. p \<noteq> [] \<longrightarrow> fs (dest @ p) = Some i \<longrightarrow> fs' (dest @ p) = Some i)
      \<and> (\<forall>p. \<not> is_prefix dest p \<and> \<not> is_prefix p dest \<longrightarrow> fs' p = fs p))"

lemma grows_refl: "grows dest fs fs"
  by (simp add: grows_def)

lemma grows_trans: "grows dest fs fs1 \<Longrightarrow> grows dest fs1 fs2 \<Longrightarrow> grows dest fs fs2"
  by (simp add: grows_def)

lemma is_prefix_append [simp]: "is_prefix d (d @ p)"
  by (simp add: is_prefix_def)

lemma is_prefixE: "is_prefix q p \<Longrightarrow> \<exists>r. p = q @ r"
  unfolding is_prefix_def by (metis append_take_drop_id)

lemma create_dir_all_effect:
  "create_dir_all seen ps fs = (res, fs') \<Longrightarrow> fs' p = fs p \<or> (fs p = None \<and> fs' p = Some ItemDir \<and> (\<exists>r. p @ r = seen @ ps))"
proof (induction ps arbitrary: seen fs)
  case (Cons q ps)
  show ?case
  proof (cases "fs (seen @ [q])")
    case None
    then have run: "create_dir_all (seen @ [q]) ps (fs(seen @ [q] \<mapsto> ItemDir)) = (res, fs')" using Cons.prems by simp
    show ?thesis
    proof (cases "p = seen @ [q]")
      case True
      then show ?thesis using Cons.IH [OF run] None by auto
    next
      case False
      then show ?thesis using Cons.IH [OF run] by auto
    qed
  next
    case (Some i)
    then show ?thesis using Cons.IH [of "seen @ [q]" fs] Cons.prems by (cases i) auto
  qed
qed simp

text \<open>Exclusion is closed under going down, and the source directory itself is not excluded.\<close>

definition tree_exclusion :: "(string list \<Rightarrow> bool) \<Rightarrow> bool" where
  "tree_exclusion excluded = (\<not> excluded [] \<and> (\<forall>p q. excluded p \<longrightarrow> excluded (p @ q)))"

lemma copied_directory_prefix:
  assumes "tree_exclusion excluded" and "tree_at src (p @ r) = Some (FsDir es)" and "\<not> excluded (p @ r)"
  shows "copied src excluded p = Some ItemDir"
proof -
  have "\<not> excluded p" using assms(1,3) unfolding tree_exclusion_def by blast
  moreover obtain sub where "tree_at src p = Some (FsDir sub)"
    using tree_at_prefix [OF assms(2)] assms(2) by (cases "r = []") auto
  ultimately show ?thesis by (simp add: copied_def)
qed

lemma mkdir_sound:
  assumes ex: "tree_exclusion excluded" and run: "create_dir_all [] (dest @ rel) fs = (res, fs')"
    and dir: "tree_at src rel = Some (FsDir es)" "\<not> excluded rel" and sound: "sound_copy src excluded dest fs"
  shows "sound_copy src excluded dest fs'" and "grows dest fs fs'"
proof -
  have eff: "fs' p = fs p \<or> (fs p = None \<and> fs' p = Some ItemDir \<and> (\<exists>r. p @ r = dest @ rel))" for p
    using create_dir_all_effect [OF run, of p] by simp
  show "sound_copy src excluded dest fs'"
    unfolding sound_copy_def
  proof (intro allI impI)
    fix p i assume p: "p \<noteq> []" "fs' (dest @ p) = Some i"
    show "copied src excluded p = Some i"
    proof (cases "fs' (dest @ p) = fs (dest @ p)")
      case True
      then have "fs (dest @ p) = Some i" using p(2) by simp
      then show ?thesis using sound p(1) unfolding sound_copy_def by blast
    next
      case False
      with eff [of "dest @ p"] p obtain r where "i = ItemDir" "rel = p @ r" by auto
      then show ?thesis using copied_directory_prefix [OF ex] dir by blast
    qed
  qed
  have "fs' p = fs p" if "\<not> is_prefix dest p" "\<not> is_prefix p dest" for p
  proof -
    have "\<nexists>r. p @ r = dest @ rel" using that by (auto simp: append_eq_append_conv2)
    then show ?thesis using eff [of p] by blast
  qed
  moreover have "fs' (dest @ p) = Some i" if "fs (dest @ p) = Some i" for p i using eff [of "dest @ p"] that by auto
  ultimately show "grows dest fs fs'" by (simp add: grows_def)
qed

lemma copy_file_sound:
  assumes run: "copy_file c (dest @ p) fs = (res, fs')" and item: "copied src excluded p = Some (ItemFile c)" and p: "p \<noteq> []"
    and sound: "sound_copy src excluded dest fs"
  shows "sound_copy src excluded dest fs'" and "grows dest fs fs'" and "res = Inr () \<Longrightarrow> fs' (dest @ p) = Some (ItemFile c)"
proof -
  have fs': "fs' = fs \<or> fs' = fs(dest @ p \<mapsto> ItemFile c)" using run by (auto simp: copy_file_def split: if_splits)
  then show "sound_copy src excluded dest fs'" using sound item by (auto simp: sound_copy_def split: if_splits)
  show "grows dest fs fs'" using fs' sound item p by (auto simp: grows_def sound_copy_def)
  show "res = Inr () \<Longrightarrow> fs' (dest @ p) = Some (ItemFile c)" using run by (auto simp: copy_file_def split: if_splits)
qed

text \<open>Writing one file of a directory.\<close>

lemma write_sound:
  assumes ex: "tree_exclusion excluded"
    and run: "io_then (create_dir_all [] (butlast (dest @ rel @ [name])) fs) (copy_file c (dest @ rel @ [name])) = (res, fs')"
    and dir: "tree_at src rel = Some (FsDir es)" "\<not> excluded rel" and item: "copied src excluded (rel @ [name]) = Some (ItemFile c)"
    and sound: "sound_copy src excluded dest fs"
  shows "sound_copy src excluded dest fs' \<and> grows dest fs fs' \<and> (res = Inr () \<longrightarrow> fs' (dest @ rel @ [name]) = Some (ItemFile c))"
proof -
  obtain r fs1 where mk: "create_dir_all [] (dest @ rel) fs = (r, fs1)" by force
  note m = mkdir_sound [OF ex mk dir sound]
  have b: "butlast (dest @ rel @ [name]) = dest @ rel" by (simp add: butlast_append)
  show ?thesis
  proof (cases r)
    case (Inl e)
    then have "res = Inl e" "fs' = fs1" using run mk by (simp_all add: b io_then_def)
    then show ?thesis using m by simp
  next
    case (Inr u)
    then have "copy_file c (dest @ (rel @ [name])) fs1 = (res, fs')" using run mk by (simp add: b io_then_def)
    from copy_file_sound [OF this item _ m(1)] m(2) show ?thesis by (auto intro: grows_trans)
  qed
qed

section \<open>The copy without a tree is exact\<close>

definition valid_stack :: "fs_entries \<Rightarrow> copy_stack \<Rightarrow> bool" where
  "valid_stack src st = (\<forall>(rel, es) \<in> set st. tree_at src rel = Some (FsDir es))"

lemma copy_entries_excluding_sound:
  assumes ex: "tree_exclusion (\<lambda>p. is_path_within_tree p excl)" and dir: "tree_at src rel = Some (FsDir all)" "\<not> is_path_within_tree rel excl"
  shows "copy_entries_excluding source dest excl rel es st fs = (res, fs') \<Longrightarrow>
     \<forall>(name, node) \<in> set es. tree_at src (rel @ [name]) = Some node \<Longrightarrow> valid_stack src st \<Longrightarrow>
     sound_copy src (\<lambda>p. is_path_within_tree p excl) dest fs \<Longrightarrow>
     sound_copy src (\<lambda>p. is_path_within_tree p excl) dest fs' \<and> grows dest fs fs'
     \<and> (\<forall>st'. res = Inr st' \<longrightarrow> valid_stack src st' \<and> set st \<subseteq> set st'
          \<and> (\<forall>(name, node) \<in> set es. \<not> is_path_within_tree (rel @ [name]) excl \<longrightarrow>
               (case node of FsFile c \<Rightarrow> fs' (dest @ rel @ [name]) = Some (ItemFile c)
                | FsDir sub \<Rightarrow> (rel @ [name], sub) \<in> set st' | _ \<Rightarrow> True)))"
proof (induction es arbitrary: st fs)
  case Nil
  then have "res = Inr st" "fs' = fs" by simp_all
  then show ?case using Nil by (simp add: grows_refl)
next
  case (Cons e es)
  obtain name node where e: "e = (name, node)" by force
  let ?p = "rel @ [name]"
  have here: "tree_at src ?p = Some node" and rest: "\<forall>(name, node) \<in> set es. tree_at src (rel @ [name]) = Some node"
    using Cons.prems(2) e by auto
  show ?case
  proof (cases "is_path_within_tree ?p excl")
    case True
    then show ?thesis using Cons.IH [of st fs] Cons.prems(1,3,4) rest e by (auto simp: Let_def)
  next
    case False
    show ?thesis
    proof (cases node)
      case (FsFile c)
      let ?w = "io_then (create_dir_all [] (butlast (dest @ ?p)) fs) (copy_file c (dest @ ?p))"
      obtain r fs1 where w: "?w = (r, fs1)" by force
      have item: "copied src (\<lambda>p. is_path_within_tree p excl) ?p = Some (ItemFile c)" using here False FsFile by (simp add: copied_def)
      note one = write_sound [OF ex w dir item Cons.prems(4)]
      show ?thesis
      proof (cases r)
        case (Inl err)
        then have "res = Inl err" "fs' = fs1" using Cons.prems(1) e FsFile False w by (simp_all add: Let_def io_then_def)
        then show ?thesis using one by simp
      next
        case (Inr u)
        then have run: "copy_entries_excluding source dest excl rel es st fs1 = (res, fs')"
          using Cons.prems(1) e FsFile False w by (simp add: Let_def io_then_def)
        note IH = Cons.IH [OF run rest Cons.prems(3) conjunct1 [OF one]]
        have "fs' (dest @ ?p) = Some (ItemFile c)" using IH one Inr unfolding grows_def by auto
        then show ?thesis using IH one by (auto simp: e FsFile intro: grows_trans)
      qed
    next
      case (FsDir sub)
      then have run: "copy_entries_excluding source dest excl rel es ((?p, sub) # st) fs = (res, fs')"
        using Cons.prems(1) e False by (simp add: Let_def)
      have "valid_stack src ((?p, sub) # st)" using Cons.prems(3) here FsDir by (simp add: valid_stack_def)
      from Cons.IH [OF run rest this Cons.prems(4)] show ?thesis by (auto simp: e FsDir)
    next
      case FsSymlink
      then have "res = Inl (symlink_error source ?p)" "fs' = fs" using Cons.prems(1) e False by (simp_all add: Let_def)
      then show ?thesis using Cons.prems(4) by (simp add: grows_refl)
    next
      case FsOther
      then show ?thesis using Cons.IH [of st fs] Cons.prems(1,3,4) rest e False by (auto simp: Let_def)
    qed
  qed
qed

text \<open>What is below a directory that waits on the stack arrives in the target.\<close>

definition arrived :: "fs_entries \<Rightarrow> (string list \<Rightarrow> bool) \<Rightarrow> string list \<Rightarrow> file_system \<Rightarrow> string list \<Rightarrow> bool" where
  "arrived src excluded dest fs rel =
     (\<forall>q i. rel @ q \<noteq> [] \<longrightarrow> copied src excluded (rel @ q) = Some i \<longrightarrow> fs (dest @ rel @ q) = Some i)"

lemma arrived_step:
  assumes dir: "tree_at src rel = Some (FsDir es)" and names: "distinct_names (FsDir src)"
    and here: "rel \<noteq> [] \<Longrightarrow> fs (dest @ rel) = Some ItemDir"
    and files: "\<And>name c. (name, FsFile c) \<in> set es \<Longrightarrow> \<not> excluded (rel @ [name]) \<Longrightarrow> fs (dest @ rel @ [name]) = Some (ItemFile c)"
    and dirs: "\<And>name sub. (name, FsDir sub) \<in> set es \<Longrightarrow> \<not> excluded (rel @ [name]) \<Longrightarrow> arrived src excluded dest fs (rel @ [name])"
    and ex: "tree_exclusion excluded"
  shows "arrived src excluded dest fs rel"
  unfolding arrived_def
proof (intro allI impI)
  fix q i assume nonempty: "rel @ q \<noteq> []" and i: "copied src excluded (rel @ q) = Some i"
  show "fs (dest @ rel @ q) = Some i"
  proof (cases q)
    case Nil
    then have "i = ItemDir" using i dir by (simp add: copied_def split: if_splits)
    then show ?thesis using here nonempty Nil by simp
  next
    case (Cons n q')
    have not_ex: "\<not> excluded (rel @ q)" using i by (auto simp: copied_def split: if_splits)
    then have n_ex: "\<not> excluded (rel @ [n])"
      using ex Cons unfolding tree_exclusion_def by (metis append.assoc append_Cons append_Nil)
    obtain x where x: "tree_at src (rel @ q) = Some x" "item_of x = Some i" using i by (auto simp: copied_def split: if_splits option.splits)
    then have "tree_at es (n # q') = Some x" using dir Cons by (simp add: tree_at_append)
    then obtain node where node: "map_of es n = Some node"
      and below: "case node of FsDir sub \<Rightarrow> tree_at sub q' = Some x | _ \<Rightarrow> q' = [] \<and> x = node"
      by (auto split: option.splits fs_node.splits if_splits)
    have mem: "(n, node) \<in> set es" using node by (rule map_of_SomeD)
    show ?thesis
    proof (cases node)
      case (FsFile c)
      then show ?thesis using files [of n c] mem n_ex below x(2) Cons by simp
    next
      case (FsDir sub)
      then have "arrived src excluded dest fs (rel @ [n])" using dirs mem n_ex by blast
      moreover have "rel @ q = (rel @ [n]) @ q'" using Cons by simp
      ultimately show ?thesis using i unfolding arrived_def by (metis append.assoc append_is_Nil_conv list.distinct(1))
    qed (use below x(2) in auto)
  qed
qed

lemma copy_loop_excluding_ok:
  assumes names: "distinct_names (FsDir src)"
  shows "copy_loop_excluding source dest excl st fs = (res, fs') \<Longrightarrow> tree_exclusion (\<lambda>p. is_path_within_tree p excl) \<Longrightarrow>
     valid_stack src st \<Longrightarrow> sound_copy src (\<lambda>p. is_path_within_tree p excl) dest fs \<Longrightarrow>
     sound_copy src (\<lambda>p. is_path_within_tree p excl) dest fs' \<and> grows dest fs fs'
     \<and> (res = Inr () \<longrightarrow> (\<forall>(rel, es) \<in> set st. arrived src (\<lambda>p. is_path_within_tree p excl) dest fs' rel))"
proof (induction source dest excl st fs rule: copy_loop_excluding.induct)
  case (1 source dest excl fs)
  then show ?case by (auto simp: grows_refl)
next
  case (2 source dest excl rel es st fs)
  let ?ex = "\<lambda>p. is_path_within_tree p excl"
  note ex = "2.prems"(2)
  have dir: "tree_at src rel = Some (FsDir es)" and st: "valid_stack src st" using "2.prems"(3) by (auto simp: valid_stack_def)
  show ?case
  proof (cases "is_path_within_tree rel excl")
    case True
    have gone: "arrived src ?ex dest fs' rel"
    proof -
      have "is_path_within_tree (rel @ q) excl" for q using ex True unfolding tree_exclusion_def by blast
      then show ?thesis by (simp add: arrived_def copied_def)
    qed
    have "copy_loop_excluding source dest excl st fs = (res, fs')" using "2.prems"(1) True by simp
    then show ?thesis using "2.IH"(1) [OF True] ex st "2.prems"(4) gone by auto
  next
    case False
    obtain r fs1 where mk: "create_dir_all [] (dest @ rel) fs = (r, fs1)" by force
    note m = mkdir_sound [OF ex mk dir False "2.prems"(4)]
    show ?thesis
    proof (cases r)
      case (Inl e)
      then have "res = Inl e" "fs' = fs1" using "2.prems"(1) False mk by simp_all
      then show ?thesis using m by simp
    next
      case (Inr u)
      obtain r2 fs2 where copy: "copy_entries_excluding source dest excl rel es st fs1 = (r2, fs2)" by force
      have entries: "\<forall>(name, node) \<in> set es. tree_at src (rel @ [name]) = Some node"
        using tree_at_entry [OF dir names] by auto
      note c = copy_entries_excluding_sound [OF ex dir False copy entries st m(1)]
      show ?thesis
      proof (cases r2)
        case (Inl e)
        then have "res = Inl e" "fs' = fs2" using "2.prems"(1) False mk Inr copy by simp_all
        then show ?thesis using c m(2) by (auto intro: grows_trans)
      next
        case (Inr st2)
        note r2 = this
        have run: "copy_loop_excluding source dest excl st2 fs2 = (res, fs')" using "2.prems"(1) False mk \<open>r = Inr u\<close> copy r2 by simp
        have st2: "valid_stack src st2" "set st \<subseteq> set st2" using c r2 by auto
        have "sound_copy src ?ex dest fs' \<and> grows dest fs2 fs' \<and> (res = Inr () \<longrightarrow> (\<forall>(rel, es) \<in> set st2. arrived src ?ex dest fs' rel))"
          using "2.IH"(2) [OF False mk [symmetric] \<open>r = Inr u\<close> copy [symmetric] r2 run ex st2(1)] c by blast
        note IH = this
        have "arrived src ?ex dest fs' rel" if ok: "res = Inr ()"
        proof (rule arrived_step [OF dir names _ _ _ ex])
          show "fs' (dest @ rel) = Some ItemDir" if "rel \<noteq> []"
          proof -
            have "fs1 (dest @ rel) = Some ItemDir" using create_dir_all_result [of "[]" "dest @ rel" fs u fs1] mk \<open>r = Inr u\<close> that by simp
            then show ?thesis using c IH that unfolding grows_def by blast
          qed
          show "fs' (dest @ rel @ [name]) = Some (ItemFile d)" if "(name, FsFile d) \<in> set es" "\<not> is_path_within_tree (rel @ [name]) excl" for name d
          proof -
            have "fs2 (dest @ (rel @ [name])) = Some (ItemFile d)" using c r2 that by fastforce
            moreover have "rel @ [name] \<noteq> []" by simp
            ultimately have "fs' (dest @ (rel @ [name])) = Some (ItemFile d)" using IH unfolding grows_def by blast
            then show ?thesis by simp
          qed
          show "arrived src ?ex dest fs' (rel @ [name])" if "(name, FsDir sub) \<in> set es" "\<not> is_path_within_tree (rel @ [name]) excl" for name sub
          proof -
            have "(rel @ [name], sub) \<in> set st2" using c r2 that by fastforce
            then show ?thesis using IH ok by auto
          qed
        qed
        then show ?thesis using IH c m(2) st2(2) by (auto intro: grows_trans)
      qed
    qed
  qed
qed

text \<open>A file system in which whatever exists lies in existing directories.\<close>

definition parents_exist :: "file_system \<Rightarrow> bool" where
  "parents_exist fs = (\<forall>p q. p \<noteq> [] \<longrightarrow> q \<noteq> [] \<longrightarrow> fs (p @ q) \<noteq> None \<longrightarrow> fs p = Some ItemDir)"

definition empty_below :: "string list \<Rightarrow> file_system \<Rightarrow> bool" where
  "empty_below dest fs = (\<forall>p. p \<noteq> [] \<longrightarrow> fs (dest @ p) = None)"

lemma empty_below_sound: "empty_below dest fs \<Longrightarrow> sound_copy src excluded dest fs"
  by (simp add: empty_below_def sound_copy_def)

lemma path_starts_with_iff: "path_starts_with p t \<longleftrightarrow> (\<exists>q. p = t @ q)"
  by (induction p t rule: path_starts_with.induct) auto

lemma within_exclusion: "excl \<noteq> [] \<Longrightarrow> tree_exclusion (\<lambda>p. is_path_within_tree p excl)"
  by (auto simp: tree_exclusion_def is_path_within_tree_def path_starts_with_iff)

lemma within_iff: "is_path_within_tree p t \<longleftrightarrow> path_starts_with p t"
  by (auto simp: is_path_within_tree_def path_starts_with_iff)

lemma mkdir_dest:
  assumes "create_dir_all [] dest fs = (res, fs')"
  shows "empty_below dest fs \<Longrightarrow> empty_below dest fs'" and "\<not> is_prefix p dest \<Longrightarrow> fs' p = fs p"
proof -
  have eff: "fs' p = fs p \<or> (\<exists>r. p @ r = dest)" for p using create_dir_all_effect [OF assms, of p] by auto
  show "empty_below dest fs'" if "empty_below dest fs"
    using that eff unfolding empty_below_def by (metis append.assoc append_is_Nil_conv append_self_conv)
  show "\<not> is_prefix p dest \<Longrightarrow> fs' p = fs p" using eff [of p] by auto
qed

text \<open>After the target has been prepared for replacement it is empty, or nothing was changed.\<close>

lemma prepare_target_cases:
  assumes run: "prepare_target message dest True fs = (res, fs')" and dest: "dest \<noteq> []" and parents: "parents_exist fs"
  shows "(fs' = fs \<and> res \<noteq> Inr True \<or> empty_below dest fs') \<and> (\<forall>p. \<not> is_prefix dest p \<and> \<not> is_prefix p dest \<longrightarrow> fs' p = fs p)
    \<and> res \<noteq> Inr False"
proof (cases "fs dest")
  case None
  have empty: "empty_below dest fs" using parents dest None unfolding parents_exist_def empty_below_def by (metis option.distinct(1))
  obtain r fs1 where mk: "create_dir_all [] dest fs = (r, fs1)" by force
  have "fs' = fs1" "res \<noteq> Inr False" using run None mk by (cases r; auto simp: prepare_target_def io_then_def)+
  then show ?thesis using mkdir_dest [OF mk] empty by auto
next
  case (Some i)
  show ?thesis
  proof (cases i)
    case ItemDir
    define fs0 where "fs0 = (\<lambda>p. if is_prefix dest p then None else fs p)"
    have empty: "empty_below dest fs0" by (simp add: empty_below_def fs0_def)
    obtain r fs1 where mk: "create_dir_all [] dest fs0 = (r, fs1)" by force
    have "fs' = fs1" "res \<noteq> Inr False"
      using run Some ItemDir mk by (cases r; auto simp: prepare_target_def remove_dir_all_def io_then_def fs0_def)+
    moreover have "fs1 p = fs p" if "\<not> is_prefix dest p" "\<not> is_prefix p dest" for p
      using mkdir_dest(2) [OF mk that(2)] that by (simp add: fs0_def)
    ultimately show ?thesis using mkdir_dest(1) [OF mk empty] by auto
  next
    case (ItemFile c)
    then have "fs' = fs" "res \<noteq> Inr True" "res \<noteq> Inr False"
      using run Some by (auto simp: prepare_target_def remove_dir_all_def io_then_def)
    then show ?thesis by simp
  qed
qed

text \<open>
  C33. The public-only copy of a bundle never contains private material. Whether or not the copy succeeds,
  either nothing was changed or nothing of the excluded tree exists in the target, and nothing outside the
  target and the way to it changes. When it succeeds, the target holds exactly the directories and the
  files, with their content, of the source tree that are not in the excluded tree.
\<close>

theorem public_copy_is_exact:
  assumes run: "copy_challenge_bundle_dir_excluding_blocking source es dest private False True fs = (res, fs')"
    and wf: "parents_exist fs" "dest \<noteq> []" "distinct_names (FsDir es)"
  shows "(fs' = fs \<or> (\<forall>p. path_starts_with p private \<longrightarrow> fs' (dest @ p) = None))
    \<and> (\<forall>p. \<not> is_prefix dest p \<and> \<not> is_prefix p dest \<longrightarrow> fs' p = fs p)
    \<and> (res = Inr () \<longrightarrow> (\<forall>p. p \<noteq> [] \<longrightarrow> fs' (dest @ p) =
         (if path_starts_with p private then None else case tree_at es p of None \<Rightarrow> None | Some x \<Rightarrow> item_of x)))"
proof (cases "private = []")
  case True
  then have "fs' = fs" "res \<noteq> Inr ()" using run by (auto simp: copy_challenge_bundle_dir_excluding_blocking_def)
  then show ?thesis by simp
next
  case False
  let ?ex = "\<lambda>p. is_path_within_tree p private"
  obtain r fs1 where prep: "prepare_target ''managed public bundle target exists and is not a directory: '' dest True fs = (r, fs1)" by force
  note p = prepare_target_cases [OF prep wf(2,1)]
  have below: "p \<noteq> []" if "path_starts_with p private" for p using that False by (auto simp: path_starts_with_iff)
  show ?thesis
  proof (cases "r = Inr True")
    case False
    then have "fs' = fs1" "res \<noteq> Inr ()"
      using run prep p \<open>private \<noteq> []\<close> by (auto simp: copy_challenge_bundle_dir_excluding_blocking_def split: sum.splits bool.splits)
    then show ?thesis using p below by (auto simp: empty_below_def)
  next
    case True
    then have loop: "copy_loop_excluding source dest private [([], es)] fs1 = (res, fs')"
      using run prep \<open>private \<noteq> []\<close> by (simp add: copy_challenge_bundle_dir_excluding_blocking_def)
    have empty: "empty_below dest fs1" using p True by simp
    note ok = copy_loop_excluding_ok [OF wf(3) loop within_exclusion [OF \<open>private \<noteq> []\<close>] _ empty_below_sound [OF empty]]
    have sound: "sound_copy es ?ex dest fs'" and grow: "grows dest fs1 fs'"
      and all: "res = Inr () \<Longrightarrow> arrived es ?ex dest fs' []" using ok by (auto simp: valid_stack_def)
    have sub: "copied es ?ex q = Some i" if "q \<noteq> []" "fs' (dest @ q) = Some i" for q i
      using sound that unfolding sound_copy_def by blast
    have "fs' (dest @ q) = None" if "path_starts_with q private" for q
      using sub [of q] below [OF that] that by (cases "fs' (dest @ q)") (auto simp: copied_def within_iff)
    moreover have "fs' q = fs q" if "\<not> is_prefix dest q \<and> \<not> is_prefix q dest" for q
      using grow p that unfolding grows_def by simp
    moreover have "fs' (dest @ q) = copied es ?ex q" if "res = Inr ()" "q \<noteq> []" for q
    proof (cases "fs' (dest @ q)")
      case None
      then show ?thesis using all [OF that(1)] that(2) unfolding arrived_def by (cases "copied es ?ex q") auto
    next
      case (Some i)
      then show ?thesis using sub [OF that(2)] by simp
    qed
    ultimately show ?thesis by (simp add: copied_def within_iff)
  qed
qed

text \<open>A bundle with public data and a private benchmark.\<close>

definition example_tree :: fs_entries where
  "example_tree = [(''spec.json'', FsFile ''{}''), (''private-benchmark'', FsDir [(''runs.json'', FsFile ''secret'')]),
     (''public'', FsDir [(''runs.json'', FsFile ''[]'')])]"

theorem public_copy_is_exact_witness:
  "let run = copy_challenge_bundle_dir_excluding_blocking ''b'' example_tree [''w''] [''private-benchmark''] False True [[''w''] \<mapsto> ItemDir]
   in fst run = Inr () \<and> snd run [''w'', ''public'', ''runs.json''] = Some (ItemFile ''[]'')
     \<and> snd run [''w'', ''private-benchmark'', ''runs.json''] = None"
proof -
  let ?fs = "[[''w''] \<mapsto> ItemDir] :: file_system"
  let ?run = "copy_challenge_bundle_dir_excluding_blocking ''b'' example_tree [''w''] [''private-benchmark''] False True ?fs"
  obtain res fs' where run: "?run = (res, fs')" by force
  have "fst ?run = Inr ()"
    by (simp add: copy_challenge_bundle_dir_excluding_blocking_def prepare_target_def remove_dir_all_def io_then_def is_prefix_def
        example_tree_def is_path_within_tree_def copy_file_def Let_def)
  then have ok: "res = Inr ()" using run by simp
  have "parents_exist ?fs" by (auto simp: parents_exist_def append_eq_Cons_conv split: if_splits)
  from public_copy_is_exact [OF run this] ok
  have all: "\<forall>p. p \<noteq> [] \<longrightarrow> fs' ([''w''] @ p) =
     (if path_starts_with p [''private-benchmark''] then None else case tree_at example_tree p of None \<Rightarrow> None | Some x \<Rightarrow> item_of x)"
    by (simp add: example_tree_def)
  from all [rule_format, of "[''public'', ''runs.json'']"] all [rule_format, of "[''private-benchmark'', ''runs.json'']"]
  have "fs' [''w'', ''public'', ''runs.json''] = Some (ItemFile ''[]'')" "fs' [''w'', ''private-benchmark'', ''runs.json''] = None"
    by (simp_all add: example_tree_def)
  then show ?thesis using run ok by (simp add: Let_def)
qed

end
