(* ===== verification/Tar_Archive.thy ===== *)
theory Tar_Archive
  imports Bundle_Copy
begin

text \<open>
  Bundle archives, \<open>crates/storage/src/tar_archive.rs\<close>, with the errors and the byte caps of
  \<open>crates/storage/src/error.rs\<close> and \<open>intent.rs\<close>. An archive is what reading it yields: the list of
  its entries, a path given by its components, a type and bytes. What the builder of the \<open>tar\<close> crate writes for a
  directory and for a file, and the length of the file it writes, are arguments (\<open>tar_builder\<close>); what the crate
  documents of them is the hypothesis \<open>tar_builder_documented\<close>. File permissions and failing system calls are
  not modelled; the temporary file that packing renames is gone when packing returns, so the result is the
  content of the archive.
\<close>

section \<open>Errors and intents\<close>

datatype storage_error =
  StInvalidKey string | StSymlinkRejected string | StObjectConflict string | StObjectNotFound string
| StObjectTooLarge string nat nat | StBackend string | StInternal string | StIo string

type_synonym 'a st_result = "storage_error + 'a"

record write_intent =
  wi_label :: string
  wi_max_bytes :: nat

definition ensure_len :: "write_intent \<Rightarrow> nat \<Rightarrow> unit st_result" where
  "ensure_len i n = guard_err (n > wi_max_bytes i) (StObjectTooLarge (wi_label i) n (wi_max_bytes i))"

lemma ensure_len_ok [result_simps]: "ensure_len i n = Inr u \<longleftrightarrow> n \<le> wi_max_bytes i"
  by (simp add: ensure_len_def guard_err_eq_Inr not_less)

definition max_bundle_tar_entries :: nat where
  "max_bundle_tar_entries = 100000"

definition max_bundle_tar_depth :: nat where
  "max_bundle_tar_depth = 128"

definition too_large :: "write_intent \<Rightarrow> storage_error" where
  "too_large i = StObjectTooLarge (wi_label i) u64_max (wi_max_bytes i)"

section \<open>Packing\<close>

definition padded_tar_file_size :: "nat \<Rightarrow> nat st_result" where
  "padded_tar_file_size size_bytes =
     (let remainder = size_bytes mod 512
      in if remainder = 0 then Inr size_bytes
         else ok_or (StInternal ''bundle archive file size overflow'') (checked_add_u64 size_bytes (512 - remainder)))"

definition unsupported_entry :: "string \<Rightarrow> string list \<Rightarrow> storage_error" where
  "unsupported_entry base p = StInvalidKey (''bundle archive contains unsupported filesystem entry: '' @ path_join base (path_text p))"

text \<open>The walk before packing: entries so far, projected bytes so far, directories that wait.\<close>

fun limit_entries ::
  "string \<Rightarrow> write_intent \<Rightarrow> string list \<Rightarrow> fs_entries \<Rightarrow> nat \<times> nat \<times> copy_stack \<Rightarrow> (nat \<times> nat \<times> copy_stack) st_result" where
  "limit_entries base i rel [] s = Inr s"
| "limit_entries base i rel ((name, node) # es) (n, b, st) =
     (let p = rel @ [name]
      in and_then (guard_err (node = FsSymlink) (unsupported_entry base p)) (\<lambda>_.
         and_then (ok_or (StInternal ''bundle archive entry count overflow'') (checked_add_u64 n 1)) (\<lambda>n'.
         and_then (guard_err (n' > max_bundle_tar_entries) (StInvalidKey (wi_label i @ '' contains too many filesystem entries: ''
            @ show_nat n' @ '' > '' @ show_nat max_bundle_tar_entries))) (\<lambda>_.
         and_then (guard_err (length p > max_bundle_tar_depth) (StInvalidKey (wi_label i @ '' contains a path deeper than ''
            @ show_nat max_bundle_tar_depth @ '' components: '' @ path_text p))) (\<lambda>_.
         and_then (ok_or (too_large i) (checked_add_u64 b 4096)) (\<lambda>b1.
         and_then (case node of
             FsDir sub \<Rightarrow> Inr (b1, (p, sub) # st)
           | FsFile c \<Rightarrow>
               and_then (padded_tar_file_size (length c)) (\<lambda>bytes.
               and_then (ok_or (too_large i) (checked_add_u64 b1 bytes)) (\<lambda>b2. Inr (b2, st)))
           | _ \<Rightarrow> Inl (unsupported_entry base p)) (\<lambda>(b2, st').
         and_then (ensure_len i b2) (\<lambda>_.
         limit_entries base i rel es (n', b2, st')))))))))"

lemma limit_entries_count:
  "limit_entries base i rel es (n, b, st) = Inr (n', b', st') \<Longrightarrow> copy_stack_count st' \<le> copy_stack_count st + entries_count es"
proof (induction es arbitrary: n b st)
  case (Cons e es)
  obtain name node where e: "e = (name, node)" by force
  show ?case
  proof (cases node)
    case (FsDir sub)
    then obtain n1 b1 where "limit_entries base i rel es (n1, b1, (rel @ [name], sub) # st) = Inr (n', b', st')"
      using Cons.prems e by (auto simp: Let_def and_then_eq_Inr)
    from Cons.IH [OF this] show ?thesis by (simp add: copy_stack_count_def entries_count_def e FsDir)
  next
    case (FsFile c)
    then obtain n1 b1 where "limit_entries base i rel es (n1, b1, st) = Inr (n', b', st')"
      using Cons.prems e by (auto simp: Let_def and_then_eq_Inr)
    from Cons.IH [OF this] show ?thesis by (simp add: entries_count_def e FsFile)
  qed (use Cons.prems e in \<open>auto simp: Let_def and_then_eq_Inr guard_err_eq_Inr\<close>)
qed simp

function limit_loop :: "string \<Rightarrow> write_intent \<Rightarrow> nat \<Rightarrow> nat \<Rightarrow> copy_stack \<Rightarrow> unit st_result" where
  "limit_loop base i n b [] = Inr ()"
| "limit_loop base i n b ((rel, es) # st) =
     and_then (limit_entries base i rel (sort_entries es) (n, b, st)) (\<lambda>s. limit_loop base i (fst s) (fst (snd s)) (snd (snd s)))"
  by pat_completeness auto
termination
proof (relation "measure (\<lambda>(base, i, n, b, st). copy_stack_count st)", goal_cases)
  case (2 base i n b rel es st s)
  then show ?case
    using limit_entries_count [of base i rel "sort_entries es" n b st "fst s" "fst (snd s)" "snd (snd s)"]
    by (simp add: copy_stack_count_def case_prod_beta)
qed simp

definition validate_tar_source_limits :: "string \<Rightarrow> fs_entries \<Rightarrow> write_intent \<Rightarrow> unit st_result" where
  "validate_tar_source_limits base es i = limit_loop base i 0 1024 [([], es)]"

datatype tar_kind = TarDir | TarRegular | TarUnsupported

record tar_entry =
  te_path :: "path_component list"
  te_kind :: tar_kind
  te_content :: string

fun collect_entries :: "'a list st_result list \<Rightarrow> 'a list st_result" where
  "collect_entries [] = Inr []"
| "collect_entries (r # rs) = and_then r (\<lambda>xs. and_then (collect_entries rs) (\<lambda>ys. Inr (xs @ ys)))"

text \<open>
  The builder of the \<open>tar\<close> crate: \<open>append_dir\<close> for a directory and \<open>append_path_with_name\<close> for a file, under the
  given relative path, each with the entry that reading the archive yields for what was written; and the length
  of the finished file. A file is given by its path and its bytes.
\<close>

record tar_builder =
  tb_append_dir :: "string list \<Rightarrow> tar_entry st_result"
  tb_append_path_with_name :: "string list \<Rightarrow> string \<Rightarrow> tar_entry st_result"
  tb_encoded_len :: "tar_entry list \<Rightarrow> nat"

text \<open>
  The documented behaviour of \<open>tar\<close> 0.4: an entry keeps the name it was given; a directory becomes a directory
  entry; a file becomes a regular entry with its bytes, or, when it has holes, an entry of another type
  (\<open>GNUSparse\<close>: \<open>Builder::sparse\<close> is on unless it is switched off, which \<open>pack_directory_to_tar_blocking\<close> does not do).
\<close>

definition tar_builder_documented :: "tar_builder \<Rightarrow> bool" where
  "tar_builder_documented tb \<longleftrightarrow>
     (\<forall>p t. tb_append_dir tb p = Inr t \<longrightarrow> t = \<lparr>te_path = map NormalPart p, te_kind = TarDir, te_content = []\<rparr>)
     \<and> (\<forall>p c t. tb_append_path_with_name tb p c = Inr t \<longrightarrow>
          t = \<lparr>te_path = map NormalPart p, te_kind = TarRegular, te_content = c\<rparr> \<or> te_path t = map NormalPart p \<and> te_kind t = TarUnsupported)"

fun append_node :: "tar_builder \<Rightarrow> string \<Rightarrow> string list \<Rightarrow> fs_node \<Rightarrow> tar_entry list st_result" where
  "append_node tb base p (FsFile c) = and_then (tb_append_path_with_name tb p c) (\<lambda>t. Inr [t])"
| "append_node tb base p (FsDir es) =
     and_then (tb_append_dir tb p) (\<lambda>t.
     and_then (collect_entries (map (\<lambda>e. append_node tb base (p @ [fst e]) (snd e)) es)) (\<lambda>ts. Inr (t # ts)))"
| "append_node tb base p FsSymlink = Inl (unsupported_entry base p)"
| "append_node tb base p FsOther = Inl (unsupported_entry base p)"

definition append_bundle_dir :: "tar_builder \<Rightarrow> string \<Rightarrow> fs_entries \<Rightarrow> tar_entry list st_result" where
  "append_bundle_dir tb base es = collect_entries (map (\<lambda>e. append_node tb base [fst e] (snd e)) es)"

text \<open>\<open>taken\<close> says whether the archive path exists when the temporary file is linked to it.\<close>

definition pack_directory_to_tar_blocking ::
  "tar_builder \<Rightarrow> string \<Rightarrow> fs_entries \<Rightarrow> string \<Rightarrow> bool \<Rightarrow> write_intent \<Rightarrow> tar_entry list st_result" where
  "pack_directory_to_tar_blocking tb base es archive_path taken i =
     and_then (validate_tar_source_limits base es i) (\<lambda>_.
     and_then (append_bundle_dir tb base es) (\<lambda>ts.
     and_then (ensure_len i (tb_encoded_len tb ts)) (\<lambda>_.
     and_then (guard_err taken (StObjectConflict archive_path)) (\<lambda>_. Inr ts))))"

section \<open>Unpacking\<close>

record tar_unpack_limits =
  tl_intent :: write_intent
  tl_max_entries :: nat
  tl_max_depth :: nat

definition bundle_limits :: "write_intent \<Rightarrow> tar_unpack_limits" where
  "bundle_limits i = \<lparr>tl_intent = i, tl_max_entries = max_bundle_tar_entries, tl_max_depth = max_bundle_tar_depth\<rparr>"

fun normal_names :: "path_component list \<Rightarrow> string list option" where
  "normal_names [] = Some []"
| "normal_names (NormalPart n # cs) = map_option ((#) n) (normal_names cs)"
| "normal_names (_ # cs) = None"

text \<open>An empty path has no components, an absolute one starts with the root.\<close>

definition validate_tar_path :: "path_component list \<Rightarrow> nat \<Rightarrow> string list st_result" where
  "validate_tar_path cs max_depth =
     (if cs = [] \<or> hd cs = RootDir then Inl (StInvalidKey ''bundle archive contains unsafe path'')
      else (case normal_names cs of
              None \<Rightarrow> Inl (StInvalidKey ''bundle archive contains unsafe path'')
            | Some p \<Rightarrow>
                if length p > max_depth
                then Inl (StInvalidKey (''bundle archive contains a path deeper than '' @ show_nat max_depth @ '' components: '' @ path_text p))
                else Inr p))"

text \<open>Reads of up to 8192 bytes; the cap is checked before a chunk is written.\<close>

function copy_tar_file_with_limit :: "write_intent \<Rightarrow> string \<Rightarrow> string \<Rightarrow> nat \<Rightarrow> unit st_result \<times> string \<times> nat" where
  "copy_tar_file_with_limit i rest written done_bytes =
     (if rest = [] then (Inr (), written, done_bytes)
      else (case checked_add_u64 done_bytes (length (take 8192 rest)) of
              None \<Rightarrow> (Inl (too_large i), written, done_bytes)
            | Some total_bytes \<Rightarrow>
                (case ensure_len i total_bytes of
                   Inl e \<Rightarrow> (Inl e, written, done_bytes)
                 | Inr _ \<Rightarrow> copy_tar_file_with_limit i (drop 8192 rest) (written @ take 8192 rest) total_bytes)))"
  by pat_completeness auto
termination
  by (relation "measure (\<lambda>(i, rest, written, done_bytes). length rest)") auto

declare copy_tar_file_with_limit.simps [simp del]

definition io_result :: "unit result \<Rightarrow> unit st_result" where
  "io_result r = (case r of Inl _ \<Rightarrow> Inl (StIo ''not a directory'') | Inr u \<Rightarrow> Inr u)"

text \<open>One entry: the result, the file system and the counters.\<close>

definition unpack_entry ::
  "tar_unpack_limits \<Rightarrow> string list \<Rightarrow> tar_entry \<Rightarrow> file_system \<Rightarrow> nat \<Rightarrow> nat \<Rightarrow> unit st_result \<times> file_system \<times> nat \<times> nat" where
  "unpack_entry lims dest t fs n done_bytes =
     (case and_then (validate_tar_path (te_path t) (tl_max_depth lims)) (\<lambda>p.
           and_then (ok_or (StInternal ''bundle archive entry count overflow'') (checked_add_u64 n 1)) (\<lambda>n'.
           and_then (guard_err (n' > tl_max_entries lims) (StInvalidKey (wi_label (tl_intent lims) @ '' contains too many tar entries: ''
             @ show_nat n' @ '' > '' @ show_nat (tl_max_entries lims)))) (\<lambda>_. Inr (p, n')))) of
        Inl e \<Rightarrow> (Inl e, fs, n, done_bytes)
      | Inr (p, n') \<Rightarrow>
          (case te_kind t of
             TarDir \<Rightarrow> (case create_dir_all [] (dest @ p) fs of (r, fs1) \<Rightarrow> (io_result r, fs1, n', done_bytes))
           | TarRegular \<Rightarrow>
               (case create_dir_all [] (butlast (dest @ p)) fs of
                  (Inl e, fs1) \<Rightarrow> (io_result (Inl e), fs1, n', done_bytes)
                | (Inr _, fs1) \<Rightarrow>
                    if fs1 (dest @ p) \<noteq> None then (Inl (StIo ''file exists''), fs1, n', done_bytes)
                    else (case copy_tar_file_with_limit (tl_intent lims) (te_content t) [] done_bytes of
                            (r, written, done_bytes') \<Rightarrow> (r, fs1(dest @ p \<mapsto> ItemFile written), n', done_bytes')))
           | TarUnsupported \<Rightarrow> (Inl (StInvalidKey (''bundle archive contains unsupported tar entry: '' @ path_text p)), fs, n', done_bytes)))"

fun unpack_entries ::
  "tar_unpack_limits \<Rightarrow> string list \<Rightarrow> tar_entry list \<Rightarrow> file_system \<Rightarrow> nat \<Rightarrow> nat \<Rightarrow> unit st_result \<times> file_system" where
  "unpack_entries lims dest [] fs n done_bytes = (Inr (), fs)"
| "unpack_entries lims dest (t # ts) fs n done_bytes =
     (case unpack_entry lims dest t fs n done_bytes of
        (Inl e, fs1, _, _) \<Rightarrow> (Inl e, fs1)
      | (Inr _, fs1, n1, done1) \<Rightarrow> unpack_entries lims dest ts fs1 n1 done1)"

definition unpack_tar_to_directory_blocking ::
  "tar_unpack_limits \<Rightarrow> tar_entry list st_result \<Rightarrow> string list \<Rightarrow> file_system \<Rightarrow> unit st_result \<times> file_system" where
  "unpack_tar_to_directory_blocking lims opened dest fs =
     (case create_dir_all [] dest fs of
        (Inl e, fs1) \<Rightarrow> (io_result (Inl e), fs1)
      | (Inr _, fs1) \<Rightarrow>
          (case opened of
             Inl e \<Rightarrow> (Inl e, fs1)
           | Inr ts \<Rightarrow> unpack_entries lims dest ts fs1 0 0))"

section \<open>Unpacking is confined and bounded\<close>

lemma copy_tar_effect:
  "copy_tar_file_with_limit i rest written done_bytes = (r, w, c) \<Longrightarrow>
     \<exists>x. w = written @ x \<and> c = done_bytes + length x \<and> c \<le> max done_bytes (wi_max_bytes i)"
proof (induction i rest written done_bytes rule: copy_tar_file_with_limit.induct)
  case (1 i rest written done_bytes)
  show ?case
  proof (cases "rest = [] \<or> checked_add_u64 done_bytes (length (take 8192 rest)) = None
      \<or> \<not> is_ok (ensure_len i (done_bytes + length (take 8192 rest)))")
    case True
    then have "w = written" "c = done_bytes"
      using "1.prems" by (subst (asm) copy_tar_file_with_limit.simps;
        auto simp: checked_add_u64_def ensure_len_def guard_err_def split: if_splits)+
    then show ?thesis by (intro exI [of _ "[]"]) simp
  next
    case False
    then have add: "checked_add_u64 done_bytes (length (take 8192 rest)) = Some (done_bytes + length (take 8192 rest))"
      by (auto simp: checked_add_u64_def split: if_splits)
    have le: "done_bytes + length (take 8192 rest) \<le> wi_max_bytes i" and ok: "ensure_len i (done_bytes + length (take 8192 rest)) = Inr ()"
      using False by (auto simp: ensure_len_def guard_err_def split: if_splits)
    have run: "copy_tar_file_with_limit i (drop 8192 rest) (written @ take 8192 rest) (done_bytes + length (take 8192 rest)) = (r, w, c)"
      using "1.prems" False add ok by (subst (asm) copy_tar_file_with_limit.simps) simp
    from "1.IH" [OF _ add ok run] False obtain x where "w = (written @ take 8192 rest) @ x"
      "c = done_bytes + length (take 8192 rest) + length x" "c \<le> max (done_bytes + length (take 8192 rest)) (wi_max_bytes i)" by auto
    then show ?thesis using le by (intro exI [of _ "take 8192 rest @ x"]) auto
  qed
qed

text \<open>The files that a run added.\<close>

definition added_files :: "file_system \<Rightarrow> file_system \<Rightarrow> (string list \<times> string) list \<Rightarrow> bool" where
  "added_files fs fs' files = (distinct (map fst files) \<and> (\<forall>p c. fs p = None \<and> fs' p = Some (ItemFile c) \<longleftrightarrow> (p, c) \<in> set files))"

definition bytes_of :: "(string list \<times> string) list \<Rightarrow> nat" where
  "bytes_of files = sum_list (map (\<lambda>f. length (snd f)) files)"

lemma added_files_none: "(\<And>p. fs' p = fs p \<or> fs' p = Some ItemDir) \<Longrightarrow> added_files fs fs' []"
  unfolding added_files_def by (metis fs_item.distinct(1) list.map_disc_iff distinct.simps(1) list.set(1) empty_iff option.distinct(1) option.inject)

lemma added_files_append:
  assumes a: "added_files fs fs1 xs" and b: "added_files fs1 fs2 ys" and keep: "only_adds A fs fs1" "only_adds A fs1 fs2"
  shows "added_files fs fs2 (xs @ ys)"
proof -
  have x: "fs p = None \<and> fs1 p = Some (ItemFile c) \<longleftrightarrow> (p, c) \<in> set xs" for p c using a unfolding added_files_def by blast
  have y: "fs1 p = None \<and> fs2 p = Some (ItemFile c) \<longleftrightarrow> (p, c) \<in> set ys" for p c using b unfolding added_files_def by blast
  have "fs p = None \<and> fs2 p = Some (ItemFile c) \<longleftrightarrow> (p, c) \<in> set (xs @ ys)" for p c
  proof (cases "fs1 p")
    case None
    then have "fs p = None" using only_adds_keeps [OF keep(1), of p] by (cases "fs p") auto
    moreover have "(p, c) \<notin> set xs" using x [of p c] None by auto
    ultimately show ?thesis using y [of p c] None by auto
  next
    case (Some i)
    then have "fs2 p = Some i" by (rule only_adds_keeps [OF keep(2)])
    moreover have "(p, c) \<notin> set ys" using y [of p c] Some by auto
    ultimately show ?thesis using x [of p c] Some by auto
  qed
  moreover have "p \<notin> fst ` set ys" if in_xs: "p \<in> fst ` set xs" for p
  proof
    assume "p \<in> fst ` set ys"
    then obtain c d where "(p, c) \<in> set xs" "(p, d) \<in> set ys" using in_xs by auto
    then show False using x [of p c] y [of p d] by simp
  qed
  ultimately show ?thesis using a b unfolding added_files_def by auto
qed

lemma mkdir_adds_no_files: "create_dir_all seen ps fs = (r, fs') \<Longrightarrow> added_files fs fs' []"
  using create_dir_all_effect by (intro added_files_none) metis

lemma normal_names_length: "normal_names cs = Some p \<Longrightarrow> length p = length cs"
  by (induction cs arbitrary: p rule: normal_names.induct) auto

lemma tar_path_ok: "validate_tar_path cs d = Inr p \<longleftrightarrow> cs \<noteq> [] \<and> hd cs \<noteq> RootDir \<and> normal_names cs = Some p \<and> length p \<le> d"
  by (auto simp: validate_tar_path_def not_less split: option.splits)

lemma unpack_entry_effect:
  assumes run: "unpack_entry lims dest t fs n done_bytes = (r, fs1, n1, done1)"
  shows "only_adds {x. is_prefix dest x} fs fs1 \<and> n1 \<le> max n (tl_max_entries lims)
    \<and> (\<exists>files. added_files fs fs1 files \<and> n + length files \<le> n1
        \<and> done1 = done_bytes + bytes_of files \<and> done1 \<le> max done_bytes (wi_max_bytes (tl_intent lims)))"
proof (cases "and_then (validate_tar_path (te_path t) (tl_max_depth lims)) (\<lambda>p.
           and_then (ok_or (StInternal ''bundle archive entry count overflow'') (checked_add_u64 n 1)) (\<lambda>n'.
           and_then (guard_err (n' > tl_max_entries lims) (StInvalidKey (wi_label (tl_intent lims) @ '' contains too many tar entries: ''
             @ show_nat n' @ '' > '' @ show_nat (tl_max_entries lims)))) (\<lambda>_. Inr (p, n'))))")
  case (Inl e)
  then have "fs1 = fs" "n1 = n" "done1 = done_bytes" using run by (simp_all add: unpack_entry_def)
  then show ?thesis using added_files_none [of fs fs] by (auto simp: only_adds_refl bytes_of_def intro!: exI [of _ "[]"])
next
  case (Inr pn)
  obtain p n' where pn: "pn = (p, n')" by force
  have p: "p \<noteq> []" and n': "n' = n + 1" "n' \<le> tl_max_entries lims"
    using Inr pn normal_names_length
    by (fastforce simp: and_then_eq_Inr guard_err_eq_Inr ok_or_eq_Inr checked_add_u64_def tar_path_ok split: if_splits)+
  let ?A = "{x. is_prefix dest x}"
  have mem: "dest @ p \<in> ?A" by simp
  show ?thesis
  proof (cases "te_kind t")
    case TarDir
    obtain r' fs' where mk: "create_dir_all [] (dest @ p) fs = (r', fs')" by force
    then have "fs1 = fs'" "n1 = n'" "done1 = done_bytes" using run Inr pn TarDir by (simp_all add: unpack_entry_def)
    then show ?thesis
      using create_dir_all_adds [OF mk, of "[]" ?A] mem mkdir_adds_no_files [OF mk] n'
      by (auto simp: bytes_of_def intro!: exI [of _ "[]"])
  next
    case TarUnsupported
    then have "fs1 = fs" "n1 = n'" "done1 = done_bytes" using run Inr pn by (simp_all add: unpack_entry_def)
    then show ?thesis using added_files_none [of fs fs] n' by (auto simp: only_adds_refl bytes_of_def intro!: exI [of _ "[]"])
  next
    case TarRegular
    obtain r' fs' where mk: "create_dir_all [] (butlast (dest @ p)) fs = (r', fs')" by force
    have out: "butlast (dest @ p) @ [last (dest @ p)] = dest @ p" using p by (intro append_butlast_last_id) simp
    have adds: "only_adds ?A fs fs'" using create_dir_all_adds [OF mk, of "[last (dest @ p)]" ?A] mem out by simp
    note none = mkdir_adds_no_files [OF mk]
    show ?thesis
    proof (cases "is_ok r' \<and> fs' (dest @ p) = None")
      case False
      then have "fs1 = fs'" "n1 = n'" "done1 = done_bytes"
        using run Inr pn TarRegular mk by (cases r'; auto simp: unpack_entry_def)+
      then show ?thesis using adds none n' by (auto simp: bytes_of_def intro!: exI [of _ "[]"])
    next
      case True
      obtain r2 w c where copy: "copy_tar_file_with_limit (tl_intent lims) (te_content t) [] done_bytes = (r2, w, c)" by (metis prod_cases3)
      have fs1: "fs1 = fs'(dest @ p \<mapsto> ItemFile w)" "n1 = n'" "done1 = c"
        using run Inr pn TarRegular mk True copy by (cases r'; auto simp: unpack_entry_def)+
      have add1: "only_adds ?A fs' fs1" using only_adds_upd [of fs' "dest @ p" "[]" ?A] True mem p fs1(1) by simp
      have "added_files fs' fs1 [(dest @ p, w)]" using True by (auto simp: added_files_def fs1(1))
      from added_files_append [OF none this adds add1] have files: "added_files fs fs1 [(dest @ p, w)]" by simp
      have "c = done_bytes + length w" "c \<le> max done_bytes (wi_max_bytes (tl_intent lims))" using copy_tar_effect [OF copy] by auto
      then show ?thesis using files adds add1 n' fs1 by (auto simp: bytes_of_def intro: only_adds_trans intro!: exI [of _ "[(dest @ p, w)]"])
    qed
  qed
qed

lemma unpack_entries_effect:
  "unpack_entries lims dest ts fs n done_bytes = (r, fs') \<Longrightarrow>
     only_adds {x. is_prefix dest x} fs fs'
     \<and> (\<exists>files. added_files fs fs' files \<and> n + length files \<le> max n (tl_max_entries lims)
         \<and> done_bytes + bytes_of files \<le> max done_bytes (wi_max_bytes (tl_intent lims)))"
proof (induction ts arbitrary: fs n done_bytes)
  case Nil
  then have "fs' = fs" by simp
  then show ?case using added_files_none [of fs fs] by (auto simp: only_adds_refl bytes_of_def intro!: exI [of _ "[]"])
next
  case (Cons t ts)
  obtain r1 fs1 n1 c1 where one: "unpack_entry lims dest t fs n done_bytes = (r1, fs1, n1, c1)" by (metis prod_cases4)
  from unpack_entry_effect [OF one] obtain xs where x: "only_adds {x. is_prefix dest x} fs fs1" "n1 \<le> max n (tl_max_entries lims)"
    "added_files fs fs1 xs" "n + length xs \<le> n1" "c1 = done_bytes + bytes_of xs" "c1 \<le> max done_bytes (wi_max_bytes (tl_intent lims))" by blast
  show ?case
  proof (cases r1)
    case (Inl e)
    then have "fs' = fs1" using Cons.prems one by simp
    then show ?thesis using x by (intro conjI exI [of _ xs]) auto
  next
    case (Inr u)
    then have "unpack_entries lims dest ts fs1 n1 c1 = (r, fs')" using Cons.prems one by simp
    from Cons.IH [OF this] obtain ys where y: "only_adds {x. is_prefix dest x} fs1 fs'" "added_files fs1 fs' ys"
      "n1 + length ys \<le> max n1 (tl_max_entries lims)" "c1 + bytes_of ys \<le> max c1 (wi_max_bytes (tl_intent lims))" by blast
    have "added_files fs fs' (xs @ ys)" by (rule added_files_append [OF x(3) y(2) x(1) y(1)])
    moreover have "bytes_of (xs @ ys) = bytes_of xs + bytes_of ys" by (simp add: bytes_of_def)
    ultimately show ?thesis using x y only_adds_trans [OF x(1) y(1)] by (intro conjI exI [of _ "xs @ ys"]) auto
  qed
qed

text \<open>
  C31. Unpacking any archive, hostile or not, and whether it succeeds or stops at an error, changes nothing
  that exists, creates nothing but the target, the directories on the way to it and what lies below it, and
  writes at most as many files as the entry limit and at most as many bytes as the byte cap.
\<close>

theorem unpack_is_confined:
  "let (res, fs') = unpack_tar_to_directory_blocking lims opened dest fs
   in (\<forall>p. fs' p = fs p \<or> fs p = None \<and> (is_prefix p dest \<or> is_prefix dest p))
     \<and> (\<exists>files. distinct (map fst files) \<and> (\<forall>p c. fs p = None \<and> fs' p = Some (ItemFile c) \<longleftrightarrow> (p, c) \<in> set files)
          \<and> length files \<le> tl_max_entries lims \<and> sum_list (map (\<lambda>f. length (snd f)) files) \<le> wi_max_bytes (tl_intent lims))"
proof -
  obtain res fs' where run: "unpack_tar_to_directory_blocking lims opened dest fs = (res, fs')" by force
  obtain r fs1 where mk: "create_dir_all [] dest fs = (r, fs1)" by force
  let ?A = "{x. is_prefix dest x}"
  have a1: "only_adds {dest} fs fs1" using create_dir_all_adds [OF mk, of "[]" "{dest}"] by simp
  note none = mkdir_adds_no_files [OF mk]
  obtain files where a2: "only_adds ?A fs1 fs'" and f: "added_files fs1 fs' files" "length files \<le> tl_max_entries lims"
      "bytes_of files \<le> wi_max_bytes (tl_intent lims)"
  proof (cases "is_ok r \<and> is_ok opened")
    case True
    then obtain ts where "unpack_entries lims dest ts fs1 0 0 = (res, fs')"
      using run mk by (cases r; cases opened) (auto simp: unpack_tar_to_directory_blocking_def)
    from unpack_entries_effect [OF this] that show thesis by (auto simp: bytes_of_def)
  next
    case False
    then have "fs' = fs1" using run mk by (cases r; cases opened) (auto simp: unpack_tar_to_directory_blocking_def)
    then show thesis using that [of "[]"] added_files_none [of fs1 fs1] by (simp add: only_adds_refl bytes_of_def)
  qed
  have "added_files fs fs' ([] @ files)"
    using added_files_append [OF none f(1) only_adds_mono [OF a1, of "insert dest ?A"] only_adds_mono [OF a2, of "insert dest ?A"]] by blast
  moreover have "fs' p = fs p \<or> fs p = None \<and> (is_prefix p dest \<or> is_prefix dest p)" for p
  proof -
    have "p @ s = dest @ t \<Longrightarrow> is_prefix p dest \<or> is_prefix dest p" for s t by (auto simp: append_eq_append_conv2)
    moreover have "is_prefix dest (p @ s) \<Longrightarrow> is_prefix p dest \<or> is_prefix dest p" for s using calculation is_prefixE by metis
    ultimately show ?thesis using a1 a2 unfolding only_adds_def by (metis is_prefix_append mem_Collect_eq singletonD)
  qed
  ultimately show ?thesis using run f(2,3) by (auto simp: added_files_def bytes_of_def)
qed

section \<open>What the limits of packing give\<close>

fun node_bytes :: "fs_node \<Rightarrow> nat" where
  "node_bytes (FsFile c) = length c"
| "node_bytes (FsDir es) = sum_list (map (\<lambda>e. node_bytes (snd e)) es)"
| "node_bytes _ = 0"

definition entries_bytes :: "fs_entries \<Rightarrow> nat" where
  "entries_bytes es = sum_list (map (\<lambda>e. node_bytes (snd e)) es)"

fun depth_ok :: "nat \<Rightarrow> nat \<Rightarrow> fs_node \<Rightarrow> bool" where
  "depth_ok d k (FsDir es) = (k \<le> d \<and> list_all (\<lambda>e. depth_ok d (Suc k) (snd e)) es)"
| "depth_ok d k _ = (k \<le> d)"

definition entries_depth_ok :: "nat \<Rightarrow> string list \<Rightarrow> fs_entries \<Rightarrow> bool" where
  "entries_depth_ok d rel es = (\<forall>e \<in> set es. depth_ok d (Suc (length rel)) (snd e))"

definition pending_count :: "copy_stack \<Rightarrow> nat" where
  "pending_count st = sum_list (map (\<lambda>d. entries_count (snd d)) st)"

definition pending_bytes :: "copy_stack \<Rightarrow> nat" where
  "pending_bytes st = sum_list (map (\<lambda>d. entries_bytes (snd d)) st)"

definition pending_depth_ok :: "copy_stack \<Rightarrow> bool" where
  "pending_depth_ok st = (\<forall>(rel, es) \<in> set st. entries_depth_ok max_bundle_tar_depth rel es)"

lemma padded_size_ge: "padded_tar_file_size n = Inr m \<Longrightarrow> n \<le> m"
  by (auto simp: padded_tar_file_size_def Let_def ok_or_eq_Inr checked_add_u64_def split: if_splits)

lemma limit_entries_ok:
  "limit_entries base i rel es (n, b, st) = Inr (n', b', st') \<Longrightarrow>
     n' + pending_count st' = n + entries_count es + pending_count st \<and> n' \<le> max n max_bundle_tar_entries
     \<and> b + entries_bytes es + pending_bytes st \<le> b' + pending_bytes st' \<and> b' \<le> max b (wi_max_bytes i)
     \<and> (pending_depth_ok st' \<longrightarrow> pending_depth_ok st \<and> entries_depth_ok max_bundle_tar_depth rel es)"
proof (induction es arbitrary: n b st)
  case Nil
  then show ?case by (simp add: entries_count_def entries_bytes_def entries_depth_ok_def)
next
  case (Cons e es)
  obtain name node where e: "e = (name, node)" by force
  let ?p = "rel @ [name]"
  from Cons.prems e obtain b2 st2 where n1: "Suc n \<le> max_bundle_tar_entries" and deep: "length ?p \<le> max_bundle_tar_depth"
    and node: "(case node of FsDir sub \<Rightarrow> Inr (b + 4096, (?p, sub) # st)
           | FsFile c \<Rightarrow> and_then (padded_tar_file_size (length c)) (\<lambda>bytes.
               and_then (ok_or (too_large i) (checked_add_u64 (b + 4096) bytes)) (\<lambda>b2. Inr (b2, st)))
           | _ \<Rightarrow> Inl (unsupported_entry base ?p)) = Inr (b2, st2)"
    and len: "b2 \<le> wi_max_bytes i" and rest: "limit_entries base i rel es (Suc n, b2, st2) = Inr (n', b', st')"
    by (auto simp: Let_def and_then_eq_Inr guard_err_eq_Inr ok_or_eq_Inr checked_add_u64_def ensure_len_ok not_less split: if_splits)
  note IH = Cons.IH [OF rest]
  show ?case
  proof (cases node)
    case (FsDir sub)
    then have "b2 = b + 4096" "st2 = (?p, sub) # st" using node by simp_all
    then show ?thesis using IH n1 len deep FsDir e
      by (auto simp: pending_count_def pending_bytes_def pending_depth_ok_def entries_count_def entries_bytes_def entries_depth_ok_def list_all_iff)
  next
    case (FsFile c)
    then have st2: "st2 = st" and b2: "b + length c \<le> b2"
      using node padded_size_ge [of "length c"] by (auto simp: and_then_eq_Inr ok_or_eq_Inr checked_add_u64_def split: if_splits)
    then show ?thesis using IH n1 len deep FsFile e
      by (auto simp: entries_count_def entries_bytes_def entries_depth_ok_def)
  qed (use node in simp_all)
qed

lemma entries_bytes_sort: "entries_bytes (sort_entries es) = entries_bytes es"
  by (simp add: entries_bytes_def sort_entries_def sum_list_sort_by)

lemma entries_depth_sort: "entries_depth_ok d rel (sort_entries es) = entries_depth_ok d rel es"
  by (simp add: entries_depth_ok_def sort_entries_def)

lemma limit_loop_ok:
  "limit_loop base i n b st = Inr () \<Longrightarrow> n \<le> max_bundle_tar_entries \<Longrightarrow>
     n + pending_count st \<le> max_bundle_tar_entries \<and> b + pending_bytes st \<le> max b (wi_max_bytes i) \<and> pending_depth_ok st"
proof (induction base i n b st rule: limit_loop.induct)
  case (1 base i n b)
  then show ?case by (simp add: pending_count_def pending_bytes_def pending_depth_ok_def)
next
  case (2 base i n b rel es st)
  from "2.prems"(1) obtain n' b' st' where step: "limit_entries base i rel (sort_entries es) (n, b, st) = Inr (n', b', st')"
    and loop: "limit_loop base i n' b' st' = Inr ()" by (auto simp: and_then_eq_Inr)
  note one = limit_entries_ok [OF step]
  have "n' \<le> max_bundle_tar_entries" using one "2.prems"(2) by simp
  from "2.IH" [OF step] loop this have rest: "n' + pending_count st' \<le> max_bundle_tar_entries" "b' + pending_bytes st' \<le> max b' (wi_max_bytes i)"
    "pending_depth_ok st'" by simp_all
  show ?case using one rest
    by (auto simp: entries_bytes_sort entries_depth_sort pending_count_def pending_bytes_def pending_depth_ok_def)
qed

lemma tar_limits:
  assumes "validate_tar_source_limits base es i = Inr ()"
  shows "entries_count es \<le> max_bundle_tar_entries" and "entries_bytes es \<le> wi_max_bytes i" and "entries_depth_ok max_bundle_tar_depth [] es"
  using limit_loop_ok [OF assms [unfolded validate_tar_source_limits_def]]
  by (auto simp: pending_count_def pending_bytes_def pending_depth_ok_def)

section \<open>Unpacking what was packed\<close>

fun node_at :: "fs_node \<Rightarrow> string list \<Rightarrow> fs_node option" where
  "node_at x [] = Some x"
| "node_at (FsDir es) (n # q) = (case map_of es n of None \<Rightarrow> None | Some y \<Rightarrow> node_at y q)"
| "node_at _ (n # q) = None"

lemma node_at_leaf: "(\<And>es. x \<noteq> FsDir es) \<Longrightarrow> node_at x (n # q) = None"
  by (cases x) auto

lemma tree_at_node_at: "tree_at es p = node_at (FsDir es) p"
proof (induction es p rule: tree_at.induct)
  case (2 es n p)
  show ?case
  proof (cases "map_of es n")
    case (Some x)
    then show ?thesis using 2 by (cases x; cases p) auto
  qed simp
qed simp

definition item_at :: "fs_node \<Rightarrow> string list \<Rightarrow> fs_item option" where
  "item_at x q = (case node_at x q of None \<Rightarrow> None | Some y \<Rightarrow> item_of y)"

text \<open>The file system with a tree in place of whatever was at a path.\<close>

definition mounted :: "file_system \<Rightarrow> string list \<Rightarrow> fs_node \<Rightarrow> file_system" where
  "mounted fs d x = (\<lambda>y. if is_prefix d y then item_at x (drop (length d) y) else fs y)"

lemma mounted_below [simp]: "mounted fs d x (d @ q) = item_at x q"
  by (simp add: mounted_def)

definition free_below :: "file_system \<Rightarrow> string list \<Rightarrow> bool" where
  "free_below fs d = (\<forall>q. fs (d @ q) = None)"

lemma mounted_leaf:
  assumes "free_below fs d" and "\<And>es. x = FsDir es \<Longrightarrow> es = []" and "item_of x = Some i"
  shows "mounted fs d x = fs(d \<mapsto> i)"
proof
  fix y show "mounted fs d x y = (fs(d \<mapsto> i)) y"
  proof (cases "is_prefix d y")
    case True
    then obtain q where y: "y = d @ q" using is_prefixE by blast
    show ?thesis
    proof (cases q)
      case Nil
      then show ?thesis using assms(3) mounted_below [of fs d x "[]"] by (simp add: y item_at_def)
    next
      case (Cons n q')
      have "node_at x q = None" using assms(2) Cons by (cases x) auto
      then show ?thesis using assms(1) Cons by (simp add: y item_at_def free_below_def)
    qed
  next
    case False
    then have "y \<noteq> d" by (auto simp: is_prefix_def)
    then show ?thesis using False by (simp add: mounted_def)
  qed
qed

lemma mounted_snoc:
  assumes "n \<notin> fst ` set es"
  shows "mounted (mounted fs d (FsDir es)) (d @ [n]) y = mounted fs d (FsDir (es @ [(n, y)]))"
proof
  fix x show "mounted (mounted fs d (FsDir es)) (d @ [n]) y x = mounted fs d (FsDir (es @ [(n, y)])) x"
  proof (cases "is_prefix d x")
    case True
    then obtain q where x: "x = d @ q" using is_prefixE by blast
    show ?thesis
    proof (cases q)
      case Nil
      then have "\<not> is_prefix (d @ [n]) x" by (simp add: x is_prefix_def)
      then show ?thesis by (simp add: mounted_def x Nil item_at_def)
    next
      case (Cons m q')
      show ?thesis
      proof (cases "m = n")
        case True
        have fresh: "map_of es n = None" using assms by (simp add: map_of_eq_None_iff)
        have "x = (d @ [n]) @ q'" by (simp add: x Cons True)
        then have "mounted (mounted fs d (FsDir es)) (d @ [n]) y x = item_at y q'" by (simp only: mounted_below)
        moreover have "map_of (es @ [(n, y)]) n = Some y" using fresh by (simp add: map_add_def)
        ultimately show ?thesis by (simp add: x Cons True item_at_def)
      next
        case False
        then have "\<not> is_prefix (d @ [n]) x" by (simp add: x Cons is_prefix_def)
        then have "mounted (mounted fs d (FsDir es)) (d @ [n]) y x = item_at (FsDir es) q" by (simp add: mounted_def x)
        moreover have "map_of (es @ [(n, y)]) m = map_of es m" using False by (simp add: map_add_def split: option.splits)
        ultimately show ?thesis by (simp add: x Cons item_at_def)
      qed
    qed
  next
    case False
    have "\<not> is_prefix (d @ [n]) x"
    proof
      assume "is_prefix (d @ [n]) x"
      then obtain r where "x = (d @ [n]) @ r" using is_prefixE by blast
      then have "is_prefix d x" by (simp add: is_prefix_def)
      then show False using False by simp
    qed
    then show ?thesis using False by (simp add: mounted_def)
  qed
qed

text \<open>A prefix of the entries takes the state from one point to another.\<close>

definition unpacks ::
  "tar_unpack_limits \<Rightarrow> string list \<Rightarrow> tar_entry list \<Rightarrow> file_system \<times> nat \<times> nat \<Rightarrow> file_system \<times> nat \<times> nat \<Rightarrow> bool" where
  "unpacks lims dest ts s s' =
     (\<forall>rest. unpack_entries lims dest (ts @ rest) (fst s) (fst (snd s)) (snd (snd s))
        = unpack_entries lims dest rest (fst s') (fst (snd s')) (snd (snd s')))"

lemma unpacks_append: "unpacks lims dest xs s s1 \<Longrightarrow> unpacks lims dest ys s1 s2 \<Longrightarrow> unpacks lims dest (xs @ ys) s s2"
  by (simp add: unpacks_def)

lemma normal_names_map: "normal_names (map NormalPart p) = Some p"
  by (induction p) auto

lemma existing_dir_noop: "(\<And>k. length seen < k \<Longrightarrow> k \<le> length (seen @ ps) \<Longrightarrow> fs (take k (seen @ ps)) = Some ItemDir) \<Longrightarrow>
   create_dir_all seen ps fs = (Inr (), fs)"
proof (induction ps arbitrary: seen)
  case (Cons p ps)
  have "fs (seen @ [p]) = Some ItemDir" using Cons.prems [of "Suc (length seen)"] by simp
  moreover have "create_dir_all (seen @ [p]) ps fs = (Inr (), fs)" by (rule Cons.IH) (use Cons.prems in simp)
  ultimately show ?case by simp
qed simp

lemma mkdir_existing: "is_directory fs d \<Longrightarrow> create_dir_all [] d fs = (Inr (), fs)"
  by (rule existing_dir_noop) (simp add: is_directory_def)

lemma create_dir_all_append:
  "create_dir_all seen (ps @ qs) fs =
     (case create_dir_all seen ps fs of (Inl e, fs1) \<Rightarrow> (Inl e, fs1) | (Inr _, fs1) \<Rightarrow> create_dir_all (seen @ ps) qs fs1)"
proof (induction ps arbitrary: seen fs)
  case (Cons p ps)
  note IH = Cons.IH [of "seen @ [p]", unfolded append_assoc append_Cons append_Nil]
  show ?case
  proof (cases "fs (seen @ [p])")
    case None
    then show ?thesis by (simp add: IH fun_upd_def)
  next
    case (Some i)
    then show ?thesis by (cases i) (simp_all add: IH)
  qed
qed simp

lemma mkdir_new: "is_directory fs d \<Longrightarrow> fs (d @ [n]) = None \<Longrightarrow> create_dir_all [] (d @ [n]) fs = (Inr (), fs(d @ [n] \<mapsto> ItemDir))"
  by (simp add: create_dir_all_append mkdir_existing)

lemma copy_tar_all:
  "done_bytes + length rest \<le> wi_max_bytes i \<Longrightarrow> wi_max_bytes i \<le> u64_max \<Longrightarrow>
     copy_tar_file_with_limit i rest written done_bytes = (Inr (), written @ rest, done_bytes + length rest)"
proof (induction i rest written done_bytes rule: copy_tar_file_with_limit.induct)
  case (1 i rest written done_bytes)
  show ?case
  proof (cases "rest = []")
    case True
    then show ?thesis by (subst copy_tar_file_with_limit.simps) simp
  next
    case False
    let ?t = "take 8192 rest"
    have le: "done_bytes + length ?t \<le> wi_max_bytes i" using "1.prems"(1) by simp
    have add: "checked_add_u64 done_bytes (length ?t) = Some (done_bytes + length ?t)"
      using le "1.prems"(2) by (simp add: checked_add_u64_def)
    have ok: "ensure_len i (done_bytes + length ?t) = Inr ()" using le by (simp add: ensure_len_ok)
    have "copy_tar_file_with_limit i (drop 8192 rest) (written @ ?t) (done_bytes + length ?t)
        = (Inr (), (written @ ?t) @ drop 8192 rest, done_bytes + length ?t + length (drop 8192 rest))"
      by (rule "1.IH" [OF False add ok]) (use "1.prems" in \<open>simp_all\<close>)
    also have "\<dots> = (Inr (), written @ rest, done_bytes + length rest)" by (simp add: min_def)
    finally show ?thesis using False add ok by (subst copy_tar_file_with_limit.simps) simp
  qed
qed

text \<open>The limits that the unpacking of a node needs.\<close>

definition room :: "tar_unpack_limits \<Rightarrow> nat \<Rightarrow> nat \<Rightarrow> bool" where
  "room lims n b = (n \<le> tl_max_entries lims \<and> tl_max_entries lims \<le> u64_max \<and> b \<le> wi_max_bytes (tl_intent lims)
     \<and> wi_max_bytes (tl_intent lims) \<le> u64_max)"

lemma unpack_header:
  assumes "length p \<le> tl_max_depth lims" and "p \<noteq> []" and "room lims (Suc n) b"
  shows "and_then (validate_tar_path (map NormalPart p) (tl_max_depth lims)) (\<lambda>p.
           and_then (ok_or (StInternal ''bundle archive entry count overflow'') (checked_add_u64 n 1)) (\<lambda>n'.
           and_then (guard_err (n' > tl_max_entries lims) (StInvalidKey (wi_label (tl_intent lims) @ '' contains too many tar entries: ''
             @ show_nat n' @ '' > '' @ show_nat (tl_max_entries lims)))) (\<lambda>_. Inr (p, n')))) = Inr (p, Suc n)"
proof -
  have "validate_tar_path (map NormalPart p) (tl_max_depth lims) = Inr p"
    using assms(1,2) by (cases p) (simp_all add: tar_path_ok normal_names_map)
  moreover have "checked_add_u64 n 1 = Some (Suc n)" "\<not> Suc n > tl_max_entries lims"
    using assms(3) by (simp_all add: checked_add_u64_def room_def)
  ultimately show ?thesis by simp
qed

lemma unpack_dir_entry:
  assumes "is_directory fs (dest @ q)" and "fs (dest @ q @ [name]) = None" and "length (q @ [name]) \<le> tl_max_depth lims"
    and "room lims (Suc n) b"
  shows "unpacks lims dest [\<lparr>te_path = map NormalPart (q @ [name]), te_kind = TarDir, te_content = []\<rparr>]
     (fs, n, b) (fs(dest @ q @ [name] \<mapsto> ItemDir), Suc n, b)"
proof -
  have "create_dir_all [] (dest @ q @ [name]) fs = (Inr (), fs(dest @ q @ [name] \<mapsto> ItemDir))"
    using mkdir_new [of fs "dest @ q" name] assms(1,2) by simp
  then show ?thesis
    using unpack_header [OF assms(3) _ assms(4)] by (simp add: unpacks_def unpack_entry_def io_result_def)
qed

lemma unpack_file_entry:
  assumes "is_directory fs (dest @ q)" and "fs (dest @ q @ [name]) = None" and "length (q @ [name]) \<le> tl_max_depth lims"
    and "room lims (Suc n) (b + length c)"
  shows "unpacks lims dest [\<lparr>te_path = map NormalPart (q @ [name]), te_kind = TarRegular, te_content = c\<rparr>]
     (fs, n, b) (fs(dest @ q @ [name] \<mapsto> ItemFile c), Suc n, b + length c)"
proof -
  have parent: "create_dir_all [] (butlast (dest @ q @ [name])) fs = (Inr (), fs)"
    using mkdir_existing [OF assms(1)] by (simp add: butlast_append)
  have copy: "copy_tar_file_with_limit (tl_intent lims) c [] b = (Inr (), c, b + length c)"
    using copy_tar_all [of b c "tl_intent lims" "[]"] assms(4) by (simp add: room_def)
  show ?thesis
    using unpack_header [OF assms(3) _ assms(4)] parent copy assms(2) by (simp add: unpacks_def unpack_entry_def)
qed

text \<open>A packed node takes its place, and so do the entries of a directory one after the other.\<close>

definition all_supported :: "tar_entry list \<Rightarrow> bool" where
  "all_supported ts \<longleftrightarrow> (\<forall>t \<in> set ts. te_kind t \<noteq> TarUnsupported)"

lemma all_supported_simps [simp]:
  "all_supported []" "all_supported (t # ts) \<longleftrightarrow> te_kind t \<noteq> TarUnsupported \<and> all_supported ts"
  "all_supported (xs @ ys) \<longleftrightarrow> all_supported xs \<and> all_supported ys"
  by (auto simp: all_supported_def)

definition node_unpacks :: "tar_builder \<Rightarrow> tar_unpack_limits \<Rightarrow> string list \<Rightarrow> string \<Rightarrow> fs_node \<Rightarrow> bool" where
  "node_unpacks tb lims dest base x =
     (\<forall>q name ts fs n b. append_node tb base (q @ [name]) x = Inr ts \<longrightarrow> is_directory fs (dest @ q) \<longrightarrow> free_below fs (dest @ q @ [name])
        \<longrightarrow> all_supported ts \<longrightarrow> distinct_names x \<longrightarrow> depth_ok (tl_max_depth lims) (length (q @ [name])) x
        \<longrightarrow> room lims (n + node_count x) (b + node_bytes x)
        \<longrightarrow> unpacks lims dest ts (fs, n, b) (mounted fs (dest @ q @ [name]) x, n + node_count x, b + node_bytes x))"

lemma mounted_dir_is_directory:
  assumes "is_directory fs (dest @ q)" and "d = dest @ q @ [name]"
  shows "is_directory (mounted fs d (FsDir es)) d"
  unfolding is_directory_def
proof (intro allI impI)
  fix k assume k: "0 < k \<and> k \<le> length d"
  show "mounted fs d (FsDir es) (take k d) = Some ItemDir"
  proof (cases "k = length d")
    case True
    then show ?thesis by (simp add: mounted_def is_prefix_def item_at_def)
  next
    case False
    then have short: "k \<le> length (dest @ q)" using k assms(2) by simp
    then have "take k d = take k (dest @ q)" by (simp add: assms(2))
    then have "fs (take k d) = Some ItemDir" using assms(1) k short unfolding is_directory_def by metis
    moreover have "\<not> is_prefix d (take k d)" using False k by (auto simp: is_prefix_def)
    ultimately show ?thesis by (simp add: mounted_def)
  qed
qed

lemma room_mono: "room lims n b \<Longrightarrow> n' \<le> n \<Longrightarrow> b' \<le> b \<Longrightarrow> room lims n' b'"
  by (simp add: room_def)

lemma entries_unpack:
  assumes "\<And>e. e \<in> set es \<Longrightarrow> node_unpacks tb lims dest base (snd e)"
    and "collect_entries (map (\<lambda>e. append_node tb base (p @ [fst e]) (snd e)) es) = Inr ts"
    and "all_supported ts" and "distinct (map fst (before @ es))" and "\<forall>e \<in> set es. distinct_names (snd e) \<and> depth_ok (tl_max_depth lims) (Suc (length p)) (snd e)"
    and "\<And>xs. is_directory (mounted fs (dest @ p) (FsDir xs)) (dest @ p)"
    and "room lims (n + entries_count es) (b + entries_bytes es)"
  shows "unpacks lims dest ts (mounted fs (dest @ p) (FsDir before), n, b)
     (mounted fs (dest @ p) (FsDir (before @ es)), n + entries_count es, b + entries_bytes es)"
  using assms
proof (induction es arbitrary: before ts n b)
  case Nil
  then show ?case by (simp add: unpacks_def entries_count_def entries_bytes_def)
next
  case (Cons e es)
  obtain name x where e: "e = (name, x)" by force
  from Cons.prems(2) e obtain t1 t2 where t1: "append_node tb base (p @ [name]) x = Inr t1"
    and t2: "collect_entries (map (\<lambda>e. append_node tb base (p @ [fst e]) (snd e)) es) = Inr t2" and ts: "ts = t1 @ t2"
    by (auto simp: and_then_eq_Inr)
  let ?fs = "mounted fs (dest @ p) (FsDir before)"
  have new: "name \<notin> fst ` set before" using Cons.prems(4) e by auto
  have free: "free_below ?fs (dest @ p @ [name])"
  proof -
    have "map_of before name = None" using new by (simp add: map_of_eq_None_iff)
    then have "?fs ((dest @ p) @ (name # q)) = None" for q by (simp only: mounted_below item_at_def) simp
    then show ?thesis by (simp add: free_below_def)
  qed
  have counts: "entries_count (e # es) = node_count x + entries_count es" "entries_bytes (e # es) = node_bytes x + entries_bytes es"
    by (simp_all add: e entries_count_def entries_bytes_def)
  have "room lims (n + node_count x) (b + node_bytes x)" by (rule room_mono [OF Cons.prems(7)]) (simp_all add: counts)
  then have "unpacks lims dest t1 (?fs, n, b) (mounted ?fs (dest @ p @ [name]) x, n + node_count x, b + node_bytes x)"
    using Cons.prems(1) [of e] t1 Cons.prems(6) [of before] free Cons.prems(3,5) e ts unfolding node_unpacks_def by auto
  moreover have "mounted ?fs (dest @ p @ [name]) x = mounted fs (dest @ p) (FsDir (before @ [e]))"
    using mounted_snoc [OF new, of fs "dest @ p" x] e by simp
  moreover have "unpacks lims dest t2 (mounted fs (dest @ p) (FsDir (before @ [e])), n + node_count x, b + node_bytes x)
      (mounted fs (dest @ p) (FsDir ((before @ [e]) @ es)), n + node_count x + entries_count es, b + node_bytes x + entries_bytes es)"
    by (rule Cons.IH [OF _ t2 _ _ _ Cons.prems(6)]) (use Cons.prems(1,3,4,5,7) ts in \<open>simp_all add: counts add.assoc\<close>)
  ultimately show ?case unfolding ts counts using unpacks_append by (simp add: add.assoc)
qed

lemma tar_documented_dir:
  "tar_builder_documented tb \<Longrightarrow> tb_append_dir tb p = Inr t \<Longrightarrow> t = \<lparr>te_path = map NormalPart p, te_kind = TarDir, te_content = []\<rparr>"
  by (simp add: tar_builder_documented_def)

lemma tar_documented_file:
  "tar_builder_documented tb \<Longrightarrow> tb_append_path_with_name tb p c = Inr t \<Longrightarrow>
     t = \<lparr>te_path = map NormalPart p, te_kind = TarRegular, te_content = c\<rparr> \<or> te_path t = map NormalPart p \<and> te_kind t = TarUnsupported"
  by (simp add: tar_builder_documented_def)

lemma every_node_unpacks:
  assumes doc: "tar_builder_documented tb"
  shows "node_unpacks tb lims dest base x"
proof (induction x)
  case (FsFile c)
  show ?case
    unfolding node_unpacks_def
  proof (intro allI impI)
    fix q name ts fs n b
    assume a: "append_node tb base (q @ [name]) (FsFile c) = Inr ts" "is_directory fs (dest @ q)" "free_below fs (dest @ q @ [name])"
      "all_supported ts" "distinct_names (FsFile c)" "depth_ok (tl_max_depth lims) (length (q @ [name])) (FsFile c)"
      "room lims (n + node_count (FsFile c)) (b + node_bytes (FsFile c))"
    have none: "fs (dest @ q @ [name]) = None" using a(3) [unfolded free_below_def, rule_format, of "[]"] by simp
    from a(1) obtain t where t: "tb_append_path_with_name tb (q @ [name]) c = Inr t" "ts = [t]" by (auto simp: and_then_eq_Inr)
    have ts: "ts = [\<lparr>te_path = map NormalPart (q @ [name]), te_kind = TarRegular, te_content = c\<rparr>]"
      using tar_documented_file [OF doc t(1)] t(2) a(4) by auto
    have m: "mounted fs (dest @ q @ [name]) (FsFile c) = fs(dest @ q @ [name] \<mapsto> ItemFile c)" by (rule mounted_leaf [OF a(3)]) simp_all
    show "unpacks lims dest ts (fs, n, b) (mounted fs (dest @ q @ [name]) (FsFile c), n + node_count (FsFile c), b + node_bytes (FsFile c))"
      using unpack_file_entry [OF a(2) none, of lims n b c] a(6,7) m ts by simp
  qed
next
  case (FsDir es)
  have nodes: "node_unpacks tb lims dest base (snd e)" if "e \<in> set es" for e by (rule FsDir [OF that]) (cases e, simp)
  show ?case
    unfolding node_unpacks_def
  proof (intro allI impI)
    fix q name ts fs n b
    assume a: "append_node tb base (q @ [name]) (FsDir es) = Inr ts" "is_directory fs (dest @ q)" "free_below fs (dest @ q @ [name])"
      "all_supported ts" "distinct_names (FsDir es)" "depth_ok (tl_max_depth lims) (length (q @ [name])) (FsDir es)"
      "room lims (n + node_count (FsDir es)) (b + node_bytes (FsDir es))"
    let ?p = "q @ [name]"
    have counts: "node_count (FsDir es) = Suc (entries_count es)" "node_bytes (FsDir es) = entries_bytes es"
      by (simp_all add: entries_count_def entries_bytes_def)
    have none: "fs (dest @ ?p) = None" using a(3) [unfolded free_below_def, rule_format, of "[]"] by simp
    from a(1) obtain d t where d: "tb_append_dir tb ?p = Inr d" and t: "collect_entries (map (\<lambda>e. append_node tb base (?p @ [fst e]) (snd e)) es) = Inr t"
      and "ts = d # t"
      unfolding append_node.simps and_then_eq_Inr by auto
    then have ts: "ts = [\<lparr>te_path = map NormalPart ?p, te_kind = TarDir, te_content = []\<rparr>] @ t"
      using tar_documented_dir [OF doc d] by simp
    have m: "mounted fs (dest @ ?p) (FsDir []) = fs(dest @ ?p \<mapsto> ItemDir)" by (rule mounted_leaf [OF a(3)]) simp_all
    have "room lims (Suc n) b" by (rule room_mono [OF a(7)]) (simp_all add: counts)
    then have "unpacks lims dest [\<lparr>te_path = map NormalPart ?p, te_kind = TarDir, te_content = []\<rparr>] (fs, n, b)
        (mounted fs (dest @ ?p) (FsDir []), Suc n, b)"
      using unpack_dir_entry [OF a(2) none, of lims n b] a(6) m by simp
    moreover have "unpacks lims dest t (mounted fs (dest @ ?p) (FsDir []), Suc n, b)
        (mounted fs (dest @ ?p) (FsDir ([] @ es)), Suc n + entries_count es, b + entries_bytes es)"
    proof (rule entries_unpack [OF nodes t])
      show "all_supported t" using a(4) ts by simp
      show "distinct (map fst ([] @ es))" using a(5) by simp
      show "\<forall>e \<in> set es. distinct_names (snd e) \<and> depth_ok (tl_max_depth lims) (Suc (length ?p)) (snd e)"
        using a(5,6) by (simp add: list_all_iff)
      show "is_directory (mounted fs (dest @ ?p) (FsDir xs)) (dest @ ?p)" for xs by (rule mounted_dir_is_directory [OF a(2)]) simp
      show "room lims (Suc n + entries_count es) (b + entries_bytes es)" using a(7) unfolding counts by simp
    qed
    ultimately show "unpacks lims dest ts (fs, n, b) (mounted fs (dest @ ?p) (FsDir es), n + node_count (FsDir es), b + node_bytes (FsDir es))"
      unfolding ts counts using unpacks_append by fastforce
  qed
qed (simp_all add: node_unpacks_def)

section \<open>The round trip\<close>

lemma mkdir_is_directory:
  assumes "create_dir_all [] d fs = (Inr u, fs')"
  shows "is_directory fs' d"
  unfolding is_directory_def
proof (intro allI impI)
  fix k assume k: "0 < k \<and> k \<le> length d"
  obtain fs1 where one: "create_dir_all [] (take k d) fs = (Inr (), fs1)" and two: "create_dir_all (take k d) (drop k d) fs1 = (Inr u, fs')"
    using assms create_dir_all_append [of "[]" "take k d" "drop k d" fs] by (auto split: prod.splits sum.splits)
  have "fs1 (take k d) = Some ItemDir" using create_dir_all_result [OF one] k by (cases d) auto
  then show "fs' (take k d) = Some ItemDir" using only_adds_keeps [OF create_dir_all_adds [OF two, of "[]" UNIV]] by simp
qed

lemma mounted_keeps_directory:
  assumes "is_directory fs d"
  shows "is_directory (mounted fs d (FsDir es)) d"
proof (cases d rule: rev_cases)
  case Nil
  then show ?thesis by (simp add: is_directory_def)
next
  case (snoc d' n)
  have "is_directory fs d'" using assms by (auto simp: is_directory_def snoc)
  then show ?thesis using mounted_dir_is_directory [of fs "[]" d' d n] by (simp add: snoc)
qed

lemma mounted_empty:
  assumes "fs d = Some ItemDir" and "empty_below d fs"
  shows "mounted fs d (FsDir []) = fs"
proof
  fix y show "mounted fs d (FsDir []) y = fs y"
  proof (cases "is_prefix d y")
    case True
    then obtain q where y: "y = d @ q" using is_prefixE by blast
    show ?thesis using assms unfolding y mounted_below by (cases q) (simp_all add: item_at_def empty_below_def)
  qed (simp add: mounted_def)
qed

lemma unpacked_supported:
  "unpack_entries lims dest ts fs n b = (Inr u, fs') \<Longrightarrow> all_supported ts"
proof (induction ts arbitrary: fs n b)
  case (Cons t ts)
  then obtain fs1 n1 b1 where one: "unpack_entry lims dest t fs n b = (Inr (), fs1, n1, b1)" and rest: "unpack_entries lims dest ts fs1 n1 b1 = (Inr u, fs')"
    by (auto split: prod.splits sum.splits)
  have "te_kind t \<noteq> TarUnsupported" using one by (auto simp: unpack_entry_def split: sum.splits prod.splits)
  then show ?case using Cons.IH [OF rest] by simp
qed simp

text \<open>
  C32. The round trip of bundle archives, for any tar builder that behaves as the crate documents. An archive that
  packing wrote within its limits, in which every file became a regular entry, unpacks under a byte cap that is no
  smaller into any empty place: unpacking succeeds and the target has exactly the files and directories of the
  packed tree, with their bytes. When the builder wrote some file as an entry of another type, as it does by default
  for a file with holes, unpacking what packing accepted is refused.
\<close>

theorem bundle_archive_roundtrip:
  assumes tar: "tar_builder_documented tb" and pack: "pack_directory_to_tar_blocking tb base es archive_path taken i = Inr ts"
    and names: "distinct_names (FsDir es)" and caps: "wi_max_bytes i \<le> wi_max_bytes j" "wi_max_bytes j \<le> u64_max"
    and dest: "fst (create_dir_all [] dest fs) = Inr ()" "dest \<noteq> []" "empty_below dest fs"
  shows "if \<forall>t \<in> set ts. te_kind t \<noteq> TarUnsupported
    then \<exists>fs'. unpack_tar_to_directory_blocking (bundle_limits j) (Inr ts) dest fs = (Inr (), fs')
       \<and> (\<forall>p. p \<noteq> [] \<longrightarrow> fs' (dest @ p) = (case tree_at es p of None \<Rightarrow> None | Some x \<Rightarrow> item_of x))
    else \<exists>e fs'. unpack_tar_to_directory_blocking (bundle_limits j) (Inr ts) dest fs = (Inl e, fs')"
proof -
  let ?lims = "bundle_limits j"
  from pack have limits: "validate_tar_source_limits base es i = Inr ()" and ts: "append_bundle_dir tb base es = Inr ts"
    by (auto simp: pack_directory_to_tar_blocking_def and_then_eq_Inr)
  note lim = tar_limits [OF limits]
  obtain fs1 where mk: "create_dir_all [] dest fs = (Inr (), fs1)" using dest(1) by (cases "create_dir_all [] dest fs") simp
  show ?thesis
  proof (cases "all_supported ts")
    case True
    have dir: "is_directory fs1 dest" by (rule mkdir_is_directory [OF mk])
    have here: "fs1 dest = Some ItemDir" using create_dir_all_result [OF mk dest(2)] by simp
    have "empty_below dest fs1"
      using dest(3) create_dir_all_only_dirs [OF mk] unfolding empty_below_def by simp
    note start = mounted_empty [OF here this]
    have "unpacks ?lims dest ts (mounted fs1 (dest @ []) (FsDir []), 0, 0)
        (mounted fs1 (dest @ []) (FsDir ([] @ es)), 0 + entries_count es, 0 + entries_bytes es)"
    proof (rule entries_unpack)
      show "node_unpacks tb ?lims dest base (snd e)" for e by (rule every_node_unpacks [OF tar])
      show "collect_entries (map (\<lambda>e. append_node tb base ([] @ [fst e]) (snd e)) es) = Inr ts" using ts by (simp add: append_bundle_dir_def)
      show "all_supported ts" by (rule True)
      show "distinct (map fst ([] @ es))" using names by simp
      show "\<forall>e \<in> set es. distinct_names (snd e) \<and> depth_ok (tl_max_depth ?lims) (Suc (length [])) (snd e)"
        using names lim(3) by (simp add: list_all_iff entries_depth_ok_def bundle_limits_def)
      show "is_directory (mounted fs1 (dest @ []) (FsDir xs)) (dest @ [])" for xs using mounted_keeps_directory [OF dir] by simp
      show "room ?lims (0 + entries_count es) (0 + entries_bytes es)"
        using lim(1,2) caps by (simp add: room_def bundle_limits_def max_bundle_tar_entries_def u64_max_def)
    qed
    from this [unfolded unpacks_def, rule_format, of "[]"]
    have "unpack_tar_to_directory_blocking ?lims (Inr ts) dest fs = (Inr (), mounted fs1 dest (FsDir es))"
      using mk start by (simp add: unpack_tar_to_directory_blocking_def)
    then show ?thesis using True by (auto simp: item_at_def tree_at_node_at all_supported_def)
  next
    case False
    obtain r fs2 where run: "unpack_entries ?lims dest ts fs1 0 0 = (r, fs2)" by fastforce
    then obtain e where "r = Inl e" using unpacked_supported False by (cases r) blast+
    then have "unpack_tar_to_directory_blocking ?lims (Inr ts) dest fs = (Inl e, fs2)"
      using mk run by (simp add: unpack_tar_to_directory_blocking_def)
    then show ?thesis using False by (auto simp: all_supported_def)
  qed
qed

text \<open>A builder as the crate documents it, for files without holes.\<close>

definition plain_builder :: tar_builder where
  "plain_builder = \<lparr>tb_append_dir = (\<lambda>p. Inr \<lparr>te_path = map NormalPart p, te_kind = TarDir, te_content = []\<rparr>),
     tb_append_path_with_name = (\<lambda>p c. Inr \<lparr>te_path = map NormalPart p, te_kind = TarRegular, te_content = c\<rparr>),
     tb_encoded_len = (\<lambda>_. 10240)\<rparr>"

lemma plain_builder_documented: "tar_builder_documented plain_builder"
  by (simp add: tar_builder_documented_def plain_builder_def)

theorem bundle_archive_roundtrip_witness:
  "\<exists>ts fs'. pack_directory_to_tar_blocking plain_builder ''b'' example_tree ''a.tar'' False \<lparr>wi_label = ''bundle'', wi_max_bytes = 100000\<rparr> = Inr ts
     \<and> unpack_tar_to_directory_blocking (bundle_limits \<lparr>wi_label = ''bundle'', wi_max_bytes = 100000\<rparr>) (Inr ts) [''w''] Map.empty = (Inr (), fs')
     \<and> fs' [''w'', ''public'', ''runs.json''] = Some (ItemFile ''[]'')"
proof -
  let ?i = "\<lparr>wi_label = ''bundle'', wi_max_bytes = 100000\<rparr>"
  have "\<exists>ts. pack_directory_to_tar_blocking plain_builder ''b'' example_tree ''a.tar'' False ?i = Inr ts \<and> all_supported ts"
    by (simp add: pack_directory_to_tar_blocking_def validate_tar_source_limits_def append_bundle_dir_def example_tree_def sort_entries_def
        plain_builder_def ensure_len_def guard_err_def checked_add_u64_def u64_max_def max_bundle_tar_entries_def max_bundle_tar_depth_def
        padded_tar_file_size_def)
  then obtain ts where ts: "pack_directory_to_tar_blocking plain_builder ''b'' example_tree ''a.tar'' False ?i = Inr ts" "all_supported ts"
    by blast
  then have "\<forall>t \<in> set ts. te_kind t \<noteq> TarUnsupported" by (simp add: all_supported_def)
  then obtain fs' where run: "unpack_tar_to_directory_blocking (bundle_limits ?i) (Inr ts) [''w''] Map.empty = (Inr (), fs')"
    and at: "\<forall>p. p \<noteq> [] \<longrightarrow> fs' ([''w''] @ p) = (case tree_at example_tree p of None \<Rightarrow> None | Some x \<Rightarrow> item_of x)"
    using bundle_archive_roundtrip [OF plain_builder_documented ts(1), of ?i "[''w'']" Map.empty]
    by (auto simp: example_tree_def u64_max_def empty_below_def)
  from at [rule_format, of "[''public'', ''runs.json'']"] have "fs' [''w'', ''public'', ''runs.json''] = Some (ItemFile ''[]'')"
    by (simp add: example_tree_def)
  then show ?thesis using ts(1) run by blast
qed

end
