(* ===== verification/Interleaving.thy ===== *)
theory Interleaving
  imports Prelude
begin

text \<open>
  Asynchronous code that talks to a world it shares with other code: a program is the tree of the calls it
  makes and of what it does with each answer. Programs run side by side, one call at a time, in any order.
  A program is proved correct with a rely condition on what the others do between two of its calls and a
  guarantee on what its own calls do; the guarantees of the others imply its rely.
\<close>

section \<open>Programs\<close>

datatype ('c, 'r, 'a) prog = Done 'a | Call 'c "'r \<Rightarrow> ('c, 'r, 'a) prog"

primrec bind_prog :: "('c, 'r, 'a) prog \<Rightarrow> ('a \<Rightarrow> ('c, 'r, 'b) prog) \<Rightarrow> ('c, 'r, 'b) prog" where
  "bind_prog (Done x) f = f x"
| "bind_prog (Call c k) f = Call c (\<lambda>r. bind_prog (k r) f)"

definition call :: "'c \<Rightarrow> ('c, 'r, 'r) prog" where
  "call c = Call c Done"

text \<open>The question mark of fallible code.\<close>

definition try_prog :: "('c, 'r, 'e + 'a) prog \<Rightarrow> ('a \<Rightarrow> ('c, 'r, 'e + 'b) prog) \<Rightarrow> ('c, 'r, 'e + 'b) prog" where
  "try_prog p f = bind_prog p (\<lambda>x. case x of Inl e \<Rightarrow> Done (Inl e) | Inr a \<Rightarrow> f a)"

text \<open>A run without interference, for examples.\<close>

primrec run_prog :: "('c \<Rightarrow> 's \<Rightarrow> 'r \<times> 's) \<Rightarrow> ('c, 'r, 'a) prog \<Rightarrow> 's \<Rightarrow> 'a \<times> 's" where
  "run_prog perform (Done x) = (\<lambda>s. (x, s))"
| "run_prog perform (Call c k) = (\<lambda>s. case perform c s of (r, s') \<Rightarrow> run_prog perform (k r) s')"

section \<open>Interleaved execution\<close>

text \<open>
  \<open>effect i c s r s'\<close>: call \<open>c\<close> of program \<open>i\<close> may answer \<open>r\<close> and take the world from \<open>s\<close> to \<open>s'\<close>.
\<close>

type_synonym ('c, 'r, 's) effect = "nat \<Rightarrow> 'c \<Rightarrow> 's \<Rightarrow> 'r \<Rightarrow> 's \<Rightarrow> bool"

inductive pool_step :: "('c, 'r, 's) effect \<Rightarrow> ('c, 'r, 'a) prog list \<times> 's \<Rightarrow> ('c, 'r, 'a) prog list \<times> 's \<Rightarrow> bool"
  for effect where
  Answer: "i < length ps \<Longrightarrow> ps ! i = Call c k \<Longrightarrow> effect i c s r s' \<Longrightarrow> pool_step effect (ps, s) (ps[i := k r], s')"

inductive_cases pool_stepE: "pool_step effect (ps, s) cfg"

inductive pool_reach :: "('c, 'r, 's) effect \<Rightarrow> ('c, 'r, 'a) prog list \<times> 's \<Rightarrow> ('c, 'r, 'a) prog list \<times> 's \<Rightarrow> bool"
  for effect cfg where
  Start: "pool_reach effect cfg cfg"
| Next: "pool_reach effect cfg cfg1 \<Longrightarrow> pool_step effect cfg1 cfg2 \<Longrightarrow> pool_reach effect cfg cfg2"

lemma pool_reach_trans: "pool_reach effect b c \<Longrightarrow> pool_reach effect a b \<Longrightarrow> pool_reach effect a c"
  by (induction rule: pool_reach.induct) (auto intro: pool_reach.intros)

lemma pool_reach_length: "pool_reach effect cfg cfg' \<Longrightarrow> length (fst cfg') = length (fst cfg)"
  by (induction rule: pool_reach.induct) (auto elim!: pool_step.cases)

text \<open>A program that runs alone to its end is one way to go.\<close>

lemma pool_reach_run:
  assumes "\<And>c s r s'. act c s = (r, s') \<Longrightarrow> effect i c s r s'" and "i < length ps" and "run_prog act (ps ! i) s = (x, s')"
  shows "pool_reach effect (ps, s) (ps[i := Done x], s')"
  using assms(2,3)
proof (induction "ps ! i" arbitrary: ps s)
  case (Done y)
  then have "ps ! i = Done x" "s' = s" by (metis prod.inject run_prog.simps(1))+
  then have "ps[i := Done x] = ps" by (metis list_update_id)
  then show ?case using \<open>s' = s\<close> by (simp add: pool_reach.Start)
next
  case (Call c k)
  obtain r s1 where r: "act c s = (r, s1)" by force
  have i: "i < length (ps[i := k r])" and k: "(ps[i := k r]) ! i = k r" using Call.prems(1) by simp_all
  have "run_prog act (ps ! i) s = run_prog act (k r) s1" using Call.hyps(2) r by (metis (no_types, lifting) case_prod_conv run_prog.simps(2))
  then have run: "run_prog act ((ps[i := k r]) ! i) s1 = (x, s')" using Call.prems(2) k by simp
  have "pool_reach effect (ps[i := k r], s1) ((ps[i := k r])[i := Done x], s')"
    by (rule Call.hyps(1) [OF _ i run]) (simp add: k)
  moreover have "pool_step effect (ps, s) (ps[i := k r], s1)"
    by (rule pool_step.Answer [OF Call.prems(1) Call.hyps(2) [symmetric]]) (rule assms(1) [OF r])
  ultimately show ?case using pool_reach_trans [OF _ pool_reach.Next [OF pool_reach.Start]] by fastforce
qed

section \<open>Rely and guarantee\<close>

text \<open>
  \<open>wp\<close>: from this world on, whatever the environment does within the rely, every call keeps the guarantee and
  the result satisfies the postcondition for as long as the environment keeps the rely.
\<close>

primrec wp :: "('c \<Rightarrow> 's \<Rightarrow> 'r \<Rightarrow> 's \<Rightarrow> bool) \<Rightarrow> ('s \<Rightarrow> 's \<Rightarrow> bool) \<Rightarrow> ('s \<Rightarrow> 's \<Rightarrow> bool) \<Rightarrow> ('a \<Rightarrow> 's \<Rightarrow> bool) \<Rightarrow>
    ('c, 'r, 'a) prog \<Rightarrow> 's \<Rightarrow> bool" where
  "wp eff R G Q (Done x) = (\<lambda>s. \<forall>s'. R\<^sup>*\<^sup>* s s' \<longrightarrow> Q x s')"
| "wp eff R G Q (Call c k) =
     (\<lambda>s. \<forall>s1. R\<^sup>*\<^sup>* s s1 \<longrightarrow> (\<forall>r s2. eff c s1 r s2 \<longrightarrow> G s1 s2 \<and> wp eff R G Q (k r) s2))"

lemma wp_rely: "wp eff R G Q p s \<Longrightarrow> R\<^sup>*\<^sup>* s s' \<Longrightarrow> wp eff R G Q p s'"
  by (cases p) (auto dest: rtranclp_trans)

lemma wp_mono: "wp eff R G Q p s \<Longrightarrow> (\<And>x s. Q x s \<Longrightarrow> Q' x s) \<Longrightarrow> wp eff R G Q' p s"
  by (induction p arbitrary: s) auto

lemma rely_star_mono: "R'\<^sup>*\<^sup>* a b \<Longrightarrow> (\<And>a b. R' a b \<Longrightarrow> R a b) \<Longrightarrow> R\<^sup>*\<^sup>* a b"
  by (induction rule: rtranclp_induct) (auto intro: rtranclp.rtrancl_into_rtrancl)

lemma wp_weaken:
  assumes "wp eff R G Q p s" and R: "\<And>a b. R' a b \<Longrightarrow> R a b" and G: "\<And>a b. G a b \<Longrightarrow> G' a b"
  shows "wp eff R' G' Q p s"
proof -
  have star: "R\<^sup>*\<^sup>* a b" if "R'\<^sup>*\<^sup>* a b" for a b using rely_star_mono [OF that] R by blast
  show ?thesis
    using assms(1)
  proof (induction p arbitrary: s)
    case (Call c k)
    show ?case
      unfolding wp.simps
    proof (intro allI impI)
      fix s1 r s2 assume "R'\<^sup>*\<^sup>* s s1" and eff: "eff c s1 r s2"
      then have "R\<^sup>*\<^sup>* s s1" by (intro star)
      then have "G s1 s2 \<and> wp eff R G Q (k r) s2" using Call.prems eff by simp
      then show "G' s1 s2 \<and> wp eff R' G' Q (k r) s2" using Call.IH G by blast
    qed
  qed (auto dest: star)
qed

lemma wp_bind: "wp eff R G (\<lambda>x. wp eff R G Q (f x)) p s \<Longrightarrow> wp eff R G Q (bind_prog p f) s"
  by (induction p arbitrary: s) (auto simp: wp_rely)

text \<open>Triples: the precondition is stable, so it holds when the next call is made.\<close>

definition stable :: "('s \<Rightarrow> 's \<Rightarrow> bool) \<Rightarrow> ('s \<Rightarrow> bool) \<Rightarrow> bool" where
  "stable R P = (\<forall>s s'. P s \<longrightarrow> R s s' \<longrightarrow> P s')"

lemma stable_star: "stable R P \<Longrightarrow> P s \<Longrightarrow> R\<^sup>*\<^sup>* s s' \<Longrightarrow> P s'"
  by (rotate_tac 2, induction rule: rtranclp_induct) (auto simp: stable_def)

definition sat ::
  "('c \<Rightarrow> 's \<Rightarrow> 'r \<Rightarrow> 's \<Rightarrow> bool) \<Rightarrow> ('s \<Rightarrow> 's \<Rightarrow> bool) \<Rightarrow> ('s \<Rightarrow> 's \<Rightarrow> bool) \<Rightarrow> ('s \<Rightarrow> bool) \<Rightarrow>
   ('c, 'r, 'a) prog \<Rightarrow> ('a \<Rightarrow> 's \<Rightarrow> bool) \<Rightarrow> bool" where
  "sat eff R G P p Q = (\<forall>s. P s \<longrightarrow> wp eff R G Q p s)"

lemma sat_done: "stable R P \<Longrightarrow> (\<And>s. P s \<Longrightarrow> Q x s) \<Longrightarrow> sat eff R G P (Done x) Q"
  by (auto simp: sat_def dest: stable_star)

lemma sat_call:
  assumes "stable R P" and "\<And>s r s'. P s \<Longrightarrow> eff c s r s' \<Longrightarrow> G s s' \<and> P' r s'" and "\<And>r. stable R (P' r)"
  shows "sat eff R G P (call c) P'"
  using assms stable_star [OF assms(1)] stable_star [OF assms(3)] unfolding sat_def call_def wp.simps by metis

lemma sat_bind: "sat eff R G P p Q' \<Longrightarrow> (\<And>x. sat eff R G (Q' x) (f x) Q) \<Longrightarrow> sat eff R G P (bind_prog p f) Q"
  unfolding sat_def by (auto intro!: wp_bind intro: wp_mono [where Q = Q'])

lemma sat_try:
  assumes "sat eff R G P p Q'" and "\<And>e. sat eff R G (Q' (Inl e)) (Done (Inl e)) Q" and "\<And>a. sat eff R G (Q' (Inr a)) (f a) Q"
  shows "sat eff R G P (try_prog p f) Q"
  unfolding try_prog_def by (rule sat_bind [OF assms(1)]) (auto split: sum.split intro: assms)

lemma sat_pre: "sat eff R G P p Q \<Longrightarrow> (\<And>s. P' s \<Longrightarrow> P s) \<Longrightarrow> sat eff R G P' p Q"
  by (auto simp: sat_def)

lemma sat_post: "sat eff R G P p Q \<Longrightarrow> (\<And>x s. Q x s \<Longrightarrow> Q' x s) \<Longrightarrow> sat eff R G P p Q'"
  unfolding sat_def by (blast intro: wp_mono)

lemma sat_weaken: "sat eff R G P p Q \<Longrightarrow> (\<And>a b. R' a b \<Longrightarrow> R a b) \<Longrightarrow> (\<And>a b. G a b \<Longrightarrow> G' a b) \<Longrightarrow> sat eff R' G' P p Q"
  unfolding sat_def by (blast intro: wp_weaken)

section \<open>Programs side by side\<close>

text \<open>
  A protocol \<open>p\<close> fixes what each program may do. The guarantee of a program implies the rely of every other
  one, and from a start that the protocol allows each program is correct.
\<close>

definition any_guarantee :: "('p \<Rightarrow> nat \<Rightarrow> 's \<Rightarrow> 's \<Rightarrow> bool) \<Rightarrow> 'p \<Rightarrow> 's \<Rightarrow> 's \<Rightarrow> bool" where
  "any_guarantee G p s s' = (\<exists>i. G p i s s')"

locale cooperating =
  fixes effect :: "('c, 'r, 's) effect" and R G :: "'p \<Rightarrow> nat \<Rightarrow> 's \<Rightarrow> 's \<Rightarrow> bool"
    and Q :: "'p \<Rightarrow> nat \<Rightarrow> 'a \<Rightarrow> 's \<Rightarrow> bool" and starts :: "'p \<Rightarrow> ('c, 'r, 'a) prog list \<Rightarrow> 's \<Rightarrow> bool"
  assumes correct: "starts p ps s0 \<Longrightarrow> i < length ps \<Longrightarrow> wp (effect i) (R p i) (G p i) (Q p i) (ps ! i) s0"
    and compatible: "i \<noteq> j \<Longrightarrow> G p i s s' \<Longrightarrow> R p j s s'"
begin

text \<open>Every program stays correct, and every step is one that the program's guarantee allows.\<close>

lemma step_keeps_correct:
  assumes wp: "\<forall>i < length qs. wp (effect i) (R p i) (G p i) (Q p i) (qs ! i) s" and step: "pool_step effect (qs, s) (qs', s')"
  shows "(\<forall>i < length qs. wp (effect i) (R p i) (G p i) (Q p i) (qs' ! i) s') \<and> (\<exists>i < length qs. G p i s s')"
proof -
  from step obtain i c k r where i: "i < length qs" "qs ! i = Call c k" "effect i c s r s'" "qs' = qs[i := k r]"
    by (auto elim: pool_stepE)
  have "wp (effect i) (R p i) (G p i) (Q p i) (Call c k) s" using wp i(1,2) by metis
  then have G: "G p i s s'" and next_wp: "wp (effect i) (R p i) (G p i) (Q p i) (k r) s'" using i(3) by auto
  have "wp (effect j) (R p j) (G p j) (Q p j) (qs' ! j) s'" if j: "j < length qs" for j
  proof (cases "j = i")
    case True
    then show ?thesis using next_wp i(1,4) by simp
  next
    case False
    then have "R p j s s'" using compatible [of i j p s s'] G by simp
    then show ?thesis using wp_rely [OF wp [rule_format, OF j], of s'] False i(4) by (simp add: r_into_rtranclp)
  qed
  then show ?thesis using G i(1) by auto
qed

lemma reach_keeps_correct:
  assumes "starts p ps s0"
  shows "pool_reach effect (ps, s0) (qs, s) \<Longrightarrow>
     length qs = length ps \<and> (\<forall>i < length qs. wp (effect i) (R p i) (G p i) (Q p i) (qs ! i) s) \<and> (any_guarantee G p)\<^sup>*\<^sup>* s0 s"
proof (induction "(qs, s)" arbitrary: qs s rule: pool_reach.induct)
  case Start
  then show ?case using correct [OF assms] by auto
next
  case (Next cfg1)
  obtain qs1 s1 where cfg1: "cfg1 = (qs1, s1)" by force
  note IH = Next.hyps(2) [OF cfg1]
  have step: "pool_step effect (qs1, s1) (qs, s)" using Next.hyps(3) cfg1 by simp
  then have "length qs = length qs1" by (auto elim!: pool_stepE)
  moreover have "(\<forall>i < length qs1. wp (effect i) (R p i) (G p i) (Q p i) (qs ! i) s) \<and> (\<exists>i < length qs1. G p i s1 s)"
    by (rule step_keeps_correct [OF _ step]) (use IH in blast)
  moreover from calculation have "any_guarantee G p s1 s" by (auto simp: any_guarantee_def)
  ultimately show ?case using IH by (auto intro: rtranclp.rtrancl_into_rtrancl)
qed

lemma result_satisfies_post:
  assumes "starts p ps s0" and "pool_reach effect (ps, s0) (qs, s)" and "i < length ps" and "qs ! i = Done x"
  shows "Q p i x s"
  using reach_keeps_correct [OF assms(1,2)] assms(3,4) by (metis rtranclp.rtrancl_refl wp.simps(1))

lemma reachable_step_guarantee:
  assumes "starts p ps s0" and "pool_reach effect (ps, s0) (qs, s)" and "pool_step effect (qs, s) (qs', s')"
  shows "any_guarantee G p s s'"
  using step_keeps_correct [OF _ assms(3)] reach_keeps_correct [OF assms(1,2)] unfolding any_guarantee_def by blast

end

end
