(* ===== verification/Storage_Io.thy ===== *)
theory Storage_Io
  imports Tar_Archive Interleaving "HOL-Library.AList"
begin

text \<open>
  The world that \<open>crates/storage\<close> talks to: a POSIX file system with files, directories and symbolic links, and
  an S3 bucket. \<open>perform\<close> is what a call does when nothing goes wrong; \<open>outcome\<close> adds the ways in which it may
  fail. The file system and the bucket are the operating system's and the service's, so nothing here
  translates a line of the repository, apart from \<open>fs_utils.rs\<close> at the end. Every entry remembers the program
  that made it; this is a ghost that no program can read.
\<close>

section \<open>The world\<close>

type_synonym path = "string list"

record file_node =
  fn_bytes :: string
  fn_modified :: nat
  fn_author :: nat

datatype disk_node = DFile file_node | DDir | DLink path

type_synonym disk = "(path \<times> disk_node) list"

record world =
  wd_disk :: disk
  wd_bucket :: "(string \<times> file_node) list"
  wd_now :: nat

abbreviation node :: "world \<Rightarrow> path \<Rightarrow> disk_node option" where
  "node w \<equiv> map_of (wd_disk w)"

abbreviation object_at :: "world \<Rightarrow> string \<Rightarrow> file_node option" where
  "object_at w \<equiv> map_of (wd_bucket w)"

definition set_node :: "path \<Rightarrow> disk_node \<Rightarrow> world \<Rightarrow> world" where
  "set_node p x w = w\<lparr>wd_disk := AList.update p x (wd_disk w)\<rparr>"

definition drop_node :: "path \<Rightarrow> world \<Rightarrow> world" where
  "drop_node p w = w\<lparr>wd_disk := AList.delete p (wd_disk w)\<rparr>"

definition set_object :: "string \<Rightarrow> file_node \<Rightarrow> world \<Rightarrow> world" where
  "set_object k x w = w\<lparr>wd_bucket := AList.update k x (wd_bucket w)\<rparr>"

definition drop_object :: "string \<Rightarrow> world \<Rightarrow> world" where
  "drop_object k w = w\<lparr>wd_bucket := AList.delete k (wd_bucket w)\<rparr>"

lemma world_updates [simp]:
  "node (set_node p x w) = (node w)(p \<mapsto> x)" "node (drop_node p w) = (node w)(p := None)"
  "node (set_object k y w) = node w" "node (drop_object k w) = node w"
  "object_at (set_object k y w) = (object_at w)(k \<mapsto> y)" "object_at (drop_object k w) = (object_at w)(k := None)"
  "object_at (set_node p x w) = object_at w" "object_at (drop_node p w) = object_at w"
  by (simp_all add: set_node_def drop_node_def set_object_def drop_object_def update_conv' delete_conv')

section \<open>Paths and links\<close>

text \<open>Links are followed, at most forty of them; the last component only if \<open>follow\<close>. Targets are absolute.\<close>

function (sequential) resolve :: "(path \<Rightarrow> disk_node option) \<Rightarrow> bool \<Rightarrow> nat \<Rightarrow> path \<Rightarrow> path \<Rightarrow> path option" where
  "resolve d follow n seen [] = Some seen"
| "resolve d follow n seen (x # xs) =
     (case d (seen @ [x]) of
        Some (DLink t) \<Rightarrow>
          if xs = [] \<and> \<not> follow then Some (seen @ [x])
          else if n = 0 then None else resolve d follow (n - 1) [] (t @ xs)
      | _ \<Rightarrow> resolve d follow n (seen @ [x]) xs)"
  by pat_completeness auto
termination
  by (relation "measures [\<lambda>(d, follow, n, seen, xs). n, \<lambda>(d, follow, n, seen, xs). length xs]") auto

datatype io_kind = NotFound | AlreadyExists | OtherIo

definition ancestors :: "path \<Rightarrow> path list" where
  "ancestors q = map (\<lambda>k. take k q) [1..<length q]"

text \<open>The entry that a path names, if the directories above it exist.\<close>

definition locate :: "(path \<Rightarrow> disk_node option) \<Rightarrow> bool \<Rightarrow> path \<Rightarrow> io_kind + path" where
  "locate d follow p =
     (case resolve d follow 40 [] p of
        None \<Rightarrow> Inl OtherIo
      | Some q \<Rightarrow>
          (case find (\<lambda>a. d a \<noteq> Some DDir) (ancestors q) of
             None \<Rightarrow> Inr q
           | Some a \<Rightarrow> Inl (if d a = None then NotFound else OtherIo)))"

text \<open>\<open>create_dir_all\<close>: the directories that are missing on the way.\<close>

fun mkdirs :: "path \<Rightarrow> path \<Rightarrow> world \<Rightarrow> bool \<times> world" where
  "mkdirs seen [] w = (True, w)"
| "mkdirs seen (x # xs) w =
     (case node w (seen @ [x]) of
        None \<Rightarrow> mkdirs (seen @ [x]) xs (set_node (seen @ [x]) DDir w)
      | Some DDir \<Rightarrow> mkdirs (seen @ [x]) xs w
      | Some (DFile _) \<Rightarrow> (False, w)
      | Some (DLink _) \<Rightarrow>
          (case resolve (node w) True 40 [] (seen @ [x]) of
             Some q \<Rightarrow> if node w q = Some DDir then mkdirs q xs w else (False, w)
           | None \<Rightarrow> (False, w)))"

section \<open>Calls\<close>

datatype io_call =
  SymlinkMetadata path | Metadata path | TryExists path | CreateDirAll path | CreateNew path | WriteFile path string
| CopyFile path path | HardLink path path | RemoveFile path | ReadFile path
| S3Put string string | S3PutFile string path | S3Head string | S3Get string | S3Delete string | BodyRead string

datatype file_kind = IsFile | IsDir | IsSymlink

record s3_error =
  se_status :: "nat option"
  se_code :: "string option"
  se_not_found :: bool

datatype io_answer =
  AOk | AErr io_kind | AMeta file_kind nat nat | ABool bool | ALen nat | ABytes string | AHead "int option" | AS3Err s3_error

fun meta_of :: "disk_node \<Rightarrow> io_answer" where
  "meta_of (DFile f) = AMeta IsFile (length (fn_bytes f)) (fn_modified f)"
| "meta_of DDir = AMeta IsDir 0 0"
| "meta_of (DLink _) = AMeta IsSymlink 0 0"

definition with_entry ::
  "bool \<Rightarrow> path \<Rightarrow> world \<Rightarrow> (path \<Rightarrow> disk_node option \<Rightarrow> io_answer \<times> world) \<Rightarrow> io_answer \<times> world" where
  "with_entry follow p w f = (case locate (node w) follow p of Inl e \<Rightarrow> (AErr e, w) | Inr q \<Rightarrow> f q (node w q))"

definition new_file :: "nat \<Rightarrow> string \<Rightarrow> world \<Rightarrow> file_node" where
  "new_file i bytes w = \<lparr>fn_bytes = bytes, fn_modified = wd_now w, fn_author = i\<rparr>"

definition missing_or_other :: "disk_node option \<Rightarrow> io_answer" where
  "missing_or_other x = AErr (if x = None then NotFound else OtherIo)"

definition no_such_key :: s3_error where
  "no_such_key = \<lparr>se_status = Some 404, se_code = Some ''NoSuchKey'', se_not_found = True\<rparr>"

definition precondition_failed :: s3_error where
  "precondition_failed = \<lparr>se_status = Some 412, se_code = Some ''PreconditionFailed'', se_not_found = False\<rparr>"

text \<open>\<open>S3Put\<close> asks for \<open>If-None-Match: *\<close>. Reading a body hands out at most 64 KiB of what is left.\<close>

fun perform :: "nat \<Rightarrow> io_call \<Rightarrow> world \<Rightarrow> io_answer \<times> world" where
  "perform i (SymlinkMetadata p) w =
     with_entry False p w (\<lambda>q x. case x of None \<Rightarrow> (AErr NotFound, w) | Some n \<Rightarrow> (meta_of n, w))"
| "perform i (Metadata p) w =
     with_entry True p w (\<lambda>q x. case x of None \<Rightarrow> (AErr NotFound, w) | Some n \<Rightarrow> (meta_of n, w))"
| "perform i (TryExists p) w =
     (case locate (node w) True p of
        Inl NotFound \<Rightarrow> (ABool False, w)
      | Inl e \<Rightarrow> (AErr e, w)
      | Inr q \<Rightarrow> (ABool (node w q \<noteq> None), w))"
| "perform i (CreateDirAll p) w = (case mkdirs [] p w of (ok, w') \<Rightarrow> (if ok then AOk else AErr OtherIo, w'))"
| "perform i (CreateNew p) w =
     with_entry False p w (\<lambda>q x. if x \<noteq> None then (AErr AlreadyExists, w) else (AOk, set_node q (DFile (new_file i [] w)) w))"
| "perform i (WriteFile p bytes) w =
     with_entry False p w (\<lambda>q x. case x of
         Some (DFile f) \<Rightarrow> (AOk, set_node q (DFile (f\<lparr>fn_bytes := fn_bytes f @ bytes\<rparr>)) w)
       | _ \<Rightarrow> (AOk, w))"
| "perform i (CopyFile src p) w =
     with_entry True src w (\<lambda>_ s. case s of
         Some (DFile f) \<Rightarrow>
           with_entry True p w (\<lambda>q x. if x = Some DDir then (AErr OtherIo, w)
             else (ALen (length (fn_bytes f)), set_node q (DFile (new_file i (fn_bytes f) w)) w))
       | x \<Rightarrow> (missing_or_other x, w))"
| "perform i (HardLink a b) w =
     with_entry False a w (\<lambda>_ s. case s of
         None \<Rightarrow> (AErr NotFound, w)
       | Some DDir \<Rightarrow> (AErr OtherIo, w)
       | Some n \<Rightarrow> with_entry False b w (\<lambda>q x. if x \<noteq> None then (AErr AlreadyExists, w)
           else (AOk, set_node q (case n of DFile f \<Rightarrow> DFile (f\<lparr>fn_author := i\<rparr>) | _ \<Rightarrow> n) w)))"
| "perform i (RemoveFile p) w =
     with_entry False p w (\<lambda>q x. if x = None \<or> x = Some DDir then (missing_or_other x, w) else (AOk, drop_node q w))"
| "perform i (ReadFile p) w =
     with_entry True p w (\<lambda>q x. case x of Some (DFile f) \<Rightarrow> (ABytes (fn_bytes f), w) | _ \<Rightarrow> (missing_or_other x, w))"
| "perform i (S3Put k bytes) w =
     (if object_at w k \<noteq> None then (AS3Err precondition_failed, w) else (AOk, set_object k (new_file i bytes w) w))"
| "perform i (S3PutFile k p) w =
     with_entry True p w (\<lambda>q x. case x of
         Some (DFile f) \<Rightarrow>
           (if object_at w k \<noteq> None then (AS3Err precondition_failed, w) else (AOk, set_object k (new_file i (fn_bytes f) w) w))
       | _ \<Rightarrow> (missing_or_other x, w))"
| "perform i (S3Head k) w =
     (case object_at w k of None \<Rightarrow> (AS3Err no_such_key, w) | Some f \<Rightarrow> (AHead (Some (int (length (fn_bytes f)))), w))"
| "perform i (S3Get k) w = (case object_at w k of None \<Rightarrow> (AS3Err no_such_key, w) | Some f \<Rightarrow> (ABytes (fn_bytes f), w))"
| "perform i (S3Delete k) w = (AOk, drop_object k w)"
| "perform i (BodyRead rest) w = (ABytes (take 65536 rest), w)"

section \<open>Faults\<close>

text \<open>
  A call of the operating system may fail at any moment; directories may be created in part, files written in
  part. Only \<open>symlink_metadata\<close> is taken to be reliable: the code takes a failure of it to mean that there is
  no link. A request to the service may fail before or after it took effect; a put that was retried after its
  first answer was lost may report a conflict with itself. Errors that say that a key is missing are not made up.
\<close>

definition transient :: "s3_error \<Rightarrow> bool" where
  "transient e = (se_status e \<notin> {Some 404, Some 409, Some 412} \<and> se_code e \<notin> {Some ''NotFound'', Some ''NoSuchKey'', Some ''404''}
     \<and> se_code e \<notin> {Some ''ConditionalRequestConflict'', Some ''PreconditionFailed''} \<and> \<not> se_not_found e)"

definition partial_copy :: "nat \<Rightarrow> path \<Rightarrow> string \<Rightarrow> world \<Rightarrow> world \<Rightarrow> bool" where
  "partial_copy i p bytes w w' =
     (\<exists>q. locate (node w) True p = Inr q \<and> node w q \<noteq> Some DDir \<and> w' = set_node q (DFile (new_file i bytes w)) w)"

fun fault :: "nat \<Rightarrow> io_call \<Rightarrow> world \<Rightarrow> io_answer \<Rightarrow> world \<Rightarrow> bool" where
  "fault i (SymlinkMetadata p) w r w' = False"
| "fault i (CreateDirAll p) w r w' = (r = AErr OtherIo \<and> (\<exists>k. w' = snd (mkdirs [] (take k p) w)))"
| "fault i (WriteFile p bytes) w r w' = (r = AErr OtherIo \<and> (\<exists>k. w' = snd (perform i (WriteFile p (take k bytes)) w)))"
| "fault i (CopyFile src p) w r w' = (r = AErr OtherIo \<and> (w' = w \<or> (\<exists>bytes. partial_copy i p bytes w w')))"
| "fault i (S3Put k bytes) w r w' =
     ((\<exists>e. r = AS3Err e \<and> transient e) \<and> (w' = w \<or> w' = snd (perform i (S3Put k bytes) w))
      \<or> r = AS3Err precondition_failed \<and> w' = snd (perform i (S3Put k bytes) w))"
| "fault i (S3PutFile k p) w r w' =
     ((\<exists>e. r = AS3Err e \<and> transient e) \<and> (w' = w \<or> w' = snd (perform i (S3PutFile k p) w))
      \<or> r = AS3Err precondition_failed \<and> w' = snd (perform i (S3PutFile k p) w) \<or> r = AErr OtherIo \<and> w' = w)"
| "fault i (S3Head k) w r w' = ((\<exists>e. r = AS3Err e \<and> transient e) \<and> w' = w)"
| "fault i (S3Get k) w r w' = ((\<exists>e. r = AS3Err e \<and> transient e) \<and> w' = w)"
| "fault i (S3Delete k) w r w' = ((\<exists>e. r = AS3Err e \<and> transient e) \<and> (w' = w \<or> w' = drop_object k w))"
| "fault i (BodyRead rest) w r w' =
     (w' = w \<and> ((\<exists>e. r = AS3Err e \<and> transient e) \<or> (\<exists>k. 0 < k \<and> k \<le> 65536 \<and> r = ABytes (take k rest))))"
| "fault i c w r w' = (r = AErr OtherIo \<and> w' = w)"

text \<open>The clock may have moved since the last call.\<close>

definition outcome :: "nat \<Rightarrow> io_call \<Rightarrow> world \<Rightarrow> io_answer \<Rightarrow> world \<Rightarrow> bool" where
  "outcome i c w r w' = (\<exists>t. perform i c (w\<lparr>wd_now := t\<rparr>) = (r, w') \<or> fault i c (w\<lparr>wd_now := t\<rparr>) r w')"

section \<open>Paths without links\<close>

text \<open>No component of the path is a link; \<open>strict\<close> paths may end in one.\<close>

definition no_links :: "(path \<Rightarrow> disk_node option) \<Rightarrow> path \<Rightarrow> bool" where
  "no_links d p = (\<forall>k t. d (take k p) \<noteq> Some (DLink t))"

lemma resolve_plain:
  "(\<And>k t. length seen < k \<Longrightarrow> k \<le> length (seen @ xs) \<Longrightarrow> follow \<or> k < length (seen @ xs) \<Longrightarrow> d (take k (seen @ xs)) \<noteq> Some (DLink t)) \<Longrightarrow>
     resolve d follow n seen xs = Some (seen @ xs)"
proof (induction d follow n seen xs rule: resolve.induct)
  case (2 d follow n seen x xs)
  have here: "d (seen @ [x]) \<noteq> Some (DLink t)" if "follow \<or> xs \<noteq> []" for t
    using "2.prems" [of "Suc (length seen)"] that by auto
  show ?case
  proof (cases "\<exists>t. d (seen @ [x]) = Some (DLink t)")
    case True
    then obtain t where t: "d (seen @ [x]) = Some (DLink t)" by blast
    then have "\<not> follow" "xs = []" using here by blast+
    then show ?thesis using t by simp
  next
    case False
    have IH: "resolve d follow n (seen @ [x]) xs = Some ((seen @ [x]) @ xs)"
    proof (cases "d (seen @ [x])")
      case None
      show ?thesis by (rule "2.IH"(1) [OF None]) (use "2.prems" in auto)
    next
      case (Some y)
      show ?thesis
      proof (cases y)
        case (DFile f)
        show ?thesis by (rule "2.IH"(2) [OF Some DFile]) (use "2.prems" in auto)
      next
        case DDir
        show ?thesis by (rule "2.IH"(3) [OF Some DDir]) (use "2.prems" in auto)
      qed (use Some False in auto)
    qed
    then show ?thesis using False by (auto split: option.split disk_node.split)
  qed
qed simp

lemma no_links_resolve: "no_links d p \<Longrightarrow> resolve d follow n [] p = Some p"
  using resolve_plain [of "[]" p follow d n] by (simp add: no_links_def)

lemma no_links_parent_resolve: "no_links d (butlast p) \<Longrightarrow> p \<noteq> [] \<Longrightarrow> resolve d False n [] p = Some p"
  using resolve_plain [of "[]" p False d n] by (simp add: no_links_def butlast_conv_take min_def split: if_splits)

lemma locate_same: "resolve d follow 40 [] p = Some p \<Longrightarrow> locate d follow p = Inr q \<Longrightarrow> q = p"
  by (auto simp: locate_def split: option.splits)

lemma no_links_locate: "no_links d p \<Longrightarrow> locate d follow p = Inr q \<Longrightarrow> q = p"
  using locate_same no_links_resolve by blast

lemma no_links_parent_locate: "no_links d (butlast p) \<Longrightarrow> p \<noteq> [] \<Longrightarrow> locate d False p = Inr q \<Longrightarrow> q = p"
  using locate_same no_links_parent_resolve by blast

end
