(* ===== verification/Local_Storage.thy ===== *)
theory Local_Storage
  imports Storage_Io
begin

text \<open>
  Storage on the local file system, \<open>crates/storage/src/local.rs\<close> and \<open>fs_utils.rs\<close>. Every operation is the
  program of the system calls that it makes. A key is the list of its components; \<open>tmp\<close> is the random name
  that the operation chooses for its temporary file. The length of a byte slice fits into 64 bits.
\<close>

section \<open>Helpers\<close>

type_synonym 'a io = "(io_call, io_answer, storage_error + 'a) prog"

definition io_text :: "io_kind \<Rightarrow> string" where
  "io_text k = (case k of NotFound \<Rightarrow> ''not found'' | AlreadyExists \<Rightarrow> ''already exists'' | OtherIo \<Rightarrow> ''input/output error'')"

definition io_error :: "io_kind \<Rightarrow> storage_error" where
  "io_error k = StIo (io_text k)"

text \<open>A call whose failure is returned as it is.\<close>

definition unit_call :: "io_call \<Rightarrow> unit io" where
  "unit_call c = bind_prog (call c) (\<lambda>r. Done (case r of AErr k \<Rightarrow> Inl (io_error k) | _ \<Rightarrow> Inr ()))"

definition bool_call :: "io_call \<Rightarrow> bool io" where
  "bool_call c = bind_prog (call c) (\<lambda>r. Done (case r of AErr k \<Rightarrow> Inl (io_error k) | ABool b \<Rightarrow> Inr b | _ \<Rightarrow> Inl (io_error OtherIo)))"

definition len_call :: "io_call \<Rightarrow> nat io" where
  "len_call c = bind_prog (call c) (\<lambda>r. Done (case r of
     AErr k \<Rightarrow> Inl (io_error k) | ALen n \<Rightarrow> Inr n | AMeta _ n _ \<Rightarrow> Inr n | _ \<Rightarrow> Inl (io_error OtherIo)))"

definition bytes_call :: "io_call \<Rightarrow> string io" where
  "bytes_call c = bind_prog (call c) (\<lambda>r. Done (case r of AErr k \<Rightarrow> Inl (io_error k) | ABytes b \<Rightarrow> Inr b | _ \<Rightarrow> Inl (io_error OtherIo)))"

definition check :: "storage_error + unit \<Rightarrow> unit io" where
  "check r = Done r"

fun reject_links_from :: "path \<Rightarrow> path \<Rightarrow> unit io" where
  "reject_links_from current [] = Done (Inr ())"
| "reject_links_from current (part # parts) =
     bind_prog (call (SymlinkMetadata (current @ [part]))) (\<lambda>r. case r of
         AMeta IsSymlink _ _ \<Rightarrow> Done (Inl (StSymlinkRejected (''storage key resolves through a symlink: '' @ path_text (current @ [part]))))
       | _ \<Rightarrow> reject_links_from (current @ [part]) parts)"

definition reject_symlink_prefixes :: "path \<Rightarrow> path \<Rightarrow> unit io" where
  "reject_symlink_prefixes base key = reject_links_from base (butlast key)"

definition reject_symlink_object :: "path \<Rightarrow> unit io" where
  "reject_symlink_object full =
     bind_prog (call (SymlinkMetadata full)) (\<lambda>r. case r of
         AMeta IsSymlink _ _ \<Rightarrow> Done (Inl (StSymlinkRejected (''storage key resolves to a symlink: '' @ path_text full)))
       | _ \<Rightarrow> Done (Inr ()))"

section \<open>Temporary files\<close>

definition write_private_file :: "path \<Rightarrow> string \<Rightarrow> unit io" where
  "write_private_file p content = try_prog (unit_call (CreateNew p)) (\<lambda>_. unit_call (WriteFile p content))"

definition finalize_local_temp_without_overwrite :: "path \<Rightarrow> path \<Rightarrow> string \<Rightarrow> unit io" where
  "finalize_local_temp_without_overwrite temporary dest label =
     bind_prog (call (HardLink temporary dest)) (\<lambda>r. case r of
         AErr AlreadyExists \<Rightarrow> Done (Inl (StObjectConflict label))
       | AErr k \<Rightarrow> Done (Inl (io_error k))
       | _ \<Rightarrow>
           bind_prog (call (RemoveFile temporary)) (\<lambda>r. case r of
               AErr k \<Rightarrow>
                 bind_prog (call (RemoveFile dest)) (\<lambda>r. case r of
                     AErr k' \<Rightarrow> if k' \<noteq> NotFound then Done (Inl (io_error k')) else Done (Inl (io_error k))
                   | _ \<Rightarrow> Done (Inl (io_error k)))
             | _ \<Rightarrow> Done (Inr ())))"

definition cleanup_temp_file_on_error :: "unit io \<Rightarrow> path \<Rightarrow> unit io" where
  "cleanup_temp_file_on_error p temporary =
     bind_prog p (\<lambda>x. case x of
         Inr _ \<Rightarrow> Done (Inr ())
       | Inl e \<Rightarrow>
           bind_prog (call (RemoveFile temporary)) (\<lambda>r. case r of
               AErr k \<Rightarrow> if k \<noteq> NotFound then Done (Inl (io_error k)) else Done (Inl e)
             | _ \<Rightarrow> Done (Inl e)))"

section \<open>Operations\<close>

definition put_local_bytes :: "path \<Rightarrow> path \<Rightarrow> string \<Rightarrow> string \<Rightarrow> unit io" where
  "put_local_bytes base key tmp content =
     (let full = base @ key; parent = butlast full; temporary = parent @ [tmp]
      in try_prog (reject_symlink_prefixes base key) (\<lambda>_.
         try_prog (unit_call (CreateDirAll parent)) (\<lambda>_.
         try_prog (reject_symlink_prefixes base key) (\<lambda>_.
         try_prog (reject_symlink_object full) (\<lambda>_.
         try_prog (bool_call (TryExists full)) (\<lambda>exists.
         if exists then Done (Inl (StObjectConflict (path_text key)))
         else cleanup_temp_file_on_error
           (try_prog (write_private_file temporary content) (\<lambda>_.
            try_prog (reject_symlink_prefixes base key) (\<lambda>_.
            try_prog (reject_symlink_object full) (\<lambda>_.
            finalize_local_temp_without_overwrite temporary full (path_text key))))) temporary))))))"

definition local_put :: "path \<Rightarrow> path \<Rightarrow> string \<Rightarrow> string \<Rightarrow> write_intent \<Rightarrow> path io" where
  "local_put base key tmp content i =
     try_prog (check (ensure_len i (length content))) (\<lambda>_.
     try_prog (put_local_bytes base key tmp content) (\<lambda>_. Done (Inr key)))"

definition local_put_file :: "path \<Rightarrow> path \<Rightarrow> string \<Rightarrow> path \<Rightarrow> write_intent \<Rightarrow> path io" where
  "local_put_file base key tmp source i =
     (let full = base @ key; parent = butlast full; temporary = parent @ [tmp]
      in try_prog (len_call (Metadata source)) (\<lambda>len.
         try_prog (check (ensure_len i len)) (\<lambda>_.
         try_prog (reject_symlink_prefixes base key) (\<lambda>_.
         try_prog (unit_call (CreateDirAll parent)) (\<lambda>_.
         try_prog (reject_symlink_prefixes base key) (\<lambda>_.
         try_prog (reject_symlink_object full) (\<lambda>_.
         try_prog (bool_call (TryExists full)) (\<lambda>exists.
         if exists then Done (Inl (StObjectConflict (path_text key)))
         else try_prog (cleanup_temp_file_on_error
           (try_prog (len_call (CopyFile source temporary)) (\<lambda>copied.
            if copied \<noteq> len
            then Done (Inl (StInternal (''local source file length changed while storing '' @ path_text key @ '': expected ''
              @ show_nat len @ '', copied '' @ show_nat copied)))
            else
              try_prog (reject_symlink_prefixes base key) (\<lambda>_.
              try_prog (reject_symlink_object full) (\<lambda>_.
              finalize_local_temp_without_overwrite temporary full (path_text key))))) temporary) (\<lambda>_. Done (Inr key))))))))))"

definition local_promote :: "path \<Rightarrow> path \<Rightarrow> path \<Rightarrow> path io" where
  "local_promote base temporary_key durable_key =
     (let temporary_full = base @ temporary_key; durable_full = base @ durable_key
      in try_prog (reject_symlink_prefixes base temporary_key) (\<lambda>_.
         try_prog (reject_symlink_object temporary_full) (\<lambda>_.
         try_prog (reject_symlink_prefixes base durable_key) (\<lambda>_.
         try_prog (unit_call (CreateDirAll (butlast durable_full))) (\<lambda>_.
         try_prog (reject_symlink_prefixes base durable_key) (\<lambda>_.
         try_prog (reject_symlink_object durable_full) (\<lambda>_.
         try_prog (bool_call (TryExists temporary_full)) (\<lambda>exists.
         if \<not> exists then Done (Inl (StObjectNotFound (path_text temporary_key)))
         else try_prog (bool_call (TryExists durable_full)) (\<lambda>taken.
         if taken then Done (Inl (StObjectConflict (path_text durable_key)))
         else try_prog (finalize_local_temp_without_overwrite temporary_full durable_full (path_text durable_key)) (\<lambda>_.
         Done (Inr durable_key)))))))))))"

definition object_metadata :: "path \<Rightarrow> path \<Rightarrow> nat io" where
  "object_metadata full key =
     bind_prog (call (Metadata full)) (\<lambda>r. Done (case r of
         AMeta _ n _ \<Rightarrow> Inr n
       | AErr NotFound \<Rightarrow> Inl (StObjectNotFound (path_text key))
       | AErr k \<Rightarrow> Inl (io_error k)
       | _ \<Rightarrow> Inl (io_error OtherIo)))"

definition local_get :: "path \<Rightarrow> path \<Rightarrow> write_intent \<Rightarrow> string io" where
  "local_get base key i =
     (let full = base @ key
      in try_prog (reject_symlink_prefixes base key) (\<lambda>_.
         try_prog (reject_symlink_object full) (\<lambda>_.
         try_prog (object_metadata full key) (\<lambda>len.
         try_prog (check (ensure_len i len)) (\<lambda>_.
         try_prog (bytes_call (ReadFile full)) (\<lambda>bytes.
         try_prog (check (ensure_len i (length bytes))) (\<lambda>_.
         Done (if length bytes \<noteq> len
           then Inl (StInternal (''local object length changed while reading '' @ path_text key @ '': expected ''
             @ show_nat len @ '', read '' @ show_nat (length bytes)))
           else Inr bytes))))))))"

text \<open>The copy into the destination; \<open>temporary\<close> is the destination with a random extension.\<close>

definition local_get_to_file :: "path \<Rightarrow> path \<Rightarrow> path \<Rightarrow> path \<Rightarrow> write_intent \<Rightarrow> unit io" where
  "local_get_to_file base key dest temporary i =
     (let full = base @ key
      in try_prog (reject_symlink_prefixes base key) (\<lambda>_.
         try_prog (reject_symlink_object full) (\<lambda>_.
         try_prog (object_metadata full key) (\<lambda>len.
         try_prog (check (ensure_len i len)) (\<lambda>_.
         try_prog (unit_call (CreateDirAll (butlast dest))) (\<lambda>_.
         cleanup_temp_file_on_error
           (try_prog (bool_call (TryExists dest)) (\<lambda>exists.
            if exists then Done (Inl (StObjectConflict (path_text dest)))
            else try_prog (bytes_call (ReadFile full)) (\<lambda>bytes.
              try_prog (write_private_file temporary bytes) (\<lambda>_.
              if length bytes \<noteq> len
              then Done (Inl (StInternal (''local object length changed while downloading '' @ path_text key @ '': expected ''
                @ show_nat len @ '', copied '' @ show_nat (length bytes))))
              else finalize_local_temp_without_overwrite temporary dest (path_text dest))))) temporary))))))"

definition local_exists :: "path \<Rightarrow> path \<Rightarrow> bool io" where
  "local_exists base key =
     try_prog (reject_symlink_prefixes base key) (\<lambda>_.
     bind_prog (call (SymlinkMetadata (base @ key))) (\<lambda>r. Done (Inr (case r of AMeta k _ _ \<Rightarrow> k \<noteq> IsSymlink | _ \<Rightarrow> False))))"

definition local_delete :: "path \<Rightarrow> path \<Rightarrow> unit io" where
  "local_delete base key =
     try_prog (reject_symlink_prefixes base key) (\<lambda>_.
     try_prog (reject_symlink_object (base @ key)) (\<lambda>_.
     bind_prog (call (RemoveFile (base @ key))) (\<lambda>r. Done (case r of
         AErr NotFound \<Rightarrow> Inr ()
       | AErr k \<Rightarrow> Inl (io_error k)
       | _ \<Rightarrow> Inr ()))))"

section \<open>Operations side by side\<close>

text \<open>One request to a storage, with the random names that it will use.\<close>

datatype storage_op =
  OpPut path string string write_intent
| OpPutFile path string path write_intent
| OpPromote path path
| OpGet path write_intent
| OpGetToFile path path path write_intent
| OpExists path
| OpDelete path

datatype storage_value = VKey path | VBytes string | VBool bool | VUnit

definition returning :: "('a \<Rightarrow> storage_value) \<Rightarrow> 'a io \<Rightarrow> storage_value io" where
  "returning f p = try_prog p (\<lambda>x. Done (Inr (f x)))"

fun local_prog :: "path \<Rightarrow> storage_op \<Rightarrow> storage_value io" where
  "local_prog base (OpPut key tmp content i) = returning VKey (local_put base key tmp content i)"
| "local_prog base (OpPutFile key tmp source i) = returning VKey (local_put_file base key tmp source i)"
| "local_prog base (OpPromote temporary_key durable_key) = returning VKey (local_promote base temporary_key durable_key)"
| "local_prog base (OpGet key i) = returning VBytes (local_get base key i)"
| "local_prog base (OpGetToFile key dest temporary i) = returning (\<lambda>_. VUnit) (local_get_to_file base key dest temporary i)"
| "local_prog base (OpExists key) = returning VBool (local_exists base key)"
| "local_prog base (OpDelete key) = returning (\<lambda>_. VUnit) (local_delete base key)"

end
