(* ===== verification/Local_Rely.thy ===== *)
theory Local_Rely
  imports Local_Storage
begin

text \<open>
  What storage operations on one directory tree may rely on and what they guarantee: links and directories
  stay, nothing changes outside an area, an entry below a key only comes as a whole file and only goes as a
  whole, temporary files belong to one operation, and protected keys are only taken away by the operation
  that brought them.
\<close>

section \<open>The protocol\<close>

record protocol =
  pr_base :: path
  pr_ops :: "storage_op list"
  pr_keys :: "path set"
  pr_allowed :: "path \<Rightarrow> string set"
  pr_area :: "path set"
  pr_start :: world

fun op_temp :: "path \<Rightarrow> storage_op \<Rightarrow> path option" where
  "op_temp base (OpPut key tmp content i) = Some (butlast (base @ key) @ [tmp])"
| "op_temp base (OpPutFile key tmp source i) = Some (butlast (base @ key) @ [tmp])"
| "op_temp base (OpGetToFile key dest temporary i) = Some temporary"
| "op_temp base _ = None"

definition pr_temp :: "protocol \<Rightarrow> nat \<Rightarrow> path option" where
  "pr_temp pr i = (if i < length (pr_ops pr) then op_temp (pr_base pr) (pr_ops pr ! i) else None)"

definition temps :: "protocol \<Rightarrow> path set" where
  "temps pr = {t. \<exists>i. pr_temp pr i = Some t}"

definition same_links :: "world \<Rightarrow> world \<Rightarrow> bool" where
  "same_links w w' = (\<forall>p t. node w' p = Some (DLink t) \<longleftrightarrow> node w p = Some (DLink t))"

definition legal_change :: "protocol \<Rightarrow> nat \<Rightarrow> path \<Rightarrow> disk_node option \<Rightarrow> disk_node option \<Rightarrow> bool" where
  "legal_change pr i p x x' =
     (x = None \<and> x' = Some DDir \<and> p \<notin> temps pr
      \<or> pr_temp pr i = Some p \<and> x \<noteq> Some DDir \<and> x' \<noteq> Some DDir
      \<or> p \<notin> temps pr \<and> x = None \<and> (\<exists>f. x' = Some (DFile f) \<and> fn_author f = i \<and> fn_bytes f \<in> pr_allowed pr p)
      \<or> p \<notin> temps pr \<and> (\<exists>f. x = Some (DFile f) \<and> (p \<in> pr_keys pr \<longrightarrow> fn_author f = i)) \<and> x' = None)"

definition guar :: "protocol \<Rightarrow> nat \<Rightarrow> world \<Rightarrow> world \<Rightarrow> bool" where
  "guar pr i w w' = (same_links w w' \<and> (\<forall>p. node w' p \<noteq> node w p \<longrightarrow> p \<in> pr_area pr \<and> legal_change pr i p (node w p) (node w' p)))"

definition rely :: "protocol \<Rightarrow> nat \<Rightarrow> world \<Rightarrow> world \<Rightarrow> bool" where
  "rely pr i w w' = (\<exists>j. j \<noteq> i \<and> guar pr j w w')"

text \<open>What holds all the time: about the disk, and about the operation's own temporary file.\<close>

definition sane :: "protocol \<Rightarrow> bool" where
  "sane pr = ((\<forall>i j t. pr_temp pr i = Some t \<longrightarrow> pr_temp pr j = Some t \<longrightarrow> i = j) \<and> pr_keys pr \<inter> temps pr = {})"

definition link_parents :: "world \<Rightarrow> bool" where
  "link_parents w = (\<forall>p t k. node w p = Some (DLink t) \<longrightarrow> 0 < k \<longrightarrow> k < length p \<longrightarrow> node w (take k p) = Some DDir)"

definition contents_allowed :: "protocol \<Rightarrow> world \<Rightarrow> bool" where
  "contents_allowed pr w = (\<forall>p f. p \<notin> temps pr \<longrightarrow> node w p = Some (DFile f) \<longrightarrow> fn_bytes f \<in> pr_allowed pr p)"

definition plain :: "world \<Rightarrow> path \<Rightarrow> bool" where
  "plain w p = (\<forall>t. node w p \<noteq> Some (DLink t))"

definition temp_plain :: "protocol \<Rightarrow> nat \<Rightarrow> world \<Rightarrow> bool" where
  "temp_plain pr i w = (\<forall>t. pr_temp pr i = Some t \<longrightarrow> plain w t \<and> node w t \<noteq> Some DDir)"

definition calm :: "protocol \<Rightarrow> nat \<Rightarrow> world \<Rightarrow> bool" where
  "calm pr i w = (sane pr \<and> link_parents w \<and> contents_allowed pr w \<and> no_links (node w) (pr_base pr) \<and> temp_plain pr i w)"

lemma calm_cong: "node w' = node w \<Longrightarrow> calm pr i w' = calm pr i w"
  by (simp add: calm_def link_parents_def contents_allowed_def temp_plain_def plain_def)

section \<open>Stability\<close>

lemma guar_refl: "node w' = node w \<Longrightarrow> guar pr i w w'"
  by (simp add: guar_def same_links_def)

lemma guar_change: "guar pr i w w' \<Longrightarrow> node w' p \<noteq> node w p \<Longrightarrow> p \<in> pr_area pr \<and> legal_change pr i p (node w p) (node w' p)"
  by (simp add: guar_def)

lemma rely_change: "rely pr i w w' \<Longrightarrow> node w' p \<noteq> node w p \<Longrightarrow> \<exists>j. j \<noteq> i \<and> p \<in> pr_area pr \<and> legal_change pr j p (node w p) (node w' p)"
  using guar_change by (auto simp: rely_def)

lemma guar_plain: "guar pr i w w' \<Longrightarrow> plain w p \<longleftrightarrow> plain w' p"
  by (simp add: guar_def same_links_def plain_def)

lemma guar_no_links: "guar pr i w w' \<Longrightarrow> no_links (node w') p \<longleftrightarrow> no_links (node w) p"
  by (simp add: guar_def same_links_def no_links_def)

lemma guar_dir:
  assumes "guar pr i w w'" and "node w p = Some DDir"
  shows "node w' p = Some DDir"
proof (rule ccontr)
  assume "node w' p \<noteq> Some DDir"
  then have "legal_change pr i p (node w p) (node w' p)" using guar_change [OF assms(1)] assms(2) by metis
  then show False using assms(2) by (auto simp: legal_change_def)
qed

lemma guar_link_parents: "guar pr i w w' \<Longrightarrow> link_parents w \<Longrightarrow> link_parents w'"
  unfolding link_parents_def using guar_dir by (metis guar_def same_links_def)

lemma guar_contents:
  assumes "guar pr i w w'" and "contents_allowed pr w"
  shows "contents_allowed pr w'"
  unfolding contents_allowed_def
proof (intro allI impI)
  fix p f assume p: "p \<notin> temps pr" "node w' p = Some (DFile f)"
  show "fn_bytes f \<in> pr_allowed pr p"
  proof (cases "node w' p = node w p")
    case True
    then have "node w p = Some (DFile f)" using p(2) by simp
    then show ?thesis using assms(2) p(1) unfolding contents_allowed_def by blast
  next
    case False
    then have "legal_change pr i p (node w p) (node w' p)" using assms(1) by (auto simp: guar_def)
    then show ?thesis using p by (auto simp: legal_change_def temps_def)
  qed
qed

lemma rely_temp:
  assumes "sane pr" and "pr_temp pr i = Some t" and "rely pr i w w'"
  shows "node w' t = node w t"
proof (rule ccontr)
  assume "node w' t \<noteq> node w t"
  then obtain j where "j \<noteq> i" "legal_change pr j t (node w t) (node w' t)" using rely_change [OF assms(3)] by blast
  then show False using assms(1,2) by (auto simp: legal_change_def sane_def temps_def)
qed

lemma rely_protected:
  assumes "sane pr" and "p \<in> pr_keys pr" and "node w p = Some (DFile f)" and "fn_author f = i" and "rely pr i w w'"
  shows "node w' p = Some (DFile f)"
proof (rule ccontr)
  assume "node w' p \<noteq> Some (DFile f)"
  then obtain j where "j \<noteq> i" "legal_change pr j p (node w p) (node w' p)" using rely_change [OF assms(5), of p] assms(3) by auto
  then show False using assms by (auto simp: legal_change_def sane_def temps_def)
qed

lemma rely_outside: "rely pr i w w' \<Longrightarrow> p \<notin> pr_area pr \<Longrightarrow> node w' p = node w p"
  by (auto simp: rely_def guar_def)

lemma rely_calm:
  assumes "rely pr i w w'" and "calm pr i w"
  shows "calm pr i w'"
proof -
  from assms(1) obtain j where g: "guar pr j w w'" by (auto simp: rely_def)
  have "temp_plain pr i w'"
    using assms(2) rely_temp [OF _ _ assms(1)] unfolding calm_def temp_plain_def plain_def by metis
  then show ?thesis using assms(2) guar_link_parents [OF g] guar_contents [OF g] guar_no_links [OF g] by (simp add: calm_def)
qed

lemma rely_plain: "rely pr i w w' \<Longrightarrow> plain w p \<Longrightarrow> plain w' p"
  using guar_plain by (auto simp: rely_def)

lemma rely_no_links: "rely pr i w w' \<Longrightarrow> no_links (node w) p \<Longrightarrow> no_links (node w') p"
  using guar_no_links by (auto simp: rely_def)

section \<open>Assertions\<close>

text \<open>
  Assertions are conjunctions of facts that the rely keeps: the paths known to have no link above them, the
  entries known not to be links, what the operation's own file holds, the sources outside the area.
\<close>

definition own_file :: "protocol \<Rightarrow> nat \<Rightarrow> string \<Rightarrow> world \<Rightarrow> bool" where
  "own_file pr i b w = (\<exists>t f. pr_temp pr i = Some t \<and> node w t = Some (DFile f) \<and> fn_bytes f = b)"

definition mine :: "protocol \<Rightarrow> nat \<Rightarrow> path \<Rightarrow> string set \<Rightarrow> world \<Rightarrow> bool" where
  "mine pr i p B w = (p \<in> pr_keys pr \<longrightarrow> (\<exists>f. node w p = Some (DFile f) \<and> fn_author f = i \<and> fn_bytes f \<in> B))"

definition outside_same :: "protocol \<Rightarrow> world \<Rightarrow> bool" where
  "outside_same pr w = (\<forall>p. p \<notin> pr_area pr \<longrightarrow> node w p = node (pr_start pr) p)"

definition holds :: "protocol \<Rightarrow> nat \<Rightarrow> path set \<Rightarrow> path set \<Rightarrow> string option \<Rightarrow> (path \<times> string set) set \<Rightarrow> world \<Rightarrow> bool" where
  "holds pr i cl pl tm mi w =
     (calm pr i w \<and> outside_same pr w \<and> (\<forall>p \<in> cl. no_links (node w) p) \<and> (\<forall>p \<in> pl. plain w p)
      \<and> (\<forall>b. tm = Some b \<longrightarrow> own_file pr i b w) \<and> (\<forall>x \<in> mi. mine pr i (fst x) (snd x) w))"

lemma holds_cong:
  assumes "node w' = node w"
  shows "holds pr i cl pl tm mi w' = holds pr i cl pl tm mi w"
  by (simp only: holds_def calm_cong [OF assms] plain_def own_file_def mine_def outside_same_def assms)

lemma rely_own_file: "rely pr i w w' \<Longrightarrow> sane pr \<Longrightarrow> own_file pr i b w \<Longrightarrow> own_file pr i b w'"
  using rely_temp unfolding own_file_def by metis

lemma rely_mine:
  assumes "rely pr i w w'" and "sane pr" and "mine pr i p B w"
  shows "mine pr i p B w'"
  unfolding mine_def
proof
  assume p: "p \<in> pr_keys pr"
  then obtain f where f: "node w p = Some (DFile f)" "fn_author f = i" "fn_bytes f \<in> B" using assms(3) by (auto simp: mine_def)
  then show "\<exists>f. node w' p = Some (DFile f) \<and> fn_author f = i \<and> fn_bytes f \<in> B" using rely_protected [OF assms(2) p f(1,2) assms(1)] by auto
qed

lemma rely_outside_same: "rely pr i w w' \<Longrightarrow> outside_same pr w \<Longrightarrow> outside_same pr w'"
  using rely_outside unfolding outside_same_def by metis

lemma holds_stable: "stable (rely pr i) (holds pr i cl pl tm mi)"
  unfolding stable_def
proof (intro allI impI)
  fix w w' assume h: "holds pr i cl pl tm mi w" and r: "rely pr i w w'"
  have sane: "sane pr" using h by (simp add: holds_def calm_def)
  from h show "holds pr i cl pl tm mi w'"
    using rely_calm [OF r] rely_plain [OF r] rely_no_links [OF r] rely_own_file [OF r sane] rely_mine [OF r sane] rely_outside_same [OF r]
    unfolding holds_def by blast
qed

lemma holds_mono:
  "holds pr i cl pl tm mi w \<Longrightarrow> cl' \<subseteq> cl \<Longrightarrow> pl' \<subseteq> pl \<Longrightarrow> tm' = None \<or> tm' = tm \<Longrightarrow> mi' \<subseteq> mi \<Longrightarrow> holds pr i cl' pl' tm' mi' w"
  unfolding holds_def by blast

text \<open>After a step of its own an operation knows again what the step did not touch.\<close>

lemma guar_holds:
  assumes "holds pr i cl pl tm mi w" and "guar pr i w w'" and "temp_plain pr i w'"
    and "\<And>b. tm' = Some b \<Longrightarrow> own_file pr i b w'" and "\<And>p B. (p, B) \<in> mi' \<Longrightarrow> mine pr i p B w'"
  shows "holds pr i cl pl tm' mi' w'"
proof -
  have "calm pr i w'"
    using assms(1-3) guar_link_parents [OF assms(2)] guar_contents [OF assms(2)] guar_no_links [OF assms(2)] by (simp add: holds_def calm_def)
  moreover have "outside_same pr w'" using assms(1) guar_change [OF assms(2)] unfolding holds_def outside_same_def by metis
  ultimately show ?thesis using assms guar_plain [OF assms(2)] guar_no_links [OF assms(2)] by (auto simp: holds_def)
qed

lemma guar_upd:
  assumes "node w' = (node w)(p := x')" and "p \<in> pr_area pr" and "plain w p" and "\<And>t. x' \<noteq> Some (DLink t)"
    and "legal_change pr i p (node w p) x'"
  shows "guar pr i w w'"
  using assms by (auto simp: guar_def same_links_def plain_def)

section \<open>Rules for calls\<close>

definition one_step :: "nat \<Rightarrow> io_call \<Rightarrow> world \<Rightarrow> io_answer \<Rightarrow> world \<Rightarrow> bool" where
  "one_step i c w r w' = (perform i c w = (r, w') \<or> fault i c w r w')"

lemma guar_cong: "node w1 = node w \<Longrightarrow> guar pr i w1 w' = guar pr i w w'"
  by (simp add: guar_def same_links_def)

text \<open>The result of an operation: its postcondition, or an error and what is known then.\<close>

definition ok_or_err :: "('a \<Rightarrow> world \<Rightarrow> bool) \<Rightarrow> (world \<Rightarrow> bool) \<Rightarrow> storage_error + 'a \<Rightarrow> world \<Rightarrow> bool" where
  "ok_or_err P E x = (case x of Inl e \<Rightarrow> E | Inr a \<Rightarrow> P a)"

lemma ok_or_err_simps [simp]: "ok_or_err P E (Inl e) = E" "ok_or_err P E (Inr a) = P a"
  by (simp_all add: ok_or_err_def)

definition lsat :: "protocol \<Rightarrow> nat \<Rightarrow> (world \<Rightarrow> bool) \<Rightarrow> (io_call, io_answer, 'a) prog \<Rightarrow> ('a \<Rightarrow> world \<Rightarrow> bool) \<Rightarrow> bool" where
  "lsat pr i = sat (outcome i) (rely pr i) (guar pr i)"

lemma lsat_call:
  assumes "\<And>w r w'. holds pr i cl pl tm mi w \<Longrightarrow> one_step i c w r w' \<Longrightarrow> guar pr i w w' \<and> P r w'" and "\<And>r. stable (rely pr i) (P r)"
  shows "lsat pr i (holds pr i cl pl tm mi) (call c) P"
  unfolding lsat_def
proof (rule sat_call [OF holds_stable _ assms(2)])
  fix w r w' assume h: "holds pr i cl pl tm mi w" and "outcome i c w r w'"
  then obtain t where step: "one_step i c (w\<lparr>wd_now := t\<rparr>) r w'" by (auto simp: outcome_def one_step_def)
  have "holds pr i cl pl tm mi (w\<lparr>wd_now := t\<rparr>)" using h holds_cong [of "w\<lparr>wd_now := t\<rparr>" w] by simp
  from assms(1) [OF this step] show "guar pr i w w' \<and> P r w'" using guar_cong [of "w\<lparr>wd_now := t\<rparr>" w] by simp
qed

lemma lsat_done: "stable (rely pr i) P \<Longrightarrow> (\<And>w. P w \<Longrightarrow> Q x w) \<Longrightarrow> lsat pr i P (Done x) Q"
  unfolding lsat_def by (rule sat_done)

lemma lsat_bind: "lsat pr i P p Q' \<Longrightarrow> (\<And>x. lsat pr i (Q' x) (f x) Q) \<Longrightarrow> lsat pr i P (bind_prog p f) Q"
  unfolding lsat_def by (rule sat_bind)

lemma lsat_try:
  assumes "lsat pr i P p (ok_or_err P' E)" and "\<And>a. lsat pr i (P' a) (f a) (ok_or_err Q E)" and "stable (rely pr i) E"
  shows "lsat pr i P (try_prog p f) (ok_or_err Q E)"
  unfolding lsat_def by (rule sat_try [OF assms(1) [unfolded lsat_def]]) (use assms(2,3) in \<open>auto simp: lsat_def intro: sat_done\<close>)

lemma lsat_pre: "lsat pr i P p Q \<Longrightarrow> (\<And>w. P' w \<Longrightarrow> P w) \<Longrightarrow> lsat pr i P' p Q"
  unfolding lsat_def by (rule sat_pre)

lemma lsat_post: "lsat pr i P p Q \<Longrightarrow> (\<And>x w. Q x w \<Longrightarrow> Q' x w) \<Longrightarrow> lsat pr i P p Q'"
  unfolding lsat_def by (rule sat_post)

lemma lsat_result:
  "lsat pr i P p (ok_or_err Q E) \<Longrightarrow> (\<And>a w. Q a w \<Longrightarrow> Q' a w) \<Longrightarrow> (\<And>w. E w \<Longrightarrow> E' w) \<Longrightarrow> lsat pr i P p (ok_or_err Q' E')"
  by (erule lsat_post) (auto simp: ok_or_err_def split: sum.splits)

lemma stable_conj_pure: "stable R P \<Longrightarrow> stable R (\<lambda>w. P w \<and> b)"
  by (auto simp: stable_def)

lemma lsat_pure: "(b \<Longrightarrow> lsat pr i P p Q) \<Longrightarrow> lsat pr i (\<lambda>w. P w \<and> b) p Q"
  by (auto simp: lsat_def sat_def)

end
