(* ===== verification/Local_Calls.thy ===== *)
theory Local_Calls
  imports Local_Rely
begin

text \<open>
  What each system call does for an operation that keeps the protocol: the calls that only look, and the calls
  that make directories, write and copy the temporary file, link it and remove it.
\<close>

lemma no_links_snoc: "no_links d (butlast p) \<Longrightarrow> (\<And>t. d p \<noteq> Some (DLink t)) \<Longrightarrow> no_links d p"
  unfolding no_links_def
proof (intro allI notI)
  fix k t assume a: "\<forall>k t. d (take k (butlast p)) \<noteq> Some (DLink t)" "\<And>t. d p \<noteq> Some (DLink t)" "d (take k p) = Some (DLink t)"
  then have "k < length p" using a(2) by (metis linorder_not_less take_all)
  then have "take k p = take k (butlast p)" by (cases p rule: rev_cases) simp_all
  then show False using a(1,3) by metis
qed

lemma holds_clear: "holds pr i cl pl tm mi w \<Longrightarrow> p \<in> cl \<Longrightarrow> no_links (node w) p"
  by (simp add: holds_def)

lemma holds_clear_entry: "holds pr i cl pl tm mi w \<Longrightarrow> butlast p \<in> cl \<Longrightarrow> p \<in> pl \<Longrightarrow> no_links (node w) p"
  by (rule no_links_snoc) (auto simp: holds_def plain_def)

lemma holds_temp_plain: "holds pr i cl pl tm mi w \<Longrightarrow> pr_temp pr i = Some t \<Longrightarrow> plain w t \<and> node w t \<noteq> Some DDir"
  by (simp add: holds_def calm_def temp_plain_def)

lemma holds_clear_temp: "holds pr i cl pl tm mi w \<Longrightarrow> butlast t \<in> cl \<Longrightarrow> pr_temp pr i = Some t \<Longrightarrow> no_links (node w) t"
  by (rule no_links_snoc) (auto dest: holds_temp_plain simp: holds_clear plain_def)

section \<open>Looking\<close>

fun read_only :: "io_call \<Rightarrow> bool" where
  "read_only (SymlinkMetadata p) = True"
| "read_only (Metadata p) = True"
| "read_only (TryExists p) = True"
| "read_only (ReadFile p) = True"
| "read_only _ = False"

lemma with_entry_read: "with_entry follow p w f = (r, w') \<Longrightarrow> (\<And>q x. snd (f q x) = w) \<Longrightarrow> w' = w"
  by (auto simp: with_entry_def split: sum.splits dest: arg_cong [where f = snd])

lemma read_only_step: "read_only c \<Longrightarrow> one_step i c w r w' \<Longrightarrow> w' = w"
  by (cases c) (auto simp: one_step_def split: sum.splits io_kind.splits elim!: with_entry_read
      intro: with_entry_read [symmetric] split: option.splits disk_node.splits)

lemma lsat_read: "read_only c \<Longrightarrow> lsat pr i (holds pr i cl pl tm mi) (call c) (\<lambda>r. holds pr i cl pl tm mi)"
  by (rule lsat_call) (auto dest: read_only_step simp: guar_refl holds_stable)

definition is_symlink :: "io_answer \<Rightarrow> bool" where
  "is_symlink r = (case r of AMeta IsSymlink _ _ \<Rightarrow> True | _ \<Rightarrow> False)"

lemma find_ancestors: "(\<And>k. 0 < k \<Longrightarrow> k < length p \<Longrightarrow> d (take k p) = Some DDir) \<Longrightarrow> find (\<lambda>a. d a \<noteq> Some DDir) (ancestors p) = None"
  by (auto simp: find_None_iff ancestors_def)

text \<open>A path with no link above it whose metadata are not those of a link is no link.\<close>

lemma lstat_plain:
  assumes "link_parents w" and "no_links (node w) (butlast p)" and "p \<noteq> []"
    and "one_step i (SymlinkMetadata p) w r w'" and "\<not> is_symlink r"
  shows "plain w p"
  unfolding plain_def
proof (intro allI notI)
  fix t assume link: "node w p = Some (DLink t)"
  have "find (\<lambda>a. node w a \<noteq> Some DDir) (ancestors p) = None"
    using assms(1) link by (intro find_ancestors) (simp add: link_parents_def)
  then have "locate (node w) False p = Inr p" using no_links_parent_resolve [OF assms(2,3)] by (simp add: locate_def)
  then have "r = meta_of (DLink t)" using assms(4) link by (auto simp: one_step_def with_entry_def)
  then show False using assms(5) by (simp add: is_symlink_def)
qed

lemma lsat_lstat:
  assumes "butlast p \<in> cl" and "p \<noteq> []"
  shows "lsat pr i (holds pr i cl pl tm mi) (call (SymlinkMetadata p)) (\<lambda>r. holds pr i cl (if is_symlink r then pl else insert p pl) tm mi)"
proof (rule lsat_call)
  fix w r w' assume h: "holds pr i cl pl tm mi w" and step: "one_step i (SymlinkMetadata p) w r w'"
  have w': "w' = w" using read_only_step [OF _ step] by simp
  have "link_parents w" "no_links (node w) (butlast p)" using h assms(1) by (auto simp: holds_def calm_def)
  then have "\<not> is_symlink r \<Longrightarrow> plain w p" using lstat_plain [OF _ _ assms(2) step] by blast
  then show "guar pr i w w' \<and> holds pr i cl (if is_symlink r then pl else insert p pl) tm mi w'"
    using h by (auto simp: w' guar_refl holds_def)
qed (rule holds_stable)

lemma lsat_read_bytes:
  assumes "butlast p \<in> cl" and "p \<in> pl" and "p \<notin> temps pr"
  shows "lsat pr i (holds pr i cl pl tm mi) (call (ReadFile p)) (\<lambda>r w. holds pr i cl pl tm mi w \<and> (\<forall>b. r = ABytes b \<longrightarrow> b \<in> pr_allowed pr p))"
proof (rule lsat_call)
  fix w r w' assume h: "holds pr i cl pl tm mi w" and step: "one_step i (ReadFile p) w r w'"
  have w': "w' = w" using read_only_step [OF _ step] by simp
  have "locate (node w) True p = Inr q \<Longrightarrow> q = p" for q using no_links_locate [OF holds_clear_entry [OF h assms(1,2)]] by blast
  then have "\<exists>f. node w p = Some (DFile f) \<and> fn_bytes f = b" if "r = ABytes b" for b
    using step that by (auto simp: one_step_def with_entry_def missing_or_other_def split: sum.splits option.splits disk_node.splits)
  then have "\<forall>b. r = ABytes b \<longrightarrow> b \<in> pr_allowed pr p" using h assms(3) unfolding holds_def calm_def contents_allowed_def by metis
  then show "guar pr i w w' \<and> holds pr i cl pl tm mi w' \<and> (\<forall>b. r = ABytes b \<longrightarrow> b \<in> pr_allowed pr p)"
    using h by (simp add: w' guar_refl)
qed (rule stable_conj_pure [OF holds_stable])

section \<open>Making directories\<close>

lemma mkdirs_effect:
  "mkdirs seen xs w = (ok, w') \<Longrightarrow> no_links (node w) (seen @ xs) \<Longrightarrow>
     node w' q = node w q \<or> node w q = None \<and> node w' q = Some DDir \<and> (\<exists>k. length seen < k \<and> k \<le> length (seen @ xs) \<and> q = take k (seen @ xs))"
proof (induction xs arbitrary: seen w)
  case (Cons x xs)
  have seen: "take (Suc (length seen)) (seen @ x # xs) = seen @ [x]" by simp
  have nl: "no_links (node w) ((seen @ [x]) @ xs)" using Cons.prems(2) by simp
  show ?case
  proof (cases "node w (seen @ [x])")
    case None
    let ?w1 = "set_node (seen @ [x]) DDir w"
    have run: "mkdirs (seen @ [x]) xs ?w1 = (ok, w')" using Cons.prems(1) None by simp
    have "no_links (node ?w1) ((seen @ [x]) @ xs)" using nl by (auto simp: no_links_def)
    from Cons.IH [OF run this] show ?thesis
      using None seen by (cases "q = seen @ [x]") (auto intro: exI [of _ "Suc (length seen)"] dest: Suc_lessD)
  next
    case (Some y)
    have "y \<noteq> DLink t" for t using Cons.prems(2) Some seen unfolding no_links_def by metis
    then show ?thesis using Cons.IH [OF _ nl] Cons.prems(1) Some by (cases y) (auto dest: Suc_lessD)
  qed
qed simp

definition dirs_ok :: "protocol \<Rightarrow> path \<Rightarrow> bool" where
  "dirs_ok pr p = (\<forall>k. 0 < k \<longrightarrow> k \<le> length p \<longrightarrow> take k p \<notin> temps pr \<and> take k p \<in> pr_area pr)"

lemma mkdirs_within:
  assumes "mkdirs [] (take n p) w = (ok, w')" and "no_links (node w) p"
  shows "node w' q = node w q \<or> node w q = None \<and> node w' q = Some DDir \<and> (\<exists>k. 0 < k \<and> k \<le> length p \<and> q = take k p)"
proof -
  have "no_links (node w) ([] @ take n p)" using assms(2) by (simp add: no_links_def)
  from mkdirs_effect [OF assms(1) this, of q] consider "node w' q = node w q"
    | k where "node w q = None" "node w' q = Some DDir" "0 < k" "k \<le> length (take n p)" "q = take k (take n p)" by auto
  then show ?thesis
  proof cases
    case 2
    then have "k \<le> n" "k \<le> length p" by simp_all
    then have "q = take k p" "k \<le> length p" using 2(5) by (simp_all add: min_def)
    then show ?thesis using 2 by blast
  qed simp
qed

lemma mkdirs_guar:
  assumes "mkdirs [] (take n p) w = (ok, w')" and "no_links (node w) p" and "dirs_ok pr p"
  shows "guar pr i w w'" and "pr_temp pr i = Some t \<Longrightarrow> node w' t = node w t" and "node w q = Some x \<Longrightarrow> node w' q = Some x"
proof -
  note eff = mkdirs_within [OF assms(1,2)]
  have "node w' q = Some (DLink t) \<longleftrightarrow> node w q = Some (DLink t)" for q t using eff [of q] by auto
  moreover have "q \<in> pr_area pr \<and> legal_change pr i q (node w q) (node w' q)" if "node w' q \<noteq> node w q" for q
    using eff [of q] that assms(3) by (auto simp: dirs_ok_def legal_change_def)
  ultimately show "guar pr i w w'" by (simp add: guar_def same_links_def)
  show "pr_temp pr i = Some t \<Longrightarrow> node w' t = node w t" using eff [of t] assms(3) by (auto simp: dirs_ok_def temps_def)
  show "node w q = Some x \<Longrightarrow> node w' q = Some x" using eff [of q] by auto
qed

lemma lsat_mkdir:
  assumes "p \<in> cl" and "dirs_ok pr p"
  shows "lsat pr i (holds pr i cl pl tm mi) (call (CreateDirAll p)) (\<lambda>r. holds pr i cl pl tm mi)"
proof (rule lsat_call)
  fix w r w' assume h: "holds pr i cl pl tm mi w" and step: "one_step i (CreateDirAll p) w r w'"
  obtain n ok where run: "mkdirs [] (take n p) w = (ok, w')"
    using step that [of "length p"] by (auto simp: one_step_def split: prod.splits) (metis prod.collapse)
  have calm: "calm pr i w" using h by (simp add: holds_def)
  note mk = mkdirs_guar [OF run holds_clear [OF h assms(1)] assms(2)]
  have "holds pr i cl pl tm mi w'"
  proof (rule guar_holds [OF h mk(1)])
    show "temp_plain pr i w'" using calm mk(2) by (auto simp: calm_def temp_plain_def plain_def)
    show "own_file pr i b w'" if "tm = Some b" for b using h that mk(2) unfolding holds_def own_file_def by metis
    show "mine pr i q B w'" if "(q, B) \<in> mi" for q B
    proof -
      have "mine pr i q B w" using h that by (auto simp: holds_def)
      then show ?thesis using mk(3) unfolding mine_def by blast
    qed
  qed
  then show "guar pr i w w' \<and> holds pr i cl pl tm mi w'" using mk(1) by blast
qed (rule holds_stable)

section \<open>The temporary file\<close>

definition is_err :: "io_answer \<Rightarrow> bool" where
  "is_err r = (case r of AErr _ \<Rightarrow> True | _ \<Rightarrow> False)"

lemma holds_sane: "holds pr i cl pl tm mi w \<Longrightarrow> sane pr"
  by (simp add: holds_def calm_def)

lemma temp_change:
  assumes h: "holds pr i cl pl tm mi w" and t: "pr_temp pr i = Some t" "t \<in> pr_area pr" and w': "node w' = (node w)(t := x')"
    and x': "x' \<noteq> Some DDir" "\<And>u. x' \<noteq> Some (DLink u)" and tm': "\<And>b. tm' = Some b \<Longrightarrow> \<exists>f. x' = Some (DFile f) \<and> fn_bytes f = b"
  shows "guar pr i w w' \<and> holds pr i cl pl tm' mi w'"
proof -
  have old: "plain w t" "node w t \<noteq> Some DDir" using holds_temp_plain [OF h t(1)] by blast+
  have g: "guar pr i w w'" by (rule guar_upd [OF w' t(2) old(1) x'(2)]) (use t(1) old x' in \<open>simp add: legal_change_def\<close>)
  have "holds pr i cl pl tm' mi w'"
  proof (rule guar_holds [OF h g])
    show "temp_plain pr i w'" using t(1) x' w' by (simp add: temp_plain_def plain_def)
    show "own_file pr i b w'" if "tm' = Some b" for b using tm' [OF that] t(1) w' by (auto simp: own_file_def)
    show "mine pr i p B w'" if "(p, B) \<in> mi" for p B
    proof -
      have "mine pr i p B w" using h that by (auto simp: holds_def)
      moreover have "p \<noteq> t" if "p \<in> pr_keys pr" using holds_sane [OF h] t(1) that by (auto simp: sane_def temps_def)
      ultimately show ?thesis using w' by (auto simp: mine_def)
    qed
  qed
  then show ?thesis using g by blast
qed

lemma temp_same:
  assumes "holds pr i cl pl tm mi w" and "node w' = node w"
  shows "guar pr i w w' \<and> holds pr i cl pl None mi w'"
  using assms holds_cong [OF assms(2)] holds_mono [of pr i cl pl tm mi w' cl pl None mi] by (simp add: guar_refl)

lemma lsat_create:
  assumes t: "pr_temp pr i = Some t" "t \<in> pr_area pr" "butlast t \<in> cl" "t \<noteq> []"
  shows "lsat pr i (holds pr i cl pl tm mi) (call (CreateNew t)) (\<lambda>r. holds pr i cl pl (if is_err r then None else Some []) mi)"
proof (rule lsat_call)
  fix w r w' assume h: "holds pr i cl pl tm mi w" and step: "one_step i (CreateNew t) w r w'"
  have "locate (node w) False t = Inr q \<Longrightarrow> q = t" for q using no_links_parent_locate [OF holds_clear [OF h t(3)] t(4)] by blast
  then consider "is_err r" "w' = w" | "\<not> is_err r" "node w' = (node w)(t \<mapsto> DFile (new_file i [] w))"
    using step by (auto simp: one_step_def with_entry_def is_err_def split: sum.splits if_splits)
  then show "guar pr i w w' \<and> holds pr i cl pl (if is_err r then None else Some []) mi w'"
  proof cases
    case 1
    then show ?thesis using temp_same [OF h] by simp
  next
    case 2
    show ?thesis using temp_change [OF h t(1,2) 2(2), of "Some []"] 2(1) by (simp add: new_file_def)
  qed
qed (rule holds_stable)

lemma write_effect:
  assumes h: "holds pr i cl pl (Some b0) mi w" and t: "pr_temp pr i = Some t" "butlast t \<in> cl" "t \<noteq> []"
    and run: "perform i (WriteFile t b) w = (r, w')"
  shows "w' = w \<and> is_err r \<or> (\<exists>f. node w' = (node w)(t \<mapsto> DFile f) \<and> fn_bytes f = b0 @ b)"
proof -
  have "locate (node w) False t = Inr q \<Longrightarrow> q = t" for q using no_links_parent_locate [OF holds_clear [OF h t(2)] t(3)] by blast
  moreover obtain f where "node w t = Some (DFile f)" "fn_bytes f = b0" using h t(1) by (auto simp: holds_def own_file_def)
  ultimately show ?thesis using run by (auto simp: with_entry_def is_err_def split: sum.splits intro!: exI [of _ "f\<lparr>fn_bytes := b0 @ b\<rparr>"])
qed

lemma lsat_write:
  assumes t: "pr_temp pr i = Some t" "t \<in> pr_area pr" "butlast t \<in> cl" "t \<noteq> []"
  shows "lsat pr i (holds pr i cl pl (Some []) mi) (call (WriteFile t b)) (\<lambda>r. holds pr i cl pl (if is_err r then None else Some b) mi)"
proof (rule lsat_call)
  fix w r w' assume h: "holds pr i cl pl (Some []) mi w" and step: "one_step i (WriteFile t b) w r w'"
  have "\<exists>b' r'. perform i (WriteFile t b') w = (r', w') \<and> (\<not> is_err r \<longrightarrow> r' = r \<and> b' = b)"
    using step by (auto simp del: perform.simps simp: one_step_def is_err_def) (metis prod.collapse)
  then obtain b' r' where run: "perform i (WriteFile t b') w = (r', w')" "\<not> is_err r \<longrightarrow> r' = r \<and> b' = b" by blast
  from write_effect [OF h t(1,3,4) run(1)] consider "w' = w" "is_err r" | f where "node w' = (node w)(t \<mapsto> DFile f)" "fn_bytes f = b'"
    using run(2) by auto
  then show "guar pr i w w' \<and> holds pr i cl pl (if is_err r then None else Some b) mi w'"
  proof cases
    case 1
    then show ?thesis using temp_same [OF h] by simp
  next
    case 2
    show ?thesis using temp_change [OF h t(1,2) 2(1), of "if is_err r then None else Some b"] 2(2) run(2) by (auto split: if_splits)
  qed
qed (rule holds_stable)

text \<open>A source outside the area is what it was at the start.\<close>

definition source_bytes :: "protocol \<Rightarrow> path \<Rightarrow> string" where
  "source_bytes pr p = (case node (pr_start pr) p of Some (DFile f) \<Rightarrow> fn_bytes f | _ \<Rightarrow> [])"

definition copied_len :: "io_answer \<Rightarrow> bool" where
  "copied_len r = (case r of ALen _ \<Rightarrow> True | AMeta _ _ _ \<Rightarrow> True | _ \<Rightarrow> False)"

lemma lsat_copy:
  assumes t: "pr_temp pr i = Some t" "t \<in> pr_area pr" "butlast t \<in> cl" "t \<noteq> []" and src: "src \<in> cl" "src \<notin> pr_area pr"
  shows "lsat pr i (holds pr i cl pl tm mi) (call (CopyFile src t))
    (\<lambda>r. holds pr i cl pl (if copied_len r then Some (source_bytes pr src) else None) mi)"
proof (rule lsat_call)
  fix w r w' assume h: "holds pr i cl pl tm mi w" and step: "one_step i (CopyFile src t) w r w'"
  have at_t: "locate (node w) True t = Inr q \<Longrightarrow> q = t" for q using no_links_locate [OF holds_clear_temp [OF h t(3,1)]] by blast
  have at_src: "locate (node w) True src = Inr q \<Longrightarrow> q = src" for q using no_links_locate [OF holds_clear [OF h src(1)]] by blast
  have same: "node w src = node (pr_start pr) src" using h src(2) by (simp add: holds_def outside_same_def)
  consider "w' = w" "\<not> copied_len r"
    | f where "node w' = (node w)(t \<mapsto> DFile f)" "copied_len r \<longrightarrow> fn_bytes f = source_bytes pr src"
  proof (cases "fault i (CopyFile src t) w r w'")
    case True
    then show thesis using that at_t by (auto simp: partial_copy_def copied_len_def)
  next
    case False
    then have "perform i (CopyFile src t) w = (r, w')" using step unfolding one_step_def by blast
    then show thesis using that at_t at_src same
      by (auto simp: with_entry_def missing_or_other_def copied_len_def source_bytes_def new_file_def
          split: sum.splits option.splits disk_node.splits if_splits)
  qed
  then show "guar pr i w w' \<and> holds pr i cl pl (if copied_len r then Some (source_bytes pr src) else None) mi w'"
  proof cases
    case 1
    then show ?thesis using temp_same [OF h] by simp
  next
    case 2
    show ?thesis using temp_change [OF h t(1,2) 2(1), of "if copied_len r then Some (source_bytes pr src) else None"] 2(2)
      by (auto split: if_splits)
  qed
qed (rule holds_stable)

section \<open>Linking and removing\<close>

lemma lsat_link:
  assumes a: "butlast a \<in> cl" "a \<noteq> []" and a_plain: "\<And>w. holds pr i cl pl tm mi w \<Longrightarrow> plain w a"
    and b: "butlast b \<in> cl" "b \<noteq> []" "b \<notin> temps pr" "b \<in> pr_area pr" "B \<subseteq> pr_allowed pr b"
    and bytes: "\<And>w f. holds pr i cl pl tm mi w \<Longrightarrow> node w a = Some (DFile f) \<Longrightarrow> fn_bytes f \<in> B"
  shows "lsat pr i (holds pr i cl pl tm mi) (call (HardLink a b)) (\<lambda>r. holds pr i cl pl tm (if is_err r then mi else insert (b, B) mi))"
proof (rule lsat_call)
  fix w r w' assume h: "holds pr i cl pl tm mi w" and step: "one_step i (HardLink a b) w r w'"
  have at_a: "locate (node w) False a = Inr q \<Longrightarrow> q = a" for q using no_links_parent_locate [OF holds_clear [OF h a(1)] a(2)] by blast
  have at_b: "locate (node w) False b = Inr q \<Longrightarrow> q = b" for q using no_links_parent_locate [OF holds_clear [OF h b(1)] b(2)] by blast
  from a_plain [OF h] have "\<And>u. node w a \<noteq> Some (DLink u)" by (simp add: plain_def)
  then consider "w' = w" "is_err r"
    | f where "node w a = Some (DFile f)" "node w b = None" "node w' = (node w)(b \<mapsto> DFile (f\<lparr>fn_author := i\<rparr>))"
    using step at_a at_b by (auto simp: one_step_def with_entry_def is_err_def split: sum.splits option.splits disk_node.splits if_splits)
  then show "guar pr i w w' \<and> holds pr i cl pl tm (if is_err r then mi else insert (b, B) mi) w'"
  proof cases
    case 1
    then show ?thesis using h by (simp add: guar_refl)
  next
    case 2
    note f = bytes [OF h 2(1)]
    have g: "guar pr i w w'" by (rule guar_upd [OF 2(3) b(4)]) (use 2(2) b f in \<open>auto simp: plain_def legal_change_def\<close>)
    have "holds pr i cl pl tm (insert (b, B) mi) w'"
    proof (rule guar_holds [OF h g])
      show "temp_plain pr i w'" using h b(3) by (auto simp: 2(3) temp_plain_def plain_def temps_def holds_def calm_def)
      show "own_file pr i c w'" if "tm = Some c" for c
        using h that b(3) by (auto simp: 2(3) own_file_def temps_def holds_def)
      show "mine pr i p C w'" if "(p, C) \<in> insert (b, B) mi" for p C
      proof (cases "(p, C) = (b, B)")
        case True
        then show ?thesis using f by (simp add: mine_def 2(3))
      next
        case False
        then have "mine pr i p C w" using h that by (auto simp: holds_def)
        then show ?thesis using 2(2) by (auto simp: mine_def 2(3))
      qed
    qed
    then show ?thesis using g holds_mono [of pr i cl pl tm "insert (b, B) mi" w' cl pl tm mi] by auto
  qed
qed (rule holds_stable)

lemma remove_effect:
  assumes "no_links (node w) (butlast p)" and "p \<noteq> []" and "one_step i (RemoveFile p) w r w'" and "plain w p"
  shows "w' = w \<and> is_err r \<or> (\<exists>f. node w p = Some (DFile f) \<and> node w' = (node w)(p := None))"
proof -
  have "locate (node w) False p = Inr q \<Longrightarrow> q = p" for q using no_links_parent_locate [OF assms(1,2)] by blast
  moreover have "\<exists>f. x = DFile f" if "node w p = Some x" "x \<noteq> DDir" for x using assms(4) that by (cases x) (auto simp: plain_def)
  ultimately show ?thesis
    using assms(3) by (auto simp: one_step_def with_entry_def missing_or_other_def is_err_def split: sum.splits if_splits)
qed

lemma lsat_remove_temp:
  assumes t: "pr_temp pr i = Some t" "t \<in> pr_area pr" "butlast t \<in> cl" "t \<noteq> []"
  shows "lsat pr i (holds pr i cl pl tm mi) (call (RemoveFile t)) (\<lambda>r. holds pr i cl pl None mi)"
proof (rule lsat_call)
  fix w r w' assume h: "holds pr i cl pl tm mi w" and step: "one_step i (RemoveFile t) w r w'"
  from remove_effect [OF holds_clear [OF h t(3)] t(4) step] holds_temp_plain [OF h t(1)]
  consider "w' = w" | "node w' = (node w)(t := None)" by blast
  then show "guar pr i w w' \<and> holds pr i cl pl None mi w'"
  proof cases
    case 1
    then show ?thesis using temp_same [OF h] by simp
  next
    case 2
    show ?thesis by (rule temp_change [OF h t(1,2) 2]) simp_all
  qed
qed (rule holds_stable)

lemma lsat_remove_key:
  assumes p: "butlast p \<in> cl" "p \<in> pl" "p \<noteq> []" "p \<notin> temps pr" "p \<in> pr_area pr"
    and author: "\<And>w f. holds pr i cl pl tm mi w \<Longrightarrow> p \<in> pr_keys pr \<Longrightarrow> node w p = Some (DFile f) \<Longrightarrow> fn_author f = i"
    and mi': "mi' \<subseteq> mi" "\<And>q B. (q, B) \<in> mi' \<Longrightarrow> q \<noteq> p"
  shows "lsat pr i (holds pr i cl pl tm mi) (call (RemoveFile p)) (\<lambda>r. holds pr i cl pl tm mi')"
proof (rule lsat_call)
  fix w r w' assume h: "holds pr i cl pl tm mi w" and step: "one_step i (RemoveFile p) w r w'"
  have plain: "plain w p" using h p(2) by (simp add: holds_def)
  from remove_effect [OF holds_clear [OF h p(1)] p(3) step plain]
  consider "w' = w" | f where "node w p = Some (DFile f)" "node w' = (node w)(p := None)" by blast
  then show "guar pr i w w' \<and> holds pr i cl pl tm mi' w'"
  proof cases
    case 1
    then show ?thesis using h holds_mono [OF h, of cl pl tm mi'] mi'(1) by (simp add: guar_refl)
  next
    case 2
    have g: "guar pr i w w'" by (rule guar_upd [OF 2(2) p(5) plain]) (use p(4) 2(1) author [OF h] in \<open>auto simp: legal_change_def\<close>)
    have "holds pr i cl pl tm mi' w'"
    proof (rule guar_holds [OF h g])
      show "temp_plain pr i w'" using h by (auto simp: 2(2) temp_plain_def plain_def holds_def calm_def)
      show "own_file pr i c w'" if "tm = Some c" for c using h that p(4) by (auto simp: 2(2) own_file_def temps_def holds_def)
      show "mine pr i q C w'" if "(q, C) \<in> mi'" for q C using h that mi' by (auto simp: holds_def mine_def 2(2) dest!: subsetD)
    qed
    then show ?thesis using g by blast
  qed
qed (rule holds_stable)

end
