(* ===== verification/Local_Guarantees.thy ===== *)
theory Local_Guarantees
  imports Local_Calls
begin

text \<open>
  The operations of \<open>LocalStorage\<close> keep the protocol, whatever other operations run at the same time and
  whichever calls fail.
\<close>

section \<open>Building blocks\<close>

abbreviation kept :: "protocol \<Rightarrow> nat \<Rightarrow> world \<Rightarrow> bool" where
  "kept pr i \<equiv> holds pr i {} {} None {}"

lemma holds_kept: "holds pr i cl pl tm mi w \<Longrightarrow> kept pr i w"
  by (rule holds_mono) simp_all

lemma lsat_unit_call:
  assumes "lsat pr i P (call c) Q" and "\<And>r. stable (rely pr i) (Q r)"
    and "\<And>r w. Q r w \<Longrightarrow> is_err r \<Longrightarrow> E w" and "\<And>r w. Q r w \<Longrightarrow> \<not> is_err r \<Longrightarrow> P' w"
  shows "lsat pr i P (unit_call c) (ok_or_err (\<lambda>_. P') E)"
  unfolding unit_call_def
  by (rule lsat_bind [OF assms(1)], rule lsat_done [OF assms(2)]) (use assms(3,4) in \<open>auto simp: is_err_def split: io_answer.splits\<close>)

lemma lsat_bool_call:
  assumes "read_only c"
  shows "lsat pr i (holds pr i cl pl tm mi) (bool_call c) (ok_or_err (\<lambda>_. holds pr i cl pl tm mi) (holds pr i cl pl tm mi))"
  unfolding bool_call_def
  by (rule lsat_bind [OF lsat_read [OF assms]], rule lsat_done [OF holds_stable]) (auto split: io_answer.splits)

lemma lsat_len_call:
  assumes "lsat pr i P (call c) Q" and "\<And>r. stable (rely pr i) (Q r)"
    and "\<And>r w. Q r w \<Longrightarrow> E w" and "\<And>r w. Q r w \<Longrightarrow> copied_len r \<Longrightarrow> P' w"
  shows "lsat pr i P (len_call c) (ok_or_err (\<lambda>_. P') E)"
  unfolding len_call_def
  by (rule lsat_bind [OF assms(1)], rule lsat_done [OF assms(2)]) (use assms(3,4) in \<open>auto simp: copied_len_def split: io_answer.splits\<close>)

lemma lsat_check: "stable (rely pr i) P \<Longrightarrow> lsat pr i P (check r) (ok_or_err (\<lambda>_. P) P)"
  unfolding check_def by (rule lsat_done) (auto simp: ok_or_err_def split: sum.split)

lemma holds_clear_insert:
  "holds pr i cl pl tm mi w \<Longrightarrow> butlast p \<in> cl \<Longrightarrow> p \<in> pl \<Longrightarrow> holds pr i (insert p cl) pl tm mi w"
  using holds_clear_entry by (auto simp: holds_def)

lemma lsat_reject_links_from:
  "current \<in> cl \<Longrightarrow> lsat pr i (holds pr i cl pl tm mi) (reject_links_from current parts)
     (ok_or_err (\<lambda>_. holds pr i (insert (current @ parts) cl) pl tm mi) (holds pr i cl pl tm mi))"
proof (induction parts arbitrary: current cl pl)
  case Nil
  then have "insert current cl = cl" by blast
  then show ?case by (simp add: lsat_done holds_stable)
next
  case (Cons part parts)
  let ?p = "current @ [part]"
  show ?case
    unfolding reject_links_from.simps
  proof (rule lsat_bind [OF lsat_lstat])
    show "butlast ?p \<in> cl" using Cons.prems by simp
    fix r
    show "lsat pr i (holds pr i cl (if is_symlink r then pl else insert ?p pl) tm mi)
       (case r of AMeta IsSymlink x xa \<Rightarrow> Done (Inl (StSymlinkRejected (''storage key resolves through a symlink: '' @ path_text ?p)))
          | AMeta _ x xa \<Rightarrow> reject_links_from ?p parts | _ \<Rightarrow> reject_links_from ?p parts)
       (ok_or_err (\<lambda>_. holds pr i (insert (current @ part # parts) cl) pl tm mi) (holds pr i cl pl tm mi))"
    proof (cases "is_symlink r")
      case True
      then show ?thesis by (auto simp: is_symlink_def lsat_done holds_stable split: io_answer.splits file_kind.splits)
    next
      case False
      have "lsat pr i (holds pr i (insert ?p cl) (insert ?p pl) tm mi) (reject_links_from ?p parts)
         (ok_or_err (\<lambda>_. holds pr i (insert (?p @ parts) (insert ?p cl)) (insert ?p pl) tm mi) (holds pr i (insert ?p cl) (insert ?p pl) tm mi))"
        by (rule Cons.IH) simp
      then have "lsat pr i (holds pr i cl (insert ?p pl) tm mi) (reject_links_from ?p parts)
         (ok_or_err (\<lambda>_. holds pr i (insert (?p @ parts) (insert ?p cl)) (insert ?p pl) tm mi) (holds pr i (insert ?p cl) (insert ?p pl) tm mi))"
        by (rule lsat_pre) (use Cons.prems in \<open>simp add: holds_clear_insert\<close>)
      then have "lsat pr i (holds pr i cl (insert ?p pl) tm mi) (reject_links_from ?p parts)
         (ok_or_err (\<lambda>_. holds pr i (insert (current @ part # parts) cl) pl tm mi) (holds pr i cl pl tm mi))"
        by (rule lsat_result) (erule holds_mono; auto)+
      then show ?thesis using False by (auto simp: is_symlink_def split: io_answer.splits file_kind.splits)
    qed
  qed simp
qed

lemma lsat_reject_prefixes:
  assumes "pr_base pr \<in> cl" and "key \<noteq> []"
  shows "lsat pr i (holds pr i cl pl tm mi) (reject_symlink_prefixes (pr_base pr) key)
     (ok_or_err (\<lambda>_. holds pr i (insert (butlast (pr_base pr @ key)) cl) pl tm mi) (holds pr i cl pl tm mi))"
  unfolding reject_symlink_prefixes_def using lsat_reject_links_from [OF assms(1), of pr i pl tm mi "butlast key"] assms(2)
  by (simp add: butlast_append)

lemma lsat_reject_object:
  assumes "butlast full \<in> cl" and "full \<noteq> []"
  shows "lsat pr i (holds pr i cl pl tm mi) (reject_symlink_object full)
     (ok_or_err (\<lambda>_. holds pr i cl (insert full pl) tm mi) (holds pr i cl pl tm mi))"
  unfolding reject_symlink_object_def
proof (rule lsat_bind [OF lsat_lstat [OF assms]])
  fix r
  show "lsat pr i (holds pr i cl (if is_symlink r then pl else insert full pl) tm mi)
     (case r of AMeta IsSymlink x xa \<Rightarrow> Done (Inl (StSymlinkRejected (''storage key resolves to a symlink: '' @ path_text full)))
        | AMeta _ x xa \<Rightarrow> Done (Inr ()) | _ \<Rightarrow> Done (Inr ()))
     (ok_or_err (\<lambda>_. holds pr i cl (insert full pl) tm mi) (holds pr i cl pl tm mi))"
    by (auto simp: is_symlink_def split: io_answer.splits file_kind.splits intro!: lsat_done holds_stable)
qed

section \<open>Temporary files\<close>

lemma lsat_write_private_file:
  assumes t: "pr_temp pr i = Some t" "t \<in> pr_area pr" "butlast t \<in> cl" "t \<noteq> []"
  shows "lsat pr i (holds pr i cl pl tm mi) (write_private_file t b)
     (ok_or_err (\<lambda>_. holds pr i cl pl (Some b) mi) (holds pr i cl pl None mi))"
  unfolding write_private_file_def
proof (rule lsat_try)
  show "lsat pr i (holds pr i cl pl tm mi) (unit_call (CreateNew t)) (ok_or_err (\<lambda>_. holds pr i cl pl (Some []) mi) (holds pr i cl pl None mi))"
    by (rule lsat_unit_call [OF lsat_create [OF t] holds_stable]) simp_all
  show "lsat pr i (holds pr i cl pl (Some []) mi) (unit_call (WriteFile t b)) (ok_or_err (\<lambda>_. holds pr i cl pl (Some b) mi) (holds pr i cl pl None mi))"
    by (rule lsat_unit_call [OF lsat_write [OF t] holds_stable]) simp_all
qed (rule holds_stable)

lemma lsat_finalize:
  assumes src: "butlast src \<in> cl" "src \<noteq> []" "\<And>w. holds pr i cl pl tm {} w \<Longrightarrow> plain w src"
    "\<And>w f. holds pr i cl pl tm {} w \<Longrightarrow> node w src = Some (DFile f) \<Longrightarrow> fn_bytes f \<in> B"
    and dest: "butlast dest \<in> cl" "dest \<in> pl" "dest \<noteq> []" "dest \<notin> temps pr" "dest \<in> pr_area pr" "B \<subseteq> pr_allowed pr dest"
    and remove: "lsat pr i (holds pr i cl pl tm {(dest, B)}) (call (RemoveFile src)) (\<lambda>r. holds pr i cl pl None {(dest, B)})"
  shows "lsat pr i (holds pr i cl pl tm {}) (finalize_local_temp_without_overwrite src dest label)
     (ok_or_err (\<lambda>_. holds pr i cl pl None {(dest, B)}) (holds pr i cl pl None {}))"
proof -
  have author: "fn_author f = i" if "holds pr i cl pl None {(dest, B)} w" "dest \<in> pr_keys pr" "node w dest = Some (DFile f)" for w f
    using that by (auto simp: holds_def mine_def)
  have undo: "lsat pr i (holds pr i cl pl None {(dest, B)}) (call (RemoveFile dest)) (\<lambda>r. holds pr i cl pl None {})"
    by (rule lsat_remove_key [OF dest(1-5)]) (use author in auto)
  have drop: "holds pr i cl pl None {} w" if "holds pr i cl pl tm mi w" for tm mi w using holds_mono [OF that] by simp
  have abort: "lsat pr i (holds pr i cl pl tm {}) (Done (Inl e)) (ok_or_err (\<lambda>_. holds pr i cl pl None {(dest, B)}) (holds pr i cl pl None {}))" for e
    by (rule lsat_done [OF holds_stable]) (simp add: drop)
  have undone: "lsat pr i (holds pr i cl pl None {}) (Done (Inl e)) (ok_or_err (\<lambda>_. holds pr i cl pl None {(dest, B)}) (holds pr i cl pl None {}))" for e
    by (rule lsat_done [OF holds_stable]) simp
  have finish: "lsat pr i (holds pr i cl pl None {(dest, B)}) (Done (Inr ())) (ok_or_err (\<lambda>_. holds pr i cl pl None {(dest, B)}) (holds pr i cl pl None {}))"
    by (rule lsat_done [OF holds_stable]) simp
  have linked: "lsat pr i (holds pr i cl pl tm {(dest, B)})
      (bind_prog (call (RemoveFile src)) (\<lambda>r. case r of
         AErr k \<Rightarrow> bind_prog (call (RemoveFile dest)) (\<lambda>r. case r of
             AErr k' \<Rightarrow> if k' \<noteq> NotFound then Done (Inl (io_error k')) else Done (Inl (io_error k))
           | _ \<Rightarrow> Done (Inl (io_error k)))
       | _ \<Rightarrow> Done (Inr ())))
      (ok_or_err (\<lambda>_. holds pr i cl pl None {(dest, B)}) (holds pr i cl pl None {}))"
    by (rule lsat_bind [OF remove]) (auto split: io_answer.split intro!: finish lsat_bind [OF undo] undone)
  have "lsat pr i (holds pr i cl pl tm {}) (call (HardLink src dest)) (\<lambda>r. holds pr i cl pl tm (if is_err r then {} else {(dest, B)}))"
    by (rule lsat_link [OF src(1,2,3) dest(1,3,4,5,6) src(4)])
  then show ?thesis
    unfolding finalize_local_temp_without_overwrite_def
    by (rule lsat_bind) (auto simp: is_err_def split: io_answer.split io_kind.split intro!: abort linked)
qed

lemma lsat_cleanup:
  assumes "lsat pr i P p (ok_or_err Q (holds pr i cl pl tm mi))" and t: "pr_temp pr i = Some t" "t \<in> pr_area pr" "butlast t \<in> cl" "t \<noteq> []"
    and "\<And>x. stable (rely pr i) (Q x)"
  shows "lsat pr i P (cleanup_temp_file_on_error p t) (ok_or_err Q (kept pr i))"
  unfolding cleanup_temp_file_on_error_def
proof (rule lsat_bind [OF assms(1)])
  fix x :: "storage_error + unit"
  have "lsat pr i (holds pr i cl pl tm mi) (bind_prog (call (RemoveFile t)) (\<lambda>r. case r of
       AErr k \<Rightarrow> if k \<noteq> NotFound then Done (Inl (io_error k)) else Done (Inl e) | _ \<Rightarrow> Done (Inl e))) (ok_or_err Q (kept pr i))" for e
    by (rule lsat_bind [OF lsat_remove_temp [OF t]])
      (auto split: io_answer.split intro!: lsat_done [OF holds_stable] dest: holds_kept)
  then show "lsat pr i (ok_or_err Q (holds pr i cl pl tm mi) x)
     (case x of Inl e \<Rightarrow> bind_prog (call (RemoveFile t)) (\<lambda>r. case r of
         AErr k \<Rightarrow> if k \<noteq> NotFound then Done (Inl (io_error k)) else Done (Inl e) | _ \<Rightarrow> Done (Inl e))
      | Inr _ \<Rightarrow> Done (Inr ())) (ok_or_err Q (kept pr i))"
    by (cases x) (auto intro: lsat_done [OF assms(6)])
qed

section \<open>Writing\<close>

lemma lsat_step:
  assumes "lsat pr i P p (ok_or_err P' (holds pr i cl pl tm mi))" and "\<And>a. lsat pr i (P' a) (f a) (ok_or_err Q (holds pr i clE plE tmE miE))"
    and "clE \<subseteq> cl" and "plE \<subseteq> pl" and "tmE = None \<or> tmE = tm" and "miE \<subseteq> mi"
  shows "lsat pr i P (try_prog p f) (ok_or_err Q (holds pr i clE plE tmE miE))"
proof (rule lsat_try [OF lsat_result [OF assms(1)] assms(2) holds_stable])
  show "holds pr i clE plE tmE miE w" if "holds pr i cl pl tm mi w" for w using holds_mono [OF that] assms(3-6) by blast
qed

lemma lsat_inl: "lsat pr i (holds pr i cl pl tm mi) (Done (Inl e)) (ok_or_err Q (kept pr i))"
  by (rule lsat_done [OF holds_stable]) (simp add: holds_kept)

text \<open>The key of an operation: its path and the directories above it belong to the storage.\<close>

definition key_ok :: "protocol \<Rightarrow> path \<Rightarrow> bool" where
  "key_ok pr key = (key \<noteq> [] \<and> dirs_ok pr (pr_base pr @ key))"

lemma dirs_ok_butlast: "dirs_ok pr p \<Longrightarrow> dirs_ok pr (butlast p)"
proof (cases p rule: rev_cases)
  case (snoc q x)
  assume ok: "dirs_ok pr p"
  have "take k q \<notin> temps pr \<and> take k q \<in> pr_area pr" if "0 < k" "k \<le> length q" for k
    using ok [unfolded dirs_ok_def, rule_format, of k] that snoc by simp
  then show ?thesis by (simp add: dirs_ok_def snoc)
qed simp

lemma key_okD:
  assumes "key_ok pr key"
  shows "key \<noteq> []" and "pr_base pr @ key \<noteq> []" and "dirs_ok pr (butlast (pr_base pr @ key))"
    and "pr_base pr @ key \<notin> temps pr" and "pr_base pr @ key \<in> pr_area pr"
proof -
  let ?p = "pr_base pr @ key"
  show ne: "key \<noteq> []" "?p \<noteq> []" using assms by (auto simp: key_ok_def)
  have "take k ?p \<notin> temps pr \<and> take k ?p \<in> pr_area pr" if "0 < k" "k \<le> length ?p" for k
    using assms that unfolding key_ok_def dirs_ok_def by blast
  from this [of "length ?p"] show "?p \<notin> temps pr" "?p \<in> pr_area pr" using ne by auto
  show "dirs_ok pr (butlast ?p)" using assms dirs_ok_butlast by (simp add: key_ok_def)
qed

definition temp_ok :: "protocol \<Rightarrow> nat \<Rightarrow> path \<Rightarrow> bool" where
  "temp_ok pr i t = (pr_temp pr i = Some t \<and> t \<in> pr_area pr \<and> t \<noteq> [])"

lemma temp_okD: "temp_ok pr i t \<Longrightarrow> pr_temp pr i = Some t" "temp_ok pr i t \<Longrightarrow> t \<in> pr_area pr" "temp_ok pr i t \<Longrightarrow> t \<noteq> []"
  by (simp_all add: temp_ok_def)

text \<open>A temporary file with known bytes takes its place.\<close>

lemma lsat_finalize_temp:
  assumes t: "temp_ok pr i t" "butlast t \<in> cl"
    and dest: "butlast dest \<in> cl" "dest \<in> pl" "dest \<noteq> []" "dest \<notin> temps pr" "dest \<in> pr_area pr" "b \<in> B" "B \<subseteq> pr_allowed pr dest"
  shows "lsat pr i (holds pr i cl pl (Some b) {}) (finalize_local_temp_without_overwrite t dest label)
     (ok_or_err (\<lambda>_. holds pr i cl pl None {(dest, B)}) (holds pr i cl pl None {}))"
proof (rule lsat_finalize [OF t(2) temp_okD(3) [OF t(1)] _ _ dest(1-5,7)])
  show "plain w t" if "holds pr i cl pl (Some b) {} w" for w using holds_temp_plain [OF that] temp_okD(1) [OF t(1)] by blast
  show "fn_bytes f \<in> B" if "holds pr i cl pl (Some b) {} w" "node w t = Some (DFile f)" for w f
    using that temp_okD(1) [OF t(1)] dest(6) by (auto simp: holds_def own_file_def)
  show "lsat pr i (holds pr i cl pl (Some b) {(dest, B)}) (call (RemoveFile t)) (\<lambda>r. holds pr i cl pl None {(dest, B)})"
    using t temp_okD [OF t(1)] by (intro lsat_remove_temp) simp_all
qed

text \<open>
  What \<open>put\<close> and \<open>put_file\<close> share: the checks before the temporary file is filled, and the checks and the link
  after it.
\<close>

lemma lsat_prepare:
  assumes key: "key_ok pr key" and cl: "pr_base pr \<in> cl"
    and rest: "lsat pr i (holds pr i (insert (butlast (pr_base pr @ key)) cl) {pr_base pr @ key} None {}) rest (ok_or_err Q (kept pr i))"
  shows "lsat pr i (holds pr i cl {} None {})
     (try_prog (reject_symlink_prefixes (pr_base pr) key) (\<lambda>_.
      try_prog (unit_call (CreateDirAll (butlast (pr_base pr @ key)))) (\<lambda>_.
      try_prog (reject_symlink_prefixes (pr_base pr) key) (\<lambda>_.
      try_prog (reject_symlink_object (pr_base pr @ key)) (\<lambda>_.
      try_prog (bool_call (TryExists (pr_base pr @ key))) (\<lambda>ex.
      if ex then Done (Inl (StObjectConflict label)) else rest)))))) (ok_or_err Q (kept pr i))"
proof -
  note k = key_okD [OF key]
  let ?full = "pr_base pr @ key"
  let ?cl = "insert (butlast ?full) cl"
  have "lsat pr i (holds pr i ?cl {} None {}) (unit_call (CreateDirAll (butlast ?full)))
      (ok_or_err (\<lambda>_. holds pr i ?cl {} None {}) (holds pr i ?cl {} None {}))"
    by (rule lsat_unit_call [OF lsat_mkdir holds_stable]) (use k(3) in simp_all)
  note mkdir = lsat_step [OF this]
  have "lsat pr i (holds pr i ?cl {} None {}) (reject_symlink_prefixes (pr_base pr) key)
      (ok_or_err (\<lambda>_. holds pr i ?cl {} None {}) (holds pr i ?cl {} None {}))"
    using lsat_reject_prefixes [of pr ?cl key i "{}" None "{}"] cl k(1) by simp
  note again = lsat_step [OF this]
  show ?thesis
    by (rule lsat_step [OF lsat_reject_prefixes [OF cl k(1)] mkdir, OF again])
      (auto intro!: lsat_step [OF lsat_reject_object] lsat_step [OF lsat_bool_call] lsat_inl rest simp: k(1,2))
qed

lemma lsat_publish:
  assumes key: "key_ok pr key" and cl: "pr_base pr \<in> cl" "butlast (pr_base pr @ key) \<in> cl" and pl: "pr_base pr @ key \<in> pl"
    and t: "temp_ok pr i t" "butlast t \<in> cl" and b: "b \<in> B" "B \<subseteq> pr_allowed pr (pr_base pr @ key)"
  shows "lsat pr i (holds pr i cl pl (Some b) {})
     (try_prog (reject_symlink_prefixes (pr_base pr) key) (\<lambda>_.
      try_prog (reject_symlink_object (pr_base pr @ key)) (\<lambda>_.
      finalize_local_temp_without_overwrite t (pr_base pr @ key) label)))
     (ok_or_err (\<lambda>_. holds pr i {} {} None {(pr_base pr @ key, B)}) (holds pr i cl pl None {}))"
proof -
  note k = key_okD [OF key]
  have c: "insert (butlast (pr_base pr @ key)) cl = cl" "insert (pr_base pr @ key) pl = pl" using cl(2) pl by blast+
  have "lsat pr i (holds pr i cl pl (Some b) {}) (finalize_local_temp_without_overwrite t (pr_base pr @ key) label)
      (ok_or_err (\<lambda>_. holds pr i cl pl None {(pr_base pr @ key, B)}) (holds pr i cl pl None {}))"
    by (rule lsat_finalize_temp [OF t cl(2) pl k(2,4,5) b])
  then have fin: "lsat pr i (holds pr i cl pl (Some b) {}) (finalize_local_temp_without_overwrite t (pr_base pr @ key) label)
      (ok_or_err (\<lambda>_. holds pr i {} {} None {(pr_base pr @ key, B)}) (holds pr i cl pl None {}))"
    by (rule lsat_result) (erule holds_mono; simp)+
  have obj: "lsat pr i (holds pr i cl pl (Some b) {}) (reject_symlink_object (pr_base pr @ key))
      (ok_or_err (\<lambda>_. holds pr i cl pl (Some b) {}) (holds pr i cl pl (Some b) {}))"
    using lsat_reject_object [OF cl(2) k(2), of pr i pl "Some b" "{}"] c(2) by simp
  have pre: "lsat pr i (holds pr i cl pl (Some b) {}) (reject_symlink_prefixes (pr_base pr) key)
      (ok_or_err (\<lambda>_. holds pr i cl pl (Some b) {}) (holds pr i cl pl (Some b) {}))"
    using lsat_reject_prefixes [OF cl(1) k(1), of i pl "Some b" "{}"] c(1) by simp
  show ?thesis by (rule lsat_step [OF pre lsat_step [OF obj fin]]) simp_all
qed

lemma lsat_weaken_ok:
  assumes "lsat pr i P p (ok_or_err (\<lambda>_. holds pr i {} {} None mi) E)" and "\<And>w. E w \<Longrightarrow> kept pr i w"
  shows "lsat pr i P (try_prog p (\<lambda>_. Done (Inr v))) (ok_or_err (\<lambda>_. holds pr i {} {} None mi) (kept pr i))"
proof (rule lsat_try)
  show "lsat pr i P p (ok_or_err (\<lambda>_. holds pr i {} {} None mi) (kept pr i))" by (rule lsat_result [OF assms(1)]) (use assms(2) in auto)
  show "lsat pr i (holds pr i {} {} None mi) (Done (Inr v)) (ok_or_err (\<lambda>_. holds pr i {} {} None mi) (kept pr i))"
    by (rule lsat_done [OF holds_stable]) simp
qed (rule holds_stable)

lemma lsat_put:
  assumes key: "key_ok pr key" and t: "temp_ok pr i (butlast (pr_base pr @ key) @ [tmp])" and content: "content \<in> pr_allowed pr (pr_base pr @ key)"
  shows "lsat pr i (holds pr i {pr_base pr} {} None {}) (local_put (pr_base pr) key tmp content it)
     (ok_or_err (\<lambda>_. holds pr i {} {} None {(pr_base pr @ key, {content})}) (kept pr i))"
proof -
  let ?full = "pr_base pr @ key"
  let ?t = "butlast ?full @ [tmp]"
  let ?cl = "{butlast ?full, pr_base pr}"
  have body: "lsat pr i (holds pr i ?cl {?full} None {})
     (try_prog (write_private_file ?t content) (\<lambda>_.
      try_prog (reject_symlink_prefixes (pr_base pr) key) (\<lambda>_.
      try_prog (reject_symlink_object ?full) (\<lambda>_. finalize_local_temp_without_overwrite ?t ?full (path_text key)))))
     (ok_or_err (\<lambda>_. holds pr i {} {} None {(?full, {content})}) (holds pr i ?cl {?full} None {}))"
    by (rule lsat_step [OF lsat_write_private_file lsat_publish])
      (use key t content temp_okD [OF t] in \<open>simp_all del: butlast_append\<close>)
  have "lsat pr i (holds pr i ?cl {?full} None {})
     (cleanup_temp_file_on_error
       (try_prog (write_private_file ?t content) (\<lambda>_.
        try_prog (reject_symlink_prefixes (pr_base pr) key) (\<lambda>_.
        try_prog (reject_symlink_object ?full) (\<lambda>_. finalize_local_temp_without_overwrite ?t ?full (path_text key))))) ?t)
     (ok_or_err (\<lambda>_. holds pr i {} {} None {(?full, {content})}) (kept pr i))"
    by (rule lsat_cleanup [OF body]) (use temp_okD [OF t] in \<open>simp_all add: holds_stable del: butlast_append\<close>)
  from lsat_prepare [OF key _ this] have "lsat pr i (holds pr i {pr_base pr} {} None {}) (put_local_bytes (pr_base pr) key tmp content)
     (ok_or_err (\<lambda>_. holds pr i {} {} None {(?full, {content})}) (kept pr i))"
    by (simp add: put_local_bytes_def Let_def del: butlast_append)
  then show ?thesis
    unfolding local_put_def by (intro lsat_step [OF lsat_check [OF holds_stable]] lsat_weaken_ok) simp_all
qed

lemma lsat_put_file:
  assumes key: "key_ok pr key" and t: "temp_ok pr i (butlast (pr_base pr @ key) @ [tmp])"
    and src: "src \<notin> pr_area pr" "source_bytes pr src \<in> pr_allowed pr (pr_base pr @ key)"
  shows "lsat pr i (holds pr i {pr_base pr, src} {} None {}) (local_put_file (pr_base pr) key tmp src it)
     (ok_or_err (\<lambda>_. holds pr i {} {} None {(pr_base pr @ key, {source_bytes pr src})}) (kept pr i))"
proof -
  let ?full = "pr_base pr @ key"
  let ?t = "butlast ?full @ [tmp]"
  let ?cl = "{butlast ?full, pr_base pr, src}"
  have copy: "lsat pr i (holds pr i ?cl {?full} None {}) (len_call (CopyFile src ?t))
     (ok_or_err (\<lambda>_. holds pr i ?cl {?full} (Some (source_bytes pr src)) {}) (holds pr i ?cl {?full} None {}))"
    by (rule lsat_len_call [OF lsat_copy holds_stable])
      (use temp_okD [OF t] src in \<open>auto simp del: butlast_append split: if_splits elim: holds_mono\<close>)
  have late: "lsat pr i (holds pr i ?cl {?full} (Some (source_bytes pr src)) {}) (Done (Inl e))
     (ok_or_err (\<lambda>_. holds pr i {} {} None {(?full, {source_bytes pr src})}) (holds pr i ?cl {?full} None {}))" for e
    by (rule lsat_done [OF holds_stable]) (auto elim: holds_mono)
  have publish: "lsat pr i (holds pr i ?cl {?full} (Some (source_bytes pr src)) {})
     (try_prog (reject_symlink_prefixes (pr_base pr) key) (\<lambda>_.
      try_prog (reject_symlink_object ?full) (\<lambda>_. finalize_local_temp_without_overwrite ?t ?full (path_text key))))
     (ok_or_err (\<lambda>_. holds pr i {} {} None {(?full, {source_bytes pr src})}) (holds pr i ?cl {?full} None {}))"
    by (rule lsat_publish) (use key t src in \<open>simp_all del: butlast_append\<close>)
  have body: "lsat pr i (holds pr i ?cl {?full} None {})
     (try_prog (len_call (CopyFile src ?t)) (\<lambda>copied.
      if copied \<noteq> len then Done (Inl (e copied))
      else try_prog (reject_symlink_prefixes (pr_base pr) key) (\<lambda>_.
        try_prog (reject_symlink_object ?full) (\<lambda>_. finalize_local_temp_without_overwrite ?t ?full (path_text key)))))
     (ok_or_err (\<lambda>_. holds pr i {} {} None {(?full, {source_bytes pr src})}) (holds pr i ?cl {?full} None {}))" for len e
    by (rule lsat_step [OF copy]) (auto intro!: late publish simp del: butlast_append)
  have "lsat pr i (holds pr i ?cl {?full} None {})
     (try_prog (cleanup_temp_file_on_error (try_prog (len_call (CopyFile src ?t)) (\<lambda>copied.
        if copied \<noteq> len then Done (Inl (e copied))
        else try_prog (reject_symlink_prefixes (pr_base pr) key) (\<lambda>_.
          try_prog (reject_symlink_object ?full) (\<lambda>_. finalize_local_temp_without_overwrite ?t ?full (path_text key))))) ?t)
      (\<lambda>_. Done (Inr key)))
     (ok_or_err (\<lambda>_. holds pr i {} {} None {(?full, {source_bytes pr src})}) (kept pr i))" for len e
    by (rule lsat_weaken_ok [OF lsat_cleanup [OF body]]) (use temp_okD [OF t] in \<open>simp_all add: holds_stable del: butlast_append\<close>)
  note rest = lsat_prepare [OF key _ this]
  have meta: "lsat pr i (holds pr i {pr_base pr, src} {} None {}) (len_call (Metadata src))
      (ok_or_err (\<lambda>_. holds pr i {pr_base pr, src} {} None {}) (holds pr i {pr_base pr, src} {} None {}))"
    by (rule lsat_len_call [OF lsat_read holds_stable]) simp_all
  show ?thesis
    unfolding local_put_file_def Let_def
    by (rule lsat_step [OF meta lsat_step [OF lsat_check [OF holds_stable] rest]]) simp_all
qed

lemma holds_allowed:
  "holds pr i cl pl tm mi w \<Longrightarrow> p \<notin> temps pr \<Longrightarrow> node w p = Some (DFile f) \<Longrightarrow> fn_bytes f \<in> pr_allowed pr p"
  unfolding holds_def calm_def contents_allowed_def by blast

lemma lsat_promote:
  assumes tk: "key_ok pr tk" "pr_base pr @ tk \<notin> pr_keys pr" and dk: "key_ok pr dk" and neq: "tk \<noteq> dk"
    and allowed: "pr_allowed pr (pr_base pr @ tk) \<subseteq> pr_allowed pr (pr_base pr @ dk)"
  shows "lsat pr i (holds pr i {pr_base pr} {} None {}) (local_promote (pr_base pr) tk dk)
     (ok_or_err (\<lambda>_. holds pr i {} {} None {(pr_base pr @ dk, pr_allowed pr (pr_base pr @ tk))}) (kept pr i))"
proof -
  let ?src = "pr_base pr @ tk" let ?dest = "pr_base pr @ dk"
  let ?B = "pr_allowed pr ?src"
  let ?c1 = "{butlast ?src, pr_base pr}" let ?cl = "insert (butlast ?dest) ?c1"
  note s = key_okD [OF tk(1)] and d = key_okD [OF dk]
  have remove: "lsat pr i (holds pr i ?cl {?dest, ?src} None {(?dest, ?B)}) (call (RemoveFile ?src)) (\<lambda>r. holds pr i ?cl {?dest, ?src} None {(?dest, ?B)})"
    by (rule lsat_remove_key) (use s tk(2) neq in \<open>auto simp del: butlast_append\<close>)
  have "lsat pr i (holds pr i ?cl {?dest, ?src} None {}) (finalize_local_temp_without_overwrite ?src ?dest (path_text dk))
      (ok_or_err (\<lambda>_. holds pr i ?cl {?dest, ?src} None {(?dest, ?B)}) (holds pr i ?cl {?dest, ?src} None {}))"
    by (rule lsat_finalize [OF _ s(2) _ _ _ _ d(2,4,5) allowed remove])
      (auto simp: holds_def plain_def simp del: butlast_append intro: holds_allowed [OF _ s(4)])
  then have "lsat pr i (holds pr i ?cl {?dest, ?src} None {}) (finalize_local_temp_without_overwrite ?src ?dest (path_text dk))
      (ok_or_err (\<lambda>_. holds pr i {} {} None {(?dest, ?B)}) (kept pr i))"
    by (rule lsat_result) (erule holds_mono; simp)+
  note fin = lsat_weaken_ok [OF this]
  have exists_durable: "lsat pr i (holds pr i ?cl {?dest, ?src} None {})
      (try_prog (bool_call (TryExists ?dest)) (\<lambda>taken. if taken then Done (Inl (StObjectConflict (path_text dk)))
        else try_prog (finalize_local_temp_without_overwrite ?src ?dest (path_text dk)) (\<lambda>_. Done (Inr dk))))
      (ok_or_err (\<lambda>_. holds pr i {} {} None {(?dest, ?B)}) (kept pr i))"
    by (rule lsat_step [OF lsat_bool_call]) (auto intro!: lsat_inl fin simp del: butlast_append)
  have ends: "lsat pr i (holds pr i ?cl {?dest, ?src} None {})
      (try_prog (bool_call (TryExists ?src)) (\<lambda>exists. if \<not> exists then Done (Inl (StObjectNotFound (path_text tk)))
        else try_prog (bool_call (TryExists ?dest)) (\<lambda>taken. if taken then Done (Inl (StObjectConflict (path_text dk)))
          else try_prog (finalize_local_temp_without_overwrite ?src ?dest (path_text dk)) (\<lambda>_. Done (Inr dk)))))
      (ok_or_err (\<lambda>_. holds pr i {} {} None {(?dest, ?B)}) (kept pr i))"
    by (rule lsat_step [OF lsat_bool_call]) (auto intro!: lsat_inl exists_durable simp del: butlast_append)
  have again: "lsat pr i (holds pr i ?cl {?src} None {}) (reject_symlink_prefixes (pr_base pr) dk)
      (ok_or_err (\<lambda>_. holds pr i ?cl {?src} None {}) (holds pr i ?cl {?src} None {}))"
    using lsat_reject_prefixes [of pr ?cl dk i "{?src}" None "{}"] d(1) by simp
  have mkdir: "lsat pr i (holds pr i ?cl {?src} None {}) (unit_call (CreateDirAll (butlast ?dest)))
      (ok_or_err (\<lambda>_. holds pr i ?cl {?src} None {}) (holds pr i ?cl {?src} None {}))"
    by (rule lsat_unit_call [OF lsat_mkdir holds_stable]) (use d(3) in simp_all)
  have first: "lsat pr i (holds pr i {pr_base pr} {} None {}) (reject_symlink_prefixes (pr_base pr) tk)
      (ok_or_err (\<lambda>_. holds pr i ?c1 {} None {}) (holds pr i {pr_base pr} {} None {}))"
    by (rule lsat_reject_prefixes) (use s(1) in simp_all)
  show ?thesis
    unfolding local_promote_def Let_def
    by (rule lsat_step [OF first lsat_step [OF lsat_reject_object
          lsat_step [OF lsat_reject_prefixes lsat_step [OF mkdir lsat_step [OF again lsat_step [OF lsat_reject_object ends]]]]]])
      (use s d in \<open>simp_all del: butlast_append\<close>)
qed

section \<open>Reading and removing\<close>

lemma lsat_object_metadata:
  "lsat pr i (holds pr i cl pl tm mi) (object_metadata full key) (ok_or_err (\<lambda>_. holds pr i cl pl tm mi) (holds pr i cl pl tm mi))"
  unfolding object_metadata_def
  by (rule lsat_bind [OF lsat_read]) (auto intro!: lsat_done holds_stable split: io_answer.splits io_kind.splits)

lemma lsat_read_object:
  assumes "butlast p \<in> cl" and "p \<in> pl" and "p \<notin> temps pr"
  shows "lsat pr i (holds pr i cl pl tm mi) (bytes_call (ReadFile p))
     (ok_or_err (\<lambda>b w. holds pr i cl pl tm mi w \<and> b \<in> pr_allowed pr p) (holds pr i cl pl tm mi))"
  unfolding bytes_call_def
  by (rule lsat_bind [OF lsat_read_bytes [OF assms]], rule lsat_done [OF stable_conj_pure [OF holds_stable]]) (auto split: io_answer.splits)

text \<open>The checks before an object is read.\<close>

lemma lsat_look:
  assumes key: "key_ok pr key" and cl: "pr_base pr \<in> cl"
    and rest: "\<And>len. lsat pr i (holds pr i (insert (butlast (pr_base pr @ key)) cl) (insert (pr_base pr @ key) pl) None {}) (rest len) (ok_or_err Q (kept pr i))"
  shows "lsat pr i (holds pr i cl pl None {})
     (try_prog (reject_symlink_prefixes (pr_base pr) key) (\<lambda>_.
      try_prog (reject_symlink_object (pr_base pr @ key)) (\<lambda>_.
      try_prog (object_metadata (pr_base pr @ key) key) (\<lambda>len.
      try_prog (check (ensure_len it len)) (\<lambda>_. rest len))))) (ok_or_err Q (kept pr i))"
proof -
  note k = key_okD [OF key]
  show ?thesis
    by (rule lsat_step [OF lsat_reject_prefixes [OF cl k(1)] lsat_step [OF lsat_reject_object [OF _ k(2)]
          lsat_step [OF lsat_object_metadata lsat_step [OF lsat_check [OF holds_stable] rest]]]]) simp_all
qed

lemma lsat_get:
  assumes key: "key_ok pr key"
  shows "lsat pr i (holds pr i {pr_base pr} {} None {}) (local_get (pr_base pr) key it)
     (ok_or_err (\<lambda>b w. kept pr i w \<and> b \<in> pr_allowed pr (pr_base pr @ key)) (kept pr i))"
proof -
  let ?full = "pr_base pr @ key"
  let ?H = "holds pr i {butlast ?full, pr_base pr} {?full} None {}"
  note k = key_okD [OF key]
  have "lsat pr i (\<lambda>w. ?H w \<and> b \<in> pr_allowed pr ?full)
     (try_prog (check (ensure_len it (length b))) (\<lambda>_. Done (if length b \<noteq> len then Inl e else Inr b)))
     (ok_or_err (\<lambda>b w. kept pr i w \<and> b \<in> pr_allowed pr ?full) (kept pr i))" for b len e
    by (rule lsat_pure, rule lsat_step [OF lsat_check [OF holds_stable]]) (auto intro!: lsat_done holds_stable dest: holds_kept)
  from lsat_step [OF lsat_read_object this]
  have read: "lsat pr i ?H (try_prog (bytes_call (ReadFile ?full)) (\<lambda>b.
      try_prog (check (ensure_len it (length b))) (\<lambda>_. Done (if length b \<noteq> len then Inl (e b) else Inr b))))
     (ok_or_err (\<lambda>b w. kept pr i w \<and> b \<in> pr_allowed pr ?full) (kept pr i))" for len e
    using k(4) by simp
  show ?thesis unfolding local_get_def Let_def by (rule lsat_look [OF key]) (use read in simp_all)
qed

lemma lsat_get_to_file:
  assumes key: "key_ok pr key" and dest: "dest \<noteq> []" "dirs_ok pr dest" and t: "temp_ok pr i t" "butlast t = butlast dest"
    and allowed: "pr_allowed pr (pr_base pr @ key) \<subseteq> pr_allowed pr dest"
  shows "lsat pr i (holds pr i {pr_base pr, butlast dest} {dest} None {}) (local_get_to_file (pr_base pr) key dest t it)
     (ok_or_err (\<lambda>_. holds pr i {} {} None {(dest, pr_allowed pr (pr_base pr @ key))}) (kept pr i))"
proof -
  let ?full = "pr_base pr @ key" let ?B = "pr_allowed pr ?full"
  let ?cl = "{butlast ?full, pr_base pr, butlast dest}" let ?pl = "{?full, dest}"
  note k = key_okD [OF key]
  have d: "dest \<notin> temps pr" "dest \<in> pr_area pr" using dest(2) [unfolded dirs_ok_def, rule_format, of "length dest"] dest(1) by auto
  let ?Q = "ok_or_err (\<lambda>_. holds pr i {} {} None {(dest, ?B)}) (holds pr i ?cl ?pl None {})"
  have "lsat pr i (holds pr i ?cl ?pl (Some b) {}) (finalize_local_temp_without_overwrite t dest label)
      (ok_or_err (\<lambda>_. holds pr i ?cl ?pl None {(dest, ?B)}) (holds pr i ?cl ?pl None {}))" if "b \<in> ?B" for b label
    by (rule lsat_finalize_temp) (use t d dest(1) allowed that in auto)
  then have fin: "lsat pr i (holds pr i ?cl ?pl (Some b) {}) (finalize_local_temp_without_overwrite t dest label) ?Q" if "b \<in> ?B" for b label
    by (rule lsat_result [OF _ holds_mono]) (use that in auto)
  have bad: "lsat pr i (holds pr i ?cl ?pl (Some b) {}) (Done (Inl e)) ?Q" for b e
    by (rule lsat_done [OF holds_stable]) (auto elim: holds_mono)
  have "lsat pr i (\<lambda>w. holds pr i ?cl ?pl None {} w \<and> b \<in> ?B)
     (try_prog (write_private_file t b) (\<lambda>_. if length b \<noteq> len then Done (Inl e) else finalize_local_temp_without_overwrite t dest (path_text dest))) ?Q"
    for b len e
    by (rule lsat_pure, rule lsat_step [OF lsat_write_private_file]) (use temp_okD [OF t(1)] t(2) in \<open>auto intro!: fin bad\<close>)
  from lsat_step [OF lsat_read_object this]
  have read: "lsat pr i (holds pr i ?cl ?pl None {})
     (try_prog (bytes_call (ReadFile ?full)) (\<lambda>b.
      try_prog (write_private_file t b) (\<lambda>_. if length b \<noteq> len then Done (Inl (e b)) else finalize_local_temp_without_overwrite t dest (path_text dest)))) ?Q"
    for len e using k(4) by simp
  have there: "lsat pr i (holds pr i ?cl ?pl None {}) (Done (Inl e)) ?Q" for e by (rule lsat_done [OF holds_stable]) simp
  have body: "lsat pr i (holds pr i ?cl ?pl None {})
     (try_prog (bool_call (TryExists dest)) (\<lambda>exists. if exists then Done (Inl (StObjectConflict (path_text dest)))
      else try_prog (bytes_call (ReadFile ?full)) (\<lambda>b.
        try_prog (write_private_file t b) (\<lambda>_. if length b \<noteq> len then Done (Inl (e b)) else finalize_local_temp_without_overwrite t dest (path_text dest))))) ?Q"
    for len e by (rule lsat_step [OF lsat_bool_call]) (auto intro!: there read simp del: butlast_append)
  have mkdir: "lsat pr i (holds pr i ?cl ?pl None {}) (unit_call (CreateDirAll (butlast dest)))
      (ok_or_err (\<lambda>_. holds pr i ?cl ?pl None {}) (holds pr i ?cl ?pl None {}))"
    by (rule lsat_unit_call [OF lsat_mkdir holds_stable]) (use dirs_ok_butlast [OF dest(2)] in simp_all)
  note clean = lsat_cleanup [OF body temp_okD(1,2) [OF t(1)] _ temp_okD(3) [OF t(1)] holds_stable]
  show ?thesis
    unfolding local_get_to_file_def Let_def
    by (rule lsat_look [OF key]) (use lsat_step [OF mkdir clean] t(2) in \<open>simp_all del: butlast_append\<close>)
qed

lemma lsat_exists:
  assumes key: "key_ok pr key"
  shows "lsat pr i (holds pr i {pr_base pr} {} None {}) (local_exists (pr_base pr) key) (ok_or_err (\<lambda>_. kept pr i) (kept pr i))"
  unfolding local_exists_def
  by (rule lsat_step [OF lsat_reject_prefixes lsat_bind [OF lsat_read lsat_done [OF holds_stable]]])
    (use key_okD(1) [OF key] in \<open>auto dest: holds_kept\<close>)

lemma lsat_delete:
  assumes key: "key_ok pr key" "pr_base pr @ key \<notin> pr_keys pr"
  shows "lsat pr i (holds pr i {pr_base pr} {} None {}) (local_delete (pr_base pr) key) (ok_or_err (\<lambda>_. kept pr i) (kept pr i))"
proof -
  note k = key_okD [OF key(1)]
  let ?full = "pr_base pr @ key"
  have "lsat pr i (holds pr i {butlast ?full, pr_base pr} {?full} None {}) (call (RemoveFile ?full)) (\<lambda>r. holds pr i {butlast ?full, pr_base pr} {?full} None {})"
    by (rule lsat_remove_key) (use k key(2) in \<open>auto simp del: butlast_append\<close>)
  note remove = lsat_bind [OF this lsat_done [OF holds_stable]]
  show ?thesis
    unfolding local_delete_def
    by (rule lsat_step [OF lsat_reject_prefixes lsat_step [OF lsat_reject_object remove]])
      (use k in \<open>auto simp del: butlast_append split: io_answer.splits io_kind.splits dest: holds_kept\<close>)
qed

end
