(* ===== verification/Object_Store.thy ===== *)
theory Object_Store
  imports Local_Guarantees
begin

text \<open>
  The contract of \<open>crates/storage/src/backend.rs\<close>: implementations must not overwrite. It is stated for
  operations that run side by side and proved for the local file system.
\<close>

section \<open>The contract\<close>

text \<open>
  \<open>object p s k\<close> is the content under a key with the operation that stored it. Objects appear and disappear as
  a whole; a successful writer of a protected key is its owner; a reader gets what may be there.
\<close>

locale object_store = cooperating effect R G Q starts
  for effect :: "('c, 'r, 's) effect" and R G :: "'p \<Rightarrow> nat \<Rightarrow> 's \<Rightarrow> 's \<Rightarrow> bool"
    and Q :: "'p \<Rightarrow> nat \<Rightarrow> 'a \<Rightarrow> 's \<Rightarrow> bool" and starts :: "'p \<Rightarrow> ('c, 'r, 'a) prog list \<Rightarrow> 's \<Rightarrow> bool" +
  fixes object :: "'p \<Rightarrow> 's \<Rightarrow> path \<Rightarrow> (string \<times> nat) option"
    and protected :: "'p \<Rightarrow> path \<Rightarrow> bool"
    and writes :: "'p \<Rightarrow> nat \<Rightarrow> path \<Rightarrow> string set \<Rightarrow> bool"
    and reads :: "'p \<Rightarrow> nat \<Rightarrow> path \<Rightarrow> bool"
    and may_hold :: "'p \<Rightarrow> path \<Rightarrow> string \<Rightarrow> bool"
    and ok :: "'a \<Rightarrow> bool" and bytes_read :: "'a \<Rightarrow> string option"
  assumes whole: "G p i s s' \<Longrightarrow> object p s k = Some x \<Longrightarrow> object p s' k = Some y \<Longrightarrow> y = x"
    and stored: "Q p i r s \<Longrightarrow> ok r \<Longrightarrow> writes p i k B \<Longrightarrow> protected p k \<Longrightarrow> \<exists>b \<in> B. object p s k = Some (b, i)"
    and fetched: "Q p i r s \<Longrightarrow> reads p i k \<Longrightarrow> bytes_read r = Some b \<Longrightarrow> may_hold p k b"
begin

lemma one_winner:
  assumes "starts p ps s0" and "pool_reach effect (ps, s0) (qs, s)" and "i < length ps" and "j < length ps"
    and "qs ! i = Done r" and "qs ! j = Done r'" and "ok r" and "ok r'" and "writes p i k B" and "writes p j k B'" and "protected p k"
  shows "i = j \<and> (\<exists>b \<in> B. object p s k = Some (b, i))"
  using stored [OF result_satisfies_post [OF assms(1-3,5)] assms(7,9,11)] stored [OF result_satisfies_post [OF assms(1,2,4,6)] assms(8,10,11)]
  by auto

lemma objects_are_whole:
  assumes "starts p ps s0" and "pool_reach effect (ps, s0) (qs, s)" and "pool_step effect (qs, s) (qs', s')"
    and "object p s k = Some x" and "object p s' k = Some y"
  shows "y = x"
  using reachable_step_guarantee [OF assms(1-3)] whole [OF _ assms(4,5)] by (auto simp: any_guarantee_def)

lemma reads_are_whole:
  assumes "starts p ps s0" and "pool_reach effect (ps, s0) (qs, s)" and "i < length ps" and "qs ! i = Done r"
    and "reads p i k" and "bytes_read r = Some b"
  shows "may_hold p k b"
  using fetched [OF result_satisfies_post [OF assms(1-4)] assms(5,6)] .

end

section \<open>The local file system keeps it\<close>

fun op_ok :: "protocol \<Rightarrow> nat \<Rightarrow> storage_op \<Rightarrow> bool" where
  "op_ok pr i (OpPut key tmp content it) =
     (key_ok pr key \<and> temp_ok pr i (butlast (pr_base pr @ key) @ [tmp]) \<and> content \<in> pr_allowed pr (pr_base pr @ key))"
| "op_ok pr i (OpPutFile key tmp src it) =
     (key_ok pr key \<and> temp_ok pr i (butlast (pr_base pr @ key) @ [tmp]) \<and> src \<notin> pr_area pr \<and> no_links (node (pr_start pr)) src
      \<and> source_bytes pr src \<in> pr_allowed pr (pr_base pr @ key))"
| "op_ok pr i (OpPromote tk dk) =
     (key_ok pr tk \<and> pr_base pr @ tk \<notin> pr_keys pr \<and> key_ok pr dk \<and> tk \<noteq> dk
      \<and> pr_allowed pr (pr_base pr @ tk) \<subseteq> pr_allowed pr (pr_base pr @ dk))"
| "op_ok pr i (OpGet key it) = key_ok pr key"
| "op_ok pr i (OpGetToFile key dest t it) =
     (key_ok pr key \<and> dest \<noteq> [] \<and> dirs_ok pr dest \<and> no_links (node (pr_start pr)) dest \<and> temp_ok pr i t \<and> butlast t = butlast dest
      \<and> pr_allowed pr (pr_base pr @ key) \<subseteq> pr_allowed pr dest)"
| "op_ok pr i (OpExists key) = key_ok pr key"
| "op_ok pr i (OpDelete key) = (key_ok pr key \<and> pr_base pr @ key \<notin> pr_keys pr)"

text \<open>The bytes that an operation stores under a key.\<close>

fun stores :: "protocol \<Rightarrow> storage_op \<Rightarrow> (path \<times> string set) set" where
  "stores pr (OpPut key tmp content it) = {(pr_base pr @ key, {content})}"
| "stores pr (OpPutFile key tmp src it) = {(pr_base pr @ key, {source_bytes pr src})}"
| "stores pr (OpPromote tk dk) = {(pr_base pr @ dk, pr_allowed pr (pr_base pr @ tk))}"
| "stores pr (OpGetToFile key dest t it) = {(dest, pr_allowed pr (pr_base pr @ key))}"
| "stores pr _ = {}"

fun fetches :: "protocol \<Rightarrow> storage_op \<Rightarrow> storage_value \<Rightarrow> bool" where
  "fetches pr (OpGet key it) (VBytes b) = (b \<in> pr_allowed pr (pr_base pr @ key))"
| "fetches pr _ _ = True"

definition op_done :: "protocol \<Rightarrow> nat \<Rightarrow> storage_op \<Rightarrow> storage_error + storage_value \<Rightarrow> world \<Rightarrow> bool" where
  "op_done pr i op = ok_or_err (\<lambda>v w. holds pr i {} {} None (stores pr op) w \<and> fetches pr op v) (kept pr i)"

lemma lsat_returning:
  assumes "lsat pr i P p (ok_or_err Q (kept pr i))" and "\<And>a. stable (rely pr i) (Q a)" and "\<And>a w. Q a w \<Longrightarrow> Q' (f a) w"
  shows "lsat pr i P (returning f p) (ok_or_err Q' (kept pr i))"
  unfolding returning_def by (rule lsat_try [OF assms(1) _ holds_stable], rule lsat_done [OF assms(2)]) (simp add: assms(3))

definition start_facts :: "storage_op \<Rightarrow> path set \<times> path set" where
  "start_facts op = (case op of OpPutFile key tmp src it \<Rightarrow> ({src}, {}) | OpGetToFile key dest t it \<Rightarrow> ({butlast dest}, {dest}) | _ \<Rightarrow> ({}, {}))"

lemma op_correct:
  assumes "op_ok pr i op"
  shows "lsat pr i (holds pr i (insert (pr_base pr) (fst (start_facts op))) (snd (start_facts op)) None {}) (local_prog (pr_base pr) op) (op_done pr i op)"
proof (cases op)
  case (OpPut key tmp content it)
  then show ?thesis using assms lsat_put [of pr key i tmp content it]
    by (auto simp: op_done_def start_facts_def intro!: lsat_returning holds_stable)
next
  case (OpPutFile key tmp src it)
  then show ?thesis using assms lsat_put_file [of pr key i tmp src it]
    by (auto simp: op_done_def start_facts_def intro!: lsat_returning holds_stable)
next
  case (OpPromote tk dk)
  then show ?thesis using assms lsat_promote [of pr tk dk i]
    by (auto simp: op_done_def start_facts_def intro!: lsat_returning holds_stable)
next
  case (OpGet key it)
  then show ?thesis using assms lsat_get [of pr key i it]
    by (auto simp: op_done_def start_facts_def intro!: lsat_returning stable_conj_pure holds_stable)
next
  case (OpGetToFile key dest t it)
  then show ?thesis using assms lsat_get_to_file [of pr key dest i t it]
    by (auto simp: op_done_def start_facts_def intro!: lsat_returning holds_stable)
next
  case (OpExists key)
  then show ?thesis using assms lsat_exists [of pr key i]
    by (auto simp: op_done_def start_facts_def intro!: lsat_returning holds_stable)
next
  case (OpDelete key)
  then show ?thesis using assms lsat_delete [of pr key i]
    by (auto simp: op_done_def start_facts_def intro!: lsat_returning holds_stable)
qed

definition op_post :: "protocol \<Rightarrow> nat \<Rightarrow> storage_error + storage_value \<Rightarrow> world \<Rightarrow> bool" where
  "op_post pr i x w = (i < length (pr_ops pr) \<and> op_done pr i (pr_ops pr ! i) x w)"

definition local_starts :: "protocol \<Rightarrow> (io_call, io_answer, storage_error + storage_value) prog list \<Rightarrow> world \<Rightarrow> bool" where
  "local_starts pr ps w0 =
     (pr_start pr = w0 \<and> ps = map (local_prog (pr_base pr)) (pr_ops pr)
      \<and> (\<forall>i < length (pr_ops pr). calm pr i w0 \<and> op_ok pr i (pr_ops pr ! i)))"

lemma local_start_holds:
  assumes "calm pr i (pr_start pr)" and "op_ok pr i op"
  shows "holds pr i (insert (pr_base pr) (fst (start_facts op))) (snd (start_facts op)) None {} (pr_start pr)"
proof -
  have "no_links (node (pr_start pr)) (pr_base pr)" using assms(1) by (simp add: calm_def)
  moreover have "no_links d (butlast p) \<and> d p \<noteq> Some (DLink t)" if "no_links d p" for d p t
    using that by (auto simp: no_links_def butlast_conv_take dest: spec [of _ "length p"])
  ultimately show ?thesis using assms by (cases op) (auto simp: holds_def outside_same_def start_facts_def plain_def)
qed

definition local_object :: "protocol \<Rightarrow> world \<Rightarrow> path \<Rightarrow> (string \<times> nat) option" where
  "local_object pr w p =
     (if p \<in> temps pr then None
      else (case node w p of Some (DFile f) \<Rightarrow> Some (fn_bytes f, fn_author f) | _ \<Rightarrow> None))"

definition op_writes :: "protocol \<Rightarrow> nat \<Rightarrow> path \<Rightarrow> string set \<Rightarrow> bool" where
  "op_writes pr i p B = (i < length (pr_ops pr) \<and> (p, B) \<in> stores pr (pr_ops pr ! i))"

definition op_reads :: "protocol \<Rightarrow> nat \<Rightarrow> path \<Rightarrow> bool" where
  "op_reads pr i p = (i < length (pr_ops pr) \<and> (\<exists>key it. pr_ops pr ! i = OpGet key it \<and> p = pr_base pr @ key))"

definition bytes_returned :: "storage_error + storage_value \<Rightarrow> string option" where
  "bytes_returned x = (case x of Inr (VBytes b) \<Rightarrow> Some b | _ \<Rightarrow> None)"

interpretation local_store: object_store outcome rely guar op_post local_starts local_object
  "\<lambda>pr p. p \<in> pr_keys pr" op_writes op_reads "\<lambda>pr p b. b \<in> pr_allowed pr p" is_ok bytes_returned
proof (unfold_locales, goal_cases)
  case (1 pr ps w0 i)
  then have i: "i < length (pr_ops pr)" and w0: "pr_start pr = w0" and ps: "ps ! i = local_prog (pr_base pr) (pr_ops pr ! i)"
    and ok: "calm pr i w0" "op_ok pr i (pr_ops pr ! i)" by (auto simp: local_starts_def)
  have "op_post pr i = op_done pr i (pr_ops pr ! i)" using i by (simp add: op_post_def fun_eq_iff)
  then show ?case using op_correct [OF ok(2)] local_start_holds [of pr i, OF _ ok(2)] ok(1) w0 ps by (auto simp: lsat_def sat_def)
next
  case (2 i j pr w w')
  then show ?case by (auto simp: rely_def)
next
  case (3 pr i w w' p x y)
  show ?case
  proof (cases "node w' p = node w p")
    case True
    then show ?thesis using 3(2,3) by (simp add: local_object_def split: if_splits)
  next
    case False
    then have "legal_change pr i p (node w p) (node w' p)" using guar_change [OF 3(1)] by blast
    then show ?thesis using 3(2,3) by (auto simp: legal_change_def local_object_def temps_def split: if_splits option.splits disk_node.splits)
  qed
next
  case (4 pr i r w p B)
  then have h: "holds pr i {} {} None (stores pr (pr_ops pr ! i)) w" by (cases r) (auto simp: op_post_def op_done_def is_ok_def)
  moreover have "p \<notin> temps pr" using holds_sane [OF h] 4(4) by (auto simp: sane_def)
  moreover have "mine pr i p B w" using h 4(3) by (auto simp: op_writes_def holds_def)
  ultimately show ?case using 4(4) by (auto simp: mine_def local_object_def)
next
  case (5 pr i r w p b)
  then show ?case by (cases r) (auto simp: op_post_def op_done_def op_reads_def bytes_returned_def split: storage_value.splits)
qed

end
