(* ===== verification/Storage_Guarantees.thy ===== *)
theory Storage_Guarantees
  imports Object_Store
begin

text \<open>
  What clients of the local storage may count on, for any set of requests that run at the same time: stated for
  the requests and the disk alone, and proved by choosing the protocol for them.
\<close>

section \<open>Requests\<close>

fun op_keys :: "storage_op \<Rightarrow> path list" where
  "op_keys (OpPut key tmp content it) = [key]"
| "op_keys (OpPutFile key tmp src it) = [key]"
| "op_keys (OpPromote tk dk) = [tk, dk]"
| "op_keys (OpGet key it) = [key]"
| "op_keys (OpGetToFile key dest t it) = [key]"
| "op_keys (OpExists key) = [key]"
| "op_keys (OpDelete key) = [key]"

fun op_downloads :: "storage_op \<Rightarrow> path list" where
  "op_downloads (OpGetToFile key dest t it) = [dest]"
| "op_downloads _ = []"

fun removes :: "storage_op \<Rightarrow> path \<Rightarrow> bool" where
  "removes (OpPromote tk dk) key = (key = tk)"
| "removes (OpDelete k) key = (key = k)"
| "removes _ key = False"

fun writes_key :: "storage_op \<Rightarrow> path option" where
  "writes_key (OpPut key tmp content it) = Some key"
| "writes_key (OpPutFile key tmp src it) = Some key"
| "writes_key (OpPromote tk dk) = Some dk"
| "writes_key _ = None"

definition temp_paths :: "path \<Rightarrow> storage_op list \<Rightarrow> path set" where
  "temp_paths base ops = {t. \<exists>op \<in> set ops. op_temp base op = Some t}"

definition touched_paths :: "path \<Rightarrow> storage_op list \<Rightarrow> path set" where
  "touched_paths base ops = {p. \<exists>op \<in> set ops. p \<in> set (map (append base) (op_keys op) @ op_downloads op)}"

text \<open>Where a set of requests may write: below the storage directory, on the way to it, and where downloads go.\<close>

definition scope :: "path \<Rightarrow> storage_op list \<Rightarrow> path set" where
  "scope base ops = {p. is_prefix base p \<or> (\<exists>q \<in> touched_paths base ops. is_prefix p q) \<or> p \<in> temp_paths base ops}"

fun op_ready :: "path \<Rightarrow> storage_op list \<Rightarrow> world \<Rightarrow> storage_op \<Rightarrow> bool" where
  "op_ready base ops w0 (OpPutFile key tmp src it) = (src \<notin> scope base ops \<and> no_links (node w0) src)"
| "op_ready base ops w0 (OpPromote tk dk) = (tk \<noteq> dk)"
| "op_ready base ops w0 (OpGetToFile key dest t it) = (dest \<noteq> [] \<and> no_links (node w0) dest \<and> t \<noteq> [] \<and> butlast t = butlast dest)"
| "op_ready base ops w0 _ = True"

text \<open>
  The storage directory is not reached through a link and the disk is a tree; random names are fresh and
  different; keys are not empty; uploads come from outside and downloads go to places without links.
\<close>

definition requests_ok :: "path \<Rightarrow> storage_op list \<Rightarrow> world \<Rightarrow> bool" where
  "requests_ok base ops w0 =
     (link_parents w0 \<and> no_links (node w0) base
      \<and> (\<forall>i < length ops. \<forall>j < length ops. op_temp base (ops ! i) \<noteq> None \<longrightarrow> op_temp base (ops ! i) = op_temp base (ops ! j) \<longrightarrow> i = j)
      \<and> (\<forall>t \<in> temp_paths base ops. node w0 t = None \<and> (\<forall>p \<in> touched_paths base ops. \<not> is_prefix t p))
      \<and> (\<forall>op \<in> set ops. [] \<notin> set (op_keys op) \<and> op_ready base ops w0 op))"

definition upload_bytes :: "world \<Rightarrow> path \<Rightarrow> string" where
  "upload_bytes w p = (case node w p of Some (DFile f) \<Rightarrow> fn_bytes f | _ \<Rightarrow> [])"

text \<open>The contents that may ever be found at a path.\<close>

inductive may_hold :: "path \<Rightarrow> storage_op list \<Rightarrow> world \<Rightarrow> path \<Rightarrow> string \<Rightarrow> bool" for base ops w0 where
  Initial: "node w0 p = Some (DFile f) \<Longrightarrow> may_hold base ops w0 p (fn_bytes f)"
| Put: "OpPut key tmp content it \<in> set ops \<Longrightarrow> may_hold base ops w0 (base @ key) content"
| PutFile: "OpPutFile key tmp src it \<in> set ops \<Longrightarrow> may_hold base ops w0 (base @ key) (upload_bytes w0 src)"
| Promote: "OpPromote tk dk \<in> set ops \<Longrightarrow> may_hold base ops w0 (base @ tk) b \<Longrightarrow> may_hold base ops w0 (base @ dk) b"
| Download: "OpGetToFile key dest t it \<in> set ops \<Longrightarrow> may_hold base ops w0 (base @ key) b \<Longrightarrow> may_hold base ops w0 dest b"

section \<open>The protocol of a set of requests\<close>

definition lasting_keys :: "path \<Rightarrow> storage_op list \<Rightarrow> path set" where
  "lasting_keys base ops = {base @ key | key. \<forall>op \<in> set ops. \<not> removes op key} - temp_paths base ops"

definition protocol_of :: "path \<Rightarrow> storage_op list \<Rightarrow> world \<Rightarrow> protocol" where
  "protocol_of base ops w0 = \<lparr>pr_base = base, pr_ops = ops, pr_keys = lasting_keys base ops,
     pr_allowed = (\<lambda>p. {b. may_hold base ops w0 p b}), pr_area = scope base ops, pr_start = w0\<rparr>"

lemma protocol_of_simps [simp]:
  "pr_base (protocol_of base ops w0) = base" "pr_ops (protocol_of base ops w0) = ops"
  "pr_keys (protocol_of base ops w0) = lasting_keys base ops" "pr_allowed (protocol_of base ops w0) p = {b. may_hold base ops w0 p b}"
  "pr_area (protocol_of base ops w0) = scope base ops" "pr_start (protocol_of base ops w0) = w0"
  "source_bytes (protocol_of base ops w0) src = upload_bytes w0 src"
  by (simp_all add: protocol_of_def source_bytes_def upload_bytes_def)

lemma protocol_of_temp: "pr_temp (protocol_of base ops w0) i = (if i < length ops then op_temp base (ops ! i) else None)"
  by (simp add: pr_temp_def)

lemma protocol_of_temps [simp]: "temps (protocol_of base ops w0) = temp_paths base ops"
proof -
  have "(\<exists>i. pr_temp (protocol_of base ops w0) i = Some t) \<longleftrightarrow> (\<exists>i < length ops. op_temp base (ops ! i) = Some t)" for t
    by (auto simp: protocol_of_temp split: if_splits)
  moreover have "(\<exists>op \<in> set ops. op_temp base op = Some t) \<longleftrightarrow> (\<exists>i < length ops. op_temp base (ops ! i) = Some t)" for t
    by (metis in_set_conv_nth)
  ultimately show ?thesis by (simp add: temps_def temp_paths_def)
qed

lemma requests_calm:
  assumes "requests_ok base ops w0"
  shows "calm (protocol_of base ops w0) i w0"
proof -
  have "sane (protocol_of base ops w0)"
    using assms unfolding sane_def requests_ok_def
    by (auto simp: protocol_of_temp lasting_keys_def split: if_splits)
  moreover have "temp_plain (protocol_of base ops w0) i w0"
    unfolding temp_plain_def
  proof (intro allI impI)
    fix t assume "pr_temp (protocol_of base ops w0) i = Some t"
    then have "t \<in> temps (protocol_of base ops w0)" unfolding temps_def by blast
    then have "node w0 t = None" using assms by (simp add: requests_ok_def)
    then show "plain w0 t \<and> node w0 t \<noteq> Some DDir" by (simp add: plain_def)
  qed
  moreover have "contents_allowed (protocol_of base ops w0) w0" by (auto simp: contents_allowed_def intro: may_hold.Initial)
  ultimately show ?thesis using assms by (simp add: calm_def requests_ok_def)
qed

lemma touched_dirs_ok:
  assumes "requests_ok base ops w0" and "p \<in> touched_paths base ops"
  shows "dirs_ok (protocol_of base ops w0) p"
  unfolding dirs_ok_def
proof (intro allI impI)
  fix k assume "0 < k" "k \<le> length p"
  have pre: "is_prefix (take k p) p" by (simp add: is_prefix_def min_def)
  then have "take k p \<notin> temp_paths base ops" using assms by (auto simp: requests_ok_def)
  moreover have "take k p \<in> scope base ops" using pre assms(2) by (auto simp: scope_def)
  ultimately show "take k p \<notin> temps (protocol_of base ops w0) \<and> take k p \<in> pr_area (protocol_of base ops w0)" by simp
qed

lemma requests_key_ok:
  assumes "requests_ok base ops w0" and "op \<in> set ops" and "key \<in> set (op_keys op)"
  shows "key_ok (protocol_of base ops w0) key"
proof -
  have "base @ key \<in> touched_paths base ops" using assms(2,3) by (auto simp: touched_paths_def)
  moreover have "key \<noteq> []" using assms by (auto simp: requests_ok_def)
  ultimately show ?thesis using touched_dirs_ok [OF assms(1)] by (simp add: key_ok_def)
qed

lemma requests_temp_ok:
  assumes "i < length ops" and "op_temp base (ops ! i) = Some t" and "t \<noteq> []"
  shows "temp_ok (protocol_of base ops w0) i t"
proof -
  have "t \<in> temp_paths base ops" using assms by (auto simp: temp_paths_def)
  then show ?thesis using assms by (simp add: temp_ok_def protocol_of_temp scope_def)
qed

lemma removed_not_lasting: "op \<in> set ops \<Longrightarrow> removes op key \<Longrightarrow> base @ key \<notin> lasting_keys base ops"
  by (auto simp: lasting_keys_def)

lemma requests_op_ok:
  assumes ok: "requests_ok base ops w0" and i: "i < length ops"
  shows "op_ok (protocol_of base ops w0) i (ops ! i)"
proof -
  have mem: "ops ! i \<in> set ops" using i by simp
  have ready: "op_ready base ops w0 (ops ! i)" using ok mem by (simp add: requests_ok_def)
  note key = requests_key_ok [OF ok mem] and temp = requests_temp_ok [OF i]
  show ?thesis
  proof (cases "ops ! i")
    case (OpPut k tmp content it)
    then show ?thesis using key temp mem by (auto intro: may_hold.Put)
  next
    case (OpPutFile k tmp src it)
    then show ?thesis using key temp mem ready by (auto intro: may_hold.PutFile)
  next
    case (OpPromote tk dk)
    then show ?thesis using key mem ready removed_not_lasting [OF mem] by (auto intro: may_hold.Promote)
  next
    case (OpGetToFile k dest t it)
    have "dest \<in> touched_paths base ops" using mem OpGetToFile by (force simp: touched_paths_def)
    then show ?thesis using key temp mem ready OpGetToFile touched_dirs_ok [OF ok] by (auto intro: may_hold.Download)
  next
    case (OpDelete k)
    then show ?thesis using key removed_not_lasting [OF mem] by auto
  qed (use key in auto)
qed

lemma requests_start:
  assumes "requests_ok base ops w0"
  shows "local_starts (protocol_of base ops w0) (map (local_prog base) ops) w0"
  using requests_calm [OF assms] requests_op_ok [OF assms] by (simp add: local_starts_def)

section \<open>Guarantees\<close>

text \<open>The key of a successful write is among the protected ones if no request removes it.\<close>

lemma writer_stores: "i < length ops \<Longrightarrow> writes_key (ops ! i) = Some key \<Longrightarrow> \<exists>B. op_writes (protocol_of base ops w0) i (base @ key) B"
  by (cases "ops ! i") (auto simp: op_writes_def)

lemma stored_bytes:
  assumes "op_writes (protocol_of base ops w0) i p B" and "b \<in> B"
  shows "ops ! i = OpPut key tmp content it \<Longrightarrow> b = content" and "ops ! i = OpPutFile key tmp src it \<Longrightarrow> b = upload_bytes w0 src"
  using assms by (auto simp: op_writes_def)

lemma written_key_lasts:
  assumes "requests_ok base ops w0" and "op \<in> set ops" and "writes_key op = Some key" and "\<forall>op \<in> set ops. \<not> removes op key"
  shows "base @ key \<in> lasting_keys base ops"
proof -
  have "key \<in> set (op_keys op)" using assms(3) by (cases op) auto
  then have "base @ key \<notin> temp_paths base ops" using key_okD(4) [OF requests_key_ok [OF assms(1,2)]] by simp
  then show ?thesis using assms(4) by (auto simp: lasting_keys_def)
qed

text \<open>
  C27. Storage requests that run at the same time, interleaved in any way and with any system calls failing:
  if no request removes a key, at most one of the requests that write it succeeds, and from then on the key
  holds exactly what that request stored.
\<close>

theorem concurrent_writes_have_one_winner:
  assumes ok: "requests_ok base ops w0" and reach: "pool_reach outcome (map (local_prog base) ops, w0) (ps, w)"
    and ij: "i < length ops" "j < length ops" and keys: "writes_key (ops ! i) = Some key" "writes_key (ops ! j) = Some key"
    and kept: "\<forall>op \<in> set ops. \<not> removes op key" and "done": "ps ! i = Done (Inr v)" "ps ! j = Done (Inr v')"
  shows "i = j \<and> (\<exists>f. node w (base @ key) = Some (DFile f)
     \<and> (\<forall>tmp content it. ops ! i = OpPut key tmp content it \<longrightarrow> fn_bytes f = content)
     \<and> (\<forall>tmp src it. ops ! i = OpPutFile key tmp src it \<longrightarrow> fn_bytes f = upload_bytes w0 src))"
proof -
  let ?pr = "protocol_of base ops w0"
  have mem: "ops ! i \<in> set ops" using ij(1) by simp
  obtain B where B: "op_writes ?pr i (base @ key) B" using writer_stores [OF ij(1) keys(1), of base w0] by blast
  obtain B' where B': "op_writes ?pr j (base @ key) B'" using writer_stores [OF ij(2) keys(2), of base w0] by blast
  have last: "base @ key \<in> pr_keys ?pr" using written_key_lasts [OF ok mem keys(1) kept] by simp
  have len: "i < length (map (local_prog base) ops)" "j < length (map (local_prog base) ops)" using ij by simp_all
  have good: "is_ok (Inr v :: storage_error + storage_value)" "is_ok (Inr v' :: storage_error + storage_value)" by (simp_all add: is_ok_def)
  have win: "i = j \<and> (\<exists>b \<in> B. local_object ?pr w (base @ key) = Some (b, i))"
    by (rule local_store.one_winner [OF requests_start [OF ok] reach len "done" good B B' last])
  then obtain b where eq: "i = j" and b: "b \<in> B" "local_object ?pr w (base @ key) = Some (b, i)" by blast
  then obtain f where "node w (base @ key) = Some (DFile f)" "fn_bytes f = b"
    by (auto simp: local_object_def split: if_splits option.splits disk_node.splits)
  then show ?thesis using eq stored_bytes [OF B b(1)] by auto
qed

text \<open>
  C28. However storage requests interleave and fail, no step changes the bytes of a stored object, a read that
  succeeds returns the complete bytes of an object that was stored, uploaded or promoted to that key, and
  nothing outside the storage directory and the places of the downloads ever changes.
\<close>

theorem objects_are_whole_and_confined:
  assumes ok: "requests_ok base ops w0" and reach: "pool_reach outcome (map (local_prog base) ops, w0) (ps, w)"
  shows "(\<forall>ps' w' p f g. pool_step outcome (ps, w) (ps', w') \<longrightarrow> p \<notin> temp_paths base ops \<longrightarrow> node w p = Some (DFile f)
        \<longrightarrow> node w' p = Some (DFile g) \<longrightarrow> fn_bytes g = fn_bytes f)
     \<and> (\<forall>i key it b. i < length ops \<longrightarrow> ops ! i = OpGet key it \<longrightarrow> ps ! i = Done (Inr (VBytes b)) \<longrightarrow> may_hold base ops w0 (base @ key) b)
     \<and> (\<forall>p. p \<notin> scope base ops \<longrightarrow> node w p = node w0 p)"
proof (intro conjI allI impI)
  let ?pr = "protocol_of base ops w0"
  note start = requests_start [OF ok]
  show "fn_bytes g = fn_bytes f" if "pool_step outcome (ps, w) (ps', w')" "p \<notin> temp_paths base ops" "node w p = Some (DFile f)"
      "node w' p = Some (DFile g)" for ps' w' p f g
    using local_store.objects_are_whole [OF start reach that(1), of p "(fn_bytes f, fn_author f)" "(fn_bytes g, fn_author g)"] that(2-4)
    by (simp add: local_object_def)
  show "may_hold base ops w0 (base @ key) b" if i: "i < length ops" "ops ! i = OpGet key it" "ps ! i = Done (Inr (VBytes b))" for i key it b
  proof -
    have "op_reads ?pr i (base @ key)" using i by (auto simp: op_reads_def)
    from local_store.reads_are_whole [OF start reach _ i(3) this] i(1) show ?thesis by (simp add: bytes_returned_def)
  qed
  show "node w p = node w0 p" if p: "p \<notin> scope base ops" for p
  proof -
    have "(any_guarantee guar ?pr)\<^sup>*\<^sup>* w0 w" using local_store.reach_keeps_correct [OF start reach] by blast
    then show ?thesis
    proof (induction rule: rtranclp_induct)
      case (step w1 w2)
      then obtain i where "guar ?pr i w1 w2" by (auto simp: any_guarantee_def)
      then have "node w2 p = node w1 p" using guar_change [of ?pr i w1 w2 p] p by auto
      then show ?case using step.IH by simp
    qed simp
  qed
qed

section \<open>An example\<close>

text \<open>Two requests race for one key: the first runs to its end, and the second then finds the conflict.\<close>

definition example_ops :: "storage_op list" where
  "example_ops = [OpPut [''k''] ''t0'' ''a'' \<lparr>wi_label = ''log'', wi_max_bytes = 9\<rparr>, OpPut [''k''] ''t1'' ''b'' \<lparr>wi_label = ''log'', wi_max_bytes = 9\<rparr>,
     OpGet [''k''] \<lparr>wi_label = ''log'', wi_max_bytes = 9\<rparr>]"

definition example_world :: world where
  "example_world = \<lparr>wd_disk = [([''s''], DDir), ([''l''], DLink [''s''])], wd_bucket = [], wd_now = 0\<rparr>"

definition result_of :: "('c, 'r, 'a) prog \<Rightarrow> 'a option" where
  "result_of p = (case p of Done x \<Rightarrow> Some x | Call _ _ \<Rightarrow> None)"

lemma result_of_Some: "result_of p = Some x \<longleftrightarrow> p = Done x"
  by (cases p) (auto simp: result_of_def)

lemma perform_outcome: "perform i c w = (r, w') \<Longrightarrow> outcome i c w r w'"
proof -
  assume "perform i c w = (r, w')"
  then have "perform i c (w\<lparr>wd_now := wd_now w\<rparr>) = (r, w')" by simp
  then show ?thesis unfolding outcome_def by blast
qed

lemma run_alone:
  "i < length ps \<Longrightarrow> run_prog (perform i) (ps ! i) w = (x, w') \<Longrightarrow> pool_reach outcome (ps, w) (ps[i := Done x], w')"
  using pool_reach_run [of "perform i" outcome i ps w x w'] perform_outcome by blast

lemma example_ok: "requests_ok [''s''] example_ops example_world"
  by (auto simp: requests_ok_def example_ops_def example_world_def link_parents_def no_links_def temp_paths_def touched_paths_def is_prefix_def
      take_Cons' less_Suc_eq nth_Cons' split: if_splits)

definition example_final :: "(io_call, io_answer, storage_error + storage_value) prog list \<times> world" where
  "example_final =
     (let ps = map (local_prog [''s'']) example_ops;
          (x, w1) = run_prog (perform 0) (ps ! 0) example_world; ps1 = ps[0 := Done x];
          (y, w2) = run_prog (perform 1) (ps1 ! 1) w1; ps2 = ps1[1 := Done y];
          (z, w3) = run_prog (perform 2) (ps2 ! 2) w2
      in (ps2[2 := Done z], w3))"

lemma example_reach: "pool_reach outcome (map (local_prog [''s'']) example_ops, example_world) example_final"
proof -
  let ?ps = "map (local_prog [''s'']) example_ops"
  obtain x w1 where x: "run_prog (perform 0) (?ps ! 0) example_world = (x, w1)" by force
  obtain y w2 where y: "run_prog (perform 1) ((?ps[0 := Done x]) ! 1) w1 = (y, w2)" by force
  obtain z w3 where z: "run_prog (perform 2) ((?ps[0 := Done x, 1 := Done y]) ! 2) w2 = (z, w3)" by force
  have "pool_reach outcome (?ps, example_world) (?ps[0 := Done x], w1)"
    by (rule run_alone [OF _ x]) (simp add: example_ops_def)
  moreover have "pool_reach outcome (?ps[0 := Done x], w1) (?ps[0 := Done x, 1 := Done y], w2)"
    by (rule run_alone [OF _ y]) (simp add: example_ops_def)
  moreover have "pool_reach outcome (?ps[0 := Done x, 1 := Done y], w2) (?ps[0 := Done x, 1 := Done y, 2 := Done z], w3)"
    by (rule run_alone [OF _ z]) (simp add: example_ops_def)
  moreover have "example_final = (?ps[0 := Done x, 1 := Done y, 2 := Done z], w3)"
    by (simp only: example_final_def Let_def x y z prod.case)
  ultimately show ?thesis by (metis pool_reach_trans)
qed

lemma example_results:
  "map_of (wd_disk (snd example_final)) [''s'', ''k''] = Some (DFile \<lparr>fn_bytes = ''a'', fn_modified = 0, fn_author = 0\<rparr>)"
  "map result_of (fst example_final) = [Some (Inr (VKey [''k''])), Some (Inl (StObjectConflict ''k'')), Some (Inr (VBytes ''a''))]"
  by code_simp+

lemma example_done:
  "length (fst example_final) = 3" "fst example_final ! 0 = Done (Inr (VKey [''k'']))" "fst example_final ! 2 = Done (Inr (VBytes ''a''))"
proof -
  have len: "length (map result_of (fst example_final)) = 3" by (simp only: example_results) simp
  then show "length (fst example_final) = 3" by simp
  have "result_of (fst example_final ! i) = map result_of (fst example_final) ! i" if "i < 3" for i using len that by simp
  from this [of 0] this [of 2] have "result_of (fst example_final ! 0) = Some (Inr (VKey [''k'']))" "result_of (fst example_final ! 2) = Some (Inr (VBytes ''a''))"
    unfolding example_results by simp_all
  then show "fst example_final ! 0 = Done (Inr (VKey [''k'']))" "fst example_final ! 2 = Done (Inr (VBytes ''a''))" by (simp_all add: result_of_Some)
qed

theorem concurrent_writes_have_one_winner_witness:
  "\<exists>ps w f. pool_reach outcome (map (local_prog [''s'']) example_ops, example_world) (ps, w)
     \<and> ps ! 0 = Done (Inr (VKey [''k''])) \<and> node w [''s'', ''k''] = Some (DFile f) \<and> fn_bytes f = ''a''"
proof -
  obtain ps w where final: "example_final = (ps, w)" by force
  have reach: "pool_reach outcome (map (local_prog [''s'']) example_ops, example_world) (ps, w)" using example_reach final by simp
  have p0: "ps ! 0 = Done (Inr (VKey [''k'']))" by (metis example_done(2) final fst_conv)
  have "0 < length example_ops" "writes_key (example_ops ! 0) = Some [''k'']" "\<forall>op \<in> set example_ops. \<not> removes op [''k'']"
    by (simp_all add: example_ops_def)
  from concurrent_writes_have_one_winner [OF example_ok reach this(1,1,2,2,3) p0 p0]
  obtain f where "node w [''s'', ''k''] = Some (DFile f)" "fn_bytes f = ''a''" by (auto simp: example_ops_def)
  then show ?thesis using reach p0 by blast
qed

theorem objects_are_whole_and_confined_witness:
  "\<exists>ps w. pool_reach outcome (map (local_prog [''s'']) example_ops, example_world) (ps, w)
     \<and> ps ! 2 = Done (Inr (VBytes ''a'')) \<and> may_hold [''s''] example_ops example_world [''s'', ''k''] ''a''
     \<and> node w [''l''] = Some (DLink [''s''])"
proof -
  obtain ps w where final: "example_final = (ps, w)" by force
  have reach: "pool_reach outcome (map (local_prog [''s'']) example_ops, example_world) (ps, w)" using example_reach final by simp
  have p2: "ps ! 2 = Done (Inr (VBytes ''a''))" by (metis example_done(3) final fst_conv)
  note guarantee = objects_are_whole_and_confined [OF example_ok reach]
  have "2 < length example_ops" "example_ops ! 2 = OpGet [''k''] \<lparr>wi_label = ''log'', wi_max_bytes = 9\<rparr>" by (simp_all add: example_ops_def)
  then have "may_hold [''s''] example_ops example_world ([''s''] @ [''k'']) ''a''" using guarantee p2 by blast
  moreover have "[''l''] \<notin> scope [''s''] example_ops"
    by (auto simp: scope_def touched_paths_def temp_paths_def example_ops_def is_prefix_def)
  then have "node w [''l''] = node example_world [''l'']" using guarantee by blast
  ultimately show ?thesis using reach p2 by (auto simp: example_world_def)
qed

end
