(* ===== verification/S3_Storage.thy ===== *)
theory S3_Storage
  imports Object_Store
begin

text \<open>
  Storage in an S3 bucket, \<open>crates/storage/src/s3.rs\<close>: the operations as programs over the requests to the
  service and the system calls for local files, the listing of a prefix page by page, and the contract of an
  object store for the operations side by side. The client library is the interface of \<open>Storage_Io\<close>.
\<close>

section \<open>Keys and errors\<close>

fun strip_string :: "string \<Rightarrow> string \<Rightarrow> string option" where
  "strip_string [] s = Some s"
| "strip_string (p # ps) (c # cs) = (if p = c then strip_string ps cs else None)"
| "strip_string (p # ps) [] = None"

definition normalized_s3_prefix :: "string option \<Rightarrow> string option st_result" where
  "normalized_s3_prefix value =
     (case value of
        None \<Rightarrow> Inr None
      | Some v \<Rightarrow>
          (if trim v = [] then Inr None
           else (case validate_storage_key (trim v) of Inl _ \<Rightarrow> Inl (StInvalidKey ''invalid storage key'') | Inr k \<Rightarrow> Inr (Some k))))"

definition object_key :: "string option \<Rightarrow> path \<Rightarrow> string" where
  "object_key prefix key = (case prefix of Some p \<Rightarrow> p @ ''/'' @ path_text key | None \<Rightarrow> path_text key)"

definition strip_prefix :: "string option \<Rightarrow> string \<Rightarrow> string st_result" where
  "strip_prefix prefix physical =
     and_then (case prefix of
         Some p \<Rightarrow> ok_or (StInternal (''S3 list returned key outside configured prefix: '' @ physical))
           (Option.bind (strip_string p physical) (strip_string ''/''))
       | None \<Rightarrow> Inr physical) (\<lambda>logical.
     case validate_storage_key logical of Inl _ \<Rightarrow> Inl (StInvalidKey ''invalid storage key'') | Inr k \<Rightarrow> Inr k)"

definition storage_key_is_within_prefix :: "string \<Rightarrow> string \<Rightarrow> bool" where
  "storage_key_is_within_prefix key prefix =
     (key = prefix \<or> (case strip_string prefix key of Some rest \<Rightarrow> starts_with rest ''/'' | None \<Rightarrow> False))"

definition s3_head_object_error_is_not_found :: "s3_error \<Rightarrow> bool" where
  "s3_head_object_error_is_not_found e =
     (if se_not_found e then True else if se_status e = Some 404 then True
      else se_code e \<in> {Some ''NotFound'', Some ''NoSuchKey'', Some ''404''})"

definition s3_put_object_error_is_conflict :: "s3_error \<Rightarrow> bool" where
  "s3_put_object_error_is_conflict e =
     (if se_status e = Some 412 then True
      else if se_status e = Some 409 \<and> se_code e = Some ''ConditionalRequestConflict'' then True
      else se_code e \<in> {Some ''ConditionalRequestConflict'', Some ''PreconditionFailed''})"

text \<open>The debug text of an error of the client.\<close>

definition s3_backend :: "s3_error \<Rightarrow> storage_error" where
  "s3_backend e = StBackend (case se_code e of Some c \<Rightarrow> c | None \<Rightarrow> ''unhandled'')"

section \<open>Operations\<close>

definition object_len :: "string option \<Rightarrow> path \<Rightarrow> nat option io" where
  "object_len prefix key =
     bind_prog (call (S3Head (object_key prefix key))) (\<lambda>r. Done (case r of
         AHead len \<Rightarrow> (let n = (case len of Some n \<Rightarrow> n | None \<Rightarrow> 0)
            in if n < 0 then Inl (StInternal ''negative S3 content length'') else Inr (Some (nat n)))
       | AS3Err e \<Rightarrow> if s3_head_object_error_is_not_found e then Inr None else Inl (s3_backend e)
       | _ \<Rightarrow> Inl (io_error OtherIo)))"

definition existing_len :: "string option \<Rightarrow> path \<Rightarrow> nat io" where
  "existing_len prefix key =
     try_prog (object_len prefix key) (\<lambda>len. Done (ok_or (StObjectNotFound (path_text key)) len))"

definition verify_object_len :: "string option \<Rightarrow> path \<Rightarrow> nat \<Rightarrow> unit io" where
  "verify_object_len prefix key expected =
     try_prog (existing_len prefix key) (\<lambda>actual. Done (guard_err (actual \<noteq> expected)
       (StInternal (''S3 object length mismatch for '' @ path_text key @ '': expected '' @ show_nat expected @ '', got '' @ show_nat actual))))"

definition s3_delete :: "string option \<Rightarrow> path \<Rightarrow> unit io" where
  "s3_delete prefix key =
     bind_prog (call (S3Delete (object_key prefix key))) (\<lambda>r. Done (case r of AS3Err e \<Rightarrow> Inl (s3_backend e) | _ \<Rightarrow> Inr ()))"

text \<open>What \<open>put\<close> and \<open>put_file\<close> do with the answer to the request.\<close>

definition after_put :: "string option \<Rightarrow> path \<Rightarrow> nat \<Rightarrow> io_answer \<Rightarrow> path io" where
  "after_put prefix key len r =
     (case r of
        AS3Err e \<Rightarrow>
          if s3_put_object_error_is_conflict e then Done (Inl (StObjectConflict (path_text key))) else Done (Inl (s3_backend e))
      | AErr k \<Rightarrow> Done (Inl (io_error k))
      | _ \<Rightarrow>
          bind_prog (verify_object_len prefix key len) (\<lambda>v. case v of
              Inl e \<Rightarrow> bind_prog (s3_delete prefix key) (\<lambda>_. Done (Inl e))
            | Inr _ \<Rightarrow> Done (Inr key)))"

definition s3_put :: "string option \<Rightarrow> path \<Rightarrow> string \<Rightarrow> write_intent \<Rightarrow> path io" where
  "s3_put prefix key content it =
     try_prog (check (ensure_len it (length content))) (\<lambda>_.
     bind_prog (call (S3Put (object_key prefix key) content)) (after_put prefix key (length content)))"

definition s3_put_file :: "string option \<Rightarrow> path \<Rightarrow> path \<Rightarrow> write_intent \<Rightarrow> path io" where
  "s3_put_file prefix key source it =
     try_prog (len_call (Metadata source)) (\<lambda>len.
     try_prog (check (ensure_len it len)) (\<lambda>_.
     bind_prog (call (S3PutFile (object_key prefix key) source)) (after_put prefix key len)))"

definition body_call :: "string option \<Rightarrow> path \<Rightarrow> string io" where
  "body_call prefix key =
     bind_prog (call (S3Get (object_key prefix key))) (\<lambda>r. Done (case r of
         ABytes b \<Rightarrow> Inr b | AS3Err e \<Rightarrow> Inl (s3_backend e) | _ \<Rightarrow> Inl (io_error OtherIo)))"

text \<open>
  The loop over the chunks of a body; \<open>sink\<close> is what is done with a chunk. A body of which nothing is left has
  no more chunks.
\<close>

function read_body :: "(string \<Rightarrow> unit io) \<Rightarrow> write_intent \<Rightarrow> string \<Rightarrow> string \<Rightarrow> nat \<Rightarrow> (string \<times> nat) io" where
  "read_body sink it rest bytes total_bytes =
     bind_prog (call (BodyRead rest)) (\<lambda>r. case r of
         ABytes chunk \<Rightarrow>
           if chunk = [] \<or> rest = [] then Done (Inr (bytes, total_bytes))
           else (case checked_add_u64 total_bytes (length chunk) of
                   None \<Rightarrow> Done (Inl (too_large it))
                 | Some t \<Rightarrow>
                     try_prog (check (ensure_len it t)) (\<lambda>_.
                     try_prog (sink chunk) (\<lambda>_.
                     read_body sink it (drop (length chunk) rest) (bytes @ chunk) t)))
       | AS3Err e \<Rightarrow> Done (Inl (s3_backend e))
       | _ \<Rightarrow> Done (Inl (io_error OtherIo)))"
  by pat_completeness auto
termination
  by (relation "measure (\<lambda>(sink, it, rest, bytes, t). length rest)") auto

declare read_body.simps [simp del]

definition no_sink :: "string \<Rightarrow> unit io" where
  "no_sink chunk = Done (Inr ())"

definition s3_get :: "string option \<Rightarrow> path \<Rightarrow> write_intent \<Rightarrow> string io" where
  "s3_get prefix key it =
     try_prog (existing_len prefix key) (\<lambda>len.
     try_prog (check (ensure_len it len)) (\<lambda>_.
     try_prog (body_call prefix key) (\<lambda>body.
     try_prog (read_body no_sink it body [] 0) (\<lambda>(bytes, read_total).
     Done (if read_total \<noteq> len
       then Inl (StInternal (''S3 object length mismatch while reading '' @ path_text key @ '': expected ''
         @ show_nat len @ '', read '' @ show_nat read_total))
       else Inr bytes)))))"

definition s3_get_to_file :: "string option \<Rightarrow> path \<Rightarrow> path \<Rightarrow> path \<Rightarrow> write_intent \<Rightarrow> unit io" where
  "s3_get_to_file prefix key dest temporary it =
     try_prog (existing_len prefix key) (\<lambda>len.
     try_prog (check (ensure_len it len)) (\<lambda>_.
     try_prog (body_call prefix key) (\<lambda>body.
     try_prog (unit_call (CreateDirAll (butlast dest))) (\<lambda>_.
     cleanup_temp_file_on_error
       (try_prog (bool_call (TryExists dest)) (\<lambda>exists.
        if exists then Done (Inl (StObjectConflict (path_text dest)))
        else try_prog (unit_call (CreateNew temporary)) (\<lambda>_.
          try_prog (read_body (\<lambda>chunk. unit_call (WriteFile temporary chunk)) it body [] 0) (\<lambda>(_, written).
          if written \<noteq> len
          then Done (Inl (StInternal (''S3 object length mismatch while downloading '' @ path_text key @ '': expected ''
            @ show_nat len @ '', wrote '' @ show_nat written)))
          else finalize_local_temp_without_overwrite temporary dest (path_text dest))))) temporary))))"

definition s3_exists :: "string option \<Rightarrow> path \<Rightarrow> bool io" where
  "s3_exists prefix key = try_prog (object_len prefix key) (\<lambda>len. Done (Inr (len \<noteq> None)))"

text \<open>\<open>fs_utils.rs\<close>; the permission bits of the directory are not part of the world.\<close>

definition ensure_private_directory :: "path \<Rightarrow> unit io" where
  "ensure_private_directory p =
     try_prog (unit_call (CreateDirAll p)) (\<lambda>_.
     bind_prog (call (Metadata p)) (\<lambda>r. Done (case r of
         AErr k \<Rightarrow> Inl (io_error k)
       | AMeta IsDir _ _ \<Rightarrow> Inr ()
       | _ \<Rightarrow> Inl (StInvalidKey (''storage work root is not a directory: '' @ path_text p)))))"

text \<open>\<open>local_name\<close> and \<open>download_name\<close> are the random names in the work directory.\<close>

definition s3_promote :: "string option \<Rightarrow> path \<Rightarrow> path \<Rightarrow> path \<Rightarrow> string \<Rightarrow> string \<Rightarrow> path io" where
  "s3_promote prefix work_root temporary_key durable_key local_name download_name =
     try_prog (existing_len prefix temporary_key) (\<lambda>source_len.
     try_prog (ensure_private_directory work_root) (\<lambda>_.
     (let local_temp = work_root @ [local_name]; it = \<lparr>wi_label = ''temporary storage object'', wi_max_bytes = source_len\<rparr>
      in bind_prog
           (try_prog (s3_get_to_file prefix temporary_key local_temp (work_root @ [download_name]) it) (\<lambda>_.
            try_prog (s3_put_file prefix durable_key local_temp it) (\<lambda>_.
            bind_prog (s3_delete prefix temporary_key) (\<lambda>_. Done (Inr durable_key))))) (\<lambda>promote_result.
         bind_prog (call (RemoveFile local_temp)) (\<lambda>_. Done promote_result)))))"

text \<open>One request; \<open>names\<close> are the random names of a promotion.\<close>

fun s3_prog :: "string option \<Rightarrow> path \<Rightarrow> string \<times> string \<Rightarrow> storage_op \<Rightarrow> storage_value io" where
  "s3_prog prefix work_root names (OpPut key tmp content it) = returning VKey (s3_put prefix key content it)"
| "s3_prog prefix work_root names (OpPutFile key tmp source it) = returning VKey (s3_put_file prefix key source it)"
| "s3_prog prefix work_root names (OpPromote tk dk) = returning VKey (s3_promote prefix work_root tk dk (fst names) (snd names))"
| "s3_prog prefix work_root names (OpGet key it) = returning VBytes (s3_get prefix key it)"
| "s3_prog prefix work_root names (OpGetToFile key dest temporary it) = returning (\<lambda>_. VUnit) (s3_get_to_file prefix key dest temporary it)"
| "s3_prog prefix work_root names (OpExists key) = returning VBool (s3_exists prefix key)"
| "s3_prog prefix work_root names (OpDelete key) = returning (\<lambda>_. VUnit) (s3_delete prefix key)"

section \<open>Listing\<close>

record s3_listed =
  sl_key :: "string option"
  sl_modified :: "nat option"

type_synonym s3_page = "s3_listed list \<times> string option"

fun listed_keys :: "string option \<Rightarrow> string \<Rightarrow> s3_listed list \<Rightarrow> string list st_result" where
  "listed_keys prefix wanted [] = Inr []"
| "listed_keys prefix wanted (x # xs) =
     (case sl_key x of
        None \<Rightarrow> listed_keys prefix wanted xs
      | Some k \<Rightarrow>
          and_then (strip_prefix prefix k) (\<lambda>logical.
          and_then (listed_keys prefix wanted xs) (\<lambda>ks.
          Inr (if storage_key_is_within_prefix logical wanted then logical # ks else ks))))"

text \<open>\<open>pages\<close> is what the service answers to a continuation token.\<close>

partial_function (option) s3_list_loop ::
  "(string option \<Rightarrow> s3_error + s3_page) \<Rightarrow> string option \<Rightarrow> string \<Rightarrow> string option \<Rightarrow> string list \<Rightarrow> string list st_result option" where
  "s3_list_loop pages prefix wanted token keys =
     (case pages token of
        Inl e \<Rightarrow> Some (Inl (s3_backend e))
      | Inr (contents, next_token) \<Rightarrow>
          (case listed_keys prefix wanted contents of
             Inl e \<Rightarrow> Some (Inl e)
           | Inr ks \<Rightarrow>
               (case next_token of
                  None \<Rightarrow> Some (Inr (keys @ ks))
                | Some t \<Rightarrow> s3_list_loop pages prefix wanted (Some t) (keys @ ks))))"

definition s3_list_prefix :: "(string option \<Rightarrow> s3_error + s3_page) \<Rightarrow> string option \<Rightarrow> string \<Rightarrow> string list st_result option" where
  "s3_list_prefix pages prefix wanted = s3_list_loop pages prefix wanted None []"

fun listed_old_keys :: "string option \<Rightarrow> string \<Rightarrow> nat \<Rightarrow> s3_listed list \<Rightarrow> string list st_result" where
  "listed_old_keys prefix wanted older_than [] = Inr []"
| "listed_old_keys prefix wanted older_than (x # xs) =
     (case sl_key x of
        None \<Rightarrow> listed_old_keys prefix wanted older_than xs
      | Some k \<Rightarrow>
          and_then (strip_prefix prefix k) (\<lambda>logical.
          and_then (listed_old_keys prefix wanted older_than xs) (\<lambda>ks.
          Inr (if \<not> storage_key_is_within_prefix logical wanted then ks
               else (case sl_modified x of None \<Rightarrow> ks | Some m \<Rightarrow> if m < older_than then logical # ks else ks)))))"

partial_function (option) s3_old_loop ::
  "(string option \<Rightarrow> s3_error + s3_page) \<Rightarrow> string option \<Rightarrow> string \<Rightarrow> nat \<Rightarrow> string option \<Rightarrow> string list \<Rightarrow> string list st_result option" where
  "s3_old_loop pages prefix wanted older_than token keys =
     (case pages token of
        Inl e \<Rightarrow> Some (Inl (s3_backend e))
      | Inr (contents, next_token) \<Rightarrow>
          (case listed_old_keys prefix wanted older_than contents of
             Inl e \<Rightarrow> Some (Inl e)
           | Inr ks \<Rightarrow>
               (case next_token of
                  None \<Rightarrow> Some (Inr (keys @ ks))
                | Some t \<Rightarrow> s3_old_loop pages prefix wanted older_than (Some t) (keys @ ks))))"

text \<open>The deletions after the listing, one request per key.\<close>

fun delete_keys :: "(string \<Rightarrow> unit io) \<Rightarrow> string list \<Rightarrow> nat \<Rightarrow> nat io" where
  "delete_keys del [] deleted = Done (Inr deleted)"
| "delete_keys del (k # ks) deleted =
     try_prog (del k) (\<lambda>_.
     (case checked_add_u64 deleted 1 of
        None \<Rightarrow> Done (Inl (StInternal ''deleted object count overflow''))
      | Some n \<Rightarrow> delete_keys del ks n))"

definition key_parts :: "string \<Rightarrow> path" where
  "key_parts k = split_on (CHR ''/'') k"

definition s3_delete_prefix_older_than ::
  "(string option \<Rightarrow> s3_error + s3_page) \<Rightarrow> string option \<Rightarrow> string \<Rightarrow> nat \<Rightarrow> nat io option" where
  "s3_delete_prefix_older_than pages prefix wanted older_than =
     map_option (\<lambda>r. case r of Inl e \<Rightarrow> Done (Inl e) | Inr ks \<Rightarrow> delete_keys (\<lambda>k. s3_delete prefix (key_parts k)) ks 0)
       (s3_old_loop pages prefix wanted older_than None [])"

text \<open>The default of the trait.\<close>

definition delete_prefix :: "(string \<Rightarrow> unit io) \<Rightarrow> string list st_result \<Rightarrow> nat io" where
  "delete_prefix del listing = (case listing of Inl e \<Rightarrow> Done (Inl e) | Inr ks \<Rightarrow> delete_keys del ks 0)"

end
