(* ===== verification/S3_Guarantees.thy ===== *)
theory S3_Guarantees
  imports S3_Storage Storage_Guarantees
begin

text \<open>
  Operations on a bucket side by side: objects come and go as a whole, and an object under a protected key is
  only removed by the operation that made it. Local files are left open: whatever they hold, the bucket keeps
  this contract.
\<close>

section \<open>The protocol\<close>

record s3_protocol =
  sp_prefix :: "string option"
  sp_ops :: "storage_op list"
  sp_keys :: "string set"
  sp_allowed :: "string \<Rightarrow> string set"

definition s3_legal :: "s3_protocol \<Rightarrow> nat \<Rightarrow> string \<Rightarrow> file_node option \<Rightarrow> file_node option \<Rightarrow> bool" where
  "s3_legal sp i k x x' =
     (x = None \<and> (\<exists>f. x' = Some f \<and> fn_author f = i \<and> fn_bytes f \<in> sp_allowed sp k)
      \<or> (\<exists>f. x = Some f \<and> (k \<in> sp_keys sp \<longrightarrow> fn_author f = i)) \<and> x' = None)"

definition s3_guar :: "s3_protocol \<Rightarrow> nat \<Rightarrow> world \<Rightarrow> world \<Rightarrow> bool" where
  "s3_guar sp i w w' = (\<forall>k. object_at w' k \<noteq> object_at w k \<longrightarrow> s3_legal sp i k (object_at w k) (object_at w' k))"

definition s3_rely :: "s3_protocol \<Rightarrow> nat \<Rightarrow> world \<Rightarrow> world \<Rightarrow> bool" where
  "s3_rely sp i w w' = (\<exists>j. j \<noteq> i \<and> s3_guar sp j w w')"

definition bucket_allowed :: "s3_protocol \<Rightarrow> world \<Rightarrow> bool" where
  "bucket_allowed sp w = (\<forall>k f. object_at w k = Some f \<longrightarrow> fn_bytes f \<in> sp_allowed sp k)"

definition s3_mine :: "s3_protocol \<Rightarrow> nat \<Rightarrow> string \<Rightarrow> string set \<Rightarrow> world \<Rightarrow> bool" where
  "s3_mine sp i k B w = (k \<in> sp_keys sp \<longrightarrow> (\<exists>f. object_at w k = Some f \<and> fn_author f = i \<and> fn_bytes f \<in> B))"

definition s3_holds :: "s3_protocol \<Rightarrow> nat \<Rightarrow> (string \<times> string set) set \<Rightarrow> world \<Rightarrow> bool" where
  "s3_holds sp i mi w = (bucket_allowed sp w \<and> (\<forall>x \<in> mi. s3_mine sp i (fst x) (snd x) w))"

lemma s3_guar_allowed:
  assumes "s3_guar sp i w w'" and "bucket_allowed sp w"
  shows "bucket_allowed sp w'"
  unfolding bucket_allowed_def
proof (intro allI impI)
  fix k f assume f: "object_at w' k = Some f"
  show "fn_bytes f \<in> sp_allowed sp k"
  proof (cases "object_at w' k = object_at w k")
    case True
    then have "object_at w k = Some f" using f by simp
    then show ?thesis using assms(2) unfolding bucket_allowed_def by blast
  next
    case False
    then have "s3_legal sp i k (object_at w k) (object_at w' k)" using assms(1) by (simp add: s3_guar_def)
    then show ?thesis using f by (auto simp: s3_legal_def)
  qed
qed

lemma s3_rely_mine:
  assumes "s3_rely sp i w w'" and "s3_mine sp i k B w"
  shows "s3_mine sp i k B w'"
  unfolding s3_mine_def
proof
  assume k: "k \<in> sp_keys sp"
  then obtain f where f: "object_at w k = Some f" "fn_author f = i" "fn_bytes f \<in> B" using assms(2) by (auto simp: s3_mine_def)
  have "object_at w' k = object_at w k"
  proof (rule ccontr)
    assume "object_at w' k \<noteq> object_at w k"
    then obtain j where "j \<noteq> i" "s3_legal sp j k (object_at w k) (object_at w' k)" using assms(1) by (auto simp: s3_rely_def s3_guar_def)
    then show False using f k by (auto simp: s3_legal_def)
  qed
  then show "\<exists>f. object_at w' k = Some f \<and> fn_author f = i \<and> fn_bytes f \<in> B" using f by simp
qed

lemma s3_holds_stable: "stable (s3_rely sp i) (s3_holds sp i mi)"
  unfolding stable_def
proof (intro allI impI)
  fix w w' assume h: "s3_holds sp i mi w" and r: "s3_rely sp i w w'"
  obtain j where "s3_guar sp j w w'" using r by (auto simp: s3_rely_def)
  then have "bucket_allowed sp w'" using s3_guar_allowed h by (auto simp: s3_holds_def)
  then show "s3_holds sp i mi w'" using h s3_rely_mine [OF r] by (auto simp: s3_holds_def)
qed

lemma s3_holds_mono: "s3_holds sp i mi w \<Longrightarrow> mi' \<subseteq> mi \<Longrightarrow> s3_holds sp i mi' w"
  by (auto simp: s3_holds_def)

lemma s3_same:
  assumes "object_at w' = object_at w"
  shows "s3_guar sp i w w'" and "s3_holds sp i mi w' = s3_holds sp i mi w"
  by (simp_all add: s3_guar_def s3_holds_def bucket_allowed_def s3_mine_def assms)

section \<open>Rules\<close>

definition ssat :: "s3_protocol \<Rightarrow> nat \<Rightarrow> (world \<Rightarrow> bool) \<Rightarrow> (io_call, io_answer, 'a) prog \<Rightarrow> ('a \<Rightarrow> world \<Rightarrow> bool) \<Rightarrow> bool" where
  "ssat sp i = sat (outcome i) (s3_rely sp i) (s3_guar sp i)"

lemma ssat_call:
  assumes "\<And>w r w'. s3_holds sp i mi w \<Longrightarrow> one_step i c w r w' \<Longrightarrow> s3_guar sp i w w' \<and> P r w'" and "\<And>r. stable (s3_rely sp i) (P r)"
  shows "ssat sp i (s3_holds sp i mi) (call c) P"
  unfolding ssat_def
proof (rule sat_call [OF s3_holds_stable _ assms(2)])
  fix w r w' assume h: "s3_holds sp i mi w" and "outcome i c w r w'"
  then obtain t where step: "one_step i c (w\<lparr>wd_now := t\<rparr>) r w'" by (auto simp: outcome_def one_step_def)
  have same: "object_at (w\<lparr>wd_now := t\<rparr>) = object_at w" by simp
  have "s3_holds sp i mi (w\<lparr>wd_now := t\<rparr>)" using h s3_same(2) [OF same] by blast
  from assms(1) [OF this step] show "s3_guar sp i w w' \<and> P r w'" by (simp add: s3_guar_def)
qed

lemma ssat_done: "stable (s3_rely sp i) P \<Longrightarrow> (\<And>w. P w \<Longrightarrow> Q x w) \<Longrightarrow> ssat sp i P (Done x) Q"
  unfolding ssat_def by (rule sat_done)

lemma ssat_bind: "ssat sp i P p Q' \<Longrightarrow> (\<And>x. ssat sp i (Q' x) (f x) Q) \<Longrightarrow> ssat sp i P (bind_prog p f) Q"
  unfolding ssat_def by (rule sat_bind)

lemma ssat_try:
  assumes "ssat sp i P p (ok_or_err P' E)" and "\<And>a. ssat sp i (P' a) (f a) (ok_or_err Q E)" and "stable (s3_rely sp i) E"
  shows "ssat sp i P (try_prog p f) (ok_or_err Q E)"
  unfolding ssat_def by (rule sat_try [OF assms(1) [unfolded ssat_def]]) (use assms(2,3) in \<open>auto simp: ssat_def intro: sat_done\<close>)

lemma ssat_post: "ssat sp i P p Q \<Longrightarrow> (\<And>x w. Q x w \<Longrightarrow> Q' x w) \<Longrightarrow> ssat sp i P p Q'"
  unfolding ssat_def by (rule sat_post)

text \<open>Calls that leave the bucket alone, and programs that make no others.\<close>

fun quiet :: "io_call \<Rightarrow> bool" where
  "quiet (S3Put k b) = False"
| "quiet (S3PutFile k p) = False"
| "quiet (S3Delete k) = False"
| "quiet _ = True"

lemma mkdirs_bucket: "mkdirs seen xs w = (ok, w') \<Longrightarrow> object_at w' = object_at w"
proof (induction xs arbitrary: seen w)
  case (Cons x xs)
  then show ?case by (auto split: option.splits disk_node.splits if_splits dest!: Cons.IH)
qed simp

lemma mkdirs_bucket_snd: "object_at (snd (mkdirs seen xs w)) = object_at w"
  by (metis mkdirs_bucket prod.collapse)

lemma quiet_perform: "quiet c \<Longrightarrow> object_at (snd (perform i c w)) = object_at w"
  by (cases c) (auto simp: with_entry_def missing_or_other_def split: sum.splits option.splits disk_node.splits io_kind.splits prod.splits
      dest: mkdirs_bucket)

lemma quiet_step:
  assumes "quiet c" and "one_step i c w r w'"
  shows "object_at w' = object_at w"
proof (cases "perform i c w = (r, w')")
  case True
  then show ?thesis using quiet_perform [OF assms(1), of i w] by simp
next
  case False
  then have "fault i c w r w'" using assms(2) unfolding one_step_def by blast
  then show ?thesis using assms(1) quiet_perform
    by (cases c) (auto simp: partial_copy_def mkdirs_bucket_snd simp del: perform.simps)
qed

primrec quiet_prog :: "(io_call, io_answer, 'a) prog \<Rightarrow> bool" where
  "quiet_prog (Done x) = True"
| "quiet_prog (Call c k) = (quiet c \<and> (\<forall>r. quiet_prog (k r)))"

lemma quiet_bind [intro!]: "quiet_prog p \<Longrightarrow> (\<And>x. quiet_prog (f x)) \<Longrightarrow> quiet_prog (bind_prog p f)"
  by (induction p) auto

lemma quiet_try [intro!]: "quiet_prog p \<Longrightarrow> (\<And>x. quiet_prog (f x)) \<Longrightarrow> quiet_prog (try_prog p f)"
  unfolding try_prog_def by (auto split: sum.split)

lemma quiet_call [simp]: "quiet_prog (call c) = quiet c"
  by (simp add: call_def)

lemma ssat_quiet: "quiet_prog p \<Longrightarrow> ssat sp i (s3_holds sp i mi) p (\<lambda>_. s3_holds sp i mi)"
proof (induction p)
  case (Done x)
  show ?case by (rule ssat_done [OF s3_holds_stable])
next
  case (Call c k)
  have "ssat sp i (s3_holds sp i mi) (call c) (\<lambda>_. s3_holds sp i mi)"
  proof (rule ssat_call [OF _ s3_holds_stable])
    fix w r w' assume h: "s3_holds sp i mi w" and "one_step i c w r w'"
    then have "object_at w' = object_at w" using quiet_step Call.prems by (metis quiet_prog.simps(2))
    from s3_same [OF this] show "s3_guar sp i w w' \<and> s3_holds sp i mi w'" using h by blast
  qed
  moreover have "ssat sp i (s3_holds sp i mi) (k r) (\<lambda>_. s3_holds sp i mi)" for r using Call by simp
  ultimately have "ssat sp i (s3_holds sp i mi) (bind_prog (call c) k) (\<lambda>_. s3_holds sp i mi)" by (rule ssat_bind)
  then show ?case by (simp add: call_def)
qed

section \<open>Requests that change the bucket\<close>

lemma s3_created:
  assumes "s3_holds sp i {} w" and "object_at w k = None" and "object_at w' = (object_at w)(k \<mapsto> f)" and "fn_author f = i"
    and "fn_bytes f \<in> B" and "B \<subseteq> sp_allowed sp k"
  shows "s3_guar sp i w w' \<and> s3_holds sp i {(k, B)} w'"
proof -
  have g: "s3_guar sp i w w'" using assms by (auto simp: s3_guar_def s3_legal_def)
  then have "bucket_allowed sp w'" using s3_guar_allowed assms(1) by (auto simp: s3_holds_def)
  then show ?thesis using g assms(3-5) by (simp add: s3_holds_def s3_mine_def)
qed

lemma s3_removed:
  assumes "s3_holds sp i mi w" and "object_at w' = (object_at w)(k := None)" and "\<And>f. k \<in> sp_keys sp \<Longrightarrow> object_at w k = Some f \<Longrightarrow> fn_author f = i"
    and "mi' \<subseteq> mi" and "\<And>B. (k, B) \<in> mi' \<Longrightarrow> k \<notin> sp_keys sp"
  shows "s3_guar sp i w w' \<and> s3_holds sp i mi' w'"
proof -
  have g: "s3_guar sp i w w'" using assms(2,3) by (cases "object_at w k") (auto simp: s3_guar_def s3_legal_def)
  then have "bucket_allowed sp w'" using s3_guar_allowed assms(1) by (auto simp: s3_holds_def)
  moreover have "s3_mine sp i l B w'" if "(l, B) \<in> mi'" for l B
  proof -
    have "(l, B) \<in> mi" using assms(4) that by blast
    then have "s3_mine sp i l B w" using assms(1) by (force simp: s3_holds_def)
    then show ?thesis using assms(2,5) that by (auto simp: s3_mine_def)
  qed
  ultimately show ?thesis using g by (auto simp: s3_holds_def)
qed

definition put_failed :: "io_answer \<Rightarrow> bool" where
  "put_failed r = (case r of AS3Err _ \<Rightarrow> True | AErr _ \<Rightarrow> True | _ \<Rightarrow> False)"

text \<open>A put creates the object or changes nothing, and it does not succeed without creating it.\<close>

definition creates :: "nat \<Rightarrow> string \<Rightarrow> string set \<Rightarrow> world \<Rightarrow> world \<Rightarrow> bool" where
  "creates i k B w w' = (object_at w k = None \<and> (\<exists>f. object_at w' = (object_at w)(k \<mapsto> f) \<and> fn_author f = i \<and> fn_bytes f \<in> B))"

lemma creates_new: "object_at w k = None \<Longrightarrow> b \<in> B \<Longrightarrow> creates i k B w (set_object k (new_file i b w) w)"
  unfolding creates_def by (intro conjI exI [of _ "new_file i b w"]) (simp_all add: new_file_def)

definition puts :: "io_call \<Rightarrow> string \<Rightarrow> string set \<Rightarrow> bool" where
  "puts c k B = ((\<exists>b. c = S3Put k b \<and> B = {b}) \<or> (\<exists>p. c = S3PutFile k p \<and> B = UNIV))"

lemma put_perform:
  assumes "puts c k B"
  shows "snd (perform i c w) = w \<and> put_failed (fst (perform i c w)) \<or> creates i k B w (snd (perform i c w))"
  using assms unfolding puts_def
proof (elim disjE exE conjE)
  fix b assume "c = S3Put k b" "B = {b}"
  then show ?thesis using creates_new [of w k b B i] by (cases "object_at w k") (simp_all add: put_failed_def)
next
  fix p assume c: "c = S3PutFile k p" "B = UNIV"
  show ?thesis
  proof (cases "\<exists>q f. locate (node w) True p = Inr q \<and> node w q = Some (DFile f) \<and> object_at w k = None")
    case True
    then obtain q f where "locate (node w) True p = Inr q" "node w q = Some (DFile f)" "object_at w k = None" by blast
    then show ?thesis using creates_new [of w k "fn_bytes f" B i] c by (simp add: with_entry_def)
  next
    case False
    then show ?thesis using c
      by (auto simp: with_entry_def put_failed_def missing_or_other_def split: sum.splits option.splits disk_node.splits)
  qed
qed

lemma put_step:
  assumes "one_step i c w r w'" and "puts c k B"
  shows "w' = w \<and> put_failed r \<or> creates i k B w w'"
proof -
  from assms(1) consider "perform i c w = (r, w')" | "put_failed r" "w' = w \<or> w' = snd (perform i c w)"
    using assms(2) by (auto simp: one_step_def puts_def put_failed_def simp del: perform.simps)
  then show ?thesis using put_perform [OF assms(2), of i w] by cases auto
qed

lemma ssat_put_call:
  assumes "puts c k B" and "B \<subseteq> sp_allowed sp k"
  shows "ssat sp i (s3_holds sp i {}) (call c) (\<lambda>r. s3_holds sp i (if put_failed r then {} else {(k, B)}))"
proof (rule ssat_call [OF _ s3_holds_stable])
  fix w r w' assume h: "s3_holds sp i {} w" and step: "one_step i c w r w'"
  from put_step [OF step assms(1)]
  consider "w' = w" "put_failed r"
    | f where "object_at w k = None" "object_at w' = (object_at w)(k \<mapsto> f)" "fn_author f = i" "fn_bytes f \<in> B" by (auto simp: creates_def)
  then show "s3_guar sp i w w' \<and> s3_holds sp i (if put_failed r then {} else {(k, B)}) w'"
  proof cases
    case 1
    then show ?thesis using h s3_same(1) [of w w] by simp
  next
    case 2
    from s3_created [OF h 2 assms(2)] show ?thesis using s3_holds_mono [of sp i "{(k, B)}" w' "{}"] by auto
  qed
qed

lemma ssat_delete_call:
  assumes "\<And>w f. s3_holds sp i mi w \<Longrightarrow> k \<in> sp_keys sp \<Longrightarrow> object_at w k = Some f \<Longrightarrow> fn_author f = i"
    and "mi' \<subseteq> mi" and "\<And>B. (k, B) \<in> mi' \<Longrightarrow> k \<notin> sp_keys sp"
  shows "ssat sp i (s3_holds sp i mi) (call (S3Delete k)) (\<lambda>_. s3_holds sp i mi')"
proof (rule ssat_call [OF _ s3_holds_stable])
  fix w r w' assume h: "s3_holds sp i mi w" and "one_step i (S3Delete k) w r w'"
  then consider "w' = w" | "object_at w' = (object_at w)(k := None)" by (auto simp: one_step_def)
  then show "s3_guar sp i w w' \<and> s3_holds sp i mi' w'"
  proof cases
    case 1
    then show ?thesis using h s3_same(1) [of w w] s3_holds_mono [OF h assms(2)] by simp
  next
    case 2
    show ?thesis by (rule s3_removed [OF h 2 assms(1) [OF h] assms(2,3)])
  qed
qed

section \<open>Operations\<close>

lemma quiet_object_len: "quiet_prog (object_len prefix key)"
  unfolding object_len_def by (intro quiet_bind) simp_all

lemma quiet_existing_len: "quiet_prog (existing_len prefix key)"
  unfolding existing_len_def by (intro quiet_try quiet_object_len) simp

lemma quiet_verify: "quiet_prog (verify_object_len prefix key n)"
  unfolding verify_object_len_def by (intro quiet_try quiet_existing_len) simp

lemma quiet_simple_calls:
  "quiet c \<Longrightarrow> quiet_prog (unit_call c)" "quiet c \<Longrightarrow> quiet_prog (bool_call c)" "quiet c \<Longrightarrow> quiet_prog (len_call c)" "quiet_prog (check r)"
  unfolding unit_call_def bool_call_def len_call_def check_def by (auto intro!: quiet_bind)

lemma quiet_body_call: "quiet_prog (body_call prefix key)"
  unfolding body_call_def by (intro quiet_bind) simp_all

lemma quiet_read_body: "(\<And>c. quiet_prog (sink c)) \<Longrightarrow> quiet_prog (read_body sink it rest bytes n)"
proof (induction sink it rest bytes n rule: read_body.induct)
  case (1 sink it rest bytes n)
  show ?case
    by (subst read_body.simps) (auto intro!: quiet_bind quiet_try 1 simp: quiet_simple_calls split: io_answer.split option.split)
qed

lemma quiet_finalize: "quiet_prog (finalize_local_temp_without_overwrite a b label)"
  unfolding finalize_local_temp_without_overwrite_def by (auto intro!: quiet_bind split: io_answer.split io_kind.split)

lemma quiet_cleanup: "quiet_prog p \<Longrightarrow> quiet_prog (cleanup_temp_file_on_error p t)"
  unfolding cleanup_temp_file_on_error_def by (auto intro!: quiet_bind split: io_answer.split sum.split)

lemma quiet_get_to_file: "quiet_prog (s3_get_to_file prefix key dest t it)"
  unfolding s3_get_to_file_def
  by (auto intro!: quiet_try quiet_cleanup quiet_existing_len quiet_body_call quiet_read_body quiet_finalize simp: quiet_simple_calls)

lemma quiet_private_directory: "quiet_prog (ensure_private_directory p)"
  unfolding ensure_private_directory_def by (auto intro!: quiet_try quiet_bind simp: quiet_simple_calls)

lemma quiet_exists: "quiet_prog (s3_exists prefix key)"
  unfolding s3_exists_def by (intro quiet_try quiet_object_len) simp

text \<open>After a put: the length is checked, and a wrong one removes the object that the put made.\<close>

lemma ssat_after_put:
  assumes "k = object_key prefix key"
  shows "ssat sp i (s3_holds sp i (if put_failed r then {} else {(k, B)})) (after_put prefix key len r)
     (ok_or_err (\<lambda>_. s3_holds sp i {(k, B)}) (s3_holds sp i {}))"
proof -
  let ?Q = "ok_or_err (\<lambda>_ :: path. s3_holds sp i {(k, B)}) (s3_holds sp i {})"
  have fail: "ssat sp i (s3_holds sp i {}) (Done (Inl e)) ?Q" for e by (rule ssat_done [OF s3_holds_stable]) simp
  have keep: "ssat sp i (s3_holds sp i {(k, B)}) (Done (Inr key)) ?Q" by (rule ssat_done [OF s3_holds_stable]) simp
  have "ssat sp i (s3_holds sp i {(k, B)}) (call (S3Delete k)) (\<lambda>_. s3_holds sp i {})"
    by (rule ssat_delete_call) (auto simp: s3_holds_def s3_mine_def)
  then have rollback: "ssat sp i (s3_holds sp i {(k, B)}) (bind_prog (s3_delete prefix key) (\<lambda>_. Done (Inl e))) ?Q" for e
    unfolding s3_delete_def assms
    by (intro ssat_bind [where Q' = "\<lambda>_. s3_holds sp i {}"] ssat_done [OF s3_holds_stable]) (simp_all add: fail [unfolded assms])
  have made: "ssat sp i (s3_holds sp i {(k, B)}) (bind_prog (verify_object_len prefix key len) (\<lambda>v. case v of
      Inl e \<Rightarrow> bind_prog (s3_delete prefix key) (\<lambda>_. Done (Inl e)) | Inr _ \<Rightarrow> Done (Inr key))) ?Q"
    by (rule ssat_bind [OF ssat_quiet [OF quiet_verify]]) (auto split: sum.split intro!: rollback keep)
  show ?thesis
    unfolding after_put_def using fail made by (cases r) (auto simp: put_failed_def)
qed

lemma ssat_check: "ssat sp i (s3_holds sp i mi) (check r) (ok_or_err (\<lambda>_. s3_holds sp i mi) (s3_holds sp i mi))"
  unfolding check_def by (rule ssat_done [OF s3_holds_stable]) (auto simp: ok_or_err_def split: sum.split)

lemma ssat_quiet_try:
  assumes "quiet_prog p" and "\<And>a. ssat sp i (s3_holds sp i {}) (f a) (ok_or_err Q (s3_holds sp i {}))"
  shows "ssat sp i (s3_holds sp i {}) (try_prog p f) (ok_or_err Q (s3_holds sp i {}))"
  unfolding try_prog_def
  by (rule ssat_bind [OF ssat_quiet [OF assms(1)]]) (auto split: sum.split intro!: assms(2) ssat_done [OF s3_holds_stable])

lemma ssat_put:
  assumes "content \<in> sp_allowed sp (object_key prefix key)"
  shows "ssat sp i (s3_holds sp i {}) (s3_put prefix key content it)
     (ok_or_err (\<lambda>_. s3_holds sp i {(object_key prefix key, {content})}) (s3_holds sp i {}))"
  unfolding s3_put_def
  by (rule ssat_quiet_try [OF quiet_simple_calls(4) ssat_bind [OF ssat_put_call ssat_after_put]]) (use assms in \<open>auto simp: puts_def\<close>)

lemma ssat_put_file:
  assumes "sp_allowed sp (object_key prefix key) = UNIV"
  shows "ssat sp i (s3_holds sp i {}) (s3_put_file prefix key source it)
     (ok_or_err (\<lambda>_. s3_holds sp i {(object_key prefix key, UNIV)}) (s3_holds sp i {}))"
  unfolding s3_put_file_def
  by (rule ssat_quiet_try [OF quiet_simple_calls(3) ssat_quiet_try [OF quiet_simple_calls(4) ssat_bind [OF ssat_put_call ssat_after_put]]])
    (use assms in \<open>auto simp: puts_def\<close>)

lemma ssat_delete:
  assumes "object_key prefix key \<notin> sp_keys sp"
  shows "ssat sp i (s3_holds sp i mi) (s3_delete prefix key) (\<lambda>_. s3_holds sp i mi)"
  unfolding s3_delete_def
  by (rule ssat_bind [OF ssat_delete_call ssat_done [OF s3_holds_stable]]) (use assms in auto)

lemma ssat_promote:
  assumes "sp_allowed sp (object_key prefix dk) = UNIV" and "object_key prefix tk \<notin> sp_keys sp"
  shows "ssat sp i (s3_holds sp i {}) (s3_promote prefix work tk dk a b)
     (ok_or_err (\<lambda>_. s3_holds sp i {(object_key prefix dk, UNIV)}) (s3_holds sp i {}))"
proof -
  let ?Q = "ok_or_err (\<lambda>_ :: path. s3_holds sp i {(object_key prefix dk, UNIV)}) (s3_holds sp i {})"
  let ?t = "work @ [a]"
  have last: "ssat sp i (s3_holds sp i {(object_key prefix dk, UNIV)}) (bind_prog (s3_delete prefix tk) (\<lambda>_. Done (Inr dk))) ?Q"
    by (rule ssat_bind [OF ssat_delete [OF assms(2)] ssat_done [OF s3_holds_stable]]) simp
  have copy: "ssat sp i (s3_holds sp i {}) (try_prog (s3_get_to_file prefix tk ?t (work @ [b]) it) (\<lambda>_.
      try_prog (s3_put_file prefix dk ?t it) (\<lambda>_. bind_prog (s3_delete prefix tk) (\<lambda>_. Done (Inr dk))))) ?Q" for it
    by (rule ssat_quiet_try [OF quiet_get_to_file ssat_try [OF ssat_put_file [OF assms(1)] last s3_holds_stable]])
  have leave: "ssat sp i (s3_holds sp i mi) (bind_prog (call (RemoveFile ?t)) (\<lambda>_. Done x)) (\<lambda>y w. s3_holds sp i mi w \<and> y = x)" for mi and x :: "storage_error + path"
    by (rule ssat_bind [OF ssat_quiet ssat_done [OF s3_holds_stable]]) simp_all
  have cleanup: "ssat sp i (?Q x) (bind_prog (call (RemoveFile ?t)) (\<lambda>_. Done x)) ?Q" for x
  proof (cases x)
    case (Inl e)
    show ?thesis unfolding Inl ok_or_err_simps by (rule ssat_post [OF leave]) simp
  next
    case (Inr v)
    show ?thesis unfolding Inr ok_or_err_simps by (rule ssat_post [OF leave]) simp
  qed
  show ?thesis
    unfolding s3_promote_def Let_def
    by (rule ssat_quiet_try [OF quiet_existing_len ssat_quiet_try [OF quiet_private_directory ssat_bind [OF copy cleanup]]])
qed

lemma ssat_body:
  "ssat sp i (s3_holds sp i {}) (body_call prefix key)
     (ok_or_err (\<lambda>b w. s3_holds sp i {} w \<and> b \<in> sp_allowed sp (object_key prefix key)) (s3_holds sp i {}))"
proof -
  let ?k = "object_key prefix key"
  have "ssat sp i (s3_holds sp i {}) (call (S3Get ?k)) (\<lambda>r w. s3_holds sp i {} w \<and> (\<forall>b. r = ABytes b \<longrightarrow> b \<in> sp_allowed sp ?k))"
  proof (rule ssat_call [OF _ stable_conj_pure [OF s3_holds_stable]])
    fix w r w' assume h: "s3_holds sp i {} w" and step: "one_step i (S3Get ?k) w r w'"
    then have "w' = w" "\<forall>b. r = ABytes b \<longrightarrow> (\<exists>f. object_at w ?k = Some f \<and> fn_bytes f = b)" by (auto simp: one_step_def split: option.splits)
    then show "s3_guar sp i w w' \<and> s3_holds sp i {} w' \<and> (\<forall>b. r = ABytes b \<longrightarrow> b \<in> sp_allowed sp ?k)"
      using h s3_same(1) [of w w] by (auto simp: s3_holds_def bucket_allowed_def)
  qed
  then show ?thesis
    unfolding body_call_def
    by (rule ssat_bind [OF _ ssat_done [OF stable_conj_pure [OF s3_holds_stable]]]) (auto split: io_answer.split)
qed

text \<open>The chunks that the loop collects are the body.\<close>

lemma body_read_step: "one_step i (BodyRead rest) w r w' \<Longrightarrow> r = ABytes c \<Longrightarrow> (\<exists>n. c = take n rest) \<and> (c = [] \<longrightarrow> rest = []) \<and> w' = w"
  by (auto simp: one_step_def)

lemma ssat_read_body:
  "ssat sp i (s3_holds sp i {}) (read_body no_sink it rest bytes n) (ok_or_err (\<lambda>x w. s3_holds sp i {} w \<and> fst x = bytes @ rest) (s3_holds sp i {}))"
proof (induction "no_sink" it rest bytes n rule: read_body.induct)
  case (1 it rest bytes n)
  let ?Q = "ok_or_err (\<lambda>x w. s3_holds sp i {} w \<and> fst x = bytes @ rest) (s3_holds sp i {})"
  have fail: "ssat sp i (s3_holds sp i {}) (Done (Inl e)) ?Q" for e by (rule ssat_done [OF s3_holds_stable]) simp
  have chunk: "ssat sp i (s3_holds sp i {}) (call (BodyRead rest)) (\<lambda>r w. s3_holds sp i {} w \<and> (\<forall>c. r = ABytes c \<longrightarrow> (\<exists>n. c = take n rest) \<and> (c = [] \<longrightarrow> rest = [])))"
  proof (rule ssat_call [OF _ stable_conj_pure [OF s3_holds_stable]])
    fix w r w' assume h: "s3_holds sp i {} w" and step: "one_step i (BodyRead rest) w r w'"
    have "w' = w" using step by (auto simp: one_step_def)
    then show "s3_guar sp i w w' \<and> s3_holds sp i {} w' \<and> (\<forall>c. r = ABytes c \<longrightarrow> (\<exists>n. c = take n rest) \<and> (c = [] \<longrightarrow> rest = []))"
      using h s3_same(1) [of w w] body_read_step [OF step] by auto
  qed
  have pure: "ssat sp i (\<lambda>w. s3_holds sp i {} w \<and> b) p Q" if "b \<Longrightarrow> ssat sp i (s3_holds sp i {}) p Q" for b and p :: "(string \<times> nat) io" and Q
    using that by (auto simp: ssat_def sat_def)
  have finish: "ssat sp i (s3_holds sp i {}) (Done (Inr (bytes, n))) ?Q" if "rest = []"
    by (rule ssat_done [OF s3_holds_stable]) (simp add: that)
  have more: "ssat sp i (s3_holds sp i {})
      (case checked_add_u64 n (length c) of None \<Rightarrow> Done (Inl (too_large it))
       | Some t \<Rightarrow> try_prog (check (ensure_len it t)) (\<lambda>_. try_prog (no_sink c) (\<lambda>_. read_body no_sink it (drop (length c) rest) (bytes @ c) t))) ?Q"
    if c: "c = take m rest" "\<not> (c = [] \<or> rest = [])" for c m
  proof (cases "checked_add_u64 n (length c)")
    case None
    then show ?thesis using fail by simp
  next
    case (Some t)
    have "c @ drop (length c) rest = rest" using c(1) by (metis append_take_drop_id append_eq_conv_conj)
    then have next_chunk: "ssat sp i (s3_holds sp i {}) (read_body no_sink it (drop (length c) rest) (bytes @ c) t) ?Q"
      using "1.hyps" [OF c(2) Some] by simp
    have "quiet_prog (check (ensure_len it t))" "quiet_prog (no_sink c)" by (simp_all add: quiet_simple_calls no_sink_def)
    then show ?thesis using Some by (auto intro!: ssat_quiet_try next_chunk)
  qed
  show ?case
    by (subst read_body.simps, rule ssat_bind [OF chunk]) (auto split: io_answer.split intro!: pure fail ssat_done [OF s3_holds_stable] more)
qed

lemma ssat_get:
  "ssat sp i (s3_holds sp i {}) (s3_get prefix key it)
     (ok_or_err (\<lambda>b w. s3_holds sp i {} w \<and> b \<in> sp_allowed sp (object_key prefix key)) (s3_holds sp i {}))"
proof -
  let ?A = "sp_allowed sp (object_key prefix key)"
  let ?Q = "ok_or_err (\<lambda>b w. s3_holds sp i {} w \<and> b \<in> ?A) (s3_holds sp i {})"
  have pure: "ssat sp i (\<lambda>w. s3_holds sp i {} w \<and> b) p Q" if "b \<Longrightarrow> ssat sp i (s3_holds sp i {}) p Q" for b and p :: "string io" and Q
    using that by (auto simp: ssat_def sat_def)
  have last: "ssat sp i (\<lambda>w. s3_holds sp i {} w \<and> fst x = [] @ body)
      ((\<lambda>(bytes, n). Done (if n \<noteq> len then Inl (e n) else Inr bytes)) x) ?Q" if "body \<in> ?A" for x :: "string \<times> nat" and body len e
    by (rule pure, cases x) (auto intro!: ssat_done [OF s3_holds_stable] simp: that)
  have "ssat sp i (\<lambda>w. s3_holds sp i {} w \<and> body \<in> ?A)
      (try_prog (read_body no_sink it body [] 0) (\<lambda>(bytes, n). Done (if n \<noteq> len then Inl (e n) else Inr bytes))) ?Q" for body len e
    by (rule pure, rule ssat_try [OF ssat_read_body last s3_holds_stable])
  note rest = ssat_try [OF ssat_body this s3_holds_stable]
  show ?thesis
    unfolding s3_get_def
    by (rule ssat_quiet_try [OF quiet_existing_len ssat_quiet_try [OF quiet_simple_calls(4) rest]])
qed

section \<open>The bucket keeps the contract of an object store\<close>

fun s3_op_ok :: "s3_protocol \<Rightarrow> storage_op \<Rightarrow> bool" where
  "s3_op_ok sp (OpPut key tmp content it) = (content \<in> sp_allowed sp (object_key (sp_prefix sp) key))"
| "s3_op_ok sp (OpPutFile key tmp src it) = (sp_allowed sp (object_key (sp_prefix sp) key) = UNIV)"
| "s3_op_ok sp (OpPromote tk dk) = (sp_allowed sp (object_key (sp_prefix sp) dk) = UNIV \<and> object_key (sp_prefix sp) tk \<notin> sp_keys sp)"
| "s3_op_ok sp (OpDelete key) = (object_key (sp_prefix sp) key \<notin> sp_keys sp)"
| "s3_op_ok sp _ = True"

fun s3_stores :: "string option \<Rightarrow> storage_op \<Rightarrow> (string \<times> string set) set" where
  "s3_stores prefix (OpPut key tmp content it) = {(object_key prefix key, {content})}"
| "s3_stores prefix (OpPutFile key tmp src it) = {(object_key prefix key, UNIV)}"
| "s3_stores prefix (OpPromote tk dk) = {(object_key prefix dk, UNIV)}"
| "s3_stores prefix _ = {}"

fun s3_fetches :: "s3_protocol \<Rightarrow> storage_op \<Rightarrow> storage_value \<Rightarrow> bool" where
  "s3_fetches sp (OpGet key it) (VBytes b) = (b \<in> sp_allowed sp (object_key (sp_prefix sp) key))"
| "s3_fetches sp _ _ = True"

definition s3_done :: "s3_protocol \<Rightarrow> nat \<Rightarrow> storage_op \<Rightarrow> storage_error + storage_value \<Rightarrow> world \<Rightarrow> bool" where
  "s3_done sp i op = ok_or_err (\<lambda>v w. s3_holds sp i (s3_stores (sp_prefix sp) op) w \<and> s3_fetches sp op v) (s3_holds sp i {})"

lemma ssat_returning:
  assumes "ssat sp i P p (ok_or_err Q (s3_holds sp i {}))" and "\<And>a. stable (s3_rely sp i) (Q a)" and "\<And>a w. Q a w \<Longrightarrow> Q' (f a) w"
  shows "ssat sp i P (returning f p) (ok_or_err Q' (s3_holds sp i {}))"
  unfolding returning_def by (rule ssat_try [OF assms(1) _ s3_holds_stable], rule ssat_done [OF assms(2)]) (simp add: assms(3))

lemma ssat_quiet_result: "quiet_prog p \<Longrightarrow> ssat sp i (s3_holds sp i {}) p (ok_or_err (\<lambda>_. s3_holds sp i {}) (s3_holds sp i {}))"
  by (rule ssat_post [OF ssat_quiet]) (auto simp: ok_or_err_def split: sum.split)

lemma s3_op_correct:
  assumes "s3_op_ok sp op"
  shows "ssat sp i (s3_holds sp i {}) (s3_prog (sp_prefix sp) work names op) (s3_done sp i op)"
proof (cases op)
  case (OpPut key tmp content it)
  then show ?thesis using assms ssat_put [of content sp "sp_prefix sp" key i it]
    by (auto simp: s3_done_def intro!: ssat_returning s3_holds_stable)
next
  case (OpPutFile key tmp src it)
  then show ?thesis using assms ssat_put_file [of sp "sp_prefix sp" key i src it]
    by (auto simp: s3_done_def intro!: ssat_returning s3_holds_stable)
next
  case (OpPromote tk dk)
  then show ?thesis using assms ssat_promote [of sp "sp_prefix sp" dk tk i work "fst names" "snd names"]
    by (auto simp: s3_done_def intro!: ssat_returning s3_holds_stable)
next
  case (OpGet key it)
  then show ?thesis using ssat_get [of sp i "sp_prefix sp" key it]
    by (auto simp: s3_done_def intro!: ssat_returning stable_conj_pure s3_holds_stable)
next
  case (OpGetToFile key dest t it)
  then show ?thesis using ssat_quiet_result [OF quiet_get_to_file, of sp i "sp_prefix sp" key dest t it]
    by (auto simp: s3_done_def intro!: ssat_returning s3_holds_stable)
next
  case (OpExists key)
  then show ?thesis using ssat_quiet_result [OF quiet_exists, of sp i "sp_prefix sp" key]
    by (auto simp: s3_done_def intro!: ssat_returning s3_holds_stable)
next
  case (OpDelete key)
  then have "ssat sp i (s3_holds sp i {}) (s3_delete (sp_prefix sp) key) (ok_or_err (\<lambda>_. s3_holds sp i {}) (s3_holds sp i {}))"
    by (intro ssat_post [OF ssat_delete]) (use assms in \<open>auto simp: ok_or_err_def split: sum.split\<close>)
  then show ?thesis using OpDelete by (auto simp: s3_done_def intro!: ssat_returning s3_holds_stable)
qed

definition s3_post :: "s3_protocol \<Rightarrow> nat \<Rightarrow> storage_error + storage_value \<Rightarrow> world \<Rightarrow> bool" where
  "s3_post sp i x w = (i < length (sp_ops sp) \<and> s3_done sp i (sp_ops sp ! i) x w)"

text \<open>Each request has its own random names; nothing depends on them.\<close>

definition s3_progs :: "string option \<Rightarrow> path \<Rightarrow> (nat \<Rightarrow> string \<times> string) \<Rightarrow> storage_op list \<Rightarrow> storage_value io list" where
  "s3_progs prefix work names ops = map (\<lambda>i. s3_prog prefix work (names i) (ops ! i)) [0..<length ops]"

definition s3_starts :: "s3_protocol \<Rightarrow> storage_value io list \<Rightarrow> world \<Rightarrow> bool" where
  "s3_starts sp ps w0 =
     ((\<exists>work names. ps = s3_progs (sp_prefix sp) work names (sp_ops sp)) \<and> bucket_allowed sp w0 \<and> (\<forall>op \<in> set (sp_ops sp). s3_op_ok sp op))"

definition bucket_object :: "s3_protocol \<Rightarrow> world \<Rightarrow> path \<Rightarrow> (string \<times> nat) option" where
  "bucket_object sp w key = map_option (\<lambda>f. (fn_bytes f, fn_author f)) (object_at w (object_key (sp_prefix sp) key))"

definition s3_writes :: "s3_protocol \<Rightarrow> nat \<Rightarrow> path \<Rightarrow> string set \<Rightarrow> bool" where
  "s3_writes sp i key B = (i < length (sp_ops sp) \<and> (object_key (sp_prefix sp) key, B) \<in> s3_stores (sp_prefix sp) (sp_ops sp ! i))"

definition s3_reads :: "s3_protocol \<Rightarrow> nat \<Rightarrow> path \<Rightarrow> bool" where
  "s3_reads sp i key = (i < length (sp_ops sp) \<and> (\<exists>it. sp_ops sp ! i = OpGet key it))"

interpretation bucket_store: object_store outcome s3_rely s3_guar s3_post s3_starts bucket_object
  "\<lambda>sp key. object_key (sp_prefix sp) key \<in> sp_keys sp" s3_writes s3_reads
  "\<lambda>sp key b. b \<in> sp_allowed sp (object_key (sp_prefix sp) key)" is_ok bytes_returned
proof (unfold_locales, goal_cases)
  case (1 sp ps w0 i)
  then obtain work names where ps: "ps = s3_progs (sp_prefix sp) work names (sp_ops sp)" by (auto simp: s3_starts_def)
  then have i: "i < length (sp_ops sp)" using 1(2) by (simp add: s3_progs_def)
  have ok: "bucket_allowed sp w0" "s3_op_ok sp (sp_ops sp ! i)" using 1(1) i by (simp_all add: s3_starts_def)
  have "ps ! i = s3_prog (sp_prefix sp) work (names i) (sp_ops sp ! i)" using ps i by (simp add: s3_progs_def)
  moreover have "s3_post sp i = s3_done sp i (sp_ops sp ! i)" using i by (simp add: s3_post_def fun_eq_iff)
  moreover have "s3_holds sp i {} w0" using ok(1) by (simp add: s3_holds_def)
  ultimately show ?case using s3_op_correct [OF ok(2), of i work "names i"] by (simp add: ssat_def sat_def)
next
  case (2 i j sp w w')
  then show ?case by (auto simp: s3_rely_def)
next
  case (3 sp i w w' key x y)
  let ?k = "object_key (sp_prefix sp) key"
  show ?case
  proof (cases "object_at w' ?k = object_at w ?k")
    case True
    then show ?thesis using 3(2,3) by (auto simp: bucket_object_def)
  next
    case False
    then have "s3_legal sp i ?k (object_at w ?k) (object_at w' ?k)" using 3(1) by (simp add: s3_guar_def)
    then show ?thesis using 3(2,3) by (auto simp: s3_legal_def bucket_object_def)
  qed
next
  case (4 sp i r w key B)
  then have "s3_holds sp i (s3_stores (sp_prefix sp) (sp_ops sp ! i)) w" by (cases r) (auto simp: s3_post_def s3_done_def is_ok_def)
  then have "s3_mine sp i (object_key (sp_prefix sp) key) B w" using 4(3) by (force simp: s3_writes_def s3_holds_def)
  then show ?case using 4(4) by (auto simp: s3_mine_def bucket_object_def)
next
  case (5 sp i r w key b)
  then show ?case by (cases r) (auto simp: s3_post_def s3_done_def s3_reads_def bytes_returned_def split: storage_value.splits)
qed

section \<open>What clients may count on\<close>

text \<open>A key is uploaded to from a file when its content is what the file holds at that moment.\<close>

fun uploads :: "storage_op \<Rightarrow> path option" where
  "uploads (OpPutFile key tmp src it) = Some key"
| "uploads (OpPromote tk dk) = Some dk"
| "uploads _ = None"

definition bucket_may_hold :: "string option \<Rightarrow> storage_op list \<Rightarrow> world \<Rightarrow> string \<Rightarrow> string \<Rightarrow> bool" where
  "bucket_may_hold prefix ops w0 k b =
     ((\<exists>f. object_at w0 k = Some f \<and> fn_bytes f = b)
      \<or> (\<exists>op \<in> set ops. \<exists>key tmp it. op = OpPut key tmp b it \<and> object_key prefix key = k)
      \<or> (\<exists>op \<in> set ops. \<exists>key. uploads op = Some key \<and> object_key prefix key = k))"

definition bucket_removes :: "string option \<Rightarrow> storage_op list \<Rightarrow> string \<Rightarrow> bool" where
  "bucket_removes prefix ops k = (\<exists>op \<in> set ops. \<exists>key. removes op key \<and> object_key prefix key = k)"

definition s3_protocol_of :: "string option \<Rightarrow> storage_op list \<Rightarrow> world \<Rightarrow> s3_protocol" where
  "s3_protocol_of prefix ops w0 = \<lparr>sp_prefix = prefix, sp_ops = ops, sp_keys = {k. \<not> bucket_removes prefix ops k},
     sp_allowed = (\<lambda>k. {b. bucket_may_hold prefix ops w0 k b})\<rparr>"

lemma s3_protocol_of_simps [simp]:
  "sp_prefix (s3_protocol_of prefix ops w0) = prefix" "sp_ops (s3_protocol_of prefix ops w0) = ops"
  "sp_keys (s3_protocol_of prefix ops w0) = {k. \<not> bucket_removes prefix ops k}"
  "sp_allowed (s3_protocol_of prefix ops w0) k = {b. bucket_may_hold prefix ops w0 k b}"
  by (simp_all add: s3_protocol_of_def)

lemma bucket_requests_start: "s3_starts (s3_protocol_of prefix ops w0) (s3_progs prefix work names ops) w0"
proof -
  let ?sp = "s3_protocol_of prefix ops w0"
  have "s3_op_ok ?sp op" if op: "op \<in> set ops" for op
  proof -
    have up: "{b. bucket_may_hold prefix ops w0 (object_key prefix key) b} = UNIV" if "uploads op = Some key" for key
      using that op by (auto simp: bucket_may_hold_def)
    have rem: "bucket_removes prefix ops (object_key prefix key)" if "removes op key" for key
      using that op by (auto simp: bucket_removes_def)
    have put: "bucket_may_hold prefix ops w0 (object_key prefix key) content" if "op = OpPut key tmp content it" for key tmp content it
      using that op by (auto simp: bucket_may_hold_def)
    show ?thesis using up rem put by (cases op) simp_all
  qed
  moreover have "bucket_allowed ?sp w0" by (auto simp: bucket_allowed_def bucket_may_hold_def)
  ultimately show ?thesis by (auto simp: s3_starts_def)
qed

lemma bucket_writer_stores:
  assumes "i < length ops" and "writes_key (ops ! i) = Some key"
  obtains B where "s3_writes (s3_protocol_of prefix ops w0) i key B" and "\<And>key tmp content it. ops ! i = OpPut key tmp content it \<Longrightarrow> B = {content}"
  using assms by (cases "ops ! i") (auto simp: s3_writes_def)

text \<open>
  C29. Requests to a bucket that run at the same time, interleaved in any way and with any request failing,
  even after it took effect: if none of them removes a key, at most one of the requests that write it succeeds,
  and from then on the key holds the object which that request stored.
\<close>

theorem bucket_writes_have_one_winner:
  assumes reach: "pool_reach outcome (s3_progs prefix work names ops, w0) (ps, w)"
    and ij: "i < length ops" "j < length ops" and keys: "writes_key (ops ! i) = Some key" "writes_key (ops ! j) = Some key"
    and kept: "\<not> bucket_removes prefix ops (object_key prefix key)" and "done": "ps ! i = Done (Inr v)" "ps ! j = Done (Inr v')"
  shows "i = j \<and> (\<exists>f. object_at w (object_key prefix key) = Some f \<and> fn_author f = i
     \<and> (\<forall>tmp content it. ops ! i = OpPut key tmp content it \<longrightarrow> fn_bytes f = content))"
proof -
  let ?sp = "s3_protocol_of prefix ops w0"
  obtain B where B: "s3_writes ?sp i key B" "\<And>key tmp content it. ops ! i = OpPut key tmp content it \<Longrightarrow> B = {content}"
    using bucket_writer_stores [OF ij(1) keys(1)] by metis
  obtain B' where B': "s3_writes ?sp j key B'" using bucket_writer_stores [OF ij(2) keys(2)] by metis
  have len: "i < length (s3_progs prefix work names ops)" "j < length (s3_progs prefix work names ops)" using ij by (simp_all add: s3_progs_def)
  have good: "is_ok (Inr v :: storage_error + storage_value)" "is_ok (Inr v' :: storage_error + storage_value)" by (simp_all add: is_ok_def)
  have "object_key (sp_prefix ?sp) key \<in> sp_keys ?sp" using kept by simp
  from bucket_store.one_winner [OF bucket_requests_start reach len "done" good B(1) B' this]
  obtain b where "i = j" "b \<in> B" "bucket_object ?sp w key = Some (b, i)" by blast
  then show ?thesis using B(2) by (auto simp: bucket_object_def)
qed

text \<open>
  However requests to a bucket interleave and fail, no step replaces an object by another one, and a read
  that succeeds returns the complete bytes of one object: what was there at the start, or the content of a
  request to store that key, unless the key is uploaded to from a file.
\<close>

lemma bucket_objects_are_whole:
  assumes reach: "pool_reach outcome (s3_progs prefix work names ops, w0) (ps, w)"
  shows "(\<forall>ps' w' key f g. pool_step outcome (ps, w) (ps', w') \<longrightarrow> object_at w (object_key prefix key) = Some f
        \<longrightarrow> object_at w' (object_key prefix key) = Some g \<longrightarrow> fn_bytes g = fn_bytes f \<and> fn_author g = fn_author f)
     \<and> (\<forall>i key it b. i < length ops \<longrightarrow> ops ! i = OpGet key it \<longrightarrow> ps ! i = Done (Inr (VBytes b))
        \<longrightarrow> bucket_may_hold prefix ops w0 (object_key prefix key) b)"
proof (intro conjI [of "\<forall>ps'. _ ps'"] allI impI)
  let ?sp = "s3_protocol_of prefix ops w0"
  note start = bucket_requests_start [of prefix ops w0 work names]
  fix ps' w' key f g assume step: "pool_step outcome (ps, w) (ps', w')" and f: "object_at w (object_key prefix key) = Some f"
    and g: "object_at w' (object_key prefix key) = Some g"
  have "bucket_object ?sp w key = Some (fn_bytes f, fn_author f)" "bucket_object ?sp w' key = Some (fn_bytes g, fn_author g)"
    using f g by (simp_all add: bucket_object_def)
  from bucket_store.objects_are_whole [OF start reach step this]
  show "fn_bytes g = fn_bytes f \<and> fn_author g = fn_author f" by simp
next
  let ?sp = "s3_protocol_of prefix ops w0"
  note start = bucket_requests_start [of prefix ops w0 work names]
  fix i key it b assume i: "i < length ops" "ops ! i = OpGet key it" and d: "ps ! i = Done (Inr (VBytes b))"
  have "s3_reads ?sp i key" "i < length (s3_progs prefix work names ops)" using i by (auto simp: s3_reads_def s3_progs_def)
  from bucket_store.reads_are_whole [OF start reach this(2) d this(1)]
  show "bucket_may_hold prefix ops w0 (object_key prefix key) b" by (simp add: bytes_returned_def)
qed

section \<open>An example\<close>

lemma run_bind: "run_prog act (bind_prog p f) s = (case run_prog act p s of (x, s') \<Rightarrow> run_prog act (f x) s')"
  by (induction p arbitrary: s) (simp_all split: prod.split)

lemma run_try:
  "run_prog act (try_prog p f) s = (case run_prog act p s of (x, s') \<Rightarrow> (case x of Inl e \<Rightarrow> (Inl e, s') | Inr a \<Rightarrow> run_prog act (f a) s'))"
  unfolding try_prog_def run_bind by (simp split: prod.split sum.split)

lemma run_call: "run_prog act (call c) s = act c s"
  by (simp add: call_def split: prod.split)

lemma run_read_body:
  assumes "length rest \<le> 65536" and "n + length rest \<le> wi_max_bytes it" and "n + length rest < 2 ^ 64"
  shows "run_prog (perform i) (read_body no_sink it rest bytes n) w = (Inr (bytes @ rest, n + length rest), w)"
proof -
  have empty: "run_prog (perform i) (read_body no_sink it [] bytes n) w = (Inr (bytes, n), w)" for bytes n
    by (subst read_body.simps) (simp add: run_bind run_call)
  show ?thesis
    using assms
    by (cases "rest = []", simp add: empty, subst read_body.simps)
      (simp add: run_bind run_try run_call check_def no_sink_def empty checked_add_u64_def u64_max_def ensure_len_def guard_err_def)
qed

lemmas run_s3 = run_bind run_try run_call run_read_body check_def returning_def after_put_def verify_object_len_def existing_len_def object_len_def
  ensure_len_def guard_err_def ok_or_def

abbreviation one_world :: world where
  "one_world \<equiv> \<lparr>wd_disk = [], wd_bucket = [(''p/k'', \<lparr>fn_bytes = ''a'', fn_modified = 0, fn_author = 0\<rparr>)], wd_now = 0\<rparr>"

lemma example_runs:
  "run_prog (perform 0) (s3_prog (Some ''p'') work names (example_ops ! 0)) \<lparr>wd_disk = [], wd_bucket = [], wd_now = 0\<rparr> = (Inr (VKey [''k'']), one_world)"
  "run_prog (perform 1) (s3_prog (Some ''p'') work names (example_ops ! 1)) one_world = (Inl (StObjectConflict ''k''), one_world)"
  "run_prog (perform 2) (s3_prog (Some ''p'') work names (example_ops ! 2)) one_world = (Inr (VBytes ''a''), one_world)"
  by (simp_all add: example_ops_def s3_put_def s3_get_def body_call_def run_s3 new_file_def set_object_def object_key_def path_text_def
      s3_put_object_error_is_conflict_def precondition_failed_def)

lemma three_runs:
  assumes "length ps = 3" and "run_prog (perform 0) (ps ! 0) w0 = (x, w1)" and "run_prog (perform 1) (ps ! 1) w1 = (y, w2)"
    and "run_prog (perform 2) (ps ! 2) w2 = (z, w3)"
  shows "pool_reach outcome (ps, w0) ([Done x, Done y, Done z], w3)"
proof -
  have "pool_reach outcome (ps, w0) (ps[0 := Done x], w1)" by (rule run_alone) (use assms in simp_all)
  moreover have "pool_reach outcome (ps[0 := Done x], w1) (ps[0 := Done x, 1 := Done y], w2)" by (rule run_alone) (use assms in simp_all)
  moreover have "pool_reach outcome (ps[0 := Done x, 1 := Done y], w2) (ps[0 := Done x, 1 := Done y, 2 := Done z], w3)"
    by (rule run_alone) (use assms in simp_all)
  moreover have "ps[0 := Done x, 1 := Done y, 2 := Done z] = [Done x, Done y, Done z]"
    using assms(1) by (auto simp: length_Suc_conv numeral_3_eq_3 numeral_2_eq_2)
  ultimately show ?thesis by (metis pool_reach_trans)
qed

lemma example_progs:
  "length (s3_progs prefix work names example_ops) = 3"
  "i < 3 \<Longrightarrow> s3_progs prefix work names example_ops ! i = s3_prog prefix work (names i) (example_ops ! i)"
proof -
  have len: "length example_ops = 3" by (simp add: example_ops_def)
  show "length (s3_progs prefix work names example_ops) = 3" by (simp add: s3_progs_def len)
  show "s3_progs prefix work names example_ops ! i = s3_prog prefix work (names i) (example_ops ! i)" if "i < 3"
    unfolding s3_progs_def len using that nth_map_upt [of i 3 0] by simp
qed

lemma example_reaches:
  "pool_reach outcome (s3_progs (Some ''p'') work names example_ops, \<lparr>wd_disk = [], wd_bucket = [], wd_now = 0\<rparr>)
     ([Done (Inr (VKey [''k''])), Done (Inl (StObjectConflict ''k'')), Done (Inr (VBytes ''a''))], one_world)"
proof (rule three_runs)
  show "length (s3_progs (Some ''p'') work names example_ops) = 3" by (rule example_progs)
  have "0 < (3 :: nat)" "1 < (3 :: nat)" "2 < (3 :: nat)" by simp_all
  note progs = this [THEN example_progs(2)]
  show "run_prog (perform 0) (s3_progs (Some ''p'') work names example_ops ! 0) \<lparr>wd_disk = [], wd_bucket = [], wd_now = 0\<rparr> = (Inr (VKey [''k'']), one_world)"
    unfolding progs by (rule example_runs)
  show "run_prog (perform 1) (s3_progs (Some ''p'') work names example_ops ! 1) one_world = (Inl (StObjectConflict ''k''), one_world)"
    unfolding progs by (rule example_runs)
  show "run_prog (perform 2) (s3_progs (Some ''p'') work names example_ops ! 2) one_world = (Inr (VBytes ''a''), one_world)"
    unfolding progs by (rule example_runs)
qed

theorem bucket_writes_have_one_winner_witness:
  "\<exists>ps w f. pool_reach outcome (s3_progs (Some ''p'') [''w''] (\<lambda>_. (''a'', ''b'')) example_ops, \<lparr>wd_disk = [], wd_bucket = [], wd_now = 0\<rparr>) (ps, w)
     \<and> ps ! 0 = Done (Inr (VKey [''k''])) \<and> object_at w ''p/k'' = Some f \<and> fn_author f = 0 \<and> fn_bytes f = ''a''"
proof -
  obtain ps where reach: "pool_reach outcome (s3_progs (Some ''p'') [''w''] (\<lambda>_. (''a'', ''b'')) example_ops,
      \<lparr>wd_disk = [], wd_bucket = [], wd_now = 0\<rparr>) (ps, one_world)" and p0: "ps ! 0 = Done (Inr (VKey [''k'']))"
    using example_reaches by fastforce
  have "0 < length example_ops" "writes_key (example_ops ! 0) = Some [''k'']" "\<not> bucket_removes (Some ''p'') example_ops (object_key (Some ''p'') [''k''])"
    by (simp_all add: example_ops_def bucket_removes_def)
  from bucket_writes_have_one_winner [OF reach this(1,1,2,2,3) p0 p0]
  obtain f where "object_at one_world (object_key (Some ''p'') [''k'']) = Some f" "fn_author f = 0" "fn_bytes f = ''a''" by (auto simp: example_ops_def)
  then have "object_at one_world ''p/k'' = Some f \<and> fn_author f = 0 \<and> fn_bytes f = ''a''" by (simp add: object_key_def path_text_def)
  then show ?thesis using reach p0 by blast
qed

end
