(* ===== verification/Local_Listing.thy ===== *)
theory Local_Listing
  imports S3_Storage
begin

text \<open>
  The prefix operations of \<open>LocalStorage\<close>: \<open>list_local_prefix\<close> walks the directory tree below a prefix with a
  stack, \<open>delete_local_prefix_older_than\<close> removes old files of the listing. Each of the two runs as one blocking
  task; here the listing sees one state of the disk. A directory on the stack is kept with the path that it
  has below the storage directory. \<open>utf8\<close> is \<open>Path::to_str\<close>.
\<close>

section \<open>The walk\<close>

definition children :: "disk \<Rightarrow> path \<Rightarrow> string list" where
  "children d q = remdups (map last (filter (\<lambda>p. p \<noteq> [] \<and> butlast p = q) (map fst d)))"

definition below :: "disk \<Rightarrow> path \<Rightarrow> path set" where
  "below d q = {p \<in> fst ` set d. is_prefix q p}"

lemma finite_below [simp]: "finite (below d q)"
  by (simp add: below_def)

lemma below_children:
  assumes "q \<in> fst ` set d"
  shows "sum_list (map (\<lambda>n. card (below d (q @ [n]))) (children d q)) < card (below d q)"
proof -
  have "sum_list (map (\<lambda>n. card (below d (q @ [n]))) (children d q)) = (\<Sum>n \<in> set (children d q). card (below d (q @ [n])))"
    by (simp add: children_def sum_list_distinct_conv_sum_set)
  also have "\<dots> = card (\<Union>n \<in> set (children d q). below d (q @ [n]))"
    by (rule card_UN_disjoint [symmetric]) (auto simp: below_def is_prefix_def)
  also have "\<dots> < card (below d q)"
  proof (rule psubset_card_mono)
    have "is_prefix q p" if "is_prefix (q @ [n]) p" for n p using is_prefixE [OF that] by auto
    moreover have "q \<in> below d q" using assms by (simp add: below_def is_prefix_def)
    moreover have "q \<notin> below d (q @ [n])" for n by (simp add: below_def is_prefix_def)
    moreover have "(\<Union>n \<in> set (children d q). below d (q @ [n])) \<subseteq> below d q" using calculation(1) by (auto simp: below_def)
    ultimately show "(\<Union>n \<in> set (children d q). below d (q @ [n])) \<subset> below d q" by blast
  qed simp
  finally show ?thesis .
qed

definition walk_size :: "disk \<Rightarrow> (path \<times> path) list \<Rightarrow> nat" where
  "walk_size d st = sum_list (map (\<lambda>x. card (below d (fst x))) st)"

lemma walk_pop: "map_of d q = Some x \<Longrightarrow> walk_size d st < walk_size d ((q, rel) # st)"
proof -
  assume "map_of d q = Some x"
  then have "q \<in> below d q" using map_of_SomeD [of d q] by (force simp: below_def is_prefix_def)
  then have "0 < card (below d q)" by (metis card_gt_0_iff empty_iff finite_below)
  then show ?thesis by (simp add: walk_size_def)
qed

lemma walk_push:
  "map_of d q = Some x \<Longrightarrow> walk_size d (rev (map (\<lambda>n. (q @ [n], rel @ [n])) (children d q)) @ st) < walk_size d ((q, rel) # st)"
  using below_children [of q d] map_of_SomeD [of d q x] by (force simp: walk_size_def o_def rev_map [symmetric])

definition replace_backslash :: "string \<Rightarrow> string" where
  "replace_backslash s = map (\<lambda>c. if c = CHR 0x5C then CHR ''/'' else c) s"

definition listed_key :: "(string \<Rightarrow> bool) \<Rightarrow> path \<Rightarrow> string st_result" where
  "listed_key utf8 rel =
     (if \<not> utf8 (path_text rel) then Inl (StInvalidKey ''storage key is not UTF-8'')
      else (case validate_storage_key (replace_backslash (path_text rel)) of
              Inl _ \<Rightarrow> Inl (StInvalidKey ''invalid storage key'')
            | Inr k \<Rightarrow> Inr k))"

function list_walk :: "(string \<Rightarrow> bool) \<Rightarrow> disk \<Rightarrow> (path \<times> path) list \<Rightarrow> string list \<Rightarrow> string list st_result" where
  "list_walk utf8 d [] keys = Inr keys"
| "list_walk utf8 d ((q, rel) # st) keys =
     (case map_of d q of
        None \<Rightarrow> Inl (io_error NotFound)
      | Some (DLink _) \<Rightarrow> list_walk utf8 d st keys
      | Some DDir \<Rightarrow> list_walk utf8 d (rev (map (\<lambda>n. (q @ [n], rel @ [n])) (children d q)) @ st) keys
      | Some (DFile _) \<Rightarrow>
          (case listed_key utf8 rel of Inl e \<Rightarrow> Inl e | Inr k \<Rightarrow> list_walk utf8 d st (keys @ [k])))"
  by pat_completeness auto
termination
  by (relation "measure (\<lambda>(utf8, d, st, keys). walk_size d st)") (auto simp: walk_pop walk_push)

definition list_local_prefix :: "(string \<Rightarrow> bool) \<Rightarrow> path \<Rightarrow> path \<Rightarrow> world \<Rightarrow> string list st_result" where
  "list_local_prefix utf8 base prefix w =
     (case locate (node w) True (base @ prefix) of
        Inl _ \<Rightarrow> Inr []
      | Inr q \<Rightarrow>
          if node w q = None then Inr []
          else (case locate (node w) False (base @ prefix) of
                  Inl k \<Rightarrow> Inl (io_error k)
                | Inr start \<Rightarrow>
                    and_then (list_walk utf8 (wd_disk w) [(start, prefix)] []) (\<lambda>keys. Inr (sort_by compare_bytes keys))))"

section \<open>Deleting what is old\<close>

fun delete_old :: "path \<Rightarrow> nat \<Rightarrow> string list \<Rightarrow> nat \<Rightarrow> world \<Rightarrow> nat st_result \<times> world" where
  "delete_old base older_than [] deleted w = (Inr deleted, w)"
| "delete_old base older_than (k # ks) deleted w =
     (let p = base @ key_parts k
      in case fst (perform 0 (SymlinkMetadata p) w) of
           AErr NotFound \<Rightarrow> delete_old base older_than ks deleted w
         | AErr e \<Rightarrow> (Inl (io_error e), w)
         | AMeta IsFile _ modified \<Rightarrow>
             if modified < older_than
             then (case perform 0 (RemoveFile p) w of
                     (AErr e, w1) \<Rightarrow> (Inl (io_error e), w1)
                   | (_, w1) \<Rightarrow>
                       (case checked_add_u64 deleted 1 of
                          None \<Rightarrow> (Inl (StInternal ''deleted object count overflow''), w1)
                        | Some n \<Rightarrow> delete_old base older_than ks n w1))
             else delete_old base older_than ks deleted w
         | _ \<Rightarrow> delete_old base older_than ks deleted w)"

definition delete_local_prefix_older_than :: "(string \<Rightarrow> bool) \<Rightarrow> path \<Rightarrow> path \<Rightarrow> nat \<Rightarrow> world \<Rightarrow> nat st_result \<times> world" where
  "delete_local_prefix_older_than utf8 base prefix older_than w =
     (case list_local_prefix utf8 base prefix w of
        Inl e \<Rightarrow> (Inl e, w)
      | Inr keys \<Rightarrow> delete_old base older_than keys 0 w)"

section \<open>The listing is exact\<close>

text \<open>Every entry lies in a directory.\<close>

definition tree_disk :: "disk \<Rightarrow> bool" where
  "tree_disk d = (\<forall>p n x. p \<noteq> [] \<longrightarrow> map_of d (p @ [n]) = Some x \<longrightarrow> map_of d p = Some DDir)"

lemma tree_above:
  assumes "tree_disk d" and "q \<noteq> []"
  shows "map_of d (q @ n # r) = Some x \<Longrightarrow> map_of d q = Some DDir \<and> map_of d (q @ [n]) \<noteq> None"
proof (induction r arbitrary: x rule: rev_induct)
  case Nil
  then show ?case using assms unfolding tree_disk_def by blast
next
  case (snoc m r)
  have "map_of d ((q @ n # r) @ [m]) = Some x" using snoc.prems by simp
  then have "map_of d (q @ n # r) = Some DDir" using assms(1) unfolding tree_disk_def by blast
  then show ?case by (rule snoc.IH)
qed

definition files_below :: "disk \<Rightarrow> path \<times> path \<Rightarrow> string set" where
  "files_below d x = {replace_backslash (path_text (snd x @ r)) | r f. map_of d (fst x @ r) = Some (DFile f)}"

lemma files_below_dir:
  assumes "tree_disk d" and "q \<noteq> []" and "map_of d q = Some DDir"
  shows "files_below d (q, rel) = (\<Union>n \<in> set (children d q). files_below d (q @ [n], rel @ [n]))"
proof -
  have child: "n \<in> set (children d q)" if entry: "map_of d (q @ n # r) = Some x" for n r x
  proof -
    obtain y where "map_of d (q @ [n]) = Some y" using tree_above [OF assms(1,2) entry] by blast
    then have "(q @ [n], y) \<in> set d" by (rule map_of_SomeD)
    then have "q @ [n] \<in> set (filter (\<lambda>p. p \<noteq> [] \<and> butlast p = q) (map fst d))" by (force intro: rev_image_eqI)
    then show ?thesis unfolding children_def using image_iff by fastforce
  qed
  show ?thesis
  proof (intro set_eqI iffI)
    fix k assume "k \<in> files_below d (q, rel)"
    then obtain r f where k: "k = replace_backslash (path_text (rel @ r))" and f: "map_of d (q @ r) = Some (DFile f)" by (auto simp: files_below_def)
    then obtain n r' where r: "r = n # r'" using assms(3) by (cases r) auto
    then have "k \<in> files_below d (q @ [n], rel @ [n])" using k f by (auto simp: files_below_def)
    then show "k \<in> (\<Union>n \<in> set (children d q). files_below d (q @ [n], rel @ [n]))" using child f r by blast
  next
    fix k assume "k \<in> (\<Union>n \<in> set (children d q). files_below d (q @ [n], rel @ [n]))"
    then obtain n r f where "k = replace_backslash (path_text (rel @ n # r))" "map_of d (q @ n # r) = Some (DFile f)"
      by (auto simp: files_below_def)
    then show "k \<in> files_below d (q, rel)" unfolding files_below_def by auto
  qed
qed

lemma files_below_leaf:
  assumes "tree_disk d" and "q \<noteq> []" and "map_of d q = Some x" and "x \<noteq> DDir"
  shows "files_below d (q, rel) = (case x of DFile _ \<Rightarrow> {replace_backslash (path_text rel)} | _ \<Rightarrow> {})"
proof -
  have "r = []" if "map_of d (q @ r) = Some y" for r y
    using tree_above [OF assms(1,2)] that assms(3,4) by (cases r) auto
  then have "files_below d (q, rel) = {replace_backslash (path_text (rel @ [])) | f. map_of d (q @ []) = Some (DFile f)}"
    unfolding files_below_def fst_conv snd_conv by blast
  then show ?thesis using assms(3,4) by (simp split: disk_node.splits)
qed

lemma listed_key_ok: "listed_key utf8 rel = Inr k \<Longrightarrow> k = replace_backslash (path_text rel)"
  by (auto simp: listed_key_def validate_storage_key_eq split: if_splits)

lemma list_walk_exact:
  assumes "tree_disk d"
  shows "list_walk utf8 d st keys = Inr out \<Longrightarrow> (\<And>x. x \<in> set st \<Longrightarrow> fst x \<noteq> []) \<Longrightarrow>
     set out = set keys \<union> (\<Union>x \<in> set st. files_below d x)"
  using assms
proof (induction utf8 d st keys rule: list_walk.induct)
  case (2 utf8 d q rel st keys)
  have q: "q \<noteq> []" using "2.prems"(2) by force
  then obtain x where x: "map_of d q = Some x" using "2.prems"(1) by (cases "map_of d q") simp_all
  show ?case
  proof (cases x)
    case (DFile f)
    then obtain k where k: "listed_key utf8 rel = Inr k" and run: "list_walk utf8 d st (keys @ [k]) = Inr out"
      using "2.prems"(1) x by (auto split: sum.splits)
    have "set out = set (keys @ [k]) \<union> (\<Union>x \<in> set st. files_below d x)"
      by (rule "2.IH"(1) [OF x DFile k run]) (use "2.prems" in auto)
    then show ?thesis using files_below_leaf [OF "2.prems"(3) q x] DFile listed_key_ok [OF k] by auto
  next
    case DDir
    let ?new = "rev (map (\<lambda>n. (q @ [n], rel @ [n])) (children d q))"
    have run: "list_walk utf8 d (?new @ st) keys = Inr out" using "2.prems"(1) x DDir by simp
    have "set out = set keys \<union> (\<Union>x \<in> set (?new @ st). files_below d x)"
      by (rule "2.IH"(2) [OF x DDir run]) (use "2.prems" in auto)
    then show ?thesis using files_below_dir [OF "2.prems"(3) q, of rel] x DDir by auto
  next
    case (DLink t)
    then have "list_walk utf8 d st keys = Inr out" using "2.prems"(1) x by simp
    then have "set out = set keys \<union> (\<Union>x \<in> set st. files_below d x)"
      by (rule "2.IH"(3) [OF x DLink]) (use "2.prems" in auto)
    then show ?thesis using files_below_leaf [OF "2.prems"(3) q x] DLink by auto
  qed
qed simp

lemma compare_bytes_flip: "compare_bytes b a = reverse_ordering (compare_bytes a b)"
  by (induction a b rule: compare_bytes.induct) (simp_all add: reverse_then_with cmp_lin_def)

lemma compare_bytes_trans: "compare_bytes a b \<noteq> Greater \<Longrightarrow> compare_bytes b c \<noteq> Greater \<Longrightarrow> compare_bytes a c \<noteq> Greater"
proof (induction a b arbitrary: c rule: compare_bytes.induct)
  case (1 c)
  then show ?case by simp
next
  case (2 d ds)
  then show ?case by (cases c) auto
next
  case (4 x xs y ys)
  then show ?case by (cases c) (auto simp: then_with_Greater cmp_lin_def split: if_splits)
qed auto

interpretation byte_cmp: lawful_cmp "\<lambda>_. True" compare_bytes
  by unfold_locales (use compare_bytes_flip compare_bytes_trans in \<open>blast+\<close>)

lemma tree_ancestors:
  assumes "tree_disk d" and "map_of d p = Some x" and "0 < k" and "k < length p"
  shows "map_of d (take k p) = Some DDir"
proof -
  obtain n r where "drop k p = n # r" using assms(4) by (cases "drop k p") auto
  then have "map_of d (take k p @ n # r) = Some x" using assms(2) by (metis append_take_drop_id)
  moreover have "take k p \<noteq> []" using assms(3,4) by auto
  ultimately show ?thesis using tree_above [OF assms(1)] by blast
qed

lemma locate_existing:
  assumes "tree_disk (wd_disk w)" and "no_links (node w) p" and "node w p = Some x"
  shows "locate (node w) follow p = Inr p"
proof -
  have "find (\<lambda>a. node w a \<noteq> Some DDir) (ancestors p) = None"
    using tree_ancestors [OF assms(1,3)] by (intro find_ancestors) simp
  then show ?thesis using no_links_resolve [OF assms(2)] by (simp add: locate_def)
qed

text \<open>
  The walk over a prefix of the local storage always ends. Without an error it returns the files below
  the prefix, all of them and nothing else, as keys in byte order; links are passed over.
\<close>

lemma local_listing_is_exact:
  assumes tree: "tree_disk (wd_disk w)" and clear: "no_links (node w) (base @ prefix)" and ne: "base @ prefix \<noteq> []"
    and run: "list_local_prefix utf8 base prefix w = Inr keys"
  shows "set keys = {replace_backslash (path_text (prefix @ r)) | r f. node w (base @ prefix @ r) = Some (DFile f)}
     \<and> sorted_wrt (\<lambda>a b. compare_bytes a b \<noteq> Greater) keys"
proof (cases "node w (base @ prefix)")
  case None
  have "locate (node w) True (base @ prefix) = Inr q \<Longrightarrow> q = base @ prefix" for q using no_links_locate [OF clear] by blast
  then have "keys = []" using run None by (auto simp: list_local_prefix_def split: sum.splits)
  moreover have "node w (base @ prefix @ r) \<noteq> Some (DFile f)" for r f
    using tree_above [OF tree ne] None by (cases r) (auto simp: append_assoc [symmetric] simp del: append_assoc)
  ultimately show ?thesis by simp
next
  case (Some x)
  from run obtain out where walk: "list_walk utf8 (wd_disk w) [(base @ prefix, prefix)] [] = Inr out" and keys: "keys = sort_by compare_bytes out"
    using locate_existing [OF tree clear Some] Some by (auto simp: list_local_prefix_def and_then_eq_Inr)
  have "set out = files_below (wd_disk w) (base @ prefix, prefix)" using list_walk_exact [OF tree walk] ne by auto
  then show ?thesis using byte_cmp.sort_by_sorted by (simp add: keys files_below_def)
qed

section \<open>Pages of a bucket\<close>

text \<open>The answers of the service from a token on: finitely many pages, the last without a token.\<close>

fun page_chain :: "(string option \<Rightarrow> s3_error + s3_page) \<Rightarrow> string option \<Rightarrow> s3_listed list list \<Rightarrow> bool" where
  "page_chain pages token [] = False"
| "page_chain pages token [c] = (pages token = Inr (c, None))"
| "page_chain pages token (c # cs) = (\<exists>t. pages token = Inr (c, Some t) \<and> page_chain pages (Some t) cs)"

lemma listed_keys_append:
  "listed_keys prefix wanted (xs @ ys) = and_then (listed_keys prefix wanted xs) (\<lambda>a. and_then (listed_keys prefix wanted ys) (\<lambda>b. Inr (a @ b)))"
proof (induction xs)
  case Nil
  then show ?case by (cases "listed_keys prefix wanted ys") simp_all
next
  case (Cons x xs)
  show ?case
    by (cases "sl_key x"; cases "strip_prefix prefix (the (sl_key x))"; cases "listed_keys prefix wanted xs"; cases "listed_keys prefix wanted ys")
      (simp_all add: Cons)
qed

lemma s3_list_chain:
  "page_chain pages token chunks \<Longrightarrow>
     s3_list_loop pages prefix wanted token keys = Some (and_then (listed_keys prefix wanted (concat chunks)) (\<lambda>ks. Inr (keys @ ks)))"
proof (induction pages token chunks arbitrary: keys rule: page_chain.induct)
  case (2 pages token c)
  then show ?case by (subst s3_list_loop.simps) (cases "listed_keys prefix wanted c"; simp)
next
  case (3 pages token c c2 cs)
  then obtain t where t: "pages token = Inr (c, Some t)" "page_chain pages (Some t) (c2 # cs)" by auto
  have IH: "s3_list_loop pages prefix wanted (Some t) keys = Some (and_then (listed_keys prefix wanted (concat (c2 # cs))) (\<lambda>ks. Inr (keys @ ks)))" for keys
    by (rule "3.IH" [OF t(2)])
  have split: "listed_keys prefix wanted (concat (c # c2 # cs))
      = and_then (listed_keys prefix wanted c) (\<lambda>a. and_then (listed_keys prefix wanted (concat (c2 # cs))) (\<lambda>b. Inr (a @ b)))"
    using listed_keys_append [of prefix wanted c "concat (c2 # cs)"] by simp
  show ?case
    unfolding split
    by (subst s3_list_loop.simps, cases "listed_keys prefix wanted c"; cases "listed_keys prefix wanted (concat (c2 # cs))")
      (simp_all add: t(1) IH del: concat.simps)
qed simp

text \<open>
  Conversely a loop that returns has come to the last page or to an error; the fixed point rule of the loop
  gives this.
\<close>

fun failing_chain :: "(string option \<Rightarrow> s3_error + s3_page) \<Rightarrow> string option \<Rightarrow> string option \<Rightarrow> string \<Rightarrow> s3_listed list list \<Rightarrow> bool" where
  "failing_chain pages token prefix wanted [] = (\<exists>e. pages token = Inl e)"
| "failing_chain pages token prefix wanted (c # cs) =
     (\<exists>next_token. pages token = Inr (c, next_token)
        \<and> (\<not> is_ok (listed_keys prefix wanted c) \<or> (\<exists>t. next_token = Some t \<and> failing_chain pages (Some t) prefix wanted cs)))"

lemma s3_list_failing: "failing_chain pages token prefix wanted chunks \<Longrightarrow> s3_list_loop pages prefix wanted token keys \<noteq> None"
proof (induction chunks arbitrary: token keys)
  case Nil
  then show ?case by (subst s3_list_loop.simps) auto
next
  case (Cons c cs)
  then show ?case
    by (subst s3_list_loop.simps) (cases "listed_keys prefix wanted c"; auto simp: is_ok_def split: option.split)
qed

lemma s3_list_returns:
  "s3_list_loop pages prefix wanted token keys = Some r \<Longrightarrow>
     (\<exists>chunks. page_chain pages token chunks) \<or> (\<exists>chunks. failing_chain pages token prefix wanted chunks)"
proof (erule s3_list_loop.raw_induct [rotated 1, where P = "\<lambda>pages prefix wanted token keys r.
     (\<exists>chunks. page_chain pages token chunks) \<or> (\<exists>chunks. failing_chain pages token prefix wanted chunks)"])
  fix loop pages prefix wanted token keys and r :: "string list st_result"
  assume IH: "\<And>pages prefix wanted token keys r. loop pages prefix wanted token keys = Some r \<Longrightarrow>
       (\<exists>chunks. page_chain pages token chunks) \<or> (\<exists>chunks. failing_chain pages token prefix wanted chunks)"
    and run: "(case pages token of Inl e \<Rightarrow> Some (Inl (s3_backend e))
      | Inr (contents, next_token) \<Rightarrow> (case listed_keys prefix wanted contents of Inl e \<Rightarrow> Some (Inl e)
           | Inr ks \<Rightarrow> (case next_token of None \<Rightarrow> Some (Inr (keys @ ks)) | Some t \<Rightarrow> loop pages prefix wanted (Some t) (keys @ ks)))) = Some r"
  show "(\<exists>chunks. page_chain pages token chunks) \<or> (\<exists>chunks. failing_chain pages token prefix wanted chunks)"
  proof (cases "pages token")
    case (Inl e)
    then show ?thesis by (intro disjI2 exI [of _ "[]"]) simp
  next
    case (Inr cn)
    obtain c next_token where page: "pages token = Inr (c, next_token)" using Inr by (cases cn) simp
    show ?thesis
    proof (cases "listed_keys prefix wanted c")
      case (Inl e)
      then show ?thesis using page by (intro disjI2 exI [of _ "[c]"]) (simp add: is_ok_def)
    next
      case (Inr ks)
      show ?thesis
      proof (cases next_token)
        case None
        then show ?thesis using page by (intro disjI1 exI [of _ "[c]"]) simp
      next
        case (Some t)
        then have "loop pages prefix wanted (Some t) (keys @ ks) = Some r" using run page Inr by simp
        from IH [OF this] consider chunks where "page_chain pages (Some t) chunks" | chunks where "failing_chain pages (Some t) prefix wanted chunks"
          by blast
        then show ?thesis
        proof cases
          case 1
          then have "page_chain pages token (c # chunks)" using page Some by (cases chunks) auto
          then show ?thesis by blast
        next
          case 2
          then have "failing_chain pages token prefix wanted (c # chunks)" using page Some by auto
          then show ?thesis by blast
        qed
      qed
    qed
  qed
qed

text \<open>
  C30. Listing a prefix of a bucket returns exactly if the service's pages end or an error stops the loop. When
  they end, the result is the logical keys within the prefix of all pages, in the order of the pages.
\<close>

theorem bucket_listing_terminates_iff:
  "(s3_list_prefix pages prefix wanted \<noteq> None \<longleftrightarrow> (\<exists>chunks. page_chain pages None chunks) \<or> (\<exists>chunks. failing_chain pages None prefix wanted chunks))
   \<and> (\<forall>chunks. page_chain pages None chunks \<longrightarrow> s3_list_prefix pages prefix wanted = Some (listed_keys prefix wanted (concat chunks)))"
proof -
  have exact: "s3_list_prefix pages prefix wanted = Some (listed_keys prefix wanted (concat chunks))" if "page_chain pages None chunks" for chunks
    using s3_list_chain [OF that, of prefix wanted "[]"] by (cases "listed_keys prefix wanted (concat chunks)") (simp_all add: s3_list_prefix_def)
  have "s3_list_prefix pages prefix wanted \<noteq> None" if "failing_chain pages None prefix wanted chunks" for chunks
    using s3_list_failing [OF that] by (simp add: s3_list_prefix_def)
  moreover have "(\<exists>chunks. page_chain pages None chunks) \<or> (\<exists>chunks. failing_chain pages None prefix wanted chunks)"
    if "s3_list_prefix pages prefix wanted = Some r" for r
    using s3_list_returns that unfolding s3_list_prefix_def by blast
  ultimately show ?thesis using exact by blast
qed

theorem bucket_listing_terminates_iff_witness:
  "s3_list_prefix (\<lambda>t. case t of None \<Rightarrow> Inr ([\<lparr>sl_key = Some ''p/a'', sl_modified = None\<rparr>], Some ''1'') | Some _ \<Rightarrow> Inr ([\<lparr>sl_key = Some ''pq/b'', sl_modified = None\<rparr>], None)) None ''p''
     = Some (Inr [''p/a''])"
proof -
  let ?pages = "\<lambda>t. case t of None \<Rightarrow> Inr ([\<lparr>sl_key = Some ''p/a'', sl_modified = None\<rparr>], Some ''1'') | Some _ \<Rightarrow> Inr ([\<lparr>sl_key = Some ''pq/b'', sl_modified = None\<rparr>], None)"
  let ?chunks = "[[\<lparr>sl_key = Some ''p/a'', sl_modified = None\<rparr>], [\<lparr>sl_key = Some ''pq/b'', sl_modified = None\<rparr>]]"
  have "page_chain ?pages None ?chunks" by simp
  moreover have "validate_storage_key ''p/a'' = Inr ''p/a''" "validate_storage_key ''pq/b'' = Inr ''pq/b''"
    by (simp_all add: validate_storage_key_eq storage_key_pattern_def name_token_char_def ascii_class_defs)
  then have "listed_keys None ''p'' (concat ?chunks) = Inr [''p/a'']"
    by (simp add: strip_prefix_def storage_key_is_within_prefix_def)
  ultimately show ?thesis
    using bucket_listing_terminates_iff [of ?pages None "''p''", THEN conjunct2, THEN spec, of ?chunks] by (simp only:)
qed

end
