(* ===== verification/Identity_Tables.thy ===== *)
theory Identity_Tables
  imports Db_Schema Image_Reference
begin

text \<open>
  Accounts and credentials: the identity part of the schema (\<open>backend/migrations/001\<close> and \<open>006\<close>) with the
  enums of \<open>domain/src/models/auth.rs\<close> and \<open>pioneer_codes.rs\<close> that its columns hold. Humans sign in through
  GitHub and hold roles, sessions and tokens; agents are registered with a token; both may be admitted by a
  pioneer code. Inserts check the keys, unique indexes and references of their table in order.
\<close>

section \<open>Enums\<close>

datatype human_role = RoleCreator | RoleAdmin

fun human_role_as_str :: "human_role \<Rightarrow> string" where
  "human_role_as_str RoleCreator = ''creator''"
| "human_role_as_str RoleAdmin = ''admin''"

definition human_role_from_storage_value :: "string \<Rightarrow> human_role option" where
  "human_role_from_storage_value v = (if v = ''creator'' then Some RoleCreator else if v = ''admin'' then Some RoleAdmin else None)"

datatype human_status = HumanActive | HumanSetupRequired | HumanDisabled | HumanDeleted

fun human_status_as_str :: "human_status \<Rightarrow> string" where
  "human_status_as_str HumanActive = ''active''"
| "human_status_as_str HumanSetupRequired = ''setup_required''"
| "human_status_as_str HumanDisabled = ''disabled''"
| "human_status_as_str HumanDeleted = ''deleted''"

definition human_status_from_storage_value :: "string \<Rightarrow> human_status option" where
  "human_status_from_storage_value v =
     (if v = ''active'' then Some HumanActive else if v = ''setup_required'' then Some HumanSetupRequired
      else if v = ''disabled'' then Some HumanDisabled else if v = ''deleted'' then Some HumanDeleted else None)"

datatype pioneer_code_status = PioneerActive | PioneerRevoked

fun pioneer_code_status_as_str :: "pioneer_code_status \<Rightarrow> string" where
  "pioneer_code_status_as_str PioneerActive = ''active''"
| "pioneer_code_status_as_str PioneerRevoked = ''revoked''"

definition pioneer_code_status_from_storage_value :: "string \<Rightarrow> pioneer_code_status option" where
  "pioneer_code_status_from_storage_value v =
     (if v = ''active'' then Some PioneerActive else if v = ''revoked'' then Some PioneerRevoked else None)"

datatype pioneer_code_use_kind = HumanGithubSignIn | AgentApi

fun pioneer_code_use_kind_as_str :: "pioneer_code_use_kind \<Rightarrow> string" where
  "pioneer_code_use_kind_as_str HumanGithubSignIn = ''human_github_sign_in''"
| "pioneer_code_use_kind_as_str AgentApi = ''agent_api''"

definition pioneer_code_use_kind_from_storage_value :: "string \<Rightarrow> pioneer_code_use_kind option" where
  "pioneer_code_use_kind_from_storage_value v =
     (if v = ''human_github_sign_in'' then Some HumanGithubSignIn else if v = ''agent_api'' then Some AgentApi else None)"

datatype agent_status = AgentActive | AgentDisabled

datatype token_status = TokenActive | TokenRevoked

lemma identity_enums_roundtrip [storage_rt]:
  "human_role_from_storage_value (human_role_as_str r) = Some r"
  "human_status_from_storage_value (human_status_as_str s) = Some s"
  "pioneer_code_status_from_storage_value (pioneer_code_status_as_str p) = Some p"
  "pioneer_code_use_kind_from_storage_value (pioneer_code_use_kind_as_str k) = Some k"
proof -
  show "human_role_from_storage_value (human_role_as_str r) = Some r" by (cases r) (simp_all add: human_role_from_storage_value_def)
  show "human_status_from_storage_value (human_status_as_str s) = Some s" by (cases s) (simp_all add: human_status_from_storage_value_def)
  show "pioneer_code_status_from_storage_value (pioneer_code_status_as_str p) = Some p"
    by (cases p) (simp_all add: pioneer_code_status_from_storage_value_def)
  show "pioneer_code_use_kind_from_storage_value (pioneer_code_use_kind_as_str k) = Some k"
    by (cases k) (simp_all add: pioneer_code_use_kind_from_storage_value_def)
qed

definition github_user_id_try_new :: "int \<Rightarrow> int option" where
  "github_user_id_try_new v = (if v \<le> 0 then None else Some v)"

section \<open>Rows\<close>

record pioneer_code_row =
  pc_id :: uuid
  pc_display :: string
  pc_hash :: string
  pc_label :: "string option"
  pc_note :: string
  pc_max_uses :: int
  pc_use_count :: int
  pc_status :: pioneer_code_status
  pc_expires_at :: "timestamp option"
  pc_created_by_human :: "uuid option"
  pc_created_by_token :: "uuid option"
  pc_created_by_display :: string
  pc_created_at :: timestamp
  pc_revoked_at :: "timestamp option"

text \<open>The check on \<open>subject_kind\<close>, \<open>human_id\<close> and \<open>agent_id\<close> leaves one of two cases.\<close>

datatype code_subject = UsedByHuman uuid | UsedByAgent uuid

record code_use_row =
  cu_id :: uuid
  cu_code :: uuid
  cu_subject :: code_subject
  cu_kind :: pioneer_code_use_kind
  cu_used_at :: timestamp

record person_row =
  pe_id :: uuid
  pe_status :: human_status
  pe_created_at :: timestamp
  pe_disabled_at :: "timestamp option"
  pe_deleted_at :: "timestamp option"

text \<open>The provider of an external identity is always \<open>github\<close>.\<close>

record identity_row =
  xi_human :: uuid
  xi_github_user_id :: int
  xi_login :: string
  xi_updated_at :: timestamp

record role_row =
  ro_id :: uuid
  ro_human :: uuid
  ro_role :: human_role
  ro_granted_by :: "uuid option"
  ro_granted_at :: timestamp
  ro_revoked_by :: "uuid option"
  ro_revoked_at :: "timestamp option"

record session_row =
  ses_id :: uuid
  ses_token_hash :: string
  ses_csrf_hash :: string
  ses_human :: uuid
  ses_expires_at :: timestamp
  ses_last_used_at :: "timestamp option"

text \<open>\<open>creator_api_tokens\<close>, and \<open>admin_service_tokens\<close> with one more column.\<close>

record token_row =
  tk_id :: uuid
  tk_hash :: string
  tk_label :: string
  tk_status :: token_status
  tk_owner :: uuid
  tk_created_at :: timestamp
  tk_last_used_at :: "timestamp option"
  tk_expires_at :: "timestamp option"
  tk_revoked_at :: "timestamp option"

record admin_token_row = token_row +
  tk_revoked_by :: "uuid option"

record sign_in_state_row =
  gs_hash :: string
  gs_nonce_hash :: string
  gs_return_to :: "string option"
  gs_expires_at :: timestamp

record registered_agent_row =
  ra_id :: uuid
  ra_display_name :: string
  ra_description :: string
  ra_model_info :: string
  ra_status :: agent_status
  ra_created_at :: timestamp

record agent_token_row =
  agt_id :: uuid
  agt_agent :: uuid
  agt_hash :: string
  agt_revoked_at :: "timestamp option"
  agt_last_used_at :: "timestamp option"

record accounts =
  ac_agents :: "registered_agent_row list"
  ac_agent_tokens :: "agent_token_row list"
  ac_people :: "person_row list"
  ac_identities :: "identity_row list"
  ac_roles :: "role_row list"
  ac_sessions :: "session_row list"
  ac_admin_tokens :: "admin_token_row list"
  ac_creator_tokens :: "token_row list"
  ac_states :: "sign_in_state_row list"
  ac_codes :: "pioneer_code_row list"
  ac_uses :: "code_use_row list"
  ac_locks :: "string list"

type_synonym 'a atx = "accounts \<Rightarrow> service_error + 'a \<times> accounts"

definition no_accounts :: accounts where
  "no_accounts = \<lparr>ac_agents = [], ac_agent_tokens = [], ac_people = [], ac_identities = [], ac_roles = [], ac_sessions = [],
     ac_admin_tokens = [], ac_creator_tokens = [], ac_states = [], ac_codes = [], ac_uses = [], ac_locks = []\<rparr>"

definition lock_account_scope :: "string \<Rightarrow> accounts \<Rightarrow> accounts" where
  "lock_account_scope scope db = (if scope \<in> set (ac_locks db) then db else db\<lparr>ac_locks := ac_locks db @ [scope]\<rparr>)"

lemma lock_account_scope_frame [simp]:
  "ac_agents (lock_account_scope s db) = ac_agents db" "ac_agent_tokens (lock_account_scope s db) = ac_agent_tokens db"
  "ac_people (lock_account_scope s db) = ac_people db" "ac_identities (lock_account_scope s db) = ac_identities db"
  "ac_roles (lock_account_scope s db) = ac_roles db" "ac_sessions (lock_account_scope s db) = ac_sessions db"
  "ac_admin_tokens (lock_account_scope s db) = ac_admin_tokens db" "ac_creator_tokens (lock_account_scope s db) = ac_creator_tokens db"
  "ac_states (lock_account_scope s db) = ac_states db" "ac_codes (lock_account_scope s db) = ac_codes db"
  "ac_uses (lock_account_scope s db) = ac_uses db"
  by (simp_all add: lock_account_scope_def)

definition person_by_id :: "uuid \<Rightarrow> person_row list \<Rightarrow> person_row option" where
  "person_by_id i tbl = sql_first (\<lambda>p. pe_id p = i) tbl"

definition agent_by_id :: "uuid \<Rightarrow> registered_agent_row list \<Rightarrow> registered_agent_row option" where
  "agent_by_id i tbl = sql_first (\<lambda>a. ra_id a = i) tbl"

definition code_by_hash :: "string \<Rightarrow> pioneer_code_row list \<Rightarrow> pioneer_code_row option" where
  "code_by_hash h tbl = sql_first (\<lambda>c. pc_hash c = h) tbl"

interpretation person_tbl: keyed_table pe_id person_by_id
  by unfold_locales (simp add: person_by_id_def)

interpretation registered_agent_tbl: keyed_table ra_id agent_by_id
  by unfold_locales (simp add: agent_by_id_def)

interpretation code_tbl: keyed_table pc_hash code_by_hash
  by unfold_locales (simp add: code_by_hash_def)

section \<open>Constraints\<close>

definition duplicate_key :: "string \<Rightarrow> service_error" where
  "duplicate_key c = Database (SqlxDatabase True (Some c) ''duplicate key'')"

definition missing_reference :: "string \<Rightarrow> service_error" where
  "missing_reference c = Database (SqlxDatabase False (Some c) ''missing reference'')"

definition check_violation :: "string \<Rightarrow> service_error" where
  "check_violation c = Database (SqlxDatabase False (Some c) ''check violation'')"

text \<open>The violated constraints of an insert, each with its error; the first one is reported.\<close>

definition no_violation :: "(bool \<times> service_error) list \<Rightarrow> service_error + unit" where
  "no_violation cs = try_each (\<lambda>(bad, e). guard_err bad e) cs"

lemma no_violation_ok [result_simps]: "no_violation cs = Inr u \<longleftrightarrow> (\<forall>(bad, e) \<in> set cs. \<not> bad)"
  unfolding no_violation_def by (auto simp: result_simps)

definition person_exists :: "accounts \<Rightarrow> uuid \<Rightarrow> bool" where
  "person_exists db h = sql_exists (\<lambda>p. pe_id p = h) (ac_people db)"

definition human_active :: "accounts \<Rightarrow> uuid \<Rightarrow> bool" where
  "human_active db h = sql_exists (\<lambda>p. pe_id p = h \<and> pe_status p = HumanActive) (ac_people db)"

definition has_role :: "accounts \<Rightarrow> uuid \<Rightarrow> human_role \<Rightarrow> bool" where
  "has_role db h r = sql_exists (\<lambda>x. ro_human x = h \<and> ro_role x = r \<and> ro_revoked_at x = None) (ac_roles db)"

end
