(* ===== verification/Pioneer_Codes.thy ===== *)
theory Pioneer_Codes
  imports Identity_Tables
begin

text \<open>
  Pioneer codes: the grammar of \<open>domain/src/models/pioneer_codes.rs\<close> and the transactions of
  \<open>persistence/src/db/pioneer_codes.rs\<close>. A code admits a limited number of accounts; revoking it takes every
  account it admitted out of service. The random bytes, the identifiers and the hash are arguments.
\<close>

section \<open>Grammar\<close>

definition validate_pioneer_label :: "string \<Rightarrow> bool" where
  "validate_pioneer_label label =
     (if label = [] \<or> length label > 6 then False
      else list_all (\<lambda>c. is_ascii_lowercase c \<or> is_ascii_digit c \<or> c = CHR ''_'') label)"

definition validate_random_hex :: "string \<Rightarrow> bool" where
  "validate_random_hex s =
     (if length s \<noteq> 8 then False else list_all (\<lambda>c. is_ascii_digit c \<or> in_range c 97 102) s)"

definition validate_pioneer_code :: "string \<Rightarrow> bool" where
  "validate_pioneer_code value =
     (case split_once (CHR ''-'') value of
        Some (label, random_hex) \<Rightarrow>
          if CHR ''-'' \<in> set random_hex then False
          else if \<not> validate_pioneer_label label then False
          else validate_random_hex random_hex
      | None \<Rightarrow> validate_random_hex value)"

text \<open>\<open>random_hex\<close> is the encoding of the four random bytes.\<close>

definition generate_pioneer_code :: "string \<Rightarrow> string option \<Rightarrow> string option" where
  "generate_pioneer_code random_hex label =
     (case label of
        Some l \<Rightarrow>
          if \<not> validate_pioneer_label l then None
          else if validate_pioneer_code (l @ ''-'' @ random_hex) then Some (l @ ''-'' @ random_hex) else None
      | None \<Rightarrow> if validate_pioneer_code random_hex then Some random_hex else None)"

definition pioneer_code_label :: "string \<Rightarrow> string option" where
  "pioneer_code_label code = map_option fst (split_once (CHR ''-'') code)"

text \<open>The published pattern: an optional label of one to six characters with a dash, and eight hex digits.\<close>

lemma hex_has_no_dash: "validate_random_hex s \<Longrightarrow> CHR ''-'' \<notin> set s"
  by (auto simp: validate_random_hex_def list_all_iff ascii_class_defs split: if_splits)

lemma label_has_no_dash: "validate_pioneer_label s \<Longrightarrow> CHR ''-'' \<notin> set s"
  by (auto simp: validate_pioneer_label_def list_all_iff ascii_class_defs split: if_splits)

lemma validate_pioneer_code_iff:
  "validate_pioneer_code v \<longleftrightarrow>
     (\<exists>hex. validate_random_hex hex \<and> (v = hex \<or> (\<exists>label. validate_pioneer_label label \<and> v = label @ ''-'' @ hex)))"
proof (cases "split_once (CHR ''-'') v")
  case None
  then have "CHR ''-'' \<notin> set v" by (simp add: split_once_def split: if_splits)
  then show ?thesis using None by (auto simp: validate_pioneer_code_def)
next
  case (Some x)
  obtain label hex where x: "x = (label, hex)" by force
  then have v: "v = label @ ''-'' @ hex" "CHR ''-'' \<notin> set label" using Some by (simp_all add: split_once_Some)
  have "validate_pioneer_code v \<longleftrightarrow> validate_pioneer_label label \<and> validate_random_hex hex"
    using Some x hex_has_no_dash [of hex] by (auto simp: validate_pioneer_code_def)
  moreover have "\<not> validate_random_hex v" using hex_has_no_dash [of v] v(1) by auto
  moreover have "label' = label \<and> hex' = hex" if "validate_pioneer_label label'" "v = label' @ ''-'' @ hex'" for label' hex'
    using that v label_has_no_dash [of label'] Some x split_once_Some [of "CHR ''-''" v label' hex'] by simp
  ultimately show ?thesis using v(1) by metis
qed

lemma generated_code:
  assumes "validate_random_hex hex" and "generate_pioneer_code hex label = Some code"
  shows "validate_pioneer_code code" and "pioneer_code_label code = label"
proof -
  show "validate_pioneer_code code" using assms(2) by (auto simp: generate_pioneer_code_def split: option.splits if_splits)
  have "split_once (CHR ''-'') (l @ CHR ''-'' # hex) = Some (l, hex)" if "validate_pioneer_label l" for l
    using label_has_no_dash [OF that] by (simp add: split_once_Some)
  moreover have "split_once (CHR ''-'') hex = None" using hex_has_no_dash [OF assms(1)] by (simp add: split_once_def)
  ultimately show "pioneer_code_label code = label"
    using assms(2) by (auto simp: generate_pioneer_code_def pioneer_code_label_def split: option.splits if_splits)
qed

section \<open>Creation\<close>

record create_pioneer_code_input =
  cpc_id :: uuid
  cpc_display :: string
  cpc_hash :: string
  cpc_label :: "string option"
  cpc_note :: string
  cpc_max_uses :: int
  cpc_expires_at :: "timestamp option"
  cpc_human :: "uuid option"
  cpc_token :: "uuid option"
  cpc_created_by_display :: string

definition new_pioneer_code :: "timestamp \<Rightarrow> create_pioneer_code_input \<Rightarrow> pioneer_code_row" where
  "new_pioneer_code now inp =
     \<lparr>pc_id = cpc_id inp, pc_display = cpc_display inp, pc_hash = cpc_hash inp, pc_label = cpc_label inp,
      pc_note = cpc_note inp, pc_max_uses = cpc_max_uses inp, pc_use_count = 0, pc_status = PioneerActive,
      pc_expires_at = cpc_expires_at inp, pc_created_by_human = cpc_human inp, pc_created_by_token = cpc_token inp,
      pc_created_by_display = cpc_created_by_display inp, pc_created_at = now, pc_revoked_at = None\<rparr>"

definition create_pioneer_code :: "timestamp \<Rightarrow> create_pioneer_code_input \<Rightarrow> pioneer_code_row atx" where
  "create_pioneer_code now inp db =
     and_then (no_violation
       [(cpc_max_uses inp \<noteq> -1 \<and> cpc_max_uses inp \<le> 0, check_violation ''pioneer_codes_max_uses_check''),
        ((cpc_human inp = None) = (cpc_token inp = None), check_violation ''pioneer_codes_check''),
        (sql_exists (\<lambda>c. pc_id c = cpc_id inp) (ac_codes db), duplicate_key ''pioneer_codes_pkey''),
        (sql_exists (\<lambda>c. pc_display c = cpc_display inp) (ac_codes db), duplicate_key ''pioneer_codes_code_display_key''),
        (sql_exists (\<lambda>c. pc_hash c = cpc_hash inp) (ac_codes db), duplicate_key ''pioneer_codes_code_hash_key''),
        (\<exists>h \<in> set_option (cpc_human inp). \<not> person_exists db h, missing_reference ''pioneer_codes_created_by_human_id_fkey''),
        (\<exists>t \<in> set_option (cpc_token inp). t \<notin> tk_id ` set (ac_admin_tokens db),
           missing_reference ''pioneer_codes_created_by_admin_service_token_id_fkey'')]) (\<lambda>_.
     Inr (new_pioneer_code now inp, db\<lparr>ac_codes := sql_insert (new_pioneer_code now inp) (ac_codes db)\<rparr>))"

section \<open>Use\<close>

definition unavailable_pioneer_code :: service_error where
  "unavailable_pioneer_code = Forbidden ''invalid or unavailable pioneer code''"

definition code_unavailable :: "timestamp \<Rightarrow> pioneer_code_row \<Rightarrow> bool" where
  "code_unavailable now c =
     (pc_status c \<noteq> PioneerActive \<or> (\<exists>t \<in> set_option (pc_expires_at c). now \<ge> t)
      \<or> (pc_max_uses c \<noteq> -1 \<and> pc_use_count c \<ge> pc_max_uses c))"

definition ensure_pioneer_code_available :: "timestamp \<Rightarrow> string \<Rightarrow> accounts \<Rightarrow> service_error + unit" where
  "ensure_pioneer_code_available now h db =
     (case code_by_hash h (ac_codes db) of
        None \<Rightarrow> Inl unavailable_pioneer_code
      | Some c \<Rightarrow> guard_err (code_unavailable now c) unavailable_pioneer_code)"

text \<open>The insert of a use and the increment; \<open>BIGINT\<close> addition fails on overflow.\<close>

definition insert_code_use :: "code_use_row \<Rightarrow> unit atx" where
  "insert_code_use u db =
     and_then (no_violation
       [(sql_exists (\<lambda>x. cu_id x = cu_id u) (ac_uses db), duplicate_key ''pioneer_code_uses_pkey''),
        (sql_exists (\<lambda>x. cu_code x = cu_code u \<and> cu_subject x = cu_subject u) (ac_uses db),
           duplicate_key (case cu_subject u of UsedByHuman _ \<Rightarrow> ''idx_pioneer_code_uses_human_once'' | UsedByAgent _ \<Rightarrow> ''idx_pioneer_code_uses_agent_once'')),
        (case cu_subject u of UsedByHuman h \<Rightarrow> \<not> person_exists db h | UsedByAgent _ \<Rightarrow> False, missing_reference ''pioneer_code_uses_human_id_fkey''),
        (case cu_subject u of UsedByAgent a \<Rightarrow> \<not> sql_exists (\<lambda>x. ra_id x = a) (ac_agents db) | UsedByHuman _ \<Rightarrow> False, missing_reference ''pioneer_code_uses_agent_id_fkey'')]) (\<lambda>_.
     Inr ((), db\<lparr>ac_uses := sql_insert u (ac_uses db)\<rparr>))"

definition increment_use_count :: "uuid \<Rightarrow> unit atx" where
  "increment_use_count code_id db =
     (if sql_exists (\<lambda>c. pc_id c = code_id \<and> pc_use_count c + 1 > i64_max) (ac_codes db)
      then Inl (Database (SqlxDatabase False None ''bigint out of range''))
      else Inr ((), db\<lparr>ac_codes := sql_update (\<lambda>c. pc_id c = code_id) (\<lambda>c. c\<lparr>pc_use_count := pc_use_count c + 1\<rparr>) (ac_codes db)\<rparr>))"

definition consume_pioneer_code_for_agent_tx :: "timestamp \<Rightarrow> uuid \<Rightarrow> string \<Rightarrow> uuid \<Rightarrow> pioneer_code_use_kind \<Rightarrow> unit atx" where
  "consume_pioneer_code_for_agent_tx now use_id h agent kind db =
     (case code_by_hash h (ac_codes db) of
        None \<Rightarrow> Inl unavailable_pioneer_code
      | Some c \<Rightarrow>
          and_then (guard_err (code_unavailable now c) unavailable_pioneer_code) (\<lambda>_.
          and_then (insert_code_use \<lparr>cu_id = use_id, cu_code = pc_id c, cu_subject = UsedByAgent agent, cu_kind = kind, cu_used_at = now\<rparr> db) (\<lambda>(_, db1).
          increment_use_count (pc_id c) db1)))"

definition consume_pioneer_code_for_human_tx :: "timestamp \<Rightarrow> uuid \<Rightarrow> string \<Rightarrow> uuid \<Rightarrow> unit atx" where
  "consume_pioneer_code_for_human_tx now use_id h human db =
     (case code_by_hash h (ac_codes db) of
        None \<Rightarrow> Inl unavailable_pioneer_code
      | Some c \<Rightarrow>
          and_then (guard_err (code_unavailable now c) unavailable_pioneer_code) (\<lambda>_.
          and_then (insert_code_use \<lparr>cu_id = use_id, cu_code = pc_id c, cu_subject = UsedByHuman human, cu_kind = HumanGithubSignIn, cu_used_at = now\<rparr> db) (\<lambda>(_, db1).
          increment_use_count (pc_id c) db1)))"

section \<open>Revocation\<close>

record revoke_pioneer_code_outcome =
  rpc_humans :: int
  rpc_human_sessions :: int
  rpc_admin_service_tokens :: int
  rpc_creator_api_tokens :: int
  rpc_agents :: int
  rpc_tokens :: int

definition agents_of_code :: "uuid \<Rightarrow> accounts \<Rightarrow> uuid list" where
  "agents_of_code code_id db = List.map_filter (\<lambda>u. case cu_subject u of UsedByAgent a \<Rightarrow> Some a | UsedByHuman _ \<Rightarrow> None)
     (sql_select (\<lambda>u. cu_code u = code_id) (ac_uses db))"

definition humans_of_code :: "uuid \<Rightarrow> accounts \<Rightarrow> uuid list" where
  "humans_of_code code_id db = List.map_filter (\<lambda>u. case cu_subject u of UsedByHuman h \<Rightarrow> Some h | UsedByAgent _ \<Rightarrow> None)
     (sql_select (\<lambda>u. cu_code u = code_id) (ac_uses db))"

text \<open>\<open>UPDATE ... SET status = 'revoked', revoked_at = COALESCE(revoked_at, NOW())\<close>.\<close>

definition revoke_token :: "timestamp \<Rightarrow> 'a token_row_scheme \<Rightarrow> 'a token_row_scheme" where
  "revoke_token now t =
     t\<lparr>tk_status := TokenRevoked, tk_revoked_at := (case tk_revoked_at t of None \<Rightarrow> Some now | Some x \<Rightarrow> Some x)\<rparr>"

definition owned_active :: "uuid set \<Rightarrow> 'a token_row_scheme \<Rightarrow> bool" where
  "owned_active hs t = (tk_owner t \<in> hs \<and> tk_status t = TokenActive)"

definition revoke_code_row :: "timestamp \<Rightarrow> pioneer_code_row \<Rightarrow> pioneer_code_row" where
  "revoke_code_row now c =
     c\<lparr>pc_status := PioneerRevoked, pc_revoked_at := (case pc_revoked_at c of None \<Rightarrow> Some now | Some x \<Rightarrow> Some x)\<rparr>"

definition set_up_again :: "person_row \<Rightarrow> person_row" where
  "set_up_again p = p\<lparr>pe_status := HumanSetupRequired, pe_disabled_at := None, pe_deleted_at := None\<rparr>"

definition revoke_agent_token :: "timestamp \<Rightarrow> agent_token_row \<Rightarrow> agent_token_row" where
  "revoke_agent_token now t = t\<lparr>agt_revoked_at := (case agt_revoked_at t of None \<Rightarrow> Some now | Some x \<Rightarrow> Some x)\<rparr>"

definition revoke_pioneer_code :: "timestamp \<Rightarrow> uuid \<Rightarrow> revoke_pioneer_code_outcome atx" where
  "revoke_pioneer_code now code_id db =
     (if \<not> sql_exists (\<lambda>c. pc_id c = code_id) (ac_codes db) then Inl NotFound
      else
        (let db0 = db\<lparr>ac_codes := sql_update (\<lambda>c. pc_id c = code_id) (revoke_code_row now) (ac_codes db)\<rparr>;
             as = set (agents_of_code code_id db0); hs = set (humans_of_code code_id db0);
             live = (\<lambda>p. pe_id p \<in> hs \<and> pe_status p \<notin> {HumanDisabled, HumanDeleted});
             db1 = db0\<lparr>ac_people := sql_update live set_up_again (ac_people db0)\<rparr>;
             db2 = db1\<lparr>ac_roles := sql_update (\<lambda>r. ro_human r \<in> hs \<and> ro_role r = RoleCreator \<and> ro_revoked_at r = None)
                         (\<lambda>r. r\<lparr>ro_revoked_at := Some now\<rparr>) (ac_roles db1)\<rparr>;
             db3 = db2\<lparr>ac_sessions := sql_delete (\<lambda>s. ses_human s \<in> hs) (ac_sessions db2)\<rparr>;
             db4 = db3\<lparr>ac_admin_tokens := sql_update (owned_active hs) (revoke_token now) (ac_admin_tokens db3)\<rparr>;
             db5 = db4\<lparr>ac_creator_tokens := sql_update (owned_active hs) (revoke_token now) (ac_creator_tokens db4)\<rparr>;
             db6 = db5\<lparr>ac_agents := sql_update (\<lambda>a. ra_id a \<in> as \<and> ra_status a = AgentActive) (\<lambda>a. a\<lparr>ra_status := AgentDisabled\<rparr>) (ac_agents db5)\<rparr>;
             db7 = db6\<lparr>ac_agent_tokens := sql_update (\<lambda>t. agt_agent t \<in> as \<and> agt_revoked_at t = None) (revoke_agent_token now) (ac_agent_tokens db6)\<rparr>
         in Inr (\<lparr>rpc_humans = sql_count live (ac_people db0), rpc_human_sessions = sql_count (\<lambda>s. ses_human s \<in> hs) (ac_sessions db2),
                  rpc_admin_service_tokens = sql_count (owned_active hs) (ac_admin_tokens db3),
                  rpc_creator_api_tokens = sql_count (owned_active hs) (ac_creator_tokens db4),
                  rpc_agents = sql_count (\<lambda>a. ra_id a \<in> as \<and> ra_status a = AgentActive) (ac_agents db5),
                  rpc_tokens = sql_count (\<lambda>t. agt_agent t \<in> as \<and> agt_revoked_at t = None) (ac_agent_tokens db6)\<rparr>, db7)))"

section \<open>What the operations do\<close>

lemma consume_cases:
  assumes "consume_pioneer_code_for_agent_tx now use_id h agent kind db = Inr (u, db')
     \<or> consume_pioneer_code_for_human_tx now use_id h human db = Inr (u, db')"
  obtains c s k where "code_by_hash h (ac_codes db) = Some c" "\<not> code_unavailable now c" "pc_use_count c + 1 \<le> i64_max"
    "db' = db\<lparr>ac_uses := sql_insert \<lparr>cu_id = use_id, cu_code = pc_id c, cu_subject = s, cu_kind = k, cu_used_at = now\<rparr> (ac_uses db),
       ac_codes := sql_update (\<lambda>x. pc_id x = pc_id c) (\<lambda>x. x\<lparr>pc_use_count := pc_use_count x + 1\<rparr>) (ac_codes db)\<rparr>"
    "\<forall>x \<in> set (ac_uses db). cu_id x \<noteq> use_id \<and> (cu_code x = pc_id c \<longrightarrow> cu_subject x \<noteq> s)"
    "s = UsedByAgent agent \<and> sql_exists (\<lambda>x. ra_id x = agent) (ac_agents db) \<or> s = UsedByHuman human \<and> person_exists db human"
proof -
  from assms obtain s k c where c: "code_by_hash h (ac_codes db) = Some c" "\<not> code_unavailable now c"
    and s: "s = UsedByAgent agent \<or> s = UsedByHuman human"
    and run: "and_then (insert_code_use \<lparr>cu_id = use_id, cu_code = pc_id c, cu_subject = s, cu_kind = k, cu_used_at = now\<rparr> db)
       (\<lambda>(_, db1). increment_use_count (pc_id c) db1) = Inr (u, db')"
    unfolding consume_pioneer_code_for_agent_tx_def consume_pioneer_code_for_human_tx_def
    by (auto simp: result_simps split: option.splits)
  have mem: "c \<in> set (ac_codes db)" using code_tbl.lookup_Some_in [OF c(1)] by simp
  show ?thesis
    by (rule that [OF c, of s k])
      (use run s mem in \<open>auto simp: result_simps insert_code_use_def increment_use_count_def not_less split: if_splits\<close>)
qed

end
