(* ===== verification/Agent_Accounts.thy ===== *)
theory Agent_Accounts
  imports Pioneer_Codes
begin

text \<open>
  Agents, \<open>persistence/src/db/agents.rs\<close>: registration with or without a pioneer code under a global quota,
  authentication of bearer tokens and disabling. \<open>hash\<close> is the hex digest of a token.
\<close>

record register_agent_input =
  rg_agent_id :: uuid
  rg_token_id :: uuid
  rg_token_hash :: string
  rg_display_name :: string
  rg_agent_description :: string
  rg_model_info :: string

section \<open>Registration\<close>

definition count_active_agents_tx :: "accounts \<Rightarrow> int" where
  "count_active_agents_tx db = sql_count (\<lambda>a. ra_status a = AgentActive) (ac_agents db)"

definition enforce_active_agent_quota_tx :: "int \<Rightarrow> unit atx" where
  "enforce_active_agent_quota_tx max_active_agents db =
     (let db1 = lock_account_scope ''global:active-agents'' db; active = count_active_agents_tx db1
      in and_then (guard_err (active \<ge> max_active_agents) (TooManyRequests
           (''agent registration quota exceeded: '' @ show_int active @ '' of '' @ show_int max_active_agents
             @ '' active agents are already registered''))) (\<lambda>_. Inr ((), db1)))"

definition new_agent :: "timestamp \<Rightarrow> register_agent_input \<Rightarrow> registered_agent_row" where
  "new_agent now inp = \<lparr>ra_id = rg_agent_id inp, ra_display_name = rg_display_name inp, ra_description = rg_agent_description inp,
     ra_model_info = rg_model_info inp, ra_status = AgentActive, ra_created_at = now\<rparr>"

definition insert_agent_tx :: "timestamp \<Rightarrow> register_agent_input \<Rightarrow> registered_agent_row atx" where
  "insert_agent_tx now inp db =
     (if sql_exists (\<lambda>a. ra_id a = rg_agent_id inp) (ac_agents db) then Inl (duplicate_key ''agents_pkey'')
      else Inr (new_agent now inp, db\<lparr>ac_agents := sql_insert (new_agent now inp) (ac_agents db)\<rparr>))"

definition new_agent_token :: "register_agent_input \<Rightarrow> agent_token_row" where
  "new_agent_token inp = \<lparr>agt_id = rg_token_id inp, agt_agent = rg_agent_id inp, agt_hash = rg_token_hash inp,
     agt_revoked_at = None, agt_last_used_at = None\<rparr>"

definition insert_agent_token_tx :: "register_agent_input \<Rightarrow> unit atx" where
  "insert_agent_token_tx inp db =
     and_then (no_violation
       [(sql_exists (\<lambda>t. agt_id t = rg_token_id inp) (ac_agent_tokens db), duplicate_key ''agent_tokens_pkey''),
        (sql_exists (\<lambda>t. agt_hash t = rg_token_hash inp) (ac_agent_tokens db), duplicate_key ''agent_tokens_token_hash_key''),
        (\<not> sql_exists (\<lambda>a. ra_id a = rg_agent_id inp) (ac_agents db), missing_reference ''agent_tokens_agent_id_fkey'')]) (\<lambda>_.
     Inr ((), db\<lparr>ac_agent_tokens := sql_insert (new_agent_token inp) (ac_agent_tokens db)\<rparr>))"

definition register_agent :: "timestamp \<Rightarrow> register_agent_input \<Rightarrow> int \<Rightarrow> registered_agent_row atx" where
  "register_agent now inp max_active_agents db =
     and_then (enforce_active_agent_quota_tx max_active_agents db) (\<lambda>(_, db1).
     and_then (insert_agent_tx now inp db1) (\<lambda>(agent, db2).
     and_then (insert_agent_token_tx inp db2) (\<lambda>(_, db3).
     Inr (agent, db3))))"

definition register_agent_with_pioneer_code ::
  "timestamp \<Rightarrow> uuid \<Rightarrow> register_agent_input \<Rightarrow> string \<Rightarrow> pioneer_code_use_kind \<Rightarrow> int \<Rightarrow> registered_agent_row atx" where
  "register_agent_with_pioneer_code now use_id inp code_hash kind max_active_agents db =
     and_then (enforce_active_agent_quota_tx max_active_agents db) (\<lambda>(_, db1).
     and_then (insert_agent_tx now inp db1) (\<lambda>(agent, db2).
     and_then (consume_pioneer_code_for_agent_tx now use_id code_hash (rg_agent_id inp) kind db2) (\<lambda>(_, db3).
     and_then (insert_agent_token_tx inp db3) (\<lambda>(_, db4).
     Inr (agent, db4)))))"

section \<open>Tokens\<close>

record authenticated_agent =
  aa_agent_id :: uuid
  aa_token_id :: uuid
  aa_display_name :: string

text \<open>The join of the token with its agent; the hash is unique, so there is at most one row.\<close>

definition agent_token_owner :: "string \<Rightarrow> accounts \<Rightarrow> (agent_token_row \<times> registered_agent_row) option" where
  "agent_token_owner h db =
     sql_first (\<lambda>(t, a). agt_hash t = h \<and> agt_revoked_at t = None \<and> ra_id a = agt_agent t \<and> ra_status a = AgentActive)
       (List.product (ac_agent_tokens db) (ac_agents db))"

definition authenticate_agent_token :: "(string \<Rightarrow> string) \<Rightarrow> timestamp \<Rightarrow> string \<Rightarrow> accounts \<Rightarrow> authenticated_agent option \<times> accounts" where
  "authenticate_agent_token hash now token db =
     (case agent_token_owner (hash token) db of
        None \<Rightarrow> (None, db)
      | Some (t, a) \<Rightarrow>
          (Some \<lparr>aa_agent_id = ra_id a, aa_token_id = agt_id t, aa_display_name = ra_display_name a\<rparr>,
           db\<lparr>ac_agent_tokens := sql_update (\<lambda>x. agt_id x = agt_id t) (\<lambda>x. x\<lparr>agt_last_used_at := Some now\<rparr>) (ac_agent_tokens db)\<rparr>))"

text \<open>Two statements without a transaction; the second one runs only after the first has found the agent.\<close>

definition disable_agent_status :: "uuid \<Rightarrow> unit atx" where
  "disable_agent_status agent db =
     (if \<not> sql_exists (\<lambda>a. ra_id a = agent) (ac_agents db) then Inl NotFound
      else Inr ((), db\<lparr>ac_agents := sql_update (\<lambda>a. ra_id a = agent) (\<lambda>a. a\<lparr>ra_status := AgentDisabled\<rparr>) (ac_agents db)\<rparr>))"

definition revoke_agent_tokens :: "timestamp \<Rightarrow> uuid \<Rightarrow> accounts \<Rightarrow> accounts" where
  "revoke_agent_tokens now agent db =
     db\<lparr>ac_agent_tokens := sql_update (\<lambda>t. agt_agent t = agent) (revoke_agent_token now) (ac_agent_tokens db)\<rparr>"

definition disable_agent :: "timestamp \<Rightarrow> uuid \<Rightarrow> unit atx" where
  "disable_agent now agent db =
     and_then (disable_agent_status agent db) (\<lambda>(_, db1). Inr ((), revoke_agent_tokens now agent db1))"

section \<open>What registration does\<close>

lemma register_ok:
  assumes "register_agent now inp m db = Inr (a, db')"
  shows "count_active_agents_tx db < m" and "a = new_agent now inp" and "\<forall>x \<in> set (ac_agents db). ra_id x \<noteq> rg_agent_id inp"
    and "\<forall>t \<in> set (ac_agent_tokens db). agt_id t \<noteq> rg_token_id inp \<and> agt_hash t \<noteq> rg_token_hash inp"
    and "db' = (lock_account_scope ''global:active-agents'' db)\<lparr>ac_agents := sql_insert (new_agent now inp) (ac_agents db),
       ac_agent_tokens := sql_insert (new_agent_token inp) (ac_agent_tokens db)\<rparr>"
  using assms
  by (auto simp: register_agent_def enforce_active_agent_quota_tx_def insert_agent_tx_def insert_agent_token_tx_def result_simps
      count_active_agents_tx_def Let_def split: if_splits)

lemma register_with_code_ok:
  assumes "register_agent_with_pioneer_code now use_id inp h kind m db = Inr (a, db')"
  obtains c where "count_active_agents_tx db < m" "a = new_agent now inp" "\<forall>x \<in> set (ac_agents db). ra_id x \<noteq> rg_agent_id inp"
    "\<forall>t \<in> set (ac_agent_tokens db). agt_id t \<noteq> rg_token_id inp \<and> agt_hash t \<noteq> rg_token_hash inp"
    "code_by_hash h (ac_codes db) = Some c" "\<not> code_unavailable now c" "pc_use_count c + 1 \<le> i64_max"
    "\<forall>x \<in> set (ac_uses db). cu_id x \<noteq> use_id \<and> (cu_code x = pc_id c \<longrightarrow> cu_subject x \<noteq> UsedByAgent (rg_agent_id inp))"
    "db' = (lock_account_scope ''global:active-agents'' db)\<lparr>ac_agents := sql_insert (new_agent now inp) (ac_agents db),
       ac_agent_tokens := sql_insert (new_agent_token inp) (ac_agent_tokens db),
       ac_uses := sql_insert \<lparr>cu_id = use_id, cu_code = pc_id c, cu_subject = UsedByAgent (rg_agent_id inp), cu_kind = kind, cu_used_at = now\<rparr> (ac_uses db),
       ac_codes := sql_update (\<lambda>x. pc_id x = pc_id c) (\<lambda>x. x\<lparr>pc_use_count := pc_use_count x + 1\<rparr>) (ac_codes db)\<rparr>"
proof -
  let ?db2 = "(lock_account_scope ''global:active-agents'' db)\<lparr>ac_agents := sql_insert (new_agent now inp) (ac_agents db)\<rparr>"
  from assms obtain db3 where facts: "count_active_agents_tx db < m" "a = new_agent now inp" "\<forall>x \<in> set (ac_agents db). ra_id x \<noteq> rg_agent_id inp"
    and consume: "consume_pioneer_code_for_agent_tx now use_id h (rg_agent_id inp) kind ?db2 = Inr ((), db3)"
    and token: "insert_agent_token_tx inp db3 = Inr ((), db')"
    by (auto simp: register_agent_with_pioneer_code_def enforce_active_agent_quota_tx_def insert_agent_tx_def result_simps
        count_active_agents_tx_def Let_def split: if_splits)
  from consume obtain c where c: "code_by_hash h (ac_codes db) = Some c" "\<not> code_unavailable now c" "pc_use_count c + 1 \<le> i64_max"
    and uses: "\<forall>x \<in> set (ac_uses db). cu_id x \<noteq> use_id \<and> (cu_code x = pc_id c \<longrightarrow> cu_subject x \<noteq> UsedByAgent (rg_agent_id inp))"
    and db3: "db3 = ?db2\<lparr>ac_uses := sql_insert \<lparr>cu_id = use_id, cu_code = pc_id c, cu_subject = UsedByAgent (rg_agent_id inp), cu_kind = kind, cu_used_at = now\<rparr> (ac_uses db),
       ac_codes := sql_update (\<lambda>x. pc_id x = pc_id c) (\<lambda>x. x\<lparr>pc_use_count := pc_use_count x + 1\<rparr>) (ac_codes db)\<rparr>"
    using code_tbl.lookup_Some_in [of h "ac_codes db"]
    by (auto simp: consume_pioneer_code_for_agent_tx_def result_simps insert_code_use_def increment_use_count_def not_less
        split: option.splits if_splits)
  show ?thesis
    by (rule that [OF facts _ c uses]) (use token in \<open>auto simp: insert_agent_token_tx_def result_simps db3\<close>)
qed

lemma authenticated_agent_is_live:
  assumes "authenticate_agent_token hash now token db = (Some x, db')"
  shows "\<exists>a \<in> set (ac_agents db). \<exists>t \<in> set (ac_agent_tokens db). ra_id a = aa_agent_id x \<and> ra_status a = AgentActive
     \<and> agt_agent t = ra_id a \<and> agt_revoked_at t = None \<and> agt_hash t = hash token"
  using assms unfolding authenticate_agent_token_def agent_token_owner_def
  by (auto split: option.splits dest!: sql_first_Some) metis

end
