(* ===== verification/Human_Accounts.thy ===== *)
theory Human_Accounts
  imports Agent_Accounts
begin

text \<open>
  Humans, \<open>persistence/src/db/sessions.rs\<close> with \<open>sessions/account_deletion.rs\<close> and
  \<open>sessions/admin_service_tokens.rs\<close>: accounts behind GitHub identities, roles, browser sessions, sign-in
  states, and the bearer tokens of administrators and creators. \<open>label_key\<close> is the SQL expression
  \<open>lower(btrim(label))\<close> of the unique label indexes, \<open>hash\<close> the hex digest of a token.
\<close>

section \<open>Statements shared by the transactions\<close>

record human_record =
  hm_human_id :: uuid
  hm_status :: human_status
  hm_github_user_id :: int
  hm_github_login :: string
  hm_roles :: "human_role list"

text \<open>The active roles in the order of their names, without duplicates.\<close>

definition active_roles :: "uuid \<Rightarrow> accounts \<Rightarrow> human_role list" where
  "active_roles h db = filter (\<lambda>r. has_role db h r) [RoleAdmin, RoleCreator]"

definition human_record_of :: "person_row \<Rightarrow> identity_row \<Rightarrow> accounts \<Rightarrow> human_record" where
  "human_record_of p x db = \<lparr>hm_human_id = pe_id p, hm_status = pe_status p, hm_github_user_id = xi_github_user_id x,
     hm_github_login = xi_login x, hm_roles = active_roles (pe_id p) db\<rparr>"

definition get_human_by_id :: "uuid \<Rightarrow> accounts \<Rightarrow> service_error + human_record" where
  "get_human_by_id h db =
     (case sql_first (\<lambda>(p, x). pe_id p = h \<and> xi_human x = h) (List.product (ac_people db) (ac_identities db)) of
        None \<Rightarrow> Inl NotFound
      | Some (p, x) \<Rightarrow> Inr (human_record_of p x db))"

definition find_github_human_for_update_tx :: "int \<Rightarrow> accounts \<Rightarrow> human_record option" where
  "find_github_human_for_update_tx gid db =
     map_option (\<lambda>(p, x). human_record_of p x db)
       (sql_first (\<lambda>(p, x). xi_github_user_id x = gid \<and> pe_id p = xi_human x) (List.product (ac_people db) (ac_identities db)))"

definition insert_human_tx :: "timestamp \<Rightarrow> uuid \<Rightarrow> human_status \<Rightarrow> unit atx" where
  "insert_human_tx now h st db =
     (if person_exists db h then Inl (duplicate_key ''humans_pkey'')
      else Inr ((), db\<lparr>ac_people := sql_insert \<lparr>pe_id = h, pe_status = st, pe_created_at = now, pe_disabled_at = None, pe_deleted_at = None\<rparr> (ac_people db)\<rparr>))"

definition activate_human_tx :: "uuid \<Rightarrow> accounts \<Rightarrow> accounts" where
  "activate_human_tx h db = db\<lparr>ac_people :=
     sql_update (\<lambda>p. pe_id p = h \<and> pe_status p \<notin> {HumanDisabled, HumanDeleted})
       (\<lambda>p. p\<lparr>pe_status := HumanActive, pe_disabled_at := None, pe_deleted_at := None\<rparr>) (ac_people db)\<rparr>"

definition insert_github_identity_tx :: "timestamp \<Rightarrow> uuid \<Rightarrow> int \<Rightarrow> string \<Rightarrow> unit atx" where
  "insert_github_identity_tx now h gid login db =
     and_then (no_violation
       [(gid \<le> 0, check_violation ''human_external_identities_provider_user_id_check''),
        (sql_exists (\<lambda>x. xi_human x = h) (ac_identities db), duplicate_key ''human_external_identities_pkey''),
        (sql_exists (\<lambda>x. xi_github_user_id x = gid) (ac_identities db), duplicate_key ''human_external_identities_provider_provider_user_id_key''),
        (\<not> person_exists db h, missing_reference ''human_external_identities_human_id_fkey'')]) (\<lambda>_.
     Inr ((), db\<lparr>ac_identities := sql_insert \<lparr>xi_human = h, xi_github_user_id = gid, xi_login = trim login, xi_updated_at = now\<rparr> (ac_identities db)\<rparr>))"

text \<open>\<open>ON CONFLICT (human_id, role) WHERE revoked_at IS NULL DO NOTHING\<close>; \<open>rid\<close> is the generated id.\<close>

definition grant_role_tx :: "timestamp \<Rightarrow> uuid \<Rightarrow> uuid \<Rightarrow> human_role \<Rightarrow> uuid option \<Rightarrow> unit atx" where
  "grant_role_tx now rid h r granted_by db =
     (if has_role db h r then Inr ((), db)
      else and_then (no_violation
       [(sql_exists (\<lambda>x. ro_id x = rid) (ac_roles db), duplicate_key ''human_roles_pkey''),
        (\<not> person_exists db h, missing_reference ''human_roles_human_id_fkey''),
        (\<exists>g \<in> set_option granted_by. \<not> person_exists db g, missing_reference ''human_roles_granted_by_human_id_fkey'')]) (\<lambda>_.
     Inr ((), db\<lparr>ac_roles := sql_insert \<lparr>ro_id = rid, ro_human = h, ro_role = r, ro_granted_by = granted_by, ro_granted_at = now,
       ro_revoked_by = None, ro_revoked_at = None\<rparr> (ac_roles db)\<rparr>)))"

definition ensure_active_human_tx :: "uuid \<Rightarrow> accounts \<Rightarrow> service_error + unit" where
  "ensure_active_human_tx h db =
     and_then (ok_or NotFound (person_by_id h (ac_people db))) (\<lambda>p.
     guard_err (pe_status p \<noteq> HumanActive) (Forbidden ''human account is not active''))"

abbreviation lock_bootstrap_admin_scope_tx :: "accounts \<Rightarrow> accounts" where
  "lock_bootstrap_admin_scope_tx \<equiv> lock_account_scope ''global:bootstrap-admin''"

text \<open>The join of unrevoked administrator roles with active humans.\<close>

definition active_admin_count_tx :: "accounts \<Rightarrow> int" where
  "active_admin_count_tx db =
     sql_count (\<lambda>(r, p). ro_role r = RoleAdmin \<and> ro_revoked_at r = None \<and> pe_id p = ro_human r \<and> pe_status p = HumanActive)
       (List.product (ac_roles db) (ac_people db))"

definition active_admin_exists_tx :: "accounts \<Rightarrow> bool" where
  "active_admin_exists_tx db = (active_admin_count_tx db > 0)"

section \<open>Sign-in\<close>

record resolve_github_human_input =
  rgh_fallback_human_id :: uuid
  rgh_github_user_id :: int
  rgh_github_login :: string
  rgh_bootstrap_admin_candidate :: bool

text \<open>\<open>rids\<close> are the ids that the two grants generate; the result is the id of the human.\<close>

definition resolve_github_human_tx :: "timestamp \<Rightarrow> uuid \<times> uuid \<Rightarrow> resolve_github_human_input \<Rightarrow> uuid atx" where
  "resolve_github_human_tx now rids inp db =
     (case find_github_human_for_update_tx (rgh_github_user_id inp) db of
        Some existing \<Rightarrow>
          and_then (guard_err (hm_status existing = HumanDisabled) (Forbidden ''linked human account is disabled'')) (\<lambda>_.
          and_then (guard_err (hm_status existing = HumanDeleted) (Forbidden ''linked human account has been deleted'')) (\<lambda>_.
          and_then
            (if rgh_bootstrap_admin_candidate inp
             then (let db1 = lock_bootstrap_admin_scope_tx db
                   in if \<not> active_admin_exists_tx db1
                      then (let db2 = activate_human_tx (hm_human_id existing) db1
                            in and_then (grant_role_tx now (fst rids) (hm_human_id existing) RoleCreator None db2) (\<lambda>(_, db3).
                               grant_role_tx now (snd rids) (hm_human_id existing) RoleAdmin None db3))
                      else Inr ((), db1))
             else Inr ((), db)) (\<lambda>(_, db4).
          Inr (hm_human_id existing, db4\<lparr>ac_identities := sql_update (\<lambda>x. xi_github_user_id x = rgh_github_user_id inp)
            (\<lambda>x. x\<lparr>xi_login := trim (rgh_github_login inp), xi_updated_at := now\<rparr>) (ac_identities db4)\<rparr>))))
      | None \<Rightarrow>
          (let db1 = (if rgh_bootstrap_admin_candidate inp then lock_bootstrap_admin_scope_tx db else db);
               bootstrap_admin = (rgh_bootstrap_admin_candidate inp \<and> \<not> active_admin_exists_tx db1);
               h = rgh_fallback_human_id inp
           in and_then (insert_human_tx now h (if bootstrap_admin then HumanActive else HumanSetupRequired) db1) (\<lambda>(_, db2).
              and_then (insert_github_identity_tx now h (rgh_github_user_id inp) (rgh_github_login inp) db2) (\<lambda>(_, db3).
              and_then (if bootstrap_admin
                then and_then (grant_role_tx now (fst rids) h RoleCreator None db3) (\<lambda>(_, db4). grant_role_tx now (snd rids) h RoleAdmin None db4)
                else Inr ((), db3)) (\<lambda>(_, db5).
              Inr (h, db5))))))"

definition create_github_sign_in_state :: "sign_in_state_row \<Rightarrow> unit atx" where
  "create_github_sign_in_state st db =
     (if sql_exists (\<lambda>x. gs_hash x = gs_hash st) (ac_states db) then Inl (duplicate_key ''github_sign_in_states_pkey'')
      else Inr ((), db\<lparr>ac_states := sql_insert st (ac_states db)\<rparr>))"

text \<open>\<open>DELETE ... RETURNING return_to\<close>; the state hash is the primary key.\<close>

definition consume_github_sign_in_state :: "timestamp \<Rightarrow> string \<Rightarrow> string \<Rightarrow> accounts \<Rightarrow> string option option \<times> accounts" where
  "consume_github_sign_in_state now state_hash nonce_hash db =
     (let this = (\<lambda>x. gs_hash x = state_hash \<and> gs_nonce_hash x = nonce_hash \<and> gs_expires_at x > now)
      in (map_option gs_return_to (sql_first this (ac_states db)), db\<lparr>ac_states := sql_delete this (ac_states db)\<rparr>))"

definition complete_human_setup_tx :: "timestamp \<Rightarrow> uuid \<times> uuid \<Rightarrow> uuid \<Rightarrow> string \<Rightarrow> unit atx" where
  "complete_human_setup_tx now ids h code_hash db =
     and_then (ok_or NotFound (person_by_id h (ac_people db))) (\<lambda>p.
     and_then (guard_err (pe_status p = HumanDisabled) (Forbidden ''human account is disabled'')) (\<lambda>_.
     and_then (guard_err (pe_status p = HumanDeleted) (Forbidden ''human account has been deleted'')) (\<lambda>_.
     if pe_status p = HumanActive \<and> has_role db h RoleCreator then Inr ((), db)
     else
       and_then (consume_pioneer_code_for_human_tx now (fst ids) code_hash h db) (\<lambda>(_, db1).
       grant_role_tx now (snd ids) h RoleCreator None (activate_human_tx h db1)))))"

section \<open>Sessions\<close>

definition create_human_session :: "session_row \<Rightarrow> unit atx" where
  "create_human_session s db =
     and_then (no_violation
       [(sql_exists (\<lambda>x. ses_id x = ses_id s) (ac_sessions db), duplicate_key ''human_sessions_pkey''),
        (sql_exists (\<lambda>x. ses_token_hash x = ses_token_hash s) (ac_sessions db), duplicate_key ''human_sessions_session_token_hash_key''),
        (\<not> person_exists db (ses_human s), missing_reference ''human_sessions_human_id_fkey'')]) (\<lambda>_.
     Inr ((), db\<lparr>ac_sessions := sql_insert s (ac_sessions db)\<rparr>))"

record authenticated_session =
  as_session_id :: uuid
  as_human :: human_record
  as_csrf_token_hash :: string
  as_expires_at :: timestamp

definition session_owner :: "timestamp \<Rightarrow> string \<Rightarrow> accounts \<Rightarrow> (session_row \<times> person_row \<times> identity_row) option" where
  "session_owner now h db =
     sql_first (\<lambda>(s, p, x). ses_token_hash s = h \<and> ses_expires_at s > now \<and> pe_id p = ses_human s
         \<and> pe_status p \<in> {HumanActive, HumanSetupRequired} \<and> xi_human x = pe_id p)
       (List.product (ac_sessions db) (List.product (ac_people db) (ac_identities db)))"

definition authenticate_human_session :: "(string \<Rightarrow> string) \<Rightarrow> timestamp \<Rightarrow> string \<Rightarrow> accounts \<Rightarrow> authenticated_session option \<times> accounts" where
  "authenticate_human_session hash now token db =
     (case session_owner now (hash token) db of
        None \<Rightarrow> (None, db)
      | Some (s, p, x) \<Rightarrow>
          (Some \<lparr>as_session_id = ses_id s, as_human = human_record_of p x db, as_csrf_token_hash = ses_csrf_hash s, as_expires_at = ses_expires_at s\<rparr>,
           db\<lparr>ac_sessions := sql_update (\<lambda>y. ses_id y = ses_id s) (\<lambda>y. y\<lparr>ses_last_used_at := Some now\<rparr>) (ac_sessions db)\<rparr>))"

definition delete_human_session_by_token :: "(string \<Rightarrow> string) \<Rightarrow> string \<Rightarrow> accounts \<Rightarrow> accounts" where
  "delete_human_session_by_token hash token db = db\<lparr>ac_sessions := sql_delete (\<lambda>s. ses_token_hash s = hash token) (ac_sessions db)\<rparr>"

definition delete_expired_web_auth_rows :: "timestamp \<Rightarrow> accounts \<Rightarrow> accounts" where
  "delete_expired_web_auth_rows now db =
     db\<lparr>ac_states := sql_delete (\<lambda>s. gs_expires_at s \<le> now) (ac_states db), ac_sessions := sql_delete (\<lambda>s. ses_expires_at s \<le> now) (ac_sessions db)\<rparr>"

section \<open>Roles\<close>

definition grant_admin_role_tx :: "timestamp \<Rightarrow> uuid \<Rightarrow> uuid \<Rightarrow> uuid \<Rightarrow> unit atx" where
  "grant_admin_role_tx now rid h granted_by db =
     (let db1 = lock_bootstrap_admin_scope_tx db
      in and_then (ensure_active_human_tx h db1) (\<lambda>_. grant_role_tx now rid h RoleAdmin (Some granted_by) db1))"

text \<open>\<open>revoked_by_human_id = COALESCE(revoked_by_human_id, ...)\<close> on the roles and tokens that a statement revokes.\<close>

definition or_else :: "'a option \<Rightarrow> 'a \<Rightarrow> 'a option" where
  "or_else x y = (case x of None \<Rightarrow> Some y | Some z \<Rightarrow> Some z)"

definition revoke_role :: "timestamp \<Rightarrow> uuid \<Rightarrow> role_row \<Rightarrow> role_row" where
  "revoke_role now revoked_by r = r\<lparr>ro_revoked_at := or_else (ro_revoked_at r) now, ro_revoked_by := or_else (ro_revoked_by r) revoked_by\<rparr>"

definition revoke_admin_token :: "timestamp \<Rightarrow> uuid \<Rightarrow> admin_token_row \<Rightarrow> admin_token_row" where
  "revoke_admin_token now revoked_by t =
     t\<lparr>tk_status := TokenRevoked, tk_revoked_at := or_else (tk_revoked_at t) now, tk_revoked_by := or_else (tk_revoked_by t) revoked_by\<rparr>"

definition revoke_admin_service_tokens_created_by_human_tx :: "timestamp \<Rightarrow> uuid \<Rightarrow> uuid \<Rightarrow> accounts \<Rightarrow> accounts" where
  "revoke_admin_service_tokens_created_by_human_tx now h revoked_by db =
     db\<lparr>ac_admin_tokens := sql_update (owned_active {h}) (revoke_admin_token now revoked_by) (ac_admin_tokens db)\<rparr>"

definition revoke_admin_role_tx :: "timestamp \<Rightarrow> uuid \<Rightarrow> uuid \<Rightarrow> unit atx" where
  "revoke_admin_role_tx now h revoked_by db =
     (let db1 = lock_bootstrap_admin_scope_tx db
      in and_then (ensure_active_human_tx h db1) (\<lambda>_.
         and_then (guard_err (\<not> has_role db1 h RoleAdmin) NotFound) (\<lambda>_.
         and_then (guard_err (active_admin_count_tx db1 \<le> 1) (BadRequest ''cannot revoke the final active human admin'')) (\<lambda>_.
         Inr ((), revoke_admin_service_tokens_created_by_human_tx now h revoked_by
           (db1\<lparr>ac_roles := sql_update (\<lambda>r. ro_human r = h \<and> ro_role r = RoleAdmin \<and> ro_revoked_at r = None)
              (revoke_role now revoked_by) (ac_roles db1)\<rparr>))))))"

section \<open>Tokens\<close>

record create_token_input =
  cti_id :: uuid
  cti_hash :: string
  cti_label :: string
  cti_owner :: uuid
  cti_expires_at :: "timestamp option"

definition new_token :: "timestamp \<Rightarrow> create_token_input \<Rightarrow> token_row" where
  "new_token now inp = \<lparr>tk_id = cti_id inp, tk_hash = cti_hash inp, tk_label = trim (cti_label inp), tk_status = TokenActive,
     tk_owner = cti_owner inp, tk_created_at = now, tk_last_used_at = None, tk_expires_at = cti_expires_at inp, tk_revoked_at = None\<rparr>"

definition label_conflict :: "string \<Rightarrow> string \<Rightarrow> service_error" where
  "label_conflict m d = ConflictDetails m [\<lparr>ed_field = Some ''label'', ed_message = d\<rparr>]"

text \<open>The keys of a token table; a violation of the label index is reported as a conflict.\<close>

definition token_violations :: "(string \<Rightarrow> string) \<Rightarrow> string \<Rightarrow> service_error \<Rightarrow> create_token_input \<Rightarrow> 'a token_row_scheme list \<Rightarrow> (bool \<times> service_error) list" where
  "token_violations label_key table conflict inp tbl =
     [(list_ex (\<lambda>t. tk_id t = cti_id inp) tbl, duplicate_key (table @ ''_pkey'')),
      (list_ex (\<lambda>t. tk_hash t = cti_hash inp) tbl, duplicate_key (table @ ''_token_hash_key'')),
      (list_ex (\<lambda>t. tk_owner t = cti_owner inp \<and> tk_status t = TokenActive \<and> label_key (tk_label t) = label_key (trim (cti_label inp))) tbl, conflict)]"

definition create_admin_service_token :: "(string \<Rightarrow> string) \<Rightarrow> timestamp \<Rightarrow> create_token_input \<Rightarrow> admin_token_row atx" where
  "create_admin_service_token label_key now inp db =
     and_then (ensure_active_human_tx (cti_owner inp) db) (\<lambda>_.
     and_then (guard_err (\<not> has_role db (cti_owner inp) RoleAdmin)
       (Forbidden ''active admin role is required to create an admin service token'')) (\<lambda>_.
     and_then (no_violation (token_violations label_key ''admin_service_tokens''
       (label_conflict ''active admin service token label already exists for this admin''
          ''An active admin service token from this admin already uses this label.'') inp (ac_admin_tokens db))) (\<lambda>_.
     (let t = token_row.extend (new_token now inp) \<lparr>tk_revoked_by = None\<rparr>
      in Inr (t, db\<lparr>ac_admin_tokens := sql_insert t (ac_admin_tokens db)\<rparr>)))))"

definition revoke_admin_service_token :: "timestamp \<Rightarrow> uuid \<Rightarrow> uuid \<Rightarrow> unit atx" where
  "revoke_admin_service_token now tid revoked_by db =
     (if \<not> sql_exists (\<lambda>t. tk_id t = tid) (ac_admin_tokens db) then Inl NotFound
      else Inr ((), db\<lparr>ac_admin_tokens := sql_update (\<lambda>t. tk_id t = tid) (revoke_admin_token now revoked_by) (ac_admin_tokens db)\<rparr>))"

definition token_live :: "timestamp \<Rightarrow> string \<Rightarrow> 'a token_row_scheme \<Rightarrow> bool" where
  "token_live now h t = (tk_hash t = h \<and> tk_status t = TokenActive \<and> (case tk_expires_at t of None \<Rightarrow> True | Some e \<Rightarrow> e > now))"

text \<open>The joins with the owner and its unrevoked administrator role leave the live tokens of active administrators.\<close>

definition authenticate_admin_service_token :: "timestamp \<Rightarrow> string \<Rightarrow> accounts \<Rightarrow> admin_token_row option \<times> accounts" where
  "authenticate_admin_service_token now h db =
     (case sql_first (\<lambda>t. token_live now h t \<and> human_active db (tk_owner t) \<and> has_role db (tk_owner t) RoleAdmin) (ac_admin_tokens db) of
        None \<Rightarrow> (None, db)
      | Some t \<Rightarrow> (Some t, db\<lparr>ac_admin_tokens := sql_update (\<lambda>x. tk_id x = tk_id t) (\<lambda>x. x\<lparr>tk_last_used_at := Some now\<rparr>) (ac_admin_tokens db)\<rparr>))"

definition create_creator_api_token :: "(string \<Rightarrow> string) \<Rightarrow> timestamp \<Rightarrow> create_token_input \<Rightarrow> token_row atx" where
  "create_creator_api_token label_key now inp db =
     and_then (ensure_active_human_tx (cti_owner inp) db) (\<lambda>_.
     and_then (guard_err (\<not> (has_role db (cti_owner inp) RoleCreator \<or> has_role db (cti_owner inp) RoleAdmin))
       (Forbidden ''active creator or admin role is required to create a creator API token'')) (\<lambda>_.
     and_then (no_violation (token_violations label_key ''creator_api_tokens''
       (label_conflict ''active creator API token label already exists for this human''
          ''An active creator API token already uses this label.'') inp (ac_creator_tokens db))) (\<lambda>_.
     Inr (new_token now inp, db\<lparr>ac_creator_tokens := sql_insert (new_token now inp) (ac_creator_tokens db)\<rparr>))))"

definition revoke_creator_api_token :: "timestamp \<Rightarrow> uuid \<Rightarrow> uuid \<Rightarrow> unit atx" where
  "revoke_creator_api_token now h tid db =
     (if \<not> sql_exists (\<lambda>t. tk_id t = tid \<and> tk_owner t = h) (ac_creator_tokens db) then Inl NotFound
      else Inr ((), db\<lparr>ac_creator_tokens := sql_update (\<lambda>t. tk_id t = tid \<and> tk_owner t = h) (revoke_token now) (ac_creator_tokens db)\<rparr>))"

definition authenticate_creator_api_token :: "timestamp \<Rightarrow> string \<Rightarrow> accounts \<Rightarrow> (token_row \<times> human_record) option \<times> accounts" where
  "authenticate_creator_api_token now h db =
     (case sql_first (\<lambda>(t, p, x). token_live now h t \<and> pe_id p = tk_owner t \<and> xi_human x = pe_id p)
         (List.product (ac_creator_tokens db) (List.product (ac_people db) (ac_identities db))) of
        None \<Rightarrow> (None, db)
      | Some (t, p, x) \<Rightarrow> (Some (t, human_record_of p x db),
          db\<lparr>ac_creator_tokens := sql_update (\<lambda>y. tk_id y = tk_id t) (\<lambda>y. y\<lparr>tk_last_used_at := Some now\<rparr>) (ac_creator_tokens db)\<rparr>))"

section \<open>Account deletion\<close>

record delete_human_account_outcome =
  dha_human_sessions :: int
  dha_roles :: int
  dha_admin_service_tokens :: int
  dha_creator_api_tokens :: int

definition deleted_github_login :: "uuid \<Rightarrow> string" where
  "deleted_github_login h = ''deleted-user-'' @ take 8 h"

definition delete_human_account :: "timestamp \<Rightarrow> uuid \<Rightarrow> delete_human_account_outcome atx" where
  "delete_human_account now h db =
     (let db0 = lock_bootstrap_admin_scope_tx db
      in and_then (ok_or NotFound (person_by_id h (ac_people db0))) (\<lambda>p.
         and_then (guard_err (pe_status p = HumanDeleted) (Forbidden ''human account has already been deleted'')) (\<lambda>_.
         and_then (guard_err (pe_status p = HumanDisabled) (Forbidden ''human account is disabled'')) (\<lambda>_.
         and_then (guard_err (has_role db0 h RoleAdmin \<and> active_admin_count_tx db0 \<le> 1)
           (BadRequest ''cannot delete the final active human admin'')) (\<lambda>_.
         (let db1 = db0\<lparr>ac_people := sql_update (\<lambda>p. pe_id p = h)
                (\<lambda>p. p\<lparr>pe_status := HumanDeleted, pe_deleted_at := or_else (pe_deleted_at p) now, pe_disabled_at := None\<rparr>) (ac_people db0)\<rparr>;
              db2 = db1\<lparr>ac_identities := sql_update (\<lambda>x. xi_human x = h)
                (\<lambda>x. x\<lparr>xi_login := deleted_github_login h, xi_updated_at := now\<rparr>) (ac_identities db1)\<rparr>;
              db3 = db2\<lparr>ac_sessions := sql_delete (\<lambda>s. ses_human s = h) (ac_sessions db2)\<rparr>;
              live_role = (\<lambda>r. ro_human r = h \<and> ro_revoked_at r = None);
              db4 = db3\<lparr>ac_roles := sql_update live_role (revoke_role now h) (ac_roles db3)\<rparr>;
              db5 = revoke_admin_service_tokens_created_by_human_tx now h h db4;
              db6 = db5\<lparr>ac_creator_tokens := sql_update (owned_active {h}) (revoke_token now) (ac_creator_tokens db5)\<rparr>
          in Inr (\<lparr>dha_human_sessions = sql_count (\<lambda>s. ses_human s = h) (ac_sessions db2), dha_roles = sql_count live_role (ac_roles db3),
                   dha_admin_service_tokens = sql_count (owned_active {h}) (ac_admin_tokens db4),
                   dha_creator_api_tokens = sql_count (owned_active {h}) (ac_creator_tokens db5)\<rparr>, db6)))))))"

end
