(* ===== verification/Account_System.thy ===== *)
theory Account_System
  imports Human_Accounts
begin

text \<open>
  The transactions on accounts side by side: each request runs its transactions one after the other, and those
  of different requests interleave in any order, with any clock values and generated ids. A state is reached
  from empty tables by any sequence of transactions. The lookup of a credential and the update of its last use
  are one operation here, and so are the two deletions of expired rows; nothing reads what they write.
\<close>

section \<open>Transactions as operations\<close>

record account_config =
  acf_max_active_agents :: int
  acf_label_key :: "string \<Rightarrow> string"
  acf_hash :: "string \<Rightarrow> string"

datatype account_op =
  AccRegister timestamp register_agent_input
| AccRegisterWithCode timestamp uuid register_agent_input string pioneer_code_use_kind
| AccUseAgentToken timestamp string
| AccDisableAgent uuid
| AccRevokeAgentTokens timestamp uuid
| AccCreateCode timestamp create_pioneer_code_input
| AccRevokeCode timestamp uuid
| AccResolve timestamp "uuid \<times> uuid" resolve_github_human_input
| AccCreateState sign_in_state_row
| AccConsumeState timestamp string string
| AccCompleteSetup timestamp "uuid \<times> uuid" uuid string
| AccCreateSession session_row
| AccUseSession timestamp string
| AccDeleteSession string
| AccDeleteExpired timestamp
| AccGrantAdmin timestamp uuid uuid uuid
| AccRevokeAdmin timestamp uuid uuid
| AccCreateAdminToken timestamp create_token_input
| AccRevokeAdminToken timestamp uuid uuid
| AccUseAdminToken timestamp string
| AccCreateCreatorToken timestamp create_token_input
| AccRevokeCreatorToken timestamp uuid uuid
| AccUseCreatorToken timestamp string
| AccDeleteAccount timestamp uuid

definition commit :: "'a atx \<Rightarrow> accounts \<Rightarrow> accounts" where
  "commit t db = snd (transact t db)"

lemma commit_cases: "commit t db = db \<or> (\<exists>x. t db = Inr (x, commit t db))"
  by (cases "t db") (auto simp: commit_def transact_def)

lemma commit_rule: "P db \<Longrightarrow> (\<And>x db'. t db = Inr (x, db') \<Longrightarrow> P db') \<Longrightarrow> P (commit t db)"
  using commit_cases [of t db] by metis

text \<open>\<open>disable_agent\<close> is two statements of their own, so it is two operations here.\<close>

fun run_account_op :: "account_config \<Rightarrow> account_op \<Rightarrow> accounts \<Rightarrow> accounts" where
  "run_account_op cf (AccRegister now inp) db = commit (register_agent now inp (acf_max_active_agents cf)) db"
| "run_account_op cf (AccRegisterWithCode now use_id inp h kind) db =
     commit (register_agent_with_pioneer_code now use_id inp h kind (acf_max_active_agents cf)) db"
| "run_account_op cf (AccUseAgentToken now token) db = snd (authenticate_agent_token (acf_hash cf) now token db)"
| "run_account_op cf (AccDisableAgent a) db = commit (disable_agent_status a) db"
| "run_account_op cf (AccRevokeAgentTokens now a) db = revoke_agent_tokens now a db"
| "run_account_op cf (AccCreateCode now inp) db = commit (create_pioneer_code now inp) db"
| "run_account_op cf (AccRevokeCode now c) db = commit (revoke_pioneer_code now c) db"
| "run_account_op cf (AccResolve now rids inp) db = commit (resolve_github_human_tx now rids inp) db"
| "run_account_op cf (AccCreateState st) db = commit (create_github_sign_in_state st) db"
| "run_account_op cf (AccConsumeState now s n) db = snd (consume_github_sign_in_state now s n db)"
| "run_account_op cf (AccCompleteSetup now ids h code) db = commit (complete_human_setup_tx now ids h code) db"
| "run_account_op cf (AccCreateSession s) db = commit (create_human_session s) db"
| "run_account_op cf (AccUseSession now token) db = snd (authenticate_human_session (acf_hash cf) now token db)"
| "run_account_op cf (AccDeleteSession token) db = delete_human_session_by_token (acf_hash cf) token db"
| "run_account_op cf (AccDeleteExpired now) db = delete_expired_web_auth_rows now db"
| "run_account_op cf (AccGrantAdmin now rid h g) db = commit (grant_admin_role_tx now rid h g) db"
| "run_account_op cf (AccRevokeAdmin now h g) db = commit (revoke_admin_role_tx now h g) db"
| "run_account_op cf (AccCreateAdminToken now inp) db = commit (create_admin_service_token (acf_label_key cf) now inp) db"
| "run_account_op cf (AccRevokeAdminToken now t h) db = commit (revoke_admin_service_token now t h) db"
| "run_account_op cf (AccUseAdminToken now h) db = snd (authenticate_admin_service_token now h db)"
| "run_account_op cf (AccCreateCreatorToken now inp) db = commit (create_creator_api_token (acf_label_key cf) now inp) db"
| "run_account_op cf (AccRevokeCreatorToken now h t) db = commit (revoke_creator_api_token now h t) db"
| "run_account_op cf (AccUseCreatorToken now h) db = snd (authenticate_creator_api_token now h db)"
| "run_account_op cf (AccDeleteAccount now h) db = commit (delete_human_account now h) db"

inductive account_reach :: "account_config \<Rightarrow> accounts \<Rightarrow> bool" for cf where
  Start: "account_reach cf no_accounts"
| Step: "account_reach cf db \<Longrightarrow> account_reach cf (run_account_op cf op db)"

lemma account_reach_run: "account_reach cf db \<Longrightarrow> account_reach cf (fold (run_account_op cf) ops db)"
  by (induction ops arbitrary: db) (auto intro: account_reach.Step)

section \<open>Which tables a transaction changes\<close>

lemma grant_role_frame: "grant_role_tx now rid h r g db = Inr (u, db') \<Longrightarrow> \<exists>rs. db' = db\<lparr>ac_roles := rs\<rparr>"
  by (auto simp: grant_role_tx_def and_then_eq_Inr split: if_splits intro: exI [of _ "ac_roles db"])

lemma consume_human_frame:
  "consume_pioneer_code_for_human_tx now use_id h human db = Inr (u, db') \<Longrightarrow> \<exists>us cs. db' = db\<lparr>ac_uses := us, ac_codes := cs\<rparr>"
  by (auto simp: consume_pioneer_code_for_human_tx_def insert_code_use_def increment_use_count_def and_then_eq_Inr split: option.splits if_splits)

definition agent_tables :: "accounts \<Rightarrow> registered_agent_row list \<times> agent_token_row list \<times> pioneer_code_row list \<times> code_use_row list" where
  "agent_tables db = (ac_agents db, ac_agent_tokens db, ac_codes db, ac_uses db)"

fun touches_agents :: "account_op \<Rightarrow> bool" where
  "touches_agents (AccRegister now inp) = True"
| "touches_agents (AccRegisterWithCode now u inp h k) = True"
| "touches_agents (AccUseAgentToken now token) = True"
| "touches_agents (AccDisableAgent a) = True"
| "touches_agents (AccRevokeAgentTokens now a) = True"
| "touches_agents (AccCreateCode now inp) = True"
| "touches_agents (AccRevokeCode now c) = True"
| "touches_agents (AccCompleteSetup now ids h code) = True"
| "touches_agents _ = False"

lemma resolve_frame:
  assumes "resolve_github_human_tx now rids inp db = Inr (h, db')"
  shows "agent_tables db' = agent_tables db"
  using assms
  by (auto simp: resolve_github_human_tx_def agent_tables_def and_then_eq_Inr Let_def activate_human_tx_def insert_human_tx_def
      insert_github_identity_tx_def dest!: grant_role_frame split: option.splits if_splits)

lemma commit_agent_tables: "(\<And>x db'. t db = Inr (x, db') \<Longrightarrow> agent_tables db' = agent_tables db) \<Longrightarrow> agent_tables (commit t db) = agent_tables db"
  by (rule commit_rule) auto

lemma run_account_op_frame: "\<not> touches_agents op \<Longrightarrow> agent_tables (run_account_op cf op db) = agent_tables db"
proof (cases op)
  case (AccResolve now rids inp)
  then show ?thesis by (simp, intro commit_agent_tables) (auto simp: resolve_frame)
next
  case (AccGrantAdmin now rid h g)
  then show ?thesis by (simp, intro commit_agent_tables) (auto simp: grant_admin_role_tx_def Let_def and_then_eq_Inr agent_tables_def dest: grant_role_frame)
next
  case (AccRevokeAdmin now h g)
  then show ?thesis by (simp, intro commit_agent_tables) (auto simp: revoke_admin_role_tx_def revoke_admin_service_tokens_created_by_human_tx_def Let_def and_then_eq_Inr agent_tables_def)
next
  case (AccCreateAdminToken now inp)
  then show ?thesis by (simp, intro commit_agent_tables) (auto simp: create_admin_service_token_def Let_def and_then_eq_Inr agent_tables_def)
next
  case (AccCreateCreatorToken now inp)
  then show ?thesis by (simp, intro commit_agent_tables) (auto simp: create_creator_api_token_def Let_def and_then_eq_Inr agent_tables_def)
next
  case (AccDeleteAccount now h)
  then show ?thesis by (simp, intro commit_agent_tables) (auto simp: delete_human_account_def revoke_admin_service_tokens_created_by_human_tx_def Let_def and_then_eq_Inr agent_tables_def)
next
  case (AccCreateSession s)
  then show ?thesis by (simp, intro commit_agent_tables) (auto simp: create_human_session_def and_then_eq_Inr agent_tables_def)
next
  case (AccCreateState st)
  then show ?thesis by (simp, intro commit_agent_tables) (auto simp: create_github_sign_in_state_def agent_tables_def split: if_splits)
next
  case (AccRevokeAdminToken now t h)
  then show ?thesis by (simp, intro commit_agent_tables) (auto simp: revoke_admin_service_token_def agent_tables_def split: if_splits)
next
  case (AccRevokeCreatorToken now h t)
  then show ?thesis by (simp, intro commit_agent_tables) (auto simp: revoke_creator_api_token_def agent_tables_def split: if_splits)
qed (auto simp: agent_tables_def consume_github_sign_in_state_def authenticate_human_session_def delete_human_session_by_token_def
    delete_expired_web_auth_rows_def authenticate_admin_service_token_def authenticate_creator_api_token_def Let_def split: option.split)

end
