(* ===== verification/Account_People.thy ===== *)
theory Account_People
  imports Account_Invariants
begin

text \<open>
  Humans over time: keys and references of their tables, what a transaction may do to a human, and when an
  active administrator remains.
\<close>

section \<open>The tables\<close>

definition role_live :: "role_row \<Rightarrow> bool" where
  "role_live r = (ro_revoked_at r = None)"

definition roles_ok :: "role_row list \<Rightarrow> bool" where
  "roles_ok rs = distinct (map (\<lambda>r. (ro_human r, ro_role r)) (filter role_live rs))"

definition people_ok :: "accounts \<Rightarrow> bool" where
  "people_ok db =
     (pk_ok pe_id (ac_people db) \<and> pk_ok xi_human (ac_identities db) \<and> pk_ok xi_github_user_id (ac_identities db)
      \<and> (\<forall>x \<in> set (ac_identities db). xi_human x \<in> pe_id ` set (ac_people db)) \<and> roles_ok (ac_roles db))"

definition human_tables :: "accounts \<Rightarrow> person_row list \<times> identity_row list \<times> role_row list" where
  "human_tables db = (ac_people db, ac_identities db, ac_roles db)"

lemma people_ok_tables: "human_tables db' = human_tables db \<Longrightarrow> people_ok db' = people_ok db"
  by (simp add: human_tables_def people_ok_def)

lemma has_role_iff: "has_role db h r \<longleftrightarrow> (\<exists>x \<in> set (ac_roles db). ro_human x = h \<and> ro_role x = r \<and> role_live x)"
  by (simp add: has_role_def role_live_def)

lemma person_exists_iff: "person_exists db h \<longleftrightarrow> h \<in> pe_id ` set (ac_people db)"
  by (auto simp: person_exists_def)

lemma human_active_iff: "human_active db h \<longleftrightarrow> (\<exists>p \<in> set (ac_people db). pe_id p = h \<and> pe_status p = HumanActive)"
  by (simp add: human_active_def)

lemma person_by_id_iff: "people_ok db \<Longrightarrow> person_by_id h (ac_people db) = Some p \<longleftrightarrow> p \<in> set (ac_people db) \<and> pe_id p = h"
  using person_tbl.lookup_iff [of "ac_people db"] by (simp add: people_ok_def)

text \<open>What can happen to a human: rows stay, identities stay bound, and deletion is final.\<close>

definition continues :: "accounts \<Rightarrow> accounts \<Rightarrow> bool" where
  "continues db db' =
     ((\<forall>p \<in> set (ac_people db). \<exists>q \<in> set (ac_people db'). pe_id q = pe_id p \<and> (pe_status p = HumanDeleted \<longrightarrow> pe_status q = HumanDeleted))
      \<and> (\<forall>x \<in> set (ac_identities db). \<exists>y \<in> set (ac_identities db'). xi_human y = xi_human x \<and> xi_github_user_id y = xi_github_user_id x))"

lemma continues_refl: "human_tables db' = human_tables db \<Longrightarrow> continues db db'"
  by (auto simp: continues_def human_tables_def)

lemma continues_trans: "continues a b \<Longrightarrow> continues b c \<Longrightarrow> continues a c"
  unfolding continues_def by (intro conjI ballI) (metis (no_types, lifting))+

section \<open>Administrators\<close>

definition admins :: "accounts \<Rightarrow> uuid set" where
  "admins db = {h. human_active db h \<and> has_role db h RoleAdmin}"

lemma length_filter_product: "length (filter (\<lambda>(x, y). A x \<and> B y) (List.product xs ys)) = length (filter A xs) * length (filter B ys)"
proof (induction xs)
  case (Cons x xs)
  have "filter (\<lambda>(a, b). A a \<and> B b) (map (Pair x) ys) = (if A x then map (Pair x) (filter B ys) else [])"
    by (induction ys) auto
  then show ?case using Cons by simp
qed simp

lemma length_filter_le_if: "(\<And>x. x \<in> set xs \<Longrightarrow> P x \<Longrightarrow> Q x) \<Longrightarrow> length (filter P xs) \<le> length (filter Q xs)"
  by (induction xs) auto

lemma distinct_key_length: "distinct (map f xs) \<Longrightarrow> length (filter (\<lambda>x. f x = k) xs) \<le> 1"
proof (induction xs)
  case (Cons x xs)
  have "filter (\<lambda>y. f y = k) xs = []" if "f x = k" using Cons.prems that by (induction xs) auto
  then show ?case using Cons by auto
qed simp

lemma sql_count_pos: "0 < sql_count P tbl \<longleftrightarrow> (\<exists>x \<in> set tbl. P x)"
  unfolding sql_count_def by (induction tbl) auto

lemma active_admin_exists: "active_admin_exists_tx db \<longleftrightarrow> admins db \<noteq> {}"
proof -
  have "active_admin_exists_tx db \<longleftrightarrow> (\<exists>r \<in> set (ac_roles db). \<exists>p \<in> set (ac_people db).
      ro_role r = RoleAdmin \<and> ro_revoked_at r = None \<and> pe_id p = ro_human r \<and> pe_status p = HumanActive)"
    unfolding active_admin_exists_tx_def active_admin_count_tx_def sql_count_pos by (simp add: Bex_def) blast
  moreover have "admins db \<noteq> {} \<longleftrightarrow> (\<exists>r \<in> set (ac_roles db). \<exists>p \<in> set (ac_people db).
      ro_role r = RoleAdmin \<and> ro_revoked_at r = None \<and> pe_id p = ro_human r \<and> pe_status p = HumanActive)"
    unfolding admins_def human_active_iff has_role_iff role_live_def by (simp add: Bex_def) metis
  ultimately show ?thesis by simp
qed

lemma another_admin:
  assumes ok: "people_ok db" and two: "\<not> active_admin_count_tx db \<le> 1"
  shows "\<exists>h' \<in> admins db. h' \<noteq> h"
proof (rule ccontr)
  assume "\<not> ?thesis"
  then have only: "\<And>h'. h' \<in> admins db \<Longrightarrow> h' = h" by blast
  let ?pairs = "List.product (ac_roles db) (ac_people db)"
  let ?admin = "\<lambda>(r, p). ro_role r = RoleAdmin \<and> ro_revoked_at r = None \<and> pe_id p = ro_human r \<and> pe_status p = HumanActive"
  let ?A = "\<lambda>r. role_live r \<and> (ro_human r, ro_role r) = (h, RoleAdmin)"
  have "length (filter ?admin ?pairs) \<le> length (filter (\<lambda>(r, p). ?A r \<and> pe_id p = h) ?pairs)"
  proof (rule length_filter_le_if)
    fix x assume x: "x \<in> set ?pairs" "?admin x"
    obtain r p where rp: "x = (r, p)" by force
    then have "ro_human r \<in> admins db" using x by (auto simp: admins_def human_active_iff has_role_iff role_live_def)
    then have "ro_human r = h" by (rule only)
    then show "(\<lambda>(r, p). ?A r \<and> pe_id p = h) x" using x(2) rp by (simp add: role_live_def)
  qed
  also have "\<dots> = length (filter ?A (ac_roles db)) * length (filter (\<lambda>p. pe_id p = h) (ac_people db))" by (rule length_filter_product)
  also have "\<dots> \<le> 1 * 1"
  proof (rule mult_le_mono)
    have "filter ?A (ac_roles db) = filter (\<lambda>r. (ro_human r, ro_role r) = (h, RoleAdmin)) (filter role_live (ac_roles db))"
      by (induction "ac_roles db") (auto intro: filter_cong)
    then show "length (filter ?A (ac_roles db)) \<le> 1"
      using distinct_key_length [of "\<lambda>r. (ro_human r, ro_role r)" "filter role_live (ac_roles db)" "(h, RoleAdmin)"] ok
      by (simp add: people_ok_def roles_ok_def)
    show "length (filter (\<lambda>p. pe_id p = h) (ac_people db)) \<le> 1"
      using ok by (intro distinct_key_length) (simp add: people_ok_def pk_ok_def)
  qed
  finally show False using two by (simp add: active_admin_count_tx_def sql_count_def)
qed

section \<open>Every transaction keeps them\<close>

text \<open>What one transaction may do: keep the tables sound, let humans continue, and leave an administrator.\<close>

definition keeps_people :: "accounts \<Rightarrow> accounts \<Rightarrow> bool" where
  "keeps_people db db' = (people_ok db' \<and> continues db db')"

lemma keeps_people_same: "people_ok db \<Longrightarrow> human_tables db' = human_tables db \<Longrightarrow> keeps_people db db'"
  unfolding keeps_people_def using people_ok_tables [of db' db] continues_refl [of db' db] by blast

lemma keeps_people_trans: "keeps_people a b \<Longrightarrow> keeps_people b c \<Longrightarrow> keeps_people a c"
  unfolding keeps_people_def by (elim conjE, intro conjI) (assumption, rule continues_trans)

lemma admins_same: "human_tables db' = human_tables db \<Longrightarrow> admins db' = admins db"
  unfolding admins_def human_active_iff has_role_iff human_tables_def prod.inject by (elim conjE) (simp only:)

lemma roles_ok_insert: "roles_ok rs \<Longrightarrow> (\<forall>x \<in> set rs. role_live x \<longrightarrow> (ro_human x, ro_role x) \<noteq> (ro_human r, ro_role r)) \<Longrightarrow> roles_ok (sql_insert r rs)"
  by (auto simp: roles_ok_def sql_insert_def)

lemma roles_ok_revoke:
  assumes "roles_ok rs" and "\<And>r. \<not> role_live (f r)"
  shows "roles_ok (sql_update P f rs)"
proof -
  have eq: "filter role_live (sql_update P f rs) = filter (\<lambda>r. \<not> P r) (filter role_live rs)"
    unfolding sql_update_def using assms(2) by (induction rs) auto
  show ?thesis using assms(1) unfolding roles_ok_def eq by (rule distinct_map_filter)
qed

text \<open>A change of status keeps ids; it must leave the deleted alone.\<close>

lemma keeps_status:
  assumes ok: "people_ok db" and f: "\<And>p. pe_id (f p) = pe_id p" "\<And>p. P p \<Longrightarrow> pe_status p = HumanDeleted \<Longrightarrow> pe_status (f p) = HumanDeleted"
  shows "keeps_people db (db\<lparr>ac_people := sql_update P f (ac_people db)\<rparr>)"
proof -
  have "pe_id ` set (sql_update P f (ac_people db)) = pe_id ` set (ac_people db)" by (rule ids_update) (rule f(1))
  moreover have "pk_ok pe_id (sql_update P f (ac_people db))" using ok f(1) by (intro pk_ok_update) (simp_all add: people_ok_def)
  ultimately have "people_ok (db\<lparr>ac_people := sql_update P f (ac_people db)\<rparr>)" using ok by (simp add: people_ok_def)
  moreover have "\<exists>q \<in> set (sql_update P f (ac_people db)). pe_id q = pe_id p \<and> (pe_status p = HumanDeleted \<longrightarrow> pe_status q = HumanDeleted)"
    if "p \<in> set (ac_people db)" for p
  proof
    show "(if P p then f p else p) \<in> set (sql_update P f (ac_people db))" using that by (auto simp: sql_update_def)
  qed (use f in auto)
  ultimately show ?thesis by (auto simp: keeps_people_def continues_def)
qed

lemma keeps_logins:
  assumes ok: "people_ok db" and f: "\<And>x. xi_human (f x) = xi_human x" "\<And>x. xi_github_user_id (f x) = xi_github_user_id x"
  shows "keeps_people db (db\<lparr>ac_identities := sql_update P f (ac_identities db)\<rparr>)"
proof -
  have "xi_human ` set (sql_update P f (ac_identities db)) = xi_human ` set (ac_identities db)" by (rule ids_update) (rule f(1))
  then have "\<forall>x \<in> set (sql_update P f (ac_identities db)). xi_human x \<in> pe_id ` set (ac_people db)"
    using ok unfolding people_ok_def by (metis (no_types, lifting) image_iff)
  moreover have "pk_ok xi_human (sql_update P f (ac_identities db))" "pk_ok xi_github_user_id (sql_update P f (ac_identities db))"
    using ok f by (auto intro!: pk_ok_update simp: people_ok_def)
  ultimately have "people_ok (db\<lparr>ac_identities := sql_update P f (ac_identities db)\<rparr>)" using ok by (simp add: people_ok_def)
  moreover have "\<exists>y \<in> set (sql_update P f (ac_identities db)). xi_human y = xi_human x \<and> xi_github_user_id y = xi_github_user_id x"
    if "x \<in> set (ac_identities db)" for x
  proof
    show "(if P x then f x else x) \<in> set (sql_update P f (ac_identities db))" using that by (auto simp: sql_update_def)
  qed (use f in auto)
  ultimately show ?thesis by (auto simp: keeps_people_def continues_def)
qed

lemma keeps_revoked_roles:
  assumes "people_ok db" and "\<And>r. \<not> role_live (f r)"
  shows "keeps_people db (db\<lparr>ac_roles := sql_update P f (ac_roles db)\<rparr>)"
  using assms roles_ok_revoke by (auto simp: keeps_people_def people_ok_def continues_def)

lemma grant_cases:
  assumes "grant_role_tx now rid h r g db = Inr (u, db')"
  obtains (same) "has_role db h r" "db' = db"
  | (new) "\<not> has_role db h r" "db' = db\<lparr>ac_roles := sql_insert \<lparr>ro_id = rid, ro_human = h, ro_role = r, ro_granted_by = g,
      ro_granted_at = now, ro_revoked_by = None, ro_revoked_at = None\<rparr> (ac_roles db)\<rparr>"
  using assms by (cases "has_role db h r") (auto simp: grant_role_tx_def and_then_eq_Inr)

lemma grant_has_role:
  assumes "grant_role_tx now rid h r g db = Inr (u, db')"
  shows "has_role db' k s \<longleftrightarrow> has_role db k s \<or> k = h \<and> s = r"
  using assms by (cases rule: grant_cases) (auto simp: has_role_iff role_live_def)

lemma keeps_grant:
  assumes ok: "people_ok db" and run: "grant_role_tx now rid h r g db = Inr (u, db')"
  shows "keeps_people db db'"
  using run
proof (cases rule: grant_cases)
  case same
  then show ?thesis using ok by (simp add: keeps_people_same)
next
  case new
  have "roles_ok (ac_roles db')"
    unfolding new(2) using ok new(1) by (simp, intro roles_ok_insert) (auto simp: people_ok_def has_role_iff)
  then have "people_ok db'" using ok by (simp add: people_ok_def new(2))
  moreover have "continues db db'" by (auto simp: continues_def new(2))
  ultimately show ?thesis by (simp add: keeps_people_def)
qed

lemma keeps_activate:
  assumes "people_ok db"
  shows "keeps_people db (activate_human_tx h db)"
  unfolding activate_human_tx_def by (rule keeps_status [OF assms]) auto

lemma keeps_new_human:
  assumes ok: "people_ok db" and h: "insert_human_tx now h st db = Inr (u, db1)" and x: "insert_github_identity_tx now h g login db1 = Inr (v, db2)"
  shows "keeps_people db db2" and "ac_roles db2 = ac_roles db" and "person_exists db2 h"
    and "\<And>p. p \<in> set (ac_people db2) \<longleftrightarrow> p \<in> set (ac_people db) \<or> p = \<lparr>pe_id = h, pe_status = st, pe_created_at = now, pe_disabled_at = None, pe_deleted_at = None\<rparr>"
    and "\<not> person_exists db h"
proof -
  have new: "h \<notin> pe_id ` set (ac_people db)"
    and db1: "db1 = db\<lparr>ac_people := sql_insert \<lparr>pe_id = h, pe_status = st, pe_created_at = now, pe_disabled_at = None, pe_deleted_at = None\<rparr> (ac_people db)\<rparr>"
    using h by (auto simp: insert_human_tx_def person_exists_iff split: if_splits)
  from x have db2: "db2 = db1\<lparr>ac_identities := sql_insert \<lparr>xi_human = h, xi_github_user_id = g, xi_login = trim login, xi_updated_at = now\<rparr> (ac_identities db1)\<rparr>"
    and uniq: "\<forall>y \<in> set (ac_identities db). xi_human y \<noteq> h \<and> xi_github_user_id y \<noteq> g"
    by (auto simp: insert_github_identity_tx_def and_then_eq_Inr no_violation_ok db1)
  have "pk_ok pe_id (ac_people db2)" unfolding db2 db1 using ok new by (auto intro!: pk_ok_insert simp: people_ok_def)
  moreover have "pk_ok xi_human (ac_identities db2)" "pk_ok xi_github_user_id (ac_identities db2)"
    unfolding db2 db1 using ok uniq by (auto intro!: pk_ok_insert simp: people_ok_def)
  ultimately show "keeps_people db db2" using ok by (auto simp: keeps_people_def people_ok_def continues_def db2 db1)
  show "ac_roles db2 = ac_roles db" "person_exists db2 h" by (simp_all add: db2 db1 person_exists_iff)
  show "p \<in> set (ac_people db2) \<longleftrightarrow> p \<in> set (ac_people db) \<or> p = \<lparr>pe_id = h, pe_status = st, pe_created_at = now, pe_disabled_at = None, pe_deleted_at = None\<rparr>" for p
    by (auto simp: db2 db1)
  show "\<not> person_exists db h" using new by (simp add: person_exists_iff)
qed

text \<open>Most transactions also keep every administrator.\<close>

definition keeps_admins :: "accounts \<Rightarrow> accounts \<Rightarrow> bool" where
  "keeps_admins db db' = (keeps_people db db' \<and> admins db \<subseteq> admins db')"

lemma keeps_admins_same: "people_ok db \<Longrightarrow> human_tables db' = human_tables db \<Longrightarrow> keeps_admins db db'"
  unfolding keeps_admins_def using keeps_people_same [of db db'] admins_same [of db' db] by blast

lemma keeps_admins_trans: "keeps_admins a b \<Longrightarrow> keeps_admins b c \<Longrightarrow> keeps_admins a c"
  unfolding keeps_admins_def using keeps_people_trans [of a b c] by blast

lemma keeps_admins_ok: "keeps_admins a b \<Longrightarrow> people_ok b"
  by (simp add: keeps_admins_def keeps_people_def)

lemma keeps_admins_grant:
  assumes "people_ok db" and "grant_role_tx now rid h r g db = Inr (u, db')"
  shows "keeps_admins db db'"
proof -
  have "ac_people db' = ac_people db" using grant_role_frame [OF assms(2)] by auto
  then have "admins db \<subseteq> admins db'" unfolding admins_def human_active_iff using grant_has_role [OF assms(2)] by auto
  then show ?thesis using keeps_grant [OF assms] by (simp add: keeps_admins_def)
qed

lemma bex_sql_update: "(\<exists>y \<in> set (sql_update P f t). Q y) \<longleftrightarrow> (\<exists>x \<in> set t. Q (if P x then f x else x))"
  unfolding sql_update_def set_map bex_simps ..

lemma keeps_admins_activate:
  assumes "people_ok db"
  shows "keeps_admins db (activate_human_tx h db)"
proof -
  have "admins db \<subseteq> admins (activate_human_tx h db)"
    unfolding admins_def human_active_iff has_role_iff activate_human_tx_def by (auto simp: bex_sql_update)
  then show ?thesis using keeps_activate [OF assms] by (simp add: keeps_admins_def)
qed

lemma keeps_admins_login:
  assumes "people_ok db"
  shows "keeps_admins db (db\<lparr>ac_identities := sql_update P (\<lambda>x. x\<lparr>xi_login := l, xi_updated_at := now\<rparr>) (ac_identities db)\<rparr>)"
  using keeps_logins [OF assms, of "\<lambda>x. x\<lparr>xi_login := l, xi_updated_at := now\<rparr>" P]
  by (simp add: keeps_admins_def admins_def human_active_iff has_role_iff)

lemma keeps_admins_new_human:
  assumes "people_ok db" and "insert_human_tx now h st db = Inr (u, db1)" and "insert_github_identity_tx now h g login db1 = Inr (v, db2)"
  shows "keeps_admins db db2"
proof -
  note n = keeps_new_human [OF assms]
  have "admins db \<subseteq> admins db2" unfolding admins_def human_active_iff has_role_iff n(2) using n(4) by blast
  then show ?thesis using n(1) by (simp add: keeps_admins_def)
qed

lemma keeps_admins_lock:
  assumes "people_ok db"
  shows "keeps_admins db (lock_account_scope s db)"
  by (rule keeps_admins_same [OF assms]) (simp add: human_tables_def)

lemma resolve_grows:
  assumes ok: "people_ok db" and run: "resolve_github_human_tx now rids inp db = Inr (h, db')"
  shows "keeps_admins db db'"
proof (cases "find_github_human_for_update_tx (rgh_github_user_id inp) db")
  case (Some e)
  then obtain db4 where step: "(if rgh_bootstrap_admin_candidate inp
             then (let db1 = lock_bootstrap_admin_scope_tx db
                   in if \<not> active_admin_exists_tx db1
                      then (let db2 = activate_human_tx (hm_human_id e) db1
                            in and_then (grant_role_tx now (fst rids) (hm_human_id e) RoleCreator None db2) (\<lambda>(_, db3).
                               grant_role_tx now (snd rids) (hm_human_id e) RoleAdmin None db3))
                      else Inr ((), db1))
             else Inr ((), db)) = Inr ((), db4)"
    and db': "db' = db4\<lparr>ac_identities := sql_update (\<lambda>x. xi_github_user_id x = rgh_github_user_id inp)
            (\<lambda>x. x\<lparr>xi_login := trim (rgh_github_login inp), xi_updated_at := now\<rparr>) (ac_identities db4)\<rparr>"
    using run unfolding resolve_github_human_tx_def by (simp add: and_then_eq_Inr) blast
  let ?db1 = "lock_bootstrap_admin_scope_tx db"
  have lock: "keeps_admins db ?db1" by (rule keeps_admins_lock [OF ok])
  have act: "keeps_admins db (activate_human_tx (hm_human_id e) ?db1)"
    by (rule keeps_admins_trans [OF lock]) (rule keeps_admins_activate [OF keeps_admins_ok [OF lock]])
  have "keeps_admins db db4"
  proof (cases "rgh_bootstrap_admin_candidate inp \<and> \<not> active_admin_exists_tx ?db1")
    case True
    then obtain db3 where one: "grant_role_tx now (fst rids) (hm_human_id e) RoleCreator None (activate_human_tx (hm_human_id e) ?db1) = Inr ((), db3)"
      and two: "grant_role_tx now (snd rids) (hm_human_id e) RoleAdmin None db3 = Inr ((), db4)"
      using step by (auto simp: Let_def and_then_eq_Inr)
    have "keeps_admins db db3" by (rule keeps_admins_trans [OF act]) (rule keeps_admins_grant [OF keeps_admins_ok [OF act] one])
    then show ?thesis using keeps_admins_grant [OF keeps_admins_ok two] keeps_admins_trans by blast
  next
    case False
    then have "db4 = ?db1 \<or> db4 = db" using step by (auto simp: Let_def split: if_splits)
    then show ?thesis using lock keeps_admins_same [OF ok, of db] by auto
  qed
  then show ?thesis unfolding db' using keeps_admins_login [OF keeps_admins_ok] keeps_admins_trans by blast
next
  case None
  let ?db1 = "if rgh_bootstrap_admin_candidate inp then lock_bootstrap_admin_scope_tx db else db"
  let ?b = "rgh_bootstrap_admin_candidate inp \<and> \<not> active_admin_exists_tx ?db1"
  let ?h = "rgh_fallback_human_id inp"
  from run None obtain db2 where ins: "insert_human_tx now ?h (if ?b then HumanActive else HumanSetupRequired) ?db1 = Inr ((), db2)"
    and rest: "and_then (insert_github_identity_tx now ?h (rgh_github_user_id inp) (rgh_github_login inp) db2) (\<lambda>(_, db3).
       and_then (if ?b then and_then (grant_role_tx now (fst rids) ?h RoleCreator None db3) (\<lambda>(_, db4). grant_role_tx now (snd rids) ?h RoleAdmin None db4)
         else Inr ((), db3)) (\<lambda>(_, db5). Inr (?h, db5))) = Inr (h, db')"
    unfolding resolve_github_human_tx_def Let_def by (simp only: option.case and_then_eq_Inr split: prod.splits) auto
  from rest obtain db3 where link: "insert_github_identity_tx now ?h (rgh_github_user_id inp) (rgh_github_login inp) db2 = Inr ((), db3)"
    and rest2: "and_then (if ?b then and_then (grant_role_tx now (fst rids) ?h RoleCreator None db3) (\<lambda>(_, db4). grant_role_tx now (snd rids) ?h RoleAdmin None db4)
         else Inr ((), db3)) (\<lambda>(_, db5). Inr (?h, db5)) = Inr (h, db')"
    unfolding and_then_eq_Inr [of "insert_github_identity_tx _ _ _ _ _"] by auto
  from rest2 have roles: "(if ?b then and_then (grant_role_tx now (fst rids) ?h RoleCreator None db3) (\<lambda>(_, db4). grant_role_tx now (snd rids) ?h RoleAdmin None db4)
       else Inr ((), db3)) = Inr ((), db')"
    unfolding and_then_eq_Inr [of _ "\<lambda>(_, db5). Inr (?h, db5)"] by auto
  have lock: "keeps_admins db ?db1" using keeps_admins_lock [OF ok] keeps_admins_same [OF ok, of db] by simp
  have new: "keeps_admins db db3" by (rule keeps_admins_trans [OF lock]) (rule keeps_admins_new_human [OF keeps_admins_ok [OF lock] ins link])
  show ?thesis
  proof (cases ?b)
    case True
    then obtain db4 where one: "grant_role_tx now (fst rids) ?h RoleCreator None db3 = Inr ((), db4)"
      and two: "grant_role_tx now (snd rids) ?h RoleAdmin None db4 = Inr ((), db')"
      using roles by (auto simp: and_then_eq_Inr)
    have "keeps_admins db db4" by (rule keeps_admins_trans [OF new]) (rule keeps_admins_grant [OF keeps_admins_ok [OF new] one])
    then show ?thesis using keeps_admins_grant [OF keeps_admins_ok two] keeps_admins_trans by blast
  next
    case False
    then have "db' = db3" using roles by (simp split: if_splits)
    then show ?thesis using new by simp
  qed
qed

lemma setup_grows:
  assumes ok: "people_ok db" and run: "complete_human_setup_tx now ids h code db = Inr (u, db')"
  shows "keeps_admins db db'"
proof (cases "db' = db")
  case True
  then show ?thesis using keeps_admins_same [OF ok] by simp
next
  case False
  then obtain db1 where use: "consume_pioneer_code_for_human_tx now (fst ids) code h db = Inr ((), db1)"
    and grant: "grant_role_tx now (snd ids) h RoleCreator None (activate_human_tx h db1) = Inr ((), db')"
    using run by (auto simp: complete_human_setup_tx_def and_then_eq_Inr split: if_splits)
  have "human_tables db1 = human_tables db" using consume_human_frame [OF use] by (auto simp: human_tables_def)
  then have one: "keeps_admins db db1" by (rule keeps_admins_same [OF ok])
  have two: "keeps_admins db (activate_human_tx h db1)" by (rule keeps_admins_trans [OF one]) (rule keeps_admins_activate [OF keeps_admins_ok [OF one]])
  show ?thesis by (rule keeps_admins_trans [OF two]) (rule keeps_admins_grant [OF keeps_admins_ok [OF two] grant])
qed

lemma grant_admin_grows:
  assumes ok: "people_ok db" and run: "grant_admin_role_tx now rid h g db = Inr (u, db')"
  shows "keeps_admins db db'"
proof -
  have lock: "keeps_admins db (lock_bootstrap_admin_scope_tx db)" by (rule keeps_admins_lock [OF ok])
  have "grant_role_tx now rid h RoleAdmin (Some g) (lock_bootstrap_admin_scope_tx db) = Inr (u, db')"
    using run by (auto simp: grant_admin_role_tx_def Let_def and_then_eq_Inr)
  then show ?thesis using keeps_admins_trans [OF lock] keeps_admins_grant [OF keeps_admins_ok [OF lock]] by blast
qed

section \<open>Transactions that take administrators away\<close>

text \<open>The two that look for another administrator first leave one behind.\<close>

lemma active_admin_count_lock [simp]: "active_admin_count_tx (lock_account_scope s db) = active_admin_count_tx db"
  by (simp add: active_admin_count_tx_def)

lemma has_role_lock [simp]: "has_role (lock_account_scope s db) h r = has_role db h r"
  by (simp add: has_role_def)

lemma revoke_role_simps [simp]:
  "ro_revoked_at (revoke_role now g r) = None \<longleftrightarrow> False" "role_live (revoke_role now g r) \<longleftrightarrow> False"
  by (simp_all add: role_live_def revoke_role_def or_else_def split: option.split)

lemma revoke_admin_leaves:
  assumes ok: "people_ok db" and run: "revoke_admin_role_tx now h g db = Inr (u, db')"
  shows "keeps_people db db'" and "admins db' = admins db - {h}" and "admins db' \<noteq> {}"
proof -
  let ?P = "\<lambda>r. ro_human r = h \<and> ro_role r = RoleAdmin \<and> ro_revoked_at r = None"
  have two: "\<not> active_admin_count_tx db \<le> 1"
    and tables: "human_tables db' = human_tables (db\<lparr>ac_roles := sql_update ?P (revoke_role now g) (ac_roles db)\<rparr>)"
    using run by (auto simp: revoke_admin_role_tx_def revoke_admin_service_tokens_created_by_human_tx_def Let_def result_simps human_tables_def)
  have k: "keeps_people db (db\<lparr>ac_roles := sql_update ?P (revoke_role now g) (ac_roles db)\<rparr>)" by (rule keeps_revoked_roles [OF ok]) simp
  then show "keeps_people db db'" using keeps_people_same [OF _ tables] keeps_people_trans unfolding keeps_people_def by blast
  have ap: "ac_people db' = ac_people db" and ar: "ac_roles db' = sql_update ?P (revoke_role now g) (ac_roles db)"
    using tables by (simp_all add: human_tables_def)
  have "has_role db' k RoleAdmin \<longleftrightarrow> has_role db k RoleAdmin \<and> k \<noteq> h" for k
    unfolding has_role_iff ar role_live_def bex_sql_update by (auto split: if_splits)
  then show adm: "admins db' = admins db - {h}" unfolding admins_def human_active_iff ap by auto
  then show "admins db' \<noteq> {}" using another_admin [OF ok two, of h] by blast
qed

lemma delete_leaves:
  assumes ok: "people_ok db" and run: "delete_human_account now h db = Inr (out, db')"
  shows "keeps_people db db'" and "\<exists>p \<in> set (ac_people db'). pe_id p = h \<and> pe_status p = HumanDeleted" and "admins db' = admins db - {h}"
    and "admins db \<noteq> {} \<Longrightarrow> admins db' \<noteq> {}"
proof -
  let ?f = "\<lambda>p. p\<lparr>pe_status := HumanDeleted, pe_deleted_at := or_else (pe_deleted_at p) now, pe_disabled_at := None\<rparr>"
  let ?g = "\<lambda>x. x\<lparr>xi_login := deleted_github_login h, xi_updated_at := now\<rparr>"
  let ?R = "\<lambda>r. ro_human r = h \<and> ro_revoked_at r = None"
  let ?a = "db\<lparr>ac_people := sql_update (\<lambda>p. pe_id p = h) ?f (ac_people db)\<rparr>"
  let ?b = "?a\<lparr>ac_identities := sql_update (\<lambda>x. xi_human x = h) ?g (ac_identities ?a)\<rparr>"
  let ?c = "?b\<lparr>ac_roles := sql_update ?R (revoke_role now h) (ac_roles ?b)\<rparr>"
  have found: "\<exists>p \<in> set (ac_people db). pe_id p = h" and guard: "\<not> (has_role db h RoleAdmin \<and> active_admin_count_tx db \<le> 1)"
    and tables: "human_tables db' = human_tables ?c"
    using run person_tbl.lookup_Some_in [of h "ac_people db"]
    by (auto simp: delete_human_account_def revoke_admin_service_tokens_created_by_human_tx_def Let_def result_simps human_tables_def)
  have a: "keeps_people db ?a" by (rule keeps_status [OF ok]) simp_all
  then have "people_ok ?a" unfolding keeps_people_def by blast
  then have b: "keeps_people ?a ?b" by (rule keeps_logins) simp_all
  then have "people_ok ?b" unfolding keeps_people_def by blast
  then have c: "keeps_people ?b ?c" by (rule keeps_revoked_roles) simp
  have "keeps_people ?c db'" using c keeps_people_same [OF _ tables] unfolding keeps_people_def by blast
  then show "keeps_people db db'" using keeps_people_trans [OF keeps_people_trans [OF a b] c] keeps_people_trans by blast
  have ap: "ac_people db' = sql_update (\<lambda>p. pe_id p = h) ?f (ac_people db)" and ar: "ac_roles db' = sql_update ?R (revoke_role now h) (ac_roles db)"
    using tables by (simp_all add: human_tables_def)
  show "\<exists>p \<in> set (ac_people db'). pe_id p = h \<and> pe_status p = HumanDeleted" unfolding ap bex_sql_update using found by auto
  have "has_role db' k RoleAdmin \<longleftrightarrow> has_role db k RoleAdmin \<and> k \<noteq> h" for k
    unfolding has_role_iff ar role_live_def bex_sql_update by (auto split: if_splits)
  moreover have "human_active db' k \<longleftrightarrow> human_active db k" if "k \<noteq> h" for k
    unfolding human_active_iff ap bex_sql_update using that by (auto split: if_splits)
  ultimately show adm: "admins db' = admins db - {h}" unfolding admins_def by auto
  assume some: "admins db \<noteq> {}"
  show "admins db' \<noteq> {}"
  proof (cases "has_role db h RoleAdmin")
    case True
    then have "\<not> active_admin_count_tx db \<le> 1" using guard by simp
    then show ?thesis using another_admin [OF ok, of h] adm by blast
  next
    case False
    then have "h \<notin> admins db" by (simp add: admins_def)
    then show ?thesis using adm some by simp
  qed
qed

lemma revoke_code_keeps_people:
  assumes ok: "people_ok db" and run: "revoke_pioneer_code now k db = Inr (out, db')"
  shows "keeps_people db db'"
proof -
  let ?hs = "set (humans_of_code k db)"
  let ?a = "db\<lparr>ac_people := sql_update (\<lambda>p. pe_id p \<in> ?hs \<and> pe_status p \<notin> {HumanDisabled, HumanDeleted}) set_up_again (ac_people db)\<rparr>"
  let ?b = "?a\<lparr>ac_roles := sql_update (\<lambda>r. ro_human r \<in> ?hs \<and> ro_role r = RoleCreator \<and> ro_revoked_at r = None)
    (\<lambda>r. r\<lparr>ro_revoked_at := Some now\<rparr>) (ac_roles ?a)\<rparr>"
  have tables: "human_tables db' = human_tables ?b"
    using run by (auto simp: revoke_pioneer_code_def Let_def human_tables_def humans_of_code_def split: if_splits)
  have a: "keeps_people db ?a" by (rule keeps_status [OF ok]) (auto simp: set_up_again_def)
  then have "people_ok ?a" unfolding keeps_people_def by blast
  then have b: "keeps_people ?a ?b" by (rule keeps_revoked_roles) (simp add: role_live_def)
  have "keeps_people ?b db'" using b keeps_people_same [OF _ tables] unfolding keeps_people_def by blast
  then show ?thesis using keeps_people_trans [OF a b] keeps_people_trans by blast
qed

section \<open>Every sequence of transactions\<close>

fun touches_humans :: "account_op \<Rightarrow> bool" where
  "touches_humans (AccRevokeCode now c) = True"
| "touches_humans (AccResolve now rids inp) = True"
| "touches_humans (AccCompleteSetup now ids h code) = True"
| "touches_humans (AccGrantAdmin now rid h g) = True"
| "touches_humans (AccRevokeAdmin now h g) = True"
| "touches_humans (AccDeleteAccount now h) = True"
| "touches_humans _ = False"

lemma commit_human_tables: "(\<And>x db'. t db = Inr (x, db') \<Longrightarrow> human_tables db' = human_tables db) \<Longrightarrow> human_tables (commit t db) = human_tables db"
  by (rule commit_rule) auto

lemma consume_agent_frame:
  "consume_pioneer_code_for_agent_tx now use_id h agent kind db = Inr (u, db') \<Longrightarrow> \<exists>us cs. db' = db\<lparr>ac_uses := us, ac_codes := cs\<rparr>"
  by (auto simp: consume_pioneer_code_for_agent_tx_def insert_code_use_def increment_use_count_def and_then_eq_Inr split: option.splits if_splits)

lemma run_human_frame: "\<not> touches_humans op \<Longrightarrow> human_tables (run_account_op cf op db) = human_tables db"
proof (cases op)
  case (AccRegister now inp)
  then show ?thesis by (simp, intro commit_human_tables) (drule register_ok(5), simp add: human_tables_def)
next
  case (AccRegisterWithCode now use_id inp h kind)
  then show ?thesis by (simp, intro commit_human_tables) (erule register_with_code_ok, simp add: human_tables_def)
next
  case (AccDisableAgent a)
  then show ?thesis by (simp, intro commit_human_tables) (auto simp: disable_agent_status_def human_tables_def split: if_splits)
next
  case (AccCreateCode now inp)
  then show ?thesis by (simp, intro commit_human_tables) (auto simp: create_pioneer_code_def and_then_eq_Inr human_tables_def)
next
  case (AccCreateAdminToken now inp)
  then show ?thesis by (simp, intro commit_human_tables) (auto simp: create_admin_service_token_def Let_def and_then_eq_Inr human_tables_def)
next
  case (AccCreateCreatorToken now inp)
  then show ?thesis by (simp, intro commit_human_tables) (auto simp: create_creator_api_token_def Let_def and_then_eq_Inr human_tables_def)
next
  case (AccCreateSession s)
  then show ?thesis by (simp, intro commit_human_tables) (auto simp: create_human_session_def and_then_eq_Inr human_tables_def)
next
  case (AccCreateState st)
  then show ?thesis by (simp, intro commit_human_tables) (auto simp: create_github_sign_in_state_def human_tables_def split: if_splits)
next
  case (AccRevokeAdminToken now t h)
  then show ?thesis by (simp, intro commit_human_tables) (auto simp: revoke_admin_service_token_def human_tables_def split: if_splits)
next
  case (AccRevokeCreatorToken now h t)
  then show ?thesis by (simp, intro commit_human_tables) (auto simp: revoke_creator_api_token_def human_tables_def split: if_splits)
qed (auto simp: human_tables_def consume_github_sign_in_state_def authenticate_human_session_def delete_human_session_by_token_def
    delete_expired_web_auth_rows_def authenticate_admin_service_token_def authenticate_creator_api_token_def authenticate_agent_token_def
    revoke_agent_tokens_def Let_def split: option.split)

fun removes_admins :: "account_op \<Rightarrow> bool" where
  "removes_admins (AccRevokeCode now c) = True"
| "removes_admins (AccRevokeAdmin now h g) = True"
| "removes_admins (AccDeleteAccount now h) = True"
| "removes_admins _ = False"

lemma commit_grows: "people_ok db \<Longrightarrow> (\<And>x db'. t db = Inr (x, db') \<Longrightarrow> keeps_admins db db') \<Longrightarrow> keeps_admins db (commit t db)"
  by (rule commit_rule) (auto intro: keeps_admins_same)

lemma run_grows:
  assumes ok: "people_ok db" and "\<not> removes_admins op"
  shows "keeps_admins db (run_account_op cf op db)"
proof (cases "touches_humans op")
  case False
  then show ?thesis by (intro keeps_admins_same [OF ok] run_human_frame)
next
  case True
  then show ?thesis using assms(2)
  proof (cases op)
    case (AccResolve now rids inp)
    show ?thesis unfolding AccResolve run_account_op.simps by (rule commit_grows [OF ok]) (rule resolve_grows [OF ok])
  next
    case (AccCompleteSetup now ids h code)
    show ?thesis unfolding AccCompleteSetup run_account_op.simps by (rule commit_grows [OF ok]) (rule setup_grows [OF ok])
  next
    case (AccGrantAdmin now rid h g)
    show ?thesis unfolding AccGrantAdmin run_account_op.simps by (rule commit_grows [OF ok]) (rule grant_admin_grows [OF ok])
  qed simp_all
qed

lemma commit_keeps: "people_ok db \<Longrightarrow> (\<And>x db'. t db = Inr (x, db') \<Longrightarrow> keeps_people db db') \<Longrightarrow> keeps_people db (commit t db)"
  by (rule commit_rule) (auto intro: keeps_people_same)

lemma run_keeps_people:
  assumes ok: "people_ok db"
  shows "keeps_people db (run_account_op cf op db)"
proof (cases "removes_admins op")
  case False
  then show ?thesis using run_grows [OF ok] by (simp add: keeps_admins_def)
next
  case True
  then show ?thesis
  proof (cases op)
    case (AccRevokeCode now c)
    show ?thesis unfolding AccRevokeCode run_account_op.simps by (rule commit_keeps [OF ok]) (rule revoke_code_keeps_people [OF ok])
  next
    case (AccRevokeAdmin now h g)
    show ?thesis unfolding AccRevokeAdmin run_account_op.simps by (rule commit_keeps [OF ok]) (rule revoke_admin_leaves(1) [OF ok])
  next
    case (AccDeleteAccount now h)
    show ?thesis unfolding AccDeleteAccount run_account_op.simps by (rule commit_keeps [OF ok]) (rule delete_leaves(1) [OF ok])
  qed simp_all
qed

lemma people_ok_start: "people_ok no_accounts"
  by (simp add: people_ok_def no_accounts_def pk_ok_def roles_ok_def)

lemma people_ok_reach: "account_reach cf db \<Longrightarrow> people_ok db"
proof (induction rule: account_reach.induct)
  case (Step db op)
  then show ?case using run_keeps_people [of db] by (simp add: keeps_people_def)
qed (rule people_ok_start)

lemma continues_run: "people_ok db \<Longrightarrow> people_ok (fold (run_account_op cf) ops db) \<and> continues db (fold (run_account_op cf) ops db)"
proof (induction ops arbitrary: db)
  case (Cons op ops)
  then have "keeps_people db (run_account_op cf op db)" using run_keeps_people by blast
  then show ?case using Cons.IH [of "run_account_op cf op db"] continues_trans by (auto simp: keeps_people_def)
qed (simp add: continues_refl)

lemma admins_survive:
  assumes ok: "people_ok db" and some: "admins db \<noteq> {}" and op: "\<forall>now c. op \<noteq> AccRevokeCode now c"
  shows "admins (run_account_op cf op db) \<noteq> {}"
proof (cases "removes_admins op")
  case False
  then show ?thesis using run_grows [OF ok, of op cf] some unfolding keeps_admins_def by blast
next
  case True
  then show ?thesis
  proof (cases op)
    case (AccRevokeAdmin now h g)
    show ?thesis unfolding AccRevokeAdmin run_account_op.simps
      by (rule commit_rule [where P = "\<lambda>d. admins d \<noteq> {}", OF some]) (rule revoke_admin_leaves(3) [OF ok])
  next
    case (AccDeleteAccount now h)
    show ?thesis unfolding AccDeleteAccount run_account_op.simps
      by (rule commit_rule [where P = "\<lambda>d. admins d \<noteq> {}", OF some]) (rule delete_leaves(4) [OF ok _ some])
  qed (use op in simp_all)
qed

section \<open>The deleted\<close>

lemma only_person:
  assumes "people_ok db" "p \<in> set (ac_people db)" "q \<in> set (ac_people db)" "pe_id q = pe_id p"
  shows "q = p"
  using assms pk_ok_inj [of pe_id "ac_people db" q p] by (simp add: people_ok_def)

lemma session_human_found:
  assumes "authenticate_human_session hash now token db = (Some s, db')"
  shows "\<exists>q \<in> set (ac_people db). pe_id q = hm_human_id (as_human s) \<and> pe_status q \<in> {HumanActive, HumanSetupRequired}"
  using assms unfolding authenticate_human_session_def session_owner_def
  by (auto simp: human_record_of_def split: option.splits dest!: sql_first_Some)

lemma creator_token_human_found:
  assumes "authenticate_creator_api_token now th db = (Some (t, hr), db')"
  shows "\<exists>q \<in> set (ac_people db). pe_id q = hm_human_id hr \<and> pe_status q = hm_status hr"
  using assms unfolding authenticate_creator_api_token_def
  by (auto simp: human_record_of_def split: option.splits dest!: sql_first_Some)

lemma admin_token_human_found:
  assumes "authenticate_admin_service_token now th db = (Some t, db')"
  shows "\<exists>q \<in> set (ac_people db). pe_id q = tk_owner t \<and> pe_status q = HumanActive"
  using assms unfolding authenticate_admin_service_token_def human_active_iff
  by (auto split: option.splits dest!: sql_first_Some)

lemma find_github_human:
  assumes ok: "people_ok db" and p: "p \<in> set (ac_people db)" and x: "x \<in> set (ac_identities db)" "xi_human x = pe_id p"
  shows "find_github_human_for_update_tx (xi_github_user_id x) db = Some (human_record_of p x db)"
proof -
  let ?Q = "\<lambda>(q, y). xi_github_user_id y = xi_github_user_id x \<and> pe_id q = xi_human y"
  have "sql_first ?Q (List.product (ac_people db) (ac_identities db)) \<noteq> None"
    unfolding sql_first_None not_all using p x by (simp add: Bex_def) metis
  then obtain q y where f: "sql_first ?Q (List.product (ac_people db) (ac_identities db)) = Some (q, y)" by force
  then have qy: "q \<in> set (ac_people db)" "y \<in> set (ac_identities db)" "xi_github_user_id y = xi_github_user_id x" "pe_id q = xi_human y"
    using sql_first_Some [OF f] by simp_all
  have "y = x" using ok qy x pk_ok_inj [of xi_github_user_id "ac_identities db" y x] by (simp add: people_ok_def)
  then have "q = p" using only_person [OF ok p qy(1)] qy(4) x(2) by simp
  then show ?thesis using f \<open>y = x\<close> by (simp add: find_github_human_for_update_tx_def)
qed

lemma deleted_locked_out:
  assumes ok: "people_ok db" and p: "p \<in> set (ac_people db)" "pe_status p = HumanDeleted"
  shows "authenticate_human_session hash now token db = (Some s, db') \<Longrightarrow> hm_human_id (as_human s) \<noteq> pe_id p"
    and "authenticate_admin_service_token now th db = (Some t, db') \<Longrightarrow> tk_owner t \<noteq> pe_id p"
    and "authenticate_creator_api_token now th db = (Some (ct, hr), db') \<Longrightarrow> hm_human_id hr = pe_id p \<Longrightarrow> hm_status hr = HumanDeleted"
    and "x \<in> set (ac_identities db) \<Longrightarrow> xi_human x = pe_id p \<Longrightarrow> rgh_github_user_id inp = xi_github_user_id x \<Longrightarrow>
      resolve_github_human_tx now rids inp db = Inl (Forbidden ''linked human account has been deleted'')"
    and "complete_human_setup_tx now ids (pe_id p) code db = Inl (Forbidden ''human account has been deleted'')"
proof -
  have alive: "pe_status q = HumanDeleted" if "q \<in> set (ac_people db)" "pe_id q = pe_id p" for q
    using only_person [OF ok p(1) that] p(2) by simp
  show "hm_human_id (as_human s) \<noteq> pe_id p" if run: "authenticate_human_session hash now token db = (Some s, db')"
    using session_human_found [OF run] alive by fastforce
  show "tk_owner t \<noteq> pe_id p" if run: "authenticate_admin_service_token now th db = (Some t, db')"
    using admin_token_human_found [OF run] alive by fastforce
  show "hm_status hr = HumanDeleted" if run: "authenticate_creator_api_token now th db = (Some (ct, hr), db')" and h: "hm_human_id hr = pe_id p"
    using creator_token_human_found [OF run] alive h by fastforce
  show "resolve_github_human_tx now rids inp db = Inl (Forbidden ''linked human account has been deleted'')"
    if x: "x \<in> set (ac_identities db)" "xi_human x = pe_id p" and g: "rgh_github_user_id inp = xi_github_user_id x"
    using find_github_human [OF ok p(1) x] p(2) g by (simp add: resolve_github_human_tx_def human_record_of_def)
  have "person_by_id (pe_id p) (ac_people db) = Some p" using p person_by_id_iff [OF ok] by simp
  then show "complete_human_setup_tx now ids (pe_id p) code db = Inl (Forbidden ''human account has been deleted'')"
    using p(2) by (simp add: complete_human_setup_tx_def)
qed

end
