(* ===== verification/Auth_Service.thy ===== *)
theory Auth_Service
  imports Account_Invariants
begin

text \<open>
  The workflows of \<open>services/src/auth.rs\<close> and the account part of \<open>services/src/admin.rs\<close>. Each is a sequence of
  transactions on the accounts; between two of them the tables are those the first one left, and what other
  requests do in between is the matter of \<open>Account_System\<close>. The GitHub client, the random tokens and ids, SHA-256,
  the calendar of \<open>chrono\<close> and its printing are arguments.
\<close>

section \<open>Configuration and small helpers\<close>

datatype agent_registration_mode = ModePioneerCode | ModePublic

record auth_config =
  auc_registration_mode :: agent_registration_mode
  auc_max_active_agents :: int
  auc_bootstrap_admins :: "int list"
  auc_web_session_ttl_hours :: int
  auc_github_client_id :: "string option"
  auc_github_redirect_url :: "string option"
  auc_local_testing_knobs :: bool

record auth_env =
  aue_hash :: "string \<Rightarrow> string"
  aue_add_seconds :: "timestamp \<Rightarrow> int \<Rightarrow> timestamp option"
  aue_rfc3339 :: "timestamp \<Rightarrow> string"

definition create_agent_token :: "string \<Rightarrow> string" where "create_agent_token random = ''agentics_'' @ random"
definition create_admin_service_token_text :: "string \<Rightarrow> string" where "create_admin_service_token_text random = ''agentics_admin_'' @ random"
definition create_creator_api_token_text :: "string \<Rightarrow> string" where "create_creator_api_token_text random = ''agentics_creator_'' @ random"
definition create_web_session_token :: "string \<Rightarrow> string" where "create_web_session_token random = ''agentics_session_'' @ random"
definition create_csrf_token :: "string \<Rightarrow> string" where "create_csrf_token random = ''agentics_csrf_'' @ random"
definition create_github_sign_in_state_token :: "string \<Rightarrow> string" where "create_github_sign_in_state_token random = ''agentics_github_sign_in_'' @ random"
definition create_github_sign_in_browser_nonce :: "string \<Rightarrow> string" where "create_github_sign_in_browser_nonce random = ''agentics_github_sign_in_nonce_'' @ random"

text \<open>The rejection waits for half a second before it is returned.\<close>

definition invalid_pioneer_code :: service_error where
  "invalid_pioneer_code = Forbidden ''invalid or unavailable pioneer code''"

definition is_invalid_pioneer_code :: "service_error \<Rightarrow> bool" where
  "is_invalid_pioneer_code e = (case e of Forbidden m \<Rightarrow> m = ''invalid or unavailable pioneer code'' | _ \<Rightarrow> False)"

definition required_github_app_config :: "string option \<Rightarrow> string \<Rightarrow> service_error + string" where
  "required_github_app_config value name =
     (case map_option trim value of
        Some v \<Rightarrow> if v = [] then Inl (BadRequest (name @ '' is not configured'')) else Inr v
      | None \<Rightarrow> Inl (BadRequest (name @ '' is not configured'')))"

fun contains_string :: "string \<Rightarrow> string \<Rightarrow> bool" where
  "contains_string [] p = (p = [])"
| "contains_string (c # s) p = (starts_with (c # s) p \<or> contains_string s p)"

definition normalize_return_to :: "string option \<Rightarrow> service_error + string option" where
  "normalize_return_to value =
     (case value of
        None \<Rightarrow> Inr None
      | Some v0 \<Rightarrow>
          (let v = trim v0
           in if v = [] then Inr None
              else if \<not> starts_with v ''/'' \<or> starts_with v ''//'' \<or> CHR 0x0A \<in> set v \<or> CHR 0x0D \<in> set v \<or> contains_string v ''://''
              then Inl (BadRequest ''return_to must be a same-site path'')
              else Inr (Some v)))"

definition session_ttl_seconds :: "auth_config \<Rightarrow> service_error + int" where
  "session_ttl_seconds cf =
     (let t = auc_web_session_ttl_hours cf * 3600
      in if i64_min \<le> t \<and> t \<le> i64_max then Inr t else Inl (Internal ''web session TTL overflow''))"

text \<open>A lifetime that \<open>Duration::seconds\<close> cannot hold makes it panic; that case is not told apart from the overflow of the sum.\<close>

definition session_expires_at :: "auth_env \<Rightarrow> timestamp \<Rightarrow> int \<Rightarrow> service_error + timestamp" where
  "session_expires_at env now ttl = ok_or (Internal ''web session TTL overflow'') (aue_add_seconds env now ttl)"

section \<open>Agents\<close>

record register_agent_request =
  rar_display_name :: string
  rar_agent_description :: string
  rar_model_info :: string
  rar_pioneer_code :: "string option"

record register_agent_response =
  ras_agent_id :: uuid
  ras_token :: string
  ras_display_name :: string
  ras_created_at :: string

definition registration_input :: "auth_env \<Rightarrow> uuid \<times> uuid \<times> string \<Rightarrow> register_agent_request \<Rightarrow> register_agent_input" where
  "registration_input env ids body = (case ids of (agent_id, token_id, random) \<Rightarrow>
     \<lparr>rg_agent_id = agent_id, rg_token_id = token_id, rg_token_hash = aue_hash env (create_agent_token random),
      rg_display_name = trim (rar_display_name body), rg_agent_description = trim (rar_agent_description body),
      rg_model_info = rar_model_info body\<rparr>)"

text \<open>\<open>ids\<close> are the generated ids and the random part of the token, \<open>use_id\<close> the id of the code's use.\<close>

definition register_agent_request ::
  "auth_env \<Rightarrow> auth_config \<Rightarrow> timestamp \<Rightarrow> uuid \<times> uuid \<times> string \<Rightarrow> uuid \<Rightarrow> register_agent_request \<Rightarrow> accounts \<Rightarrow>
     register_agent_response result \<times> accounts" where
  "register_agent_request env cf now ids use_id body db =
     (let inp = registration_input env ids body;
          respond = (\<lambda>agent. \<lparr>ras_agent_id = ra_id agent, ras_token = create_agent_token (snd (snd ids)),
            ras_display_name = ra_display_name agent, ras_created_at = aue_rfc3339 env (ra_created_at agent)\<rparr>)
      in case auc_registration_mode cf of
           ModePioneerCode \<Rightarrow>
             (case rar_pioneer_code body of
                None \<Rightarrow> (Inl invalid_pioneer_code, db)
              | Some code \<Rightarrow>
                  if \<not> validate_pioneer_code code then (Inl invalid_pioneer_code, db)
                  else (case transact (register_agent_with_pioneer_code now use_id inp (aue_hash env code) AgentApi (auc_max_active_agents cf)) db of
                          (Inr agent, db1) \<Rightarrow> (Inr (respond agent), db1)
                        | (Inl e, db1) \<Rightarrow> if is_invalid_pioneer_code e then (Inl invalid_pioneer_code, db1) else (Inl e, db1)))
         | ModePublic \<Rightarrow>
             (case transact (register_agent now inp (auc_max_active_agents cf)) db of
                (Inr agent, db1) \<Rightarrow> (Inr (respond agent), db1)
              | (Inl e, db1) \<Rightarrow> (Inl e, db1)))"

section \<open>Sign-in\<close>

record human_session_response =
  hsr_human :: human_record
  hsr_csrf_token :: string
  hsr_expires_at :: string

record 'a issued_web_session =
  iws_session_token :: string
  iws_csrf_token :: string
  iws_ttl_seconds :: int
  iws_response :: 'a

definition authenticate_human_session_request ::
  "auth_env \<Rightarrow> timestamp \<Rightarrow> string \<Rightarrow> string \<Rightarrow> accounts \<Rightarrow> human_session_response result \<times> accounts" where
  "authenticate_human_session_request env now session_token csrf_token db =
     (case authenticate_human_session (aue_hash env) now session_token db of
        (None, db1) \<Rightarrow> (Inl Unauthorized, db1)
      | (Some s, db1) \<Rightarrow>
          if aue_hash env csrf_token \<noteq> as_csrf_token_hash s then (Inl Unauthorized, db1)
          else (Inr \<lparr>hsr_human = as_human s, hsr_csrf_token = csrf_token, hsr_expires_at = aue_rfc3339 env (as_expires_at s)\<rparr>, db1))"

text \<open>The state token and the nonce; \<open>build_url\<close> adds the query parameters to the configured URL.\<close>

definition start_github_sign_in_login ::
  "auth_env \<Rightarrow> auth_config \<Rightarrow> (string \<Rightarrow> string \<Rightarrow> string \<Rightarrow> service_error + string) \<Rightarrow> timestamp \<Rightarrow> string \<times> string \<Rightarrow> string option \<Rightarrow> accounts \<Rightarrow>
     (string \<times> string) result \<times> accounts" where
  "start_github_sign_in_login env cf build_url now randoms return_to db =
     (case and_then (required_github_app_config (auc_github_client_id cf) ''AGENTICS_GITHUB_APP_CLIENT_ID'') (\<lambda>client_id.
           and_then (required_github_app_config (auc_github_redirect_url cf) ''AGENTICS_GITHUB_APP_REDIRECT_URL'') (\<lambda>redirect_url.
           and_then (normalize_return_to return_to) (\<lambda>return_to.
           and_then (ok_or (Internal ''GitHub sign-in state TTL overflow'') (aue_add_seconds env now 600)) (\<lambda>expires_at.
           Inr (client_id, redirect_url, return_to, expires_at))))) of
        Inl e \<Rightarrow> (Inl e, db)
      | Inr (client_id, redirect_url, return_to, expires_at) \<Rightarrow>
          (let state_token = create_github_sign_in_state_token (fst randoms);
               browser_nonce = create_github_sign_in_browser_nonce (snd randoms);
               db1 = delete_expired_web_auth_rows now db
           in case transact (create_github_sign_in_state \<lparr>gs_hash = aue_hash env state_token, gs_nonce_hash = aue_hash env browser_nonce,
                    gs_return_to = return_to, gs_expires_at = expires_at\<rparr>) db1 of
                (Inl e, db2) \<Rightarrow> (Inl e, db2)
              | (Inr _, db2) \<Rightarrow> (case build_url client_id redirect_url state_token of Inl e \<Rightarrow> (Inl e, db2) | Inr url \<Rightarrow> (Inr (browser_nonce, url), db2))))"

definition consume_callback_github_sign_in_state :: "auth_env \<Rightarrow> timestamp \<Rightarrow> string \<Rightarrow> string \<Rightarrow> accounts \<Rightarrow> string option result \<times> accounts" where
  "consume_callback_github_sign_in_state env now state_token browser_nonce db =
     (case consume_github_sign_in_state now (aue_hash env state_token) (aue_hash env browser_nonce) db of
        (r, db1) \<Rightarrow> (ok_or Unauthorized r, db1))"

definition validate_github_user :: "int \<times> string \<Rightarrow> service_error + int \<times> string" where
  "validate_github_user user =
     (case github_user_id_try_new (fst user) of
        None \<Rightarrow> Inl (BadRequest ''GitHub sign-in returned an invalid creator identity'')
      | Some gid \<Rightarrow>
          if trim (snd user) = [] then Inl (BadRequest ''GitHub sign-in returned an invalid creator identity'')
          else Inr (gid, trim (snd user)))"

definition resolve_callback_human :: "auth_config \<Rightarrow> timestamp \<Rightarrow> uuid \<times> uuid \<times> uuid \<Rightarrow> int \<times> string \<Rightarrow> accounts \<Rightarrow> human_record result \<times> accounts" where
  "resolve_callback_human cf now ids user db =
     (case transact (resolve_github_human_tx now (snd ids)
             \<lparr>rgh_fallback_human_id = fst ids, rgh_github_user_id = fst user, rgh_github_login = snd user,
              rgh_bootstrap_admin_candidate = (fst user \<in> set (auc_bootstrap_admins cf))\<rparr>) db of
        (Inr h, db1) \<Rightarrow> (get_human_by_id h db1, db1)
      | (Inl e, db1) \<Rightarrow> if is_invalid_pioneer_code e then (Inl invalid_pioneer_code, db1) else (Inl e, db1))"

text \<open>\<open>ids\<close> are the id of the session and the random parts of its two tokens.\<close>

definition issue_human_session ::
  "auth_env \<Rightarrow> auth_config \<Rightarrow> timestamp \<Rightarrow> uuid \<times> string \<times> string \<Rightarrow> human_record \<Rightarrow> accounts \<Rightarrow> human_session_response issued_web_session result \<times> accounts" where
  "issue_human_session env cf now ids human db =
     (case and_then (session_ttl_seconds cf) (\<lambda>ttl. and_then (session_expires_at env now ttl) (\<lambda>e. Inr (ttl, e))) of
        Inl e \<Rightarrow> (Inl e, db)
      | Inr (ttl, expires_at) \<Rightarrow>
          (let session_token = create_web_session_token (fst (snd ids)); csrf_token = create_csrf_token (snd (snd ids))
           in case transact (create_human_session \<lparr>ses_id = fst ids, ses_token_hash = aue_hash env session_token,
                    ses_csrf_hash = aue_hash env csrf_token, ses_human = hm_human_id human, ses_expires_at = expires_at, ses_last_used_at = None\<rparr>) db of
                (Inl e, db1) \<Rightarrow> (Inl e, db1)
              | (Inr _, db1) \<Rightarrow> (Inr \<lparr>iws_session_token = session_token, iws_csrf_token = csrf_token, iws_ttl_seconds = ttl,
                  iws_response = \<lparr>hsr_human = human, hsr_csrf_token = csrf_token, hsr_expires_at = aue_rfc3339 env expires_at\<rparr>\<rparr>, db1)))"

text \<open>\<open>exchange_code\<close> and \<open>fetch_user\<close> are the GitHub client; the profile that it fetched is validated.\<close>

definition complete_github_sign_in_callback ::
  "auth_env \<Rightarrow> auth_config \<Rightarrow> (string \<Rightarrow> service_error + string) \<Rightarrow> (string \<Rightarrow> service_error + int \<times> string) \<Rightarrow> timestamp \<Rightarrow>
     uuid \<times> uuid \<times> uuid \<Rightarrow> uuid \<times> string \<times> string \<Rightarrow> string \<Rightarrow> string \<Rightarrow> string \<Rightarrow> accounts \<Rightarrow>
     (human_session_response issued_web_session \<times> string option) result \<times> accounts" where
  "complete_github_sign_in_callback env cf exchange_code fetch_user now ids session_ids state_token code browser_nonce db =
     (case consume_callback_github_sign_in_state env now state_token browser_nonce db of
        (Inl e, db1) \<Rightarrow> (Inl e, db1)
      | (Inr return_to, db1) \<Rightarrow>
          (case and_then (exchange_code code) (\<lambda>access_token. and_then (fetch_user access_token) validate_github_user) of
             Inl e \<Rightarrow> (Inl e, db1)
           | Inr user \<Rightarrow>
               (case resolve_callback_human cf now ids user db1 of
                  (Inl e, db2) \<Rightarrow> (Inl e, db2)
                | (Inr human, db2) \<Rightarrow>
                    (case issue_human_session env cf now session_ids human db2 of
                       (Inl e, db3) \<Rightarrow> (Inl e, db3)
                     | (Inr issued, db3) \<Rightarrow> (Inr (issued, return_to), db3)))))"

definition complete_human_setup ::
  "auth_env \<Rightarrow> timestamp \<Rightarrow> uuid \<times> uuid \<Rightarrow> uuid \<Rightarrow> string \<Rightarrow> timestamp \<Rightarrow> string \<Rightarrow> accounts \<Rightarrow> human_session_response result \<times> accounts" where
  "complete_human_setup env now ids h csrf_token expires_at code db =
     (if \<not> validate_pioneer_code code then (Inl invalid_pioneer_code, db)
      else (case transact (complete_human_setup_tx now ids h (aue_hash env code)) db of
              (Inl e, db1) \<Rightarrow> if is_invalid_pioneer_code e then (Inl invalid_pioneer_code, db1) else (Inl e, db1)
            | (Inr _, db1) \<Rightarrow>
                (and_then (get_human_by_id h db1) (\<lambda>human. Inr \<lparr>hsr_human = human, hsr_csrf_token = csrf_token, hsr_expires_at = aue_rfc3339 env expires_at\<rparr>), db1)))"

section \<open>Administration\<close>

datatype admin_actor_input = ActorHuman uuid string | ActorServiceToken uuid string

fun actor_human_id :: "admin_actor_input \<Rightarrow> uuid option" where
  "actor_human_id (ActorHuman h d) = Some h" | "actor_human_id (ActorServiceToken t d) = None"

fun actor_service_token_id :: "admin_actor_input \<Rightarrow> uuid option" where
  "actor_service_token_id (ActorHuman h d) = None" | "actor_service_token_id (ActorServiceToken t d) = Some t"

fun actor_display :: "admin_actor_input \<Rightarrow> string" where
  "actor_display (ActorHuman h d) = d" | "actor_display (ActorServiceToken t d) = d"

record create_pioneer_code_request =
  cpr_label :: "string option"
  cpr_note :: "string option"
  cpr_max_uses :: int
  cpr_expires_at :: "string option"

definition parse_optional_rfc3339 :: "(string \<Rightarrow> string + timestamp) \<Rightarrow> string option \<Rightarrow> string \<Rightarrow> service_error + timestamp option" where
  "parse_optional_rfc3339 parse raw field =
     (case raw of
        None \<Rightarrow> Inr None
      | Some v \<Rightarrow> (case parse v of Inl e \<Rightarrow> Inl (BadRequest (field @ '' must be RFC3339: '' @ e)) | Inr t \<Rightarrow> Inr (Some t)))"

definition pioneer_code_grammar_error :: string where
  "pioneer_code_grammar_error = ''pioneer_code must be 8 lowercase hex chars or <label>-<8 lowercase hex chars>; label may use lowercase letters, digits, or _ and must be at most 6 chars''"

definition create_pioneer_code_for_admin ::
  "auth_env \<Rightarrow> auth_config \<Rightarrow> (string \<Rightarrow> string + timestamp) \<Rightarrow> timestamp \<Rightarrow> uuid \<times> string \<Rightarrow> admin_actor_input \<Rightarrow> create_pioneer_code_request \<Rightarrow>
     accounts \<Rightarrow> pioneer_code_row result \<times> accounts" where
  "create_pioneer_code_for_admin env cf parse now ids actor body db =
     (case and_then (guard_err (cpr_max_uses body = 0 \<or> cpr_max_uses body < -1)
             (BadRequest ''max_uses must be a positive integer or -1 for local testing'')) (\<lambda>_.
           and_then (guard_err (cpr_max_uses body = -1 \<and> \<not> auc_local_testing_knobs cf)
             (BadRequest ''unlimited pioneer codes are only allowed for loopback local testing'')) (\<lambda>_.
           and_then (ok_or (BadRequest pioneer_code_grammar_error) (generate_pioneer_code (snd ids) (cpr_label body))) (\<lambda>code.
           and_then (parse_optional_rfc3339 parse (cpr_expires_at body) ''expires_at'') (\<lambda>expires_at.
           Inr (code, expires_at))))) of
        Inl e \<Rightarrow> (Inl e, db)
      | Inr (code, expires_at) \<Rightarrow>
          (case transact (create_pioneer_code now
                 \<lparr>cpc_id = fst ids, cpc_display = code, cpc_hash = aue_hash env code, cpc_label = pioneer_code_label code,
                  cpc_note = (case cpr_note body of None \<Rightarrow> [] | Some n \<Rightarrow> n), cpc_max_uses = cpr_max_uses body, cpc_expires_at = expires_at,
                  cpc_human = actor_human_id actor, cpc_token = actor_service_token_id actor, cpc_created_by_display = actor_display actor\<rparr>) db of
             (Inl e, db1) \<Rightarrow> (Inl (unique_violation_as_conflict e), db1)
           | (Inr c, db1) \<Rightarrow> (Inr c, db1)))"

definition create_admin_service_token_for ::
  "auth_env \<Rightarrow> (string \<Rightarrow> string) \<Rightarrow> (string \<Rightarrow> string + timestamp) \<Rightarrow> timestamp \<Rightarrow> uuid \<times> string \<Rightarrow> uuid \<Rightarrow> string \<Rightarrow> string option \<Rightarrow> accounts \<Rightarrow>
     (string \<times> admin_token_row) result \<times> accounts" where
  "create_admin_service_token_for env label_key parse now ids h label expires db =
     (case parse_optional_rfc3339 parse expires ''expires_at'' of
        Inl e \<Rightarrow> (Inl e, db)
      | Inr expires_at \<Rightarrow>
          (let token = create_admin_service_token_text (snd ids)
           in case transact (create_admin_service_token label_key now
                \<lparr>cti_id = fst ids, cti_hash = aue_hash env token, cti_label = trim label, cti_owner = h, cti_expires_at = expires_at\<rparr>) db of
                (Inl e, db1) \<Rightarrow> (Inl e, db1)
              | (Inr t, db1) \<Rightarrow> (Inr (token, t), db1)))"

end
