(* ===== verification/Request_Auth.thy ===== *)
theory Request_Auth
  imports Auth_Service
begin

text \<open>
  Who a request speaks for: the extractors of \<open>backend/api-server/src/extractors.rs\<close>. A request is its method and
  the headers that they read, each absent or a text. The outcome is an error or the authenticated actor, and
  the tables after the use of a credential was recorded. A failure of the database, which the extractors
  report as unauthorized, is not modelled.
\<close>

section \<open>Requests\<close>

datatype http_method = GET | HEAD | OPTIONS | OtherMethod string

record request_parts =
  rq_method :: http_method
  rq_authorization :: "string option"
  rq_cookie :: "string option"
  rq_csrf :: "string option"

definition utf8_bytes :: "nat list \<Rightarrow> string" where
  "utf8_bytes bs = map char_of bs"

definition missing_bearer_message :: string where
  "missing_bearer_message = utf8_bytes [231, 188, 186, 229, 176, 145, 230, 156, 137, 230, 149, 136, 231, 154, 132] @ '' Bearer token''"

definition invalid_agent_token_message :: string where
  "invalid_agent_token_message = ''token '' @ utf8_bytes [230, 151, 160, 230, 149, 136, 230, 136, 150, 229, 183, 178, 232, 162, 171, 230, 146, 164, 233, 148, 128]"

definition invalid_admin_token_message :: string where
  "invalid_admin_token_message = ''admin service token '' @ utf8_bytes [230, 151, 160, 230, 149, 136, 230, 136, 150, 229, 183, 178, 232, 162, 171, 230, 146, 164, 233, 148, 128]"

definition invalid_admin_session_message :: string where
  "invalid_admin_session_message = ''admin session '' @ utf8_bytes [230, 151, 160, 230, 149, 136, 230, 136, 150, 229, 183, 178, 232, 191, 135, 230, 156, 159]"

definition admin_required_message :: string where
  "admin_required_message = utf8_bytes [233, 156, 128, 232, 166, 129] @ '' admin '' @ utf8_bytes [230, 157, 131, 233, 153, 144]"

definition invalid_human_session_message :: string where
  "invalid_human_session_message = ''human session '' @ utf8_bytes [230, 151, 160, 230, 149, 136, 230, 136, 150, 229, 183, 178, 232, 191, 135, 230, 156, 159]"

definition invalid_creator_token_message :: string where
  "invalid_creator_token_message = ''creator API token '' @ utf8_bytes [230, 151, 160, 230, 149, 136, 230, 136, 150, 229, 183, 178, 232, 162, 171, 230, 146, 164, 233, 148, 128]"

definition creator_required_message :: string where
  "creator_required_message = utf8_bytes [233, 156, 128, 232, 166, 129] @ '' creator '' @ utf8_bytes [230, 157, 131, 233, 153, 144]"

definition missing_csrf_message :: string where
  "missing_csrf_message = utf8_bytes [231, 188, 186, 229, 176, 145, 230, 156, 137, 230, 149, 136, 231, 154, 132] @ '' CSRF token''"

text \<open>\<open>str::split_whitespace\<close>: the maximal runs without white space.\<close>

fun take_word :: "string \<Rightarrow> string \<times> string" where
  "take_word [] = ([], [])"
| "take_word (c # s) =
     (if trim_step whitespace_encodings (c # s) \<noteq> None then ([], c # s) else (case take_word s of (w, rest) \<Rightarrow> (c # w, rest)))"

lemma take_word_append: "take_word s = (w, rest) \<Longrightarrow> s = w @ rest"
  by (induction s arbitrary: w) (auto split: if_splits prod.splits)

lemma trim_by_length: "length (trim_by encs s) \<le> length s"
proof (induction encs s rule: trim_by.induct)
  case (1 encs s)
  show ?case
  proof (cases "trim_step encs s")
    case (Some s')
    then have "length (trim_by encs s') \<le> length s'" "length s' < length s" using 1 trim_step_shorter by blast+
    then show ?thesis using Some by (simp add: trim_by.simps [of encs s])
  qed (simp add: trim_by.simps [of encs s])
qed

lemma take_word_shorter:
  assumes "(w, rest) = take_word (trim_start s)" and "trim_start s \<noteq> []"
  shows "length rest < length s"
proof -
  have "trim_step whitespace_encodings (trim_start s) = None" unfolding trim_start_def by (rule trim_by_stable)
  then have "w \<noteq> []" using assms by (cases "trim_start s") (auto split: prod.splits)
  then have "length rest < length (trim_start s)" using take_word_append [OF assms(1) [symmetric]] by simp
  then show ?thesis using trim_by_length [of whitespace_encodings s] unfolding trim_start_def by simp
qed

function split_whitespace :: "string \<Rightarrow> string list" where
  "split_whitespace s =
     (let t = trim_start s in if t = [] then [] else (case take_word t of (w, rest) \<Rightarrow> w # split_whitespace rest))"
  by pat_completeness auto
termination
  by (relation "measure length") (auto intro: take_word_shorter)

declare split_whitespace.simps [simp del]

definition to_ascii_lowercase :: "string \<Rightarrow> string" where
  "to_ascii_lowercase s = map (\<lambda>c. if is_ascii_uppercase c then char_of (byte_of c + 32) else c) s"

definition parse_bearer_token :: "string option \<Rightarrow> string option" where
  "parse_bearer_token value =
     (case value of
        None \<Rightarrow> None
      | Some v \<Rightarrow>
          (case split_whitespace v of
             [scheme, token] \<Rightarrow> if to_ascii_lowercase scheme \<noteq> ''bearer'' then None else if token = [] then None else Some token
           | _ \<Rightarrow> None))"

fun first_cookie :: "string \<Rightarrow> string list \<Rightarrow> string option" where
  "first_cookie name [] = None"
| "first_cookie name (p # ps) =
     (case split_once (CHR ''='') (trim p) of
        Some (n, v) \<Rightarrow> if n = name then Some v else first_cookie name ps
      | None \<Rightarrow> first_cookie name ps)"

definition cookie_value :: "string option \<Rightarrow> string \<Rightarrow> string option" where
  "cookie_value header name = (case header of None \<Rightarrow> None | Some h \<Rightarrow> first_cookie name (split_on (CHR '';'') h))"

definition requires_csrf :: "http_method \<Rightarrow> bool" where
  "requires_csrf m = (\<not> (m = GET \<or> m = HEAD \<or> m = OPTIONS))"

section \<open>Extractors\<close>

record api_config =
  apc_session_cookie_name :: string
  apc_csrf_cookie_name :: string

record agent_auth =
  aga_agent_id :: uuid
  aga_token_id :: uuid
  aga_display_name :: string

definition agent_auth_from_request :: "(string \<Rightarrow> string) \<Rightarrow> timestamp \<Rightarrow> request_parts \<Rightarrow> accounts \<Rightarrow> agent_auth result \<times> accounts" where
  "agent_auth_from_request hash now rq db =
     (case parse_bearer_token (rq_authorization rq) of
        None \<Rightarrow> (Inl (UnauthorizedMessage missing_bearer_message), db)
      | Some token \<Rightarrow>
          (case authenticate_agent_token hash now token db of
             (None, db1) \<Rightarrow> (Inl (UnauthorizedMessage invalid_agent_token_message), db1)
           | (Some a, db1) \<Rightarrow> (Inr \<lparr>aga_agent_id = aa_agent_id a, aga_token_id = aa_token_id a, aga_display_name = aa_display_name a\<rparr>, db1)))"

definition require_session_csrf :: "(string \<Rightarrow> string) \<Rightarrow> request_parts \<Rightarrow> authenticated_session \<Rightarrow> service_error + unit" where
  "require_session_csrf hash rq s =
     (if \<not> requires_csrf (rq_method rq) then Inr ()
      else and_then (ok_or (Forbidden missing_csrf_message) (rq_csrf rq)) (\<lambda>token.
           guard_err (hash token \<noteq> as_csrf_token_hash s) (Forbidden missing_csrf_message)))"

definition authenticate_human_session_parts ::
  "(string \<Rightarrow> string) \<Rightarrow> api_config \<Rightarrow> timestamp \<Rightarrow> request_parts \<Rightarrow> string \<Rightarrow> accounts \<Rightarrow> authenticated_session result \<times> accounts" where
  "authenticate_human_session_parts hash cf now rq message db =
     (case cookie_value (rq_cookie rq) (apc_session_cookie_name cf) of
        None \<Rightarrow> (Inl (UnauthorizedMessage message), db)
      | Some token \<Rightarrow>
          (case authenticate_human_session hash now token db of
             (None, db1) \<Rightarrow> (Inl (UnauthorizedMessage message), db1)
           | (Some s, db1) \<Rightarrow> (Inr s, db1)))"

datatype admin_actor = AdminHuman uuid int string | AdminServiceToken uuid string

fun admin_actor_display :: "admin_actor \<Rightarrow> string" where
  "admin_actor_display (AdminHuman h g login) = CHR 0x40 # login"
| "admin_actor_display (AdminServiceToken t label) = ''service-token:'' @ label"

definition admin_auth_from_request :: "(string \<Rightarrow> string) \<Rightarrow> api_config \<Rightarrow> timestamp \<Rightarrow> request_parts \<Rightarrow> accounts \<Rightarrow> admin_actor result \<times> accounts" where
  "admin_auth_from_request hash cf now rq db =
     (case parse_bearer_token (rq_authorization rq) of
        Some token \<Rightarrow>
          (case authenticate_admin_service_token now (hash token) db of
             (None, db1) \<Rightarrow> (Inl (UnauthorizedMessage invalid_admin_token_message), db1)
           | (Some t, db1) \<Rightarrow> (Inr (AdminServiceToken (tk_id t) (tk_label t)), db1))
      | None \<Rightarrow>
          (case authenticate_human_session_parts hash cf now rq invalid_admin_session_message db of
             (Inl e, db1) \<Rightarrow> (Inl e, db1)
           | (Inr s, db1) \<Rightarrow>
               (and_then (require_session_csrf hash rq s) (\<lambda>_.
                and_then (guard_err (hm_status (as_human s) \<noteq> HumanActive \<or> RoleAdmin \<notin> set (hm_roles (as_human s)))
                  (Forbidden admin_required_message)) (\<lambda>_.
                Inr (AdminHuman (hm_human_id (as_human s)) (hm_github_user_id (as_human s)) (hm_github_login (as_human s))))), db1)))"

record human_auth =
  hau_session_id :: uuid
  hau_human :: human_record
  hau_csrf_token :: "string option"
  hau_expires_at :: timestamp

definition human_auth_from_request :: "(string \<Rightarrow> string) \<Rightarrow> api_config \<Rightarrow> timestamp \<Rightarrow> request_parts \<Rightarrow> accounts \<Rightarrow> human_auth result \<times> accounts" where
  "human_auth_from_request hash cf now rq db =
     (case authenticate_human_session_parts hash cf now rq invalid_human_session_message db of
        (Inl e, db1) \<Rightarrow> (Inl e, db1)
      | (Inr s, db1) \<Rightarrow>
          (and_then (require_session_csrf hash rq s) (\<lambda>_.
           Inr \<lparr>hau_session_id = as_session_id s, hau_human = as_human s,
             hau_csrf_token = cookie_value (rq_cookie rq) (apc_csrf_cookie_name cf), hau_expires_at = as_expires_at s\<rparr>), db1))"

record creator_auth =
  cra_session_id :: "uuid option"
  cra_token_id :: "uuid option"
  cra_human :: human_record
  cra_csrf_token :: "string option"
  cra_expires_at :: "timestamp option"

definition may_create :: "human_record \<Rightarrow> bool" where
  "may_create h = (hm_status h = HumanActive \<and> (RoleCreator \<in> set (hm_roles h) \<or> RoleAdmin \<in> set (hm_roles h)))"

definition creator_auth_from_human :: "human_auth \<Rightarrow> service_error + creator_auth" where
  "creator_auth_from_human h =
     and_then (guard_err (\<not> may_create (hau_human h)) (Forbidden creator_required_message)) (\<lambda>_.
     Inr \<lparr>cra_session_id = Some (hau_session_id h), cra_token_id = None, cra_human = hau_human h,
       cra_csrf_token = hau_csrf_token h, cra_expires_at = Some (hau_expires_at h)\<rparr>)"

definition creator_web_auth_from_request :: "(string \<Rightarrow> string) \<Rightarrow> api_config \<Rightarrow> timestamp \<Rightarrow> request_parts \<Rightarrow> accounts \<Rightarrow> creator_auth result \<times> accounts" where
  "creator_web_auth_from_request hash cf now rq db =
     (case human_auth_from_request hash cf now rq db of (r, db1) \<Rightarrow> (and_then r creator_auth_from_human, db1))"

definition creator_auth_from_request :: "(string \<Rightarrow> string) \<Rightarrow> api_config \<Rightarrow> timestamp \<Rightarrow> request_parts \<Rightarrow> accounts \<Rightarrow> creator_auth result \<times> accounts" where
  "creator_auth_from_request hash cf now rq db =
     (case parse_bearer_token (rq_authorization rq) of
        Some token \<Rightarrow>
          (case authenticate_creator_api_token now (hash token) db of
             (None, db1) \<Rightarrow> (Inl (UnauthorizedMessage invalid_creator_token_message), db1)
           | (Some (t, h), db1) \<Rightarrow>
               (and_then (guard_err (\<not> may_create h) (Forbidden creator_required_message)) (\<lambda>_.
                Inr \<lparr>cra_session_id = None, cra_token_id = Some (tk_id t), cra_human = h, cra_csrf_token = None, cra_expires_at = tk_expires_at t\<rparr>), db1))
      | None \<Rightarrow> creator_web_auth_from_request hash cf now rq db)"

end
