(* ===== verification/Account_Workflows.thy ===== *)
theory Account_Workflows
  imports Account_People Request_Auth
begin

text \<open>
  The workflows of the services and the extractors change the accounts only through the transactions of
  \<open>Account_System\<close>, so what holds of every reachable state holds while they run. Further facts about all
  sequences of transactions: revocations last, and a session has a token hash of its own.
\<close>

section \<open>Workflows are sequences of transactions\<close>

definition by_transactions :: "account_config \<Rightarrow> accounts \<Rightarrow> accounts \<Rightarrow> bool" where
  "by_transactions cf db db' = (\<exists>ops. db' = fold (run_account_op cf) ops db)"

lemma by_none [simp, intro]: "by_transactions cf db db"
  unfolding by_transactions_def by (rule exI [of _ "[]"]) simp

lemma by_one: "by_transactions cf db (run_account_op cf op db)"
  unfolding by_transactions_def by (rule exI [of _ "[op]"]) simp

lemma by_trans: "by_transactions cf a b \<Longrightarrow> by_transactions cf b c \<Longrightarrow> by_transactions cf a c"
  unfolding by_transactions_def by (metis fold_append comp_apply)

lemma by_reach: "by_transactions cf db db' \<Longrightarrow> account_reach cf db \<Longrightarrow> account_reach cf db'"
  unfolding by_transactions_def using account_reach_run by blast

text \<open>The environment of the services as the configuration of the transactions.\<close>

definition account_config_of :: "auth_env \<Rightarrow> auth_config \<Rightarrow> (string \<Rightarrow> string) \<Rightarrow> account_config" where
  "account_config_of env cf label_key =
     \<lparr>acf_max_active_agents = auc_max_active_agents cf, acf_label_key = label_key, acf_hash = aue_hash env\<rparr>"

lemma account_config_simps [simp]:
  "acf_max_active_agents (account_config_of env cf lk) = auc_max_active_agents cf"
  "acf_label_key (account_config_of env cf lk) = lk" "acf_hash (account_config_of env cf lk) = aue_hash env"
  by (simp_all add: account_config_of_def)

lemma by_transact:
  assumes "transact t db = (r, db1)" and "run_account_op cf op db = commit t db"
  shows "by_transactions cf db db1"
  using by_one [of cf db op] assms by (simp add: commit_def)

lemma register_workflow: "by_transactions (account_config_of env cf lk) db (snd (register_agent_request env cf now ids use_id body db))"
proof -
  let ?cf = "account_config_of env cf lk"
  have one: "by_transactions ?cf db db1" if "transact (register_agent_with_pioneer_code now use_id inp h AgentApi (auc_max_active_agents cf)) db = (r, db1)" for inp h r db1
    by (rule by_transact [where op = "AccRegisterWithCode now use_id inp h AgentApi", OF that]) simp
  have two: "by_transactions ?cf db db1" if "transact (register_agent now inp (auc_max_active_agents cf)) db = (r, db1)" for inp r db1
    by (rule by_transact [where op = "AccRegister now inp", OF that]) simp
  show ?thesis unfolding register_agent_request_def Let_def
    by (auto split: agent_registration_mode.split option.split prod.split sum.split dest: one two)
qed

lemma session_workflow:
  "by_transactions (account_config_of env cf lk) db (snd (authenticate_human_session (aue_hash env) now token db))"
  using by_one [of "account_config_of env cf lk" db "AccUseSession now token"] by simp

lemma state_workflow:
  "by_transactions (account_config_of env cf lk) db (snd (consume_callback_github_sign_in_state env now st nonce db))"
  using by_one [of "account_config_of env cf lk" db "AccConsumeState now (aue_hash env st) (aue_hash env nonce)"]
  by (cases "consume_github_sign_in_state now (aue_hash env st) (aue_hash env nonce) db") (simp add: consume_callback_github_sign_in_state_def)

lemma start_workflow: "by_transactions (account_config_of env cf lk) db (snd (start_github_sign_in_login env cf build now randoms ret db))"
proof -
  let ?cf = "account_config_of env cf lk"
  have "by_transactions ?cf db (delete_expired_web_auth_rows now db)" using by_one [of ?cf db "AccDeleteExpired now"] by simp
  moreover have "by_transactions ?cf d d'" if "transact (create_github_sign_in_state st) d = (r, d')" for st d r d'
    by (rule by_transact [where op = "AccCreateState st", OF that]) simp
  ultimately have "by_transactions ?cf db d'" if "transact (create_github_sign_in_state st) (delete_expired_web_auth_rows now db) = (r, d')" for st r d'
    using that by_trans by blast
  then show ?thesis unfolding start_github_sign_in_login_def Let_def by (auto split: sum.split prod.split)
qed

lemma resolve_workflow: "by_transactions (account_config_of env cf lk) db (snd (resolve_callback_human cf now ids user db))"
proof -
  have "by_transactions (account_config_of env cf lk) db d" if "transact (resolve_github_human_tx now rids inp) db = (r, d)" for rids inp r d
    by (rule by_transact [where op = "AccResolve now rids inp", OF that]) simp
  then show ?thesis unfolding resolve_callback_human_def by (auto split: sum.split prod.split)
qed

lemma issue_workflow: "by_transactions (account_config_of env cf lk) db (snd (issue_human_session env cf now ids human db))"
proof -
  have "by_transactions (account_config_of env cf lk) db d" if "transact (create_human_session s) db = (r, d)" for s r d
    by (rule by_transact [where op = "AccCreateSession s", OF that]) simp
  then show ?thesis unfolding issue_human_session_def Let_def by (auto split: sum.split prod.split)
qed

lemma callback_workflow:
  "by_transactions (account_config_of env cf lk) db (snd (complete_github_sign_in_callback env cf exch fetch now ids sids st code nonce db))"
proof -
  obtain r1 db1 where one: "consume_callback_github_sign_in_state env now st nonce db = (r1, db1)" by force
  then have b1: "by_transactions (account_config_of env cf lk) db db1" using state_workflow [of env cf lk db now st nonce] by simp
  have b2: "by_transactions (account_config_of env cf lk) db d" if "resolve_callback_human cf now ids user db1 = (r, d)" for user r d
    using resolve_workflow [of env cf lk db1 now ids user] by_trans [OF b1] that by simp
  have b3: "by_transactions (account_config_of env cf lk) db d'"
    if "resolve_callback_human cf now ids user db1 = (r, d)" "issue_human_session env cf now sids human d = (r', d')" for user r d human r' d'
    using issue_workflow [of env cf lk d now sids human] by_trans [OF b2 [OF that(1)]] that(2) by simp
  show ?thesis unfolding complete_github_sign_in_callback_def one using b1 b2 b3
    by (auto split: sum.split prod.split)
qed

lemma setup_workflow: "by_transactions (account_config_of env cf lk) db (snd (complete_human_setup env now ids h csrf e code db))"
proof -
  have "by_transactions (account_config_of env cf lk) db d" if "transact (complete_human_setup_tx now ids h c) db = (r, d)" for c r d
    by (rule by_transact [where op = "AccCompleteSetup now ids h c", OF that]) simp
  then show ?thesis unfolding complete_human_setup_def by (auto split: sum.split prod.split)
qed

lemma create_code_workflow: "by_transactions (account_config_of env cf lk) db (snd (create_pioneer_code_for_admin env cf parse now ids actor body db))"
proof -
  have "by_transactions (account_config_of env cf lk) db d" if "transact (create_pioneer_code now inp) db = (r, d)" for inp r d
    by (rule by_transact [where op = "AccCreateCode now inp", OF that]) simp
  then show ?thesis unfolding create_pioneer_code_for_admin_def by (auto split: sum.split prod.split)
qed

lemma create_token_workflow: "by_transactions (account_config_of env cf lk) db (snd (create_admin_service_token_for env lk parse now ids h label expires db))"
proof -
  have "by_transactions (account_config_of env cf lk) db d" if "transact (create_admin_service_token lk now inp) db = (r, d)" for inp r d
    by (rule by_transact [where op = "AccCreateAdminToken now inp", OF that]) simp
  then show ?thesis unfolding create_admin_service_token_for_def Let_def by (auto split: sum.split prod.split)
qed

text \<open>The extractors: one use of a credential.\<close>

lemma session_parts_workflow:
  "by_transactions (account_config_of env cf lk) db (snd (authenticate_human_session_parts (aue_hash env) api now rq m db))"
  using session_workflow [of env cf lk db now] unfolding authenticate_human_session_parts_def
  by (auto split: option.split prod.split) (metis snd_conv)+

lemma admin_auth_workflow: "by_transactions (account_config_of env cf lk) db (snd (admin_auth_from_request (aue_hash env) api now rq db))"
proof -
  have "by_transactions (account_config_of env cf lk) db (snd (authenticate_admin_service_token now h db))" for h
    using by_one [of "account_config_of env cf lk" db "AccUseAdminToken now h"] by simp
  then show ?thesis using session_parts_workflow [of env cf lk db api now rq invalid_admin_session_message]
    unfolding admin_auth_from_request_def by (auto split: option.split prod.split sum.split) (metis snd_conv)+
qed

lemma human_auth_workflow: "by_transactions (account_config_of env cf lk) db (snd (human_auth_from_request (aue_hash env) api now rq db))"
  using session_parts_workflow [of env cf lk db api now rq invalid_human_session_message]
  unfolding human_auth_from_request_def by (auto split: prod.split sum.split)

lemma creator_auth_workflow: "by_transactions (account_config_of env cf lk) db (snd (creator_auth_from_request (aue_hash env) api now rq db))"
proof -
  have "by_transactions (account_config_of env cf lk) db (snd (authenticate_creator_api_token now h db))" for h
    using by_one [of "account_config_of env cf lk" db "AccUseCreatorToken now h"] by simp
  then show ?thesis using human_auth_workflow [of env cf lk db api now rq]
    unfolding creator_auth_from_request_def creator_web_auth_from_request_def
    by (auto split: option.split prod.split) (metis snd_conv)+
qed

lemma agent_auth_workflow: "by_transactions (account_config_of env cf lk) db (snd (agent_auth_from_request (aue_hash env) now rq db))"
proof -
  have "by_transactions (account_config_of env cf lk) db (snd (authenticate_agent_token (aue_hash env) now t db))" for t
    using by_one [of "account_config_of env cf lk" db "AccUseAgentToken now t"] by simp
  then show ?thesis unfolding agent_auth_from_request_def by (auto split: option.split prod.split) (metis snd_conv)+
qed

section \<open>Revocations last\<close>

text \<open>Uses are only added, and a revoked code stays revoked.\<close>

definition codes_last :: "accounts \<Rightarrow> accounts \<Rightarrow> bool" where
  "codes_last db db' =
     (set (ac_uses db) \<subseteq> set (ac_uses db')
      \<and> (\<forall>c \<in> set (ac_codes db). \<exists>c' \<in> set (ac_codes db'). pc_id c' = pc_id c \<and> (pc_status c = PioneerRevoked \<longrightarrow> pc_status c' = PioneerRevoked)))"

lemma codes_last_same: "agent_tables db' = agent_tables db \<Longrightarrow> codes_last db db'"
  by (auto simp: codes_last_def agent_tables_def)

lemma codes_last_trans: "codes_last a b \<Longrightarrow> codes_last b c \<Longrightarrow> codes_last a c"
  unfolding codes_last_def by (elim conjE, intro conjI ballI) (blast, metis)

lemma codes_last_update:
  assumes "ac_codes db' = sql_update P f (ac_codes db)" and "set (ac_uses db) \<subseteq> set (ac_uses db')"
    and "\<And>c. pc_id (f c) = pc_id c" and "\<And>c. pc_status c = PioneerRevoked \<Longrightarrow> pc_status (f c) = PioneerRevoked"
  shows "codes_last db db'"
  unfolding codes_last_def assms(1) bex_sql_update using assms(2-4) by auto

lemma codes_last_use:
  "codes_last db (db0\<lparr>ac_uses := sql_insert u (ac_uses db),
     ac_codes := sql_update (\<lambda>x. pc_id x = i) (\<lambda>x. x\<lparr>pc_use_count := pc_use_count x + 1\<rparr>) (ac_codes db)\<rparr>)"
  by (rule codes_last_update [where P = "\<lambda>x. pc_id x = i" and f = "\<lambda>x. x\<lparr>pc_use_count := pc_use_count x + 1\<rparr>"]) auto

lemma codes_last_commit:
  assumes "\<And>x db'. t db = Inr (x, db') \<Longrightarrow> codes_last db db'"
  shows "codes_last db (commit t db)"
  by (rule commit_rule [where P = "codes_last db"]) (auto intro: codes_last_same assms)

lemma codes_last_setup:
  assumes run: "complete_human_setup_tx now ids h code db = Inr (u, db')"
  shows "codes_last db db'"
proof (cases "db' = db")
  case True
  then show ?thesis by (simp add: codes_last_same)
next
  case False
  then obtain db1 where use: "consume_pioneer_code_for_human_tx now (fst ids) code h db = Inr ((), db1)"
    and grant: "grant_role_tx now (snd ids) h RoleCreator None (activate_human_tx h db1) = Inr ((), db')"
    using run by (auto simp: complete_human_setup_tx_def and_then_eq_Inr split: if_splits)
  have "codes_last db db1"
    by (rule consume_cases [OF disjI2 [OF use]]) (simp only: codes_last_use)
  moreover have "agent_tables db' = agent_tables db1" using grant_role_frame [OF grant] by (auto simp: agent_tables_def activate_human_tx_def)
  ultimately show ?thesis using codes_last_same codes_last_trans by blast
qed

lemma codes_last_step: "codes_last db (run_account_op cf op db)"
proof (cases "touches_agents op")
  case False
  then show ?thesis by (intro codes_last_same run_account_op_frame)
next
  case True
  then show ?thesis
  proof (cases op)
    case (AccRegister now inp)
    show ?thesis unfolding AccRegister run_account_op.simps
      by (rule codes_last_commit) (drule register_ok(5), auto simp: codes_last_def)
  next
    case (AccRegisterWithCode now use_id inp h kind)
    show ?thesis unfolding AccRegisterWithCode run_account_op.simps
      by (rule codes_last_commit, erule register_with_code_ok) (simp only: codes_last_use)
  next
    case (AccCreateCode now inp)
    show ?thesis unfolding AccCreateCode run_account_op.simps
      by (rule codes_last_commit) (auto simp: create_pioneer_code_def and_then_eq_Inr codes_last_def)
  next
    case (AccRevokeCode now k)
    show ?thesis unfolding AccRevokeCode run_account_op.simps
      by (rule codes_last_commit, rule codes_last_update, erule revoke_agent_tables(1))
        (auto simp: revoke_agent_tables(2) revoke_code_row_def)
  next
    case (AccCompleteSetup now ids h code)
    show ?thesis unfolding AccCompleteSetup run_account_op.simps by (rule codes_last_commit) (rule codes_last_setup)
  next
    case (AccDisableAgent a)
    show ?thesis unfolding AccDisableAgent run_account_op.simps
      by (rule codes_last_commit) (auto simp: disable_agent_status_def codes_last_def split: if_splits)
  next
    case (AccUseAgentToken now token)
    show ?thesis unfolding AccUseAgentToken run_account_op.simps
      by (auto simp: authenticate_agent_token_def codes_last_def split: option.split)
  next
    case (AccRevokeAgentTokens now a)
    show ?thesis unfolding AccRevokeAgentTokens run_account_op.simps by (auto simp: revoke_agent_tokens_def codes_last_def)
  qed simp_all
qed

lemma codes_last_run: "codes_last db (fold (run_account_op cf) ops db)"
proof (induction ops arbitrary: db)
  case (Cons op ops)
  show ?case using codes_last_trans [OF codes_last_step Cons] by simp
qed (simp add: codes_last_same)

section \<open>Sessions\<close>

definition sessions_ok :: "accounts \<Rightarrow> bool" where
  "sessions_ok db = pk_ok ses_token_hash (ac_sessions db)"

lemma sessions_same: "ac_sessions db' = ac_sessions db \<Longrightarrow> sessions_ok db \<Longrightarrow> sessions_ok db'"
  by (simp add: sessions_ok_def)

lemma sessions_commit:
  assumes "sessions_ok db" and "\<And>x db'. t db = Inr (x, db') \<Longrightarrow> sessions_ok db'"
  shows "sessions_ok (commit t db)"
  by (rule commit_rule [where P = sessions_ok, OF assms(1)]) (rule assms(2))

lemma sessions_deleted: "sessions_ok db \<Longrightarrow> ac_sessions db' = sql_delete P (ac_sessions db) \<Longrightarrow> sessions_ok db'"
  by (simp add: sessions_ok_def pk_ok_delete)

lemma resolve_sessions:
  assumes "resolve_github_human_tx now rids inp db = Inr (h, db')"
  shows "ac_sessions db' = ac_sessions db"
  using assms
  by (auto simp: resolve_github_human_tx_def and_then_eq_Inr Let_def activate_human_tx_def insert_human_tx_def
      insert_github_identity_tx_def dest!: grant_role_frame split: option.splits if_splits)

lemma setup_sessions: "complete_human_setup_tx now ids h code db = Inr (u, db') \<Longrightarrow> ac_sessions db' = ac_sessions db"
  by (auto simp: complete_human_setup_tx_def and_then_eq_Inr activate_human_tx_def dest!: grant_role_frame consume_human_frame split: if_splits)

lemma sessions_step:
  assumes ok: "sessions_ok db"
  shows "sessions_ok (run_account_op cf op db)"
proof (cases op)
  case (AccRegister now inp)
  then show ?thesis by (simp, intro sessions_commit [OF ok] sessions_same [OF _ ok]) (drule register_ok(5), simp)
next
  case (AccRegisterWithCode now use_id inp h kind)
  then show ?thesis by (simp, intro sessions_commit [OF ok] sessions_same [OF _ ok]) (erule register_with_code_ok, simp)
next
  case (AccDisableAgent a)
  then show ?thesis by (simp, intro sessions_commit [OF ok] sessions_same [OF _ ok]) (auto simp: disable_agent_status_def split: if_splits)
next
  case (AccCreateCode now inp)
  then show ?thesis by (simp, intro sessions_commit [OF ok] sessions_same [OF _ ok]) (auto simp: create_pioneer_code_def and_then_eq_Inr)
next
  case (AccRevokeCode now k)
  then show ?thesis by (simp, intro sessions_commit [OF ok] sessions_deleted [OF ok]) (auto simp: revoke_pioneer_code_def Let_def split: if_splits)
next
  case (AccResolve now rids inp)
  then show ?thesis by (simp, intro sessions_commit [OF ok] sessions_same [OF _ ok]) (rule resolve_sessions)
next
  case (AccCreateState st)
  then show ?thesis by (simp, intro sessions_commit [OF ok] sessions_same [OF _ ok]) (auto simp: create_github_sign_in_state_def split: if_splits)
next
  case (AccCompleteSetup now ids h code)
  then show ?thesis by (simp, intro sessions_commit [OF ok] sessions_same [OF _ ok]) (rule setup_sessions)
next
  case (AccCreateSession s)
  then show ?thesis using ok
    by (simp, intro sessions_commit) (auto simp: create_human_session_def and_then_eq_Inr no_violation_ok sessions_ok_def intro!: pk_ok_insert)
next
  case (AccGrantAdmin now rid h g)
  then show ?thesis by (simp, intro sessions_commit [OF ok] sessions_same [OF _ ok]) (auto simp: grant_admin_role_tx_def Let_def and_then_eq_Inr dest: grant_role_frame)
next
  case (AccRevokeAdmin now h g)
  then show ?thesis by (simp, intro sessions_commit [OF ok] sessions_same [OF _ ok])
      (auto simp: revoke_admin_role_tx_def revoke_admin_service_tokens_created_by_human_tx_def Let_def and_then_eq_Inr)
next
  case (AccCreateAdminToken now inp)
  then show ?thesis by (simp, intro sessions_commit [OF ok] sessions_same [OF _ ok]) (auto simp: create_admin_service_token_def Let_def and_then_eq_Inr)
next
  case (AccRevokeAdminToken now t h)
  then show ?thesis by (simp, intro sessions_commit [OF ok] sessions_same [OF _ ok]) (auto simp: revoke_admin_service_token_def split: if_splits)
next
  case (AccCreateCreatorToken now inp)
  then show ?thesis by (simp, intro sessions_commit [OF ok] sessions_same [OF _ ok]) (auto simp: create_creator_api_token_def and_then_eq_Inr)
next
  case (AccRevokeCreatorToken now h t)
  then show ?thesis by (simp, intro sessions_commit [OF ok] sessions_same [OF _ ok]) (auto simp: revoke_creator_api_token_def split: if_splits)
next
  case (AccDeleteAccount now h)
  then show ?thesis by (simp, intro sessions_commit [OF ok] sessions_deleted [OF ok])
      (auto simp: delete_human_account_def revoke_admin_service_tokens_created_by_human_tx_def Let_def and_then_eq_Inr)
next
  case (AccUseSession now token)
  then show ?thesis using ok by (auto simp: authenticate_human_session_def sessions_ok_def intro!: pk_ok_update split: option.split)
qed (use ok in \<open>auto simp: sessions_ok_def consume_github_sign_in_state_def delete_human_session_by_token_def delete_expired_web_auth_rows_def
    authenticate_admin_service_token_def authenticate_creator_api_token_def authenticate_agent_token_def revoke_agent_tokens_def Let_def
    intro: pk_ok_delete split: option.split\<close>)

lemma sessions_ok_reach: "account_reach cf db \<Longrightarrow> sessions_ok db"
  by (induction rule: account_reach.induct) (simp_all add: sessions_step, simp add: sessions_ok_def no_accounts_def pk_ok_def)

section \<open>Where an accepted actor comes from\<close>

lemma session_parts_source:
  assumes "authenticate_human_session_parts hash api now rq m db = (Inr s, d)"
  shows "\<exists>token. cookie_value (rq_cookie rq) (apc_session_cookie_name api) = Some token \<and> authenticate_human_session hash now token db = (Some s, d)"
  using assms by (auto simp: authenticate_human_session_parts_def split: option.splits prod.splits)

lemma human_auth_session:
  assumes "fst (human_auth_from_request hash api now rq db) = Inr h"
  shows "\<exists>token s d. authenticate_human_session hash now token db = (Some s, d) \<and> hau_human h = as_human s"
proof -
  obtain s d where s: "authenticate_human_session_parts hash api now rq invalid_human_session_message db = (Inr s, d)" "hau_human h = as_human s"
    using assms by (auto simp: human_auth_from_request_def and_then_eq_Inr split: prod.splits sum.splits)
  then show ?thesis using session_parts_source [OF s(1)] by blast
qed

lemma admin_auth_session:
  assumes "fst (admin_auth_from_request hash api now rq db) = Inr (AdminHuman h g l)"
  shows "\<exists>token s d. authenticate_human_session hash now token db = (Some s, d) \<and> h = hm_human_id (as_human s)"
proof -
  obtain s d where s: "authenticate_human_session_parts hash api now rq invalid_admin_session_message db = (Inr s, d)" "h = hm_human_id (as_human s)"
    using assms by (auto simp: admin_auth_from_request_def and_then_eq_Inr split: option.splits prod.splits sum.splits)
  then show ?thesis using session_parts_source [OF s(1)] by blast
qed

lemma creator_auth_source:
  assumes "fst (creator_auth_from_request hash api now rq db) = Inr cr"
  shows "(\<exists>h. fst (human_auth_from_request hash api now rq db) = Inr h \<and> cra_human cr = hau_human h)
     \<or> (\<exists>th t d. authenticate_creator_api_token now th db = (Some (t, cra_human cr), d) \<and> hm_status (cra_human cr) = HumanActive)"
proof (cases "parse_bearer_token (rq_authorization rq)")
  case None
  then show ?thesis using assms
    by (auto simp: creator_auth_from_request_def creator_web_auth_from_request_def creator_auth_from_human_def and_then_eq_Inr split: prod.splits)
next
  case (Some token)
  then have "\<exists>t d. authenticate_creator_api_token now (hash token) db = (Some (t, cra_human cr), d) \<and> hm_status (cra_human cr) = HumanActive"
    using assms by (auto simp: creator_auth_from_request_def may_create_def and_then_eq_Inr result_simps split: option.splits prod.splits)
  then show ?thesis by blast
qed

section \<open>The administrator gate\<close>

lemma session_owner_found:
  assumes "session_owner now th db = Some (s, p, x)"
  shows "s \<in> set (ac_sessions db)" "ses_token_hash s = th" "now < ses_expires_at s" "p \<in> set (ac_people db)" "pe_id p = ses_human s"
    "pe_status p \<in> {HumanActive, HumanSetupRequired}" "x \<in> set (ac_identities db)" "xi_human x = pe_id p"
  using sql_first_Some [OF assms [unfolded session_owner_def]] by simp_all

lemma session_owner_exists:
  assumes "s \<in> set (ac_sessions db)" "ses_token_hash s = th" "now < ses_expires_at s" "p \<in> set (ac_people db)" "pe_id p = ses_human s"
    "pe_status p \<in> {HumanActive, HumanSetupRequired}" "x \<in> set (ac_identities db)" "xi_human x = pe_id p"
  shows "session_owner now th db \<noteq> None"
proof
  assume "session_owner now th db = None"
  then have "\<not> (ses_token_hash s = th \<and> ses_expires_at s > now \<and> pe_id p = ses_human s
      \<and> pe_status p \<in> {HumanActive, HumanSetupRequired} \<and> xi_human x = pe_id p)"
    unfolding session_owner_def sql_first_None set_product using assms(1,4,7) by (elim ballE [of _ _ "(s, p, x)"]) simp_all
  then show False using assms by simp
qed

lemma session_owner_iff:
  assumes ok: "people_ok db" "sessions_ok db"
  shows "session_owner now th db = Some (s, p, x) \<longleftrightarrow>
     s \<in> set (ac_sessions db) \<and> ses_token_hash s = th \<and> now < ses_expires_at s \<and> p \<in> set (ac_people db) \<and> pe_id p = ses_human s
       \<and> pe_status p \<in> {HumanActive, HumanSetupRequired} \<and> x \<in> set (ac_identities db) \<and> xi_human x = pe_id p"
proof
  assume found: "session_owner now th db = Some (s, p, x)"
  show "s \<in> set (ac_sessions db) \<and> ses_token_hash s = th \<and> now < ses_expires_at s \<and> p \<in> set (ac_people db) \<and> pe_id p = ses_human s
       \<and> pe_status p \<in> {HumanActive, HumanSetupRequired} \<and> x \<in> set (ac_identities db) \<and> xi_human x = pe_id p"
    by (intro conjI session_owner_found [OF found])
next
  assume r: "s \<in> set (ac_sessions db) \<and> ses_token_hash s = th \<and> now < ses_expires_at s \<and> p \<in> set (ac_people db) \<and> pe_id p = ses_human s
       \<and> pe_status p \<in> {HumanActive, HumanSetupRequired} \<and> x \<in> set (ac_identities db) \<and> xi_human x = pe_id p"
  then have "session_owner now th db \<noteq> None" by (elim conjE) (rule session_owner_exists)
  then obtain s' p' x' where f: "session_owner now th db = Some (s', p', x')" by force
  note r' = session_owner_found [OF f]
  have s: "s' = s" using ok(2) r r'(1,2) pk_ok_inj [of ses_token_hash "ac_sessions db" s' s] by (simp add: sessions_ok_def)
  have p: "p' = p" using only_person [OF ok(1), of p p'] r r'(4,5) s by simp
  have "x' = x" using ok(1) r r'(7,8) p pk_ok_inj [of xi_human "ac_identities db" x' x] by (simp add: people_ok_def)
  then show "session_owner now th db = Some (s, p, x)" using f s p by simp
qed

definition admin_session :: "(string \<Rightarrow> string) \<Rightarrow> timestamp \<Rightarrow> request_parts \<Rightarrow> accounts \<Rightarrow> string \<Rightarrow> session_row \<Rightarrow> person_row \<Rightarrow> identity_row \<Rightarrow> bool" where
  "admin_session hash now rq db token s p x =
     (session_owner now (hash token) db = Some (s, p, x) \<and> pe_status p = HumanActive \<and> has_role db (pe_id p) RoleAdmin
      \<and> (requires_csrf (rq_method rq) \<longrightarrow> map_option hash (rq_csrf rq) = Some (ses_csrf_hash s)))"

lemma admin_gate_session:
  assumes "parse_bearer_token (rq_authorization rq) = None"
  shows "(\<exists>actor. fst (admin_auth_from_request hash api now rq db) = Inr actor) \<longleftrightarrow>
     (\<exists>token s p x. cookie_value (rq_cookie rq) (apc_session_cookie_name api) = Some token \<and> admin_session hash now rq db token s p x)"
proof (cases "cookie_value (rq_cookie rq) (apc_session_cookie_name api)")
  case None
  then show ?thesis using assms by (simp add: admin_auth_from_request_def authenticate_human_session_parts_def)
next
  case (Some token)
  show ?thesis
  proof (cases "session_owner now (hash token) db")
    case None
    then show ?thesis using assms Some
      by (simp add: admin_auth_from_request_def authenticate_human_session_parts_def authenticate_human_session_def admin_session_def)
  next
    case (Some spx)
    obtain s p x where spx: "spx = (s, p, x)" by (cases spx) blast
    have role: "RoleAdmin \<in> set (active_roles (pe_id p) db) \<longleftrightarrow> has_role db (pe_id p) RoleAdmin" by (simp add: active_roles_def)
    have "(\<exists>actor. fst (admin_auth_from_request hash api now rq db) = Inr actor) \<longleftrightarrow> admin_session hash now rq db token s p x"
      using assms \<open>cookie_value _ _ = Some token\<close> Some spx role
      by (auto simp: admin_auth_from_request_def authenticate_human_session_parts_def authenticate_human_session_def admin_session_def
          require_session_csrf_def human_record_of_def and_then_eq_Inr result_simps split: option.splits)
    moreover have "admin_session hash now rq db token s' p' x' \<longleftrightarrow> (s', p', x') = (s, p, x) \<and> admin_session hash now rq db token s p x" for s' p' x'
      using Some spx by (auto simp: admin_session_def)
    ultimately show ?thesis using \<open>cookie_value _ _ = Some token\<close> by (metis option.inject)
  qed
qed

lemma admin_session_accepted:
  assumes ok: "people_ok db" "sessions_ok db" and none: "parse_bearer_token (rq_authorization rq) = None"
  shows "(\<exists>actor. fst (admin_auth_from_request hash api now rq db) = Inr actor) \<longleftrightarrow>
     (\<exists>token. cookie_value (rq_cookie rq) (apc_session_cookie_name api) = Some token
        \<and> (\<exists>s \<in> set (ac_sessions db). ses_token_hash s = hash token \<and> now < ses_expires_at s
             \<and> human_active db (ses_human s) \<and> has_role db (ses_human s) RoleAdmin \<and> ses_human s \<in> xi_human ` set (ac_identities db)
             \<and> (requires_csrf (rq_method rq) \<longrightarrow> map_option hash (rq_csrf rq) = Some (ses_csrf_hash s))))"
proof -
  have "(\<exists>s p x. admin_session hash now rq db token s p x) \<longleftrightarrow>
     (\<exists>s \<in> set (ac_sessions db). ses_token_hash s = hash token \<and> now < ses_expires_at s
             \<and> human_active db (ses_human s) \<and> has_role db (ses_human s) RoleAdmin \<and> ses_human s \<in> xi_human ` set (ac_identities db)
             \<and> (requires_csrf (rq_method rq) \<longrightarrow> map_option hash (rq_csrf rq) = Some (ses_csrf_hash s)))" (is "?L \<longleftrightarrow> ?R") for token
  proof
    assume ?L
    then obtain s p x where a: "admin_session hash now rq db token s p x" by blast
    then show ?R unfolding admin_session_def session_owner_iff [OF ok] human_active_iff
      by (intro bexI [of _ s]) (auto intro: rev_image_eqI)
  next
    assume ?R
    then obtain s p x where "s \<in> set (ac_sessions db)" "ses_token_hash s = hash token" "now < ses_expires_at s"
      "p \<in> set (ac_people db)" "pe_id p = ses_human s" "pe_status p = HumanActive" "has_role db (ses_human s) RoleAdmin"
      "x \<in> set (ac_identities db)" "ses_human s = xi_human x"
      "requires_csrf (rq_method rq) \<longrightarrow> map_option hash (rq_csrf rq) = Some (ses_csrf_hash s)"
      unfolding human_active_iff by blast
    then have "admin_session hash now rq db token s p x" unfolding admin_session_def session_owner_iff [OF ok] by simp
    then show ?L by blast
  qed
  then show ?thesis unfolding admin_gate_session [OF none] by blast
qed

end
