(* ===== verification/Account_Guarantees.thy ===== *)
theory Account_Guarantees
  imports Account_Workflows
begin

text \<open>
  What holds of the accounts in every reachable state, whatever requests run and however their transactions
  interleave, with a concrete history on which each property is evaluated.
\<close>

section \<open>A history\<close>

definition demo_config :: account_config where
  "demo_config = \<lparr>acf_max_active_agents = 2, acf_label_key = (\<lambda>s. s), acf_hash = (\<lambda>s. CHR ''#'' # s)\<rparr>"

text \<open>
  Ann is the first administrator and issues a code; Bob and an agent use it, Ann signs in and makes Bob an
  administrator.
\<close>

definition demo_history :: "account_op list" where
  "demo_history =
     [AccResolve 1 (''r1'', ''r2'') \<lparr>rgh_fallback_human_id = ''a'', rgh_github_user_id = 1, rgh_github_login = ''ann'', rgh_bootstrap_admin_candidate = True\<rparr>,
      AccCreateCode 2 \<lparr>cpc_id = ''k'', cpc_display = ''00000000'', cpc_hash = ''#00000000'', cpc_label = None, cpc_note = [], cpc_max_uses = 2,
        cpc_expires_at = None, cpc_human = Some ''a'', cpc_token = None, cpc_created_by_display = ''@ann''\<rparr>,
      AccResolve 3 (''r3'', ''r4'') \<lparr>rgh_fallback_human_id = ''b'', rgh_github_user_id = 2, rgh_github_login = ''bob'', rgh_bootstrap_admin_candidate = False\<rparr>,
      AccCompleteSetup 4 (''u1'', ''r5'') ''b'' ''#00000000'',
      AccRegisterWithCode 5 ''u2'' \<lparr>rg_agent_id = ''g'', rg_token_id = ''t'', rg_token_hash = ''#tok'', rg_display_name = ''agent'',
        rg_agent_description = [], rg_model_info = []\<rparr> ''#00000000'' AgentApi,
      AccCreateSession \<lparr>ses_id = ''s'', ses_token_hash = ''#sess'', ses_csrf_hash = ''#csrf'', ses_human = ''a'', ses_expires_at = 100, ses_last_used_at = None\<rparr>,
      AccGrantAdmin 6 ''r6'' ''b'' ''a'']"

definition demo_state :: accounts where
  "demo_state =
     \<lparr>ac_agents = [\<lparr>ra_id = ''g'', ra_display_name = ''agent'', ra_description = [], ra_model_info = [], ra_status = AgentActive, ra_created_at = 5\<rparr>],
      ac_agent_tokens = [\<lparr>agt_id = ''t'', agt_agent = ''g'', agt_hash = ''#tok'', agt_revoked_at = None, agt_last_used_at = None\<rparr>],
      ac_people = [\<lparr>pe_id = ''a'', pe_status = HumanActive, pe_created_at = 1, pe_disabled_at = None, pe_deleted_at = None\<rparr>,
        \<lparr>pe_id = ''b'', pe_status = HumanActive, pe_created_at = 3, pe_disabled_at = None, pe_deleted_at = None\<rparr>],
      ac_identities = [\<lparr>xi_human = ''a'', xi_github_user_id = 1, xi_login = ''ann'', xi_updated_at = 1\<rparr>,
        \<lparr>xi_human = ''b'', xi_github_user_id = 2, xi_login = ''bob'', xi_updated_at = 3\<rparr>],
      ac_roles = [\<lparr>ro_id = ''r1'', ro_human = ''a'', ro_role = RoleCreator, ro_granted_by = None, ro_granted_at = 1, ro_revoked_by = None, ro_revoked_at = None\<rparr>,
        \<lparr>ro_id = ''r2'', ro_human = ''a'', ro_role = RoleAdmin, ro_granted_by = None, ro_granted_at = 1, ro_revoked_by = None, ro_revoked_at = None\<rparr>,
        \<lparr>ro_id = ''r5'', ro_human = ''b'', ro_role = RoleCreator, ro_granted_by = None, ro_granted_at = 4, ro_revoked_by = None, ro_revoked_at = None\<rparr>,
        \<lparr>ro_id = ''r6'', ro_human = ''b'', ro_role = RoleAdmin, ro_granted_by = Some ''a'', ro_granted_at = 6, ro_revoked_by = None, ro_revoked_at = None\<rparr>],
      ac_sessions = [\<lparr>ses_id = ''s'', ses_token_hash = ''#sess'', ses_csrf_hash = ''#csrf'', ses_human = ''a'', ses_expires_at = 100, ses_last_used_at = None\<rparr>], ac_admin_tokens = [], ac_creator_tokens = [], ac_states = [],
      ac_codes = [\<lparr>pc_id = ''k'', pc_display = ''00000000'', pc_hash = ''#00000000'', pc_label = None, pc_note = [], pc_max_uses = 2, pc_use_count = 2, pc_status = PioneerActive, pc_expires_at = None, pc_created_by_human = Some ''a'', pc_created_by_token = None, pc_created_by_display = ''@ann'', pc_created_at = 2, pc_revoked_at = None\<rparr>],
      ac_uses = [\<lparr>cu_id = ''u1'', cu_code = ''k'', cu_subject = UsedByHuman ''b'', cu_kind = HumanGithubSignIn, cu_used_at = 4\<rparr>,
        \<lparr>cu_id = ''u2'', cu_code = ''k'', cu_subject = UsedByAgent ''g'', cu_kind = AgentApi, cu_used_at = 5\<rparr>],
      ac_locks = [''global:bootstrap-admin'', ''global:active-agents'']\<rparr>"

lemmas account_eval = commit_def transact_def Let_def and_then_def guard_err_def ok_or_def no_violation_def try_each.simps
  lock_account_scope_def sql_insert_def sql_update_def sql_delete_def sql_count_def sql_first_def person_by_id_def
  has_role_def person_exists_def human_active_def active_roles_def human_record_of_def
  resolve_github_human_tx_def find_github_human_for_update_tx_def insert_human_tx_def activate_human_tx_def
  insert_github_identity_tx_def grant_role_tx_def active_admin_exists_tx_def active_admin_count_tx_def
  create_pioneer_code_def new_pioneer_code_def complete_human_setup_tx_def consume_pioneer_code_for_human_tx_def
  consume_pioneer_code_for_agent_tx_def code_by_hash_def code_unavailable_def insert_code_use_def increment_use_count_def
  register_agent_with_pioneer_code_def enforce_active_agent_quota_tx_def count_active_agents_tx_def insert_agent_tx_def
  new_agent_def insert_agent_token_tx_def new_agent_token_def create_human_session_def grant_admin_role_tx_def
  ensure_active_human_tx_def no_accounts_def i64_max_def
  revoke_pioneer_code_def revoke_code_row_def in_agents_of_code in_humans_of_code set_up_again_def revoke_agent_token_def
  delete_human_account_def or_else_def revoke_role_def deleted_github_login_def
  revoke_admin_service_tokens_created_by_human_tx_def

lemma demo_trims [simp]: "trim ''ann'' = ''ann''" "trim ''bob'' = ''bob''"
  by (rule trim_printable; simp add: byte_of_def)+

lemma demo_state_reached: "fold (run_account_op demo_config) demo_history no_accounts = demo_state"
  unfolding demo_history_def demo_state_def by (simp add: account_eval demo_config_def)

lemma demo_reach: "account_reach demo_config demo_state"
  unfolding demo_state_reached [symmetric] by (rule account_reach_run) (rule account_reach.Start)

section \<open>Guarantees\<close>

text \<open>
  C21. Admission stays within its limits in every reachable state: a code counts its uses, has no more of them
  than it allows, and admits a subject at most once; the active agents never exceed the quota.
\<close>

theorem admission_stays_within_limits:
  assumes "account_reach cf db"
  shows "(\<forall>c \<in> set (ac_codes db). pc_use_count c = sql_count (\<lambda>u. cu_code u = pc_id c) (ac_uses db)
            \<and> (pc_max_uses c = -1 \<or> pc_use_count c \<le> pc_max_uses c))
     \<and> distinct (map (\<lambda>u. (cu_code u, cu_subject u)) (ac_uses db))
     \<and> sql_count (\<lambda>a. ra_status a = AgentActive) (ac_agents db) \<le> max 0 (acf_max_active_agents cf)"
  using accounts_ok_reach [OF assms] unfolding accounts_ok_def codes_ok_def active_count_def code_counted_def list_all_iff by auto

theorem admission_stays_within_limits_witness:
  "account_reach demo_config demo_state
     \<and> sql_count (\<lambda>a. ra_status a = AgentActive) (ac_agents demo_state) = 1 \<and> acf_max_active_agents demo_config = 2
     \<and> sql_count (\<lambda>a. ra_status a = AgentActive) (ac_agents demo_state) \<le> max 0 (acf_max_active_agents demo_config)"
  using demo_reach admission_stays_within_limits [OF demo_reach] by (simp add: demo_state_def demo_config_def sql_count_def)

text \<open>
  C22. Revoking a code bars the agents that it admitted for good: once a code of a reachable state is revoked,
  whatever happens afterwards, an agent that it admitted is disabled, its tokens are revoked, and no bearer
  token authenticates as it.
\<close>

theorem revoked_codes_bar_their_agents:
  assumes "account_reach cf db" and "c \<in> set (ac_codes db)" and "pc_status c = PioneerRevoked"
    and "u \<in> set (ac_uses db)" and "cu_code u = pc_id c" and "cu_subject u = UsedByAgent a"
  shows "let db' = fold (run_account_op cf) ops db in
     (\<forall>x \<in> set (ac_agents db'). ra_id x = a \<longrightarrow> ra_status x = AgentDisabled)
     \<and> (\<forall>t \<in> set (ac_agent_tokens db'). agt_agent t = a \<longrightarrow> agt_revoked_at t \<noteq> None)
     \<and> (\<forall>hash now rq g. fst (agent_auth_from_request hash now rq db') = Inr g \<longrightarrow> aga_agent_id g \<noteq> a)"
proof -
  let ?db = "fold (run_account_op cf) ops db"
  obtain c' where c': "c' \<in> set (ac_codes ?db)" "pc_id c' = pc_id c" "pc_status c' = PioneerRevoked" and u: "u \<in> set (ac_uses ?db)"
    using codes_last_run [of db cf ops] assms(2-4) unfolding codes_last_def by blast
  have "accounts_ok (acf_max_active_agents cf) ?db" using accounts_ok_reach account_reach_run assms(1) by blast
  then have "retired (ac_agents ?db) (ac_agent_tokens ?db) a"
    using c' u assms(5,6) unfolding accounts_ok_def agents_ok_def by metis
  then have gone: "\<forall>x \<in> set (ac_agents ?db). ra_id x = a \<longrightarrow> ra_status x = AgentDisabled"
    "\<forall>t \<in> set (ac_agent_tokens ?db). agt_agent t = a \<longrightarrow> agt_revoked_at t \<noteq> None" by (simp_all add: retired_def)
  have "aga_agent_id g \<noteq> a" if "fst (agent_auth_from_request hash now rq ?db) = Inr g" for hash now rq g
  proof -
    obtain token x d where "authenticate_agent_token hash now token ?db = (Some x, d)" "aga_agent_id g = aa_agent_id x"
      using \<open>fst (agent_auth_from_request hash now rq ?db) = Inr g\<close>
      by (auto simp: agent_auth_from_request_def split: option.splits prod.splits)
    then show ?thesis using authenticated_agent_is_live [of hash now token ?db x d] gone(1) by fastforce
  qed
  then show ?thesis unfolding Let_def using gone by blast
qed

definition demo_revoked :: accounts where
  "demo_revoked = run_account_op demo_config (AccRevokeCode 7 ''k'') demo_state"

lemma demo_revoked_value:
  "ac_codes demo_revoked = [\<lparr>pc_id = ''k'', pc_display = ''00000000'', pc_hash = ''#00000000'', pc_label = None, pc_note = [], pc_max_uses = 2,
     pc_use_count = 2, pc_status = PioneerRevoked, pc_expires_at = None, pc_created_by_human = Some ''a'', pc_created_by_token = None,
     pc_created_by_display = ''@ann'', pc_created_at = 2, pc_revoked_at = Some 7\<rparr>]"
  "ac_uses demo_revoked = ac_uses demo_state" "map ra_status (ac_agents demo_revoked) = [AgentDisabled]"
  unfolding demo_revoked_def demo_state_def by (simp_all add: account_eval demo_config_def)

lemma demo_revoked_reach: "account_reach demo_config demo_revoked"
  unfolding demo_revoked_def by (rule account_reach.Step) (rule demo_reach)

theorem revoked_codes_bar_their_agents_witness:
  "fst (agent_auth_from_request (\<lambda>s. CHR ''#'' # s) 9
       \<lparr>rq_method = GET, rq_authorization = Some ''Bearer tok'', rq_cookie = None, rq_csrf = None\<rparr>
       (fold (run_account_op demo_config) [AccDeleteExpired 8] demo_revoked))
     \<noteq> Inr \<lparr>aga_agent_id = ''g'', aga_token_id = ''t'', aga_display_name = ''agent''\<rparr>"
proof -
  have "hd (ac_codes demo_revoked) \<in> set (ac_codes demo_revoked)" "pc_status (hd (ac_codes demo_revoked)) = PioneerRevoked"
    "ac_uses demo_revoked ! 1 \<in> set (ac_uses demo_revoked)" "cu_code (ac_uses demo_revoked ! 1) = pc_id (hd (ac_codes demo_revoked))"
    "cu_subject (ac_uses demo_revoked ! 1) = UsedByAgent ''g''"
    unfolding demo_revoked_value by (simp_all add: demo_state_def)
  note revoked_codes_bar_their_agents [OF demo_revoked_reach this, of "[AccDeleteExpired 8]"]
  then show ?thesis unfolding Let_def by fastforce
qed

text \<open>
  C23. A deleted account is final: in every state after it, no session, token or sign-in speaks for the human
  again, and its GitHub identity can neither sign in nor be bound to a new account.
\<close>

theorem deleted_accounts_are_final:
  assumes "account_reach cf db" and "p \<in> set (ac_people db)" and "pe_status p = HumanDeleted"
    and "x \<in> set (ac_identities db)" and "xi_human x = pe_id p"
  shows "let db' = fold (run_account_op cf) ops db in
     (\<forall>hash api now rq h. fst (human_auth_from_request hash api now rq db') = Inr h \<longrightarrow> hm_human_id (hau_human h) \<noteq> pe_id p)
     \<and> (\<forall>hash api now rq h g l. fst (admin_auth_from_request hash api now rq db') = Inr (AdminHuman h g l) \<longrightarrow> h \<noteq> pe_id p)
     \<and> (\<forall>hash api now rq cr. fst (creator_auth_from_request hash api now rq db') = Inr cr \<longrightarrow> hm_human_id (cra_human cr) \<noteq> pe_id p)
     \<and> (\<forall>now th t d. authenticate_admin_service_token now th db' = (Some t, d) \<longrightarrow> tk_owner t \<noteq> pe_id p)
     \<and> (\<forall>now rids inp. rgh_github_user_id inp = xi_github_user_id x \<longrightarrow>
          resolve_github_human_tx now rids inp db' = Inl (Forbidden ''linked human account has been deleted''))"
proof -
  let ?db = "fold (run_account_op cf) ops db"
  have cont: "people_ok ?db" "continues db ?db" using continues_run [OF people_ok_reach [OF assms(1)]] by blast+
  obtain q where q: "q \<in> set (ac_people ?db)" "pe_id q = pe_id p" "pe_status q = HumanDeleted"
    using cont(2) assms(2,3) unfolding continues_def by blast
  obtain y where y: "y \<in> set (ac_identities ?db)" "xi_human y = pe_id q" "xi_github_user_id y = xi_github_user_id x"
    using cont(2) assms(4,5) q(2) unfolding continues_def by metis
  note out = deleted_locked_out [OF cont(1) q(1,3), unfolded q(2)]
  have session: "hm_human_id (as_human s) \<noteq> pe_id p" if "authenticate_human_session hash now token ?db = (Some s, d)" for hash now token s d
    by (rule out(1) [OF that])
  have human: "hm_human_id (hau_human h) \<noteq> pe_id p" if "fst (human_auth_from_request hash api now rq ?db) = Inr h" for hash api now rq h
    using human_auth_session [OF that] session by metis
  have admin: "h \<noteq> pe_id p" if "fst (admin_auth_from_request hash api now rq ?db) = Inr (AdminHuman h g l)" for hash api now rq h g l
    using admin_auth_session [OF that] session by metis
  have creator: "hm_human_id (cra_human cr) \<noteq> pe_id p" if "fst (creator_auth_from_request hash api now rq ?db) = Inr cr" for hash api now rq cr
    using creator_auth_source [OF that] human out(3) by (metis human_status.distinct(5))
  have "resolve_github_human_tx now rids inp ?db = Inl (Forbidden ''linked human account has been deleted'')"
    if "rgh_github_user_id inp = xi_github_user_id x" for now rids inp
    using out(4) y that q(2) by simp
  then show ?thesis unfolding Let_def using human admin creator out(2) by blast
qed

definition demo_deleted :: accounts where
  "demo_deleted = run_account_op demo_config (AccDeleteAccount 8 ''a'') demo_state"

lemma demo_deleted_value:
  "ac_people demo_deleted =
     [\<lparr>pe_id = ''a'', pe_status = HumanDeleted, pe_created_at = 1, pe_disabled_at = None, pe_deleted_at = Some 8\<rparr>,
      \<lparr>pe_id = ''b'', pe_status = HumanActive, pe_created_at = 3, pe_disabled_at = None, pe_deleted_at = None\<rparr>]"
  "ac_identities demo_deleted =
     [\<lparr>xi_human = ''a'', xi_github_user_id = 1, xi_login = ''deleted-user-a'', xi_updated_at = 8\<rparr>,
      \<lparr>xi_human = ''b'', xi_github_user_id = 2, xi_login = ''bob'', xi_updated_at = 3\<rparr>]"
  unfolding demo_deleted_def demo_state_def by (simp_all add: account_eval demo_config_def)

lemma demo_deleted_reach: "account_reach demo_config demo_deleted"
  unfolding demo_deleted_def by (rule account_reach.Step) (rule demo_reach)

theorem deleted_accounts_are_final_witness:
  "resolve_github_human_tx 10 (''r7'', ''r8'')
     \<lparr>rgh_fallback_human_id = ''c'', rgh_github_user_id = 1, rgh_github_login = ''ann'', rgh_bootstrap_admin_candidate = True\<rparr>
     (fold (run_account_op demo_config) [AccDeleteExpired 9] demo_deleted) = Inl (Forbidden ''linked human account has been deleted'')"
  using deleted_accounts_are_final [OF demo_deleted_reach, of "hd (ac_people demo_deleted)" "hd (ac_identities demo_deleted)" "[AccDeleteExpired 9]"]
  unfolding demo_deleted_value Let_def by simp

text \<open>
  C24. An active administrator remains: from a reachable state that has one, every transaction except the
  revocation of a pioneer code leads to a state that has one, whoever is deleted or loses the role.
\<close>

theorem an_administrator_remains:
  assumes "account_reach cf db" and "active_admin_exists_tx db" and "\<forall>now c. op \<noteq> AccRevokeCode now c"
  shows "active_admin_exists_tx (run_account_op cf op db)"
  using admins_survive [OF people_ok_reach [OF assms(1)] _ assms(3)] assms(2) by (simp add: active_admin_exists)

theorem an_administrator_remains_witness:
  "active_admin_exists_tx demo_state \<and> active_admin_exists_tx (run_account_op demo_config (AccDeleteAccount 8 ''a'') demo_state)"
proof -
  have "active_admin_exists_tx demo_state" by (simp add: demo_state_def active_admin_exists_tx_def active_admin_count_tx_def sql_count_def)
  then show ?thesis using an_administrator_remains [OF demo_reach, of "AccDeleteAccount 8 ''a''"] by simp
qed

text \<open>
  The revocation of a code is an exception: it does not look for another administrator. After Ann has deleted
  her account, Bob is the only administrator, and revoking the code that admitted him leaves none, although his
  role stays granted.
\<close>

lemma revoking_a_code_can_leave_no_administrator:
  "active_admin_exists_tx demo_deleted \<and> \<not> active_admin_exists_tx (run_account_op demo_config (AccRevokeCode 9 ''k'') demo_deleted)
     \<and> has_role (run_account_op demo_config (AccRevokeCode 9 ''k'') demo_deleted) ''b'' RoleAdmin"
  unfolding demo_deleted_def demo_state_def by (simp add: account_eval demo_config_def)

text \<open>
  C25. The administrator gate accepts a request exactly when it carries a live service token of an active
  administrator or, without a bearer token, the cookie of a live session of an active administrator and, for
  a method that changes state, the CSRF token of that session.
\<close>

theorem admin_gate_exact:
  assumes "account_reach cf db"
  shows "(\<exists>actor. fst (admin_auth_from_request hash api now rq db) = Inr actor) \<longleftrightarrow>
     (case parse_bearer_token (rq_authorization rq) of
        Some token \<Rightarrow> \<exists>t \<in> set (ac_admin_tokens db). token_live now (hash token) t \<and> human_active db (tk_owner t) \<and> has_role db (tk_owner t) RoleAdmin
      | None \<Rightarrow> \<exists>token. cookie_value (rq_cookie rq) (apc_session_cookie_name api) = Some token
          \<and> (\<exists>s \<in> set (ac_sessions db). ses_token_hash s = hash token \<and> now < ses_expires_at s
               \<and> human_active db (ses_human s) \<and> has_role db (ses_human s) RoleAdmin \<and> ses_human s \<in> xi_human ` set (ac_identities db)
               \<and> (requires_csrf (rq_method rq) \<longrightarrow> map_option hash (rq_csrf rq) = Some (ses_csrf_hash s))))"
proof (cases "parse_bearer_token (rq_authorization rq)")
  case (Some token)
  then show ?thesis
    by (auto simp: admin_auth_from_request_def authenticate_admin_service_token_def split: option.splits dest: sql_first_Some)
next
  case None
  then show ?thesis
    using admin_session_accepted [OF people_ok_reach [OF assms] sessions_ok_reach [OF assms] None, of hash api now]
    by (simp only: option.case)
qed

definition demo_request :: request_parts where
  "demo_request = \<lparr>rq_method = OtherMethod ''POST'', rq_authorization = None, rq_cookie = Some ''session=sess'', rq_csrf = Some ''csrf''\<rparr>"

lemma demo_cookie: "cookie_value (rq_cookie demo_request) ''session'' = Some ''sess''"
proof -
  have "trim ''session=sess'' = ''session=sess''" by (rule trim_printable) (simp add: byte_of_def)
  then show ?thesis by (simp add: demo_request_def cookie_value_def split_once_def)
qed

theorem admin_gate_exact_witness:
  "\<exists>actor. fst (admin_auth_from_request (\<lambda>s. CHR ''#'' # s) \<lparr>apc_session_cookie_name = ''session'', apc_csrf_cookie_name = ''csrf''\<rparr> 50
     demo_request demo_state) = Inr actor"
  unfolding admin_gate_exact [OF demo_reach]
  by (simp only: api_config.simps demo_cookie, simp add: parse_bearer_token_def demo_request_def demo_state_def human_active_def has_role_def)

text \<open>
  The services and the request extractors change the accounts only by sequences of the transactions: each
  workflow, whatever it returns, leaves a state that some sequence of account operations leads to.
\<close>

lemma workflows_are_transactions:
  "let conf = account_config_of env cf label_key in
     by_transactions conf db (snd (register_agent_request env cf now pids use_id body db))
     \<and> by_transactions conf db (snd (start_github_sign_in_login env cf build_url now randoms return_to db))
     \<and> by_transactions conf db (snd (complete_github_sign_in_callback env cf exch fetch now hids sids state_token code nonce db))
     \<and> by_transactions conf db (snd (complete_human_setup env now cids h csrf expires code db))
     \<and> by_transactions conf db (snd (create_pioneer_code_for_admin env cf parse now kids actor request db))
     \<and> by_transactions conf db (snd (create_admin_service_token_for env label_key parse now tids h label valid_until db))
     \<and> by_transactions conf db (snd (agent_auth_from_request (aue_hash env) now rq db))
     \<and> by_transactions conf db (snd (admin_auth_from_request (aue_hash env) api now rq db))
     \<and> by_transactions conf db (snd (human_auth_from_request (aue_hash env) api now rq db))
     \<and> by_transactions conf db (snd (creator_auth_from_request (aue_hash env) api now rq db))"
  unfolding Let_def
  by (intro conjI register_workflow start_workflow callback_workflow setup_workflow create_code_workflow create_token_workflow
      agent_auth_workflow admin_auth_workflow human_auth_workflow creator_auth_workflow)

text \<open>
  A return path with a backslash after the first slash passes the check for same-site paths, although browsers
  read the two as the start of another host.
\<close>

lemma return_to_accepts_a_backslash:
  "normalize_return_to (Some (CHR ''/'' # CHR 0x5C # ''evil.example'')) = Inr (Some (CHR ''/'' # CHR 0x5C # ''evil.example''))"
proof -
  have "trim (CHR ''/'' # CHR 0x5C # ''evil.example'') = CHR ''/'' # CHR 0x5C # ''evil.example''"
    by (rule trim_printable) (simp add: byte_of_def)
  then show ?thesis by (simp add: normalize_return_to_def)
qed

end
