(* ===== verification/Sign_In_Guarantees.thy ===== *)
theory Sign_In_Guarantees
  imports Account_Guarantees
begin

text \<open>
  What a finished GitHub sign-in (\<open>complete_github_sign_in_callback\<close> of \<open>services/src/auth.rs\<close>) guarantees: a
  pending state of this browser was used up, GitHub vouched for the identity, the issued session speaks for the
  account of that identity and for no other, and nobody gains a role or becomes active, the bootstrap of the first
  administrator apart. The GitHub client (\<open>exchange_code\<close>, \<open>fetch_user\<close>) is an argument.
\<close>

section \<open>Resolving the account\<close>

lemma activated_other:
  assumes "p \<in> set (ac_people (activate_human_tx h db))" and "pe_id p \<noteq> h"
  shows "p \<in> set (ac_people db)"
  using assms by (auto simp: activate_human_tx_def in_sql_update)

lemma grant_frame_people:
  assumes "grant_role_tx now rid h r g db = Inr (u, db')"
  shows "ac_people db' = ac_people db \<and> ac_identities db' = ac_identities db \<and> ac_sessions db' = ac_sessions db \<and> ac_states db' = ac_states db"
  using grant_role_frame [OF assms] by auto

lemma bootstrap_grants:
  assumes "and_then (grant_role_tx now a h RoleCreator None db) (\<lambda>(_, x). grant_role_tx now b h RoleAdmin None x) = Inr (u, db')"
  shows "ac_people db' = ac_people db \<and> ac_identities db' = ac_identities db \<and> ac_sessions db' = ac_sessions db \<and> ac_states db' = ac_states db
    \<and> (\<forall>k r. has_role db' k r \<longrightarrow> has_role db k r \<or> k = h)"
proof -
  from assms obtain x where 1: "grant_role_tx now a h RoleCreator None db = Inr ((), x)" and 2: "grant_role_tx now b h RoleAdmin None x = Inr (u, db')"
    by (auto simp: and_then_eq_Inr)
  show ?thesis
    using grant_frame_people [OF 1] grant_frame_people [OF 2] grant_has_role [OF 1] grant_has_role [OF 2] by auto
qed

definition may_sign_in :: "uuid \<Rightarrow> accounts \<Rightarrow> bool" where
  "may_sign_in h db \<longleftrightarrow> (\<exists>p \<in> set (ac_people db). pe_id p = h \<and> pe_status p \<in> {HumanActive, HumanSetupRequired})"

text \<open>What the transaction promises of the account \<open>h\<close> that it resolves for a GitHub user.\<close>

definition resolves :: "resolve_github_human_input \<Rightarrow> accounts \<Rightarrow> uuid \<Rightarrow> accounts \<Rightarrow> bool" where
  "resolves inp db h db' \<longleftrightarrow>
     (\<exists>x \<in> set (ac_identities db'). xi_github_user_id x = rgh_github_user_id inp \<and> xi_human x = h)
     \<and> may_sign_in h db' \<and> (person_exists db h \<longrightarrow> may_sign_in h db)
     \<and> (\<forall>k. (has_role db' k RoleAdmin \<or> has_role db' k RoleCreator \<or> human_active db' k) \<longrightarrow>
          (has_role db' k RoleAdmin \<longrightarrow> has_role db k RoleAdmin) \<and> (has_role db' k RoleCreator \<longrightarrow> has_role db k RoleCreator)
            \<and> (human_active db' k \<longrightarrow> human_active db k)
          \<or> (k = h \<and> rgh_bootstrap_admin_candidate inp \<and> \<not> active_admin_exists_tx db))
     \<and> ac_sessions db' = ac_sessions db \<and> ac_states db' = ac_states db"

lemma resolve_existing:
  assumes ok: "people_ok db" and find: "find_github_human_for_update_tx (rgh_github_user_id inp) db = Some e"
    and run: "resolve_github_human_tx now rids inp db = Inr (h, db')"
  shows "resolves inp db h db'"
proof -
  obtain p x where px: "p \<in> set (ac_people db)" "x \<in> set (ac_identities db)" "xi_github_user_id x = rgh_github_user_id inp" "pe_id p = xi_human x"
    and e: "e = human_record_of p x db"
    using find by (auto simp: find_github_human_for_update_tx_def dest!: sql_first_Some)
  have h: "hm_human_id e = pe_id p" "hm_status e = pe_status p" by (simp_all add: e human_record_of_def)
  from run find obtain db4 where hid: "h = hm_human_id e" and st: "hm_status e \<noteq> HumanDisabled" "hm_status e \<noteq> HumanDeleted"
    and step: "(if rgh_bootstrap_admin_candidate inp
             then (let db1 = lock_bootstrap_admin_scope_tx db
                   in if \<not> active_admin_exists_tx db1
                      then (let db2 = activate_human_tx (hm_human_id e) db1
                            in and_then (grant_role_tx now (fst rids) (hm_human_id e) RoleCreator None db2) (\<lambda>(_, db3).
                               grant_role_tx now (snd rids) (hm_human_id e) RoleAdmin None db3))
                      else Inr ((), db1))
             else Inr ((), db)) = Inr ((), db4)"
    and db': "db' = db4\<lparr>ac_identities := sql_update (\<lambda>x. xi_github_user_id x = rgh_github_user_id inp)
            (\<lambda>x. x\<lparr>xi_login := trim (rgh_github_login inp), xi_updated_at := now\<rparr>) (ac_identities db4)\<rparr>"
    unfolding resolve_github_human_tx_def by (simp add: and_then_eq_Inr result_simps) blast
  have status: "pe_status p \<in> {HumanActive, HumanSetupRequired}" using st h(2) by (cases "pe_status p") auto
  let ?b = "rgh_bootstrap_admin_candidate inp \<and> \<not> active_admin_exists_tx db"
  have frame: "ac_identities db4 = ac_identities db \<and> ac_sessions db4 = ac_sessions db \<and> ac_states db4 = ac_states db
      \<and> (\<forall>k r. has_role db4 k r \<longrightarrow> has_role db k r \<or> k = h \<and> ?b) \<and> may_sign_in h db4
      \<and> (\<forall>k. human_active db4 k \<longrightarrow> human_active db k \<or> k = h \<and> ?b)"
  proof (cases ?b)
    case True
    let ?db2 = "activate_human_tx h (lock_bootstrap_admin_scope_tx db)"
    have no: "\<not> active_admin_exists_tx (lock_bootstrap_admin_scope_tx db)" using True by (simp add: active_admin_exists_tx_def)
    have "and_then (grant_role_tx now (fst rids) h RoleCreator None ?db2) (\<lambda>(_, db3). grant_role_tx now (snd rids) h RoleAdmin None db3) = Inr ((), db4)"
      using step True no by (simp add: hid)
    note g = bootstrap_grants [OF this]
    have "has_role ?db2 k r = has_role db k r" for k r by (simp add: has_role_def activate_human_tx_def)
    moreover have "may_sign_in h ?db2" unfolding may_sign_in_def activate_human_tx_def using px(1) status
      by (auto simp: bex_sql_update hid h(1) intro!: bexI [of _ p])
    moreover have "human_active db k" if "human_active ?db2 k" "k \<noteq> h" for k
      using that activated_other [of _ h "lock_bootstrap_admin_scope_tx db"] by (auto simp: human_active_iff)
    moreover have "ac_identities ?db2 = ac_identities db" "ac_sessions ?db2 = ac_sessions db" "ac_states ?db2 = ac_states db"
      by (simp_all add: activate_human_tx_def)
    moreover have "human_active db4 k = human_active ?db2 k" "may_sign_in k db4 = may_sign_in k ?db2" for k
      using g by (simp_all add: human_active_iff may_sign_in_def)
    ultimately show ?thesis using g True by metis
  next
    case False
    then have "db4 = lock_bootstrap_admin_scope_tx db \<or> db4 = db"
      using step by (auto simp: active_admin_exists_tx_def split: if_splits)
    moreover have "may_sign_in h db" unfolding may_sign_in_def using px(1) status hid h(1) by auto
    ultimately show ?thesis by (auto simp: may_sign_in_def human_active_iff)
  qed
  have "\<exists>y \<in> set (ac_identities db'). xi_github_user_id y = rgh_github_user_id inp \<and> xi_human y = h"
    using px frame hid h(1) by (auto simp: db' bex_sql_update intro!: bexI [of _ x])
  moreover have "may_sign_in h db" unfolding may_sign_in_def using px(1) status hid h(1) by auto
  moreover have "has_role db' k r = has_role db4 k r" "human_active db' k = human_active db4 k" "may_sign_in h db' = may_sign_in h db4" for k r
    by (simp_all add: db' has_role_def human_active_iff may_sign_in_def)
  moreover have "ac_sessions db' = ac_sessions db4" "ac_states db' = ac_states db4" by (simp_all add: db')
  ultimately show ?thesis using frame unfolding resolves_def by metis
qed

lemma new_human_tables:
  assumes "insert_human_tx now h st db = Inr (u, x)" and "insert_github_identity_tx now h gid login x = Inr (v, y)"
  shows "ac_roles y = ac_roles db \<and> ac_sessions y = ac_sessions db \<and> ac_states y = ac_states db
    \<and> ac_people y = sql_insert \<lparr>pe_id = h, pe_status = st, pe_created_at = now, pe_disabled_at = None, pe_deleted_at = None\<rparr> (ac_people db)
    \<and> (\<exists>i \<in> set (ac_identities y). xi_github_user_id i = gid \<and> xi_human i = h) \<and> \<not> person_exists db h"
  using assms by (auto simp: insert_human_tx_def insert_github_identity_tx_def and_then_eq_Inr split: if_splits)

lemma resolve_fresh:
  assumes find: "find_github_human_for_update_tx (rgh_github_user_id inp) db = None"
    and run: "resolve_github_human_tx now rids inp db = Inr (h, db')"
  shows "resolves inp db h db'"
proof -
  let ?db1 = "if rgh_bootstrap_admin_candidate inp then lock_bootstrap_admin_scope_tx db else db"
  let ?b = "rgh_bootstrap_admin_candidate inp \<and> \<not> active_admin_exists_tx ?db1"
  let ?h = "rgh_fallback_human_id inp"
  from run find obtain db2 where ins: "insert_human_tx now ?h (if ?b then HumanActive else HumanSetupRequired) ?db1 = Inr ((), db2)"
    and rest: "and_then (insert_github_identity_tx now ?h (rgh_github_user_id inp) (rgh_github_login inp) db2) (\<lambda>(_, db3).
       and_then (if ?b then and_then (grant_role_tx now (fst rids) ?h RoleCreator None db3) (\<lambda>(_, db4). grant_role_tx now (snd rids) ?h RoleAdmin None db4)
         else Inr ((), db3)) (\<lambda>(_, db5). Inr (?h, db5))) = Inr (h, db')"
    unfolding resolve_github_human_tx_def Let_def by (simp only: option.case and_then_eq_Inr split: prod.splits) auto
  from rest obtain db3 where link: "insert_github_identity_tx now ?h (rgh_github_user_id inp) (rgh_github_login inp) db2 = Inr ((), db3)"
    and rest2: "and_then (if ?b then and_then (grant_role_tx now (fst rids) ?h RoleCreator None db3) (\<lambda>(_, db4). grant_role_tx now (snd rids) ?h RoleAdmin None db4)
         else Inr ((), db3)) (\<lambda>(_, db5). Inr (?h, db5)) = Inr (h, db')"
    unfolding and_then_eq_Inr [of "insert_github_identity_tx _ _ _ _ _"] by auto
  from rest2 have h: "h = ?h" and roles: "(if ?b then and_then (grant_role_tx now (fst rids) ?h RoleCreator None db3) (\<lambda>(_, db4). grant_role_tx now (snd rids) ?h RoleAdmin None db4)
       else Inr ((), db3)) = Inr ((), db')"
    unfolding and_then_eq_Inr [of _ "\<lambda>(_, db5). Inr (?h, db5)"] by auto
  note new = new_human_tables [OF ins link]
  have b: "active_admin_exists_tx ?db1 = active_admin_exists_tx db" by (simp add: active_admin_exists_tx_def)
  have grants: "ac_people db' = ac_people db3 \<and> ac_identities db' = ac_identities db3 \<and> ac_sessions db' = ac_sessions db3 \<and> ac_states db' = ac_states db3
      \<and> (\<forall>k r. has_role db' k r \<longrightarrow> has_role db3 k r \<or> k = ?h \<and> ?b)"
  proof (cases ?b)
    case True
    from roles have "and_then (grant_role_tx now (fst rids) ?h RoleCreator None db3) (\<lambda>(_, db4). grant_role_tx now (snd rids) ?h RoleAdmin None db4) = Inr ((), db')"
      unfolding if_P [OF True] .
    from bootstrap_grants [OF this] True show ?thesis by blast
  next
    case False
    from roles have "db' = db3" unfolding if_not_P [OF False] by simp
    then show ?thesis by simp
  qed
  have base: "ac_people ?db1 = ac_people db" "ac_roles ?db1 = ac_roles db" "ac_sessions ?db1 = ac_sessions db" "ac_states ?db1 = ac_states db"
    by simp_all
  have "has_role db' k r \<longrightarrow> has_role db k r \<or> k = ?h \<and> ?b" for k r
    using grants new base unfolding has_role_def by simp
  moreover have "human_active db' k \<longrightarrow> human_active db k \<or> k = ?h \<and> ?b" for k
    using grants new base by (auto simp: human_active_iff)
  moreover have "may_sign_in ?h db'" using grants new by (auto simp: may_sign_in_def)
  moreover have "\<not> person_exists db ?h" using new base by (simp add: person_exists_def)
  ultimately show ?thesis using grants new base b unfolding resolves_def h by auto
qed

lemma resolve_ok:
  "people_ok db \<Longrightarrow> resolve_github_human_tx now rids inp db = Inr (h, db') \<Longrightarrow> resolves inp db h db'"
  using resolve_existing resolve_fresh by (cases "find_github_human_for_update_tx (rgh_github_user_id inp) db") blast+

section \<open>The callback\<close>

lemma consume_once:
  assumes "consume_callback_github_sign_in_state env now state nonce db = (Inr ret, db1)" and "ac_states db' = ac_states db1" and "now \<le> now'"
  shows "\<exists>st \<in> set (ac_states db). gs_hash st = aue_hash env state \<and> gs_nonce_hash st = aue_hash env nonce \<and> now < gs_expires_at st \<and> gs_return_to st = ret"
    and "fst (consume_callback_github_sign_in_state env now' state nonce db') = Inl Unauthorized"
    and "db1 = db\<lparr>ac_states := ac_states db1\<rparr>"
proof -
  let ?live = "\<lambda>t x. gs_hash x = aue_hash env state \<and> gs_nonce_hash x = aue_hash env nonce \<and> gs_expires_at x > t"
  have found: "map_option gs_return_to (sql_first (?live now) (ac_states db)) = Some ret" and db1: "db1 = db\<lparr>ac_states := sql_delete (?live now) (ac_states db)\<rparr>"
    using assms(1) by (auto simp: consume_callback_github_sign_in_state_def consume_github_sign_in_state_def Let_def result_simps)
  from found obtain st where "sql_first (?live now) (ac_states db) = Some st" "gs_return_to st = ret" by auto
  with sql_first_Some [OF this(1)]
  show "\<exists>st \<in> set (ac_states db). gs_hash st = aue_hash env state \<and> gs_nonce_hash st = aue_hash env nonce \<and> now < gs_expires_at st \<and> gs_return_to st = ret"
    by auto
  have "sql_first (?live now') (ac_states db') = None" unfolding sql_first_None using assms(2,3) db1 by auto
  then show "fst (consume_callback_github_sign_in_state env now' state nonce db') = Inl Unauthorized"
    by (simp add: consume_callback_github_sign_in_state_def consume_github_sign_in_state_def Let_def ok_or_def del: sql_first_None)
  show "db1 = db\<lparr>ac_states := ac_states db1\<rparr>" by (simp add: db1)
qed

lemma issued_session:
  assumes "issue_human_session env cf now sids human db = (Inr issued, db')"
  shows "\<exists>expires s. aue_add_seconds env now (iws_ttl_seconds issued) = Some expires \<and> s \<in> set (ac_sessions db')
    \<and> ses_token_hash s = aue_hash env (iws_session_token issued) \<and> ses_csrf_hash s = aue_hash env (iws_csrf_token issued)
    \<and> ses_human s = hm_human_id human \<and> ses_expires_at s = expires \<and> hsr_human (iws_response issued) = human
    \<and> db' = db\<lparr>ac_sessions := ac_sessions db'\<rparr>"
  using assms
  by (auto simp: issue_human_session_def session_expires_at_def create_human_session_def Let_def result_simps transact_ok and_then_eq_Inr
      conj_disj_distribR ex_disj_distrib split: sum.splits prod.splits)

lemma resolved_callback:
  assumes ok: "people_ok db" and run: "resolve_callback_human cf now ids user db = (Inr human, db')"
  shows "resolves \<lparr>rgh_fallback_human_id = fst ids, rgh_github_user_id = fst user, rgh_github_login = snd user,
      rgh_bootstrap_admin_candidate = (fst user \<in> set (auc_bootstrap_admins cf))\<rparr> db (hm_human_id human) db'"
proof -
  let ?inp = "\<lparr>rgh_fallback_human_id = fst ids, rgh_github_user_id = fst user, rgh_github_login = snd user,
      rgh_bootstrap_admin_candidate = (fst user \<in> set (auc_bootstrap_admins cf))\<rparr>"
  from run obtain h where tx: "resolve_github_human_tx now (snd ids) ?inp db = Inr (h, db')" and "get_human_by_id h db' = Inr human"
    by (auto simp: resolve_callback_human_def transact_def split: sum.splits prod.splits if_splits)
  then have "hm_human_id human = h"
    by (auto simp: get_human_by_id_def human_record_of_def split: option.splits dest!: sql_first_Some)
  then show ?thesis using resolve_ok [OF ok tx] by simp
qed

lemma session_speaks_for:
  assumes ok: "people_ok db" "sessions_ok db" and s: "s \<in> set (ac_sessions db)" "ses_token_hash s = hash token" "now < ses_expires_at s"
    and h: "may_sign_in (ses_human s) db" "ses_human s \<in> xi_human ` set (ac_identities db)"
  shows "\<exists>a d. authenticate_human_session hash now token db = (Some a, d) \<and> hm_human_id (as_human a) = ses_human s
    \<and> as_csrf_token_hash a = ses_csrf_hash s"
proof -
  obtain p x where "p \<in> set (ac_people db)" "pe_id p = ses_human s" "pe_status p \<in> {HumanActive, HumanSetupRequired}"
      "x \<in> set (ac_identities db)" "xi_human x = ses_human s"
    using h by (force simp: may_sign_in_def)
  then have "session_owner now (hash token) db = Some (s, p, x)" using s unfolding session_owner_iff [OF ok] by simp
  then show ?thesis using \<open>pe_id p = ses_human s\<close> by (simp add: authenticate_human_session_def human_record_of_def)
qed

text \<open>
  C26. A finished GitHub sign-in is authenticated. When the callback succeeds, this browser had a pending,
  unexpired sign-in whose state and nonce it presented, and the same state and nonce are refused from then on;
  GitHub vouched for the user, and the account is the one linked to that user, neither disabled nor deleted; until
  the session expires, its token authenticates as that account, and with the session's own CSRF token. Signing in
  makes nobody an administrator, a creator or active, except that the first administrator of the configured list
  becomes one while there is none.
\<close>

theorem github_sign_in_is_authenticated:
  assumes reach: "account_reach (account_config_of env cf label_key) db"
    and run: "complete_github_sign_in_callback env cf exchange_code fetch_user now ids sids state code nonce db = (Inr (issued, return_to), db')"
  shows "\<exists>h gid login access.
      (\<exists>st \<in> set (ac_states db). gs_hash st = aue_hash env state \<and> gs_nonce_hash st = aue_hash env nonce \<and> now < gs_expires_at st \<and> gs_return_to st = return_to)
    \<and> (\<forall>now' exchange' fetch' ids' sids' code'. now \<le> now' \<longrightarrow>
         fst (complete_github_sign_in_callback env cf exchange' fetch' now' ids' sids' state code' nonce db') = Inl Unauthorized)
    \<and> exchange_code code = Inr access \<and> fetch_user access = Inr (gid, login) \<and> h = hm_human_id (hsr_human (iws_response issued))
    \<and> (\<exists>x \<in> set (ac_identities db'). xi_github_user_id x = gid \<and> xi_human x = h) \<and> (person_exists db h \<longrightarrow> may_sign_in h db)
    \<and> (\<exists>expires. aue_add_seconds env now (iws_ttl_seconds issued) = Some expires \<and> (\<forall>now' < expires. \<exists>s d.
         authenticate_human_session (aue_hash env) now' (iws_session_token issued) db' = (Some s, d)
           \<and> hm_human_id (as_human s) = h \<and> as_csrf_token_hash s = aue_hash env (iws_csrf_token issued)))
    \<and> (\<forall>k. (has_role db' k RoleAdmin \<longrightarrow> has_role db k RoleAdmin) \<and> (has_role db' k RoleCreator \<longrightarrow> has_role db k RoleCreator)
          \<and> (human_active db' k \<longrightarrow> human_active db k)
        \<or> k = h \<and> gid \<in> set (auc_bootstrap_admins cf) \<and> \<not> active_admin_exists_tx db)"
proof -
  from run obtain db1 where st: "consume_callback_github_sign_in_state env now state nonce db = (Inr return_to, db1)"
    and run1: "(case and_then (exchange_code code) (\<lambda>access_token. and_then (fetch_user access_token) validate_github_user) of
             Inl e \<Rightarrow> (Inl e, db1)
           | Inr user \<Rightarrow>
               (case resolve_callback_human cf now ids user db1 of
                  (Inl e, db2) \<Rightarrow> (Inl e, db2)
                | (Inr human, db2) \<Rightarrow>
                    (case issue_human_session env cf now sids human db2 of
                       (Inl e, db3) \<Rightarrow> (Inl e, db3)
                     | (Inr issued, db3) \<Rightarrow> (Inr (issued, return_to), db3)))) = (Inr (issued, return_to), db')"
    unfolding complete_github_sign_in_callback_def by (auto split: prod.splits sum.splits)
  from run1 obtain user where gh: "and_then (exchange_code code) (\<lambda>access_token. and_then (fetch_user access_token) validate_github_user) = Inr user"
    by (auto split: sum.splits)
  from run1 gh obtain human db2 where rs: "resolve_callback_human cf now ids user db1 = (Inr human, db2)"
    and iss: "issue_human_session env cf now sids human db2 = (Inr issued, db')"
    by (auto split: prod.splits sum.splits)
  note s = issued_session [OF iss] and db1 = consume_once(3) [OF st refl order_refl]
  have same: "has_role db1 k r = has_role db k r" "human_active db1 k = human_active db k" "person_exists db1 k = person_exists db k"
      "may_sign_in k db1 = may_sign_in k db" "active_admin_exists_tx db1 = active_admin_exists_tx db" for k r
    by (subst db1, simp add: has_role_def human_active_def person_exists_def may_sign_in_def active_admin_exists_tx_def active_admin_count_tx_def)+
  have "human_tables db1 = human_tables db" by (subst db1) (simp add: human_tables_def)
  then have "people_ok db1" using people_ok_reach [OF reach] people_ok_tables by blast
  note r = resolved_callback [OF this rs, unfolded resolves_def same]
  have reach': "account_reach (account_config_of env cf label_key) db'"
    using by_reach [OF callback_workflow reach, of exchange_code fetch_user now ids sids state code nonce] run by simp
  note ok' = people_ok_reach [OF reach'] sessions_ok_reach [OF reach']
  from s obtain expires ses where ses: "aue_add_seconds env now (iws_ttl_seconds issued) = Some expires" "ses \<in> set (ac_sessions db')"
      "ses_token_hash ses = aue_hash env (iws_session_token issued)" "ses_csrf_hash ses = aue_hash env (iws_csrf_token issued)"
      "ses_human ses = hm_human_id human" "ses_expires_at ses = expires" "hsr_human (iws_response issued) = human"
    and db': "db' = db2\<lparr>ac_sessions := ac_sessions db'\<rparr>" by blast
  have same': "has_role db' k r = has_role db2 k r" "human_active db' k = human_active db2 k" "may_sign_in k db' = may_sign_in k db2"
      "ac_identities db' = ac_identities db2" "ac_states db' = ac_states db2" for k r
    by (subst db', simp add: has_role_def human_active_def may_sign_in_def)+
  let ?h = "hm_human_id human"
  from gh obtain access gid login where who: "exchange_code code = Inr access" "fetch_user access = Inr (gid, login)" "fst user = gid"
    by (auto simp: and_then_eq_Inr validate_github_user_def result_simps split: option.splits if_splits) (auto simp: github_user_id_try_new_def split: if_splits)
  have linked: "\<exists>x \<in> set (ac_identities db'). xi_github_user_id x = gid \<and> xi_human x = ?h" using r who(3) same' by simp
  have lives: "may_sign_in ?h db'" using r same' by simp
  have session: "\<exists>a d. authenticate_human_session (aue_hash env) now' (iws_session_token issued) db' = (Some a, d) \<and> hm_human_id (as_human a) = ?h
      \<and> as_csrf_token_hash a = aue_hash env (iws_csrf_token issued)" if "now' < expires" for now'
    using session_speaks_for [OF ok' ses(2), of "aue_hash env" "iws_session_token issued" now'] ses that lives linked by force
  have replay: "fst (complete_github_sign_in_callback env cf exchange' fetch' now' ids' sids' state code' nonce db') = Inl Unauthorized"
    if "now \<le> now'" for now' exchange' fetch' ids' sids' code'
  proof -
    have "ac_states db' = ac_states db1" using r same' by simp
    from consume_once(2) [OF st this that] show ?thesis
      by (cases "consume_callback_github_sign_in_state env now' state nonce db'") (simp add: complete_github_sign_in_callback_def)
  qed
  have gains: "(has_role db' k RoleAdmin \<longrightarrow> has_role db k RoleAdmin) \<and> (has_role db' k RoleCreator \<longrightarrow> has_role db k RoleCreator)
      \<and> (human_active db' k \<longrightarrow> human_active db k) \<or> k = ?h \<and> gid \<in> set (auc_bootstrap_admins cf) \<and> \<not> active_admin_exists_tx db" for k
    using r who(3) same' by auto
  show ?thesis
  proof (rule exI [of _ ?h], rule exI [of _ gid], rule exI [of _ login], rule exI [of _ access], intro conjI allI impI)
    show "?h = hm_human_id (hsr_human (iws_response issued))" using ses(7) by simp
    show "may_sign_in ?h db" if "person_exists db ?h" using r that by blast
    show "\<exists>expires. aue_add_seconds env now (iws_ttl_seconds issued) = Some expires \<and> (\<forall>now' < expires. \<exists>s d.
         authenticate_human_session (aue_hash env) now' (iws_session_token issued) db' = (Some s, d)
           \<and> hm_human_id (as_human s) = ?h \<and> as_csrf_token_hash s = aue_hash env (iws_csrf_token issued))"
      using ses(1) session by blast
  qed (fact consume_once(1) [OF st refl order_refl] replay who(1,2) linked gains)+
qed

text \<open>Bob signs in again in the history of \<open>Account_Guarantees\<close>.\<close>

definition demo_env :: auth_env where
  "demo_env = \<lparr>aue_hash = (\<lambda>s. CHR ''#'' # s), aue_add_seconds = (\<lambda>t s. Some (t + s)), aue_rfc3339 = (\<lambda>_. [])\<rparr>"

definition demo_auth :: auth_config where
  "demo_auth = \<lparr>auc_registration_mode = ModePioneerCode, auc_max_active_agents = 2, auc_bootstrap_admins = [1], auc_web_session_ttl_hours = 1,
     auc_github_client_id = None, auc_github_redirect_url = None, auc_local_testing_knobs = False\<rparr>"

definition demo_pending :: accounts where
  "demo_pending = demo_state\<lparr>ac_states := [\<lparr>gs_hash = ''#state'', gs_nonce_hash = ''#nonce'', gs_return_to = Some ''/me'', gs_expires_at = 600\<rparr>]\<rparr>"

definition demo_sign_in :: "timestamp \<Rightarrow> accounts \<Rightarrow> (human_session_response issued_web_session \<times> string option) result \<times> accounts" where
  "demo_sign_in now = complete_github_sign_in_callback demo_env demo_auth (\<lambda>_. Inr ''access'') (\<lambda>_. Inr (2, ''bob'')) now
     (''x'', ''y'', ''z'') (''s2'', ''tok2'', ''csrf2'') ''state'' ''code'' ''nonce''"

lemma demo_pending_reach: "account_reach (account_config_of demo_env demo_auth (\<lambda>s. s)) demo_pending"
proof -
  have cf: "account_config_of demo_env demo_auth (\<lambda>s. s) = demo_config"
    by (simp add: account_config_of_def demo_env_def demo_auth_def demo_config_def)
  have "fold (run_account_op demo_config) [AccCreateState \<lparr>gs_hash = ''#state'', gs_nonce_hash = ''#nonce'', gs_return_to = Some ''/me'', gs_expires_at = 600\<rparr>]
      demo_state = demo_pending"
    by (simp add: demo_pending_def commit_def create_github_sign_in_state_def transact_def demo_state_def sql_insert_def)
  with account_reach_run [OF demo_reach] show ?thesis unfolding cf by metis
qed

lemma demo_signs_in: "\<exists>issued. fst (demo_sign_in 50 demo_pending) = Inr (issued, Some ''/me'') \<and> iws_session_token issued = ''agentics_session_tok2''
    \<and> iws_ttl_seconds issued = 3600 \<and> hm_human_id (hsr_human (iws_response issued)) = ''b''"
  by (simp add: demo_sign_in_def demo_pending_def demo_state_def demo_env_def demo_auth_def complete_github_sign_in_callback_def
      consume_callback_github_sign_in_state_def consume_github_sign_in_state_def validate_github_user_def github_user_id_try_new_def
      resolve_callback_human_def get_human_by_id_def issue_human_session_def session_ttl_seconds_def session_expires_at_def i64_min_def
      create_web_session_token_def create_csrf_token_def account_eval)

theorem github_sign_in_is_authenticated_witness:
  "\<exists>s d. authenticate_human_session (\<lambda>s. CHR ''#'' # s) 3000 ''agentics_session_tok2'' (snd (demo_sign_in 50 demo_pending)) = (Some s, d)
     \<and> hm_human_id (as_human s) = ''b'' \<and> fst (demo_sign_in 70 (snd (demo_sign_in 50 demo_pending))) = Inl Unauthorized"
proof -
  obtain issued where i: "fst (demo_sign_in 50 demo_pending) = Inr (issued, Some ''/me'')" "iws_session_token issued = ''agentics_session_tok2''"
      "iws_ttl_seconds issued = 3600" "hm_human_id (hsr_human (iws_response issued)) = ''b''"
    using demo_signs_in by blast
  then have run: "complete_github_sign_in_callback demo_env demo_auth (\<lambda>_. Inr ''access'') (\<lambda>_. Inr (2, ''bob'')) 50
     (''x'', ''y'', ''z'') (''s2'', ''tok2'', ''csrf2'') ''state'' ''code'' ''nonce'' demo_pending = (Inr (issued, Some ''/me''), snd (demo_sign_in 50 demo_pending))"
    by (simp add: demo_sign_in_def prod_eq_iff)
  have env: "aue_hash demo_env = (\<lambda>s. CHR ''#'' # s)" "aue_add_seconds demo_env 50 3600 = Some 3650" by (simp_all add: demo_env_def)
  from github_sign_in_is_authenticated [OF demo_pending_reach run] show ?thesis
  proof (elim exE conjE)
    fix h expires
    assume h: "h = hm_human_id (hsr_human (iws_response issued))"
      and replay: "\<forall>now' exchange' fetch' ids' sids' code'. 50 \<le> now' \<longrightarrow> fst (complete_github_sign_in_callback demo_env demo_auth exchange' fetch' now' ids' sids'
        ''state'' code' ''nonce'' (snd (demo_sign_in 50 demo_pending))) = Inl Unauthorized"
      and "aue_add_seconds demo_env 50 (iws_ttl_seconds issued) = Some expires"
      and session: "\<forall>now' < expires. \<exists>s d. authenticate_human_session (aue_hash demo_env) now' (iws_session_token issued) (snd (demo_sign_in 50 demo_pending)) = (Some s, d)
        \<and> hm_human_id (as_human s) = h \<and> as_csrf_token_hash s = aue_hash demo_env (iws_csrf_token issued)"
    then have "(3000::int) < expires" using env(2) i(3) by simp
    from session [rule_format, OF this] obtain s d where
        "authenticate_human_session (\<lambda>s. CHR ''#'' # s) 3000 ''agentics_session_tok2'' (snd (demo_sign_in 50 demo_pending)) = (Some s, d)"
        "hm_human_id (as_human s) = ''b''"
      unfolding env(1) i(2) h i(4) by blast
    moreover have "fst (demo_sign_in 70 (snd (demo_sign_in 50 demo_pending))) = Inl Unauthorized"
      unfolding demo_sign_in_def [of 70] by (rule replay [rule_format]) simp
    ultimately show ?thesis by blast
  qed
qed

end
