(* ===== verification/Spec2Isabelle.thy ===== *)
theory Spec2Isabelle
  imports Lifecycle_Guarantees Worker_Guarantees Cycle_Refinement Admission_Guarantees Result_Guarantees
    Review_Guarantees Contract_Guarantees Bundle_Files Bundle_Copy
    Storage_Guarantees S3_Guarantees Local_Listing Account_Guarantees Sign_In_Guarantees
begin

text \<open>
  A verification development of Agentics, a platform on which agents submit solutions to published
  challenges, workers evaluate them in containers, and a leaderboard ranks the official results.

  \<^bold>\<open>The program.\<close> The API server (\<open>backend/api-server\<close>) calls service functions
  (\<open>crates/services\<close>), which run SQL transactions (\<open>crates/persistence\<close>) on PostgreSQL
  (\<open>backend/migrations\<close>). A worker process (\<open>backend/worker\<close>) polls the job queue, claims one
  evaluation job, lets the runner (\<open>crates/runner\<close>) execute it in Docker while it refreshes its
  lease, and persists the result; each cycle starts with a reaper that takes stale jobs away and with
  the removal of containers that no live claim stands behind. Names, contracts, results and errors are
  types of \<open>crates/domain\<close> and \<open>crates/error\<close>.

  \<^bold>\<open>How it is modelled.\<close> A table is a list of records and a statement a function on the tables
  (\<open>Sql_Tables\<close>, \<open>Db_Schema\<close>). A transaction maps the tables to an error or to a value and new
  tables, and commits or rolls back as a whole (\<open>transact\<close>). Errors are values of \<open>service_error\<close>. The
  clock, the RFC 3339 parser, the hex decoder, Docker, the JSON encoder and the text collation of the
  database are arguments. A string is the list of its UTF-8 bytes. Integers are \<open>int\<close> or \<open>nat\<close>, with
  the bound written out where the code checks it.

  \<^bold>\<open>Theories.\<close>
  \<^item> \<open>Prelude\<close>: results, comparators and sorting, checked integers, ASCII and trimming.
  \<^item> \<open>Sql_Tables\<close>: select, update, delete, upsert, \<open>ORDER BY ... LIMIT 1\<close>; the locale \<open>keyed_table\<close> of
    lookups by primary key.
  \<^item> \<open>Service_Error\<close>: \<open>crates/error/src/lib.rs\<close> and the database workflow errors.
  \<^item> \<open>Names\<close>: \<open>models/names.rs\<close>, \<open>domain/src/storage.rs\<close>, \<open>models/hashes.rs\<close>; the validators agree with the
    published JSON Schema patterns.
  \<^item> \<open>Challenge_Spec\<close>: the contract of a challenge, \<open>models/challenge/\<close>, and its public projection.
  \<^item> \<open>Evaluation_Model\<close>: \<open>models/evaluation.rs\<close>, statuses, result validation and the ranking comparator.
  \<^item> \<open>Db_Schema\<close>: the rows, keys, unique indexes and cascades of the migrations.
  \<^item> \<open>Evaluation_Policy\<close>: \<open>db/evaluation_policy.rs\<close>, who may submit when.
  \<^item> \<open>Leaderboard\<close>: \<open>db/leaderboard.rs\<close>, repair, upsert and listing.
  \<^item> \<open>Evaluation_Jobs\<close>: \<open>db/evaluation_jobs.rs\<close>, the queue. \<open>Evaluations\<close>: \<open>db/evaluations.rs\<close>, start and
    finish. \<open>Maintenance\<close>: \<open>db/maintenance.rs\<close>, heartbeats and the reaper. \<open>Solution_Submissions\<close>:
    \<open>db/solution_submissions.rs\<close> and the quota code, creation and its limits.
  \<^item> \<open>Challenge_Publishing\<close>: \<open>db/challenges/publishing.rs\<close>.
  \<^item> \<open>Runner_Policy\<close>: the decisions of \<open>crates/runner\<close> that do no I/O.
  \<^item> \<open>Worker_Cycle\<close>: \<open>services/evaluation_lifecycle.rs\<close>, one polling cycle.
  \<^item> \<open>Lifecycle_Invariants\<close>, \<open>Lifecycle_Steps\<close>, \<open>Lifecycle_Results\<close>, \<open>Lifecycle_Reaper\<close>,
    \<open>Lifecycle_Admission\<close>: the invariant \<open>pipeline_ok\<close> of the tables and its preservation by each
    operation; the three passes of the reaper are interpretations of one locale.
  \<^item> \<open>Lifecycle_System\<close>: the running system as an inductive step relation, in which database calls of
    requests, workers, reapers and administrators interleave, and \<open>system_ok\<close>, which every reachable
    state satisfies. \<open>Lifecycle_Example\<close>: a concrete run for witnesses.
  \<^item> \<open>Lifecycle_Guarantees\<close>, \<open>Worker_Guarantees\<close>, \<open>Cycle_Refinement\<close>, \<open>Admission_Guarantees\<close>,
    \<open>Result_Guarantees\<close>: what follows for the leaderboard, submissions, jobs, workers, quotas and
    results.
  \<^item> \<open>Image_Reference\<close>: \<open>models/images.rs\<close>. \<open>Archive_Envelope\<close>: \<open>contracts/validation/archive.rs\<close>, inspection and
    extraction of untrusted ZIP archives. \<open>Bundle_Validation\<close>, \<open>Bundle_Files\<close>: \<open>contracts/challenge_bundle.rs\<close>, the
    validators of a contract and of the files of its bundle. \<open>Bundle_Copy\<close>:
    \<open>contracts/challenge_bundle/filesystem.rs\<close>, copies and the bundle digest. \<open>Contract_Guarantees\<close>: which contracts
    are accepted and what that gives to admission and ranking.
  \<^item> \<open>Creation_Manifest\<close>, \<open>Review_Digest\<close>: \<open>contracts/challenge_creation.rs\<close>, the manifest of a proposal, the
    checks of its checkout and the review digest; the locale \<open>byte_code\<close> of prefix-free encodings.
  \<^item> \<open>Review_Records\<close>: \<open>db/challenge_creation\<close>, the transactions on review records, validations and private
    assets. \<open>Review_Service\<close>: the workflows of \<open>services/challenge_review_records\<close> over them.
  \<^item> \<open>Review_Automaton\<close>: the abstract automaton of one review record. \<open>Review_Refinement\<close>: its simulation
    by every transaction. \<open>Review_System\<close>: the interleaving of the transactions. \<open>Review_Example\<close>: a
    concrete run. \<open>Review_Guarantees\<close>: what follows for approved and published challenges.
  \<^item> \<open>Tar_Archive\<close>: \<open>storage/src/tar_archive.rs\<close>, packing and unpacking of bundle directories. \<open>Local_Storage\<close>,
    \<open>S3_Storage\<close>, \<open>Local_Listing\<close>: the operations of \<open>storage/src/local.rs\<close> and \<open>s3.rs\<close> as programs of system calls
    and requests. \<open>Interleaving\<close>: such programs side by side, rely and guarantee, the locale \<open>cooperating\<close>.
    \<open>Storage_Io\<close>: the file system and the bucket as models of the calls, each of which may fail.
  \<^item> \<open>Local_Rely\<close>, \<open>Local_Calls\<close>, \<open>Local_Guarantees\<close>: the protocol of concurrent requests on one directory and
    its proof for every operation. \<open>Object_Store\<close>: the locale \<open>object_store\<close>, the contract of \<open>backend.rs\<close>;
    its interpretations are the local storage here and the bucket in \<open>S3_Guarantees\<close>.
    \<open>Storage_Guarantees\<close>: the contract for any set of local requests.
  \<^item> \<open>Identity_Tables\<close>: the identity tables and enums, \<open>models/auth.rs\<close>, \<open>models/pioneer_codes.rs\<close>.
    \<open>Pioneer_Codes\<close>, \<open>Agent_Accounts\<close>, \<open>Human_Accounts\<close>: the transactions of \<open>db/pioneer_codes.rs\<close>,
    \<open>db/agents.rs\<close> and \<open>db/sessions.rs\<close> with its submodules. \<open>Auth_Service\<close>: the workflows of
    \<open>services/auth.rs\<close> and the account part of \<open>services/admin.rs\<close>. \<open>Request_Auth\<close>: the extractors of
    \<open>api-server/extractors.rs\<close>, which decide for whom a request speaks.
  \<^item> \<open>Account_System\<close>: the account transactions in any order. \<open>Account_Invariants\<close>, \<open>Account_People\<close>: what
    each of them keeps of codes, agents and humans. \<open>Account_Workflows\<close>: workflows and extractors as
    sequences of transactions. \<open>Account_Guarantees\<close>: what follows, and a concrete history.

  \<^bold>\<open>What is shown.\<close> In every reachable state: leaderboard rows are the best completed official
  results of their agents and none is missing; visibility means a completed official result; statuses
  mirror jobs; at most one job of a submission is active and at most one execution can persist. Workers
  that lost their claim are fenced out; due jobs are claimed in order; the reaper always commits and
  leaves nothing stale; a polling cycle refines the step relation. Quotas hold after every creation,
  the preflight check agrees with the transaction, and re-runs are exclusive. Validators agree with
  their declarative descriptions, the SQL ranking with the Rust one, encodings round-trip, logs are
  bounded, and redacted or internal failures reveal nothing. Challenge review refines an automaton: only
  content that passed validation is approved and published, approved records are frozen, publication is
  all or nothing, and the review digest identifies the reviewed files. Accepted contracts are exactly those of
  a declarative description and are safe to admit and to rank; extraction stays inside its directory and
  its limits; public copies contain nothing private. Stored objects are written once and as a whole, also when
  requests interleave and calls fail; bundle archives round-trip and unpack inside their directory. Admission
  of accounts stays within codes and quotas, revoked codes and deleted accounts are final, an administrator
  remains unless a code is revoked, and the administrator gate accepts exactly the credentials it should.

  \<^bold>\<open>Bounds.\<close> Every recursive function terminates, apart from the paging loops over a bucket, which end exactly
  when its pages do; there is no fuel. The refreshes of a lease are a
  finite list of times. The step relation leaves the number of requests, workers and steps open.

  \<^bold>\<open>Not modelled.\<close> HTTP routing and rendering, the GitHub client, hashing and random tokens, the Docker calls and container
  phases of the runner, configuration parsing, read-only listing queries other than the
  leaderboard, the operations tools and the frontends. Two facts about the surroundings are guards of the step relation: a worker process has
  an id of its own and runs one cycle at a time, and an administrator re-runs a submission only after
  its creation request has returned. \<open>sync_seeded_challenge\<close> is modelled but is not a step: it may
  replace the ranking of a challenge that already has results. In the review system the ids of new private
  assets are not among the listed purge candidates, since they are generated UUIDs.
\<close>

end
